(* ===== verification/Frely_Prelude.thy ===== *)
theory Frely_Prelude
  imports Complex_Main "HOL-Library.Multiset" "HOL-Library.Sublist"
begin

section \<open>Shared vocabulary of the development\<close>

text \<open>
  What every component theory uses: the JavaScript values the code inspects, thrown errors as
  values, the two effect shapes of the code (a computation that may throw; a method that
  mutates an object and may throw), the stable \<open>Array.prototype.sort\<close>, and the character
  classes of the regular expressions in the source.

  Strings are lists of \<open>char\<close>: a JavaScript string whose UTF-16 code units are all
  below 256, one \<open>char\<close> per code unit. Numbers are IEEE doubles: \<open>JFin q\<close> is the finite double
  whose exact value is the rational \<open>q\<close> (so \<open>0\<close> and \<open>-0\<close>, which the code never tells
  apart, are one value).
\<close>

named_theorems effects \<comment> \<open>how a composed computation returns or throws\<close>
named_theorems sort_facts \<comment> \<open>what the stable sort keeps\<close>

subsection \<open>JavaScript values\<close>

datatype jsnum = JNaN | JInf bool | JFin rat

datatype jsval =
    JUndefined
  | JNull
  | JBool bool
  | JNum jsnum
  | JStr string
  | JArr "jsval list"
  | JObj "(string \<times> jsval) list"

abbreviation jint :: "int \<Rightarrow> jsval" where
  "jint n \<equiv> JNum (JFin (of_int n))"

definition MAX_SAFE_INTEGER :: int where
  "MAX_SAFE_INTEGER = 9007199254740991"

text \<open>\<open>Number.isSafeInteger\<close>: on an integer, and on any value.\<close>

definition is_safe_int :: "int \<Rightarrow> bool" where
  "is_safe_int n \<longleftrightarrow> - MAX_SAFE_INTEGER \<le> n \<and> n \<le> MAX_SAFE_INTEGER"

fun safe_int_of :: "jsval \<Rightarrow> int option" where
  "safe_int_of (JNum (JFin q)) =
     (if q = of_int \<lfloor>q\<rfloor> \<and> is_safe_int \<lfloor>q\<rfloor> then Some \<lfloor>q\<rfloor> else None)"
| "safe_int_of _ = None"

lemma safe_int_of_jint [simp]:
  "safe_int_of (jint n) = (if is_safe_int n then Some n else None)"
  by simp

lemma safe_int_of_SomeD: "safe_int_of v = Some n \<Longrightarrow> v = jint n \<and> is_safe_int n"
  by (cases v rule: safe_int_of.cases) (auto split: if_splits)

text \<open>Property reads (\<open>record.key\<close>): a missing property reads as \<open>undefined\<close>.\<close>

fun js_get :: "(string \<times> jsval) list \<Rightarrow> string \<Rightarrow> jsval" where
  "js_get kvs k = (case map_of kvs k of None \<Rightarrow> JUndefined | Some v \<Rightarrow> v)"

lemma js_get_simps [simp]:
  "js_get [] k = JUndefined" "js_get ((k', v) # kvs) k = (if k' = k then v else js_get kvs k)"
  by simp_all

declare js_get.simps [simp del]

definition js_has :: "(string \<times> jsval) list \<Rightarrow> string \<Rightarrow> bool" where
  "js_has kvs k \<longleftrightarrow> map_of kvs k \<noteq> None"

text \<open>\<open>Object.keys(record).some((key) => !allowed.includes(key))\<close>\<close>

definition has_unknown_key :: "string list \<Rightarrow> (string \<times> jsval) list \<Rightarrow> bool" where
  "has_unknown_key allowed kvs \<longleftrightarrow> list_ex (\<lambda>kv. fst kv \<notin> set allowed) kvs"

text \<open>A value computed in steps, each of which may find nothing.\<close>

abbreviation obind :: "'a option \<Rightarrow> ('a \<Rightarrow> 'b option) \<Rightarrow> 'b option" where
  "obind \<equiv> Option.bind"

subsection \<open>Errors as values\<close>

text \<open>
  \<open>RelayError code status details\<close> is the class of \<open>packages/core/src/index.ts\<close>, without its
  message text; \<open>PlainError m\<close> is \<open>throw new Error(m)\<close>, with the fixed part of the message.
\<close>

datatype js_error =
    RelayError (error_code: string) (error_status: int) (error_details: "(string \<times> jsval) list")
  | PlainError (error_message: string)

type_synonym 'a result = "js_error + 'a"

abbreviation relay :: "string \<Rightarrow> int \<Rightarrow> 'a result" where
  "relay code status \<equiv> Inl (RelayError code status [])"

abbreviation plain :: "string \<Rightarrow> 'a result" where
  "plain m \<equiv> Inl (PlainError m)"

definition rbind :: "'e + 'a \<Rightarrow> ('a \<Rightarrow> 'e + 'b) \<Rightarrow> 'e + 'b" where
  "rbind m f = (case m of Inl e \<Rightarrow> Inl e | Inr x \<Rightarrow> f x)"

lemma rbind_simps [simp]: "rbind (Inl e) f = Inl e" "rbind (Inr x) f = f x"
  by (simp_all add: rbind_def)

lemma rbind_Inr_iff [effects]: "rbind m f = Inr y \<longleftrightarrow> (\<exists>x. m = Inr x \<and> f x = Inr y)"
  by (cases m) auto

lemma rbind_Inl_iff [effects]:
  "rbind m f = Inl e \<longleftrightarrow> m = Inl e \<or> (\<exists>x. m = Inr x \<and> f x = Inl e)"
  by (cases m) auto

lemma rbind_cong [fundef_cong]:
  "m = m' \<Longrightarrow> (\<And>x. m' = Inr x \<Longrightarrow> f x = g x) \<Longrightarrow> rbind m f = rbind m' g"
  by (cases m') auto

text \<open>\<open>if (!condition) throw\<close>\<close>

definition require :: "bool \<Rightarrow> 'e \<Rightarrow> 'e + unit" where
  "require b e = (if b then Inr () else Inl e)"

lemma require_simps [simp]:
  "require True e = Inr ()" "require False e = Inl e"
  "(require b e = Inr u) = b" "(require b e = Inl e') = (\<not> b \<and> e' = e)"
  by (auto simp: require_def)

text \<open>A loop over a list whose body may throw: the first throw ends it.\<close>

fun traverse :: "('a \<Rightarrow> 'e + 'b) \<Rightarrow> 'a list \<Rightarrow> 'e + 'b list" where
  "traverse f [] = Inr []"
| "traverse f (x # xs) = rbind (f x) (\<lambda>y. rbind (traverse f xs) (\<lambda>ys. Inr (y # ys)))"

lemma traverse_Inr_iff [effects]:
  "traverse f xs = Inr ys \<longleftrightarrow> list_all2 (\<lambda>x y. f x = Inr y) xs ys"
  by (induction xs arbitrary: ys) (auto simp: effects list_all2_Cons1)

lemma traverse_all_Inr: "(\<And>x. x \<in> set xs \<Longrightarrow> f x = Inr (g x)) \<Longrightarrow> traverse f xs = Inr (map g xs)"
  by (induction xs) auto

subsection \<open>Methods that mutate an object and may throw\<close>

text \<open>
  A method of an object with state \<open>'s\<close> returns or throws, and leaves a state in either case:
  what a method wrote before it threw stays written.
\<close>

type_synonym ('s, 'a) action = "'s \<Rightarrow> 'a result \<times> 's"

definition sreturn :: "'a \<Rightarrow> ('s, 'a) action" where
  "sreturn x s = (Inr x, s)"

definition sthrow :: "js_error \<Rightarrow> ('s, 'a) action" where
  "sthrow e s = (Inl e, s)"

definition slift :: "'a result \<Rightarrow> ('s, 'a) action" where
  "slift r s = (r, s)"

definition sbind :: "('s, 'a) action \<Rightarrow> ('a \<Rightarrow> ('s, 'b) action) \<Rightarrow> ('s, 'b) action" where
  "sbind m f s = (case m s of (Inl e, s') \<Rightarrow> (Inl e, s') | (Inr x, s') \<Rightarrow> f x s')"

lemma sbind_cong [fundef_cong]:
  "m s = m' s' \<Longrightarrow> (\<And>x t. m' s' = (Inr x, t) \<Longrightarrow> f x t = g x t) \<Longrightarrow> sbind m f s = sbind m' g s'"
  by (auto simp: sbind_def split: prod.splits sum.splits)

lemma action_simps [simp]:
  "(sreturn x s = (r, t)) = (r = Inr x \<and> t = s)"
  "(sthrow e s = (r, t)) = (r = Inl e \<and> t = s)"
  "(slift r0 s = (r, t)) = (r0 = r \<and> t = s)"
  by (auto simp: sreturn_def sthrow_def slift_def)

lemma sbind_eval [simp]:
  "m s = (Inl e, s') \<Longrightarrow> sbind m f s = (Inl e, s')"
  "m s = (Inr x, s') \<Longrightarrow> sbind m f s = f x s'"
  by (simp_all add: sbind_def)

lemma sbind_Inr_iff [effects]:
  "sbind m f s = (Inr y, t) \<longleftrightarrow> (\<exists>x s'. m s = (Inr x, s') \<and> f x s' = (Inr y, t))"
  by (auto simp: sbind_def split: prod.splits sum.splits)

lemma sbind_Inl_iff [effects]:
  "sbind m f s = (Inl e, t) \<longleftrightarrow>
     m s = (Inl e, t) \<or> (\<exists>x s'. m s = (Inr x, s') \<and> f x s' = (Inl e, t))"
  by (auto simp: sbind_def split: prod.splits sum.splits)

fun straverse :: "('a \<Rightarrow> ('s, 'b) action) \<Rightarrow> 'a list \<Rightarrow> ('s, 'b list) action" where
  "straverse f [] s = sreturn [] s"
| "straverse f (x # xs) s =
     sbind (f x) (\<lambda>y. sbind (straverse f xs) (\<lambda>ys. sreturn (y # ys))) s"

lemma straverse_Cons:
  "straverse f (x # xs) = sbind (f x) (\<lambda>y. sbind (straverse f xs) (\<lambda>ys. sreturn (y # ys)))"
  by (rule ext) simp

text \<open>A property of the state that a method keeps, whether it returns or throws.\<close>

definition preserves :: "('s \<Rightarrow> bool) \<Rightarrow> ('s, 'a) action \<Rightarrow> bool" where
  "preserves P m \<longleftrightarrow> (\<forall>s. P s \<longrightarrow> P (snd (m s)))"

lemma preservesI: "(\<And>s r t. P s \<Longrightarrow> m s = (r, t) \<Longrightarrow> P t) \<Longrightarrow> preserves P m"
  unfolding preserves_def by (metis prod.collapse)

lemma preservesD: "preserves P m \<Longrightarrow> P s \<Longrightarrow> m s = (r, t) \<Longrightarrow> P t"
  unfolding preserves_def by (metis snd_conv)

lemma preserves_basic [intro, simp]:
  "preserves P (sreturn x)" "preserves P (sthrow e)" "preserves P (slift r)"
  by (auto intro!: preservesI)

lemma preserves_sbind [intro]:
  assumes "preserves P m" and "\<And>x. preserves P (f x)"
  shows "preserves P (sbind m f)"
proof (rule preservesI)
  fix s r t
  assume s: "P s" and run: "sbind m f s = (r, t)"
  obtain r1 s1 where m: "m s = (r1, s1)" by (cases "m s")
  with assms(1) s have s1: "P s1" by (rule preservesD)
  show "P t"
  proof (cases r1)
    case (Inl e)
    with m run s1 show ?thesis by simp
  next
    case (Inr x)
    with m run have "f x s1 = (r, t)" by simp
    with assms(2) s1 show ?thesis by (rule preservesD)
  qed
qed

lemma preserves_straverse [intro]:
  assumes "\<And>x. preserves P (f x)"
  shows "preserves P (straverse f xs)"
proof (induction xs)
  case Nil
  show ?case by (rule preservesI) simp
next
  case (Cons x xs)
  with assms show ?case unfolding straverse_Cons by auto
qed

text \<open>
  \<open>guarded P Q m\<close>: from a state with \<open>P\<close>, the method leaves \<open>P\<close> when it returns and \<open>Q\<close> when it
  throws. \<open>relay_only m\<close>: it throws nothing but a \<open>RelayError\<close>.
\<close>

definition guarded :: "('s \<Rightarrow> bool) \<Rightarrow> ('s \<Rightarrow> bool) \<Rightarrow> ('s, 'a) action \<Rightarrow> bool" where
  "guarded P Q m \<longleftrightarrow>
     (\<forall>s. P s \<longrightarrow> (case m s of (Inr _, t) \<Rightarrow> P t | (Inl _, t) \<Rightarrow> Q t))"

lemma guardedI:
  assumes "\<And>s x t. P s \<Longrightarrow> m s = (Inr x, t) \<Longrightarrow> P t" "\<And>s e t. P s \<Longrightarrow> m s = (Inl e, t) \<Longrightarrow> Q t"
  shows "guarded P Q m"
  using assms by (auto simp: guarded_def split: prod.splits sum.splits)

lemma guarded_InrD: "guarded P Q m \<Longrightarrow> P s \<Longrightarrow> m s = (Inr x, t) \<Longrightarrow> P t"
  by (force simp: guarded_def)

lemma guarded_InlD: "guarded P Q m \<Longrightarrow> P s \<Longrightarrow> m s = (Inl e, t) \<Longrightarrow> Q t"
  by (force simp: guarded_def)

lemma guarded_sbind:
  "guarded P Q m \<Longrightarrow> (\<And>x. guarded P Q (f x)) \<Longrightarrow> guarded P Q (sbind m f)"
  by (rule guardedI) (auto simp: effects dest: guarded_InrD guarded_InlD)

lemma guarded_basic:
  "guarded P Q (sreturn x)" "(\<And>s. P s \<Longrightarrow> Q s) \<Longrightarrow> guarded P Q (sthrow e)"
  "(\<And>s. P s \<Longrightarrow> Q s) \<Longrightarrow> guarded P Q (slift r)"
  by (auto intro!: guardedI)

lemma guarded_straverse: "(\<And>x. guarded P Q (f x)) \<Longrightarrow> guarded P Q (straverse f xs)"
proof (induction xs)
  case (Cons x xs)
  then show ?case unfolding straverse_Cons by (auto intro!: guarded_sbind guarded_basic)
qed (auto intro!: guardedI)

definition is_relay :: "js_error \<Rightarrow> bool" where
  "is_relay e = (case e of RelayError _ _ _ \<Rightarrow> True | PlainError _ \<Rightarrow> False)"

lemma is_relay_simps [simp]: "is_relay (RelayError c n d)" "\<not> is_relay (PlainError m)"
  by (simp_all add: is_relay_def)

definition relay_only :: "('s, 'a) action \<Rightarrow> bool" where
  "relay_only m \<longleftrightarrow> (\<forall>s e t. m s = (Inl e, t) \<longrightarrow> is_relay e)"

lemma relay_onlyD: "relay_only m \<Longrightarrow> m s = (Inl e, t) \<Longrightarrow> is_relay e"
  by (auto simp: relay_only_def)

lemma relay_only_sbind: "relay_only m \<Longrightarrow> (\<And>x. relay_only (f x)) \<Longrightarrow> relay_only (sbind m f)"
  unfolding relay_only_def sbind_Inl_iff by blast

lemma relay_only_basic:
  "relay_only (sreturn x)" "is_relay e \<Longrightarrow> relay_only (sthrow e)"
  "(\<And>e. r = Inl e \<Longrightarrow> is_relay e) \<Longrightarrow> relay_only (slift r)"
  by (auto simp: relay_only_def)

lemma relay_only_straverse: "(\<And>x. x \<in> set xs \<Longrightarrow> relay_only (f x)) \<Longrightarrow> relay_only (straverse f xs)"
  by (induction xs) (fastforce simp: relay_only_def effects)+

lemma list_all2_memD2: "list_all2 P xs ys \<Longrightarrow> y \<in> set ys \<Longrightarrow> \<exists>x. x \<in> set xs \<and> P x y"
  by (induction xs ys rule: list_all2_induct) auto

lemma straverse_Inr_length: "straverse f xs s = (Inr ys, t) \<Longrightarrow> length ys = length xs"
  by (induction xs arbitrary: s ys) (auto simp: effects)

lemma straverse_Inr_nth:
  "straverse f xs s = (Inr ys, t) \<Longrightarrow> list_all2 (\<lambda>x y. \<exists>s1 s2. f x s1 = (Inr y, s2)) xs ys"
  by (induction xs arbitrary: s ys) (auto simp: effects)


subsection \<open>Systems that run in steps\<close>

text \<open>
  What every component with a state promises: its steps keep an invariant, and relate the state
  before to the state after by a relation that composes.
\<close>

locale invariant_system =
  fixes init :: "'s \<Rightarrow> bool"
    and step :: "'s \<Rightarrow> 's \<Rightarrow> bool"
    and inv :: "'s \<Rightarrow> bool"
  assumes init_inv: "init s \<Longrightarrow> inv s"
    and step_inv: "inv s \<Longrightarrow> step s t \<Longrightarrow> inv t"
begin

lemma run_inv: "step\<^sup>*\<^sup>* s t \<Longrightarrow> inv s \<Longrightarrow> inv t"
  by (induction rule: rtranclp_induct) (auto intro: step_inv)

lemma reachable_inv: "init s \<Longrightarrow> step\<^sup>*\<^sup>* s t \<Longrightarrow> inv t"
  by (rule run_inv) (auto intro: init_inv)

end

locale evolving_system = invariant_system init step inv
  for init :: "'s \<Rightarrow> bool" and step :: "'s \<Rightarrow> 's \<Rightarrow> bool" and inv :: "'s \<Rightarrow> bool" +
  fixes evolve :: "'s \<Rightarrow> 's \<Rightarrow> bool"
  assumes evolve_refl: "evolve s s"
    and evolve_trans: "evolve s t \<Longrightarrow> evolve t u \<Longrightarrow> evolve s u"
    and step_evolve: "inv s \<Longrightarrow> step s t \<Longrightarrow> evolve s t"
begin

lemma run_evolve: "step\<^sup>*\<^sup>* s t \<Longrightarrow> inv s \<Longrightarrow> evolve s t"
proof (induction rule: rtranclp_induct)
  case base
  show ?case by (rule evolve_refl)
next
  case (step t u)
  then show ?case using run_inv evolve_trans step_evolve by blast
qed

lemma reachable_evolve: "init r \<Longrightarrow> step\<^sup>*\<^sup>* r s \<Longrightarrow> step\<^sup>*\<^sup>* s t \<Longrightarrow> evolve s t"
  using reachable_inv run_evolve by blast

end

text \<open>
  A store of leases: \<open>holder s k\<close> is who holds the lease on \<open>k\<close> and until when; \<open>acts p t\<close> are the steps
  that others than \<open>p\<close> may take before the time \<open>t\<close>. A lease is exclusive when such steps leave it.
\<close>

locale lease_store =
  fixes holder :: "'s \<Rightarrow> 'k \<Rightarrow> ('o \<times> int) option"
    and acts :: "'o \<Rightarrow> int \<Rightarrow> 's \<Rightarrow> 's \<Rightarrow> bool"
  assumes not_taken: "acts p t s s' \<Longrightarrow> holder s k = Some (p, t) \<Longrightarrow> holder s' k = Some (p, t)"
begin

lemma held_until: "(acts p t)\<^sup>*\<^sup>* s s' \<Longrightarrow> holder s k = Some (p, t) \<Longrightarrow> holder s' k = Some (p, t)"
  by (induction rule: rtranclp_induct) (auto intro: not_taken)

end

fun run_calls :: "('i \<Rightarrow> 's \<Rightarrow> 'o \<times> 's) \<Rightarrow> 'i list \<Rightarrow> 's \<Rightarrow> 'o list \<times> 's" where
  "run_calls f [] s = ([], s)"
| "run_calls f (i # is) s = (let (r, s') = f i s; (rs, s'') = run_calls f is s' in (r # rs, s''))"

text \<open>
  A simulation: whenever two systems are related before a call, they give the same answer and are
  related after it. The relation knows the calls that are still to come. Then they answer every sequence
  of calls alike.
\<close>

locale simulation =
  fixes concrete :: "'i \<Rightarrow> 's \<Rightarrow> 'o \<times> 's"
    and ideal :: "'i \<Rightarrow> 'a \<Rightarrow> 'o \<times> 'a"
    and sim :: "'i list \<Rightarrow> 's \<Rightarrow> 'a \<Rightarrow> bool"
  assumes simulates: "sim (i # is) s a \<Longrightarrow>
    fst (concrete i s) = fst (ideal i a) \<and> sim is (snd (concrete i s)) (snd (ideal i a))"
begin

lemma runs_alike:
  "sim (is @ js) s a \<Longrightarrow>
     fst (run_calls concrete is s) = fst (run_calls ideal is a)
     \<and> sim js (snd (run_calls concrete is s)) (snd (run_calls ideal is a))"
proof (induction "is" arbitrary: s a)
  case Nil
  then show ?case by simp
next
  case (Cons i "is")
  from simulates [of i "is @ js" s a] Cons.prems
  have "fst (concrete i s) = fst (ideal i a)" and "sim (is @ js) (snd (concrete i s)) (snd (ideal i a))" by simp_all
  with Cons.IH show ?case by (simp add: split_beta Let_def)
qed

end


subsection \<open>Array.prototype.sort\<close>

text \<open>
  \<open>sort\<close> is stable, and calls the comparison function \<open>cmp\<close>; a comparison that is not
  positive keeps the order of its arguments. \<open>localeCompare\<close> depends on the locale data of the
  host, so the code's comparisons take it as a parameter \<open>lc\<close>. \<open>cmp_or a b\<close> is \<open>a || b\<close>.
\<close>

fun js_insert :: "('a \<Rightarrow> 'a \<Rightarrow> int) \<Rightarrow> 'a \<Rightarrow> 'a list \<Rightarrow> 'a list" where
  "js_insert cmp x [] = [x]"
| "js_insert cmp x (y # ys) = (if cmp x y \<le> 0 then x # y # ys else y # js_insert cmp x ys)"

fun js_sort :: "('a \<Rightarrow> 'a \<Rightarrow> int) \<Rightarrow> 'a list \<Rightarrow> 'a list" where
  "js_sort cmp [] = []"
| "js_sort cmp (x # xs) = js_insert cmp x (js_sort cmp xs)"

definition cmp_or :: "int \<Rightarrow> int \<Rightarrow> int" where
  "cmp_or a b = (if a \<noteq> 0 then a else b)"

lemma mset_js_insert [simp]: "mset (js_insert cmp x ys) = add_mset x (mset ys)"
  by (induction ys) auto

lemma mset_js_sort [simp, sort_facts]: "mset (js_sort cmp xs) = mset xs"
  by (induction xs) auto

lemma set_js_sort [simp, sort_facts]: "set (js_sort cmp xs) = set xs"
  by (metis mset_js_sort set_mset_mset)

lemma length_js_sort [simp, sort_facts]: "length (js_sort cmp xs) = length xs"
  by (metis mset_js_sort size_mset)

lemma distinct_js_sort [simp, sort_facts]: "distinct (js_sort cmp xs) = distinct xs"
  by (metis mset_js_sort mset_eq_imp_distinct_iff)

lemma distinct_map_js_sort [sort_facts]: "distinct (map key (js_sort cmp xs)) = distinct (map key xs)"
proof (rule mset_eq_imp_distinct_iff)
  show "mset (map key (js_sort cmp xs)) = mset (map key xs)" by simp
qed

lemma js_sort_eq_Nil [simp]: "js_sort cmp xs = [] \<longleftrightarrow> xs = []"
  by (metis length_0_conv length_js_sort)

lemma set_js_insert [simp]: "set (js_insert cmp x ys) = insert x (set ys)"
  by (metis mset_js_insert set_mset_add_mset_insert set_mset_mset)

text \<open>A comparison that orders by a key first gives a list sorted by that key.\<close>

lemma sorted_js_insert_key:
  assumes "\<And>a b. cmp a b \<le> 0 \<Longrightarrow> key a \<le> (key b :: int)" "\<And>a b. \<not> cmp a b \<le> 0 \<Longrightarrow> key b \<le> key a"
    and "sorted (map key ys)"
  shows "sorted (map key (js_insert cmp x ys))"
  using assms(3)
proof (induction ys)
  case Nil
  show ?case by simp
next
  case (Cons y ys)
  show ?case
  proof (cases "cmp x y \<le> 0")
    case True
    with assms(1) [OF True] Cons.prems show ?thesis by fastforce
  next
    case False
    with assms(2) [OF False] Cons show ?thesis by auto
  qed
qed

lemma sorted_js_sort_key:
  assumes "\<And>a b. cmp a b \<le> 0 \<Longrightarrow> key a \<le> (key b :: int)" "\<And>a b. \<not> cmp a b \<le> 0 \<Longrightarrow> key b \<le> key a"
  shows "sorted (map key (js_sort cmp xs))"
  by (induction xs) (auto intro: sorted_js_insert_key [where key = key] assms)

text \<open>Two comparisons that agree in sign on a list sort it the same way.\<close>

lemma js_insert_cong:
  "(\<And>y. y \<in> set ys \<Longrightarrow> (cmp x y \<le> 0) = (cmp' x y \<le> 0)) \<Longrightarrow> js_insert cmp x ys = js_insert cmp' x ys"
  by (induction ys) auto

lemma js_sort_cong:
  assumes "distinct xs"
    and "\<And>x y. x \<in> set xs \<Longrightarrow> y \<in> set xs \<Longrightarrow> x \<noteq> y \<Longrightarrow> (cmp x y \<le> 0) = (cmp' x y \<le> 0)"
  shows "js_sort cmp xs = js_sort cmp' xs"
  using assms
proof (induction xs)
  case (Cons x xs)
  then have IH: "js_sort cmp xs = js_sort cmp' xs" by simp
  from Cons.prems have "js_insert cmp x (js_sort cmp' xs) = js_insert cmp' x (js_sort cmp' xs)"
    by (intro js_insert_cong) auto
  with IH show ?case by simp
qed simp

text \<open>The comparison most of the code uses: a number, then an identifier by locale.\<close>

definition cmp_key_then :: "('a \<Rightarrow> int) \<Rightarrow> ('a \<Rightarrow> 'a \<Rightarrow> int) \<Rightarrow> 'a \<Rightarrow> 'a \<Rightarrow> int" where
  "cmp_key_then key tie x y = cmp_or (key x - key y) (tie x y)"

lemma cmp_key_then_sorted [sort_facts]: "sorted (map key (js_sort (cmp_key_then key tie) xs))"
  by (rule sorted_js_sort_key) (auto simp: cmp_key_then_def cmp_or_def split: if_splits)

text \<open>With distinct keys the tie break is never asked, so the locale does not matter.\<close>

lemma cmp_key_then_tie [sort_facts]:
  assumes "distinct (map key xs)"
  shows "js_sort (cmp_key_then key tie) xs = js_sort (cmp_key_then key tie') xs"
proof (rule js_sort_cong)
  show "distinct xs" using assms distinct_map by blast
  fix x y
  assume "x \<in> set xs" "y \<in> set xs" "x \<noteq> y"
  with assms have "key x \<noteq> key y" by (auto simp: distinct_map inj_on_def)
  then show "(cmp_key_then key tie x y \<le> 0) = (cmp_key_then key tie' x y \<le> 0)"
    by (simp add: cmp_key_then_def cmp_or_def)
qed

subsection \<open>Characters and regular expressions\<close>

definition cu :: "char \<Rightarrow> nat" where
  "cu c = of_char c"

definition is_digit_char :: "char \<Rightarrow> bool" where
  "is_digit_char c \<longleftrightarrow> 48 \<le> cu c \<and> cu c \<le> 57"

definition is_upper_char :: "char \<Rightarrow> bool" where
  "is_upper_char c \<longleftrightarrow> 65 \<le> cu c \<and> cu c \<le> 90"

definition is_lower_char :: "char \<Rightarrow> bool" where
  "is_lower_char c \<longleftrightarrow> 97 \<le> cu c \<and> cu c \<le> 122"

definition is_alnum_char :: "char \<Rightarrow> bool" where
  "is_alnum_char c \<longleftrightarrow> is_upper_char c \<or> is_lower_char c \<or> is_digit_char c"

lemmas char_class_defs =
  cu_def is_digit_char_def is_upper_char_def is_lower_char_def is_alnum_char_def

text \<open>\<open>/^[F][R]{0,n}$/\<close>\<close>

fun matches_head_tail :: "(char \<Rightarrow> bool) \<Rightarrow> (char \<Rightarrow> bool) \<Rightarrow> nat \<Rightarrow> string \<Rightarrow> bool" where
  "matches_head_tail F R n [] = False"
| "matches_head_tail F R n (c # cs) = (F c \<and> list_all R cs \<and> length cs \<le> n)"

text \<open>\<open>/^[C]{m,n}$/\<close>\<close>

definition matches_class :: "(char \<Rightarrow> bool) \<Rightarrow> nat \<Rightarrow> nat \<Rightarrow> string \<Rightarrow> bool" where
  "matches_class C m n s \<longleftrightarrow> m \<le> length s \<and> length s \<le> n \<and> list_all C s"

text \<open>\<open>toLowerCase\<close> on code units below 256: ASCII letters and the Latin-1 letters.\<close>

definition lower_char :: "char \<Rightarrow> char" where
  "lower_char c =
     (if is_upper_char c \<or> 192 \<le> cu c \<and> cu c \<le> 222 \<and> cu c \<noteq> 215
      then char_of (cu c + 32) else c)"

definition to_lower :: "string \<Rightarrow> string" where
  "to_lower s = map lower_char s"

text \<open>The white space that \<open>trim\<close> removes, below code unit 256.\<close>

definition is_js_space :: "char \<Rightarrow> bool" where
  "is_js_space c \<longleftrightarrow> 9 \<le> cu c \<and> cu c \<le> 13 \<or> cu c = 32 \<or> cu c = 160"

definition js_trim :: "string \<Rightarrow> string" where
  "js_trim s = rev (dropWhile is_js_space (rev (dropWhile is_js_space s)))"

text \<open>\<open>s.includes(p)\<close>, and \<open>s.replaceAll(a, b)\<close> on one-character strings.\<close>

fun has_sub :: "string \<Rightarrow> string \<Rightarrow> bool" where
  "has_sub p [] \<longleftrightarrow> p = []"
| "has_sub p (c # cs) \<longleftrightarrow> prefix p (c # cs) \<or> has_sub p cs"

lemma has_sub_iff: "has_sub p s \<longleftrightarrow> (\<exists>u v. s = u @ p @ v)"
proof (induction s)
  case (Cons c cs)
  have "(\<exists>u v. c # cs = u @ p @ v) \<longleftrightarrow> prefix p (c # cs) \<or> (\<exists>u v. cs = u @ p @ v)"
    by (auto simp: prefix_def append_eq_Cons_conv Cons_eq_append_conv)
  with Cons show ?case by simp
qed simp

definition replace_char :: "char \<Rightarrow> char \<Rightarrow> string \<Rightarrow> string" where
  "replace_char a b s = map (\<lambda>c. if c = a then b else c) s"

text \<open>\<open>s.indexOf(c)\<close> as the text before the first \<open>c\<close> and the text after it.\<close>

fun split_first :: "char \<Rightarrow> string \<Rightarrow> (string \<times> string) option" where
  "split_first a [] = None"
| "split_first a (c # cs) =
     (if c = a then Some ([], cs) else map_option (\<lambda>(u, v). (c # u, v)) (split_first a cs))"

lemma split_first_append [simp]: "a \<notin> set u \<Longrightarrow> split_first a (u @ a # v) = Some (u, v)"
  by (induction u) auto

lemma split_first_sound: "split_first a s = Some (u, v) \<Longrightarrow> s = u @ a # v \<and> a \<notin> set u"
  by (induction s arbitrary: u) (auto split: if_splits)

lemma split_first_Some: "split_first a s = Some (u, v) \<longleftrightarrow> s = u @ a # v \<and> a \<notin> set u"
  using split_first_sound split_first_append by blast

lemma split_first_None: "split_first a s = None \<longleftrightarrow> a \<notin> set s"
  by (induction s) auto

text \<open>The order of code units: the default order of \<open>sort\<close>, and a text column with collation \<open>C\<close>.\<close>

fun text_compare :: "string \<Rightarrow> string \<Rightarrow> int" where
  "text_compare [] [] = 0"
| "text_compare [] (_ # _) = -1"
| "text_compare (_ # _) [] = 1"
| "text_compare (c # cs) (d # ds) =
     (if cu c < cu d then -1 else if cu d < cu c then 1 else text_compare cs ds)"

text \<open>The bytes of the UTF-8 encoding of a text.\<close>

definition utf8_length :: "string \<Rightarrow> int" where
  "utf8_length s = sum_list (map (\<lambda>c. if cu c < 128 then 1 else 2) s)"

text \<open>A \<open>for\<close> loop that updates a state and may throw.\<close>

fun rfold :: "('a \<Rightarrow> 's \<Rightarrow> 'e + 's) \<Rightarrow> 'a list \<Rightarrow> 's \<Rightarrow> 'e + 's" where
  "rfold f [] s = Inr s"
| "rfold f (x # xs) s = rbind (f x s) (rfold f xs)"

end
