(* ===== verification/Core_Selectors.thy ===== *)
theory Core_Selectors
  imports Frely_Prelude
begin

section \<open>AccessPoint selectors\<close>

text \<open>
  \<open>packages/core/src/access-point-selectors.ts\<close>: the two routing rules (\<open>direct\<close> and
  \<open>ordered-fallback\<close>), how each normalises its stored configuration and how it decides the
  next candidate from the attempts made so far. The locale \<open>selector\<close> is the contract the
  routing kernel relies on; both rules are interpretations of it.
\<close>

datatype provider_failure_class =
  Connect_error | Timeout | Rate_limited | Upstream_5xx | Non_retryable

fun failure_class_text :: "provider_failure_class \<Rightarrow> string" where
  "failure_class_text Connect_error = ''connect_error''"
| "failure_class_text Timeout = ''timeout''"
| "failure_class_text Rate_limited = ''rate_limited''"
| "failure_class_text Upstream_5xx = ''upstream_5xx''"
| "failure_class_text Non_retryable = ''non_retryable''"

definition RETRYABLE_PROVIDER_FAILURE_CLASSES :: "provider_failure_class list" where
  "RETRYABLE_PROVIDER_FAILURE_CLASSES = [Connect_error, Timeout, Rate_limited, Upstream_5xx]"

datatype credential_failure_reason =
  Auth_unauthorized | Auth_unavailable | Auth_not_found | Model_cooldown

fun credential_failure_reason_text :: "credential_failure_reason \<Rightarrow> string" where
  "credential_failure_reason_text Auth_unauthorized = ''auth_unauthorized''"
| "credential_failure_reason_text Auth_unavailable = ''auth_unavailable''"
| "credential_failure_reason_text Auth_not_found = ''auth_not_found''"
| "credential_failure_reason_text Model_cooldown = ''model_cooldown''"

definition PROVIDER_CREDENTIAL_FAILURE_REASONS :: "credential_failure_reason list" where
  "PROVIDER_CREDENTIAL_FAILURE_REASONS =
     [Auth_unauthorized, Auth_unavailable, Auth_not_found, Model_cooldown]"

text \<open>A string read back as one of the listed values: \<open>isProviderCredentialFailureReason\<close>.\<close>

definition credential_failure_reason_of :: "jsval \<Rightarrow> credential_failure_reason option" where
  "credential_failure_reason_of v =
     List.find (\<lambda>r. v = JStr (credential_failure_reason_text r)) PROVIDER_CREDENTIAL_FAILURE_REASONS"

definition retryable_class_of :: "jsval \<Rightarrow> provider_failure_class option" where
  "retryable_class_of v =
     List.find (\<lambda>c. v = JStr (failure_class_text c)) RETRYABLE_PROVIDER_FAILURE_CLASSES"

record selector_candidate =
  sc_candidateId :: string
  sc_targetEdgeId :: string
  sc_position :: int
  sc_available :: bool

datatype attempt_outcome = Succeeded | Failed | Aborted

record selector_attempt =
  sa_candidateId :: string
  sa_targetEdgeId :: string
  sa_attemptIndex :: int
  sa_outcome :: attempt_outcome
  sa_failureClass :: "provider_failure_class option"
  sa_outputCommitted :: bool
  sa_durationMs :: int

datatype selector_config = Direct_config | Ordered_config int "provider_failure_class list"

subsection \<open>Normalising the configuration\<close>

definition assertStrictRecord :: "jsval \<Rightarrow> string list \<Rightarrow> (string \<times> jsval) list result" where
  "assertStrictRecord input allowedKeys =
     (case input of
        JObj kvs \<Rightarrow>
          if has_unknown_key allowedKeys kvs then plain ''access_point_selector_config_unknown_field''
          else Inr kvs
      | _ \<Rightarrow> plain ''access_point_selector_config_invalid'')"

definition direct_normalizeConfig :: "jsval \<Rightarrow> int \<Rightarrow> selector_config result" where
  "direct_normalizeConfig input enabledTargetCount =
     rbind (assertStrictRecord input []) (\<lambda>_.
       if enabledTargetCount \<noteq> 1 then plain ''direct_selector_requires_one_enabled_target''
       else Inr Direct_config)"

text \<open>
  \<open>Array.from(new Set(retryOn))\<close> is shorter than \<open>retryOn\<close> exactly when an entry occurs twice;
  an entry that is not a retryable class is refused with the same error.
\<close>

definition ordered_max_attempts :: "(string \<times> jsval) list \<Rightarrow> int \<Rightarrow> int result" where
  "ordered_max_attempts record enabledTargetCount =
     (case (if js_get record ''maxAttempts'' = JUndefined then Some (min 2 enabledTargetCount)
            else safe_int_of (js_get record ''maxAttempts'')) of
        None \<Rightarrow> plain ''ordered_fallback_max_attempts_invalid''
      | Some m \<Rightarrow> if m < 2 \<or> m > enabledTargetCount then plain ''ordered_fallback_max_attempts_invalid''
                   else Inr m)"

definition ordered_retry_on :: "(string \<times> jsval) list \<Rightarrow> provider_failure_class list result" where
  "ordered_retry_on record =
     (case js_get record ''retryOn'' of
        JUndefined \<Rightarrow> Inr RETRYABLE_PROVIDER_FAILURE_CLASSES
      | JArr entries \<Rightarrow>
          if entries = [] \<or> \<not> distinct entries \<or> list_ex (\<lambda>e. retryable_class_of e = None) entries
          then plain ''ordered_fallback_retry_on_invalid''
          else Inr (List.map_filter retryable_class_of entries)
      | _ \<Rightarrow> plain ''ordered_fallback_retry_on_invalid'')"

definition ordered_normalizeConfig :: "jsval \<Rightarrow> int \<Rightarrow> selector_config result" where
  "ordered_normalizeConfig input enabledTargetCount =
     (if enabledTargetCount < 2 \<or> enabledTargetCount > 4
      then plain ''ordered_fallback_requires_two_to_four_enabled_targets''
      else rbind (assertStrictRecord input [''maxAttempts'', ''retryOn'']) (\<lambda>record.
           rbind (ordered_max_attempts record enabledTargetCount) (\<lambda>maxAttempts.
           rbind (ordered_retry_on record) (\<lambda>retryOn.
             Inr (Ordered_config maxAttempts retryOn)))))"

subsection \<open>Deciding the next candidate\<close>

definition direct_decide ::
  "selector_candidate list \<Rightarrow> selector_attempt list \<Rightarrow> string option result" where
  "direct_decide candidates attempts =
     (case filter sc_available candidates of
        [c] \<Rightarrow> Inr (if list_ex (\<lambda>a. sa_candidateId a = sc_candidateId c) attempts
                     then None else Some (sc_candidateId c))
      | _ \<Rightarrow> Inr None)"

definition untried_in_order ::
  "(string \<Rightarrow> string \<Rightarrow> int) \<Rightarrow> selector_candidate list \<Rightarrow> selector_attempt list \<Rightarrow> selector_candidate list" where
  "untried_in_order lc candidates attempts =
     js_sort (cmp_key_then sc_position (\<lambda>l r. lc (sc_targetEdgeId l) (sc_targetEdgeId r)))
       (filter (\<lambda>c. sc_available c \<and> sc_candidateId c \<notin> set (map sa_candidateId attempts)) candidates)"

text \<open>
  The configuration of the other rule has neither field: \<open>attempts.length >= undefined\<close> is
  false, and \<open>config.retryOn.includes\<close> throws a \<open>TypeError\<close>.
\<close>

definition ordered_decide ::
  "(string \<Rightarrow> string \<Rightarrow> int) \<Rightarrow> selector_candidate list \<Rightarrow> selector_attempt list
     \<Rightarrow> selector_config \<Rightarrow> string option result" where
  "ordered_decide lc candidates attempts config =
     (let choice = (case untried_in_order lc candidates attempts of
                      [] \<Rightarrow> None | c # _ \<Rightarrow> Some (sc_candidateId c))
      in if (case config of Ordered_config m _ \<Rightarrow> m \<le> int (length attempts) | Direct_config \<Rightarrow> False)
         then Inr None
         else if attempts = [] then Inr choice
         else let previous = last attempts
              in if sa_outcome previous \<noteq> Failed \<or> sa_outputCommitted previous then Inr None
                 else (case sa_failureClass previous of
                         None \<Rightarrow> Inr None
                       | Some fc \<Rightarrow>
                           (case config of
                              Direct_config \<Rightarrow> plain ''TypeError''
                            | Ordered_config _ retryOn \<Rightarrow>
                                if fc \<notin> set retryOn then Inr None else Inr choice)))"

subsection \<open>The registry\<close>

datatype selector_kind = Direct_selector | Ordered_fallback_selector

definition getAccessPointSelector :: "string \<Rightarrow> int \<Rightarrow> selector_kind result" where
  "getAccessPointSelector selectorId behaviorVersion =
     (if behaviorVersion \<noteq> 1 then plain ''access_point_selector_unknown''
      else if selectorId = ''direct'' then Inr Direct_selector
      else if selectorId = ''ordered-fallback'' then Inr Ordered_fallback_selector
      else plain ''access_point_selector_unknown'')"

fun normalizeConfig :: "selector_kind \<Rightarrow> jsval \<Rightarrow> int \<Rightarrow> selector_config result" where
  "normalizeConfig Direct_selector = direct_normalizeConfig"
| "normalizeConfig Ordered_fallback_selector = ordered_normalizeConfig"

fun decide ::
  "selector_kind \<Rightarrow> (string \<Rightarrow> string \<Rightarrow> int) \<Rightarrow> selector_candidate list \<Rightarrow> selector_attempt list
     \<Rightarrow> selector_config \<Rightarrow> string option result" where
  "decide Direct_selector lc candidates attempts config = direct_decide candidates attempts"
| "decide Ordered_fallback_selector lc candidates attempts config =
     ordered_decide lc candidates attempts config"

definition normalizeAccessPointSelectorConfig ::
  "string \<Rightarrow> int \<Rightarrow> jsval \<Rightarrow> int \<Rightarrow> selector_config result" where
  "normalizeAccessPointSelectorConfig selectorId behaviorVersion input enabledTargetCount =
     rbind (getAccessPointSelector selectorId behaviorVersion) (\<lambda>s. normalizeConfig s input enabledTargetCount)"

text \<open>The stored form of a configuration, as its JSON value.\<close>

fun selector_config_value :: "selector_config \<Rightarrow> jsval" where
  "selector_config_value Direct_config = JObj []"
| "selector_config_value (Ordered_config m retryOn) =
     JObj [(''maxAttempts'', jint m), (''retryOn'', JArr (map (\<lambda>c. JStr (failure_class_text c)) retryOn))]"

subsection \<open>The contract of a selector\<close>

text \<open>
  The histories a selector can produce: every attempt is on the candidate the selector chose
  after the attempts before it; how the attempt ended is up to the Provider.
\<close>

inductive selector_history ::
  "(selector_candidate list \<Rightarrow> selector_attempt list \<Rightarrow> string option result)
     \<Rightarrow> selector_candidate list \<Rightarrow> selector_attempt list \<Rightarrow> bool"
  for d cs where
  history_start: "selector_history d cs []"
| history_attempt:
    "selector_history d cs as \<Longrightarrow> d cs as = Inr (Some (sa_candidateId a))
       \<Longrightarrow> selector_history d cs (as @ [a])"

locale selector =
  fixes d :: "selector_candidate list \<Rightarrow> selector_attempt list \<Rightarrow> string option result"
  assumes chosen_available:
      "d cs as = Inr (Some cid) \<Longrightarrow> \<exists>c \<in> set cs. sc_candidateId c = cid \<and> sc_available c"
    and chosen_untried: "d cs as = Inr (Some cid) \<Longrightarrow> cid \<notin> set (map sa_candidateId as)"
begin

lemma chosen_known: "d cs as = Inr (Some cid) \<Longrightarrow> cid \<in> set (map sc_candidateId cs)"
  using chosen_available by fastforce

lemma history_distinct: "selector_history d cs as \<Longrightarrow> distinct (map sa_candidateId as)"
  by (induction rule: selector_history.induct) (auto dest: chosen_untried)

lemma history_available:
  "selector_history d cs as \<Longrightarrow>
     set (map sa_candidateId as) \<subseteq> set (map sc_candidateId (filter sc_available cs))"
proof (induction rule: selector_history.induct)
  case (history_attempt as a)
  then obtain c where "c \<in> set cs" "sc_candidateId c = sa_candidateId a" "sc_available c"
    using chosen_available by blast
  then have "sa_candidateId a \<in> set (map sc_candidateId (filter sc_available cs))" by force
  with history_attempt.IH show ?case by simp
qed simp

lemma history_bounded:
  assumes "selector_history d cs as"
  shows "length as \<le> length (filter sc_available cs)"
proof -
  have "length as = card (set (map sa_candidateId as))"
    using history_distinct [OF assms] distinct_card by fastforce
  also have "\<dots> \<le> card (set (map sc_candidateId (filter sc_available cs)))"
    by (rule card_mono [OF _ history_available [OF assms]]) simp
  also have "\<dots> \<le> length (filter sc_available cs)"
    by (metis card_length length_map)
  finally show ?thesis .
qed

end

lemma filter_singletonD: "filter P xs = [x] \<Longrightarrow> x \<in> set xs \<and> P x"
  by (drule arg_cong [where f = set]) auto

interpretation direct: selector direct_decide
proof unfold_locales
  fix cs as cid
  assume "direct_decide cs as = Inr (Some cid)"
  then obtain c where "filter sc_available cs = [c]" and cid: "cid = sc_candidateId c"
      and new: "\<not> list_ex (\<lambda>a. sa_candidateId a = sc_candidateId c) as"
    by (auto simp: direct_decide_def split: list.splits if_splits)
  then show "\<exists>c \<in> set cs. sc_candidateId c = cid \<and> sc_available c"
    using filter_singletonD by fastforce
  from cid new show "cid \<notin> set (map sa_candidateId as)" by (auto simp: list_ex_iff)
qed

subsection \<open>The ordered rule\<close>

lemma set_untried_in_order [simp]:
  "set (untried_in_order lc cs as) =
     {c \<in> set cs. sc_available c \<and> sc_candidateId c \<notin> set (map sa_candidateId as)}"
  by (auto simp: untried_in_order_def)

lemma sorted_untried_in_order: "sorted (map sc_position (untried_in_order lc cs as))"
  by (simp add: untried_in_order_def sort_facts)

definition retry_permitted :: "selector_config \<Rightarrow> selector_attempt list \<Rightarrow> bool" where
  "retry_permitted config attempts \<longleftrightarrow>
     (case config of
        Direct_config \<Rightarrow> attempts = []
      | Ordered_config m retryOn \<Rightarrow>
          int (length attempts) < m
          \<and> (attempts = [] \<or>
              (sa_outcome (last attempts) = Failed \<and> \<not> sa_outputCommitted (last attempts)
               \<and> (\<exists>fc \<in> set retryOn. sa_failureClass (last attempts) = Some fc))))"

lemma ordered_decide_SomeE:
  assumes "ordered_decide lc cs as config = Inr (Some cid)"
  obtains c rest where "untried_in_order lc cs as = c # rest" and "cid = sc_candidateId c"
    and "retry_permitted config as"
  using assms
  by (auto simp: ordered_decide_def retry_permitted_def Let_def
      split: if_splits list.splits option.splits selector_config.splits)

lemma ordered_decide_first:
  assumes "ordered_decide lc cs as config = Inr (Some cid)"
  obtains c where "c \<in> set cs" and "sc_candidateId c = cid" and "sc_available c"
    and "cid \<notin> set (map sa_candidateId as)"
    and "\<And>c'. c' \<in> set cs \<Longrightarrow> sc_available c' \<Longrightarrow> sc_candidateId c' \<notin> set (map sa_candidateId as)
           \<Longrightarrow> sc_position c \<le> sc_position c'"
proof -
  from assms obtain c rest where eq: "untried_in_order lc cs as = c # rest" and cid: "cid = sc_candidateId c"
    by (rule ordered_decide_SomeE)
  have "c \<in> set (untried_in_order lc cs as)" using eq by simp
  then have c: "c \<in> set cs" "sc_available c" "sc_candidateId c \<notin> set (map sa_candidateId as)"
    by auto
  have least: "sc_position c \<le> sc_position c'" if "c' \<in> set (untried_in_order lc cs as)" for c'
    using sorted_untried_in_order [of lc cs as] that unfolding eq by auto
  show thesis by (rule that [of c]) (use c cid least in auto)
qed

interpretation ordered: selector "\<lambda>cs as. ordered_decide lc cs as config" for lc config
  by unfold_locales (fastforce elim: ordered_decide_first)+

lemma decide_selector: "selector (\<lambda>cs as. decide kind lc cs as config)"
  by (cases kind) (simp_all add: direct.selector_axioms ordered.selector_axioms)

lemma ordered_history_max_attempts:
  assumes "selector_history (\<lambda>cs as. ordered_decide lc cs as (Ordered_config m r)) cs as" and "as \<noteq> []"
  shows "int (length as) \<le> m"
  using assms
proof (cases rule: selector_history.cases)
  case (history_attempt as' a)
  then have "retry_permitted (Ordered_config m r) as'" by (auto elim: ordered_decide_SomeE)
  with history_attempt show ?thesis by (simp add: retry_permitted_def)
qed simp


subsection \<open>Normalised configurations\<close>

lemma retryable_class_of_text [simp]:
  "retryable_class_of (JStr (failure_class_text c)) = (if c = Non_retryable then None else Some c)"
  by (cases c) (simp_all add: retryable_class_of_def RETRYABLE_PROVIDER_FAILURE_CLASSES_def)

lemma retryable_class_of_SomeD:
  "retryable_class_of v = Some c \<Longrightarrow> v = JStr (failure_class_text c) \<and> c \<noteq> Non_retryable"
  by (auto simp: retryable_class_of_def RETRYABLE_PROVIDER_FAILURE_CLASSES_def split: if_splits)

lemma retryable_entries:
  assumes "\<not> list_ex (\<lambda>e. retryable_class_of e = None) entries"
  shows "map (\<lambda>c. JStr (failure_class_text c)) (List.map_filter retryable_class_of entries) = entries"
    and "Non_retryable \<notin> set (List.map_filter retryable_class_of entries)"
  using assms
  by (induction entries) (auto simp: List.map_filter_simps dest: retryable_class_of_SomeD split: option.splits)

fun wf_selector_config :: "selector_kind \<Rightarrow> int \<Rightarrow> selector_config \<Rightarrow> bool" where
  "wf_selector_config Direct_selector n config \<longleftrightarrow> config = Direct_config \<and> n = 1"
| "wf_selector_config Ordered_fallback_selector n Direct_config \<longleftrightarrow> False"
| "wf_selector_config Ordered_fallback_selector n (Ordered_config m retryOn) \<longleftrightarrow>
     2 \<le> m \<and> m \<le> n \<and> n \<le> 4 \<and> retryOn \<noteq> [] \<and> distinct retryOn \<and> Non_retryable \<notin> set retryOn"

lemma direct_normalizeConfig_Inr:
  "direct_normalizeConfig input n = Inr config \<longleftrightarrow> input = JObj [] \<and> n = 1 \<and> config = Direct_config"
proof -
  have "has_unknown_key [] kvs \<longleftrightarrow> kvs \<noteq> []" for kvs
    by (cases kvs) (simp_all add: has_unknown_key_def)
  then show ?thesis
    by (cases input) (auto simp: direct_normalizeConfig_def assertStrictRecord_def split: if_splits)
qed

lemma ordered_max_attempts_Inr:
  "ordered_max_attempts record n = Inr m \<Longrightarrow> 2 \<le> m \<and> m \<le> n"
  by (auto simp: ordered_max_attempts_def split: option.splits if_splits)

lemma ordered_retry_on_Inr:
  assumes "ordered_retry_on record = Inr retryOn"
  shows "retryOn \<noteq> []" "distinct retryOn" "Non_retryable \<notin> set retryOn"
proof -
  have "retryOn \<noteq> [] \<and> distinct retryOn \<and> Non_retryable \<notin> set retryOn"
  proof (cases "js_get record ''retryOn''")
    case JUndefined
    with assms show ?thesis by (auto simp: ordered_retry_on_def RETRYABLE_PROVIDER_FAILURE_CLASSES_def)
  next
    case (JArr entries)
    with assms have es: "entries \<noteq> []" "distinct entries"
        "\<not> list_ex (\<lambda>e. retryable_class_of e = None) entries"
        and r: "retryOn = List.map_filter retryable_class_of entries"
      by (auto simp: ordered_retry_on_def split: if_splits)
    have "map (\<lambda>c. JStr (failure_class_text c)) retryOn = entries"
      unfolding r by (rule retryable_entries(1) [OF es(3)])
    with es show ?thesis
      using retryable_entries(2) [OF es(3)] r distinct_map by (metis list.map_disc_iff)
  qed (use assms in \<open>auto simp: ordered_retry_on_def\<close>)
  then show "retryOn \<noteq> []" "distinct retryOn" "Non_retryable \<notin> set retryOn" by blast+
qed

lemma ordered_normalizeConfig_wf:
  "ordered_normalizeConfig input n = Inr config \<Longrightarrow> wf_selector_config Ordered_fallback_selector n config"
  by (auto simp: ordered_normalizeConfig_def effects
      dest: ordered_max_attempts_Inr ordered_retry_on_Inr split: if_splits)

lemma ordered_normalizeConfig_again:
  assumes "wf_selector_config Ordered_fallback_selector n config"
  shows "ordered_normalizeConfig (selector_config_value config) n = Inr config"
proof -
  from assms obtain m retryOn where config: "config = Ordered_config m retryOn"
      and bounds: "2 \<le> m" "m \<le> n" "n \<le> 4"
      and retry: "retryOn \<noteq> []" "distinct retryOn" "Non_retryable \<notin> set retryOn"
    by (cases config) auto
  have inj: "inj_on (\<lambda>c. JStr (failure_class_text c)) A" for A
    by (rule inj_onI) (case_tac x; case_tac y; simp)
  have entries: "distinct (map (\<lambda>c. JStr (failure_class_text c)) retryOn)"
    using retry(2) by (simp add: distinct_map inj)
  have recovered: "List.map_filter retryable_class_of (map (\<lambda>c. JStr (failure_class_text c)) retryOn) = retryOn"
    using retry(3) by (induction retryOn) (auto simp: List.map_filter_simps)
  have "is_safe_int m" using bounds by (simp add: is_safe_int_def MAX_SAFE_INTEGER_def)
  with bounds entries recovered retry show ?thesis
    by (auto simp: config ordered_normalizeConfig_def assertStrictRecord_def has_unknown_key_def
          ordered_max_attempts_def ordered_retry_on_def list_ex_iff)
qed

lemma normalizeConfig_wf: "normalizeConfig kind input n = Inr config \<Longrightarrow> wf_selector_config kind n config"
  by (cases kind) (auto simp: direct_normalizeConfig_Inr ordered_normalizeConfig_wf)

subsection \<open>Properties\<close>

text \<open>
  Normalising a stored rule configuration yields one whose bounds hold (a direct rule has
  exactly one enabled target; an ordered rule has two to four, tries between two and all of them
  and retries on a non-empty duplicate-free list of retryable classes), and normalising the
  normalised configuration again changes nothing.
\<close>

lemma normalizeConfig_idempotent:
  assumes "normalizeConfig kind input n = Inr config"
  shows "wf_selector_config kind n config \<and> normalizeConfig kind (selector_config_value config) n = Inr config"
proof (cases kind)
  case Direct_selector
  with assms show ?thesis by (auto simp: direct_normalizeConfig_Inr)
next
  case Ordered_fallback_selector
  with normalizeConfig_wf [OF assms] show ?thesis by (simp add: ordered_normalizeConfig_again)
qed

definition example_ordered_input :: jsval where
  "example_ordered_input =
     JObj [(''maxAttempts'', jint 3), (''retryOn'', JArr [JStr ''timeout'', JStr ''rate_limited''])]"

lemma example_ordered_input_eval:
  "normalizeConfig Ordered_fallback_selector example_ordered_input 3
     = Inr (Ordered_config 3 [Timeout, Rate_limited])"
  by (simp add: example_ordered_input_def ordered_normalizeConfig_def assertStrictRecord_def
      has_unknown_key_def is_safe_int_def MAX_SAFE_INTEGER_def retryable_class_of_def
      ordered_max_attempts_def ordered_retry_on_def
      RETRYABLE_PROVIDER_FAILURE_CLASSES_def List.map_filter_simps)

lemma normalizeConfig_example:
  "wf_selector_config Ordered_fallback_selector 3 (Ordered_config 3 [Timeout, Rate_limited])
   \<and> normalizeConfig Ordered_fallback_selector
        (selector_config_value (Ordered_config 3 [Timeout, Rate_limited])) 3
      = Inr (Ordered_config 3 [Timeout, Rate_limited])"
  by (rule normalizeConfig_idempotent [OF example_ordered_input_eval])

text \<open>
  C13: what \<open>ordered-fallback\<close> decides is an available candidate that no attempt used, the one
  of least position among those, and it decides one only below \<open>maxAttempts\<close> and when the last
  attempt failed with a configured class before any output reached the client.
\<close>

theorem ordered_decide_spec:
  assumes "ordered_decide lc cs as (Ordered_config m retryOn) = Inr (Some cid)"
  shows "int (length as) < m
    \<and> (as = [] \<or> (sa_outcome (last as) = Failed \<and> \<not> sa_outputCommitted (last as)
          \<and> (\<exists>fc. fc \<in> set retryOn \<and> sa_failureClass (last as) = Some fc)))
    \<and> (\<exists>c. c \<in> set cs \<and> sc_candidateId c = cid \<and> sc_available c \<and> cid \<notin> set (map sa_candidateId as)
          \<and> (\<forall>c'. c' \<in> set cs \<and> sc_available c' \<and> sc_candidateId c' \<notin> set (map sa_candidateId as)
                \<longrightarrow> sc_position c \<le> sc_position c'))"
proof -
  have "retry_permitted (Ordered_config m retryOn) as"
    using assms by (auto elim: ordered_decide_SomeE)
  moreover from assms obtain c where "c \<in> set cs" "sc_candidateId c = cid" "sc_available c"
      "cid \<notin> set (map sa_candidateId as)"
      "\<And>c'. c' \<in> set cs \<Longrightarrow> sc_available c' \<Longrightarrow> sc_candidateId c' \<notin> set (map sa_candidateId as)
         \<Longrightarrow> sc_position c \<le> sc_position c'"
    by (rule ordered_decide_first) blast
  ultimately show ?thesis unfolding retry_permitted_def by auto
qed

definition example_candidates :: "selector_candidate list" where
  "example_candidates =
     [\<lparr>sc_candidateId = ''s:b'', sc_targetEdgeId = ''b'', sc_position = 1, sc_available = True\<rparr>,
      \<lparr>sc_candidateId = ''s:a'', sc_targetEdgeId = ''a'', sc_position = 0, sc_available = True\<rparr>]"

definition example_attempt :: selector_attempt where
  "example_attempt = \<lparr>sa_candidateId = ''s:a'', sa_targetEdgeId = ''a'', sa_attemptIndex = 0,
     sa_outcome = Failed, sa_failureClass = Some Timeout, sa_outputCommitted = False, sa_durationMs = 12\<rparr>"

lemma example_decide:
  "ordered_decide (\<lambda>_ _. 0) example_candidates [example_attempt] (Ordered_config 2 [Timeout])
     = Inr (Some ''s:b'')"
  by (simp add: ordered_decide_def untried_in_order_def example_candidates_def example_attempt_def)

lemma example_decide_first:
  "ordered_decide (\<lambda>_ _. 0) example_candidates [] (Ordered_config 2 [Timeout]) = Inr (Some ''s:a'')"
  by (simp add: ordered_decide_def untried_in_order_def example_candidates_def cmp_key_then_def cmp_or_def)

theorem ordered_decide_spec_witness:
  "\<exists>c. c \<in> set example_candidates \<and> sc_candidateId c = ''s:b'' \<and> sc_available c"
  using ordered_decide_spec [OF example_decide] by blast

text \<open>
  A run of attempts in which each attempt uses the candidate the rule decided never uses a
  candidate twice and never makes more attempts than there are available candidates; under
  \<open>ordered-fallback\<close> it also stays within \<open>maxAttempts\<close>. So the fallback loop ends.
\<close>

lemma fallback_run_bounded:
  assumes "normalizeConfig kind input n = Inr config"
    and "selector_history (\<lambda>cs as. decide kind lc cs as config) cs as"
  shows "distinct (map sa_candidateId as)
    \<and> length as \<le> length (filter sc_available cs)
    \<and> int (length as) \<le> (case config of Direct_config \<Rightarrow> 1 | Ordered_config m _ \<Rightarrow> m)"
proof -
  note sel = decide_selector [of kind lc config]
  have "int (length as) \<le> (case config of Direct_config \<Rightarrow> 1 | Ordered_config m _ \<Rightarrow> m)"
  proof (cases kind)
    case Direct_selector
    with assms have config: "config = Direct_config" and run: "selector_history direct_decide cs as"
      by (auto simp: direct_normalizeConfig_Inr)
    from run have "length as \<le> 1"
    proof (cases rule: selector_history.cases)
      case (history_attempt as' a)
      then obtain c where "filter sc_available cs = [c]"
        by (auto simp: direct_decide_def split: list.splits if_splits)
      with direct.history_bounded [OF run] show ?thesis by simp
    qed simp
    with config show ?thesis by simp
  next
    case Ordered_fallback_selector
    with normalizeConfig_wf [OF assms(1)] obtain m r where config: "config = Ordered_config m r" "2 \<le> m"
      by (cases config) auto
    with assms(2) Ordered_fallback_selector ordered_history_max_attempts [of lc m r cs as]
    show ?thesis by (cases "as = []") auto
  qed
  then show ?thesis
    using selector.history_distinct [OF sel assms(2)] selector.history_bounded [OF sel assms(2)] by blast
qed

lemma example_history:
  "selector_history (\<lambda>cs as. decide Ordered_fallback_selector (\<lambda>_ _. 0) cs as (Ordered_config 2 [Timeout]))
     example_candidates [example_attempt]"
  using history_attempt [OF history_start, of _ example_candidates example_attempt] example_decide_first
  by (simp add: example_attempt_def)

lemma example_normalize_2:
  "normalizeConfig Ordered_fallback_selector (selector_config_value (Ordered_config 2 [Timeout])) 2
     = Inr (Ordered_config 2 [Timeout])"
  using ordered_normalizeConfig_again [of 2 "Ordered_config 2 [Timeout]"] by simp

lemma fallback_run_bounded_example:
  "length [example_attempt] \<le> length (filter sc_available example_candidates)
   \<and> int (length [example_attempt]) \<le> 2"
  using fallback_run_bounded [OF example_normalize_2 example_history] by simp

text \<open>
  Once the last attempt of a run succeeded, was aborted, committed output to the client or
  failed with a class outside the rule's retry list, no further candidate is decided.
\<close>

lemma no_retry_after_commit:
  assumes "normalizeConfig kind input n = Inr config"
    and "selector_history (\<lambda>cs as. decide kind lc cs as config) cs (as @ [a])"
    and "sa_outcome a \<noteq> Failed \<or> sa_outputCommitted a \<or> sa_failureClass a = None
         \<or> sa_failureClass a = Some Non_retryable"
  shows "decide kind lc cs (as @ [a]) config = Inr None"
proof (cases kind)
  case Direct_selector
  then have run: "selector_history direct_decide cs (as @ [a])"
    using assms(2) by simp
  then have "direct_decide cs as = Inr (Some (sa_candidateId a))"
    by (cases rule: selector_history.cases) auto
  then show ?thesis
    using Direct_selector by (auto simp: direct_decide_def split: list.splits if_splits)
next
  case Ordered_fallback_selector
  with normalizeConfig_wf [OF assms(1)] obtain m r where "config = Ordered_config m r" "Non_retryable \<notin> set r"
    by (cases config) auto
  with assms(3) Ordered_fallback_selector show ?thesis
    by (auto simp: ordered_decide_def Let_def split: option.splits)
qed

lemma no_retry_after_commit_example:
  "decide Direct_selector (\<lambda>_ _. 0) [hd example_candidates]
     ([] @ [example_attempt\<lparr>sa_candidateId := ''s:b'', sa_outputCommitted := True\<rparr>]) Direct_config = Inr None"
proof (rule no_retry_after_commit)
  show "normalizeConfig Direct_selector (JObj []) 1 = Inr Direct_config"
    by (simp add: direct_normalizeConfig_Inr)
  show "selector_history (\<lambda>cs as. decide Direct_selector (\<lambda>_ _. 0) cs as Direct_config)
      [hd example_candidates] ([] @ [example_attempt\<lparr>sa_candidateId := ''s:b'', sa_outputCommitted := True\<rparr>])"
    by (rule history_attempt [OF history_start]) (simp add: direct_decide_def example_candidates_def)
qed simp

end
