(* ===== verification/Js_Json.thy ===== *)
theory Js_Json
  imports Frely_Prelude "HOL-Library.Log_Nat"
begin

section \<open>JSON text\<close>

text \<open>
  \<open>JSON.parse\<close> and \<open>JSON.stringify\<close> as the code uses them: the stored snapshots of prices,
  routing rules and revisions are JSON texts. \<open>json_parse\<close> follows the JSON grammar of ECMAScript
  on texts whose code units (and \<open>\u\<close> escapes) are below 256; numbers become doubles.
  \<open>json_print\<close> is \<open>JSON.stringify\<close> on what the code prints: strings, integers, \<open>null\<close>,
  arrays and objects. The round trip of the two is proved at the end.
\<close>

subsection \<open>Doubles\<close>

definition round_half_even :: "rat \<Rightarrow> int" where
  "round_half_even x =
     (let f = \<lfloor>x\<rfloor>; r = x - of_int f
      in if r < 1 / 2 then f else if r > 1 / 2 then f + 1 else if even f then f else f + 1)"

text \<open>
  The double nearest to a rational, ties to even. Integers up to \<open>2 ^ 53\<close> are doubles; for the
  others the unit in the last place is \<open>2 powi e\<close> with \<open>2 ^ 52 \<le> \<bar>q\<bar> / 2 powi e < 2 ^ 53\<close>, or the least
  subnormal unit.
\<close>

definition ulp_exponent :: "rat \<Rightarrow> int" where
  "ulp_exponent a =
     (let (n, d) = quotient_of a; e = bitlen n - bitlen d - 53
      in max (-1074) (if a / (2 powi e) < 2 ^ 53 then e else e + 1))"

definition double_of_rat :: "rat \<Rightarrow> jsnum" where
  "double_of_rat q =
     (if q = of_int \<lfloor>q\<rfloor> \<and> \<bar>q\<bar> \<le> 2 ^ 53 then JFin q
      else let u = 2 powi (ulp_exponent \<bar>q\<bar>); v = of_int (round_half_even (\<bar>q\<bar> / u)) * u
           in if v \<ge> 2 ^ 1024 then JInf (q > 0) else JFin (if q < 0 then - v else v))"

lemma double_of_int [simp]: "is_safe_int n \<Longrightarrow> double_of_rat (of_int n) = JFin (of_int n)"
proof -
  assume "is_safe_int n"
  then have "\<bar>n\<bar> \<le> 2 ^ 53" by (simp add: is_safe_int_def MAX_SAFE_INTEGER_def abs_le_iff)
  then have "\<bar>of_int n :: rat\<bar> \<le> 2 ^ 53"
    by (metis of_int_abs of_int_le_iff of_int_numeral of_int_power)
  then show ?thesis by (simp add: double_of_rat_def)
qed

subsection \<open>Decimal digits\<close>

definition digit_value :: "char \<Rightarrow> nat" where
  "digit_value c = cu c - 48"

definition digit_char :: "nat \<Rightarrow> char" where
  "digit_char d = char_of (48 + d)"

definition digits_value :: "string \<Rightarrow> nat" where
  "digits_value s = foldl (\<lambda>n c. 10 * n + digit_value c) 0 s"

fun nat_text :: "nat \<Rightarrow> string" where
  "nat_text n = (if n < 10 then [digit_char n] else nat_text (n div 10) @ [digit_char (n mod 10)])"

declare nat_text.simps [simp del]

definition int_text :: "int \<Rightarrow> string" where
  "int_text n = (if n < 0 then CHR ''-'' # nat_text (nat (- n)) else nat_text (nat n))"

lemma digit_char_facts [simp]:
  "d < 10 \<Longrightarrow> digit_value (digit_char d) = d" "d < 10 \<Longrightarrow> is_digit_char (digit_char d)"
  by (simp_all add: digit_value_def digit_char_def is_digit_char_def cu_def)

lemma nat_text_digits: "list_all is_digit_char (nat_text n)"
proof (induction n rule: nat_text.induct)
  case (1 n)
  then show ?case by (subst nat_text.simps) auto
qed

lemma nat_text_nonempty [simp]: "nat_text n \<noteq> []"
  by (subst nat_text.simps) auto

lemma digits_value_snoc: "digits_value (s @ [c]) = 10 * digits_value s + digit_value c"
  by (simp add: digits_value_def)

lemma digits_value_nat_text [simp]: "digits_value (nat_text n) = n"
proof (induction n rule: nat_text.induct)
  case (1 n)
  show ?case
  proof (cases "n < 10")
    case True
    then show ?thesis by (subst nat_text.simps) (simp add: digits_value_def)
  next
    case False
    with 1 have "digits_value (nat_text (n div 10) @ [digit_char (n mod 10)]) = n"
      by (simp add: digits_value_snoc)
    with False show ?thesis by (subst nat_text.simps) simp
  qed
qed

lemma nat_text_head: "n \<noteq> 0 \<Longrightarrow> hd (nat_text n) \<noteq> CHR ''0''"
proof (induction n rule: nat_text.induct)
  case (1 n)
  show ?case
  proof (cases "n < 10")
    case True
    have "digit_char n \<noteq> CHR ''0''"
    proof
      assume "digit_char n = CHR ''0''"
      then have "digit_value (digit_char n) = 0" by (simp add: digit_value_def cu_def)
      with True 1 show False by simp
    qed
    with True show ?thesis by (subst nat_text.simps) simp
  next
    case False
    with 1 show ?thesis by (subst nat_text.simps) simp
  qed
qed

lemma digit_char_0: "digit_char 0 = CHR ''0''"
  by code_simp

lemma nat_text_0: "nat_text 0 = ''0''"
  by (subst nat_text.simps) (simp add: digit_char_0)

subsection \<open>Scanning\<close>

definition is_json_ws :: "char \<Rightarrow> bool" where
  "is_json_ws c \<longleftrightarrow> c = CHR '' '' \<or> c = CHR 0x09 \<or> c = CHR 0x0A \<or> c = CHR 0x0D"

definition skip_ws :: "string \<Rightarrow> string" where
  "skip_ws s = dropWhile is_json_ws s"

definition span_digits :: "string \<Rightarrow> string \<times> string" where
  "span_digits s = (takeWhile is_digit_char s, dropWhile is_digit_char s)"

text \<open>The integer part has no leading zero; a fraction and an exponent have at least one digit.\<close>

definition scan_integer :: "string \<Rightarrow> (string \<times> string) option" where
  "scan_integer s =
     (case s of
        [] \<Rightarrow> None
      | c # cs \<Rightarrow> if c = CHR ''0'' then Some (''0'', cs)
                   else if is_digit_char c then Some (span_digits s) else None)"

definition scan_fraction :: "string \<Rightarrow> (string \<times> string) option" where
  "scan_fraction s =
     (case s of
        [] \<Rightarrow> Some ([], [])
      | c # cs \<Rightarrow> if c = CHR ''.'' then (if fst (span_digits cs) = [] then None else Some (span_digits cs))
                   else Some ([], s))"

definition scan_exponent :: "string \<Rightarrow> (int \<times> string) option" where
  "scan_exponent s =
     (case s of
        [] \<Rightarrow> Some (0, [])
      | c # cs \<Rightarrow>
          if c = CHR ''e'' \<or> c = CHR ''E''
          then let neg = (cs \<noteq> [] \<and> hd cs = CHR ''-'');
                   ds = (if cs \<noteq> [] \<and> (hd cs = CHR ''-'' \<or> hd cs = CHR ''+'') then tl cs else cs);
                   (u, v) = span_digits ds
               in if u = [] then None
                  else Some (if neg then - int (digits_value u) else int (digits_value u), v)
          else Some (0, s))"

definition parse_number :: "string \<Rightarrow> (jsval \<times> string) option" where
  "parse_number s =
     (let neg = (s \<noteq> [] \<and> hd s = CHR ''-'')
      in case scan_integer (if neg then tl s else s) of
           None \<Rightarrow> None
         | Some (ip, s1) \<Rightarrow>
             (case scan_fraction s1 of
                None \<Rightarrow> None
              | Some (fp, s2) \<Rightarrow>
                  (case scan_exponent s2 of
                     None \<Rightarrow> None
                   | Some (ex, s3) \<Rightarrow>
                       let m = of_nat (digits_value (ip @ fp)) * 10 powi (ex - int (length fp))
                       in Some (JNum (double_of_rat (if neg then - m else m)), s3))))"

definition hex_value :: "char \<Rightarrow> nat option" where
  "hex_value c =
     (if is_digit_char c then Some (cu c - 48)
      else if 97 \<le> cu c \<and> cu c \<le> 102 then Some (cu c - 87)
      else if 65 \<le> cu c \<and> cu c \<le> 70 then Some (cu c - 55) else None)"

text \<open>The text after the opening quote of a string, up to the closing one.\<close>

fun parse_string :: "string \<Rightarrow> (string \<times> string) option"
  and parse_escape :: "string \<Rightarrow> (string \<times> string) option"
  and parse_hex4 :: "string \<Rightarrow> (string \<times> string) option" where
  "parse_string [] = None"
| "parse_string (c # cs) =
     (if c = CHR 0x22 then Some ([], cs)
      else if cu c < 32 then None
      else if c \<noteq> CHR 0x5C then map_option (\<lambda>(u, v). (c # u, v)) (parse_string cs)
      else parse_escape cs)"
| "parse_escape [] = None"
| "parse_escape (e # cs) =
     (if e = CHR 0x22 \<or> e = CHR 0x5C \<or> e = CHR ''/''
      then map_option (\<lambda>(u, v). (e # u, v)) (parse_string cs)
      else if e = CHR ''b'' then map_option (\<lambda>(u, v). (CHR 0x08 # u, v)) (parse_string cs)
      else if e = CHR ''f'' then map_option (\<lambda>(u, v). (CHR 0x0C # u, v)) (parse_string cs)
      else if e = CHR ''n'' then map_option (\<lambda>(u, v). (CHR 0x0A # u, v)) (parse_string cs)
      else if e = CHR ''r'' then map_option (\<lambda>(u, v). (CHR 0x0D # u, v)) (parse_string cs)
      else if e = CHR ''t'' then map_option (\<lambda>(u, v). (CHR 0x09 # u, v)) (parse_string cs)
      else if e = CHR ''u'' then parse_hex4 cs
      else None)"
| "parse_hex4 (a # b # x # y # cs) =
     (case (hex_value a, hex_value b, hex_value x, hex_value y) of
        (Some ha, Some hb, Some hx, Some hy) \<Rightarrow>
          if ha = 0 \<and> hb = 0
          then map_option (\<lambda>(u, v). (char_of (16 * hx + hy) # u, v)) (parse_string cs) else None
      | _ \<Rightarrow> None)"
| "parse_hex4 _ = None"

text \<open>A duplicated key keeps its first place and takes the last value.\<close>

fun obj_put :: "string \<Rightarrow> 'a \<Rightarrow> (string \<times> 'a) list \<Rightarrow> (string \<times> 'a) list" where
  "obj_put k v [] = [(k, v)]"
| "obj_put k v (kv # kvs) = (if fst kv = k then (k, v) # kvs else kv # obj_put k v kvs)"

definition obj_of_members :: "(string \<times> jsval) list \<Rightarrow> jsval" where
  "obj_of_members kvs = JObj (foldl (\<lambda>o' kv. obj_put (fst kv) (snd kv) o') [] kvs)"

definition expect :: "char \<Rightarrow> string \<Rightarrow> string option" where
  "expect c s = (case skip_ws s of [] \<Rightarrow> None | d # ds \<Rightarrow> if d = c then Some ds else None)"

definition strip_prefix :: "string \<Rightarrow> string \<Rightarrow> string option" where
  "strip_prefix p s = (if prefix p s then Some (drop (length p) s) else None)"


subsection \<open>JSON.parse\<close>

text \<open>
  An element spends one unit of fuel and the value in it another one, and each value and each
  separator takes at least one character: more fuel than twice the characters is enough
  (\<open>parses_back\<close> below states it of every printed text).
\<close>

fun parse_value :: "nat \<Rightarrow> string \<Rightarrow> (jsval \<times> string) option"
  and parse_elements :: "nat \<Rightarrow> string \<Rightarrow> (jsval list \<times> string) option"
  and parse_members :: "nat \<Rightarrow> string \<Rightarrow> ((string \<times> jsval) list \<times> string) option" where
  "parse_value 0 s = None"
| "parse_value (Suc f) s =
     (case skip_ws s of
        [] \<Rightarrow> None
      | c # cs \<Rightarrow>
          if c = CHR 0x22 then map_option (\<lambda>(u, v). (JStr u, v)) (parse_string cs)
          else if c = CHR 0x7B then
            (case expect (CHR 0x7D) cs of
               Some r \<Rightarrow> Some (JObj [], r)
             | None \<Rightarrow> map_option (\<lambda>(kvs, r). (obj_of_members kvs, r)) (parse_members f cs))
          else if c = CHR 0x5B then
            (case expect (CHR 0x5D) cs of
               Some r \<Rightarrow> Some (JArr [], r)
             | None \<Rightarrow> map_option (\<lambda>(vs, r). (JArr vs, r)) (parse_elements f cs))
          else if c = CHR ''t'' then map_option (\<lambda>r. (JBool True, r)) (strip_prefix ''rue'' cs)
          else if c = CHR ''f'' then map_option (\<lambda>r. (JBool False, r)) (strip_prefix ''alse'' cs)
          else if c = CHR ''n'' then map_option (\<lambda>r. (JNull, r)) (strip_prefix ''ull'' cs)
          else parse_number (c # cs))"
| "parse_elements 0 s = None"
| "parse_elements (Suc f) s =
     (case parse_value f s of
        None \<Rightarrow> None
      | Some (v, r) \<Rightarrow>
          (case expect (CHR 0x2C) r of
             Some r' \<Rightarrow> map_option (\<lambda>(vs, t). (v # vs, t)) (parse_elements f r')
           | None \<Rightarrow> map_option (\<lambda>t. ([v], t)) (expect (CHR 0x5D) r)))"
| "parse_members 0 s = None"
| "parse_members (Suc f) s =
     (case expect (CHR 0x22) s of
        None \<Rightarrow> None
      | Some ks \<Rightarrow>
          (case parse_string ks of
             None \<Rightarrow> None
           | Some (k, r) \<Rightarrow>
               (case expect (CHR 0x3A) r of
                  None \<Rightarrow> None
                | Some vs \<Rightarrow>
                    (case parse_value f vs of
                       None \<Rightarrow> None
                     | Some (v, r') \<Rightarrow>
                         (case expect (CHR 0x2C) r' of
                            Some m \<Rightarrow> map_option (\<lambda>(kvs, t). ((k, v) # kvs, t)) (parse_members f m)
                          | None \<Rightarrow> map_option (\<lambda>t. ([(k, v)], t)) (expect (CHR 0x7D) r'))))))"

definition json_parse :: "string \<Rightarrow> jsval option" where
  "json_parse s =
     (case parse_value (Suc (2 * length s)) s of
        None \<Rightarrow> None
      | Some (v, r) \<Rightarrow> if skip_ws r = [] then Some v else None)"

subsection \<open>JSON.stringify\<close>

datatype json = Json_null | Json_str string | Json_int int | Json_arr "json list"
  | Json_obj "(string \<times> json) list"

fun of_json :: "json \<Rightarrow> jsval" where
  "of_json Json_null = JNull"
| "of_json (Json_str s) = JStr s"
| "of_json (Json_int n) = jint n"
| "of_json (Json_arr js) = JArr (map of_json js)"
| "of_json (Json_obj kvs) = JObj (map (\<lambda>(k, j). (k, of_json j)) kvs)"

definition hex_char :: "nat \<Rightarrow> char" where
  "hex_char d = (if d < 10 then char_of (48 + d) else char_of (87 + d))"

definition escape_char :: "char \<Rightarrow> string" where
  "escape_char c =
     (if c = CHR 0x22 \<or> c = CHR 0x5C then [CHR 0x5C, c]
      else if c = CHR 0x08 then [CHR 0x5C, CHR ''b'']
      else if c = CHR 0x0C then [CHR 0x5C, CHR ''f'']
      else if c = CHR 0x0A then [CHR 0x5C, CHR ''n'']
      else if c = CHR 0x0D then [CHR 0x5C, CHR ''r'']
      else if c = CHR 0x09 then [CHR 0x5C, CHR ''t'']
      else if cu c < 32
      then [CHR 0x5C, CHR ''u'', CHR ''0'', CHR ''0'', hex_char (cu c div 16), hex_char (cu c mod 16)]
      else [c])"

definition quote :: "string \<Rightarrow> string" where
  "quote s = CHR 0x22 # concat (map escape_char s) @ [CHR 0x22]"

fun comma_separated :: "string list \<Rightarrow> string" where
  "comma_separated [] = []"
| "comma_separated [x] = x"
| "comma_separated (x # y # zs) = x @ CHR 0x2C # comma_separated (y # zs)"

fun json_print :: "json \<Rightarrow> string" where
  "json_print Json_null = ''null''"
| "json_print (Json_str s) = quote s"
| "json_print (Json_int n) = int_text n"
| "json_print (Json_arr js) = CHR 0x5B # comma_separated (map json_print js) @ [CHR 0x5D]"
| "json_print (Json_obj kvs) =
     CHR 0x7B # comma_separated (map (\<lambda>(k, j). quote k @ CHR 0x3A # json_print j) kvs) @ [CHR 0x7D]"

text \<open>The values that survive: integers within the safe range, keys that occur once.\<close>

fun json_wf :: "json \<Rightarrow> bool" where
  "json_wf Json_null \<longleftrightarrow> True"
| "json_wf (Json_str s) \<longleftrightarrow> True"
| "json_wf (Json_int n) \<longleftrightarrow> is_safe_int n"
| "json_wf (Json_arr js) \<longleftrightarrow> list_all json_wf js"
| "json_wf (Json_obj kvs) \<longleftrightarrow> distinct (map fst kvs) \<and> list_all (\<lambda>(k, j). json_wf j) kvs"


declare parse_value.simps [simp del]

subsection \<open>Printing and parsing back\<close>

lemma hex_value_hex_char: "d < 16 \<Longrightarrow> hex_value (hex_char d) = Some d"
  by (auto simp: hex_value_def hex_char_def is_digit_char_def cu_def)

lemma hex_value_0: "hex_value (CHR ''0'') = Some 0"
  by (simp add: hex_value_def is_digit_char_def cu_def)

lemma parse_hex4_escape:
  assumes "of_char c < (32 :: nat)"
  shows "parse_hex4 (CHR ''0'' # CHR ''0'' # hex_char (of_char c div 16) # hex_char (of_char c mod 16) # t)
     = map_option (\<lambda>(u, v). (c # u, v)) (parse_string t)"
proof -
  have "char_of (16 * (of_char c div 16 :: nat) + of_char c mod 16) = c" by simp
  moreover have "of_char c div 16 < (16 :: nat)" "of_char c mod 16 < (16 :: nat)" using assms by simp_all
  ultimately show ?thesis by (simp add: hex_value_0 hex_value_hex_char)
qed

lemma parse_string_escape_char:
  "parse_string (escape_char c @ t) = map_option (\<lambda>(u, v). (c # u, v)) (parse_string t)"
proof (cases "c \<in> {CHR 0x22, CHR 0x5C, CHR 0x08, CHR 0x0C, CHR 0x0A, CHR 0x0D, CHR 0x09}")
  case True
  then show ?thesis by (auto simp: escape_char_def cu_def)
next
  case False
  then show ?thesis
    using parse_hex4_escape [of c t]
    by (auto simp: escape_char_def cu_def simp del: parse_hex4.simps)
qed

lemma parse_string_quote [simp]:
  "parse_string (concat (map escape_char s) @ CHR 0x22 # rest) = Some (s, rest)"
  by (induction s) (simp_all add: parse_string_escape_char)

definition number_ends :: "string \<Rightarrow> bool" where
  "number_ends rest \<longleftrightarrow> rest = [] \<or> \<not> is_digit_char (hd rest) \<and> hd rest \<notin> set ''.eE''"

lemma span_digits_append:
  assumes "list_all is_digit_char ds" "number_ends rest"
  shows "span_digits (ds @ rest) = (ds, rest)"
  using assms by (induction ds) (auto simp: span_digits_def number_ends_def dropWhile_eq_self_iff takeWhile_eq_Nil_iff)

lemma scan_integer_nat_text:
  assumes "number_ends rest"
  shows "scan_integer (nat_text n @ rest) = Some (nat_text n, rest)"
proof (cases "n = 0")
  case True
  then show ?thesis by (simp add: nat_text_0 scan_integer_def)
next
  case False
  obtain c cs where digits: "nat_text n = c # cs" by (cases "nat_text n") auto
  with nat_text_digits [of n] nat_text_head [OF False] have "is_digit_char c" "c \<noteq> CHR ''0''" by auto
  then show ?thesis
    using span_digits_append [OF nat_text_digits assms, of n] by (simp add: digits scan_integer_def)
qed

lemma number_ends_scan:
  "number_ends rest \<Longrightarrow> scan_fraction rest = Some ([], rest)"
  "number_ends rest \<Longrightarrow> scan_exponent rest = Some (0, rest)"
  by (cases rest; auto simp: number_ends_def scan_fraction_def scan_exponent_def)+

lemma parse_number_int_text:
  assumes "is_safe_int n" "number_ends rest"
  shows "parse_number (int_text n @ rest) = Some (jint n, rest)"
proof (cases "n < 0")
  case True
  then have "parse_number (int_text n @ rest) = Some (JNum (double_of_rat (of_int n)), rest)"
    using assms(2) by (simp add: parse_number_def int_text_def scan_integer_nat_text number_ends_scan)
  with assms(1) show ?thesis by simp
next
  case False
  obtain c cs where digits: "nat_text (nat n) = c # cs" by (cases "nat_text (nat n)") auto
  have "is_digit_char c" using nat_text_digits [of "nat n"] by (simp add: digits)
  then have "c \<noteq> CHR ''-''" by (auto simp: is_digit_char_def cu_def)
  then have "parse_number (int_text n @ rest) = Some (JNum (double_of_rat (of_int n)), rest)"
    using assms(2) False scan_integer_nat_text [OF assms(2), of "nat n"] digits_value_nat_text [of "nat n"]
    by (simp add: parse_number_def int_text_def number_ends_scan digits)
  with assms(1) show ?thesis by simp
qed

lemma int_text_head: "\<exists>c cs. int_text n = c # cs \<and> (is_digit_char c \<or> c = CHR ''-'')"
proof (cases "n < 0")
  case False
  obtain c cs where digits: "nat_text (nat n) = c # cs" by (cases "nat_text (nat n)") auto
  then have "is_digit_char c" using nat_text_digits [of "nat n"] by simp
  with False digits show ?thesis by (simp add: int_text_def)
qed (simp add: int_text_def)

lemma digit_not_special:
  "is_digit_char c \<Longrightarrow> \<not> is_json_ws c" "is_digit_char c \<Longrightarrow> c \<notin> {CHR 0x22, CHR 0x7B, CHR 0x7D, CHR 0x5B, CHR 0x5D, CHR 0x2C, CHR ''t'', CHR ''f'', CHR ''n''}"
  by (auto simp: is_digit_char_def cu_def is_json_ws_def)

lemma expect_simps [simp]:
  "\<not> is_json_ws c \<Longrightarrow> expect d (c # s) = (if c = d then Some s else None)"
  by (simp add: expect_def skip_ws_def)

lemma json_print_head:
  "\<exists>c cs. json_print j = c # cs \<and> \<not> is_json_ws c \<and> c \<notin> {CHR 0x7D, CHR 0x5D, CHR 0x2C}"
proof (cases j)
  case (Json_int n)
  obtain c cs where "int_text n = c # cs" "is_digit_char c \<or> c = CHR ''-''"
    using int_text_head by blast
  with Json_int digit_not_special show ?thesis by (auto simp: is_json_ws_def)
qed (auto simp: quote_def is_json_ws_def)

text \<open>Reading a printed value needs more fuel than twice the length of the text that is left.\<close>

definition parses_back :: "json \<Rightarrow> bool" where
  "parses_back j \<longleftrightarrow>
     (\<forall>f rest. 2 * length (json_print j @ rest) < f \<longrightarrow> number_ends rest
        \<longrightarrow> parse_value f (json_print j @ rest) = Some (of_json j, rest))"

lemma parses_backD:
  "parses_back j \<Longrightarrow> 2 * length (json_print j @ rest) < f \<Longrightarrow> number_ends rest
     \<Longrightarrow> parse_value f (json_print j @ rest) = Some (of_json j, rest)"
  by (simp add: parses_back_def)

lemma punctuation_ends [simp]:
  "number_ends (CHR 0x2C # r)" "number_ends (CHR 0x5D # r)" "number_ends (CHR 0x7D # r)" "number_ends []"
  "\<not> is_json_ws (CHR 0x2C)" "\<not> is_json_ws (CHR 0x5D)" "\<not> is_json_ws (CHR 0x7D)"
  "\<not> is_json_ws (CHR 0x3A)" "\<not> is_json_ws (CHR 0x22)"
  by (simp_all add: number_ends_def is_digit_char_def cu_def is_json_ws_def)

lemma parse_elements_print:
  assumes "js \<noteq> []" "\<And>j. j \<in> set js \<Longrightarrow> parses_back j"
    and "2 * length (comma_separated (map json_print js) @ CHR 0x5D # rest) + 1 < f"
  shows "parse_elements f (comma_separated (map json_print js) @ CHR 0x5D # rest) = Some (map of_json js, rest)"
  using assms
proof (induction js arbitrary: f)
  case (Cons j js)
  from Cons.prems(3) obtain f' where f: "f = Suc f'" by (cases f) auto
  have j: "parses_back j" using Cons.prems(2) by simp
  show ?case
  proof (cases js)
    case Nil
    with Cons.prems(3) f parses_backD [OF j, of "CHR 0x5D # rest" f'] show ?thesis by simp
  next
    case (Cons k ks)
    let ?more = "comma_separated (map json_print js) @ CHR 0x5D # rest"
    have "parse_elements f' ?more = Some (map of_json js, rest)"
      using Cons.IH Cons.prems f \<open>js = k # ks\<close> by simp
    with Cons Cons.prems(3) f parses_backD [OF j, of "CHR 0x2C # ?more" f'] show ?thesis by simp
  qed
qed simp

abbreviation print_member :: "string \<times> json \<Rightarrow> string" where
  "print_member \<equiv> \<lambda>(k, j). quote k @ CHR 0x3A # json_print j"

lemma parse_members_print:
  assumes "kvs \<noteq> []" "\<And>k j. (k, j) \<in> set kvs \<Longrightarrow> parses_back j"
    and "2 * length (comma_separated (map print_member kvs) @ CHR 0x7D # rest) + 1 < f"
  shows "parse_members f (comma_separated (map print_member kvs) @ CHR 0x7D # rest)
           = Some (map (\<lambda>(k, j). (k, of_json j)) kvs, rest)"
  using assms
proof (induction kvs arbitrary: f)
  case (Cons kv kvs)
  obtain k j where kv: "kv = (k, j)" by (cases kv)
  from Cons.prems(3) obtain f' where f: "f = Suc f'" by (cases f) auto
  have j: "parses_back j" by (rule Cons.prems(2) [of k]) (simp add: kv)
  show ?case
  proof (cases kvs)
    case Nil
    with Cons.prems(3) f kv parses_backD [OF j, of "CHR 0x7D # rest" f'] show ?thesis
      by (simp add: quote_def)
  next
    case (Cons k' ks)
    let ?more = "comma_separated (map print_member kvs) @ CHR 0x7D # rest"
    have "parse_members f' ?more = Some (map (\<lambda>(k, j). (k, of_json j)) kvs, rest)"
    proof (rule Cons.IH)
      show "parses_back j'" if "(k', j') \<in> set kvs" for k' j'
        by (rule Cons.prems(2) [of k']) (simp add: that)
    qed (use Cons.prems(3) f kv \<open>kvs = k' # ks\<close> in simp_all)
    with Cons Cons.prems(3) f kv parses_backD [OF j, of "CHR 0x2C # ?more" f'] show ?thesis
      by (simp add: quote_def)
  qed
qed simp

lemma obj_put_new: "k \<notin> set (map fst kvs) \<Longrightarrow> obj_put k v kvs = kvs @ [(k, v)]"
  by (induction kvs) auto

lemma obj_of_members_distinct: "distinct (map fst kvs) \<Longrightarrow> obj_of_members kvs = JObj kvs"
proof -
  have "distinct (map fst (acc @ kvs)) \<Longrightarrow> foldl (\<lambda>o' kv. obj_put (fst kv) (snd kv) o') acc kvs = acc @ kvs" for acc
    by (induction kvs arbitrary: acc) (auto simp: obj_put_new)
  from this [of "[]"] show "distinct (map fst kvs) \<Longrightarrow> obj_of_members kvs = JObj kvs"
    by (simp add: obj_of_members_def)
qed

lemma comma_separated_head:
  "xs \<noteq> [] \<Longrightarrow> hd xs \<noteq> [] \<Longrightarrow> \<exists>t. comma_separated xs = hd xs @ t"
  by (cases xs rule: comma_separated.cases) auto

lemma parses_backI:
  assumes "\<And>f rest. 2 * length (json_print j @ rest) < Suc f \<Longrightarrow> number_ends rest
     \<Longrightarrow> parse_value (Suc f) (json_print j @ rest) = Some (of_json j, rest)"
  shows "parses_back j"
  unfolding parses_back_def
proof (intro allI impI)
  fix f rest
  assume "2 * length (json_print j @ rest) < f" "number_ends rest"
  with assms [of rest "f - 1"] show "parse_value f (json_print j @ rest) = Some (of_json j, rest)"
    by (cases f) auto
qed

lemma parse_value_number:
  assumes "is_digit_char c \<or> c = CHR ''-''"
  shows "parse_value (Suc f) (c # cs) = parse_number (c # cs)"
proof -
  have "\<not> is_json_ws c \<and> c \<notin> {CHR 0x22, CHR 0x7B, CHR 0x5B, CHR ''t'', CHR ''f'', CHR ''n''}"
    using assms digit_not_special [of c] by (elim disjE) (simp_all add: is_json_ws_def)
  then show ?thesis by (simp add: skip_ws_def parse_value.simps)
qed

lemma int_text_value: "is_safe_int n \<Longrightarrow> parses_back (Json_int n)"
proof (rule parses_backI)
  fix f rest
  assume "is_safe_int n" "number_ends rest"
  then have num: "parse_number (int_text n @ rest) = Some (jint n, rest)"
    by (rule parse_number_int_text)
  obtain c cs where hd: "int_text n = c # cs" "is_digit_char c \<or> c = CHR ''-''"
    using int_text_head by blast
  show "parse_value (Suc f) (json_print (Json_int n) @ rest) = Some (of_json (Json_int n), rest)"
    using num parse_value_number [OF hd(2), of f "cs @ rest"] by (simp add: hd(1))
qed

lemma parse_bracket:
  assumes "\<not> is_json_ws d" "d \<notin> {CHR 0x7D, CHR 0x5D}"
  shows "parse_value (Suc f) (CHR 0x5B # d # ds) = map_option (\<lambda>(vs, r). (JArr vs, r)) (parse_elements f (d # ds))"
    and "parse_value (Suc f) (CHR 0x7B # d # ds) = map_option (\<lambda>(kvs, r). (obj_of_members kvs, r)) (parse_members f (d # ds))"
  using assms by (simp_all add: skip_ws_def is_json_ws_def parse_value.simps)

lemma json_value_roundtrip: "json_wf j \<Longrightarrow> parses_back j"
proof (induction j rule: of_json.induct)
  case 1
  show ?case
    by (rule parses_backI) (simp add: parse_value.simps skip_ws_def is_json_ws_def strip_prefix_def)
next
  case (2 s)
  show ?case
    by (rule parses_backI) (simp add: parse_value.simps quote_def skip_ws_def is_json_ws_def)
next
  case (3 n)
  then show ?case by (simp add: int_text_value)
next
  case (4 js)
  show ?case
  proof (cases "js = []")
    case True
    show ?thesis by (rule parses_backI) (simp add: parse_value.simps True skip_ws_def is_json_ws_def)
  next
    case False
    obtain d ds where hd: "json_print (hd js) = d # ds" "\<not> is_json_ws d" "d \<notin> {CHR 0x7D, CHR 0x5D, CHR 0x2C}"
      using json_print_head by blast
    with False obtain t where shape: "comma_separated (map json_print js) = d # t"
      using comma_separated_head [of "map json_print js"] by (auto simp: hd_map)
    show ?thesis
    proof (rule parses_backI)
      fix f rest
      assume len: "2 * length (json_print (Json_arr js) @ rest) < Suc f"
      have "parse_elements f (comma_separated (map json_print js) @ CHR 0x5D # rest) = Some (map of_json js, rest)"
        using 4 False len by (intro parse_elements_print) (auto simp: list_all_iff)
      with hd show "parse_value (Suc f) (json_print (Json_arr js) @ rest) = Some (of_json (Json_arr js), rest)"
        by (simp add: shape parse_bracket(1))
    qed
  qed
next
  case (5 kvs)
  show ?case
  proof (cases "kvs = []")
    case True
    show ?thesis by (rule parses_backI) (simp add: parse_value.simps True skip_ws_def is_json_ws_def)
  next
    case False
    then obtain t where shape: "comma_separated (map print_member kvs) = CHR 0x22 # t"
      using comma_separated_head [of "map print_member kvs"] by (cases "hd kvs") (auto simp: hd_map quote_def)
    have keys: "map fst (map (\<lambda>(k, j). (k, of_json j)) kvs) = map fst kvs" by auto
    show ?thesis
    proof (rule parses_backI)
      fix f rest
      assume len: "2 * length (json_print (Json_obj kvs) @ rest) < Suc f"
      have "parse_members f (comma_separated (map print_member kvs) @ CHR 0x7D # rest)
              = Some (map (\<lambda>(k, j). (k, of_json j)) kvs, rest)"
        using 5 False len by (intro parse_members_print) (auto simp: list_all_iff)
      moreover have "obj_of_members (map (\<lambda>(k, j). (k, of_json j)) kvs) = JObj (map (\<lambda>(k, j). (k, of_json j)) kvs)"
        using 5 by (intro obj_of_members_distinct) (simp only: keys, simp)
      ultimately show "parse_value (Suc f) (json_print (Json_obj kvs) @ rest) = Some (of_json (Json_obj kvs), rest)"
        by (simp add: shape parse_bracket(2))
    qed
  qed
qed

lemma json_roundtrip: "json_wf j \<Longrightarrow> json_parse (json_print j) = Some (of_json j)"
  using parses_backD [OF json_value_roundtrip, of j "[]" "Suc (2 * length (json_print j))"]
  by (simp add: json_parse_def skip_ws_def)

end
