(* ===== verification/Billing_Invocation.thy ===== *)
theory Billing_Invocation
  imports Js_Json
begin

section \<open>Invocation billing\<close>

text \<open>
  \<open>packages/billing/src/invocation-domain.ts\<close>: the integer charge of a Provider invocation (USD
  micro-units, signed 64-bit bounds, ceiling division per million tokens), the price snapshots
  and price profiles that are frozen as JSON when an invocation is admitted, and the choice of the
  price tier at settlement. \<open>bigint\<close> is \<open>int\<close>; \<open>localeCompare\<close> is the parameter \<open>lc\<close>. The
  locale \<open>checked_add\<close> is what both bounded additions promise.
\<close>

definition USD_UNITS_PER_CREDIT :: int where
  "USD_UNITS_PER_CREDIT = 1000000"

definition BILLING_MAX_INT64 :: int where
  "BILLING_MAX_INT64 = 9223372036854775807"

definition int64_amount :: "int \<Rightarrow> bool" where
  "int64_amount n \<longleftrightarrow> 0 \<le> n \<and> n \<le> BILLING_MAX_INT64"

record frozen_price =
  inputPriceUnitsPer1M :: int
  cachedInputPriceUnitsPer1M :: int
  cacheWritePriceUnitsPer1M :: "int option"
  outputPriceUnitsPer1M :: int

record invocation_usage =
  inputTokens :: int
  cachedInputTokens :: int
  cacheWriteTokens :: int
  outputTokens :: int
  totalTokens :: int
  usageSource :: string

subsection \<open>Charges\<close>

definition assertNonNegative :: "int \<Rightarrow> unit result" where
  "assertNonNegative v = require (\<not> (v < 0 \<or> v > BILLING_MAX_INT64)) (RelayError ''invalid_provider_usage'' 500 [])"

definition tokenChargeUnits :: "int \<Rightarrow> int \<Rightarrow> int result" where
  "tokenChargeUnits tokens price =
     (if tokens < 0 \<or> tokens > BILLING_MAX_INT64 \<or> price < 0 \<or> price > BILLING_MAX_INT64
      then relay ''invalid_integer_charge'' 500
      else if tokens = 0 \<or> price = 0 then Inr 0
      else let r = (tokens * price + USD_UNITS_PER_CREDIT - 1) div USD_UNITS_PER_CREDIT
           in if r > BILLING_MAX_INT64 then relay ''invalid_integer_charge'' 500 else Inr r)"

definition checkedBillingAdd :: "int \<Rightarrow> int \<Rightarrow> int result" where
  "checkedBillingAdd l r =
     (if l < 0 \<or> r < 0 \<or> l + r > BILLING_MAX_INT64 then relay ''invalid_integer_charge'' 500 else Inr (l + r))"

definition checkedTokenAdd :: "int \<Rightarrow> int \<Rightarrow> int result" where
  "checkedTokenAdd l r =
     (if l < 0 \<or> r < 0 \<or> l + r > BILLING_MAX_INT64 then relay ''invalid_provider_usage'' 500 else Inr (l + r))"

text \<open>\<open>charges.reduce(add, start)\<close> with an addition that may throw.\<close>

fun reduce_result :: "('a \<Rightarrow> 'b \<Rightarrow> 'a result) \<Rightarrow> 'a \<Rightarrow> 'b list \<Rightarrow> 'a result" where
  "reduce_result add acc [] = Inr acc"
| "reduce_result add acc (x # xs) = rbind (add acc x) (\<lambda>acc'. reduce_result add acc' xs)"

definition cache_write_price :: "'a frozen_price_scheme \<Rightarrow> int" where
  "cache_write_price p = (case cacheWritePriceUnitsPer1M p of None \<Rightarrow> inputPriceUnitsPer1M p | Some c \<Rightarrow> c)"

definition maximumInvocationChargeUnits :: "int \<Rightarrow> int \<Rightarrow> 'a frozen_price_scheme \<Rightarrow> int result" where
  "maximumInvocationChargeUnits inputs maxOutputs p =
     rbind (assertNonNegative inputs) (\<lambda>_.
     rbind (assertNonNegative maxOutputs) (\<lambda>_.
       let worst = foldl (\<lambda>m c. if c > m then c else m) 0
                     [inputPriceUnitsPer1M p, cachedInputPriceUnitsPer1M p, cache_write_price p]
       in rbind (tokenChargeUnits inputs worst) (\<lambda>i.
          rbind (tokenChargeUnits maxOutputs (outputPriceUnitsPer1M p)) (\<lambda>outp.
            checkedBillingAdd i outp))))"

definition validateUsage :: "invocation_usage \<Rightarrow> unit result" where
  "validateUsage u =
     rbind (assertNonNegative (inputTokens u)) (\<lambda>_.
     rbind (assertNonNegative (cachedInputTokens u)) (\<lambda>_.
     rbind (assertNonNegative (cacheWriteTokens u)) (\<lambda>_.
     rbind (assertNonNegative (outputTokens u)) (\<lambda>_.
     rbind (assertNonNegative (totalTokens u)) (\<lambda>_.
     rbind (checkedTokenAdd (inputTokens u) (outputTokens u)) (\<lambda>total.
       if totalTokens u \<noteq> total then relay ''invalid_provider_usage'' 500
       else if cachedInputTokens u + cacheWriteTokens u > inputTokens u then relay ''invalid_provider_usage'' 500
       else Inr ()))))))"

definition actualInvocationChargeUnits :: "invocation_usage \<Rightarrow> 'a frozen_price_scheme \<Rightarrow> int result" where
  "actualInvocationChargeUnits u p =
     rbind (validateUsage u) (\<lambda>_.
       let uncached = inputTokens u - cachedInputTokens u - cacheWriteTokens u
       in if uncached < 0 then relay ''invalid_provider_usage'' 500
          else rbind (traverse (\<lambda>(t, q). tokenChargeUnits t q)
                        [(uncached, inputPriceUnitsPer1M p),
                         (cachedInputTokens u, cachedInputPriceUnitsPer1M p),
                         (cacheWriteTokens u, cache_write_price p),
                         (outputTokens u, outputPriceUnitsPer1M p)])
                 (reduce_result checkedBillingAdd 0))"

subsection \<open>Frozen price snapshots\<close>

definition bigintField :: "(string \<times> jsval) list \<Rightarrow> string \<Rightarrow> int result" where
  "bigintField record field =
     (case js_get record field of
        JStr v \<Rightarrow> if v \<noteq> [] \<and> list_all is_digit_char v then Inr (int (digits_value v))
                  else relay ''invalid_price_snapshot'' 500
      | _ \<Rightarrow> relay ''invalid_price_snapshot'' 500)"

definition nullable_bigintField :: "(string \<times> jsval) list \<Rightarrow> string \<Rightarrow> int option result" where
  "nullable_bigintField record field =
     (if js_get record field = JNull then Inr None else rbind (bigintField record field) (\<lambda>n. Inr (Some n)))"

definition price_fields :: "(string \<times> jsval) list \<Rightarrow> frozen_price result" where
  "price_fields record =
     rbind (bigintField record ''inputPriceUnitsPer1M'') (\<lambda>i.
     rbind (bigintField record ''cachedInputPriceUnitsPer1M'') (\<lambda>c.
     rbind (nullable_bigintField record ''cacheWritePriceUnitsPer1M'') (\<lambda>w.
     rbind (bigintField record ''outputPriceUnitsPer1M'') (\<lambda>outp.
       Inr \<lparr>inputPriceUnitsPer1M = i, cachedInputPriceUnitsPer1M = c,
            cacheWritePriceUnitsPer1M = w, outputPriceUnitsPer1M = outp\<rparr>))))"

definition parseFrozenPriceUnits :: "string \<Rightarrow> frozen_price result" where
  "parseFrozenPriceUnits json =
     (case json_parse json of
        Some (JObj record) \<Rightarrow> price_fields record
      | _ \<Rightarrow> relay ''invalid_price_snapshot'' 500)"

definition json_of_nullable :: "int option \<Rightarrow> json" where
  "json_of_nullable n = (case n of None \<Rightarrow> Json_null | Some k \<Rightarrow> Json_str (int_text k))"

definition price_members :: "'a frozen_price_scheme \<Rightarrow> (string \<times> json) list" where
  "price_members p =
     [(''inputPriceUnitsPer1M'', Json_str (int_text (inputPriceUnitsPer1M p))),
      (''cachedInputPriceUnitsPer1M'', Json_str (int_text (cachedInputPriceUnitsPer1M p))),
      (''cacheWritePriceUnitsPer1M'', json_of_nullable (cacheWritePriceUnitsPer1M p)),
      (''outputPriceUnitsPer1M'', Json_str (int_text (outputPriceUnitsPer1M p)))]"

definition encodeFrozenPriceUnits :: "'a frozen_price_scheme \<Rightarrow> string \<Rightarrow> string \<Rightarrow> string" where
  "encodeFrozenPriceUnits p serviceTier tierKey =
     json_print (Json_obj
       ([(''schemaVersion'', Json_int 1), (''currency'', Json_str ''USD''), (''precision'', Json_int 6),
         (''serviceTier'', Json_str serviceTier), (''tierKey'', Json_str tierKey)] @ price_members p))"

definition frozenAccessPointPriceIds :: "string \<Rightarrow> string list result" where
  "frozenAccessPointPriceIds json =
     (case json_parse json of
        Some (JArr items) \<Rightarrow>
          traverse (\<lambda>item.
            case item of
              JObj record \<Rightarrow>
                (case (js_get record ''priceId'', js_get record ''snapshotJson'') of
                   (JStr priceId, JStr snapshotJson) \<Rightarrow>
                     rbind (parseFrozenPriceUnits snapshotJson) (\<lambda>_. Inr priceId)
                 | _ \<Rightarrow> relay ''invalid_price_snapshot'' 500)
            | _ \<Rightarrow> relay ''invalid_price_snapshot'' 500) items
      | _ \<Rightarrow> relay ''invalid_price_snapshot'' 500)"

subsection \<open>Frozen price profiles\<close>

datatype service_tier = Standard_tier | Priority_tier

fun service_tier_text :: "service_tier \<Rightarrow> string" where
  "service_tier_text Standard_tier = ''standard''"
| "service_tier_text Priority_tier = ''priority''"

record profile_tier_input = frozen_price +
  tierStatus :: string
  tierServiceTier :: string
  tierKey :: string
  minInputTokens :: int
  maxInputTokens :: "int option"

record price_profile_input = frozen_price +
  profileStatus :: string
  profileTiers :: "profile_tier_input list"

record parsed_tier =
  pt_serviceTier :: service_tier
  pt_tierKey :: string
  pt_minInputTokens :: int
  pt_maxInputTokens :: "int option"
  pt_units :: frozen_price

definition validatedFrozenUnits :: "'a frozen_price_scheme \<Rightarrow> frozen_price result" where
  "validatedFrozenUnits p =
     (if list_ex (\<lambda>v. v < 0 \<or> v > BILLING_MAX_INT64)
           [inputPriceUnitsPer1M p, cachedInputPriceUnitsPer1M p, outputPriceUnitsPer1M p]
      then relay ''invalid_price_profile'' 500
      else if (case cacheWritePriceUnitsPer1M p of None \<Rightarrow> False | Some c \<Rightarrow> c < 0 \<or> c > BILLING_MAX_INT64)
      then relay ''invalid_price_profile'' 500
      else Inr (frozen_price.truncate p))"

definition normal_tier_text :: "string \<Rightarrow> string" where
  "normal_tier_text v = replace_char (CHR ''-'') (CHR ''_'') (to_lower (js_trim v))"

definition normalizedProfileServiceTier :: "string \<Rightarrow> service_tier" where
  "normalizedProfileServiceTier v = (if normal_tier_text v = ''priority'' then Priority_tier else Standard_tier)"

definition storedProfileServiceTier :: "string \<Rightarrow> service_tier option" where
  "storedProfileServiceTier v =
     (if normal_tier_text v = ''standard'' then Some Standard_tier
      else if normal_tier_text v = ''priority'' then Some Priority_tier else None)"

definition compareDecimalStrings :: "(string \<Rightarrow> string \<Rightarrow> int) \<Rightarrow> string \<Rightarrow> string \<Rightarrow> int" where
  "compareDecimalStrings lc l r = (if length l = length r then lc l r else int (length l) - int (length r))"

text \<open>One enabled tier of the input: skipped when its service tier is not priced, refused when its
  key or bounds are not valid.\<close>

definition freeze_tier :: "profile_tier_input \<Rightarrow> parsed_tier list result" where
  "freeze_tier t =
     (case storedProfileServiceTier (tierServiceTier t) of
        None \<Rightarrow> Inr []
      | Some s \<Rightarrow>
          if tierKey t = [] \<or> length (tierKey t) > 100 \<or> minInputTokens t < 0
             \<or> (case maxInputTokens t of None \<Rightarrow> False | Some m \<Rightarrow> m < minInputTokens t)
          then relay ''invalid_price_profile'' 500
          else rbind (validatedFrozenUnits t) (\<lambda>units.
            Inr [\<lparr>pt_serviceTier = s, pt_tierKey = tierKey t, pt_minInputTokens = minInputTokens t,
                  pt_maxInputTokens = maxInputTokens t, pt_units = units\<rparr>]))"

definition frozen_tier_cmp :: "(string \<Rightarrow> string \<Rightarrow> int) \<Rightarrow> parsed_tier \<Rightarrow> parsed_tier \<Rightarrow> int" where
  "frozen_tier_cmp lc l r =
     cmp_or (lc (service_tier_text (pt_serviceTier l)) (service_tier_text (pt_serviceTier r)))
       (cmp_or (compareDecimalStrings lc (int_text (pt_minInputTokens l)) (int_text (pt_minInputTokens r)))
               (lc (pt_tierKey l) (pt_tierKey r)))"

definition tier_json :: "parsed_tier \<Rightarrow> json" where
  "tier_json t = Json_obj
     ([(''serviceTier'', Json_str (service_tier_text (pt_serviceTier t))),
       (''tierKey'', Json_str (pt_tierKey t)),
       (''minInputTokens'', Json_str (int_text (pt_minInputTokens t))),
       (''maxInputTokens'', json_of_nullable (pt_maxInputTokens t))] @ price_members (pt_units t))"

definition profile_json :: "frozen_price \<Rightarrow> parsed_tier list \<Rightarrow> json" where
  "profile_json base tiers = Json_obj
     [(''schemaVersion'', Json_int 1), (''currency'', Json_str ''USD''), (''precision'', Json_int 6),
      (''base'', Json_obj (price_members base)), (''tiers'', Json_arr (map tier_json tiers))]"

text \<open>
  The code builds the printed object of a tier before it sorts; here the tier keeps its numbers
  until it is printed, and the comparison reads their decimal text, as the code's does.
\<close>

definition encodeFrozenPriceProfile ::
  "(string \<Rightarrow> string \<Rightarrow> int) \<Rightarrow> price_profile_input \<Rightarrow> string result" where
  "encodeFrozenPriceProfile lc input =
     (if profileStatus input \<noteq> ''enabled'' then relay ''billable_price_changed'' 409
      else rbind (validatedFrozenUnits input) (\<lambda>base.
        rbind (traverse freeze_tier (filter (\<lambda>t. tierStatus t = ''enabled'') (profileTiers input))) (\<lambda>frozen.
          Inr (json_print (profile_json base (js_sort (frozen_tier_cmp lc) (concat frozen)))))))"

definition units_from :: "(string \<times> jsval) list \<Rightarrow> frozen_price result" where
  "units_from record = rbind (price_fields record) validatedFrozenUnits"

definition service_tier_of :: "jsval \<Rightarrow> service_tier option" where
  "service_tier_of v =
     (if v = JStr ''standard'' then Some Standard_tier
      else if v = JStr ''priority'' then Some Priority_tier else None)"

definition parse_tier :: "jsval \<Rightarrow> parsed_tier result" where
  "parse_tier item =
     (case item of
        JObj tier \<Rightarrow>
          (case (service_tier_of (js_get tier ''serviceTier''), js_get tier ''tierKey'') of
             (Some s, JStr key) \<Rightarrow>
               if key = [] \<or> length key > 100 then relay ''invalid_price_profile'' 500
               else rbind (bigintField tier ''minInputTokens'') (\<lambda>lo.
                    rbind (nullable_bigintField tier ''maxInputTokens'') (\<lambda>hi.
                      if (case hi of None \<Rightarrow> False | Some m \<Rightarrow> m < lo) then relay ''invalid_price_profile'' 500
                      else rbind (units_from tier) (\<lambda>units.
                        Inr \<lparr>pt_serviceTier = s, pt_tierKey = key, pt_minInputTokens = lo,
                             pt_maxInputTokens = hi, pt_units = units\<rparr>)))
           | _ \<Rightarrow> relay ''invalid_price_profile'' 500)
      | _ \<Rightarrow> relay ''invalid_price_profile'' 500)"

definition parseFrozenPriceProfile :: "string \<Rightarrow> (frozen_price \<times> parsed_tier list) result" where
  "parseFrozenPriceProfile json =
     (case json_parse json of
        Some (JObj record) \<Rightarrow>
          (case (js_get record ''base'', js_get record ''tiers'') of
             (JObj base, JArr tiers) \<Rightarrow>
               if js_get record ''schemaVersion'' \<noteq> jint 1 \<or> js_get record ''currency'' \<noteq> JStr ''USD''
                  \<or> js_get record ''precision'' \<noteq> jint 6
               then relay ''invalid_price_profile'' 500
               else rbind (traverse parse_tier tiers) (\<lambda>ts. rbind (units_from base) (\<lambda>b. Inr (b, ts)))
           | _ \<Rightarrow> relay ''invalid_price_profile'' 500)
      | _ \<Rightarrow> relay ''invalid_price_profile'' 500)"

record selected_profile =
  sp_units :: frozen_price
  sp_serviceTier :: service_tier
  sp_tierKey :: string
  sp_snapshotJson :: string

definition tier_covers :: "int \<Rightarrow> parsed_tier \<Rightarrow> bool" where
  "tier_covers tokens t \<longleftrightarrow> pt_minInputTokens t \<le> tokens
     \<and> (case pt_maxInputTokens t of None \<Rightarrow> True | Some m \<Rightarrow> tokens \<le> m)"

definition tier_preference :: "(string \<Rightarrow> string \<Rightarrow> int) \<Rightarrow> parsed_tier \<Rightarrow> parsed_tier \<Rightarrow> int" where
  "tier_preference lc l r =
     (if pt_minInputTokens l = pt_minInputTokens r then lc (pt_tierKey l) (pt_tierKey r)
      else if pt_minInputTokens l > pt_minInputTokens r then - 1 else 1)"

definition matching_tier ::
  "(string \<Rightarrow> string \<Rightarrow> int) \<Rightarrow> int \<Rightarrow> parsed_tier list \<Rightarrow> service_tier \<Rightarrow> parsed_tier option" where
  "matching_tier lc tokens tiers s =
     (case js_sort (tier_preference lc) (filter (\<lambda>t. pt_serviceTier t = s \<and> tier_covers tokens t) tiers) of
        [] \<Rightarrow> None | t # _ \<Rightarrow> Some t)"

definition first_standard_input :: "parsed_tier list \<Rightarrow> int option" where
  "first_standard_input tiers =
     foldl (\<lambda>m t. case m of
                    None \<Rightarrow> Some (pt_minInputTokens t)
                  | Some n \<Rightarrow> if pt_minInputTokens t < n then Some (pt_minInputTokens t) else Some n)
       None (filter (\<lambda>t. pt_serviceTier t = Standard_tier) tiers)"

definition select_from_profile ::
  "(string \<Rightarrow> string \<Rightarrow> int) \<Rightarrow> frozen_price \<Rightarrow> parsed_tier list \<Rightarrow> int \<Rightarrow> service_tier \<Rightarrow> bool
     \<Rightarrow> (frozen_price \<times> service_tier \<times> string) result" where
  "select_from_profile lc base tiers tokens requested requireServiceTier =
     (let requestedTier = matching_tier lc tokens tiers requested;
          selected = (case requestedTier of None \<Rightarrow> matching_tier lc tokens tiers Standard_tier | Some t \<Rightarrow> Some t)
      in if requireServiceTier \<and> requested = Priority_tier \<and> requestedTier = None
         then relay ''service_tier_price_not_configured'' 500
         else (case selected of
                 Some t \<Rightarrow> Inr (pt_units t, pt_serviceTier t, pt_tierKey t)
               | None \<Rightarrow>
                   if (case first_standard_input tiers of None \<Rightarrow> True | Some n \<Rightarrow> tokens < n)
                   then Inr (base, Standard_tier, ''short_context'')
                   else relay ''price_tier_not_available'' 500))"

definition selectFrozenPriceProfile ::
  "(string \<Rightarrow> string \<Rightarrow> int) \<Rightarrow> string \<Rightarrow> int \<Rightarrow> string \<Rightarrow> bool \<Rightarrow> selected_profile result" where
  "selectFrozenPriceProfile lc json tokens requestedServiceTier requireServiceTier =
     rbind (assertNonNegative tokens) (\<lambda>_.
     rbind (parseFrozenPriceProfile json) (\<lambda>(base, tiers).
     rbind (select_from_profile lc base tiers tokens (normalizedProfileServiceTier requestedServiceTier)
              requireServiceTier) (\<lambda>(units, s, key).
       Inr \<lparr>sp_units = units, sp_serviceTier = s, sp_tierKey = key,
            sp_snapshotJson = encodeFrozenPriceUnits units (service_tier_text s) key\<rparr>)))"

subsection \<open>What a bounded addition promises\<close>

locale checked_add =
  fixes add :: "int \<Rightarrow> int \<Rightarrow> int result"
  assumes add_iff: "add l r = Inr s \<longleftrightarrow> 0 \<le> l \<and> 0 \<le> r \<and> l + r \<le> BILLING_MAX_INT64 \<and> s = l + r"
begin

lemma add_bounded: "add l r = Inr s \<Longrightarrow> int64_amount s"
  by (auto simp: add_iff int64_amount_def)

lemma reduce_iff:
  "0 \<le> acc \<Longrightarrow> acc \<le> BILLING_MAX_INT64 \<Longrightarrow>
   reduce_result add acc xs = Inr s \<longleftrightarrow>
     list_all (\<lambda>x. 0 \<le> x) xs \<and> acc + sum_list xs \<le> BILLING_MAX_INT64 \<and> s = acc + sum_list xs"
proof (induction xs arbitrary: acc)
  case (Cons x xs)
  show ?case
  proof (cases "0 \<le> x \<and> acc + x \<le> BILLING_MAX_INT64")
    case True
    with Cons.prems have "add acc x = Inr (acc + x)" by (simp add: add_iff)
    with Cons True show ?thesis by (simp add: algebra_simps)
  next
    case False
    have no: "reduce_result add acc (x # xs) \<noteq> Inr s" using False by (auto simp: effects add_iff)
    have "\<not> (list_all (\<lambda>x. 0 \<le> x) (x # xs) \<and> acc + sum_list (x # xs) \<le> BILLING_MAX_INT64)"
    proof
      assume all: "list_all (\<lambda>x. 0 \<le> x) (x # xs) \<and> acc + sum_list (x # xs) \<le> BILLING_MAX_INT64"
      then have "0 \<le> sum_list xs" by (auto simp: list_all_iff intro: sum_list_nonneg)
      with all False show False by simp
    qed
    with no show ?thesis by blast
  qed
qed auto

end

interpretation billing_add: checked_add checkedBillingAdd
  by unfold_locales (auto simp: checkedBillingAdd_def)

interpretation token_add: checked_add checkedTokenAdd
  by unfold_locales (auto simp: checkedTokenAdd_def)

subsection \<open>Charges, exactly\<close>

text \<open>The charge for tokens at a price, rounded up to a whole unit.\<close>

definition charge_ceiling :: "int \<Rightarrow> int \<Rightarrow> int" where
  "charge_ceiling tokens price = (tokens * price + 999999) div 1000000"

lemma charge_ceiling_0 [simp]: "charge_ceiling 0 p = 0" "charge_ceiling t 0 = 0"
  by (simp_all add: charge_ceiling_def)

lemma charge_ceiling_nonneg: "0 \<le> t \<Longrightarrow> 0 \<le> p \<Longrightarrow> 0 \<le> charge_ceiling t p"
  by (simp add: charge_ceiling_def pos_imp_zdiv_nonneg_iff)

lemma charge_ceiling_bounds:
  "t * p \<le> 1000000 * charge_ceiling t p" "1000000 * charge_ceiling t p \<le> t * p + 999999"
  unfolding charge_ceiling_def
  using mult_div_mod_eq [of 1000000 "t * p + 999999"] pos_mod_bound [of 1000000 "t * p + 999999"]
    pos_mod_sign [of 1000000 "t * p + 999999"] by linarith+

lemma charge_ceiling_mono:
  "0 \<le> t \<Longrightarrow> t \<le> t' \<Longrightarrow> 0 \<le> p \<Longrightarrow> p \<le> p' \<Longrightarrow> charge_ceiling t p \<le> charge_ceiling t' p'"
  unfolding charge_ceiling_def by (intro zdiv_mono1) (auto intro: mult_mono)

lemma charge_ceiling_add: "charge_ceiling (a + b) p \<le> charge_ceiling a p + charge_ceiling b p"
proof -
  define x y z where "x = charge_ceiling (a + b) p" and "y = charge_ceiling a p" and "z = charge_ceiling b p"
  have "1000000 * x \<le> a * p + b * p + 999999"
    using charge_ceiling_bounds(2) [of "a + b" p] by (simp add: x_def distrib_right)
  moreover have "a * p \<le> 1000000 * y" "b * p \<le> 1000000 * z"
    using charge_ceiling_bounds(1) [of a p] charge_ceiling_bounds(1) [of b p] by (simp_all add: y_def z_def)
  ultimately have "1000000 * x \<le> 1000000 * y + 1000000 * z + 999999" by linarith
  then have "\<not> y + z + 1 \<le> x" by linarith
  then have "x \<le> y + z" by simp
  then show ?thesis by (simp add: x_def y_def z_def)
qed

lemma tokenChargeUnits_Inr:
  "tokenChargeUnits t p = Inr c \<longleftrightarrow>
     int64_amount t \<and> int64_amount p \<and> c = charge_ceiling t p \<and> c \<le> BILLING_MAX_INT64"
  by (auto simp: tokenChargeUnits_def int64_amount_def charge_ceiling_def USD_UNITS_PER_CREDIT_def Let_def
      BILLING_MAX_INT64_def)

lemma assertNonNegative_Inr [simp]: "assertNonNegative v = Inr u \<longleftrightarrow> int64_amount v"
  by (auto simp: assertNonNegative_def int64_amount_def)

definition valid_usage :: "invocation_usage \<Rightarrow> bool" where
  "valid_usage u \<longleftrightarrow>
     0 \<le> inputTokens u \<and> 0 \<le> cachedInputTokens u \<and> 0 \<le> cacheWriteTokens u \<and> 0 \<le> outputTokens u
     \<and> totalTokens u = inputTokens u + outputTokens u \<and> totalTokens u \<le> BILLING_MAX_INT64
     \<and> cachedInputTokens u + cacheWriteTokens u \<le> inputTokens u"

lemma validateUsage_Inr: "validateUsage u = Inr x \<longleftrightarrow> valid_usage u"
  by (auto simp: validateUsage_def valid_usage_def effects token_add.add_iff int64_amount_def split: if_splits)

text \<open>The prices are amounts, the cache-write price only when it is set.\<close>

definition valid_price :: "'a frozen_price_scheme \<Rightarrow> bool" where
  "valid_price p \<longleftrightarrow>
     int64_amount (inputPriceUnitsPer1M p) \<and> int64_amount (cachedInputPriceUnitsPer1M p)
     \<and> int64_amount (outputPriceUnitsPer1M p)
     \<and> (case cacheWritePriceUnitsPer1M p of None \<Rightarrow> True | Some c \<Rightarrow> int64_amount c)"

lemma valid_price_cache_write: "valid_price p \<Longrightarrow> int64_amount (cache_write_price p)"
  by (auto simp: valid_price_def cache_write_price_def split: option.splits)

definition exact_charge :: "invocation_usage \<Rightarrow> 'a frozen_price_scheme \<Rightarrow> int" where
  "exact_charge u p =
     charge_ceiling (inputTokens u - cachedInputTokens u - cacheWriteTokens u) (inputPriceUnitsPer1M p)
     + charge_ceiling (cachedInputTokens u) (cachedInputPriceUnitsPer1M p)
     + charge_ceiling (cacheWriteTokens u) (cache_write_price p)
     + charge_ceiling (outputTokens u) (outputPriceUnitsPer1M p)"

lemma actual_charge_iff:
  assumes price: "valid_price p"
  shows "actualInvocationChargeUnits u p = Inr c \<longleftrightarrow>
    valid_usage u \<and> c = exact_charge u p \<and> c \<le> BILLING_MAX_INT64"
proof (cases "valid_usage u")
  case False
  then show ?thesis
    unfolding actualInvocationChargeUnits_def by (simp add: effects validateUsage_Inr)
next
  case True
  define un where "un = inputTokens u - cachedInputTokens u - cacheWriteTokens u"
  let ?cs = "[charge_ceiling un (inputPriceUnitsPer1M p), charge_ceiling (cachedInputTokens u) (cachedInputPriceUnitsPer1M p),
              charge_ceiling (cacheWriteTokens u) (cache_write_price p), charge_ceiling (outputTokens u) (outputPriceUnitsPer1M p)]"
  have amounts: "int64_amount un" "int64_amount (cachedInputTokens u)" "int64_amount (cacheWriteTokens u)"
      "int64_amount (outputTokens u)" "0 \<le> un"
    using True by (auto simp: valid_usage_def int64_amount_def un_def)
  have prices: "int64_amount (inputPriceUnitsPer1M p)" "int64_amount (cachedInputPriceUnitsPer1M p)"
      "int64_amount (cache_write_price p)" "int64_amount (outputPriceUnitsPer1M p)"
    using price valid_price_cache_write [OF price] by (auto simp: valid_price_def)
  have nonneg: "list_all (\<lambda>x. 0 \<le> x) ?cs"
    using amounts prices by (auto simp: int64_amount_def intro: charge_ceiling_nonneg)
  have ok: "validateUsage u = Inr ()" using True by (simp add: validateUsage_Inr)
  have "actualInvocationChargeUnits u p = Inr c \<longleftrightarrow>
      (\<forall>x \<in> set ?cs. x \<le> BILLING_MAX_INT64) \<and> reduce_result checkedBillingAdd 0 ?cs = Inr c"
    using amounts prices unfolding actualInvocationChargeUnits_def ok un_def [symmetric]
    by (auto simp: effects tokenChargeUnits_Inr Let_def simp del: reduce_result.simps)
  also have "\<dots> \<longleftrightarrow> c = exact_charge u p \<and> c \<le> BILLING_MAX_INT64"
    using nonneg billing_add.reduce_iff [of 0 ?cs c]
    by (auto simp: BILLING_MAX_INT64_def exact_charge_def un_def simp del: reduce_result.simps)
  finally show ?thesis using True by simp
qed

text \<open>Three parts of the input, each rounded up, against the whole rounded up once.\<close>

lemma three_ceilings:
  assumes "0 \<le> a" "0 \<le> b" "0 \<le> c" "a + b + c \<le> n"
    and "0 \<le> p" "p \<le> w" "0 \<le> q" "q \<le> w" "0 \<le> r" "r \<le> w"
  shows "charge_ceiling a p + charge_ceiling b q + charge_ceiling c r \<le> charge_ceiling n w + 2"
proof -
  have "a * p + b * q + c * r \<le> a * w + b * w + c * w"
    using assms by (intro add_mono mult_left_mono) auto
  also have "\<dots> = (a + b + c) * w" by (simp add: algebra_simps)
  also have "\<dots> \<le> n * w" using assms by (intro mult_right_mono) auto
  finally have "a * p + b * q + c * r \<le> n * w" .
  with charge_ceiling_bounds(2) [of a p] charge_ceiling_bounds(2) [of b q]
    charge_ceiling_bounds(2) [of c r] charge_ceiling_bounds(1) [of n w]
  show ?thesis by linarith
qed

definition worst_input_price :: "'a frozen_price_scheme \<Rightarrow> int" where
  "worst_input_price p =
     max 0 (max (inputPriceUnitsPer1M p) (max (cachedInputPriceUnitsPer1M p) (cache_write_price p)))"

lemma maximum_charge_Inr:
  "maximumInvocationChargeUnits n m p = Inr c \<longleftrightarrow>
     int64_amount n \<and> int64_amount m \<and> int64_amount (worst_input_price p) \<and> int64_amount (outputPriceUnitsPer1M p)
     \<and> c = charge_ceiling n (worst_input_price p) + charge_ceiling m (outputPriceUnitsPer1M p)
     \<and> c \<le> BILLING_MAX_INT64"
proof -
  have worst: "foldl (\<lambda>m c. if c > m then c else m) 0
      [inputPriceUnitsPer1M p, cachedInputPriceUnitsPer1M p, cache_write_price p] = worst_input_price p"
    by (simp add: worst_input_price_def max_def)
  show ?thesis
  proof (cases "int64_amount n \<and> int64_amount m \<and> int64_amount (worst_input_price p) \<and> int64_amount (outputPriceUnitsPer1M p)")
    case True
    then have "0 \<le> charge_ceiling n (worst_input_price p)" "0 \<le> charge_ceiling m (outputPriceUnitsPer1M p)"
      by (auto simp: int64_amount_def intro: charge_ceiling_nonneg)
    with True show ?thesis
      unfolding maximumInvocationChargeUnits_def worst Let_def
      by (auto simp: effects tokenChargeUnits_Inr billing_add.add_iff)
  next
    case False
    then show ?thesis
      unfolding maximumInvocationChargeUnits_def worst Let_def by (auto simp: effects tokenChargeUnits_Inr)
  qed
qed

subsection \<open>Decimal fields\<close>

lemma int_text_all_digits: "0 \<le> n \<Longrightarrow> list_all is_digit_char (int_text n)"
  by (simp add: int_text_def nat_text_digits)

lemma int_text_digits_value: "0 \<le> n \<Longrightarrow> int (digits_value (int_text n)) = n"
  by (simp add: int_text_def)

lemma int_text_nonempty [simp]: "int_text n \<noteq> []"
  by (simp add: int_text_def)

lemma bigintField_text:
  "js_get record field = JStr (int_text n) \<Longrightarrow> 0 \<le> n \<Longrightarrow> bigintField record field = Inr n"
  by (simp add: bigintField_def int_text_all_digits int_text_digits_value)

lemma bigintField_nonneg: "bigintField record field = Inr n \<Longrightarrow> 0 \<le> n"
  by (auto simp: bigintField_def split: jsval.splits if_splits)

definition nullable_value :: "int option \<Rightarrow> jsval" where
  "nullable_value n = (case n of None \<Rightarrow> JNull | Some k \<Rightarrow> JStr (int_text k))"

lemma of_json_nullable [simp]: "of_json (json_of_nullable n) = nullable_value n"
  by (simp add: json_of_nullable_def nullable_value_def split: option.splits)

lemma json_wf_nullable [simp]: "json_wf (json_of_nullable n)"
  by (simp add: json_of_nullable_def split: option.splits)

lemma nullable_bigintField_value:
  "js_get record field = nullable_value n \<Longrightarrow> (\<And>k. n = Some k \<Longrightarrow> 0 \<le> k) \<Longrightarrow> nullable_bigintField record field = Inr n"
  by (cases n) (simp_all add: nullable_bigintField_def nullable_value_def bigintField_text)

definition price_nonneg :: "'a frozen_price_scheme \<Rightarrow> bool" where
  "price_nonneg p \<longleftrightarrow> 0 \<le> inputPriceUnitsPer1M p \<and> 0 \<le> cachedInputPriceUnitsPer1M p
     \<and> 0 \<le> outputPriceUnitsPer1M p \<and> (\<forall>c. cacheWritePriceUnitsPer1M p = Some c \<longrightarrow> 0 \<le> c)"

text \<open>An object that has the four printed price members, among others.\<close>

definition has_price :: "(string \<times> jsval) list \<Rightarrow> 'a frozen_price_scheme \<Rightarrow> bool" where
  "has_price record p \<longleftrightarrow>
     js_get record ''inputPriceUnitsPer1M'' = JStr (int_text (inputPriceUnitsPer1M p))
     \<and> js_get record ''cachedInputPriceUnitsPer1M'' = JStr (int_text (cachedInputPriceUnitsPer1M p))
     \<and> js_get record ''cacheWritePriceUnitsPer1M'' = nullable_value (cacheWritePriceUnitsPer1M p)
     \<and> js_get record ''outputPriceUnitsPer1M'' = JStr (int_text (outputPriceUnitsPer1M p))"

lemma price_fields_has_price:
  "has_price record p \<Longrightarrow> price_nonneg p \<Longrightarrow> price_fields record = Inr (frozen_price.truncate p)"
  by (simp add: has_price_def price_nonneg_def price_fields_def bigintField_text nullable_bigintField_value
      frozen_price.defs)

lemma valid_price_nonneg: "valid_price p \<Longrightarrow> price_nonneg p"
  by (auto simp: valid_price_def price_nonneg_def int64_amount_def)

lemma validatedFrozenUnits_Inr:
  "validatedFrozenUnits p = Inr q \<longleftrightarrow> valid_price p \<and> q = frozen_price.truncate p"
  by (auto simp: validatedFrozenUnits_def valid_price_def int64_amount_def split: option.splits if_splits)

lemma valid_price_truncate [simp]: "valid_price (frozen_price.truncate p) = valid_price p"
  by (simp add: valid_price_def frozen_price.defs)

lemma truncate_truncate [simp]: "frozen_price.truncate (frozen_price.truncate p) = frozen_price.truncate p"
  by (simp add: frozen_price.defs)

lemma truncate_frozen [simp]: "frozen_price.truncate (p :: frozen_price) = p"
  by (cases p) (simp add: frozen_price.defs)

lemma price_members_truncate [simp]: "price_members (frozen_price.truncate p) = price_members p"
  by (simp add: price_members_def frozen_price.defs)

lemma units_from_has_price: "has_price record p \<Longrightarrow> valid_price p \<Longrightarrow> units_from record = Inr (frozen_price.truncate p)"
  by (simp add: units_from_def price_fields_has_price valid_price_nonneg validatedFrozenUnits_Inr)

lemma encoded_price_units_parse:
  assumes "price_nonneg p"
  shows "parseFrozenPriceUnits (encodeFrozenPriceUnits p s k) = Inr (frozen_price.truncate p)"
proof -
  let ?j = "Json_obj ([(''schemaVersion'', Json_int 1), (''currency'', Json_str ''USD''), (''precision'', Json_int 6),
         (''serviceTier'', Json_str s), (''tierKey'', Json_str k)] @ price_members p)"
  have "json_wf ?j" by (simp add: price_members_def is_safe_int_def MAX_SAFE_INTEGER_def)
  then have "json_parse (encodeFrozenPriceUnits p s k) = Some (of_json ?j)"
    unfolding encodeFrozenPriceUnits_def by (rule json_roundtrip)
  moreover obtain kvs where "of_json ?j = JObj kvs" "has_price kvs p"
    by (simp add: price_members_def has_price_def)
  ultimately show ?thesis using assms by (simp add: parseFrozenPriceUnits_def price_fields_has_price)
qed

subsection \<open>Freezing and reading back a profile\<close>

definition wf_parsed_tier :: "parsed_tier \<Rightarrow> bool" where
  "wf_parsed_tier t \<longleftrightarrow>
     pt_tierKey t \<noteq> [] \<and> length (pt_tierKey t) \<le> 100 \<and> 0 \<le> pt_minInputTokens t
     \<and> (case pt_maxInputTokens t of None \<Rightarrow> True | Some m \<Rightarrow> pt_minInputTokens t \<le> m)
     \<and> valid_price (pt_units t)"

lemma freeze_tier_wf: "freeze_tier t = Inr ts \<Longrightarrow> list_all wf_parsed_tier ts"
  by (auto simp: freeze_tier_def wf_parsed_tier_def effects validatedFrozenUnits_Inr split: option.splits if_splits)

lemma parse_tier_json: "wf_parsed_tier t \<Longrightarrow> parse_tier (of_json (tier_json t)) = Inr t"
proof -
  assume wf: "wf_parsed_tier t"
  obtain kvs where kvs: "of_json (tier_json t) = JObj kvs" by (simp add: tier_json_def)
  have price: "has_price kvs (pt_units t)"
    using kvs by (auto simp: tier_json_def price_members_def has_price_def)
  have fields: "js_get kvs ''serviceTier'' = JStr (service_tier_text (pt_serviceTier t))"
      "js_get kvs ''tierKey'' = JStr (pt_tierKey t)"
      "js_get kvs ''minInputTokens'' = JStr (int_text (pt_minInputTokens t))"
      "js_get kvs ''maxInputTokens'' = nullable_value (pt_maxInputTokens t)"
    using kvs by (auto simp: tier_json_def price_members_def)
  have tier: "service_tier_of (JStr (service_tier_text s)) = Some s" for s
    by (cases s) (simp_all add: service_tier_of_def)
  have lo: "bigintField kvs ''minInputTokens'' = Inr (pt_minInputTokens t)"
    using wf fields(3) by (intro bigintField_text) (simp_all add: wf_parsed_tier_def)
  have hi: "nullable_bigintField kvs ''maxInputTokens'' = Inr (pt_maxInputTokens t)"
    using wf fields(4) by (intro nullable_bigintField_value) (auto simp: wf_parsed_tier_def)
  have units: "units_from kvs = Inr (pt_units t)"
    using price wf units_from_has_price [of kvs "pt_units t"] by (simp add: wf_parsed_tier_def)
  show ?thesis
    using wf by (simp add: kvs parse_tier_def fields tier lo hi units wf_parsed_tier_def split: option.splits)
qed

lemma profile_json_wf: "json_wf (profile_json base tiers)"
proof -
  have "list_all json_wf (map tier_json tiers)"
    by (simp add: list_all_iff tier_json_def price_members_def)
  then show ?thesis
    by (simp add: profile_json_def price_members_def is_safe_int_def MAX_SAFE_INTEGER_def)
qed

lemma profile_parses_back:
  assumes "valid_price base" "list_all wf_parsed_tier tiers"
  shows "parseFrozenPriceProfile (json_print (profile_json base tiers)) = Inr (base, tiers)"
proof -
  obtain kvs where top: "of_json (profile_json base tiers) = JObj kvs" by (simp add: profile_json_def)
  obtain b where b: "of_json (Json_obj (price_members base)) = JObj b" by simp
  have "has_price b base" using b by (auto simp: price_members_def has_price_def)
  with assms(1) have base: "units_from b = Inr base" using units_from_has_price [of b base] by simp
  have "traverse parse_tier (map of_json (map tier_json tiers)) = Inr tiers"
    using assms(2) by (simp add: effects list_all2_map1 list_all2_same parse_tier_json list_all_iff)
  moreover have "js_get kvs ''base'' = JObj b" "js_get kvs ''tiers'' = JArr (map of_json (map tier_json tiers))"
      "js_get kvs ''schemaVersion'' = jint 1" "js_get kvs ''currency'' = JStr ''USD''"
      "js_get kvs ''precision'' = jint 6"
    using top b by (auto simp: profile_json_def)
  ultimately show ?thesis
    using base by (simp add: parseFrozenPriceProfile_def json_roundtrip [OF profile_json_wf] top)
qed

lemma encode_profile_Inr:
  assumes "encodeFrozenPriceProfile lc input = Inr json"
  obtains tss where "profileStatus input = ''enabled''" "valid_price input"
    and "list_all2 (\<lambda>t ts. freeze_tier t = Inr ts)
           (filter (\<lambda>t. tierStatus t = ''enabled'') (profileTiers input)) tss"
    and "json = json_print (profile_json (frozen_price.truncate input) (js_sort (frozen_tier_cmp lc) (concat tss)))"
  using assms
  by (auto simp: encodeFrozenPriceProfile_def effects validatedFrozenUnits_Inr split: if_splits)

lemma frozen_tiers_wf:
  assumes "list_all2 (\<lambda>t ts. freeze_tier t = Inr ts) ins tss"
  shows "list_all wf_parsed_tier (js_sort cmp (concat tss))"
proof -
  have "list_all wf_parsed_tier ts" if "ts \<in> set tss" for ts
    using assms that by (auto simp: list_all2_conv_all_nth in_set_conv_nth intro: freeze_tier_wf)
  then show ?thesis by (auto simp: list_all_iff)
qed

lemma freeze_tier_at_most_one: "freeze_tier t = Inr ts \<Longrightarrow> p \<in> set ts \<Longrightarrow> ts = [p]"
  by (auto simp: freeze_tier_def effects split: option.splits if_splits)

lemma frozen_tier_origin:
  assumes "list_all2 (\<lambda>t ts. freeze_tier t = Inr ts) ins tss" "p \<in> set (concat tss)"
  obtains t where "t \<in> set ins" "freeze_tier t = Inr [p]"
proof -
  from assms(2) obtain i where i: "i < length tss" "p \<in> set (tss ! i)"
    unfolding set_concat by (metis UN_E in_set_conv_nth)
  with assms(1) have "freeze_tier (ins ! i) = Inr (tss ! i)" "i < length ins"
    by (auto simp: list_all2_conv_all_nth)
  moreover have "tss ! i = [p]"
    using freeze_tier_at_most_one [OF calculation(1) i(2)] .
  ultimately show thesis using that [of "ins ! i"] by simp
qed

lemma freeze_tier_singleton:
  "freeze_tier t = Inr [p] \<Longrightarrow>
     pt_tierKey p = tierKey t \<and> pt_minInputTokens p = minInputTokens t \<and> pt_maxInputTokens p = maxInputTokens t
     \<and> pt_units p = frozen_price.truncate t \<and> storedProfileServiceTier (tierServiceTier t) = Some (pt_serviceTier p)"
  by (auto simp: freeze_tier_def effects validatedFrozenUnits_Inr split: option.splits if_splits)

lemma frozen_profile_parses:
  assumes "encodeFrozenPriceProfile lc input = Inr json"
  obtains tiers where "parseFrozenPriceProfile json = Inr (frozen_price.truncate input, tiers)"
    and "valid_price input" and "list_all wf_parsed_tier tiers"
    and "\<And>p. p \<in> set tiers \<Longrightarrow> \<exists>t. t \<in> set (profileTiers input) \<and> tierStatus t = ''enabled'' \<and> freeze_tier t = Inr [p]"
    and "\<And>t p. t \<in> set (profileTiers input) \<Longrightarrow> tierStatus t = ''enabled'' \<Longrightarrow> freeze_tier t = Inr [p] \<Longrightarrow> p \<in> set tiers"
proof -
  from assms obtain tss where valid: "valid_price input"
      and frozen: "list_all2 (\<lambda>t ts. freeze_tier t = Inr ts)
           (filter (\<lambda>t. tierStatus t = ''enabled'') (profileTiers input)) tss"
      and json: "json = json_print (profile_json (frozen_price.truncate input) (js_sort (frozen_tier_cmp lc) (concat tss)))"
    by (rule encode_profile_Inr)
  show thesis
  proof (rule that)
    show "parseFrozenPriceProfile json = Inr (frozen_price.truncate input, js_sort (frozen_tier_cmp lc) (concat tss))"
      unfolding json using valid frozen by (intro profile_parses_back frozen_tiers_wf) simp_all
    show "list_all wf_parsed_tier (js_sort (frozen_tier_cmp lc) (concat tss))"
      using frozen by (rule frozen_tiers_wf)
    show "\<exists>t. t \<in> set (profileTiers input) \<and> tierStatus t = ''enabled'' \<and> freeze_tier t = Inr [p]"
      if "p \<in> set (js_sort (frozen_tier_cmp lc) (concat tss))" for p
      using frozen_tier_origin [OF frozen, of p] that by auto
    show "p \<in> set (js_sort (frozen_tier_cmp lc) (concat tss))"
      if t: "t \<in> set (profileTiers input)" "tierStatus t = ''enabled''" "freeze_tier t = Inr [p]" for t p
    proof -
      have "t \<in> set (filter (\<lambda>t. tierStatus t = ''enabled'') (profileTiers input))" using t by simp
      then obtain i where "i < length tss" "freeze_tier t = Inr (tss ! i)"
        using frozen unfolding list_all2_conv_all_nth in_set_conv_nth by auto
      with t(3) have "[p] \<in> set tss" by (metis Inr_inject nth_mem)
      then show ?thesis by force
    qed
  qed (rule valid)
qed

subsection \<open>Choosing the tier\<close>

lemma matching_tier_Some:
  assumes "matching_tier lc n tiers s = Some t"
  shows "t \<in> set tiers" "pt_serviceTier t = s" "tier_covers n t"
    and "\<And>t'. t' \<in> set tiers \<Longrightarrow> pt_serviceTier t' = s \<Longrightarrow> tier_covers n t' \<Longrightarrow> pt_minInputTokens t' \<le> pt_minInputTokens t"
proof -
  let ?xs = "filter (\<lambda>t. pt_serviceTier t = s \<and> tier_covers n t) tiers"
  from assms obtain rest where sort: "js_sort (tier_preference lc) ?xs = t # rest"
    by (auto simp: matching_tier_def split: list.splits)
  have in_xs: "x \<in> set (t # rest) \<longleftrightarrow> x \<in> set ?xs" for x
    using set_js_sort [of "tier_preference lc" ?xs] unfolding sort by auto
  from in_xs [of t] show "t \<in> set tiers" "pt_serviceTier t = s" "tier_covers n t" by auto
  have "sorted (map (\<lambda>t. - pt_minInputTokens t) (js_sort (tier_preference lc) ?xs))"
    by (rule sorted_js_sort_key) (auto simp: tier_preference_def split: if_splits)
  then have "- pt_minInputTokens t \<le> - pt_minInputTokens t'" if "t' \<in> set (t # rest)" for t'
    using that unfolding sort by auto
  then show "pt_minInputTokens t' \<le> pt_minInputTokens t"
    if "t' \<in> set tiers" "pt_serviceTier t' = s" "tier_covers n t'" for t'
    using in_xs [of t'] that by force
qed

lemma matching_tier_None:
  "matching_tier lc n tiers s = None \<longleftrightarrow> (\<forall>t \<in> set tiers. \<not> (pt_serviceTier t = s \<and> tier_covers n t))"
  by (auto simp: matching_tier_def filter_empty_conv split: list.splits dest: arg_cong [where f = "\<lambda>l. l = []"])

lemma first_standard_input_foldl:
  "(case foldl (\<lambda>m t. case m of None \<Rightarrow> Some (pt_minInputTokens t)
                 | Some n \<Rightarrow> if pt_minInputTokens t < n then Some (pt_minInputTokens t) else Some n) m ts
      of None \<Rightarrow> True | Some n \<Rightarrow> tokens < n)
   \<longleftrightarrow> (case m of None \<Rightarrow> True | Some n \<Rightarrow> tokens < n) \<and> (\<forall>t \<in> set ts. tokens < pt_minInputTokens t)"
  by (induction ts arbitrary: m) (auto split: option.splits)

lemma first_standard_input_spec:
  "(case first_standard_input tiers of None \<Rightarrow> True | Some n \<Rightarrow> tokens < n) \<longleftrightarrow>
     (\<forall>t \<in> set tiers. pt_serviceTier t = Standard_tier \<longrightarrow> tokens < pt_minInputTokens t)"
  by (auto simp: first_standard_input_def first_standard_input_foldl)

definition chosen_tier :: "parsed_tier list \<Rightarrow> int \<Rightarrow> service_tier \<Rightarrow> bool \<Rightarrow> parsed_tier \<Rightarrow> bool" where
  "chosen_tier tiers tokens requested strict t \<longleftrightarrow>
     t \<in> set tiers \<and> tier_covers tokens t
     \<and> (pt_serviceTier t = requested
        \<or> (pt_serviceTier t = Standard_tier \<and> \<not> strict
            \<and> (\<forall>t' \<in> set tiers. \<not> (pt_serviceTier t' = requested \<and> tier_covers tokens t'))))
     \<and> (\<forall>t' \<in> set tiers. pt_serviceTier t' = pt_serviceTier t \<and> tier_covers tokens t'
           \<longrightarrow> pt_minInputTokens t' \<le> pt_minInputTokens t)"

definition no_tier_applies :: "parsed_tier list \<Rightarrow> int \<Rightarrow> service_tier \<Rightarrow> bool" where
  "no_tier_applies tiers tokens requested \<longleftrightarrow>
     (\<forall>t \<in> set tiers. (pt_serviceTier t = requested \<longrightarrow> \<not> tier_covers tokens t)
        \<and> (pt_serviceTier t = Standard_tier \<longrightarrow> tokens < pt_minInputTokens t))"

lemma select_from_profile_Inr:
  assumes "select_from_profile lc base tiers tokens requested strict = Inr (units, s, key)"
  shows "(\<exists>t. chosen_tier tiers tokens requested strict t \<and> units = pt_units t \<and> s = pt_serviceTier t \<and> key = pt_tierKey t)
    \<or> (no_tier_applies tiers tokens requested \<and> units = base \<and> s = Standard_tier \<and> key = ''short_context'')"
proof (cases "matching_tier lc tokens tiers requested")
  case (Some t)
  with assms have "units = pt_units t \<and> s = pt_serviceTier t \<and> key = pt_tierKey t"
    by (simp add: select_from_profile_def)
  moreover have "chosen_tier tiers tokens requested strict t"
    using matching_tier_Some [OF Some] by (auto simp: chosen_tier_def)
  ultimately show ?thesis by blast
next
  case None
  note none = this
  show ?thesis
  proof (cases "matching_tier lc tokens tiers Standard_tier")
    case (Some t)
    with assms none have eq: "units = pt_units t \<and> s = pt_serviceTier t \<and> key = pt_tierKey t"
        and "\<not> (strict \<and> requested = Priority_tier)"
      by (auto simp: select_from_profile_def split: if_splits)
    moreover have "requested \<noteq> Standard_tier" using none Some by auto
    ultimately have "\<not> strict" by (cases requested) auto
    then have "chosen_tier tiers tokens requested strict t"
      using matching_tier_Some [OF Some] none by (auto simp: chosen_tier_def matching_tier_None)
    with eq show ?thesis by blast
  next
    case None
    with assms none have base: "units = base \<and> s = Standard_tier \<and> key = ''short_context''"
        and below: "case first_standard_input tiers of None \<Rightarrow> True | Some n \<Rightarrow> tokens < n"
      by (simp_all add: select_from_profile_def split: if_split_asm)
    from below none have "no_tier_applies tiers tokens requested"
      unfolding no_tier_applies_def matching_tier_None first_standard_input_spec by blast
    with base show ?thesis by blast
  qed
qed

subsection \<open>Properties\<close>

text \<open>
  C7: settling an invocation charges exactly the rounded-up price of each part of its usage, and
  it throws exactly when the usage is inconsistent or the sum leaves the signed 64-bit range.
\<close>

theorem actual_charge_exact:
  assumes "valid_price p"
  shows "actualInvocationChargeUnits u p = Inr c \<longleftrightarrow>
    valid_usage u \<and> c = exact_charge u p \<and> c \<le> BILLING_MAX_INT64"
  using assms by (rule actual_charge_iff)

definition example_price :: frozen_price where
  "example_price = \<lparr>inputPriceUnitsPer1M = 1250000, cachedInputPriceUnitsPer1M = 125000,
     cacheWritePriceUnitsPer1M = None, outputPriceUnitsPer1M = 10000000\<rparr>"

definition example_usage :: invocation_usage where
  "example_usage = \<lparr>inputTokens = 3, cachedInputTokens = 1, cacheWriteTokens = 1, outputTokens = 2,
     totalTokens = 5, usageSource = ''provider''\<rparr>"

lemma example_price_valid: "valid_price example_price"
  by (simp add: valid_price_def int64_amount_def BILLING_MAX_INT64_def example_price_def)

lemma example_usage_valid: "valid_usage example_usage"
  by (simp add: valid_usage_def example_usage_def BILLING_MAX_INT64_def)

lemma example_exact_charge: "exact_charge example_usage example_price = 25"
  by (simp add: exact_charge_def charge_ceiling_def cache_write_price_def example_usage_def example_price_def)

theorem actual_charge_exact_witness: "actualInvocationChargeUnits example_usage example_price = Inr 25"
  using actual_charge_exact [OF example_price_valid, of example_usage]
  by (simp add: example_usage_valid example_exact_charge BILLING_MAX_INT64_def)

text \<open>
  C10: for one price, what is charged at settlement exceeds the maximum computed at admission by at
  most two units and the price of the tokens beyond the admitted ones. (The three input parts are rounded
  up one by one, the maximum once.) Nothing is assumed of the usage: settlement, which charges by the
  price frozen at admission, compares it with no admitted number of tokens, so the excess is charged.
\<close>

theorem charge_within_maximum:
  assumes "maximumInvocationChargeUnits n m p = Inr limit" and "actualInvocationChargeUnits u p = Inr c"
    and "valid_price p"
  shows "c \<le> limit + 2 + charge_ceiling (max 0 (inputTokens u - n)) (worst_input_price p)
    + charge_ceiling (max 0 (outputTokens u - m)) (outputPriceUnitsPer1M p)"
proof -
  from actual_charge_iff [OF assms(3)] assms(2) have u: "valid_usage u" and c: "c = exact_charge u p" by auto
  from assms(1) have limit: "limit = charge_ceiling n (worst_input_price p) + charge_ceiling m (outputPriceUnitsPer1M p)"
    by (simp add: maximum_charge_Inr)
  have outp: "charge_ceiling (outputTokens u) (outputPriceUnitsPer1M p)
      \<le> charge_ceiling (m + max 0 (outputTokens u - m)) (outputPriceUnitsPer1M p)"
    using u assms(3) by (intro charge_ceiling_mono) (auto simp: valid_usage_def valid_price_def int64_amount_def)
  have "charge_ceiling (inputTokens u - cachedInputTokens u - cacheWriteTokens u) (inputPriceUnitsPer1M p)
      + charge_ceiling (cachedInputTokens u) (cachedInputPriceUnitsPer1M p)
      + charge_ceiling (cacheWriteTokens u) (cache_write_price p)
      \<le> charge_ceiling (n + max 0 (inputTokens u - n)) (worst_input_price p) + 2"
    using u assms(3) valid_price_cache_write [OF assms(3)]
    by (intro three_ceilings) (auto simp: valid_usage_def valid_price_def int64_amount_def worst_input_price_def)
  with outp charge_ceiling_add [of n "max 0 (inputTokens u - n)" "worst_input_price p"]
    charge_ceiling_add [of m "max 0 (outputTokens u - m)" "outputPriceUnitsPer1M p"]
  show ?thesis unfolding c limit exact_charge_def by linarith
qed

text \<open>A call admitted for 1000 input and 200 output tokens that uses 1200 and 250.\<close>

definition overrun_usage :: invocation_usage where
  "overrun_usage = \<lparr>inputTokens = 1200, cachedInputTokens = 300, cacheWriteTokens = 100, outputTokens = 250,
     totalTokens = 1450, usageSource = ''provider''\<rparr>"

lemma overrun_maximum: "maximumInvocationChargeUnits 1000 200 example_price = Inr 3250"
  unfolding maximum_charge_Inr
  by (simp add: worst_input_price_def int64_amount_def charge_ceiling_def cache_write_price_def
      example_price_def BILLING_MAX_INT64_def)

lemma overrun_charge: "actualInvocationChargeUnits overrun_usage example_price = Inr 3663"
  unfolding actual_charge_iff [OF example_price_valid]
  by (simp add: valid_usage_def exact_charge_def charge_ceiling_def cache_write_price_def
      overrun_usage_def example_price_def BILLING_MAX_INT64_def)

theorem charge_within_maximum_witness:
  "maximumInvocationChargeUnits 1000 200 example_price = Inr 3250
   \<and> actualInvocationChargeUnits overrun_usage example_price = Inr 3663
   \<and> 3663 \<le> 3250 + 2 + charge_ceiling 200 (worst_input_price example_price) + charge_ceiling 50 (outputPriceUnitsPer1M example_price)
   \<and> charge_ceiling 200 (worst_input_price example_price) + charge_ceiling 50 (outputPriceUnitsPer1M example_price) = 750"
  using charge_within_maximum [OF overrun_maximum overrun_charge example_price_valid]
  by (simp add: overrun_maximum overrun_charge overrun_usage_def [THEN arg_cong [where f = inputTokens]]
      overrun_usage_def [THEN arg_cong [where f = outputTokens]])
    (simp add: charge_ceiling_def worst_input_price_def cache_write_price_def example_price_def)

definition tiny_price :: frozen_price where
  "tiny_price = \<lparr>inputPriceUnitsPer1M = 1, cachedInputPriceUnitsPer1M = 1,
     cacheWritePriceUnitsPer1M = Some 1, outputPriceUnitsPer1M = 0\<rparr>"

lemma tiny_price_valid: "valid_price tiny_price"
  by (simp add: valid_price_def int64_amount_def tiny_price_def BILLING_MAX_INT64_def)

lemma tiny_maximum: "maximumInvocationChargeUnits 3 2 tiny_price = Inr 1"
  unfolding maximum_charge_Inr
  by (simp add: worst_input_price_def int64_amount_def charge_ceiling_def cache_write_price_def
      tiny_price_def BILLING_MAX_INT64_def)

lemma tiny_charge: "actualInvocationChargeUnits example_usage tiny_price = Inr 3"
  unfolding actual_charge_iff [OF tiny_price_valid]
  by (simp add: valid_usage_def exact_charge_def charge_ceiling_def cache_write_price_def
      example_usage_def tiny_price_def BILLING_MAX_INT64_def)

text \<open>
  The maximum is not an upper bound of the charge: one uncached, one cached and one
  cache-write token at one unit per million are charged three units, against a maximum of one.
\<close>

lemma charge_can_exceed_maximum:
  "\<exists>(p :: frozen_price) u limit c. maximumInvocationChargeUnits (inputTokens u) (outputTokens u) p = Inr limit
     \<and> actualInvocationChargeUnits u p = Inr c \<and> c = limit + 2"
proof (intro exI conjI)
  show "maximumInvocationChargeUnits (inputTokens example_usage) (outputTokens example_usage) tiny_price = Inr 1"
    using tiny_maximum by (simp add: example_usage_def)
  show "actualInvocationChargeUnits example_usage tiny_price = Inr 3" by (rule tiny_charge)
qed simp

text \<open>
  A frozen price snapshot reads back as the price it was made of: every unit price, and
  whether the cache-write price is available.
\<close>

lemma price_snapshot_roundtrip:
  assumes "valid_price p"
  shows "parseFrozenPriceUnits (encodeFrozenPriceUnits p serviceTier key) = Inr (frozen_price.truncate p)"
  using encoded_price_units_parse [OF valid_price_nonneg [OF assms]] .

text \<open>
  C18: a price profile frozen at admission and read at settlement bills a price of the profile as
  it was: an enabled tier whose bounds cover the input tokens, or the base price; the snapshot
  kept with the bill parses back to exactly the price that was used.
\<close>

theorem frozen_profile_selection:
  assumes "encodeFrozenPriceProfile lc input = Inr json"
    and "selectFrozenPriceProfile lc' json tokens requested strict = Inr sel"
  shows "((\<exists>t. t \<in> set (profileTiers input) \<and> tierStatus t = ''enabled'' \<and> minInputTokens t \<le> tokens
            \<and> (case maxInputTokens t of None \<Rightarrow> True | Some m \<Rightarrow> tokens \<le> m)
            \<and> storedProfileServiceTier (tierServiceTier t) = Some (sp_serviceTier sel)
            \<and> sp_units sel = frozen_price.truncate t \<and> sp_tierKey sel = tierKey t
            \<and> sp_serviceTier sel \<in> {normalizedProfileServiceTier requested, Standard_tier})
         \<or> sp_units sel = frozen_price.truncate input \<and> sp_serviceTier sel = Standard_tier
            \<and> sp_tierKey sel = ''short_context'')
         \<and> valid_price (sp_units sel) \<and> parseFrozenPriceUnits (sp_snapshotJson sel) = Inr (sp_units sel)"
    (is "?origin \<and> _")
proof -
  from assms(1) obtain tiers where parsed: "parseFrozenPriceProfile json = Inr (frozen_price.truncate input, tiers)"
      and valid: "valid_price input" and wf: "list_all wf_parsed_tier tiers"
      and origin: "\<And>p. p \<in> set tiers \<Longrightarrow> \<exists>t. t \<in> set (profileTiers input) \<and> tierStatus t = ''enabled'' \<and> freeze_tier t = Inr [p]"
    by (rule frozen_profile_parses) blast
  from assms(2) have select: "select_from_profile lc' (frozen_price.truncate input) tiers tokens
        (normalizedProfileServiceTier requested) strict = Inr (sp_units sel, sp_serviceTier sel, sp_tierKey sel)"
      and snapshot: "sp_snapshotJson sel = encodeFrozenPriceUnits (sp_units sel) (service_tier_text (sp_serviceTier sel)) (sp_tierKey sel)"
    by (auto simp: selectFrozenPriceProfile_def effects parsed)
  have both: "?origin \<and> valid_price (sp_units sel)"
    using select_from_profile_Inr [OF select]
  proof (elim disjE exE conjE)
    fix p
    assume p: "chosen_tier tiers tokens (normalizedProfileServiceTier requested) strict p" "sp_units sel = pt_units p"
      "sp_serviceTier sel = pt_serviceTier p" "sp_tierKey sel = pt_tierKey p"
    then have "p \<in> set tiers" by (simp add: chosen_tier_def)
    then obtain t where t: "t \<in> set (profileTiers input)" "tierStatus t = ''enabled''" "freeze_tier t = Inr [p]"
      using origin by blast
    from p(1) wf have "valid_price (pt_units p)" by (auto simp: chosen_tier_def list_all_iff wf_parsed_tier_def)
    with p t freeze_tier_singleton [OF t(3)] show ?thesis
      by (intro conjI disjI1 exI [of _ t]) (auto simp: chosen_tier_def tier_covers_def)
  next
    assume "sp_units sel = frozen_price.truncate input" "sp_serviceTier sel = Standard_tier" "sp_tierKey sel = ''short_context''"
    with valid show ?thesis by simp
  qed
  then have "price_nonneg (sp_units sel)" by (blast intro: valid_price_nonneg)
  from encoded_price_units_parse [OF this]
  have "parseFrozenPriceUnits (sp_snapshotJson sel) = Inr (sp_units sel)" by (simp add: snapshot)
  with both show ?thesis by blast
qed

definition example_profile :: price_profile_input where
  "example_profile =
     \<lparr>inputPriceUnitsPer1M = 10, cachedInputPriceUnitsPer1M = 1, cacheWritePriceUnitsPer1M = None,
      outputPriceUnitsPer1M = 40, profileStatus = ''enabled'',
      profileTiers = [\<lparr>inputPriceUnitsPer1M = 20, cachedInputPriceUnitsPer1M = 2, cacheWritePriceUnitsPer1M = None,
        outputPriceUnitsPer1M = 80, tierStatus = ''enabled'', tierServiceTier = ''standard'',
        tierKey = ''long'', minInputTokens = 100, maxInputTokens = None\<rparr>]\<rparr>"

definition example_frozen_tier :: parsed_tier where
  "example_frozen_tier = \<lparr>pt_serviceTier = Standard_tier, pt_tierKey = ''long'', pt_minInputTokens = 100,
     pt_maxInputTokens = None, pt_units = \<lparr>inputPriceUnitsPer1M = 20, cachedInputPriceUnitsPer1M = 2,
       cacheWritePriceUnitsPer1M = None, outputPriceUnitsPer1M = 80\<rparr>\<rparr>"

definition example_base :: frozen_price where
  "example_base = \<lparr>inputPriceUnitsPer1M = 10, cachedInputPriceUnitsPer1M = 1,
     cacheWritePriceUnitsPer1M = None, outputPriceUnitsPer1M = 40\<rparr>"

lemma example_freeze:
  "encodeFrozenPriceProfile (\<lambda>_ _. 0) example_profile = Inr (json_print (profile_json example_base [example_frozen_tier]))"
proof -
  have tier: "storedProfileServiceTier ''standard'' = Some Standard_tier" by code_simp
  show ?thesis
    by (simp add: encodeFrozenPriceProfile_def example_profile_def example_base_def example_frozen_tier_def
        freeze_tier_def tier validatedFrozenUnits_def BILLING_MAX_INT64_def frozen_price.defs)
qed

lemma example_select:
  "selectFrozenPriceProfile (\<lambda>_ _. 0) (json_print (profile_json example_base [example_frozen_tier])) 150 ''standard'' False
   = Inr \<lparr>sp_units = pt_units example_frozen_tier, sp_serviceTier = Standard_tier, sp_tierKey = ''long'',
          sp_snapshotJson = encodeFrozenPriceUnits (pt_units example_frozen_tier) ''standard'' ''long''\<rparr>"
proof -
  have requested: "normalizedProfileServiceTier ''standard'' = Standard_tier" by code_simp
  have tokens: "assertNonNegative 150 = Inr ()" by code_simp
  have "parseFrozenPriceProfile (json_print (profile_json example_base [example_frozen_tier]))
          = Inr (example_base, [example_frozen_tier])"
    by (rule profile_parses_back)
       (simp_all add: valid_price_def int64_amount_def BILLING_MAX_INT64_def example_base_def
          example_frozen_tier_def wf_parsed_tier_def)
  moreover have "matching_tier (\<lambda>_ _. 0) 150 [example_frozen_tier] Standard_tier = Some example_frozen_tier"
    by (simp add: matching_tier_def example_frozen_tier_def tier_covers_def)
  moreover have "pt_serviceTier example_frozen_tier = Standard_tier" "pt_tierKey example_frozen_tier = ''long''"
    by (simp_all add: example_frozen_tier_def)
  ultimately show ?thesis
    unfolding selectFrozenPriceProfile_def tokens by (simp add: requested select_from_profile_def)
qed

theorem frozen_profile_selection_witness:
  "parseFrozenPriceUnits (encodeFrozenPriceUnits (pt_units example_frozen_tier) ''standard'' ''long'')
     = Inr (pt_units example_frozen_tier)"
  using frozen_profile_selection [OF example_freeze example_select] by simp

text \<open>
  Of the tiers of a frozen profile, the one of the requested service tier that covers the
  input tokens and starts at the most tokens is chosen, a standard tier only when none of the
  requested tier covers them and the request is not strict, and the base price only when no tier
  applies and every standard tier starts above the tokens.
\<close>

lemma tier_selection_spec:
  assumes "select_from_profile lc base tiers tokens requested strict = Inr (units, s, key)"
  shows "(\<exists>t. chosen_tier tiers tokens requested strict t \<and> units = pt_units t \<and> s = pt_serviceTier t \<and> key = pt_tierKey t)
    \<or> (no_tier_applies tiers tokens requested \<and> units = base \<and> s = Standard_tier \<and> key = ''short_context'')"
  using assms by (rule select_from_profile_Inr)

lemma tier_selection_spec_example:
  "\<exists>t. chosen_tier [example_frozen_tier] 150 Priority_tier False t \<and> pt_tierKey t = ''long''"
proof -
  have "select_from_profile (\<lambda>_ _. 0) example_base [example_frozen_tier] 150 Priority_tier False
    = Inr (pt_units example_frozen_tier, Standard_tier, ''long'')"
    by (simp add: select_from_profile_def matching_tier_def tier_covers_def example_frozen_tier_def)
  from tier_selection_spec [OF this] show ?thesis by auto
qed

end
