(* ===== verification/Routing_Kernel.thy ===== *)
theory Routing_Kernel
  imports Core_Selectors Js_Json
begin

section \<open>The routing kernel\<close>

text \<open>
  \<open>packages/model-access/src/routing-kernel.ts\<close>: from a snapshot of AccessPoints, their targets
  and ProviderModels, the plan of candidates a request may use; the evaluation of the plan
  against availability; and the choice of the next candidate. The work is charged to a
  \<open>GraphCompilationBudget\<close>, an object with state: each function that takes it is an action on it.
  The clock and the abort signal are read at the checkpoints, so they are functions of the
  number of the checkpoint. \<open>lc\<close> is \<open>localeCompare\<close>; positions are integers.
\<close>

definition MAX_ACCESS_POINT_TO_ACCESS_POINT_HOPS :: int where
  "MAX_ACCESS_POINT_TO_ACCESS_POINT_HOPS = 200"

record graph_target =
  gt_id :: string
  gt_type :: string
  gt_targetAccessPointId :: "string option"
  gt_targetProviderModelId :: "string option"
  gt_targetProviderId :: "string option"
  gt_targetProviderModelName :: "string option"
  gt_position :: int
  gt_status :: string
  gt_removedAt :: "string option"

record access_point =
  ap_id :: string
  ap_exposedModel :: string
  ap_targetModel :: string
  ap_routingRuleId :: string
  ap_behaviorVersion :: int
  ap_configJson :: string
  ap_routingRevision :: int
  ap_removedAt :: "string option"
  ap_targets :: "graph_target list"

record provider_model =
  pm_id :: string
  pm_providerId :: string
  pm_providerModelName :: string

record routing_graph =
  accessPoints :: "string \<Rightarrow> access_point option"
  providerModels :: "string \<Rightarrow> provider_model option"

record compiled_candidate =
  cc_candidateId :: string
  cc_selectorTargetEdgeId :: string
  cc_selectorPosition :: int
  cc_pathTargetEdgeIds :: "string list"
  cc_accessPointChainIds :: "string list"
  cc_routingRevisions :: "(string \<times> int) list"
  cc_providerId :: string
  cc_providerModelId :: string
  cc_providerModelName :: string

record routing_plan =
  rp_entryAccessPointId :: string
  rp_requestedModel :: string
  rp_selectorAccessPointId :: string
  rp_selectorId :: string
  rp_selectorBehaviorVersion :: int
  rp_selectorConfig :: selector_config
  rp_routingRevision :: int
  rp_candidates :: "compiled_candidate list"

text \<open>A nullable string that is truthy: present and not empty.\<close>

definition truthy :: "string option \<Rightarrow> bool" where
  "truthy v = (case v of None \<Rightarrow> False | Some s \<Rightarrow> s \<noteq> [])"

subsection \<open>The budget\<close>

record budget_options =
  maxVisitedNodes :: int
  maxVisitedEdges :: int
  maxDecodedConfigBytes :: int
  maxEvaluationCandidates :: int
  deadlineAtMs :: "int option"
  signalAborted :: "nat \<Rightarrow> bool"
  clockMs :: "nat \<Rightarrow> int"

record budget =
  b_options :: budget_options
  b_visitedNodeIds :: "string list"
  b_visitedEdgeIds :: "string list"
  b_decodedConfigBytes :: int
  b_evaluatedCandidates :: int
  b_checkpoints :: nat

definition new_budget :: "budget_options \<Rightarrow> budget result" where
  "new_budget options =
     (if list_ex (\<lambda>v. \<not> is_safe_int v \<or> v < 0)
           [maxVisitedNodes options, maxVisitedEdges options, maxDecodedConfigBytes options,
            maxEvaluationCandidates options]
      then relay ''graph_compilation_budget_invalid'' 500
      else Inr \<lparr>b_options = options, b_visitedNodeIds = [], b_visitedEdgeIds = [],
                b_decodedConfigBytes = 0, b_evaluatedCandidates = 0, b_checkpoints = 0\<rparr>)"

definition capacityExceeded :: "string \<Rightarrow> int \<Rightarrow> int \<Rightarrow> js_error" where
  "capacityExceeded dimension consumed limit =
     RelayError ''graph_compilation_capacity_exceeded'' 503
       [(''dimension'', JStr dimension), (''consumed'', jint consumed), (''limit'', jint limit)]"

definition checkpoint :: "(budget, unit) action" where
  "checkpoint b =
     (let n = b_checkpoints b; opts = b_options b; b' = b\<lparr>b_checkpoints := Suc n\<rparr>
      in if signalAborted opts n then (Inl (RelayError ''request_aborted'' 499 []), b')
         else (case deadlineAtMs opts of
                 None \<Rightarrow> (Inr (), b')
               | Some d \<Rightarrow> if clockMs opts n \<ge> d then (Inl (capacityExceeded ''deadline'' d d), b')
                            else (Inr (), b')))"

definition assertWithin :: "string \<Rightarrow> int \<Rightarrow> int \<Rightarrow> (budget, unit) action" where
  "assertWithin dimension consumed limit =
     (if consumed > limit then sthrow (capacityExceeded dimension consumed limit) else sreturn ())"

definition visitNode :: "string \<Rightarrow> int \<Rightarrow> (budget, unit) action" where
  "visitNode apId bytes =
     sbind checkpoint (\<lambda>_ b.
       if apId \<in> set (b_visitedNodeIds b) then (Inr (), b)
       else if \<not> is_safe_int bytes \<or> bytes < 0 then (Inl (RelayError ''routing_graph_snapshot_invalid'' 500 []), b)
       else let b' = b\<lparr>b_visitedNodeIds := b_visitedNodeIds b @ [apId],
                       b_decodedConfigBytes := b_decodedConfigBytes b + bytes\<rparr>
            in sbind (assertWithin ''visited_nodes'' (int (length (b_visitedNodeIds b'))) (maxVisitedNodes (b_options b')))
                 (\<lambda>_. assertWithin ''decoded_config_bytes'' (b_decodedConfigBytes b') (maxDecodedConfigBytes (b_options b')))
                 b')"

definition visitEdge :: "string \<Rightarrow> (budget, unit) action" where
  "visitEdge edgeId =
     sbind checkpoint (\<lambda>_ b.
       if edgeId \<in> set (b_visitedEdgeIds b) then (Inr (), b)
       else let b' = b\<lparr>b_visitedEdgeIds := b_visitedEdgeIds b @ [edgeId]\<rparr>
            in assertWithin ''visited_edges'' (int (length (b_visitedEdgeIds b'))) (maxVisitedEdges (b_options b')) b')"

definition evaluateCandidate :: "(budget, unit) action" where
  "evaluateCandidate =
     sbind checkpoint (\<lambda>_ b.
       let b' = b\<lparr>b_evaluatedCandidates := b_evaluatedCandidates b + 1\<rparr>
       in assertWithin ''evaluation_candidates'' (b_evaluatedCandidates b') (maxEvaluationCandidates (b_options b')) b')"

subsection \<open>Compiling one AccessPoint's rule\<close>

record compiled_rule =
  cr_config :: selector_config
  cr_targets :: "graph_target list"

definition invalid_routing :: js_error where
  "invalid_routing = RelayError ''invalid_access_point_routing'' 500 []"

definition validateTargetShape :: "graph_target \<Rightarrow> unit result" where
  "validateTargetShape t =
     (if gt_type t = ''access-point''
      then require (\<not> (\<not> truthy (gt_targetAccessPointId t) \<or> gt_targetProviderModelId t \<noteq> None)) invalid_routing
      else require (\<not> (gt_type t \<noteq> ''provider-model'' \<or> gt_targetAccessPointId t \<noteq> None
                      \<or> \<not> truthy (gt_targetProviderModelId t))) invalid_routing)"

definition enabled_targets :: "(string \<Rightarrow> string \<Rightarrow> int) \<Rightarrow> access_point \<Rightarrow> graph_target list" where
  "enabled_targets lc ap =
     js_sort (cmp_key_then gt_position (\<lambda>l r. lc (gt_id l) (gt_id r)))
       (filter (\<lambda>t. gt_status t = ''enabled'' \<and> \<not> truthy (gt_removedAt t)) (ap_targets ap))"

fun check_targets :: "int list \<Rightarrow> graph_target list \<Rightarrow> (budget, unit) action" where
  "check_targets positions [] = sreturn ()"
| "check_targets positions (t # ts) =
     sbind (visitEdge (gt_id t)) (\<lambda>_.
       if \<not> is_safe_int (gt_position t) \<or> gt_position t < 0 \<or> gt_position t \<in> set positions
       then sthrow invalid_routing
       else sbind (slift (validateTargetShape t)) (\<lambda>_. check_targets (gt_position t # positions) ts))"

text \<open>\<open>catch\<close> wraps what the selector throws.\<close>

definition rule_config :: "access_point \<Rightarrow> graph_target list \<Rightarrow> selector_config result" where
  "rule_config ap targets =
     (case json_parse (ap_configJson ap) of
        None \<Rightarrow> relay ''invalid_access_point_routing_rule'' 500
      | Some input \<Rightarrow>
          (case rbind (getAccessPointSelector (ap_routingRuleId ap) (ap_behaviorVersion ap))
                  (\<lambda>s. normalizeConfig s input (int (length targets))) of
             Inl e \<Rightarrow> relay ''invalid_access_point_routing_rule'' 500
           | Inr config \<Rightarrow> Inr config))"

definition compileRule :: "(string \<Rightarrow> string \<Rightarrow> int) \<Rightarrow> access_point \<Rightarrow> (budget, compiled_rule) action" where
  "compileRule lc ap =
     (if truthy (ap_removedAt ap) then sthrow (RelayError ''access_point_target_not_found'' 404 [])
      else sbind (visitNode (ap_id ap) (utf8_length (ap_configJson ap))) (\<lambda>_.
           let targets = enabled_targets lc ap
           in sbind (check_targets [] targets) (\<lambda>_.
              sbind (slift (rule_config ap targets)) (\<lambda>config.
                sreturn \<lparr>cr_config = config, cr_targets = targets\<rparr>))))"

subsection \<open>References\<close>

definition requireAccessPoint :: "routing_graph \<Rightarrow> string \<Rightarrow> access_point result" where
  "requireAccessPoint g apId =
     (case accessPoints g apId of
        None \<Rightarrow> relay ''access_point_target_not_found'' 404
      | Some ap \<Rightarrow> if truthy (ap_removedAt ap) then relay ''access_point_target_not_found'' 404 else Inr ap)"

definition requireTargetAccessPoint :: "routing_graph \<Rightarrow> access_point \<Rightarrow> graph_target \<Rightarrow> access_point result" where
  "requireTargetAccessPoint g source t =
     (if \<not> truthy (gt_targetAccessPointId t) then relay ''access_point_target_not_found'' 404
      else rbind (requireAccessPoint g (the (gt_targetAccessPointId t))) (\<lambda>downstream.
             if ap_exposedModel downstream \<noteq> ap_targetModel source
             then relay ''access_point_target_model_not_allowed'' 400 else Inr downstream))"

definition differs :: "string option \<Rightarrow> string \<Rightarrow> bool" where
  "differs expected actual = (case expected of None \<Rightarrow> False | Some e \<Rightarrow> e \<noteq> actual)"

definition requireProviderModel :: "routing_graph \<Rightarrow> access_point \<Rightarrow> graph_target \<Rightarrow> provider_model result" where
  "requireProviderModel g source t =
     (if \<not> truthy (gt_targetProviderModelId t) then relay ''provider_model_stable_reference_missing'' 500
      else (case providerModels g (the (gt_targetProviderModelId t)) of
              None \<Rightarrow> relay ''provider_model_not_found'' 404
            | Some pm \<Rightarrow>
                if pm_providerModelName pm \<noteq> ap_targetModel source
                   \<or> differs (gt_targetProviderId t) (pm_providerId pm)
                   \<or> differs (gt_targetProviderModelName t) (pm_providerModelName pm)
                then relay ''provider_model_reference_mismatch'' 500 else Inr pm))"

definition routingCycle :: js_error where
  "routingCycle = RelayError ''access_point_cycle'' 400 []"

definition hop_limit_reached :: "int \<Rightarrow> bool" where
  "hop_limit_reached hops \<longleftrightarrow> hops \<ge> MAX_ACCESS_POINT_TO_ACCESS_POINT_HOPS"

definition depth_exceeded :: js_error where
  "depth_exceeded = RelayError ''access_point_depth_exceeded'' 400
     [(''maxHops'', jint MAX_ACCESS_POINT_TO_ACCESS_POINT_HOPS)]"


subsection \<open>Finding the selector and compiling its candidates\<close>

record selector_path =
  sp_selector :: access_point
  sp_accessPointChain :: "access_point list"
  sp_targetEdgeIds :: "string list"
  sp_rule :: compiled_rule

lemma sbind_fun_cong [fundef_cong]:
  assumes "m = m'" "\<And>x. f x = g x"
  shows "sbind m f = sbind m' g"
proof -
  have "f = g" by (rule ext) (rule assms(2))
  with assms(1) show ?thesis by simp
qed

definition type_error :: js_error where
  "type_error = PlainError ''TypeError''"

text \<open>
  The loop of \<open>findSelector\<close>. It ends because the chain grows and the hop limit stops it. A rule
  with no target cannot be compiled; reading the type of its first target would be a \<open>TypeError\<close>.
\<close>

function find_selector_loop ::
  "(string \<Rightarrow> string \<Rightarrow> int) \<Rightarrow> routing_graph \<Rightarrow> string list \<Rightarrow> access_point list \<Rightarrow> string list \<Rightarrow> access_point
     \<Rightarrow> (budget, selector_path) action" where
  "find_selector_loop lc g visited chain edges current =
     sbind checkpoint (\<lambda>_.
       if ap_id current \<in> set visited then sthrow routingCycle
       else let visited' = ap_id current # visited; chain' = chain @ [current]
            in sbind (compileRule lc current) (\<lambda>rule.
                 let found = sreturn \<lparr>sp_selector = current, sp_accessPointChain = chain',
                                      sp_targetEdgeIds = edges, sp_rule = rule\<rparr>
                 in if ap_routingRuleId current = ''ordered-fallback'' then found
                    else (case cr_targets rule of
                            [] \<Rightarrow> sthrow type_error
                          | target # _ \<Rightarrow>
                              if gt_type target = ''provider-model'' then found
                              else if hop_limit_reached (int (length chain') - 1) then sthrow depth_exceeded
                              else sbind (slift (requireTargetAccessPoint g current target)) (\<lambda>downstream.
                                     find_selector_loop lc g visited' chain' (edges @ [gt_id target]) downstream))))"
  by pat_completeness auto
termination
  by (relation "measure (\<lambda>(lc, g, visited, chain, edges, current). 202 - length chain)")
     (auto simp: hop_limit_reached_def MAX_ACCESS_POINT_TO_ACCESS_POINT_HOPS_def)

definition findSelector ::
  "(string \<Rightarrow> string \<Rightarrow> int) \<Rightarrow> routing_graph \<Rightarrow> access_point \<Rightarrow> (budget, selector_path) action" where
  "findSelector lc g entry = find_selector_loop lc g [] [] [] entry"

definition candidate_of ::
  "selector_path \<Rightarrow> graph_target \<Rightarrow> access_point list \<Rightarrow> string list \<Rightarrow> provider_model \<Rightarrow> compiled_candidate" where
  "candidate_of path selectorTarget chain edges pm =
     \<lparr>cc_candidateId = ap_id (sp_selector path) @ '':'' @ gt_id selectorTarget,
      cc_selectorTargetEdgeId = gt_id selectorTarget,
      cc_selectorPosition = gt_position selectorTarget,
      cc_pathTargetEdgeIds = edges,
      cc_accessPointChainIds = map ap_id chain,
      cc_routingRevisions = map (\<lambda>ap. (ap_id ap, ap_routingRevision ap)) chain,
      cc_providerId = pm_providerId pm,
      cc_providerModelId = pm_id pm,
      cc_providerModelName = pm_providerModelName pm\<rparr>"

function compile_candidate_loop ::
  "(string \<Rightarrow> string \<Rightarrow> int) \<Rightarrow> routing_graph \<Rightarrow> selector_path \<Rightarrow> graph_target \<Rightarrow> string list \<Rightarrow> access_point list
     \<Rightarrow> string list \<Rightarrow> access_point \<Rightarrow> graph_target \<Rightarrow> (budget, compiled_candidate) action" where
  "compile_candidate_loop lc g path selectorTarget visited chain edges current target =
     sbind checkpoint (\<lambda>_.
       let edges' = edges @ [gt_id target]
       in if gt_type target = ''access-point''
          then if hop_limit_reached (int (length chain) - 1) then sthrow depth_exceeded
               else sbind (slift (requireTargetAccessPoint g current target)) (\<lambda>downstream.
                      if ap_id downstream \<in> set visited then sthrow routingCycle
                      else let chain' = chain @ [downstream]
                           in sbind (compileRule lc downstream) (\<lambda>rule.
                                if ap_routingRuleId downstream = ''ordered-fallback''
                                then sthrow (RelayError ''access_point_ordered_selector_nested'' 400 [])
                                else (case cr_targets rule of
                                        [] \<Rightarrow> sthrow type_error
                                      | next # _ \<Rightarrow>
                                          compile_candidate_loop lc g path selectorTarget
                                            (ap_id downstream # visited) chain' edges' downstream next)))
          else sbind (slift (requireProviderModel g current target)) (\<lambda>pm.
                 sreturn (candidate_of path selectorTarget chain edges' pm)))"
  by pat_completeness auto
termination
  by (relation "measure (\<lambda>(lc, g, path, t, visited, chain, edges, current, target). 202 - length chain)")
     (auto simp: hop_limit_reached_def MAX_ACCESS_POINT_TO_ACCESS_POINT_HOPS_def)

declare find_selector_loop.simps [simp del] compile_candidate_loop.simps [simp del]

definition compileCandidate ::
  "(string \<Rightarrow> string \<Rightarrow> int) \<Rightarrow> routing_graph \<Rightarrow> selector_path \<Rightarrow> graph_target
     \<Rightarrow> (budget, compiled_candidate) action" where
  "compileCandidate lc g path selectorTarget =
     compile_candidate_loop lc g path selectorTarget (map ap_id (sp_accessPointChain path))
       (sp_accessPointChain path) (sp_targetEdgeIds path) (sp_selector path) selectorTarget"

definition compileRoutingPlan ::
  "(string \<Rightarrow> string \<Rightarrow> int) \<Rightarrow> routing_graph \<Rightarrow> string \<Rightarrow> string \<Rightarrow> (budget, routing_plan) action" where
  "compileRoutingPlan lc g entryId requestedModel =
     sbind checkpoint (\<lambda>_.
     sbind (slift (requireAccessPoint g entryId)) (\<lambda>entry.
       if ap_exposedModel entry \<noteq> requestedModel
       then sthrow (RelayError ''access_point_requested_model_mismatch'' 400 [])
       else sbind (findSelector lc g entry) (\<lambda>path.
            sbind (straverse (compileCandidate lc g path) (cr_targets (sp_rule path))) (\<lambda>candidates.
              sreturn \<lparr>rp_entryAccessPointId = ap_id entry, rp_requestedModel = requestedModel,
                       rp_selectorAccessPointId = ap_id (sp_selector path),
                       rp_selectorId = ap_routingRuleId (sp_selector path),
                       rp_selectorBehaviorVersion = ap_behaviorVersion (sp_selector path),
                       rp_selectorConfig = cr_config (sp_rule path),
                       rp_routingRevision = ap_routingRevision (sp_selector path),
                       rp_candidates = candidates\<rparr>))))"

subsection \<open>Evaluating a plan\<close>

record availability =
  accessPointStatuses :: "string \<Rightarrow> string option"
  providerStatuses :: "string \<Rightarrow> string option"
  providerModelStatuses :: "string \<Rightarrow> string option"
  providerBindingStatuses :: "string \<Rightarrow> string option"

datatype unavailable_reason =
    Access_point_disabled string
  | Provider_disabled string
  | Provider_model_disabled string
  | Provider_binding_not_ready string

record evaluated_candidate = compiled_candidate +
  ec_available :: bool
  ec_unavailableReason :: "unavailable_reason option"

definition requiredAvailability :: "(string \<Rightarrow> string option) \<Rightarrow> string \<Rightarrow> string result" where
  "requiredAvailability statuses k =
     (case statuses k of None \<Rightarrow> relay ''routing_availability_snapshot_incomplete'' 500 | Some s \<Rightarrow> Inr s)"

fun first_disabled :: "(string \<Rightarrow> string option) \<Rightarrow> string list \<Rightarrow> string option result" where
  "first_disabled statuses [] = Inr None"
| "first_disabled statuses (a # as) =
     rbind (requiredAvailability statuses a) (\<lambda>s.
       if s \<noteq> ''enabled'' then Inr (Some a) else first_disabled statuses as)"

definition candidateUnavailableReason ::
  "'a compiled_candidate_scheme \<Rightarrow> availability \<Rightarrow> unavailable_reason option result" where
  "candidateUnavailableReason c av =
     rbind (first_disabled (accessPointStatuses av) (cc_accessPointChainIds c)) (\<lambda>off.
       case off of
         Some a \<Rightarrow> Inr (Some (Access_point_disabled a))
       | None \<Rightarrow>
           rbind (requiredAvailability (providerStatuses av) (cc_providerId c)) (\<lambda>p.
             if p \<noteq> ''enabled'' then Inr (Some (Provider_disabled (cc_providerId c)))
             else rbind (requiredAvailability (providerModelStatuses av) (cc_providerModelId c)) (\<lambda>m.
               if m \<noteq> ''enabled'' then Inr (Some (Provider_model_disabled (cc_providerModelId c)))
               else if providerBindingStatuses av (cc_providerId c) \<noteq> Some ''ready''
               then Inr (Some (Provider_binding_not_ready (cc_providerId c)))
               else Inr None)))"

definition evaluate_candidate :: "availability \<Rightarrow> compiled_candidate \<Rightarrow> (budget, evaluated_candidate) action" where
  "evaluate_candidate av c =
     sbind evaluateCandidate (\<lambda>_.
     sbind (slift (candidateUnavailableReason c av)) (\<lambda>reason.
       sreturn (compiled_candidate.extend c \<lparr>ec_available = (reason = None), ec_unavailableReason = reason\<rparr>)))"

definition validateEvaluatedCandidates :: "routing_plan \<Rightarrow> evaluated_candidate list \<Rightarrow> unit result" where
  "validateEvaluatedCandidates plan cs =
     require (list_all2 (\<lambda>c compiled. compiled_candidate.truncate c = compiled) cs (rp_candidates plan))
       (RelayError ''routing_evaluated_candidates_invalid'' 500 [])"

text \<open>\<open>new Map(candidates.map(...))\<close>: of two candidates with one id, the last is found.\<close>

definition find_last :: "('a \<Rightarrow> bool) \<Rightarrow> 'a list \<Rightarrow> 'a option" where
  "find_last P xs = List.find P (rev xs)"

fun check_attempts :: "evaluated_candidate list \<Rightarrow> int \<Rightarrow> selector_attempt list \<Rightarrow> unit result" where
  "check_attempts cs index [] = Inr ()"
| "check_attempts cs index (a # as) =
     (case find_last (\<lambda>c. cc_candidateId c = sa_candidateId a) cs of
        None \<Rightarrow> relay ''routing_attempt_facts_invalid'' 500
      | Some c \<Rightarrow>
          if cc_selectorTargetEdgeId c \<noteq> sa_targetEdgeId a \<or> sa_attemptIndex a \<noteq> index
          then relay ''routing_attempt_facts_invalid'' 500
          else check_attempts cs (index + 1) as)"

definition validateAttemptFacts :: "evaluated_candidate list \<Rightarrow> selector_attempt list \<Rightarrow> unit result" where
  "validateAttemptFacts cs attempts = check_attempts cs 0 attempts"

definition selector_candidate_of :: "evaluated_candidate \<Rightarrow> selector_candidate" where
  "selector_candidate_of c =
     \<lparr>sc_candidateId = cc_candidateId c, sc_targetEdgeId = cc_selectorTargetEdgeId c,
      sc_position = cc_selectorPosition c, sc_available = ec_available c\<rparr>"

definition selectNextRoutingCandidate ::
  "(string \<Rightarrow> string \<Rightarrow> int) \<Rightarrow> routing_plan \<Rightarrow> evaluated_candidate list \<Rightarrow> selector_attempt list
     \<Rightarrow> (string option \<times> evaluated_candidate option) result" where
  "selectNextRoutingCandidate lc plan cs attempts =
     rbind (validateEvaluatedCandidates plan cs) (\<lambda>_.
     rbind (validateAttemptFacts cs attempts) (\<lambda>_.
       case rbind (getAccessPointSelector (rp_selectorId plan) (rp_selectorBehaviorVersion plan))
              (\<lambda>s. decide s lc (map selector_candidate_of cs) attempts (rp_selectorConfig plan)) of
         Inl e \<Rightarrow> relay ''invalid_access_point_selector_decision'' 500
       | Inr None \<Rightarrow> Inr (None, None)
       | Inr (Some cid) \<Rightarrow>
           if \<not> list_ex (\<lambda>c. cc_candidateId c = cid) cs
           then relay ''invalid_access_point_selector_decision'' 500
           else Inr (Some cid, List.find (\<lambda>c. cc_candidateId c = cid) cs)))"

record evaluated_plan =
  ep_plan :: routing_plan
  ep_candidates :: "evaluated_candidate list"
  ep_selectedCandidateId :: "string option"
  ep_selectedCandidate :: "evaluated_candidate option"

definition evaluateRouting ::
  "(string \<Rightarrow> string \<Rightarrow> int) \<Rightarrow> routing_plan \<Rightarrow> availability \<Rightarrow> selector_attempt list
     \<Rightarrow> (budget, evaluated_plan) action" where
  "evaluateRouting lc plan av attempts =
     sbind checkpoint (\<lambda>_.
     sbind (straverse (evaluate_candidate av) (rp_candidates plan)) (\<lambda>cs.
     sbind (slift (selectNextRoutingCandidate lc plan cs attempts)) (\<lambda>(selectedId, selected).
       sreturn \<lparr>ep_plan = plan, ep_candidates = cs, ep_selectedCandidateId = selectedId,
                ep_selectedCandidate = selected\<rparr>)))"

subsection \<open>What a compiled rule is\<close>

definition active_target :: "graph_target \<Rightarrow> bool" where
  "active_target t \<longleftrightarrow> gt_status t = ''enabled'' \<and> \<not> truthy (gt_removedAt t)"

definition wf_rule :: "(string \<Rightarrow> string \<Rightarrow> int) \<Rightarrow> access_point \<Rightarrow> compiled_rule \<Rightarrow> bool" where
  "wf_rule lc ap rule \<longleftrightarrow>
     \<not> truthy (ap_removedAt ap)
     \<and> cr_targets rule = enabled_targets lc ap
     \<and> distinct (map gt_position (cr_targets rule))
     \<and> (\<forall>t \<in> set (cr_targets rule). 0 \<le> gt_position t \<and> validateTargetShape t = Inr ())
     \<and> (\<exists>kind. getAccessPointSelector (ap_routingRuleId ap) (ap_behaviorVersion ap) = Inr kind
            \<and> wf_selector_config kind (int (length (cr_targets rule))) (cr_config rule))"

lemma set_enabled_targets: "set (enabled_targets lc ap) = {t \<in> set (ap_targets ap). active_target t}"
  by (auto simp: enabled_targets_def active_target_def)

lemma check_targets_Inr:
  "check_targets ps ts b = (Inr u, b') \<Longrightarrow>
     distinct (map gt_position ts) \<and> set (map gt_position ts) \<inter> set ps = {}
     \<and> (\<forall>t \<in> set ts. 0 \<le> gt_position t \<and> validateTargetShape t = Inr ())"
proof (induction ts arbitrary: ps b)
  case (Cons t ts)
  then obtain b1 where "0 \<le> gt_position t" "gt_position t \<notin> set ps" "validateTargetShape t = Inr ()"
      and rest: "check_targets (gt_position t # ps) ts b1 = (Inr u, b')"
    by (auto simp: effects split: if_splits)
  with Cons.IH [OF rest] show ?case by auto
qed simp

lemma rule_config_Inr:
  "rule_config ap ts = Inr config \<Longrightarrow>
     \<exists>kind. getAccessPointSelector (ap_routingRuleId ap) (ap_behaviorVersion ap) = Inr kind
        \<and> wf_selector_config kind (int (length ts)) config"
  by (auto simp: rule_config_def effects dest: normalizeConfig_wf split: option.splits sum.splits)

lemma compileRule_wf: "compileRule lc ap b = (Inr rule, b') \<Longrightarrow> wf_rule lc ap rule"
  by (auto simp: compileRule_def wf_rule_def effects Let_def split: if_splits
      dest!: check_targets_Inr rule_config_Inr)

lemma wf_selector_config_targets: "wf_selector_config kind n config \<Longrightarrow> 1 \<le> n \<and> n \<le> 4"
  by (cases kind; cases config) auto

lemma wf_rule_targets:
  assumes "wf_rule lc ap rule"
  shows "cr_targets rule \<noteq> []" "length (cr_targets rule) \<le> 4"
    and "t \<in> set (cr_targets rule) \<Longrightarrow> t \<in> set (ap_targets ap) \<and> active_target t"
proof -
  from assms obtain kind where "wf_selector_config kind (int (length (cr_targets rule))) (cr_config rule)"
    by (auto simp: wf_rule_def)
  from wf_selector_config_targets [OF this]
  show "cr_targets rule \<noteq> []" "length (cr_targets rule) \<le> 4" by auto
  show "t \<in> set (cr_targets rule) \<Longrightarrow> t \<in> set (ap_targets ap) \<and> active_target t"
    using assms by (simp add: wf_rule_def set_enabled_targets)
qed

lemma wf_rule_shape: "wf_rule lc ap rule \<Longrightarrow> t \<in> set (cr_targets rule) \<Longrightarrow> validateTargetShape t = Inr ()"
  by (simp add: wf_rule_def)

lemma selector_of_rule:
  "getAccessPointSelector i v = Inr kind \<Longrightarrow>
     v = 1 \<and> (kind = Direct_selector \<longleftrightarrow> i = ''direct'') \<and> (kind = Ordered_fallback_selector \<longleftrightarrow> i = ''ordered-fallback'')"
  by (auto simp: getAccessPointSelector_def split: if_splits)

subsection \<open>Paths through the graph\<close>

text \<open>An edge to another AccessPoint, and the last edge of a path, to a ProviderModel.\<close>

definition edge_to :: "routing_graph \<Rightarrow> access_point \<Rightarrow> string \<Rightarrow> access_point \<Rightarrow> bool" where
  "edge_to g a e b \<longleftrightarrow>
     (\<exists>t \<in> set (ap_targets a). active_target t \<and> gt_id t = e \<and> gt_type t = ''access-point''
        \<and> (\<exists>k. gt_targetAccessPointId t = Some k \<and> accessPoints g k = Some b))
     \<and> \<not> truthy (ap_removedAt b) \<and> ap_exposedModel b = ap_targetModel a"

definition edge_to_provider :: "routing_graph \<Rightarrow> access_point \<Rightarrow> string \<Rightarrow> provider_model \<Rightarrow> bool" where
  "edge_to_provider g a e pm \<longleftrightarrow>
     (\<exists>t \<in> set (ap_targets a). active_target t \<and> gt_id t = e \<and> gt_type t = ''provider-model''
        \<and> (\<exists>k. gt_targetProviderModelId t = Some k \<and> providerModels g k = Some pm))
     \<and> pm_providerModelName pm = ap_targetModel a"

fun linked :: "routing_graph \<Rightarrow> access_point list \<Rightarrow> string list \<Rightarrow> bool" where
  "linked g [a] [] \<longleftrightarrow> True"
| "linked g (a # b # as) (e # es) \<longleftrightarrow> edge_to g a e b \<and> linked g (b # as) es"
| "linked g _ _ \<longleftrightarrow> False"

lemma linked_snoc: "linked g as es \<Longrightarrow> edge_to g (last as) e b \<Longrightarrow> linked g (as @ [b]) (es @ [e])"
  by (induction g as es rule: linked.induct) auto

lemma linked_length: "linked g as es \<Longrightarrow> length as = Suc (length es)"
  by (induction g as es rule: linked.induct) auto

lemma requireTargetAccessPoint_edge:
  assumes "requireTargetAccessPoint g a t = Inr b" "t \<in> set (ap_targets a)" "active_target t"
    and "gt_type t = ''access-point''"
  shows "edge_to g a (gt_id t) b"
  using assms
  by (auto simp: requireTargetAccessPoint_def requireAccessPoint_def edge_to_def truthy_def effects
      split: option.splits if_splits)

lemma requireProviderModel_edge:
  assumes "requireProviderModel g a t = Inr pm" "t \<in> set (ap_targets a)" "active_target t"
    and "gt_type t = ''provider-model''"
  shows "edge_to_provider g a (gt_id t) pm"
  using assms
  by (auto simp: requireProviderModel_def edge_to_provider_def truthy_def split: option.splits if_splits)

lemma target_type_cases:
  assumes "validateTargetShape t = Inr ()"
  obtains "gt_type t = ''access-point''" | "gt_type t = ''provider-model''"
  using assms by (auto simp: validateTargetShape_def split: if_splits)

definition wf_selector_path ::
  "(string \<Rightarrow> string \<Rightarrow> int) \<Rightarrow> routing_graph \<Rightarrow> access_point \<Rightarrow> selector_path \<Rightarrow> bool" where
  "wf_selector_path lc g entry path \<longleftrightarrow>
     (let chain = sp_accessPointChain path
      in linked g chain (sp_targetEdgeIds path) \<and> distinct (map ap_id chain) \<and> hd chain = entry
         \<and> last chain = sp_selector path \<and> length chain \<le> 201
         \<and> (\<forall>a \<in> set (butlast chain). ap_routingRuleId a = ''direct'')
         \<and> wf_rule lc (sp_selector path) (sp_rule path))"

lemma wf_rule_direct: "wf_rule lc a rule \<Longrightarrow> ap_routingRuleId a \<noteq> ''ordered-fallback'' \<Longrightarrow> ap_routingRuleId a = ''direct''"
proof -
  assume "wf_rule lc a rule" and other: "ap_routingRuleId a \<noteq> ''ordered-fallback''"
  then obtain kind where "getAccessPointSelector (ap_routingRuleId a) (ap_behaviorVersion a) = Inr kind"
    by (auto simp: wf_rule_def)
  from selector_of_rule [OF this] other show ?thesis by (cases kind) simp_all
qed

lemma find_selector_loop_sound:
  assumes "find_selector_loop lc g visited chain edges current b = (Inr path, b')"
    and "set visited = set (map ap_id chain)" "distinct (map ap_id chain)" "length chain \<le> 200"
    and "linked g (chain @ [current]) edges" "hd (chain @ [current]) = entry"
    and "\<forall>a \<in> set chain. ap_routingRuleId a = ''direct''"
  shows "wf_selector_path lc g entry path"
  using assms
proof (induction lc g visited chain edges current arbitrary: b rule: find_selector_loop.induct)
  case (1 lc g visited chain edges current)
  let ?chain = "chain @ [current]"
  from 1(2) obtain b1 b2 rule where fresh: "ap_id current \<notin> set visited"
      and rule: "compileRule lc current b1 = (Inr rule, b2)"
      and rest: "(let found = sreturn \<lparr>sp_selector = current, sp_accessPointChain = ?chain,
                      sp_targetEdgeIds = edges, sp_rule = rule\<rparr>
                  in if ap_routingRuleId current = ''ordered-fallback'' then found
                     else (case cr_targets rule of
                             [] \<Rightarrow> sthrow type_error
                           | target # _ \<Rightarrow>
                               if gt_type target = ''provider-model'' then found
                               else if hop_limit_reached (int (length ?chain) - 1) then sthrow depth_exceeded
                               else sbind (slift (requireTargetAccessPoint g current target)) (\<lambda>downstream.
                                 find_selector_loop lc g (ap_id current # visited) ?chain (edges @ [gt_id target]) downstream))) b2
                 = (Inr path, b')"
    by (subst (asm) find_selector_loop.simps) (auto simp: effects Let_def split: if_splits)
  have wf: "wf_rule lc current rule" by (rule compileRule_wf [OF rule])
  have distinct: "distinct (map ap_id ?chain)" using 1(3,4) fresh by auto
  have found: "wf_selector_path lc g entry path" if "path = \<lparr>sp_selector = current, sp_accessPointChain = ?chain,
                      sp_targetEdgeIds = edges, sp_rule = rule\<rparr>"
    using that 1(5-8) wf distinct by (simp add: wf_selector_path_def)
  show ?case
  proof (cases "ap_routingRuleId current = ''ordered-fallback''")
    case True
    with rest found show ?thesis by simp
  next
    case False
    with wf have direct: "ap_routingRuleId current = ''direct''" by (rule wf_rule_direct)
    from wf_rule_targets(1) [OF wf] obtain target ts where targets: "cr_targets rule = target # ts"
      by (cases "cr_targets rule") auto
    show ?thesis
    proof (cases "gt_type target = ''provider-model''")
      case True
      with rest found False targets show ?thesis by simp
    next
      case other: False
      with rest False targets obtain downstream where hops: "\<not> hop_limit_reached (int (length ?chain) - 1)"
          and down: "requireTargetAccessPoint g current target = Inr downstream"
          and go: "find_selector_loop lc g (ap_id current # visited) ?chain (edges @ [gt_id target]) downstream b2 = (Inr path, b')"
        by (auto simp: effects split: if_splits)
      have "target \<in> set (cr_targets rule)" by (simp add: targets)
      then have "validateTargetShape target = Inr ()" "target \<in> set (ap_targets current)" "active_target target"
        using wf_rule_targets(3) [OF wf, of target] wf_rule_shape [OF wf, of target] by blast+
      with other down have edge: "edge_to g current (gt_id target) downstream"
        by (auto elim: target_type_cases intro: requireTargetAccessPoint_edge)
      show ?thesis
      proof (rule 1(1) [OF fresh refl refl refl False targets other hops go])
        show "linked g (?chain @ [downstream]) (edges @ [gt_id target])"
          using 1(6) edge by (intro linked_snoc) simp_all
        show "hd (?chain @ [downstream]) = entry" using 1(7) by (cases chain) simp_all
        show "length ?chain \<le> 200"
          using hops by (simp add: hop_limit_reached_def MAX_ACCESS_POINT_TO_ACCESS_POINT_HOPS_def)
      qed (use 1(3,8) distinct direct in auto)
    qed
  qed
qed

text \<open>What compiling a candidate returns, from the path it starts with.\<close>

definition path_extends ::
  "routing_graph \<Rightarrow> selector_path \<Rightarrow> graph_target \<Rightarrow> access_point list \<Rightarrow> string list \<Rightarrow> graph_target
     \<Rightarrow> compiled_candidate \<Rightarrow> bool" where
  "path_extends g path selectorTarget chain edges target c \<longleftrightarrow>
     (\<exists>more es e pm rest.
        c = candidate_of path selectorTarget (chain @ more) (es @ [e]) pm
        \<and> linked g (chain @ more) es \<and> edge_to_provider g (last (chain @ more)) e pm
        \<and> distinct (map ap_id (chain @ more)) \<and> length (chain @ more) \<le> 201
        \<and> (\<forall>a \<in> set more. ap_routingRuleId a = ''direct'')
        \<and> es @ [e] = edges @ gt_id target # rest)"

lemma compile_candidate_loop_sound:
  assumes "compile_candidate_loop lc g path selectorTarget visited chain edges current target b = (Inr c, b')"
    and "set visited = set (map ap_id chain)" "distinct (map ap_id chain)" "length chain \<le> 201"
    and "linked g chain edges" "last chain = current"
    and "target \<in> set (ap_targets current)" "active_target target" "validateTargetShape target = Inr ()"
  shows "path_extends g path selectorTarget chain edges target c"
  using assms
proof (induction lc g path selectorTarget visited chain edges current target arbitrary: b
    rule: compile_candidate_loop.induct)
  case (1 lc g path selectorTarget visited chain edges current target)
  show ?case
  proof (cases "gt_type target = ''access-point''")
    case True
    with 1(2) obtain b1 b2 downstream rule where hops: "\<not> hop_limit_reached (int (length chain) - 1)"
        and down: "requireTargetAccessPoint g current target = Inr downstream"
        and fresh: "ap_id downstream \<notin> set visited"
        and rule: "compileRule lc downstream b1 = (Inr rule, b2)"
        and single: "ap_routingRuleId downstream \<noteq> ''ordered-fallback''"
        and rest: "(case cr_targets rule of
                      [] \<Rightarrow> sthrow type_error
                    | next # _ \<Rightarrow> compile_candidate_loop lc g path selectorTarget (ap_id downstream # visited)
                        (chain @ [downstream]) (edges @ [gt_id target]) downstream next) b2 = (Inr c, b')"
      by (subst (asm) compile_candidate_loop.simps) (auto simp: effects Let_def split: if_splits)
    have wf: "wf_rule lc downstream rule" by (rule compileRule_wf [OF rule])
    from wf_rule_targets(1) [OF wf] obtain nt ts where targets: "cr_targets rule = nt # ts"
      by (cases "cr_targets rule") auto
    then have nt: "nt \<in> set (cr_targets rule)" by simp
    have edge: "edge_to g current (gt_id target) downstream"
      using down 1(8,9) True by (rule requireTargetAccessPoint_edge)
    have chain: "chain \<noteq> []" using linked_length [OF 1(6)] by auto
    have "path_extends g path selectorTarget (chain @ [downstream]) (edges @ [gt_id target]) nt c"
    proof (rule 1(1) [OF refl True hops fresh refl single targets])
      show "compile_candidate_loop lc g path selectorTarget (ap_id downstream # visited)
              (chain @ [downstream]) (edges @ [gt_id target]) downstream nt b2 = (Inr c, b')"
        using rest targets by simp
      show "linked g (chain @ [downstream]) (edges @ [gt_id target])"
        using 1(6,7) edge by (intro linked_snoc) simp_all
      show "length (chain @ [downstream]) \<le> 201"
        using hops by (simp add: hop_limit_reached_def MAX_ACCESS_POINT_TO_ACCESS_POINT_HOPS_def)
      show "nt \<in> set (ap_targets downstream)" "active_target nt" "validateTargetShape nt = Inr ()"
        using wf_rule_targets(3) [OF wf nt] wf_rule_shape [OF wf nt] by blast+
    qed (use 1(3,4) fresh in auto)
    then obtain more es e pm rest where
      "c = candidate_of path selectorTarget ((chain @ [downstream]) @ more) (es @ [e]) pm"
      "linked g ((chain @ [downstream]) @ more) es" "edge_to_provider g (last ((chain @ [downstream]) @ more)) e pm"
      "distinct (map ap_id ((chain @ [downstream]) @ more))" "length ((chain @ [downstream]) @ more) \<le> 201"
      "\<forall>a \<in> set more. ap_routingRuleId a = ''direct''"
      "es @ [e] = (edges @ [gt_id target]) @ gt_id nt # rest"
      unfolding path_extends_def by blast
    then show ?thesis
      unfolding path_extends_def using wf_rule_direct [OF wf single]
      by (intro exI [of _ "downstream # more"] exI [of _ es] exI [of _ e] exI [of _ pm]
            exI [of _ "gt_id nt # rest"]) simp
  next
    case False
    with 1(10) have provider: "gt_type target = ''provider-model''" by (auto elim: target_type_cases)
    from 1(2) False obtain pm where pm: "requireProviderModel g current target = Inr pm"
        and c: "c = candidate_of path selectorTarget chain (edges @ [gt_id target]) pm"
      by (subst (asm) compile_candidate_loop.simps) (auto simp: effects Let_def)
    from pm 1(8,9) provider have "edge_to_provider g current (gt_id target) pm"
      by (rule requireProviderModel_edge)
    with 1(4-7) c show ?thesis
      unfolding path_extends_def
      by (intro exI [of _ "[]"] exI [of _ edges] exI [of _ "gt_id target"] exI [of _ pm]) simp
  qed
qed

subsection \<open>Compiled plans\<close>

text \<open>
  A candidate of a plan is a path from the entry AccessPoint to a ProviderModel: each hop is an
  enabled target whose AccessPoint exposes the model the hop before asks for, no AccessPoint
  occurs twice, at most 200 hops, and every AccessPoint but the selector has the direct rule.
\<close>

definition valid_candidate :: "routing_graph \<Rightarrow> access_point \<Rightarrow> routing_plan \<Rightarrow> compiled_candidate \<Rightarrow> bool" where
  "valid_candidate g entry plan c \<longleftrightarrow>
     (\<exists>before selector after es e pm.
        let chain = before @ selector # after
        in hd chain = entry \<and> linked g chain es \<and> edge_to_provider g (last chain) e pm
           \<and> distinct (map ap_id chain) \<and> length chain \<le> 201
           \<and> (\<forall>a \<in> set before \<union> set after. ap_routingRuleId a = ''direct'')
           \<and> ap_id selector = rp_selectorAccessPointId plan
           \<and> cc_selectorTargetEdgeId c = (es @ [e]) ! length before
           \<and> cc_candidateId c = ap_id selector @ '':'' @ cc_selectorTargetEdgeId c
           \<and> cc_pathTargetEdgeIds c = es @ [e]
           \<and> cc_accessPointChainIds c = map ap_id chain
           \<and> cc_routingRevisions c = map (\<lambda>a. (ap_id a, ap_routingRevision a)) chain
           \<and> cc_providerId c = pm_providerId pm \<and> cc_providerModelId c = pm_id pm
           \<and> cc_providerModelName c = pm_providerModelName pm)"

lemma path_extends_valid:
  assumes path: "wf_selector_path lc g entry path" and id: "rp_selectorAccessPointId plan = ap_id (sp_selector path)"
    and ext: "path_extends g path t (sp_accessPointChain path) (sp_targetEdgeIds path) t c"
  shows "valid_candidate g entry plan c"
proof -
  let ?chain = "sp_accessPointChain path" and ?edges = "sp_targetEdgeIds path"
  from path have linked: "linked g ?chain ?edges" and hd: "hd ?chain = entry"
      and last: "last ?chain = sp_selector path"
      and before: "\<forall>a \<in> set (butlast ?chain). ap_routingRuleId a = ''direct''"
    by (simp_all add: wf_selector_path_def Let_def)
  from linked_length [OF linked] have len: "length ?chain = Suc (length ?edges)" .
  then have ne: "?chain \<noteq> []" by auto
  from append_butlast_last_id [OF this] last have split: "?chain = butlast ?chain @ [sp_selector path]" by metis
  have len': "length (butlast ?chain) = length ?edges" using len by simp
  from ext obtain more es e pm rest where
      c: "c = candidate_of path t (?chain @ more) (es @ [e]) pm"
      and rest: "linked g (?chain @ more) es" "edge_to_provider g (last (?chain @ more)) e pm"
        "distinct (map ap_id (?chain @ more))" "length (?chain @ more) \<le> 201"
        "\<forall>a \<in> set more. ap_routingRuleId a = ''direct''"
      and edges: "es @ [e] = ?edges @ gt_id t # rest"
    unfolding path_extends_def by blast
  have chain: "?chain @ more = butlast ?chain @ sp_selector path # more"
    by (subst split) simp
  have "hd (?chain @ more) = entry" using hd ne by simp
  moreover have "(es @ [e]) ! length (butlast ?chain) = gt_id t" unfolding edges len' by simp
  ultimately show ?thesis
    unfolding valid_candidate_def
    using rest before id
    by (intro exI [of _ "butlast ?chain"] exI [of _ "sp_selector path"] exI [of _ more] exI [of _ es]
          exI [of _ e] exI [of _ pm])
       (simp only: Let_def chain [symmetric], auto simp: c candidate_of_def)
qed

lemma compileCandidate_valid:
  assumes path: "wf_selector_path lc g entry path" and t: "t \<in> set (cr_targets (sp_rule path))"
    and run: "compileCandidate lc g path t b = (Inr c, b')"
    and id: "rp_selectorAccessPointId plan = ap_id (sp_selector path)"
  shows "valid_candidate g entry plan c"
proof -
  from path have wf: "wf_rule lc (sp_selector path) (sp_rule path)" by (simp add: wf_selector_path_def Let_def)
  have "path_extends g path t (sp_accessPointChain path) (sp_targetEdgeIds path) t c"
    using run unfolding compileCandidate_def
  proof (rule compile_candidate_loop_sound)
    show "t \<in> set (ap_targets (sp_selector path))" "active_target t" "validateTargetShape t = Inr ()"
      using wf_rule_targets(3) [OF wf t] wf_rule_shape [OF wf t] by blast+
  qed (use path in \<open>auto simp: wf_selector_path_def Let_def\<close>)
  with path id show ?thesis by (rule path_extends_valid)
qed

lemma compiled_plan_parts:
  assumes "compileRoutingPlan lc g entryId model b = (Inr plan, b')"
  obtains entry path b1 b2 where "accessPoints g entryId = Some entry" "\<not> truthy (ap_removedAt entry)"
    and "ap_exposedModel entry = model" and "wf_selector_path lc g entry path"
    and "straverse (compileCandidate lc g path) (cr_targets (sp_rule path)) b1 = (Inr (rp_candidates plan), b2)"
    and "plan = \<lparr>rp_entryAccessPointId = ap_id entry, rp_requestedModel = model,
                  rp_selectorAccessPointId = ap_id (sp_selector path),
                  rp_selectorId = ap_routingRuleId (sp_selector path),
                  rp_selectorBehaviorVersion = ap_behaviorVersion (sp_selector path),
                  rp_selectorConfig = cr_config (sp_rule path),
                  rp_routingRevision = ap_routingRevision (sp_selector path),
                  rp_candidates = rp_candidates plan\<rparr>"
proof -
  from assms obtain entry path b0 b1 b2 where entry: "requireAccessPoint g entryId = Inr entry"
      and model: "ap_exposedModel entry = model"
      and find: "findSelector lc g entry b0 = (Inr path, b1)"
      and rest: "straverse (compileCandidate lc g path) (cr_targets (sp_rule path)) b1 = (Inr (rp_candidates plan), b2)"
      "plan = \<lparr>rp_entryAccessPointId = ap_id entry, rp_requestedModel = model,
                  rp_selectorAccessPointId = ap_id (sp_selector path),
                  rp_selectorId = ap_routingRuleId (sp_selector path),
                  rp_selectorBehaviorVersion = ap_behaviorVersion (sp_selector path),
                  rp_selectorConfig = cr_config (sp_rule path),
                  rp_routingRevision = ap_routingRevision (sp_selector path),
                  rp_candidates = rp_candidates plan\<rparr>"
    by (auto simp: compileRoutingPlan_def effects split: if_splits)
  from entry have "accessPoints g entryId = Some entry" "\<not> truthy (ap_removedAt entry)"
    by (auto simp: requireAccessPoint_def split: option.splits if_splits)
  moreover have "wf_selector_path lc g entry path"
    using find unfolding findSelector_def by (rule find_selector_loop_sound) simp_all
  ultimately show thesis using that model rest by blast
qed

subsection \<open>The budget bounds the work\<close>

definition within_budget :: "budget_options \<Rightarrow> budget \<Rightarrow> bool" where
  "within_budget opts b \<longleftrightarrow>
     b_options b = opts \<and> distinct (b_visitedNodeIds b) \<and> distinct (b_visitedEdgeIds b)
     \<and> int (length (b_visitedNodeIds b)) \<le> maxVisitedNodes opts
     \<and> int (length (b_visitedEdgeIds b)) \<le> maxVisitedEdges opts
     \<and> b_decodedConfigBytes b \<le> maxDecodedConfigBytes opts
     \<and> b_evaluatedCandidates b \<le> maxEvaluationCandidates opts"

text \<open>When it throws, one node, edge or candidate more than the limit was counted at most.\<close>

definition just_over_budget :: "budget_options \<Rightarrow> budget \<Rightarrow> bool" where
  "just_over_budget opts b \<longleftrightarrow>
     int (length (b_visitedNodeIds b)) \<le> maxVisitedNodes opts + 1
     \<and> int (length (b_visitedEdgeIds b)) \<le> maxVisitedEdges opts + 1
     \<and> b_evaluatedCandidates b \<le> maxEvaluationCandidates opts + 1"

abbreviation budgeted :: "budget_options \<Rightarrow> (budget, 'a) action \<Rightarrow> bool" where
  "budgeted opts \<equiv> guarded (within_budget opts) (just_over_budget opts)"

lemma within_just_over: "within_budget opts b \<Longrightarrow> just_over_budget opts b"
  by (simp add: within_budget_def just_over_budget_def)

lemmas budgeted_intros = guarded_sbind guarded_basic(1) guarded_basic(2,3) [OF within_just_over] guarded_straverse

lemma checkpoint_budgeted: "budgeted opts checkpoint"
  by (rule guardedI) (auto simp: checkpoint_def Let_def within_budget_def just_over_budget_def split: if_splits option.splits)

lemma visitNode_budgeted: "budgeted opts (visitNode k n)"
  unfolding visitNode_def
  by (rule guarded_sbind [OF checkpoint_budgeted], rule guardedI)
     (auto simp: effects assertWithin_def Let_def within_budget_def just_over_budget_def split: if_splits)

lemma visitEdge_budgeted: "budgeted opts (visitEdge k)"
  unfolding visitEdge_def
  by (rule guarded_sbind [OF checkpoint_budgeted], rule guardedI)
     (auto simp: effects assertWithin_def Let_def within_budget_def just_over_budget_def split: if_splits)

lemma evaluateCandidate_budgeted: "budgeted opts evaluateCandidate"
  unfolding evaluateCandidate_def
  by (rule guarded_sbind [OF checkpoint_budgeted], rule guardedI)
     (auto simp: effects assertWithin_def Let_def within_budget_def just_over_budget_def split: if_splits)

lemma check_targets_budgeted: "budgeted opts (check_targets ps ts)"
  by (induction ts arbitrary: ps) (auto intro!: budgeted_intros visitEdge_budgeted)

lemma compileRule_budgeted: "budgeted opts (compileRule lc ap)"
  by (auto simp: compileRule_def Let_def intro!: budgeted_intros visitNode_budgeted check_targets_budgeted)

lemma find_selector_loop_budgeted: "budgeted opts (find_selector_loop lc g visited chain edges current)"
proof (induction lc g visited chain edges current rule: find_selector_loop.induct)
  case (1 lc g visited chain edges current)
  show ?case
    by (subst find_selector_loop.simps)
       (auto simp: Let_def split: list.split
         intro!: budgeted_intros checkpoint_budgeted compileRule_budgeted 1)
qed

lemma compile_candidate_loop_budgeted:
  "budgeted opts (compile_candidate_loop lc g path t visited chain edges current target)"
proof (induction lc g path t visited chain edges current target rule: compile_candidate_loop.induct)
  case (1 lc g path t visited chain edges current target)
  show ?case
    by (subst compile_candidate_loop.simps)
       (auto simp: Let_def split: list.split
         intro!: budgeted_intros checkpoint_budgeted compileRule_budgeted 1)
qed

lemma compileRoutingPlan_budgeted: "budgeted opts (compileRoutingPlan lc g entryId model)"
  unfolding compileRoutingPlan_def findSelector_def compileCandidate_def
  by (auto intro!: budgeted_intros checkpoint_budgeted find_selector_loop_budgeted compile_candidate_loop_budgeted)

lemma evaluateRouting_budgeted: "budgeted opts (evaluateRouting lc plan av attempts)"
  unfolding evaluateRouting_def evaluate_candidate_def
  by (auto intro!: budgeted_intros checkpoint_budgeted evaluateCandidate_budgeted split: prod.splits)

subsection \<open>What compilation throws\<close>

lemma checkpoint_relay: "relay_only checkpoint"
  by (auto simp: relay_only_def checkpoint_def capacityExceeded_def Let_def split: if_splits option.splits)

lemma assertWithin_relay: "relay_only (assertWithin d n m)"
  by (auto simp: assertWithin_def capacityExceeded_def intro: relay_only_basic)

lemma visit_relay: "relay_only (visitNode k n)" "relay_only (visitEdge k)"
  unfolding visitNode_def visitEdge_def
  by (rule relay_only_sbind [OF checkpoint_relay];
      auto simp: relay_only_def effects Let_def split: if_splits dest: relay_onlyD [OF assertWithin_relay])+

lemma result_relay:
  "validateTargetShape t = Inl e \<Longrightarrow> is_relay e" "rule_config ap ts = Inl e \<Longrightarrow> is_relay e"
  "requireAccessPoint g k = Inl e \<Longrightarrow> is_relay e" "requireTargetAccessPoint g ap t = Inl e \<Longrightarrow> is_relay e"
  "requireProviderModel g ap t = Inl e \<Longrightarrow> is_relay e"
  by (auto simp: validateTargetShape_def rule_config_def requireAccessPoint_def requireTargetAccessPoint_def
      requireProviderModel_def invalid_routing_def effects split: if_splits option.splits sum.splits)

lemma error_relay [simp]: "is_relay invalid_routing" "is_relay routingCycle" "is_relay depth_exceeded"
  by (simp_all add: invalid_routing_def routingCycle_def depth_exceeded_def)

lemmas relay_intros = relay_only_sbind relay_only_basic checkpoint_relay visit_relay

lemma check_targets_relay: "relay_only (check_targets ps ts)"
  by (induction ts arbitrary: ps) (auto intro!: relay_intros dest: result_relay)

lemma compileRule_relay: "relay_only (compileRule lc ap)"
  by (auto simp: compileRule_def Let_def intro!: relay_intros check_targets_relay dest: result_relay)

text \<open>The step that follows a compiled rule need only be considered when the rule has a target.\<close>

lemma relay_only_compiled:
  assumes "\<And>rule t ts. cr_targets rule = t # ts \<Longrightarrow> relay_only (f rule)"
  shows "relay_only (sbind (compileRule lc ap) f)"
  unfolding relay_only_def
proof (intro allI impI)
  fix s e t
  assume "sbind (compileRule lc ap) f s = (Inl e, t)"
  then consider "compileRule lc ap s = (Inl e, t)"
    | rule s' where "compileRule lc ap s = (Inr rule, s')" "f rule s' = (Inl e, t)"
    by (auto simp: effects)
  then show "is_relay e"
  proof cases
    case 1
    then show ?thesis by (rule relay_onlyD [OF compileRule_relay])
  next
    case 2
    from wf_rule_targets(1) [OF compileRule_wf [OF 2(1)]] obtain r rs where "cr_targets rule = r # rs"
      by (cases "cr_targets rule") auto
    from relay_onlyD [OF assms [OF this] 2(2)] show ?thesis .
  qed
qed

lemma find_selector_loop_relay: "relay_only (find_selector_loop lc g visited chain edges current)"
proof (induction lc g visited chain edges current rule: find_selector_loop.induct)
  case (1 lc g visited chain edges current)
  show ?case
    by (subst find_selector_loop.simps)
       (auto simp: Let_def intro: result_relay
         intro!: relay_only_sbind checkpoint_relay relay_only_compiled relay_only_basic 1)
qed

lemma compile_candidate_loop_relay:
  "relay_only (compile_candidate_loop lc g path t visited chain edges current target)"
proof (induction lc g path t visited chain edges current target rule: compile_candidate_loop.induct)
  case (1 lc g path t visited chain edges current target)
  show ?case
    by (subst compile_candidate_loop.simps)
       (auto simp: Let_def intro: result_relay
         intro!: relay_only_sbind checkpoint_relay relay_only_compiled relay_only_basic 1)
qed

lemma compileRoutingPlan_relay: "relay_only (compileRoutingPlan lc g entryId model)"
  unfolding compileRoutingPlan_def findSelector_def compileCandidate_def
  by (auto intro: result_relay
      intro!: relay_intros relay_only_straverse find_selector_loop_relay compile_candidate_loop_relay)

subsection \<open>The locale does not decide\<close>

lemma enabled_targets_locale:
  "distinct (map gt_position (enabled_targets lc ap)) \<Longrightarrow> enabled_targets lc ap = enabled_targets lc' ap"
proof -
  let ?ts = "filter (\<lambda>t. gt_status t = ''enabled'' \<and> \<not> truthy (gt_removedAt t)) (ap_targets ap)"
  assume "distinct (map gt_position (enabled_targets lc ap))"
  then have "distinct (map gt_position ?ts)"
    by (simp add: enabled_targets_def distinct_map_js_sort)
  then show ?thesis unfolding enabled_targets_def by (rule cmp_key_then_tie)
qed

lemma compileRule_locale: "compileRule lc ap b = (Inr rule, b') \<Longrightarrow> compileRule lc' ap b = (Inr rule, b')"
proof -
  assume run: "compileRule lc ap b = (Inr rule, b')"
  then have "distinct (map gt_position (enabled_targets lc ap))"
    using compileRule_wf [OF run] by (auto simp: wf_rule_def)
  then have "enabled_targets lc ap = enabled_targets lc' ap" by (rule enabled_targets_locale)
  then have "compileRule lc ap = compileRule lc' ap" by (simp add: compileRule_def)
  with run show ?thesis by simp
qed

text \<open>\<open>same_on_success m m'\<close>: whenever \<open>m\<close> returns, \<open>m'\<close> returns the same and leaves the same state.\<close>

definition same_on_success :: "('s, 'a) action \<Rightarrow> ('s, 'a) action \<Rightarrow> bool" where
  "same_on_success m m' \<longleftrightarrow> (\<forall>s x t. m s = (Inr x, t) \<longrightarrow> m' s = (Inr x, t))"

lemma same_on_success_sbind:
  "same_on_success m m' \<Longrightarrow> (\<And>x. same_on_success (f x) (f' x)) \<Longrightarrow> same_on_success (sbind m f) (sbind m' f')"
  unfolding same_on_success_def by (fastforce simp: sbind_Inr_iff)

lemma same_on_success_refl [simp]: "same_on_success m m"
  by (simp add: same_on_success_def)

lemma same_on_success_straverse:
  "(\<And>x. same_on_success (f x) (f' x)) \<Longrightarrow> same_on_success (straverse f xs) (straverse f' xs)"
proof (induction xs)
  case (Cons x xs)
  then have "same_on_success (straverse f xs) (straverse f' xs)" by blast
  with Cons.prems show ?case
    unfolding straverse_Cons by (intro same_on_success_sbind same_on_success_refl) auto
next
  case Nil
  show ?case by (simp add: same_on_success_def)
qed

lemma compileRule_same: "same_on_success (compileRule lc ap) (compileRule lc' ap)"
  unfolding same_on_success_def by (blast intro: compileRule_locale)

lemmas same_intros = same_on_success_sbind same_on_success_straverse compileRule_same

lemma find_selector_loop_same:
  "same_on_success (find_selector_loop lc g visited chain edges current) (find_selector_loop lc' g visited chain edges current)"
proof (induction lc g visited chain edges current rule: find_selector_loop.induct)
  case (1 lc g visited chain edges current)
  show ?case
    by (subst find_selector_loop.simps [of lc], subst find_selector_loop.simps [of lc'])
       (auto simp: Let_def split: list.split intro!: same_intros 1)
qed

lemma compile_candidate_loop_same:
  "same_on_success (compile_candidate_loop lc g path t visited chain edges current target)
     (compile_candidate_loop lc' g path t visited chain edges current target)"
proof (induction lc g path t visited chain edges current target rule: compile_candidate_loop.induct)
  case (1 lc g path t visited chain edges current target)
  show ?case
    by (subst compile_candidate_loop.simps [of lc], subst compile_candidate_loop.simps [of lc'])
       (auto simp: Let_def split: list.split intro!: same_intros 1)
qed

lemma compileRoutingPlan_same:
  "same_on_success (compileRoutingPlan lc g entryId model) (compileRoutingPlan lc' g entryId model)"
  unfolding compileRoutingPlan_def findSelector_def compileCandidate_def
  by (auto intro!: same_intros find_selector_loop_same compile_candidate_loop_same)

subsection \<open>Evaluated candidates\<close>

definition fully_available :: "availability \<Rightarrow> 'a compiled_candidate_scheme \<Rightarrow> bool" where
  "fully_available av c \<longleftrightarrow>
     list_all (\<lambda>a. accessPointStatuses av a = Some ''enabled'') (cc_accessPointChainIds c)
     \<and> providerStatuses av (cc_providerId c) = Some ''enabled''
     \<and> providerModelStatuses av (cc_providerModelId c) = Some ''enabled''
     \<and> providerBindingStatuses av (cc_providerId c) = Some ''ready''"

lemma requiredAvailability_Inr [simp]: "requiredAvailability st k = Inr s \<longleftrightarrow> st k = Some s"
  by (simp add: requiredAvailability_def split: option.splits)

lemma first_disabled_None: "first_disabled st as = Inr None \<longleftrightarrow> list_all (\<lambda>a. st a = Some ''enabled'') as"
  by (induction as) (auto simp: effects)

lemma candidateUnavailableReason_None:
  "candidateUnavailableReason c av = Inr None \<longleftrightarrow> fully_available av c"
  by (auto simp: candidateUnavailableReason_def fully_available_def effects first_disabled_None
      split: option.splits if_splits)

definition evaluates_to :: "availability \<Rightarrow> compiled_candidate \<Rightarrow> evaluated_candidate \<Rightarrow> bool" where
  "evaluates_to av c e \<longleftrightarrow>
     compiled_candidate.truncate e = c \<and> (ec_available e \<longleftrightarrow> fully_available av c)
     \<and> candidateUnavailableReason c av = Inr (ec_unavailableReason e)"

lemma evaluate_candidate_evaluates:
  "evaluate_candidate av c b = (Inr e, b') \<Longrightarrow> evaluates_to av c e"
  by (auto simp: evaluate_candidate_def evaluates_to_def effects compiled_candidate.defs
      candidateUnavailableReason_None [symmetric])

lemma evaluated_candidates:
  assumes "straverse (evaluate_candidate av) cs b = (Inr es, b')"
  shows "list_all2 (evaluates_to av) cs es"
  using straverse_Inr_nth [OF assms] by (rule list_all2_mono) (blast intro: evaluate_candidate_evaluates)

lemma evaluateRouting_parts:
  assumes "evaluateRouting lc plan av attempts b = (Inr ev, b')"
  obtains "list_all2 (evaluates_to av) (rp_candidates plan) (ep_candidates ev)"
    and "selectNextRoutingCandidate lc plan (ep_candidates ev) attempts
           = Inr (ep_selectedCandidateId ev, ep_selectedCandidate ev)"
    and "ep_plan ev = plan"
  using assms by (auto simp: evaluateRouting_def effects dest: evaluated_candidates)

lemma truncate_candidateId [simp]: "cc_candidateId (compiled_candidate.truncate c) = cc_candidateId c"
  by (simp add: compiled_candidate.defs)

lemma fully_available_truncate [simp]: "fully_available av (compiled_candidate.truncate c) = fully_available av c"
  by (simp add: fully_available_def compiled_candidate.defs)

lemma list_all2_image: "list_all2 (\<lambda>x y. f x = y) xs ys \<longleftrightarrow> map f xs = ys"
  by (auto simp: list_all2_conv_all_nth intro: nth_equalityI)

lemma find_SomeI: "distinct (map f xs) \<Longrightarrow> x \<in> set xs \<Longrightarrow> List.find (\<lambda>y. f y = f x) xs = Some x"
  by (induction xs) auto

lemma selected_candidate:
  assumes "selectNextRoutingCandidate lc plan cs attempts = Inr (Some cid, sel)"
    and "distinct (map cc_candidateId (rp_candidates plan))"
  obtains c where "c \<in> set cs" "cc_candidateId c = cid" "ec_available c" "sel = Some c"
    and "cid \<notin> set (map sa_candidateId attempts)"
proof -
  from assms(1) obtain s where match: "list_all2 (\<lambda>c k. compiled_candidate.truncate c = k) cs (rp_candidates plan)"
      and decide: "decide s lc (map selector_candidate_of cs) attempts (rp_selectorConfig plan) = Inr (Some cid)"
      and sel: "sel = List.find (\<lambda>c. cc_candidateId c = cid) cs"
    by (auto simp: selectNextRoutingCandidate_def validateEvaluatedCandidates_def effects
        split: sum.splits option.splits if_splits)
  from match have "rp_candidates plan = map compiled_candidate.truncate cs"
    by (simp add: list_all2_image)
  then have "map cc_candidateId cs = map cc_candidateId (rp_candidates plan)" by (simp add: comp_def)
  with assms(2) have distinct: "distinct (map cc_candidateId cs)" by simp
  note contract = decide_selector [of s lc "rp_selectorConfig plan"]
  from selector.chosen_available [OF contract decide] obtain c where
      c: "c \<in> set cs" "cc_candidateId c = cid" "ec_available c"
    by (auto simp: selector_candidate_of_def)
  moreover have "sel = Some c" using find_SomeI [OF distinct c(1)] c(2) sel by simp
  moreover have "cid \<notin> set (map sa_candidateId attempts)"
    by (rule selector.chosen_untried [OF contract decide])
  ultimately show thesis by (rule that)
qed

lemma plan_config:
  assumes "compileRoutingPlan lc g entryId model b = (Inr plan, b')"
  obtains kind where "getAccessPointSelector (rp_selectorId plan) (rp_selectorBehaviorVersion plan) = Inr kind"
    and "wf_selector_config kind (int (length (rp_candidates plan))) (rp_selectorConfig plan)"
proof -
  from assms obtain entry path b1 b2 where path: "wf_selector_path lc g entry path"
      and cs: "straverse (compileCandidate lc g path) (cr_targets (sp_rule path)) b1 = (Inr (rp_candidates plan), b2)"
      and fields: "rp_selectorId plan = ap_routingRuleId (sp_selector path)"
        "rp_selectorBehaviorVersion plan = ap_behaviorVersion (sp_selector path)"
        "rp_selectorConfig plan = cr_config (sp_rule path)"
    by (rule compiled_plan_parts) (metis routing_plan.simps)
  from path have "wf_rule lc (sp_selector path) (sp_rule path)" by (simp add: wf_selector_path_def Let_def)
  with that show thesis
    unfolding fields straverse_Inr_length [OF cs] wf_rule_def by blast
qed

lemma decide_returns:
  assumes "wf_selector_config kind n config"
  shows "\<exists>r. decide kind lc cs as config = Inr r"
  using assms
  by (cases kind; cases config)
     (auto simp: direct_decide_def ordered_decide_def Let_def split: list.splits option.splits)

lemma select_error:
  assumes "compileRoutingPlan lc g entryId model b = (Inr plan, b')"
    and "selectNextRoutingCandidate lc' plan cs attempts = Inl e"
  shows "error_code e \<in> {''routing_evaluated_candidates_invalid'', ''routing_attempt_facts_invalid''}"
proof -
  from plan_config [OF assms(1)] obtain kind where
      kind: "getAccessPointSelector (rp_selectorId plan) (rp_selectorBehaviorVersion plan) = Inr kind"
      and wf: "wf_selector_config kind (int (length (rp_candidates plan))) (rp_selectorConfig plan)" .
  have attempts: "check_attempts cs i as = Inl e \<Longrightarrow> error_code e = ''routing_attempt_facts_invalid''" for i as
    by (induction as arbitrary: i) (auto split: option.splits if_splits)
  from decide_returns [OF wf] obtain r where
      r: "decide kind lc' (map selector_candidate_of cs) attempts (rp_selectorConfig plan) = Inr r" by blast
  have known: "list_ex (\<lambda>c. cc_candidateId c = cid) cs" if "r = Some cid" for cid
    using selector.chosen_available [OF decide_selector r [unfolded that]]
    by (auto simp: list_ex_iff selector_candidate_of_def)
  show ?thesis
    using assms(2) kind r known attempts
    by (auto simp: selectNextRoutingCandidate_def validateEvaluatedCandidates_def validateAttemptFacts_def effects
        split: option.splits if_splits)
qed

text \<open>
  The fallback run of a request: each attempt uses the candidate that was selected after the
  attempts before it; the Provider decides how the attempt ends.
\<close>

inductive routing_run ::
  "(string \<Rightarrow> string \<Rightarrow> int) \<Rightarrow> routing_plan \<Rightarrow> evaluated_candidate list \<Rightarrow> selector_attempt list \<Rightarrow> bool"
  for lc plan cs where
  run_start: "routing_run lc plan cs []"
| run_attempt:
    "routing_run lc plan cs as
       \<Longrightarrow> selectNextRoutingCandidate lc plan cs as = Inr (Some (sa_candidateId a), sel)
       \<Longrightarrow> routing_run lc plan cs (as @ [a])"

lemma select_decides:
  assumes "selectNextRoutingCandidate lc plan cs as = Inr (Some cid, sel)"
    and "getAccessPointSelector (rp_selectorId plan) (rp_selectorBehaviorVersion plan) = Inr kind"
  shows "decide kind lc (map selector_candidate_of cs) as (rp_selectorConfig plan) = Inr (Some cid)"
  using assms
  by (auto simp: selectNextRoutingCandidate_def effects split: sum.splits option.splits if_splits)

lemma routing_run_history:
  assumes "routing_run lc plan cs as"
    and "getAccessPointSelector (rp_selectorId plan) (rp_selectorBehaviorVersion plan) = Inr kind"
  shows "selector_history (\<lambda>cs as. decide kind lc cs as (rp_selectorConfig plan)) (map selector_candidate_of cs) as"
  using assms
  by (induction rule: routing_run.induct) (auto intro: selector_history.intros select_decides)

lemma routing_run_candidates:
  "routing_run lc plan cs as \<Longrightarrow> as \<noteq> [] \<Longrightarrow> map compiled_candidate.truncate cs = rp_candidates plan"
  by (cases rule: routing_run.cases, assumption)
     (auto simp: selectNextRoutingCandidate_def validateEvaluatedCandidates_def effects list_all2_image)

subsection \<open>An example\<close>

definition example_target :: "string \<Rightarrow> string \<Rightarrow> string option \<Rightarrow> string option \<Rightarrow> int \<Rightarrow> graph_target" where
  "example_target k ty ap pm pos =
     \<lparr>gt_id = k, gt_type = ty, gt_targetAccessPointId = ap, gt_targetProviderModelId = pm,
      gt_targetProviderId = None, gt_targetProviderModelName = None, gt_position = pos,
      gt_status = ''enabled'', gt_removedAt = None\<rparr>"

definition example_ap :: "string \<Rightarrow> string \<Rightarrow> string \<Rightarrow> string \<Rightarrow> graph_target list \<Rightarrow> access_point" where
  "example_ap k exposed target rule ts =
     \<lparr>ap_id = k, ap_exposedModel = exposed, ap_targetModel = target, ap_routingRuleId = rule,
      ap_behaviorVersion = 1, ap_configJson = ''{}'', ap_routingRevision = 7, ap_removedAt = None,
      ap_targets = ts\<rparr>"

definition example_graph :: routing_graph where
  "example_graph =
     \<lparr>accessPoints = map_of
        [(''a'', example_ap ''a'' ''m'' ''n'' ''direct''
            [example_target ''e1'' ''access-point'' (Some ''b'') None 0]),
         (''b'', example_ap ''b'' ''n'' ''p'' ''ordered-fallback''
            [example_target ''e3'' ''provider-model'' None (Some ''pm2'') 1,
             example_target ''e2'' ''provider-model'' None (Some ''pm1'') 0])],
      providerModels = map_of
        [(''pm1'', \<lparr>pm_id = ''pm1'', pm_providerId = ''p1'', pm_providerModelName = ''p''\<rparr>),
         (''pm2'', \<lparr>pm_id = ''pm2'', pm_providerId = ''p2'', pm_providerModelName = ''p''\<rparr>)]\<rparr>"

definition example_options :: budget_options where
  "example_options =
     \<lparr>maxVisitedNodes = 2, maxVisitedEdges = 3, maxDecodedConfigBytes = 4, maxEvaluationCandidates = 2,
      deadlineAtMs = None, signalAborted = (\<lambda>_. False), clockMs = (\<lambda>_. 0)\<rparr>"

definition example_budget :: budget where
  "example_budget = \<lparr>b_options = example_options, b_visitedNodeIds = [], b_visitedEdgeIds = [],
     b_decodedConfigBytes = 0, b_evaluatedCandidates = 0, b_checkpoints = 0\<rparr>"

definition example_candidate :: "string \<Rightarrow> string \<Rightarrow> string \<Rightarrow> int \<Rightarrow> compiled_candidate" where
  "example_candidate e p pm pos =
     \<lparr>cc_candidateId = ''b:'' @ e, cc_selectorTargetEdgeId = e, cc_selectorPosition = pos,
      cc_pathTargetEdgeIds = [''e1'', e], cc_accessPointChainIds = [''a'', ''b''],
      cc_routingRevisions = [(''a'', 7), (''b'', 7)], cc_providerId = p, cc_providerModelId = pm,
      cc_providerModelName = ''p''\<rparr>"

definition example_plan :: routing_plan where
  "example_plan =
     \<lparr>rp_entryAccessPointId = ''a'', rp_requestedModel = ''m'', rp_selectorAccessPointId = ''b'',
      rp_selectorId = ''ordered-fallback'', rp_selectorBehaviorVersion = 1,
      rp_selectorConfig = Ordered_config 2 [Connect_error, Timeout, Rate_limited, Upstream_5xx],
      rp_routingRevision = 7,
      rp_candidates = [example_candidate ''e2'' ''p1'' ''pm1'' 0, example_candidate ''e3'' ''p2'' ''pm2'' 1]\<rparr>"

lemma example_compiles_fst:
  "fst (compileRoutingPlan (\<lambda>_ _. 0) example_graph ''a'' ''m'' example_budget) = Inr example_plan"
  by code_simp

lemma example_compiles:
  obtains b where "compileRoutingPlan (\<lambda>_ _. 0) example_graph ''a'' ''m'' example_budget = (Inr example_plan, b)"
  using example_compiles_fst by (metis prod.collapse)

definition example_availability :: availability where
  "example_availability =
     \<lparr>accessPointStatuses = map_of [(''a'', ''enabled''), (''b'', ''enabled'')],
      providerStatuses = map_of [(''p1'', ''disabled''), (''p2'', ''enabled'')],
      providerModelStatuses = map_of [(''pm1'', ''enabled''), (''pm2'', ''enabled'')],
      providerBindingStatuses = map_of [(''p1'', ''ready''), (''p2'', ''ready'')]\<rparr>"

definition example_evaluated :: "evaluated_candidate list" where
  "example_evaluated =
     [compiled_candidate.extend (example_candidate ''e2'' ''p1'' ''pm1'' 0)
        \<lparr>ec_available = False, ec_unavailableReason = Some (Provider_disabled ''p1'')\<rparr>,
      compiled_candidate.extend (example_candidate ''e3'' ''p2'' ''pm2'' 1)
        \<lparr>ec_available = True, ec_unavailableReason = None\<rparr>]"

definition example_evaluation :: evaluated_plan where
  "example_evaluation =
     \<lparr>ep_plan = example_plan, ep_candidates = example_evaluated, ep_selectedCandidateId = Some ''b:e3'',
      ep_selectedCandidate = Some (example_evaluated ! 1)\<rparr>"

lemma example_evaluates_fst:
  "fst (evaluateRouting (\<lambda>_ _. 0) example_plan example_availability [] example_budget) = Inr example_evaluation"
  by code_simp

subsection \<open>Properties\<close>

text \<open>
  C1: a compiled plan starts at the requested AccessPoint, which exposes the requested model; its
  one to four candidates are paths of the graph to a ProviderModel, each hop an enabled target
  whose AccessPoint exposes the model asked for, without repeated AccessPoints, of at most 200
  hops, and with no rule but \<open>direct\<close> before and after the selector.
\<close>

theorem compiled_plan_sound:
  assumes "compileRoutingPlan lc g entryId model b = (Inr plan, b')"
  shows "\<exists>entry. accessPoints g entryId = Some entry \<and> ap_exposedModel entry = model
           \<and> \<not> truthy (ap_removedAt entry) \<and> rp_entryAccessPointId plan = ap_id entry
           \<and> 1 \<le> length (rp_candidates plan) \<and> length (rp_candidates plan) \<le> 4
           \<and> list_all (valid_candidate g entry plan) (rp_candidates plan)"
proof -
  from assms obtain entry path b1 b2 where entry: "accessPoints g entryId = Some entry"
      "\<not> truthy (ap_removedAt entry)" "ap_exposedModel entry = model"
      and path: "wf_selector_path lc g entry path"
      and cs: "straverse (compileCandidate lc g path) (cr_targets (sp_rule path)) b1 = (Inr (rp_candidates plan), b2)"
      and fields: "rp_entryAccessPointId plan = ap_id entry" "rp_selectorAccessPointId plan = ap_id (sp_selector path)"
    by (rule compiled_plan_parts) (metis routing_plan.simps)
  have wf: "wf_rule lc (sp_selector path) (sp_rule path)" using path by (simp add: wf_selector_path_def Let_def)
  have len: "length (rp_candidates plan) = length (cr_targets (sp_rule path))" by (rule straverse_Inr_length [OF cs])
  have "valid_candidate g entry plan c" if "c \<in> set (rp_candidates plan)" for c
  proof -
    from list_all2_memD2 [OF straverse_Inr_nth [OF cs] that] obtain t s1 s2
      where "t \<in> set (cr_targets (sp_rule path))" "compileCandidate lc g path t s1 = (Inr c, s2)" by blast
    then show ?thesis using path fields(2) by (blast intro: compileCandidate_valid)
  qed
  moreover have "1 \<le> length (rp_candidates plan)" "length (rp_candidates plan) \<le> 4"
    using wf_rule_targets(1,2) [OF wf] len by (cases "cr_targets (sp_rule path)"; simp)+
  ultimately show ?thesis using entry fields(1) by (auto simp: list_all_iff)
qed

theorem compiled_plan_sound_witness:
  "\<exists>entry. accessPoints example_graph ''a'' = Some entry
     \<and> list_all (valid_candidate example_graph entry example_plan) (rp_candidates example_plan)"
proof -
  obtain b where "compileRoutingPlan (\<lambda>_ _. 0) example_graph ''a'' ''m'' example_budget = (Inr example_plan, b)"
    by (rule example_compiles)
  from compiled_plan_sound [OF this] show ?thesis by blast
qed

text \<open>
  Whatever graph it is given, compiling a plan ends by returning or by throwing a
  \<open>RelayError\<close>: the loops over the graph terminate, and the target that a compiled rule is read
  for is always there.
\<close>

lemma compile_never_type_error:
  "(case fst (compileRoutingPlan lc g entryId model b) of Inr _ \<Rightarrow> True | Inl e \<Rightarrow> is_relay e)"
proof (cases "compileRoutingPlan lc g entryId model b")
  case (Pair r b')
  then show ?thesis using relay_onlyD [OF compileRoutingPlan_relay] by (cases r) auto
qed

text \<open>
  C23: the work of compiling and evaluating stays within the budget: when both return, no counter
  exceeds its limit; when one throws, at most one AccessPoint, one target and one candidate
  more than allowed was visited.
\<close>

theorem routing_work_bounded:
  assumes "new_budget opts = Inr b0" and "compileRoutingPlan lc g entryId model b0 = (r, b1)"
    and "r = Inr plan \<Longrightarrow> evaluateRouting lc plan av attempts b1 = (r2, b2)"
  shows "just_over_budget opts b1 \<and> (r = Inr plan \<longrightarrow> within_budget opts b1 \<and> just_over_budget opts b2)
    \<and> (\<forall>ev. r = Inr plan \<and> r2 = Inr ev \<longrightarrow> within_budget opts b2)"
proof -
  have start: "within_budget opts b0"
    using assms(1) by (auto simp: new_budget_def within_budget_def split: if_splits)
  show ?thesis
  proof (cases r)
    case (Inl e)
    with assms(2) guarded_InlD [OF compileRoutingPlan_budgeted start] show ?thesis by auto
  next
    case (Inr p)
    with assms(2) guarded_InrD [OF compileRoutingPlan_budgeted start] have b1: "within_budget opts b1" by auto
    show ?thesis
    proof (cases "p = plan")
      case True
      with assms(3) Inr have run: "evaluateRouting lc plan av attempts b1 = (r2, b2)" by simp
      show ?thesis
      proof (cases r2)
        case (Inl e)
        with run b1 guarded_InlD [OF evaluateRouting_budgeted b1] show ?thesis by (auto intro: within_just_over)
      next
        case (Inr ev)
        with run b1 guarded_InrD [OF evaluateRouting_budgeted b1] show ?thesis by (auto intro: within_just_over)
      qed
    next
      case False
      with Inr b1 show ?thesis by (auto intro: within_just_over)
    qed
  qed
qed

theorem routing_work_bounded_witness:
  "within_budget example_options (snd (compileRoutingPlan (\<lambda>_ _. 0) example_graph ''a'' ''m'' example_budget))"
proof -
  have start: "new_budget example_options = Inr example_budget"
    by (simp add: new_budget_def example_options_def example_budget_def is_safe_int_def MAX_SAFE_INTEGER_def)
  obtain b where run: "compileRoutingPlan (\<lambda>_ _. 0) example_graph ''a'' ''m'' example_budget = (Inr example_plan, b)"
    by (rule example_compiles)
  obtain r2 b2 where "evaluateRouting (\<lambda>_ _. 0) example_plan example_availability [] b = (r2, b2)" by fastforce
  from routing_work_bounded [OF start run this] run show ?thesis by simp
qed

text \<open>
  A plan that compiles does not depend on the locale of the host: with any other
  \<open>localeCompare\<close> the same plan is compiled, with the same budget spent.
\<close>

lemma compile_locale_independent:
  assumes "compileRoutingPlan lc g entryId model b = (Inr plan, b')"
  shows "compileRoutingPlan lc' g entryId model b = (Inr plan, b')"
  using compileRoutingPlan_same assms unfolding same_on_success_def by blast

lemma compile_locale_independent_example:
  "fst (compileRoutingPlan (\<lambda>l r. int (length l) - int (length r)) example_graph ''a'' ''m'' example_budget) = Inr example_plan"
proof -
  obtain b where "compileRoutingPlan (\<lambda>_ _. 0) example_graph ''a'' ''m'' example_budget = (Inr example_plan, b)"
    by (rule example_compiles)
  from compile_locale_independent [OF this] show ?thesis by simp
qed

text \<open>
  C29: every attempt that a request makes through a compiled plan is on a candidate of the plan that was
  evaluated as available, never two of them on one candidate, so there are at most as many as there
  are available candidates, and at most four.
\<close>

theorem routing_run_bounded:
  assumes "compileRoutingPlan lc g entryId model b = (Inr plan, b')" and "routing_run lc' plan cs as"
  shows "(\<forall>a \<in> set as. \<exists>c \<in> set cs. cc_candidateId c = sa_candidateId a \<and> ec_available c
        \<and> compiled_candidate.truncate c \<in> set (rp_candidates plan))
    \<and> distinct (map sa_candidateId as) \<and> length as \<le> length (filter ec_available cs) \<and> length as \<le> 4"
proof (cases "as = []")
  case False
  obtain kind where kind: "getAccessPointSelector (rp_selectorId plan) (rp_selectorBehaviorVersion plan) = Inr kind"
      and wf: "wf_selector_config kind (int (length (rp_candidates plan))) (rp_selectorConfig plan)"
    using plan_config [OF assms(1)] .
  note history = routing_run_history [OF assms(2) kind] and contract = decide_selector [of kind lc' "rp_selectorConfig plan"]
  have "length as \<le> length (filter sc_available (map selector_candidate_of cs))"
    by (rule selector.history_bounded [OF contract history])
  also have "\<dots> = length (filter ec_available cs)"
    by (simp add: filter_map comp_def selector_candidate_of_def)
  finally have bound: "length as \<le> length (filter ec_available cs)" .
  have same: "map compiled_candidate.truncate cs = rp_candidates plan" by (rule routing_run_candidates [OF assms(2) False])
  then have "length cs = length (rp_candidates plan)" by (metis length_map)
  with wf_selector_config_targets [OF wf] have "length (filter ec_available cs) \<le> 4"
    using length_filter_le [of ec_available cs] by linarith
  moreover have "\<exists>c \<in> set cs. cc_candidateId c = sa_candidateId a \<and> ec_available c
      \<and> compiled_candidate.truncate c \<in> set (rp_candidates plan)" if "a \<in> set as" for a
    using selector.history_available [OF contract history] that
    by (fastforce simp: selector_candidate_of_def same [symmetric])
  ultimately show ?thesis using bound selector.history_distinct [OF contract history] by simp
qed simp

theorem routing_run_bounded_witness:
  "routing_run (\<lambda>_ _. 0) example_plan example_evaluated [example_attempt\<lparr>sa_candidateId := ''b:e3''\<rparr>]
    \<and> (\<exists>c \<in> set example_evaluated. cc_candidateId c = ''b:e3'' \<and> ec_available c
         \<and> compiled_candidate.truncate c \<in> set (rp_candidates example_plan))
    \<and> length [example_attempt\<lparr>sa_candidateId := ''b:e3''\<rparr>] \<le> length (filter ec_available example_evaluated)"
proof -
  obtain b where compiled: "compileRoutingPlan (\<lambda>_ _. 0) example_graph ''a'' ''m'' example_budget = (Inr example_plan, b)"
    by (rule example_compiles)
  have "selectNextRoutingCandidate (\<lambda>_ _. 0) example_plan example_evaluated []
          = Inr (Some ''b:e3'', Some (example_evaluated ! 1))"
    by code_simp
  then have "routing_run (\<lambda>_ _. 0) example_plan example_evaluated ([] @ [example_attempt\<lparr>sa_candidateId := ''b:e3''\<rparr>])"
    by (intro run_attempt [OF run_start]) simp
  then have run: "routing_run (\<lambda>_ _. 0) example_plan example_evaluated [example_attempt\<lparr>sa_candidateId := ''b:e3''\<rparr>]" by simp
  from routing_run_bounded [OF compiled run] run show ?thesis by simp
qed

text \<open>
  For a compiled plan the rule always decides: asking for the next candidate throws only
  when the evaluated candidates or the attempts do not belong to the plan.
\<close>

lemma selection_throws_only_on_foreign_facts:
  assumes "compileRoutingPlan lc g entryId model b = (Inr plan, b')"
    and "selectNextRoutingCandidate lc' plan cs attempts = Inl e"
  shows "error_code e \<in> {''routing_evaluated_candidates_invalid'', ''routing_attempt_facts_invalid''}"
  using assms by (rule select_error)

lemma selection_throws_only_on_foreign_facts_example:
  "error_code (RelayError ''routing_evaluated_candidates_invalid'' 500 [])
     \<in> {''routing_evaluated_candidates_invalid'', ''routing_attempt_facts_invalid''}"
proof -
  obtain b where compiled: "compileRoutingPlan (\<lambda>_ _. 0) example_graph ''a'' ''m'' example_budget = (Inr example_plan, b)"
    by (rule example_compiles)
  have "selectNextRoutingCandidate (\<lambda>_ _. 0) example_plan [] [] = relay ''routing_evaluated_candidates_invalid'' 500"
    by code_simp
  from selection_throws_only_on_foreign_facts [OF compiled this] show ?thesis .
qed

text \<open>
  An evaluated candidate is available exactly when every AccessPoint of its path, its
  Provider and its ProviderModel are enabled and the Provider binding is ready; and the candidate
  that is selected is available and was not attempted before.
\<close>

lemma evaluation_selects_available:
  assumes "evaluateRouting lc plan av attempts b = (Inr ev, b')"
    and "distinct (map cc_candidateId (rp_candidates plan))"
  shows "list_all2 (\<lambda>c e. compiled_candidate.truncate e = c \<and> (ec_available e \<longleftrightarrow> fully_available av c))
           (rp_candidates plan) (ep_candidates ev)
    \<and> (case ep_selectedCandidateId ev of
          None \<Rightarrow> True
        | Some cid \<Rightarrow> \<exists>c. c \<in> set (ep_candidates ev) \<and> ep_selectedCandidate ev = Some c \<and> cc_candidateId c = cid
            \<and> fully_available av c \<and> cid \<notin> set (map sa_candidateId attempts))"
proof -
  from evaluateRouting_parts [OF assms(1)]
  have each: "list_all2 (evaluates_to av) (rp_candidates plan) (ep_candidates ev)"
    and sel: "selectNextRoutingCandidate lc plan (ep_candidates ev) attempts
           = Inr (ep_selectedCandidateId ev, ep_selectedCandidate ev)" by blast+
  have avail: "ec_available c \<longleftrightarrow> fully_available av c" if "c \<in> set (ep_candidates ev)" for c
    using list_all2_memD2 [OF each that] by (auto simp: evaluates_to_def)
  have "list_all2 (\<lambda>c e. compiled_candidate.truncate e = c \<and> (ec_available e \<longleftrightarrow> fully_available av c))
           (rp_candidates plan) (ep_candidates ev)"
    using each by (rule list_all2_mono) (simp add: evaluates_to_def)
  moreover have "\<exists>c. c \<in> set (ep_candidates ev) \<and> ep_selectedCandidate ev = Some c \<and> cc_candidateId c = cid
            \<and> fully_available av c \<and> cid \<notin> set (map sa_candidateId attempts)"
    if "ep_selectedCandidateId ev = Some cid" for cid
    using selected_candidate [OF sel [unfolded that] assms(2)] avail by metis
  ultimately show ?thesis by (simp split: option.splits)
qed

lemma evaluation_selects_available_example:
  "\<exists>c. ep_selectedCandidate example_evaluation = Some c \<and> fully_available example_availability c"
proof -
  obtain b where run: "evaluateRouting (\<lambda>_ _. 0) example_plan example_availability [] example_budget = (Inr example_evaluation, b)"
    using example_evaluates_fst by (metis prod.collapse)
  have "distinct (map cc_candidateId (rp_candidates example_plan))"
    by (simp add: example_plan_def example_candidate_def)
  from evaluation_selects_available [OF run this] show ?thesis
    by (auto simp: example_evaluation_def)
qed

end
