(* ===== verification/Provider_Evidence.thy ===== *)
theory Provider_Evidence
  imports Core_Selectors
begin

section \<open>Provider evidence\<close>

text \<open>
  \<open>packages/provider-runtime/src/index.ts\<close>: what a Provider reports about an attempt (whether cost
  is accruing, whether final usage is known, why it failed) is untrusted JSON. The parsers accept
  only consistent reports; a report that is malformed becomes the unresolved one, with cost
  accruing and usage pending, so that it is reconciled and never released.
\<close>

datatype cost_exposure = Not_started | Accruing | Stopped

datatype usage_evidence = Absent_usage | Pending_usage | Final_usage

datatype usage_source = Provider_source | Response_source

record provider_usage =
  pu_inputTokens :: int
  pu_cachedInputTokens :: int
  pu_cacheWriteTokens :: int
  pu_outputTokens :: int
  pu_totalTokens :: int
  pu_source :: usage_source

text \<open>\<open>CpaBasicEvidenceEnvelopeV1\<close>, \<open>ProviderExecutionEvidenceV1\<close>, \<open>ProviderAttemptFailureV1\<close>;
  contract and version are constants of the type. The parser checks the text of the failure class
  of a failure but keeps the value itself, so that field is a JSON value.\<close>

record evidence_envelope =
  ee_providerAttemptRef :: string
  ee_costExposure :: cost_exposure
  ee_finalUsageEvidence :: usage_evidence
  ee_failureClass :: "provider_failure_class option"
  ee_trustedUsage :: "provider_usage option"
  ee_serviceTier :: "string option"

record execution_evidence =
  xe_costExposure :: cost_exposure
  xe_finalUsageEvidence :: usage_evidence
  xe_trustedUsage :: "provider_usage option"

record attempt_failure =
  af_failureClass :: jsval
  af_failureReason :: "credential_failure_reason option"
  af_costExposure :: cost_exposure
  af_finalUsageEvidence :: usage_evidence
  af_trustedUsage :: "provider_usage option"

subsection \<open>The words of the contract\<close>

text \<open>
  \<open>String(value) === word\<close>, for words of letters, digits and underscores that start with a letter and are no literal of
  the language: strings by their text, an array of one element by the text of the element; no
  number, boolean, object or longer array has such a text.
\<close>

fun js_text_is :: "string \<Rightarrow> jsval \<Rightarrow> bool" where
  "js_text_is w (JStr s) = (s = w)"
| "js_text_is w (JArr [v]) = js_text_is w v"
| "js_text_is w _ = False"

fun exposure_text :: "cost_exposure \<Rightarrow> string" where
  "exposure_text Not_started = ''not_started''"
| "exposure_text Accruing = ''accruing''"
| "exposure_text Stopped = ''stopped''"

fun evidence_text :: "usage_evidence \<Rightarrow> string" where
  "evidence_text Absent_usage = ''absent''"
| "evidence_text Pending_usage = ''pending''"
| "evidence_text Final_usage = ''final''"

fun source_text :: "usage_source \<Rightarrow> string" where
  "source_text Provider_source = ''provider''"
| "source_text Response_source = ''response''"

text \<open>\<open>String(value ?? default)\<close> as one of the listed words.\<close>

definition is_nullish :: "jsval \<Rightarrow> bool" where
  "is_nullish v \<longleftrightarrow> v = JUndefined \<or> v = JNull"

definition word_of :: "('a \<Rightarrow> string) \<Rightarrow> 'a list \<Rightarrow> 'a option \<Rightarrow> jsval \<Rightarrow> 'a option" where
  "word_of txt ws dflt v = (if is_nullish v then dflt else List.find (\<lambda>w. js_text_is (txt w) v) ws)"

definition exposure_of :: "cost_exposure option \<Rightarrow> jsval \<Rightarrow> cost_exposure option" where
  "exposure_of = word_of exposure_text [Not_started, Accruing, Stopped]"

definition evidence_of :: "usage_evidence option \<Rightarrow> jsval \<Rightarrow> usage_evidence option" where
  "evidence_of = word_of evidence_text [Absent_usage, Pending_usage, Final_usage]"

definition PROVIDER_FAILURE_CLASSES :: "provider_failure_class list" where
  "PROVIDER_FAILURE_CLASSES = [Connect_error, Timeout, Rate_limited, Upstream_5xx, Non_retryable]"

definition failure_class_of :: "jsval \<Rightarrow> provider_failure_class option" where
  "failure_class_of v = List.find (\<lambda>c. v = JStr (failure_class_text c)) PROVIDER_FAILURE_CLASSES"

subsection \<open>Usage\<close>

definition token_of :: "jsval \<Rightarrow> int option" where
  "token_of v = (case safe_int_of v of None \<Rightarrow> None | Some n \<Rightarrow> if n \<ge> 0 then Some n else None)"

definition source_of :: "jsval \<Rightarrow> usage_source option" where
  "source_of v = (if v = JStr ''provider'' then Some Provider_source
                  else if v = JStr ''response'' then Some Response_source else None)"

text \<open>
  \<open>isTrustedProviderUsage\<close>, with the usage it accepts. A sum of two safe integers that is not
  safe itself rounds to a double of at least \<open>2 ^ 53\<close>, above every safe integer, so the two
  comparisons of doubles agree with the comparisons of integers here.
\<close>

definition trusted_usage_of :: "jsval \<Rightarrow> provider_usage option" where
  "trusted_usage_of v =
     (case v of
        JObj usage \<Rightarrow>
          if has_unknown_key [''inputTokens'', ''cachedInputTokens'', ''cacheWriteTokens'', ''outputTokens'',
               ''totalTokens'', ''source''] usage then None
          else obind (source_of (js_get usage ''source'')) (\<lambda>src.
               obind (token_of (js_get usage ''inputTokens'')) (\<lambda>i.
               obind (token_of (js_get usage ''cachedInputTokens'')) (\<lambda>c.
               obind (token_of (js_get usage ''cacheWriteTokens'')) (\<lambda>w.
               obind (token_of (js_get usage ''outputTokens'')) (\<lambda>outp.
               obind (token_of (js_get usage ''totalTokens'')) (\<lambda>tot.
                 if c + w \<le> i \<and> tot = i + outp
                 then Some \<lparr>pu_inputTokens = i, pu_cachedInputTokens = c, pu_cacheWriteTokens = w,
                            pu_outputTokens = outp, pu_totalTokens = tot, pu_source = src\<rparr>
                 else None))))))
      | _ \<Rightarrow> None)"

text \<open>An optional usage field: absent, or a trusted usage.\<close>

definition optional_usage :: "jsval \<Rightarrow> provider_usage option option" where
  "optional_usage v = (if v = JUndefined then Some None else map_option Some (trusted_usage_of v))"

definition inconsistent :: "cost_exposure \<Rightarrow> usage_evidence \<Rightarrow> provider_usage option \<Rightarrow> bool" where
  "inconsistent exposure evidence usage \<longleftrightarrow>
     (evidence = Final_usage) \<noteq> (usage \<noteq> None)
     \<or> (exposure = Not_started \<and> (evidence \<noteq> Absent_usage \<or> usage \<noteq> None))
     \<or> (exposure = Stopped \<and> evidence = Absent_usage)"

subsection \<open>The envelopes of stock CPA\<close>

definition optional_failure_class :: "jsval \<Rightarrow> provider_failure_class option option" where
  "optional_failure_class v = (if v = JUndefined then Some None else map_option Some (failure_class_of v))"

definition optional_service_tier :: "jsval \<Rightarrow> string option option" where
  "optional_service_tier v =
     (case v of
        JUndefined \<Rightarrow> Some None
      | JStr s \<Rightarrow> if length s < 1 \<or> length s > 64 then None else Some (Some s)
      | _ \<Rightarrow> None)"

definition parseCpaBasicEvidenceEnvelope :: "jsval \<Rightarrow> string \<Rightarrow> evidence_envelope option" where
  "parseCpaBasicEvidenceEnvelope v expectedRef =
     (case v of
        JObj record \<Rightarrow>
          if has_unknown_key [''contract'', ''version'', ''providerAttemptRef'', ''costExposure'', ''finalUsageEvidence'',
               ''failureClass'', ''trustedUsage'', ''serviceTier''] record
             \<or> js_get record ''contract'' \<noteq> JStr ''cpa-basic@1'' \<or> js_get record ''version'' \<noteq> jint 1
             \<or> js_get record ''providerAttemptRef'' \<noteq> JStr expectedRef then None
          else obind (exposure_of None (js_get record ''costExposure'')) (\<lambda>exposure.
               obind (evidence_of None (js_get record ''finalUsageEvidence'')) (\<lambda>evidence.
               obind (optional_failure_class (js_get record ''failureClass'')) (\<lambda>fc.
               obind (optional_usage (js_get record ''trustedUsage'')) (\<lambda>usage.
               obind (optional_service_tier (js_get record ''serviceTier'')) (\<lambda>tier.
                 if inconsistent exposure evidence usage \<or> exposure = Accruing \<and> evidence \<noteq> Pending_usage then None
                 else Some \<lparr>ee_providerAttemptRef = expectedRef, ee_costExposure = exposure,
                            ee_finalUsageEvidence = evidence, ee_failureClass = fc,
                            ee_trustedUsage = usage, ee_serviceTier = tier\<rparr>)))))
      | _ \<Rightarrow> None)"

definition parseCpaBasicJsonEnvelope :: "jsval \<Rightarrow> string \<Rightarrow> (jsval \<times> evidence_envelope) option" where
  "parseCpaBasicJsonEnvelope v expectedRef =
     (case v of
        JObj record \<Rightarrow>
          if has_unknown_key [''contract'', ''version'', ''response'', ''evidence''] record
             \<or> js_get record ''contract'' \<noteq> JStr ''cpa-basic-json@1'' \<or> js_get record ''version'' \<noteq> jint 1
             \<or> \<not> js_has record ''response'' then None
          else map_option (\<lambda>e. (js_get record ''response'', e))
                 (parseCpaBasicEvidenceEnvelope (js_get record ''evidence'') expectedRef)
      | _ \<Rightarrow> None)"

definition parseCpaBasicStreamEvidenceEvent :: "jsval \<Rightarrow> string \<Rightarrow> evidence_envelope option" where
  "parseCpaBasicStreamEvidenceEvent v expectedRef =
     (case v of
        JObj record \<Rightarrow>
          if has_unknown_key [''type'', ''envelope''] record \<or> js_get record ''type'' \<noteq> JStr ''cpa.basic.evidence'' then None
          else parseCpaBasicEvidenceEnvelope (js_get record ''envelope'') expectedRef
      | _ \<Rightarrow> None)"

subsection \<open>Evidence and failures of an attempt\<close>

definition unresolvedProviderExecutionEvidence :: execution_evidence where
  "unresolvedProviderExecutionEvidence =
     \<lparr>xe_costExposure = Accruing, xe_finalUsageEvidence = Pending_usage, xe_trustedUsage = None\<rparr>"

definition unresolvedProviderFailure :: "provider_failure_class \<Rightarrow> attempt_failure" where
  "unresolvedProviderFailure fc =
     \<lparr>af_failureClass = JStr (failure_class_text fc), af_failureReason = None, af_costExposure = Accruing,
      af_finalUsageEvidence = Pending_usage, af_trustedUsage = None\<rparr>"

text \<open>The three fields both parsers read the same way: absent exposure is accruing, absent
  evidence is pending.\<close>

definition declared_evidence :: "(string \<times> jsval) list \<Rightarrow> execution_evidence option" where
  "declared_evidence record =
     obind (exposure_of (Some Accruing) (js_get record ''costExposure'')) (\<lambda>exposure.
     obind (evidence_of (Some Pending_usage) (js_get record ''finalUsageEvidence'')) (\<lambda>evidence.
     obind (optional_usage (js_get record ''trustedUsage'')) (\<lambda>usage.
       if inconsistent exposure evidence usage then None
       else Some \<lparr>xe_costExposure = exposure, xe_finalUsageEvidence = evidence, xe_trustedUsage = usage\<rparr>)))"

definition parseProviderExecutionEvidence :: "jsval \<Rightarrow> execution_evidence" where
  "parseProviderExecutionEvidence v =
     (case v of
        JObj record \<Rightarrow>
          if has_unknown_key [''version'', ''costExposure'', ''finalUsageEvidence'', ''trustedUsage''] record
             \<or> js_get record ''version'' \<noteq> jint 1 then unresolvedProviderExecutionEvidence
          else (case declared_evidence record of None \<Rightarrow> unresolvedProviderExecutionEvidence | Some e \<Rightarrow> e)
      | _ \<Rightarrow> unresolvedProviderExecutionEvidence)"

definition parseProviderAttemptFailure :: "jsval \<Rightarrow> attempt_failure option" where
  "parseProviderAttemptFailure v =
     (case v of
        JUndefined \<Rightarrow> None
      | JObj record \<Rightarrow>
          let reason = js_get record ''failureReason''
          in if has_unknown_key [''version'', ''failureClass'', ''failureReason'', ''costExposure'',
                  ''finalUsageEvidence'', ''trustedUsage''] record
                \<or> js_get record ''version'' \<noteq> jint 1
                \<or> \<not> list_ex (\<lambda>c. js_text_is (failure_class_text c) (js_get record ''failureClass'')) PROVIDER_FAILURE_CLASSES
                \<or> (reason \<noteq> JUndefined \<and> credential_failure_reason_of reason = None)
             then Some (unresolvedProviderFailure Non_retryable)
             else (case declared_evidence record of
                     None \<Rightarrow> Some (unresolvedProviderFailure Non_retryable)
                   | Some e \<Rightarrow> Some \<lparr>af_failureClass = js_get record ''failureClass'',
                                     af_failureReason = credential_failure_reason_of reason,
                                     af_costExposure = xe_costExposure e, af_finalUsageEvidence = xe_finalUsageEvidence e,
                                     af_trustedUsage = xe_trustedUsage e\<rparr>)
      | _ \<Rightarrow> Some (unresolvedProviderFailure Non_retryable))"

definition providerFailureFromResponse :: "int \<Rightarrow> jsval \<Rightarrow> attempt_failure" where
  "providerFailureFromResponse status failure =
     (case parseProviderAttemptFailure failure of
        Some f \<Rightarrow> f
      | None \<Rightarrow> unresolvedProviderFailure
          (if status = 429 then Rate_limited else if status \<ge> 500 then Upstream_5xx else Non_retryable))"

subsection \<open>Failures from thrown errors\<close>

text \<open>
  What was thrown: its code (a \<open>RelayError\<close>'s code, another \<open>Error\<close>'s name, else the empty text), its
  status (0 when it is no \<open>RelayError\<close>) and its own properties, when it is an object.
\<close>

record thrown_error =
  te_code :: string
  te_status :: int
  te_properties :: "(string \<times> jsval) list option"

text \<open>Case-insensitive search: \<open>/word/i\<close>, and \<open>/(?:^|_)(?:word)(?:$|_)/i\<close>.\<close>

definition mentions :: "string \<Rightarrow> string \<Rightarrow> bool" where
  "mentions s w = has_sub w (to_lower s)"

definition has_segment :: "string \<Rightarrow> string \<Rightarrow> bool" where
  "has_segment s w = has_sub (''_'' @ w @ ''_'') (''_'' @ to_lower s @ ''_'')"

definition connect_code :: "string \<Rightarrow> bool" where
  "connect_code s = list_ex (mentions s) [''fetch'', ''connect'', ''socket'', ''network'']"

definition thrown_failure_class :: "thrown_error \<Rightarrow> provider_failure_class" where
  "thrown_failure_class err =
     (let reason = (case te_properties err of None \<Rightarrow> JUndefined | Some ps \<Rightarrow> js_get ps ''failureReason'');
          retryableCredential = (reason = JStr ''auth_unavailable'' \<or> reason = JStr ''model_cooldown'');
          retryableServer = (retryableCredential
             \<or> list_ex (has_segment (te_code err)) [''unavailable'', ''upstream_5xx'', ''stream_failed''])
      in if te_status err = 429 then Rate_limited
         else if mentions (te_code err) ''timeout'' then Timeout
         else if connect_code (te_code err) then Connect_error
         else if te_status err \<ge> 500 \<and> retryableServer then Upstream_5xx
         else Non_retryable)"

definition copied :: "(string \<times> jsval) list option \<Rightarrow> string \<Rightarrow> (string \<times> jsval) list" where
  "copied ps k = (case ps of None \<Rightarrow> [] | Some kvs \<Rightarrow> if js_get kvs k = JUndefined then [] else [(k, js_get kvs k)])"

definition providerFailureFromThrown :: "thrown_error \<Rightarrow> attempt_failure" where
  "providerFailureFromThrown err =
     (let fc = thrown_failure_class err; ps = te_properties err;
          reason = (if credential_failure_reason_of (JStr (te_code err)) \<noteq> None
                    then [(''failureReason'', JStr (te_code err))] else copied ps ''failureReason'')
      in case parseProviderAttemptFailure (JObj
                ([(''version'', jint 1), (''failureClass'', JStr (failure_class_text fc))] @ reason
                 @ copied ps ''costExposure'' @ copied ps ''finalUsageEvidence'' @ copied ps ''trustedUsage'')) of
           Some f \<Rightarrow> f
         | None \<Rightarrow> unresolvedProviderFailure fc)"

text \<open>\<open>/rate.?limit/i\<close>: the optional character is not a line terminator.\<close>

definition mentions_rate_limit :: "string \<Rightarrow> bool" where
  "mentions_rate_limit s =
     list_ex (\<lambda>t. prefix ''ratelimit'' t
                \<or> (prefix ''rate'' t \<and> length t > 4 \<and> t ! 4 \<noteq> CHR 0x0A \<and> t ! 4 \<noteq> CHR 0x0D \<and> prefix ''limit'' (drop 5 t)))
       (suffixes (to_lower s))"

text \<open>A diagnostic is its cause code and whether it is retryable; it may be missing.\<close>

definition failureClassFromProviderError :: "string \<Rightarrow> (string option \<times> bool) option \<Rightarrow> provider_failure_class" where
  "failureClassFromProviderError code diagnostic =
     (if mentions_rate_limit code then Rate_limited
      else if list_ex (mentions code) [''timeout'', ''lifetime'', ''idle'']
              \<or> (case diagnostic of None \<Rightarrow> False | Some (cause, _) \<Rightarrow> cause = Some ''TIMEOUT'') then Timeout
      else if connect_code code then Connect_error
      else if (case diagnostic of None \<Rightarrow> False | Some (_, retryable) \<Rightarrow> retryable) then Upstream_5xx
      else Non_retryable)"

subsection \<open>Consistent evidence\<close>

definition wf_usage :: "provider_usage \<Rightarrow> bool" where
  "wf_usage u \<longleftrightarrow>
     list_all (\<lambda>n. 0 \<le> n \<and> is_safe_int n)
       [pu_inputTokens u, pu_cachedInputTokens u, pu_cacheWriteTokens u, pu_outputTokens u, pu_totalTokens u]
     \<and> pu_cachedInputTokens u + pu_cacheWriteTokens u \<le> pu_inputTokens u
     \<and> pu_totalTokens u = pu_inputTokens u + pu_outputTokens u"

definition consistent :: "cost_exposure \<Rightarrow> usage_evidence \<Rightarrow> provider_usage option \<Rightarrow> bool" where
  "consistent exposure evidence usage \<longleftrightarrow>
     (usage \<noteq> None \<longleftrightarrow> evidence = Final_usage)
     \<and> (exposure = Not_started \<longrightarrow> evidence = Absent_usage)
     \<and> (exposure = Stopped \<longrightarrow> evidence \<noteq> Absent_usage)
     \<and> (case usage of None \<Rightarrow> True | Some u \<Rightarrow> wf_usage u)"

lemma token_of_Some: "token_of v = Some n \<longleftrightarrow> v = jint n \<and> 0 \<le> n \<and> is_safe_int n"
  by (auto simp: token_of_def split: option.splits if_splits dest: safe_int_of_SomeD)

lemma trusted_usage_wf: "trusted_usage_of v = Some u \<Longrightarrow> wf_usage u"
  by (cases v) (auto simp: trusted_usage_of_def wf_usage_def bind_eq_Some_conv token_of_Some split: if_splits)

lemma optional_usage_wf: "optional_usage v = Some (Some u) \<Longrightarrow> wf_usage u"
  by (auto simp: optional_usage_def trusted_usage_wf split: if_splits)

lemma consistentI:
  "\<not> inconsistent exposure evidence usage \<Longrightarrow> optional_usage v = Some usage \<Longrightarrow> consistent exposure evidence usage"
  by (auto simp: inconsistent_def consistent_def optional_usage_wf split: option.splits)

lemma declared_evidence_consistent:
  "declared_evidence kvs = Some e \<Longrightarrow>
     consistent (xe_costExposure e) (xe_finalUsageEvidence e) (xe_trustedUsage e)"
  by (auto simp: declared_evidence_def bind_eq_Some_conv split: if_splits intro: consistentI)

lemma unresolved_consistent: "consistent Accruing Pending_usage None"
  by (simp add: consistent_def)

lemma execution_evidence_consistent:
  "consistent (xe_costExposure (parseProviderExecutionEvidence v))
     (xe_finalUsageEvidence (parseProviderExecutionEvidence v)) (xe_trustedUsage (parseProviderExecutionEvidence v))"
  using declared_evidence_consistent
  by (auto simp: parseProviderExecutionEvidence_def unresolvedProviderExecutionEvidence_def unresolved_consistent
      split: jsval.splits option.splits)

lemma attempt_failure_consistent:
  "parseProviderAttemptFailure v = Some f \<Longrightarrow>
     consistent (af_costExposure f) (af_finalUsageEvidence f) (af_trustedUsage f)"
  using declared_evidence_consistent
  by (auto simp: parseProviderAttemptFailure_def unresolvedProviderFailure_def unresolved_consistent Let_def
      split: jsval.splits option.splits if_splits)

lemma envelope_consistent:
  "parseCpaBasicEvidenceEnvelope v r = Some e \<Longrightarrow>
     consistent (ee_costExposure e) (ee_finalUsageEvidence e) (ee_trustedUsage e)
     \<and> (ee_costExposure e = Accruing \<longrightarrow> ee_finalUsageEvidence e = Pending_usage)
     \<and> ee_providerAttemptRef e = r"
  by (auto simp: parseCpaBasicEvidenceEnvelope_def bind_eq_Some_conv split: jsval.splits if_splits intro: consistentI)

subsection \<open>Evidence as JSON, and back\<close>

definition usage_value :: "provider_usage \<Rightarrow> jsval" where
  "usage_value u = JObj
     [(''inputTokens'', jint (pu_inputTokens u)), (''cachedInputTokens'', jint (pu_cachedInputTokens u)),
      (''cacheWriteTokens'', jint (pu_cacheWriteTokens u)), (''outputTokens'', jint (pu_outputTokens u)),
      (''totalTokens'', jint (pu_totalTokens u)), (''source'', JStr (source_text (pu_source u)))]"

definition optional_member :: "string \<Rightarrow> jsval option \<Rightarrow> (string \<times> jsval) list" where
  "optional_member k v = (case v of None \<Rightarrow> [] | Some x \<Rightarrow> [(k, x)])"

definition evidence_members :: "cost_exposure \<Rightarrow> usage_evidence \<Rightarrow> provider_usage option \<Rightarrow> (string \<times> jsval) list" where
  "evidence_members exposure evidence usage =
     [(''costExposure'', JStr (exposure_text exposure)), (''finalUsageEvidence'', JStr (evidence_text evidence))]
     @ optional_member ''trustedUsage'' (map_option usage_value usage)"

definition execution_evidence_value :: "execution_evidence \<Rightarrow> jsval" where
  "execution_evidence_value e = JObj
     ((''version'', jint 1) # evidence_members (xe_costExposure e) (xe_finalUsageEvidence e) (xe_trustedUsage e))"

definition envelope_value :: "evidence_envelope \<Rightarrow> jsval" where
  "envelope_value e = JObj
     ([(''contract'', JStr ''cpa-basic@1''), (''version'', jint 1), (''providerAttemptRef'', JStr (ee_providerAttemptRef e))]
      @ evidence_members (ee_costExposure e) (ee_finalUsageEvidence e) (ee_trustedUsage e)
      @ optional_member ''failureClass'' (map_option (\<lambda>c. JStr (failure_class_text c)) (ee_failureClass e))
      @ optional_member ''serviceTier'' (map_option JStr (ee_serviceTier e)))"

lemma source_of_text [simp]: "source_of (JStr (source_text s)) = Some s"
  by (cases s) (simp_all add: source_of_def)

lemma exposure_of_text [simp]: "exposure_of d (JStr (exposure_text x)) = Some x"
  by (cases x) (simp_all add: exposure_of_def word_of_def is_nullish_def)

lemma evidence_of_text [simp]: "evidence_of d (JStr (evidence_text x)) = Some x"
  by (cases x) (simp_all add: evidence_of_def word_of_def is_nullish_def)

lemma failure_class_of_text [simp]: "failure_class_of (JStr (failure_class_text c)) = Some c"
  by (cases c) (simp_all add: failure_class_of_def PROVIDER_FAILURE_CLASSES_def)

lemma token_of_jint: "0 \<le> n \<Longrightarrow> is_safe_int n \<Longrightarrow> token_of (jint n) = Some n"
  by (simp add: token_of_Some)

lemma trusted_usage_value: "wf_usage u \<Longrightarrow> trusted_usage_of (usage_value u) = Some u"
proof -
  assume wf: "wf_usage u"
  then have tokens: "token_of (jint (pu_inputTokens u)) = Some (pu_inputTokens u)"
      "token_of (jint (pu_cachedInputTokens u)) = Some (pu_cachedInputTokens u)"
      "token_of (jint (pu_cacheWriteTokens u)) = Some (pu_cacheWriteTokens u)"
      "token_of (jint (pu_outputTokens u)) = Some (pu_outputTokens u)"
      "token_of (jint (pu_totalTokens u)) = Some (pu_totalTokens u)"
    by (auto simp: wf_usage_def intro!: token_of_jint simp del: of_int_add)
  have sums: "pu_cachedInputTokens u + pu_cacheWriteTokens u \<le> pu_inputTokens u"
      "pu_inputTokens u + pu_outputTokens u = pu_totalTokens u"
    using wf by (simp_all add: wf_usage_def)
  show ?thesis
    by (simp add: usage_value_def trusted_usage_of_def has_unknown_key_def tokens sums)
qed

lemma usage_value_defined [simp]: "usage_value u \<noteq> JUndefined"
  by (simp add: usage_value_def)

lemma not_inconsistent: "consistent x e u \<Longrightarrow> \<not> inconsistent x e u"
  by (auto simp: consistent_def inconsistent_def)

lemma consistent_usage:
  "consistent x e u \<Longrightarrow>
     optional_usage (case u of None \<Rightarrow> JUndefined | Some v \<Rightarrow> usage_value v) = Some u"
  by (cases u) (auto simp: consistent_def optional_usage_def trusted_usage_value)

lemma execution_evidence_value_parse:
  assumes "consistent (xe_costExposure e) (xe_finalUsageEvidence e) (xe_trustedUsage e)"
  shows "parseProviderExecutionEvidence (execution_evidence_value e) = e"
  using consistent_usage [OF assms] not_inconsistent [OF assms]
  by (cases "xe_trustedUsage e")
     (simp_all add: parseProviderExecutionEvidence_def execution_evidence_value_def evidence_members_def
        optional_member_def has_unknown_key_def declared_evidence_def)

definition valid_tier :: "string option \<Rightarrow> bool" where
  "valid_tier tier \<longleftrightarrow> (case tier of None \<Rightarrow> True | Some s \<Rightarrow> 1 \<le> length s \<and> length s \<le> 64)"

lemma optional_tier_value:
  "valid_tier tier \<Longrightarrow> optional_service_tier (case tier of None \<Rightarrow> JUndefined | Some s \<Rightarrow> JStr s) = Some tier"
  by (cases tier) (auto simp: valid_tier_def optional_service_tier_def)

lemma optional_class_value:
  "optional_failure_class (case fc of None \<Rightarrow> JUndefined | Some c \<Rightarrow> JStr (failure_class_text c)) = Some fc"
  by (cases fc) (auto simp: optional_failure_class_def)

lemma envelope_value_parse:
  assumes "consistent (ee_costExposure e) (ee_finalUsageEvidence e) (ee_trustedUsage e)"
    and "ee_costExposure e = Accruing \<longrightarrow> ee_finalUsageEvidence e = Pending_usage" and "valid_tier (ee_serviceTier e)"
  shows "parseCpaBasicEvidenceEnvelope (envelope_value e) (ee_providerAttemptRef e) = Some e"
  using assms(2) consistent_usage [OF assms(1)] not_inconsistent [OF assms(1)] optional_tier_value [OF assms(3)]
    optional_class_value [of "ee_failureClass e"]
  by (cases "ee_trustedUsage e"; cases "ee_failureClass e"; cases "ee_serviceTier e")
     (simp_all add: parseCpaBasicEvidenceEnvelope_def envelope_value_def evidence_members_def
        optional_member_def has_unknown_key_def)

subsection \<open>Properties\<close>

text \<open>
  C31: whatever value a Provider sends, the evidence that is read from it is consistent: usage is
  known exactly when it is final, a request that was not started has no usage evidence, stopped
  cost has pending or final usage, token counts are non-negative and add up; an envelope
  of stock CPA with accruing cost has pending usage and names the expected attempt.
\<close>

theorem evidence_always_consistent:
  "(let e = parseProviderExecutionEvidence v
    in consistent (xe_costExposure e) (xe_finalUsageEvidence e) (xe_trustedUsage e))
   \<and> (case parseProviderAttemptFailure v of
        None \<Rightarrow> v = JUndefined
      | Some f \<Rightarrow> consistent (af_costExposure f) (af_finalUsageEvidence f) (af_trustedUsage f))
   \<and> (case parseCpaBasicEvidenceEnvelope v r of
        None \<Rightarrow> True
      | Some e \<Rightarrow> consistent (ee_costExposure e) (ee_finalUsageEvidence e) (ee_trustedUsage e)
          \<and> (if ee_costExposure e = Accruing then ee_finalUsageEvidence e = Pending_usage else True)
          \<and> ee_providerAttemptRef e = r)"
proof -
  have "parseProviderAttemptFailure v = None \<Longrightarrow> v = JUndefined"
    by (cases v) (auto simp: parseProviderAttemptFailure_def Let_def split: if_splits option.splits)
  then show ?thesis
    using execution_evidence_consistent [of v] attempt_failure_consistent [of v] envelope_consistent [of v r]
    by (auto simp: Let_def split: option.splits)
qed

text \<open>
  Evidence written as JSON is read back unchanged, as execution evidence and as the envelope
  of the attempt it names.
\<close>

lemma evidence_roundtrip:
  assumes "consistent exposure evidence usage" and "valid_tier tier"
    and "exposure = Accruing \<Longrightarrow> evidence = Pending_usage"
  shows "parseProviderExecutionEvidence (execution_evidence_value
             \<lparr>xe_costExposure = exposure, xe_finalUsageEvidence = evidence, xe_trustedUsage = usage\<rparr>)
           = \<lparr>xe_costExposure = exposure, xe_finalUsageEvidence = evidence, xe_trustedUsage = usage\<rparr>
    \<and> parseCpaBasicEvidenceEnvelope (envelope_value
             \<lparr>ee_providerAttemptRef = r, ee_costExposure = exposure, ee_finalUsageEvidence = evidence,
              ee_failureClass = fc, ee_trustedUsage = usage, ee_serviceTier = tier\<rparr>) r
           = Some \<lparr>ee_providerAttemptRef = r, ee_costExposure = exposure, ee_finalUsageEvidence = evidence,
              ee_failureClass = fc, ee_trustedUsage = usage, ee_serviceTier = tier\<rparr>"
proof
  show "parseProviderExecutionEvidence (execution_evidence_value
             \<lparr>xe_costExposure = exposure, xe_finalUsageEvidence = evidence, xe_trustedUsage = usage\<rparr>)
           = \<lparr>xe_costExposure = exposure, xe_finalUsageEvidence = evidence, xe_trustedUsage = usage\<rparr>"
    using assms(1) by (intro execution_evidence_value_parse) simp
  show "parseCpaBasicEvidenceEnvelope (envelope_value
             \<lparr>ee_providerAttemptRef = r, ee_costExposure = exposure, ee_finalUsageEvidence = evidence,
              ee_failureClass = fc, ee_trustedUsage = usage, ee_serviceTier = tier\<rparr>) r
           = Some \<lparr>ee_providerAttemptRef = r, ee_costExposure = exposure, ee_finalUsageEvidence = evidence,
              ee_failureClass = fc, ee_trustedUsage = usage, ee_serviceTier = tier\<rparr>"
    using envelope_value_parse [of "\<lparr>ee_providerAttemptRef = r, ee_costExposure = exposure,
        ee_finalUsageEvidence = evidence, ee_failureClass = fc, ee_trustedUsage = usage, ee_serviceTier = tier\<rparr>"] assms
    by simp
qed

definition example_provider_usage :: provider_usage where
  "example_provider_usage = \<lparr>pu_inputTokens = 10, pu_cachedInputTokens = 4, pu_cacheWriteTokens = 6,
     pu_outputTokens = 5, pu_totalTokens = 15, pu_source = Provider_source\<rparr>"

lemma evidence_roundtrip_example:
  "parseProviderExecutionEvidence (execution_evidence_value
     \<lparr>xe_costExposure = Stopped, xe_finalUsageEvidence = Final_usage, xe_trustedUsage = Some example_provider_usage\<rparr>)
   = \<lparr>xe_costExposure = Stopped, xe_finalUsageEvidence = Final_usage, xe_trustedUsage = Some example_provider_usage\<rparr>"
proof -
  have "consistent Stopped Final_usage (Some example_provider_usage)"
    by (simp add: consistent_def wf_usage_def example_provider_usage_def is_safe_int_def MAX_SAFE_INTEGER_def)
  from evidence_roundtrip [OF this, of None] show ?thesis by (simp add: valid_tier_def)
qed

text \<open>
  The parser of failures takes a one-element array for the failure class it contains and
  keeps the array: the class of the result is then none of the five classes.
\<close>

lemma failure_class_can_be_array:
  "\<exists>v f. parseProviderAttemptFailure v = Some f \<and> af_failureClass f = JArr [JStr ''timeout'']
     \<and> failure_class_of (af_failureClass f) = None"
proof -
  let ?v = "JObj [(''version'', jint 1), (''failureClass'', JArr [JStr ''timeout''])]"
  have "parseProviderAttemptFailure ?v = Some \<lparr>af_failureClass = JArr [JStr ''timeout''], af_failureReason = None,
      af_costExposure = Accruing, af_finalUsageEvidence = Pending_usage, af_trustedUsage = None\<rparr>"
    by (simp add: parseProviderAttemptFailure_def has_unknown_key_def PROVIDER_FAILURE_CLASSES_def
        credential_failure_reason_of_def PROVIDER_CREDENTIAL_FAILURE_REASONS_def declared_evidence_def
        exposure_of_def evidence_of_def word_of_def is_nullish_def optional_usage_def inconsistent_def)
  then show ?thesis
    by (intro exI [of _ ?v] exI conjI, assumption)
       (simp_all add: failure_class_of_def PROVIDER_FAILURE_CLASSES_def)
qed

end
