(* ===== verification/Request_Execution.thy ===== *)
theory Request_Execution
  imports Provider_Evidence Js_Json
begin

section \<open>Request execution\<close>

text \<open>
  \<open>packages/request-execution/src/{domain,contracts,server}.ts\<close>: the execution of a request as rows
  of three tables (executions, their leases, the Provider attempts), and the operations that are
  the only writers of those tables. An operation runs in one transaction: it returns a value and
  the new tables, or throws and leaves the tables as they were. Rows it reads \<open>FOR UPDATE\<close> are
  locked until it ends, so operations on one request do not interleave. Timestamps are
  milliseconds; the ISO texts of the columns are ordered the same way up to the year 9999. Of
  the guards in the database (the migrations under \<open>packages/postgres\<close>) the model has the trigger that checks the
  transition of an attempt on an update, and the unique keys; the insert triggers, foreign keys and
  column checks are not part of it.
\<close>

type_synonym timestamp = int

datatype execution_status = Pending_execution | Running_execution | Terminal (terminal_outcome: attempt_outcome)

record execution =
  ex_status :: execution_status
  ex_ownerId :: string
  ex_attemptCount :: int
  ex_outputCommitted :: bool
  ex_terminalErrorCode :: "string option"
  ex_selectedSourceRef :: "string option"
  ex_startedAt :: timestamp
  ex_endedAt :: "timestamp option"

record execution_lease =
  le_ownerId :: string
  le_acquiredAt :: timestamp
  le_heartbeatAt :: timestamp
  le_leaseUntil :: timestamp

record frozen_candidate =
  fc_candidateId :: string
  fc_providerModelId :: string
  fc_providerId :: string
  fc_providerModelName :: string

record frozen_routing =
  fr_selectorAccessPointId :: string
  fr_selectorId :: string
  fr_selectorBehaviorVersion :: int
  fr_routingRevision :: int
  fr_routingRevisions :: "(string \<times> int) list"
  fr_selectorTargetEdgeId :: string
  fr_pathTargetEdgeIds :: "string list"
  fr_accessPointChainIds :: "string list"

text \<open>A command to admit an attempt; the first one of a request names its source.\<close>

record admission_identity =
  ai_requestId :: string
  ai_executionOwnerId :: string
  ai_attemptIndex :: int
  ai_candidate :: frozen_candidate
  ai_routing :: frozen_routing
  ai_selectedSourceRef :: "string option"

text \<open>
  A row of the attempts table. The frozen price and preparation columns, which no operation here
  reads, are one field of named values. The outcome \<open>pending\<close> is \<open>None\<close>.
\<close>

record attempt_row =
  at_id :: string
  at_requestId :: string
  at_attemptIndex :: int
  at_candidate :: frozen_candidate
  at_selectorAccessPointId :: string
  at_selectorId :: string
  at_selectorBehaviorVersion :: int
  at_routingRevision :: int
  at_routingRevisionsJson :: string
  at_selectorTargetEdgeId :: string
  at_pathTargetEdgeIdsJson :: string
  at_accessPointChainIdsJson :: string
  at_outcome :: "attempt_outcome option"
  at_failureClass :: "provider_failure_class option"
  at_failureReason :: "string option"
  at_outputCommitted :: bool
  at_trustedUsageSource :: "usage_source option"
  at_startedAt :: timestamp
  at_endedAt :: "timestamp option"
  at_executionOwnerId :: string
  at_admissionLeaseUntil :: timestamp
  at_costExposure :: cost_exposure
  at_finalUsageEvidence :: usage_evidence
  at_usageSettled :: bool
  at_reconciliationReason :: "string option"
  at_invocationContract :: string
  at_frozen :: "(string \<times> jsval) list"

text \<open>The tables; \<open>request_logs\<close> belongs to another package and is only read, for its end time.\<close>

record tables =
  executions :: "string \<Rightarrow> execution option"
  leases :: "string \<Rightarrow> execution_lease option"
  attempts :: "attempt_row list"
  request_logs :: "string \<Rightarrow> timestamp option option"

type_synonym ('s, 'a) tx = "'s \<Rightarrow> ('a \<times> 's) result"
type_synonym 'a transaction = "(tables, 'a) tx"

definition tx_bind :: "('s, 'a) tx \<Rightarrow> ('a \<Rightarrow> ('s, 'b) tx) \<Rightarrow> ('s, 'b) tx" where
  "tx_bind m f db = rbind (m db) (\<lambda>(x, db'). f x db')"

definition tx_return :: "'a \<Rightarrow> ('s, 'a) tx" where
  "tx_return x db = Inr (x, db)"

definition tx_throw :: "js_error \<Rightarrow> ('s, 'a) tx" where
  "tx_throw e db = Inl e"

lemma tx_simps [simp]:
  "(tx_return x db = Inr r) = (r = (x, db))" "tx_return x db \<noteq> Inl e"
  "(tx_throw e db = Inl e') = (e' = e)" "tx_throw e db \<noteq> Inr r"
  by (auto simp: tx_return_def tx_throw_def)

lemma tx_bind_Inr [effects]:
  "tx_bind m f db = Inr r \<longleftrightarrow> (\<exists>x db'. m db = Inr (x, db') \<and> f x db' = Inr r)"
  by (auto simp: tx_bind_def effects)

lemma tx_bind_Inl [effects]:
  "tx_bind m f db = Inl e \<longleftrightarrow> m db = Inl e \<or> (\<exists>x db'. m db = Inr (x, db') \<and> f x db' = Inl e)"
  by (auto simp: tx_bind_def effects)

subsection \<open>Domain rules\<close>

datatype settlement = Release_not_started | Settle_final_usage | Reconcile_usage

datatype stop_reason = Request_cancelled | Output_committed | Evidence_pending

record arbitration =
  ar_settlement :: settlement
  ar_fallbackPermitted :: bool
  ar_stopReason :: "stop_reason option"

definition arbitrateProviderAttemptFailure ::
  "cost_exposure \<Rightarrow> usage_evidence \<Rightarrow> bool \<Rightarrow> bool \<Rightarrow> bool \<Rightarrow> arbitration" where
  "arbitrateProviderAttemptFailure exposure evidence hasTrustedFinalUsage outputCommitted requestCancelled =
     (let release = (exposure = Not_started \<and> evidence = Absent_usage \<and> \<not> hasTrustedFinalUsage);
          settle = (exposure = Stopped \<and> evidence = Final_usage \<and> hasTrustedFinalUsage);
          s = (if release then Release_not_started else if settle then Settle_final_usage else Reconcile_usage);
          stop = (if requestCancelled then Some Request_cancelled
                  else if outputCommitted then Some Output_committed
                  else if s = Reconcile_usage then Some Evidence_pending else None)
      in \<lparr>ar_settlement = s, ar_fallbackPermitted = (stop = None), ar_stopReason = stop\<rparr>)"

definition assertRequestExecutionLeaseFreshForDispatch :: "timestamp \<Rightarrow> timestamp \<Rightarrow> unit result" where
  "assertRequestExecutionLeaseFreshForDispatch leaseUntil checkedAt =
     require (\<not> leaseUntil \<le> checkedAt) (RelayError ''request_execution_lease_lost'' 409 [])"

definition assertProviderAttemptAdmissionIdentity :: "admission_identity \<Rightarrow> unit result" where
  "assertProviderAttemptAdmissionIdentity c =
     (if \<not> is_safe_int (ai_attemptIndex c) \<or> ai_attemptIndex c < 0 then relay ''invalid_provider_attempt'' 400
      else if \<not> is_safe_int (fr_selectorBehaviorVersion (ai_routing c)) \<or> \<not> is_safe_int (fr_routingRevision (ai_routing c))
      then relay ''invalid_provider_attempt'' 400 else Inr ())"

definition providerAttemptFailureClass ::
  "attempt_outcome \<Rightarrow> provider_failure_class option \<Rightarrow> provider_failure_class option" where
  "providerAttemptFailureClass outcome fc =
     (if outcome = Failed then (case fc of None \<Rightarrow> Some Non_retryable | Some c \<Rightarrow> Some c) else None)"

definition assertReconciliationReason :: "string \<Rightarrow> unit result" where
  "assertReconciliationReason reason =
     require (matches_head_tail is_alnum_char (\<lambda>c. is_alnum_char c \<or> c \<in> set ''_.:-'') 191 reason)
       (RelayError ''invalid_provider_reconciliation_reason'' 400 [])"

definition providerAttemptFailureReason :: "attempt_outcome \<Rightarrow> string option \<Rightarrow> string option result" where
  "providerAttemptFailureReason outcome reason =
     (if outcome \<noteq> Failed
      then (if reason \<noteq> None then relay ''provider_attempt_failure_reason_invalid'' 400 else Inr None)
      else (case reason of
              None \<Rightarrow> Inr None
            | Some r \<Rightarrow> if credential_failure_reason_of (JStr r) = None
                        then relay ''provider_attempt_failure_reason_invalid'' 400 else Inr (Some r)))"

fun isTerminalExecutionStatus :: "execution_status option \<Rightarrow> bool" where
  "isTerminalExecutionStatus (Some (Terminal _)) = True"
| "isTerminalExecutionStatus _ = False"

subsection \<open>Reading and writing rows\<close>

definition find_attempt :: "tables \<Rightarrow> string \<Rightarrow> attempt_row option" where
  "find_attempt db ref = List.find (\<lambda>a. at_id a = ref) (attempts db)"

text \<open>The trigger \<open>friday_relay_validate_provider_attempt_terminal\<close>: may \<open>old\<close> become \<open>new\<close>?\<close>

definition attempt_update_allowed :: "attempt_row \<Rightarrow> attempt_row \<Rightarrow> bool" where
  "attempt_update_allowed old new =
     (if at_outcome new = None
      then \<not> (at_outcome old \<noteq> None \<or> at_costExposure old \<noteq> Not_started \<or> at_costExposure new \<noteq> Accruing
              \<or> at_endedAt new \<noteq> None \<or> at_failureClass new \<noteq> None \<or> at_failureReason new \<noteq> None
              \<or> at_trustedUsageSource new \<noteq> None \<or> at_usageSettled new \<or> at_finalUsageEvidence new \<noteq> Pending_usage)
      else \<not> (at_usageSettled old \<or> at_endedAt new = None
              \<or> (at_outcome new = Some Succeeded \<and> (at_failureClass new \<noteq> None \<or> at_failureReason new \<noteq> None))
              \<or> (at_outcome new = Some Failed \<and> at_failureClass new = None)
              \<or> (at_outcome new = Some Aborted \<and> (at_failureClass new \<noteq> None \<or> at_failureReason new \<noteq> None))
              \<or> (at_outcome old \<noteq> None \<and> at_failureReason new \<noteq> at_failureReason old)
              \<or> (\<not> at_usageSettled new \<and> at_finalUsageEvidence new \<noteq> Pending_usage
                  \<and> \<not> (at_invocationContract new = ''cpa-basic@1'' \<and> at_costExposure new = Not_started
                        \<and> at_finalUsageEvidence new = Absent_usage))
              \<or> (at_usageSettled new \<and> (at_costExposure new \<noteq> Stopped \<or> at_finalUsageEvidence new \<noteq> Final_usage
                    \<or> at_trustedUsageSource new = None))))"

definition trigger_error :: js_error where
  "trigger_error = PlainError ''55000''"

definition missing_row :: js_error where
  "missing_row = PlainError ''P2025''"

definition unique_error :: js_error where
  "unique_error = PlainError ''P2002''"

definition update_attempt :: "string \<Rightarrow> (attempt_row \<Rightarrow> attempt_row) \<Rightarrow> unit transaction" where
  "update_attempt ref f db =
     (case find_attempt db ref of
        None \<Rightarrow> Inl missing_row
      | Some old \<Rightarrow>
          if \<not> attempt_update_allowed old (f old) then Inl trigger_error
          else Inr ((), db\<lparr>attempts := map (\<lambda>a. if at_id a = ref then f a else a) (attempts db)\<rparr>))"

definition update_execution :: "string \<Rightarrow> (execution \<Rightarrow> execution) \<Rightarrow> unit transaction" where
  "update_execution rid f db =
     (case executions db rid of
        None \<Rightarrow> Inl missing_row
      | Some e \<Rightarrow> Inr ((), db\<lparr>executions := (executions db)(rid := Some (f e))\<rparr>))"

definition insert_execution :: "string \<Rightarrow> execution \<Rightarrow> unit transaction" where
  "insert_execution rid e db =
     (if executions db rid \<noteq> None then Inl unique_error
      else Inr ((), db\<lparr>executions := (executions db)(rid := Some e)\<rparr>))"

text \<open>The attempts table has three unique keys.\<close>

definition same_key :: "attempt_row \<Rightarrow> attempt_row \<Rightarrow> bool" where
  "same_key a b \<longleftrightarrow>
     at_id a = at_id b
     \<or> at_requestId a = at_requestId b
       \<and> (at_attemptIndex a = at_attemptIndex b \<or> fc_candidateId (at_candidate a) = fc_candidateId (at_candidate b))"

definition create_attempt :: "attempt_row \<Rightarrow> unit transaction" where
  "create_attempt a db =
     (if list_ex (same_key a) (attempts db) then Inl unique_error
      else Inr ((), db\<lparr>attempts := attempts db @ [a]\<rparr>))"


subsection \<open>Leases\<close>

text \<open>The greatest time a \<open>Date\<close> can hold, in milliseconds; beyond it \<open>toISOString\<close> throws.\<close>

definition MAX_DATE :: int where
  "MAX_DATE = 8640000000000000"

definition requestExecutionLeaseUntil :: "timestamp \<Rightarrow> int \<Rightarrow> timestamp result" where
  "requestExecutionLeaseUntil now seconds =
     (if \<not> is_safe_int seconds \<or> seconds < 1 then relay ''request_execution_lease_ttl_invalid'' 500
      else if now + seconds * 1000 > MAX_DATE then plain ''RangeError''
      else Inr (now + seconds * 1000))"

definition acquire_lease :: "timestamp \<Rightarrow> string \<Rightarrow> string \<Rightarrow> int \<Rightarrow> execution_lease transaction" where
  "acquire_lease now rid owner ttl db =
     rbind (requestExecutionLeaseUntil now ttl) (\<lambda>until.
       let new = \<lparr>le_ownerId = owner, le_acquiredAt = now, le_heartbeatAt = now, le_leaseUntil = until\<rparr>;
           free = (case leases db rid of None \<Rightarrow> True | Some l \<Rightarrow> le_ownerId l = owner \<or> le_leaseUntil l \<le> now)
       in if free then Inr (new, db\<lparr>leases := (leases db)(rid := Some new)\<rparr>)
          else relay ''request_execution_lease_conflict'' 409)"

definition renew_lease :: "timestamp \<Rightarrow> string \<Rightarrow> string \<Rightarrow> int \<Rightarrow> execution_lease transaction" where
  "renew_lease now rid owner ttl db =
     rbind (requestExecutionLeaseUntil now ttl) (\<lambda>until.
       case leases db rid of
         None \<Rightarrow> relay ''request_execution_lease_lost'' 409
       | Some l \<Rightarrow>
           if le_ownerId l = owner \<and> le_leaseUntil l > now
           then let new = l\<lparr>le_heartbeatAt := now, le_leaseUntil := until\<rparr>
                in Inr (new, db\<lparr>leases := (leases db)(rid := Some new)\<rparr>)
           else relay ''request_execution_lease_lost'' 409)"

definition release_lease :: "string \<Rightarrow> string \<Rightarrow> bool transaction" where
  "release_lease rid owner db =
     (case leases db rid of
        None \<Rightarrow> Inr (False, db)
      | Some l \<Rightarrow> if le_ownerId l = owner then Inr (True, db\<lparr>leases := (leases db)(rid := None)\<rparr>)
                  else Inr (False, db))"

subsection \<open>The end of an execution\<close>

record completion =
  co_requestId :: string
  co_executionOwnerId :: string
  co_status :: attempt_outcome
  co_terminalErrorCode :: "string option"
  co_outputCommitted :: bool
  co_completedAt :: timestamp

definition terminal_arbiter :: "completion \<Rightarrow> bool \<Rightarrow> unit transaction" where
  "terminal_arbiter c allowMissing db =
     (case executions db (co_requestId c) of
        None \<Rightarrow> if allowMissing then Inr ((), db) else relay ''request_execution_not_found'' 404
      | Some e \<Rightarrow>
          if ex_status e = Running_execution \<or> ex_status e = Pending_execution
          then if ex_ownerId e \<noteq> co_executionOwnerId c then relay ''request_execution_owner_conflict'' 409
               else update_execution (co_requestId c) (\<lambda>x.
                      x\<lparr>ex_status := Terminal (co_status c), ex_terminalErrorCode := co_terminalErrorCode c,
                        ex_outputCommitted := co_outputCommitted c \<or> ex_outputCommitted e,
                        ex_endedAt := Some (co_completedAt c)\<rparr>) db
          else if ex_status e = Terminal (co_status c) \<and> ex_terminalErrorCode e = co_terminalErrorCode c
                  \<and> ex_outputCommitted e = co_outputCommitted c
          then Inr ((), db) else relay ''request_execution_terminal_conflict'' 409)"

definition fail_request_execution :: "string \<Rightarrow> string \<Rightarrow> string \<Rightarrow> timestamp \<Rightarrow> unit transaction" where
  "fail_request_execution rid owner errorCode failedAt db =
     (case executions db rid of
        None \<Rightarrow> Inr ((), db)
      | Some e \<Rightarrow>
          if \<not> (ex_status e = Pending_execution \<or> ex_status e = Running_execution)
          then if ex_status e = Terminal Failed \<and> ex_terminalErrorCode e = Some errorCode \<and> \<not> ex_outputCommitted e
               then Inr ((), db) else relay ''request_execution_terminal_conflict'' 409
          else terminal_arbiter \<lparr>co_requestId = rid, co_executionOwnerId = owner, co_status = Failed,
                 co_terminalErrorCode = Some errorCode, co_outputCommitted = False, co_completedAt = failedAt\<rparr> True db)"

definition complete_request_execution :: "completion \<Rightarrow> unit transaction" where
  "complete_request_execution c = terminal_arbiter c False"

subsection \<open>Dispatch\<close>

record dispatch_decision =
  dd_owned :: bool
  dd_transitionToReconciliation :: bool
  dd_transitionedAt :: timestamp

text \<open>
  The row that the dispatch check reads joins the attempt with its execution and its lease.
\<close>

definition dispatch_row :: "tables \<Rightarrow> string \<Rightarrow> string \<Rightarrow> (attempt_row \<times> execution \<times> execution_lease) option" where
  "dispatch_row db ref rid =
     (case find_attempt db ref of
        None \<Rightarrow> None
      | Some a \<Rightarrow>
          if at_requestId a \<noteq> rid then None
          else (case (executions db rid, leases db rid) of
                  (Some e, Some l) \<Rightarrow> Some (a, e, l)
                | _ \<Rightarrow> None))"

definition assert_dispatch :: "string \<Rightarrow> string \<Rightarrow> string \<Rightarrow> timestamp \<Rightarrow> dispatch_decision transaction" where
  "assert_dispatch ref rid owner checkedAt db =
     (case dispatch_row db ref rid of
        None \<Rightarrow> Inr (\<lparr>dd_owned = False, dd_transitionToReconciliation = False, dd_transitionedAt = checkedAt\<rparr>, db)
      | Some (a, e, l) \<Rightarrow>
          if at_executionOwnerId a = owner \<and> at_outcome a = None \<and> ex_ownerId e = owner
             \<and> ex_status e = Running_execution \<and> le_ownerId l = owner \<and> le_leaseUntil l > checkedAt
             \<and> at_costExposure a = Not_started
          then tx_bind (update_attempt ref (\<lambda>x. x\<lparr>at_costExposure := Accruing\<rparr>)) (\<lambda>_.
                 tx_return \<lparr>dd_owned = True, dd_transitionToReconciliation = False, dd_transitionedAt = checkedAt\<rparr>) db
          else if at_outcome a = None
          then tx_bind (update_attempt ref (\<lambda>x. x\<lparr>at_outcome := Some Failed, at_failureClass := Some Non_retryable,
                          at_endedAt := Some checkedAt, at_costExposure := Accruing,
                          at_finalUsageEvidence := Pending_usage,
                          at_reconciliationReason := Some ''execution_ownership_lost''\<rparr>)) (\<lambda>_.
               tx_bind (terminal_arbiter \<lparr>co_requestId = rid, co_executionOwnerId = ex_ownerId e, co_status = Failed,
                          co_terminalErrorCode = Some ''execution_ownership_lost'',
                          co_outputCommitted = at_outputCommitted a, co_completedAt = checkedAt\<rparr> False) (\<lambda>_.
                 tx_return \<lparr>dd_owned = False, dd_transitionToReconciliation = True, dd_transitionedAt = checkedAt\<rparr>)) db
          else Inr (\<lparr>dd_owned = False, dd_transitionToReconciliation = False, dd_transitionedAt = checkedAt\<rparr>, db))"

subsection \<open>Finalization\<close>

record finalize_command =
  fi_ref :: string
  fi_outcome :: attempt_outcome
  fi_failureClass :: "provider_failure_class option"
  fi_failureReason :: "string option"
  fi_outputCommitted :: bool
  fi_trustedUsageSource :: usage_source
  fi_requestTerminalStatus :: "attempt_outcome option"
  fi_requestTerminalErrorCode :: "string option"

record finalize_decision =
  fd_ref :: string
  fd_requestId :: string
  fd_invocationContract :: string
  fd_startedAt :: timestamp
  fd_expectedFailureClass :: "provider_failure_class option"
  fd_expectedFailureReason :: "string option"
  fd_expectedOutputCommitted :: bool
  fd_alreadyFinalized :: bool

text \<open>The terminal evidence an attempt has, against the evidence a command expects of it.\<close>

definition evidence_conflict ::
  "attempt_row \<Rightarrow> attempt_outcome \<Rightarrow> provider_failure_class option \<Rightarrow> string option \<Rightarrow> bool \<Rightarrow> bool" where
  "evidence_conflict a outcome fc reason committed \<longleftrightarrow>
     at_outcome a \<noteq> None
     \<and> (at_outcome a \<noteq> Some outcome \<or> at_failureClass a \<noteq> fc \<or> at_failureReason a \<noteq> reason
        \<or> at_outputCommitted a \<noteq> committed)"

definition or_else :: "'a option \<Rightarrow> 'a option \<Rightarrow> 'a option" where
  "or_else a b = (case a of None \<Rightarrow> b | Some _ \<Rightarrow> a)"

definition finalize_lock :: "finalize_command \<Rightarrow> bool \<Rightarrow> finalize_decision transaction" where
  "finalize_lock c requireReconciliation db =
     (case find_attempt db (fi_ref c) of
        None \<Rightarrow> relay ''provider_attempt_not_found'' 404
      | Some a \<Rightarrow>
          (case request_logs db (at_requestId a) of
             None \<Rightarrow> relay ''provider_attempt_not_found'' 404
           | Some requestEndedAt \<Rightarrow>
               if at_invocationContract a \<noteq> ''protected@1'' \<and> at_invocationContract a \<noteq> ''cpa-basic@1''
               then relay ''provider_attempt_contract_mismatch'' 409
               else let ready = (if at_invocationContract a = ''protected@1''
                                 then isTerminalExecutionStatus (map_option ex_status (executions db (at_requestId a)))
                                 else requestEndedAt \<noteq> None)
                    in if requireReconciliation \<and> \<not> at_usageSettled a
                          \<and> ((case at_reconciliationReason a of None \<Rightarrow> True | Some r \<Rightarrow> r = []) \<or> \<not> ready)
                       then relay ''provider_attempt_not_reconcilable'' 409
                       else let fc = providerAttemptFailureClass (fi_outcome c) (fi_failureClass c)
                            in rbind (providerAttemptFailureReason (fi_outcome c) (or_else (fi_failureReason c) (at_failureReason a))) (\<lambda>reason.
                                 if evidence_conflict a (fi_outcome c) fc reason (fi_outputCommitted c)
                                 then relay ''provider_attempt_settlement_conflict'' 409
                                 else Inr (\<lparr>fd_ref = at_id a, fd_requestId = at_requestId a,
                                            fd_invocationContract = at_invocationContract a, fd_startedAt = at_startedAt a,
                                            fd_expectedFailureClass = fc, fd_expectedFailureReason = reason,
                                            fd_expectedOutputCommitted = fi_outputCommitted c,
                                            fd_alreadyFinalized = at_usageSettled a\<rparr>, db))))"

definition finalize_complete :: "finalize_decision \<Rightarrow> finalize_command \<Rightarrow> timestamp \<Rightarrow> unit transaction" where
  "finalize_complete d c completedAt =
     (if fd_alreadyFinalized d then tx_return ()
      else tx_bind (update_attempt (fd_ref d) (\<lambda>x. x\<lparr>at_outcome := Some (fi_outcome c),
                      at_failureClass := fd_expectedFailureClass d, at_failureReason := fd_expectedFailureReason d,
                      at_outputCommitted := fd_expectedOutputCommitted d,
                      at_trustedUsageSource := Some (fi_trustedUsageSource c), at_endedAt := Some completedAt,
                      at_costExposure := Stopped, at_finalUsageEvidence := Final_usage, at_usageSettled := True,
                      at_reconciliationReason := None\<rparr>)) (\<lambda>_ db.
             case fi_requestTerminalStatus c of
               None \<Rightarrow> Inr ((), db)
             | Some status \<Rightarrow>
                 (case find_attempt db (fd_ref d) of
                    None \<Rightarrow> Inl missing_row
                  | Some a \<Rightarrow>
                      terminal_arbiter \<lparr>co_requestId = fd_requestId d, co_executionOwnerId = at_executionOwnerId a,
                        co_status = status, co_terminalErrorCode = fi_requestTerminalErrorCode c,
                        co_outputCommitted = fi_outputCommitted c, co_completedAt = completedAt\<rparr> False db)))"

text \<open>The two halves, as the settlement command calls them in its transaction.\<close>

definition finalize :: "finalize_command \<Rightarrow> bool \<Rightarrow> timestamp \<Rightarrow> unit transaction" where
  "finalize c requireReconciliation completedAt =
     tx_bind (finalize_lock c requireReconciliation) (\<lambda>d. finalize_complete d c completedAt)"

subsection \<open>Reconciliation\<close>

record reconcile_command =
  rc_ref :: string
  rc_outcome :: attempt_outcome
  rc_failureClass :: "provider_failure_class option"
  rc_failureReason :: "string option"
  rc_outputCommitted :: bool
  rc_costExposure :: cost_exposure
  rc_reason :: string

definition reconcile :: "reconcile_command \<Rightarrow> timestamp \<Rightarrow> bool transaction" where
  "reconcile c transitionedAt db =
     rbind (assertReconciliationReason (rc_reason c)) (\<lambda>_.
       case find_attempt db (rc_ref c) of
         None \<Rightarrow> relay ''provider_attempt_not_found'' 404
       | Some a \<Rightarrow>
           (case executions db (at_requestId a) of
              None \<Rightarrow> relay ''provider_attempt_not_found'' 404
            | Some e \<Rightarrow>
                let fc = providerAttemptFailureClass (rc_outcome c) (rc_failureClass c)
                in rbind (providerAttemptFailureReason (rc_outcome c) (or_else (rc_failureReason c) (at_failureReason a))) (\<lambda>reason.
                     if evidence_conflict a (rc_outcome c) fc reason (rc_outputCommitted c)
                     then relay ''provider_attempt_reconciliation_conflict'' 409
                     else if at_usageSettled a then Inr (False, db)
                     else if at_outcome a \<noteq> None
                             \<and> (case at_reconciliationReason a of None \<Rightarrow> False | Some r \<Rightarrow> r \<noteq> [])
                             \<and> at_costExposure a = rc_costExposure c
                     then Inr (False, db)
                     else if at_costExposure a = Stopped \<and> rc_costExposure c = Accruing
                     then relay ''provider_attempt_cost_exposure_conflict'' 409
                     else tx_bind (update_attempt (rc_ref c) (\<lambda>x. x\<lparr>at_outcome := Some (rc_outcome c),
                                     at_failureClass := fc, at_failureReason := reason,
                                     at_outputCommitted := rc_outputCommitted c,
                                     at_endedAt := (case at_endedAt a of None \<Rightarrow> Some transitionedAt | Some t \<Rightarrow> Some t),
                                     at_costExposure := rc_costExposure c, at_finalUsageEvidence := Pending_usage,
                                     at_reconciliationReason := Some (rc_reason c)\<rparr>)) (\<lambda>_.
                          tx_bind (if ex_status e = Running_execution \<or> ex_status e = Pending_execution
                                   then terminal_arbiter \<lparr>co_requestId = at_requestId a,
                                          co_executionOwnerId = at_executionOwnerId a,
                                          co_status = rc_outcome c,
                                          co_terminalErrorCode = (if rc_outcome c = Succeeded then None else Some (rc_reason c)),
                                          co_outputCommitted = rc_outputCommitted c, co_completedAt = transitionedAt\<rparr> False
                                   else tx_return ()) (\<lambda>_.
                            tx_return True)) db)))"

end
