(* ===== verification/Execution_Admission.thy ===== *)
theory Execution_Admission
  imports Request_Execution
begin

section \<open>Admission of Provider attempts\<close>

text \<open>
  The admission half of \<open>packages/request-execution/src/server.ts\<close>: a command to start an attempt is
  a replay of an attempt that exists, the first attempt of a request, or the fallback after a
  settled one. The routing of an attempt is stored as JSON texts and parsed back when a replay is
  compared with its command. The two queries of the package are at the end.
\<close>

subsection \<open>The stored identity\<close>

record stored_attempt =
  sa_ref :: string
  sa_requestId :: string
  sa_executionOwnerId :: string
  sa_attemptIndex :: int
  sa_candidate :: frozen_candidate
  sa_selectorAccessPointId :: string
  sa_selectorId :: string
  sa_selectorBehaviorVersion :: int
  sa_routingRevision :: int
  sa_routingRevisions :: "(string \<times> int) list"
  sa_selectorTargetEdgeId :: string
  sa_pathTargetEdgeIds :: "jsval list"
  sa_accessPointChainIds :: "jsval list"
  sa_startedAt :: timestamp

record persistence_material =
  pm_providerAttemptRef :: "string option"
  pm_invocationContract :: string
  pm_frozen :: "(string \<times> jsval) list"

datatype admission_kind = First_attempt | Fallback_attempt

datatype admission_decision =
    Replay stored_attempt "string option"
  | Admit_first timestamp string
  | Admit_fallback timestamp "string option"

definition ids_json :: "string list \<Rightarrow> string" where
  "ids_json xs = json_print (Json_arr (map Json_str xs))"

definition routing_revisions_json :: "(string \<times> int) list \<Rightarrow> string" where
  "routing_revisions_json rs =
     json_print (Json_arr (map (\<lambda>(ap, n). Json_obj [(''accessPointId'', Json_str ap), (''routingRevision'', Json_int n)]) rs))"

definition snapshot_invalid :: js_error where
  "snapshot_invalid = RelayError ''provider_attempt_snapshot_invalid'' 500 []"

definition parseStringifiedArray :: "string \<Rightarrow> jsval list result" where
  "parseStringifiedArray text =
     (case json_parse text of
        Some (JArr vs) \<Rightarrow> Inr vs
      | _ \<Rightarrow> Inl snapshot_invalid)"

fun parse_routing_revision :: "jsval \<Rightarrow> (string \<times> int) result" where
  "parse_routing_revision (JObj kvs) =
     (case (js_get kvs ''accessPointId'', safe_int_of (js_get kvs ''routingRevision'')) of
        (JStr ap, Some n) \<Rightarrow> Inr (ap, n)
      | _ \<Rightarrow> Inl snapshot_invalid)"
| "parse_routing_revision _ = Inl snapshot_invalid"

definition parseRoutingRevisions :: "string \<Rightarrow> (string \<times> int) list result" where
  "parseRoutingRevisions text = rbind (parseStringifiedArray text) (traverse parse_routing_revision)"

text \<open>
  The query joins the attempt of the request and candidate with its execution. Only one row has
  the pair, so the order of the rows does not matter.
\<close>

definition admission_row :: "tables \<Rightarrow> string \<Rightarrow> string \<Rightarrow> (attempt_row \<times> execution) option" where
  "admission_row db rid cid =
     (case List.find (\<lambda>a. at_requestId a = rid \<and> fc_candidateId (at_candidate a) = cid) (attempts db) of
        None \<Rightarrow> None
      | Some a \<Rightarrow> map_option (\<lambda>e. (a, e)) (executions db rid))"

definition stored_of_row :: "attempt_row \<Rightarrow> stored_attempt result" where
  "stored_of_row a =
     rbind (parseRoutingRevisions (at_routingRevisionsJson a)) (\<lambda>revs.
     rbind (parseStringifiedArray (at_pathTargetEdgeIdsJson a)) (\<lambda>path.
     rbind (parseStringifiedArray (at_accessPointChainIdsJson a)) (\<lambda>chain.
       Inr \<lparr>sa_ref = at_id a, sa_requestId = at_requestId a, sa_executionOwnerId = at_executionOwnerId a,
            sa_attemptIndex = at_attemptIndex a, sa_candidate = at_candidate a,
            sa_selectorAccessPointId = at_selectorAccessPointId a, sa_selectorId = at_selectorId a,
            sa_selectorBehaviorVersion = at_selectorBehaviorVersion a, sa_routingRevision = at_routingRevision a,
            sa_routingRevisions = revs, sa_selectorTargetEdgeId = at_selectorTargetEdgeId a,
            sa_pathTargetEdgeIds = path, sa_accessPointChainIds = chain, sa_startedAt = at_startedAt a\<rparr>)))"

definition readAdmissionAttempt :: "tables \<Rightarrow> string \<Rightarrow> string \<Rightarrow> (stored_attempt \<times> string option) option result" where
  "readAdmissionAttempt db rid cid =
     (case admission_row db rid cid of
        None \<Rightarrow> Inr None
      | Some (a, e) \<Rightarrow> rbind (stored_of_row a) (\<lambda>s. Inr (Some (s, ex_selectedSourceRef e))))"

text \<open>
  The three list comparisons of the code compare \<open>JSON.stringify\<close> texts; a parsed list prints as a list
  of identifiers does exactly when it is that list.
\<close>

definition same_identity :: "stored_attempt \<Rightarrow> admission_identity \<Rightarrow> bool" where
  "same_identity s c \<longleftrightarrow>
     sa_requestId s = ai_requestId c \<and> sa_executionOwnerId s = ai_executionOwnerId c
     \<and> sa_attemptIndex s = ai_attemptIndex c \<and> sa_candidate s = ai_candidate c
     \<and> sa_selectorAccessPointId s = fr_selectorAccessPointId (ai_routing c)
     \<and> sa_selectorId s = fr_selectorId (ai_routing c)
     \<and> sa_selectorBehaviorVersion s = fr_selectorBehaviorVersion (ai_routing c)
     \<and> sa_routingRevision s = fr_routingRevision (ai_routing c)
     \<and> sa_routingRevisions s = fr_routingRevisions (ai_routing c)
     \<and> sa_selectorTargetEdgeId s = fr_selectorTargetEdgeId (ai_routing c)
     \<and> sa_pathTargetEdgeIds s = map JStr (fr_pathTargetEdgeIds (ai_routing c))
     \<and> sa_accessPointChainIds s = map JStr (fr_accessPointChainIds (ai_routing c))"

definition assertEquivalentAttemptIdentity :: "stored_attempt \<Rightarrow> admission_identity \<Rightarrow> unit result" where
  "assertEquivalentAttemptIdentity s c =
     require (same_identity s c) (RelayError ''provider_attempt_idempotency_conflict'' 409 [])"

definition assert_same_source :: "admission_identity \<Rightarrow> string option \<Rightarrow> unit result" where
  "assert_same_source c stored =
     require (case ai_selectedSourceRef c of None \<Rightarrow> True | Some s \<Rightarrow> stored = Some s)
       (RelayError ''request_execution_plan_source_conflict'' 409 [])"

definition check_replay :: "admission_identity \<Rightarrow> stored_attempt \<times> string option \<Rightarrow> unit result" where
  "check_replay c = (\<lambda>(s, source). rbind (assertEquivalentAttemptIdentity s c) (\<lambda>_. assert_same_source c source))"

definition find_replay :: "admission_identity \<Rightarrow> tables \<Rightarrow> (stored_attempt \<times> string option) option result" where
  "find_replay c db =
     rbind (assertProviderAttemptAdmissionIdentity c) (\<lambda>_.
     rbind (readAdmissionAttempt db (ai_requestId c) (fc_candidateId (ai_candidate c))) (\<lambda>found.
       case found of
         None \<Rightarrow> Inr None
       | Some r \<Rightarrow> rbind (check_replay c r) (\<lambda>_. Inr (Some r))))"

text \<open>
  \<open>preflight\<close> is \<open>None\<close> when the caller gave no preflight result, \<open>Some None\<close> when it found nothing.
\<close>

definition inspect_new ::
  "admission_kind \<Rightarrow> admission_identity \<Rightarrow> timestamp \<Rightarrow> (stored_attempt \<times> string option) option option
     \<Rightarrow> tables \<Rightarrow> admission_decision result" where
  "inspect_new kind c inspectedAt preflight db =
     rbind (assertProviderAttemptAdmissionIdentity c) (\<lambda>_.
       case leases db (ai_requestId c) of
         None \<Rightarrow> relay ''request_execution_lease_lost'' 409
       | Some l \<Rightarrow>
           if le_ownerId l \<noteq> ai_executionOwnerId c \<or> le_leaseUntil l \<le> inspectedAt
           then relay ''request_execution_lease_lost'' 409
           else rbind (case preflight of
                         None \<Rightarrow> readAdmissionAttempt db (ai_requestId c) (fc_candidateId (ai_candidate c))
                       | Some p \<Rightarrow> Inr p) (\<lambda>raced.
             case raced of
               Some r \<Rightarrow> rbind (check_replay c r) (\<lambda>_. Inr (Replay (fst r) (snd r)))
             | None \<Rightarrow>
                 (case kind of
                    First_attempt \<Rightarrow>
                      if executions db (ai_requestId c) \<noteq> None \<or> ai_attemptIndex c \<noteq> 0
                      then relay ''request_execution_conflict'' 409
                      else (case ai_selectedSourceRef c of
                              None \<Rightarrow> relay ''request_execution_conflict'' 409
                            | Some source \<Rightarrow> Inr (Admit_first (le_leaseUntil l) source))
                  | Fallback_attempt \<Rightarrow>
                      (case executions db (ai_requestId c) of
                         None \<Rightarrow> relay ''request_execution_conflict'' 409
                       | Some e \<Rightarrow>
                           if ex_status e \<noteq> Running_execution \<or> ex_ownerId e \<noteq> ai_executionOwnerId c
                              \<or> ex_attemptCount e \<noteq> ai_attemptIndex c
                           then relay ''request_execution_conflict'' 409
                           else (case List.find (\<lambda>a. at_requestId a = ai_requestId c
                                           \<and> at_attemptIndex a = ai_attemptIndex c - 1) (attempts db) of
                                   None \<Rightarrow> relay ''provider_attempt_previous_unsettled'' 409
                                 | Some p \<Rightarrow>
                                     if \<not> at_usageSettled p then relay ''provider_attempt_previous_unsettled'' 409
                                     else Inr (Admit_fallback (le_leaseUntil l) (ex_selectedSourceRef e)))))))"

subsection \<open>Writing the attempt\<close>

text \<open>\<open>fresh\<close> is what \<open>createId\<close> returns when the material names no identifier.\<close>

definition new_attempt_row ::
  "admission_identity \<Rightarrow> string \<Rightarrow> timestamp \<Rightarrow> timestamp \<Rightarrow> persistence_material \<Rightarrow> attempt_row" where
  "new_attempt_row c ref leaseUntil startedAt m =
     \<lparr>at_id = ref, at_requestId = ai_requestId c, at_attemptIndex = ai_attemptIndex c, at_candidate = ai_candidate c,
      at_selectorAccessPointId = fr_selectorAccessPointId (ai_routing c), at_selectorId = fr_selectorId (ai_routing c),
      at_selectorBehaviorVersion = fr_selectorBehaviorVersion (ai_routing c),
      at_routingRevision = fr_routingRevision (ai_routing c),
      at_routingRevisionsJson = routing_revisions_json (fr_routingRevisions (ai_routing c)),
      at_selectorTargetEdgeId = fr_selectorTargetEdgeId (ai_routing c),
      at_pathTargetEdgeIdsJson = ids_json (fr_pathTargetEdgeIds (ai_routing c)),
      at_accessPointChainIdsJson = ids_json (fr_accessPointChainIds (ai_routing c)),
      at_outcome = None, at_failureClass = None, at_failureReason = None, at_outputCommitted = False,
      at_trustedUsageSource = None, at_startedAt = startedAt, at_endedAt = None,
      at_executionOwnerId = ai_executionOwnerId c, at_admissionLeaseUntil = leaseUntil,
      at_costExposure = Not_started, at_finalUsageEvidence = Pending_usage, at_usageSettled = False,
      at_reconciliationReason = None, at_invocationContract = pm_invocationContract m, at_frozen = pm_frozen m\<rparr>"

definition stored_of_command :: "admission_identity \<Rightarrow> string \<Rightarrow> timestamp \<Rightarrow> stored_attempt" where
  "stored_of_command c ref startedAt =
     \<lparr>sa_ref = ref, sa_requestId = ai_requestId c, sa_executionOwnerId = ai_executionOwnerId c,
      sa_attemptIndex = ai_attemptIndex c, sa_candidate = ai_candidate c,
      sa_selectorAccessPointId = fr_selectorAccessPointId (ai_routing c), sa_selectorId = fr_selectorId (ai_routing c),
      sa_selectorBehaviorVersion = fr_selectorBehaviorVersion (ai_routing c),
      sa_routingRevision = fr_routingRevision (ai_routing c), sa_routingRevisions = fr_routingRevisions (ai_routing c),
      sa_selectorTargetEdgeId = fr_selectorTargetEdgeId (ai_routing c),
      sa_pathTargetEdgeIds = map JStr (fr_pathTargetEdgeIds (ai_routing c)),
      sa_accessPointChainIds = map JStr (fr_accessPointChainIds (ai_routing c)), sa_startedAt = startedAt\<rparr>"

definition new_execution :: "admission_identity \<Rightarrow> string \<Rightarrow> timestamp \<Rightarrow> execution" where
  "new_execution c source startedAt =
     \<lparr>ex_status = Running_execution, ex_ownerId = ai_executionOwnerId c, ex_attemptCount = 0,
      ex_outputCommitted = False, ex_terminalErrorCode = None, ex_selectedSourceRef = Some source,
      ex_startedAt = startedAt, ex_endedAt = None\<rparr>"

text \<open>
  The inserts meet the unique keys of the two tables. The insert triggers of the migrations (the
  provider model of the row, the plan source of the execution, the preparation evidence of a protected
  attempt), the foreign keys and the column checks are not modelled: where one of them refuses a row the
  transaction throws and writes nothing.
\<close>

definition persist_attempt ::
  "admission_identity \<Rightarrow> string option \<Rightarrow> timestamp \<Rightarrow> timestamp \<Rightarrow> persistence_material \<Rightarrow> string
     \<Rightarrow> stored_attempt transaction" where
  "persist_attempt c firstSource leaseUntil startedAt m fresh =
     (let ref = (case pm_providerAttemptRef m of None \<Rightarrow> fresh | Some r \<Rightarrow> r)
      in tx_bind (case firstSource of
                    None \<Rightarrow> tx_return ()
                  | Some source \<Rightarrow> insert_execution (ai_requestId c) (new_execution c source startedAt)) (\<lambda>_.
         tx_bind (create_attempt (new_attempt_row c ref leaseUntil startedAt m)) (\<lambda>_.
         tx_bind (update_execution (ai_requestId c) (\<lambda>e. e\<lparr>ex_attemptCount := ex_attemptCount e + 1\<rparr>)) (\<lambda>_.
           tx_return (stored_of_command c ref startedAt)))))"

definition execute_admission ::
  "admission_identity \<Rightarrow> admission_decision \<Rightarrow> timestamp \<Rightarrow> persistence_material \<Rightarrow> string \<Rightarrow> stored_attempt transaction" where
  "execute_admission c d startedAt m fresh =
     (case d of
        Replay s _ \<Rightarrow> tx_return s
      | Admit_first leaseUntil source \<Rightarrow> persist_attempt c (Some source) leaseUntil startedAt m fresh
      | Admit_fallback leaseUntil _ \<Rightarrow> persist_attempt c None leaseUntil startedAt m fresh)"

text \<open>
  The order in which the admission command of the application calls the three methods, in one
  transaction and under the lock of the request and candidate.
\<close>

definition admit ::
  "admission_kind \<Rightarrow> admission_identity \<Rightarrow> timestamp \<Rightarrow> timestamp \<Rightarrow> persistence_material \<Rightarrow> string
     \<Rightarrow> stored_attempt transaction" where
  "admit kind c inspectedAt startedAt m fresh db =
     rbind (find_replay c db) (\<lambda>found.
       case found of
         Some r \<Rightarrow> Inr (fst r, db)
       | None \<Rightarrow> rbind (inspect_new kind c inspectedAt (Some None) db) (\<lambda>d.
                   execute_admission c d startedAt m fresh db))"

subsection \<open>Queries\<close>

record attempt_detail =
  ad_ref :: string
  ad_attemptIndex :: int
  ad_invocationContract :: string
  ad_providerModelId :: string
  ad_providerId :: string
  ad_providerModelName :: string
  ad_startedAt :: timestamp
  ad_endedAt :: "timestamp option"
  ad_outcome :: "attempt_outcome option"
  ad_failureClass :: "provider_failure_class option"
  ad_failureReason :: "string option"
  ad_outputCommitted :: bool
  ad_costExposure :: cost_exposure
  ad_finalUsageEvidence :: usage_evidence
  ad_usageSettled :: bool
  ad_reconciliationReason :: "string option"

record execution_detail =
  xd_requestId :: string
  xd_status :: execution_status
  xd_ownerId :: string
  xd_selectedSourceRef :: string
  xd_attemptCount :: int
  xd_outputCommitted :: bool
  xd_terminalErrorCode :: "string option"
  xd_startedAt :: timestamp
  xd_endedAt :: "timestamp option"
  xd_attempts :: "attempt_detail list"

definition attempt_detail_of :: "attempt_row \<Rightarrow> attempt_detail" where
  "attempt_detail_of a =
     \<lparr>ad_ref = at_id a, ad_attemptIndex = at_attemptIndex a, ad_invocationContract = at_invocationContract a,
      ad_providerModelId = fc_providerModelId (at_candidate a), ad_providerId = fc_providerId (at_candidate a),
      ad_providerModelName = fc_providerModelName (at_candidate a), ad_startedAt = at_startedAt a,
      ad_endedAt = at_endedAt a, ad_outcome = at_outcome a, ad_failureClass = at_failureClass a,
      ad_failureReason = at_failureReason a, ad_outputCommitted = at_outputCommitted a,
      ad_costExposure = at_costExposure a, ad_finalUsageEvidence = at_finalUsageEvidence a,
      ad_usageSettled = at_usageSettled a, ad_reconciliationReason = at_reconciliationReason a\<rparr>"

definition known_contract :: "string \<Rightarrow> bool" where
  "known_contract s \<longleftrightarrow> s = ''protected@1'' \<or> s = ''cpa-basic@1''"

definition limit_ok :: "int \<Rightarrow> bool" where
  "limit_ok n \<longleftrightarrow> 1 \<le> n \<and> n \<le> 500"

definition ordered_attempts :: "(attempt_row \<Rightarrow> int) \<Rightarrow> attempt_row list \<Rightarrow> attempt_row list" where
  "ordered_attempts key xs = js_sort (cmp_key_then key (\<lambda>a b. text_compare (at_id a) (at_id b))) xs"

definition get_request_execution_detail :: "string \<Rightarrow> int \<Rightarrow> tables \<Rightarrow> execution_detail option result" where
  "get_request_execution_detail rid attemptLimit db =
     (if \<not> limit_ok attemptLimit then relay ''invalid_request_execution_attempt_limit'' 400
      else case executions db rid of
             None \<Rightarrow> Inr None
           | Some e \<Rightarrow>
               let rows = take (nat attemptLimit)
                            (ordered_attempts at_attemptIndex (filter (\<lambda>a. at_requestId a = rid) (attempts db)))
               in (case ex_selectedSourceRef e of
                     None \<Rightarrow> relay ''request_execution_snapshot_invalid'' 500
                   | Some source \<Rightarrow>
                       if source = [] \<or> list_ex (\<lambda>a. fc_providerModelId (at_candidate a) = []
                                                     \<or> \<not> known_contract (at_invocationContract a)) rows
                       then relay ''request_execution_snapshot_invalid'' 500
                       else Inr (Some \<lparr>xd_requestId = rid, xd_status = ex_status e, xd_ownerId = ex_ownerId e,
                                       xd_selectedSourceRef = source, xd_attemptCount = ex_attemptCount e,
                                       xd_outputCommitted = ex_outputCommitted e,
                                       xd_terminalErrorCode = ex_terminalErrorCode e, xd_startedAt = ex_startedAt e,
                                       xd_endedAt = ex_endedAt e, xd_attempts = map attempt_detail_of rows\<rparr>)))"

text \<open>The attempts that wait for final usage, oldest first.\<close>

definition is_unresolved :: "tables \<Rightarrow> attempt_row \<Rightarrow> bool" where
  "is_unresolved db a \<longleftrightarrow>
     request_logs db (at_requestId a) \<noteq> None \<and> at_reconciliationReason a \<noteq> None \<and> \<not> at_usageSettled a
     \<and> (at_invocationContract a = ''protected@1''
          \<and> isTerminalExecutionStatus (map_option ex_status (executions db (at_requestId a)))
        \<or> at_invocationContract a = ''cpa-basic@1''
          \<and> (case request_logs db (at_requestId a) of Some (Some _) \<Rightarrow> True | _ \<Rightarrow> False))"

definition list_unresolved_attempts :: "int \<Rightarrow> tables \<Rightarrow> attempt_row list result" where
  "list_unresolved_attempts limit db =
     (if \<not> limit_ok limit then relay ''invalid_reconciliation_limit'' 400
      else Inr (take (nat limit) (ordered_attempts at_startedAt (filter (is_unresolved db) (attempts db)))))"

end
