(* ===== verification/Execution_Invariants.thy ===== *)
theory Execution_Invariants
  imports Execution_Admission
begin

section \<open>What the execution tables promise\<close>

text \<open>
  The invariant of the three tables under the operations of \<open>packages/request-execution\<close>, how a row may
  change over time, and the theorems about runs: the attempts of a request are numbered without
  gaps and at most the last is unsettled, settled attempts and terminal executions are never
  rewritten, the trigger on the transitions of an attempt never refuses an update, admission is idempotent for ever,
  and an unexpired lease is not taken over.
\<close>

subsection \<open>The invariant\<close>

definition known_reason :: "string option \<Rightarrow> bool" where
  "known_reason reason = (case reason of None \<Rightarrow> True | Some r \<Rightarrow> credential_failure_reason_of (JStr r) \<noteq> None)"

lemma known_reason_None [simp]: "known_reason None"
  by (simp add: known_reason_def)

definition row_ok :: "attempt_row \<Rightarrow> bool" where
  "row_ok a \<longleftrightarrow>
     (if at_outcome a = None
      then at_endedAt a = None \<and> at_failureClass a = None \<and> at_failureReason a = None
           \<and> at_trustedUsageSource a = None \<and> \<not> at_usageSettled a \<and> at_costExposure a \<noteq> Stopped
           \<and> at_reconciliationReason a = None
      else at_endedAt a \<noteq> None \<and> at_costExposure a \<noteq> Not_started
           \<and> (at_outcome a = Some Failed) = (at_failureClass a \<noteq> None)
           \<and> (at_outcome a \<noteq> Some Failed \<longrightarrow> at_failureReason a = None)
           \<and> known_reason (at_failureReason a))
     \<and> (if at_usageSettled a
        then at_costExposure a = Stopped \<and> at_finalUsageEvidence a = Final_usage \<and> at_trustedUsageSource a \<noteq> None
        else at_finalUsageEvidence a = Pending_usage)"

definition attempts_of :: "tables \<Rightarrow> string \<Rightarrow> attempt_row list" where
  "attempts_of db rid = filter (\<lambda>a. at_requestId a = rid) (attempts db)"

definition is_terminal :: "execution \<Rightarrow> bool" where
  "is_terminal e \<longleftrightarrow> isTerminalExecutionStatus (Some (ex_status e))"

definition request_ok :: "attempt_row list \<Rightarrow> execution option \<Rightarrow> bool" where
  "request_ok rows ex =
     (case ex of
        None \<Rightarrow> rows = []
      | Some e \<Rightarrow>
          map at_attemptIndex rows = map int [0..<length rows] \<and> ex_attemptCount e = int (length rows)
          \<and> list_all (\<lambda>a. at_executionOwnerId a = ex_ownerId e) rows
          \<and> distinct (map (\<lambda>a. fc_candidateId (at_candidate a)) rows)
          \<and> list_all at_usageSettled (butlast rows)
          \<and> (is_terminal e = (ex_endedAt e \<noteq> None)))"

definition tables_ok :: "tables \<Rightarrow> bool" where
  "tables_ok db \<longleftrightarrow>
     distinct (map at_id (attempts db)) \<and> (\<forall>a \<in> set (attempts db). row_ok a)
     \<and> (\<forall>rid. request_ok (attempts_of db rid) (executions db rid))"

subsection \<open>How rows change\<close>

fun exposure_rank :: "cost_exposure \<Rightarrow> nat" where
  "exposure_rank Not_started = 0"
| "exposure_rank Accruing = 1"
| "exposure_rank Stopped = 2"

text \<open>The columns the trigger \<open>friday_relay_reject_immutable_update\<close> protects.\<close>

definition same_columns :: "attempt_row \<Rightarrow> attempt_row \<Rightarrow> bool" where
  "same_columns a b \<longleftrightarrow>
     at_id b = at_id a \<and> at_requestId b = at_requestId a \<and> at_attemptIndex b = at_attemptIndex a
     \<and> at_candidate b = at_candidate a \<and> at_selectorAccessPointId b = at_selectorAccessPointId a
     \<and> at_selectorId b = at_selectorId a \<and> at_selectorBehaviorVersion b = at_selectorBehaviorVersion a
     \<and> at_routingRevision b = at_routingRevision a \<and> at_routingRevisionsJson b = at_routingRevisionsJson a
     \<and> at_selectorTargetEdgeId b = at_selectorTargetEdgeId a \<and> at_pathTargetEdgeIdsJson b = at_pathTargetEdgeIdsJson a
     \<and> at_accessPointChainIdsJson b = at_accessPointChainIdsJson a \<and> at_startedAt b = at_startedAt a
     \<and> at_executionOwnerId b = at_executionOwnerId a \<and> at_admissionLeaseUntil b = at_admissionLeaseUntil a
     \<and> at_invocationContract b = at_invocationContract a \<and> at_frozen b = at_frozen a"

definition row_evolves :: "attempt_row \<Rightarrow> attempt_row \<Rightarrow> bool" where
  "row_evolves a b \<longleftrightarrow>
     same_columns a b \<and> exposure_rank (at_costExposure a) \<le> exposure_rank (at_costExposure b)
     \<and> (at_usageSettled a \<longrightarrow> b = a)
     \<and> (at_outcome a \<noteq> None \<longrightarrow>
          at_outcome b = at_outcome a \<and> at_failureClass b = at_failureClass a
          \<and> at_failureReason b = at_failureReason a \<and> at_outputCommitted b = at_outputCommitted a)"

definition execution_evolves :: "execution \<Rightarrow> execution \<Rightarrow> bool" where
  "execution_evolves e f \<longleftrightarrow>
     ex_ownerId f = ex_ownerId e \<and> ex_selectedSourceRef f = ex_selectedSourceRef e
     \<and> ex_startedAt f = ex_startedAt e \<and> ex_attemptCount e \<le> ex_attemptCount f
     \<and> (ex_outputCommitted e \<longrightarrow> ex_outputCommitted f) \<and> (is_terminal e \<longrightarrow> f = e)"

definition evolves :: "tables \<Rightarrow> tables \<Rightarrow> bool" where
  "evolves db db' \<longleftrightarrow>
     (\<forall>ref a. find_attempt db ref = Some a \<longrightarrow> (\<exists>b. find_attempt db' ref = Some b \<and> row_evolves a b))
     \<and> (\<forall>rid e. executions db rid = Some e \<longrightarrow> (\<exists>f. executions db' rid = Some f \<and> execution_evolves e f))"

lemma row_evolves_refl [simp]: "row_evolves a a"
  by (simp add: row_evolves_def same_columns_def)

lemma execution_evolves_refl [simp]: "execution_evolves e e"
  by (simp add: execution_evolves_def)

lemma evolves_refl [simp]: "evolves db db"
  by (auto simp: evolves_def)

lemma row_evolves_trans: "row_evolves a b \<Longrightarrow> row_evolves b c \<Longrightarrow> row_evolves a c"
  unfolding row_evolves_def same_columns_def by auto

lemma execution_evolves_trans: "execution_evolves a b \<Longrightarrow> execution_evolves b c \<Longrightarrow> execution_evolves a c"
  unfolding execution_evolves_def by auto

lemma evolves_trans: "evolves a b \<Longrightarrow> evolves b c \<Longrightarrow> evolves a c"
  unfolding evolves_def by (blast intro: row_evolves_trans execution_evolves_trans)

subsection \<open>One update of one row\<close>

text \<open>
  A legal update keeps the immutable columns and yields a row the invariant allows; the trigger
  of the database lets every legal update through.
\<close>

definition legal_update :: "attempt_row \<Rightarrow> attempt_row \<Rightarrow> bool" where
  "legal_update old new \<longleftrightarrow>
     row_ok new \<and> row_evolves old new \<and> \<not> at_usageSettled old
     \<and> (at_outcome new = None \<longrightarrow> at_costExposure old = Not_started \<and> at_costExposure new = Accruing)"

lemma legal_update_allowed: "row_ok old \<Longrightarrow> legal_update old new \<Longrightarrow> attempt_update_allowed old new"
  by (auto simp: attempt_update_allowed_def legal_update_def row_ok_def row_evolves_def split: if_splits)

lemma find_attempt_Some: "find_attempt db ref = Some a \<Longrightarrow> a \<in> set (attempts db) \<and> at_id a = ref"
  by (auto simp: find_attempt_def find_Some_iff)

lemma find_attempt_unique:
  assumes "tables_ok db"
  shows "find_attempt db ref = Some a \<longleftrightarrow> a \<in> set (attempts db) \<and> at_id a = ref"
proof
  assume in_db: "a \<in> set (attempts db) \<and> at_id a = ref"
  then obtain b where b: "find_attempt db ref = Some b"
    by (cases "find_attempt db ref") (auto simp: find_attempt_def find_None_iff)
  from assms have "inj_on at_id (set (attempts db))" by (simp add: tables_ok_def distinct_map)
  with find_attempt_Some [OF b] in_db have "b = a" by (auto dest: inj_onD)
  with b show "find_attempt db ref = Some a" by simp
qed (rule find_attempt_Some)

definition replace_row :: "string \<Rightarrow> attempt_row \<Rightarrow> tables \<Rightarrow> tables" where
  "replace_row ref new db = db\<lparr>attempts := map (\<lambda>a. if at_id a = ref then new else a) (attempts db)\<rparr>"

lemma replace_row_simps [simp]:
  "executions (replace_row ref new db) = executions db" "leases (replace_row ref new db) = leases db"
  "request_logs (replace_row ref new db) = request_logs db"
  by (simp_all add: replace_row_def)

lemma update_attempt_legal:
  assumes ok: "tables_ok db" and found: "find_attempt db ref = Some old" and legal: "legal_update old (f old)"
  shows "update_attempt ref f db = Inr ((), replace_row ref (f old) db)"
proof -
  have "row_ok old" using find_attempt_Some [OF found] ok by (simp add: tables_ok_def)
  then have "attempt_update_allowed old (f old)" using legal by (rule legal_update_allowed)
  moreover have "a = old" if "a \<in> set (attempts db)" "at_id a = ref" for a
    using find_attempt_unique [OF ok, of ref a] found that by simp
  ultimately show ?thesis using found by (auto simp: update_attempt_def replace_row_def)
qed

lemma find_replace_row:
  assumes "find_attempt db ref = Some old" "at_id new = ref"
  shows "find_attempt (replace_row ref new db) r = (if r = ref then Some new else find_attempt db r)"
proof -
  have "List.find (\<lambda>a. at_id a = r) (map (\<lambda>a. if at_id a = ref then new else a) xs)
          = (if r = ref then map_option (\<lambda>_. new) (List.find (\<lambda>a. at_id a = r) xs) else List.find (\<lambda>a. at_id a = r) xs)"
    for xs using assms(2) by (induction xs) auto
  with assms(1) show ?thesis by (auto simp: find_attempt_def replace_row_def)
qed

lemma request_ok_map:
  assumes "request_ok rows ex"
    and "\<And>a. a \<in> set rows \<Longrightarrow> at_attemptIndex (g a) = at_attemptIndex a \<and> at_executionOwnerId (g a) = at_executionOwnerId a
           \<and> at_candidate (g a) = at_candidate a \<and> (at_usageSettled a \<longrightarrow> at_usageSettled (g a))"
  shows "request_ok (map g rows) ex"
proof (cases ex)
  case None
  with assms(1) show ?thesis by (simp add: request_ok_def)
next
  case (Some e)
  have "map at_attemptIndex (map g rows) = map at_attemptIndex rows"
    "map (\<lambda>a. fc_candidateId (at_candidate a)) (map g rows) = map (\<lambda>a. fc_candidateId (at_candidate a)) rows"
    using assms(2) by simp_all
  moreover have "list_all (\<lambda>a. at_executionOwnerId a = ex_ownerId e) (map g rows)"
    using assms Some by (simp add: request_ok_def list_all_iff)
  moreover have "list_all at_usageSettled (butlast (map g rows))"
    using assms Some by (auto simp: request_ok_def list_all_iff map_butlast [symmetric] dest: in_set_butlastD)
  ultimately show ?thesis using assms(1) Some unfolding request_ok_def by (simp only: option.case length_map)
qed

lemma row_evolvesD:
  assumes "row_evolves a b"
  shows "at_id b = at_id a" "at_requestId b = at_requestId a" "at_attemptIndex b = at_attemptIndex a"
    "at_executionOwnerId b = at_executionOwnerId a" "at_candidate b = at_candidate a"
    "at_usageSettled a \<Longrightarrow> at_usageSettled b"
  using assms by (simp_all add: row_evolves_def same_columns_def)

lemma filter_map_same: "(\<And>x. x \<in> set xs \<Longrightarrow> P (g x) = P x) \<Longrightarrow> filter P (map g xs) = map g (filter P xs)"
  by (induction xs) auto

lemma replace_row_good:
  assumes ok: "tables_ok db" and found: "find_attempt db ref = Some old" and legal: "legal_update old new"
  shows "tables_ok (replace_row ref new db)" "evolves db (replace_row ref new db)"
proof -
  let ?g = "\<lambda>a. if at_id a = ref then new else a"
  from legal have new: "row_evolves old new" "row_ok new" by (simp_all add: legal_update_def)
  from find_attempt_Some [OF found] new have ref: "at_id new = ref" by (simp add: row_evolves_def same_columns_def)
  have only: "a = old" if "a \<in> set (attempts db)" "at_id a = ref" for a
    using find_attempt_unique [OF ok, of ref a] found that by simp
  then have same: "row_evolves a (?g a)" if "a \<in> set (attempts db)" for a using that new by auto
  have ids: "map at_id (map ?g (attempts db)) = map at_id (attempts db)" using ref by simp
  have "at_requestId (?g a) = at_requestId a" if "a \<in> set (attempts db)" for a
    by (rule row_evolvesD(2) [OF same [OF that]])
  then have rows: "attempts_of (replace_row ref new db) rid = map ?g (attempts_of db rid)" for rid
    unfolding attempts_of_def replace_row_def by (simp add: filter_map_same)
  have "request_ok (map ?g (attempts_of db rid)) (executions db rid)" for rid
  proof (rule request_ok_map)
    show "request_ok (attempts_of db rid) (executions db rid)" using ok by (simp add: tables_ok_def)
  next
    fix a
    assume "a \<in> set (attempts_of db rid)"
    then have "row_evolves a (?g a)" by (intro same) (simp add: attempts_of_def)
    note evolved = row_evolvesD [OF this]
    show "at_attemptIndex (?g a) = at_attemptIndex a \<and> at_executionOwnerId (?g a) = at_executionOwnerId a
           \<and> at_candidate (?g a) = at_candidate a \<and> (at_usageSettled a \<longrightarrow> at_usageSettled (?g a))"
      by (intro conjI impI evolved)
  qed
  moreover have "attempts (replace_row ref new db) = map ?g (attempts db)" by (simp add: replace_row_def)
  moreover have "\<forall>a \<in> set (map ?g (attempts db)). row_ok a" using ok new(2) by (auto simp: tables_ok_def)
  ultimately show "tables_ok (replace_row ref new db)"
    using ok unfolding tables_ok_def rows replace_row_simps by (simp only: ids) blast
  show "evolves db (replace_row ref new db)"
    using found new(1) by (auto simp: evolves_def find_replace_row [OF found ref])
qed


subsection \<open>Operations that keep the promise\<close>

text \<open>
  An operation is safe in a state when it throws no error of the database and leaves tables that
  satisfy the invariant and evolved from those before.
\<close>

definition database_error :: "js_error \<Rightarrow> bool" where
  "database_error e \<longleftrightarrow> e = trigger_error \<or> e = missing_row \<or> e = unique_error"

lemma relay_not_database [simp]: "\<not> database_error (RelayError c n d)" "\<not> database_error (PlainError ''RangeError'')"
  by (simp_all add: database_error_def trigger_error_def missing_row_def unique_error_def)

definition good_outcome :: "tables \<Rightarrow> ('a \<times> tables) result \<Rightarrow> bool" where
  "good_outcome db r =
     (case r of Inl e \<Rightarrow> \<not> database_error e | Inr (_, db') \<Rightarrow> tables_ok db' \<and> evolves db db')"

lemma good_outcome_simps [simp]:
  "good_outcome db (Inl e) = (\<not> database_error e)"
  "good_outcome db (Inr (x, db')) = (tables_ok db' \<and> evolves db db')"
  by (simp_all add: good_outcome_def)

lemma good_outcome_if:
  "(b \<Longrightarrow> good_outcome db x) \<Longrightarrow> (\<not> b \<Longrightarrow> good_outcome db y) \<Longrightarrow> good_outcome db (if b then x else y)"
  by simp

definition safe :: "tables \<Rightarrow> 'a transaction \<Rightarrow> bool" where
  "safe db m \<longleftrightarrow> (tables_ok db \<longrightarrow> good_outcome db (m db))"

lemma safeI: "(tables_ok db \<Longrightarrow> good_outcome db (m db)) \<Longrightarrow> safe db m"
  by (simp add: safe_def)

lemma safe_goodD: "safe db m \<Longrightarrow> tables_ok db \<Longrightarrow> good_outcome db (m db)"
  by (simp add: safe_def)

lemma safe_bind:
  assumes "safe db m" and "\<And>x db'. tables_ok db \<Longrightarrow> m db = Inr (x, db') \<Longrightarrow> tables_ok db' \<Longrightarrow> safe db' (f x)"
  shows "safe db (tx_bind m f)"
proof (rule safeI)
  assume ok: "tables_ok db"
  show "good_outcome db (tx_bind m f db)"
  proof (cases "m db")
    case (Inl e)
    with assms(1) ok show ?thesis by (simp add: safe_def tx_bind_def)
  next
    case (Inr r)
    obtain x db' where r: "m db = Inr (x, db')" using Inr by (cases r) simp
    with assms(1) ok have mid: "tables_ok db'" "evolves db db'" by (simp_all add: safe_def)
    with assms(2) [OF ok r mid(1)] have "good_outcome db' (f x db')" by (simp add: safe_def)
    with mid(2) r show ?thesis
      by (auto simp: tx_bind_def good_outcome_def split: sum.splits intro: evolves_trans)
  qed
qed

lemma safe_return [simp]: "safe db (tx_return x)"
  by (simp add: safe_def tx_return_def)

lemma safe_eq: "(tables_ok db \<Longrightarrow> m db = m' db) \<Longrightarrow> safe db m' \<Longrightarrow> safe db m"
  by (simp add: safe_def)

lemma good_unchanged [simp]: "tables_ok db \<Longrightarrow> good_outcome db (Inr (x, db))"
  by simp

lemma safe_update_attempt:
  assumes "\<And>old. tables_ok db \<Longrightarrow> find_attempt db ref = Some old \<Longrightarrow> legal_update old (f old)"
    and "find_attempt db ref \<noteq> None"
  shows "safe db (update_attempt ref f)"
proof (rule safeI)
  assume ok: "tables_ok db"
  obtain old where old: "find_attempt db ref = Some old" using assms(2) by auto
  note legal = assms(1) [OF ok old]
  show "good_outcome db (update_attempt ref f db)"
    using replace_row_good [OF ok old legal] by (simp add: update_attempt_legal [where f = f, OF ok old legal])
qed

definition put_execution :: "string \<Rightarrow> execution \<Rightarrow> tables \<Rightarrow> tables" where
  "put_execution rid e db = db\<lparr>executions := (executions db)(rid := Some e)\<rparr>"

lemma put_execution_simps [simp]:
  "executions (put_execution rid e db) = (executions db)(rid := Some e)"
  "attempts (put_execution rid e db) = attempts db" "leases (put_execution rid e db) = leases db"
  "find_attempt (put_execution rid e db) ref = find_attempt db ref"
  "attempts_of (put_execution rid e db) r = attempts_of db r"
  by (simp_all add: put_execution_def find_attempt_def attempts_of_def)

lemma put_execution_good:
  assumes "tables_ok db" "executions db rid = Some e" "execution_evolves e e'"
    "ex_attemptCount e' = ex_attemptCount e" "is_terminal e' = (ex_endedAt e' \<noteq> None)"
  shows "tables_ok (put_execution rid e' db)" "evolves db (put_execution rid e' db)"
proof -
  have "request_ok (attempts_of db rid) (Some e)" using assms(1,2) by (metis tables_ok_def)
  then have "request_ok (attempts_of db rid) (Some e')"
    using assms(3-5) by (simp add: request_ok_def execution_evolves_def)
  with assms(1) show "tables_ok (put_execution rid e' db)" by (simp add: tables_ok_def)
  show "evolves db (put_execution rid e' db)" using assms(2,3) by (auto simp: evolves_def)
qed

lemma safe_terminal_arbiter: "safe db (terminal_arbiter c allowMissing)"
proof (rule safeI)
  assume ok: "tables_ok db"
  show "good_outcome db (terminal_arbiter c allowMissing db)"
  proof (cases "executions db (co_requestId c)")
    case None
    with ok show ?thesis by (simp add: terminal_arbiter_def)
  next
    case (Some e)
    let ?e = "e\<lparr>ex_status := Terminal (co_status c), ex_terminalErrorCode := co_terminalErrorCode c,
                ex_outputCommitted := co_outputCommitted c \<or> ex_outputCommitted e, ex_endedAt := Some (co_completedAt c)\<rparr>"
    have "good_outcome db (Inr ((), put_execution (co_requestId c) ?e db))"
      if "ex_status e = Running_execution \<or> ex_status e = Pending_execution"
    proof -
      have "execution_evolves e ?e" "is_terminal ?e" using that by (auto simp: execution_evolves_def is_terminal_def)
      with put_execution_good [OF ok Some, of ?e] show ?thesis by simp
    qed
    with Some ok show ?thesis
      by (auto simp: terminal_arbiter_def update_execution_def put_execution_def)
  qed
qed

lemma safe_fail: "safe db (fail_request_execution rid owner code at0)"
  using safe_terminal_arbiter unfolding safe_def fail_request_execution_def by (auto split: option.splits)

lemma same_rows_ok: "attempts db' = attempts db \<Longrightarrow> executions db' = executions db \<Longrightarrow> tables_ok db \<Longrightarrow> tables_ok db' \<and> evolves db db'"
  by (auto simp: tables_ok_def evolves_def attempts_of_def find_attempt_def)

lemma requestExecutionLeaseUntil_Inl: "requestExecutionLeaseUntil now ttl = Inl e \<Longrightarrow> \<not> database_error e"
  by (auto simp: requestExecutionLeaseUntil_def split: if_splits)

lemma safe_leases:
  "safe db (acquire_lease now rid owner ttl)" "safe db (renew_lease now rid owner ttl)" "safe db (release_lease rid owner)"
  using requestExecutionLeaseUntil_Inl
  by (auto simp: safe_def acquire_lease_def renew_lease_def release_lease_def rbind_def good_outcome_def Let_def
      split: sum.splits option.splits intro: same_rows_ok [THEN conjunct1] same_rows_ok [THEN conjunct2])


lemma find_attempt_ok: "tables_ok db \<Longrightarrow> find_attempt db ref = Some a \<Longrightarrow> row_ok a \<and> at_id a = ref"
  using find_attempt_Some by (fastforce simp: tables_ok_def)

lemma safe_dispatch: "safe db (assert_dispatch ref rid owner checkedAt)"
proof (cases "dispatch_row db ref rid")
  case None
  then show ?thesis by (intro safeI) (simp add: assert_dispatch_def)
next
  case (Some r)
  then obtain a e l where r: "r = (a, e, l)" and a: "find_attempt db ref = Some a"
    by (auto simp: dispatch_row_def split: option.splits if_splits)
  let ?accruing = "\<lambda>x. x\<lparr>at_costExposure := Accruing\<rparr>"
  let ?lost = "\<lambda>x. x\<lparr>at_outcome := Some Failed, at_failureClass := Some Non_retryable, at_endedAt := Some checkedAt,
                 at_costExposure := Accruing, at_finalUsageEvidence := Pending_usage,
                 at_reconciliationReason := Some ''execution_ownership_lost''\<rparr>"
  have accruing_safe: "safe db (update_attempt ref ?accruing)" if "at_outcome a = None" "at_costExposure a = Not_started"
  proof (rule safe_update_attempt)
    fix old
    assume "tables_ok db" "find_attempt db ref = Some old"
    with a that find_attempt_ok [of db ref a] show "legal_update old (?accruing old)"
      by (auto simp: legal_update_def row_ok_def row_evolves_def same_columns_def)
  qed (simp add: a)
  have lost_safe: "safe db (update_attempt ref ?lost)" if "at_outcome a = None"
  proof (rule safe_update_attempt)
    fix old
    assume "tables_ok db" "find_attempt db ref = Some old"
    with a that find_attempt_ok [of db ref a] show "legal_update old (?lost old)"
      by (cases "at_costExposure a") (auto simp: legal_update_def row_ok_def row_evolves_def same_columns_def)
  qed (simp add: a)
  show ?thesis
  proof (rule safeI)
    assume ok: "tables_ok db"
    show "good_outcome db (assert_dispatch ref rid owner checkedAt db)"
      unfolding assert_dispatch_def Some r option.case prod.case
      using ok by (auto intro!: safe_goodD [OF _ ok] safe_bind accruing_safe lost_safe safe_terminal_arbiter safe_return)
  qed
qed


lemma failure_reason_known: "providerAttemptFailureReason o' r = Inr reason \<Longrightarrow> known_reason reason"
  by (auto simp: providerAttemptFailureReason_def known_reason_def split: if_splits option.splits)

lemma failure_reason_none: "providerAttemptFailureReason o' r = Inr reason \<Longrightarrow> o' \<noteq> Failed \<Longrightarrow> reason = None"
  by (auto simp: providerAttemptFailureReason_def split: if_splits)

lemma failure_reason_relay: "providerAttemptFailureReason o' r = Inl e \<Longrightarrow> \<not> database_error e"
  by (auto simp: providerAttemptFailureReason_def split: if_splits option.splits)

lemma failure_class_iff: "providerAttemptFailureClass o' fc = None \<longleftrightarrow> o' \<noteq> Failed"
  by (auto simp: providerAttemptFailureClass_def split: option.splits)

lemma finalize_lock_Inr:
  assumes "finalize_lock c b db = Inr (d, db')"
  obtains a where "db' = db" "find_attempt db (fi_ref c) = Some a" "fd_ref d = at_id a" "fd_requestId d = at_requestId a"
    "fd_alreadyFinalized d = at_usageSettled a"
    "fd_expectedFailureClass d = providerAttemptFailureClass (fi_outcome c) (fi_failureClass c)"
    "fi_outcome c \<noteq> Failed \<Longrightarrow> fd_expectedFailureReason d = None" "known_reason (fd_expectedFailureReason d)"
    "\<not> evidence_conflict a (fi_outcome c) (fd_expectedFailureClass d) (fd_expectedFailureReason d) (fd_expectedOutputCommitted d)"
  using assms
  by (auto simp: finalize_lock_def Let_def effects failure_reason_none failure_reason_known split: option.splits if_splits)

lemma finalize_lock_Inl: "finalize_lock c b db = Inl e \<Longrightarrow> \<not> database_error e"
  by (auto simp: finalize_lock_def Let_def effects split: option.splits if_splits dest: failure_reason_relay)

lemma safe_finalize_lock: "safe db (finalize_lock c b)"
  by (rule safeI) (auto simp: good_outcome_def split: sum.splits elim: finalize_lock_Inr dest: finalize_lock_Inl)

lemma settle_legal:
  assumes "row_ok a" "\<not> at_usageSettled a" "\<not> evidence_conflict a outcome fc reason committed"
    "fc = None \<longleftrightarrow> outcome \<noteq> Failed" "outcome \<noteq> Failed \<Longrightarrow> reason = None" "known_reason reason"
  shows "legal_update a (a\<lparr>at_outcome := Some outcome, at_failureClass := fc, at_failureReason := reason,
           at_outputCommitted := committed, at_trustedUsageSource := Some source, at_endedAt := Some t,
           at_costExposure := Stopped, at_finalUsageEvidence := Final_usage, at_usageSettled := True,
           at_reconciliationReason := None\<rparr>)"
  using assms
  by (cases "at_costExposure a") (auto simp: legal_update_def row_ok_def row_evolves_def same_columns_def evidence_conflict_def)

lemma safe_finalize: "safe db (finalize c b t)"
  unfolding finalize_def
proof (rule safe_bind)
  show "safe db (finalize_lock c b)" by (rule safe_finalize_lock)
next
  fix d db'
  assume ok: "tables_ok db" and lock: "finalize_lock c b db = Inr (d, db')"
  obtain a where a: "db' = db" "find_attempt db (fi_ref c) = Some a" "fd_ref d = at_id a"
    "fd_alreadyFinalized d = at_usageSettled a"
    "fd_expectedFailureClass d = providerAttemptFailureClass (fi_outcome c) (fi_failureClass c)"
    "fi_outcome c \<noteq> Failed \<Longrightarrow> fd_expectedFailureReason d = None" "known_reason (fd_expectedFailureReason d)"
    "\<not> evidence_conflict a (fi_outcome c) (fd_expectedFailureClass d) (fd_expectedFailureReason d) (fd_expectedOutputCommitted d)"
    using lock by (rule finalize_lock_Inr) blast
  with find_attempt_ok [OF ok a(2)] have found: "find_attempt db' (fd_ref d) = Some a" "row_ok a" by auto
  show "safe db' (finalize_complete d c t)"
  proof (cases "fd_alreadyFinalized d")
    case True
    then show ?thesis by (simp add: finalize_complete_def)
  next
    case False
    let ?f = "\<lambda>x. x\<lparr>at_outcome := Some (fi_outcome c), at_failureClass := fd_expectedFailureClass d,
                at_failureReason := fd_expectedFailureReason d, at_outputCommitted := fd_expectedOutputCommitted d,
                at_trustedUsageSource := Some (fi_trustedUsageSource c), at_endedAt := Some t,
                at_costExposure := Stopped, at_finalUsageEvidence := Final_usage, at_usageSettled := True,
                at_reconciliationReason := None\<rparr>"
    have legal: "legal_update a (?f a)"
      using found(2) False a by (intro settle_legal) (simp_all add: failure_class_iff)
    have update: "safe db' (update_attempt (fd_ref d) ?f)"
      using found(1) legal by (intro safe_update_attempt) simp_all
    show ?thesis
      unfolding finalize_complete_def using False
    proof (simp, intro safe_bind)
      show "safe db' (update_attempt (fd_ref d) ?f)" by (rule update)
    next
      fix u :: unit and db2
      assume ok1: "tables_ok db'" and "update_attempt (fd_ref d) ?f db' = Inr (u, db2)"
      then have "db2 = replace_row (fd_ref d) (?f a) db'"
        by (simp add: update_attempt_legal [where f = ?f, OF ok1 found(1) legal])
      with found(1) find_attempt_ok [OF ok1 found(1)] have "find_attempt db2 (fd_ref d) = Some (?f a)"
        by (simp add: find_replace_row [OF found(1)])
      then show "safe db2 (\<lambda>db. case fi_requestTerminalStatus c of
            None \<Rightarrow> Inr ((), db)
          | Some status \<Rightarrow>
              (case find_attempt db (fd_ref d) of
                 None \<Rightarrow> Inl missing_row
               | Some a \<Rightarrow>
                   terminal_arbiter \<lparr>co_requestId = fd_requestId d, co_executionOwnerId = at_executionOwnerId a,
                     co_status = status, co_terminalErrorCode = fi_requestTerminalErrorCode c,
                     co_outputCommitted = fi_outputCommitted c, co_completedAt = t\<rparr> False db))"
        using safe_terminal_arbiter unfolding safe_def by (auto split: option.splits)
    qed
  qed
qed

lemma reconcile_legal:
  assumes "row_ok a" "\<not> at_usageSettled a" "\<not> evidence_conflict a outcome fc reason committed"
    "fc = None \<longleftrightarrow> outcome \<noteq> Failed" "outcome \<noteq> Failed \<Longrightarrow> reason = None" "known_reason reason"
    "exposure \<noteq> Not_started" "\<not> (at_costExposure a = Stopped \<and> exposure = Accruing)"
  shows "legal_update a (a\<lparr>at_outcome := Some outcome, at_failureClass := fc, at_failureReason := reason,
           at_outputCommitted := committed,
           at_endedAt := (case at_endedAt a of None \<Rightarrow> Some t | Some u \<Rightarrow> Some u), at_costExposure := exposure,
           at_finalUsageEvidence := Pending_usage, at_reconciliationReason := Some why\<rparr>)"
    (is "legal_update a ?new")
proof -
  have "exposure_rank (at_costExposure a) \<le> exposure_rank exposure"
    using assms(7,8) by (cases "at_costExposure a"; cases exposure) simp_all
  moreover have "at_outcome a \<noteq> None \<Longrightarrow> at_outcome a = Some outcome \<and> at_failureClass a = fc
      \<and> at_failureReason a = reason \<and> at_outputCommitted a = committed"
    using assms(3) by (simp add: evidence_conflict_def)
  ultimately have "row_evolves a ?new" using assms(2) by (auto simp: row_evolves_def same_columns_def)
  moreover have "row_ok ?new"
    using assms(2,4-7) by (cases "outcome = Failed") (simp_all add: row_ok_def split: option.splits)
  ultimately show ?thesis using assms(2) by (simp add: legal_update_def)
qed

definition dispatch_target :: "tables \<Rightarrow> string \<Rightarrow> (attempt_row \<times> execution) option" where
  "dispatch_target db ref =
     Option.bind (find_attempt db ref) (\<lambda>a. map_option (\<lambda>e. (a, e)) (executions db (at_requestId a)))"

lemma safe_reconcile:
  assumes "rc_costExposure c \<noteq> Not_started"
  shows "safe db (reconcile c t)"
proof (rule safeI)
  assume ok: "tables_ok db"
  show "good_outcome db (reconcile c t db)"
  proof (cases "assertReconciliationReason (rc_reason c)")
    case (Inl e)
    then have "\<not> database_error e" by (auto simp: assertReconciliationReason_def require_def split: if_splits)
    with Inl show ?thesis by (simp add: reconcile_def)
  next
    case (Inr u)
    show ?thesis
    proof (cases "dispatch_target db (rc_ref c)")
      case None
      with Inr show ?thesis by (auto simp: reconcile_def dispatch_target_def split: option.splits)
    next
      case (Some ae)
      obtain a e where a: "find_attempt db (rc_ref c) = Some a" and e: "executions db (at_requestId a) = Some e"
        using Some by (auto simp: dispatch_target_def bind_eq_Some_conv)
      note start = reconcile_def Let_def a e option.case Inr [simplified] rbind_simps
      let ?fc = "providerAttemptFailureClass (rc_outcome c) (rc_failureClass c)"
      show ?thesis
      proof (cases "providerAttemptFailureReason (rc_outcome c) (or_else (rc_failureReason c) (at_failureReason a))")
        case (Inl err)
        then have "\<not> database_error err" by (rule failure_reason_relay)
        then show ?thesis unfolding start Inl by simp
      next
        case reason: (Inr reason)
        let ?f = "\<lambda>x. x\<lparr>at_outcome := Some (rc_outcome c), at_failureClass := ?fc, at_failureReason := reason,
                    at_outputCommitted := rc_outputCommitted c,
                    at_endedAt := (case at_endedAt a of None \<Rightarrow> Some t | Some t \<Rightarrow> Some t),
                    at_costExposure := rc_costExposure c, at_finalUsageEvidence := Pending_usage,
                    at_reconciliationReason := Some (rc_reason c)\<rparr>"
        have "legal_update a (?f a)"
          if "\<not> at_usageSettled a" "\<not> evidence_conflict a (rc_outcome c) ?fc reason (rc_outputCommitted c)"
            "\<not> (at_costExposure a = Stopped \<and> rc_costExposure c = Accruing)"
          using that assms find_attempt_ok [OF ok a] failure_reason_none [OF reason] failure_reason_known [OF reason]
          by (intro reconcile_legal) (simp_all add: failure_class_iff)
        then have update: "safe db (update_attempt (rc_ref c) ?f)"
          if "\<not> at_usageSettled a" "\<not> evidence_conflict a (rc_outcome c) ?fc reason (rc_outputCommitted c)"
            "\<not> (at_costExposure a = Stopped \<and> rc_costExposure c = Accruing)"
          using that a by (intro safe_update_attempt) simp_all
        have finish: "safe db' (tx_bind (if ex_status e = Running_execution \<or> ex_status e = Pending_execution
                                   then terminal_arbiter k False else tx_return ()) (\<lambda>_. tx_return True))" for db' k
          by (auto intro: safe_bind safe_terminal_arbiter)
        show ?thesis
          unfolding start reason
          by (intro good_outcome_if; ((rule safe_goodD [OF safe_bind [OF update finish] ok]; assumption) | simp add: ok))
      qed
    qed
  qed
qed


subsection \<open>Admission\<close>

definition add_attempt :: "string \<Rightarrow> execution \<Rightarrow> attempt_row \<Rightarrow> tables \<Rightarrow> tables" where
  "add_attempt rid e row db = (put_execution rid e db)\<lparr>attempts := attempts db @ [row]\<rparr>"

lemma attempts_of_add:
  "attempts_of (add_attempt rid e row db) r = attempts_of db r @ (if at_requestId row = r then [row] else [])"
  by (simp add: add_attempt_def attempts_of_def)

lemma find_attempt_add:
  "find_attempt (add_attempt rid e row db) ref
     = (case find_attempt db ref of Some a \<Rightarrow> Some a | None \<Rightarrow> if at_id row = ref then Some row else None)"
proof -
  have "List.find (\<lambda>a. at_id a = ref) (xs @ [row])
          = (case List.find (\<lambda>a. at_id a = ref) xs of Some a \<Rightarrow> Some a | None \<Rightarrow> if at_id row = ref then Some row else None)"
    for xs by (induction xs) auto
  then show ?thesis by (simp add: find_attempt_def add_attempt_def)
qed

lemma add_attempt_good:
  assumes ok: "tables_ok db" and row: "row_ok row" "at_id row \<notin> at_id ` set (attempts db)" "at_requestId row = rid"
    and request: "request_ok (attempts_of db rid @ [row]) (Some e)"
    and old: "case executions db rid of None \<Rightarrow> True | Some e0 \<Rightarrow> execution_evolves e0 e"
  shows "tables_ok (add_attempt rid e row db)" "evolves db (add_attempt rid e row db)"
proof -
  have requests: "request_ok (attempts_of (add_attempt rid e row db) r) (executions (add_attempt rid e row db) r)" for r
    using ok row(3) request unfolding attempts_of_add by (auto simp: add_attempt_def tables_ok_def)
  with ok row show "tables_ok (add_attempt rid e row db)"
    unfolding tables_ok_def by (auto simp: add_attempt_def)
  show "evolves db (add_attempt rid e row db)"
    using old by (auto simp: evolves_def find_attempt_add) (auto simp: add_attempt_def)
qed

text \<open>The next attempt of a request: its number is the number of attempts it has.\<close>

lemma next_attempt_ok:
  assumes "request_ok rows (Some e)" "at_attemptIndex row = ex_attemptCount e" "at_executionOwnerId row = ex_ownerId e"
    "fc_candidateId (at_candidate row) \<notin> (\<lambda>a. fc_candidateId (at_candidate a)) ` set rows"
    "rows \<noteq> [] \<Longrightarrow> at_usageSettled (last rows)"
  shows "request_ok (rows @ [row]) (Some (e\<lparr>ex_attemptCount := ex_attemptCount e + 1\<rparr>))"
proof -
  have "list_all at_usageSettled rows"
    using assms(1,5) by (cases rows rule: rev_cases) (auto simp: request_ok_def)
  with assms(1-4) show ?thesis by (auto simp: request_ok_def is_terminal_def)
qed

lemma new_attempt_row_simps [simp]:
  "at_id (new_attempt_row c ref u t m) = ref" "at_requestId (new_attempt_row c ref u t m) = ai_requestId c"
  "at_attemptIndex (new_attempt_row c ref u t m) = ai_attemptIndex c"
  "at_candidate (new_attempt_row c ref u t m) = ai_candidate c"
  "at_executionOwnerId (new_attempt_row c ref u t m) = ai_executionOwnerId c"
  "at_usageSettled (new_attempt_row c ref u t m) = False"
  "row_ok (new_attempt_row c ref u t m)"
  by (simp_all add: new_attempt_row_def row_ok_def)

lemma new_execution_simps [simp]:
  "ex_attemptCount (new_execution c s t) = 0" "ex_ownerId (new_execution c s t) = ai_executionOwnerId c"
  "request_ok [] (Some (new_execution c s t))"
  by (simp_all add: new_execution_def request_ok_def is_terminal_def)

definition attempt_ref :: "persistence_material \<Rightarrow> string \<Rightarrow> string" where
  "attempt_ref m fresh = (case pm_providerAttemptRef m of None \<Rightarrow> fresh | Some r \<Rightarrow> r)"

lemma attempts_of_set: "a \<in> set (attempts db) \<Longrightarrow> at_requestId a = rid \<Longrightarrow> a \<in> set (attempts_of db rid)"
  by (simp add: attempts_of_def)

text \<open>
  What \<open>persist_attempt\<close> does to the tables, once the request is ready for its next attempt: the
  first attempt creates the execution, a fallback finds it.
\<close>

lemma persist_attempt_result:
  assumes ok: "tables_ok db" and request: "request_ok (attempts_of db (ai_requestId c)) (Some e)"
    and next_one: "ai_attemptIndex c = ex_attemptCount e"
      "fc_candidateId (ai_candidate c) \<notin> (\<lambda>a. fc_candidateId (at_candidate a)) ` set (attempts_of db (ai_requestId c))"
    and exec: "case source of
        Some s \<Rightarrow> executions db (ai_requestId c) = None \<and> e = new_execution c s startedAt
      | None \<Rightarrow> executions db (ai_requestId c) = Some e"
    and fresh_ref: "attempt_ref m fresh \<notin> at_id ` set (attempts db)"
  shows "persist_attempt c source leaseUntil startedAt m fresh db
      = Inr (stored_of_command c (attempt_ref m fresh) startedAt,
             add_attempt (ai_requestId c) (e\<lparr>ex_attemptCount := ex_attemptCount e + 1\<rparr>)
               (new_attempt_row c (attempt_ref m fresh) leaseUntil startedAt m) db)"
proof -
  let ?row = "new_attempt_row c (attempt_ref m fresh) leaseUntil startedAt m"
  have "ai_attemptIndex c \<noteq> at_attemptIndex a" if "a \<in> set (attempts_of db (ai_requestId c))" for a
  proof -
    have "at_attemptIndex a \<in> set (map at_attemptIndex (attempts_of db (ai_requestId c)))" using that by simp
    also have "\<dots> = int ` {0..<length (attempts_of db (ai_requestId c))}" using request by (simp add: request_ok_def)
    finally show ?thesis using request next_one(1) by (auto simp: request_ok_def)
  qed
  then have "\<not> same_key ?row a" if "a \<in> set (attempts db)" for a
    using that next_one(2) fresh_ref attempts_of_set [OF that]
    by (fastforce simp: same_key_def)
  then have no_clash: "\<not> list_ex (same_key ?row) (attempts db)" by (auto simp: list_ex_iff)
  show ?thesis
    using exec no_clash
    by (cases source)
      (auto simp: persist_attempt_def Let_def attempt_ref_def [symmetric] tx_bind_def tx_return_def
        insert_execution_def create_attempt_def update_execution_def add_attempt_def put_execution_def)
qed


lemma identity_errors: "assertProviderAttemptAdmissionIdentity c = Inl e \<Longrightarrow> is_relay e"
  by (auto simp: assertProviderAttemptAdmissionIdentity_def split: if_splits)

lemma traverse_InlD: "traverse f xs = Inl e \<Longrightarrow> \<exists>x \<in> set xs. f x = Inl e"
  by (induction xs) (auto simp: effects)

lemma stored_of_row_errors: "stored_of_row a = Inl e \<Longrightarrow> is_relay e"
proof -
  have revision: "is_relay e" if "parse_routing_revision v = Inl e" for v
    using that by (cases v rule: parse_routing_revision.cases)
      (auto simp: snapshot_invalid_def split: jsval.splits option.splits)
  have "is_relay e" if "parseStringifiedArray t = Inl e" for t
    using that by (auto simp: parseStringifiedArray_def snapshot_invalid_def split: option.splits jsval.splits)
  then show "stored_of_row a = Inl e \<Longrightarrow> is_relay e"
    by (auto simp: stored_of_row_def parseRoutingRevisions_def effects dest!: traverse_InlD revision)
qed

lemma check_replay_errors: "check_replay c r = Inl e \<Longrightarrow> is_relay e"
  by (cases r) (auto simp: check_replay_def assertEquivalentAttemptIdentity_def assert_same_source_def effects)

lemma read_admission_errors: "readAdmissionAttempt db rid cid = Inl e \<Longrightarrow> is_relay e"
  by (auto simp: readAdmissionAttempt_def effects stored_of_row_errors split: option.splits)

lemma find_replay_errors: "find_replay c db = Inl e \<Longrightarrow> is_relay e"
  by (auto simp: find_replay_def effects identity_errors read_admission_errors check_replay_errors split: option.splits)

lemma inspect_new_errors: "inspect_new kind c t (Some None) db = Inl e \<Longrightarrow> is_relay e"
  by (auto simp: inspect_new_def effects identity_errors split: option.splits admission_kind.splits if_splits)

lemma is_relay_not_database: "is_relay e \<Longrightarrow> \<not> database_error e"
  by (cases e) (auto simp: database_error_def trigger_error_def missing_row_def unique_error_def)

lemma admission_row_None:
  assumes ok: "tables_ok db" and none: "admission_row db rid cid = None"
  shows "cid \<notin> (\<lambda>a. fc_candidateId (at_candidate a)) ` set (attempts_of db rid)"
proof
  assume "cid \<in> (\<lambda>a. fc_candidateId (at_candidate a)) ` set (attempts_of db rid)"
  then obtain b where b: "b \<in> set (attempts_of db rid)" "fc_candidateId (at_candidate b) = cid" by auto
  then have "List.find (\<lambda>a. at_requestId a = rid \<and> fc_candidateId (at_candidate a) = cid) (attempts db) \<noteq> None"
    by (auto simp: find_None_iff attempts_of_def)
  with none have "executions db rid = None" by (auto simp: admission_row_def split: option.splits)
  moreover have "request_ok (attempts_of db rid) (executions db rid)" using ok by (simp add: tables_ok_def)
  ultimately show False using b(1) by (simp add: request_ok_def)
qed

lemma find_replay_None: "find_replay c db = Inr None \<Longrightarrow> admission_row db (ai_requestId c) (fc_candidateId (ai_candidate c)) = None"
  by (auto simp: find_replay_def readAdmissionAttempt_def effects split: option.splits)

text \<open>An attempt whose number is the last one of its request is the last row of the request.\<close>

lemma last_attempt:
  assumes "request_ok rows (Some e)" "p \<in> set rows" "at_attemptIndex p = ex_attemptCount e - 1"
  shows "p = last rows"
proof -
  obtain i where i: "i < length rows" "p = rows ! i" using assms(2) by (auto simp: in_set_conv_nth)
  from assms(1) have indices: "map at_attemptIndex rows = map int [0..<length rows]"
    and count: "ex_attemptCount e = int (length rows)" by (simp_all add: request_ok_def)
  from indices have "map at_attemptIndex rows ! i = map int [0..<length rows] ! i" by simp
  with i assms(3) count have "int i = int (length rows) - 1" by simp
  with i show ?thesis by (cases rows rule: rev_cases) auto
qed

lemma admit_new_result:
  assumes ok: "tables_ok db" and none: "find_replay c db = Inr None" and fresh_ref: "attempt_ref m fresh \<notin> at_id ` set (attempts db)"
    and d: "inspect_new kind c inspectedAt (Some None) db = Inr d"
  obtains e leaseUntil where
    "execute_admission c d startedAt m fresh db
       = Inr (stored_of_command c (attempt_ref m fresh) startedAt,
              add_attempt (ai_requestId c) (e\<lparr>ex_attemptCount := ex_attemptCount e + 1\<rparr>)
                (new_attempt_row c (attempt_ref m fresh) leaseUntil startedAt m) db)"
    "request_ok (attempts_of db (ai_requestId c) @ [new_attempt_row c (attempt_ref m fresh) leaseUntil startedAt m])
       (Some (e\<lparr>ex_attemptCount := ex_attemptCount e + 1\<rparr>))"
    "case executions db (ai_requestId c) of
        None \<Rightarrow> ai_selectedSourceRef c \<noteq> None \<and> ex_selectedSourceRef e = ai_selectedSourceRef c
      | Some e0 \<Rightarrow> e = e0 \<and> ex_status e = Running_execution"
proof -
  let ?rid = "ai_requestId c"
  have request: "request_ok (attempts_of db ?rid) (executions db ?rid)" using ok by (simp add: tables_ok_def)
  note candidate = admission_row_None [OF ok find_replay_None [OF none]]
  show thesis
  proof (cases kind)
    case First_attempt
    with d obtain u source where d': "d = Admit_first u source" "executions db ?rid = None" "ai_attemptIndex c = 0"
      "ai_selectedSourceRef c = Some source"
      by (auto simp: inspect_new_def effects split: option.splits if_splits)
    let ?e = "new_execution c source startedAt"
    have rows: "attempts_of db ?rid = []" using request d'(2) by (simp add: request_ok_def)
    show thesis
    proof (rule that)
      show "execute_admission c d startedAt m fresh db
         = Inr (stored_of_command c (attempt_ref m fresh) startedAt,
                add_attempt ?rid (?e\<lparr>ex_attemptCount := ex_attemptCount ?e + 1\<rparr>)
                  (new_attempt_row c (attempt_ref m fresh) u startedAt m) db)"
        unfolding execute_admission_def d'(1) admission_decision.case
        by (rule persist_attempt_result [OF ok]) (use d' rows fresh_ref in simp_all)
      show "request_ok (attempts_of db ?rid @ [new_attempt_row c (attempt_ref m fresh) u startedAt m])
         (Some (?e\<lparr>ex_attemptCount := ex_attemptCount ?e + 1\<rparr>))"
        using d' rows by (intro next_attempt_ok) simp_all
      show "case executions db ?rid of
          None \<Rightarrow> ai_selectedSourceRef c \<noteq> None \<and> ex_selectedSourceRef ?e = ai_selectedSourceRef c
        | Some e0 \<Rightarrow> ?e = e0 \<and> ex_status ?e = Running_execution"
        using d' by (simp add: new_execution_def)
    qed
  next
    case Fallback_attempt
    with d obtain u e p where d': "d = Admit_fallback u (ex_selectedSourceRef e)" "executions db ?rid = Some e"
      "ex_status e = Running_execution" "ex_ownerId e = ai_executionOwnerId c" "ex_attemptCount e = ai_attemptIndex c"
      "List.find (\<lambda>a. at_requestId a = ?rid \<and> at_attemptIndex a = ai_attemptIndex c - 1) (attempts db) = Some p"
      "at_usageSettled p"
      by (auto simp: inspect_new_def effects split: option.splits if_splits)
    from d'(2) request have request': "request_ok (attempts_of db ?rid) (Some e)" by simp
    from d'(6) have "p \<in> set (attempts_of db ?rid)" "at_attemptIndex p = ex_attemptCount e - 1"
      using d'(5) by (auto simp: find_Some_iff attempts_of_def)
    then have "p = last (attempts_of db ?rid)" by (intro last_attempt [OF request'])
    with d'(7) have last_settled: "at_usageSettled (last (attempts_of db ?rid))" by simp
    show thesis
    proof (rule that)
      show "execute_admission c d startedAt m fresh db
         = Inr (stored_of_command c (attempt_ref m fresh) startedAt,
                add_attempt ?rid (e\<lparr>ex_attemptCount := ex_attemptCount e + 1\<rparr>)
                  (new_attempt_row c (attempt_ref m fresh) u startedAt m) db)"
        unfolding execute_admission_def d'(1) admission_decision.case
        by (rule persist_attempt_result [OF ok request']) (use d' candidate fresh_ref in simp_all)
      show "request_ok (attempts_of db ?rid @ [new_attempt_row c (attempt_ref m fresh) u startedAt m])
         (Some (e\<lparr>ex_attemptCount := ex_attemptCount e + 1\<rparr>))"
        using request' d' candidate last_settled by (intro next_attempt_ok) simp_all
      show "case executions db ?rid of
          None \<Rightarrow> ai_selectedSourceRef c \<noteq> None \<and> ex_selectedSourceRef e = ai_selectedSourceRef c
        | Some e0 \<Rightarrow> e = e0 \<and> ex_status e = Running_execution"
        using d' by simp
    qed
  qed
qed

lemma admit_good:
  assumes ok: "tables_ok db" and fresh_ref: "attempt_ref m fresh \<notin> at_id ` set (attempts db)"
  shows "good_outcome db (admit kind c inspectedAt startedAt m fresh db)"
proof (cases "find_replay c db")
  case (Inl err)
  then show ?thesis by (simp add: admit_def find_replay_errors is_relay_not_database)
next
  case (Inr found)
  show ?thesis
  proof (cases found)
    case (Some r)
    with Inr ok show ?thesis by (simp add: admit_def)
  next
    case None
    with Inr have none: "find_replay c db = Inr None" by simp
    show ?thesis
    proof (cases "inspect_new kind c inspectedAt (Some None) db")
      case (Inl err)
      with none show ?thesis by (simp add: admit_def is_relay_not_database inspect_new_errors)
    next
      case (Inr d)
      obtain e u where result: "execute_admission c d startedAt m fresh db
         = Inr (stored_of_command c (attempt_ref m fresh) startedAt,
                add_attempt (ai_requestId c) (e\<lparr>ex_attemptCount := ex_attemptCount e + 1\<rparr>)
                  (new_attempt_row c (attempt_ref m fresh) u startedAt m) db)"
        and request: "request_ok (attempts_of db (ai_requestId c) @ [new_attempt_row c (attempt_ref m fresh) u startedAt m])
           (Some (e\<lparr>ex_attemptCount := ex_attemptCount e + 1\<rparr>))"
        and old: "case executions db (ai_requestId c) of
            None \<Rightarrow> ai_selectedSourceRef c \<noteq> None \<and> ex_selectedSourceRef e = ai_selectedSourceRef c
          | Some e0 \<Rightarrow> e = e0 \<and> ex_status e = Running_execution"
        by (rule admit_new_result [OF ok none fresh_ref Inr])
      have "case executions db (ai_requestId c) of None \<Rightarrow> True
          | Some e0 \<Rightarrow> execution_evolves e0 (e\<lparr>ex_attemptCount := ex_attemptCount e + 1\<rparr>)"
        using old by (auto simp: execution_evolves_def is_terminal_def split: option.splits)
      with add_attempt_good [OF ok _ _ _ request] fresh_ref
      show ?thesis using none Inr result by (simp add: admit_def)
    qed
  qed
qed

end
