(* ===== verification/Execution_Runs.thy ===== *)
theory Execution_Runs
  imports Execution_Invariants
begin

section \<open>Runs of the execution tables\<close>

text \<open>
  The commands of \<open>packages/request-execution\<close> as one step relation, in any order and from any
  caller, beside the steps of the package that owns the request log. The theorems are about
  every state such a run reaches.
\<close>

subsection \<open>Commands\<close>

datatype request_op =
    Op_acquire timestamp string string int
  | Op_renew timestamp string string int
  | Op_release string string
  | Op_admit admission_kind admission_identity timestamp timestamp persistence_material string
  | Op_dispatch string string string timestamp
  | Op_finalize finalize_command bool timestamp
  | Op_reconcile reconcile_command timestamp
  | Op_fail string string string timestamp
  | Op_complete completion

definition forget :: "('a \<times> tables) result \<Rightarrow> tables result" where
  "forget r = rbind r (\<lambda>(_, db). Inr db)"

fun run_op :: "request_op \<Rightarrow> tables \<Rightarrow> tables result" where
  "run_op (Op_acquire now rid owner ttl) db = forget (acquire_lease now rid owner ttl db)"
| "run_op (Op_renew now rid owner ttl) db = forget (renew_lease now rid owner ttl db)"
| "run_op (Op_release rid owner) db = forget (release_lease rid owner db)"
| "run_op (Op_admit kind c inspectedAt startedAt m fresh) db = forget (admit kind c inspectedAt startedAt m fresh db)"
| "run_op (Op_dispatch ref rid owner t) db = forget (assert_dispatch ref rid owner t db)"
| "run_op (Op_finalize c strict t) db = forget (finalize c strict t db)"
| "run_op (Op_reconcile c t) db = forget (reconcile c t db)"
| "run_op (Op_fail rid owner code t) db = forget (fail_request_execution rid owner code t db)"
| "run_op (Op_complete c) db = forget (complete_request_execution c db)"

text \<open>
  What the types of the commands promise: reconciliation names a cost that has started, a first
  command carries its source and a fallback none, revisions are safe integers.
\<close>

definition typed_admission :: "admission_kind \<Rightarrow> admission_identity \<Rightarrow> bool" where
  "typed_admission kind c \<longleftrightarrow>
     (kind = First_attempt) = (ai_selectedSourceRef c \<noteq> None)
     \<and> list_all (\<lambda>r. is_safe_int (snd r)) (fr_routingRevisions (ai_routing c))"

fun typed_op :: "request_op \<Rightarrow> bool" where
  "typed_op (Op_reconcile c t) = (rc_costExposure c \<noteq> Not_started)"
| "typed_op (Op_admit kind c _ _ _ _) = typed_admission kind c"
| "typed_op _ = True"

fun fresh_op :: "tables \<Rightarrow> request_op \<Rightarrow> bool" where
  "fresh_op db (Op_admit _ _ _ _ m fresh) = (find_attempt db (attempt_ref m fresh) = None)"
| "fresh_op db _ = True"

inductive request_step :: "tables \<Rightarrow> tables \<Rightarrow> bool" where
  operation: "typed_op op \<Longrightarrow> run_op op db = Inr db' \<Longrightarrow> request_step db db'"
| request_log: "request_step db (db\<lparr>request_logs := logs\<rparr>)"

definition empty_tables :: "tables \<Rightarrow> bool" where
  "empty_tables db \<longleftrightarrow> attempts db = [] \<and> (\<forall>rid. executions db rid = None \<and> leases db rid = None)"

subsection \<open>Every command keeps the promise\<close>

lemma forget_simps [simp]: "forget (Inl e) = Inl e" "forget (Inr (x, db)) = Inr db"
  by (simp_all add: forget_def)

definition promised :: "tables \<Rightarrow> tables result \<Rightarrow> bool" where
  "promised db r = (case r of Inl e \<Rightarrow> \<not> database_error e | Inr db' \<Rightarrow> tables_ok db' \<and> evolves db db')"

lemma promised_simps [simp]:
  "promised db (Inl e) = (\<not> database_error e)" "promised db (Inr db') = (tables_ok db' \<and> evolves db db')"
  by (simp_all add: promised_def)

lemma promised_forget: "promised db (forget r) = good_outcome db r"
  by (cases r) (auto simp: promised_def good_outcome_def)

lemma fresh_attempt_ref: "find_attempt db ref = None \<longleftrightarrow> ref \<notin> at_id ` set (attempts db)"
  by (auto simp: find_attempt_def find_None_iff)

lemma run_op_promised:
  assumes ok: "tables_ok db" and "typed_op op" "fresh_op db op"
  shows "promised db (run_op op db)"
  using assms(2,3)
  by (cases op)
    (simp_all add: promised_forget safe_goodD [OF _ ok] safe_leases safe_dispatch safe_finalize safe_reconcile safe_fail
      complete_request_execution_def safe_terminal_arbiter admit_good [OF ok] fresh_attempt_ref)

text \<open>An admission that reuses an identifier is a replay, or fails.\<close>

lemma persist_used_ref:
  assumes "find_attempt db (attempt_ref m fresh) \<noteq> None"
  shows "\<not> persist_attempt c source leaseUntil startedAt m fresh db = Inr r"
proof -
  from assms obtain a where "a \<in> set (attempts db)" "at_id a = attempt_ref m fresh"
    by (auto simp: fresh_attempt_ref)
  then have "\<exists>b \<in> set (attempts db). same_key (new_attempt_row c (attempt_ref m fresh) leaseUntil startedAt m) b"
    by (intro bexI [of _ a]) (simp_all add: same_key_def)
  then have "list_ex (same_key (new_attempt_row c (attempt_ref m fresh) leaseUntil startedAt m)) (attempts db)"
    by (simp add: list_ex_iff)
  then show ?thesis
    by (cases source)
      (auto simp: persist_attempt_def Let_def attempt_ref_def [symmetric] effects create_attempt_def insert_execution_def
        split: if_splits)
qed

lemma admit_Inr:
  assumes "admit kind c inspectedAt startedAt m fresh db = Inr (s, db')"
  obtains "db' = db" | source u where "persist_attempt c source u startedAt m fresh db = Inr (s, db')"
proof -
  from assms obtain found where found: "find_replay c db = Inr found" by (auto simp: admit_def effects)
  show thesis
  proof (cases found)
    case (Some r)
    with found assms show thesis by (intro that(1)) (simp add: admit_def)
  next
    case None
    with found assms obtain d where "execute_admission c d startedAt m fresh db = Inr (s, db')"
      by (auto simp: admit_def effects)
    then show thesis using that by (cases d) (auto simp: execute_admission_def)
  qed
qed

lemma admit_used_ref:
  assumes "find_attempt db (attempt_ref m fresh) \<noteq> None" "admit kind c inspectedAt startedAt m fresh db = Inr (s, db')"
  shows "db' = db"
  using assms(2) persist_used_ref [OF assms(1)] by (auto elim: admit_Inr)

lemma request_step_ok: "tables_ok db \<Longrightarrow> request_step db db' \<Longrightarrow> tables_ok db' \<and> evolves db db'"
proof (erule request_step.cases, goal_cases)
  case (1 op old new)
  show ?case
  proof (cases "fresh_op old op")
    case True
    with run_op_promised [of old op] 1 show ?thesis by simp
  next
    case False
    then obtain kind c i s m f where op: "op = Op_admit kind c i s m f" "find_attempt old (attempt_ref m f) \<noteq> None"
      by (cases op) auto
    with 1 obtain x where "admit kind c i s m f old = Inr (x, new)" by (auto simp: forget_def effects)
    from admit_used_ref [OF op(2) this] 1 show ?thesis by simp
  qed
next
  case (2 old logs)
  then show ?case by (intro same_rows_ok) simp_all
qed

lemma empty_tables_ok: "empty_tables db \<Longrightarrow> tables_ok db"
  by (simp add: empty_tables_def tables_ok_def attempts_of_def request_ok_def)

interpretation request_tables: evolving_system empty_tables request_step tables_ok evolves
  by unfold_locales (auto simp: empty_tables_ok request_step_ok intro: evolves_trans)

subsection \<open>Admission for ever\<close>

lemma parse_ids [simp]: "parseStringifiedArray (ids_json xs) = Inr (map JStr xs)"
proof -
  have "json_parse (ids_json xs) = Some (of_json (Json_arr (map Json_str xs)))"
    unfolding ids_json_def by (rule json_roundtrip) (simp add: list_all_iff)
  then show ?thesis by (simp add: parseStringifiedArray_def o_def)
qed

lemma parse_revisions:
  assumes "list_all (\<lambda>r. is_safe_int (snd r)) rs"
  shows "parseRoutingRevisions (routing_revisions_json rs) = Inr rs"
proof -
  let ?item = "\<lambda>(ap, n). Json_obj [(''accessPointId'', Json_str ap), (''routingRevision'', Json_int n)]"
  have "json_parse (routing_revisions_json rs) = Some (of_json (Json_arr (map ?item rs)))"
    unfolding routing_revisions_json_def by (rule json_roundtrip) (use assms in \<open>auto simp: list_all_iff\<close>)
  then have parsed: "parseStringifiedArray (routing_revisions_json rs) = Inr (map (\<lambda>r. of_json (?item r)) rs)"
    by (simp add: parseStringifiedArray_def o_def)
  have "traverse parse_routing_revision (map (\<lambda>r. of_json (?item r)) rs) = Inr rs"
    using assms
  proof (induction rs)
    case (Cons r rs)
    then show ?case by (cases r) (simp del: of_int_add)
  qed simp
  with parsed show ?thesis by (simp add: parseRoutingRevisions_def)
qed

lemma stored_of_new_row:
  assumes "list_all (\<lambda>r. is_safe_int (snd r)) (fr_routingRevisions (ai_routing c))"
  shows "stored_of_row (new_attempt_row c ref leaseUntil startedAt m) = Inr (stored_of_command c ref startedAt)"
  using parse_revisions [OF assms] by (simp add: stored_of_row_def new_attempt_row_def stored_of_command_def)

lemma same_identity_stored: "same_identity (stored_of_command c ref t) c"
  by (simp add: same_identity_def stored_of_command_def)

lemma admission_row_iff:
  assumes ok: "tables_ok db"
  shows "admission_row db rid cid = Some (a, e) \<longleftrightarrow>
     a \<in> set (attempts db) \<and> at_requestId a = rid \<and> fc_candidateId (at_candidate a) = cid \<and> executions db rid = Some e"
    (is "?l \<longleftrightarrow> ?r")
proof
  assume ?l
  then show ?r by (auto simp: admission_row_def find_Some_iff split: option.splits)
next
  assume r: ?r
  then obtain b where b: "List.find (\<lambda>a. at_requestId a = rid \<and> fc_candidateId (at_candidate a) = cid) (attempts db) = Some b"
    by (cases "List.find (\<lambda>a. at_requestId a = rid \<and> fc_candidateId (at_candidate a) = cid) (attempts db)")
      (auto simp: find_None_iff)
  then have mem: "a \<in> set (attempts_of db rid)" "b \<in> set (attempts_of db rid)"
    and same: "fc_candidateId (at_candidate b) = cid"
    using r by (auto simp: attempts_of_def find_Some_iff)
  have "request_ok (attempts_of db rid) (executions db rid)" using ok by (simp add: tables_ok_def)
  with r have "inj_on (\<lambda>a. fc_candidateId (at_candidate a)) (set (attempts_of db rid))"
    by (simp add: request_ok_def distinct_map)
  with mem same r have "b = a" by (auto dest: inj_onD)
  with b r show ?l by (simp add: admission_row_def)
qed

lemma stored_of_row_same: "same_columns a b \<Longrightarrow> stored_of_row b = stored_of_row a"
  by (simp add: stored_of_row_def same_columns_def)

lemma replay_stable:
  assumes ok: "tables_ok db" "tables_ok db'" and ev: "evolves db db'" and found: "find_replay c db = Inr (Some r)"
  shows "find_replay c db' = Inr (Some r)"
proof -
  let ?rid = "ai_requestId c" and ?cid = "fc_candidateId (ai_candidate c)"
  obtain a e where row: "admission_row db ?rid ?cid = Some (a, e)"
    using found by (auto simp: find_replay_def readAdmissionAttempt_def effects split: option.splits)
  then have old: "a \<in> set (attempts db)" "at_requestId a = ?rid" "fc_candidateId (at_candidate a) = ?cid"
    "executions db ?rid = Some e"
    by (simp_all add: admission_row_iff [OF ok(1)])
  have "find_attempt db (at_id a) = Some a" using old(1) by (simp add: find_attempt_unique [OF ok(1)])
  with ev obtain b where b: "find_attempt db' (at_id a) = Some b" "row_evolves a b"
    unfolding evolves_def by blast
  from ev old(4) obtain f where f: "executions db' ?rid = Some f" "execution_evolves e f"
    unfolding evolves_def by blast
  from b have same: "same_columns a b" by (simp add: row_evolves_def)
  have "admission_row db' ?rid ?cid = Some (b, f)"
    using b find_attempt_Some [OF b(1)] old f same by (simp add: admission_row_iff [OF ok(2)] same_columns_def)
  with row have "readAdmissionAttempt db' ?rid ?cid = readAdmissionAttempt db ?rid ?cid"
    using stored_of_row_same [OF same] f(2) by (simp add: readAdmissionAttempt_def execution_evolves_def)
  with found show ?thesis by (simp add: find_replay_def)
qed

lemma admit_then_replay:
  assumes ok: "tables_ok db" and typed: "typed_admission kind c"
    and run: "admit kind c inspectedAt startedAt m fresh db = Inr (stored, db')"
  shows "\<exists>source. find_replay c db' = Inr (Some (stored, source))"
proof -
  from run obtain found where found: "find_replay c db = Inr found" by (auto simp: admit_def effects)
  show ?thesis
  proof (cases found)
    case (Some r)
    with run found show ?thesis by (cases r) (auto simp: admit_def)
  next
    case None
    with found have none: "find_replay c db = Inr None" by simp
    with run obtain d where d: "inspect_new kind c inspectedAt (Some None) db = Inr d"
      and execute: "execute_admission c d startedAt m fresh db = Inr (stored, db')"
      by (auto simp: admit_def effects)
    have fresh_ref: "find_attempt db (attempt_ref m fresh) = None"
    proof (rule ccontr)
      assume "find_attempt db (attempt_ref m fresh) \<noteq> None"
      from persist_used_ref [OF this] execute d show False
        by (auto simp: execute_admission_def inspect_new_def effects
            split: admission_decision.splits option.splits admission_kind.splits if_splits)
    qed
    obtain e u where result: "execute_admission c d startedAt m fresh db
         = Inr (stored_of_command c (attempt_ref m fresh) startedAt,
                add_attempt (ai_requestId c) (e\<lparr>ex_attemptCount := ex_attemptCount e + 1\<rparr>)
                  (new_attempt_row c (attempt_ref m fresh) u startedAt m) db)"
      and source: "case executions db (ai_requestId c) of
          None \<Rightarrow> ai_selectedSourceRef c \<noteq> None \<and> ex_selectedSourceRef e = ai_selectedSourceRef c
        | Some e0 \<Rightarrow> e = e0 \<and> ex_status e = Running_execution"
      using admit_new_result [OF ok none fresh_ref [unfolded fresh_attempt_ref] d] by blast
    let ?row = "new_attempt_row c (attempt_ref m fresh) u startedAt m"
    let ?e = "e\<lparr>ex_attemptCount := ex_attemptCount e + 1\<rparr>"
    from result execute have new: "stored = stored_of_command c (attempt_ref m fresh) startedAt"
      "db' = add_attempt (ai_requestId c) ?e ?row db" by simp_all
    have ok': "tables_ok db'"
      using run admit_good [OF ok fresh_ref [unfolded fresh_attempt_ref], of kind c inspectedAt startedAt] by simp
    have "admission_row db' (ai_requestId c) (fc_candidateId (ai_candidate c)) = Some (?row, ?e)"
      by (subst admission_row_iff [OF ok']) (simp add: new(2) add_attempt_def)
    moreover have "stored_of_row ?row = Inr stored"
      using typed by (simp add: new(1) stored_of_new_row typed_admission_def)
    moreover have "assertProviderAttemptAdmissionIdentity c = Inr ()" using none by (auto simp: find_replay_def effects)
    moreover have "case ai_selectedSourceRef c of None \<Rightarrow> True | Some s \<Rightarrow> ex_selectedSourceRef e = Some s"
      using source typed d
      by (cases kind) (auto simp: typed_admission_def inspect_new_def effects split: option.splits if_splits)
    ultimately show ?thesis
      by (auto simp: find_replay_def readAdmissionAttempt_def check_replay_def assertEquivalentAttemptIdentity_def
          assert_same_source_def new(1) same_identity_stored)
  qed
qed

lemma replay_admit: "find_replay c db = Inr (Some (stored, source)) \<Longrightarrow> admit kind c i s m f db = Inr (stored, db)"
  by (simp add: admit_def)


subsection \<open>Leases\<close>

fun by_other :: "string \<Rightarrow> timestamp \<Rightarrow> request_op \<Rightarrow> bool" where
  "by_other p until (Op_acquire now rid owner ttl) = (owner \<noteq> p \<and> now < until)"
| "by_other p until (Op_renew now rid owner ttl) = (owner \<noteq> p \<and> now < until)"
| "by_other p until (Op_release rid owner) = (owner \<noteq> p)"
| "by_other p until _ = True"

inductive others_step :: "string \<Rightarrow> timestamp \<Rightarrow> tables \<Rightarrow> tables \<Rightarrow> bool" where
  operation: "by_other p until op \<Longrightarrow> run_op op db = Inr db' \<Longrightarrow> others_step p until db db'"
| request_log: "others_step p until db (db\<lparr>request_logs := logs\<rparr>)"

definition lease_holder :: "tables \<Rightarrow> string \<Rightarrow> (string \<times> timestamp) option" where
  "lease_holder db rid = map_option (\<lambda>l. (le_ownerId l, le_leaseUntil l)) (leases db rid)"

definition isOK :: "'a result \<Rightarrow> bool" where
  "isOK r = (case r of Inl _ \<Rightarrow> False | Inr _ \<Rightarrow> True)"

text \<open>Only the three lease commands write leases.\<close>

lemma update_attempt_leases: "update_attempt ref f db = Inr (x, db') \<Longrightarrow> leases db' = leases db"
  by (auto simp: update_attempt_def split: option.splits if_splits)

lemma update_execution_leases: "update_execution rid f db = Inr (x, db') \<Longrightarrow> leases db' = leases db"
  by (auto simp: update_execution_def split: option.splits)

lemma terminal_arbiter_leases: "terminal_arbiter c b db = Inr (x, db') \<Longrightarrow> leases db' = leases db"
  by (auto simp: terminal_arbiter_def dest: update_execution_leases split: option.splits if_splits)

lemma fail_leases: "fail_request_execution rid owner code t db = Inr (x, db') \<Longrightarrow> leases db' = leases db"
  by (auto simp: fail_request_execution_def dest: terminal_arbiter_leases split: option.splits if_splits)

lemma dispatch_leases: "assert_dispatch ref rid owner t db = Inr (x, db') \<Longrightarrow> leases db' = leases db"
  by (auto simp: assert_dispatch_def effects dest!: terminal_arbiter_leases update_attempt_leases
      split: option.splits if_splits)

lemma finalize_complete_leases: "finalize_complete d c t db = Inr (x, db') \<Longrightarrow> leases db' = leases db"
  by (cases "fi_requestTerminalStatus c")
    (auto simp: finalize_complete_def effects dest!: terminal_arbiter_leases update_attempt_leases
      split: option.splits if_splits)

lemma finalize_leases: "finalize c b t db = Inr (x, db') \<Longrightarrow> leases db' = leases db"
  by (auto simp: finalize_def effects dest!: finalize_complete_leases elim: finalize_lock_Inr)

lemma reconcile_leases: "reconcile c t db = Inr (x, db') \<Longrightarrow> leases db' = leases db"
  by (auto simp: reconcile_def Let_def effects dest!: terminal_arbiter_leases update_attempt_leases
      split: option.splits if_splits)

lemma persist_leases: "persist_attempt c source u t m f db = Inr (x, db') \<Longrightarrow> leases db' = leases db"
  by (cases source)
    (auto simp: persist_attempt_def Let_def effects insert_execution_def create_attempt_def
      dest!: update_execution_leases split: if_splits)

lemma admit_leases: "admit kind c i t m f db = Inr (x, db') \<Longrightarrow> leases db' = leases db"
  by (erule admit_Inr) (auto dest: persist_leases)

lemma acquire_not_taken:
  "acquire_lease now r owner ttl db = Inr (x, db') \<Longrightarrow> lease_holder db rid = Some (p, until) \<Longrightarrow> owner \<noteq> p \<Longrightarrow> now < until
     \<Longrightarrow> lease_holder db' rid = Some (p, until)"
  by (auto simp: acquire_lease_def lease_holder_def effects Let_def split: if_splits)

lemma renew_not_taken:
  assumes "renew_lease now r owner ttl db = Inr (x, db')" "lease_holder db rid = Some (p, until)" "owner \<noteq> p"
  shows "lease_holder db' rid = Some (p, until)"
proof (cases "leases db r")
  case None
  with assms(1) show ?thesis by (auto simp: renew_lease_def effects)
next
  case (Some l)
  with assms show ?thesis by (auto simp: renew_lease_def lease_holder_def effects Let_def split: if_splits)
qed

lemma release_not_taken:
  "release_lease r owner db = Inr (x, db') \<Longrightarrow> lease_holder db rid = Some (p, until) \<Longrightarrow> owner \<noteq> p
     \<Longrightarrow> lease_holder db' rid = Some (p, until)"
  by (auto simp: release_lease_def lease_holder_def split: option.splits if_splits)

lemma same_leases: "leases db' = leases db \<Longrightarrow> lease_holder db' = lease_holder db"
  by (rule ext) (simp add: lease_holder_def)

lemma lease_not_taken:
  assumes "others_step p until db db'" "lease_holder db rid = Some (p, until)"
  shows "lease_holder db' rid = Some (p, until)"
  using assms(1)
proof cases
  case (operation op)
  then show ?thesis
    using assms(2)
    by (cases op)
      (auto simp: forget_def effects complete_request_execution_def
       intro: acquire_not_taken renew_not_taken release_not_taken
       dest!: same_leases [OF terminal_arbiter_leases] same_leases [OF dispatch_leases] same_leases [OF finalize_leases]
         same_leases [OF reconcile_leases] same_leases [OF fail_leases] same_leases [OF admit_leases])
next
  case (request_log logs)
  then show ?thesis using assms(2) by (simp add: lease_holder_def)
qed

interpretation execution_leases: lease_store lease_holder others_step
  by unfold_locales (rule lease_not_taken)


lemma update_attempt_found:
  assumes "update_attempt ref f db = Inr ((), db')" "\<And>x. at_id (f x) = at_id x"
  shows "find_attempt db' ref = map_option f (find_attempt db ref)"
proof -
  have "List.find (\<lambda>a. at_id a = ref) (map (\<lambda>a. if at_id a = ref then f a else a) xs)
          = map_option f (List.find (\<lambda>a. at_id a = ref) xs)" for xs
    using assms(2) by (induction xs) auto
  with assms(1) show ?thesis by (auto simp: update_attempt_def find_attempt_def split: option.splits if_splits)
qed

subsection \<open>Theorems\<close>

text \<open>
  C2: in every state a run reaches, the attempts of a request are numbered from zero without a
  gap in the order they were written, the execution counts them and owns them all, every attempt
  but the last has settled usage, and an execution has an end time exactly when it is terminal.
\<close>

theorem request_history_invariant:
  assumes "empty_tables s" "request_step\<^sup>*\<^sup>* s db"
  shows "case executions db rid of
      None \<Rightarrow> attempts_of db rid = []
    | Some e \<Rightarrow>
        map at_attemptIndex (attempts_of db rid) = map int [0..<length (attempts_of db rid)]
        \<and> ex_attemptCount e = int (length (attempts_of db rid))
        \<and> list_all (\<lambda>a. at_executionOwnerId a = ex_ownerId e) (attempts_of db rid)
        \<and> list_all at_usageSettled (butlast (attempts_of db rid))
        \<and> (is_terminal e = (ex_endedAt e \<noteq> None))"
proof -
  have "request_ok (attempts_of db rid) (executions db rid)"
    using request_tables.reachable_inv [OF assms] by (simp add: tables_ok_def)
  then show ?thesis by (auto simp: request_ok_def split: option.splits)
qed

text \<open>
  C5: three guards of the database never stop a command: in every reachable state a command (whose new
  identifier is unused) is never refused by the trigger that checks the transition of an attempt on an
  update, never hits a unique key of the executions or of the attempts, and never updates a row that is
  missing; when it returns, it leaves tables that satisfy the invariant. The other guards are not in
  the model and the property says nothing of them: the insert triggers, foreign keys and column checks,
  which rest on tables of other packages and on the frozen columns, can refuse the rows of an
  admission, which then throws and leaves the tables as they were.
\<close>

theorem transition_guards_never_fire:
  assumes "empty_tables s" "request_step\<^sup>*\<^sup>* s db" "typed_op op" "fresh_op db op"
  shows "case run_op op db of Inl e \<Rightarrow> \<not> database_error e | Inr db' \<Rightarrow> tables_ok db'"
  using run_op_promised [OF request_tables.reachable_inv [OF assms(1,2)] assms(3,4)]
  by (auto simp: promised_def split: sum.splits)

text \<open>
  C8: the history of an attempt is written once: whatever runs later, its identity stays, its cost
  exposure never goes back, an outcome once recorded (with its failure class, reason and output
  flag) stays, and a settled attempt does not change at all.
\<close>

theorem attempt_history_write_once:
  assumes "empty_tables s" "request_step\<^sup>*\<^sup>* s t" "request_step\<^sup>*\<^sup>* t u" "find_attempt t ref = Some a"
  shows "\<exists>b. find_attempt u ref = Some b \<and> same_columns a b
    \<and> exposure_rank (at_costExposure a) \<le> exposure_rank (at_costExposure b)
    \<and> (if at_usageSettled a then b = a else True)
    \<and> (if at_outcome a \<noteq> None
       then at_outcome b = at_outcome a \<and> at_failureClass b = at_failureClass a
         \<and> at_failureReason b = at_failureReason a \<and> at_outputCommitted b = at_outputCommitted a
       else True)"
proof -
  obtain b where "find_attempt u ref = Some b" "row_evolves a b"
    using request_tables.reachable_evolve [OF assms(1-3)] assms(4) unfolding evolves_def by blast
  then show ?thesis by (auto simp: row_evolves_def)
qed

text \<open>A terminal execution is never rewritten by anything that runs later.\<close>

lemma terminal_execution_final:
  assumes "empty_tables s" "request_step\<^sup>*\<^sup>* s t" "request_step\<^sup>*\<^sup>* t u"
    and "executions t rid = Some e" "isTerminalExecutionStatus (Some (ex_status e))"
  shows "executions u rid = Some e"
proof -
  obtain f where "executions u rid = Some f" "execution_evolves e f"
    using request_tables.reachable_evolve [OF assms(1-3)] assms(4) unfolding evolves_def by blast
  with assms(5) show ?thesis by (simp add: execution_evolves_def is_terminal_def)
qed

text \<open>
  C11: admission is idempotent for ever: once a command has been admitted, the same command at any
  later time, as a first attempt or a fallback, with whatever material, returns the attempt that
  was admitted and changes nothing.
\<close>

theorem admission_idempotent:
  assumes "empty_tables s" "request_step\<^sup>*\<^sup>* s db" "typed_admission kind c"
    and "admit kind c inspectedAt startedAt m fresh db = Inr (stored, db')" "request_step\<^sup>*\<^sup>* db' later"
  shows "admit kind' c inspectedAt' startedAt' m' fresh' later = Inr (stored, later)"
proof -
  have ok: "tables_ok db" using assms(1,2) by (rule request_tables.reachable_inv)
  have "request_step db db'"
    using assms(3,4) request_step.operation [of "Op_admit kind c inspectedAt startedAt m fresh" db db'] by simp
  then have ok': "tables_ok db'" using ok by (blast dest: request_step_ok)
  obtain source where "find_replay c db' = Inr (Some (stored, source))"
    using admit_then_replay [OF ok assms(3,4)] by blast
  then have "find_replay c later = Inr (Some (stored, source))"
    by (rule replay_stable [OF ok' request_tables.run_inv [OF assms(5) ok'] request_tables.run_evolve [OF assms(5) ok']])
  then show ?thesis by (rule replay_admit)
qed

text \<open>A finalization that repeats the evidence of an attempt is accepted by its lock phase.\<close>

lemma repeated_evidence:
  assumes "find_attempt db ref = Some a" "row_ok a" "at_id a = ref"
    "known_contract (at_invocationContract a)" "request_logs db (at_requestId a) \<noteq> None"
  obtains c d where "fi_ref c = ref" "fi_requestTerminalStatus c = None" "finalize_lock c False db = Inr (d, db)"
    "fd_ref d = ref" "fd_alreadyFinalized d = at_usageSettled a"
proof -
  define c where "c = \<lparr>fi_ref = ref, fi_outcome = (case at_outcome a of None \<Rightarrow> Succeeded | Some x \<Rightarrow> x),
    fi_failureClass = at_failureClass a, fi_failureReason = None, fi_outputCommitted = at_outputCommitted a,
    fi_trustedUsageSource = Provider_source, fi_requestTerminalStatus = None, fi_requestTerminalErrorCode = None\<rparr>"
  have fc: "providerAttemptFailureClass (fi_outcome c) (fi_failureClass c) = at_failureClass a"
    using assms(2) by (auto simp: c_def providerAttemptFailureClass_def row_ok_def split: option.splits)
  have reason: "providerAttemptFailureReason (fi_outcome c) (or_else (fi_failureReason c) (at_failureReason a)) = Inr (at_failureReason a)"
    using assms(2)
    by (cases "at_outcome a"; cases "at_failureReason a")
      (simp_all add: c_def or_else_def providerAttemptFailureReason_def row_ok_def known_reason_def split: if_splits)
  have no_conflict: "\<not> evidence_conflict a (fi_outcome c) (at_failureClass a) (at_failureReason a) (fi_outputCommitted c)"
    by (cases "at_outcome a") (simp_all add: evidence_conflict_def c_def)
  have c: "fi_ref c = ref" "fi_requestTerminalStatus c = None" by (simp_all add: c_def)
  then obtain d where "finalize_lock c False db = Inr (d, db)" "fd_ref d = ref" "fd_alreadyFinalized d = at_usageSettled a"
    using assms(1,3-5) fc reason no_conflict
    by (auto simp: finalize_lock_def Let_def known_contract_def)
  with c show thesis by (rule that)
qed

text \<open>
  C35: no attempt is stuck: in every reachable state an unsettled attempt of a known contract whose
  request is logged can be settled, by a finalization that repeats the evidence it has.
\<close>

theorem usage_can_always_settle:
  assumes "empty_tables s" "request_step\<^sup>*\<^sup>* s db" "find_attempt db ref = Some a"
    and "known_contract (at_invocationContract a)" "request_logs db (at_requestId a) \<noteq> None"
  shows "\<exists>c db'. fi_ref c = ref \<and> run_op (Op_finalize c False t) db = Inr db'
    \<and> map_option at_usageSettled (find_attempt db' ref) = Some True"
proof -
  have ok: "tables_ok db" using assms(1,2) by (rule request_tables.reachable_inv)
  have row: "row_ok a" "at_id a = ref" using find_attempt_ok [OF ok assms(3)] by simp_all
  obtain c d where c: "fi_ref c = ref" "fi_requestTerminalStatus c = None" and lock: "finalize_lock c False db = Inr (d, db)" "fd_ref d = ref"
    "fd_alreadyFinalized d = at_usageSettled a"
    using assms(3) row assms(4,5) by (rule repeated_evidence)
  have run: "finalize c False t db = finalize_complete d c t db" by (simp add: finalize_def tx_bind_def lock(1))
  have good: "good_outcome db (finalize c False t db)" using safe_finalize ok by (rule safe_goodD)
  show ?thesis
  proof (cases "at_usageSettled a")
    case True
    then have "run_op (Op_finalize c False t) db = Inr db"
      by (simp add: run finalize_complete_def lock(3) tx_return_def)
    with True assms(3) show ?thesis by (intro exI [of _ c] exI [of _ db]) (simp add: c)
  next
    case False
    have complete: "finalize_complete d c t db = tx_bind (update_attempt ref
        (\<lambda>x. x\<lparr>at_outcome := Some (fi_outcome c), at_failureClass := fd_expectedFailureClass d,
           at_failureReason := fd_expectedFailureReason d, at_outputCommitted := fd_expectedOutputCommitted d,
           at_trustedUsageSource := Some (fi_trustedUsageSource c), at_endedAt := Some t,
           at_costExposure := Stopped, at_finalUsageEvidence := Final_usage, at_usageSettled := True,
           at_reconciliationReason := None\<rparr>)) (\<lambda>_ db. Inr ((), db)) db"
      using False lock by (simp add: finalize_complete_def c)
    show ?thesis
    proof (cases "finalize_complete d c t db")
      case (Inl e)
      then have "database_error e"
        unfolding complete by (auto simp: tx_bind_def update_attempt_def assms(3) database_error_def split: if_splits)
      with good Inl run show ?thesis by simp
    next
      case (Inr r)
      obtain db' where db': "finalize_complete d c t db = Inr ((), db')" using Inr by (cases r) simp
      then obtain f where "update_attempt ref f db = Inr ((), db')" "\<And>x. at_id (f x) = at_id x" "\<And>x. at_usageSettled (f x)"
        unfolding complete by (force simp: effects)
      from update_attempt_found [OF this(1,2)] this(3)
      obtain new where "find_attempt db' ref = Some new" "at_usageSettled new" using assms(3) by auto
      with db' run show ?thesis by (intro exI [of _ c] exI [of _ db']) (simp add: c)
    qed
  qed
qed

text \<open>
  C19: a lease is exclusive: as long as it has not expired, no sequence of commands by other owners
  (in any order, with any other command between) takes it from its owner, and until then another owner can neither
  acquire it nor have a new attempt admitted.
\<close>

theorem lease_is_exclusive:
  assumes "leases db rid = Some l" "(others_step (le_ownerId l) (le_leaseUntil l))\<^sup>*\<^sup>* db db'"
    and "now < le_leaseUntil l" "owner \<noteq> le_ownerId l"
  shows "lease_holder db' rid = Some (le_ownerId l, le_leaseUntil l)
    \<and> \<not> isOK (acquire_lease now rid owner ttl db')
    \<and> (if ai_requestId c = rid \<and> ai_executionOwnerId c = owner then \<not> isOK (inspect_new kind c now p db') else True)"
proof -
  have held: "lease_holder db' rid = Some (le_ownerId l, le_leaseUntil l)"
    using assms(1) by (intro execution_leases.held_until [OF assms(2)]) (simp add: lease_holder_def)
  then obtain l' where "leases db' rid = Some l'" "le_ownerId l' = le_ownerId l" "le_leaseUntil l' = le_leaseUntil l"
    by (auto simp: lease_holder_def)
  with held assms(3,4) show ?thesis
    by (auto simp: isOK_def acquire_lease_def inspect_new_def rbind_def Let_def split: sum.splits)
qed

text \<open>
  What a Provider's failure report allows: from the parsed report alone, the reservation is
  released only when cost never started, settled only when cost stopped with final usage, and
  everything else (malformed reports among it) waits for reconciliation; a fallback is permitted
  exactly in the first two cases, when nothing was sent and the request is not cancelled.
\<close>

lemma failure_report_arbitration:
  "case parseProviderAttemptFailure v of
     None \<Rightarrow> v = JUndefined
   | Some f \<Rightarrow>
       let a = arbitrateProviderAttemptFailure (af_costExposure f) (af_finalUsageEvidence f)
                 (af_trustedUsage f \<noteq> None) committed cancelled;
           settled = (af_costExposure f = Stopped \<and> af_finalUsageEvidence f = Final_usage)
       in ar_settlement a = (if af_costExposure f = Not_started then Release_not_started
                             else if settled then Settle_final_usage else Reconcile_usage)
          \<and> ar_fallbackPermitted a = (\<not> cancelled \<and> \<not> committed \<and> (af_costExposure f = Not_started \<or> settled))"
proof -
  have "parseProviderAttemptFailure v = None \<Longrightarrow> v = JUndefined"
    by (cases v) (auto simp: parseProviderAttemptFailure_def Let_def split: if_splits option.splits)
  then show ?thesis
    using attempt_failure_consistent [of v]
    by (auto simp: Let_def arbitrateProviderAttemptFailure_def consistent_def split: option.splits)
qed


subsection \<open>A run\<close>

definition example_identity :: admission_identity where
  "example_identity =
     \<lparr>ai_requestId = ''r'', ai_executionOwnerId = ''o'', ai_attemptIndex = 0,
      ai_candidate = \<lparr>fc_candidateId = ''c'', fc_providerModelId = ''pm'', fc_providerId = ''p'', fc_providerModelName = ''m''\<rparr>,
      ai_routing = \<lparr>fr_selectorAccessPointId = ''ap'', fr_selectorId = ''ordered'', fr_selectorBehaviorVersion = 1,
        fr_routingRevision = 3, fr_routingRevisions = [(''ap'', 3)], fr_selectorTargetEdgeId = ''e'',
        fr_pathTargetEdgeIds = [''e''], fr_accessPointChainIds = [''ap'']\<rparr>,
      ai_selectedSourceRef = Some ''sub''\<rparr>"

definition example_material :: persistence_material where
  "example_material = \<lparr>pm_providerAttemptRef = None, pm_invocationContract = ''cpa-basic@1'', pm_frozen = []\<rparr>"

definition example_start :: tables where
  "example_start = \<lparr>executions = (\<lambda>_. None), leases = (\<lambda>_. None), attempts = [], request_logs = (\<lambda>_. Some None)\<rparr>"

definition example_lease :: execution_lease where
  "example_lease = \<lparr>le_ownerId = ''o'', le_acquiredAt = 0, le_heartbeatAt = 0, le_leaseUntil = 60000\<rparr>"

definition example_leased :: tables where
  "example_leased = example_start\<lparr>leases := [''r'' \<mapsto> example_lease]\<rparr>"

definition example_row :: attempt_row where
  "example_row = new_attempt_row example_identity ''a1'' 60000 5 example_material"

definition example_admitted :: tables where
  "example_admitted = add_attempt ''r'' ((new_execution example_identity ''sub'' 5)\<lparr>ex_attemptCount := 1\<rparr>) example_row example_leased"

lemma example_acquire: "run_op (Op_acquire 0 ''r'' ''o'' 60) example_start = Inr example_leased"
  by (simp add: acquire_lease_def requestExecutionLeaseUntil_def is_safe_int_def MAX_SAFE_INTEGER_def MAX_DATE_def
      Let_def example_start_def example_leased_def example_lease_def)

lemma example_typed: "typed_admission First_attempt example_identity"
  by (simp add: typed_admission_def example_identity_def is_safe_int_def MAX_SAFE_INTEGER_def)

lemma example_admit:
  "admit First_attempt example_identity 5 5 example_material ''a1'' example_leased
     = Inr (stored_of_command example_identity ''a1'' 5, example_admitted)"
proof -
  have row: "admission_row example_leased ''r'' ''c'' = None"
    by (simp add: admission_row_def example_leased_def example_start_def)
  have fields: "ai_requestId example_identity = ''r''" "fc_candidateId (ai_candidate example_identity) = ''c''"
    "ai_executionOwnerId example_identity = ''o''" "ai_attemptIndex example_identity = 0"
    "ai_selectedSourceRef example_identity = Some ''sub''"
    by (simp_all add: example_identity_def)
  have valid: "assertProviderAttemptAdmissionIdentity example_identity = Inr ()"
    by (simp add: assertProviderAttemptAdmissionIdentity_def example_identity_def is_safe_int_def MAX_SAFE_INTEGER_def)
  have lease: "leases example_leased ''r'' = Some example_lease" "executions example_leased ''r'' = None"
    "attempts example_leased = []"
    by (simp_all add: example_leased_def example_start_def)
  have replay: "find_replay example_identity example_leased = Inr None"
    by (simp add: find_replay_def valid readAdmissionAttempt_def fields row)
  have inspected: "inspect_new First_attempt example_identity 5 (Some None) example_leased = Inr (Admit_first 60000 ''sub'')"
    by (simp add: inspect_new_def valid fields lease) (simp add: example_lease_def)
  show ?thesis
    by (simp add: admit_def replay inspected execute_admission_def persist_attempt_def example_material_def)
      (simp add: Let_def tx_bind_def tx_return_def insert_execution_def create_attempt_def update_execution_def fields lease
        example_admitted_def add_attempt_def put_execution_def example_row_def example_material_def)
qed

lemma example_run: "empty_tables example_start" "request_step\<^sup>*\<^sup>* example_start example_leased"
  "request_step\<^sup>*\<^sup>* example_start example_admitted" "request_step\<^sup>*\<^sup>* example_leased example_admitted"
proof -
  show "empty_tables example_start" by (simp add: empty_tables_def example_start_def)
  have "request_step example_start example_leased"
    by (rule request_step.operation [OF _ example_acquire]) simp
  then show leased: "request_step\<^sup>*\<^sup>* example_start example_leased" by (rule r_into_rtranclp)
  have "request_step example_leased example_admitted"
    by (rule request_step.operation [of "Op_admit First_attempt example_identity 5 5 example_material ''a1''"])
      (simp_all add: example_admit example_typed)
  then show "request_step\<^sup>*\<^sup>* example_leased example_admitted" by (rule r_into_rtranclp)
  with leased show "request_step\<^sup>*\<^sup>* example_start example_admitted" by (rule rtranclp_trans)
qed

lemma example_found: "find_attempt example_admitted ''a1'' = Some example_row"
  by (simp add: find_attempt_def example_admitted_def add_attempt_def example_leased_def example_start_def example_row_def)

theorem request_history_invariant_witness:
  "attempts_of example_admitted ''r'' = [example_row] \<and> map at_attemptIndex (attempts_of example_admitted ''r'') = map int [0..<1]"
proof -
  have rows: "attempts_of example_admitted ''r'' = [example_row]"
    by (simp add: attempts_of_def example_admitted_def add_attempt_def example_leased_def example_start_def
        example_row_def example_identity_def)
  then show ?thesis
    using request_history_invariant [OF example_run(1,3), of "''r''"]
    by (simp add: example_admitted_def add_attempt_def)
qed

theorem transition_guards_never_fire_witness:
  "case run_op (Op_admit First_attempt example_identity 5 5 example_material ''a1'') example_leased of
     Inl e \<Rightarrow> \<not> database_error e | Inr db' \<Rightarrow> tables_ok db'"
  by (rule transition_guards_never_fire [OF example_run(1,2)])
    (simp_all add: example_typed find_attempt_def example_leased_def example_start_def)

theorem attempt_history_write_once_witness:
  "\<exists>b. find_attempt example_admitted ''a1'' = Some b \<and> same_columns example_row b"
  using attempt_history_write_once [OF example_run(1,3) rtranclp.rtrancl_refl example_found] by blast

definition example_failed :: tables where
  "example_failed = put_execution ''r'' ((new_execution example_identity ''sub'' 5)\<lparr>ex_attemptCount := 1,
     ex_status := Terminal Failed, ex_terminalErrorCode := Some ''x'', ex_endedAt := Some 9\<rparr>) example_admitted"

lemma terminal_execution_final_example:
  "isTerminalExecutionStatus (map_option ex_status (executions example_failed ''r''))"
proof -
  let ?e = "(new_execution example_identity ''sub'' 5)\<lparr>ex_attemptCount := 1,
     ex_status := Terminal Failed, ex_terminalErrorCode := Some ''x'', ex_endedAt := Some 9\<rparr>"
  have "run_op (Op_fail ''r'' ''o'' ''x'' 9) example_admitted = Inr example_failed"
    by (simp add: fail_request_execution_def terminal_arbiter_def update_execution_def example_admitted_def example_failed_def
        add_attempt_def put_execution_def new_execution_def example_identity_def)
  then have "request_step example_admitted example_failed"
    by (intro request_step.operation [of "Op_fail ''r'' ''o'' ''x'' 9"]) simp_all
  with example_run(3) have run: "request_step\<^sup>*\<^sup>* example_start example_failed" by (rule rtranclp.rtrancl_into_rtrancl)
  have "executions example_failed ''r'' = Some ?e"
    by (rule terminal_execution_final [OF example_run(1) run rtranclp.rtrancl_refl])
      (simp_all add: example_failed_def)
  then show ?thesis by simp
qed

theorem admission_idempotent_witness:
  "admit Fallback_attempt example_identity 70000 8 example_material ''a2'' example_admitted
     = Inr (stored_of_command example_identity ''a1'' 5, example_admitted)"
  by (rule admission_idempotent [OF example_run(1,2) example_typed example_admit rtranclp.rtrancl_refl])

theorem usage_can_always_settle_witness:
  "\<exists>c db'. fi_ref c = ''a1'' \<and> run_op (Op_finalize c False 20) example_admitted = Inr db'
    \<and> map_option at_usageSettled (find_attempt db' ''a1'') = Some True"
  by (rule usage_can_always_settle [OF example_run(1,3) example_found])
    (simp_all add: example_row_def new_attempt_row_def example_material_def known_contract_def example_admitted_def
      add_attempt_def put_execution_def example_leased_def example_start_def)

theorem lease_is_exclusive_witness:
  "\<not> isOK (acquire_lease 100 ''r'' ''other'' 60 example_leased)"
proof -
  have "leases example_leased ''r'' = Some example_lease" by (simp add: example_leased_def)
  from lease_is_exclusive [OF this rtranclp.rtrancl_refl, of 100 "''other''" 60]
  show ?thesis by (simp add: example_lease_def)
qed

end
