(* ===== verification/Risk_State.thy ===== *)
theory Risk_State
  imports Js_Json
begin

section \<open>Shared risk reservations\<close>

text \<open>
  \<open>packages/application/src/storage/postgres-risk-state.ts\<close>: a guard that admits requests while three
  limits hold (starts in a sliding window, requests in flight, reserved credit in a budget
  window), as two PostgreSQL tables. Every transaction locks the row of the guard first, so the
  transactions of one guard do not interleave. Times are milliseconds.
\<close>

subsection \<open>State\<close>

record risk_profile =
  rp_profileDigest :: string
  rp_requestStartsLimit :: int
  rp_requestStartsWindowMs :: int
  rp_maxInFlight :: int
  rp_riskBudgetWindowMs :: int
  rp_leaseTtlMs :: int
  rp_maxReservedCreditUnits :: int

datatype reservation_status = Active | Settled | Conservative

record reservation =
  rv_id :: string
  rv_guardId :: string
  rv_status :: reservation_status
  rv_reserved :: int
  rv_settled :: "int option"
  rv_acquiredAt :: int
  rv_expiresAt :: int
  rv_terminalAt :: "int option"
  rv_evidence :: "string option"

record risk_row =
  rr_profileDigest :: string
  rr_revision :: int
  rr_windowStartedAt :: int
  rr_requestStartsJson :: string

record risk_db =
  risk_rows :: "string \<Rightarrow> risk_row option"
  reservations :: "reservation list"

record risk_inspection =
  in_profileDigest :: string
  in_revision :: int
  in_windowStartedAt :: int
  in_requestStarts :: int
  in_inFlight :: int
  in_reserved :: int

type_synonym 'a risk_tx = "risk_db \<Rightarrow> ('a \<times> risk_db) result"

subsection \<open>Checks\<close>

definition is_hex_char :: "char \<Rightarrow> bool" where
  "is_hex_char c \<longleftrightarrow> is_digit_char c \<or> 97 \<le> cu c \<and> cu c \<le> 102"

definition assertDigest :: "string \<Rightarrow> unit result" where
  "assertDigest s =
     require (take 7 s = ''sha256:'' \<and> matches_class is_hex_char 64 64 (drop 7 s))
       (PlainError ''postgres_shadow_risk_profile_digest_invalid'')"

definition assertReservationId :: "string \<Rightarrow> unit result" where
  "assertReservationId s =
     require (take 4 s = ''rsv_'' \<and> matches_class is_hex_char 32 32 (drop 4 s))
       (PlainError ''postgres_shadow_risk_reservation_id_invalid'')"

definition assertIdentifier :: "string \<Rightarrow> string \<Rightarrow> unit result" where
  "assertIdentifier s code =
     require (matches_head_tail is_lower_char (\<lambda>c. is_lower_char c \<or> is_digit_char c \<or> c \<in> set ''_.-'') 127 s)
       (PlainError code)"

definition positive_safe :: "int \<Rightarrow> bool" where
  "positive_safe n \<longleftrightarrow> is_safe_int n \<and> 1 \<le> n"

definition validateProfile :: "risk_profile \<Rightarrow> unit result" where
  "validateProfile p =
     rbind (assertDigest (rp_profileDigest p)) (\<lambda>_.
       require (list_all positive_safe
           [rp_requestStartsLimit p, rp_requestStartsWindowMs p, rp_maxInFlight p, rp_riskBudgetWindowMs p,
            rp_leaseTtlMs p, rp_maxReservedCreditUnits p])
         (PlainError ''postgres_shadow_risk_profile_invalid''))"

definition assertProfileDigest :: "string \<Rightarrow> string \<Rightarrow> unit result" where
  "assertProfileDigest actual expected =
     require (actual = expected) (PlainError ''postgres_shadow_risk_profile_digest_mismatch'')"

definition assertCreditUnits :: "int \<Rightarrow> string \<Rightarrow> unit result" where
  "assertCreditUnits n label = require (is_safe_int n \<and> \<not> n \<le> 0) (PlainError (label @ '' must be a positive safe integer''))"

definition safeInteger :: "int \<Rightarrow> string \<Rightarrow> int result" where
  "safeInteger n code = (if is_safe_int n then Inr n else plain code)"

definition normalizeNow :: "int \<Rightarrow> int result" where
  "normalizeNow n = (if \<not> is_safe_int n \<or> n < 0 then plain ''postgres_shadow_risk_now_invalid'' else Inr n)"

definition windowStart :: "int \<Rightarrow> int \<Rightarrow> int" where
  "windowStart now windowMs = (now div windowMs) * windowMs"

definition starts_json :: "int list \<Rightarrow> string" where
  "starts_json xs = json_print (Json_arr (map Json_int xs))"

definition parseRequestStarts :: "string \<Rightarrow> int list result" where
  "parseRequestStarts text =
     (case json_parse text of
        Some (JArr vs) \<Rightarrow>
          if list_ex (\<lambda>v. case safe_int_of v of None \<Rightarrow> True | Some n \<Rightarrow> n < 0) vs
          then plain ''postgres_shadow_risk_request_starts_invalid''
          else Inr (map (\<lambda>v. the (safe_int_of v)) vs)
      | _ \<Rightarrow> plain ''postgres_shadow_risk_request_starts_invalid'')"

text \<open>\<open>Math.ceil\<close> of a quotient.\<close>

definition ceil_div :: "int \<Rightarrow> int \<Rightarrow> int" where
  "ceil_div a b = - ((- a) div b)"

definition retryAfterSeconds :: "int \<Rightarrow> int \<Rightarrow> int" where
  "retryAfterSeconds now retryAt = max 1 (ceil_div (retryAt - now) 1000)"

text \<open>\<open>new Date(now).toISOString()\<close> throws beyond the range of a date.\<close>

definition iso_time :: "int \<Rightarrow> unit result" where
  "iso_time now = require (now \<le> 8640000000000000) (PlainError ''RangeError'')"

definition limit_error :: "string \<Rightarrow> int \<Rightarrow> js_error" where
  "limit_error reason retryAfter =
     RelayError ''request_risk_limit'' 429 [(''reason'', JStr reason), (''retryAfterSeconds'', jint retryAfter)]"

subsection \<open>Transactions\<close>

definition new_risk_store :: "string \<Rightarrow> risk_profile \<Rightarrow> unit result" where
  "new_risk_store g p =
     rbind (assertIdentifier g ''postgres_shadow_risk_guard_id_invalid'') (\<lambda>_. validateProfile p)"

definition risk_initialize :: "risk_profile \<Rightarrow> string \<Rightarrow> int \<Rightarrow> unit risk_tx" where
  "risk_initialize p g now db =
     rbind (normalizeNow now) (\<lambda>now.
     rbind (iso_time now) (\<lambda>_.
       if risk_rows db g \<noteq> None then plain ''postgres_shadow_risk_state_already_exists''
       else Inr ((), db\<lparr>risk_rows := (risk_rows db)(g \<mapsto>
              \<lparr>rr_profileDigest = rp_profileDigest p, rr_revision = 1,
               rr_windowStartedAt = windowStart now (rp_riskBudgetWindowMs p), rr_requestStartsJson = ''[]''\<rparr>)\<rparr>)))"

definition lockState :: "risk_profile \<Rightarrow> string \<Rightarrow> risk_db \<Rightarrow> risk_row result" where
  "lockState p g db =
     (case risk_rows db g of
        None \<Rightarrow> plain ''postgres_shadow_risk_state_missing''
      | Some row \<Rightarrow>
          rbind (assertProfileDigest (rr_profileDigest row) (rp_profileDigest p)) (\<lambda>_.
          rbind (parseRequestStarts (rr_requestStartsJson row)) (\<lambda>_. Inr row)))"

definition risk_self_check :: "risk_profile \<Rightarrow> string \<Rightarrow> risk_db \<Rightarrow> unit result" where
  "risk_self_check p g db = rbind (lockState p g db) (\<lambda>_. Inr ())"

definition rollState :: "risk_row \<Rightarrow> int \<Rightarrow> risk_profile \<Rightarrow> risk_row result" where
  "rollState row now p =
     (let currentWindow = windowStart now (rp_riskBudgetWindowMs p)
      in rbind (safeInteger (rr_windowStartedAt row) ''postgres_shadow_risk_window_invalid'') (\<lambda>existing.
           if existing > currentWindow then plain ''postgres_shadow_risk_clock_moved_backwards''
           else Inr (if existing = currentWindow then row
                     else row\<lparr>rr_windowStartedAt := currentWindow, rr_requestStartsJson := ''[]''\<rparr>)))"

definition of_guard :: "string \<Rightarrow> reservation list \<Rightarrow> reservation list" where
  "of_guard g rs = filter (\<lambda>r. rv_guardId r = g) rs"

definition countReservations :: "string \<Rightarrow> reservation_status \<Rightarrow> reservation list \<Rightarrow> int" where
  "countReservations g s rs = int (length (filter (\<lambda>r. rv_status r = s) (of_guard g rs)))"

text \<open>\<open>SUM\<close> skips a null.\<close>

definition exposed_units :: "reservation \<Rightarrow> int" where
  "exposed_units r = (if rv_status r = Settled then (case rv_settled r of None \<Rightarrow> 0 | Some n \<Rightarrow> n) else rv_reserved r)"

definition exposure_sum :: "string \<Rightarrow> reservation list \<Rightarrow> int" where
  "exposure_sum g rs = sum_list (map exposed_units (of_guard g rs))"

definition currentExposure :: "string \<Rightarrow> reservation list \<Rightarrow> int result" where
  "currentExposure g rs = safeInteger (exposure_sum g rs) ''postgres_shadow_risk_exposure_invalid''"

definition expired_terminal :: "string \<Rightarrow> int \<Rightarrow> reservation \<Rightarrow> bool" where
  "expired_terminal g start r \<longleftrightarrow>
     rv_guardId r = g \<and> rv_status r \<noteq> Active \<and> (case rv_terminalAt r of None \<Rightarrow> False | Some t \<Rightarrow> t < start)"

definition insert_reservation :: "reservation \<Rightarrow> reservation list \<Rightarrow> reservation list result" where
  "insert_reservation r rs =
     (if list_ex (\<lambda>x. rv_id x = rv_id r) rs then plain ''23505'' else Inr (rs @ [r]))"

definition updateState :: "string \<Rightarrow> risk_row \<Rightarrow> int list \<Rightarrow> int \<Rightarrow> risk_db \<Rightarrow> risk_db result" where
  "updateState g row starts now db =
     rbind (iso_time now) (\<lambda>_.
       Inr (db\<lparr>risk_rows := (risk_rows db)(g := map_option (\<lambda>r.
              r\<lparr>rr_revision := rr_revision r + 1, rr_windowStartedAt := rr_windowStartedAt row,
                rr_requestStartsJson := starts_json starts\<rparr>) (risk_rows db g))\<rparr>))"

definition bumpState :: "string \<Rightarrow> int \<Rightarrow> risk_db \<Rightarrow> risk_db result" where
  "bumpState g now db =
     rbind (iso_time now) (\<lambda>_.
       Inr (db\<lparr>risk_rows := (risk_rows db)(g := map_option (\<lambda>r. r\<lparr>rr_revision := rr_revision r + 1\<rparr>) (risk_rows db g))\<rparr>))"

text \<open>\<open>rid\<close> is the identifier drawn from \<open>randomUUID\<close>.\<close>

definition risk_acquire :: "risk_profile \<Rightarrow> string \<Rightarrow> string \<Rightarrow> int \<Rightarrow> int \<Rightarrow> reservation risk_tx" where
  "risk_acquire p g rid units now0 db =
     rbind (assertCreditUnits units ''reserved Credit units'') (\<lambda>_.
     rbind (normalizeNow now0) (\<lambda>now.
     rbind (lockState p g db) (\<lambda>state.
     rbind (rollState state now p) (\<lambda>rolled.
       let kept = (if rr_windowStartedAt rolled \<noteq> rr_windowStartedAt state
                   then filter (\<lambda>r. \<not> expired_terminal g (rr_windowStartedAt rolled) r) (reservations db)
                   else reservations db)
       in rbind (parseRequestStarts (rr_requestStartsJson rolled)) (\<lambda>recorded.
            let starts = filter (\<lambda>s. s > now - rp_requestStartsWindowMs p) recorded
            in if int (length starts) \<ge> rp_requestStartsLimit p
               then Inl (limit_error ''request_starts'' (retryAfterSeconds now (hd starts + rp_requestStartsWindowMs p)))
               else if countReservations g Active kept \<ge> rp_maxInFlight p
               then Inl (limit_error ''in_flight'' (ceil_div (rp_requestStartsWindowMs p) 1000))
               else rbind (currentExposure g kept) (\<lambda>exposure.
                 if exposure + units > rp_maxReservedCreditUnits p
                 then Inl (limit_error ''risk_budget''
                        (retryAfterSeconds now (rr_windowStartedAt rolled + rp_riskBudgetWindowMs p)))
                 else let next_one = \<lparr>rv_id = rid, rv_guardId = g, rv_status = Active, rv_reserved = units, rv_settled = None,
                                   rv_acquiredAt = now, rv_expiresAt = now + rp_leaseTtlMs p, rv_terminalAt = None,
                                   rv_evidence = None\<rparr>
                      in rbind (insert_reservation next_one kept) (\<lambda>rs.
                         rbind (updateState g rolled (starts @ [now]) now (db\<lparr>reservations := rs\<rparr>)) (\<lambda>db'.
                           Inr (next_one, db'))))))))) "

definition is_active :: "string \<Rightarrow> string \<Rightarrow> reservation \<Rightarrow> bool" where
  "is_active g rid r \<longleftrightarrow> rv_id r = rid \<and> rv_guardId r = g \<and> rv_status r = Active"

definition set_where :: "('a \<Rightarrow> bool) \<Rightarrow> ('a \<Rightarrow> 'a) \<Rightarrow> 'a list \<Rightarrow> 'a list" where
  "set_where P f xs = map (\<lambda>x. if P x then f x else x) xs"

definition finishReservation ::
  "risk_profile \<Rightarrow> string \<Rightarrow> string \<Rightarrow> reservation_status \<Rightarrow> int option \<Rightarrow> int \<Rightarrow> unit risk_tx" where
  "finishReservation p g rid status settled now db =
     rbind (lockState p g db) (\<lambda>_.
       if \<not> list_ex (is_active g rid) (reservations db) then plain ''postgres_shadow_risk_reservation_not_active''
       else rbind (bumpState g now (db\<lparr>reservations := set_where (is_active g rid)
                     (\<lambda>r. r\<lparr>rv_status := status, rv_settled := settled, rv_terminalAt := Some now\<rparr>) (reservations db)\<rparr>)) (\<lambda>db'.
              Inr ((), db')))"

definition risk_recover :: "risk_profile \<Rightarrow> string \<Rightarrow> string \<Rightarrow> string \<Rightarrow> int \<Rightarrow> unit risk_tx" where
  "risk_recover p g rid evidence now0 db =
     rbind (assertReservationId rid) (\<lambda>_.
     rbind (assertDigest evidence) (\<lambda>_.
     rbind (normalizeNow now0) (\<lambda>now.
     rbind (lockState p g db) (\<lambda>_.
       case List.find (\<lambda>r. rv_id r = rid \<and> rv_guardId r = g) (reservations db) of
         None \<Rightarrow> plain ''postgres_shadow_risk_reservation_not_active''
       | Some r \<Rightarrow>
           if rv_status r \<noteq> Active then plain ''postgres_shadow_risk_reservation_not_active''
           else rbind (safeInteger (rv_expiresAt r) ''postgres_shadow_risk_expiry_invalid'') (\<lambda>expiresAt.
             if now < expiresAt then plain ''postgres_shadow_risk_reservation_not_expired''
             else rbind (bumpState g now (db\<lparr>reservations := set_where (is_active g rid)
                    (\<lambda>r. r\<lparr>rv_status := Conservative, rv_terminalAt := Some now, rv_evidence := Some evidence\<rparr>)
                    (reservations db)\<rparr>)) (\<lambda>db'. Inr ((), db')))))))"

definition risk_inspect :: "risk_profile \<Rightarrow> string \<Rightarrow> risk_db \<Rightarrow> risk_inspection result" where
  "risk_inspect p g db =
     (case risk_rows db g of
        None \<Rightarrow> plain ''postgres_shadow_risk_state_missing''
      | Some row \<Rightarrow>
          rbind (assertProfileDigest (rr_profileDigest row) (rp_profileDigest p)) (\<lambda>_.
          rbind (safeInteger (rr_revision row) ''postgres_shadow_risk_revision_invalid'') (\<lambda>revision.
          rbind (safeInteger (rr_windowStartedAt row) ''postgres_shadow_risk_window_invalid'') (\<lambda>window.
          rbind (parseRequestStarts (rr_requestStartsJson row)) (\<lambda>starts.
          rbind (currentExposure g (reservations db)) (\<lambda>exposure.
            Inr \<lparr>in_profileDigest = rr_profileDigest row, in_revision = revision, in_windowStartedAt = window,
                 in_requestStarts = int (length starts), in_inFlight = countReservations g Active (reservations db),
                 in_reserved = exposure\<rparr>))))))"

subsection \<open>The lease object\<close>

text \<open>What \<open>acquire\<close> returns: an object that ends its reservation once.\<close>

record risk_lease =
  rl_reservationId :: string
  rl_reservedCreditUnits :: int
  rl_closed :: bool

definition lease_settle ::
  "risk_profile \<Rightarrow> string \<Rightarrow> int \<Rightarrow> int \<Rightarrow> (risk_lease \<times> risk_db, unit) action" where
  "lease_settle p g units now = (\<lambda>(l, db).
     if rl_closed l then (Inr (), (l, db))
     else case rbind (assertCreditUnits units ''settled Credit units'') (\<lambda>_. rbind (normalizeNow now) (\<lambda>now.
                 finishReservation p g (rl_reservationId l) Settled (Some units) now db)) of
            Inl e \<Rightarrow> (Inl e, (l, db))
          | Inr (_, db') \<Rightarrow> (Inr (), (l\<lparr>rl_closed := True\<rparr>, db')))"

definition lease_close_unknown :: "risk_profile \<Rightarrow> string \<Rightarrow> int \<Rightarrow> (risk_lease \<times> risk_db, unit) action" where
  "lease_close_unknown p g now = (\<lambda>(l, db).
     if rl_closed l then (Inr (), (l, db))
     else case rbind (normalizeNow now) (\<lambda>now. finishReservation p g (rl_reservationId l) Conservative None now db) of
            Inl e \<Rightarrow> (Inl e, (l, db))
          | Inr (_, db') \<Rightarrow> (Inr (), (l\<lparr>rl_closed := True\<rparr>, db')))"


subsection \<open>What a transaction does\<close>

lemma starts_json_Nil: "starts_json [] = ''[]''"
  by (simp add: starts_json_def)

lemma parse_starts_json:
  assumes "list_all (\<lambda>n. is_safe_int n \<and> 0 \<le> n) xs"
  shows "parseRequestStarts (starts_json xs) = Inr xs"
proof -
  have "json_parse (starts_json xs) = Some (of_json (Json_arr (map Json_int xs)))"
    unfolding starts_json_def by (rule json_roundtrip) (use assms in \<open>auto simp: list_all_iff\<close>)
  then have "json_parse (starts_json xs) = Some (JArr (map jint xs))" by (simp add: o_def)
  moreover have "\<not> list_ex (\<lambda>v. case safe_int_of v of None \<Rightarrow> True | Some n \<Rightarrow> n < 0) (map jint xs)"
    "map (\<lambda>v. the (safe_int_of v)) (map jint xs) = xs"
    using assms by (auto simp: list_all_iff list_ex_iff not_less intro: map_idI)
  ultimately show ?thesis by (simp add: parseRequestStarts_def del: safe_int_of.simps)
qed

lemma parse_starts_valid: "parseRequestStarts t = Inr xs \<Longrightarrow> list_all (\<lambda>n. is_safe_int n \<and> 0 \<le> n) xs"
  by (fastforce simp: parseRequestStarts_def list_ex_iff list_all_iff not_less
      split: option.splits jsval.splits if_splits dest: safe_int_of_SomeD)

lemma of_guard_simps [simp]:
  "of_guard g [] = []" "of_guard g (xs @ ys) = of_guard g xs @ of_guard g ys"
  "of_guard g (r # rs) = (if rv_guardId r = g then r # of_guard g rs else of_guard g rs)"
  by (simp_all add: of_guard_def)

lemma of_guard_filter: "of_guard g (filter P rs) = filter P (of_guard g rs)"
  by (simp add: of_guard_def conj_commute)

lemma of_guard_set_where:
  "(\<And>r. rv_guardId (f r) = rv_guardId r) \<Longrightarrow> of_guard g (set_where P f rs) = set_where P f (of_guard g rs)"
  by (induction rs) (auto simp: set_where_def)

lemma lockState_Inr:
  "lockState p g db = Inr row \<longleftrightarrow>
     risk_rows db g = Some row \<and> rr_profileDigest row = rp_profileDigest p
     \<and> (\<exists>xs. parseRequestStarts (rr_requestStartsJson row) = Inr xs)"
  by (auto simp: lockState_def assertProfileDigest_def effects split: option.splits)

definition rolled_row :: "risk_profile \<Rightarrow> risk_row \<Rightarrow> int \<Rightarrow> risk_row" where
  "rolled_row p row now =
     (let w = windowStart now (rp_riskBudgetWindowMs p)
      in if rr_windowStartedAt row = w then row else row\<lparr>rr_windowStartedAt := w, rr_requestStartsJson := ''[]''\<rparr>)"

definition kept_reservations :: "string \<Rightarrow> risk_row \<Rightarrow> risk_row \<Rightarrow> reservation list \<Rightarrow> reservation list" where
  "kept_reservations g row rolled rs =
     (if rr_windowStartedAt rolled \<noteq> rr_windowStartedAt row
      then filter (\<lambda>r. \<not> expired_terminal g (rr_windowStartedAt rolled) r) rs else rs)"

definition new_reservation :: "risk_profile \<Rightarrow> string \<Rightarrow> string \<Rightarrow> int \<Rightarrow> int \<Rightarrow> reservation" where
  "new_reservation p g rid units now =
     \<lparr>rv_id = rid, rv_guardId = g, rv_status = Active, rv_reserved = units, rv_settled = None, rv_acquiredAt = now,
      rv_expiresAt = now + rp_leaseTtlMs p, rv_terminalAt = None, rv_evidence = None\<rparr>"

lemma new_reservation_simps [simp]:
  "rv_guardId (new_reservation p g rid units now) = g" "rv_status (new_reservation p g rid units now) = Active"
  "rv_id (new_reservation p g rid units now) = rid" "rv_reserved (new_reservation p g rid units now) = units"
  "exposed_units (new_reservation p g rid units now) = units"
  by (simp_all add: new_reservation_def exposed_units_def)

lemma risk_acquire_Inr:
  assumes "risk_acquire p g rid units now db = Inr (r, db')"
  obtains row starts where
    "risk_rows db g = Some row" "rr_profileDigest row = rp_profileDigest p"
    "is_safe_int units" "0 < units" "is_safe_int now" "0 \<le> now"
    "rr_windowStartedAt row \<le> windowStart now (rp_riskBudgetWindowMs p)"
    "parseRequestStarts (rr_requestStartsJson (rolled_row p row now)) = Inr starts"
    "int (length (filter (\<lambda>s. s > now - rp_requestStartsWindowMs p) starts)) < rp_requestStartsLimit p"
    "countReservations g Active (kept_reservations g row (rolled_row p row now) (reservations db)) < rp_maxInFlight p"
    "exposure_sum g (kept_reservations g row (rolled_row p row now) (reservations db)) + units \<le> rp_maxReservedCreditUnits p"
    "\<forall>x \<in> set (kept_reservations g row (rolled_row p row now) (reservations db)). rv_id x \<noteq> rid"
    "r = new_reservation p g rid units now"
    "reservations db' = kept_reservations g row (rolled_row p row now) (reservations db) @ [r]"
    "risk_rows db' = (risk_rows db)(g \<mapsto> row\<lparr>rr_revision := rr_revision row + 1,
        rr_windowStartedAt := windowStart now (rp_riskBudgetWindowMs p),
        rr_requestStartsJson := starts_json (filter (\<lambda>s. s > now - rp_requestStartsWindowMs p) starts @ [now])\<rparr>)"
proof -
  from assms obtain state where basic: "is_safe_int units" "0 < units" "is_safe_int now" "0 \<le> now"
    "lockState p g db = Inr state"
    by (auto simp: risk_acquire_def effects assertCreditUnits_def normalizeNow_def not_le split: if_splits)
  have windows: "rollState state now p = Inr (rolled_row p state now)"
    "rr_windowStartedAt state \<le> windowStart now (rp_riskBudgetWindowMs p)"
    using assms basic
    by (auto simp: risk_acquire_def effects normalizeNow_def rollState_def rolled_row_def safeInteger_def Let_def
        split: if_splits)
  have start: "rr_windowStartedAt (rolled_row p state now) = windowStart now (rp_riskBudgetWindowMs p)"
    by (simp add: rolled_row_def Let_def)
  from basic(5) have row: "risk_rows db g = Some state" "rr_profileDigest state = rp_profileDigest p"
    by (simp_all add: lockState_Inr)
  obtain starts where starts: "parseRequestStarts (rr_requestStartsJson (rolled_row p state now)) = Inr starts"
    using assms basic windows(1) by (auto simp: risk_acquire_def effects normalizeNow_def Let_def)
  show thesis
    by (rule that [OF row basic(1-4) windows(2) starts])
      (use assms basic windows(1) row starts in \<open>auto simp: risk_acquire_def effects normalizeNow_def Let_def
          kept_reservations_def [symmetric] new_reservation_def [symmetric] currentExposure_def safeInteger_def
          insert_reservation_def updateState_def list_ex_iff start not_le not_less split: if_splits\<close>)
qed

lemma finishReservation_Inr:
  assumes "finishReservation p g rid status settled now db = Inr (u, db')"
  obtains row where "risk_rows db g = Some row" "rr_profileDigest row = rp_profileDigest p"
    "list_ex (is_active g rid) (reservations db)"
    "reservations db' = set_where (is_active g rid)
       (\<lambda>r. r\<lparr>rv_status := status, rv_settled := settled, rv_terminalAt := Some now\<rparr>) (reservations db)"
    "risk_rows db' = (risk_rows db)(g \<mapsto> row\<lparr>rr_revision := rr_revision row + 1\<rparr>)"
  using assms
  by (auto simp: finishReservation_def effects lockState_Inr bumpState_def split: if_splits)

lemma risk_recover_Inr:
  assumes "risk_recover p g rid evidence now db = Inr (u, db')"
  obtains row r where "risk_rows db g = Some row" "rr_profileDigest row = rp_profileDigest p"
    "r \<in> set (reservations db)" "is_active g rid r" "rv_expiresAt r \<le> now"
    "reservations db' = set_where (is_active g rid)
       (\<lambda>r. r\<lparr>rv_status := Conservative, rv_terminalAt := Some now, rv_evidence := Some evidence\<rparr>) (reservations db)"
    "risk_rows db' = (risk_rows db)(g \<mapsto> row\<lparr>rr_revision := rr_revision row + 1\<rparr>)"
proof -
  from assms obtain r where r: "List.find (\<lambda>r. rv_id r = rid \<and> rv_guardId r = g) (reservations db) = Some r"
    by (auto simp: risk_recover_def effects split: option.splits)
  then have mem: "r \<in> set (reservations db)" "rv_id r = rid" "rv_guardId r = g" by (auto simp: find_Some_iff)
  from assms r obtain row where "lockState p g db = Inr row" by (auto simp: risk_recover_def effects)
  then show thesis
    using assms r mem
    by (intro that [of row r])
      (auto simp: risk_recover_def effects lockState_Inr bumpState_def normalizeNow_def safeInteger_def is_active_def not_less
        split: if_splits)
qed

subsection \<open>The invariant\<close>

text \<open>
  A settlement may charge more than was reserved; \<open>overrun\<close> is by how much.
\<close>

definition overrun :: "reservation \<Rightarrow> int" where
  "overrun r = (if rv_status r = Settled then max 0 (exposed_units r - rv_reserved r) else 0)"

definition overrun_sum :: "string \<Rightarrow> reservation list \<Rightarrow> int" where
  "overrun_sum g rs = sum_list (map overrun (of_guard g rs))"

definition starts_ok :: "risk_profile \<Rightarrow> risk_row \<Rightarrow> bool" where
  "starts_ok p row \<longleftrightarrow>
     (case parseRequestStarts (rr_requestStartsJson row) of
        Inl _ \<Rightarrow> False | Inr xs \<Rightarrow> int (length xs) \<le> rp_requestStartsLimit p)"

definition risk_ok :: "risk_profile \<Rightarrow> string \<Rightarrow> risk_db \<Rightarrow> bool" where
  "risk_ok p g db \<longleftrightarrow>
     (case risk_rows db g of None \<Rightarrow> of_guard g (reservations db) = [] | Some row \<Rightarrow> starts_ok p row)
     \<and> distinct (map rv_id (of_guard g (reservations db)))
     \<and> countReservations g Active (reservations db) \<le> rp_maxInFlight p
     \<and> exposure_sum g (reservations db) \<le> rp_maxReservedCreditUnits p + overrun_sum g (reservations db)"

definition reservation_evolves :: "reservation \<Rightarrow> reservation \<Rightarrow> bool" where
  "reservation_evolves a b \<longleftrightarrow>
     rv_id b = rv_id a \<and> rv_guardId b = rv_guardId a \<and> rv_reserved b = rv_reserved a
     \<and> rv_acquiredAt b = rv_acquiredAt a \<and> rv_expiresAt b = rv_expiresAt a \<and> (rv_status a \<noteq> Active \<longrightarrow> b = a)"

text \<open>Over time the revision and the budget window of a guard only grow.\<close>

definition risk_evolves :: "string \<Rightarrow> risk_db \<Rightarrow> risk_db \<Rightarrow> bool" where
  "risk_evolves g db db' \<longleftrightarrow>
     (\<forall>row. risk_rows db g = Some row \<longrightarrow>
        (\<exists>row'. risk_rows db' g = Some row' \<and> rr_profileDigest row' = rr_profileDigest row
           \<and> rr_revision row \<le> rr_revision row' \<and> rr_windowStartedAt row \<le> rr_windowStartedAt row'))"

text \<open>
  In one step an active reservation stays, or is finished; a finished one stays as it is, or is
  dropped when a window begins after its end.
\<close>

definition reservations_kept :: "string \<Rightarrow> risk_db \<Rightarrow> risk_db \<Rightarrow> bool" where
  "reservations_kept g db db' \<longleftrightarrow>
     (\<forall>r \<in> set (of_guard g (reservations db)).
        (\<exists>r' \<in> set (of_guard g (reservations db')). reservation_evolves r r')
        \<or> (rv_status r \<noteq> Active \<and> (\<exists>t row. rv_terminalAt r = Some t \<and> risk_rows db' g = Some row \<and> t < rr_windowStartedAt row)))"

lemma overrun_nonneg: "0 \<le> overrun_sum g rs"
  unfolding overrun_sum_def by (rule sum_list_nonneg) (auto simp: overrun_def)

lemma countReservations_append:
  "countReservations g s (rs @ [r]) = countReservations g s rs + (if rv_guardId r = g \<and> rv_status r = s then 1 else 0)"
  by (simp add: countReservations_def)

lemma exposure_append: "exposure_sum g (rs @ [r]) = exposure_sum g rs + (if rv_guardId r = g then exposed_units r else 0)"
  by (simp add: exposure_sum_def)

lemma count_kept: "countReservations g Active (kept_reservations g row rolled rs) = countReservations g Active rs"
proof -
  have "filter (\<lambda>r. \<not> expired_terminal g t r \<and> rv_status r = Active) xs = filter (\<lambda>r. rv_status r = Active) xs" for t xs
    by (rule filter_cong) (auto simp: expired_terminal_def)
  then show ?thesis by (simp add: kept_reservations_def countReservations_def of_guard_filter)
qed


text \<open>Finishing reservations changes only the one that is active under the identifier.\<close>

lemma set_where_none: "\<not> list_ex P xs \<Longrightarrow> set_where P f xs = xs"
  by (induction xs) (auto simp: set_where_def)

lemma finish_sums:
  assumes keep: "\<And>r. rv_guardId (f r) = rv_guardId r \<and> rv_status (f r) \<noteq> Active"
    and units: "\<And>r. rv_status r = Active \<Longrightarrow> exposed_units (f r) \<le> exposed_units r + overrun (f r)"
  shows "countReservations g Active (set_where (is_active g rid) f rs) \<le> countReservations g Active rs"
    and "exposure_sum g (set_where (is_active g rid) f rs) - overrun_sum g (set_where (is_active g rid) f rs)
           \<le> exposure_sum g rs - overrun_sum g rs"
proof -
  show "countReservations g Active (set_where (is_active g rid) f rs) \<le> countReservations g Active rs"
    using keep by (induction rs) (auto simp: countReservations_def set_where_def)
  show "exposure_sum g (set_where (is_active g rid) f rs) - overrun_sum g (set_where (is_active g rid) f rs)
           \<le> exposure_sum g rs - overrun_sum g rs"
  proof (induction rs)
    case Nil
    show ?case by (simp add: set_where_def)
  next
    case (Cons r rs)
    have "exposed_units (f r) - overrun (f r) \<le> exposed_units r - overrun r" if "is_active g rid r"
      using units [of r] that by (simp add: is_active_def overrun_def)
    with Cons keep show ?case
      by (auto simp: exposure_sum_def overrun_sum_def set_where_def)
  qed
qed

definition finishes :: "(reservation \<Rightarrow> reservation) \<Rightarrow> bool" where
  "finishes f \<longleftrightarrow> (\<forall>r. rv_id (f r) = rv_id r \<and> rv_guardId (f r) = rv_guardId r \<and> rv_reserved (f r) = rv_reserved r
     \<and> rv_acquiredAt (f r) = rv_acquiredAt r \<and> rv_expiresAt (f r) = rv_expiresAt r \<and> rv_status (f r) \<noteq> Active
     \<and> (rv_status r = Active \<longrightarrow> exposed_units (f r) \<le> exposed_units r + overrun (f r)))"

lemma finish_good:
  assumes ok: "risk_ok p g db" and f: "finishes f" and row: "risk_rows db g = Some row"
    and db': "reservations db' = set_where (is_active g rid) f (reservations db)"
      "risk_rows db' = (risk_rows db)(g \<mapsto> row\<lparr>rr_revision := rr_revision row + 1\<rparr>)"
  shows "risk_ok p g db'" "risk_evolves g db db'" "reservations_kept g db db'"
proof -
  note sums = finish_sums [of f g rid "reservations db"]
  have guard: "of_guard g (reservations db') = set_where (is_active g rid) f (of_guard g (reservations db))"
    unfolding db' using f by (intro of_guard_set_where) (simp add: finishes_def)
  have "map rv_id (set_where (is_active g rid) f xs) = map rv_id xs" for xs
    using f by (induction xs) (auto simp: set_where_def finishes_def)
  then have ids: "distinct (map rv_id (of_guard g (reservations db')))" using ok by (simp add: guard risk_ok_def)
  have "countReservations g Active (reservations db') \<le> countReservations g Active (reservations db)"
    "exposure_sum g (reservations db') - overrun_sum g (reservations db')
       \<le> exposure_sum g (reservations db) - overrun_sum g (reservations db)"
    unfolding db' using f by (intro sums; simp add: finishes_def)+
  with ok ids row show "risk_ok p g db'" by (simp add: risk_ok_def db'(2) starts_ok_def)
  show "risk_evolves g db db'" using row by (simp add: risk_evolves_def db'(2))
  have "reservation_evolves r (if is_active g rid r then f r else r)" for r
    using f by (simp add: reservation_evolves_def is_active_def finishes_def)
  moreover have "(if is_active g rid r then f r else r) \<in> set (of_guard g (reservations db'))"
    if "r \<in> set (of_guard g (reservations db))" for r
    using that by (auto simp: guard set_where_def)
  ultimately show "reservations_kept g db db'" unfolding reservations_kept_def by blast
qed

lemma finishes_settle: "finishes (\<lambda>r. r\<lparr>rv_status := Settled, rv_settled := Some n, rv_terminalAt := Some now\<rparr>)"
  by (auto simp: finishes_def exposed_units_def overrun_def)

lemma finishes_close: "finishes (\<lambda>r. r\<lparr>rv_status := Conservative, rv_settled := None, rv_terminalAt := Some now\<rparr>)"
  by (auto simp: finishes_def exposed_units_def overrun_def)

lemma finishes_recover: "finishes (\<lambda>r. r\<lparr>rv_status := Conservative, rv_terminalAt := Some now, rv_evidence := Some e\<rparr>)"
  by (auto simp: finishes_def exposed_units_def overrun_def)

lemma acquire_good:
  assumes ok: "risk_ok p g db" and run: "risk_acquire p g rid units now db = Inr (r, db')"
  shows "risk_ok p g db'" "risk_evolves g db db'" "reservations_kept g db db'"
    "exposure_sum g (reservations db') \<le> rp_maxReservedCreditUnits p"
proof -
  obtain row starts where row: "risk_rows db g = Some row" "rr_profileDigest row = rp_profileDigest p"
    "is_safe_int now" "0 \<le> now"
    "rr_windowStartedAt row \<le> windowStart now (rp_riskBudgetWindowMs p)"
    and starts: "parseRequestStarts (rr_requestStartsJson (rolled_row p row now)) = Inr starts"
      "int (length (filter (\<lambda>s. s > now - rp_requestStartsWindowMs p) starts)) < rp_requestStartsLimit p"
    and counts: "countReservations g Active (kept_reservations g row (rolled_row p row now) (reservations db)) < rp_maxInFlight p"
      "exposure_sum g (kept_reservations g row (rolled_row p row now) (reservations db)) + units \<le> rp_maxReservedCreditUnits p"
      "\<forall>x \<in> set (kept_reservations g row (rolled_row p row now) (reservations db)). rv_id x \<noteq> rid"
    and db': "r = new_reservation p g rid units now"
      "reservations db' = kept_reservations g row (rolled_row p row now) (reservations db) @ [r]"
      "risk_rows db' = (risk_rows db)(g \<mapsto> row\<lparr>rr_revision := rr_revision row + 1,
          rr_windowStartedAt := windowStart now (rp_riskBudgetWindowMs p),
          rr_requestStartsJson := starts_json (filter (\<lambda>s. s > now - rp_requestStartsWindowMs p) starts @ [now])\<rparr>)"
    using run by (rule risk_acquire_Inr) blast
  let ?kept = "kept_reservations g row (rolled_row p row now) (reservations db)"
  let ?starts = "filter (\<lambda>s. s > now - rp_requestStartsWindowMs p) starts @ [now]"
  have "list_all (\<lambda>n. is_safe_int n \<and> 0 \<le> n) ?starts"
    using parse_starts_valid [OF starts(1)] row(3,4) by (auto simp: list_all_iff)
  then have "parseRequestStarts (starts_json ?starts) = Inr ?starts" by (rule parse_starts_json)
  then have "starts_ok p (the (risk_rows db' g))" using starts(2) by (simp add: starts_ok_def db'(3))
  moreover have "distinct (map rv_id (of_guard g (reservations db')))"
  proof -
    have "distinct (map rv_id (of_guard g ?kept))"
      using ok by (simp add: risk_ok_def kept_reservations_def of_guard_filter distinct_map_filter)
    with counts(3) show ?thesis by (auto simp: db'(1,2) of_guard_def)
  qed
  moreover have "countReservations g Active (reservations db') \<le> rp_maxInFlight p"
    using counts(1) by (simp add: db'(1,2) countReservations_append)
  moreover have exposure: "exposure_sum g (reservations db') \<le> rp_maxReservedCreditUnits p"
    using counts(2) by (simp add: db'(1,2) exposure_append)
  ultimately show "risk_ok p g db'"
    using overrun_nonneg [of g "reservations db'"] by (simp add: risk_ok_def db'(3))
  show "exposure_sum g (reservations db') \<le> rp_maxReservedCreditUnits p" by (rule exposure)
  show "risk_evolves g db db'" using row by (simp add: risk_evolves_def db'(3))
  have "\<exists>x \<in> set (of_guard g (reservations db')). reservation_evolves r0 x"
    if "r0 \<in> set (of_guard g (reservations db))" "\<not> expired_terminal g (windowStart now (rp_riskBudgetWindowMs p)) r0" for r0
    using that by (intro bexI [of _ r0])
      (auto simp: reservation_evolves_def db'(1,2) kept_reservations_def of_guard_def rolled_row_def Let_def)
  then show "reservations_kept g db db'"
    by (fastforce simp: reservations_kept_def db'(3) expired_terminal_def split: option.splits)
qed


subsection \<open>Runs\<close>

datatype risk_op =
    Risk_initialize int
  | Risk_acquire string int int
  | Risk_settle string int int
  | Risk_close string int
  | Risk_recover string string int

definition db_after :: "('a \<times> risk_db) result \<Rightarrow> risk_db result" where
  "db_after r = rbind r (\<lambda>(_, db). Inr db)"

fun run_risk :: "risk_profile \<Rightarrow> string \<Rightarrow> risk_op \<Rightarrow> risk_db \<Rightarrow> risk_db result" where
  "run_risk p g (Risk_initialize now) db = db_after (risk_initialize p g now db)"
| "run_risk p g (Risk_acquire rid units now) db = db_after (risk_acquire p g rid units now db)"
| "run_risk p g (Risk_settle rid units now) db = db_after (finishReservation p g rid Settled (Some units) now db)"
| "run_risk p g (Risk_close rid now) db = db_after (finishReservation p g rid Conservative None now db)"
| "run_risk p g (Risk_recover rid evidence now) db = db_after (risk_recover p g rid evidence now db)"

text \<open>The transactions of other guards leave the rows of this one.\<close>

inductive risk_step :: "risk_profile \<Rightarrow> string \<Rightarrow> risk_db \<Rightarrow> risk_db \<Rightarrow> bool" for p g where
  transaction: "run_risk p g op db = Inr db' \<Longrightarrow> risk_step p g db db'"
| other_guard: "risk_rows db' g = risk_rows db g \<Longrightarrow> of_guard g (reservations db') = of_guard g (reservations db)
    \<Longrightarrow> risk_step p g db db'"

definition risk_start :: "risk_profile \<Rightarrow> string \<Rightarrow> risk_db \<Rightarrow> bool" where
  "risk_start p g db \<longleftrightarrow>
     isl (new_risk_store g p) = False \<and> risk_rows db g = None \<and> of_guard g (reservations db) = []"

lemma new_store_positive:
  assumes "new_risk_store g p = Inr u"
  shows "1 \<le> rp_requestStartsLimit p" "1 \<le> rp_maxInFlight p" "1 \<le> rp_maxReservedCreditUnits p"
  using assms by (auto simp: new_risk_store_def validateProfile_def positive_safe_def effects)

lemma risk_start_ok:
  assumes "risk_start p g db"
  shows "risk_ok p g db"
proof -
  from assms obtain u where "new_risk_store g p = Inr u" by (cases "new_risk_store g p") (auto simp: risk_start_def)
  from new_store_positive [OF this] assms show ?thesis
    by (simp add: risk_start_def risk_ok_def countReservations_def exposure_sum_def overrun_sum_def)
qed

text \<open>\<open>initialize\<close> inserts the row only when there is none.\<close>

lemma initialize_good:
  assumes ok: "risk_ok p g db" and run: "risk_initialize p g now db = Inr (u, db')" and limit: "0 \<le> rp_requestStartsLimit p"
  shows "risk_ok p g db'" "risk_evolves g db db'" "reservations_kept g db db'"
proof -
  have db': "risk_rows db g = None" "reservations db' = reservations db"
    "\<exists>row. risk_rows db' g = Some row \<and> rr_requestStartsJson row = starts_json []"
    using run by (auto simp: risk_initialize_def effects starts_json_Nil split: if_splits)
  then show "risk_ok p g db'" using ok limit by (auto simp: risk_ok_def starts_ok_def parse_starts_json)
  show "risk_evolves g db db'" by (simp add: risk_evolves_def db')
  show "reservations_kept g db db'"
    using db' by (auto simp: reservations_kept_def reservation_evolves_def intro!: bexI)
qed

lemma risk_step_good:
  assumes ok: "risk_ok p g db" and step: "risk_step p g db db'" and limit: "0 \<le> rp_requestStartsLimit p"
  shows "risk_ok p g db' \<and> risk_evolves g db db' \<and> reservations_kept g db db'"
  using step
proof cases
  case (transaction op)
  show ?thesis
  proof (cases op)
    case (Risk_initialize now)
    with transaction initialize_good [OF ok _ limit] show ?thesis by (auto simp: db_after_def effects)
  next
    case (Risk_acquire rid units now)
    with transaction acquire_good [OF ok] show ?thesis by (auto simp: db_after_def effects)
  next
    case (Risk_settle rid units now)
    with transaction obtain u where "finishReservation p g rid Settled (Some units) now db = Inr (u, db')"
      by (auto simp: db_after_def effects)
    then show ?thesis by (elim finishReservation_Inr) (use finish_good [OF ok finishes_settle] in blast)
  next
    case (Risk_close rid now)
    with transaction obtain u where "finishReservation p g rid Conservative None now db = Inr (u, db')"
      by (auto simp: db_after_def effects)
    then show ?thesis by (elim finishReservation_Inr) (use finish_good [OF ok finishes_close] in blast)
  next
    case (Risk_recover rid evidence now)
    with transaction obtain u where "risk_recover p g rid evidence now db = Inr (u, db')"
      by (auto simp: db_after_def effects)
    then show ?thesis by (elim risk_recover_Inr) (use finish_good [OF ok finishes_recover] in blast)
  qed
next
  case other_guard
  then show ?thesis
    using ok
    by (cases "risk_rows db g")
      (auto simp: risk_ok_def risk_evolves_def reservations_kept_def reservation_evolves_def
        countReservations_def exposure_sum_def overrun_sum_def intro!: bexI)
qed

lemma risk_evolves_trans: "risk_evolves g a b \<Longrightarrow> risk_evolves g b c \<Longrightarrow> risk_evolves g a c"
  by (fastforce simp: risk_evolves_def)

definition usable_profile :: "risk_profile \<Rightarrow> string \<Rightarrow> risk_db \<Rightarrow> bool" where
  "usable_profile p g db \<longleftrightarrow> risk_ok p g db \<and> 0 \<le> rp_requestStartsLimit p"

lemma risk_start_usable:
  assumes "risk_start p g db"
  shows "usable_profile p g db"
proof -
  from assms obtain u where "new_risk_store g p = Inr u" by (cases "new_risk_store g p") (auto simp: risk_start_def)
  from new_store_positive(1) [OF this] risk_start_ok [OF assms] show ?thesis by (simp add: usable_profile_def)
qed

interpretation risk_guard: evolving_system "risk_start p g" "risk_step p g" "usable_profile p g" "risk_evolves g" for p g
proof unfold_locales
  show "risk_start p g s \<Longrightarrow> usable_profile p g s" for s by (rule risk_start_usable)
  show "usable_profile p g s \<Longrightarrow> risk_step p g s t \<Longrightarrow> usable_profile p g t" for s t
    using risk_step_good by (auto simp: usable_profile_def)
  show "risk_evolves g s s" for s by (simp add: risk_evolves_def)
  show "risk_evolves g s t \<Longrightarrow> risk_evolves g t u \<Longrightarrow> risk_evolves g s u" for s t u by (rule risk_evolves_trans)
  show "usable_profile p g s \<Longrightarrow> risk_step p g s t \<Longrightarrow> risk_evolves g s t" for s t
    using risk_step_good by (auto simp: usable_profile_def)
qed


subsection \<open>Theorems\<close>

text \<open>
  C39: in every state the guard reaches, whatever transactions its callers run at whatever times,
  what \<open>inspect\<close> reports is within the profile: requests in flight, recorded starts, and exposure,
  which exceeds the budget only by what settlements charged above their reservations.
\<close>

theorem risk_limits_hold:
  assumes "risk_start p g s" "(risk_step p g)\<^sup>*\<^sup>* s db" "risk_inspect p g db = Inr i"
  shows "in_inFlight i \<le> rp_maxInFlight p \<and> in_requestStarts i \<le> rp_requestStartsLimit p
    \<and> in_reserved i \<le> rp_maxReservedCreditUnits p + overrun_sum g (reservations db)"
proof -
  have "risk_ok p g db" using risk_guard.reachable_inv [OF assms(1,2)] by (simp add: usable_profile_def)
  with assms(3) show ?thesis
    by (auto simp: risk_inspect_def effects risk_ok_def starts_ok_def currentExposure_def safeInteger_def
        split: option.splits if_splits)
qed

text \<open>
  An admitted request is within every limit: it adds one active reservation of the units asked
  for, and with it the exposure is within the budget and the requests in flight within the maximum.
\<close>

lemma risk_acquire_within_budget:
  assumes "risk_start p g s" "(risk_step p g)\<^sup>*\<^sup>* s db" "risk_acquire p g rid units now db = Inr (r, db')"
  shows "exposure_sum g (reservations db') \<le> rp_maxReservedCreditUnits p
    \<and> countReservations g Active (reservations db') = countReservations g Active (reservations db) + 1
    \<and> countReservations g Active (reservations db') \<le> rp_maxInFlight p
    \<and> r \<in> set (reservations db') \<and> rv_status r = Active \<and> rv_reserved r = units \<and> rv_expiresAt r = now + rp_leaseTtlMs p"
proof -
  have ok: "risk_ok p g db" using risk_guard.reachable_inv [OF assms(1,2)] by (simp add: usable_profile_def)
  note good = acquire_good [OF ok assms(3)]
  have "countReservations g Active (reservations db') = countReservations g Active (reservations db) + 1"
    "r \<in> set (reservations db')" "rv_status r = Active" "rv_reserved r = units" "rv_expiresAt r = now + rp_leaseTtlMs p"
    using assms(3) by (auto elim!: risk_acquire_Inr simp: countReservations_append count_kept) (simp add: new_reservation_def)
  with good show ?thesis by (simp add: risk_ok_def)
qed

text \<open>
  A reservation ends once. In one step an active reservation stays or is finished, a finished
  one never changes (it is dropped when a later window begins), the revision and the budget
  window never go back, and a second end of the same lease object does nothing.
\<close>

lemma risk_reservation_ends_once:
  assumes "risk_start p g s" "(risk_step p g)\<^sup>*\<^sup>* s db" "risk_step p g db db'"
  shows "reservations_kept g db db' \<and> risk_evolves g s db' \<and> risk_evolves g db db'
    \<and> lease_settle p g units now (l\<lparr>rl_closed := True\<rparr>, db') = (Inr (), (l\<lparr>rl_closed := True\<rparr>, db'))
    \<and> lease_close_unknown p g now (l\<lparr>rl_closed := True\<rparr>, db') = (Inr (), (l\<lparr>rl_closed := True\<rparr>, db'))"
proof -
  have usable: "usable_profile p g db" using assms(1,2) by (rule risk_guard.reachable_inv)
  then have "reservations_kept g db db' \<and> risk_evolves g db db'"
    using risk_step_good [OF _ assms(3)] by (simp add: usable_profile_def)
  moreover have "risk_evolves g s db'"
    using risk_guard.run_evolve [OF rtranclp.rtrancl_into_rtrancl [OF assms(2,3)] risk_guard.init_inv [OF assms(1)]] .
  ultimately show ?thesis by (simp add: lease_settle_def lease_close_unknown_def)
qed

definition example_profile :: risk_profile where
  "example_profile = \<lparr>rp_profileDigest = ''sha256:'' @ replicate 64 (CHR ''0''), rp_requestStartsLimit = 1,
     rp_requestStartsWindowMs = 1000, rp_maxInFlight = 2, rp_riskBudgetWindowMs = 1000, rp_leaseTtlMs = 5000,
     rp_maxReservedCreditUnits = 10\<rparr>"

definition example_risk_db :: risk_db where
  "example_risk_db = \<lparr>risk_rows = (\<lambda>_. None), reservations = []\<rparr>"

definition example_risk_row :: "int \<Rightarrow> int \<Rightarrow> int list \<Rightarrow> risk_row" where
  "example_risk_row revision window starts = \<lparr>rr_profileDigest = rp_profileDigest example_profile, rr_revision = revision,
     rr_windowStartedAt = window, rr_requestStartsJson = starts_json starts\<rparr>"

lemma example_profile_simps [simp]:
  "rp_requestStartsLimit example_profile = 1" "rp_requestStartsWindowMs example_profile = 1000"
  "rp_maxInFlight example_profile = 2" "rp_riskBudgetWindowMs example_profile = 1000"
  "rp_maxReservedCreditUnits example_profile = 10"
  by (simp_all add: example_profile_def)

lemma example_risk_start: "risk_start example_profile ''g'' example_risk_db"
proof -
  have "new_risk_store ''g'' example_profile = Inr ()" by code_simp
  then show ?thesis by (simp add: risk_start_def example_risk_db_def)
qed

definition example_risk_ready :: risk_db where
  "example_risk_ready = \<lparr>risk_rows = [''g'' \<mapsto> example_risk_row 1 0 []], reservations = []\<rparr>"

lemma example_risk_initialize: "risk_initialize example_profile ''g'' 999 example_risk_db = Inr ((), example_risk_ready)"
  by (simp add: risk_initialize_def normalizeNow_def is_safe_int_def MAX_SAFE_INTEGER_def iso_time_def windowStart_def
      example_risk_db_def example_risk_ready_def example_risk_row_def starts_json_Nil)

lemma example_risk_acquire:
  assumes "is_safe_int units" "0 < units" "is_safe_int now" "0 \<le> now" "now \<le> 8640000000000000"
    and "list_all (\<lambda>n. is_safe_int n \<and> 0 \<le> n) starts" "is_safe_int window" "window \<le> windowStart now 1000"
    and "window = windowStart now 1000 \<Longrightarrow> filter (\<lambda>s. s > now - 1000) starts = []"
    and "\<forall>r \<in> set rs. rv_id r \<noteq> rid \<and> rv_guardId r = ''g'' \<and> rv_status r = Active" "length rs < 2"
    and "is_safe_int (sum_list (map rv_reserved rs))" "sum_list (map rv_reserved rs) + units \<le> 10"
  shows "risk_acquire example_profile ''g'' rid units now
      \<lparr>risk_rows = [''g'' \<mapsto> example_risk_row n window starts], reservations = rs\<rparr>
    = Inr (new_reservation example_profile ''g'' rid units now,
        \<lparr>risk_rows = [''g'' \<mapsto> example_risk_row (n + 1) (windowStart now 1000) [now]],
         reservations = rs @ [new_reservation example_profile ''g'' rid units now]\<rparr>)"
proof -
  let ?row = "example_risk_row n window starts"
  have lock: "lockState example_profile ''g'' \<lparr>risk_rows = [''g'' \<mapsto> ?row], reservations = rs\<rparr> = Inr ?row"
    using assms(6) by (simp add: lockState_Inr example_risk_row_def parse_starts_json)
  have roll: "rollState ?row now example_profile = Inr (rolled_row example_profile ?row now)"
    using assms(7,8) by (auto simp: rollState_def rolled_row_def safeInteger_def Let_def example_risk_row_def)
  have all: "filter P rs = rs" if "\<And>r. r \<in> set rs \<Longrightarrow> P r" for P using that by (simp add: filter_id_conv)
  have kept: "kept_reservations ''g'' ?row (rolled_row example_profile ?row now) rs = rs"
    using assms(10) by (auto simp: kept_reservations_def expired_terminal_def filter_id_conv)
  have guard: "of_guard ''g'' rs = rs" "filter (\<lambda>r. rv_status r = Active) rs = rs" using assms(10) by (auto simp: of_guard_def filter_id_conv)
  have sums: "countReservations ''g'' Active rs = int (length rs)"
    by (simp add: countReservations_def guard)
  have units: "map exposed_units rs = map rv_reserved rs" using assms(10) by (auto simp: exposed_units_def)
  have exposure: "exposure_sum ''g'' rs = sum_list (map rv_reserved rs)" by (simp add: exposure_sum_def guard units)
  have recorded: "parseRequestStarts (rr_requestStartsJson (rolled_row example_profile ?row now))
      = Inr (if window = windowStart now 1000 then starts else [])"
    using assms(6) parse_starts_json [of starts] parse_starts_json [of "[]"]
    by (simp add: rolled_row_def Let_def example_risk_row_def starts_json_Nil)
  have none: "filter (\<lambda>s. s > now - 1000) (if window = windowStart now 1000 then starts else []) = []"
    using assms(9) by simp
  have start: "rr_windowStartedAt (rolled_row example_profile ?row now) = windowStart now 1000"
    by (simp add: rolled_row_def Let_def)
  show ?thesis
    using assms(1-5,10-13) kept lock roll recorded none
    by (simp add: risk_acquire_def assertCreditUnits_def normalizeNow_def Let_def sums
        exposure currentExposure_def safeInteger_def insert_reservation_def updateState_def iso_time_def list_ex_iff
        kept_reservations_def [symmetric] new_reservation_def [symmetric] start)
      (simp add: example_risk_row_def)
qed


definition example_first :: reservation where
  "example_first = new_reservation example_profile ''g'' ''a'' 5 999"

definition example_risk_one :: risk_db where
  "example_risk_one = \<lparr>risk_rows = [''g'' \<mapsto> example_risk_row 2 0 [999]], reservations = [example_first]\<rparr>"

lemma example_first_acquire:
  "risk_acquire example_profile ''g'' ''a'' 5 999 example_risk_ready = Inr (example_first, example_risk_one)"
  unfolding example_risk_ready_def example_risk_one_def example_first_def
  by (subst example_risk_acquire) (simp_all add: is_safe_int_def MAX_SAFE_INTEGER_def windowStart_def)

lemma example_risk_run: "(risk_step example_profile ''g'')\<^sup>*\<^sup>* example_risk_db example_risk_ready"
  "(risk_step example_profile ''g'')\<^sup>*\<^sup>* example_risk_db example_risk_one"
  "risk_step example_profile ''g'' example_risk_ready example_risk_one"
proof -
  have "risk_step example_profile ''g'' example_risk_db example_risk_ready"
    by (rule risk_step.transaction [of _ _ "Risk_initialize 999"]) (simp add: example_risk_initialize db_after_def)
  then show ready: "(risk_step example_profile ''g'')\<^sup>*\<^sup>* example_risk_db example_risk_ready" by (rule r_into_rtranclp)
  show one: "risk_step example_profile ''g'' example_risk_ready example_risk_one"
    by (rule risk_step.transaction [of _ _ "Risk_acquire ''a'' 5 999"]) (simp add: example_first_acquire db_after_def)
  from ready one show "(risk_step example_profile ''g'')\<^sup>*\<^sup>* example_risk_db example_risk_one" by (rule rtranclp.rtrancl_into_rtrancl)
qed

theorem risk_limits_hold_witness:
  "\<exists>i. risk_inspect example_profile ''g'' example_risk_one = Inr i \<and> in_inFlight i \<le> 2 \<and> in_requestStarts i \<le> 1"
proof -
  obtain i where "risk_inspect example_profile ''g'' example_risk_one = Inr i"
    by (simp add: risk_inspect_def example_risk_one_def example_risk_row_def assertProfileDigest_def safeInteger_def
        parse_starts_json currentExposure_def exposure_sum_def example_first_def is_safe_int_def MAX_SAFE_INTEGER_def)
  with risk_limits_hold [OF example_risk_start example_risk_run(2)] show ?thesis by fastforce
qed

lemma risk_acquire_within_budget_example:
  "exposure_sum ''g'' (reservations example_risk_one) \<le> 10 \<and> countReservations ''g'' Active (reservations example_risk_one) \<le> 2"
  using risk_acquire_within_budget [OF example_risk_start example_risk_run(1) example_first_acquire] by simp

lemma risk_reservation_ends_once_example:
  "reservations_kept ''g'' example_risk_ready example_risk_one \<and> risk_evolves ''g'' example_risk_db example_risk_one"
  using risk_reservation_ends_once [OF example_risk_start example_risk_run(1,3)] by blast

text \<open>
  The limit on starts is forgotten when a budget window begins: with one start allowed in a
  second, a request admitted in the last millisecond of a budget window does not count against
  one admitted a millisecond later.
\<close>

lemma starts_limit_resets_with_window:
  "\<exists>p db r1 db1 r2 db2. new_risk_store ''g'' p = Inr () \<and> rp_requestStartsLimit p = 1 \<and> rp_requestStartsWindowMs p = 1000
     \<and> risk_acquire p ''g'' ''a'' 5 999 db = Inr (r1, db1) \<and> risk_acquire p ''g'' ''b'' 5 1000 db1 = Inr (r2, db2)"
proof -
  have "new_risk_store ''g'' example_profile = Inr ()" by code_simp
  moreover have "\<exists>r db. risk_acquire example_profile ''g'' ''b'' 5 1000 example_risk_one = Inr (r, db)"
    unfolding example_risk_one_def
    by (subst example_risk_acquire) (simp_all add: is_safe_int_def MAX_SAFE_INTEGER_def windowStart_def example_first_def)
  ultimately show ?thesis using example_first_acquire example_profile_simps(1,2) by blast
qed

end
