(* ===== verification/Shadow_Guard.thy ===== *)
theory Shadow_Guard
  imports Risk_State
begin

section \<open>The risk guard of one process\<close>

text \<open>
  \<open>packages/gateway/src/production-shadow-risk-guard.ts\<close>: the guard that keeps its state in a file, under a
  lock file. Its limits are fixed: six starts in a minute, two requests in flight, and a credit for a UTC
  day. An operation is synchronous and holds the lock from its first read to its write, so operations do
  not interleave; the lock of another process is part of the file system here. The file holds the record
  that was written as JSON last, and its mode. Times are milliseconds within the range of a date.
\<close>

subsection \<open>State\<close>

record shadow_profile =
  sp_canaryMaxWeightPercent :: int
  sp_requestStartsLimit :: int
  sp_requestStartsWindowSeconds :: int
  sp_maxInFlight :: int
  sp_riskBudgetWindowSeconds :: int
  sp_leaseTtlSeconds :: int
  sp_maxReservedCreditUnits :: int

record shadow_reservation =
  sr_id :: string
  sr_status :: reservation_status
  sr_reserved :: int
  sr_settled :: "int option"
  sr_acquiredAt :: int
  sr_expiresAt :: int
  sr_terminalAt :: "int option"
  sr_evidence :: "string option"

record shadow_state =
  ss_schema :: string
  ss_profileDigest :: string
  ss_revision :: int
  ss_windowStartedAt :: int
  ss_requestStarts :: "int list"
  ss_reservations :: "shadow_reservation list"
  ss_updatedAt :: int

record shadow_file =
  sh_mode :: nat
  sh_state :: shadow_state

record shadow_fs =
  fs_file :: "shadow_file option"
  fs_locked :: bool

record shadow_guard =
  sg_profile :: shadow_profile
  sg_profileDigest :: string

definition STATE_SCHEMA :: string where
  "STATE_SCHEMA = ''friday-relay.production-shadow-risk-state.v1''"

definition maximumDailyReservationRecords :: nat where "maximumDailyReservationRecords = 8650"

subsection \<open>Profiles\<close>

definition fixedProductionShadowRiskProfile :: "int \<Rightarrow> shadow_profile result" where
  "fixedProductionShadowRiskProfile units =
     (if \<not> is_safe_int units \<or> units \<le> 0 then plain ''max reserved Credit units must be a positive safe integer''
      else Inr \<lparr>sp_canaryMaxWeightPercent = 5, sp_requestStartsLimit = 6, sp_requestStartsWindowSeconds = 60, sp_maxInFlight = 2,
             sp_riskBudgetWindowSeconds = 86400, sp_leaseTtlSeconds = 1800, sp_maxReservedCreditUnits = units\<rparr>)"

definition shadow_credit_units :: "int \<Rightarrow> string \<Rightarrow> bool \<Rightarrow> unit result" where
  "shadow_credit_units n name allowZero =
     require (is_safe_int n \<and> n \<ge> (if allowZero then 0 else 1)) (PlainError (name @ '' are invalid''))"

definition validateShadowProfile :: "shadow_profile \<Rightarrow> unit result" where
  "validateShadowProfile p =
     (if sp_canaryMaxWeightPercent p \<noteq> 5 \<or> sp_requestStartsLimit p \<noteq> 6 \<or> sp_requestStartsWindowSeconds p \<noteq> 60
         \<or> sp_maxInFlight p \<noteq> 2 \<or> sp_riskBudgetWindowSeconds p \<noteq> 86400 \<or> sp_leaseTtlSeconds p \<noteq> 1800
      then plain ''Production shadow risk profile fixed limits cannot be changed at runtime''
      else shadow_credit_units (sp_maxReservedCreditUnits p) ''max reserved Credit units'' False)"

text \<open>\<open>sha\<close> is the hexadecimal SHA-256 digest of a text.\<close>

definition productionShadowRiskProfileDigest :: "(string \<Rightarrow> string) \<Rightarrow> shadow_profile \<Rightarrow> string result" where
  "productionShadowRiskProfileDigest sha p =
     rbind (validateShadowProfile p) (\<lambda>_.
       Inr (''sha256:'' @ sha (json_print (Json_obj
         [(''canaryMaxWeightPercent'', Json_int (sp_canaryMaxWeightPercent p)), (''leaseTtlSeconds'', Json_int (sp_leaseTtlSeconds p)),
          (''maxInFlight'', Json_int (sp_maxInFlight p)), (''maxReservedCreditUnits'', Json_int (sp_maxReservedCreditUnits p)),
          (''requestStarts'', Json_obj [(''limit'', Json_int (sp_requestStartsLimit p)),
             (''windowSeconds'', Json_int (sp_requestStartsWindowSeconds p))]),
          (''riskBudgetWindowSeconds'', Json_int (sp_riskBudgetWindowSeconds p))]))))"

definition new_shadow_guard :: "(string \<Rightarrow> string) \<Rightarrow> int \<Rightarrow> shadow_guard result" where
  "new_shadow_guard sha units =
     rbind (fixedProductionShadowRiskProfile units) (\<lambda>p.
     rbind (productionShadowRiskProfileDigest sha p) (\<lambda>digest. Inr \<lparr>sg_profile = p, sg_profileDigest = digest\<rparr>))"

subsection \<open>Validation\<close>

definition valid_reservation_id :: "string \<Rightarrow> bool" where
  "valid_reservation_id s \<longleftrightarrow> take 4 s = ''rsv_'' \<and> matches_class is_hex_char 32 32 (drop 4 s)"

definition valid_digest :: "string \<Rightarrow> bool" where
  "valid_digest s \<longleftrightarrow> take 7 s = ''sha256:'' \<and> matches_class is_hex_char 64 64 (drop 7 s)"

definition valid_time :: "int \<Rightarrow> bool" where
  "valid_time n \<longleftrightarrow> is_safe_int n \<and> 0 \<le> n"

definition validateReservation :: "shadow_reservation \<Rightarrow> unit result" where
  "validateReservation r =
     rbind (require (valid_reservation_id (sr_id r)) (PlainError ''Production shadow risk reservation id is invalid'')) (\<lambda>_.
     rbind (shadow_credit_units (sr_reserved r) ''reserved Credit units'' True) (\<lambda>_.
     rbind (if sr_status r = Settled
            then (case sr_settled r of
                    Some n \<Rightarrow> shadow_credit_units n ''settled Credit units'' True
                  | None \<Rightarrow> plain ''settled Credit units are invalid'')
            else require (sr_settled r = None) (PlainError ''Unsettled risk reservation cannot store settled Credit units'')) (\<lambda>_.
     rbind (require (valid_time (sr_acquiredAt r)) (PlainError ''Production shadow risk acquiredAtMs is invalid'')) (\<lambda>_.
     rbind (require (valid_time (sr_expiresAt r)) (PlainError ''Production shadow risk expiresAtMs is invalid'')) (\<lambda>_.
     rbind (require (\<not> sr_expiresAt r \<le> sr_acquiredAt r) (PlainError ''Production shadow risk lease expiry is invalid'')) (\<lambda>_.
     rbind (if sr_status r = Active
            then require (sr_terminalAt r = None \<and> sr_evidence r = None) (PlainError ''Active risk reservation cannot contain terminal evidence'')
            else (case sr_terminalAt r of
                    Some t \<Rightarrow> require (is_safe_int t \<and> \<not> t < sr_acquiredAt r) (PlainError ''Terminal risk reservation time is invalid'')
                  | None \<Rightarrow> plain ''Terminal risk reservation time is invalid'')) (\<lambda>_.
       require (case sr_evidence r of None \<Rightarrow> True | Some d \<Rightarrow> valid_digest d) (PlainError ''Terminal risk evidence digest is invalid''))))))))"

definition validate_next :: "shadow_reservation \<Rightarrow> string list \<Rightarrow> string list result" where
  "validate_next r ids =
     rbind (validateReservation r) (\<lambda>_.
       if sr_id r \<in> set ids then plain ''Production shadow risk reservation ids must be unique'' else Inr (sr_id r # ids))"

definition validateState :: "string \<Rightarrow> shadow_state \<Rightarrow> unit result" where
  "validateState digest s =
     rbind (require (ss_schema s = STATE_SCHEMA) (PlainError ''Production shadow risk state schema is unsupported'')) (\<lambda>_.
     rbind (require (ss_profileDigest s = digest) (PlainError ''Production shadow risk profile digest mismatch'')) (\<lambda>_.
     rbind (require (is_safe_int (ss_revision s) \<and> \<not> ss_revision s < 1) (PlainError ''Production shadow risk state revision is invalid'')) (\<lambda>_.
     rbind (require (valid_time (ss_windowStartedAt s)) (PlainError ''Production shadow risk window is invalid'')) (\<lambda>_.
     rbind (require (\<not> length (ss_requestStarts s) > 6) (PlainError ''Production shadow request starts are invalid'')) (\<lambda>_.
     rbind (require (list_all valid_time (ss_requestStarts s)) (PlainError ''Production shadow request start is invalid'')) (\<lambda>_.
     rbind (require (\<not> length (ss_reservations s) > maximumDailyReservationRecords) (PlainError ''Production shadow risk reservations are invalid'')) (\<lambda>_.
     rbind (rfold validate_next (ss_reservations s) []) (\<lambda>_. Inr ()))))))))"

subsection \<open>The file and its lock\<close>

type_synonym 'a shadow_op = "shadow_fs \<Rightarrow> 'a result \<times> shadow_fs"

definition readState :: "shadow_guard \<Rightarrow> shadow_fs \<Rightarrow> shadow_state result" where
  "readState g fs =
     (case fs_file fs of
        None \<Rightarrow> plain ''Production shadow risk state is missing''
      | Some f \<Rightarrow>
          if sh_mode f \<noteq> 384 then plain ''Production shadow risk state must have mode 0600''
          else rbind (validateState (sg_profileDigest g) (sh_state f)) (\<lambda>_. Inr (sh_state f)))"

definition writeState :: "shadow_guard \<Rightarrow> shadow_state \<Rightarrow> unit shadow_op" where
  "writeState g s fs =
     (case validateState (sg_profileDigest g) s of
        Inl e \<Rightarrow> (Inl e, fs)
      | Inr _ \<Rightarrow> (Inr (), fs\<lparr>fs_file := Some \<lparr>sh_mode = 384, sh_state = s\<rparr>\<rparr>))"

text \<open>An operation under the lock, which is released in any case.\<close>

definition with_lock :: "'a shadow_op \<Rightarrow> 'a shadow_op" where
  "with_lock m fs =
     (if fs_locked fs then (plain ''Production shadow risk state lock is unavailable'', fs) else m fs)"

definition is_limit_error :: "js_error \<Rightarrow> bool" where
  "is_limit_error e \<longleftrightarrow> (case e of RelayError code status _ \<Rightarrow> code = ''request_risk_limit_exceeded'' | _ \<Rightarrow> False)"

abbreviation unavailable :: js_error where
  "unavailable \<equiv> RelayError ''request_risk_guard_unavailable'' 503 []"

definition failClosed :: "'a shadow_op \<Rightarrow> 'a shadow_op" where
  "failClosed m fs =
     (case m fs of
        (Inr x, fs') \<Rightarrow> (Inr x, fs')
      | (Inl e, fs') \<Rightarrow> (Inl (if is_limit_error e then e else unavailable), fs'))"

definition shadow_limit_error :: "string \<Rightarrow> int \<Rightarrow> js_error" where
  "shadow_limit_error reason retryAfter =
     RelayError ''request_risk_limit_exceeded'' 429 [(''riskReason'', JStr reason), (''retryAfterSeconds'', jint (max 1 retryAfter))]"

definition shadow_now :: "int \<Rightarrow> int result" where
  "shadow_now n = (if \<not> is_safe_int n \<or> n < 0 then plain ''Risk guard time is invalid'' else Inr n)"

abbreviation DAY_MS :: int where "DAY_MS \<equiv> 86400000"

definition utcWindowStart :: "int \<Rightarrow> int" where
  "utcWindowStart now = (now div DAY_MS) * DAY_MS"

definition rollWindow :: "shadow_guard \<Rightarrow> int \<Rightarrow> shadow_state \<Rightarrow> shadow_state result" where
  "rollWindow g now s =
     (let current = utcWindowStart now
      in if ss_windowStartedAt s = current then Inr s
         else if ss_windowStartedAt s > current then plain ''Production shadow risk state clock moved backwards''
         else Inr (s\<lparr>ss_windowStartedAt := current,
                ss_requestStarts := filter (\<lambda>t. t > now - sp_requestStartsWindowSeconds (sg_profile g) * 1000) (ss_requestStarts s),
                ss_reservations := filter (\<lambda>r. sr_status r = Active) (ss_reservations s)\<rparr>))"

subsection \<open>Operations\<close>

definition shadow_initialize :: "shadow_guard \<Rightarrow> int \<Rightarrow> unit shadow_op" where
  "shadow_initialize g now0 fs =
     (case shadow_now now0 of
        Inl e \<Rightarrow> (Inl e, fs)
      | Inr now \<Rightarrow>
          with_lock (\<lambda>fs.
            if fs_file fs \<noteq> None then (plain ''Production shadow risk state already exists'', fs)
            else case iso_time now of
                   Inl e \<Rightarrow> (Inl e, fs)
                 | Inr _ \<Rightarrow> writeState g \<lparr>ss_schema = STATE_SCHEMA, ss_profileDigest = sg_profileDigest g, ss_revision = 1,
                     ss_windowStartedAt = utcWindowStart now, ss_requestStarts = [], ss_reservations = [], ss_updatedAt = now\<rparr> fs) fs)"

definition shadow_self_check :: "shadow_guard \<Rightarrow> unit shadow_op" where
  "shadow_self_check g = failClosed (with_lock (\<lambda>fs. (rbind (readState g fs) (\<lambda>_. Inr ()), fs)))"

definition shadow_units :: "shadow_reservation \<Rightarrow> int" where
  "shadow_units r = (if sr_status r = Settled then (case sr_settled r of Some n \<Rightarrow> n | None \<Rightarrow> 0) else sr_reserved r)"

definition shadow_exposure :: "shadow_reservation list \<Rightarrow> int" where
  "shadow_exposure rs = sum_list (map shadow_units rs)"

definition active_count :: "shadow_reservation list \<Rightarrow> int" where
  "active_count rs = int (length (filter (\<lambda>r. sr_status r = Active) rs))"

text \<open>The three limits, on the starts of the last minute and the reservations that count.\<close>

definition check_limits :: "shadow_profile \<Rightarrow> int \<Rightarrow> int \<Rightarrow> int \<Rightarrow> int list \<Rightarrow> shadow_reservation list \<Rightarrow> unit result" where
  "check_limits p now units window starts rs =
     (if int (length starts) \<ge> sp_requestStartsLimit p
      then Inl (shadow_limit_error ''request_starts'' (retryAfterSeconds now (hd starts + sp_requestStartsWindowSeconds p * 1000)))
      else if active_count rs \<ge> sp_maxInFlight p
      then Inl (shadow_limit_error ''in_flight'' (sp_requestStartsWindowSeconds p))
      else if shadow_exposure rs + units > sp_maxReservedCreditUnits p
      then Inl (shadow_limit_error ''risk_budget'' (retryAfterSeconds now (window + sp_riskBudgetWindowSeconds p * 1000)))
      else Inr ())"

definition new_shadow_reservation :: "shadow_profile \<Rightarrow> string \<Rightarrow> int \<Rightarrow> int \<Rightarrow> shadow_reservation" where
  "new_shadow_reservation p rid units now =
     \<lparr>sr_id = rid, sr_status = Active, sr_reserved = units, sr_settled = None, sr_acquiredAt = now,
      sr_expiresAt = now + sp_leaseTtlSeconds p * 1000, sr_terminalAt = None, sr_evidence = None\<rparr>"

text \<open>A state with its starts and reservations replaced, stamped and written.\<close>

definition write_changed :: "shadow_guard \<Rightarrow> int \<Rightarrow> shadow_state \<Rightarrow> unit shadow_op" where
  "write_changed g now s fs =
     (let s = s\<lparr>ss_revision := ss_revision s + 1\<rparr>
      in case iso_time now of
           Inl e \<Rightarrow> (Inl e, fs)
         | Inr _ \<Rightarrow> writeState g (s\<lparr>ss_updatedAt := now\<rparr>) fs)"

text \<open>\<open>rid\<close> is the identifier drawn for the reservation.\<close>

definition shadow_acquire :: "shadow_guard \<Rightarrow> string \<Rightarrow> int \<Rightarrow> int \<Rightarrow> shadow_reservation shadow_op" where
  "shadow_acquire g rid units now0 fs =
     (case rbind (shadow_credit_units units ''reserved Credit units'' True) (\<lambda>_. shadow_now now0) of
        Inl e \<Rightarrow> (Inl e, fs)
      | Inr now \<Rightarrow>
          failClosed (with_lock (\<lambda>fs.
            case rbind (readState g fs) (rollWindow g now) of
              Inl e \<Rightarrow> (Inl e, fs)
            | Inr s \<Rightarrow>
                (let p = sg_profile g;
                     starts = filter (\<lambda>t. t > now - sp_requestStartsWindowSeconds p * 1000) (ss_requestStarts s)
                 in case check_limits p now units (ss_windowStartedAt s) starts (ss_reservations s) of
                      Inl e \<Rightarrow> (Inl e, fs)
                    | Inr _ \<Rightarrow>
                        (let next_one = new_shadow_reservation p rid units now
                         in case write_changed g now (s\<lparr>ss_requestStarts := starts @ [now],
                                   ss_reservations := ss_reservations s @ [next_one]\<rparr>) fs of
                              (Inl e, fs) \<Rightarrow> (Inl e, fs)
                            | (Inr _, fs) \<Rightarrow> (Inr next_one, fs))))) fs)"

definition update_first :: "('a \<Rightarrow> bool) \<Rightarrow> ('a \<Rightarrow> 'a) \<Rightarrow> 'a list \<Rightarrow> 'a list" where
  "update_first P f xs =
     (case List.extract P xs of None \<Rightarrow> xs | Some (us, x, vs) \<Rightarrow> us @ f x # vs)"

definition finish_with :: "reservation_status \<Rightarrow> int option \<Rightarrow> int \<Rightarrow> shadow_reservation \<Rightarrow> shadow_reservation" where
  "finish_with status settled now r = r\<lparr>sr_status := status, sr_settled := settled, sr_terminalAt := Some now\<rparr>"

definition shadow_finish :: "shadow_guard \<Rightarrow> string \<Rightarrow> reservation_status \<Rightarrow> int option \<Rightarrow> int \<Rightarrow> unit shadow_op" where
  "shadow_finish g rid status settled now =
     failClosed (with_lock (\<lambda>fs.
       case rbind (readState g fs) (rollWindow g now) of
         Inl e \<Rightarrow> (Inl e, fs)
       | Inr s \<Rightarrow>
           (case List.find (\<lambda>r. sr_id r = rid) (ss_reservations s) of
              None \<Rightarrow> (plain ''Risk reservation was not found'', fs)
            | Some r \<Rightarrow>
                if sr_status r \<noteq> Active then (Inr (), fs)
                else write_changed g now (s\<lparr>ss_reservations :=
                       update_first (\<lambda>r. sr_id r = rid) (finish_with status settled now) (ss_reservations s)\<rparr>) fs)))"

definition recover_with :: "string \<Rightarrow> int \<Rightarrow> shadow_reservation \<Rightarrow> shadow_reservation" where
  "recover_with evidence now r = r\<lparr>sr_status := Conservative, sr_terminalAt := Some now, sr_evidence := Some evidence\<rparr>"

definition shadow_recover :: "shadow_guard \<Rightarrow> string \<Rightarrow> string \<Rightarrow> int \<Rightarrow> unit shadow_op" where
  "shadow_recover g rid evidence now0 fs =
     (case rbind (require (valid_reservation_id rid) (PlainError ''Risk reservation id is invalid'')) (\<lambda>_.
           rbind (require (valid_digest evidence) (PlainError ''Terminal evidence digest is invalid'')) (\<lambda>_. shadow_now now0)) of
        Inl e \<Rightarrow> (Inl e, fs)
      | Inr now \<Rightarrow>
          failClosed (with_lock (\<lambda>fs.
            case rbind (readState g fs) (rollWindow g now) of
              Inl e \<Rightarrow> (Inl e, fs)
            | Inr s \<Rightarrow>
                (case List.find (\<lambda>r. sr_id r = rid) (ss_reservations s) of
                   None \<Rightarrow> (plain ''Active risk reservation was not found'', fs)
                 | Some r \<Rightarrow>
                     if sr_status r \<noteq> Active then (plain ''Active risk reservation was not found'', fs)
                     else if now < sr_expiresAt r then (plain ''Risk reservation lease has not expired'', fs)
                     else write_changed g now (s\<lparr>ss_reservations := update_first (\<lambda>r. sr_id r = rid)
                            (recover_with evidence now) (ss_reservations s)\<rparr>) fs))) fs)"

record shadow_inspection =
  si_profileDigest :: string
  si_revision :: int
  si_windowStartedAt :: int
  si_requestStarts :: int
  si_inFlight :: int
  si_reservedCreditUnits :: int

definition shadow_inspect :: "shadow_guard \<Rightarrow> shadow_inspection shadow_op" where
  "shadow_inspect g = failClosed (with_lock (\<lambda>fs.
     (rbind (readState g fs) (\<lambda>s. Inr
        \<lparr>si_profileDigest = ss_profileDigest s, si_revision = ss_revision s, si_windowStartedAt = ss_windowStartedAt s,
         si_requestStarts = int (length (ss_requestStarts s)), si_inFlight = active_count (ss_reservations s),
         si_reservedCreditUnits = shadow_exposure (ss_reservations s)\<rparr>), fs)))"

text \<open>The lease: it ends its reservation once; whether it is closed is its own state.\<close>

definition shadow_settle :: "shadow_guard \<Rightarrow> string \<Rightarrow> int \<Rightarrow> int \<Rightarrow> (bool \<times> shadow_fs, unit) action" where
  "shadow_settle g rid units now0 = (\<lambda>(closed, fs).
     if closed then (Inr (), (closed, fs))
     else case rbind (shadow_credit_units units ''settled Credit units'' True) (\<lambda>_. shadow_now now0) of
            Inl e \<Rightarrow> (Inl e, (closed, fs))
          | Inr now \<Rightarrow> (case shadow_finish g rid Settled (Some units) now fs of
                          (Inl e, fs) \<Rightarrow> (Inl e, (closed, fs))
                        | (Inr _, fs) \<Rightarrow> (Inr (), (True, fs))))"

definition shadow_close_unknown :: "shadow_guard \<Rightarrow> string \<Rightarrow> int \<Rightarrow> (bool \<times> shadow_fs, unit) action" where
  "shadow_close_unknown g rid now0 = (\<lambda>(closed, fs).
     if closed then (Inr (), (closed, fs))
     else case shadow_now now0 of
            Inl e \<Rightarrow> (Inl e, (closed, fs))
          | Inr now \<Rightarrow> (case shadow_finish g rid Conservative None now fs of
                          (Inl e, fs) \<Rightarrow> (Inl e, (closed, fs))
                        | (Inr _, fs) \<Rightarrow> (Inr (), (True, fs))))"


text \<open>The guard that is used when no limits are enforced: its lease does nothing.\<close>

definition disabled_acquire :: "int \<Rightarrow> (string \<times> int) result" where
  "disabled_acquire units = rbind (shadow_credit_units units ''reserved Credit units'' True) (\<lambda>_. Inr (''rsv_disabled'', units))"

section \<open>What a valid state is\<close>

lemma validate_next_iff [effects]:
  "validate_next r ids = Inr ids' \<longleftrightarrow> validateReservation r = Inr () \<and> sr_id r \<notin> set ids \<and> ids' = sr_id r # ids"
  by (auto simp: effects validate_next_def)

lemma validate_reservations_iff [effects]:
  "rfold validate_next rs ids = Inr ids' \<longleftrightarrow>
     (\<forall>r \<in> set rs. validateReservation r = Inr ()) \<and> distinct (map sr_id rs) \<and> set (map sr_id rs) \<inter> set ids = {}
     \<and> ids' = rev (map sr_id rs) @ ids"
proof (induction rs arbitrary: ids)
  case Nil
  show ?case by auto
next
  case (Cons r rs)
  show ?case
    by (auto simp: rbind_Inr_iff validate_next_iff Cons.IH)
qed

lemma validateState_iff:
  "validateState digest s = Inr () \<longleftrightarrow>
     ss_schema s = STATE_SCHEMA \<and> ss_profileDigest s = digest \<and> is_safe_int (ss_revision s) \<and> 1 \<le> ss_revision s
     \<and> valid_time (ss_windowStartedAt s) \<and> length (ss_requestStarts s) \<le> 6 \<and> list_all valid_time (ss_requestStarts s)
     \<and> length (ss_reservations s) \<le> maximumDailyReservationRecords
     \<and> (\<forall>r \<in> set (ss_reservations s). validateReservation r = Inr ()) \<and> distinct (map sr_id (ss_reservations s))"
  by (auto simp: validateState_def effects)

lemma validateReservation_iff:
  "validateReservation r = Inr () \<longleftrightarrow>
     valid_reservation_id (sr_id r) \<and> is_safe_int (sr_reserved r) \<and> 0 \<le> sr_reserved r
     \<and> (case sr_settled r of None \<Rightarrow> sr_status r \<noteq> Settled | Some n \<Rightarrow> sr_status r = Settled \<and> is_safe_int n \<and> 0 \<le> n)
     \<and> valid_time (sr_acquiredAt r) \<and> valid_time (sr_expiresAt r) \<and> sr_acquiredAt r < sr_expiresAt r
     \<and> (case sr_terminalAt r of
           None \<Rightarrow> sr_status r = Active \<and> sr_evidence r = None
         | Some t \<Rightarrow> sr_status r \<noteq> Active \<and> is_safe_int t \<and> sr_acquiredAt r \<le> t)
     \<and> (case sr_evidence r of None \<Rightarrow> True | Some d \<Rightarrow> valid_digest d)"
  by (auto simp: validateReservation_def shadow_credit_units_def effects split: option.splits)


section \<open>What the guard promises\<close>

text \<open>
  The ledger: every reservation that was ever made, in order, with no file, no window and no bound on its
  size. A start counts for a minute; a reservation counts while it is active, and when it has ended, on the
  UTC day it ended on.
\<close>

type_synonym ledger = "shadow_reservation list"

definition counts_on :: "int \<Rightarrow> shadow_reservation \<Rightarrow> bool" where
  "counts_on day r \<longleftrightarrow> sr_status r = Active \<or> (case sr_terminalAt r of None \<Rightarrow> False | Some t \<Rightarrow> day \<le> t)"

definition recent_starts :: "int \<Rightarrow> ledger \<Rightarrow> int list" where
  "recent_starts now L = filter (\<lambda>t. t > now - 60000) (map sr_acquiredAt L)"

definition ledger_acquire :: "shadow_profile \<Rightarrow> string \<Rightarrow> int \<Rightarrow> int \<Rightarrow> ledger \<Rightarrow> shadow_reservation option result \<times> ledger" where
  "ledger_acquire p rid units now L =
     (let r = new_shadow_reservation p rid units now; day = utcWindowStart now
      in case rbind (shadow_credit_units units ''reserved Credit units'' True) (\<lambda>_.
                check_limits p now units day (recent_starts now L) (filter (counts_on day) L)) of
           Inl e \<Rightarrow> (Inl e, L)
         | Inr _ \<Rightarrow> (Inr (Some r), L @ [r]))"

text \<open>A reservation that counts today is found by its identifier, and changed by \<open>f\<close> if it is \<open>ready\<close>.\<close>

definition ledger_find :: "int \<Rightarrow> string \<Rightarrow> ledger \<Rightarrow> shadow_reservation option" where
  "ledger_find day rid L = List.find (\<lambda>r. counts_on day r \<and> sr_id r = rid) L"

definition ledger_change :: "string \<Rightarrow> (shadow_reservation \<Rightarrow> shadow_reservation) \<Rightarrow> ledger \<Rightarrow> ledger" where
  "ledger_change rid f L = map (\<lambda>r. if sr_id r = rid then f r else r) L"

definition ledger_finish ::
  "string \<Rightarrow> reservation_status \<Rightarrow> int option \<Rightarrow> int \<Rightarrow> ledger \<Rightarrow> shadow_reservation option result \<times> ledger" where
  "ledger_finish rid status settled now L =
     (case ledger_find (utcWindowStart now) rid L of
        None \<Rightarrow> (Inl unavailable, L)
      | Some r \<Rightarrow> (Inr None, if sr_status r = Active then ledger_change rid (finish_with status settled now) L else L))"

definition ledger_recover :: "string \<Rightarrow> string \<Rightarrow> int \<Rightarrow> ledger \<Rightarrow> shadow_reservation option result \<times> ledger" where
  "ledger_recover rid evidence now L =
     (if \<not> valid_reservation_id rid then (plain ''Risk reservation id is invalid'', L)
      else if \<not> valid_digest evidence then (plain ''Terminal evidence digest is invalid'', L)
      else case ledger_find (utcWindowStart now) rid L of
             None \<Rightarrow> (Inl unavailable, L)
           | Some r \<Rightarrow> if sr_status r = Active \<and> sr_expiresAt r \<le> now
                       then (Inr None, ledger_change rid (recover_with evidence now) L) else (Inl unavailable, L))"

text \<open>
  The calls of clients, and what the guard and the ledger do on them. The code ends a reservation through the lease
  that its acquisition returned; here the call names the reservation.
\<close>

datatype shadow_call =
    Acquire_call string int
  | Settle_call string int
  | Close_call string
  | Recover_call string string
  | Check_call

definition answer :: "unit result \<Rightarrow> 'a option result" where
  "answer r = rbind r (\<lambda>_. Inr None)"

text \<open>
  A lease remembers that it is closed. The first component of the state is the reservations whose lease is, the
  second the file of the guard, or the ledger.
\<close>

definition lease_answer :: "string \<Rightarrow> string list \<Rightarrow> unit result \<times> bool \<times> shadow_fs
    \<Rightarrow> shadow_reservation option result \<times> string list \<times> shadow_fs" where
  "lease_answer rid ended = (\<lambda>(r, now_ended, fs). (answer r, if now_ended then List.insert rid ended else ended, fs))"

fun shadow_exec :: "shadow_guard \<Rightarrow> int \<times> shadow_call \<Rightarrow> string list \<times> shadow_fs
    \<Rightarrow> shadow_reservation option result \<times> string list \<times> shadow_fs" where
  "shadow_exec g (now, Acquire_call rid units) (ended, fs) =
     (case shadow_acquire g rid units now fs of (r, fs) \<Rightarrow> (rbind r (\<lambda>x. Inr (Some x)), ended, fs))"
| "shadow_exec g (now, Settle_call rid units) (ended, fs) =
     lease_answer rid ended (shadow_settle g rid units now (rid \<in> set ended, fs))"
| "shadow_exec g (now, Close_call rid) (ended, fs) =
     lease_answer rid ended (shadow_close_unknown g rid now (rid \<in> set ended, fs))"
| "shadow_exec g (now, Recover_call rid evidence) (ended, fs) =
     (case shadow_recover g rid evidence now fs of (r, fs) \<Rightarrow> (answer r, ended, fs))"
| "shadow_exec g (now, Check_call) (ended, fs) = (case shadow_self_check g fs of (r, fs) \<Rightarrow> (answer r, ended, fs))"

definition ledger_close :: "string \<Rightarrow> reservation_status \<Rightarrow> int option \<Rightarrow> int \<Rightarrow> string list \<times> ledger
    \<Rightarrow> shadow_reservation option result \<times> string list \<times> ledger" where
  "ledger_close rid status settled now = (\<lambda>(ended, L).
     case ledger_finish rid status settled now L of
       (Inl e, L) \<Rightarrow> (Inl e, ended, L)
     | (Inr x, L) \<Rightarrow> (Inr x, List.insert rid ended, L))"

fun ledger_exec :: "shadow_profile \<Rightarrow> int \<times> shadow_call \<Rightarrow> string list \<times> ledger
    \<Rightarrow> shadow_reservation option result \<times> string list \<times> ledger" where
  "ledger_exec p (now, Acquire_call rid units) (ended, L) = (case ledger_acquire p rid units now L of (r, L) \<Rightarrow> (r, ended, L))"
| "ledger_exec p (now, Settle_call rid units) (ended, L) =
     (if rid \<in> set ended then (Inr None, ended, L)
      else case shadow_credit_units units ''settled Credit units'' True of
        Inl e \<Rightarrow> (Inl e, ended, L) | Inr _ \<Rightarrow> ledger_close rid Settled (Some units) now (ended, L))"
| "ledger_exec p (now, Close_call rid) (ended, L) =
     (if rid \<in> set ended then (Inr None, ended, L) else ledger_close rid Conservative None now (ended, L))"
| "ledger_exec p (now, Recover_call rid evidence) (ended, L) =
     (case ledger_recover rid evidence now L of (r, L) \<Rightarrow> (r, ended, L))"
| "ledger_exec p (now, Check_call) (ended, L) = (Inr None, ended, L)"

section \<open>The ledger keeps the limits\<close>

text \<open>
  \<open>open_before d r\<close>: \<open>r\<close> was made before \<open>d\<close> and had not ended by then. \<open>c1\<close> is the time of the last start,
  \<open>c0\<close> that of the last change.
\<close>

definition open_before :: "int \<Rightarrow> shadow_reservation \<Rightarrow> bool" where
  "open_before d r \<longleftrightarrow> sr_acquiredAt r < d \<and> counts_on d r"

definition starts_within :: "int \<Rightarrow> int \<Rightarrow> ledger \<Rightarrow> nat" where
  "starts_within a b L = length (filter (\<lambda>t. a \<le> t \<and> t < b) (map sr_acquiredAt L))"

definition ledger_ok :: "int \<Rightarrow> int \<Rightarrow> ledger \<Rightarrow> bool" where
  "ledger_ok c0 c1 L \<longleftrightarrow>
     distinct (map sr_id L)
     \<and> (\<forall>r \<in> set L. validateReservation r = Inr () \<and> sr_acquiredAt r \<le> c1 \<and> (\<forall>t. sr_terminalAt r = Some t \<longrightarrow> t \<le> c0))
     \<and> (\<forall>t. starts_within (t - 60000) t L \<le> 6)
     \<and> (\<forall>d. length (filter (open_before d) L) \<le> 2)"

lemma utcWindowStart_bounds: "utcWindowStart t \<le> t" "t < utcWindowStart t + DAY_MS"
  unfolding utcWindowStart_def
  using pos_mod_sign [of DAY_MS t] pos_mod_bound [of DAY_MS t] div_mult_mod_eq [of t DAY_MS] by linarith+

lemma utcWindowStart_mono: "t \<le> u \<Longrightarrow> utcWindowStart t \<le> utcWindowStart u"
  unfolding utcWindowStart_def by (intro mult_right_mono zdiv_mono1) simp_all

lemma utcWindowStart_nonneg: "0 \<le> t \<Longrightarrow> 0 \<le> utcWindowStart t"
  using utcWindowStart_mono [of 0 t] by (simp add: utcWindowStart_def)

lemma next_utcWindow:
  assumes "utcWindowStart t < utcWindowStart u"
  shows "utcWindowStart t + DAY_MS \<le> utcWindowStart u"
proof -
  from assms have "t div DAY_MS < u div DAY_MS" by (simp add: utcWindowStart_def)
  then have "(t div DAY_MS + 1) * DAY_MS \<le> u div DAY_MS * DAY_MS" by (intro mult_right_mono) auto
  then show ?thesis unfolding utcWindowStart_def by (simp add: algebra_simps)
qed

lemma active_iff: "validateReservation r = Inr () \<Longrightarrow> sr_status r = Active \<longleftrightarrow> sr_terminalAt r = None"
  by (auto simp: validateReservation_iff split: option.splits)

lemma starts_within_add: "a \<le> b \<Longrightarrow> b \<le> c \<Longrightarrow> starts_within a c L = starts_within a b L + starts_within b c L"
  by (induction L) (auto simp: starts_within_def)

lemma starts_within_append [simp]:
  "starts_within a b (L @ [r]) = starts_within a b L + (if a \<le> sr_acquiredAt r \<and> sr_acquiredAt r < b then 1 else 0)"
  by (simp add: starts_within_def)

lemma starts_in_minutes:
  assumes "\<And>t. starts_within (t - 60000) t L \<le> 6"
  shows "starts_within a (a + int n * 60000) L \<le> 6 * n"
proof (induction n)
  case 0
  show ?case by (simp add: starts_within_def)
next
  case (Suc n)
  have "starts_within a (a + int (Suc n) * 60000) L =
      starts_within a (a + int n * 60000) L + starts_within (a + int n * 60000) (a + int (Suc n) * 60000) L"
    by (rule starts_within_add) auto
  with Suc assms [of "a + int (Suc n) * 60000"] show ?case by (simp add: algebra_simps)
qed

text \<open>A day sees at most 8640 starts, and two reservations that it found open.\<close>

lemma day_reservations_bounded:
  assumes "ledger_ok c0 c1 L" "c1 \<le> c0"
  shows "length (filter (counts_on (utcWindowStart c0)) L) \<le> 8642"
proof -
  let ?d = "utcWindowStart c0"
  have late: "sr_acquiredAt r < ?d + DAY_MS" if "r \<in> set L" for r
    using assms that utcWindowStart_bounds(2) [of c0] by (fastforce simp: ledger_ok_def)
  have "length (filter (counts_on ?d) L) =
      length (filter (open_before ?d) L) + length (filter (\<lambda>r. counts_on ?d r \<and> ?d \<le> sr_acquiredAt r) L)"
    by (induction L) (auto simp: open_before_def)
  also have "length (filter (\<lambda>r. counts_on ?d r \<and> ?d \<le> sr_acquiredAt r) L) \<le> starts_within ?d (?d + DAY_MS) L"
    using late by (induction L) (auto simp: starts_within_def)
  also have "starts_within ?d (?d + DAY_MS) L \<le> 8640"
    using starts_in_minutes [of L ?d 1440] assms by (simp add: ledger_ok_def)
  also have "length (filter (open_before ?d) L) \<le> 2" using assms by (simp add: ledger_ok_def)
  finally show ?thesis by simp
qed


subsection \<open>A start and an end keep the limits\<close>

abbreviation fixed_profile :: "int \<Rightarrow> shadow_profile" where
  "fixed_profile units \<equiv> \<lparr>sp_canaryMaxWeightPercent = 5, sp_requestStartsLimit = 6, sp_requestStartsWindowSeconds = 60,
     sp_maxInFlight = 2, sp_riskBudgetWindowSeconds = 86400, sp_leaseTtlSeconds = 1800, sp_maxReservedCreditUnits = units\<rparr>"

abbreviation last_date :: int where "last_date \<equiv> 8640000000000000"

lemma length_filter_mono: "(\<And>x. x \<in> set xs \<Longrightarrow> P x \<Longrightarrow> Q x) \<Longrightarrow> length (filter P xs) \<le> length (filter Q xs)"
  by (induction xs) auto

lemma check_limits_Inr_iff:
  "check_limits (fixed_profile max_units) now units window starts rs = Inr () \<longleftrightarrow>
     length starts < 6 \<and> active_count rs < 2 \<and> shadow_exposure rs + units \<le> max_units"
  by (auto simp: check_limits_def)

lemma active_count_counted [simp]: "active_count (filter (counts_on d) L) = active_count L"
  by (simp add: active_count_def counts_on_def conj_commute cong: conj_cong)

lemma new_shadow_reservation_valid:
  assumes "valid_reservation_id rid" "is_safe_int units" "0 \<le> units" "0 \<le> now" "now \<le> last_date"
  shows "validateReservation (new_shadow_reservation (fixed_profile m) rid units now) = Inr ()"
  using assms by (simp add: validateReservation_iff new_shadow_reservation_def valid_time_def is_safe_int_def MAX_SAFE_INTEGER_def)

lemma starts_after:
  assumes "now < t" shows "starts_within (t - 60000) t L \<le> length (recent_starts now L)"
  unfolding starts_within_def recent_starts_def using assms by (intro length_filter_mono) auto

lemma open_after:
  assumes "ledger_ok c0 c1 L" "c0 < d" shows "length (filter (open_before d) L) \<le> nat (active_count L)"
  unfolding active_count_def nat_int using assms
  by (intro length_filter_mono) (fastforce simp: ledger_ok_def open_before_def counts_on_def split: option.splits)

lemma ledger_ok_start:
  assumes ok: "ledger_ok c0 c1 L" and times: "c1 \<le> c0" "c0 \<le> now" "0 \<le> now" "now \<le> last_date"
    and rid: "valid_reservation_id rid" "rid \<notin> set (map sr_id L)" and units: "is_safe_int units" "0 \<le> units"
    and few: "length (recent_starts now L) < 6" "active_count L < 2"
  shows "ledger_ok now now (L @ [new_shadow_reservation (fixed_profile m) rid units now])"
proof -
  let ?r = "new_shadow_reservation (fixed_profile m) rid units now"
  have fields: "sr_id ?r = rid" "sr_acquiredAt ?r = now" "sr_terminalAt ?r = None" "sr_status ?r = Active"
    by (simp_all add: new_shadow_reservation_def)
  have minute: "starts_within (t - 60000) t (L @ [?r]) \<le> 6" for t
  proof (cases "now < t")
    case True
    with starts_after [of now t L] few fields show ?thesis by simp
  next
    case False
    with ok fields show ?thesis by (simp add: ledger_ok_def)
  qed
  have flight: "length (filter (open_before d) (L @ [?r])) \<le> 2" for d
  proof (cases "now < d")
    case True
    with open_after [of c0 c1 L d] ok times have "length (filter (open_before d) L) \<le> nat (active_count L)" by simp
    also have "\<dots> \<le> 1" using few(2) by simp
    finally show ?thesis by simp
  next
    case False
    with ok fields have "length (filter (open_before d) L) \<le> 2" "\<not> open_before d ?r" by (simp_all add: ledger_ok_def open_before_def)
    then show ?thesis by simp
  qed
  have "validateReservation ?r = Inr ()" by (rule new_shadow_reservation_valid) (use assms in auto)
  with minute flight ok times rid fields show ?thesis unfolding ledger_ok_def by fastforce
qed

lemma ledger_change_one:
  assumes "distinct (map sr_id L)" "r \<in> set L"
  shows "ledger_change (sr_id r) f L = map (\<lambda>x. if x = r then f r else x) L"
  unfolding ledger_change_def using assms by (auto simp: distinct_map inj_on_def)

lemma ledger_ok_end:
  assumes ok: "ledger_ok c0 c1 L" and times: "c1 \<le> c0" "c0 \<le> now" and r: "r \<in> set L" "sr_status r = Active"
    and f: "sr_id (f r) = sr_id r" "sr_acquiredAt (f r) = sr_acquiredAt r" "sr_terminalAt (f r) = Some now"
      "validateReservation (f r) = Inr ()"
  shows "ledger_ok now c1 (ledger_change (sr_id r) f L)"
proof -
  let ?g = "\<lambda>x. if x = r then f r else x"
  have change: "ledger_change (sr_id r) f L = map ?g L"
    using ok r by (intro ledger_change_one) (auto simp: ledger_ok_def)
  have kept: "map sr_id (map ?g L) = map sr_id L" "map sr_acquiredAt (map ?g L) = map sr_acquiredAt L"
    using f by auto
  have "open_before d r" if "open_before d (f r)" for d
    using that r f by (simp add: open_before_def counts_on_def)
  then have "length (filter (open_before d) (map ?g L)) \<le> length (filter (open_before d) L)" for d
    unfolding filter_map length_map by (intro length_filter_mono) (auto split: if_splits)
  then have flight: "length (filter (open_before d) (map ?g L)) \<le> 2" for d
    using ok by (meson ledger_ok_def order_trans)
  have all: "\<forall>x \<in> set (map ?g L). validateReservation x = Inr () \<and> sr_acquiredAt x \<le> c1
      \<and> (\<forall>t. sr_terminalAt x = Some t \<longrightarrow> t \<le> now)"
    using ok times r f by (fastforce simp: ledger_ok_def)
  show ?thesis
    unfolding change ledger_ok_def kept starts_within_def
    using ok flight all by (simp add: ledger_ok_def starts_within_def)
qed


section \<open>The guard is a ledger\<close>

text \<open>The state the guard stores for a ledger that was changed last at \<open>c0\<close>, and started last by \<open>c1\<close>.\<close>

definition ledger_state :: "shadow_guard \<Rightarrow> int \<Rightarrow> int \<Rightarrow> int \<Rightarrow> ledger \<Rightarrow> shadow_state" where
  "ledger_state g c0 c1 n L =
     \<lparr>ss_schema = STATE_SCHEMA, ss_profileDigest = sg_profileDigest g, ss_revision = n,
      ss_windowStartedAt = utcWindowStart c0, ss_requestStarts = recent_starts c1 L,
      ss_reservations = filter (counts_on (utcWindowStart c0)) L, ss_updatedAt = c0\<rparr>"

definition stored :: "shadow_state \<Rightarrow> shadow_fs" where
  "stored s = \<lparr>fs_file = Some \<lparr>sh_mode = 384, sh_state = s\<rparr>, fs_locked = False\<rparr>"

lemma ledger_state_valid:
  assumes "ledger_ok c0 c1 L" "0 \<le> c1" "c1 \<le> c0" "c0 \<le> last_date" "1 \<le> n" "n \<le> MAX_SAFE_INTEGER"
  shows "validateState (sg_profileDigest g) (ledger_state g c0 c1 n L) = Inr ()"
proof -
  have "recent_starts c1 L = filter (\<lambda>t. c1 + 1 - 60000 \<le> t \<and> t < c1 + 1) (map sr_acquiredAt L)"
    unfolding recent_starts_def using assms(1) by (intro filter_cong) (auto simp: ledger_ok_def)
  moreover have "starts_within (c1 + 1 - 60000) (c1 + 1) L \<le> 6" using assms(1) unfolding ledger_ok_def by blast
  ultimately have six: "length (recent_starts c1 L) \<le> 6" by (simp add: starts_within_def)
  have reservations: "\<forall>r \<in> set L. validateReservation r = Inr ()" "distinct (map sr_id L)"
    using assms(1) by (simp_all add: ledger_ok_def)
  then have times: "list_all valid_time (recent_starts c1 L)"
    by (auto simp: recent_starts_def list_all_iff validateReservation_iff)
  have window: "valid_time (utcWindowStart c0)"
    using assms utcWindowStart_nonneg [of c0] utcWindowStart_bounds(1) [of c0]
    by (auto simp: valid_time_def is_safe_int_def MAX_SAFE_INTEGER_def)
  have "distinct (map sr_id (filter (counts_on (utcWindowStart c0)) L))"
    using reservations(2) by (simp add: distinct_map_filter)
  with six times window reservations day_reservations_bounded [OF assms(1,3)] assms(5,6) show ?thesis
    by (simp add: validateState_iff ledger_state_def maximumDailyReservationRecords_def is_safe_int_def)
qed

lemma filter_recent_starts: "c \<le> now \<Longrightarrow> filter (\<lambda>t. t > now - 60000) (recent_starts c L) = recent_starts now L"
  by (auto simp: recent_starts_def intro!: filter_cong)

text \<open>Reading the state and rolling the window gives the ledger's state at the time of the call.\<close>

lemma rollWindow_ledger:
  assumes ok: "ledger_ok c0 c1 L" and times: "c1 \<le> c0" "c0 \<le> now" and profile: "sg_profile g = fixed_profile m"
  shows "\<exists>c. c1 \<le> c \<and> c \<le> now \<and> rollWindow g now (ledger_state g c0 c1 n L) = Inr (ledger_state g now c n L \<lparr>ss_updatedAt := c0\<rparr>)"
proof (cases "utcWindowStart c0 = utcWindowStart now")
  case True
  then have "rollWindow g now (ledger_state g c0 c1 n L) = Inr (ledger_state g now c1 n L \<lparr>ss_updatedAt := c0\<rparr>)"
    by (simp add: rollWindow_def ledger_state_def Let_def)
  with times show ?thesis by fastforce
next
  case False
  with utcWindowStart_mono [OF times(2)] have "utcWindowStart c0 < utcWindowStart now" by simp
  with next_utcWindow [of c0 now] utcWindowStart_bounds(2) [of c0] have day: "c0 < utcWindowStart now" by linarith
  have "counts_on (utcWindowStart now) r \<longleftrightarrow> sr_status r = Active" if "r \<in> set L" for r
    using ok that day by (fastforce simp: ledger_ok_def counts_on_def split: option.splits)
  then have "filter (\<lambda>r. sr_status r = Active) (filter (counts_on (utcWindowStart c0)) L) = filter (counts_on (utcWindowStart now)) L"
    unfolding filter_filter by (intro filter_cong) (auto simp: counts_on_def)
  moreover have "filter (\<lambda>t. t > now - 60000) (recent_starts c1 L) = recent_starts now L"
    using times by (intro filter_recent_starts) simp
  ultimately have "rollWindow g now (ledger_state g c0 c1 n L) = Inr (ledger_state g now now n L \<lparr>ss_updatedAt := c0\<rparr>)"
    using False \<open>utcWindowStart c0 < utcWindowStart now\<close> profile by (simp add: rollWindow_def ledger_state_def Let_def)
  with times show ?thesis by (intro exI [of _ now]) simp
qed

lemma readState_stored:
  "validateState (sg_profileDigest g) s = Inr () \<Longrightarrow> readState g (stored s) = Inr s"
  by (simp add: readState_def stored_def)

lemma write_changed_stored:
  assumes "validateState (sg_profileDigest g) (s\<lparr>ss_revision := ss_revision s + 1, ss_updatedAt := now\<rparr>) = Inr ()" "now \<le> last_date"
  shows "write_changed g now s (stored s0) = (Inr (), stored (s\<lparr>ss_revision := ss_revision s + 1, ss_updatedAt := now\<rparr>))"
  using assms by (simp add: write_changed_def writeState_def iso_time_def stored_def Let_def)

lemma with_lock_stored [simp]: "with_lock m (stored s) = m (stored s)"
  by (simp add: with_lock_def stored_def)


subsection \<open>One call\<close>

fun new_ids :: "(int \<times> shadow_call) list \<Rightarrow> string list" where
  "new_ids [] = []"
| "new_ids ((_, Acquire_call rid _) # calls) = rid # new_ids calls"
| "new_ids (_ # calls) = new_ids calls"

text \<open>
  What the environment owes: a clock that does not go back and stays within the range of dates, fresh
  identifiers, and fewer calls than there are revisions.
\<close>

definition calls_ok :: "int \<Rightarrow> (int \<times> shadow_call) list \<Rightarrow> ledger \<Rightarrow> bool" where
  "calls_ok now calls L \<longleftrightarrow>
     sorted (now # map fst calls) \<and> list_all (\<lambda>c. fst c \<le> last_date) calls
     \<and> distinct (map sr_id L @ new_ids calls) \<and> list_all valid_reservation_id (new_ids calls)"

text \<open>The file holds the state of the ledger, as a change at \<open>now\<close> or before left it; \<open>n\<close> bounds its revision.\<close>

definition at_rest :: "shadow_guard \<Rightarrow> int \<Rightarrow> int \<Rightarrow> shadow_fs \<Rightarrow> ledger \<Rightarrow> bool" where
  "at_rest g n now fs L \<longleftrightarrow>
     (\<exists>c0 c1 k. fs = stored (ledger_state g c0 c1 k L) \<and> ledger_ok c0 c1 L \<and> 0 \<le> c1 \<and> c1 \<le> c0 \<and> c0 \<le> now \<and> 1 \<le> k \<and> k \<le> n)"

definition shadow_sim :: "shadow_guard \<Rightarrow> (int \<times> shadow_call) list \<Rightarrow> string list \<times> shadow_fs \<Rightarrow> string list \<times> ledger \<Rightarrow> bool" where
  "shadow_sim g calls = (\<lambda>(ended, fs) (ended', L). ended' = ended \<and>
     (\<exists>m. sg_profile g = fixed_profile m) \<and> (\<exists>now n. at_rest g n now fs L \<and> 0 \<le> now \<and> now \<le> last_date \<and> n + int (length calls) \<le> MAX_SAFE_INTEGER \<and> calls_ok now calls L))"

lemma readState_ledger:
  assumes "ledger_ok c0 c1 L" "0 \<le> c1" "c1 \<le> c0" "c0 \<le> last_date" "1 \<le> n" "n \<le> MAX_SAFE_INTEGER"
  shows "readState g (stored (ledger_state g c0 c1 n L)) = Inr (ledger_state g c0 c1 n L)"
  using assms by (intro readState_stored ledger_state_valid)

text \<open>Writing the ledger's next state.\<close>

lemma write_ledger:
  assumes "ledger_ok now c1 L" "0 \<le> c1" "c1 \<le> now" "now \<le> last_date" "1 \<le> n" "n < MAX_SAFE_INTEGER"
    and s: "s\<lparr>ss_revision := n + 1, ss_updatedAt := now\<rparr> = ledger_state g now c1 (n + 1) L" "ss_revision s = n"
  shows "write_changed g now s (stored s0) = (Inr (), stored (ledger_state g now c1 (n + 1) L))"
  using write_changed_stored [of g now s s0] ledger_state_valid [of now c1 L "n + 1" g] assms by simp

lemma find_unique:
  "distinct (map f xs) \<Longrightarrow> x \<in> set xs \<Longrightarrow> P x \<Longrightarrow> List.find (\<lambda>y. P y \<and> f y = f x) xs = Some x"
  by (induction xs) auto

lemma find_filter: "List.find Q (filter P xs) = List.find (\<lambda>x. P x \<and> Q x) xs"
  by (induction xs) auto

lemma update_first_map:
  assumes "distinct (map f xs)"
  shows "update_first (\<lambda>x. f x = k) g xs = map (\<lambda>x. if f x = k then g x else x) xs"
proof (cases "k \<in> set (map f xs)")
  case True
  then obtain us x vs where xs: "xs = us @ x # vs" "f x = k" by (auto dest!: split_list)
  with assms have k: "\<forall>y \<in> set us \<union> set vs. f y \<noteq> k" by (force simp: image_iff)
  then have "List.extract (\<lambda>x. f x = k) xs = Some (us, x, vs)" using xs by (auto simp: extract_Some_iff)
  with xs k show ?thesis by (simp add: update_first_def map_idI)
next
  case False
  then have "List.extract (\<lambda>x. f x = k) xs = None" by (auto simp: extract_None_iff)
  with False show ?thesis by (auto simp: update_first_def intro!: map_idI [symmetric])
qed

lemma update_first_ledger:
  assumes "distinct (map sr_id L)" "\<And>r. r \<in> set L \<Longrightarrow> sr_id r = rid \<Longrightarrow> counts_on d r \<and> counts_on d (f r)"
  shows "update_first (\<lambda>r. sr_id r = rid) f (filter (counts_on d) L) = filter (counts_on d) (ledger_change rid f L)"
proof -
  have "update_first (\<lambda>r. sr_id r = rid) f (filter (counts_on d) L) = map (\<lambda>r. if sr_id r = rid then f r else r) (filter (counts_on d) L)"
    using assms(1) by (intro update_first_map) (simp add: distinct_map_filter)
  also have "\<dots> = filter (counts_on d) (ledger_change rid f L)"
    unfolding ledger_change_def filter_map comp_def using assms(2)
    by (intro arg_cong [of _ _ "map _"] filter_cong) (auto split: if_splits)
  finally show ?thesis .
qed


lemma at_rest_mono: "at_rest g n t fs L \<Longrightarrow> t \<le> u \<Longrightarrow> at_rest g (n + 1) u fs L"
  unfolding at_rest_def by (elim ex_forward) auto

text \<open>Every call that reads and rolls the state finds the ledger as it is at the time of the call.\<close>

lemma at_rest_opened:
  assumes rest: "at_rest g n t fs L" and t: "t \<le> now" "now \<le> last_date" and n: "n \<le> MAX_SAFE_INTEGER"
    and profile: "sg_profile g = fixed_profile m"
  obtains c0 c1 k c s0 where
    "rbind (readState g fs) (rollWindow g now) = Inr (ledger_state g now c k L \<lparr>ss_updatedAt := c0\<rparr>)"
    "fs = stored s0" "ledger_ok c0 c1 L" "0 \<le> c1" "c1 \<le> c0" "c0 \<le> now" "c1 \<le> c" "c \<le> now" "1 \<le> k" "k \<le> n"
proof -
  from rest obtain c0 c1 k where at_file: "fs = stored (ledger_state g c0 c1 k L)"
    and c: "ledger_ok c0 c1 L" "0 \<le> c1" "c1 \<le> c0" "c0 \<le> t" "1 \<le> k" "k \<le> n" by (auto simp: at_rest_def)
  from c t n have now: "c0 \<le> now" "c0 \<le> last_date" "k \<le> MAX_SAFE_INTEGER" by linarith+
  have "readState g fs = Inr (ledger_state g c0 c1 k L)"
    unfolding at_file using c now by (intro readState_ledger)
  moreover obtain r where "c1 \<le> r" "r \<le> now"
      "rollWindow g now (ledger_state g c0 c1 k L) = Inr (ledger_state g now r k L \<lparr>ss_updatedAt := c0\<rparr>)"
    using rollWindow_ledger [OF c(1,3) now(1) profile] by blast
  ultimately show thesis using that at_file c now by simp
qed

lemma at_rest_written:
  assumes "ledger_ok now c L" "0 \<le> c" "c \<le> now" "now \<le> last_date" "1 \<le> k" "k \<le> n" "n < MAX_SAFE_INTEGER"
    and s: "s\<lparr>ss_revision := k + 1, ss_updatedAt := now\<rparr> = ledger_state g now c (k + 1) L" "ss_revision s = k"
  shows "\<exists>fs'. write_changed g now s (stored s0) = (Inr (), fs') \<and> at_rest g (n + 1) now fs' L"
proof -
  have "write_changed g now s (stored s0) = (Inr (), stored (ledger_state g now c (k + 1) L))"
    using assms by (intro write_ledger) auto
  moreover have "at_rest g (n + 1) now (stored (ledger_state g now c (k + 1) L)) L"
    unfolding at_rest_def using assms by (intro exI [of _ now] exI [of _ c] exI [of _ "k + 1"]) auto
  ultimately show ?thesis by blast
qed

lemma check_limits_error: "check_limits p now units w starts rs = Inl e \<Longrightarrow> is_limit_error e"
  by (auto simp: check_limits_def shadow_limit_error_def is_limit_error_def split: if_splits)

lemma acquire_simulates:
  assumes rest: "at_rest g n t fs L" and t: "t \<le> now" "now \<le> last_date" and n: "n < MAX_SAFE_INTEGER"
    and profile: "sg_profile g = fixed_profile m" and rid: "valid_reservation_id rid" "rid \<notin> set (map sr_id L)"
  shows "rbind (fst (shadow_acquire g rid units now fs)) (\<lambda>x. Inr (Some x)) = fst (ledger_acquire (fixed_profile m) rid units now L)
    \<and> at_rest g (n + 1) now (snd (shadow_acquire g rid units now fs)) (snd (ledger_acquire (fixed_profile m) rid units now L))"
proof (cases "is_safe_int units \<and> 0 \<le> units")
  case False
  with rest t show ?thesis
    by (auto simp: shadow_acquire_def ledger_acquire_def shadow_credit_units_def require_def at_rest_mono Let_def)
next
  case True
  from n have n': "n \<le> MAX_SAFE_INTEGER" by simp
  obtain c0 c1 k c s0 where opened: "rbind (readState g fs) (rollWindow g now) = Inr (ledger_state g now c k L \<lparr>ss_updatedAt := c0\<rparr>)"
    and fs: "fs = stored s0" and c: "ledger_ok c0 c1 L" "0 \<le> c1" "c1 \<le> c0" "c0 \<le> now" "c1 \<le> c" "c \<le> now" "1 \<le> k" "k \<le> n"
    using at_rest_opened [OF rest t n' profile] .
  let ?limits = "check_limits (fixed_profile m) now units (utcWindowStart now) (recent_starts now L) (filter (counts_on (utcWindowStart now)) L)"
  let ?r = "new_shadow_reservation (fixed_profile m) rid units now"
  have now: "shadow_now now = Inr now" using c t by (simp add: shadow_now_def is_safe_int_def MAX_SAFE_INTEGER_def)
  have starts: "filter (\<lambda>t. t > now - 60000) (recent_starts c L) = recent_starts now L" by (rule filter_recent_starts) (rule c(6))
  show ?thesis
  proof (cases ?limits)
    case (Inl e)
    with opened fs now starts True rest t check_limits_error [OF Inl] profile show ?thesis
      by (simp add: shadow_acquire_def ledger_acquire_def shadow_credit_units_def failClosed_def ledger_state_def Let_def at_rest_mono)
  next
    case (Inr u)
    then have few: "length (recent_starts now L) < 6" "active_count L < 2" by (auto simp: check_limits_Inr_iff)
    have ok: "ledger_ok now now (L @ [?r])"
      using c t True rid few by (intro ledger_ok_start [of c0 c1]) auto
    let ?s = "ledger_state g now c k L \<lparr>ss_updatedAt := c0, ss_requestStarts := recent_starts now L @ [now],
      ss_reservations := filter (counts_on (utcWindowStart now)) L @ [?r]\<rparr>"
    have "\<exists>fs'. write_changed g now ?s (stored s0) = (Inr (), fs') \<and> at_rest g (n + 1) now fs' (L @ [?r])"
      using ok c t n
      by (intro at_rest_written [where c = now and k = k])
        (auto simp: ledger_state_def recent_starts_def counts_on_def new_shadow_reservation_def)
    then obtain fs' where "write_changed g now ?s (stored s0) = (Inr (), fs')" "at_rest g (n + 1) now fs' (L @ [?r])" by blast
    with Inr opened fs now starts True profile show ?thesis
      by (simp add: shadow_acquire_def ledger_acquire_def shadow_credit_units_def failClosed_def ledger_state_def Let_def)
  qed
qed


lemma ledger_find_Some:
  "ledger_find day rid L = Some r \<Longrightarrow> r \<in> set L \<and> sr_id r = rid \<and> counts_on day r"
  unfolding ledger_find_def find_Some_iff by auto

lemma change_simulates:
  assumes fs: "fs = stored s0" and c: "ledger_ok c0 c1 L" "0 \<le> c1" "c1 \<le> c0" "c0 \<le> now" "c1 \<le> c" "c \<le> now" "1 \<le> k" "k \<le> n"
    and t: "now \<le> last_date" "n < MAX_SAFE_INTEGER" and r: "r \<in> set L" "sr_status r = Active" "sr_id r = rid"
    and f: "\<And>x. sr_id (f x) = sr_id x" "\<And>x. sr_acquiredAt (f x) = sr_acquiredAt x" "\<And>x. sr_terminalAt (f x) = Some now"
      "validateReservation (f r) = Inr ()"
  shows "\<exists>fs'. write_changed g now (ledger_state g now c k L \<lparr>ss_updatedAt := c0,
        ss_reservations := update_first (\<lambda>r. sr_id r = rid) f (filter (counts_on (utcWindowStart now)) L)\<rparr>) fs = (Inr (), fs')
      \<and> at_rest g (n + 1) now fs' (ledger_change rid f L)"
proof -
  let ?s = "ledger_state g now c k L \<lparr>ss_updatedAt := c0,
        ss_reservations := update_first (\<lambda>r. sr_id r = rid) f (filter (counts_on (utcWindowStart now)) L)\<rparr>"
  have "ledger_ok c0 c L" using c(1,5) by (fastforce simp: ledger_ok_def)
  moreover have "ledger_ok now c1 (ledger_change rid f L)"
    using ledger_ok_end [where f = f and now = now, OF c(1,3,4) r(1,2)] f r(3) by simp
  then have ok: "ledger_ok now c (ledger_change rid f L)" using c(5) by (fastforce simp: ledger_ok_def)
  have starts: "recent_starts c (ledger_change rid f L) = recent_starts c L"
    unfolding recent_starts_def ledger_change_def by (simp add: f(2) comp_def if_distrib cong: if_cong)
  have unique: "x = r" if "x \<in> set L" "sr_id x = rid" for x
    using that r c(1) inj_onD [of sr_id "set L" x r] by (simp add: ledger_ok_def distinct_map)
  have "update_first (\<lambda>r. sr_id r = rid) f (filter (counts_on (utcWindowStart now)) L) =
      filter (counts_on (utcWindowStart now)) (ledger_change rid f L)"
  proof (rule update_first_ledger)
    show "distinct (map sr_id L)" using c(1) by (simp add: ledger_ok_def)
    have "counts_on (utcWindowStart now) r" "counts_on (utcWindowStart now) (f r)"
      using r(2) f(3) [of r] utcWindowStart_bounds(1) [of now] by (simp_all add: counts_on_def)
    then show "counts_on (utcWindowStart now) x \<and> counts_on (utcWindowStart now) (f x)" if "x \<in> set L" "sr_id x = rid" for x
      using unique [OF that] by simp
  qed
  then have "?s\<lparr>ss_revision := k + 1, ss_updatedAt := now\<rparr> = ledger_state g now c (k + 1) (ledger_change rid f L)"
    by (simp add: ledger_state_def starts)
  moreover have "ss_revision ?s = k" by (simp add: ledger_state_def)
  ultimately show ?thesis
    unfolding fs using ok c t by (intro at_rest_written [of now c _ k]) auto
qed

lemma finish_with_fields [simp]:
  "sr_id (finish_with status settled now x) = sr_id x" "sr_acquiredAt (finish_with status settled now x) = sr_acquiredAt x"
  "sr_terminalAt (finish_with status settled now x) = Some now"
  by (simp_all add: finish_with_def)

lemma recover_with_fields [simp]:
  "sr_id (recover_with e now x) = sr_id x" "sr_acquiredAt (recover_with e now x) = sr_acquiredAt x"
  "sr_terminalAt (recover_with e now x) = Some now"
  by (simp_all add: recover_with_def)

lemma ended_valid:
  assumes "validateReservation r = Inr ()" "sr_status r = Active" "sr_acquiredAt r \<le> now" "0 \<le> now" "now \<le> last_date"
    and "sr_status r' \<noteq> Active" "case sr_settled r' of None \<Rightarrow> sr_status r' \<noteq> Settled | Some u \<Rightarrow> sr_status r' = Settled \<and> is_safe_int u \<and> 0 \<le> u"
    and "sr_terminalAt r' = Some now" "case sr_evidence r' of None \<Rightarrow> True | Some d \<Rightarrow> valid_digest d"
    and "sr_id r' = sr_id r" "sr_reserved r' = sr_reserved r" "sr_acquiredAt r' = sr_acquiredAt r" "sr_expiresAt r' = sr_expiresAt r"
  shows "validateReservation r' = Inr ()"
proof -
  from assms(4,5) have "is_safe_int now" by (simp add: is_safe_int_def MAX_SAFE_INTEGER_def)
  with assms show ?thesis unfolding validateReservation_iff by simp
qed

lemma finish_with_valid:
  assumes "validateReservation r = Inr ()" "sr_status r = Active" "sr_acquiredAt r \<le> now" "0 \<le> now" "now \<le> last_date"
    and "(status = Settled \<and> settled = Some u \<and> is_safe_int u \<and> 0 \<le> u) \<or> (status = Conservative \<and> settled = None)"
  shows "validateReservation (finish_with status settled now r) = Inr ()"
proof -
  have "sr_evidence r = None" using assms(1,2) by (auto simp: validateReservation_iff split: option.splits)
  with assms show ?thesis by (intro ended_valid [OF assms(1-5)]) (auto simp: finish_with_def)
qed

lemma recover_with_valid:
  assumes "validateReservation r = Inr ()" "sr_status r = Active" "sr_acquiredAt r \<le> now" "0 \<le> now" "now \<le> last_date" "valid_digest e"
  shows "validateReservation (recover_with e now r) = Inr ()"
proof -
  have "sr_settled r = None" using assms(1,2) by (auto simp: validateReservation_iff split: option.splits)
  with assms show ?thesis by (intro ended_valid [OF assms(1-5)]) (auto simp: recover_with_def)
qed

lemma finish_simulates:
  assumes rest: "at_rest g n t fs L" and t: "t \<le> now" "now \<le> last_date" and n: "n < MAX_SAFE_INTEGER"
    and profile: "sg_profile g = fixed_profile m"
    and settled: "(status = Settled \<and> settled = Some u \<and> is_safe_int u \<and> 0 \<le> u) \<or> (status = Conservative \<and> settled = None)"
  shows "answer (fst (shadow_finish g rid status settled now fs)) = fst (ledger_finish rid status settled now L)
    \<and> at_rest g (n + 1) now (snd (shadow_finish g rid status settled now fs)) (snd (ledger_finish rid status settled now L))"
proof -
  from n have n': "n \<le> MAX_SAFE_INTEGER" by simp
  obtain c0 c1 k c s0 where opened: "rbind (readState g fs) (rollWindow g now) = Inr (ledger_state g now c k L \<lparr>ss_updatedAt := c0\<rparr>)"
    and fs: "fs = stored s0" and c: "ledger_ok c0 c1 L" "0 \<le> c1" "c1 \<le> c0" "c0 \<le> now" "c1 \<le> c" "c \<le> now" "1 \<le> k" "k \<le> n"
    using at_rest_opened [OF rest t n' profile] .
  let ?f = "finish_with status settled now"
  have found: "List.find (\<lambda>r. sr_id r = rid) (filter (counts_on (utcWindowStart now)) L) = ledger_find (utcWindowStart now) rid L"
    by (simp add: find_filter ledger_find_def)
  show ?thesis
  proof (cases "\<exists>r. ledger_find (utcWindowStart now) rid L = Some r \<and> sr_status r = Active")
    case True
    then obtain r where r: "ledger_find (utcWindowStart now) rid L = Some r" "sr_status r = Active" by blast
    from ledger_find_Some [OF r(1)] have rL: "r \<in> set L" "sr_id r = rid" by simp_all
    from c(1) rL(1) have "validateReservation r = Inr ()" "sr_acquiredAt r \<le> c1" by (simp_all add: ledger_ok_def)
    with c(2-4) r(2) settled t have valid: "validateReservation (?f r) = Inr ()" by (intro finish_with_valid) auto
    note written = change_simulates [where f = ?f and r = r, OF fs c t(2) n rL(1) r(2) rL(2) finish_with_fields valid]
    then obtain fs' where "write_changed g now (ledger_state g now c k L \<lparr>ss_updatedAt := c0,
        ss_reservations := update_first (\<lambda>r. sr_id r = rid) ?f (filter (counts_on (utcWindowStart now)) L)\<rparr>) fs = (Inr (), fs')"
        "at_rest g (n + 1) now fs' (ledger_change rid ?f L)" by blast
    then show ?thesis using opened fs found r
      by (simp add: shadow_finish_def ledger_finish_def failClosed_def ledger_state_def answer_def)
  next
    case False
    with opened fs found at_rest_mono [OF rest t(1)] show ?thesis
      by (auto simp: shadow_finish_def ledger_finish_def failClosed_def ledger_state_def answer_def is_limit_error_def split: option.splits)
  qed
qed


lemma recover_simulates:
  assumes rest: "at_rest g n t fs L" and t: "0 \<le> now" "t \<le> now" "now \<le> last_date" and n: "n < MAX_SAFE_INTEGER"
    and profile: "sg_profile g = fixed_profile m"
  shows "answer (fst (shadow_recover g rid e now fs)) = fst (ledger_recover rid e now L)
    \<and> at_rest g (n + 1) now (snd (shadow_recover g rid e now fs)) (snd (ledger_recover rid e now L))"
proof (cases "valid_reservation_id rid \<and> valid_digest e")
  case False
  with at_rest_mono [OF rest t(2)] show ?thesis
    by (auto simp: shadow_recover_def ledger_recover_def answer_def require_def)
next
  case True
  from n have n': "n \<le> MAX_SAFE_INTEGER" by simp
  obtain c0 c1 k c s0 where opened: "rbind (readState g fs) (rollWindow g now) = Inr (ledger_state g now c k L \<lparr>ss_updatedAt := c0\<rparr>)"
    and fs: "fs = stored s0" and c: "ledger_ok c0 c1 L" "0 \<le> c1" "c1 \<le> c0" "c0 \<le> now" "c1 \<le> c" "c \<le> now" "1 \<le> k" "k \<le> n"
    using at_rest_opened [OF rest t(2,3) n' profile] .
  let ?f = "recover_with e now"
  have found: "List.find (\<lambda>r. sr_id r = rid) (filter (counts_on (utcWindowStart now)) L) = ledger_find (utcWindowStart now) rid L"
    by (simp add: find_filter ledger_find_def)
  have now: "shadow_now now = Inr now" using t by (simp add: shadow_now_def is_safe_int_def MAX_SAFE_INTEGER_def)
  show ?thesis
  proof (cases "\<exists>r. ledger_find (utcWindowStart now) rid L = Some r \<and> sr_status r = Active \<and> sr_expiresAt r \<le> now")
    case True
    then obtain r where r: "ledger_find (utcWindowStart now) rid L = Some r" "sr_status r = Active" "sr_expiresAt r \<le> now" by blast
    from ledger_find_Some [OF r(1)] have rL: "r \<in> set L" "sr_id r = rid" by simp_all
    from c(1) rL(1) have "validateReservation r = Inr ()" "sr_acquiredAt r \<le> c1" by (simp_all add: ledger_ok_def)
    with c(2-4) r(2) t \<open>valid_reservation_id rid \<and> valid_digest e\<close> have valid: "validateReservation (?f r) = Inr ()"
      by (intro recover_with_valid) auto
    note written = change_simulates [where f = ?f and r = r, OF fs c t(3) n rL(1) r(2) rL(2) recover_with_fields valid]
    then obtain fs' where "write_changed g now (ledger_state g now c k L \<lparr>ss_updatedAt := c0,
        ss_reservations := update_first (\<lambda>r. sr_id r = rid) ?f (filter (counts_on (utcWindowStart now)) L)\<rparr>) fs = (Inr (), fs')"
        "at_rest g (n + 1) now fs' (ledger_change rid ?f L)" by blast
    then show ?thesis using opened fs found r now \<open>valid_reservation_id rid \<and> valid_digest e\<close>
      by (simp add: shadow_recover_def ledger_recover_def failClosed_def ledger_state_def answer_def)
  next
    case False
    with opened fs found at_rest_mono [OF rest t(2)] now \<open>valid_reservation_id rid \<and> valid_digest e\<close> show ?thesis
      by (auto simp: shadow_recover_def ledger_recover_def failClosed_def ledger_state_def answer_def is_limit_error_def split: option.splits)
  qed
qed


lemma check_simulates:
  assumes "at_rest g n t fs L" "t \<le> last_date" "n \<le> MAX_SAFE_INTEGER"
  shows "shadow_self_check g fs = (Inr (), fs)"
proof -
  from assms(1) obtain c0 c1 k where fs: "fs = stored (ledger_state g c0 c1 k L)"
    and c: "ledger_ok c0 c1 L" "0 \<le> c1" "c1 \<le> c0" "c0 \<le> t" "1 \<le> k" "k \<le> n" by (auto simp: at_rest_def)
  with assms(2,3) have "readState g fs = Inr (ledger_state g c0 c1 k L)" unfolding fs by (intro readState_ledger) linarith+
  with fs show ?thesis by (simp add: shadow_self_check_def failClosed_def)
qed

lemma settle_simulates:
  assumes rest: "at_rest g n t fs L" and t: "0 \<le> now" "t \<le> now" "now \<le> last_date" and n: "n < MAX_SAFE_INTEGER"
    and profile: "sg_profile g = fixed_profile m"
  shows "fst (shadow_exec g (now, Settle_call rid u) (ended, fs)) = fst (ledger_exec (sg_profile g) (now, Settle_call rid u) (ended, L))
    \<and> fst (snd (shadow_exec g (now, Settle_call rid u) (ended, fs))) = fst (snd (ledger_exec (sg_profile g) (now, Settle_call rid u) (ended, L)))
    \<and> at_rest g (n + 1) now (snd (snd (shadow_exec g (now, Settle_call rid u) (ended, fs))))
        (snd (snd (ledger_exec (sg_profile g) (now, Settle_call rid u) (ended, L))))"
proof (cases "rid \<notin> set ended \<and> is_safe_int u \<and> 0 \<le> u")
  case True
  have now: "shadow_now now = Inr now" using t by (simp add: shadow_now_def is_safe_int_def MAX_SAFE_INTEGER_def)
  from finish_simulates [where status = Settled and settled = "Some u" and u = u and rid = rid, OF rest t(2,3) n profile] True
  have "answer (fst (shadow_finish g rid Settled (Some u) now fs)) = fst (ledger_finish rid Settled (Some u) now L)"
    "at_rest g (n + 1) now (snd (shadow_finish g rid Settled (Some u) now fs)) (snd (ledger_finish rid Settled (Some u) now L))"
    by simp_all
  with True now show ?thesis
    by (cases "shadow_finish g rid Settled (Some u) now fs"; cases "ledger_finish rid Settled (Some u) now L")
      (auto simp: shadow_settle_def lease_answer_def ledger_close_def shadow_credit_units_def answer_def rbind_def split: sum.splits)
next
  case False
  with at_rest_mono [OF rest t(2)] show ?thesis
    by (auto simp: shadow_settle_def lease_answer_def shadow_credit_units_def answer_def require_def)
qed

lemma close_simulates:
  assumes rest: "at_rest g n t fs L" and t: "0 \<le> now" "t \<le> now" "now \<le> last_date" and n: "n < MAX_SAFE_INTEGER"
    and profile: "sg_profile g = fixed_profile m"
  shows "fst (shadow_exec g (now, Close_call rid) (ended, fs)) = fst (ledger_exec (sg_profile g) (now, Close_call rid) (ended, L))
    \<and> fst (snd (shadow_exec g (now, Close_call rid) (ended, fs))) = fst (snd (ledger_exec (sg_profile g) (now, Close_call rid) (ended, L)))
    \<and> at_rest g (n + 1) now (snd (snd (shadow_exec g (now, Close_call rid) (ended, fs))))
        (snd (snd (ledger_exec (sg_profile g) (now, Close_call rid) (ended, L))))"
proof (cases "rid \<in> set ended")
  case False
  have now: "shadow_now now = Inr now" using t by (simp add: shadow_now_def is_safe_int_def MAX_SAFE_INTEGER_def)
  from finish_simulates [where status = Conservative and settled = None and rid = rid, OF rest t(2,3) n profile]
  have "answer (fst (shadow_finish g rid Conservative None now fs)) = fst (ledger_finish rid Conservative None now L)"
    "at_rest g (n + 1) now (snd (shadow_finish g rid Conservative None now fs)) (snd (ledger_finish rid Conservative None now L))"
    by simp_all
  with False now show ?thesis
    by (cases "shadow_finish g rid Conservative None now fs"; cases "ledger_finish rid Conservative None now L")
      (auto simp: shadow_close_unknown_def lease_answer_def ledger_close_def answer_def rbind_def split: sum.splits)
next
  case True
  with at_rest_mono [OF rest t(2)] show ?thesis
    by (auto simp: shadow_close_unknown_def lease_answer_def answer_def)
qed

lemma call_simulates:
  assumes rest: "at_rest g n t fs L" and t: "0 \<le> now" "t \<le> now" "now \<le> last_date" and n: "n < MAX_SAFE_INTEGER"
    and profile: "sg_profile g = fixed_profile m"
    and rid: "\<And>rid units. call = Acquire_call rid units \<Longrightarrow> valid_reservation_id rid \<and> rid \<notin> set (map sr_id L)"
  shows "fst (shadow_exec g (now, call) (ended, fs)) = fst (ledger_exec (sg_profile g) (now, call) (ended, L))
    \<and> fst (snd (shadow_exec g (now, call) (ended, fs))) = fst (snd (ledger_exec (sg_profile g) (now, call) (ended, L)))
    \<and> at_rest g (n + 1) now (snd (snd (shadow_exec g (now, call) (ended, fs))))
        (snd (snd (ledger_exec (sg_profile g) (now, call) (ended, L))))"
proof (cases call)
  case (Acquire_call rid units)
  with acquire_simulates [OF rest t(2,3) n profile] rid profile show ?thesis by (simp add: split_beta)
next
  case (Settle_call rid u)
  show ?thesis unfolding Settle_call by (rule settle_simulates [OF assms(1-6)])
next
  case (Close_call rid)
  show ?thesis unfolding Close_call by (rule close_simulates [OF assms(1-6)])
next
  case (Recover_call rid e)
  with recover_simulates [OF rest t n profile, of rid e] show ?thesis by (simp add: split_beta)
next
  case Check_call
  with check_simulates [of g n t fs L] rest t n at_rest_mono [OF rest t(2)] show ?thesis by (simp add: answer_def)
qed

lemma ledger_keeps_ids:
  "set (map sr_id (snd (snd (ledger_exec p (now, call) (ended, L))))) \<subseteq> set (map sr_id L) \<union> set (new_ids [(now, call)])
   \<and> (distinct (map sr_id L @ new_ids [(now, call)]) \<longrightarrow> distinct (map sr_id (snd (snd (ledger_exec p (now, call) (ended, L))))))"
proof -
  have kept: "map sr_id (ledger_change rid f L) = map sr_id L" if "\<And>x. sr_id (f x) = sr_id x" for rid f
    using that by (simp add: ledger_change_def)
  have finish: "map sr_id (snd (ledger_finish rid status settled now L)) = map sr_id L" for rid status settled
    by (simp add: ledger_finish_def kept split: option.split)
  have close: "map sr_id (snd (snd (ledger_close rid status settled now (ended, L)))) = map sr_id L" for rid status settled
    using finish [of rid status settled] by (simp add: ledger_close_def split_beta split: sum.split)
  show ?thesis
    by (cases call) (auto simp: ledger_acquire_def ledger_recover_def close kept new_shadow_reservation_def Let_def
      simp flip: set_map split: sum.splits option.splits)
qed

interpretation shadow_ledger: simulation "shadow_exec g" "ledger_exec (sg_profile g)" "shadow_sim g" for g
proof (unfold_locales, goal_cases)
  case (1 c calls s a)
  obtain now call where c: "c = (now, call)" by (cases c)
  obtain ended fs where s: "s = (ended, fs)" by (cases s)
  from 1 obtain L where a: "a = (ended, L)" by (cases a) (simp add: shadow_sim_def s)
  from 1 obtain m t n where profile: "sg_profile g = fixed_profile m" and rest: "at_rest g n t fs L" "0 \<le> t"
    and n: "n + int (length (c # calls)) \<le> MAX_SAFE_INTEGER" and ok: "calls_ok t (c # calls) L"
    by (auto simp: shadow_sim_def s a)
  have ids: "new_ids ((now, call) # calls) = new_ids [(now, call)] @ new_ids calls" by (cases call) simp_all
  from ok c have t: "t \<le> now" "now \<le> last_date" by (simp_all add: calls_ok_def)
  have fresh: "valid_reservation_id rid \<and> rid \<notin> set (map sr_id L)" if "call = Acquire_call rid units" for rid units
    using ok that by (simp add: calls_ok_def c)
  note step = call_simulates [where ended = ended, OF rest(1) _ t _ profile fresh]
  have "calls_ok now calls (snd (snd (ledger_exec (sg_profile g) c (ended, L))))"
    using ok ledger_keeps_ids [of "sg_profile g" now call ended L] unfolding calls_ok_def c list.map ids fst_conv
    by (auto simp del: new_ids.simps) blast
  with step rest t n profile show ?case
    unfolding shadow_sim_def c s a split_beta by (intro conjI exI [of _ m] exI [of _ now] exI [of _ "n + 1"]) auto
qed


section \<open>Properties\<close>

definition empty_fs :: shadow_fs where
  "empty_fs = \<lparr>fs_file = None, fs_locked = False\<rparr>"

lemma new_shadow_guard_profile:
  "new_shadow_guard sha units = Inr g \<Longrightarrow> sg_profile g = fixed_profile units"
  by (auto simp: new_shadow_guard_def fixedProductionShadowRiskProfile_def effects split: if_splits)

lemma initialized_sim:
  assumes g: "new_shadow_guard sha units = Inr g" and init: "shadow_initialize g t0 empty_fs = (Inr (), fs)"
    and calls: "calls_ok t0 calls []" "int (length calls) < MAX_SAFE_INTEGER"
  shows "shadow_sim g calls ([], fs) ([], [])"
proof -
  have t0: "0 \<le> t0" "t0 \<le> last_date" and fs: "fs = stored (ledger_state g t0 t0 1 [])"
    using init by (auto simp: shadow_initialize_def shadow_now_def with_lock_def empty_fs_def iso_time_def require_def writeState_def
      stored_def ledger_state_def recent_starts_def split: if_splits sum.splits)
  have "ledger_ok t0 t0 []" by (simp add: ledger_ok_def starts_within_def)
  with t0 fs have "at_rest g 1 t0 fs []" unfolding at_rest_def by (intro exI [of _ t0] exI [of _ 1]) simp
  with t0 calls new_shadow_guard_profile [OF g] show ?thesis
    unfolding shadow_sim_def prod.case by (intro conjI refl exI [of _ units] exI [of _ t0] exI [of _ 1]) auto
qed

lemmas started_runs = shadow_ledger.runs_alike [where js = "[]" and a = "([], [])", unfolded append_Nil2, OF initialized_sim]

text \<open>What a sequence of calls was granted.\<close>

definition granted :: "shadow_reservation option result list \<Rightarrow> shadow_reservation list" where
  "granted rs = concat (map (\<lambda>r. case r of Inr (Some x) \<Rightarrow> [x] | _ \<Rightarrow> []) rs)"

lemma ledger_step_starts:
  "map sr_acquiredAt (snd (snd (ledger_exec p c (ended, L)))) =
     map sr_acquiredAt L @ map sr_acquiredAt (granted [fst (ledger_exec p c (ended, L))])"
proof -
  have kept: "map sr_acquiredAt (ledger_change rid f L) = map sr_acquiredAt L" if "\<And>x. sr_acquiredAt (f x) = sr_acquiredAt x" for rid f
    using that by (simp add: ledger_change_def)
  show ?thesis
    by (cases "(p, c, ended, L)" rule: ledger_exec.cases)
      (auto simp: granted_def ledger_acquire_def ledger_close_def ledger_finish_def ledger_recover_def kept Let_def
        split: sum.splits option.splits)
qed

lemma ledger_run_starts:
  "map sr_acquiredAt (snd (snd (run_calls (ledger_exec p) calls (ended, L)))) =
     map sr_acquiredAt L @ map sr_acquiredAt (granted (fst (run_calls (ledger_exec p) calls (ended, L))))"
proof (induction calls arbitrary: ended L)
  case Nil
  then show ?case by (simp add: granted_def)
next
  case (Cons c calls)
  obtain r ended' L' where step: "ledger_exec p c (ended, L) = (r, ended', L')" by (cases "ledger_exec p c (ended, L)")
  from Cons.IH [of ended' L'] ledger_step_starts [of p c ended L] show ?case
    by (simp add: step split_beta Let_def granted_def)
qed


text \<open>
  C16: A guard on its own file, initialised empty, answers every sequence of calls exactly as the ledger of all
  reservations does, in which nothing is ever forgotten and a lease is closed once: nothing that the file drops
  when a day ends, or from the starts, was still needed. The calls come with a clock that does not go back and
  stays within the range of dates, each acquisition draws an identifier not used before, there are fewer of them
  than there are revisions, and no other process holds the lock or writes the file.
\<close>

theorem shadow_guard_refines_ledger:
  assumes "new_shadow_guard sha units = Inr g" "shadow_initialize g t0 empty_fs = (Inr (), fs)"
    and "calls_ok t0 calls []" "int (length calls) < MAX_SAFE_INTEGER"
  shows "fst (run_calls (shadow_exec g) calls ([], fs)) = fst (run_calls (ledger_exec (sg_profile g)) calls ([], []))"
  using started_runs [OF assms] by simp

lemma ledger_answers:
  assumes "i < length calls" "calls ! i = (now, Acquire_call rid u)" "is_safe_int u" "0 \<le> u"
  shows "\<exists>r. fst (run_calls (ledger_exec p) calls s) ! i = r \<and> (r = Inr (Some (new_shadow_reservation p rid u now)) \<or>
    (\<exists>reason retry. r = Inl (shadow_limit_error reason retry)))"
  using assms
proof (induction calls arbitrary: i s)
  case Nil
  then show ?case by simp
next
  case (Cons c calls)
  then show ?case
    by (cases i; cases s) (auto simp: split_beta Let_def ledger_acquire_def shadow_credit_units_def check_limits_def split: sum.splits if_splits)
qed

text \<open>
  C36: A guard on its own file, initialised empty, whose lock is free, does not fail closed on the state it wrote: a
  request with valid units is granted its lease or refused by a limit, whatever calls came before, on however many
  days, as long as the clock does not go back and stays within the range of dates, identifiers are fresh, and there
  are fewer calls than revisions. (On a clock that went back over midnight, or a lock held by another process, the
  code does fail closed.)
\<close>

theorem shadow_guard_available:
  assumes "new_shadow_guard sha units = Inr g" "shadow_initialize g t0 empty_fs = (Inr (), fs)"
    and "calls_ok t0 calls []" "int (length calls) < MAX_SAFE_INTEGER"
    and "i < length calls" "calls ! i = (now, Acquire_call rid u)" "is_safe_int u" "0 \<le> u"
  shows "fst (run_calls (shadow_exec g) calls ([], fs)) ! i = Inr (Some (new_shadow_reservation (sg_profile g) rid u now))
    \<or> (\<exists>reason retry. fst (run_calls (shadow_exec g) calls ([], fs)) ! i = Inl (shadow_limit_error reason retry))"
  using started_runs [OF assms(1-4)] ledger_answers [OF assms(5-8), of "sg_profile g" "([], [])"] by simp

lemma ledger_grant:
  assumes "ledger_acquire (fixed_profile m) rid u now L = (Inr (Some r), L')"
  shows "active_count L' \<le> 2 \<and> shadow_exposure (filter (counts_on (utcWindowStart now)) L') \<le> m
    \<and> (\<exists>r \<in> set L'. sr_acquiredAt r = now)"
proof -
  let ?r = "new_shadow_reservation (fixed_profile m) rid u now"
  have fields: "sr_status ?r = Active" "sr_reserved ?r = u" "sr_acquiredAt ?r = now" by (simp_all add: new_shadow_reservation_def)
  then have "active_count (L @ [?r]) = active_count L + 1"
    "shadow_exposure (filter (counts_on (utcWindowStart now)) (L @ [?r])) = shadow_exposure (filter (counts_on (utcWindowStart now)) L) + u"
    by (simp_all add: active_count_def shadow_exposure_def shadow_units_def counts_on_def)
  with assms fields show ?thesis
    by (auto simp: ledger_acquire_def Let_def check_limits_Inr_iff effects split: sum.splits)
qed

lemma granted_file:
  assumes sim: "shadow_sim g [(now, Acquire_call rid u)] (ended, fs) (ended', L)"
    and grant: "shadow_exec g (now, Acquire_call rid u) (ended, fs) = (Inr (Some r), ended'', fs')"
  shows "\<exists>f. fs_file fs' = Some f \<and> active_count (ss_reservations (sh_state f)) \<le> 2
    \<and> shadow_exposure (ss_reservations (sh_state f)) \<le> sp_maxReservedCreditUnits (sg_profile g)"
proof -
  from sim obtain m t n where profile: "sg_profile g = fixed_profile m" and rest: "at_rest g n t fs L" "0 \<le> t"
    and n: "n < MAX_SAFE_INTEGER" and t: "t \<le> now" "now \<le> last_date" and ok: "valid_reservation_id rid" "rid \<notin> set (map sr_id L)"
    by (auto simp: shadow_sim_def calls_ok_def)
  obtain a L' where ideal: "ledger_acquire (sg_profile g) rid u now L = (a, L')" by fastforce
  with acquire_simulates [OF rest(1) t n profile ok, of u] grant
  have a: "a = Inr (Some r)" and "at_rest g (n + 1) now fs' L'" by (auto simp: profile split: prod.splits)
  then obtain c0 c1 k where fs': "fs' = stored (ledger_state g c0 c1 k L')" "ledger_ok c0 c1 L'" "c1 \<le> c0" "c0 \<le> now"
    by (auto simp: at_rest_def)
  note limits = ledger_grant [OF ideal [unfolded a profile]]
  with fs' have "c0 = now" by (force simp: ledger_ok_def)
  with fs' limits profile show ?thesis by (simp add: stored_def ledger_state_def)
qed

lemma run_calls_append:
  "run_calls f (is @ js) s =
     (fst (run_calls f is s) @ fst (run_calls f js (snd (run_calls f is s))), snd (run_calls f js (snd (run_calls f is s))))"
  by (induction "is" arbitrary: s) (simp_all add: split_beta Let_def)

lemma granted_minutes:
  assumes "shadow_sim g calls ([], fs) ([], [])"
  shows "starts_within (t - 60000) t (granted (fst (run_calls (shadow_exec g) calls ([], fs)))) \<le> 6"
proof -
  let ?L = "snd (snd (run_calls (ledger_exec (sg_profile g)) calls ([], [])))"
  from shadow_ledger.runs_alike [of g calls "[]" "([], fs)" "([], [])"] assms
  have answers: "fst (run_calls (shadow_exec g) calls ([], fs)) = fst (run_calls (ledger_exec (sg_profile g)) calls ([], []))"
    and "shadow_sim g [] (snd (run_calls (shadow_exec g) calls ([], fs))) (snd (run_calls (ledger_exec (sg_profile g)) calls ([], [])))"
    by simp_all
  then have "starts_within (t - 60000) t ?L \<le> 6" by (auto simp: shadow_sim_def at_rest_def ledger_ok_def split_beta)
  then show ?thesis by (simp add: starts_within_def ledger_run_starts answers)
qed

text \<open>
  C37: Over any run, in no interval of a minute are more than six requests granted, and a grant leaves at most
  two active reservations and an exposure within the budget in the file.
\<close>

theorem shadow_limits_hold:
  assumes "new_shadow_guard sha units = Inr g" "shadow_initialize g t0 empty_fs = (Inr (), fs)"
    and "calls_ok t0 (calls @ [(now, Acquire_call rid u)]) []" "int (length calls) + 1 < MAX_SAFE_INTEGER"
    and "run_calls (shadow_exec g) (calls @ [(now, Acquire_call rid u)]) ([], fs) = (rs @ [Inr (Some r)], ended, fs')"
  shows "starts_within (t - 60000) t (granted (rs @ [Inr (Some r)])) \<le> 6
    \<and> (\<exists>f. fs_file fs' = Some f \<and> active_count (ss_reservations (sh_state f)) \<le> 2
         \<and> shadow_exposure (ss_reservations (sh_state f)) \<le> units)"
proof -
  obtain ended1 fs1 where before: "snd (run_calls (shadow_exec g) calls ([], fs)) = (ended1, fs1)" by fastforce
  obtain ended2 L where ledger: "snd (run_calls (ledger_exec (sg_profile g)) calls ([], [])) = (ended2, L)" by fastforce
  have sim: "shadow_sim g (calls @ [(now, Acquire_call rid u)]) ([], fs) ([], [])"
    using initialized_sim [OF assms(1-3)] assms(4) by simp
  have "starts_within (t - 60000) t (granted (rs @ [Inr (Some r)])) \<le> 6"
    using granted_minutes [OF sim, of t] assms(5) by simp
  moreover have "shadow_sim g [(now, Acquire_call rid u)] (ended1, fs1) (ended2, L)"
    using shadow_ledger.runs_alike [OF sim] by (simp add: before ledger)
  moreover have "shadow_exec g (now, Acquire_call rid u) (ended1, fs1) = (Inr (Some r), ended, fs')"
    using assms(5) by (simp add: run_calls_append split_beta Let_def prod_eq_iff before)
  ultimately show ?thesis
    using granted_file new_shadow_guard_profile [OF assms(1)] by fastforce
qed


subsection \<open>A run over two days\<close>

definition example_digest :: string where "example_digest = ''sha256:0''"

definition example_guard :: shadow_guard where
  "example_guard = \<lparr>sg_profile = fixed_profile 100, sg_profileDigest = example_digest\<rparr>"

definition example_fs :: shadow_fs where
  "example_fs = stored (ledger_state example_guard 1000 1000 1 [])"

definition example_id :: "char \<Rightarrow> string" where "example_id c = ''rsv_'' @ replicate 32 c"

definition example_calls :: "(int \<times> shadow_call) list" where
  "example_calls =
     [(1000, Acquire_call (example_id CHR ''0'') 60), (2000, Acquire_call (example_id CHR ''1'') 60),
      (3000, Settle_call (example_id CHR ''0'') 10), (4000, Acquire_call (example_id CHR ''3'') 60),
      (1804000, Recover_call (example_id CHR ''3'') (''sha256:'' @ replicate 64 CHR ''0'')),
      (86400000, Close_call (example_id CHR ''0'')), (86400000, Close_call (example_id CHR ''3'')),
      (86401000, Acquire_call (example_id CHR ''2'') 60)]"

lemma example_started:
  "new_shadow_guard (\<lambda>_. ''0'') 100 = Inr example_guard"
  "shadow_initialize example_guard 1000 empty_fs = (Inr (), example_fs)"
  "calls_ok 1000 example_calls []" "int (length example_calls) < MAX_SAFE_INTEGER"
  by code_simp+

lemma example_answers:
  "fst (run_calls (ledger_exec (sg_profile example_guard)) example_calls ([], [])) =
     [Inr (Some (new_shadow_reservation (fixed_profile 100) (example_id CHR ''0'') 60 1000)),
      Inl (shadow_limit_error ''risk_budget'' 86398), Inr None,
      Inr (Some (new_shadow_reservation (fixed_profile 100) (example_id CHR ''3'') 60 4000)), Inr None, Inr None, Inl unavailable,
      Inr (Some (new_shadow_reservation (fixed_profile 100) (example_id CHR ''2'') 60 86401000))]"
  by code_simp


lemma shadow_example_run:
  "example_calls = butlast example_calls @ [(86401000, Acquire_call (example_id CHR ''2'') 60)]"
  by (simp add: example_calls_def)

lemma example_result:
  "\<exists>fs'. run_calls (shadow_exec example_guard) example_calls ([], example_fs) =
     (butlast (fst (run_calls (ledger_exec (sg_profile example_guard)) example_calls ([], [])))
        @ [Inr (Some (new_shadow_reservation (fixed_profile 100) (example_id CHR ''2'') 60 86401000))], fs')"
proof -
  have "fst (run_calls (shadow_exec example_guard) example_calls ([], example_fs)) =
      fst (run_calls (ledger_exec (sg_profile example_guard)) example_calls ([], []))"
    using started_runs [OF example_started] by simp
  then show ?thesis
    by (intro exI [of _ "snd (run_calls (shadow_exec example_guard) example_calls ([], example_fs))"]) (simp add: prod_eq_iff example_answers)
qed

theorem shadow_guard_refines_ledger_witness:
  "fst (run_calls (shadow_exec example_guard) example_calls ([], example_fs)) =
     [Inr (Some (new_shadow_reservation (fixed_profile 100) (example_id CHR ''0'') 60 1000)),
      Inl (shadow_limit_error ''risk_budget'' 86398), Inr None,
      Inr (Some (new_shadow_reservation (fixed_profile 100) (example_id CHR ''3'') 60 4000)), Inr None, Inr None, Inl unavailable,
      Inr (Some (new_shadow_reservation (fixed_profile 100) (example_id CHR ''2'') 60 86401000))]"
  using shadow_guard_refines_ledger [OF example_started] unfolding example_answers .

theorem shadow_guard_available_witness:
  "fst (run_calls (shadow_exec example_guard) example_calls ([], example_fs)) ! 1 =
     Inr (Some (new_shadow_reservation (sg_profile example_guard) (example_id CHR ''1'') 60 2000))
   \<or> (\<exists>reason retry. fst (run_calls (shadow_exec example_guard) example_calls ([], example_fs)) ! 1 = Inl (shadow_limit_error reason retry))"
proof (rule shadow_guard_available [OF example_started])
  show "1 < length example_calls" "example_calls ! 1 = (2000, Acquire_call (example_id CHR ''1'') 60)"
    by (simp_all add: example_calls_def)
qed (simp_all add: is_safe_int_def MAX_SAFE_INTEGER_def)

theorem shadow_limits_hold_witness:
  "\<exists>rs ended fs' f. run_calls (shadow_exec example_guard) example_calls ([], example_fs) = (rs, ended, fs') \<and> fs_file fs' = Some f
     \<and> active_count (ss_reservations (sh_state f)) \<le> 2 \<and> shadow_exposure (ss_reservations (sh_state f)) \<le> 100"
proof -
  from example_result obtain rs r ended fs' where run: "run_calls (shadow_exec example_guard) example_calls ([], example_fs) = (rs @ [Inr (Some r)], ended, fs')"
    by fastforce
  then show ?thesis
    using shadow_limits_hold [OF example_started(1,2), of "butlast example_calls" 86401000 "example_id CHR ''2''" 60 rs r ended fs' 0]
      example_started(3) by (auto simp: MAX_SAFE_INTEGER_def example_calls_def simp flip: shadow_example_run)
qed

end
