(* ===== verification/Pipeline_Context.thy ===== *)
theory Pipeline_Context
  imports Frely_Prelude
begin

section \<open>The context of a pipeline request\<close>

text \<open>
  \<open>packages/gateway/src/pipeline/{contracts,context}.ts\<close>: the artifacts and context values that the hooks
  of one request share, and the views that restrict what a plugin may read and write. Values are
  shared by reference: a slot holds a primitive or a reference to an object of the store, which the code
  freezes when it publishes it. Freezing is shallow, so the objects nested in a published one can still
  change. Objects used as context keys are compared by identity: \<open>ck_object\<close> is the identity of the key
  object.
\<close>

subsection \<open>Contracts\<close>

datatype pipeline_phase =
    Request_ingress | Request_decode | Request_normalize | Request_estimate | Policy_pre_resolution
  | Access_candidates | Access_select | Policy_post_resolution | Pricing_quote | Provider_request
  | Provider_invoke | Response_decode | Response_transform | Stream_transform | Usage_measure
  | Billing_calculate | Response_egress | Observability

definition PIPELINE_PHASES :: "pipeline_phase list" where
  "PIPELINE_PHASES =
     [Request_ingress, Request_decode, Request_normalize, Request_estimate, Policy_pre_resolution,
      Access_candidates, Access_select, Policy_post_resolution, Pricing_quote, Provider_request,
      Provider_invoke, Response_decode, Response_transform, Stream_transform, Usage_measure,
      Billing_calculate, Response_egress, Observability]"

fun phase_text :: "pipeline_phase \<Rightarrow> string" where
  "phase_text Request_ingress = ''request.ingress''"
| "phase_text Request_decode = ''request.decode''"
| "phase_text Request_normalize = ''request.normalize''"
| "phase_text Request_estimate = ''request.estimate''"
| "phase_text Policy_pre_resolution = ''policy.pre-resolution''"
| "phase_text Access_candidates = ''access.candidates''"
| "phase_text Access_select = ''access.select''"
| "phase_text Policy_post_resolution = ''policy.post-resolution''"
| "phase_text Pricing_quote = ''pricing.quote''"
| "phase_text Provider_request = ''provider.request''"
| "phase_text Provider_invoke = ''provider.invoke''"
| "phase_text Response_decode = ''response.decode''"
| "phase_text Response_transform = ''response.transform''"
| "phase_text Stream_transform = ''stream.transform''"
| "phase_text Usage_measure = ''usage.measure''"
| "phase_text Billing_calculate = ''billing.calculate''"
| "phase_text Response_egress = ''response.egress''"
| "phase_text Observability = ''observability''"

definition PIPELINE_REQUEST_PHASES :: "pipeline_phase list" where
  "PIPELINE_REQUEST_PHASES =
     filter (\<lambda>p. prefix ''request.'' (phase_text p) \<or> prefix ''policy.'' (phase_text p) \<or> prefix ''access.'' (phase_text p)
                \<or> p = Pricing_quote \<or> prefix ''provider.'' (phase_text p)) PIPELINE_PHASES"

definition PIPELINE_RESPONSE_PHASES :: "pipeline_phase list" where
  "PIPELINE_RESPONSE_PHASES =
     filter (\<lambda>p. prefix ''response.'' (phase_text p) \<or> p = Usage_measure \<or> p = Billing_calculate \<or> p = Observability)
       PIPELINE_PHASES"

datatype hook_kind = Transform_hook | Guard_hook | Contribute_hook | Observe_hook

datatype context_visibility = Private_key | Shared_key

datatype context_mode = Artifact_mode | Owner_cache

record context_key =
  ck_object :: nat
  ck_id :: string
  ck_ownerPluginId :: string
  ck_visibility :: context_visibility
  ck_mode :: context_mode

definition PIPELINE_ARTIFACT_NAMES :: "string list" where
  "PIPELINE_ARTIFACT_NAMES =
     [''originalRequest'', ''effectiveSourceRequest'', ''canonicalRequest'', ''subscriptionSelection'',
      ''accessResolution'', ''priceQuote'', ''budgetDecision'', ''providerRequest'', ''canonicalResponse'',
      ''clientResponse'', ''usage'', ''billingDraft'']"

definition REPLACEABLE_TRANSFORM_ARTIFACTS :: "string list" where
  "REPLACEABLE_TRANSFORM_ARTIFACTS = [''effectiveSourceRequest'', ''canonicalRequest'', ''canonicalResponse'', ''clientResponse'']"

subsection \<open>Names of sensitive material\<close>

text \<open>\<open>SENSITIVE_KEY_SEGMENT\<close>: a sensitive word between separators or the ends, ignoring case.\<close>

definition SENSITIVE_WORDS :: "string list" where
  "SENSITIVE_WORDS = [''authorization'', ''credential'', ''oauth'', ''password'', ''secret'', ''api-key'']"

definition is_separator :: "char \<Rightarrow> bool" where
  "is_separator c \<longleftrightarrow> c \<in> set ''-_:''"

definition word_ends :: "string \<Rightarrow> bool" where
  "word_ends s \<longleftrightarrow> s = [] \<or> is_separator (hd s)"

fun sensitive_from :: "bool \<Rightarrow> string \<Rightarrow> bool" where
  "sensitive_from at_start [] = False"
| "sensitive_from at_start (c # cs) =
     ((at_start \<and> list_ex (\<lambda>w. prefix w (c # cs) \<and> word_ends (drop (length w) (c # cs))) SENSITIVE_WORDS)
      \<or> sensitive_from (is_separator c) cs)"

definition is_sensitive_id :: "string \<Rightarrow> bool" where
  "is_sensitive_id s = sensitive_from True (to_lower s)"

definition assertSafeContextKey :: "context_key \<Rightarrow> unit result" where
  "assertSafeContextKey key =
     require (\<not> is_sensitive_id (ck_id key)) (PlainError ''Pipeline context key may not name sensitive material'')"

subsection \<open>Objects\<close>

text \<open>
  The store: an object is its index, \<open>ob_fields\<close> its own properties, \<open>ob_array\<close> whether it is an array. A
  reference past the end of the store denotes nothing, and is read as \<open>undefined\<close>.
\<close>

datatype slot = VUndefined | VNull | VBool bool | VNum jsnum | VStr string | VRef nat

record js_object =
  ob_array :: bool
  ob_fields :: "(string \<times> slot) list"
  ob_frozen :: bool

type_synonym objects = "js_object list"

definition live_slot :: "objects \<Rightarrow> slot \<Rightarrow> slot" where
  "live_slot objs v = (case v of VRef r \<Rightarrow> if r < length objs then v else VUndefined | _ \<Rightarrow> v)"

definition live_patch :: "objects \<Rightarrow> (string \<times> slot) list \<Rightarrow> (string \<times> slot) list" where
  "live_patch objs patch = map (\<lambda>(k, v). (k, live_slot objs v)) patch"

definition new_object :: "bool \<Rightarrow> objects \<Rightarrow> slot \<times> objects" where
  "new_object array objs = (VRef (length objs), objs @ [\<lparr>ob_array = array, ob_fields = [], ob_frozen = False\<rparr>])"

definition own_property :: "js_object \<Rightarrow> string \<Rightarrow> slot" where
  "own_property ob k = (case map_of (ob_fields ob) k of None \<Rightarrow> VUndefined | Some v \<Rightarrow> v)"

definition get_field :: "objects \<Rightarrow> nat \<Rightarrow> string \<Rightarrow> slot" where
  "get_field objs r k = (if r < length objs then live_slot objs (own_property (objs ! r) k) else VUndefined)"

definition own_keys :: "objects \<Rightarrow> nat \<Rightarrow> string list" where
  "own_keys objs r = (if r < length objs then map fst (ob_fields (objs ! r)) else [])"

fun put_field :: "string \<Rightarrow> slot \<Rightarrow> (string \<times> slot) list \<Rightarrow> (string \<times> slot) list" where
  "put_field k v [] = [(k, v)]"
| "put_field k v ((k', v') # fs) = (if k' = k then (k, v) # fs else (k', v') # put_field k v fs)"

text \<open>Writing to a frozen object throws, in the strict mode of a module.\<close>

definition change_object :: "(js_object \<Rightarrow> js_object) \<Rightarrow> nat \<Rightarrow> (objects, unit) action" where
  "change_object f r objs =
     (if r < length objs \<and> \<not> ob_frozen (objs ! r) then (Inr (), objs[r := f (objs ! r)]) else (plain ''TypeError'', objs))"

definition set_field :: "nat \<Rightarrow> string \<Rightarrow> slot \<Rightarrow> (objects, unit) action" where
  "set_field r k v objs = change_object (\<lambda>ob. ob\<lparr>ob_fields := put_field k (live_slot objs v) (ob_fields ob)\<rparr>) r objs"

definition delete_field :: "nat \<Rightarrow> string \<Rightarrow> (objects, unit) action" where
  "delete_field r k = change_object (\<lambda>ob. ob\<lparr>ob_fields := filter (\<lambda>kv. fst kv \<noteq> k) (ob_fields ob)\<rparr>) r"

text \<open>\<open>Object.freeze\<close> of an object; other values are left.\<close>

definition freezePublishedValue :: "slot \<Rightarrow> objects \<Rightarrow> objects" where
  "freezePublishedValue v objs =
     (case v of
        VRef r \<Rightarrow> if r < length objs \<and> \<not> ob_frozen (objs ! r) then objs[r := (objs ! r)\<lparr>ob_frozen := True\<rparr>] else objs
      | _ \<Rightarrow> objs)"

text \<open>What can happen to the store: objects are added, and a frozen one keeps its own properties.\<close>

definition objects_evolve :: "objects \<Rightarrow> objects \<Rightarrow> bool" where
  "objects_evolve os os' \<longleftrightarrow> length os \<le> length os' \<and> (\<forall>r < length os. ob_frozen (os ! r) \<longrightarrow> os' ! r = os ! r)"

definition frozen_slot :: "objects \<Rightarrow> slot \<Rightarrow> bool" where
  "frozen_slot objs v = (case v of VRef r \<Rightarrow> r < length objs \<and> ob_frozen (objs ! r) | _ \<Rightarrow> True)"

lemma objects_evolve_refl [simp]: "objects_evolve os os"
  by (simp add: objects_evolve_def)

lemma objects_evolve_trans: "objects_evolve os os' \<Longrightarrow> objects_evolve os' os'' \<Longrightarrow> objects_evolve os os''"
  unfolding objects_evolve_def by (metis order.strict_trans2 order.trans)

lemma frozen_slot_evolves: "objects_evolve os os' \<Longrightarrow> frozen_slot os v \<Longrightarrow> frozen_slot os' v"
  by (auto simp: objects_evolve_def frozen_slot_def split: slot.splits)

lemma change_object_evolves: "objects_evolve os (snd (change_object f r os))"
  by (auto simp: objects_evolve_def change_object_def nth_list_update)

lemma store_evolves [simp]:
  "objects_evolve os (snd (new_object array os))" "objects_evolve os (snd (set_field r k v os))"
  "objects_evolve os (snd (delete_field r k os))" "objects_evolve os (freezePublishedValue v os)"
  by (auto simp: set_field_def delete_field_def change_object_evolves)
    (auto simp: objects_evolve_def new_object_def nth_append freezePublishedValue_def nth_list_update split: slot.splits)

lemma freeze_freezes: "frozen_slot (freezePublishedValue (live_slot os v) os) (live_slot os v)"
  by (auto simp: frozen_slot_def freezePublishedValue_def live_slot_def split: slot.splits)

subsection \<open>The request context\<close>

text \<open>\<open>px_objects\<close> is the store of the objects that the code around the request works on.\<close>

record request_context =
  px_values :: "string \<Rightarrow> slot option"
  px_artifacts :: "string \<Rightarrow> slot option"
  px_objects :: objects
  px_disposed :: bool

definition set_artifacts :: "(string \<times> slot) list \<Rightarrow> (string \<Rightarrow> slot option) \<Rightarrow> string \<Rightarrow> slot option" where
  "set_artifacts patch m = fold (\<lambda>(k, v) m. if v = VUndefined then m else m(k \<mapsto> v)) patch m"

definition freeze_patch :: "(string \<times> slot) list \<Rightarrow> objects \<Rightarrow> objects" where
  "freeze_patch patch objs = fold (\<lambda>(k, v). freezePublishedValue v) patch objs"

definition new_request_context :: "(string \<times> slot) list \<Rightarrow> objects \<Rightarrow> request_context result" where
  "new_request_context initial objs =
     (if list_ex (\<lambda>(k, v). k \<notin> set PIPELINE_ARTIFACT_NAMES) initial then plain ''Unknown initial pipeline artifact''
      else let entries = live_patch objs initial; m = set_artifacts entries Map.empty
           in if m ''originalRequest'' = None then plain ''Pipeline originalRequest artifact is required''
              else Inr \<lparr>px_values = Map.empty, px_artifacts = m, px_objects = freeze_patch entries objs, px_disposed = False\<rparr>)"

definition context_active :: "request_context \<Rightarrow> unit result" where
  "context_active c = require (\<not> px_disposed c) (PlainError ''Pipeline request context has been disposed'')"

definition read_value :: "(string \<Rightarrow> slot option) \<Rightarrow> string \<Rightarrow> slot" where
  "read_value m k = (case m k of None \<Rightarrow> VUndefined | Some v \<Rightarrow> v)"

text \<open>The unrestricted reader, and the reader of a plugin.\<close>

definition artifact_get :: "string \<Rightarrow> request_context \<Rightarrow> slot result" where
  "artifact_get k c = rbind (context_active c) (\<lambda>_. Inr (read_value (px_artifacts c) k))"

definition artifact_has :: "string \<Rightarrow> request_context \<Rightarrow> bool result" where
  "artifact_has k c = rbind (context_active c) (\<lambda>_. Inr (px_artifacts c k \<noteq> None))"

definition readable :: "string list \<Rightarrow> string \<Rightarrow> unit result" where
  "readable names k = require (k \<in> set names) (PlainError ''cannot read pipeline artifact'')"

definition reader_get :: "string list \<Rightarrow> string \<Rightarrow> request_context \<Rightarrow> slot result" where
  "reader_get names k c =
     rbind (context_active c) (\<lambda>_. rbind (readable names k) (\<lambda>_. Inr (read_value (px_artifacts c) k)))"

definition reader_has :: "string list \<Rightarrow> string \<Rightarrow> request_context \<Rightarrow> bool result" where
  "reader_has names k c =
     rbind (context_active c) (\<lambda>_. rbind (readable names k) (\<lambda>_. Inr (px_artifacts c k \<noteq> None)))"

text \<open>The patch of a hook is checked as a whole before any of it is written.\<close>

definition check_hook_artifact :: "string list \<Rightarrow> (string \<Rightarrow> slot option) \<Rightarrow> string \<times> slot \<Rightarrow> unit result" where
  "check_hook_artifact writable m = (\<lambda>(k, v).
     if k \<notin> set PIPELINE_ARTIFACT_NAMES then plain ''Unknown pipeline artifact''
     else if k \<notin> set writable then plain ''cannot write pipeline artifact''
     else if v = VUndefined then Inr ()
     else if k = ''originalRequest'' \<or> (m k \<noteq> None \<and> k \<notin> set REPLACEABLE_TRANSFORM_ARTIFACTS)
     then plain ''Pipeline artifact is write-once'' else Inr ())"

definition write_artifacts :: "(string \<times> slot) list \<Rightarrow> request_context \<Rightarrow> request_context" where
  "write_artifacts patch c = c\<lparr>px_artifacts := set_artifacts patch (px_artifacts c), px_objects := freeze_patch patch (px_objects c)\<rparr>"

definition publishHookArtifacts :: "(string \<times> slot) list \<Rightarrow> string list \<Rightarrow> (request_context, unit) action" where
  "publishHookArtifacts patch writable c =
     (case rbind (context_active c) (\<lambda>_. traverse (check_hook_artifact writable (px_artifacts c)) (live_patch (px_objects c) patch)) of
        Inl e \<Rightarrow> (Inl e, c)
      | Inr _ \<Rightarrow> (Inr (), write_artifacts (live_patch (px_objects c) patch) c))"

definition check_trusted_artifact :: "(string \<Rightarrow> slot option) \<Rightarrow> string \<times> slot \<Rightarrow> unit result" where
  "check_trusted_artifact m = (\<lambda>(k, v).
     if k \<notin> set PIPELINE_ARTIFACT_NAMES then plain ''Unknown pipeline artifact''
     else if v = VUndefined then Inr ()
     else if k = ''originalRequest'' \<or> m k \<noteq> None then plain ''Trusted pipeline artifact is write-once'' else Inr ())"

definition publishTrustedArtifacts :: "(string \<times> slot) list \<Rightarrow> (request_context, unit) action" where
  "publishTrustedArtifacts patch c =
     (case rbind (context_active c) (\<lambda>_. traverse (check_trusted_artifact (px_artifacts c)) (live_patch (px_objects c) patch)) of
        Inl e \<Rightarrow> (Inl e, c)
      | Inr _ \<Rightarrow> (Inr (), write_artifacts (live_patch (px_objects c) patch) c))"

record context_view =
  vw_pluginId :: string
  vw_readable :: "string list"
  vw_writable :: "string list"
  vw_registered :: "string \<Rightarrow> context_key option"
  vw_revoked :: bool

definition view_usable :: "context_view \<Rightarrow> context_key \<Rightarrow> request_context \<Rightarrow> unit result" where
  "view_usable w key c =
     rbind (context_active c) (\<lambda>_.
     rbind (require (\<not> vw_revoked w) (PlainError ''Pipeline context view has been revoked'')) (\<lambda>_.
       require (vw_registered w (ck_id key) = Some key) (PlainError ''Unregistered pipeline context key object'')))"

definition view_get :: "context_view \<Rightarrow> context_key \<Rightarrow> request_context \<Rightarrow> slot result" where
  "view_get w key c =
     rbind (view_usable w key c) (\<lambda>_.
     rbind (require (ck_id key \<in> set (vw_readable w)) (PlainError ''cannot read context key'')) (\<lambda>_.
       Inr (read_value (px_values c) (ck_id key))))"

definition view_has :: "context_view \<Rightarrow> context_key \<Rightarrow> request_context \<Rightarrow> bool result" where
  "view_has w key c = rbind (view_get w key c) (\<lambda>v. Inr (v \<noteq> VUndefined))"

definition view_set :: "context_view \<Rightarrow> context_key \<Rightarrow> slot \<Rightarrow> (request_context, unit) action" where
  "view_set w key v c =
     (case rbind (view_usable w key c) (\<lambda>_.
           rbind (require (ck_ownerPluginId key = vw_pluginId w \<and> ck_id key \<in> set (vw_writable w))
                    (PlainError ''cannot write context key'')) (\<lambda>_.
             require (\<not> (ck_mode key = Artifact_mode \<and> px_values c (ck_id key) \<noteq> None))
               (PlainError ''Pipeline context artifact is write-once''))) of
        Inl e \<Rightarrow> (Inl e, c)
      | Inr _ \<Rightarrow>
          let x = live_slot (px_objects c) v
          in (Inr (), c\<lparr>px_values := (px_values c)(ck_id key \<mapsto> x), px_objects := freezePublishedValue x (px_objects c)\<rparr>))"

definition dispose :: "request_context \<Rightarrow> request_context" where
  "dispose c = (if px_disposed c then c else c\<lparr>px_values := Map.empty, px_artifacts := Map.empty, px_disposed := True\<rparr>)"

subsection \<open>What a context may become\<close>

text \<open>
  \<open>context_evolves registered c d\<close>: the request stays, an artifact that is not replaceable stays
  once published, a context value under a key of mode \<open>artifact\<close> stays once set, and an object that is
  frozen keeps its own properties.
\<close>

definition context_evolves :: "(string \<Rightarrow> context_key option) \<Rightarrow> request_context \<Rightarrow> request_context \<Rightarrow> bool" where
  "context_evolves registered c d \<longleftrightarrow>
     objects_evolve (px_objects c) (px_objects d) \<and>
     (if px_disposed c then px_disposed d \<and> px_artifacts d = px_artifacts c \<and> px_values d = px_values c
      else px_disposed d \<or>
        (\<forall>k v. px_artifacts c k = Some v \<longrightarrow> (if k \<in> set REPLACEABLE_TRANSFORM_ARTIFACTS then px_artifacts d k \<noteq> None else px_artifacts d k = Some v))
        \<and> (\<forall>k v key. px_values c k = Some v \<longrightarrow> registered k = Some key \<longrightarrow> ck_mode key = Artifact_mode \<longrightarrow> px_values d k = Some v))"

definition context_ok :: "request_context \<Rightarrow> bool" where
  "context_ok c \<longleftrightarrow>
     (if px_disposed c then px_artifacts c = Map.empty \<and> px_values c = Map.empty
      else px_artifacts c ''originalRequest'' \<noteq> None \<and> dom (px_artifacts c) \<subseteq> set PIPELINE_ARTIFACT_NAMES)
     \<and> (\<forall>v \<in> ran (px_artifacts c) \<union> ran (px_values c). frozen_slot (px_objects c) v)"

text \<open>The object that a slot is bound to, with its own properties.\<close>

definition bound_object :: "request_context \<Rightarrow> slot option \<Rightarrow> js_object option" where
  "bound_object c b =
     (case b of Some (VRef r) \<Rightarrow> if r < length (px_objects c) then Some (px_objects c ! r) else None | _ \<Rightarrow> None)"

lemma bound_object_frozen:
  assumes "case b of None \<Rightarrow> True | Some v \<Rightarrow> frozen_slot (px_objects c) v" "objects_evolve (px_objects c) (px_objects d)"
  shows "bound_object d b = bound_object c b"
  using assms by (auto simp: bound_object_def frozen_slot_def objects_evolve_def split: option.splits slot.splits)

lemma bound_object_stays:
  assumes "context_ok c" "objects_evolve (px_objects c) (px_objects d)"
  shows "bound_object d (px_artifacts c k) = bound_object c (px_artifacts c k)" "bound_object d (px_values c k) = bound_object c (px_values c k)"
proof -
  from assms(1) have "\<forall>v \<in> ran (px_artifacts c) \<union> ran (px_values c). frozen_slot (px_objects c) v" by (simp add: context_ok_def)
  then have "px_artifacts c k = Some v \<Longrightarrow> frozen_slot (px_objects c) v" "px_values c k = Some v \<Longrightarrow> frozen_slot (px_objects c) v" for v
    using ranI [of _ k v] by fast+
  then show "bound_object d (px_artifacts c k) = bound_object c (px_artifacts c k)"
    "bound_object d (px_values c k) = bound_object c (px_values c k)"
    using assms(2) by (auto intro!: bound_object_frozen split: option.splits)
qed

lemma context_evolves_refl [simp]: "context_evolves registered c c"
  by (auto simp: context_evolves_def)

lemma context_evolves_trans:
  assumes "context_evolves registered c d" "context_evolves registered d e"
  shows "context_evolves registered c e"
proof -
  have objs: "objects_evolve (px_objects c) (px_objects e)"
    using assms unfolding context_evolves_def by (blast intro: objects_evolve_trans)
  show ?thesis
  proof (cases "px_disposed c \<or> px_disposed d \<or> px_disposed e")
    case True
    with assms objs show ?thesis unfolding context_evolves_def by (cases "px_disposed c"; cases "px_disposed d") auto
  next
    case False
    with assms objs show ?thesis unfolding context_evolves_def by (simp split: if_splits) metis
  qed
qed

lemma set_artifacts_simps [simp]:
  "set_artifacts [] m = m" "set_artifacts ((k, v) # p) m = set_artifacts p (if v = VUndefined then m else m(k \<mapsto> v))"
  by (simp_all add: set_artifacts_def)

lemma set_artifacts_other: "\<forall>v. (k, v) \<in> set patch \<longrightarrow> v = VUndefined \<Longrightarrow> set_artifacts patch m k = m k"
  by (induction patch arbitrary: m) auto

lemma set_artifacts_keeps: "k \<in> dom m \<Longrightarrow> k \<in> dom (set_artifacts patch m)"
proof (induction patch arbitrary: m)
  case (Cons kv patch)
  then show ?case by (cases kv) simp
qed simp

lemma traverse_each: "traverse f xs = Inr ys \<Longrightarrow> x \<in> set xs \<Longrightarrow> \<exists>y. f x = Inr y"
  by (induction xs arbitrary: ys) (auto simp: effects)

lemma dom_set_artifacts: "dom (set_artifacts patch m) \<subseteq> dom m \<union> fst ` set patch"
proof (induction patch arbitrary: m)
  case (Cons kv patch)
  then show ?case by (cases kv) (auto dest!: subsetD [OF Cons])
qed simp

lemma ran_set_artifacts: "ran (set_artifacts patch m) \<subseteq> ran m \<union> snd ` set patch"
proof (induction patch arbitrary: m)
  case (Cons kv patch)
  obtain k v where kv: "kv = (k, v)" by (cases kv)
  have "ran (m(k \<mapsto> v)) \<subseteq> insert v (ran m)" by (auto simp: ran_def split: if_splits)
  moreover have "ran (set_artifacts patch (m(k \<mapsto> v))) \<subseteq> ran (m(k \<mapsto> v)) \<union> snd ` set patch" by (rule Cons.IH)
  ultimately have "ran (set_artifacts patch (m(k \<mapsto> v))) \<subseteq> ran m \<union> snd ` set (kv # patch)" unfolding kv by (simp only: list.set image_insert snd_conv) blast
  with Cons.IH [of m] show ?case unfolding kv by (cases "v = VUndefined") (simp, blast, simp)
qed simp

text \<open>A patch that is published is frozen.\<close>

lemma freeze_patch_simps [simp]:
  "freeze_patch [] os = os" "freeze_patch ((k, v) # p) os = freeze_patch p (freezePublishedValue v os)"
  by (simp_all add: freeze_patch_def)

lemma freeze_patch_evolves [simp]: "objects_evolve os (freeze_patch patch os)"
proof (induction patch arbitrary: os)
  case (Cons kv patch)
  obtain k v where kv: "kv = (k, v)" by (cases kv)
  from Cons.IH show ?case unfolding kv freeze_patch_simps by (rule objects_evolve_trans [OF store_evolves(4)])
qed simp

lemma live_slot_evolves: "objects_evolve os os' \<Longrightarrow> live_slot os v = v \<Longrightarrow> live_slot os' v = v"
  by (auto simp: objects_evolve_def live_slot_def split: slot.splits if_splits)

lemma live_slot_idem [simp]: "live_slot os (live_slot os v) = live_slot os v"
  by (auto simp: live_slot_def split: slot.splits)

lemma live_patch_live: "v \<in> snd ` set (live_patch os patch) \<Longrightarrow> live_slot os v = v"
  by (auto simp: live_patch_def)

lemma live_patch_keys [simp]: "fst ` set (live_patch os patch) = fst ` set patch"
  by (force simp: live_patch_def)

lemma freeze_patch_frozen: "\<forall>v \<in> snd ` set patch. live_slot os v = v \<Longrightarrow> \<forall>v \<in> snd ` set patch. frozen_slot (freeze_patch patch os) v"
proof (induction patch arbitrary: os)
  case (Cons kv patch)
  obtain k v where kv: "kv = (k, v)" by (cases kv)
  let ?os = "freezePublishedValue v os"
  have "live_slot os v = v" using Cons.prems kv by simp
  then have "frozen_slot ?os v" using freeze_freezes [of os v] by simp
  then have "frozen_slot (freeze_patch patch ?os) v" by (rule frozen_slot_evolves [OF freeze_patch_evolves])
  moreover have "\<forall>v \<in> snd ` set patch. live_slot ?os v = v"
    using Cons.prems kv by (auto intro!: live_slot_evolves [OF store_evolves(4)])
  ultimately show ?case using Cons.IH [of ?os] unfolding kv by simp
qed simp

lemma published_frozen:
  assumes "\<forall>x \<in> ran m \<union> V. frozen_slot os x"
  shows "\<forall>x \<in> ran (set_artifacts (live_patch os patch) m) \<union> V. frozen_slot (freeze_patch (live_patch os patch) os) x"
proof
  fix x assume "x \<in> ran (set_artifacts (live_patch os patch) m) \<union> V"
  then consider "x \<in> ran m \<union> V" | "x \<in> snd ` set (live_patch os patch)" using ran_set_artifacts by blast
  then show "frozen_slot (freeze_patch (live_patch os patch) os) x"
  proof cases
    case 1
    with assms show ?thesis by (intro frozen_slot_evolves [OF freeze_patch_evolves]) blast
  next
    case 2
    with freeze_patch_frozen [of "live_patch os patch" os] live_patch_live show ?thesis by blast
  qed
qed

lemma new_request_context_ok: "new_request_context initial objs = Inr c \<Longrightarrow> context_ok c"
proof -
  assume "new_request_context initial objs = Inr c"
  then have c: "c = \<lparr>px_values = Map.empty, px_artifacts = set_artifacts (live_patch objs initial) Map.empty,
      px_objects = freeze_patch (live_patch objs initial) objs, px_disposed = False\<rparr>"
    "px_artifacts c ''originalRequest'' \<noteq> None" "fst ` set initial \<subseteq> set PIPELINE_ARTIFACT_NAMES"
    by (fastforce simp: new_request_context_def Let_def list_ex_iff split: if_splits)+
  have "\<forall>x \<in> ran Map.empty \<union> {}. frozen_slot objs x" by simp
  from published_frozen [OF this, of initial] c dom_set_artifacts [of "live_patch objs initial" Map.empty]
  show "context_ok c" unfolding context_ok_def by auto
qed

definition patch_allowed :: "request_context \<Rightarrow> (string \<times> slot) list \<Rightarrow> bool" where
  "patch_allowed c patch \<longleftrightarrow> (\<forall>k v. (k, v) \<in> set patch \<longrightarrow> k \<in> set PIPELINE_ARTIFACT_NAMES \<and> (v \<noteq> VUndefined \<longrightarrow>
     k \<noteq> ''originalRequest'' \<and> (px_artifacts c k = None \<or> k \<in> set REPLACEABLE_TRANSFORM_ARTIFACTS)))"

lemma patch_keeps:
  assumes "patch_allowed c patch" "k = ''originalRequest'' \<or> px_artifacts c k \<noteq> None \<and> k \<notin> set REPLACEABLE_TRANSFORM_ARTIFACTS"
  shows "set_artifacts patch (px_artifacts c) k = px_artifacts c k"
proof (rule set_artifacts_other, intro allI impI)
  fix v assume "(k, v) \<in> set patch"
  with assms show "v = VUndefined" unfolding patch_allowed_def by metis
qed

lemma written_artifacts:
  assumes live: "\<not> px_disposed c" and allowed: "patch_allowed c (live_patch (px_objects c) patch)" and ok: "context_ok c"
    and d: "d = write_artifacts (live_patch (px_objects c) patch) c"
  shows "context_ok d" "context_evolves registered c d"
proof -
  let ?p = "live_patch (px_objects c) patch"
  note keeps = patch_keeps [OF allowed]
  have "fst ` set ?p \<subseteq> set PIPELINE_ARTIFACT_NAMES" using allowed unfolding patch_allowed_def by force
  moreover have "dom (px_artifacts c) \<subseteq> set PIPELINE_ARTIFACT_NAMES" using ok live by (simp add: context_ok_def)
  moreover have "px_artifacts d = set_artifacts ?p (px_artifacts c)" by (simp add: d write_artifacts_def)
  ultimately have "dom (px_artifacts d) \<subseteq> set PIPELINE_ARTIFACT_NAMES" using dom_set_artifacts [of ?p "px_artifacts c"] by (metis Un_least subset_trans)
  moreover have "px_artifacts d ''originalRequest'' \<noteq> None"
    using ok live keeps [of "''originalRequest''"] by (simp add: d write_artifacts_def context_ok_def)
  moreover have "\<forall>x \<in> ran (px_artifacts d) \<union> ran (px_values d). frozen_slot (px_objects d) x"
    using ok published_frozen [of "px_artifacts c" "ran (px_values c)" "px_objects c" patch]
    by (simp add: d write_artifacts_def context_ok_def)
  ultimately show "context_ok d" using live by (simp add: context_ok_def d write_artifacts_def)
  have "px_artifacts c k \<noteq> None \<Longrightarrow> px_artifacts d k \<noteq> None" for k
    using set_artifacts_keeps [of k "px_artifacts c" ?p] by (auto simp: dom_def d write_artifacts_def)
  moreover have "px_artifacts d k = Some v" if "px_artifacts c k = Some v" "k \<notin> set REPLACEABLE_TRANSFORM_ARTIFACTS" for k v
    using keeps [of k] that by (simp add: d write_artifacts_def)
  moreover have "px_values d = px_values c" "objects_evolve (px_objects c) (px_objects d)" by (simp_all add: d write_artifacts_def)
  ultimately show "context_evolves registered c d" using live unfolding context_evolves_def by simp
qed

lemma hook_patch_allowed: "traverse (check_hook_artifact writable (px_artifacts c)) patch = Inr ys \<Longrightarrow> patch_allowed c patch"
  unfolding patch_allowed_def by (fastforce dest: traverse_each simp: check_hook_artifact_def split: if_splits)

lemma trusted_patch_allowed: "traverse (check_trusted_artifact (px_artifacts c)) patch = Inr ys \<Longrightarrow> patch_allowed c patch"
  unfolding patch_allowed_def by (fastforce dest: traverse_each simp: check_trusted_artifact_def split: if_splits)

lemma published:
  assumes run: "(publishHookArtifacts patch writable c = (r, d)) \<or> publishTrustedArtifacts patch c = (r, d)"
    and ok: "context_ok c"
  shows "context_ok d" "context_evolves registered c d" "px_values d = px_values c" "px_disposed d = px_disposed c"
proof -
  have kinds: "d = c \<or> \<not> px_disposed c \<and> patch_allowed c (live_patch (px_objects c) patch)
      \<and> d = write_artifacts (live_patch (px_objects c) patch) c"
    using run
  proof
    assume "publishHookArtifacts patch writable c = (r, d)"
    then have "d = c \<or> \<not> px_disposed c \<and> d = write_artifacts (live_patch (px_objects c) patch) c
        \<and> (\<exists>ys. traverse (check_hook_artifact writable (px_artifacts c)) (live_patch (px_objects c) patch) = Inr ys)"
      by (auto simp: publishHookArtifacts_def context_active_def effects split: sum.splits)
    then show ?thesis using hook_patch_allowed by blast
  next
    assume "publishTrustedArtifacts patch c = (r, d)"
    then have "d = c \<or> \<not> px_disposed c \<and> d = write_artifacts (live_patch (px_objects c) patch) c
        \<and> (\<exists>ys. traverse (check_trusted_artifact (px_artifacts c)) (live_patch (px_objects c) patch) = Inr ys)"
      by (auto simp: publishTrustedArtifacts_def context_active_def effects split: sum.splits)
    then show ?thesis using trusted_patch_allowed by blast
  qed
  then show "context_ok d" "context_evolves registered c d" using ok written_artifacts by auto
  from kinds show "px_values d = px_values c" "px_disposed d = px_disposed c" by (auto simp: write_artifacts_def)
qed

text \<open>A view writes the value of one key, which its plugin owns and may write.\<close>

lemma view_set_good:
  assumes run: "view_set w key v c = (r, d)" and ok: "context_ok c"
  shows "context_ok d" "context_evolves (vw_registered w) c d" "px_artifacts d = px_artifacts c" "px_disposed d = px_disposed c"
    "px_values d k \<noteq> px_values c k \<Longrightarrow>
       k \<in> set (vw_writable w) \<and> (\<exists>key. vw_registered w k = Some key \<and> ck_ownerPluginId key = vw_pluginId w)"
proof -
  let ?x = "live_slot (px_objects c) v"
  have kinds: "d = c \<or> \<not> px_disposed c
      \<and> d = c\<lparr>px_values := (px_values c)(ck_id key \<mapsto> ?x), px_objects := freezePublishedValue ?x (px_objects c)\<rparr>
      \<and> vw_registered w (ck_id key) = Some key \<and> ck_ownerPluginId key = vw_pluginId w \<and> ck_id key \<in> set (vw_writable w)
      \<and> \<not> (ck_mode key = Artifact_mode \<and> px_values c (ck_id key) \<noteq> None)"
    using run by (auto simp: view_set_def view_usable_def context_active_def effects Let_def split: sum.splits)
  then show "px_artifacts d = px_artifacts c" "px_disposed d = px_disposed c" by auto
  show "context_ok d"
  proof (cases "d = c")
    case False
    with kinds have live: "\<not> px_disposed c"
      and d: "d = c\<lparr>px_values := (px_values c)(ck_id key \<mapsto> ?x), px_objects := freezePublishedValue ?x (px_objects c)\<rparr>" by blast+
    have "frozen_slot (px_objects d) x" if "x \<in> ran (px_artifacts d) \<union> ran (px_values d)" for x
    proof (cases "x = ?x")
      case True
      then show ?thesis using freeze_freezes by (simp add: d)
    next
      case False
      with that have "x \<in> ran (px_artifacts c) \<union> ran (px_values c)" by (auto simp: d ran_def split: if_splits)
      with ok have "frozen_slot (px_objects c) x" by (simp add: context_ok_def)
      then show ?thesis by (simp add: d frozen_slot_evolves [OF store_evolves(4)])
    qed
    then show ?thesis using ok live unfolding context_ok_def by (simp add: d)
  qed (simp add: ok)
  show "context_evolves (vw_registered w) c d" using kinds by (auto simp: context_evolves_def)
  show "px_values d k \<noteq> px_values c k \<Longrightarrow>
      k \<in> set (vw_writable w) \<and> (\<exists>key. vw_registered w k = Some key \<and> ck_ownerPluginId key = vw_pluginId w)"
    using kinds by (auto split: if_splits)
qed

end
