(* ===== verification/Pipeline_Kernel.thy ===== *)
theory Pipeline_Kernel
  imports Pipeline_Context
begin

section \<open>The pipeline kernel\<close>

text \<open>
  \<open>packages/gateway/src/pipeline/kernel.ts\<close>: the session that runs the hooks of one request. The
  code of a hook is a program over the operations its invocation offers and over the objects of the
  store; what its ports answer, and whether an abort or a timeout wins the race against it after some
  number of operations, is the environment \<open>hook_env\<close>. After the race its view is revoked, so the rest of
  a lost hook can only change objects that are not frozen, which is the step \<open>mutate\<close> of a session. The
  configuration of a hook is frozen as deep as it goes, and is data. One session runs one method at a
  time, as its callers use it.
\<close>

subsection \<open>Hooks\<close>

datatype 'a hook_program =
    Finish 'a
  | Raise js_error
  | Get_artifact string "slot result \<Rightarrow> 'a hook_program"
  | Has_artifact string "bool result \<Rightarrow> 'a hook_program"
  | Get_context context_key "slot result \<Rightarrow> 'a hook_program"
  | Has_context context_key "bool result \<Rightarrow> 'a hook_program"
  | Set_context context_key slot "unit result \<Rightarrow> 'a hook_program"
  | Call_port string slot "slot \<Rightarrow> 'a hook_program"
  | New_object bool "slot \<Rightarrow> 'a hook_program"
  | Own_keys nat "string list \<Rightarrow> 'a hook_program"
  | Get_field nat string "slot \<Rightarrow> 'a hook_program"
  | Set_field nat string slot "unit result \<Rightarrow> 'a hook_program"
  | Delete_field nat string "unit result \<Rightarrow> 'a hook_program"
  | Freeze_object slot "unit \<Rightarrow> 'a hook_program"

record compiled_hook =
  ch_ref :: string
  ch_pluginId :: string
  ch_behaviorVersion :: int
  ch_phase :: pipeline_phase
  ch_kind :: hook_kind
  ch_bestEffort :: bool
  ch_timeoutMs :: "int option"
  ch_instanceRevision :: string
  ch_config :: jsval
  ch_ports :: "(string \<times> jsval) list"
  ch_readableArtifacts :: "string list"
  ch_writableArtifacts :: "string list"
  ch_readableContext :: "string list"
  ch_requiredContext :: "string list"
  ch_writableContext :: "string list"
  ch_isApplicable :: "(jsval \<Rightarrow> bool hook_program) option"
  ch_run :: "jsval \<Rightarrow> slot hook_program"

record execution_plan =
  xp_kernelApiVersion :: int
  xp_planRevision :: string
  xp_settingsRevision :: string
  xp_applicabilityCacheKey :: string
  xp_hooksByPhase :: "pipeline_phase \<Rightarrow> compiled_hook list"
  xp_requestHooks :: "compiled_hook list"
  xp_responseHooks :: "compiled_hook list"
  xp_streamHooks :: "compiled_hook list"
  xp_contextKeys :: "string \<Rightarrow> context_key option"

record invocation_fact =
  if_pluginId :: string
  if_behaviorVersion :: int
  if_hook :: pipeline_phase
  if_instanceRevision :: string
  if_outcome :: string

record invocation_snapshot =
  is_planRevision :: string
  is_invocations :: "invocation_fact list"

datatype pipeline_error =
    Hook_execution_error string string pipeline_phase
  | Guard_denied_error string pipeline_phase
  | Thrown js_error

datatype interrupt = Interrupt_abort | Interrupt_timeout

record hook_env =
  he_aborted :: bool
  he_syncAnswers :: "slot list"
  he_answers :: "slot list"
  he_cut :: "(nat \<times> interrupt) option"

subsection \<open>Running a program\<close>

definition one_less :: "nat option \<Rightarrow> nat option" where
  "one_less n = map_option (\<lambda>k. k - 1) n"

definition answer_of :: "slot list \<Rightarrow> slot" where
  "answer_of as = (case as of [] \<Rightarrow> VUndefined | a # _ \<Rightarrow> a)"

text \<open>An operation on the objects of the store.\<close>

definition on_objects :: "(objects \<Rightarrow> 'r \<times> objects) \<Rightarrow> request_context \<Rightarrow> 'r \<times> request_context" where
  "on_objects f c = (case f (px_objects c) of (r, objs) \<Rightarrow> (r, c\<lparr>px_objects := objs\<rparr>))"

text \<open>The program runs until it ends, or until \<open>n\<close> operations are done: then the result is \<open>None\<close>.\<close>

primrec run_program ::
  "string list \<Rightarrow> context_view \<Rightarrow> 'a hook_program \<Rightarrow> nat option \<Rightarrow> slot list \<Rightarrow> request_context
     \<Rightarrow> 'a result option \<times> request_context" where
  "run_program names w (Finish x) = (\<lambda>n as c. if n = Some 0 then (None, c) else (Some (Inr x), c))"
| "run_program names w (Raise e) = (\<lambda>n as c. if n = Some 0 then (None, c) else (Some (Inl e), c))"
| "run_program names w (Get_artifact k f) = (\<lambda>n as c.
     if n = Some 0 then (None, c) else run_program names w (f (reader_get names k c)) (one_less n) as c)"
| "run_program names w (Has_artifact k f) = (\<lambda>n as c.
     if n = Some 0 then (None, c) else run_program names w (f (reader_has names k c)) (one_less n) as c)"
| "run_program names w (Get_context key f) = (\<lambda>n as c.
     if n = Some 0 then (None, c) else run_program names w (f (view_get w key c)) (one_less n) as c)"
| "run_program names w (Has_context key f) = (\<lambda>n as c.
     if n = Some 0 then (None, c) else run_program names w (f (view_has w key c)) (one_less n) as c)"
| "run_program names w (Set_context key v f) = (\<lambda>n as c.
     if n = Some 0 then (None, c)
     else run_program names w (f (fst (view_set w key v c))) (one_less n) as (snd (view_set w key v c)))"
| "run_program names w (Call_port p v f) = (\<lambda>n as c.
     if n = Some 0 then (None, c) else run_program names w (f (live_slot (px_objects c) (answer_of as))) (one_less n) (drop 1 as) c)"
| "run_program names w (New_object array f) = (\<lambda>n as c.
     if n = Some 0 then (None, c)
     else run_program names w (f (fst (on_objects (new_object array) c))) (one_less n) as (snd (on_objects (new_object array) c)))"
| "run_program names w (Own_keys r f) = (\<lambda>n as c.
     if n = Some 0 then (None, c) else run_program names w (f (own_keys (px_objects c) r)) (one_less n) as c)"
| "run_program names w (Get_field r k f) = (\<lambda>n as c.
     if n = Some 0 then (None, c) else run_program names w (f (get_field (px_objects c) r k)) (one_less n) as c)"
| "run_program names w (Set_field r k v f) = (\<lambda>n as c.
     if n = Some 0 then (None, c)
     else run_program names w (f (fst (on_objects (set_field r k v) c))) (one_less n) as (snd (on_objects (set_field r k v) c)))"
| "run_program names w (Delete_field r k f) = (\<lambda>n as c.
     if n = Some 0 then (None, c)
     else run_program names w (f (fst (on_objects (delete_field r k) c))) (one_less n) as (snd (on_objects (delete_field r k) c)))"
| "run_program names w (Freeze_object v f) = (\<lambda>n as c.
     if n = Some 0 then (None, c)
     else run_program names w (f ()) (one_less n) as (c\<lparr>px_objects := freezePublishedValue v (px_objects c)\<rparr>))"

subsection \<open>Results\<close>

definition OUTCOMES :: "string list" where
  "OUTCOMES = [''applied'', ''noop'', ''denied'', ''failed'', ''fallback'']"

type_synonym hook_result = "string \<times> (string \<times> slot) list option"

text \<open>The outcome and the artifacts of a result; an array has numbered keys and no outcome.\<close>

definition validateResult :: "objects \<Rightarrow> slot \<Rightarrow> hook_result result" where
  "validateResult objs result =
     (case live_slot objs result of
        VRef r \<Rightarrow>
          if list_ex (\<lambda>k. k \<notin> set [''outcome'', ''artifacts'']) (own_keys objs r) then plain ''Unknown pipeline hook result field''
          else (case get_field objs r ''outcome'' of
                  VStr s \<Rightarrow>
                    if s \<notin> set OUTCOMES then plain ''Invalid pipeline hook outcome''
                    else (case get_field objs r ''artifacts'' of
                            VUndefined \<Rightarrow> Inr (s, None)
                          | VRef patch \<Rightarrow>
                              if ob_array (objs ! patch) then plain ''Pipeline hook artifacts must be an object''
                              else Inr (s, Some (ob_fields (objs ! patch)))
                          | _ \<Rightarrow> plain ''Pipeline hook artifacts must be an object'')
                | _ \<Rightarrow> plain ''Invalid pipeline hook outcome'')
      | _ \<Rightarrow> plain ''Pipeline hook must return a result object'')"

definition hook_error :: "string \<Rightarrow> compiled_hook \<Rightarrow> pipeline_error" where
  "hook_error code h = Hook_execution_error code (ch_pluginId h) (ch_phase h)"

definition abortError :: "compiled_hook \<Rightarrow> pipeline_error" where
  "abortError h = hook_error ''pipeline_hook_aborted'' h"

definition thrown :: "'a result \<Rightarrow> pipeline_error + 'a" where
  "thrown r = (case r of Inl e \<Rightarrow> Inl (Thrown e) | Inr x \<Rightarrow> Inr x)"

text \<open>A timeout can win only where the hook has one.\<close>

definition race_cut :: "compiled_hook \<Rightarrow> hook_env \<Rightarrow> (nat \<times> interrupt) option" where
  "race_cut h env =
     (case he_cut env of
        Some (n, Interrupt_timeout) \<Rightarrow> if ch_timeoutMs h = None then None else Some (n, Interrupt_timeout)
      | x \<Rightarrow> x)"

definition invokeWithDeadline ::
  "compiled_hook \<Rightarrow> context_view \<Rightarrow> hook_env \<Rightarrow> request_context \<Rightarrow> (pipeline_error + hook_result) \<times> request_context" where
  "invokeWithDeadline h w env c =
     (if he_aborted env then (Inl (abortError h), c)
      else case run_program (ch_readableArtifacts h) w (ch_run h (ch_config h)) (map_option fst (race_cut h env)) (he_answers env) c of
        (None, d) \<Rightarrow>
          (case map_option snd (race_cut h env) of
             Some Interrupt_timeout \<Rightarrow> (Inl (hook_error ''pipeline_hook_timeout'' h), d)
           | _ \<Rightarrow> (Inl (abortError h), d))
      | (Some (Inl e), d) \<Rightarrow> (Inl (Thrown e), d)
      | (Some (Inr v), d) \<Rightarrow> (thrown (validateResult (px_objects d) v), d))"

definition hook_view :: "execution_plan \<Rightarrow> compiled_hook \<Rightarrow> context_view" where
  "hook_view plan h = \<lparr>vw_pluginId = ch_pluginId h, vw_readable = ch_readableContext h, vw_writable = ch_writableContext h,
     vw_registered = xp_contextKeys plan, vw_revoked = False\<rparr>"

definition require_context :: "execution_plan \<Rightarrow> compiled_hook \<Rightarrow> request_context \<Rightarrow> string \<Rightarrow> unit result" where
  "require_context plan h c k =
     (case xp_contextKeys plan k of
        None \<Rightarrow> plain ''TypeError''
      | Some key \<Rightarrow> rbind (view_has (hook_view plan h) key c) (\<lambda>b.
                      require b (PlainError ''Required pipeline context is unavailable'')))"

text \<open>The part of \<open>executeHook\<close> inside its \<open>try\<close>: \<open>None\<close> is a hook that does not apply.\<close>

definition hook_applies :: "execution_plan \<Rightarrow> compiled_hook \<Rightarrow> hook_env \<Rightarrow> request_context \<Rightarrow> bool result \<times> request_context" where
  "hook_applies plan h env c =
     (case ch_isApplicable h of
        None \<Rightarrow> (Inr True, c)
      | Some p \<Rightarrow>
          (case run_program (ch_readableArtifacts h) (hook_view plan h) (p (ch_config h)) None (he_syncAnswers env) c of
             (None, d) \<Rightarrow> (Inr False, d)
           | (Some r, d) \<Rightarrow> (r, d)))"

definition invoke_and_publish ::
  "execution_plan \<Rightarrow> compiled_hook \<Rightarrow> hook_env \<Rightarrow> request_context \<Rightarrow> (pipeline_error + hook_result) \<times> request_context" where
  "invoke_and_publish plan h env c =
     (case traverse (require_context plan h c) (ch_requiredContext h) of
        Inl e \<Rightarrow> (Inl (Thrown e), c)
      | Inr _ \<Rightarrow>
          (case invokeWithDeadline h (hook_view plan h) env c of
             (Inl e, d) \<Rightarrow> (Inl e, d)
           | (Inr (outcome, None), d) \<Rightarrow> (Inr (outcome, None), d)
           | (Inr (outcome, Some patch), d) \<Rightarrow>
               (case publishHookArtifacts patch (ch_writableArtifacts h) d of
                  (Inl e, d') \<Rightarrow> (Inl (Thrown e), d')
                | (Inr _, d') \<Rightarrow> (Inr (outcome, Some patch), d'))))"

definition hook_body ::
  "execution_plan \<Rightarrow> compiled_hook \<Rightarrow> hook_env \<Rightarrow> request_context \<Rightarrow> (pipeline_error + hook_result option) \<times> request_context" where
  "hook_body plan h env c =
     (if he_aborted env then (Inl (abortError h), c)
      else case hook_applies plan h env c of
        (Inl e, d) \<Rightarrow> (Inl (Thrown e), d)
      | (Inr False, d) \<Rightarrow> (Inr None, d)
      | (Inr True, d) \<Rightarrow>
          (case invoke_and_publish plan h env d of
             (Inl e, d') \<Rightarrow> (Inl e, d')
           | (Inr r, d') \<Rightarrow> (Inr (Some r), d')))"

subsection \<open>The session\<close>

record pipeline_session =
  se_context :: request_context
  se_maxFacts :: int
  se_facts :: "invocation_fact list"
  se_executed :: "string list"
  se_finished :: bool

type_synonym 'a session_action = "pipeline_session \<Rightarrow> (pipeline_error + 'a) \<times> pipeline_session"

definition new_session :: "(string \<times> slot) list \<Rightarrow> objects \<Rightarrow> int option \<Rightarrow> pipeline_session result" where
  "new_session artifacts objs maxFacts =
     rbind (new_request_context artifacts objs) (\<lambda>c.
       let limit = (case maxFacts of None \<Rightarrow> 128 | Some n \<Rightarrow> n)
       in if \<not> is_safe_int limit \<or> limit < 1 \<or> limit > 1024 then plain ''maxInvocationFacts must be between 1 and 1024''
          else Inr \<lparr>se_context = c, se_maxFacts = limit, se_facts = [], se_executed = [], se_finished = False\<rparr>)"

definition session_finished :: "'a session_action" where
  "session_finished s = (Inl (Thrown (PlainError ''Pipeline request session has finished'')), s)"

definition fact_of :: "compiled_hook \<Rightarrow> string \<Rightarrow> invocation_fact" where
  "fact_of h outcome = \<lparr>if_pluginId = ch_pluginId h, if_behaviorVersion = ch_behaviorVersion h, if_hook = ch_phase h,
     if_instanceRevision = ch_instanceRevision h, if_outcome = outcome\<rparr>"

definition record_fact :: "compiled_hook \<Rightarrow> string \<Rightarrow> pipeline_session \<Rightarrow> pipeline_session" where
  "record_fact h outcome s = s\<lparr>se_facts := se_facts s @ [fact_of h outcome]\<rparr>"

definition wrap_hook_error :: "compiled_hook \<Rightarrow> pipeline_error \<Rightarrow> pipeline_error" where
  "wrap_hook_error h e = (case e of Hook_execution_error c p ph \<Rightarrow> e | _ \<Rightarrow> hook_error ''pipeline_hook_failed'' h)"

definition executeHook :: "execution_plan \<Rightarrow> compiled_hook \<Rightarrow> hook_env \<Rightarrow> hook_result option session_action" where
  "executeHook plan h env s =
     (if se_finished s then session_finished s
      else if ch_ref h \<in> set (se_executed s) then (Inl (Thrown (PlainError ''Pipeline hook already executed'')), s)
      else if int (length (se_facts s)) \<ge> se_maxFacts s
      then (Inl (Thrown (PlainError ''Pipeline invocation fact limit exceeded'')), s)
      else let s1 = s\<lparr>se_executed := se_executed s @ [ch_ref h]\<rparr>
           in case hook_body plan h env (se_context s1) of
                (Inr None, c) \<Rightarrow> (Inr None, s1\<lparr>se_context := c\<rparr>)
              | (Inr (Some r), c) \<Rightarrow> (Inr (Some r), record_fact h (fst r) (s1\<lparr>se_context := c\<rparr>))
              | (Inl e, c) \<Rightarrow>
                  let s2 = record_fact h ''failed'' (s1\<lparr>se_context := c\<rparr>)
                  in if ch_bestEffort h then (Inr None, s2) else (Inl (wrap_hook_error h e), s2))"

fun execute_hooks :: "execution_plan \<Rightarrow> (string \<Rightarrow> hook_env) \<Rightarrow> compiled_hook list \<Rightarrow> hook_result list session_action" where
  "execute_hooks plan envs [] s = (Inr [], s)"
| "execute_hooks plan envs (h # hs) s =
     (case executeHook plan h (envs (ch_ref h)) s of
        (Inl e, s1) \<Rightarrow> (Inl e, s1)
      | (Inr None, s1) \<Rightarrow> execute_hooks plan envs hs s1
      | (Inr (Some r), s1) \<Rightarrow>
          if fst r = ''denied'' then (Inl (Guard_denied_error (ch_pluginId h) (ch_phase h)), s1)
          else (case execute_hooks plan envs hs s1 of
                  (Inl e, s2) \<Rightarrow> (Inl e, s2)
                | (Inr rs, s2) \<Rightarrow> (Inr (r # rs), s2)))"

definition executePhase :: "execution_plan \<Rightarrow> (string \<Rightarrow> hook_env) \<Rightarrow> pipeline_phase \<Rightarrow> hook_result list session_action" where
  "executePhase plan envs phase = execute_hooks plan envs (xp_hooksByPhase plan phase)"

fun executePhases :: "execution_plan \<Rightarrow> (string \<Rightarrow> hook_env) \<Rightarrow> pipeline_phase list \<Rightarrow> unit session_action" where
  "executePhases plan envs [] s = (Inr (), s)"
| "executePhases plan envs (p # ps) s =
     (case executePhase plan envs p s of
        (Inl e, s1) \<Rightarrow> (Inl e, s1)
      | (Inr _, s1) \<Rightarrow> executePhases plan envs ps s1)"

definition executeAll :: "execution_plan \<Rightarrow> (string \<Rightarrow> hook_env) \<Rightarrow> unit session_action" where
  "executeAll plan envs = executePhases plan envs PIPELINE_PHASES"

definition invocationSnapshot :: "execution_plan \<Rightarrow> pipeline_session \<Rightarrow> invocation_snapshot" where
  "invocationSnapshot plan s = \<lparr>is_planRevision = xp_planRevision plan, is_invocations = se_facts s\<rparr>"

definition session_publish :: "(string \<times> slot) list \<Rightarrow> unit session_action" where
  "session_publish patch s =
     (if se_finished s then session_finished s
      else case publishTrustedArtifacts patch (se_context s) of
             (r, c) \<Rightarrow> (thrown r, s\<lparr>se_context := c\<rparr>))"

definition finish_session :: "pipeline_session \<Rightarrow> pipeline_session" where
  "finish_session s = (if se_finished s then s else s\<lparr>se_finished := True, se_context := dispose (se_context s)\<rparr>)"

text \<open>\<open>withPipelineRequest\<close>: whatever the callback does, the session is finished after it.\<close>

definition withPipelineRequest ::
  "(string \<times> slot) list \<Rightarrow> objects \<Rightarrow> int option \<Rightarrow> 'a session_action \<Rightarrow> (pipeline_error + 'a) \<times> pipeline_session option" where
  "withPipelineRequest artifacts objs maxFacts callback =
     (case new_session artifacts objs maxFacts of
        Inl e \<Rightarrow> (Inl (Thrown e), None)
      | Inr s \<Rightarrow> (case callback s of (r, s') \<Rightarrow> (r, Some (finish_session s'))))"

subsection \<open>Streams\<close>

text \<open>
  What the upstream answers to one call; the wrapped stream passes it on and finishes the
  session when the stream ends in any way.
\<close>

datatype upstream = Yields jsval | Ends | Fails js_error

definition stream_pull :: "upstream \<Rightarrow> pipeline_session \<Rightarrow> upstream \<times> pipeline_session" where
  "stream_pull up s = (up, case up of Yields _ \<Rightarrow> s | Ends \<Rightarrow> finish_session s | Fails _ \<Rightarrow> finish_session s)"

definition stream_cancel :: "unit result \<Rightarrow> pipeline_session \<Rightarrow> unit result \<times> pipeline_session" where
  "stream_cancel r s = (r, finish_session s)"

text \<open>An iterator of \<open>wrapAsyncIterable\<close>: whether it has returned, beside the session.\<close>

type_synonym iterator_state = "bool \<times> pipeline_session"

definition iterator_next :: "upstream \<Rightarrow> iterator_state \<Rightarrow> jsval option result \<times> iterator_state" where
  "iterator_next up = (\<lambda>(returned, s).
     if returned then (Inr None, (returned, s))
     else case up of
            Yields v \<Rightarrow> (Inr (Some v), (False, s))
          | Ends \<Rightarrow> (Inr None, (True, finish_session s))
          | Fails e \<Rightarrow> (Inl e, (False, finish_session s)))"

definition iterator_return :: "upstream option \<Rightarrow> iterator_state \<Rightarrow> jsval option result \<times> iterator_state" where
  "iterator_return up = (\<lambda>(returned, s).
     if returned then (Inr None, (True, s))
     else (case up of
             None \<Rightarrow> Inr None
           | Some (Yields v) \<Rightarrow> Inr (Some v)
           | Some Ends \<Rightarrow> Inr None
           | Some (Fails e) \<Rightarrow> Inl e, (True, finish_session s)))"

text \<open>\<open>throw\<close>: the upstream's \<open>throw\<close> if it has one, else its \<open>return\<close> and then the error.\<close>

definition iterator_throw :: "js_error \<Rightarrow> upstream option \<Rightarrow> upstream option \<Rightarrow> iterator_state \<Rightarrow> jsval option result \<times> iterator_state" where
  "iterator_throw e upThrow upReturn = (\<lambda>(returned, s).
     if returned then (Inl e, (True, s))
     else (case upThrow of
             Some (Yields v) \<Rightarrow> Inr (Some v)
           | Some Ends \<Rightarrow> Inr None
           | Some (Fails e') \<Rightarrow> Inl e'
           | None \<Rightarrow> (case upReturn of Some (Fails e') \<Rightarrow> Inl e' | _ \<Rightarrow> Inl e), (True, finish_session s)))"


subsection \<open>What a hook may do to the context\<close>

definition hook_effect :: "(string \<Rightarrow> context_key option) \<Rightarrow> string \<Rightarrow> string list \<Rightarrow> string list \<Rightarrow> request_context \<Rightarrow> request_context \<Rightarrow> bool" where
  "hook_effect registered plugin artifacts values c d \<longleftrightarrow>
     (context_ok c \<longrightarrow> context_ok d) \<and> (context_ok c \<longrightarrow> context_evolves registered c d) \<and> px_disposed d = px_disposed c
     \<and> (context_ok c \<longrightarrow> (\<forall>k. px_artifacts d k \<noteq> px_artifacts c k \<longrightarrow> k \<in> set artifacts))
     \<and> (context_ok c \<longrightarrow> (\<forall>k. px_values d k \<noteq> px_values c k \<longrightarrow> k \<in> set values
          \<and> (\<exists>key. registered k = Some key \<and> ck_ownerPluginId key = plugin)))"

lemma hook_effect_refl [simp]: "hook_effect registered plugin artifacts values c c"
  by (simp add: hook_effect_def)

lemma hook_effect_trans:
  assumes "hook_effect registered plugin artifacts values c d" "hook_effect registered plugin artifacts values d e"
  shows "hook_effect registered plugin artifacts values c e"
proof -
  have "context_ok c \<Longrightarrow> context_evolves registered c e"
    using assms context_evolves_trans unfolding hook_effect_def by blast
  with assms show ?thesis unfolding hook_effect_def by (metis (no_types))
qed

lemma hook_effect_set:
  "hook_effect (vw_registered w) (vw_pluginId w) artifacts (vw_writable w) c (snd (view_set w key v c))"
proof -
  obtain r d where run: "view_set w key v c = (r, d)" by (cases "view_set w key v c")
  then have "px_disposed d = px_disposed c" by (auto simp: view_set_def Let_def split: sum.splits)
  moreover note view_set_good [OF run]
  ultimately show ?thesis unfolding hook_effect_def run snd_conv by (intro conjI impI allI) (simp_all only: simp_thms)
qed

lemma hook_effect_objects:
  assumes "objects_evolve (px_objects c) objs"
  shows "hook_effect registered plugin artifacts values c (c\<lparr>px_objects := objs\<rparr>)"
proof -
  have "context_ok c \<Longrightarrow> context_ok (c\<lparr>px_objects := objs\<rparr>)"
    using frozen_slot_evolves [OF assms] by (simp add: context_ok_def)
  with assms show ?thesis by (auto simp: hook_effect_def context_evolves_def)
qed

lemma on_objects_effect:
  assumes "\<And>objs. objects_evolve objs (snd (f objs))"
  shows "hook_effect registered plugin artifacts values c (snd (on_objects f c))"
  using assms [of "px_objects c"] by (auto simp: on_objects_def intro: hook_effect_objects split: prod.splits)

lemmas object_effects = on_objects_effect [OF store_evolves(1)] on_objects_effect [OF store_evolves(2)]
  on_objects_effect [OF store_evolves(3)] hook_effect_objects [OF store_evolves(4)] hook_effect_set

lemma run_program_effect:
  "run_program names w p n as c = (r, d)
     \<Longrightarrow> hook_effect (vw_registered w) (vw_pluginId w) artifacts (vw_writable w) c d"
proof (induction p arbitrary: n as c)
  case (Set_context key v f)
  from Set_context.prems show ?case
    by (cases "n = Some 0") (simp, simp, rule hook_effect_trans [OF object_effects(5)], erule Set_context.IH [OF rangeI])
next
  case (New_object array f)
  from New_object.prems show ?case
    by (cases "n = Some 0") (simp, simp, rule hook_effect_trans [OF object_effects(1)], erule New_object.IH [OF rangeI])
next
  case (Set_field i k v f)
  from Set_field.prems show ?case
    by (cases "n = Some 0") (simp, simp, rule hook_effect_trans [OF object_effects(2)], erule Set_field.IH [OF rangeI])
next
  case (Delete_field i k f)
  from Delete_field.prems show ?case
    by (cases "n = Some 0") (simp, simp, rule hook_effect_trans [OF object_effects(3)], erule Delete_field.IH [OF rangeI])
next
  case (Freeze_object v f)
  from Freeze_object.prems show ?case
    by (cases "n = Some 0") (simp, simp, rule hook_effect_trans [OF object_effects(4)], erule Freeze_object.IH [OF rangeI])
qed (fastforce split: if_splits)+

lemma run_program_uncut: "fst (run_program names w p None as c) \<noteq> None"
  by (induction p arbitrary: as c) (auto simp: one_less_def)

abbreviation effect_of :: "execution_plan \<Rightarrow> compiled_hook \<Rightarrow> request_context \<Rightarrow> request_context \<Rightarrow> bool" where
  "effect_of plan h \<equiv> hook_effect (xp_contextKeys plan) (ch_pluginId h) (ch_writableArtifacts h) (ch_writableContext h)"

lemma program_effect: "run_program names (hook_view plan h) p n as c = (r, d) \<Longrightarrow> effect_of plan h c d"
  using run_program_effect [of names "hook_view plan h" p n as c r d "ch_writableArtifacts h"] by (simp add: hook_view_def)

lemma publish_effect:
  assumes "publishHookArtifacts patch (ch_writableArtifacts h) c = (r, d)"
  shows "effect_of plan h c d"
proof -
  let ?p = "live_patch (px_objects c) patch"
  have "px_artifacts d k = px_artifacts c k" if "k \<notin> set (ch_writableArtifacts h)" for k
  proof (cases "\<exists>ys. traverse (check_hook_artifact (ch_writableArtifacts h) (px_artifacts c)) ?p = Inr ys")
    case True
    then have "\<forall>v. (k, v) \<notin> set ?p"
      using that by (fastforce dest: traverse_each simp: check_hook_artifact_def split: if_splits)
    then show ?thesis
      using assms set_artifacts_other [of k ?p "px_artifacts c"]
      by (auto simp: publishHookArtifacts_def write_artifacts_def split: sum.splits)
  next
    case False
    with assms show ?thesis by (auto simp: publishHookArtifacts_def effects split: sum.splits)
  qed
  moreover have "px_disposed d = px_disposed c" "px_values d = px_values c"
    using assms by (auto simp: publishHookArtifacts_def write_artifacts_def split: sum.splits)
  ultimately show ?thesis using published [of patch "ch_writableArtifacts h" c r d] assms by (auto simp: hook_effect_def)
qed

lemma invoke_effect: "invokeWithDeadline h (hook_view plan h) env c = (r, d) \<Longrightarrow> effect_of plan h c d"
  by (auto simp: invokeWithDeadline_def dest: program_effect split: if_splits prod.splits option.splits sum.splits interrupt.splits)

lemma invoke_and_publish_effect: "invoke_and_publish plan h env c = (r, d) \<Longrightarrow> effect_of plan h c d"
  by (auto simp: invoke_and_publish_def dest: invoke_effect publish_effect [where plan = plan]
      intro: hook_effect_trans split: prod.splits option.splits sum.splits)

lemma hook_applies_effect: "hook_applies plan h env c = (r, d) \<Longrightarrow> effect_of plan h c d"
  by (auto simp: hook_applies_def dest: program_effect split: prod.splits option.splits)

lemma hook_body_effect: "hook_body plan h env c = (r, d) \<Longrightarrow> effect_of plan h c d"
  by (auto simp: hook_body_def dest: invoke_and_publish_effect hook_applies_effect
      intro: hook_effect_trans split: prod.splits sum.splits if_splits bool.splits)


subsection \<open>Sessions in steps\<close>

definition session_ok :: "pipeline_session \<Rightarrow> bool" where
  "session_ok s \<longleftrightarrow>
     distinct (se_executed s) \<and> length (se_facts s) \<le> length (se_executed s) \<and> int (length (se_facts s)) \<le> se_maxFacts s
     \<and> 1 \<le> se_maxFacts s \<and> se_maxFacts s \<le> 1024 \<and> context_ok (se_context s) \<and> se_finished s = px_disposed (se_context s)"

definition session_evolves :: "execution_plan \<Rightarrow> pipeline_session \<Rightarrow> pipeline_session \<Rightarrow> bool" where
  "session_evolves plan s t \<longleftrightarrow>
     context_evolves (xp_contextKeys plan) (se_context s) (se_context t) \<and> prefix (se_facts s) (se_facts t)
     \<and> prefix (se_executed s) (se_executed t) \<and> se_maxFacts t = se_maxFacts s \<and> (se_finished s \<longrightarrow> se_finished t \<and> se_facts t = se_facts s \<and> se_executed t = se_executed s)"

inductive session_step :: "execution_plan \<Rightarrow> pipeline_session \<Rightarrow> pipeline_session \<Rightarrow> bool" for plan where
  execute_hook: "executeHook plan h env s = (r, t) \<Longrightarrow> session_step plan s t"
| publish: "session_publish patch s = (r', t) \<Longrightarrow> session_step plan s t"
| finish: "session_step plan s (finish_session s)"
| mutate: "objects_evolve (px_objects (se_context s)) objs
     \<Longrightarrow> session_step plan s (s\<lparr>se_context := (se_context s)\<lparr>px_objects := objs\<rparr>\<rparr>)"

definition session_start :: "pipeline_session \<Rightarrow> bool" where
  "session_start s \<longleftrightarrow> (\<exists>artifacts objs limit. new_session artifacts objs limit = Inr s)"

lemma context_evolves_artifact:
  assumes "context_evolves registered c d" "\<not> px_disposed c" "\<not> px_disposed d" "px_artifacts c k \<noteq> None"
    "k \<notin> set REPLACEABLE_TRANSFORM_ARTIFACTS"
  shows "px_artifacts d k = px_artifacts c k"
proof -
  obtain v where v: "px_artifacts c k = Some v" using assms(4) by auto
  with assms have "px_artifacts d k = Some v" by (auto simp: context_evolves_def)
  with v show ?thesis by simp
qed

lemma context_evolves_value:
  assumes "context_evolves registered c d" "\<not> px_disposed c" "\<not> px_disposed d" "px_values c k \<noteq> None"
    "registered k = Some key" "ck_mode key = Artifact_mode"
  shows "px_values d k = px_values c k"
proof -
  obtain v where v: "px_values c k = Some v" using assms(4) by auto
  with assms have "px_values d k = Some v" by (auto simp: context_evolves_def)
  with v show ?thesis by simp
qed

lemma hook_effect_frame:
  assumes "hook_effect registered plugin artifacts values c d" "context_ok c"
  shows "k \<notin> set artifacts \<Longrightarrow> px_artifacts d k = px_artifacts c k"
    "\<not> (k \<in> set values \<and> (\<exists>key. registered k = Some key \<and> ck_ownerPluginId key = plugin)) \<Longrightarrow> px_values d k = px_values c k"
  using assms unfolding hook_effect_def by blast+

lemma session_evolves_refl [simp]: "session_evolves plan s s"
  by (simp add: session_evolves_def)

lemma session_evolves_trans: "session_evolves plan s t \<Longrightarrow> session_evolves plan t u \<Longrightarrow> session_evolves plan s u"
  unfolding session_evolves_def by (auto intro: context_evolves_trans prefix_order.trans)

lemma new_request_context_active: "new_request_context artifacts objs = Inr c \<Longrightarrow> \<not> px_disposed c"
  by (auto simp: new_request_context_def Let_def split: if_splits)

lemma session_start_ok: "session_start s \<Longrightarrow> session_ok s"
proof -
  assume "session_start s"
  then obtain artifacts objs limit where run: "new_session artifacts objs limit = Inr s" by (auto simp: session_start_def)
  then obtain c where c: "new_request_context artifacts objs = Inr c" "se_context s = c" "se_facts s = []" "se_executed s = []"
    "\<not> se_finished s" "1 \<le> se_maxFacts s" "se_maxFacts s \<le> 1024"
    by (auto simp: new_session_def effects Let_def split: if_splits)
  then have "\<not> px_disposed c" by (intro new_request_context_active)
  with c new_request_context_ok [OF c(1)] show "session_ok s" by (simp add: session_ok_def)
qed

lemma executeHook_cases:
  assumes "executeHook plan h env s = (r, t)"
  obtains (refused) "t = s" "\<exists>e. r = Inl (Thrown e)"
      "se_finished s \<or> ch_ref h \<in> set (se_executed s) \<or> se_maxFacts s \<le> int (length (se_facts s))"
  | (ran) c out facts where "\<not> se_finished s" "ch_ref h \<notin> set (se_executed s)" "int (length (se_facts s)) < se_maxFacts s"
      "hook_body plan h env (se_context s) = (out, c)"
      "t = s\<lparr>se_executed := se_executed s @ [ch_ref h], se_context := c, se_facts := se_facts s @ facts\<rparr>"
      "facts = [] \<and> r = Inr None \<or> (\<exists>outcome. facts = [fact_of h outcome])"
      "case r of Inl e \<Rightarrow> \<exists>code. e = Hook_execution_error code (ch_pluginId h) (ch_phase h) | Inr _ \<Rightarrow> True"
proof (cases "se_finished s \<or> ch_ref h \<in> set (se_executed s) \<or> se_maxFacts s \<le> int (length (se_facts s))")
  case True
  with assms show thesis by (intro refused) (auto simp: executeHook_def session_finished_def split: if_splits)
next
  case False
  obtain out c where body: "hook_body plan h env (se_context s) = (out, c)" by (cases "hook_body plan h env (se_context s)")
  have error: "\<exists>code. wrap_hook_error h e = Hook_execution_error code (ch_pluginId h) (ch_phase h)" if "out = Inl e" for e
  proof (cases e)
    case (Hook_execution_error code p ph)
    with that body have "p = ch_pluginId h" "ph = ch_phase h"
      by (auto simp: hook_body_def invoke_and_publish_def invokeWithDeadline_def abortError_def hook_error_def thrown_def
          split: if_splits prod.splits sum.splits option.splits interrupt.splits bool.splits)
    with Hook_execution_error show ?thesis by (simp add: wrap_hook_error_def)
  qed (simp_all add: wrap_hook_error_def hook_error_def)
  show thesis
  proof (cases out)
    case (Inl e)
    with False assms body error [OF Inl] show thesis
      by (intro ran [of out c "[fact_of h ''failed'']"])
        (auto simp: executeHook_def record_fact_def Let_def split: if_splits)
  next
    case (Inr x)
    with False assms body show thesis
      by (intro ran [of out c "case x of None \<Rightarrow> [] | Some r \<Rightarrow> [fact_of h (fst r)]"])
        (auto simp: executeHook_def record_fact_def Let_def split: option.splits)
  qed
qed

lemma executeHook_good:
  assumes ok: "session_ok s" and run: "executeHook plan h env s = (r, t)"
  shows "session_ok t" "session_evolves plan s t"
proof -
  show "session_ok t"
    using run
  proof (cases rule: executeHook_cases)
    case (ran c out facts)
    then have "effect_of plan h (se_context s) c" by (intro hook_body_effect)
    then have "context_ok c" "px_disposed c = px_disposed (se_context s)" using ok by (auto simp: hook_effect_def session_ok_def)
    with ok ran show ?thesis by (auto simp: session_ok_def)
  qed (use ok in simp)
  show "session_evolves plan s t"
    using run
  proof (cases rule: executeHook_cases)
    case (ran c out facts)
    then have "effect_of plan h (se_context s) c" by (intro hook_body_effect)
    then have "context_evolves (xp_contextKeys plan) (se_context s) c" using ok by (simp add: hook_effect_def session_ok_def)
    with ran show ?thesis by (simp add: session_evolves_def)
  qed simp
qed

lemma session_publish_good:
  assumes ok: "session_ok s" and run: "session_publish patch s = (r, t)"
  shows "session_ok t" "session_evolves plan s t"
proof -
  obtain r' c where publish: "publishTrustedArtifacts patch (se_context s) = (r', c)"
    by (cases "publishTrustedArtifacts patch (se_context s)")
  have ctx: "context_ok (se_context s)" using ok by (simp add: session_ok_def)
  note good = published [OF disjI2 [OF publish] ctx]
  have t: "t = s \<or> \<not> se_finished s \<and> t = s\<lparr>se_context := c\<rparr>"
    using run publish by (auto simp: session_publish_def session_finished_def split: if_splits)
  then show "session_ok t" using ok good(1,4) by (auto simp: session_ok_def)
  from t good(2) show "session_evolves plan s t" by (auto simp: session_evolves_def)
qed

lemma finish_session_good:
  assumes "session_ok s"
  shows "session_ok (finish_session s)" "session_evolves plan s (finish_session s)"
  using assms
  by (auto simp: session_ok_def finish_session_def dispose_def context_ok_def session_evolves_def context_evolves_def)

lemma session_mutate_good:
  assumes "session_ok s" "objects_evolve (px_objects (se_context s)) objs"
  shows "session_ok (s\<lparr>se_context := (se_context s)\<lparr>px_objects := objs\<rparr>\<rparr>)"
    "session_evolves plan s (s\<lparr>se_context := (se_context s)\<lparr>px_objects := objs\<rparr>\<rparr>)"
  using assms hook_effect_objects [OF assms(2), of "xp_contextKeys plan" plugin artifacts "values"]
  by (auto simp: session_ok_def session_evolves_def hook_effect_def)

lemma session_step_good: "session_step plan s t \<Longrightarrow> session_ok s \<Longrightarrow> session_ok t \<and> session_evolves plan s t"
  by (induction rule: session_step.induct) (auto dest: executeHook_good session_publish_good intro: finish_session_good session_mutate_good)

interpretation pipeline_sessions: evolving_system session_start "session_step plan" session_ok "session_evolves plan" for plan
  by unfold_locales (auto simp: session_start_ok dest: session_step_good intro: session_evolves_trans)

text \<open>The longer methods are runs of these steps.\<close>

lemma execute_hooks_steps: "execute_hooks plan envs hs s = (r, t) \<Longrightarrow> (session_step plan)\<^sup>*\<^sup>* s t"
proof (induction hs arbitrary: s r)
  case (Cons h hs)
  obtain r1 s1 where run: "executeHook plan h (envs (ch_ref h)) s = (r1, s1)" by (cases "executeHook plan h (envs (ch_ref h)) s")
  then have step: "session_step plan s s1" by (rule session_step.execute_hook)
  have "t = s1 \<or> (\<exists>r'. execute_hooks plan envs hs s1 = (r', t))"
    using Cons.prems run by (auto split: sum.splits option.splits if_splits prod.splits)
  with Cons.IH have "(session_step plan)\<^sup>*\<^sup>* s1 t" by auto
  with step show ?case by (rule converse_rtranclp_into_rtranclp)
qed simp

lemma executePhases_steps: "executePhases plan envs ps s = (r, t) \<Longrightarrow> (session_step plan)\<^sup>*\<^sup>* s t"
proof (induction ps arbitrary: s)
  case (Cons p ps)
  obtain r1 s1 where run: "executePhase plan envs p s = (r1, s1)" by (cases "executePhase plan envs p s")
  then have "(session_step plan)\<^sup>*\<^sup>* s s1" by (simp add: executePhase_def execute_hooks_steps)
  moreover have "t = s1 \<or> executePhases plan envs ps s1 = (r, t)" using Cons.prems run by (auto split: sum.splits)
  with Cons.IH have "(session_step plan)\<^sup>*\<^sup>* s1 t" by auto
  ultimately show ?case by (rule rtranclp_trans)
qed simp


subsection \<open>Theorems\<close>

text \<open>
  In every state of a session, whatever hooks are run, artifacts published and whenever it is
  finished: no hook has run twice, the facts are at most one per hook run and within the limit,
  the limit is at most 1024, the original request is there until the session is finished, and then
  the context is empty.
\<close>

lemma session_bounded:
  assumes "session_start s" "(session_step plan)\<^sup>*\<^sup>* s t"
  shows "distinct (se_executed t) \<and> length (se_facts t) \<le> length (se_executed t)
    \<and> int (length (se_facts t)) \<le> se_maxFacts t \<and> se_maxFacts t \<le> 1024
    \<and> (if se_finished t then px_artifacts (se_context t) = Map.empty \<and> px_values (se_context t) = Map.empty
       else px_artifacts (se_context t) ''originalRequest'' \<noteq> None)"
  using pipeline_sessions.reachable_inv [OF assms] by (auto simp: session_ok_def context_ok_def)

text \<open>
  What a session has published stays: until it is finished, the original request and every
  artifact that is not a replaceable transform artifact keep their value, and so does every
  context value under a key of mode \<open>artifact\<close>; the facts recorded are never rewritten.
\<close>

lemma published_artifacts_stay:
  assumes "session_start s" "(session_step plan)\<^sup>*\<^sup>* s t" "(session_step plan)\<^sup>*\<^sup>* t u" "\<not> se_finished u"
  shows "(if k \<in> set REPLACEABLE_TRANSFORM_ARTIFACTS \<or> px_artifacts (se_context t) k = None then True
          else px_artifacts (se_context u) k = px_artifacts (se_context t) k)
    \<and> (case xp_contextKeys plan k of
         None \<Rightarrow> True
       | Some key \<Rightarrow> if ck_mode key = Artifact_mode \<and> px_values (se_context t) k \<noteq> None
                     then px_values (se_context u) k = px_values (se_context t) k else True)
    \<and> prefix (se_facts t) (se_facts u)"
proof -
  have evolved: "session_evolves plan t u" using assms(1-3) by (rule pipeline_sessions.reachable_evolve)
  have "session_ok u" using pipeline_sessions.reachable_inv [OF assms(1) rtranclp_trans [OF assms(2,3)]] .
  with assms(4) have live: "\<not> px_disposed (se_context u)" by (simp add: session_ok_def)
  then have "\<not> px_disposed (se_context t)"
    using evolved by (auto simp: session_evolves_def context_evolves_def split: if_splits)
  with evolved live have kept: "context_evolves (xp_contextKeys plan) (se_context t) (se_context u)"
    "\<not> px_disposed (se_context t)" "\<not> px_disposed (se_context u)" "prefix (se_facts t) (se_facts u)"
    by (simp_all add: session_evolves_def)
  show ?thesis
    using context_evolves_artifact [OF kept(1-3), of k] context_evolves_value [OF kept(1-3), of k] kept(4)
    by (auto split: option.splits)
qed

text \<open>
  C32: running a hook is confined. It binds only artifacts the hook may write and context values under
  keys the hook may write and its plugin owns, and the object that an artifact or a context value was
  bound to keeps its own properties, whatever the hook does, times out or throws; it records at most one
  fact, about this hook; and an error of the hook names its plugin and phase. What is nested in those
  objects is not protected: publishing freezes an object and not the objects it refers to.
\<close>

theorem hook_confined:
  assumes "session_start s0" "(session_step plan)\<^sup>*\<^sup>* s0 s" "executeHook plan h env s = (r, t)"
  shows "(if k \<in> set (ch_writableArtifacts h) then True else px_artifacts (se_context t) k = px_artifacts (se_context s) k)
    \<and> (if k \<in> set (ch_writableContext h) \<and> (\<exists>key. xp_contextKeys plan k = Some key \<and> ck_ownerPluginId key = ch_pluginId h)
       then True else px_values (se_context t) k = px_values (se_context s) k)
    \<and> bound_object (se_context t) (px_artifacts (se_context s) k) = bound_object (se_context s) (px_artifacts (se_context s) k)
    \<and> bound_object (se_context t) (px_values (se_context s) k) = bound_object (se_context s) (px_values (se_context s) k)
    \<and> (se_facts t = se_facts s \<or> (\<exists>outcome. se_facts t = se_facts s @ [fact_of h outcome]))
    \<and> (case r of
         Inl (Hook_execution_error _ plugin phase) \<Rightarrow> plugin = ch_pluginId h \<and> phase = ch_phase h \<and> \<not> se_finished s
       | Inl (Thrown _) \<Rightarrow> t = s
       | Inl (Guard_denied_error _ _) \<Rightarrow> False
       | Inr _ \<Rightarrow> se_executed t = se_executed s @ [ch_ref h])"
proof -
  have ok: "session_ok s" using assms(1,2) by (rule pipeline_sessions.reachable_inv)
  show ?thesis
    using assms(3)
  proof (cases rule: executeHook_cases)
    case refused
    then show ?thesis by auto
  next
    case (ran c out facts)
    then have effect: "effect_of plan h (se_context s) c" by (intro hook_body_effect)
    then have "(if k \<in> set (ch_writableArtifacts h) then True else px_artifacts c k = px_artifacts (se_context s) k)"
      "(if k \<in> set (ch_writableContext h) \<and> (\<exists>key. xp_contextKeys plan k = Some key \<and> ck_ownerPluginId key = ch_pluginId h)
       then True else px_values c k = px_values (se_context s) k)"
      using hook_effect_frame ok by (auto simp: session_ok_def)
    moreover have "context_ok (se_context s)" "objects_evolve (px_objects (se_context s)) (px_objects c)"
      using ok effect by (simp_all add: session_ok_def hook_effect_def context_evolves_def)
    note bound_object_stays [OF this, of k]
    ultimately show ?thesis using ran by (auto split: sum.splits)
  qed
qed

text \<open>
  A request always ends: after the callback of \<open>withPipelineRequest\<close>, and after a wrapped stream
  ends, fails, is cancelled or is thrown into, the session is finished with an empty context, and
  every later method of it throws or does nothing.
\<close>

lemma request_always_finished:
  "(case snd (withPipelineRequest artifacts objs limit callback) of None \<Rightarrow> True | Some s \<Rightarrow> se_finished s)
   \<and> se_finished (snd (stream_cancel r s)) \<and> se_finished (snd (stream_pull Ends s)) \<and> se_finished (snd (stream_pull (Fails e) s))
   \<and> se_finished (snd (snd (iterator_throw e up1 up2 (False, s)))) \<and> se_finished (snd (snd (iterator_return up1 (False, s))))
   \<and> se_finished (snd (snd (iterator_next Ends (False, s))))
   \<and> finish_session (finish_session s) = finish_session s
   \<and> executeHook plan h env (finish_session s) = session_finished (finish_session s)
   \<and> session_publish patch (finish_session s) = session_finished (finish_session s)"
  by (auto simp: withPipelineRequest_def stream_cancel_def stream_pull_def iterator_throw_def iterator_return_def
      iterator_next_def finish_session_def executeHook_def session_publish_def split: sum.splits prod.splits)

subsection \<open>A session\<close>

definition example_key :: context_key where
  "example_key = \<lparr>ck_object = 1, ck_id = ''p:note'', ck_ownerPluginId = ''p'', ck_visibility = Private_key, ck_mode = Artifact_mode\<rparr>"

text \<open>
  The request is an object with a nested body. The hook is refused a write to the request, which is
  frozen, and writes to the body, which is not.
\<close>

definition example_objects :: objects where
  "example_objects = [\<lparr>ob_array = False, ob_fields = [(''body'', VRef 1)], ob_frozen = False\<rparr>,
     \<lparr>ob_array = False, ob_fields = [(''model'', VStr ''a'')], ob_frozen = False\<rparr>]"

definition example_program :: "slot hook_program" where
  "example_program =
     Set_context example_key VNull (\<lambda>_. Get_artifact ''originalRequest'' (\<lambda>request.
       case request of
         Inr (VRef r) \<Rightarrow>
           Set_field r ''body'' VNull (\<lambda>refused. Get_field r ''body'' (\<lambda>body.
             case (refused, body) of
               (Inl _, VRef b) \<Rightarrow>
                 Set_field b ''model'' (VStr ''b'') (\<lambda>_. New_object False (\<lambda>patch. New_object False (\<lambda>result.
                   case (patch, result) of
                     (VRef p, VRef q) \<Rightarrow>
                       Set_field p ''usage'' (VBool True) (\<lambda>_. Set_field q ''outcome'' (VStr ''applied'') (\<lambda>_.
                         Set_field q ''artifacts'' patch (\<lambda>_. Finish result)))
                   | _ \<Rightarrow> Raise (PlainError ''object''))))
             | _ \<Rightarrow> Raise (PlainError ''not frozen'')))
       | _ \<Rightarrow> Raise (PlainError ''request'')))"

definition example_hook :: compiled_hook where
  "example_hook = \<lparr>ch_ref = ''p/h'', ch_pluginId = ''p'', ch_behaviorVersion = 1, ch_phase = Usage_measure, ch_kind = Contribute_hook,
     ch_bestEffort = False, ch_timeoutMs = None, ch_instanceRevision = ''r1'', ch_config = JNull, ch_ports = [],
     ch_readableArtifacts = [''originalRequest''], ch_writableArtifacts = [''usage''], ch_readableContext = [''p:note''],
     ch_requiredContext = [], ch_writableContext = [''p:note''], ch_isApplicable = None, ch_run = (\<lambda>_. example_program)\<rparr>"

definition example_execution_plan :: execution_plan where
  "example_execution_plan = \<lparr>xp_kernelApiVersion = 1, xp_planRevision = ''ppr'', xp_settingsRevision = ''s'', xp_applicabilityCacheKey = ''c'',
     xp_hooksByPhase = (\<lambda>p. if p = Usage_measure then [example_hook] else []), xp_requestHooks = [], xp_responseHooks = [example_hook],
     xp_streamHooks = [], xp_contextKeys = [''p:note'' \<mapsto> example_key]\<rparr>"

definition example_env :: hook_env where
  "example_env = \<lparr>he_aborted = False, he_syncAnswers = [], he_answers = [], he_cut = None\<rparr>"

definition example_session :: pipeline_session where
  "example_session = (case new_session [(''originalRequest'', VRef 0)] example_objects None of Inr s \<Rightarrow> s)"

definition example_measured :: pipeline_session where
  "example_measured = snd (executeHook example_execution_plan example_hook example_env example_session)"

lemma example_session_start: "session_start example_session"
proof -
  have "case new_session [(''originalRequest'', VRef 0)] example_objects None of Inl _ \<Rightarrow> False | Inr _ \<Rightarrow> True" by code_simp
  then have "new_session [(''originalRequest'', VRef 0)] example_objects None = Inr example_session"
    by (auto simp: example_session_def split: sum.splits)
  then show ?thesis by (auto simp: session_start_def)
qed

definition example_outcome :: "pipeline_error + hook_result option" where
  "example_outcome = fst (executeHook example_execution_plan example_hook example_env example_session)"

lemma example_execute: "executeHook example_execution_plan example_hook example_env example_session = (example_outcome, example_measured)"
  by (simp add: example_outcome_def example_measured_def)

lemma example_applied: "example_outcome = Inr (Some (''applied'', Some [(''usage'', VBool True)]))"
  by code_simp

lemma example_session_run: "(session_step example_execution_plan)\<^sup>*\<^sup>* example_session example_measured"
  using session_step.execute_hook [OF example_execute] by (rule r_into_rtranclp)

lemma session_bounded_example:
  "distinct (se_executed example_measured) \<and> length (se_facts example_measured) \<le> length (se_executed example_measured)"
  using session_bounded [OF example_session_start example_session_run] by simp

lemma published_artifacts_stay_example:
  "px_artifacts (se_context example_measured) ''originalRequest'' = Some (VRef 0)"
proof -
  have "px_artifacts (se_context example_session) ''originalRequest'' = Some (VRef 0)" "\<not> se_finished example_measured" by code_simp+
  with published_artifacts_stay [OF example_session_start rtranclp.rtrancl_refl example_session_run, of "''originalRequest''"]
  show ?thesis by (simp add: REPLACEABLE_TRANSFORM_ARTIFACTS_def)
qed

text \<open>The witness also shows the limit of the confinement: the nested body has changed.\<close>

theorem hook_confined_witness:
  "px_artifacts (se_context example_measured) ''originalRequest'' = Some (VRef 0)
   \<and> bound_object (se_context example_measured) (Some (VRef 0)) = Some \<lparr>ob_array = False, ob_fields = [(''body'', VRef 1)], ob_frozen = True\<rparr>
   \<and> get_field (px_objects (se_context example_session)) 1 ''model'' = VStr ''a''
   \<and> get_field (px_objects (se_context example_measured)) 1 ''model'' = VStr ''b''"
proof -
  have before: "px_artifacts (se_context example_session) ''originalRequest'' = Some (VRef 0)"
    "bound_object (se_context example_session) (Some (VRef 0)) = Some \<lparr>ob_array = False, ob_fields = [(''body'', VRef 1)], ob_frozen = True\<rparr>"
    "''originalRequest'' \<notin> set (ch_writableArtifacts example_hook)"
    by code_simp+
  have nested: "get_field (px_objects (se_context example_session)) 1 ''model'' = VStr ''a''"
    "get_field (px_objects (se_context example_measured)) 1 ''model'' = VStr ''b''"
    by code_simp+
  from hook_confined [OF example_session_start rtranclp.rtrancl_refl example_execute, of "''originalRequest''"] before nested
  show ?thesis by simp
qed

end
