(* ===== verification/Pipeline_Compiler.thy ===== *)
theory Pipeline_Compiler
  imports Pipeline_Kernel Js_Json
begin

section \<open>The execution plan compiler\<close>

text \<open>
  \<open>packages/gateway/src/pipeline/compiler.ts\<close>: validation of plugins and settings, the nodes and edges
  of the hook graph, the topological order of each phase and the compiled plan. The functions of a
  plugin (\<open>parse\<close>, \<open>isApplicable\<close>, \<open>run\<close>) are fields of its record; \<open>lc\<close> is \<open>localeCompare\<close> and
  \<open>sha256\<close> the hex digest of a text, both parameters. The node objects of the code keep their \<open>edges\<close>
  sets; here the sets stand beside the nodes, as a function of the reference of the node.
  \<open>deepFreezeJson\<close> sees trees: two members that are one object cannot be told from two equal ones.
\<close>

subsection \<open>Loops that may throw\<close>

fun checks :: "unit result list \<Rightarrow> unit result" where
  "checks [] = Inr ()"
| "checks (r # rs) = rbind r (\<lambda>_. checks rs)"

lemma checks_Inr_iff [effects]: "checks rs = Inr u \<longleftrightarrow> (\<forall>r \<in> set rs. r = Inr ())"
  by (induction rs) (auto simp: effects)

text \<open>What each iteration keeps, and what one iteration establishes and the later ones keep.\<close>

lemma rfold_keeps:
  assumes "rfold f xs s = Inr t" "P s" "\<And>x s t. x \<in> set xs \<Longrightarrow> P s \<Longrightarrow> f x s = Inr t \<Longrightarrow> P t"
  shows "P t"
  using assms
proof (induction xs arbitrary: s)
  case (Cons x xs)
  from Cons.prems(1) obtain u where u: "f x s = Inr u" "rfold f xs u = Inr t" by (auto simp: effects)
  have "P u" by (rule Cons.prems(3) [OF _ Cons.prems(2) u(1)]) simp
  show ?case by (rule Cons.IH [OF u(2) \<open>P u\<close>]) (rule Cons.prems(3) [OF list.set_intros(2)])
qed simp

lemma rfold_establishes:
  assumes "rfold f xs s = Inr t" "x \<in> set xs" "\<And>s t. f x s = Inr t \<Longrightarrow> P t"
    "\<And>y s t. y \<in> set xs \<Longrightarrow> P s \<Longrightarrow> f y s = Inr t \<Longrightarrow> P t"
  shows "P t"
  using assms
proof (induction xs arbitrary: s)
  case (Cons y ys)
  from Cons.prems(1) obtain u where u: "f y s = Inr u" "rfold f ys u = Inr t" by (auto simp: effects)
  show ?case
  proof (cases "x = y")
    case True
    have "P u" by (rule Cons.prems(3) [of s]) (simp add: True u(1))
    show ?thesis by (rule rfold_keeps [of f ys u t P, OF u(2) \<open>P u\<close>]) (rule Cons.prems(4) [OF list.set_intros(2)])
  next
    case False
    with Cons.prems(2) have "x \<in> set ys" by simp
    then show ?thesis by (rule Cons.IH [OF u(2) _ Cons.prems(3)]) (assumption, rule Cons.prems(4) [OF list.set_intros(2)])
  qed
qed simp

text \<open>A \<open>Set\<close> in insertion order.\<close>

definition set_add :: "'a \<Rightarrow> 'a list \<Rightarrow> 'a list" where
  "set_add x xs = (if x \<in> set xs then xs else xs @ [x])"

definition set_of_list :: "'a list \<Rightarrow> 'a list" where
  "set_of_list xs = fold set_add xs []"

lemma set_set_add [simp]: "set (set_add x xs) = insert x (set xs)"
  by (auto simp: set_add_def)

lemma distinct_set_add [simp]: "distinct (set_add x xs) = distinct xs"
  by (auto simp: set_add_def)

lemma set_fold_set_add: "set (fold set_add xs ys) = set xs \<union> set ys"
  by (induction xs arbitrary: ys) auto

lemma set_set_of_list [simp]: "set (set_of_list xs) = set xs"
  by (simp add: set_of_list_def set_fold_set_add)

subsection \<open>Patterns\<close>

definition is_lower_alnum :: "char \<Rightarrow> bool" where
  "is_lower_alnum c \<longleftrightarrow> is_lower_char c \<or> is_digit_char c"

text \<open>\<open>/^[a-z0-9]+(?:-[a-z0-9]+)*$/\<close>: the flag says whether a segment may end here.\<close>

fun id_segments :: "bool \<Rightarrow> string \<Rightarrow> bool" where
  "id_segments may_end [] = may_end"
| "id_segments may_end (c # cs) =
     (if is_lower_alnum c then id_segments True cs else c = CHR ''-'' \<and> may_end \<and> id_segments False cs)"

definition ID_PATTERN :: "string \<Rightarrow> bool" where
  "ID_PATTERN s = id_segments False s"

definition TOKEN_PATTERN :: "string \<Rightarrow> bool" where
  "TOKEN_PATTERN s =
     (case split_first (CHR '':'') s of
        None \<Rightarrow> False
      | Some (u, v) \<Rightarrow>
          matches_head_tail is_lower_char (\<lambda>c. is_lower_alnum c \<or> c \<in> set ''.-'') (length u) u
          \<and> matches_head_tail is_lower_alnum (\<lambda>c. is_lower_alnum c \<or> c \<in> set ''._-'') (length v) v)"

definition REVISION_PATTERN :: "string \<Rightarrow> bool" where
  "REVISION_PATTERN s = matches_class (\<lambda>c. is_alnum_char c \<or> c \<in> set ''._:-'') 1 128 s"

lemma ID_PATTERN_no_slash: "ID_PATTERN s \<Longrightarrow> CHR ''/'' \<notin> set s"
proof -
  have "id_segments b s \<Longrightarrow> CHR ''/'' \<notin> set s" for b
    by (induction b s rule: id_segments.induct) (auto simp: is_lower_alnum_def char_class_defs split: if_splits)
  then show "ID_PATTERN s \<Longrightarrow> CHR ''/'' \<notin> set s" by (auto simp: ID_PATTERN_def)
qed

subsection \<open>Plugins\<close>

record plugin_hook =
  ph_id :: string
  ph_phase :: string
  ph_kind :: hook_kind
  ph_requires :: "string list"
  ph_provides :: "string list"
  ph_readsArtifacts :: jsval
  ph_writesArtifacts :: jsval
  ph_requiresContext :: "context_key list"
  ph_providesContext :: "context_key list"
  ph_before :: "string list"
  ph_after :: "string list"
  ph_bestEffort :: bool
  ph_timeoutMs :: "jsnum option"
  ph_isApplicable :: "(jsval \<Rightarrow> bool hook_program) option"
  ph_run :: "jsval \<Rightarrow> slot hook_program"

datatype plugin_availability = Required_plugin | Optional_plugin

record plugin_manifest =
  mf_id :: string
  mf_desc :: string
  mf_apiVersion :: jsnum
  mf_behaviorVersion :: jsnum
  mf_configVersion :: jsnum
  mf_availability :: plugin_availability
  mf_userConfigurable :: bool
  mf_userToggleable :: bool
  mf_permissions :: "string list"
  mf_requires :: "string list"
  mf_provides :: "string list"

record pipeline_plugin =
  pg_manifest :: plugin_manifest
  pg_defaultConfig :: jsval
  pg_parse :: "jsval \<Rightarrow> jsval result"
  pg_configUi :: "jsval list"
  pg_contextKeys :: "context_key list"
  pg_hooks :: "plugin_hook list"
  pg_isApplicable :: "(jsval \<Rightarrow> bool result) option"

text \<open>A setting has its own keys beside the declared fields, since the code checks them.\<close>

record plugin_setting =
  st_keys :: "string list"
  st_pluginId :: string
  st_enabled :: jsval
  st_config :: jsval
  st_instanceRevision :: string

record compiler_input =
  ci_kernelApiVersion :: jsnum
  ci_plugins :: "pipeline_plugin list"
  ci_settingsRevision :: string
  ci_settings :: "plugin_setting list"
  ci_cacheKey :: string
  ci_facts :: jsval
  ci_availableCapabilities :: "string list"
  ci_singletonCapabilities :: "string list"
  ci_availablePorts :: "string \<Rightarrow> jsval option"

abbreviation plugin_id :: "pipeline_plugin \<Rightarrow> string" where
  "plugin_id p \<equiv> mf_id (pg_manifest p)"

definition known_phase :: "string \<Rightarrow> bool" where
  "known_phase s \<longleftrightarrow> s \<in> set (map phase_text PIPELINE_PHASES)"

text \<open>\<open>PHASE_INDEX.get\<close>, on a known phase.\<close>

definition phase_rank :: "string \<Rightarrow> nat" where
  "phase_rank s = length (takeWhile (\<lambda>p. phase_text p \<noteq> s) PIPELINE_PHASES)"

subsection \<open>Validation\<close>

text \<open>The integer a valid version stands for.\<close>

definition version_int :: "jsnum \<Rightarrow> int" where
  "version_int v = (case safe_int_of (JNum v) of Some n \<Rightarrow> n | None \<Rightarrow> 0)"

definition assertIntegerVersion :: "jsnum \<Rightarrow> unit result" where
  "assertIntegerVersion v =
     (case safe_int_of (JNum v) of
        None \<Rightarrow> plain ''must be a positive integer''
      | Some n \<Rightarrow> require (1 \<le> n) (PlainError ''must be a positive integer''))"

fun assert_tokens :: "string list \<Rightarrow> string list \<Rightarrow> unit result" where
  "assert_tokens seen [] = Inr ()"
| "assert_tokens seen (v # vs) =
     (if \<not> TOKEN_PATTERN v then plain ''Invalid token''
      else if v \<in> set seen then plain ''Duplicate token''
      else assert_tokens (v # seen) vs)"

definition assertTokenList :: "string list \<Rightarrow> unit result" where
  "assertTokenList vs = assert_tokens [] vs"

fun assert_artifacts :: "bool \<Rightarrow> string list \<Rightarrow> jsval list \<Rightarrow> unit result" where
  "assert_artifacts allowOriginal seen [] = Inr ()"
| "assert_artifacts allowOriginal seen (v # vs) =
     (case v of
        JStr k \<Rightarrow>
          if k \<notin> set PIPELINE_ARTIFACT_NAMES then plain ''Invalid artifact''
          else if \<not> allowOriginal \<and> k = ''originalRequest'' then plain ''cannot include originalRequest''
          else if k \<in> set seen then plain ''Duplicate artifact''
          else assert_artifacts allowOriginal (k # seen) vs
      | _ \<Rightarrow> plain ''Invalid artifact'')"

definition assertArtifactList :: "jsval \<Rightarrow> bool \<Rightarrow> unit result" where
  "assertArtifactList values allowOriginal =
     (case values of
        JArr vs \<Rightarrow> assert_artifacts allowOriginal [] vs
      | _ \<Rightarrow> plain ''must be an explicit artifact allowlist'')"

fun deepFreezeJson :: "jsval \<Rightarrow> unit result" where
  "deepFreezeJson JNull = Inr ()"
| "deepFreezeJson (JStr s) = Inr ()"
| "deepFreezeJson (JBool b) = Inr ()"
| "deepFreezeJson (JNum n) = (case n of JFin q \<Rightarrow> Inr () | _ \<Rightarrow> plain ''must contain finite JSON numbers'')"
| "deepFreezeJson (JArr vs) = checks (map deepFreezeJson vs)"
| "deepFreezeJson (JObj kvs) = checks (map (\<lambda>kv. deepFreezeJson (snd kv)) kvs)"
| "deepFreezeJson JUndefined = plain ''must contain JSON data only''"

fun check_context_keys :: "string \<Rightarrow> string list \<Rightarrow> context_key list \<Rightarrow> unit result" where
  "check_context_keys pid seen [] = Inr ()"
| "check_context_keys pid seen (key # keys) =
     (if ck_ownerPluginId key \<noteq> pid \<or> \<not> prefix (pid @ '':'') (ck_id key) \<or> \<not> TOKEN_PATTERN (ck_id key)
      then plain ''Invalid context key ownership''
      else rbind (assertSafeContextKey key) (\<lambda>_.
        if ck_id key \<in> set seen then plain ''Duplicate context key''
        else check_context_keys pid (ck_id key # seen) keys))"

definition valid_timeout :: "jsnum option \<Rightarrow> bool" where
  "valid_timeout t =
     (case t of
        None \<Rightarrow> True
      | Some n \<Rightarrow> (case safe_int_of (JNum n) of None \<Rightarrow> False | Some i \<Rightarrow> 1 \<le> i \<and> i \<le> 120000))"

definition check_hook :: "plugin_manifest \<Rightarrow> string list \<Rightarrow> string list \<Rightarrow> plugin_hook \<Rightarrow> unit result" where
  "check_hook m keyIds seen h =
     checks
       ([require (ID_PATTERN (ph_id h)) (PlainError ''Invalid hook ID''),
         require (ph_id h \<notin> set seen) (PlainError ''Duplicate hook ID''),
         require (known_phase (ph_phase h)) (PlainError ''Unknown pipeline phase''),
         require (ph_bestEffort h \<longrightarrow> ph_kind h = Observe_hook) (PlainError ''Only observe hooks may be best-effort''),
         require (valid_timeout (ph_timeoutMs h)) (PlainError ''Invalid hook timeout''),
         assertTokenList (ph_requires h), assertTokenList (ph_provides h),
         assertArtifactList (ph_readsArtifacts h) True, assertArtifactList (ph_writesArtifacts h) False]
        @ map (\<lambda>t. require (t \<in> set (mf_requires m)) (PlainError ''Hook requires undeclared manifest capability'')) (ph_requires h)
        @ map (\<lambda>t. require (t \<in> set (mf_provides m)) (PlainError ''Hook provides undeclared manifest capability'')) (ph_provides h)
        @ map (\<lambda>key. require (ck_id key \<in> set keyIds \<and> ck_ownerPluginId key = mf_id m)
                        (PlainError ''Hook provides undeclared context key'')) (ph_providesContext h))"

fun check_hooks :: "plugin_manifest \<Rightarrow> string list \<Rightarrow> string list \<Rightarrow> plugin_hook list \<Rightarrow> unit result" where
  "check_hooks m keyIds seen [] = Inr ()"
| "check_hooks m keyIds seen (h # hs) =
     rbind (check_hook m keyIds seen h) (\<lambda>_. check_hooks m keyIds (ph_id h # seen) hs)"

definition validatePlugin :: "pipeline_plugin \<Rightarrow> jsnum \<Rightarrow> unit result" where
  "validatePlugin p kernelApiVersion =
     (let m = pg_manifest p in
      checks
        [require (ID_PATTERN (mf_id m)) (PlainError ''Invalid pipeline plugin ID''),
         require (js_trim (mf_desc m) \<noteq> []) (PlainError ''must have a description''),
         assertIntegerVersion (mf_apiVersion m), assertIntegerVersion (mf_behaviorVersion m), assertIntegerVersion (mf_configVersion m),
         require (mf_apiVersion m = kernelApiVersion) (PlainError ''requires another kernel API''),
         require (\<not> (mf_availability m = Required_plugin \<and> mf_userToggleable m)) (PlainError ''Required plugin cannot be user-toggleable''),
         require (\<not> (\<not> mf_userConfigurable m \<and> pg_configUi p \<noteq> [])) (PlainError ''Non-configurable plugin cannot declare config UI''),
         assertTokenList (mf_permissions m), assertTokenList (mf_requires m), assertTokenList (mf_provides m),
         require (pg_hooks p \<noteq> []) (PlainError ''must declare at least one hook''),
         check_context_keys (mf_id m) [] (pg_contextKeys p),
         check_hooks m (map ck_id (pg_contextKeys p)) [] (pg_hooks p),
         rbind (pg_parse p (pg_defaultConfig p)) deepFreezeJson])"

definition add_context_id :: "context_key \<Rightarrow> string list \<Rightarrow> string list result" where
  "add_context_id key ids = (if ck_id key \<in> set ids then plain ''Duplicate pipeline context key'' else Inr (ids @ [ck_id key]))"

definition register_plugin :: "jsnum \<Rightarrow> pipeline_plugin \<Rightarrow> pipeline_plugin list \<times> string list \<Rightarrow> (pipeline_plugin list \<times> string list) result" where
  "register_plugin kernelApiVersion p = (\<lambda>(plugins, keyIds).
     rbind (validatePlugin p kernelApiVersion) (\<lambda>_.
       if plugin_id p \<in> set (map mf_id (map pg_manifest plugins)) then plain ''Duplicate pipeline plugin ID''
       else rbind (rfold add_context_id (pg_contextKeys p) keyIds) (\<lambda>keyIds'. Inr (plugins @ [p], keyIds'))))"

definition createPipelineRegistry :: "pipeline_plugin list \<Rightarrow> jsnum \<Rightarrow> pipeline_plugin list result" where
  "createPipelineRegistry plugins kernelApiVersion =
     rbind (rfold (register_plugin kernelApiVersion) plugins ([], [])) (\<lambda>s. Inr (fst s))"


subsection \<open>Settings and active plugins\<close>

definition ALLOWED_SETTING_KEYS :: "string list" where
  "ALLOWED_SETTING_KEYS = [''pluginId'', ''enabled'', ''config'', ''instanceRevision'']"

definition validateSetting :: "plugin_setting \<Rightarrow> unit result" where
  "validateSetting st =
     checks
       (map (\<lambda>k. require (k \<in> set ALLOWED_SETTING_KEYS) (PlainError ''Unknown pipeline setting field'')) (st_keys st)
        @ [require (ID_PATTERN (st_pluginId st)) (PlainError ''Invalid setting plugin ID''),
           require (\<exists>b. st_enabled st = JBool b) (PlainError ''Setting enabled must be boolean''),
           require (REVISION_PATTERN (st_instanceRevision st)) (PlainError ''Invalid instance revision'')])"

definition add_setting :: "pipeline_plugin list \<Rightarrow> plugin_setting \<Rightarrow> plugin_setting list \<Rightarrow> plugin_setting list result" where
  "add_setting plugins st settings =
     rbind (validateSetting st) (\<lambda>_.
       if st_pluginId st \<notin> set (map plugin_id plugins) then plain ''Unknown pipeline plugin setting''
       else if st_pluginId st \<in> set (map st_pluginId settings) then plain ''Duplicate pipeline plugin setting''
       else Inr (settings @ [st]))"

definition setting_of :: "plugin_setting list \<Rightarrow> string \<Rightarrow> plugin_setting option" where
  "setting_of settings pid = find (\<lambda>st. st_pluginId st = pid) settings"

record active_plugin =
  ac_plugin :: pipeline_plugin
  ac_setting :: "plugin_setting option"
  ac_config :: jsval

text \<open>\<open>setting?.config\<close>, and \<open>setting?.config ?? defaultConfig\<close>.\<close>

definition setting_config :: "plugin_setting option \<Rightarrow> jsval" where
  "setting_config st = (case st of None \<Rightarrow> JUndefined | Some s \<Rightarrow> st_config s)"

definition config_or_default :: "plugin_setting option \<Rightarrow> pipeline_plugin \<Rightarrow> jsval" where
  "config_or_default st p =
     (if setting_config st = JUndefined \<or> setting_config st = JNull then pg_defaultConfig p else setting_config st)"

text \<open>One iteration of the loop over the plugins: no plugin, or the active one.\<close>

definition activate :: "jsval \<Rightarrow> plugin_setting list \<Rightarrow> pipeline_plugin \<Rightarrow> active_plugin list result" where
  "activate facts settings p =
     (let st = setting_of settings (plugin_id p);
          alwaysEnabled = (mf_availability (pg_manifest p) = Required_plugin \<or> \<not> mf_userToggleable (pg_manifest p));
          enabled = map_option st_enabled st
      in if alwaysEnabled \<and> enabled = Some (JBool False) then plain ''cannot be disabled''
         else if \<not> (alwaysEnabled \<or> enabled = Some (JBool True)) then Inr []
         else rbind (case pg_isApplicable p of None \<Rightarrow> Inr True | Some f \<Rightarrow> f facts) (\<lambda>applicable.
           if \<not> applicable then Inr []
           else if \<not> mf_userConfigurable (pg_manifest p) \<and> setting_config st \<noteq> JUndefined then plain ''is not user-configurable''
           else rbind (pg_parse p (config_or_default st p)) (\<lambda>config.
                rbind (deepFreezeJson config) (\<lambda>_.
                  Inr [\<lparr>ac_plugin = p, ac_setting = st, ac_config = config\<rparr>]))))"

definition active_plugins :: "compiler_input \<Rightarrow> pipeline_plugin list \<Rightarrow> active_plugin list result" where
  "active_plugins inp plugins =
     rbind (rfold (add_setting plugins) (ci_settings inp) []) (\<lambda>settings.
     rbind (traverse (activate (ci_facts inp) settings) plugins) (\<lambda>xs. Inr (concat xs)))"

subsection \<open>Nodes\<close>

record hook_node =
  hn_ref :: string
  hn_plugin :: pipeline_plugin
  hn_hook :: plugin_hook
  hn_setting :: "plugin_setting option"
  hn_config :: jsval

definition node_of :: "active_plugin \<Rightarrow> plugin_hook \<Rightarrow> hook_node" where
  "node_of a h = \<lparr>hn_ref = plugin_id (ac_plugin a) @ ''/'' @ ph_id h, hn_plugin = ac_plugin a, hn_hook = h,
     hn_setting = ac_setting a, hn_config = ac_config a\<rparr>"

text \<open>The values of the map \<open>nodes\<close>, in insertion order; the references are distinct (below).\<close>

definition nodes_of :: "active_plugin list \<Rightarrow> hook_node list" where
  "nodes_of active = concat (map (\<lambda>a. map (node_of a) (pg_hooks (ac_plugin a))) active)"

abbreviation node_phase :: "hook_node \<Rightarrow> string" where
  "node_phase n \<equiv> ph_phase (hn_hook n)"

abbreviation node_rank :: "hook_node \<Rightarrow> nat" where
  "node_rank n \<equiv> phase_rank (node_phase n)"

abbreviation node_plugin_id :: "hook_node \<Rightarrow> string" where
  "node_plugin_id n \<equiv> plugin_id (hn_plugin n)"

type_synonym providers = "string \<Rightarrow> hook_node list"

type_synonym edges = "string \<Rightarrow> string list"

definition add_provider :: "string list \<Rightarrow> hook_node \<Rightarrow> string \<Rightarrow> providers \<Rightarrow> providers result" where
  "add_provider singleton n token P =
     (if token \<in> set singleton \<and> P token \<noteq> [] then plain ''Duplicate singleton capability provider''
      else Inr (P(token := P token @ [n])))"

definition capability_providers :: "string list \<Rightarrow> hook_node list \<Rightarrow> providers result" where
  "capability_providers singleton ns =
     rfold (\<lambda>n. rfold (add_provider singleton n) (ph_provides (hn_hook n))) ns (\<lambda>_. [])"

subsection \<open>Edges\<close>

definition add_edge :: "string \<Rightarrow> string \<Rightarrow> edges \<Rightarrow> edges" where
  "add_edge a b E = E(a := set_add b (E a))"

definition resolveReference :: "string \<Rightarrow> hook_node \<Rightarrow> hook_node list \<Rightarrow> string result" where
  "resolveReference reference n ns =
     (if CHR ''/'' \<in> set reference
      then if reference \<in> set (map hn_ref ns) then Inr reference else plain ''Missing hook order dependency''
      else case filter (\<lambda>c. node_plugin_id c = reference \<and> node_phase c = node_phase n) ns of
             [m] \<Rightarrow> Inr (hn_ref m)
           | _ \<Rightarrow> plain ''Hook order dependency is missing or ambiguous'')"

definition node_at :: "hook_node list \<Rightarrow> string \<Rightarrow> hook_node option" where
  "node_at ns r = find (\<lambda>m. hn_ref m = r) ns"

definition link_producer :: "hook_node \<Rightarrow> hook_node \<Rightarrow> edges \<Rightarrow> edges result" where
  "link_producer n producer E =
     (if node_rank producer > node_rank n then plain ''Capability is produced after its consumer''
      else Inr (if node_rank producer = node_rank n \<and> hn_ref producer \<noteq> hn_ref n
                then add_edge (hn_ref producer) (hn_ref n) E else E))"

definition link_capability :: "string list \<Rightarrow> providers \<Rightarrow> hook_node \<Rightarrow> string \<Rightarrow> edges \<Rightarrow> edges result" where
  "link_capability externallyAvailable P n token E =
     (if P token = []
      then if token \<in> set externallyAvailable then Inr E else plain ''Missing capability''
      else rfold (link_producer n) (P token) E)"

definition resolve_in_phase :: "hook_node list \<Rightarrow> hook_node \<Rightarrow> string \<Rightarrow> string result" where
  "resolve_in_phase ns n reference =
     rbind (resolveReference reference n ns) (\<lambda>target.
       case node_at ns target of
         None \<Rightarrow> plain ''TypeError''
       | Some m \<Rightarrow> if node_phase m \<noteq> node_phase n then plain ''before/after dependencies must stay within phase'' else Inr target)"

definition link_before :: "hook_node list \<Rightarrow> hook_node \<Rightarrow> string \<Rightarrow> edges \<Rightarrow> edges result" where
  "link_before ns n reference E = rbind (resolve_in_phase ns n reference) (\<lambda>target. Inr (add_edge (hn_ref n) target E))"

definition link_after :: "hook_node list \<Rightarrow> hook_node \<Rightarrow> string \<Rightarrow> edges \<Rightarrow> edges result" where
  "link_after ns n reference E = rbind (resolve_in_phase ns n reference) (\<lambda>target. Inr (add_edge target (hn_ref n) E))"

definition link_node :: "string list \<Rightarrow> providers \<Rightarrow> hook_node list \<Rightarrow> hook_node \<Rightarrow> edges \<Rightarrow> edges result" where
  "link_node externallyAvailable P ns n E =
     rbind (rfold (link_capability externallyAvailable P n) (ph_requires (hn_hook n)) E) (\<lambda>E1.
     rbind (rfold (link_before ns n) (ph_before (hn_hook n)) E1)
       (rfold (link_after ns n) (ph_after (hn_hook n))))"

definition add_context_producer :: "(string \<Rightarrow> context_key option) \<Rightarrow> hook_node \<Rightarrow> context_key \<Rightarrow> providers \<Rightarrow> providers result" where
  "add_context_producer contextKeys n key P =
     (if contextKeys (ck_id key) \<noteq> Some key \<or> ck_ownerPluginId key \<noteq> node_plugin_id n then plain ''Unregistered provided context key''
      else if ck_mode key = Artifact_mode \<and> P (ck_id key) \<noteq> [] then plain ''Duplicate context key producer''
      else Inr (P(ck_id key := P (ck_id key) @ [n])))"

definition context_producers :: "(string \<Rightarrow> context_key option) \<Rightarrow> hook_node list \<Rightarrow> providers result" where
  "context_producers contextKeys ns =
     rfold (\<lambda>n. rfold (add_context_producer contextKeys n) (ph_providesContext (hn_hook n))) ns (\<lambda>_. [])"

definition available_producers :: "providers \<Rightarrow> hook_node \<Rightarrow> context_key \<Rightarrow> hook_node list" where
  "available_producers P n key = filter (\<lambda>p. hn_ref p \<noteq> hn_ref n \<and> node_rank p \<le> node_rank n) (P (ck_id key))"

definition link_context :: "(string \<Rightarrow> context_key option) \<Rightarrow> providers \<Rightarrow> hook_node \<Rightarrow> context_key \<Rightarrow> edges \<Rightarrow> edges result" where
  "link_context contextKeys P n key E =
     (if contextKeys (ck_id key) \<noteq> Some key then plain ''Unknown required context key''
      else if ck_visibility key = Private_key \<and> ck_ownerPluginId key \<noteq> node_plugin_id n then plain ''cannot require private context key''
      else if available_producers P n key = [] then plain ''Context is unavailable''
      else Inr (fold (\<lambda>p E. if node_phase p = node_phase n then add_edge (hn_ref p) (hn_ref n) E else E)
                  (available_producers P n key) E))"

definition plan_edges :: "compiler_input \<Rightarrow> (string \<Rightarrow> context_key option) \<Rightarrow> hook_node list \<Rightarrow> edges result" where
  "plan_edges inp contextKeys ns =
     rbind (capability_providers (ci_singletonCapabilities inp) ns) (\<lambda>P.
     rbind (rfold (link_node (ci_availableCapabilities inp) P ns) ns (\<lambda>_. [])) (\<lambda>E.
     rbind (context_producers contextKeys ns) (\<lambda>C.
       rfold (\<lambda>n. rfold (link_context contextKeys C n) (ph_requiresContext (hn_hook n))) ns E)))"

subsection \<open>The order of a phase\<close>

definition indegrees :: "edges \<Rightarrow> hook_node list \<Rightarrow> string \<Rightarrow> int" where
  "indegrees E ns =
     fold (\<lambda>n. fold (\<lambda>t m. if t \<in> set (map hn_ref ns) then m(t := m t + 1) else m) (E (hn_ref n))) ns (\<lambda>_. 0)"

definition sort_nodes :: "(string \<Rightarrow> string \<Rightarrow> int) \<Rightarrow> hook_node list \<Rightarrow> hook_node list" where
  "sort_nodes lc = js_sort (\<lambda>l r. lc (hn_ref l) (hn_ref r))"

definition relax_target ::
  "(string \<Rightarrow> string \<Rightarrow> int) \<Rightarrow> hook_node list \<Rightarrow> string \<Rightarrow> hook_node list \<times> (string \<Rightarrow> int) \<Rightarrow> hook_node list \<times> (string \<Rightarrow> int)" where
  "relax_target lc ns t = (\<lambda>(ready, indegree).
     case node_at ns t of
       None \<Rightarrow> (ready, indegree)
     | Some m \<Rightarrow>
         let left = indegree t - 1
         in (if left = 0 then sort_nodes lc (ready @ [m]) else ready, indegree(t := left)))"

text \<open>The sum of the ready nodes and of the nodes with a positive degree falls in every iteration.\<close>

definition pending :: "hook_node list \<Rightarrow> hook_node list \<times> (string \<Rightarrow> int) \<Rightarrow> nat" where
  "pending ns = (\<lambda>(ready, indegree). length ready + card {t \<in> set (map hn_ref ns). 0 < indegree t})"

lemma node_at_SomeD: "node_at ns t = Some m \<Longrightarrow> m \<in> set ns \<and> hn_ref m = t"
  by (auto simp: node_at_def find_Some_iff)

lemma pending_relax: "pending ns (relax_target lc ns t s) \<le> pending ns s"
proof (cases s)
  case (Pair ready indegree)
  let ?pos = "\<lambda>f :: string \<Rightarrow> int. {u \<in> set (map hn_ref ns). 0 < f u}"
  show ?thesis
  proof (cases "node_at ns t")
    case (Some m)
    then have t: "t \<in> set (map hn_ref ns)" by (auto dest: node_at_SomeD)
    show ?thesis
    proof (cases "indegree t = 1")
      case True
      with t have "?pos indegree = insert t (?pos (indegree(t := 0)))" by auto
      then have "card (?pos indegree) = Suc (card (?pos (indegree(t := 0))))" by (simp add: card_insert_if)
      with Pair Some True show ?thesis by (simp add: relax_target_def pending_def sort_nodes_def)
    next
      case False
      have "?pos (indegree(t := indegree t - 1)) \<subseteq> ?pos indegree" by (auto split: if_splits)
      then have "card (?pos (indegree(t := indegree t - 1))) \<le> card (?pos indegree)" by (intro card_mono) auto
      with Pair Some False show ?thesis by (simp add: relax_target_def pending_def)
    qed
  qed (simp add: Pair relax_target_def)
qed

lemma pending_relax_all: "pending ns (fold (relax_target lc ns) ts s) \<le> pending ns s"
proof (induction ts arbitrary: s)
  case (Cons t ts)
  have "pending ns (fold (relax_target lc ns) ts (relax_target lc ns t s)) \<le> pending ns (relax_target lc ns t s)" by (rule Cons)
  also have "\<dots> \<le> pending ns s" by (rule pending_relax)
  finally show ?case by simp
qed simp

function sort_loop ::
  "(string \<Rightarrow> string \<Rightarrow> int) \<Rightarrow> edges \<Rightarrow> hook_node list \<Rightarrow> hook_node list \<times> (string \<Rightarrow> int) \<Rightarrow> hook_node list \<Rightarrow> hook_node list" where
  "sort_loop lc E ns ([], indegree) result = result"
| "sort_loop lc E ns (n # ready, indegree) result =
     sort_loop lc E ns (fold (relax_target lc ns) (js_sort text_compare (E (hn_ref n))) (ready, indegree)) (result @ [n])"
  by pat_completeness auto

termination
proof (relation "measure (\<lambda>(lc, E, ns, s, result). pending ns s)")
  fix lc E ready result and ns :: "hook_node list" and n :: hook_node and indegree :: "string \<Rightarrow> int"
  have "pending ns (fold (relax_target lc ns) (js_sort text_compare (E (hn_ref n))) (ready, indegree)) \<le> pending ns (ready, indegree)"
    by (rule pending_relax_all)
  also have "\<dots> < pending ns (n # ready, indegree)" by (simp add: pending_def)
  finally show "((lc, E, ns, fold (relax_target lc ns) (js_sort text_compare (E (hn_ref n))) (ready, indegree), result @ [n]),
      (lc, E, ns, (n # ready, indegree), result)) \<in> measure (\<lambda>(lc, E, ns, s, result). pending ns s)"
    by simp
qed simp

definition topologicalSort :: "(string \<Rightarrow> string \<Rightarrow> int) \<Rightarrow> edges \<Rightarrow> hook_node list \<Rightarrow> hook_node list result" where
  "topologicalSort lc E ns =
     (let indegree = indegrees E ns;
          ready = sort_nodes lc (filter (\<lambda>n. indegree (hn_ref n) = 0) ns);
          result = sort_loop lc E ns (ready, indegree) []
      in if length result \<noteq> length ns then plain ''Pipeline hook dependency cycle'' else Inr result)"

subsection \<open>The compiled plan\<close>

text \<open>The names in an artifact list that passed \<open>assertArtifactList\<close>.\<close>

definition artifact_names :: "jsval \<Rightarrow> string list" where
  "artifact_names v = (case v of JArr vs \<Rightarrow> concat (map (\<lambda>x. case x of JStr s \<Rightarrow> [s] | _ \<Rightarrow> []) vs) | _ \<Rightarrow> [])"

definition port_of :: "(string \<Rightarrow> jsval option) \<Rightarrow> string \<Rightarrow> (string \<times> jsval) result" where
  "port_of ports permission =
     (case ports permission of None \<Rightarrow> plain ''Missing permission port'' | Some v \<Rightarrow> Inr (permission, v))"

definition readable_ids :: "hook_node \<Rightarrow> string list" where
  "readable_ids n = set_of_list
     (map ck_id (ph_requiresContext (hn_hook n)) @ map ck_id (ph_providesContext (hn_hook n))
      @ map ck_id (filter (\<lambda>key. ck_ownerPluginId key = node_plugin_id n \<and> ck_visibility key = Private_key)
                     (pg_contextKeys (hn_plugin n))))"

definition instance_revision :: "hook_node \<Rightarrow> string" where
  "instance_revision n =
     (case hn_setting n of
        Some st \<Rightarrow> st_instanceRevision st
      | None \<Rightarrow> ''builtin-'' @ int_text (version_int (mf_configVersion (pg_manifest (hn_plugin n)))))"

definition compile_hook :: "(string \<Rightarrow> jsval option) \<Rightarrow> pipeline_phase \<Rightarrow> hook_node \<Rightarrow> compiled_hook result" where
  "compile_hook availablePorts phase n =
     rbind (traverse (port_of availablePorts) (mf_permissions (pg_manifest (hn_plugin n)))) (\<lambda>ports.
       Inr \<lparr>ch_ref = hn_ref n, ch_pluginId = node_plugin_id n,
         ch_behaviorVersion = version_int (mf_behaviorVersion (pg_manifest (hn_plugin n))),
         ch_phase = phase, ch_kind = ph_kind (hn_hook n), ch_bestEffort = ph_bestEffort (hn_hook n),
         ch_timeoutMs = map_option version_int (ph_timeoutMs (hn_hook n)),
         ch_instanceRevision = instance_revision n, ch_config = hn_config n, ch_ports = ports,
         ch_readableArtifacts = set_of_list (artifact_names (ph_readsArtifacts (hn_hook n))),
         ch_writableArtifacts = set_of_list (artifact_names (ph_writesArtifacts (hn_hook n))),
         ch_readableContext = readable_ids n,
         ch_requiredContext = set_of_list (map ck_id (ph_requiresContext (hn_hook n))),
         ch_writableContext = set_of_list (map ck_id (ph_providesContext (hn_hook n))),
         ch_isApplicable = ph_isApplicable (hn_hook n), ch_run = ph_run (hn_hook n)\<rparr>)"

definition compile_phase ::
  "(string \<Rightarrow> string \<Rightarrow> int) \<Rightarrow> (string \<Rightarrow> jsval option) \<Rightarrow> edges \<Rightarrow> hook_node list \<Rightarrow> pipeline_phase \<Rightarrow> compiled_hook list result" where
  "compile_phase lc availablePorts E ns phase =
     rbind (topologicalSort lc E (filter (\<lambda>n. node_phase n = phase_text phase) ns)) (traverse (compile_hook availablePorts phase))"

definition registry_entry :: "pipeline_plugin \<Rightarrow> string" where
  "registry_entry p =
     (let m = pg_manifest p
      in mf_id m @ '':'' @ int_text (version_int (mf_apiVersion m)) @ '':'' @ int_text (version_int (mf_behaviorVersion m))
           @ '':'' @ int_text (version_int (mf_configVersion m)))"

fun join_with :: "string \<Rightarrow> string list \<Rightarrow> string" where
  "join_with sep [] = []"
| "join_with sep [s] = s"
| "join_with sep (s # t # ts) = s @ sep @ join_with sep (t # ts)"

definition plan_revision :: "(string \<Rightarrow> string) \<Rightarrow> compiler_input \<Rightarrow> pipeline_plugin list \<Rightarrow> string" where
  "plan_revision sha256 inp plugins =
     (let NUL = [char_of (0 :: nat)];
          registryFingerprint = join_with ''|'' (js_sort text_compare (map registry_entry plugins));
          revisionInput = int_text (version_int (ci_kernelApiVersion inp)) @ NUL @ registryFingerprint
                          @ NUL @ ci_settingsRevision inp @ NUL @ ci_cacheKey inp
      in ''ppr_'' @ take 24 (sha256 revisionInput))"

definition context_key_map :: "pipeline_plugin list \<Rightarrow> string \<Rightarrow> context_key option" where
  "context_key_map plugins = fold (\<lambda>key m. m(ck_id key \<mapsto> key)) (concat (map pg_contextKeys plugins)) Map.empty"

definition assemble_plan ::
  "(string \<Rightarrow> string) \<Rightarrow> compiler_input \<Rightarrow> pipeline_plugin list \<Rightarrow> (pipeline_phase \<Rightarrow> compiled_hook list) \<Rightarrow> execution_plan" where
  "assemble_plan sha256 inp plugins hooksByPhase =
     \<lparr>xp_kernelApiVersion = version_int (ci_kernelApiVersion inp), xp_planRevision = plan_revision sha256 inp plugins,
      xp_settingsRevision = ci_settingsRevision inp, xp_applicabilityCacheKey = ci_cacheKey inp, xp_hooksByPhase = hooksByPhase,
      xp_requestHooks = concat (map hooksByPhase PIPELINE_REQUEST_PHASES),
      xp_responseHooks = concat (map hooksByPhase PIPELINE_RESPONSE_PHASES),
      xp_streamHooks = hooksByPhase Stream_transform, xp_contextKeys = context_key_map plugins\<rparr>"

text \<open>The object \<open>hooksByPhase\<close>, filled phase by phase.\<close>

definition hooks_table :: "compiled_hook list list \<Rightarrow> pipeline_phase \<Rightarrow> compiled_hook list" where
  "hooks_table css phase = (case map_of (zip PIPELINE_PHASES css) phase of None \<Rightarrow> [] | Some cs \<Rightarrow> cs)"

definition compileExecutionPlan :: "(string \<Rightarrow> string \<Rightarrow> int) \<Rightarrow> (string \<Rightarrow> string) \<Rightarrow> compiler_input \<Rightarrow> execution_plan result" where
  "compileExecutionPlan lc sha256 inp =
     rbind (assertIntegerVersion (ci_kernelApiVersion inp)) (\<lambda>_.
     rbind (require (REVISION_PATTERN (ci_settingsRevision inp)) (PlainError ''Invalid pipeline settings revision'')) (\<lambda>_.
     rbind (require (REVISION_PATTERN (ci_cacheKey inp)) (PlainError ''Invalid pipeline applicability cache key'')) (\<lambda>_.
     rbind (createPipelineRegistry (ci_plugins inp) (ci_kernelApiVersion inp)) (\<lambda>plugins.
     rbind (active_plugins inp plugins) (\<lambda>active.
     rbind (plan_edges inp (context_key_map plugins) (nodes_of active)) (\<lambda>E.
     rbind (traverse (compile_phase lc (ci_availablePorts inp) E (nodes_of active)) PIPELINE_PHASES) (\<lambda>css.
       Inr (assemble_plan sha256 inp plugins (hooks_table css)))))))))"

end
