(* ===== verification/Pipeline_Plans.thy ===== *)
theory Pipeline_Plans
  imports Pipeline_Compiler
begin

section \<open>What a compiled plan promises\<close>

text \<open>
  The topological sort of the compiler is exact: it orders every acyclic phase and rejects every
  cyclic one. A compiled plan runs every hook of every active plugin once, in its phase, after
  all the hooks it depends on, so a session that executes it never meets a hook twice.
\<close>

subsection \<open>Orders\<close>

text \<open>\<open>before_in xs a b\<close>: \<open>a\<close> stands before \<open>b\<close> in \<open>xs\<close>.\<close>

definition before_in :: "'a list \<Rightarrow> 'a \<Rightarrow> 'a \<Rightarrow> bool" where
  "before_in xs a b \<longleftrightarrow> (\<exists>us vs ws. xs = us @ a # vs @ b # ws)"

text \<open>Every element comes after its predecessors.\<close>

definition well_ordered :: "('a \<times> 'a) set \<Rightarrow> 'a list \<Rightarrow> bool" where
  "well_ordered R xs \<longleftrightarrow> (\<forall>us b vs a. xs = us @ b # vs \<longrightarrow> (a, b) \<in> R \<longrightarrow> a \<in> set us)"

lemma well_ordered_Nil [simp]: "well_ordered R []"
  by (simp add: well_ordered_def)

lemma well_ordered_snoc: "well_ordered R xs \<Longrightarrow> {a. (a, b) \<in> R} \<subseteq> set xs \<Longrightarrow> well_ordered R (xs @ [b])"
  unfolding well_ordered_def by (auto simp: append_eq_append_conv2 append_eq_Cons_conv Cons_eq_append_conv)

lemma well_ordered_before:
  assumes "well_ordered R xs" "(a, b) \<in> R" "b \<in> set xs"
  shows "before_in xs a b"
proof -
  obtain us vs where xs: "xs = us @ b # vs" using assms(3) by (auto dest: split_list)
  with assms(1,2) have "a \<in> set us" by (auto simp: well_ordered_def)
  then obtain us1 us2 where "us = us1 @ a # us2" by (auto dest: split_list)
  with xs show ?thesis by (auto simp: before_in_def)
qed

lemma before_in_trans:
  assumes "distinct xs" "before_in xs a b" "before_in xs b c"
  shows "before_in xs a c"
proof -
  obtain us vs ws where xs: "xs = us @ a # vs @ b # ws" using assms(2) by (auto simp: before_in_def)
  obtain us' vs' ws' where xs': "xs = us' @ b # vs' @ c # ws'" using assms(3) by (auto simp: before_in_def)
  have "(us @ a # vs) @ b # ws = us' @ b # (vs' @ c # ws')" using xs xs' by simp
  moreover have "b \<notin> set (us @ a # vs)" "b \<notin> set ws" using assms(1) xs by auto
  ultimately have "us @ a # vs = us' \<and> ws = vs' @ c # ws'" by (metis append_Cons_eq_iff)
  then have "xs = us @ a # (vs @ b # vs') @ c # ws'" using xs by simp
  then show ?thesis unfolding before_in_def by blast
qed

lemma before_in_irrefl: "distinct xs \<Longrightarrow> \<not> before_in xs a a"
  by (auto simp: before_in_def)

lemma well_ordered_acyclic:
  assumes "distinct xs" "well_ordered R xs" "R \<subseteq> set xs \<times> set xs"
  shows "acyclic R"
proof -
  have "before_in xs a b" if "(a, b) \<in> R\<^sup>+" for a b
    using that
  proof (induction rule: trancl_induct)
    case (base b)
    with assms show ?case by (auto intro: well_ordered_before)
  next
    case (step b c)
    then have "before_in xs b c" using assms by (auto intro: well_ordered_before)
    with step.IH show ?case using assms(1) by (auto intro: before_in_trans)
  qed
  then show ?thesis using before_in_irrefl [OF assms(1)] by (auto simp: acyclic_def)
qed

text \<open>A finite set where everything has a predecessor holds a cycle.\<close>

lemma predecessors_cyclic:
  assumes "finite U" "u \<in> U" "\<And>b. b \<in> U \<Longrightarrow> \<exists>a \<in> U. (a, b) \<in> R"
  shows "\<not> acyclic R"
proof
  assume "acyclic R"
  then have "acyclic (R \<inter> U \<times> U)" by (rule acyclic_subset) simp
  moreover have "finite (R \<inter> U \<times> U)" using assms(1) by simp
  ultimately have "wf (R \<inter> U \<times> U)" by (intro finite_acyclic_wf)
  then obtain z where "z \<in> U" "\<And>y. (y, z) \<in> R \<inter> U \<times> U \<Longrightarrow> y \<notin> U"
    using assms(2) by (rule wfE_min) blast
  with assms(3) [of z] show False by blast
qed

subsection \<open>Counting edges\<close>

text \<open>The edges of a phase: those whose ends are both in it.\<close>

definition phase_edges :: "edges \<Rightarrow> hook_node list \<Rightarrow> (string \<times> string) set" where
  "phase_edges E ns = {(a, b). a \<in> set (map hn_ref ns) \<and> b \<in> set (map hn_ref ns) \<and> b \<in> set (E a)}"

lemma count_targets:
  assumes "distinct ts"
  shows "fold (\<lambda>t m. if t \<in> S then m(t := m t + (1::int)) else m) ts m b = m b + (if b \<in> set ts \<inter> S then 1 else 0)"
  using assms by (induction ts arbitrary: m) auto

lemma count_edges:
  assumes "distinct (map hn_ref ms)" "\<forall>a. distinct (E a)"
  shows "fold (\<lambda>n. fold (\<lambda>t m. if t \<in> S then m(t := m t + (1::int)) else m) (E (hn_ref n))) ms m b
    = m b + (if b \<in> S then int (card {a \<in> set (map hn_ref ms). b \<in> set (E a)}) else 0)"
  using assms(1)
proof (induction ms arbitrary: m)
  case (Cons n ms)
  have "{a \<in> set (map hn_ref (n # ms)). b \<in> set (E a)}
      = (if b \<in> set (E (hn_ref n)) then insert (hn_ref n) else (\<lambda>A. A)) {a \<in> set (map hn_ref ms). b \<in> set (E a)}"
    by auto
  moreover have "hn_ref n \<notin> set (map hn_ref ms)" using Cons.prems by simp
  ultimately have "card {a \<in> set (map hn_ref (n # ms)). b \<in> set (E a)}
      = (if b \<in> set (E (hn_ref n)) then 1 else 0) + card {a \<in> set (map hn_ref ms). b \<in> set (E a)}"
    by simp
  with Cons show ?case by (simp add: count_targets assms(2))
qed simp

lemma indegrees_eq:
  assumes "distinct (map hn_ref ns)" "\<forall>a. distinct (E a)" "b \<in> set (map hn_ref ns)"
  shows "indegrees E ns b = int (card {a. (a, b) \<in> phase_edges E ns})"
proof -
  have "{a. (a, b) \<in> phase_edges E ns} = {a \<in> set (map hn_ref ns). b \<in> set (E a)}"
    using assms(3) by (auto simp: phase_edges_def)
  with assms(3) count_edges [OF assms(1,2), of "set (map hn_ref ns)"] show ?thesis by (simp add: indegrees_def)
qed

subsection \<open>One iteration\<close>

lemma set_sort_nodes [simp]: "set (sort_nodes lc ns) = set ns"
  by (simp add: sort_nodes_def)

lemma distinct_sort_nodes [simp]: "distinct (map hn_ref (sort_nodes lc ns)) = distinct (map hn_ref ns)"
  by (simp add: sort_nodes_def distinct_map_js_sort)

lemma node_at_eq:
  assumes "distinct (map hn_ref ns)"
  shows "node_at ns t = Some m \<longleftrightarrow> m \<in> set ns \<and> hn_ref m = t"
proof
  assume m: "m \<in> set ns \<and> hn_ref m = t"
  then obtain m' where "node_at ns t = Some m'" by (cases "node_at ns t") (auto simp: node_at_def find_None_iff)
  with m assms show "node_at ns t = Some m" by (auto dest: node_at_SomeD simp: distinct_map inj_on_def)
qed (rule node_at_SomeD)

lemma node_at_None: "node_at ns t = None \<longleftrightarrow> t \<notin> set (map hn_ref ns)"
  by (auto simp: node_at_def find_None_iff)

lemma relax_target_simps:
  "node_at ns t = None \<Longrightarrow> relax_target lc ns t s = s"
  "node_at ns t = Some m \<Longrightarrow> relax_target lc ns t (ready, indegree)
     = (if indegree t = 1 then sort_nodes lc (ready @ [m]) else ready, indegree(t := indegree t - 1))"
  by (cases s) (simp_all add: relax_target_def Let_def)

text \<open>What the loop over the targets of a node does: it lowers their degrees, and those at zero get ready.\<close>

lemma relax_all:
  assumes ns: "distinct (map hn_ref ns)"
    and "distinct ts" "distinct (map hn_ref ready)"
    and "\<And>m. m \<in> set ready \<Longrightarrow> indegree (hn_ref m) \<le> 0"
    and run: "fold (relax_target lc ns) ts (ready, indegree) = (ready', indegree')"
  shows "indegree' b = indegree b - (if b \<in> set ts \<inter> set (map hn_ref ns) then 1 else 0)"
    and "set ready' = set ready \<union> {m \<in> set ns. hn_ref m \<in> set ts \<and> indegree (hn_ref m) = 1}"
    and "distinct (map hn_ref ready')"
proof -
  have main: "(\<forall>b. indegree' b = indegree b - (if b \<in> set ts \<inter> set (map hn_ref ns) then 1 else 0))
      \<and> set ready' = set ready \<union> {m \<in> set ns. hn_ref m \<in> set ts \<and> indegree (hn_ref m) = 1}
      \<and> distinct (map hn_ref ready')"
    using assms(2-)
  proof (induction ts arbitrary: ready indegree)
    case (Cons t ts)
    show ?case
    proof (cases "node_at ns t")
      case None
      then have "t \<notin> set (map hn_ref ns)" by (simp add: node_at_None)
      moreover have "fold (relax_target lc ns) ts (ready, indegree) = (ready', indegree')"
        using Cons.prems(4) None by (simp add: relax_target_simps)
      note IH = Cons.IH [OF _ Cons.prems(2,3) this]
      ultimately show ?thesis using Cons.prems(1) by auto
    next
      case (Some m)
      define ready1 where "ready1 = (if indegree t = 1 then sort_nodes lc (ready @ [m]) else ready)"
      define indegree1 where "indegree1 = indegree(t := indegree t - 1)"
      have m: "m \<in> set ns" "hn_ref m = t" using Some by (auto dest: node_at_SomeD)
      have only_m: "{k \<in> set ns. hn_ref k = t} = {m}" using ns m by (auto simp: distinct_map inj_on_def)
      have "fold (relax_target lc ns) ts (ready1, indegree1) = (ready', indegree')"
        using Cons.prems(4) Some by (simp add: relax_target_simps ready1_def indegree1_def)
      moreover have "distinct (map hn_ref ready1)" using Cons.prems(2,3) m by (fastforce simp: ready1_def)
      moreover have "k \<in> set ready1 \<Longrightarrow> indegree1 (hn_ref k) \<le> 0" for k
        using Cons.prems(3) [of k] m by (auto simp: ready1_def indegree1_def split: if_splits)
      ultimately have IH: "(\<forall>b. indegree' b = indegree1 b - (if b \<in> set ts \<inter> set (map hn_ref ns) then 1 else 0))
          \<and> set ready' = set ready1 \<union> {k \<in> set ns. hn_ref k \<in> set ts \<and> indegree1 (hn_ref k) = 1}
          \<and> distinct (map hn_ref ready')"
        by (intro Cons.IH [of ready1 indegree1]) (use Cons.prems(1) in auto)
      have t: "t \<notin> set ts" using Cons.prems(1) by simp
      have "set ready1 = set ready \<union> {k \<in> set ns. hn_ref k = t \<and> indegree (hn_ref k) = 1}"
        using only_m m by (auto simp: ready1_def)
      moreover have "{k \<in> set ns. hn_ref k \<in> set ts \<and> indegree1 (hn_ref k) = 1} = {k \<in> set ns. hn_ref k \<in> set ts \<and> indegree (hn_ref k) = 1}"
        using t by (auto simp: indegree1_def)
      ultimately have "set ready' = set ready \<union> {k \<in> set ns. hn_ref k \<in> set (t # ts) \<and> indegree (hn_ref k) = 1}"
        using IH by auto
      moreover have "indegree' b = indegree b - (if b \<in> set (t # ts) \<inter> set (map hn_ref ns) then 1 else 0)" for b
        using IH t m by (auto simp: indegree1_def)
      ultimately show ?thesis using IH by blast
    qed
  qed simp
  from main show "indegree' b = indegree b - (if b \<in> set ts \<inter> set (map hn_ref ns) then 1 else 0)" by blast
  from main show "set ready' = set ready \<union> {m \<in> set ns. hn_ref m \<in> set ts \<and> indegree (hn_ref m) = 1}" by blast
  from main show "distinct (map hn_ref ready')" by blast
qed

subsection \<open>The loop\<close>

text \<open>
  The degree of a node counts the predecessors not yet in the result; the nodes of degree zero are
  those in the result or ready.
\<close>

definition sort_state :: "edges \<Rightarrow> hook_node list \<Rightarrow> hook_node list \<Rightarrow> (string \<Rightarrow> int) \<Rightarrow> hook_node list \<Rightarrow> bool" where
  "sort_state E ns ready indegree result \<longleftrightarrow>
     distinct (map hn_ref (result @ ready)) \<and> set (result @ ready) \<subseteq> set ns
     \<and> (\<forall>b \<in> set (map hn_ref ns). indegree b = int (card {a. (a, b) \<in> phase_edges E ns \<and> a \<notin> set (map hn_ref result)}))
     \<and> (\<forall>b \<in> set (map hn_ref ns). indegree b = 0 \<longleftrightarrow> b \<in> set (map hn_ref (result @ ready)))
     \<and> well_ordered (phase_edges E ns) (map hn_ref result)"

lemma phase_edges_finite [simp]: "finite {a. (a, b) \<in> phase_edges E ns \<and> P a}"
  by (rule finite_subset [of _ "set (map hn_ref ns)"]) (auto simp: phase_edges_def)

lemma sort_state_step:
  assumes ns: "distinct (map hn_ref ns)" and E: "\<forall>a. distinct (E a)"
    and state: "sort_state E ns (n # ready) indegree result"
    and run: "fold (relax_target lc ns) (js_sort text_compare (E (hn_ref n))) (ready, indegree) = (ready', indegree')"
  shows "sort_state E ns ready' indegree' (result @ [n])"
proof -
  let ?R = "phase_edges E ns" and ?r = "hn_ref n" and ?D = "set (map hn_ref result)" and ?refs = "set (map hn_ref ns)"
  have fresh: "?r \<notin> ?D" and n: "n \<in> set ns" "?r \<in> ?refs" using state by (auto simp: sort_state_def)
  have old: "indegree b = int (card {a. (a, b) \<in> ?R \<and> a \<notin> ?D})" if "b \<in> ?refs" for b
    using state that unfolding sort_state_def by blast
  have zero: "indegree b = 0 \<longleftrightarrow> b \<in> set (map hn_ref (result @ n # ready))" if "b \<in> ?refs" for b
    using state that unfolding sort_state_def by blast
  have in_ns: "hn_ref m \<in> ?refs" if "m \<in> set (result @ n # ready)" for m
    using state that by (auto simp: sort_state_def)
  have le: "indegree (hn_ref m) \<le> 0" if "m \<in> set ready" for m using zero [OF in_ns [of m]] that by simp
  have ready: "distinct (map hn_ref ready)" using state by (simp add: sort_state_def)
  have ts: "distinct (js_sort text_compare (E ?r))" using E by simp
  note relaxed = relax_all [OF ns ts ready le run]
  have target: "b \<in> set (js_sort text_compare (E ?r)) \<inter> ?refs \<longleftrightarrow> (?r, b) \<in> ?R" for b
    using n by (auto simp: phase_edges_def)
  have deg: "indegree' b = indegree b - (if (?r, b) \<in> ?R then 1 else 0)" for b
    using relaxed(1) [of b] target [of b] by simp
  have no_pred: "(a, b) \<notin> ?R" if "b \<in> ?refs" "indegree b = 0" "a \<notin> ?D" for a b
  proof -
    have "card {a. (a, b) \<in> ?R \<and> a \<notin> ?D} = 0" using old [OF that(1)] that(2) by simp
    then have "{a. (a, b) \<in> ?R \<and> a \<notin> ?D} = {}" by (simp only: card_0_eq phase_edges_finite)
    with that(3) show ?thesis by blast
  qed
  have ready': "set ready' = set ready \<union> {m \<in> set ns. (?r, hn_ref m) \<in> ?R \<and> indegree (hn_ref m) = 1}"
    using relaxed(2) n(2) by (auto simp: phase_edges_def)
  have one: "hn_ref m \<notin> set (map hn_ref (result @ n # ready))" if "m \<in> set ns" "indegree (hn_ref m) = 1" for m
    using zero [of "hn_ref m"] that by auto
  have "distinct (map hn_ref ((result @ [n]) @ ready'))"
  proof -
    have "hn_ref m \<notin> set (map hn_ref (result @ [n]))" if m: "m \<in> set ready'" for m
    proof (cases "m \<in> set ready")
      case True
      then have "hn_ref m \<in> set (map hn_ref ready)" by simp
      then show ?thesis using state by (auto simp: sort_state_def)
    next
      case False
      with m ready' one [of m] show ?thesis by simp
    qed
    then have "hn_ref ` set ready' \<inter> set (map hn_ref (result @ [n])) = {}" by (intro equals0I) (elim IntE imageE, simp only:)
    then have "set (map hn_ref (result @ [n])) \<inter> set (map hn_ref ready') = {}" by (simp only: set_map Int_commute)
    moreover have "distinct (map hn_ref (result @ [n]))" using state by (auto simp: sort_state_def)
    ultimately show ?thesis using relaxed(3) by (simp del: set_map)
  qed
  moreover have "set ((result @ [n]) @ ready') \<subseteq> set ns" using state ready' by (auto simp: sort_state_def)
  moreover have "indegree' b = int (card {a. (a, b) \<in> ?R \<and> a \<notin> set (map hn_ref (result @ [n]))})" if "b \<in> ?refs" for b
  proof (cases "(?r, b) \<in> ?R")
    case True
    then have "{a. (a, b) \<in> ?R \<and> a \<notin> ?D} = insert ?r {a. (a, b) \<in> ?R \<and> a \<notin> set (map hn_ref (result @ [n]))}"
      using fresh by auto
    moreover have "?r \<notin> {a. (a, b) \<in> ?R \<and> a \<notin> set (map hn_ref (result @ [n]))}" by simp
    ultimately have "card {a. (a, b) \<in> ?R \<and> a \<notin> ?D} = Suc (card {a. (a, b) \<in> ?R \<and> a \<notin> set (map hn_ref (result @ [n]))})"
      by (simp del: set_map)
    with True show ?thesis using deg [of b] old [OF that] by (simp del: set_map)
  next
    case False
    then have "{a. (a, b) \<in> ?R \<and> a \<notin> ?D} = {a. (a, b) \<in> ?R \<and> a \<notin> set (map hn_ref (result @ [n]))}" by auto
    with False show ?thesis using deg [of b] old [OF that] by simp
  qed
  moreover have "indegree' b = 0 \<longleftrightarrow> b \<in> set (map hn_ref ((result @ [n]) @ ready'))" if b: "b \<in> ?refs" for b
  proof (cases "b \<in> set (map hn_ref (result @ n # ready))")
    case True
    with zero [OF b] have "indegree b = 0" by simp
    with no_pred [OF b this fresh] deg [of b] True ready' show ?thesis by auto
  next
    case False
    with zero [OF b] have "indegree b \<noteq> 0" by simp
    moreover have "b \<in> set (map hn_ref ready') \<longleftrightarrow> (?r, b) \<in> ?R \<and> indegree b = 1" using False ready' b by auto
    ultimately show ?thesis using deg [of b] False by auto
  qed
  moreover have "well_ordered ?R (map hn_ref (result @ [n]))"
  proof -
    have "indegree ?r = 0" using zero [OF n(2)] by simp
    with no_pred [OF n(2)] have "{a. (a, ?r) \<in> ?R} \<subseteq> ?D" by blast
    then show ?thesis using state by (simp add: sort_state_def well_ordered_snoc)
  qed
  ultimately show ?thesis unfolding sort_state_def by blast
qed

lemma sort_loop_state:
  assumes "distinct (map hn_ref ns)" "\<forall>a. distinct (E a)" "sort_state E ns ready indegree result"
  shows "\<exists>indegree'. sort_state E ns [] indegree' (sort_loop lc E ns (ready, indegree) result)"
  using assms
proof (induction lc E ns "(ready, indegree)" result arbitrary: ready indegree rule: sort_loop.induct)
  case (2 lc E ns n ready indegree result)
  obtain ready' indegree' where run: "fold (relax_target lc ns) (js_sort text_compare (E (hn_ref n))) (ready, indegree) = (ready', indegree')"
    by (cases "fold (relax_target lc ns) (js_sort text_compare (E (hn_ref n))) (ready, indegree)")
  have "sort_state E ns ready' indegree' (result @ [n])" using "2.prems" run by (rule sort_state_step)
  then have "\<exists>indegree''. sort_state E ns [] indegree'' (sort_loop lc E ns (ready', indegree') (result @ [n]))"
    using 2 run by simp
  with run show ?case by simp
qed auto

lemma sort_state_initial:
  assumes "distinct (map hn_ref ns)" "\<forall>a. distinct (E a)"
  shows "sort_state E ns (sort_nodes lc (filter (\<lambda>n. indegrees E ns (hn_ref n) = 0) ns)) (indegrees E ns) []"
proof -
  have "distinct (map hn_ref (filter P ns))" for P using assms(1) by (rule distinct_map_filter)
  then show ?thesis using indegrees_eq [OF assms] by (auto simp: sort_state_def)
qed

text \<open>The sort is exact.\<close>

lemma topologicalSort_exact:
  assumes "distinct (map hn_ref ns)" "\<forall>a. distinct (E a)"
  shows "case topologicalSort lc E ns of
           Inl _ \<Rightarrow> \<not> acyclic (phase_edges E ns)
         | Inr result \<Rightarrow> acyclic (phase_edges E ns) \<and> mset result = mset ns
                         \<and> well_ordered (phase_edges E ns) (map hn_ref result)"
proof -
  let ?R = "phase_edges E ns" and ?refs = "set (map hn_ref ns)"
  define result where "result = sort_loop lc E ns (sort_nodes lc (filter (\<lambda>n. indegrees E ns (hn_ref n) = 0) ns), indegrees E ns) []"
  obtain indegree where state: "sort_state E ns [] indegree result"
    using sort_loop_state [OF assms sort_state_initial [OF assms]] unfolding result_def by blast
  then have result: "distinct (map hn_ref result)" "set result \<subseteq> set ns" "well_ordered ?R (map hn_ref result)"
    by (auto simp: sort_state_def)
  show ?thesis
  proof (cases "length result = length ns")
    case True
    have "distinct result" "distinct ns" using result(1) assms(1) by (auto simp: distinct_map)
    then have "card (set result) = card (set ns)" using True by (simp add: distinct_card)
    then have "set result = set ns" using result(2) by (intro card_subset_eq) auto
    then have perm: "mset result = mset ns" using \<open>distinct result\<close> \<open>distinct ns\<close> by (simp add: set_eq_iff_mset_eq_distinct)
    have "?R \<subseteq> set (map hn_ref result) \<times> set (map hn_ref result)"
      using \<open>set result = set ns\<close> by (auto simp: phase_edges_def)
    with result have "acyclic ?R" by (intro well_ordered_acyclic)
    moreover have "topologicalSort lc E ns = Inr result" using True by (simp add: topologicalSort_def result_def Let_def)
    ultimately show ?thesis using perm result by simp
  next
    case False
    define U where "U = ?refs - set (map hn_ref result)"
    have "\<not> acyclic ?R"
    proof (rule predecessors_cyclic [of U])
      show "finite U" by (simp add: U_def)
      have "distinct result" "distinct ns" using result(1) assms(1) by (auto simp: distinct_map)
      then have "set result \<noteq> set ns" using False distinct_card by metis
      then obtain m where "m \<in> set ns" "m \<notin> set result" using result(2) by blast
      then have "hn_ref m \<in> U" using assms(1) result(2) by (auto simp: U_def distinct_map inj_on_def)
      then show "(SOME u. u \<in> U) \<in> U" by (rule someI)
      fix b
      assume b: "b \<in> U"
      then have "indegree b \<noteq> 0" "indegree b = int (card {a. (a, b) \<in> ?R \<and> a \<notin> set (map hn_ref result)})"
        using state by (auto simp: sort_state_def U_def)
      then have "{a. (a, b) \<in> ?R \<and> a \<notin> set (map hn_ref result)} \<noteq> {}" by (metis card.empty of_nat_0)
      then obtain a where "(a, b) \<in> ?R" "a \<notin> set (map hn_ref result)" by blast
      then show "\<exists>a \<in> U. (a, b) \<in> ?R" by (auto simp: U_def phase_edges_def)
    qed
    moreover have "topologicalSort lc E ns = plain ''Pipeline hook dependency cycle''"
      using False by (simp add: topologicalSort_def result_def Let_def)
    ultimately show ?thesis by simp
  qed
qed

subsection \<open>Registered plugins and their nodes\<close>

lemma check_hook_Inr: "check_hook m ids seen h = Inr u \<Longrightarrow> ID_PATTERN (ph_id h) \<and> ph_id h \<notin> set seen \<and> known_phase (ph_phase h)"
  unfolding check_hook_def checks_Inr_iff by simp

lemma check_hooks_Inr:
  "check_hooks m ids seen hs = Inr () \<Longrightarrow>
     distinct (map ph_id hs) \<and> set (map ph_id hs) \<inter> set seen = {} \<and> (\<forall>h \<in> set hs. ID_PATTERN (ph_id h) \<and> known_phase (ph_phase h))"
proof (induction hs arbitrary: seen)
  case (Cons h hs)
  from Cons.prems have "check_hook m ids seen h = Inr ()" "check_hooks m ids (ph_id h # seen) hs = Inr ()"
    by (simp_all add: rbind_Inr_iff)
  with Cons.IH [of "ph_id h # seen"] check_hook_Inr [of m ids seen h] show ?case by auto
qed simp

lemma validatePlugin_hooks:
  assumes "validatePlugin p v = Inr u"
  shows "ID_PATTERN (plugin_id p)" "distinct (map ph_id (pg_hooks p))"
    "h \<in> set (pg_hooks p) \<Longrightarrow> ID_PATTERN (ph_id h) \<and> known_phase (ph_phase h)"
proof -
  show "ID_PATTERN (plugin_id p)" using assms by (simp add: validatePlugin_def Let_def effects del: checks.simps)
  have "check_hooks (pg_manifest p) (map ck_id (pg_contextKeys p)) [] (pg_hooks p) = Inr ()"
    using assms by (simp add: validatePlugin_def Let_def effects del: checks.simps)
  from check_hooks_Inr [OF this] show "distinct (map ph_id (pg_hooks p))"
    "h \<in> set (pg_hooks p) \<Longrightarrow> ID_PATTERN (ph_id h) \<and> known_phase (ph_phase h)" by auto
qed

lemma register_plugin_Inr:
  "register_plugin v p (acc, ids) = Inr s \<longleftrightarrow>
     validatePlugin p v = Inr () \<and> plugin_id p \<notin> set (map plugin_id acc)
     \<and> (\<exists>ids'. rfold add_context_id (pg_contextKeys p) ids = Inr ids' \<and> s = (acc @ [p], ids'))"
  by (auto simp: register_plugin_def effects)

lemma subseq_distinct: "subseq xs ys \<Longrightarrow> distinct ys \<Longrightarrow> distinct xs"
  by (induction rule: list_emb.induct) (auto dest: list_emb_set)

lemma registry_plugins:
  assumes "createPipelineRegistry ps v = Inr plugins"
  shows "plugins = ps" "distinct (map plugin_id plugins)" "p \<in> set plugins \<Longrightarrow> validatePlugin p v = Inr ()"
proof -
  have main: "rfold (register_plugin v) ps (acc, ids) = Inr (plugins, ids') \<Longrightarrow> distinct (map plugin_id acc) \<Longrightarrow>
      plugins = acc @ ps \<and> distinct (map plugin_id plugins) \<and> (\<forall>p \<in> set ps. validatePlugin p v = Inr ())" for acc ids ids'
  proof (induction ps arbitrary: acc ids)
    case (Cons p ps)
    from Cons.prems(1) obtain ids1 where valid: "validatePlugin p v = Inr ()" and new: "plugin_id p \<notin> set (map plugin_id acc)"
      and rest: "rfold (register_plugin v) ps (acc @ [p], ids1) = Inr (plugins, ids')"
      by (auto simp: register_plugin_Inr rbind_Inr_iff)
    have "distinct (map plugin_id (acc @ [p]))" using Cons.prems(2) new by simp
    from Cons.IH [OF rest this] have "plugins = (acc @ [p]) @ ps" "distinct (map plugin_id plugins)"
      "\<forall>p \<in> set ps. validatePlugin p v = Inr ()" by blast+
    then show ?case using valid by (intro conjI) (assumption | simp)+
  qed simp
  obtain ids' where "rfold (register_plugin v) ps ([], []) = Inr (plugins, ids')"
    using assms by (auto simp: createPipelineRegistry_def effects)
  from main [OF this] show "plugins = ps" "distinct (map plugin_id plugins)" "p \<in> set plugins \<Longrightarrow> validatePlugin p v = Inr ()"
    by auto
qed

lemma activate_plugin: "activate facts settings p = Inr as \<Longrightarrow> subseq (map ac_plugin as) [p]"
  by (auto simp: activate_def Let_def effects split: if_splits option.splits)

lemma active_plugins_subseq:
  assumes "active_plugins inp plugins = Inr active"
  shows "subseq (map ac_plugin active) plugins"
proof -
  obtain settings xs where "traverse (activate (ci_facts inp) settings) plugins = Inr xs" and active: "active = concat xs"
    using assms by (auto simp: active_plugins_def effects simp del: traverse_Inr_iff)
  then have "list_all2 (\<lambda>p as. activate (ci_facts inp) settings p = Inr as) plugins xs" by (simp add: traverse_Inr_iff)
  then have "subseq (map ac_plugin (concat xs)) plugins"
  proof (induction rule: list_all2_induct)
    case (Cons p ps as xs)
    then have "subseq (map ac_plugin as @ map ac_plugin (concat xs)) ([p] @ ps)"
      by (intro list_emb_append_mono activate_plugin)
    then show ?case by simp
  qed simp
  with active show ?thesis by simp
qed

lemma node_ref_inject:
  assumes "CHR ''/'' \<notin> set p" "CHR ''/'' \<notin> set h" "CHR ''/'' \<notin> set p'" "CHR ''/'' \<notin> set h'"
  shows "p @ ''/'' @ h = p' @ ''/'' @ h' \<longleftrightarrow> p = p' \<and> h = h'"
  using append_Cons_eq_iff [of "CHR ''/''" p h p' h'] assms by simp

lemma nodes_distinct:
  assumes "distinct (map plugin_id (map ac_plugin active))" "\<And>a. a \<in> set active \<Longrightarrow> validatePlugin (ac_plugin a) v = Inr ()"
  shows "distinct (map hn_ref (nodes_of active))"
  using assms
proof (induction active)
  case Nil
  show ?case by (simp add: nodes_of_def)
next
  case (Cons a active)
  have a: "CHR ''/'' \<notin> set (plugin_id (ac_plugin b))" "h \<in> set (pg_hooks (ac_plugin b)) \<Longrightarrow> CHR ''/'' \<notin> set (ph_id h)"
    if "b \<in> set (a # active)" for b h
    using validatePlugin_hooks [OF Cons.prems(2) [OF that]] ID_PATTERN_no_slash by blast+
  have here: "distinct (map hn_ref (map (node_of a) (pg_hooks (ac_plugin a))))"
  proof -
    have "map hn_ref (map (node_of a) (pg_hooks (ac_plugin a))) = map (\<lambda>x. plugin_id (ac_plugin a) @ ''/'' @ x) (map ph_id (pg_hooks (ac_plugin a)))"
      by (simp add: node_of_def)
    moreover have "distinct (map ph_id (pg_hooks (ac_plugin a)))" using validatePlugin_hooks(2) [OF Cons.prems(2)] by simp
    ultimately show ?thesis by (simp only: distinct_map inj_on_def) simp
  qed
  have "hn_ref (node_of a h) \<noteq> hn_ref (node_of b h')"
    if "h \<in> set (pg_hooks (ac_plugin a))" "b \<in> set active" "h' \<in> set (pg_hooks (ac_plugin b))" for b h h'
  proof -
    have "plugin_id (ac_plugin a) \<noteq> plugin_id (ac_plugin b)" using Cons.prems(1) that(2) by auto
    then show ?thesis using node_ref_inject [of "plugin_id (ac_plugin a)" "ph_id h" "plugin_id (ac_plugin b)" "ph_id h'"] a that
      by (auto simp: node_of_def)
  qed
  then have "set (map hn_ref (map (node_of a) (pg_hooks (ac_plugin a)))) \<inter> set (map hn_ref (nodes_of active)) = {}"
    by (fastforce simp: nodes_of_def)
  moreover have "distinct (map hn_ref (nodes_of active))" using Cons by simp
  ultimately show ?case using here by (simp add: nodes_of_def)
qed

text \<open>The nodes of a compilation: the hooks of the active plugins.\<close>

definition plan_nodes :: "compiler_input \<Rightarrow> hook_node list" where
  "plan_nodes inp =
     (case rbind (createPipelineRegistry (ci_plugins inp) (ci_kernelApiVersion inp)) (active_plugins inp) of
        Inl _ \<Rightarrow> []
      | Inr active \<Rightarrow> nodes_of active)"

lemma plan_nodes_distinct: "distinct (map hn_ref (plan_nodes inp))"
  and plan_nodes_phase: "n \<in> set (plan_nodes inp) \<Longrightarrow> known_phase (node_phase n)"
proof -
  have "distinct (map hn_ref (plan_nodes inp)) \<and> (\<forall>n \<in> set (plan_nodes inp). known_phase (node_phase n))"
  proof (cases "rbind (createPipelineRegistry (ci_plugins inp) (ci_kernelApiVersion inp)) (active_plugins inp)")
    case (Inr active)
    then obtain plugins where reg: "createPipelineRegistry (ci_plugins inp) (ci_kernelApiVersion inp) = Inr plugins"
      and act: "active_plugins inp plugins = Inr active" by (auto simp: effects)
    have sub: "subseq (map ac_plugin active) plugins" using act by (rule active_plugins_subseq)
    have valid: "validatePlugin (ac_plugin a) (ci_kernelApiVersion inp) = Inr ()" if "a \<in> set active" for a
    proof (rule registry_plugins(3) [OF reg])
      show "ac_plugin a \<in> set plugins" using that list_emb_set [OF sub, of "ac_plugin a"] by auto
    qed
    have "distinct (map plugin_id (map ac_plugin active))"
      using subseq_map [OF sub, of plugin_id] registry_plugins(2) [OF reg] by (rule subseq_distinct)
    then have "distinct (map hn_ref (nodes_of active))" using valid by (rule nodes_distinct)
    moreover have "known_phase (node_phase n)" if "n \<in> set (nodes_of active)" for n
      using that validatePlugin_hooks(3) [OF valid] by (auto simp: nodes_of_def node_of_def)
    ultimately show ?thesis by (simp add: plan_nodes_def Inr)
  qed (simp add: plan_nodes_def)
  then show "distinct (map hn_ref (plan_nodes inp))" "n \<in> set (plan_nodes inp) \<Longrightarrow> known_phase (node_phase n)" by auto
qed

subsection \<open>Edges only grow\<close>

definition edges_grow :: "edges \<Rightarrow> edges \<Rightarrow> bool" where
  "edges_grow E F \<longleftrightarrow> (\<forall>a. set (E a) \<subseteq> set (F a) \<and> (distinct (E a) \<longrightarrow> distinct (F a)))"

lemma edges_grow_refl [simp]: "edges_grow E E"
  by (simp add: edges_grow_def)

lemma edges_grow_trans: "edges_grow E F \<Longrightarrow> edges_grow F G \<Longrightarrow> edges_grow E G"
  by (auto simp: edges_grow_def)

lemma edges_growD: "edges_grow E F \<Longrightarrow> b \<in> set (E a) \<Longrightarrow> b \<in> set (F a)"
  by (auto simp: edges_grow_def)

lemma add_edge_grow [simp]: "edges_grow E (add_edge a b E)"
  by (auto simp: edges_grow_def add_edge_def)

lemma add_edge_mem [simp]: "b \<in> set (add_edge a b E a)"
  by (simp add: add_edge_def)

lemma rfold_grow:
  assumes "rfold f xs E = Inr F" "\<And>x E F. f x E = Inr F \<Longrightarrow> edges_grow E F"
  shows "edges_grow E F"
proof (rule rfold_keeps [where P = "edges_grow E", OF assms(1)])
  show "edges_grow E t" if "edges_grow E s" "f x s = Inr t" for x s t
    using that(1) assms(2) [OF that(2)] by (rule edges_grow_trans)
qed simp

text \<open>An edge that one iteration adds is there in the end.\<close>

lemma rfold_edge:
  assumes "rfold f xs E = Inr F" "x \<in> set xs" "\<And>E F. f x E = Inr F \<Longrightarrow> b \<in> set (F a)"
    "\<And>x E F. f x E = Inr F \<Longrightarrow> edges_grow E F"
  shows "b \<in> set (F a)"
proof (rule rfold_establishes [where P = "\<lambda>F. b \<in> set (F a)", OF assms(1,2)])
  show "b \<in> set (t a)" if "b \<in> set (s a)" "f y s = Inr t" for y s t
    using assms(4) [OF that(2)] that(1) by (rule edges_growD)
qed (rule assms(3))

lemma link_grow:
  "link_producer n p E = Inr F \<Longrightarrow> edges_grow E F"
  "link_capability avail P n token E = Inr F \<Longrightarrow> edges_grow E F"
  "link_before ns n reference E = Inr F \<Longrightarrow> edges_grow E F"
  "link_after ns n reference E = Inr F \<Longrightarrow> edges_grow E F"
proof -
  show producer: "edges_grow E F" if "link_producer n p E = Inr F" for p E F
    using that by (auto simp: link_producer_def split: if_splits)
  show "edges_grow E F" if "link_capability avail P n token E = Inr F"
    using that producer by (auto simp: link_capability_def split: if_splits intro: rfold_grow)
qed (auto simp: link_before_def link_after_def rbind_Inr_iff)

lemma links_grow:
  "rfold (link_producer n) ps E = Inr F \<Longrightarrow> edges_grow E F"
  "rfold (link_capability avail P n) ts E = Inr F \<Longrightarrow> edges_grow E F"
  "rfold (link_before ns n) rs E = Inr F \<Longrightarrow> edges_grow E F"
  "rfold (link_after ns n) rs E = Inr F \<Longrightarrow> edges_grow E F"
  by (erule rfold_grow, erule link_grow)+

lemma link_node_parts:
  assumes "link_node avail P ns n E = Inr F"
  obtains E1 E2 where "rfold (link_capability avail P n) (ph_requires (hn_hook n)) E = Inr E1"
    "rfold (link_before ns n) (ph_before (hn_hook n)) E1 = Inr E2" "rfold (link_after ns n) (ph_after (hn_hook n)) E2 = Inr F"
    "edges_grow E E1" "edges_grow E1 E2" "edges_grow E2 F"
  using assms links_grow by (auto simp: link_node_def rbind_Inr_iff)

lemma link_node_grow: "link_node avail P ns n E = Inr F \<Longrightarrow> edges_grow E F"
  by (elim link_node_parts) (blast intro: edges_grow_trans)

lemma fold_context_grow: "edges_grow E (fold (\<lambda>p E. if node_phase p = node_phase n then add_edge (hn_ref p) (hn_ref n) E else E) ps E)"
proof (induction ps arbitrary: E)
  case (Cons p ps)
  have "edges_grow E (if node_phase p = node_phase n then add_edge (hn_ref p) (hn_ref n) E else E)" by simp
  then show ?case using Cons by (auto intro: edges_grow_trans)
qed simp

lemma fold_context_edge:
  assumes "p \<in> set ps" "node_phase p = node_phase n"
  shows "hn_ref n \<in> set (fold (\<lambda>p E. if node_phase p = node_phase n then add_edge (hn_ref p) (hn_ref n) E else E) ps E (hn_ref p))"
  using assms(1)
proof (induction ps arbitrary: E)
  case (Cons q ps)
  show ?case
  proof (cases "p = q")
    case True
    have "set (add_edge (hn_ref p) (hn_ref n) E (hn_ref p))
        \<subseteq> set (fold (\<lambda>p E. if node_phase p = node_phase n then add_edge (hn_ref p) (hn_ref n) E else E) ps
                (add_edge (hn_ref p) (hn_ref n) E) (hn_ref p))"
      using fold_context_grow [of "add_edge (hn_ref p) (hn_ref n) E" n ps] unfolding edges_grow_def by blast
    then show ?thesis using True assms(2) subsetD [OF _ add_edge_mem] by simp
  qed (use Cons in simp)
qed simp

lemma link_context_grow: "link_context keys P n key E = Inr F \<Longrightarrow> edges_grow E F"
  by (auto simp: link_context_def fold_context_grow split: if_splits)

lemma link_contexts_grow: "rfold (link_context keys P n) xs E = Inr F \<Longrightarrow> edges_grow E F"
  by (erule rfold_grow) (erule link_context_grow)

subsection \<open>Providers\<close>

lemma add_provider_Inr:
  "add_provider singleton n token P = Inr Q \<Longrightarrow> set (Q u) = set (P u) \<union> (if u = token then {n} else {})"
  by (auto simp: add_provider_def split: if_splits)

lemma add_context_producer_Inr:
  "add_context_producer keys n key P = Inr Q \<Longrightarrow> set (Q u) = set (P u) \<union> (if u = ck_id key then {n} else {})"
  by (auto simp: add_context_producer_def split: if_splits)

lemma rfold_providers:
  assumes "rfold f xs P = Inr Q" "\<And>x P Q. f x P = Inr Q \<Longrightarrow> set (Q u) = set (P u) \<union> (if u \<in> K x then {n} else {})"
  shows "set (Q u) = set (P u) \<union> {m. m = n \<and> (\<exists>x \<in> set xs. u \<in> K x)}"
  using assms(1)
proof (induction xs arbitrary: P)
  case (Cons x xs)
  from Cons.prems obtain R where R: "f x P = Inr R" "rfold f xs R = Inr Q" by (auto simp: rbind_Inr_iff)
  show ?case using Cons.IH [OF R(2)] assms(2) [OF R(1)] by auto
qed simp

lemma rfold_rfold_providers:
  assumes "rfold (\<lambda>n. rfold (f n) (items n)) ns P = Inr Q"
    "\<And>n x P Q. f n x P = Inr Q \<Longrightarrow> set (Q u) = set (P u) \<union> (if u \<in> K x then {n} else {})"
  shows "set (Q u) = set (P u) \<union> {n \<in> set ns. \<exists>x \<in> set (items n). u \<in> K x}"
  using assms(1)
proof (induction ns arbitrary: P)
  case (Cons n ns)
  from Cons.prems obtain R where R: "rfold (f n) (items n) P = Inr R" "rfold (\<lambda>n. rfold (f n) (items n)) ns R = Inr Q"
    by (auto simp: rbind_Inr_iff)
  have "set (R u) = set (P u) \<union> {m. m = n \<and> (\<exists>x \<in> set (items n). u \<in> K x)}"
    using R(1) by (rule rfold_providers) (rule assms(2))
  with Cons.IH [OF R(2)] show ?case by auto
qed simp

lemma capability_providers_set:
  assumes "capability_providers singleton ns = Inr P"
  shows "set (P token) = {n \<in> set ns. token \<in> set (ph_provides (hn_hook n))}"
  using rfold_rfold_providers [OF assms [unfolded capability_providers_def], of token "\<lambda>t. {t}"] add_provider_Inr by fastforce

lemma context_producers_set:
  assumes "context_producers keys ns = Inr P"
  shows "set (P k) = {n \<in> set ns. k \<in> set (map ck_id (ph_providesContext (hn_hook n)))}"
  using rfold_rfold_providers [OF assms [unfolded context_producers_def], of k "\<lambda>key. {ck_id key}"] add_context_producer_Inr by fastforce

subsection \<open>Dependencies\<close>

text \<open>
  What the declarations of the hooks ask for: a provider of a required capability, the hooks named
  by \<open>before\<close> and \<open>after\<close>, and the producers of a required context value that are not of a later phase.
\<close>

definition must_precede :: "hook_node list \<Rightarrow> hook_node \<Rightarrow> hook_node \<Rightarrow> bool" where
  "must_precede ns n m \<longleftrightarrow>
     hn_ref n \<noteq> hn_ref m \<and> (\<exists>token \<in> set (ph_requires (hn_hook m)). token \<in> set (ph_provides (hn_hook n)))
     \<or> (\<exists>r \<in> set (ph_before (hn_hook n)). resolveReference r n ns = Inr (hn_ref m))
     \<or> (\<exists>r \<in> set (ph_after (hn_hook m)). resolveReference r m ns = Inr (hn_ref n))
     \<or> hn_ref n \<noteq> hn_ref m \<and> node_rank n \<le> node_rank m
         \<and> (\<exists>key \<in> set (ph_requiresContext (hn_hook m)). ck_id key \<in> set (map ck_id (ph_providesContext (hn_hook n))))"

lemma takeWhile_index:
  assumes "x \<in> set xs"
  shows "length (takeWhile (\<lambda>y. y \<noteq> x) xs) < length xs" "xs ! length (takeWhile (\<lambda>y. y \<noteq> x) xs) = x"
  using assms by (induction xs) auto

lemma phase_rank_index:
  assumes "known_phase s"
  shows "phase_rank s < length PIPELINE_PHASES" "phase_text (PIPELINE_PHASES ! phase_rank s) = s"
proof -
  have rank: "phase_rank s = length (takeWhile (\<lambda>t. t \<noteq> s) (map phase_text PIPELINE_PHASES))"
    by (simp add: phase_rank_def takeWhile_map comp_def)
  show "phase_rank s < length PIPELINE_PHASES"
    using takeWhile_index(1) [of s "map phase_text PIPELINE_PHASES"] assms by (simp only: known_phase_def rank length_map)
  then show "phase_text (PIPELINE_PHASES ! phase_rank s) = s"
    using takeWhile_index(2) [of s "map phase_text PIPELINE_PHASES"] assms by (simp only: known_phase_def rank nth_map)
qed

lemma phase_rank_inject: "known_phase s \<Longrightarrow> known_phase t \<Longrightarrow> phase_rank s = phase_rank t \<longleftrightarrow> s = t"
  using phase_rank_index(2) by metis

lemma link_capability_edge:
  assumes "link_capability avail P n token E = Inr F" "p \<in> set (P token)"
  shows "node_rank p \<le> node_rank n" "node_rank p = node_rank n \<Longrightarrow> hn_ref p \<noteq> hn_ref n \<Longrightarrow> hn_ref n \<in> set (F (hn_ref p))"
proof -
  have run: "rfold (link_producer n) (P token) E = Inr F" using assms by (auto simp: link_capability_def split: if_splits)
  show "node_rank p \<le> node_rank n"
    by (rule rfold_establishes [where P = "\<lambda>_. node_rank p \<le> node_rank n", OF run assms(2)])
      (auto simp: link_producer_def split: if_splits)
  assume "node_rank p = node_rank n" "hn_ref p \<noteq> hn_ref n"
  then show "hn_ref n \<in> set (F (hn_ref p))"
    by (intro rfold_edge [OF run assms(2)]) (auto simp: link_producer_def split: if_splits)
qed

lemma resolve_in_phase_Inr:
  assumes "resolve_in_phase ns n r = Inr t" "m \<in> set ns" "hn_ref m = t" "distinct (map hn_ref ns)"
  shows "node_phase m = node_phase n"
proof -
  obtain t' where "(case node_at ns t' of None \<Rightarrow> plain ''TypeError''
      | Some m \<Rightarrow> if node_phase m \<noteq> node_phase n then plain ''before/after dependencies must stay within phase'' else Inr t') = Inr t"
    using assms(1) by (auto simp: resolve_in_phase_def rbind_Inr_iff)
  then obtain m' where "node_at ns t = Some m'" "node_phase m' = node_phase n" by (auto split: option.splits if_splits)
  moreover have "node_at ns t = Some m" using node_at_eq [OF assms(4)] assms(2,3) by simp
  ultimately show ?thesis by simp
qed

lemma rfold_each: "rfold f xs s = Inr t \<Longrightarrow> x \<in> set xs \<Longrightarrow> \<exists>u v. f x u = Inr v"
  by (induction xs arbitrary: s) (auto simp: rbind_Inr_iff)

lemma link_before_edge:
  assumes "rfold (link_before ns n) rs E = Inr F" "r \<in> set rs" "resolveReference r n ns = Inr (hn_ref m)" "m \<in> set ns"
    "distinct (map hn_ref ns)"
  shows "node_phase m = node_phase n" "hn_ref m \<in> set (F (hn_ref n))"
proof -
  have one: "resolve_in_phase ns n r = Inr (hn_ref m) \<and> G = add_edge (hn_ref n) (hn_ref m) D" if "link_before ns n r D = Inr G" for D G
    using that assms(3) by (auto simp: link_before_def resolve_in_phase_def rbind_Inr_iff split: option.splits if_splits)
  show "node_phase m = node_phase n" using rfold_each [OF assms(1,2)] one resolve_in_phase_Inr assms(4,5) by blast
  show "hn_ref m \<in> set (F (hn_ref n))"
  proof (rule rfold_edge [OF assms(1,2)])
    show "hn_ref m \<in> set (G (hn_ref n))" if "link_before ns n r D = Inr G" for D G using one [OF that] by simp
  qed (rule link_grow)
qed

lemma link_after_edge:
  assumes "rfold (link_after ns m) rs E = Inr F" "r \<in> set rs" "resolveReference r m ns = Inr (hn_ref n)" "n \<in> set ns"
    "distinct (map hn_ref ns)"
  shows "node_phase n = node_phase m" "hn_ref m \<in> set (F (hn_ref n))"
proof -
  have one: "resolve_in_phase ns m r = Inr (hn_ref n) \<and> G = add_edge (hn_ref n) (hn_ref m) D" if "link_after ns m r D = Inr G" for D G
    using that assms(3) by (auto simp: link_after_def resolve_in_phase_def rbind_Inr_iff split: option.splits if_splits)
  show "node_phase n = node_phase m" using rfold_each [OF assms(1,2)] one resolve_in_phase_Inr assms(4,5) by blast
  show "hn_ref m \<in> set (F (hn_ref n))"
  proof (rule rfold_edge [OF assms(1,2)])
    show "hn_ref m \<in> set (G (hn_ref n))" if "link_after ns m r D = Inr G" for D G using one [OF that] by simp
  qed (rule link_grow)
qed

lemma link_context_edge:
  assumes "link_context keys C m key E = Inr F" "n \<in> set (C (ck_id key))" "hn_ref n \<noteq> hn_ref m" "node_phase n = node_phase m"
  shows "hn_ref m \<in> set (F (hn_ref n))"
proof -
  have "n \<in> set (available_producers C m key)" using assms by (simp add: available_producers_def)
  then have "hn_ref m \<in> set (fold (\<lambda>p E. if node_phase p = node_phase m then add_edge (hn_ref p) (hn_ref m) E else E)
      (available_producers C m key) E (hn_ref n))"
    using assms(4) by (rule fold_context_edge)
  with assms(1) show ?thesis by (auto simp: link_context_def split: if_splits)
qed

text \<open>What a node asks for when it is linked: a hook of an earlier phase, or an edge.\<close>

definition linked :: "edges \<Rightarrow> hook_node \<Rightarrow> hook_node \<Rightarrow> bool" where
  "linked E n m \<longleftrightarrow> node_rank n < node_rank m \<or> node_phase n = node_phase m \<and> hn_ref m \<in> set (E (hn_ref n))"

lemma linked_grow: "edges_grow E F \<Longrightarrow> linked E n m \<Longrightarrow> linked F n m"
  by (auto simp: linked_def edges_grow_def)

lemma link_node_linked:
  assumes run: "link_node avail P ns k E = Inr F" and ns: "distinct (map hn_ref ns)" "n \<in> set ns" "m \<in> set ns"
    "known_phase (node_phase n)" "known_phase (node_phase m)"
    and P: "\<And>token. set (P token) = {n \<in> set ns. token \<in> set (ph_provides (hn_hook n))}"
  shows "k = m \<Longrightarrow> hn_ref n \<noteq> hn_ref m \<Longrightarrow> token \<in> set (ph_requires (hn_hook m)) \<Longrightarrow> token \<in> set (ph_provides (hn_hook n)) \<Longrightarrow> linked F n m"
    and "k = n \<Longrightarrow> r \<in> set (ph_before (hn_hook n)) \<Longrightarrow> resolveReference r n ns = Inr (hn_ref m) \<Longrightarrow> linked F n m"
    and "k = m \<Longrightarrow> r \<in> set (ph_after (hn_hook m)) \<Longrightarrow> resolveReference r m ns = Inr (hn_ref n) \<Longrightarrow> linked F n m"
proof -
  obtain E1 E2 where parts: "rfold (link_capability avail P k) (ph_requires (hn_hook k)) E = Inr E1"
    "rfold (link_before ns k) (ph_before (hn_hook k)) E1 = Inr E2" "rfold (link_after ns k) (ph_after (hn_hook k)) E2 = Inr F"
    and grow: "edges_grow E1 F" "edges_grow E2 F"
    using run by (elim link_node_parts) (blast intro: edges_grow_trans)
  show "linked F n m" if "k = m" "hn_ref n \<noteq> hn_ref m" "token \<in> set (ph_requires (hn_hook m))" "token \<in> set (ph_provides (hn_hook n))"
  proof -
    have n: "n \<in> set (P token)" using P ns(2) that(4) by simp
    have "linked E1 n m"
    proof (rule rfold_establishes [where P = "\<lambda>E. linked E n m", OF parts(1) [unfolded that(1)] that(3)])
      show "linked t n m" if run: "link_capability avail P m token s = Inr t" for s t
        using link_capability_edge [OF run n] phase_rank_inject [OF ns(4,5)] \<open>hn_ref n \<noteq> hn_ref m\<close> by (auto simp: linked_def)
      show "linked t n m" if "linked s n m" "link_capability avail P m y s = Inr t" for y s t
        using link_grow(2) [OF that(2)] that(1) by (rule linked_grow)
    qed
    with grow(1) show ?thesis by (rule linked_grow)
  qed
  show "linked F n m" if "k = n" "r \<in> set (ph_before (hn_hook n))" "resolveReference r n ns = Inr (hn_ref m)"
    using link_before_edge [OF parts(2) [unfolded that(1)] that(2,3) ns(3,1)] by (intro linked_grow [OF grow(2)]) (simp add: linked_def)
  show "linked F n m" if "k = m" "r \<in> set (ph_after (hn_hook m))" "resolveReference r m ns = Inr (hn_ref n)"
    using link_after_edge [OF parts(3) [unfolded that(1)] that(2,3) ns(2,1)] by (simp add: linked_def)
qed

lemma plan_edges_linked:
  assumes run: "plan_edges inp keys ns = Inr E" and ns: "distinct (map hn_ref ns)" "n \<in> set ns" "m \<in> set ns"
    "known_phase (node_phase n)" "known_phase (node_phase m)"
    and dep: "must_precede ns n m"
  shows "linked E n m"
proof -
  obtain P E1 C where P: "capability_providers (ci_singletonCapabilities inp) ns = Inr P"
    and link: "rfold (link_node (ci_availableCapabilities inp) P ns) ns (\<lambda>_. []) = Inr E1"
    and C: "context_producers keys ns = Inr C"
    and ctx: "rfold (\<lambda>n. rfold (link_context keys C n) (ph_requiresContext (hn_hook n))) ns E1 = Inr E"
    using run by (auto simp: plan_edges_def rbind_Inr_iff)
  have grow: "edges_grow E1 E" using ctx by (rule rfold_grow) (rule link_contexts_grow)
  note linked_node = link_node_linked [OF _ ns capability_providers_set [OF P]]
  have in_E1: "linked E1 n m" if "k \<in> set ns" "\<And>D G. link_node (ci_availableCapabilities inp) P ns k D = Inr G \<Longrightarrow> linked G n m" for k
  proof (rule rfold_establishes [where P = "\<lambda>E. linked E n m", OF link that(1)])
    show "linked t n m" if "linked s n m" "link_node (ci_availableCapabilities inp) P ns y s = Inr t" for y s t
      using link_node_grow [OF that(2)] that(1) by (rule linked_grow)
  qed (rule that(2))
  show ?thesis
    using dep unfolding must_precede_def
  proof (elim disjE conjE bexE)
    fix key
    assume key: "hn_ref n \<noteq> hn_ref m" "node_rank n \<le> node_rank m" "key \<in> set (ph_requiresContext (hn_hook m))"
      "ck_id key \<in> set (map ck_id (ph_providesContext (hn_hook n)))"
    then have n: "n \<in> set (C (ck_id key))" using context_producers_set [OF C] ns(2) by simp
    show ?thesis
    proof (cases "node_phase n = node_phase m")
      case True
      have "hn_ref m \<in> set (E (hn_ref n))"
      proof (rule rfold_edge [OF ctx ns(3)])
        fix D G
        assume D: "rfold (link_context keys C m) (ph_requiresContext (hn_hook m)) D = Inr G"
        then show "hn_ref m \<in> set (G (hn_ref n))"
          using key(3)
        proof (rule rfold_edge)
          show "hn_ref m \<in> set (G (hn_ref n))" if "link_context keys C m key D = Inr G" for D G
            using that n key(1) True by (rule link_context_edge)
        qed (rule link_context_grow)
      qed (rule link_contexts_grow)
      with True show ?thesis by (simp add: linked_def)
    next
      case False
      with phase_rank_inject [OF ns(4,5)] key(2) show ?thesis by (simp add: linked_def)
    qed
  qed (blast intro: linked_grow [OF grow] in_E1 [OF ns(2)] in_E1 [OF ns(3)] linked_node)+
qed

subsection \<open>The compiled plan\<close>

definition plan_order :: "execution_plan \<Rightarrow> compiled_hook list" where
  "plan_order plan = concat (map (xp_hooksByPhase plan) PIPELINE_PHASES)"

lemma PIPELINE_PHASES_all [simp]: "p \<in> set PIPELINE_PHASES" and PIPELINE_PHASES_distinct [simp]: "distinct PIPELINE_PHASES"
  by (cases p; simp add: PIPELINE_PHASES_def) (simp add: PIPELINE_PHASES_def)

lemma phase_text_inject [simp]: "phase_text p = phase_text q \<longleftrightarrow> p = q"
proof
  have "distinct (map phase_text PIPELINE_PHASES)" by (simp add: PIPELINE_PHASES_def)
  then have "inj_on phase_text (set PIPELINE_PHASES)" by (simp add: distinct_map)
  then show "phase_text p = phase_text q \<Longrightarrow> p = q" by (rule inj_onD) simp_all
qed simp

lemma list_all2_zip_map_of:
  "list_all2 P xs ys \<Longrightarrow> distinct xs \<Longrightarrow> x \<in> set xs \<Longrightarrow> \<exists>y. map_of (zip xs ys) x = Some y \<and> P x y"
  by (induction rule: list_all2_induct) auto

lemma compile_hook_fields:
  "compile_hook ports p n = Inr h \<Longrightarrow> ch_ref h = hn_ref n \<and> ch_phase h = p \<and> ch_pluginId h = node_plugin_id n"
  by (auto simp: compile_hook_def rbind_Inr_iff)

text \<open>A compilation that succeeds, taken apart.\<close>

lemma compiled:
  assumes "compileExecutionPlan lc sha256 inp = Inr plan"
  obtains E keys where "plan_edges inp keys (plan_nodes inp) = Inr E" "xp_contextKeys plan = keys"
    "\<And>p. \<exists>ns. topologicalSort lc E (filter (\<lambda>n. node_phase n = phase_text p) (plan_nodes inp)) = Inr ns
           \<and> list_all2 (\<lambda>n h. compile_hook (ci_availablePorts inp) p n = Inr h) ns (xp_hooksByPhase plan p)"
proof -
  obtain plugins active E css where reg: "createPipelineRegistry (ci_plugins inp) (ci_kernelApiVersion inp) = Inr plugins"
    and act: "active_plugins inp plugins = Inr active"
    and E: "plan_edges inp (context_key_map plugins) (nodes_of active) = Inr E"
    and css: "traverse (compile_phase lc (ci_availablePorts inp) E (nodes_of active)) PIPELINE_PHASES = Inr css"
    and plan: "plan = assemble_plan sha256 inp plugins (hooks_table css)"
    using assms by (auto simp: compileExecutionPlan_def rbind_Inr_iff)
  have nodes: "plan_nodes inp = nodes_of active" using reg act by (simp add: plan_nodes_def)
  show thesis
  proof (rule that)
    show "plan_edges inp (context_key_map plugins) (plan_nodes inp) = Inr E" using E nodes by simp
    show "xp_contextKeys plan = context_key_map plugins" using plan by (simp add: assemble_plan_def)
    fix p
    have "list_all2 (\<lambda>p cs. compile_phase lc (ci_availablePorts inp) E (nodes_of active) p = Inr cs) PIPELINE_PHASES css"
      using css by (simp only: traverse_Inr_iff)
    from list_all2_zip_map_of [OF this, of p]
    have "compile_phase lc (ci_availablePorts inp) E (nodes_of active) p = Inr (xp_hooksByPhase plan p)"
      using plan by (auto simp: assemble_plan_def hooks_table_def)
    then show "\<exists>ns. topologicalSort lc E (filter (\<lambda>n. node_phase n = phase_text p) (plan_nodes inp)) = Inr ns
        \<and> list_all2 (\<lambda>n h. compile_hook (ci_availablePorts inp) p n = Inr h) ns (xp_hooksByPhase plan p)"
      using nodes by (simp only: compile_phase_def rbind_Inr_iff traverse_Inr_iff)
  qed
qed

lemma plan_edges_distinct:
  assumes "plan_edges inp keys ns = Inr E"
  shows "\<forall>a. distinct (E a)"
proof -
  obtain P E1 C where link: "rfold (link_node (ci_availableCapabilities inp) P ns) ns (\<lambda>_. []) = Inr E1"
    and ctx: "rfold (\<lambda>n. rfold (link_context keys C n) (ph_requiresContext (hn_hook n))) ns E1 = Inr E"
    using assms by (auto simp: plan_edges_def rbind_Inr_iff)
  have "edges_grow (\<lambda>_. []) E1" using link by (rule rfold_grow) (rule link_node_grow)
  moreover have "edges_grow E1 E" using ctx by (rule rfold_grow) (rule link_contexts_grow)
  ultimately show ?thesis by (simp add: edges_grow_def)
qed

text \<open>One phase: its hooks are its nodes, in an order that respects the edges.\<close>

lemma compiled_phase:
  assumes "topologicalSort lc E (filter (\<lambda>n. node_phase n = phase_text p) ns) = Inr ordered"
    "list_all2 (\<lambda>n h. compile_hook ports p n = Inr h) ordered hs" "distinct (map hn_ref ns)" "\<forall>a. distinct (E a)"
  shows "mset (map ch_ref hs) = mset (map hn_ref (filter (\<lambda>n. node_phase n = phase_text p) ns))"
    and "well_ordered (phase_edges E (filter (\<lambda>n. node_phase n = phase_text p) ns)) (map ch_ref hs)"
    and "h \<in> set hs \<Longrightarrow> \<exists>n \<in> set ns. node_phase n = phase_text p \<and> compile_hook ports p n = Inr h"
proof -
  let ?ns = "filter (\<lambda>n. node_phase n = phase_text p) ns"
  have "distinct (map hn_ref ?ns)" using assms(3) by (rule distinct_map_filter)
  from topologicalSort_exact [OF this assms(4), of lc] assms(1)
  have ordered: "mset ordered = mset ?ns" "well_ordered (phase_edges E ?ns) (map hn_ref ordered)" by simp_all
  have refs: "map ch_ref hs = map hn_ref ordered"
    using assms(2) by (induction rule: list_all2_induct) (auto dest: compile_hook_fields)
  have "mset (map hn_ref ordered) = mset (map hn_ref ?ns)" using ordered(1) by (simp only: mset_map)
  with refs show "mset (map ch_ref hs) = mset (map hn_ref ?ns)" by simp
  show "well_ordered (phase_edges E ?ns) (map ch_ref hs)" using ordered(2) refs by simp
  show "\<exists>n \<in> set ns. node_phase n = phase_text p \<and> compile_hook ports p n = Inr h" if h: "h \<in> set hs"
  proof -
    obtain n where n: "n \<in> set ordered" "compile_hook ports p n = Inr h" using list_all2_memD2 [OF assms(2) h] by blast
    have "set ordered = set ?ns" using ordered(1) by (rule mset_eq_setD)
    with n show ?thesis by auto
  qed
qed

lemma before_in_append: "before_in xs a b \<Longrightarrow> before_in (us @ xs @ ws) a b"
proof -
  assume "before_in xs a b"
  then obtain us' vs' ws' where "xs = us' @ a # vs' @ b # ws'" by (auto simp: before_in_def)
  then have "us @ xs @ ws = (us @ us') @ a # vs' @ b # (ws' @ ws)" by simp
  then show ?thesis unfolding before_in_def by blast
qed

lemma before_in_concat:
  assumes "before_in ps p q" "a \<in> set (f p)" "b \<in> set (f q)"
  shows "before_in (concat (map f ps)) a b"
proof -
  obtain us vs ws where ps: "ps = us @ p # vs @ q # ws" using assms(1) by (auto simp: before_in_def)
  obtain a1 a2 where a: "f p = a1 @ a # a2" using assms(2) by (auto dest: split_list)
  obtain b1 b2 where b: "f q = b1 @ b # b2" using assms(3) by (auto dest: split_list)
  have "concat (map f ps) = (concat (map f us) @ a1) @ a # (a2 @ concat (map f vs) @ b1) @ b # (b2 @ concat (map f ws))"
    using ps a b by simp
  then show ?thesis unfolding before_in_def by blast
qed

lemma before_in_nth: "i < j \<Longrightarrow> j < length xs \<Longrightarrow> before_in xs (xs ! i) (xs ! j)"
proof -
  assume ij: "i < j" "j < length xs"
  have "xs = take j xs @ xs ! j # drop (Suc j) xs" using ij(2) by (rule id_take_nth_drop)
  moreover have "take j xs = take i xs @ xs ! i # drop (Suc i) (take j xs)"
    using ij id_take_nth_drop [of i "take j xs"] by simp
  ultimately have "xs = take i xs @ xs ! i # drop (Suc i) (take j xs) @ xs ! j # drop (Suc j) xs" by (metis append_Cons append_assoc)
  then show ?thesis unfolding before_in_def by blast
qed

lemma plan_order_refs: "map ch_ref (plan_order plan) = concat (map (\<lambda>p. map ch_ref (xp_hooksByPhase plan p)) PIPELINE_PHASES)"
  by (simp add: plan_order_def map_concat comp_def)

lemma compiled_edges:
  assumes "compileExecutionPlan lc sha256 inp = Inr plan"
  obtains E where "\<And>n m. n \<in> set (plan_nodes inp) \<Longrightarrow> m \<in> set (plan_nodes inp) \<Longrightarrow> must_precede (plan_nodes inp) n m \<Longrightarrow> linked E n m"
    "\<And>p. mset (map ch_ref (xp_hooksByPhase plan p)) = mset (map hn_ref (filter (\<lambda>n. node_phase n = phase_text p) (plan_nodes inp)))"
    "\<And>p. well_ordered (phase_edges E (filter (\<lambda>n. node_phase n = phase_text p) (plan_nodes inp))) (map ch_ref (xp_hooksByPhase plan p))"
    "\<And>p h. h \<in> set (xp_hooksByPhase plan p) \<Longrightarrow>
       \<exists>n \<in> set (plan_nodes inp). node_phase n = phase_text p \<and> compile_hook (ci_availablePorts inp) p n = Inr h"
proof -
  obtain E keys where E: "plan_edges inp keys (plan_nodes inp) = Inr E"
    and phases: "\<And>p. \<exists>ns. topologicalSort lc E (filter (\<lambda>n. node_phase n = phase_text p) (plan_nodes inp)) = Inr ns
           \<and> list_all2 (\<lambda>n h. compile_hook (ci_availablePorts inp) p n = Inr h) ns (xp_hooksByPhase plan p)"
    using assms by (rule compiled) blast
  note one_phase = compiled_phase [OF _ _ plan_nodes_distinct plan_edges_distinct [OF E]]
  show thesis
  proof (rule that)
    show "linked E n m" if "n \<in> set (plan_nodes inp)" "m \<in> set (plan_nodes inp)" "must_precede (plan_nodes inp) n m" for n m
      using E plan_nodes_distinct that(1,2) plan_nodes_phase [OF that(1)] plan_nodes_phase [OF that(2)] that(3)
      by (rule plan_edges_linked)
    fix p
    obtain ns where ns: "topologicalSort lc E (filter (\<lambda>n. node_phase n = phase_text p) (plan_nodes inp)) = Inr ns"
      "list_all2 (\<lambda>n h. compile_hook (ci_availablePorts inp) p n = Inr h) ns (xp_hooksByPhase plan p)"
      using phases [of p] by blast
    show "mset (map ch_ref (xp_hooksByPhase plan p)) = mset (map hn_ref (filter (\<lambda>n. node_phase n = phase_text p) (plan_nodes inp)))"
      "well_ordered (phase_edges E (filter (\<lambda>n. node_phase n = phase_text p) (plan_nodes inp))) (map ch_ref (xp_hooksByPhase plan p))"
      using one_phase [OF ns] by blast+
    show "\<exists>n \<in> set (plan_nodes inp). node_phase n = phase_text p \<and> compile_hook (ci_availablePorts inp) p n = Inr h"
      if "h \<in> set (xp_hooksByPhase plan p)" for h
      using one_phase(3) [OF ns that] by blast
  qed
qed

lemma distinct_concat_disjoint:
  assumes "distinct ps" "\<And>p. distinct (f p)" "\<And>p q. p \<noteq> q \<Longrightarrow> set (f p) \<inter> set (f q) = {}"
  shows "distinct (concat (map f ps))"
  using assms(1)
proof (induction ps)
  case (Cons p ps)
  have "set (f p) \<inter> set (f q) = {}" if "q \<in> set ps" for q using Cons.prems that by (intro assms(3)) auto
  then show ?case using Cons assms(2) by auto
qed simp

lemma plan_refs_of_phase:
  assumes "\<And>p. mset (map ch_ref (xp_hooksByPhase plan p)) = mset (map hn_ref (filter (\<lambda>n. node_phase n = phase_text p) (plan_nodes inp)))"
  shows "set (map ch_ref (xp_hooksByPhase plan p)) = {hn_ref n |n. n \<in> set (plan_nodes inp) \<and> node_phase n = phase_text p}"
  using mset_eq_setD [OF assms [of p]] by auto

lemma plan_refs_distinct:
  assumes phases: "\<And>p. mset (map ch_ref (xp_hooksByPhase plan p)) = mset (map hn_ref (filter (\<lambda>n. node_phase n = phase_text p) (plan_nodes inp)))"
  shows "distinct (map ch_ref (plan_order plan))"
  unfolding plan_order_refs
proof (rule distinct_concat_disjoint)
  have nodes: "n = m" if "n \<in> set (plan_nodes inp)" "m \<in> set (plan_nodes inp)" "hn_ref n = hn_ref m" for n m
    using plan_nodes_distinct [of inp] that by (auto simp: distinct_map inj_on_def)
  show "distinct (map ch_ref (xp_hooksByPhase plan p))" for p
    using mset_eq_imp_distinct_iff [OF phases [of p]] distinct_map_filter [OF plan_nodes_distinct] by blast
  show "set (map ch_ref (xp_hooksByPhase plan p)) \<inter> set (map ch_ref (xp_hooksByPhase plan q)) = {}" if "p \<noteq> q" for p q
  proof (rule equals0I, elim IntE)
    fix x
    assume "x \<in> set (map ch_ref (xp_hooksByPhase plan p))" "x \<in> set (map ch_ref (xp_hooksByPhase plan q))"
    then obtain n m where "n \<in> set (plan_nodes inp)" "node_phase n = phase_text p" "x = hn_ref n"
      "m \<in> set (plan_nodes inp)" "node_phase m = phase_text q" "x = hn_ref m"
      unfolding plan_refs_of_phase [OF phases] by blast
    with nodes [of n m] that show False by simp
  qed
qed simp

lemma set_concat_phases: "set (concat (map f PIPELINE_PHASES)) = (\<Union>p. set (f p))"
  by auto

lemma plan_refs_set:
  assumes phases: "\<And>p. mset (map ch_ref (xp_hooksByPhase plan p)) = mset (map hn_ref (filter (\<lambda>n. node_phase n = phase_text p) (plan_nodes inp)))"
  shows "set (map ch_ref (plan_order plan)) = set (map hn_ref (plan_nodes inp))"
proof -
  have "set (map ch_ref (plan_order plan)) = (\<Union>p. {hn_ref n |n. n \<in> set (plan_nodes inp) \<and> node_phase n = phase_text p})"
    unfolding plan_order_refs set_concat_phases plan_refs_of_phase [OF phases] ..
  also have "\<dots> = set (map hn_ref (plan_nodes inp))"
  proof -
    have "\<exists>p. node_phase n = phase_text p" if "n \<in> set (plan_nodes inp)" for n
      using plan_nodes_phase [OF that] by (auto simp: known_phase_def)
    then show ?thesis by fastforce
  qed
  finally show ?thesis .
qed

subsection \<open>Execution\<close>

text \<open>A session that can run hooks with these references, and one that ran them up to a hook's own error.\<close>

definition can_run :: "string list \<Rightarrow> pipeline_session \<Rightarrow> bool" where
  "can_run refs s \<longleftrightarrow> \<not> se_finished s \<and> distinct refs \<and> set refs \<inter> set (se_executed s) = {}
     \<and> int (length (se_facts s) + length refs) \<le> se_maxFacts s"

definition ran_refs :: "string list \<Rightarrow> pipeline_session \<Rightarrow> pipeline_error + 'a \<Rightarrow> pipeline_session \<Rightarrow> bool" where
  "ran_refs refs s r t \<longleftrightarrow> \<not> se_finished t \<and> se_maxFacts t = se_maxFacts s
     \<and> (\<exists>us. se_executed t = se_executed s @ us \<and> prefix us refs \<and> length (se_facts t) \<le> length (se_facts s) + length us
          \<and> (case r of Inr _ \<Rightarrow> us = refs | Inl (Thrown _) \<Rightarrow> False | Inl _ \<Rightarrow> True))"

lemma ran_refs_append: "ran_refs xs s (Inr a) s1 \<Longrightarrow> ran_refs ys s1 r t \<Longrightarrow> ran_refs (xs @ ys) s r t"
proof -
  assume xs: "ran_refs xs s (Inr a) s1" and "ran_refs ys s1 r t"
  then obtain us where us: "se_executed t = se_executed s1 @ us" "prefix us ys" "length (se_facts t) \<le> length (se_facts s1) + length us"
    "case r of Inr _ \<Rightarrow> us = ys | Inl (Thrown _) \<Rightarrow> False | Inl _ \<Rightarrow> True" and t: "\<not> se_finished t" "se_maxFacts t = se_maxFacts s1"
    by (auto simp: ran_refs_def)
  have "case r of Inr _ \<Rightarrow> xs @ us = xs @ ys | Inl (Thrown _) \<Rightarrow> False | Inl _ \<Rightarrow> True"
    using us(4) by (cases r) (auto split: pipeline_error.splits)
  with xs us(1-3) t show ?thesis unfolding ran_refs_def by (intro conjI exI [of _ "xs @ us"]) auto
qed

lemma ran_refs_stop: "ran_refs xs s (Inl e :: _ + 'a) t \<Longrightarrow> ran_refs (xs @ ys) s (Inl e :: _ + 'b) t"
  by (auto simp: ran_refs_def)

lemma ran_refs_denied: "ran_refs xs s (Inr a) t \<Longrightarrow> ran_refs (xs @ ys) s (Inl (Guard_denied_error i p)) t"
  by (auto simp: ran_refs_def)

lemma ran_refs_result: "ran_refs xs s (Inr a) t \<Longrightarrow> ran_refs xs s (Inr b) t"
  by (simp add: ran_refs_def)

lemma ran_refs_Nil [simp]: "\<not> se_finished s \<Longrightarrow> ran_refs [] s (Inr a) s"
  by (simp add: ran_refs_def)

lemma can_run_after: "can_run (xs @ ys) s \<Longrightarrow> ran_refs xs s (Inr a) t \<Longrightarrow> can_run ys t"
  by (auto simp: can_run_def ran_refs_def)

lemma can_run_prefix: "can_run (xs @ ys) s \<Longrightarrow> can_run xs s"
  by (auto simp: can_run_def)

lemma executeHook_ran:
  assumes "executeHook plan h env s = (r, t)" "can_run [ch_ref h] s"
  shows "ran_refs [ch_ref h] s r t"
  using assms(1)
proof (cases rule: executeHook_cases)
  case refused
  with assms(2) show ?thesis by (auto simp: can_run_def)
next
  case (ran c out facts)
  then have "length facts \<le> 1" by auto
  moreover have "case r of Inr _ \<Rightarrow> [ch_ref h] = [ch_ref h] | Inl (Thrown _) \<Rightarrow> False | Inl _ \<Rightarrow> True"
    using ran(7) by (cases r) auto
  ultimately show ?thesis unfolding ran_refs_def using ran(1,5) by (intro conjI exI [of _ "[ch_ref h]"]) auto
qed

lemma execute_hooks_ran:
  "execute_hooks plan envs hs s = (r, t) \<Longrightarrow> can_run (map ch_ref hs) s \<Longrightarrow> ran_refs (map ch_ref hs) s r t"
proof (induction hs arbitrary: s r)
  case Nil
  then show ?case by (auto simp: can_run_def)
next
  case (Cons h hs)
  obtain r1 s1 where one: "executeHook plan h (envs (ch_ref h)) s = (r1, s1)" by (cases "executeHook plan h (envs (ch_ref h)) s")
  have can: "can_run ([ch_ref h] @ map ch_ref hs) s" using Cons.prems(2) by simp
  have ran1: "ran_refs [ch_ref h] s r1 s1" using one can_run_prefix [OF can] by (rule executeHook_ran)
  have "ran_refs ([ch_ref h] @ map ch_ref hs) s r t"
  proof (cases r1)
    case (Inl e)
    with Cons.prems(1) one ran1 show ?thesis by (auto dest: ran_refs_stop)
  next
    case (Inr x)
    have ran1: "ran_refs [ch_ref h] s (Inr x) s1" using ran1 Inr by simp
    have can1: "can_run (map ch_ref hs) s1" using can ran1 by (rule can_run_after)
    show ?thesis
    proof (cases "\<exists>res. x = Some res \<and> fst res = ''denied''")
      case True
      with Cons.prems(1) one Inr ran_refs_denied [OF ran1] show ?thesis by auto
    next
      case False
      obtain r2 t2 where rest2: "execute_hooks plan envs hs s1 = (r2, t2)" by (cases "execute_hooks plan envs hs s1")
      have r: "t2 = t \<and> r = (case r2 of Inl e \<Rightarrow> Inl e | Inr rs \<Rightarrow> Inr ((case x of None \<Rightarrow> [] | Some res \<Rightarrow> [res]) @ rs))"
        using Cons.prems(1) one Inr False rest2 by (cases r2; cases x) auto
      then have rest: "execute_hooks plan envs hs s1 = (r2, t)" using rest2 by simp
      have "ran_refs ([ch_ref h] @ map ch_ref hs) s r2 t" using ran1 Cons.IH [OF rest can1] by (rule ran_refs_append)
      with r show ?thesis by (cases r2) (auto intro: ran_refs_result ran_refs_stop [where ys = "[]", simplified])
    qed
  qed
  then show ?case by simp
qed

lemma executePhases_ran:
  "executePhases plan envs ps s = (r, t) \<Longrightarrow> can_run (concat (map (\<lambda>p. map ch_ref (xp_hooksByPhase plan p)) ps)) s
     \<Longrightarrow> ran_refs (concat (map (\<lambda>p. map ch_ref (xp_hooksByPhase plan p)) ps)) s r t"
proof (induction ps arbitrary: s)
  case Nil
  then show ?case by (auto simp: can_run_def)
next
  case (Cons p ps)
  let ?refs = "map ch_ref (xp_hooksByPhase plan p)" and ?rest = "concat (map (\<lambda>p. map ch_ref (xp_hooksByPhase plan p)) ps)"
  obtain r1 s1 where one: "execute_hooks plan envs (xp_hooksByPhase plan p) s = (r1, s1)"
    by (cases "execute_hooks plan envs (xp_hooksByPhase plan p) s")
  have can: "can_run (?refs @ ?rest) s" using Cons.prems(2) by simp
  have ran1: "ran_refs ?refs s r1 s1" using one can_run_prefix [OF can] by (rule execute_hooks_ran)
  have "ran_refs (?refs @ ?rest) s r t"
  proof (cases r1)
    case (Inl e)
    with Cons.prems(1) one ran1 show ?thesis by (auto simp: executePhase_def dest: ran_refs_stop)
  next
    case (Inr x)
    have "can_run ?rest s1" using can ran1 unfolding Inr by (rule can_run_after)
    moreover have "executePhases plan envs ps s1 = (r, t)" using Cons.prems(1) one Inr by (simp add: executePhase_def)
    ultimately have "ran_refs ?rest s1 r t" by (intro Cons.IH)
    with ran1 show ?thesis unfolding Inr by (rule ran_refs_append)
  qed
  then show ?case by simp
qed

lemma ports_granted:
  assumes "traverse (port_of available) permissions = Inr ports"
  shows "map fst ports = permissions \<and> (\<forall>kv \<in> set ports. available (fst kv) = Some (snd kv))"
  using assms
proof (induction permissions arbitrary: ports)
  case (Cons p permissions)
  then obtain kv rest where "port_of available p = Inr kv" "traverse (port_of available) permissions = Inr rest" "ports = kv # rest"
    by (auto simp: rbind_Inr_iff)
  moreover from this(1) have "fst kv = p" "available (fst kv) = Some (snd kv)" by (auto simp: port_of_def split: option.splits)
  ultimately show ?case using Cons.IH by simp
qed simp

lemma compiled_ports:
  assumes "compile_hook available p n = Inr h"
  shows "map fst (ch_ports h) = mf_permissions (pg_manifest (hn_plugin n)) \<and> (\<forall>kv \<in> set (ch_ports h). available (fst kv) = Some (snd kv))"
proof -
  from assms have "traverse (port_of available) (mf_permissions (pg_manifest (hn_plugin n))) = Inr (ch_ports h)"
    by (auto simp: compile_hook_def rbind_Inr_iff)
  then show ?thesis by (rule ports_granted)
qed

subsection \<open>Theorems\<close>

text \<open>
  C24: the topological sort of a phase is exact: it returns every node once, after all its
  predecessors, when the edges between the nodes have no cycle, and it fails when they have one.
\<close>

theorem topological_sort_exact:
  assumes "distinct (map hn_ref ns)" "\<forall>a. distinct (E a)"
  shows "case topologicalSort lc E ns of
           Inl _ \<Rightarrow> \<not> acyclic (phase_edges E ns)
         | Inr result \<Rightarrow> acyclic (phase_edges E ns) \<and> mset result = mset ns
                         \<and> well_ordered (phase_edges E ns) (map hn_ref result)"
  using assms by (rule topologicalSort_exact)

text \<open>
  C30: a compiled plan runs every hook of every active plugin exactly once, in the phase that it
  declares, with the configuration of its plugin. It is granted what it declares and nothing else: the
  artifacts it reads and those it writes, the context values it requires and those it provides, and to
  read those and the private values of its own plugin, and the ports its plugin has the permission for.
\<close>

theorem plan_runs_each_hook_once:
  assumes "compileExecutionPlan lc sha256 inp = Inr plan"
  shows "distinct (map ch_ref (plan_order plan))
    \<and> set (map ch_ref (plan_order plan)) = set (map hn_ref (plan_nodes inp))
    \<and> mset (map ch_ref (xp_hooksByPhase plan p)) = mset (map hn_ref (filter (\<lambda>n. node_phase n = phase_text p) (plan_nodes inp)))
    \<and> (\<forall>h \<in> set (xp_hooksByPhase plan p). \<exists>n \<in> set (plan_nodes inp).
         ch_ref h = hn_ref n \<and> ch_phase h = p \<and> node_phase n = phase_text p \<and> ch_pluginId h = node_plugin_id n
         \<and> ch_run h = ph_run (hn_hook n) \<and> ch_config h = hn_config n
         \<and> set (ch_readableArtifacts h) = set (artifact_names (ph_readsArtifacts (hn_hook n)))
         \<and> set (ch_writableArtifacts h) = set (artifact_names (ph_writesArtifacts (hn_hook n)))
         \<and> set (ch_requiredContext h) = ck_id ` set (ph_requiresContext (hn_hook n))
         \<and> set (ch_writableContext h) = ck_id ` set (ph_providesContext (hn_hook n))
         \<and> set (ch_readableContext h) = ck_id ` (set (ph_requiresContext (hn_hook n)) \<union> set (ph_providesContext (hn_hook n))
              \<union> {key \<in> set (pg_contextKeys (hn_plugin n)). ck_ownerPluginId key = node_plugin_id n \<and> ck_visibility key = Private_key})
         \<and> map fst (ch_ports h) = mf_permissions (pg_manifest (hn_plugin n))
         \<and> (\<forall>kv \<in> set (ch_ports h). ci_availablePorts inp (fst kv) = Some (snd kv)))"
proof -
  obtain E where phases: "\<And>p. mset (map ch_ref (xp_hooksByPhase plan p)) = mset (map hn_ref (filter (\<lambda>n. node_phase n = phase_text p) (plan_nodes inp)))"
    and hooks: "\<And>p h. h \<in> set (xp_hooksByPhase plan p) \<Longrightarrow>
       \<exists>n \<in> set (plan_nodes inp). node_phase n = phase_text p \<and> compile_hook (ci_availablePorts inp) p n = Inr h"
    using assms by (rule compiled_edges) blast
  have "\<exists>n \<in> set (plan_nodes inp).
         ch_ref h = hn_ref n \<and> ch_phase h = p \<and> node_phase n = phase_text p \<and> ch_pluginId h = node_plugin_id n
         \<and> ch_run h = ph_run (hn_hook n) \<and> ch_config h = hn_config n
         \<and> set (ch_readableArtifacts h) = set (artifact_names (ph_readsArtifacts (hn_hook n)))
         \<and> set (ch_writableArtifacts h) = set (artifact_names (ph_writesArtifacts (hn_hook n)))
         \<and> set (ch_requiredContext h) = ck_id ` set (ph_requiresContext (hn_hook n))
         \<and> set (ch_writableContext h) = ck_id ` set (ph_providesContext (hn_hook n))
         \<and> set (ch_readableContext h) = ck_id ` (set (ph_requiresContext (hn_hook n)) \<union> set (ph_providesContext (hn_hook n))
              \<union> {key \<in> set (pg_contextKeys (hn_plugin n)). ck_ownerPluginId key = node_plugin_id n \<and> ck_visibility key = Private_key})
         \<and> map fst (ch_ports h) = mf_permissions (pg_manifest (hn_plugin n))
         \<and> (\<forall>kv \<in> set (ch_ports h). ci_availablePorts inp (fst kv) = Some (snd kv))"
    if h: "h \<in> set (xp_hooksByPhase plan p)" for h
  proof -
    obtain n where n: "n \<in> set (plan_nodes inp)" "node_phase n = phase_text p" "compile_hook (ci_availablePorts inp) p n = Inr h"
      using hooks [OF h] by blast
    have ports: "map fst (ch_ports h) = mf_permissions (pg_manifest (hn_plugin n))"
      "\<forall>kv \<in> set (ch_ports h). ci_availablePorts inp (fst kv) = Some (snd kv)"
      using compiled_ports [OF n(3)] by simp_all
    from n(3) ports show ?thesis
      by (intro bexI [OF _ n(1)]) (auto simp: compile_hook_def rbind_Inr_iff n(2) readable_ids_def)
  qed
  with plan_refs_distinct [OF phases] plan_refs_set [OF phases] phases [of p] show ?thesis by blast
qed

text \<open>
  C27: a compiled plan respects the declared dependencies: a hook runs after the providers of the
  capabilities it requires, after the hooks it names in \<open>after\<close> and before those in \<open>before\<close>, and
  after every producer, of its phase or an earlier one, of a context value it requires.
\<close>

theorem plan_respects_dependencies:
  assumes "compileExecutionPlan lc sha256 inp = Inr plan"
    and "n \<in> set (plan_nodes inp)" "m \<in> set (plan_nodes inp)" "must_precede (plan_nodes inp) n m"
  shows "before_in (map ch_ref (plan_order plan)) (hn_ref n) (hn_ref m)"
proof -
  obtain E where linked: "linked E n m"
    and phases: "\<And>p. mset (map ch_ref (xp_hooksByPhase plan p)) = mset (map hn_ref (filter (\<lambda>n. node_phase n = phase_text p) (plan_nodes inp)))"
    and ordered: "\<And>p. well_ordered (phase_edges E (filter (\<lambda>n. node_phase n = phase_text p) (plan_nodes inp))) (map ch_ref (xp_hooksByPhase plan p))"
    using assms(1) by (rule compiled_edges) (use assms(2-4) in blast)
  note known = plan_nodes_phase [OF assms(2)] plan_nodes_phase [OF assms(3)]
  define p where "p = PIPELINE_PHASES ! node_rank n"
  define q where "q = PIPELINE_PHASES ! node_rank m"
  have phase: "phase_text p = node_phase n" "phase_text q = node_phase m" using phase_rank_index(2) known by (simp_all add: p_def q_def)
  have mem: "hn_ref n \<in> set (map ch_ref (xp_hooksByPhase plan p))" "hn_ref m \<in> set (map ch_ref (xp_hooksByPhase plan q))"
    unfolding plan_refs_of_phase [OF phases] using assms(2,3) phase by auto
  from linked show ?thesis
    unfolding linked_def plan_order_refs
  proof (elim disjE conjE)
    assume "node_rank n < node_rank m"
    then have "before_in PIPELINE_PHASES p q" unfolding p_def q_def using phase_rank_index(1) [OF known(2)] by (rule before_in_nth)
    then show "before_in (concat (map (\<lambda>p. map ch_ref (xp_hooksByPhase plan p)) PIPELINE_PHASES)) (hn_ref n) (hn_ref m)"
      using mem by (rule before_in_concat)
  next
    assume same: "node_phase n = node_phase m" "hn_ref m \<in> set (E (hn_ref n))"
    then have "p = q" using phase by (simp add: p_def q_def)
    have "(hn_ref n, hn_ref m) \<in> phase_edges E (filter (\<lambda>n. node_phase n = phase_text p) (plan_nodes inp))"
      using assms(2,3) same phase by (auto simp: phase_edges_def)
    with ordered [of p] have "before_in (map ch_ref (xp_hooksByPhase plan p)) (hn_ref n) (hn_ref m)"
      by (rule well_ordered_before) (use mem(2) \<open>p = q\<close> in simp)
    note here = this
    obtain us ws where split: "PIPELINE_PHASES = us @ p # ws" using split_list [OF PIPELINE_PHASES_all] by blast
    show "before_in (concat (map (\<lambda>p. map ch_ref (xp_hooksByPhase plan p)) PIPELINE_PHASES)) (hn_ref n) (hn_ref m)"
      unfolding split map_append concat_append list.map concat.simps by (rule before_in_append) (rule here)
  qed
qed

text \<open>
  C40: a session that executes a compiled plan of no more hooks than its limit of facts never meets
  a hook twice and never exceeds the limit: it runs all the hooks in the order of the plan, or a
  first part of them up to a hook that fails or denies.
\<close>

theorem compiled_plan_executes:
  assumes "compileExecutionPlan lc sha256 inp = Inr plan" "new_session artifacts objs limit = Inr s"
    "int (length (plan_order plan)) \<le> se_maxFacts s" "executeAll plan envs s = (r, t)"
  shows "(case r of
            Inr _ \<Rightarrow> se_executed t = map ch_ref (plan_order plan)
          | Inl (Thrown _) \<Rightarrow> False
          | Inl _ \<Rightarrow> prefix (se_executed t) (map ch_ref (plan_order plan)))
    \<and> \<not> se_finished t \<and> length (se_facts t) \<le> length (se_executed t)"
proof -
  have phases: "mset (map ch_ref (xp_hooksByPhase plan p)) = mset (map hn_ref (filter (\<lambda>n. node_phase n = phase_text p) (plan_nodes inp)))" for p
    using assms(1) by (rule compiled_edges) blast
  have s: "\<not> se_finished s" "se_executed s = []" "se_facts s = []"
    using assms(2) by (auto simp: new_session_def rbind_Inr_iff Let_def split: if_splits)
  have "can_run (map ch_ref (plan_order plan)) s"
    using s assms(3) plan_refs_distinct [OF phases] by (simp add: can_run_def)
  then have "ran_refs (map ch_ref (plan_order plan)) s r t"
    using assms(4) unfolding plan_order_refs executeAll_def by (intro executePhases_ran)
  with s show ?thesis by (auto simp: ran_refs_def split: sum.splits pipeline_error.splits)
qed

subsection \<open>A plan\<close>

text \<open>A plugin that declares a consumer before the hook that provides what it requires.\<close>

definition example_context_key :: context_key where
  "example_context_key = \<lparr>ck_object = 1, ck_id = ''meter:count'', ck_ownerPluginId = ''meter'', ck_visibility = Private_key, ck_mode = Artifact_mode\<rparr>"

definition example_noop :: "slot hook_program" where
  "example_noop = New_object False (\<lambda>result. case result of
       VRef q \<Rightarrow> Set_field q ''outcome'' (VStr ''noop'') (\<lambda>_. Finish result)
     | _ \<Rightarrow> Raise (PlainError ''object''))"

definition example_report :: plugin_hook where
  "example_report = \<lparr>ph_id = ''report'', ph_phase = ''usage.measure'', ph_kind = Contribute_hook, ph_requires = [''cap:count''], ph_provides = [],
     ph_readsArtifacts = JArr [JStr ''originalRequest''], ph_writesArtifacts = JArr [JStr ''usage''],
     ph_requiresContext = [example_context_key], ph_providesContext = [], ph_before = [], ph_after = [],
     ph_bestEffort = False, ph_timeoutMs = None, ph_isApplicable = None, ph_run = (\<lambda>_. example_noop)\<rparr>"

definition example_count :: plugin_hook where
  "example_count = \<lparr>ph_id = ''count'', ph_phase = ''usage.measure'', ph_kind = Contribute_hook, ph_requires = [], ph_provides = [''cap:count''],
     ph_readsArtifacts = JArr [], ph_writesArtifacts = JArr [],
     ph_requiresContext = [], ph_providesContext = [example_context_key], ph_before = [], ph_after = [],
     ph_bestEffort = False, ph_timeoutMs = None, ph_isApplicable = None, ph_run = (\<lambda>_. example_noop)\<rparr>"

definition example_plugin :: pipeline_plugin where
  "example_plugin = \<lparr>pg_manifest = \<lparr>mf_id = ''meter'', mf_desc = ''Meter'', mf_apiVersion = JFin 1, mf_behaviorVersion = JFin 1, mf_configVersion = JFin 1,
       mf_availability = Required_plugin, mf_userConfigurable = False, mf_userToggleable = False, mf_permissions = [],
       mf_requires = [''cap:count''], mf_provides = [''cap:count'']\<rparr>,
     pg_defaultConfig = JNull, pg_parse = Inr, pg_configUi = [], pg_contextKeys = [example_context_key],
     pg_hooks = [example_report, example_count], pg_isApplicable = None\<rparr>"

definition example_compiler_input :: compiler_input where
  "example_compiler_input = \<lparr>ci_kernelApiVersion = JFin 1, ci_plugins = [example_plugin], ci_settingsRevision = ''s1'', ci_settings = [],
     ci_cacheKey = ''c1'', ci_facts = JNull, ci_availableCapabilities = [], ci_singletonCapabilities = [], ci_availablePorts = Map.empty\<rparr>"

definition example_nodes :: "hook_node list" where
  "example_nodes = map (\<lambda>h. node_of \<lparr>ac_plugin = example_plugin, ac_setting = None, ac_config = JNull\<rparr> h) [example_report, example_count]"

definition example_edges :: edges where
  "example_edges = (\<lambda>_. [])(''meter/count'' := [''meter/report''])"

lemma example_input_compiles:
  obtains plan where "compileExecutionPlan text_compare (\<lambda>s. s) example_compiler_input = Inr plan" "length (plan_order plan) = 2"
proof -
  have "case compileExecutionPlan text_compare (\<lambda>s. s) example_compiler_input of Inl _ \<Rightarrow> False | Inr plan \<Rightarrow> length (plan_order plan) = 2"
    by code_simp
  then show thesis by (auto intro: that split: sum.splits)
qed

lemma example_precedes:
  "list_ex (\<lambda>n. list_ex (\<lambda>m. hn_ref n = ''meter/count'' \<and> hn_ref m = ''meter/report'' \<and> must_precede (plan_nodes example_compiler_input) n m)
     (plan_nodes example_compiler_input)) (plan_nodes example_compiler_input)"
  by code_simp

lemma example_keys:
  "list_all (\<lambda>n. ph_requiresContext (hn_hook n) @ ph_providesContext (hn_hook n) = [example_context_key]
     \<and> pg_contextKeys (hn_plugin n) = [example_context_key]) (plan_nodes example_compiler_input)"
  by code_simp

theorem topological_sort_exact_witness:
  "distinct (map hn_ref example_nodes) \<and>
   (case topologicalSort text_compare example_edges example_nodes of
      Inl _ \<Rightarrow> \<not> acyclic (phase_edges example_edges example_nodes)
    | Inr result \<Rightarrow> acyclic (phase_edges example_edges example_nodes) \<and> mset result = mset example_nodes
                    \<and> well_ordered (phase_edges example_edges example_nodes) (map hn_ref result))"
proof
  show nodes: "distinct (map hn_ref example_nodes)" by code_simp
  have "\<forall>a. distinct (example_edges a)" by (simp add: example_edges_def)
  with nodes show "case topologicalSort text_compare example_edges example_nodes of
      Inl _ \<Rightarrow> \<not> acyclic (phase_edges example_edges example_nodes)
    | Inr result \<Rightarrow> acyclic (phase_edges example_edges example_nodes) \<and> mset result = mset example_nodes
                    \<and> well_ordered (phase_edges example_edges example_nodes) (map hn_ref result)"
    by (rule topological_sort_exact)
qed

theorem plan_runs_each_hook_once_witness:
  "\<exists>plan. compileExecutionPlan text_compare (\<lambda>s. s) example_compiler_input = Inr plan
     \<and> distinct (map ch_ref (plan_order plan)) \<and> set (map ch_ref (plan_order plan)) = {''meter/report'', ''meter/count''}
     \<and> (\<forall>h \<in> set (plan_order plan). set (ch_readableContext h) = {''meter:count''})"
proof -
  obtain plan where plan: "compileExecutionPlan text_compare (\<lambda>s. s) example_compiler_input = Inr plan" by (rule example_input_compiles)
  have refs: "map hn_ref (plan_nodes example_compiler_input) = [''meter/report'', ''meter/count'']" by code_simp
  have keys: "\<forall>n \<in> set (plan_nodes example_compiler_input). ph_requiresContext (hn_hook n) @ ph_providesContext (hn_hook n) = [example_context_key]
      \<and> pg_contextKeys (hn_plugin n) = [example_context_key]"
    using example_keys by (simp add: list_all_iff)
  have readable: "set (ch_readableContext h) = {''meter:count''}" if "h \<in> set (plan_order plan)" for h
  proof -
    from that obtain p where p: "h \<in> set (xp_hooksByPhase plan p)" by (auto simp: plan_order_def)
    from plan_runs_each_hook_once [OF plan, of p]
    have "\<forall>h \<in> set (xp_hooksByPhase plan p). \<exists>n \<in> set (plan_nodes example_compiler_input). ch_pluginId h = node_plugin_id n
        \<and> set (ch_readableContext h) = ck_id ` (set (ph_requiresContext (hn_hook n)) \<union> set (ph_providesContext (hn_hook n))
              \<union> {key \<in> set (pg_contextKeys (hn_plugin n)). ck_ownerPluginId key = node_plugin_id n \<and> ck_visibility key = Private_key})"
      by (elim conjE) (rule ballI, drule (1) bspec, elim bexE conjE, rule bexI, rule conjI)
    from bspec [OF this p] obtain n where n: "n \<in> set (plan_nodes example_compiler_input)"
      and granted: "set (ch_readableContext h) = ck_id ` (set (ph_requiresContext (hn_hook n)) \<union> set (ph_providesContext (hn_hook n))
              \<union> {key \<in> set (pg_contextKeys (hn_plugin n)). ck_ownerPluginId key = node_plugin_id n \<and> ck_visibility key = Private_key})"
      by (elim bexE conjE)
    from keys n have "ph_requiresContext (hn_hook n) @ ph_providesContext (hn_hook n) = [example_context_key]"
      and all: "set (pg_contextKeys (hn_plugin n)) = {example_context_key}" by auto
    from this(1) have "set (ph_requiresContext (hn_hook n) @ ph_providesContext (hn_hook n)) = {example_context_key}" by simp
    then have "set (ph_requiresContext (hn_hook n)) \<union> set (ph_providesContext (hn_hook n)) = {example_context_key}" by simp
    note keys_of = this all
    show ?thesis unfolding granted keys_of by (auto simp: example_context_key_def)
  qed
  note each = plan_runs_each_hook_once [OF plan]
  have "distinct (map ch_ref (plan_order plan))" "set (map ch_ref (plan_order plan)) = set (map hn_ref (plan_nodes example_compiler_input))"
    by (rule conjunct1 [OF each], rule conjunct1 [OF conjunct2 [OF each]])
  with plan readable show ?thesis unfolding refs by auto
qed

theorem plan_respects_dependencies_witness:
  "\<exists>plan. compileExecutionPlan text_compare (\<lambda>s. s) example_compiler_input = Inr plan
     \<and> before_in (map ch_ref (plan_order plan)) ''meter/count'' ''meter/report''"
proof -
  obtain plan where plan: "compileExecutionPlan text_compare (\<lambda>s. s) example_compiler_input = Inr plan" by (rule example_input_compiles)
  obtain n m where nm: "n \<in> set (plan_nodes example_compiler_input)" "m \<in> set (plan_nodes example_compiler_input)"
    "must_precede (plan_nodes example_compiler_input) n m" and refs: "hn_ref n = ''meter/count''" "hn_ref m = ''meter/report''"
    using example_precedes unfolding list_ex_iff by blast
  from plan_respects_dependencies [OF plan nm] have "before_in (map ch_ref (plan_order plan)) ''meter/count'' ''meter/report''"
    unfolding refs .
  with plan show ?thesis by blast
qed

theorem compiled_plan_executes_witness:
  "\<exists>plan s r t. compileExecutionPlan text_compare (\<lambda>s. s) example_compiler_input = Inr plan
     \<and> new_session [(''originalRequest'', VRef 0)] example_objects None = Inr s \<and> executeAll plan (\<lambda>_. example_env) s = (r, t)
     \<and> (case r of
          Inr _ \<Rightarrow> se_executed t = map ch_ref (plan_order plan)
        | Inl (Thrown _) \<Rightarrow> False
        | Inl _ \<Rightarrow> prefix (se_executed t) (map ch_ref (plan_order plan)))
     \<and> \<not> se_finished t"
proof -
  obtain plan where plan: "compileExecutionPlan text_compare (\<lambda>s. s) example_compiler_input = Inr plan" "length (plan_order plan) = 2"
    by (rule example_input_compiles)
  have "case new_session [(''originalRequest'', VRef 0)] example_objects None of Inl _ \<Rightarrow> False | Inr s \<Rightarrow> 2 \<le> se_maxFacts s" by code_simp
  then obtain s where s: "new_session [(''originalRequest'', VRef 0)] example_objects None = Inr s" "2 \<le> se_maxFacts s" by (auto split: sum.splits)
  obtain r t where run: "executeAll plan (\<lambda>_. example_env) s = (r, t)" by (cases "executeAll plan (\<lambda>_. example_env) s")
  have "int (length (plan_order plan)) \<le> se_maxFacts s" using plan(2) s(2) by simp
  from compiled_plan_executes [OF plan(1) s(1) this run] plan(1) s(1) run show ?thesis by blast
qed

end
