(* ===== verification/Cliproxy_Errors.thy ===== *)
theory Cliproxy_Errors
  imports Provider_Evidence
begin

section \<open>Errors of the CLI proxy\<close>

text \<open>
  \<open>packages/providers/src/cliproxy/errors.ts\<close>: what a Provider, its transport or its stream did wrong,
  classified for the client and for the settlement of the attempt. An error that is no
  \<open>CliProxyError\<close> is known by the cause code that \<open>providerFetchCauseCode\<close> finds in it.
\<close>

datatype error_stage = Configuration_stage | Request_stage | Response_headers_stage | Stream_read_stage | Protocol_stage

record diagnostic =
  dg_stage :: error_stage
  dg_retryable :: bool
  dg_eventsReceived :: int
  dg_causeCode :: "string option"

record cliproxy_error =
  ce_code :: string
  ce_message :: string
  ce_status :: int
  ce_details :: "(string \<times> jsval) list"
  ce_retryable :: bool
  ce_stage :: error_stage
  ce_costExposure :: cost_exposure
  ce_finalUsageEvidence :: usage_evidence
  ce_failureReason :: "credential_failure_reason option"
  ce_diagnostic :: "diagnostic option"

datatype thrown = Cliproxy_thrown cliproxy_error | Other_thrown "string option"

text \<open>The options of the constructor; an absent option is \<open>None\<close>.\<close>

record error_options =
  eo_retryable :: bool
  eo_stage :: error_stage
  eo_costExposure :: "cost_exposure option"
  eo_finalUsageEvidence :: "usage_evidence option"
  eo_failureReason :: "credential_failure_reason option"
  eo_details :: "(string \<times> jsval) list"
  eo_diagnostic :: "diagnostic option"

definition no_options :: error_options where
  "no_options = \<lparr>eo_retryable = False, eo_stage = Request_stage, eo_costExposure = None, eo_finalUsageEvidence = None,
     eo_failureReason = None, eo_details = [], eo_diagnostic = None\<rparr>"

definition new_error :: "string \<Rightarrow> string \<Rightarrow> int \<Rightarrow> error_options \<Rightarrow> cliproxy_error" where
  "new_error code message status opts =
     (let exposure = (case eo_costExposure opts of
                        Some x \<Rightarrow> x | None \<Rightarrow> if eo_stage opts = Configuration_stage then Not_started else Accruing)
      in \<lparr>ce_code = code, ce_message = message, ce_status = status, ce_details = eo_details opts,
          ce_retryable = eo_retryable opts, ce_stage = eo_stage opts, ce_costExposure = exposure,
          ce_finalUsageEvidence = (case eo_finalUsageEvidence opts of
                                     Some e \<Rightarrow> e | None \<Rightarrow> if exposure = Not_started then Absent_usage else Pending_usage),
          ce_failureReason = eo_failureReason opts, ce_diagnostic = eo_diagnostic opts\<rparr>)"

subsection \<open>Texts that may be shown\<close>

text \<open>\<open>/^[A-Za-z0-9_.-]{1,64}$/\<close>\<close>

definition is_token_char :: "char \<Rightarrow> bool" where
  "is_token_char c \<longleftrightarrow> is_alnum_char c \<or> c \<in> {CHR ''_'', CHR ''.'', CHR ''-''}"

definition is_safe_token :: "string \<Rightarrow> bool" where
  "is_safe_token = matches_class is_token_char 1 64"

definition safeErrorToken :: "jsval \<Rightarrow> string option" where
  "safeErrorToken v = (case v of JStr s \<Rightarrow> if is_safe_token s then Some s else None | _ \<Rightarrow> None)"

definition recordFromUnknown :: "jsval \<Rightarrow> (string \<times> jsval) list option" where
  "recordFromUnknown v = (case v of JObj kvs \<Rightarrow> Some kvs | _ \<Rightarrow> None)"

text \<open>\<open>record?.key\<close>, \<open>a ?? b\<close>\<close>

definition opt_get :: "(string \<times> jsval) list option \<Rightarrow> string \<Rightarrow> jsval" where
  "opt_get r k = (case r of None \<Rightarrow> JUndefined | Some kvs \<Rightarrow> js_get kvs k)"

definition js_or :: "jsval \<Rightarrow> jsval \<Rightarrow> jsval" where
  "js_or a b = (if is_nullish a then b else a)"

definition first_some :: "'a option \<Rightarrow> 'a option \<Rightarrow> 'a option" where
  "first_some a b = (case a of Some x \<Rightarrow> Some x | None \<Rightarrow> b)"

definition cliProxyDiagnostic :: "error_stage \<Rightarrow> bool \<Rightarrow> int \<Rightarrow> string option \<Rightarrow> diagnostic" where
  "cliProxyDiagnostic stage retryable events cause =
     \<lparr>dg_stage = stage, dg_retryable = retryable, dg_eventsReceived = max 0 (min 1000000 events),
      dg_causeCode = (case cause of Some s \<Rightarrow> if is_safe_token s then Some s else None | None \<Rightarrow> None)\<rparr>"

text \<open>The code and the type of an upstream error.\<close>

definition safeUpstreamError :: "jsval \<Rightarrow> string option \<times> string option" where
  "safeUpstreamError body =
     (let record = recordFromUnknown body;
          response = recordFromUnknown (opt_get record ''response'');
          nested = recordFromUnknown (opt_get record ''body'');
          error = first_some (recordFromUnknown (opt_get record ''error''))
                    (first_some (recordFromUnknown (opt_get response ''error'')) (recordFromUnknown (opt_get nested ''error'')));
          eventType = safeErrorToken (opt_get record ''type'')
      in (safeErrorToken (js_or (opt_get error ''code'') (opt_get record ''code'')),
          safeErrorToken (js_or (opt_get error ''type'') (js_or (opt_get record ''error_type'')
            (case eventType of Some t \<Rightarrow> if t = ''error'' then JUndefined else JStr t | None \<Rightarrow> JUndefined)))))"

subsection \<open>Errors by their origin\<close>

definition cliProxyConfigurationError :: cliproxy_error where
  "cliProxyConfigurationError =
     new_error ''cliproxy_configuration_error'' ''CLIProxyAPI configuration is invalid'' 503 (no_options\<lparr>eo_stage := Configuration_stage\<rparr>)"

definition cliProxyProtocolError :: "string \<Rightarrow> cliproxy_error" where
  "cliProxyProtocolError message =
     new_error ''cliproxy_protocol_error'' message 502
       (no_options\<lparr>eo_stage := Protocol_stage,
          eo_diagnostic := Some (cliProxyDiagnostic Stream_read_stage False 0 (Some ''CLIPROXY_PROTOCOL_ERROR''))\<rparr>)"

record credential_failure =
  cf_publicCode :: string
  cf_failureReason :: credential_failure_reason
  cf_message :: string
  cf_retryable :: bool

definition cliProxyCredentialFailure :: "string option \<Rightarrow> credential_failure option" where
  "cliProxyCredentialFailure code =
     (if code = Some ''auth_unauthorized'' then Some
        \<lparr>cf_publicCode = ''cliproxy_provider_credentials_unauthorized'', cf_failureReason = Auth_unauthorized,
         cf_message = ''CLIProxyAPI provider credential is unauthorized'', cf_retryable = False\<rparr>
      else if code = Some ''auth_unavailable'' then Some
        \<lparr>cf_publicCode = ''cliproxy_provider_credentials_unavailable'', cf_failureReason = Auth_unavailable,
         cf_message = ''CLIProxyAPI provider credential is temporarily unavailable'', cf_retryable = True\<rparr>
      else if code = Some ''auth_not_found'' then Some
        \<lparr>cf_publicCode = ''cliproxy_provider_credentials_not_found'', cf_failureReason = Auth_not_found,
         cf_message = ''CLIProxyAPI provider credential is unavailable'', cf_retryable = False\<rparr>
      else if code = Some ''model_cooldown'' then Some
        \<lparr>cf_publicCode = ''cliproxy_provider_credentials_cooldown'', cf_failureReason = Model_cooldown,
         cf_message = ''CLIProxyAPI provider credential is cooling down'', cf_retryable = True\<rparr>
      else None)"

definition isRetryableUpstreamCode :: "string \<Rightarrow> bool" where
  "isRetryableUpstreamCode code = list_ex (has_segment code) [''unavailable'', ''upstream_5xx'', ''stream_failed'']"

definition cliProxyRequestError :: "int \<Rightarrow> string option \<Rightarrow> (string \<times> string \<times> int) option" where
  "cliProxyRequestError status upstreamType =
     (if upstreamType = Some ''invalid_request_error'' \<or> upstreamType = Some ''bad_request_error'' \<or> status = 400
      then Some (''cliproxy_invalid_request'', ''Provider rejected the request as invalid'', 400)
      else if upstreamType = Some ''not_found_error'' \<or> status = 404
      then Some (''cliproxy_not_found'', ''Provider could not find the requested resource'', 404)
      else if status = 409 then Some (''cliproxy_conflict'', ''Provider rejected the request due to a conflict'', 409)
      else if status = 422 then Some (''cliproxy_unprocessable_request'', ''Provider could not process the request'', 422)
      else if status \<ge> 400 \<and> status < 500 \<and> status \<noteq> 408
      then Some (''cliproxy_provider_error'', ''CLIProxyAPI rejected the provider request'', status)
      else None)"

definition token_detail :: "string \<Rightarrow> string option \<Rightarrow> (string \<times> jsval) list" where
  "token_detail k t = (case t of None \<Rightarrow> [] | Some s \<Rightarrow> [(k, JStr s)])"

definition cliProxyHttpError :: "int \<Rightarrow> jsval \<Rightarrow> cliproxy_error" where
  "cliProxyHttpError status body =
     (case safeUpstreamError body of (upstreamCode, upstreamType) \<Rightarrow>
       (let details = [(''upstreamStatus'', jint status)] @ token_detail ''upstreamCode'' upstreamCode
                        @ token_detail ''upstreamType'' upstreamType;
            at_headers = (\<lambda>retryable cause. no_options\<lparr>eo_retryable := retryable, eo_stage := Response_headers_stage,
              eo_details := details, eo_diagnostic := Some (cliProxyDiagnostic Response_headers_stage retryable 0 cause)\<rparr>);
            unavailable = (\<lambda>message. new_error ''cliproxy_unavailable'' message 502 (at_headers True upstreamCode))
        in case cliProxyCredentialFailure upstreamCode of
             Some f \<Rightarrow>
               new_error (cf_publicCode f) (cf_message f) 502
                 ((at_headers (cf_retryable f) upstreamCode)\<lparr>eo_failureReason := Some (cf_failureReason f)\<rparr>)
           | None \<Rightarrow>
               if status = 401 \<or> upstreamType = Some ''authentication_error''
               then new_error ''cliproxy_authentication_failed'' ''CLIProxyAPI rejected the service credential'' 502 (at_headers False upstreamCode)
               else if status = 403 \<or> upstreamType = Some ''permission_error''
               then new_error ''cliproxy_access_denied'' ''CLIProxyAPI denied the provider request'' 502 (at_headers False upstreamCode)
               else if status = 429 \<or> upstreamType = Some ''rate_limit_error''
               then new_error ''cliproxy_rate_limited'' ''CLIProxyAPI provider capacity is temporarily unavailable'' 429 (at_headers True upstreamCode)
               else case cliProxyRequestError status upstreamType of
                      Some (code, message, st) \<Rightarrow> new_error code message st (at_headers False upstreamCode)
                    | None \<Rightarrow>
                        if status = 502 \<and> (case upstreamCode of None \<Rightarrow> False | Some c \<Rightarrow> isRetryableUpstreamCode c)
                        then unavailable ''CLIProxyAPI provider capacity is temporarily unavailable''
                        else if status = 502 \<and> upstreamCode \<noteq> None
                        then new_error ''cliproxy_provider_error'' ''CLIProxyAPI rejected the provider request'' 502 (at_headers False upstreamCode)
                        else if status \<ge> 500 then unavailable ''CLIProxyAPI is temporarily unavailable''
                        else new_error ''cliproxy_provider_error'' ''CLIProxyAPI rejected the provider request'' 502 (at_headers False upstreamCode)))"

text \<open>The signal: \<open>None\<close> when it is not aborted, otherwise its reason.\<close>

definition cliProxyFetchError :: "thrown \<Rightarrow> thrown option \<Rightarrow> cliproxy_error" where
  "cliProxyFetchError err signal =
     (case err of
        Cliproxy_thrown e \<Rightarrow> e
      | Other_thrown cause \<Rightarrow>
          (case signal of
             Some (Cliproxy_thrown e) \<Rightarrow> e
           | Some (Other_thrown _) \<Rightarrow>
               new_error ''cliproxy_request_aborted'' ''CLIProxyAPI request was cancelled'' 499
                 (no_options\<lparr>eo_costExposure := Some Accruing, eo_finalUsageEvidence := Some Pending_usage,
                    eo_diagnostic := Some (cliProxyDiagnostic Response_headers_stage False 0 (Some ''ABORT_ERR''))\<rparr>)
           | None \<Rightarrow>
               new_error ''cliproxy_fetch_failed'' ''CLIProxyAPI request failed'' 502
                 (no_options\<lparr>eo_retryable := True, eo_stage := Response_headers_stage, eo_costExposure := Some Accruing,
                    eo_finalUsageEvidence := Some Pending_usage,
                    eo_diagnostic := Some (cliProxyDiagnostic Response_headers_stage True 0 cause)\<rparr>)))"

definition in_stream :: "bool \<Rightarrow> int \<Rightarrow> string option \<Rightarrow> error_options" where
  "in_stream retryable events cause =
     no_options\<lparr>eo_retryable := retryable, eo_stage := Stream_read_stage, eo_costExposure := Some Accruing,
       eo_finalUsageEvidence := Some Pending_usage,
       eo_diagnostic := Some (cliProxyDiagnostic Stream_read_stage retryable events cause)\<rparr>"

definition cliProxyStreamError :: "thrown \<Rightarrow> int \<Rightarrow> thrown option \<Rightarrow> cliproxy_error" where
  "cliProxyStreamError err events signal =
     (case err of
        Cliproxy_thrown e \<Rightarrow>
          if (case ce_diagnostic e of None \<Rightarrow> False | Some d \<Rightarrow> dg_stage d = Stream_read_stage \<and> dg_eventsReceived d = events) then e
          else new_error (ce_code e) (ce_message e) (ce_status e)
                 \<lparr>eo_retryable = ce_retryable e, eo_stage = Stream_read_stage, eo_costExposure = Some (ce_costExposure e),
                  eo_finalUsageEvidence = Some (ce_finalUsageEvidence e), eo_failureReason = ce_failureReason e,
                  eo_details = ce_details e,
                  eo_diagnostic = Some (cliProxyDiagnostic Stream_read_stage (ce_retryable e) events
                    (case ce_diagnostic e of None \<Rightarrow> None | Some d \<Rightarrow> dg_causeCode d))\<rparr>
      | Other_thrown cause \<Rightarrow>
          (case signal of
             Some reason \<Rightarrow>
               (if (case reason of Cliproxy_thrown r \<Rightarrow> ce_code r = ''cliproxy_timeout'' | Other_thrown _ \<Rightarrow> False)
                then new_error ''cliproxy_timeout'' ''CLIProxyAPI request timed out'' 504 (in_stream True events (Some ''TIMEOUT''))
                else new_error ''cliproxy_request_aborted'' ''CLIProxyAPI request was cancelled'' 499 (in_stream False events (Some ''ABORT_ERR'')))
           | None \<Rightarrow> new_error ''cliproxy_stream_failed'' ''CLIProxyAPI stream ended unexpectedly'' 502 (in_stream True events cause)))"

subsection \<open>The failure of an attempt\<close>

definition cliproxy_failure_class :: "cliproxy_error \<Rightarrow> provider_failure_class" where
  "cliproxy_failure_class e =
     (if ce_code e = ''cliproxy_rate_limited'' then Rate_limited
      else if list_ex (\<lambda>w. has_sub w (ce_code e)) [''timeout'', ''lifetime'', ''idle''] then Timeout
      else if list_ex (\<lambda>w. has_sub w (ce_code e)) [''fetch_failed'', ''connect'', ''socket''] then Connect_error
      else if ce_retryable e \<and> ce_status e \<ge> 500 then Upstream_5xx
      else Non_retryable)"

definition cliProxyAttemptFailure :: "cliproxy_error \<Rightarrow> attempt_failure" where
  "cliProxyAttemptFailure e =
     \<lparr>af_failureClass = JStr (failure_class_text (cliproxy_failure_class e)), af_failureReason = ce_failureReason e,
      af_costExposure = ce_costExposure e, af_finalUsageEvidence = ce_finalUsageEvidence e, af_trustedUsage = None\<rparr>"

record error_response =
  er_status :: int
  er_failure :: attempt_failure
  er_code :: string
  er_message :: string
  er_providerCode :: "string option"
  er_providerType :: "string option"

definition cliProxyErrorResponse :: "thrown \<Rightarrow> error_response" where
  "cliProxyErrorResponse err =
     (let e = (case err of
                 Cliproxy_thrown e \<Rightarrow> e
               | Other_thrown _ \<Rightarrow> new_error ''cliproxy_request_failed'' ''CLIProxyAPI request failed'' 502 (no_options\<lparr>eo_retryable := True\<rparr>))
      in \<lparr>er_status = ce_status e, er_failure = cliProxyAttemptFailure e, er_code = ce_code e, er_message = ce_message e,
          er_providerCode = safeErrorToken (js_get (ce_details e) ''upstreamCode''),
          er_providerType = safeErrorToken (js_get (ce_details e) ''upstreamType'')\<rparr>)"

end
