(* ===== verification/Streaming_Json.thy ===== *)
theory Streaming_Json
  imports Js_Json
begin

section \<open>The streaming JSON parser\<close>

text \<open>
  \<open>packages/providers/src/cliproxy/streaming-json.ts\<close>: a value is assembled from the tokens of a
  tokenizer while they come. Objects and arrays are shared and mutated while they are open, so they are
  cells of a store, and a reference is a value or the index of a cell. The tokenizer (a package) and
  the decoder of bytes (\<open>TextDecoder\<close>) are parameters: functions from their state and an input (\<open>None\<close>
  at the end) to an output and a state.
\<close>

subsection \<open>Tokens and state\<close>

datatype json_token =
    Start_object | End_object | Start_array | End_array
  | Key_value string | String_value string | Number_value string | Null_value | True_value | False_value

datatype object_state = Key_or_end | Key_only | Colon | Object_value | Object_comma_or_end

datatype array_state = Value_or_end | Array_value | Array_comma_or_end

datatype jref = Prim jsval | Cell nat

datatype cell = Obj_cell "(string \<times> jref) list" | Arr_cell "jref list"

datatype container_frame =
    Object_frame nat object_state "string option"
  | Array_frame nat array_state

text \<open>\<open>jb_root\<close> is \<open>None\<close> while \<open>rootAssigned\<close> is false; the top of the stack comes first.\<close>

record json_builder =
  jb_cells :: "cell list"
  jb_stack :: "container_frame list"
  jb_root :: "jref option"
  jb_rootComplete :: bool

definition new_builder :: json_builder where
  "new_builder = \<lparr>jb_cells = [], jb_stack = [], jb_root = None, jb_rootComplete = False\<rparr>"

subsection \<open>Operations\<close>

fun token_name :: "json_token \<Rightarrow> string" where
  "token_name Start_object = ''startObject''"
| "token_name End_object = ''endObject''"
| "token_name Start_array = ''startArray''"
| "token_name End_array = ''endArray''"
| "token_name (Key_value _) = ''keyValue''"
| "token_name (String_value _) = ''stringValue''"
| "token_name (Number_value _) = ''numberValue''"
| "token_name Null_value = ''nullValue''"
| "token_name True_value = ''trueValue''"
| "token_name False_value = ''falseValue''"

definition unexpected :: "json_token \<Rightarrow> (json_builder, 'a) action" where
  "unexpected t = sthrow (PlainError (''Unexpected JSON token '' @ token_name t))"

definition set_frame :: "container_frame \<Rightarrow> json_builder \<Rightarrow> json_builder" where
  "set_frame f b = b\<lparr>jb_stack := f # tl (jb_stack b)\<rparr>"

text \<open>\<open>push\<close> on an array, and \<open>defineProperty\<close> on an object.\<close>

definition push_cell :: "nat \<Rightarrow> jref \<Rightarrow> json_builder \<Rightarrow> json_builder" where
  "push_cell a r b =
     (case jb_cells b ! a of
        Arr_cell rs \<Rightarrow> b\<lparr>jb_cells := (jb_cells b)[a := Arr_cell (rs @ [r])]\<rparr>
      | Obj_cell _ \<Rightarrow> b)"

definition define_property :: "nat \<Rightarrow> string \<Rightarrow> jref \<Rightarrow> json_builder \<Rightarrow> json_builder" where
  "define_property a k r b =
     (case jb_cells b ! a of
        Obj_cell kvs \<Rightarrow> b\<lparr>jb_cells := (jb_cells b)[a := Obj_cell (obj_put k r kvs)]\<rparr>
      | Arr_cell _ \<Rightarrow> b)"

definition attachValue :: "jref \<Rightarrow> (json_builder, unit) action" where
  "attachValue r b =
     (case jb_stack b of
        [] \<Rightarrow>
          if jb_root b \<noteq> None then (plain ''JSON contained more than one root value'', b)
          else (Inr (), b\<lparr>jb_root := Some r\<rparr>)
      | Array_frame a st # _ \<Rightarrow>
          if st \<noteq> Array_value \<and> st \<noteq> Value_or_end then (plain ''JSON array was not expecting a value'', b)
          else (Inr (), set_frame (Array_frame a Array_comma_or_end) (push_cell a r b))
      | Object_frame a st key # _ \<Rightarrow>
          (case key of
             Some k \<Rightarrow>
               if st \<noteq> Object_value then (plain ''JSON object was not expecting a value'', b)
               else (Inr (), set_frame (Object_frame a Object_comma_or_end key) (define_property a k r b))
           | None \<Rightarrow> (plain ''JSON object was not expecting a value'', b)))"

definition complete_root :: "json_builder \<Rightarrow> json_builder" where
  "complete_root b = (if jb_stack b = [] then b\<lparr>jb_rootComplete := True\<rparr> else b)"

definition closeContainer :: "(json_builder, unit) action" where
  "closeContainer b = (Inr (), complete_root (b\<lparr>jb_stack := tl (jb_stack b)\<rparr>))"

text \<open>\<open>Number(text)\<close> on the text of a JSON number.\<close>

definition number_of_text :: "string \<Rightarrow> jsval" where
  "number_of_text s = (case parse_number s of Some (v, []) \<Rightarrow> v | _ \<Rightarrow> JNum JNaN)"

text \<open>The value of a primitive token (\<open>isPrimitiveToken\<close>).\<close>

fun primitive_value :: "json_token \<Rightarrow> jsval option" where
  "primitive_value (String_value s) = Some (JStr s)"
| "primitive_value (Number_value s) = Some (number_of_text s)"
| "primitive_value Null_value = Some JNull"
| "primitive_value True_value = Some (JBool True)"
| "primitive_value False_value = Some (JBool False)"
| "primitive_value _ = None"

definition new_cell :: "cell \<Rightarrow> json_builder \<Rightarrow> json_builder" where
  "new_cell c b = b\<lparr>jb_cells := jb_cells b @ [c]\<rparr>"

definition open_container :: "cell \<Rightarrow> (nat \<Rightarrow> container_frame) \<Rightarrow> (json_builder, unit) action" where
  "open_container c frame b =
     (let a = length (jb_cells b)
      in case attachValue (Cell a) (new_cell c b) of
           (Inl e, b') \<Rightarrow> (Inl e, b')
         | (Inr _, b') \<Rightarrow> (Inr (), b'\<lparr>jb_stack := frame a # jb_stack b'\<rparr>))"

definition consumeValue :: "json_token \<Rightarrow> (json_builder, unit) action" where
  "consumeValue t =
     (case primitive_value t of
        Some v \<Rightarrow> (\<lambda>b. case attachValue (Prim v) b of
                        (Inl e, b') \<Rightarrow> (Inl e, b')
                      | (Inr _, b') \<Rightarrow> (Inr (), complete_root b'))
      | None \<Rightarrow>
          (case t of
             Start_object \<Rightarrow> open_container (Obj_cell []) (\<lambda>a. Object_frame a Key_or_end None)
           | Start_array \<Rightarrow> open_container (Arr_cell []) (\<lambda>a. Array_frame a Value_or_end)
           | _ \<Rightarrow> unexpected t))"

definition consumeObject :: "nat \<Rightarrow> object_state \<Rightarrow> string option \<Rightarrow> json_token \<Rightarrow> (json_builder, unit) action" where
  "consumeObject a st key t b =
     (if st = Key_or_end \<or> st = Key_only
      then (case t of
              End_object \<Rightarrow> if st = Key_or_end then closeContainer b else unexpected t b
            | Key_value k \<Rightarrow> (Inr (), set_frame (Object_frame a Colon (Some k)) b)
            | _ \<Rightarrow> unexpected t b)
      else if st = Colon then consumeValue t (set_frame (Object_frame a Object_value key) b)
      else if st = Object_value then consumeValue t b
      else (case t of
              Key_value k \<Rightarrow> (Inr (), set_frame (Object_frame a Colon (Some k)) b)
            | End_object \<Rightarrow> closeContainer b
            | _ \<Rightarrow> unexpected t b))"

definition consumeArray :: "nat \<Rightarrow> array_state \<Rightarrow> json_token \<Rightarrow> (json_builder, unit) action" where
  "consumeArray a st t b =
     (case st of
        Value_or_end \<Rightarrow> if t = End_array then closeContainer b else consumeValue t b
      | Array_value \<Rightarrow> consumeValue t b
      | Array_comma_or_end \<Rightarrow>
          if t = End_array then closeContainer b else consumeValue t (set_frame (Array_frame a Array_value) b))"

definition consume :: "json_token \<Rightarrow> (json_builder, unit) action" where
  "consume t b =
     (case jb_stack b of
        Object_frame a st key # _ \<Rightarrow> consumeObject a st key t b
      | Array_frame a st # _ \<Rightarrow> consumeArray a st t b
      | [] \<Rightarrow> if jb_rootComplete b \<or> jb_root b \<noteq> None then unexpected t b else consumeValue t b)"

fun consume_all :: "json_token list \<Rightarrow> (json_builder, unit) action" where
  "consume_all [] b = (Inr (), b)"
| "consume_all (t # ts) b =
     (case consume t b of
        (Inl e, b') \<Rightarrow> (Inl e, b')
      | (Inr _, b') \<Rightarrow> consume_all ts b')"

subsection \<open>The value at a reference\<close>

text \<open>The values nest no deeper than there are cells, which is the fuel of the reading.\<close>

fun all_some :: "'a option list \<Rightarrow> 'a list option" where
  "all_some [] = Some []"
| "all_some (x # xs) = (case x of None \<Rightarrow> None | Some y \<Rightarrow> map_option (Cons y) (all_some xs))"

fun read_ref :: "nat \<Rightarrow> cell list \<Rightarrow> jref \<Rightarrow> jsval option" where
  "read_ref n cs (Prim v) = Some v"
| "read_ref 0 cs (Cell a) = None"
| "read_ref (Suc n) cs (Cell a) =
     (if a < length cs
      then (case cs ! a of
              Arr_cell rs \<Rightarrow> map_option JArr (all_some (map (read_ref n cs) rs))
            | Obj_cell kvs \<Rightarrow> map_option JObj (all_some (map (\<lambda>kr. map_option (Pair (fst kr)) (read_ref n cs (snd kr))) kvs)))
      else None)"

definition root_value :: "json_builder \<Rightarrow> jsval" where
  "root_value b =
     (case jb_root b of
        None \<Rightarrow> JUndefined
      | Some r \<Rightarrow> (case read_ref (length (jb_cells b)) (jb_cells b) r of None \<Rightarrow> JUndefined | Some v \<Rightarrow> v))"

text \<open>The last check of \<open>finish\<close>: the value, if there is one.\<close>

definition finish_builder :: "json_builder \<Rightarrow> jsval option result" where
  "finish_builder b =
     (if jb_stack b \<noteq> [] \<or> (jb_root b \<noteq> None \<and> \<not> jb_rootComplete b)
      then plain ''JSON parser ended before the root value completed''
      else Inr (if jb_rootComplete b then Some (root_value b) else None))"

subsection \<open>The parser\<close>

datatype tokenizer_output = No_output | Token_batch "json_token list" | Other_output

type_synonym 'd decoder = "'d \<Rightarrow> nat list option \<Rightarrow> string \<times> 'd"

type_synonym 't tokenizer = "'t \<Rightarrow> string option \<Rightarrow> tokenizer_output result \<times> 't"

record ('d, 't) json_parser =
  jp_decoder :: 'd
  jp_tokenizer :: 't
  jp_builder :: json_builder
  jp_ended :: bool
  jp_decodedBytes :: int

definition new_json_parser :: "'d \<Rightarrow> 't \<Rightarrow> ('d, 't) json_parser" where
  "new_json_parser d t = \<lparr>jp_decoder = d, jp_tokenizer = t, jp_builder = new_builder, jp_ended = False, jp_decodedBytes = 0\<rparr>"

definition consumeOutput :: "tokenizer_output \<Rightarrow> (('d, 't) json_parser, unit) action" where
  "consumeOutput out p =
     (case out of
        No_output \<Rightarrow> (Inr (), p)
      | Other_output \<Rightarrow> (plain ''JSON tokenizer returned an invalid token batch'', p)
      | Token_batch ts \<Rightarrow> (case consume_all ts (jp_builder p) of (r, b) \<Rightarrow> (r, p\<lparr>jp_builder := b\<rparr>)))"

definition run_tokenizer :: "'t tokenizer \<Rightarrow> string option \<Rightarrow> (('d, 't) json_parser, unit) action" where
  "run_tokenizer tok input p =
     (case tok (jp_tokenizer p) input of
        (Inl e, t) \<Rightarrow> (Inl e, p\<lparr>jp_tokenizer := t\<rparr>)
      | (Inr out, t) \<Rightarrow> consumeOutput out (p\<lparr>jp_tokenizer := t\<rparr>))"

definition writeDecoded :: "'t tokenizer \<Rightarrow> string \<Rightarrow> (('d, 't) json_parser, unit) action" where
  "writeDecoded tok decoded p =
     (if decoded = [] then (Inr (), p)
      else run_tokenizer tok (Some decoded) (p\<lparr>jp_decodedBytes := jp_decodedBytes p + utf8_length decoded\<rparr>))"

definition json_write :: "'d decoder \<Rightarrow> 't tokenizer \<Rightarrow> nat list \<Rightarrow> (('d, 't) json_parser, unit) action" where
  "json_write dec tok bytes p =
     (if jp_ended p then (plain ''JSON parser already ended'', p)
      else case dec (jp_decoder p) (Some bytes) of
             (decoded, d) \<Rightarrow> writeDecoded tok decoded (p\<lparr>jp_decoder := d\<rparr>))"

definition json_write_text :: "'t tokenizer \<Rightarrow> string \<Rightarrow> (('d, 't) json_parser, unit) action" where
  "json_write_text tok decoded p =
     (if jp_ended p then (plain ''JSON parser already ended'', p) else writeDecoded tok decoded p)"

record streaming_json_result =
  sj_value :: "jsval option"
  sj_decodedByteLength :: int

definition json_finish :: "'d decoder \<Rightarrow> 't tokenizer \<Rightarrow> (('d, 't) json_parser, streaming_json_result) action" where
  "json_finish dec tok p =
     (if jp_ended p then (plain ''JSON parser already ended'', p)
      else case dec (jp_decoder p) None of
             (decoded, d) \<Rightarrow>
               sbind (writeDecoded tok decoded) (\<lambda>_.
               sbind (run_tokenizer tok None) (\<lambda>_ p.
                 (rbind (finish_builder (jp_builder p)) (\<lambda>v. Inr \<lparr>sj_value = v, sj_decodedByteLength = jp_decodedBytes p\<rparr>), p)))
                 (p\<lparr>jp_ended := True, jp_decoder := d\<rparr>))"

subsection \<open>Documents\<close>

text \<open>What a tokenizer reports of a JSON document, and the value of the document (as \<open>JSON.parse\<close>).\<close>

datatype json_doc =
    Doc_null | Doc_bool bool | Doc_number string | Doc_string string
  | Doc_array "json_doc list" | Doc_object "(string \<times> json_doc) list"

fun doc_tokens :: "json_doc \<Rightarrow> json_token list" where
  "doc_tokens Doc_null = [Null_value]"
| "doc_tokens (Doc_bool b) = [if b then True_value else False_value]"
| "doc_tokens (Doc_number s) = [Number_value s]"
| "doc_tokens (Doc_string s) = [String_value s]"
| "doc_tokens (Doc_array ds) = Start_array # concat (map doc_tokens ds) @ [End_array]"
| "doc_tokens (Doc_object kds) = Start_object # concat (map (\<lambda>kd. Key_value (fst kd) # doc_tokens (snd kd)) kds) @ [End_object]"

fun doc_value :: "json_doc \<Rightarrow> jsval" where
  "doc_value Doc_null = JNull"
| "doc_value (Doc_bool b) = JBool b"
| "doc_value (Doc_number s) = number_of_text s"
| "doc_value (Doc_string s) = JStr s"
| "doc_value (Doc_array ds) = JArr (map doc_value ds)"
| "doc_value (Doc_object kds) = obj_of_members (map (\<lambda>kd. (fst kd, doc_value (snd kd))) kds)"

abbreviation member_tokens :: "(string \<times> json_doc) list \<Rightarrow> json_token list" where
  "member_tokens kds \<equiv> concat (map (\<lambda>kd. Key_value (fst kd) # doc_tokens (snd kd)) kds)"

lemma consume_all_append:
  "consume_all (ts @ us) b = (case consume_all ts b of (Inl e, b') \<Rightarrow> (Inl e, b') | (Inr _, b') \<Rightarrow> consume_all us b')"
  by (induction ts arbitrary: b) (auto split: prod.splits sum.splits)

lemma consume_all_appendI:
  "consume_all ts b = (Inr (), b1) \<Longrightarrow> consume_all us b1 = (Inr (), b2) \<Longrightarrow> consume_all (ts @ us) b = (Inr (), b2)"
  by (simp add: consume_all_append)

subsection \<open>The tokens of a document build its value\<close>

text \<open>A builder that expects a value, and that builder once a value is in place.\<close>

definition expects_value :: "json_builder \<Rightarrow> bool" where
  "expects_value b \<longleftrightarrow>
     (case jb_stack b of
        [] \<Rightarrow> jb_root b = None \<and> \<not> jb_rootComplete b
      | Array_frame a st # _ \<Rightarrow> a < length (jb_cells b) \<and> (\<exists>rs. jb_cells b ! a = Arr_cell rs)
      | Object_frame a st key # _ \<Rightarrow> a < length (jb_cells b) \<and> (\<exists>kvs. jb_cells b ! a = Obj_cell kvs) \<and> st = Colon \<and> key \<noteq> None)"

text \<open>Its top frame in the state in which \<open>attachValue\<close> accepts a value, and after that.\<close>

definition prepared :: "json_builder \<Rightarrow> json_builder" where
  "prepared b =
     (case jb_stack b of
        Object_frame a st key # _ \<Rightarrow> set_frame (Object_frame a Object_value key) b
      | Array_frame a Array_comma_or_end # _ \<Rightarrow> set_frame (Array_frame a Array_value) b
      | _ \<Rightarrow> b)"

definition attached :: "jref \<Rightarrow> json_builder \<Rightarrow> json_builder" where
  "attached r b =
     (case jb_stack b of
        [] \<Rightarrow> b\<lparr>jb_root := Some r\<rparr>
      | Array_frame a st # _ \<Rightarrow> set_frame (Array_frame a Array_comma_or_end) (push_cell a r b)
      | Object_frame a st key # _ \<Rightarrow> set_frame (Object_frame a Object_comma_or_end key) (define_property a (the key) r b))"

definition add_cells :: "cell list \<Rightarrow> json_builder \<Rightarrow> json_builder" where
  "add_cells ext b = b\<lparr>jb_cells := jb_cells b @ ext\<rparr>"

lemma consume_prepared: "expects_value b \<Longrightarrow> t \<noteq> End_array \<Longrightarrow> consume t b = consumeValue t (prepared b)"
  by (auto simp: expects_value_def consume_def prepared_def consumeObject_def consumeArray_def
      split: list.splits container_frame.splits array_state.splits)

lemma attach_prepared: "expects_value b \<Longrightarrow> attachValue r (add_cells ext (prepared b)) = (Inr (), add_cells ext (attached r b))"
  by (auto simp: expects_value_def attachValue_def prepared_def attached_def add_cells_def set_frame_def push_cell_def
      define_property_def list_update_append1 nth_append split: list.splits container_frame.splits array_state.splits cell.splits)

lemma prepared_cells [simp]: "jb_cells (prepared b) = jb_cells b"
  by (auto simp: prepared_def set_frame_def split: list.splits container_frame.splits array_state.splits)

lemma add_cells_simps [simp]:
  "add_cells [] b = b" "add_cells us (add_cells vs b) = add_cells (vs @ us) b"
  "jb_cells (add_cells us b) = jb_cells b @ us" "jb_stack (add_cells us b) = jb_stack b"
  by (simp_all add: add_cells_def)

lemma attached_cells [simp]: "length (jb_cells (attached r b)) = length (jb_cells b)"
  by (auto simp: attached_def set_frame_def push_cell_def define_property_def split: list.splits container_frame.splits cell.splits)

lemma consume_primitive:
  assumes "expects_value b" "primitive_value t = Some v"
  shows "consume t b = (Inr (), complete_root (attached (Prim v) b))"
proof -
  have "t \<noteq> End_array" using assms(2) by auto
  with assms attach_prepared [OF assms(1), of "Prim v" "[]"] show ?thesis by (simp add: consume_prepared consumeValue_def)
qed

lemma consume_open:
  assumes "expects_value b"
  shows "consume Start_object b = (Inr (), (add_cells [Obj_cell []] (attached (Cell (length (jb_cells b))) b))
      \<lparr>jb_stack := Object_frame (length (jb_cells b)) Key_or_end None # jb_stack (attached (Cell (length (jb_cells b))) b)\<rparr>)"
    and "consume Start_array b = (Inr (), (add_cells [Arr_cell []] (attached (Cell (length (jb_cells b))) b))
      \<lparr>jb_stack := Array_frame (length (jb_cells b)) Value_or_end # jb_stack (attached (Cell (length (jb_cells b))) b)\<rparr>)"
  using attach_prepared [OF assms, of "Cell (length (jb_cells b))"]
  by (simp_all add: consume_prepared [OF assms] consumeValue_def open_container_def new_cell_def add_cells_def Let_def)

text \<open>\<open>reads k ext r v\<close>: with \<open>k\<close> cells below, the cells \<open>ext\<close> hold the value \<open>v\<close> at \<open>r\<close>.\<close>

definition reads :: "nat \<Rightarrow> cell list \<Rightarrow> jref \<Rightarrow> jsval \<Rightarrow> bool" where
  "reads k ext r v \<longleftrightarrow> (\<forall>base later n. length base = k \<longrightarrow> length ext \<le> n \<longrightarrow> read_ref n (base @ ext @ later) r = Some v)"

lemma reads_extend: "reads k ext r v \<Longrightarrow> reads k (ext @ later) r v"
  by (simp add: reads_def)

lemma reads_skip: "reads (k + length ext) ext' r v \<Longrightarrow> reads k (ext @ ext') r v"
proof -
  assume reads: "reads (k + length ext) ext' r v"
  show ?thesis unfolding reads_def
  proof (intro allI impI)
    fix base later n
    assume "length (base :: cell list) = k" "length (ext @ ext') \<le> n"
    with reads show "read_ref n (base @ (ext @ ext') @ later) r = Some v"
      unfolding reads_def by (metis append_assoc length_append le_add2 le_trans)
  qed
qed

lemma all_some_reads: "list_all2 (reads k ext) rs vs \<Longrightarrow> length base = k \<Longrightarrow> length ext \<le> n \<Longrightarrow>
   all_some (map (read_ref n (base @ ext @ later)) rs) = Some vs"
  by (induction rule: list_all2_induct) (simp_all add: reads_def)

lemma reads_array: "list_all2 (reads (Suc k) ext) rs vs \<Longrightarrow> reads k (Arr_cell rs # ext) (Cell k) (JArr vs)"
  unfolding reads_def [of k "Arr_cell rs # ext"]
proof (intro allI impI)
  fix base later :: "cell list" and n
  assume rs: "list_all2 (reads (Suc k) ext) rs vs" and base: "length base = k" and n: "length (Arr_cell rs # ext) \<le> n"
  obtain m where m: "n = Suc m" "length ext \<le> m" using n by (cases n) auto
  have "all_some (map (read_ref m ((base @ [Arr_cell rs]) @ ext @ later)) rs) = Some vs"
    using rs by (rule all_some_reads) (use base m in simp_all)
  then show "read_ref n (base @ (Arr_cell rs # ext) @ later) (Cell k) = Some (JArr vs)" using base m by (simp add: nth_append)
qed

definition put_all :: "(string \<times> 'a) list \<Rightarrow> (string \<times> 'a) list \<Rightarrow> (string \<times> 'a) list" where
  "put_all kvs krs = foldl (\<lambda>o' kr. obj_put (fst kr) (snd kr) o') kvs krs"

lemma put_all_simps [simp]: "put_all kvs [] = kvs" "put_all kvs (kr # krs) = put_all (obj_put (fst kr) (snd kr) kvs) krs"
  by (simp_all add: put_all_def)

lemma read_members_put:
  "all_some (map (\<lambda>kr. map_option (Pair (fst kr)) (rd (snd kr))) kvs) = Some kvs' \<Longrightarrow> rd r = Some v \<Longrightarrow>
   all_some (map (\<lambda>kr. map_option (Pair (fst kr)) (rd (snd kr))) (obj_put k r kvs)) = Some (obj_put k v kvs')"
  by (induction kvs arbitrary: kvs') (auto split: option.splits)

lemma read_members_put_all:
  "list_all2 (\<lambda>kr kv. fst kr = fst kv \<and> rd (snd kr) = Some (snd kv)) krs kvs \<Longrightarrow>
   all_some (map (\<lambda>kr. map_option (Pair (fst kr)) (rd (snd kr))) acc) = Some acc' \<Longrightarrow>
   all_some (map (\<lambda>kr. map_option (Pair (fst kr)) (rd (snd kr))) (put_all acc krs)) = Some (put_all acc' kvs)"
proof (induction krs kvs arbitrary: acc acc' rule: list_all2_induct)
  case (Cons kr krs kv kvs)
  have "all_some (map (\<lambda>kr. map_option (Pair (fst kr)) (rd (snd kr))) (obj_put (fst kr) (snd kr) acc))
      = Some (obj_put (fst kv) (snd kv) acc')"
    using read_members_put [of rd acc acc' "snd kr" "snd kv" "fst kr", OF Cons.prems] Cons.hyps(1) by simp
  then show ?case by (simp add: Cons.IH)
qed simp

lemma reads_object:
  assumes krs: "list_all2 (\<lambda>kr kv. fst kr = fst kv \<and> reads (Suc k) ext (snd kr) (snd kv)) krs kvs"
  shows "reads k (Obj_cell (put_all [] krs) # ext) (Cell k) (obj_of_members kvs)"
  unfolding reads_def [of k "Obj_cell (put_all [] krs) # ext"]
proof (intro allI impI)
  fix base later :: "cell list" and n
  assume base: "length base = k" and n: "length (Obj_cell (put_all [] krs) # ext) \<le> n"
  obtain m where m: "n = Suc m" "length ext \<le> m" using n by (cases n) auto
  let ?cs = "(base @ [Obj_cell (put_all [] krs)]) @ ext @ later"
  have "list_all2 (\<lambda>kr kv. fst kr = fst kv \<and> read_ref m ?cs (snd kr) = Some (snd kv)) krs kvs"
    using krs by (rule list_all2_mono) (use base m in \<open>auto simp: reads_def simp del: append_assoc\<close>)
  from read_members_put_all [OF this, of "[]" "[]"]
  have "all_some (map (\<lambda>kr. map_option (Pair (fst kr)) (read_ref m ?cs (snd kr))) (put_all [] krs)) = Some (put_all [] kvs)" by simp
  then show "read_ref n (base @ (Obj_cell (put_all [] krs) # ext) @ later) (Cell k) = Some (obj_of_members kvs)"
    using base m by (simp add: nth_append obj_of_members_def put_all_def)
qed

definition builds :: "json_doc \<Rightarrow> bool" where
  "builds d \<longleftrightarrow>
     (\<forall>b. expects_value b \<longrightarrow>
        (\<exists>r ext. consume_all (doc_tokens d) b = (Inr (), complete_root (add_cells ext (attached r b)))
               \<and> reads (length (jb_cells b)) ext r (doc_value d)))"

lemma buildsD:
  assumes "builds d" "expects_value b"
  obtains r ext where "consume_all (doc_tokens d) b = (Inr (), complete_root (add_cells ext (attached r b)))"
    "reads (length (jb_cells b)) ext r (doc_value d)"
  using assms unfolding builds_def by blast

lemma builds_primitive:
  assumes "doc_tokens d = [t]" "primitive_value t = Some (doc_value d)"
  shows "builds d"
proof -
  have "consume_all (doc_tokens d) b = (Inr (), complete_root (add_cells [] (attached (Prim (doc_value d)) b)))"
    if "expects_value b" for b
    using consume_primitive [OF that assms(2)] by (simp add: assms(1))
  moreover have "reads k [] (Prim v) v" for k v by (simp add: reads_def)
  ultimately show ?thesis unfolding builds_def by blast
qed

lemma list_all2_reads_shift:
  "list_all2 (reads (k + length ext) ext') rs vs \<Longrightarrow> list_all2 (reads k (ext @ ext')) rs vs"
  by (erule list_all2_mono) (rule reads_skip)

lemma push_cell_at:
  "jb_cells b = pre @ Arr_cell rs # post \<Longrightarrow> length pre = a \<Longrightarrow>
   push_cell a r b = b\<lparr>jb_cells := pre @ Arr_cell (rs @ [r]) # post\<rparr>"
  by (auto simp: push_cell_def)

lemma define_property_at:
  "jb_cells b = pre @ Obj_cell kvs # post \<Longrightarrow> length pre = a \<Longrightarrow>
   define_property a k r b = b\<lparr>jb_cells := pre @ Obj_cell (obj_put k r kvs) # post\<rparr>"
  by (auto simp: define_property_def)

lemma elements_built:
  assumes "\<And>d. d \<in> set ds \<Longrightarrow> builds d" "jb_stack b = Array_frame a st # fs" "jb_cells b = pre @ Arr_cell rs # post" "length pre = a"
    "st \<noteq> Array_value"
  shows "\<exists>rs' ext st'. consume_all (concat (map doc_tokens ds)) b
      = (Inr (), b\<lparr>jb_cells := pre @ Arr_cell (rs @ rs') # post @ ext, jb_stack := Array_frame a st' # fs\<rparr>)
    \<and> list_all2 (reads (length (jb_cells b)) ext) rs' (map doc_value ds) \<and> st' \<noteq> Array_value"
  using assms
proof (induction ds arbitrary: b st rs post)
  case Nil
  then have "consume_all (concat (map doc_tokens [])) b
      = (Inr (), b\<lparr>jb_cells := pre @ Arr_cell (rs @ []) # post @ [], jb_stack := Array_frame a st # fs\<rparr>)" by simp
  with Nil.prems(5) show ?case by (intro exI [of _ "[]"] exI [of _ st]) simp
next
  case (Cons d ds)
  have "builds d" using Cons.prems(1) by simp
  moreover have "expects_value b" using Cons.prems(2-4) by (auto simp: expects_value_def)
  ultimately obtain r ext where run: "consume_all (doc_tokens d) b = (Inr (), complete_root (add_cells ext (attached r b)))"
    and r: "reads (length (jb_cells b)) ext r (doc_value d)"
    by (rule buildsD)
  define b1 where "b1 = b\<lparr>jb_cells := pre @ Arr_cell (rs @ [r]) # post @ ext, jb_stack := Array_frame a Array_comma_or_end # fs\<rparr>"
  have "complete_root (add_cells ext (attached r b)) = b1"
    using Cons.prems(2) push_cell_at [OF Cons.prems(3,4)]
    by (simp add: b1_def complete_root_def add_cells_def attached_def set_frame_def)
  with run have run: "consume_all (doc_tokens d) b = (Inr (), b1)" by simp
  obtain rs' ext' st' where rest: "consume_all (concat (map doc_tokens ds)) b1
      = (Inr (), b1\<lparr>jb_cells := pre @ Arr_cell ((rs @ [r]) @ rs') # (post @ ext) @ ext', jb_stack := Array_frame a st' # fs\<rparr>)"
    and rs': "list_all2 (reads (length (jb_cells b1)) ext') rs' (map doc_value ds)" and st': "st' \<noteq> Array_value"
    using Cons.IH [of b1 Array_comma_or_end "rs @ [r]" "post @ ext"] Cons.prems(1,4) by (auto simp: b1_def)
  have "consume_all (concat (map doc_tokens (d # ds))) b
      = (Inr (), b\<lparr>jb_cells := pre @ Arr_cell (rs @ (r # rs')) # post @ (ext @ ext'), jb_stack := Array_frame a st' # fs\<rparr>)"
    using consume_all_appendI [OF run rest] by (simp add: b1_def)
  moreover have "list_all2 (reads (length (jb_cells b)) (ext @ ext')) (r # rs') (map doc_value (d # ds))"
    using reads_extend [OF r] list_all2_reads_shift [of "length (jb_cells b)" ext ext'] rs' Cons.prems(3)
    by (simp add: b1_def add.assoc)
  ultimately show ?case using st' by blast
qed

lemma members_built:
  assumes "\<And>kd. kd \<in> set kds \<Longrightarrow> builds (snd kd)" "jb_stack b = Object_frame a st key # fs" "jb_cells b = pre @ Obj_cell kvs # post"
    "length pre = a" "st = Key_or_end \<or> st = Object_comma_or_end"
  shows "\<exists>krs ext st' key'. consume_all (member_tokens kds) b
      = (Inr (), b\<lparr>jb_cells := pre @ Obj_cell (put_all kvs krs) # post @ ext, jb_stack := Object_frame a st' key' # fs\<rparr>)
    \<and> list_all2 (\<lambda>kr kv. fst kr = fst kv \<and> reads (length (jb_cells b)) ext (snd kr) (snd kv)) krs (map (\<lambda>kd. (fst kd, doc_value (snd kd))) kds)
    \<and> (st' = Key_or_end \<or> st' = Object_comma_or_end)"
  using assms
proof (induction kds arbitrary: b st key kvs post)
  case Nil
  then have "consume_all (member_tokens []) b
      = (Inr (), b\<lparr>jb_cells := pre @ Obj_cell (put_all kvs []) # post @ [], jb_stack := Object_frame a st key # fs\<rparr>)" by simp
  with Nil.prems(5) show ?case by (intro exI [of _ "[]"] exI [of _ st] exI [of _ key]) simp
next
  case (Cons kd kds)
  define b0 where "b0 = b\<lparr>jb_stack := Object_frame a Colon (Some (fst kd)) # fs\<rparr>"
  have "consume (Key_value (fst kd)) b = (Inr (), b0)"
    using Cons.prems(2,5) by (auto simp: b0_def consume_def consumeObject_def set_frame_def)
  then have key: "consume_all [Key_value (fst kd)] b = (Inr (), b0)" by simp
  have "builds (snd kd)" using Cons.prems(1) by simp
  moreover have "expects_value b0" using Cons.prems(2-4) by (auto simp: expects_value_def b0_def)
  ultimately obtain r ext where run: "consume_all (doc_tokens (snd kd)) b0 = (Inr (), complete_root (add_cells ext (attached r b0)))"
    and r: "reads (length (jb_cells b0)) ext r (doc_value (snd kd))"
    by (rule buildsD)
  define b1 where "b1 = b\<lparr>jb_cells := pre @ Obj_cell (obj_put (fst kd) r kvs) # post @ ext,
    jb_stack := Object_frame a Object_comma_or_end (Some (fst kd)) # fs\<rparr>"
  have "complete_root (add_cells ext (attached r b0)) = b1"
    using Cons.prems(2) define_property_at [of b0 pre kvs post a] Cons.prems(3,4)
    by (simp add: b0_def b1_def complete_root_def add_cells_def attached_def set_frame_def)
  with run have run: "consume_all (doc_tokens (snd kd)) b0 = (Inr (), b1)" by simp
  obtain krs ext' st' key' where rest: "consume_all (member_tokens kds) b1
      = (Inr (), b1\<lparr>jb_cells := pre @ Obj_cell (put_all (obj_put (fst kd) r kvs) krs) # (post @ ext) @ ext', jb_stack := Object_frame a st' key' # fs\<rparr>)"
    and krs: "list_all2 (\<lambda>kr kv. fst kr = fst kv \<and> reads (length (jb_cells b1)) ext' (snd kr) (snd kv)) krs (map (\<lambda>kd. (fst kd, doc_value (snd kd))) kds)"
    and st': "st' = Key_or_end \<or> st' = Object_comma_or_end"
    using Cons.IH [of b1 Object_comma_or_end "Some (fst kd)" "obj_put (fst kd) r kvs" "post @ ext"] Cons.prems(1,4)
    by (auto simp: b1_def)
  have "consume_all (member_tokens (kd # kds)) b
      = (Inr (), b\<lparr>jb_cells := pre @ Obj_cell (put_all kvs ((fst kd, r) # krs)) # post @ (ext @ ext'), jb_stack := Object_frame a st' key' # fs\<rparr>)"
    using consume_all_appendI [OF key consume_all_appendI [OF run rest]] by (simp add: b1_def)
  moreover have "list_all2 (\<lambda>kr kv. fst kr = fst kv \<and> reads (length (jb_cells b)) (ext @ ext') (snd kr) (snd kv)) ((fst kd, r) # krs)
      (map (\<lambda>kd. (fst kd, doc_value (snd kd))) (kd # kds))"
  proof -
    have "list_all2 (\<lambda>kr kv. fst kr = fst kv \<and> reads (length (jb_cells b)) (ext @ ext') (snd kr) (snd kv)) krs
        (map (\<lambda>kd. (fst kd, doc_value (snd kd))) kds)"
      using krs by (rule list_all2_mono) (use Cons.prems(3) in \<open>auto simp: b1_def add.assoc intro!: reads_skip\<close>)
    with reads_extend [OF r] show ?thesis by (simp add: b0_def)
  qed
  ultimately show ?case using st' by blast
qed

lemma doc_builds: "builds d"
proof (induction d)
  case (Doc_array ds)
  show ?case unfolding builds_def
  proof (intro allI impI)
    fix b
    assume b: "expects_value b"
    let ?k = "length (jb_cells b)"
    let ?c = "attached (Cell ?k) b"
    define b1 where "b1 = (add_cells [Arr_cell []] ?c)\<lparr>jb_stack := Array_frame ?k Value_or_end # jb_stack ?c\<rparr>"
    have opened: "consume_all [Start_array] b = (Inr (), b1)" using consume_open(2) [OF b] by (simp add: b1_def)
    obtain rs ext st where run: "consume_all (concat (map doc_tokens ds)) b1
        = (Inr (), b1\<lparr>jb_cells := jb_cells ?c @ Arr_cell ([] @ rs) # [] @ ext, jb_stack := Array_frame ?k st # jb_stack ?c\<rparr>)"
      and rs: "list_all2 (reads (length (jb_cells b1)) ext) rs (map doc_value ds)" and st: "st \<noteq> Array_value"
      using elements_built [of ds b1 ?k Value_or_end "jb_stack ?c" "jb_cells ?c" "[]" "[]"] Doc_array by (auto simp: b1_def)
    have "consume_all [End_array] (b1\<lparr>jb_cells := jb_cells ?c @ Arr_cell ([] @ rs) # [] @ ext, jb_stack := Array_frame ?k st # jb_stack ?c\<rparr>)
        = (Inr (), complete_root (add_cells (Arr_cell rs # ext) ?c))"
      using st by (cases st) (simp_all add: b1_def consume_def consumeArray_def closeContainer_def add_cells_def)
    from consume_all_appendI [OF opened consume_all_appendI [OF run this]]
    have "consume_all (doc_tokens (Doc_array ds)) b = (Inr (), complete_root (add_cells (Arr_cell rs # ext) ?c))" by simp
    moreover have "reads ?k (Arr_cell rs # ext) (Cell ?k) (doc_value (Doc_array ds))"
      using reads_array [of ?k ext rs] rs by (simp add: b1_def)
    ultimately show "\<exists>r ext. consume_all (doc_tokens (Doc_array ds)) b = (Inr (), complete_root (add_cells ext (attached r b)))
        \<and> reads ?k ext r (doc_value (Doc_array ds))" by blast
  qed
next
  case (Doc_object kds)
  show ?case unfolding builds_def
  proof (intro allI impI)
    fix b
    assume b: "expects_value b"
    let ?k = "length (jb_cells b)"
    let ?c = "attached (Cell ?k) b"
    define b1 where "b1 = (add_cells [Obj_cell []] ?c)\<lparr>jb_stack := Object_frame ?k Key_or_end None # jb_stack ?c\<rparr>"
    have opened: "consume_all [Start_object] b = (Inr (), b1)" using consume_open(1) [OF b] by (simp add: b1_def)
    have each: "builds (snd kd)" if "kd \<in> set kds" for kd using Doc_object [of kd "snd kd"] that by (cases kd) auto
    obtain krs ext st key where run: "consume_all (member_tokens kds) b1
        = (Inr (), b1\<lparr>jb_cells := jb_cells ?c @ Obj_cell (put_all [] krs) # [] @ ext, jb_stack := Object_frame ?k st key # jb_stack ?c\<rparr>)"
      and krs: "list_all2 (\<lambda>kr kv. fst kr = fst kv \<and> reads (length (jb_cells b1)) ext (snd kr) (snd kv)) krs (map (\<lambda>kd. (fst kd, doc_value (snd kd))) kds)"
      and st: "st = Key_or_end \<or> st = Object_comma_or_end"
      using members_built [of kds b1 ?k Key_or_end None "jb_stack ?c" "jb_cells ?c" "[]" "[]"] each by (auto simp: b1_def)
    have "consume_all [End_object] (b1\<lparr>jb_cells := jb_cells ?c @ Obj_cell (put_all [] krs) # [] @ ext, jb_stack := Object_frame ?k st key # jb_stack ?c\<rparr>)
        = (Inr (), complete_root (add_cells (Obj_cell (put_all [] krs) # ext) ?c))"
      using st by (auto simp: b1_def consume_def consumeObject_def closeContainer_def add_cells_def)
    from consume_all_appendI [OF opened consume_all_appendI [OF run this]]
    have "consume_all (doc_tokens (Doc_object kds)) b = (Inr (), complete_root (add_cells (Obj_cell (put_all [] krs) # ext) ?c))" by simp
    moreover have "reads ?k (Obj_cell (put_all [] krs) # ext) (Cell ?k) (doc_value (Doc_object kds))"
      using reads_object [of ?k ext krs] krs by (simp add: b1_def)
    ultimately show "\<exists>r ext. consume_all (doc_tokens (Doc_object kds)) b = (Inr (), complete_root (add_cells ext (attached r b)))
        \<and> reads ?k ext r (doc_value (Doc_object kds))" by blast
  qed
qed (auto intro: builds_primitive)

subsection \<open>Only the tokens of a document are accepted\<close>

text \<open>The tokens before a value that the containers of a stack wait for.\<close>

inductive waiting :: "json_token list \<Rightarrow> container_frame list \<Rightarrow> bool" where
  Wait_root: "waiting [] []"
| Wait_element: "waiting us fs \<Longrightarrow> waiting (us @ Start_array # concat (map doc_tokens ds)) (Array_frame a Array_comma_or_end # fs)"
| Wait_member: "waiting us fs \<Longrightarrow>
    waiting (us @ Start_object # member_tokens kds @ [Key_value k]) (Object_frame a Object_comma_or_end key # fs)"

inductive_cases waiting_frameE: "waiting us (f # fs)"
inductive_cases waiting_rootE: "waiting us []"

text \<open>The tokens read so far, given the stack and whether the root is complete.\<close>

definition read_so_far :: "json_token list \<Rightarrow> container_frame list \<Rightarrow> bool \<Rightarrow> bool" where
  "read_so_far ts fs fin \<longleftrightarrow>
     (case fs of
        [] \<Rightarrow> (if fin then \<exists>d. ts = doc_tokens d else ts = [])
      | Array_frame a st # fs' \<Rightarrow>
          st \<noteq> Array_value \<and> (\<exists>us ds. waiting us fs' \<and> ts = us @ Start_array # concat (map doc_tokens ds))
      | Object_frame a st key # fs' \<Rightarrow>
          (\<exists>us kds. waiting us fs'
             \<and> ((st = Key_or_end \<or> st = Object_comma_or_end) \<and> ts = us @ Start_object # member_tokens kds
                \<or> st = Colon \<and> (\<exists>k. ts = us @ Start_object # member_tokens kds @ [Key_value k]))))"

lemma waiting_done:
  assumes "waiting us fs"
  shows "read_so_far (us @ doc_tokens d) fs True"
  using assms
proof cases
  case (Wait_element us' fs' ds a)
  then show ?thesis unfolding read_so_far_def by (auto intro!: exI [of _ us'] exI [of _ "ds @ [d]"])
next
  case (Wait_member us' fs' kds k a key)
  then show ?thesis unfolding read_so_far_def by (auto intro!: exI [of _ us'] exI [of _ "kds @ [(k, d)]"])
qed (auto simp: read_so_far_def)

lemma read_so_far_flag: "read_so_far ts fs c \<Longrightarrow> fs \<noteq> [] \<or> c = c' \<Longrightarrow> read_so_far ts fs c'"
  by (auto simp: read_so_far_def split: list.splits container_frame.splits)

definition sound_so_far :: "json_token list \<Rightarrow> json_builder \<Rightarrow> bool" where
  "sound_so_far ts b \<longleftrightarrow> read_so_far ts (jb_stack b) (jb_rootComplete b)"

lemma sound_completed: "waiting us (jb_stack b) \<Longrightarrow> sound_so_far (us @ doc_tokens d) (complete_root b)"
  by (drule waiting_done [of _ _ d]) (auto simp: sound_so_far_def complete_root_def elim: read_so_far_flag)

definition awaits_value :: "json_builder \<Rightarrow> bool" where
  "awaits_value b \<longleftrightarrow>
     (case jb_stack b of [] \<Rightarrow> \<not> jb_rootComplete b | Array_frame _ _ # _ \<Rightarrow> True | Object_frame _ st _ # _ \<Rightarrow> st = Colon)"

lemma cell_updates_frame [simp]:
  "jb_stack (push_cell a r b) = jb_stack b" "jb_stack (define_property a k r b) = jb_stack b"
  by (simp_all add: push_cell_def define_property_def split: cell.split)

lemma attach_waits:
  assumes "sound_so_far ts b" "awaits_value b" "attachValue r (add_cells ext (prepared b)) = (Inr (), b')"
  shows "waiting ts (jb_stack b')"
proof (cases "jb_stack b")
  case Nil
  then show ?thesis using assms
    by (auto simp: sound_so_far_def read_so_far_def awaits_value_def attachValue_def prepared_def add_cells_def
        intro: waiting.intros split: if_splits)
next
  case (Cons f fs)
  show ?thesis
  proof (cases f)
    case (Array_frame a st)
    then show ?thesis using assms Cons
      by (auto simp: sound_so_far_def read_so_far_def attachValue_def prepared_def add_cells_def set_frame_def
          intro: Wait_element split: if_splits array_state.splits)
  next
    case (Object_frame a st key)
    then show ?thesis using assms Cons
      by (auto simp: sound_so_far_def read_so_far_def awaits_value_def attachValue_def prepared_def add_cells_def set_frame_def
          intro: Wait_member split: if_splits option.splits)
  qed
qed

lemma primitive_tokens: "primitive_value t = Some v \<Longrightarrow> \<exists>d. doc_tokens d = [t]"
  by (cases t) (auto intro: exI [of _ Doc_null] exI [of _ "Doc_bool True"] exI [of _ "Doc_bool False"]
      exI [of _ "Doc_number _"] exI [of _ "Doc_string _"])

lemma value_sound:
  assumes sound: "sound_so_far ts b" "awaits_value b" and run: "consumeValue t (prepared b) = (Inr (), b')"
  shows "sound_so_far (ts @ [t]) b'"
proof (cases "primitive_value t")
  case (Some v)
  then obtain b1 where b1: "attachValue (Prim v) (add_cells [] (prepared b)) = (Inr (), b1)" "b' = complete_root b1"
    using run by (auto simp: consumeValue_def split: prod.splits sum.splits)
  obtain d where "doc_tokens d = [t]" using primitive_tokens [OF Some] by blast
  then show ?thesis using sound_completed [OF attach_waits [OF sound b1(1)], of d] b1(2) by simp
next
  case None
  let ?k = "length (jb_cells b)"
  obtain c frame b1 where t: "t = Start_object \<and> frame = Object_frame ?k Key_or_end None \<or> t = Start_array \<and> frame = Array_frame ?k Value_or_end"
    and b1: "attachValue (Cell ?k) (add_cells [c] (prepared b)) = (Inr (), b1)" "b' = b1\<lparr>jb_stack := frame # jb_stack b1\<rparr>"
    using run None by (cases t) (auto simp: consumeValue_def open_container_def new_cell_def add_cells_def unexpected_def sthrow_def Let_def
        split: prod.splits sum.splits)
  have "waiting ts (jb_stack b1)" by (rule attach_waits [OF sound b1(1)])
  then show ?thesis using t b1(2)
    by (auto simp: sound_so_far_def read_so_far_def intro!: exI [of _ ts] exI [of _ "[] :: json_doc list"] exI [of _ "[] :: (string \<times> json_doc) list"])
qed

lemma close_sound:
  assumes sound: "sound_so_far ts b" and f: "jb_stack b = f # fs"
    and t: "t = End_array \<and> (\<exists>a st. f = Array_frame a st)
      \<or> t = End_object \<and> (\<exists>a st key. f = Object_frame a st key \<and> (st = Key_or_end \<or> st = Object_comma_or_end))"
    and run: "closeContainer b = (Inr (), b')"
  shows "sound_so_far (ts @ [t]) b'"
proof -
  have b': "b' = complete_root (b\<lparr>jb_stack := fs\<rparr>)" using run f by (simp add: closeContainer_def)
  obtain us d where "waiting us fs" "ts @ [t] = us @ doc_tokens d"
  proof (cases "t = End_array")
    case True
    then show ?thesis using sound f t that [of _ "Doc_array _"] by (auto simp: sound_so_far_def read_so_far_def)
  next
    case False
    then show ?thesis using sound f t that [of _ "Doc_object _"] by (auto simp: sound_so_far_def read_so_far_def)
  qed
  then show ?thesis using sound_completed [of us "b\<lparr>jb_stack := fs\<rparr>" d] b' by simp
qed

lemma key_sound:
  assumes "sound_so_far ts b" "jb_stack b = Object_frame a st key # fs" "st = Key_or_end \<or> st = Object_comma_or_end"
  shows "sound_so_far (ts @ [Key_value k]) (set_frame (Object_frame a Colon (Some k)) b)"
  using assms by (auto simp: sound_so_far_def read_so_far_def set_frame_def)

lemma consume_sound:
  assumes sound: "sound_so_far ts b" and run: "consume t b = (Inr (), b')"
  shows "sound_so_far (ts @ [t]) b'"
proof (cases "jb_stack b")
  case Nil
  then have "\<not> jb_rootComplete b" "consumeValue t (prepared b) = (Inr (), b')"
    using run by (auto simp: consume_def prepared_def unexpected_def sthrow_def split: if_splits)
  then show ?thesis using value_sound [OF sound] Nil by (simp add: awaits_value_def)
next
  case (Cons f fs)
  show ?thesis
  proof (cases f)
    case (Array_frame a st)
    then consider "t = End_array" "closeContainer b = (Inr (), b')" | "consumeValue t (prepared b) = (Inr (), b')"
      using run Cons sound
      by (auto simp: consume_def consumeArray_def prepared_def sound_so_far_def read_so_far_def split: array_state.splits if_splits)
    then show ?thesis
      using close_sound [OF sound Cons] value_sound [OF sound] Array_frame Cons by cases (auto simp: awaits_value_def)
  next
    case (Object_frame a st key)
    have st: "st = Key_or_end \<or> st = Object_comma_or_end \<or> st = Colon"
      using sound Cons Object_frame by (auto simp: sound_so_far_def read_so_far_def)
    show ?thesis
    proof (cases "st = Colon")
      case True
      then have "consumeValue t (prepared b) = (Inr (), b')"
        using run Cons Object_frame by (simp add: consume_def consumeObject_def prepared_def)
      then show ?thesis using value_sound [OF sound] True Cons Object_frame by (simp add: awaits_value_def)
    next
      case False
      with st have st: "st = Key_or_end \<or> st = Object_comma_or_end" by blast
      then consider "t = End_object" "closeContainer b = (Inr (), b')"
        | k where "t = Key_value k" "b' = set_frame (Object_frame a Colon (Some k)) b"
        using run Cons Object_frame
        by (auto simp: consume_def consumeObject_def unexpected_def sthrow_def split: json_token.splits)
      then show ?thesis
        using close_sound [OF sound Cons] key_sound [OF sound _ st] Cons Object_frame st by cases auto
    qed
  qed
qed

lemma consume_all_sound: "consume_all us b = (Inr (), b') \<Longrightarrow> sound_so_far ts b \<Longrightarrow> sound_so_far (ts @ us) b'"
proof (induction us arbitrary: ts b)
  case (Cons u us)
  then obtain b1 where "consume u b = (Inr (), b1)" "consume_all us b1 = (Inr (), b')"
    by (auto split: prod.splits sum.splits)
  with Cons.IH [of b1 "ts @ [u]"] consume_sound [OF Cons.prems(2)] show ?case by simp
qed simp

subsection \<open>Exactly the documents\<close>

definition build_tokens :: "json_token list \<Rightarrow> jsval option result" where
  "build_tokens ts = (case consume_all ts new_builder of (Inl e, _) \<Rightarrow> Inl e | (Inr _, b) \<Rightarrow> finish_builder b)"

lemma build_document: "build_tokens (doc_tokens d) = Inr (Some (doc_value d))"
proof -
  have "expects_value new_builder" by (simp add: expects_value_def new_builder_def)
  then obtain r ext where run: "consume_all (doc_tokens d) new_builder = (Inr (), complete_root (add_cells ext (attached r new_builder)))"
    and r: "reads (length (jb_cells new_builder)) ext r (doc_value d)"
    by (rule buildsD [OF doc_builds])
  have "read_ref (length ext) ext r = Some (doc_value d)"
    using r unfolding reads_def new_builder_def by (metis append.left_neutral append.right_neutral json_builder.select_convs(1) le_refl)
  with run show ?thesis
    by (simp add: build_tokens_def finish_builder_def root_value_def complete_root_def add_cells_def attached_def new_builder_def)
qed

lemma build_sound:
  assumes "build_tokens ts = Inr out"
  shows "if out = None then ts = [] else \<exists>d. ts = doc_tokens d"
proof -
  obtain b where b: "consume_all ts new_builder = (Inr (), b)" "finish_builder b = Inr out"
    using assms by (auto simp: build_tokens_def split: prod.splits sum.splits)
  have "sound_so_far [] new_builder" by (simp add: sound_so_far_def read_so_far_def new_builder_def)
  from consume_all_sound [OF b(1) this] have "sound_so_far ts b" by simp
  with b(2) show ?thesis by (auto simp: sound_so_far_def read_so_far_def finish_builder_def split: if_splits)
qed

lemma build_tokens_iff:
  "build_tokens ts = Inr (Some v) \<longleftrightarrow> (\<exists>d. ts = doc_tokens d \<and> v = doc_value d)"
  "build_tokens ts = Inr None \<longleftrightarrow> ts = []"
proof -
  show "build_tokens ts = Inr (Some v) \<longleftrightarrow> (\<exists>d. ts = doc_tokens d \<and> v = doc_value d)"
    using build_sound [of ts "Some v"] build_document by (metis option.inject option.discI sum.inject(2))
  show "build_tokens ts = Inr None \<longleftrightarrow> ts = []"
    using build_sound [of ts None] by (auto simp: build_tokens_def finish_builder_def new_builder_def)
qed

subsection \<open>A whole response\<close>

text \<open>The chunks of a response are written, then the parser is finished.\<close>

fun json_session :: "'d decoder \<Rightarrow> 't tokenizer \<Rightarrow> nat list list \<Rightarrow> (('d, 't) json_parser, streaming_json_result) action" where
  "json_session dec tok [] = json_finish dec tok"
| "json_session dec tok (c # cs) = sbind (json_write dec tok c) (\<lambda>_. json_session dec tok cs)"

text \<open>The texts that the decoder makes of the chunks, the last one at the end of the input; and the
  tokens that the tokenizer reports of texts, if it reports only batches.\<close>

fun decoded_texts :: "'d decoder \<Rightarrow> 'd \<Rightarrow> nat list list \<Rightarrow> string list" where
  "decoded_texts dec d [] = [fst (dec d None)]"
| "decoded_texts dec d (c # cs) = (case dec d (Some c) of (s, d') \<Rightarrow> s # decoded_texts dec d' cs)"

fun batch_of :: "tokenizer_output \<Rightarrow> json_token list option" where
  "batch_of No_output = Some []"
| "batch_of (Token_batch ts) = Some ts"
| "batch_of Other_output = None"

definition token_step :: "'t tokenizer \<Rightarrow> 't \<Rightarrow> string option \<Rightarrow> (json_token list \<times> 't) option" where
  "token_step tok t input =
     (case tok t input of
        (Inl e, t') \<Rightarrow> None
      | (Inr out, t') \<Rightarrow> map_option (\<lambda>ts. (ts, t')) (batch_of out))"

fun token_stream :: "'t tokenizer \<Rightarrow> 't \<Rightarrow> string list \<Rightarrow> json_token list option" where
  "token_stream tok t [] = map_option fst (token_step tok t None)"
| "token_stream tok t (s # ss) =
     (if s = [] then token_stream tok t ss
      else case token_step tok t (Some s) of
             None \<Rightarrow> None
           | Some (ts, t') \<Rightarrow> map_option (append ts) (token_stream tok t' ss))"

lemma run_tokenizer_iff:
  "run_tokenizer tok input p = (Inr (), p') \<longleftrightarrow>
   (\<exists>ts t b. token_step tok (jp_tokenizer p) input = Some (ts, t) \<and> consume_all ts (jp_builder p) = (Inr (), b)
     \<and> p' = p\<lparr>jp_tokenizer := t, jp_builder := b\<rparr>)"
  by (auto simp: run_tokenizer_def token_step_def consumeOutput_def split: prod.splits sum.splits tokenizer_output.splits)

lemma consume_all_append_iff:
  "consume_all (ts @ us) b = (Inr (), b2) \<longleftrightarrow> (\<exists>b1. consume_all ts b = (Inr (), b1) \<and> consume_all us b1 = (Inr (), b2))"
  by (auto simp: consume_all_append split: prod.splits sum.splits)

definition stream_result :: "'t tokenizer \<Rightarrow> ('d, 't) json_parser \<Rightarrow> string list \<Rightarrow> streaming_json_result \<Rightarrow> bool" where
  "stream_result tok p ss res \<longleftrightarrow>
     (\<exists>ts b. token_stream tok (jp_tokenizer p) ss = Some ts \<and> consume_all ts (jp_builder p) = (Inr (), b)
       \<and> finish_builder b = Inr (sj_value res)) \<and> sj_decodedByteLength res = jp_decodedBytes p + sum_list (map utf8_length ss)"

lemma utf8_length_empty [simp]: "utf8_length [] = 0"
  by (simp add: utf8_length_def)

lemma stream_result_text:
  "stream_result tok p (s # ss) res \<longleftrightarrow> (\<exists>p'. writeDecoded tok s p = (Inr (), p') \<and> stream_result tok p' ss res)"
proof (cases "s = []")
  case True
  then show ?thesis by (simp add: writeDecoded_def stream_result_def)
next
  case False
  then show ?thesis
    by (auto simp: writeDecoded_def stream_result_def run_tokenizer_iff consume_all_append_iff split: option.splits)
qed

lemma stream_result_end:
  "stream_result tok p [] res \<longleftrightarrow>
   (\<exists>p' v. run_tokenizer tok None p = (Inr (), p') \<and> finish_builder (jp_builder p') = Inr v
      \<and> res = \<lparr>sj_value = v, sj_decodedByteLength = jp_decodedBytes p'\<rparr>)"
  by (cases res) (auto simp: stream_result_def run_tokenizer_iff)

lemma writeDecoded_decoder:
  "writeDecoded tok s p = (Inr (), p') \<Longrightarrow> jp_decoder p' = jp_decoder p \<and> jp_ended p' = jp_ended p"
  by (auto simp: writeDecoded_def run_tokenizer_iff split: if_splits)

lemma stream_result_ignores [simp]:
  "stream_result tok (p\<lparr>jp_decoder := d\<rparr>) ss res = stream_result tok p ss res"
  "stream_result tok (p\<lparr>jp_ended := e\<rparr>) ss res = stream_result tok p ss res"
  by (simp_all add: stream_result_def)

lemma json_session_iff:
  "\<not> jp_ended p \<Longrightarrow>
   fst (json_session dec tok cs p) = Inr res \<longleftrightarrow> stream_result tok p (decoded_texts dec (jp_decoder p) cs) res"
proof (induction cs arbitrary: p)
  case Nil
  obtain s d where dec: "dec (jp_decoder p) None = (s, d)" by fastforce
  let ?p = "p\<lparr>jp_ended := True, jp_decoder := d\<rparr>"
  have "fst (json_session dec tok [] p) = Inr res \<longleftrightarrow>
      (\<exists>p1. writeDecoded tok s ?p = (Inr (), p1) \<and> stream_result tok p1 [] res)"
    using Nil dec by (auto simp: json_finish_def stream_result_end sbind_def rbind_Inr_iff split: prod.splits sum.splits)
  also have "\<dots> \<longleftrightarrow> stream_result tok ?p [s] res" by (simp only: stream_result_text)
  finally show ?case using dec by simp
next
  case (Cons c cs)
  obtain s d where dec: "dec (jp_decoder p) (Some c) = (s, d)" by fastforce
  let ?p = "p\<lparr>jp_decoder := d\<rparr>"
  have "fst (json_session dec tok (c # cs) p) = Inr res \<longleftrightarrow>
      (\<exists>p1. writeDecoded tok s ?p = (Inr (), p1) \<and> fst (json_session dec tok cs p1) = Inr res)"
    using Cons.prems dec by (auto simp: json_write_def sbind_def split: prod.splits sum.splits)
  also have "\<dots> \<longleftrightarrow> (\<exists>p1. writeDecoded tok s ?p = (Inr (), p1) \<and> stream_result tok p1 (decoded_texts dec d cs) res)"
    using Cons writeDecoded_decoder [of tok s ?p] by (auto; metis json_parser.select_convs json_parser.simps)
  also have "\<dots> \<longleftrightarrow> stream_result tok ?p (s # decoded_texts dec d cs) res" by (simp only: stream_result_text)
  finally show ?case using dec by simp
qed

text \<open>C34: a response is accepted exactly if the tokens that the tokenizer reports of the decoded text
  are the tokens of a JSON document, whatever the chunks are, and the value is then the document's (with
  the last of equal keys, in the place of the first); no tokens give no value, and the length is that of
  the decoded text. Every other sequence of tokens throws.\<close>

theorem streaming_json_exact:
  "fst (json_session dec tok chunks (new_json_parser d t)) = Inr res \<longleftrightarrow>
   (\<exists>ts. token_stream tok t (decoded_texts dec d chunks) = Some ts
      \<and> (case sj_value res of
           None \<Rightarrow> ts = []
         | Some v \<Rightarrow> \<exists>doc. ts = doc_tokens doc \<and> v = doc_value doc))
   \<and> sj_decodedByteLength res = sum_list (map utf8_length (decoded_texts dec d chunks))"
proof -
  have built: "(\<exists>b. consume_all ts new_builder = (Inr (), b) \<and> finish_builder b = Inr out) \<longleftrightarrow> build_tokens ts = Inr out" for ts out
    by (auto simp: build_tokens_def split: prod.splits sum.splits)
  have "build_tokens ts = Inr out \<longleftrightarrow> (case out of None \<Rightarrow> ts = [] | Some v \<Rightarrow> \<exists>doc. ts = doc_tokens doc \<and> v = doc_value doc)" for ts out
    using build_tokens_iff [of ts] by (cases out) auto
  with built show ?thesis
    by (simp add: json_session_iff stream_result_def new_json_parser_def)
qed

end
