(* ===== verification/Sse_Scanner.thy ===== *)
theory Sse_Scanner
  imports Streaming_Json
begin

section \<open>The event stream of a Provider\<close>

text \<open>
  \<open>packages/providers/src/cliproxy/sse.ts\<close>: server-sent events are recognised byte by byte, and the
  JSON of their data is parsed while it comes. A byte is a number below 256. Everything here is local to
  one generator, which ends at the first throw; so what an object holds after it threw is not kept, and an
  operation is a function to an error or a new object. The decoder of bytes and the tokenizer are the
  parameters of \<open>Streaming_Json\<close>, gathered in a record.
\<close>

subsection \<open>State\<close>

record ('d, 't) codec =
  cd_decode :: "'d decoder"
  cd_tokenize :: "'t tokenizer"
  cd_decoder :: 'd
  cd_tokenizer :: 't

datatype sse_event = Sse_event "string option" jsval int | Sse_done

abbreviation ASCII_CR :: nat where "ASCII_CR \<equiv> 13"
abbreviation ASCII_LF :: nat where "ASCII_LF \<equiv> 10"
abbreviation ASCII_COLON :: nat where "ASCII_COLON \<equiv> 58"
abbreviation ASCII_SPACE :: nat where "ASCII_SPACE \<equiv> 32"

definition UTF8_BOM :: "nat list" where "UTF8_BOM = [239, 187, 191]"

definition DONE_BYTES :: "nat list" where "DONE_BYTES = [91, 68, 79, 78, 69, 93]"

record ('d, 't) json_byte_sink =
  sk_parser :: "('d, 't) json_parser"
  sk_bytes :: "nat list"

record 'd utf8_accumulator =
  ua_decoder :: 'd
  ua_bytes :: "nat list"
  ua_chunks :: "string list"

datatype data_mode = Leading | Candidate | Trailing | In_json

record ('d, 't) sse_json_data =
  sd_mode :: data_mode
  sd_candidateLength :: nat
  sd_discarded :: nat
  sd_lineCount :: nat
  sd_sink :: "('d, 't) json_byte_sink option"

record ('d, 't) sse_frame =
  sf_data :: "('d, 't) sse_json_data option"
  sf_eventName :: "string option"

datatype line_mode = Field | Ignore | Data_space | In_data | Event_space | In_event

record 'd sse_line =
  sl_mode :: line_mode
  sl_field :: "nat list"
  sl_eventValue :: "'d utf8_accumulator option"

record ('d, 't) sse_scanner =
  sc_frame :: "('d, 't) sse_frame"
  sc_line :: "'d sse_line"
  sc_lineHasBytes :: bool
  sc_pendingCr :: bool
  sc_bomResolved :: bool
  sc_bomPending :: "nat list"

definition new_data :: "('d, 't) sse_json_data" where
  "new_data = \<lparr>sd_mode = Leading, sd_candidateLength = 0, sd_discarded = 0, sd_lineCount = 0, sd_sink = None\<rparr>"

definition new_frame :: "('d, 't) sse_frame" where
  "new_frame = \<lparr>sf_data = None, sf_eventName = None\<rparr>"

definition new_line :: "'d sse_line" where
  "new_line = \<lparr>sl_mode = Field, sl_field = [], sl_eventValue = None\<rparr>"

definition new_scanner :: "('d, 't) sse_scanner" where
  "new_scanner = \<lparr>sc_frame = new_frame, sc_line = new_line, sc_lineHasBytes = False, sc_pendingCr = False,
     sc_bomResolved = False, sc_bomPending = []\<rparr>"

definition isJsonWhitespace :: "nat \<Rightarrow> bool" where
  "isJsonWhitespace b \<longleftrightarrow> b = ASCII_SPACE \<or> b = ASCII_LF \<or> b = ASCII_CR \<or> b = 9"

subsection \<open>Buffers\<close>

definition new_sink :: "('d, 't) codec \<Rightarrow> ('d, 't) json_byte_sink" where
  "new_sink cd = \<lparr>sk_parser = new_json_parser (cd_decoder cd) (cd_tokenizer cd), sk_bytes = []\<rparr>"

definition sink_flush :: "('d, 't) codec \<Rightarrow> ('d, 't) json_byte_sink \<Rightarrow> ('d, 't) json_byte_sink result" where
  "sink_flush cd s =
     (if sk_bytes s = [] then Inr s
      else case json_write (cd_decode cd) (cd_tokenize cd) (sk_bytes s) (sk_parser s) of
             (Inl e, _) \<Rightarrow> Inl e
           | (Inr _, p) \<Rightarrow> Inr \<lparr>sk_parser = p, sk_bytes = []\<rparr>)"

definition SINK_SIZE :: nat where "SINK_SIZE = 64 * 1024"

definition sink_push :: "('d, 't) codec \<Rightarrow> nat \<Rightarrow> ('d, 't) json_byte_sink \<Rightarrow> ('d, 't) json_byte_sink result" where
  "sink_push cd b s =
     (let s = s\<lparr>sk_bytes := sk_bytes s @ [b]\<rparr>
      in if length (sk_bytes s) = SINK_SIZE then sink_flush cd s else Inr s)"

definition sink_finish :: "('d, 't) codec \<Rightarrow> ('d, 't) json_byte_sink \<Rightarrow> streaming_json_result result" where
  "sink_finish cd s = rbind (sink_flush cd s) (\<lambda>s. fst (json_finish (cd_decode cd) (cd_tokenize cd) (sk_parser s)))"

definition UTF8_SIZE :: nat where "UTF8_SIZE = 4096"

definition new_utf8 :: "('d, 't) codec \<Rightarrow> 'd utf8_accumulator" where
  "new_utf8 cd = \<lparr>ua_decoder = cd_decoder cd, ua_bytes = [], ua_chunks = []\<rparr>"

definition utf8_flush :: "('d, 't) codec \<Rightarrow> 'd utf8_accumulator \<Rightarrow> 'd utf8_accumulator" where
  "utf8_flush cd u =
     (if ua_bytes u = [] then u
      else case cd_decode cd (ua_decoder u) (Some (ua_bytes u)) of
             (s, d) \<Rightarrow> \<lparr>ua_decoder = d, ua_bytes = [], ua_chunks = ua_chunks u @ [s]\<rparr>)"

definition utf8_push :: "('d, 't) codec \<Rightarrow> nat \<Rightarrow> 'd utf8_accumulator \<Rightarrow> 'd utf8_accumulator" where
  "utf8_push cd b u =
     (let u = u\<lparr>ua_bytes := ua_bytes u @ [b]\<rparr>
      in if length (ua_bytes u) = UTF8_SIZE then utf8_flush cd u else u)"

definition utf8_finish :: "('d, 't) codec \<Rightarrow> 'd utf8_accumulator \<Rightarrow> string" where
  "utf8_finish cd u = (let u = utf8_flush cd u in concat (ua_chunks u @ [fst (cd_decode cd (ua_decoder u) None)]))"

subsection \<open>The data of an event\<close>

definition startJson :: "('d, 't) codec \<Rightarrow> nat list \<Rightarrow> ('d, 't) sse_json_data \<Rightarrow> ('d, 't) sse_json_data result" where
  "startJson cd bs d =
     rbind (rfold (sink_push cd) bs (new_sink cd)) (\<lambda>s. Inr (d\<lparr>sd_mode := In_json, sd_sink := Some s\<rparr>))"

definition data_push :: "('d, 't) codec \<Rightarrow> nat \<Rightarrow> ('d, 't) sse_json_data \<Rightarrow> ('d, 't) sse_json_data result" where
  "data_push cd b d =
     (case sd_mode d of
        In_json \<Rightarrow>
          (case sd_sink d of
             None \<Rightarrow> Inr d
           | Some s \<Rightarrow> rbind (sink_push cd b s) (\<lambda>s. Inr (d\<lparr>sd_sink := Some s\<rparr>)))
      | Leading \<Rightarrow>
          if isJsonWhitespace b then Inr (d\<lparr>sd_discarded := sd_discarded d + 1\<rparr>)
          else if b = DONE_BYTES ! 0 then Inr (d\<lparr>sd_mode := Candidate, sd_candidateLength := 1\<rparr>)
          else startJson cd [b] d
      | Candidate \<Rightarrow>
          if b = DONE_BYTES ! sd_candidateLength d
          then let d = d\<lparr>sd_candidateLength := sd_candidateLength d + 1\<rparr>
               in Inr (if sd_candidateLength d = length DONE_BYTES then d\<lparr>sd_mode := Trailing\<rparr> else d)
          else startJson cd (take (sd_candidateLength d) DONE_BYTES @ [b]) d
      | Trailing \<Rightarrow>
          if isJsonWhitespace b then Inr (d\<lparr>sd_discarded := sd_discarded d + 1\<rparr>)
          else startJson cd (DONE_BYTES @ [b]) d)"

definition data_startLine :: "('d, 't) codec \<Rightarrow> ('d, 't) sse_json_data \<Rightarrow> ('d, 't) sse_json_data result" where
  "data_startLine cd d =
     rbind (if sd_lineCount d > 0 then data_push cd ASCII_LF d else Inr d)
       (\<lambda>d. Inr (d\<lparr>sd_lineCount := sd_lineCount d + 1\<rparr>))"

text \<open>The value and its length, or \<open>None\<close> for the end marker.\<close>

definition data_finish :: "('d, 't) codec \<Rightarrow> ('d, 't) sse_json_data \<Rightarrow> (jsval \<times> int) option result" where
  "data_finish cd d =
     (if sd_mode d = Trailing then Inr None
      else rbind (if sd_mode d = Candidate then startJson cd (take (sd_candidateLength d) DONE_BYTES) d else Inr d) (\<lambda>d.
        case sd_sink d of
          None \<Rightarrow> plain ''SSE data was empty''
        | Some s \<Rightarrow>
            rbind (sink_finish cd s) (\<lambda>parsed.
              case sj_value parsed of
                None \<Rightarrow> plain ''SSE data was empty''
              | Some v \<Rightarrow> Inr (Some (v, sj_decodedByteLength parsed + int (sd_discarded d))))))"

subsection \<open>Frames\<close>

definition frame_startDataLine :: "('d, 't) codec \<Rightarrow> ('d, 't) sse_frame \<Rightarrow> ('d, 't) sse_frame result" where
  "frame_startDataLine cd f =
     rbind (data_startLine cd (case sf_data f of None \<Rightarrow> new_data | Some d \<Rightarrow> d)) (\<lambda>d. Inr (f\<lparr>sf_data := Some d\<rparr>))"

definition pushDataByte :: "('d, 't) codec \<Rightarrow> nat \<Rightarrow> ('d, 't) sse_frame \<Rightarrow> ('d, 't) sse_frame result" where
  "pushDataByte cd b f =
     (case sf_data f of
        None \<Rightarrow> Inr f
      | Some d \<Rightarrow> rbind (data_push cd b d) (\<lambda>d. Inr (f\<lparr>sf_data := Some d\<rparr>)))"

abbreviation protocol_error :: js_error where
  "protocol_error \<equiv> RelayError ''cliproxy_protocol_error'' 502 []"

definition frame_finish :: "('d, 't) codec \<Rightarrow> ('d, 't) sse_frame \<Rightarrow> sse_event option result" where
  "frame_finish cd f =
     (case sf_data f of
        None \<Rightarrow> Inr None
      | Some d \<Rightarrow>
          (case data_finish cd d of
             Inl e \<Rightarrow> Inl protocol_error
           | Inr None \<Rightarrow> Inr (Some Sse_done)
           | Inr (Some (v, n)) \<Rightarrow>
               Inr (Some (Sse_event (case sf_eventName f of None \<Rightarrow> None | Some s \<Rightarrow> if s = [] then None else Some s) v n))))"

subsection \<open>Lines\<close>

text \<open>The codes of \<open>data\<close> and \<open>event\<close>.\<close>

definition DATA_FIELD :: "nat list" where "DATA_FIELD = [100, 97, 116, 97]"

definition EVENT_FIELD :: "nat list" where "EVENT_FIELD = [101, 118, 101, 110, 116]"

type_synonym ('d, 't) line_frame = "'d sse_line \<times> ('d, 't) sse_frame"

definition startKnownField :: "('d, 't) codec \<Rightarrow> ('d, 't) line_frame \<Rightarrow> ('d, 't) line_frame result" where
  "startKnownField cd lf =
     (case lf of (l, f) \<Rightarrow>
        if sl_field l = DATA_FIELD then rbind (frame_startDataLine cd f) (\<lambda>f. Inr (l\<lparr>sl_mode := Data_space\<rparr>, f))
        else if sl_field l = EVENT_FIELD
        then Inr (l\<lparr>sl_eventValue := Some (new_utf8 cd), sl_mode := Event_space\<rparr>, f)
        else Inr (l\<lparr>sl_mode := Ignore\<rparr>, f))"

definition push_event_byte :: "('d, 't) codec \<Rightarrow> nat \<Rightarrow> 'd sse_line \<Rightarrow> 'd sse_line" where
  "push_event_byte cd b l = l\<lparr>sl_eventValue := map_option (utf8_push cd b) (sl_eventValue l)\<rparr>"

definition line_push :: "('d, 't) codec \<Rightarrow> nat \<Rightarrow> ('d, 't) line_frame \<Rightarrow> ('d, 't) line_frame result" where
  "line_push cd b lf =
     (case lf of (l, f) \<Rightarrow>
        (case sl_mode l of
           Ignore \<Rightarrow> Inr (l, f)
         | Data_space \<Rightarrow>
             let l = l\<lparr>sl_mode := In_data\<rparr>
             in if b \<noteq> ASCII_SPACE then rbind (pushDataByte cd b f) (\<lambda>f. Inr (l, f)) else Inr (l, f)
         | In_data \<Rightarrow> rbind (pushDataByte cd b f) (\<lambda>f. Inr (l, f))
         | Event_space \<Rightarrow>
             let l = l\<lparr>sl_mode := In_event\<rparr>
             in Inr (if b \<noteq> ASCII_SPACE then push_event_byte cd b l else l, f)
         | In_event \<Rightarrow> Inr (push_event_byte cd b l, f)
         | Field \<Rightarrow>
             if sl_field l = [] \<and> b = ASCII_COLON then Inr (l\<lparr>sl_mode := Ignore\<rparr>, f)
             else if b = ASCII_COLON then startKnownField cd (l, f)
             else if length (sl_field l) \<ge> 5 then Inr (l\<lparr>sl_mode := Ignore\<rparr>, f)
             else Inr (l\<lparr>sl_field := sl_field l @ [b]\<rparr>, f)))"

definition line_finish :: "('d, 't) codec \<Rightarrow> ('d, 't) line_frame \<Rightarrow> ('d, 't) sse_frame result" where
  "line_finish cd lf =
     rbind (if sl_mode (fst lf) = Field then startKnownField cd lf else Inr lf) (\<lambda>(l, f).
       if sl_mode l = Event_space \<or> sl_mode l = In_event
       then Inr (f\<lparr>sf_eventName := Some (case sl_eventValue l of None \<Rightarrow> [] | Some u \<Rightarrow> utf8_finish cd u)\<rparr>)
       else Inr f)"

subsection \<open>The scanner\<close>

text \<open>A result is \<open>None\<close>, or a completed frame with its event.\<close>

type_synonym ('d, 't) scan_result = "(sse_event option option \<times> ('d, 't) sse_scanner) result"

definition finishFrame :: "('d, 't) codec \<Rightarrow> ('d, 't) sse_scanner \<Rightarrow> (sse_event option \<times> ('d, 't) sse_scanner) result" where
  "finishFrame cd s = rbind (frame_finish cd (sc_frame s)) (\<lambda>ev. Inr (ev, s\<lparr>sc_frame := new_frame\<rparr>))"

definition endLine :: "('d, 't) codec \<Rightarrow> ('d, 't) sse_scanner \<Rightarrow> ('d, 't) sse_scanner result" where
  "endLine cd s =
     rbind (line_finish cd (sc_line s, sc_frame s)) (\<lambda>f.
       Inr (s\<lparr>sc_frame := f, sc_line := new_line, sc_lineHasBytes := False\<rparr>))"

definition finishLine :: "('d, 't) codec \<Rightarrow> ('d, 't) sse_scanner \<Rightarrow> ('d, 't) scan_result" where
  "finishLine cd s =
     (if \<not> sc_lineHasBytes s then rbind (finishFrame cd s) (\<lambda>(ev, s). Inr (Some ev, s))
      else rbind (endLine cd s) (\<lambda>s. Inr (None, s)))"

definition push_line_byte :: "('d, 't) codec \<Rightarrow> nat \<Rightarrow> ('d, 't) sse_scanner \<Rightarrow> ('d, 't) sse_scanner result" where
  "push_line_byte cd b s =
     rbind (line_push cd b (sc_line s, sc_frame s)) (\<lambda>(l, f). Inr (s\<lparr>sc_lineHasBytes := True, sc_line := l, sc_frame := f\<rparr>))"

definition pushResolvedByte :: "('d, 't) codec \<Rightarrow> nat \<Rightarrow> ('d, 't) sse_scanner \<Rightarrow> ('d, 't) scan_result" where
  "pushResolvedByte cd b s =
     (if sc_pendingCr s
      then let s = s\<lparr>sc_pendingCr := False\<rparr>
           in if b = ASCII_LF then finishLine cd s
              else rbind (finishLine cd s) (\<lambda>(completed, s).
                     if b = ASCII_CR then Inr (completed, s\<lparr>sc_pendingCr := True\<rparr>)
                     else rbind (push_line_byte cd b s) (\<lambda>s. Inr (completed, s)))
      else if b = ASCII_CR then Inr (None, s\<lparr>sc_pendingCr := True\<rparr>)
      else if b = ASCII_LF then finishLine cd s
      else rbind (push_line_byte cd b s) (\<lambda>s. Inr (None, s)))"

fun push_pending :: "('d, 't) codec \<Rightarrow> nat list \<Rightarrow> sse_event option option \<Rightarrow> ('d, 't) sse_scanner \<Rightarrow> ('d, 't) scan_result" where
  "push_pending cd [] complete_frame s = Inr (complete_frame, s)"
| "push_pending cd (b # bs) complete_frame s =
     (case complete_frame of
        None \<Rightarrow> rbind (pushResolvedByte cd b s) (\<lambda>(c, s). push_pending cd bs c s)
      | Some ev \<Rightarrow> push_pending cd bs complete_frame s)"

definition pushInitialByte :: "('d, 't) codec \<Rightarrow> nat \<Rightarrow> ('d, 't) sse_scanner \<Rightarrow> ('d, 't) scan_result" where
  "pushInitialByte cd b s =
     (if b = UTF8_BOM ! length (sc_bomPending s)
      then let s = s\<lparr>sc_bomPending := sc_bomPending s @ [b]\<rparr>
           in Inr (None, if length (sc_bomPending s) = length UTF8_BOM then s\<lparr>sc_bomResolved := True, sc_bomPending := []\<rparr> else s)
      else rbind (push_pending cd (sc_bomPending s) None (s\<lparr>sc_bomResolved := True\<rparr>)) (\<lambda>(c, s).
             let s = s\<lparr>sc_bomPending := []\<rparr>
             in case c of Some ev \<Rightarrow> Inr (c, s) | None \<Rightarrow> pushResolvedByte cd b s))"

definition scanner_push :: "('d, 't) codec \<Rightarrow> nat \<Rightarrow> ('d, 't) sse_scanner \<Rightarrow> ('d, 't) scan_result" where
  "scanner_push cd b s = (if \<not> sc_bomResolved s then pushInitialByte cd b s else pushResolvedByte cd b s)"

text \<open>At the end, what each of the bytes held back completes is dropped, as in the code.\<close>

definition resolve_bom :: "('d, 't) codec \<Rightarrow> ('d, 't) sse_scanner \<Rightarrow> ('d, 't) sse_scanner result" where
  "resolve_bom cd s =
     (if sc_bomResolved s then Inr s
      else rbind (rfold (\<lambda>b s. rbind (pushResolvedByte cd b s) (\<lambda>(_, s). Inr s)) (sc_bomPending s) (s\<lparr>sc_bomResolved := True\<rparr>))
             (\<lambda>s. Inr (s\<lparr>sc_bomPending := []\<rparr>)))"

definition scanner_finish :: "('d, 't) codec \<Rightarrow> ('d, 't) sse_scanner \<Rightarrow> sse_event option result" where
  "scanner_finish cd s =
     rbind (resolve_bom cd s) (\<lambda>s.
     rbind (if sc_pendingCr s then finishLine cd (s\<lparr>sc_pendingCr := False\<rparr>) else Inr (None, s)) (\<lambda>(completed, s).
       case completed of
         Some (Some ev) \<Rightarrow> Inr (Some ev)
       | _ \<Rightarrow> rbind (if sc_lineHasBytes s then endLine cd s else Inr s) (\<lambda>s.
                rbind (finishFrame cd s) (\<lambda>(ev, _). Inr ev))))"

subsection \<open>The generator\<close>

text \<open>
  The stream answers reads with chunks, until it ends; a read can fail, or lose the race against an
  abort. \<open>aborted n\<close> says whether the signal is aborted after \<open>n\<close> points at which the generator gave
  way. The outcome is what was yielded, with the turns of the event loop, and what was thrown, with the
  events received until then (the arguments of \<open>cliProxyStreamError\<close>).
\<close>

definition DEFAULT_MAX_QUEUE_FRAMES :: int where "DEFAULT_MAX_QUEUE_FRAMES = 128"

definition RAW_BYTE_WORK_QUANTUM :: nat where "RAW_BYTE_WORK_QUANTUM = 2 * 1024 * 1024"

datatype stream_read = Read_chunk "nat list" | Read_fails js_error | Read_aborted

datatype sse_output = Yielded sse_event | Turned

datatype sse_failure = Stream_error js_error | Aborted

record ('d, 't) sse_reader =
  sr_scanner :: "('d, 't) sse_scanner"
  sr_framesSinceYield :: nat
  sr_bytesSinceYield :: nat
  sr_eventsReceived :: nat
  sr_waits :: nat

definition new_reader :: "('d, 't) sse_reader" where
  "new_reader = \<lparr>sr_scanner = new_scanner, sr_framesSinceYield = 0, sr_bytesSinceYield = 0, sr_eventsReceived = 0, sr_waits = 0\<rparr>"

text \<open>\<open>validatedLimits\<close>: the value given for \<open>maxQueueFrames\<close>, if any.\<close>

definition validatedLimits :: "jsval option \<Rightarrow> nat result" where
  "validatedLimits input =
     (case input of
        None \<Rightarrow> Inr (nat DEFAULT_MAX_QUEUE_FRAMES)
      | Some v \<Rightarrow>
          (case safe_int_of v of
             None \<Rightarrow> Inl protocol_error
           | Some n \<Rightarrow> if n \<le> 0 then Inl protocol_error else Inr (nat n)))"

type_synonym ('d, 't) reading = "sse_output list \<times> (sse_failure \<times> nat + ('d, 't) sse_reader)"

definition yieldForWorkQuantum :: "(nat \<Rightarrow> bool) \<Rightarrow> ('d, 't) sse_reader \<Rightarrow> ('d, 't) reading" where
  "yieldForWorkQuantum aborted r =
     (let r = r\<lparr>sr_framesSinceYield := 0, sr_bytesSinceYield := 0, sr_waits := sr_waits r + 1\<rparr>
      in ([Turned], if aborted (sr_waits r) then Inl (Aborted, sr_eventsReceived r) else Inr r))"

definition yield_event :: "sse_event \<Rightarrow> ('d, 't) sse_reader \<Rightarrow> ('d, 't) sse_reader" where
  "yield_event ev r =
     r\<lparr>sr_framesSinceYield := 0, sr_bytesSinceYield := 0, sr_waits := sr_waits r + 1,
       sr_eventsReceived := sr_eventsReceived r + (if ev = Sse_done then 0 else 1)\<rparr>"

definition read_byte :: "('d, 't) codec \<Rightarrow> nat \<Rightarrow> (nat \<Rightarrow> bool) \<Rightarrow> nat \<Rightarrow> ('d, 't) sse_reader \<Rightarrow> ('d, 't) reading" where
  "read_byte cd maxQueueFrames aborted b r =
     (case scanner_push cd b (sr_scanner r) of
        Inl e \<Rightarrow> ([], Inl (Stream_error e, sr_eventsReceived r))
      | Inr (complete_frame, sc) \<Rightarrow>
          (let r = r\<lparr>sr_scanner := sc, sr_bytesSinceYield := sr_bytesSinceYield r + 1\<rparr>
           in case complete_frame of
                Some (Some ev) \<Rightarrow> ([Yielded ev], Inr (yield_event ev r))
              | Some None \<Rightarrow>
                  (let r = r\<lparr>sr_framesSinceYield := sr_framesSinceYield r + 1\<rparr>
                   in if sr_framesSinceYield r \<ge> maxQueueFrames \<or> sr_bytesSinceYield r \<ge> RAW_BYTE_WORK_QUANTUM
                      then yieldForWorkQuantum aborted r else ([], Inr r))
              | None \<Rightarrow> if sr_bytesSinceYield r \<ge> RAW_BYTE_WORK_QUANTUM then yieldForWorkQuantum aborted r else ([], Inr r)))"

fun read_bytes :: "('d, 't) codec \<Rightarrow> nat \<Rightarrow> (nat \<Rightarrow> bool) \<Rightarrow> nat list \<Rightarrow> ('d, 't) sse_reader \<Rightarrow> ('d, 't) reading" where
  "read_bytes cd m aborted [] r = ([], Inr r)"
| "read_bytes cd m aborted (b # bs) r =
     (case read_byte cd m aborted b r of
        (out, Inl x) \<Rightarrow> (out, Inl x)
      | (out, Inr r) \<Rightarrow> (case read_bytes cd m aborted bs r of (outs, res) \<Rightarrow> (out @ outs, res)))"

definition read_end :: "('d, 't) codec \<Rightarrow> ('d, 't) sse_reader \<Rightarrow> sse_output list \<times> (sse_failure \<times> nat) option" where
  "read_end cd r =
     (case scanner_finish cd (sr_scanner r) of
        Inl e \<Rightarrow> ([], Some (Stream_error e, sr_eventsReceived r))
      | Inr None \<Rightarrow> ([], None)
      | Inr (Some ev) \<Rightarrow> ([Yielded ev], None))"

fun read_stream :: "('d, 't) codec \<Rightarrow> nat \<Rightarrow> (nat \<Rightarrow> bool) \<Rightarrow> stream_read list \<Rightarrow> ('d, 't) sse_reader
    \<Rightarrow> sse_output list \<times> (sse_failure \<times> nat) option" where
  "read_stream cd m aborted rds r =
     (if aborted (sr_waits r) then ([], Some (Aborted, sr_eventsReceived r))
      else case rds of
             [] \<Rightarrow> read_end cd r
           | Read_fails e # _ \<Rightarrow> ([], Some (Stream_error e, sr_eventsReceived r))
           | Read_aborted # _ \<Rightarrow> ([], Some (Aborted, sr_eventsReceived r))
           | Read_chunk bs # rds' \<Rightarrow>
               (case read_bytes cd m aborted bs (r\<lparr>sr_waits := sr_waits r + 1\<rparr>) of
                  (out, Inl x) \<Rightarrow> (out, Some x)
                | (out, Inr r) \<Rightarrow> (case read_stream cd m aborted rds' r of (outs, res) \<Rightarrow> (out @ outs, res))))"

definition parseCliProxySse :: "('d, 't) codec \<Rightarrow> jsval option \<Rightarrow> (nat \<Rightarrow> bool) \<Rightarrow> stream_read list
    \<Rightarrow> (sse_output list \<times> (sse_failure \<times> nat) option) result" where
  "parseCliProxySse cd limits aborted rds = rbind (validatedLimits limits) (\<lambda>m. Inr (read_stream cd m aborted rds new_reader))"

subsection \<open>What the scanner computes\<close>

text \<open>
  The reference: the input without a byte order mark is split into lines, which end with CR, LF or CRLF,
  and the lines into frames at empty lines; the last line and the last frame need no end. A frame is the
  values of its \<open>data\<close> lines, joined by LF, and the value of its last \<open>event\<close> line.
\<close>

definition strip_bom :: "nat list \<Rightarrow> nat list" where
  "strip_bom bs = (if take 3 bs = UTF8_BOM then drop 3 bs else bs)"

function split_lines :: "nat list \<Rightarrow> nat list \<Rightarrow> nat list list" where
  "split_lines l [] = (if l = [] then [] else [l])"
| "split_lines l (b # bs) =
     (if b = ASCII_CR then l # split_lines [] (case bs of [] \<Rightarrow> [] | c # cs \<Rightarrow> if c = ASCII_LF then cs else bs)
      else if b = ASCII_LF then l # split_lines [] bs
      else split_lines (l @ [b]) bs)"
  by pat_completeness auto
termination
  by (relation "measure (\<lambda>(l, bs). length bs)") (auto split: list.splits)

fun split_frames :: "nat list list \<Rightarrow> nat list list \<Rightarrow> nat list list list" where
  "split_frames ls [] = [ls]"
| "split_frames ls (l # rest) = (if l = [] then ls # split_frames [] rest else split_frames (ls @ [l]) rest)"

text \<open>The name of a line and its value, without one leading space.\<close>

definition line_name :: "nat list \<Rightarrow> nat list" where
  "line_name l = takeWhile (\<lambda>b. b \<noteq> ASCII_COLON) l"

definition line_value :: "nat list \<Rightarrow> nat list" where
  "line_value l = (let v = drop (length (line_name l) + 1) l in if take 1 v = [ASCII_SPACE] then drop 1 v else v)"

definition frame_data :: "nat list list \<Rightarrow> nat list option" where
  "frame_data ls =
     (case map line_value [l \<leftarrow> ls. line_name l = DATA_FIELD] of
        [] \<Rightarrow> None
      | v # vs \<Rightarrow> Some (v @ concat (map (\<lambda>w. ASCII_LF # w) vs)))"

definition event_value :: "nat list list \<Rightarrow> nat list option" where
  "event_value ls =
     (let es = [l \<leftarrow> ls. line_name l = EVENT_FIELD] in if es = [] then None else Some (line_value (last es)))"

text \<open>Bytes in chunks of a size, with the rest in a chunk of its own.\<close>

function full_chunks :: "nat \<Rightarrow> nat list \<Rightarrow> nat list list" where
  "full_chunks n bs = (if 0 < n \<and> n \<le> length bs then take n bs # full_chunks n (drop n bs) else [])"
  by pat_completeness auto
termination
  by (relation "measure (\<lambda>(n, bs). length bs)") auto

function last_chunk :: "nat \<Rightarrow> nat list \<Rightarrow> nat list" where
  "last_chunk n bs = (if 0 < n \<and> n \<le> length bs then last_chunk n (drop n bs) else bs)"
  by pat_completeness auto
termination
  by (relation "measure (\<lambda>(n, bs). length bs)") auto

declare full_chunks.simps [simp del] last_chunk.simps [simp del]

definition nonempty_chunk :: "nat list \<Rightarrow> nat list list" where
  "nonempty_chunk bs = (if bs = [] then [] else [bs])"

definition utf8_text :: "('d, 't) codec \<Rightarrow> nat list \<Rightarrow> string" where
  "utf8_text cd bs =
     concat (decoded_texts (cd_decode cd) (cd_decoder cd) (full_chunks UTF8_SIZE bs @ nonempty_chunk (last_chunk UTF8_SIZE bs)))"

definition write_chunks :: "('d, 't) codec \<Rightarrow> nat list list \<Rightarrow> ('d, 't) json_parser \<Rightarrow> ('d, 't) json_parser result" where
  "write_chunks cd = rfold (\<lambda>c p. case json_write (cd_decode cd) (cd_tokenize cd) c p of (Inl e, _) \<Rightarrow> Inl e | (Inr _, p) \<Rightarrow> Inr p)"

text \<open>
  The JSON of the data: a text without its leading white space, and without the white space after a
  leading \<open>[DONE]\<close>, if it goes on; the number of bytes left out comes first.
\<close>

definition data_json :: "nat list \<Rightarrow> nat \<times> nat list" where
  "data_json bs =
     (let ws = takeWhile isJsonWhitespace bs; rest = dropWhile isJsonWhitespace bs
      in if take 6 rest = DONE_BYTES
         then (length ws + length (takeWhile isJsonWhitespace (drop 6 rest)), DONE_BYTES @ dropWhile isJsonWhitespace (drop 6 rest))
         else (length ws, rest))"

definition is_done :: "nat list \<Rightarrow> bool" where
  "is_done bs \<longleftrightarrow> snd (data_json bs) = DONE_BYTES"

definition parse_json :: "('d, 't) codec \<Rightarrow> nat \<Rightarrow> nat list \<Rightarrow> (jsval \<times> int) result" where
  "parse_json cd skipped json =
     rbind (write_chunks cd (full_chunks SINK_SIZE json) (new_json_parser (cd_decoder cd) (cd_tokenizer cd))) (\<lambda>p.
       case fst (json_session (cd_decode cd) (cd_tokenize cd) (nonempty_chunk (last_chunk SINK_SIZE json)) p) of
         Inl _ \<Rightarrow> Inl protocol_error
       | Inr res \<Rightarrow>
           (case sj_value res of
              None \<Rightarrow> Inl protocol_error
            | Some v \<Rightarrow> Inr (v, sj_decodedByteLength res + int skipped)))"

definition json_result :: "('d, 't) codec \<Rightarrow> nat list \<Rightarrow> (jsval \<times> int) result" where
  "json_result cd bs =
     (case data_json bs of (skipped, json) \<Rightarrow> if json = [] then Inl protocol_error else parse_json cd skipped json)"

definition frame_event :: "('d, 't) codec \<Rightarrow> nat list list \<Rightarrow> sse_event option result" where
  "frame_event cd ls =
     (case frame_data ls of
        None \<Rightarrow> Inr None
      | Some bs \<Rightarrow>
          if is_done bs then Inr (Some Sse_done)
          else rbind (json_result cd bs) (\<lambda>(v, n).
                 Inr (Some (Sse_event
                   (case event_value ls of
                      None \<Rightarrow> None
                    | Some e \<Rightarrow> if utf8_text cd e = [] then None else Some (utf8_text cd e)) v n))))"

fun frame_events :: "('d, 't) codec \<Rightarrow> nat list list list \<Rightarrow> sse_event list \<times> js_error option" where
  "frame_events cd [] = ([], None)"
| "frame_events cd (f # fs) =
     (case frame_event cd f of
        Inl e \<Rightarrow> ([], Some e)
      | Inr None \<Rightarrow> frame_events cd fs
      | Inr (Some ev) \<Rightarrow> (case frame_events cd fs of (evs, e) \<Rightarrow> (ev # evs, e)))"

definition sse_events :: "('d, 't) codec \<Rightarrow> nat list \<Rightarrow> sse_event list \<times> js_error option" where
  "sse_events cd bs = frame_events cd (split_frames [] (split_lines [] (strip_bom bs)))"

subsection \<open>Buffers hold the last chunk\<close>

lemma chunks_short: "length bs < n \<Longrightarrow> full_chunks n bs = [] \<and> last_chunk n bs = bs"
  by (simp add: full_chunks.simps last_chunk.simps)

lemma chunks_full: "0 < n \<Longrightarrow> length acc = n \<Longrightarrow>
   full_chunks n (acc @ bs) = acc # full_chunks n bs \<and> last_chunk n (acc @ bs) = last_chunk n bs"
  by (subst full_chunks.simps, subst last_chunk.simps) simp

lemma rfold_append: "rfold f (xs @ ys) s = rbind (rfold f xs s) (rfold f ys)"
  by (induction xs arbitrary: s) (auto simp: rbind_def split: sum.splits)

lemma sink_pushes:
  "length acc < SINK_SIZE \<Longrightarrow>
   rfold (sink_push cd) bs \<lparr>sk_parser = p, sk_bytes = acc\<rparr>
     = rbind (write_chunks cd (full_chunks SINK_SIZE (acc @ bs)) p) (\<lambda>p. Inr \<lparr>sk_parser = p, sk_bytes = last_chunk SINK_SIZE (acc @ bs)\<rparr>)"
proof (induction bs arbitrary: p acc)
  case Nil
  then show ?case by (simp add: chunks_short write_chunks_def)
next
  case (Cons b bs)
  show ?case
  proof (cases "length (acc @ [b]) = SINK_SIZE")
    case True
    have "0 < SINK_SIZE" by (simp add: SINK_SIZE_def)
    from chunks_full [OF this True, of bs] True this Cons.IH [of "[]"] show ?thesis
      by (auto simp: sink_push_def sink_flush_def write_chunks_def split: prod.splits sum.splits)
  next
    case False
    with Cons.prems have "length (acc @ [b]) < SINK_SIZE" by simp
    from Cons.IH [OF this] False show ?thesis by (simp add: sink_push_def)
  qed
qed

lemma utf8_pushes:
  assumes "length acc < UTF8_SIZE"
  shows "utf8_finish cd (fold (utf8_push cd) bs \<lparr>ua_decoder = d, ua_bytes = acc, ua_chunks = ss\<rparr>)
    = concat ss @ concat (decoded_texts (cd_decode cd) d
        (full_chunks UTF8_SIZE (acc @ bs) @ nonempty_chunk (last_chunk UTF8_SIZE (acc @ bs))))"
  using assms
proof (induction bs arbitrary: d acc ss)
  case Nil
  then show ?case by (simp add: chunks_short utf8_finish_def utf8_flush_def nonempty_chunk_def Let_def split: prod.splits)
next
  case (Cons b bs)
  show ?case
  proof (cases "length (acc @ [b]) = UTF8_SIZE")
    case True
    have "0 < UTF8_SIZE" by (simp add: UTF8_SIZE_def)
    from chunks_full [OF this True, of bs] True this Cons.IH [of "[]"] show ?thesis
      by (simp add: utf8_push_def utf8_flush_def split: prod.splits)
  next
    case False
    with Cons.prems have "length (acc @ [b]) < UTF8_SIZE" by simp
    from Cons.IH [OF this] False show ?thesis by (simp add: utf8_push_def)
  qed
qed

lemma utf8_value: "utf8_finish cd (fold (utf8_push cd) bs (new_utf8 cd)) = utf8_text cd bs"
  unfolding new_utf8_def utf8_text_def by (subst utf8_pushes) (simp_all add: UTF8_SIZE_def)

subsection \<open>The effect of a line\<close>

definition full_line :: "('d, 't) codec \<Rightarrow> nat list \<Rightarrow> ('d, 't) sse_frame \<Rightarrow> ('d, 't) sse_frame result" where
  "full_line cd l f = rbind (rfold (line_push cd) l (new_line, f)) (line_finish cd)"

definition strip_space :: "nat list \<Rightarrow> nat list" where
  "strip_space v = (if take 1 v = [ASCII_SPACE] then drop 1 v else v)"

definition field_effect :: "('d, 't) codec \<Rightarrow> nat list \<Rightarrow> nat list \<Rightarrow> ('d, 't) sse_frame \<Rightarrow> ('d, 't) sse_frame result" where
  "field_effect cd name v f =
     (if name = DATA_FIELD then rbind (frame_startDataLine cd f) (rfold (pushDataByte cd) v)
      else if name = EVENT_FIELD then Inr (f\<lparr>sf_eventName := Some (utf8_text cd v)\<rparr>)
      else Inr f)"

lemma rbind_assoc: "rbind (rbind m f) g = rbind m (\<lambda>x. rbind (f x) g)"
  by (cases m) simp_all

lemmas line_push_at = line_push_def [where lf = "(l, f)" for l f, unfolded prod.case]

lemma rfold_ignore: "sl_mode l = Ignore \<Longrightarrow> rfold (line_push cd) bs (l, f) = Inr (l, f)"
  by (induction bs) (simp_all add: line_push_at)

lemma rfold_data: "sl_mode l = In_data \<Longrightarrow>
   rfold (line_push cd) bs (l, f) = rbind (rfold (pushDataByte cd) bs f) (\<lambda>f. Inr (l, f))"
  by (induction bs arbitrary: f) (auto simp: line_push_at rbind_def split: sum.splits)

lemma rfold_event: "sl_mode l = In_event \<Longrightarrow> sl_eventValue l = Some u \<Longrightarrow>
   rfold (line_push cd) bs (l, f) = Inr (l\<lparr>sl_eventValue := Some (fold (utf8_push cd) bs u)\<rparr>, f)"
  by (induction bs arbitrary: l u) (simp_all add: line_push_at push_event_byte_def)

lemma data_rest:
  assumes "sl_mode l = Data_space"
  shows "rbind (rfold (line_push cd) v (l, f)) (line_finish cd) = rfold (pushDataByte cd) (strip_space v) f"
proof -
  have finish: "rbind (rfold (pushDataByte cd) bs g) (\<lambda>f. line_finish cd (l\<lparr>sl_mode := In_data\<rparr>, f))
      = rfold (pushDataByte cd) bs g" for bs g
    by (cases "rfold (pushDataByte cd) bs g") (simp_all add: line_finish_def)
  have "rbind (rfold (line_push cd) bs (l\<lparr>sl_mode := In_data\<rparr>, g)) (line_finish cd) = rfold (pushDataByte cd) bs g" for bs g
    by (simp add: rfold_data rbind_assoc finish)
  with assms show ?thesis
    by (cases v) (simp_all add: line_push_at strip_space_def rbind_assoc, simp add: line_finish_def)
qed

lemma event_rest:
  assumes "sl_mode l = Event_space" "sl_eventValue l = Some u"
  shows "rbind (rfold (line_push cd) v (l, f)) (line_finish cd)
    = Inr (f\<lparr>sf_eventName := Some (utf8_finish cd (fold (utf8_push cd) (strip_space v) u))\<rparr>)"
proof (cases v)
  case Nil
  with assms show ?thesis by (simp add: line_finish_def strip_space_def)
next
  case (Cons b bs)
  with assms rfold_event [of "l\<lparr>sl_mode := In_event, sl_eventValue := Some (utf8_push cd b u)\<rparr>" _ cd bs f]
    rfold_event [of "l\<lparr>sl_mode := In_event\<rparr>" u cd bs f]
  show ?thesis by (simp add: line_push_at line_finish_def push_event_byte_def strip_space_def)
qed

lemma known_field:
  "rbind (startKnownField cd (l, f)) (\<lambda>lf. rbind (rfold (line_push cd) v lf) (line_finish cd))
   = field_effect cd (sl_field l) (strip_space v) f"
  by (simp add: startKnownField_def field_effect_def rbind_assoc data_rest event_rest utf8_value rfold_ignore)
    (simp add: line_finish_def)

lemma line_name_append: "ASCII_COLON \<notin> set name \<Longrightarrow> line_name (name @ bs) = name @ line_name bs"
  by (induction name) (simp_all add: line_name_def)

lemma line_name_cases:
  "ASCII_COLON \<notin> set name \<Longrightarrow> line_name name = name \<and> line_value name = []"
  "ASCII_COLON \<notin> set name \<Longrightarrow> line_name (name @ ASCII_COLON # v) = name \<and> line_value (name @ ASCII_COLON # v) = strip_space v"
proof -
  assume no: "ASCII_COLON \<notin> set name"
  then have "line_name name = name" "line_name (name @ ASCII_COLON # v) = name"
    using line_name_append [of name "[]"] line_name_append [of name "ASCII_COLON # v"] by (simp_all add: line_name_def)
  then show "line_name name = name \<and> line_value name = []"
    "line_name (name @ ASCII_COLON # v) = name \<and> line_value (name @ ASCII_COLON # v) = strip_space v"
    by (simp_all add: line_value_def strip_space_def)
qed

lemma finish_field:
  "sl_mode l = Field \<Longrightarrow> line_finish cd (l, f) = rbind (startKnownField cd (l, f)) (line_finish cd)"
  unfolding startKnownField_def by (simp add: line_finish_def rbind_assoc) (simp add: startKnownField_def rbind_assoc)

lemma line_from_field:
  "ASCII_COLON \<notin> set fld \<Longrightarrow> length fld \<le> 5 \<Longrightarrow>
   rbind (rfold (line_push cd) bs (new_line\<lparr>sl_field := fld\<rparr>, f)) (line_finish cd)
   = field_effect cd (line_name (fld @ bs)) (line_value (fld @ bs)) f"
proof (induction bs arbitrary: fld)
  case Nil
  with known_field [of cd "new_line\<lparr>sl_field := fld\<rparr>" f "[]"] line_name_cases(1) [of fld] show ?case
    by (simp add: finish_field new_line_def strip_space_def)
next
  case (Cons b bs)
  consider "b = ASCII_COLON" "fld = []" | "b = ASCII_COLON" "fld \<noteq> []" | "b \<noteq> ASCII_COLON" "length fld = 5" | "b \<noteq> ASCII_COLON" "length fld < 5"
    using Cons.prems(2) by linarith
  then show ?case
  proof cases
    case 1
    then show ?thesis using line_name_cases(2) [of "[]" bs]
      by (simp add: line_push_at new_line_def rfold_ignore field_effect_def DATA_FIELD_def EVENT_FIELD_def) (simp add: line_finish_def)
  next
    case 2
    then show ?thesis using known_field [of cd "new_line\<lparr>sl_field := fld\<rparr>" f bs] line_name_cases(2) [OF Cons.prems(1), of bs]
      by (simp add: line_push_at new_line_def rbind_assoc)
  next
    case 3
    have "line_name (fld @ b # bs) = (fld @ [b]) @ line_name bs"
      using 3 Cons.prems(1) line_name_append [of "fld @ [b]" bs] by simp
    then have "length (line_name (fld @ b # bs)) > 5" using 3 by simp
    then have "line_name (fld @ b # bs) \<noteq> DATA_FIELD" "line_name (fld @ b # bs) \<noteq> EVENT_FIELD"
      by (auto simp: DATA_FIELD_def EVENT_FIELD_def)
    then show ?thesis using 3
      by (simp add: line_push_at new_line_def rfold_ignore field_effect_def) (auto simp: line_finish_def)
  next
    case 4
    then show ?thesis using Cons.IH [of "fld @ [b]"] Cons.prems by (simp add: line_push_at new_line_def)
  qed
qed

lemma full_line_effect: "full_line cd l f = field_effect cd (line_name l) (line_value l) f"
  using line_from_field [of "[]" cd l f] by (simp add: full_line_def new_line_def)

subsection \<open>The effect of a frame\<close>

lemma data_push_lineCount:
  "data_push cd b (d\<lparr>sd_lineCount := n\<rparr>) = rbind (data_push cd b d) (\<lambda>d. Inr (d\<lparr>sd_lineCount := n\<rparr>))"
  by (cases d) (auto simp: data_push_def startJson_def rbind_assoc Let_def split: data_mode.split option.split)

lemma data_pushes_lineCount:
  "rfold (data_push cd) bs (d\<lparr>sd_lineCount := n\<rparr>) = rbind (rfold (data_push cd) bs d) (\<lambda>d. Inr (d\<lparr>sd_lineCount := n\<rparr>))"
  by (induction bs arbitrary: d) (auto simp: data_push_lineCount rbind_assoc rbind_def split: sum.splits)

lemma data_finish_lineCount [simp]: "data_finish cd (d\<lparr>sd_lineCount := n\<rparr>) = data_finish cd d"
  by (cases d) (simp add: data_finish_def startJson_def rbind_assoc cong: option.case_cong)

text \<open>The frame after lines: the data pushed so far, and the name.\<close>

definition frame_after :: "('d, 't) codec \<Rightarrow> nat list option \<Rightarrow> string option \<Rightarrow> ('d, 't) sse_frame result \<Rightarrow> bool" where
  "frame_after cd data name r \<longleftrightarrow>
     (case data of
        None \<Rightarrow> r = Inr \<lparr>sf_data = None, sf_eventName = name\<rparr>
      | Some bs \<Rightarrow> \<exists>n > 0. r = rbind (rfold (data_push cd) bs new_data)
            (\<lambda>d. Inr \<lparr>sf_data = Some (d\<lparr>sd_lineCount := n\<rparr>), sf_eventName = name\<rparr>))"

lemma pushDataBytes:
  "sf_data f = Some d \<Longrightarrow>
   rfold (pushDataByte cd) bs f = rbind (rfold (data_push cd) bs d) (\<lambda>d. Inr (f\<lparr>sf_data := Some d\<rparr>))"
  by (induction bs arbitrary: f d) (auto simp: pushDataByte_def rbind_def split: sum.splits)

lemma frame_after_data:
  assumes "frame_after cd data name r"
  shows "frame_after cd (Some (case data of None \<Rightarrow> v | Some bs \<Rightarrow> bs @ ASCII_LF # v)) name
    (rbind r (\<lambda>f. rbind (frame_startDataLine cd f) (rfold (pushDataByte cd) v)))"
proof (cases data)
  case None
  with assms have r: "r = Inr \<lparr>sf_data = None, sf_eventName = name\<rparr>" by (simp add: frame_after_def)
  have first: "data_startLine cd new_data = Inr (new_data\<lparr>sd_lineCount := Suc 0\<rparr>)" by (simp add: data_startLine_def new_data_def)
  have "rbind (frame_startDataLine cd \<lparr>sf_data = None, sf_eventName = name\<rparr>) (rfold (pushDataByte cd) v)
      = rbind (rfold (data_push cd) v new_data) (\<lambda>d. Inr \<lparr>sf_data = Some (d\<lparr>sd_lineCount := Suc 0\<rparr>), sf_eventName = name\<rparr>)"
    by (simp add: frame_startDataLine_def first pushDataBytes data_pushes_lineCount rbind_assoc)
  with r None show ?thesis by (auto simp: frame_after_def)
next
  case (Some bs)
  with assms obtain n where n: "n > 0"
    and r: "r = rbind (rfold (data_push cd) bs new_data) (\<lambda>d. Inr \<lparr>sf_data = Some (d\<lparr>sd_lineCount := n\<rparr>), sf_eventName = name\<rparr>)"
    by (auto simp: frame_after_def)
  have start: "frame_startDataLine cd \<lparr>sf_data = Some (d\<lparr>sd_lineCount := n\<rparr>), sf_eventName = name\<rparr>
      = rbind (data_push cd ASCII_LF d) (\<lambda>d. Inr \<lparr>sf_data = Some (d\<lparr>sd_lineCount := Suc n\<rparr>), sf_eventName = name\<rparr>)" for d
    using n by (simp add: frame_startDataLine_def data_startLine_def data_push_lineCount rbind_assoc)
  have "rbind r (\<lambda>f. rbind (frame_startDataLine cd f) (rfold (pushDataByte cd) v))
      = rbind (rfold (data_push cd) (bs @ ASCII_LF # v) new_data) (\<lambda>d. Inr \<lparr>sf_data = Some (d\<lparr>sd_lineCount := Suc n\<rparr>), sf_eventName = name\<rparr>)"
    by (simp add: r rbind_assoc start pushDataBytes data_pushes_lineCount rfold_append)
  with Some show ?thesis by (auto simp: frame_after_def)
qed

lemma frame_after_name:
  "frame_after cd data name r \<Longrightarrow> frame_after cd data (Some s) (rbind r (\<lambda>f. Inr (f\<lparr>sf_eventName := Some s\<rparr>)))"
  by (auto simp: frame_after_def rbind_assoc split: option.splits)

lemma frame_data_snoc:
  "frame_data (ls @ [l]) =
     (if line_name l = DATA_FIELD
      then Some (case frame_data ls of None \<Rightarrow> line_value l | Some bs \<Rightarrow> bs @ ASCII_LF # line_value l)
      else frame_data ls)"
  by (auto simp: frame_data_def split: list.splits)

lemma event_value_snoc:
  "event_value (ls @ [l]) = (if line_name l = EVENT_FIELD then Some (line_value l) else event_value ls)"
  by (simp add: event_value_def)

lemma lines_frame:
  "frame_after cd (frame_data ls) (map_option (utf8_text cd) (event_value ls)) (rfold (full_line cd) ls new_frame)"
proof (induction ls rule: rev_induct)
  case Nil
  show ?case by (simp add: frame_after_def frame_data_def event_value_def new_frame_def)
next
  case (snoc l ls)
  have differ: "DATA_FIELD \<noteq> EVENT_FIELD" by (simp add: DATA_FIELD_def EVENT_FIELD_def)
  have run: "rfold (full_line cd) (ls @ [l]) new_frame
      = rbind (rfold (full_line cd) ls new_frame) (\<lambda>f. rbind (field_effect cd (line_name l) (line_value l) f) Inr)"
    unfolding rfold_append by (rule arg_cong [where f = "rbind _"]) (rule ext, simp add: full_line_effect rbind_def split: sum.split)
  have whole: "rbind m Inr = m" for m :: "'x + 'y" by (cases m) simp_all
  consider "line_name l = DATA_FIELD" | "line_name l = EVENT_FIELD" | "line_name l \<noteq> DATA_FIELD" "line_name l \<noteq> EVENT_FIELD"
    by blast
  then show ?case
  proof cases
    case 1
    with frame_after_data [OF snoc.IH, of "line_value l"] differ show ?thesis
      by (simp add: run whole field_effect_def frame_data_snoc event_value_snoc)
  next
    case 2
    with frame_after_name [OF snoc.IH, of "utf8_text cd (line_value l)"] differ show ?thesis
      by (simp add: run whole field_effect_def frame_data_snoc event_value_snoc)
  next
    case 3
    with snoc.IH show ?thesis by (simp add: run whole field_effect_def frame_data_snoc event_value_snoc)
  qed
qed

subsection \<open>The outcome of the data\<close>

definition wrap :: "'a result \<Rightarrow> 'a result" where
  "wrap m = (case m of Inl _ \<Rightarrow> Inl protocol_error | Inr x \<Rightarrow> Inr x)"

definition outcome :: "('d, 't) codec \<Rightarrow> nat list \<Rightarrow> ('d, 't) sse_json_data \<Rightarrow> (jsval \<times> int) option result" where
  "outcome cd bs d = rbind (rfold (data_push cd) bs d) (\<lambda>d. wrap (data_finish cd d))"

lemma outcome_Cons: "outcome cd (b # bs) d = rbind (data_push cd b d) (outcome cd bs)"
  by (simp add: outcome_def [abs_def] rbind_assoc)

lemma rfold_in_json: "sd_mode d = In_json \<Longrightarrow> sd_sink d = Some s \<Longrightarrow>
   rfold (data_push cd) bs d = rbind (rfold (sink_push cd) bs s) (\<lambda>s. Inr (d\<lparr>sd_sink := Some s\<rparr>))"
  by (induction bs arbitrary: d s) (auto simp: data_push_def rbind_def split: sum.splits)

lemma new_sink_pushes:
  "rfold (sink_push cd) bs (new_sink cd)
     = rbind (write_chunks cd (full_chunks SINK_SIZE bs) (new_json_parser (cd_decoder cd) (cd_tokenizer cd)))
         (\<lambda>p. Inr \<lparr>sk_parser = p, sk_bytes = last_chunk SINK_SIZE bs\<rparr>)"
  unfolding new_sink_def by (subst sink_pushes) (simp_all add: SINK_SIZE_def)

lemma sink_finish_session:
  "sink_finish cd \<lparr>sk_parser = p, sk_bytes = bs\<rparr>
     = fst (json_session (cd_decode cd) (cd_tokenize cd) (nonempty_chunk bs) p)"
  by (simp add: sink_finish_def sink_flush_def nonempty_chunk_def sbind_def split: prod.splits sum.splits)

lemma sink_outcome:
  "rbind (rfold (sink_push cd) bs (new_sink cd)) (\<lambda>s.
     wrap (rbind (sink_finish cd s) (\<lambda>parsed.
       case sj_value parsed of None \<Rightarrow> plain m | Some v \<Rightarrow> Inr (Some (v, sj_decodedByteLength parsed + int k)))))
   = rbind (parse_json cd k bs) (\<lambda>x. Inr (Some x))"
  by (auto simp: new_sink_pushes rbind_assoc parse_json_def sink_finish_session wrap_def rbind_def split: sum.splits option.splits)

lemma outcome_startJson:
  "rbind (startJson cd xs d) (outcome cd ys) = rbind (parse_json cd (sd_discarded d) (xs @ ys)) (\<lambda>x. Inr (Some x))"
proof -
  have "rbind (startJson cd xs d) (outcome cd ys)
      = rbind (rfold (sink_push cd) (xs @ ys) (new_sink cd)) (\<lambda>s. wrap (data_finish cd (d\<lparr>sd_mode := In_json, sd_sink := Some s\<rparr>)))"
    by (simp add: startJson_def outcome_def rbind_assoc rfold_in_json rfold_append)
  also have "\<dots> = rbind (parse_json cd (sd_discarded d) (xs @ ys)) (\<lambda>x. Inr (Some x))"
    by (simp add: data_finish_def sink_outcome cong: option.case_cong)
  finally show ?thesis .
qed

definition text_outcome :: "('d, 't) codec \<Rightarrow> nat \<Rightarrow> nat list \<Rightarrow> (jsval \<times> int) option result" where
  "text_outcome cd k bs =
     (if take 6 bs = DONE_BYTES
      then if dropWhile isJsonWhitespace (drop 6 bs) = [] then Inr None
           else rbind (parse_json cd (k + length (takeWhile isJsonWhitespace (drop 6 bs)))
                  (DONE_BYTES @ dropWhile isJsonWhitespace (drop 6 bs))) (\<lambda>x. Inr (Some x))
      else rbind (parse_json cd k bs) (\<lambda>x. Inr (Some x)))"

lemma length_DONE [simp]: "length DONE_BYTES = 6"
  by (simp add: DONE_BYTES_def)

lemma outcome_trailing: "sd_mode d = Trailing \<Longrightarrow> outcome cd bs d = text_outcome cd (sd_discarded d) (DONE_BYTES @ bs)"
proof (induction bs arbitrary: d)
  case Nil
  then show ?case by (simp add: outcome_def wrap_def data_finish_def text_outcome_def)
next
  case (Cons b bs)
  then show ?case
    using outcome_startJson [of cd "DONE_BYTES @ [b]" d bs]
    by (auto simp: outcome_Cons data_push_def text_outcome_def)
qed

lemma take_candidate: "n < 6 \<Longrightarrow> b \<noteq> DONE_BYTES ! n \<Longrightarrow> take 6 (take n DONE_BYTES @ b # bs) \<noteq> DONE_BYTES"
proof
  assume "n < 6" "b \<noteq> DONE_BYTES ! n" "take 6 (take n DONE_BYTES @ b # bs) = DONE_BYTES"
  then have "take 6 (take n DONE_BYTES @ b # bs) ! n = DONE_BYTES ! n" by simp
  with \<open>n < 6\<close> \<open>b \<noteq> DONE_BYTES ! n\<close> show False by (simp add: nth_append)
qed

lemma outcome_candidate:
  "sd_mode d = Candidate \<Longrightarrow> 0 < sd_candidateLength d \<Longrightarrow> sd_candidateLength d < 6 \<Longrightarrow>
   outcome cd bs d = text_outcome cd (sd_discarded d) (take (sd_candidateLength d) DONE_BYTES @ bs)"
proof (induction bs arbitrary: d)
  case Nil
  let ?xs = "take (sd_candidateLength d) DONE_BYTES"
  have "length ?xs < SINK_SIZE" using Nil by (simp add: SINK_SIZE_def)
  then have none: "full_chunks SINK_SIZE ?xs = []" using chunks_short by blast
  have "outcome cd [] d = wrap (data_finish cd d)" by (simp add: outcome_def)
  also have "\<dots> = rbind (startJson cd ?xs d) (outcome cd [])"
    using Nil by (simp add: data_finish_def outcome_def startJson_def new_sink_pushes none write_chunks_def)
  also have "\<dots> = rbind (parse_json cd (sd_discarded d) ?xs) (\<lambda>x. Inr (Some x))" by (simp add: outcome_startJson)
  also have "\<dots> = text_outcome cd (sd_discarded d) ?xs"
  proof -
    have "length ?xs \<noteq> length DONE_BYTES" using Nil by simp
    then have "?xs \<noteq> DONE_BYTES" by metis
    then show ?thesis by (simp add: text_outcome_def)
  qed
  finally show ?case by simp
next
  case (Cons b bs)
  let ?n = "sd_candidateLength d"
  show ?case
  proof (cases "b = DONE_BYTES ! ?n")
    case True
    have step: "take (Suc ?n) DONE_BYTES = take ?n DONE_BYTES @ [b]" using True Cons.prems(3) by (simp add: take_Suc_conv_app_nth)
    show ?thesis
    proof (cases "Suc ?n = 6")
      case last: True
      then have "DONE_BYTES = take ?n DONE_BYTES @ [b]" using step by (metis length_DONE take_all_iff order_refl)
      then show ?thesis
        using outcome_trailing [of "d\<lparr>sd_candidateLength := 6, sd_mode := Trailing\<rparr>" cd bs] True last Cons.prems
        by (simp add: outcome_Cons data_push_def) (metis append.assoc append_Cons append_Nil)
    next
      case False
      then show ?thesis using Cons.IH [of "d\<lparr>sd_candidateLength := Suc ?n\<rparr>"] True step Cons.prems
        by (simp add: outcome_Cons data_push_def)
    qed
  next
    case False
    then show ?thesis
      using outcome_startJson [of cd "take ?n DONE_BYTES @ [b]" d bs] take_candidate [OF Cons.prems(3) False] Cons.prems
      by (simp add: outcome_Cons data_push_def text_outcome_def)
  qed
qed

lemma outcome_leading:
  "sd_mode d = Leading \<Longrightarrow> sd_sink d = None \<Longrightarrow>
   outcome cd bs d =
     (if dropWhile isJsonWhitespace bs = [] then Inl protocol_error
      else text_outcome cd (sd_discarded d + length (takeWhile isJsonWhitespace bs)) (dropWhile isJsonWhitespace bs))"
proof (induction bs arbitrary: d)
  case Nil
  then show ?case by (simp add: outcome_def wrap_def data_finish_def)
next
  case (Cons b bs)
  consider "isJsonWhitespace b" | "\<not> isJsonWhitespace b" "b = DONE_BYTES ! 0" | "\<not> isJsonWhitespace b" "b \<noteq> DONE_BYTES ! 0" by blast
  then show ?case
  proof cases
    case 1
    then show ?thesis using Cons by (simp add: outcome_Cons data_push_def)
  next
    case 2
    have "take 1 DONE_BYTES = [DONE_BYTES ! 0]" by (simp add: DONE_BYTES_def)
    then show ?thesis
      using 2 outcome_candidate [of "d\<lparr>sd_mode := Candidate, sd_candidateLength := 1\<rparr>" cd bs] Cons.prems
      by (simp add: outcome_Cons data_push_def)
  next
    case 3
    then show ?thesis
      using outcome_startJson [of cd "[b]" d bs] take_candidate [of 0 b bs] Cons.prems
      by (simp add: outcome_Cons data_push_def text_outcome_def)
  qed
qed

lemma DONE_BYTES_nonempty [simp]: "DONE_BYTES \<noteq> []"
  by (simp add: DONE_BYTES_def)

lemma outcome_new:
  "outcome cd bs new_data = (if is_done bs then Inr None else rbind (json_result cd bs) (\<lambda>x. Inr (Some x)))"
proof -
  have "outcome cd bs new_data =
      (if dropWhile isJsonWhitespace bs = [] then Inl protocol_error
       else text_outcome cd (length (takeWhile isJsonWhitespace bs)) (dropWhile isJsonWhitespace bs))"
    using outcome_leading [of new_data cd bs] by (simp add: new_data_def)
  moreover define k rest where "k = length (takeWhile isJsonWhitespace bs)" and "rest = dropWhile isJsonWhitespace bs"
  ultimately have run: "outcome cd bs new_data = (if rest = [] then Inl protocol_error else text_outcome cd k rest)" by simp
  show ?thesis
  proof (cases "take 6 rest = DONE_BYTES")
    case True
    then have "data_json bs = (k + length (takeWhile isJsonWhitespace (drop 6 rest)), DONE_BYTES @ dropWhile isJsonWhitespace (drop 6 rest))"
      by (simp add: data_json_def k_def rest_def Let_def)
    moreover have "rest \<noteq> []" using True DONE_BYTES_nonempty by (metis take_Nil)
    ultimately show ?thesis using True by (simp add: run text_outcome_def is_done_def json_result_def)
  next
    case False
    then have "data_json bs = (k, rest)" by (simp add: data_json_def k_def rest_def Let_def)
    moreover have "rest \<noteq> DONE_BYTES" using False by (metis length_DONE take_all_iff order_refl)
    ultimately show ?thesis using False by (simp add: run text_outcome_def is_done_def json_result_def)
  qed
qed

lemma frame_finish_wrap:
  "frame_finish cd \<lparr>sf_data = Some d, sf_eventName = name\<rparr> =
     rbind (wrap (data_finish cd d)) (\<lambda>x. Inr (Some (case x of
        None \<Rightarrow> Sse_done
      | Some (v, n) \<Rightarrow> Sse_event (case name of None \<Rightarrow> None | Some s \<Rightarrow> if s = [] then None else Some s) v n)))"
  by (auto simp: frame_finish_def wrap_def split: sum.splits option.splits)

lemma frame_of_lines: "rbind (rfold (full_line cd) ls new_frame) (frame_finish cd) = frame_event cd ls"
proof (cases "frame_data ls")
  case None
  with lines_frame [of cd ls] show ?thesis by (simp add: frame_after_def frame_event_def frame_finish_def)
next
  case (Some bs)
  let ?name = "map_option (utf8_text cd) (event_value ls)"
  obtain n where n: "rfold (full_line cd) ls new_frame = rbind (rfold (data_push cd) bs new_data)
      (\<lambda>d. Inr \<lparr>sf_data = Some (d\<lparr>sd_lineCount := n\<rparr>), sf_eventName = ?name\<rparr>)"
    using lines_frame [of cd ls] Some by (auto simp: frame_after_def)
  have "rbind (rfold (full_line cd) ls new_frame) (frame_finish cd) = rbind (outcome cd bs new_data) (\<lambda>x. Inr (Some (case x of
        None \<Rightarrow> Sse_done
      | Some (v, n) \<Rightarrow> Sse_event (case ?name of None \<Rightarrow> None | Some s \<Rightarrow> if s = [] then None else Some s) v n)))"
    by (simp add: n rbind_assoc frame_finish_wrap outcome_def)
  then show ?thesis
    by (cases "json_result cd bs") (auto simp: frame_event_def Some outcome_new split: option.splits)
qed

subsection \<open>The scanner follows the lines\<close>

definition process :: "('d, 't) codec \<Rightarrow> nat list list \<Rightarrow> nat list \<Rightarrow> ('d, 't) line_frame result" where
  "process cd ls l = rbind (rfold (full_line cd) ls new_frame) (\<lambda>f. rfold (line_push cd) l (new_line, f))"

lemma process_push: "process cd ls (l @ [b]) = rbind (process cd ls l) (line_push cd b)"
  by (simp add: process_def rfold_append rbind_assoc rbind_def split: sum.splits)

lemma process_line: "rfold (full_line cd) (ls @ [l]) new_frame = rbind (process cd ls l) (line_finish cd)"
  by (simp add: process_def rfold_append rbind_assoc full_line_def rbind_def split: sum.splits)

definition scanner_at :: "('d, 't) codec \<Rightarrow> nat list list \<Rightarrow> nat list \<Rightarrow> bool \<Rightarrow> ('d, 't) sse_scanner \<Rightarrow> bool" where
  "scanner_at cd ls l cr s \<longleftrightarrow>
     process cd ls l = Inr (sc_line s, sc_frame s) \<and> sc_lineHasBytes s = (l \<noteq> []) \<and> sc_pendingCr s = cr
     \<and> sc_bomResolved s \<and> sc_bomPending s = []"

lemma scanner_at_start [simp]:
  "scanner_at cd [] [] cr s \<longleftrightarrow> sc_line s = new_line \<and> sc_frame s = new_frame \<and> \<not> sc_lineHasBytes s \<and> sc_pendingCr s = cr
     \<and> sc_bomResolved s \<and> sc_bomPending s = []"
  by (auto simp: scanner_at_def process_def)

lemma finishLine_empty:
  assumes "scanner_at cd ls [] cr s"
  shows "finishLine cd s = rbind (frame_event cd ls) (\<lambda>ev. Inr (Some ev, s\<lparr>sc_frame := new_frame\<rparr>))"
    and "sc_line s = new_line"
proof -
  have "rfold (full_line cd) ls new_frame = Inr (sc_frame s)" and line: "sc_line s = new_line"
    using assms by (auto simp: scanner_at_def process_def effects)
  then have "frame_finish cd (sc_frame s) = frame_event cd ls" using frame_of_lines [of cd ls] by simp
  then show "finishLine cd s = rbind (frame_event cd ls) (\<lambda>ev. Inr (Some ev, s\<lparr>sc_frame := new_frame\<rparr>))"
    using assms by (simp add: finishLine_def finishFrame_def scanner_at_def rbind_assoc)
  show "sc_line s = new_line" by (rule line)
qed

lemma endLine_at:
  assumes "scanner_at cd ls l cr s"
  shows "endLine cd s = rbind (rfold (full_line cd) (ls @ [l]) new_frame) (\<lambda>f.
    Inr (s\<lparr>sc_frame := f, sc_line := new_line, sc_lineHasBytes := False\<rparr>))"
  using assms by (simp add: endLine_def process_line scanner_at_def)

lemma scanner_at_line:
  "rfold (full_line cd) ls new_frame = Inr f \<Longrightarrow> scanner_at cd ls' l' cr s \<Longrightarrow>
   scanner_at cd ls [] cr (s\<lparr>sc_frame := f, sc_line := new_line, sc_lineHasBytes := False\<rparr>)"
  by (simp add: scanner_at_def process_def)

lemma push_line_byte_at:
  assumes "scanner_at cd ls l cr s"
  shows "case process cd ls (l @ [b]) of
      Inl e \<Rightarrow> push_line_byte cd b s = Inl e
    | Inr _ \<Rightarrow> \<exists>s'. push_line_byte cd b s = Inr s' \<and> scanner_at cd ls (l @ [b]) cr s'"
proof -
  have p: "process cd ls (l @ [b]) = line_push cd b (sc_line s, sc_frame s)"
    using assms by (simp add: process_push scanner_at_def)
  show ?thesis
    using assms p by (cases "line_push cd b (sc_line s, sc_frame s)") (auto simp: push_line_byte_def scanner_at_def)
qed

lemma first_byte: "\<exists>l. line_push cd b (new_line, f) = Inr (l, f)"
  by (simp add: line_push_at new_line_def)

subsection \<open>A frame that fails\<close>

lemma failed_lines: "rfold (full_line cd) ls new_frame = Inl e \<Longrightarrow> frame_events cd (split_frames ls rest) = ([], Some e)"
proof (induction rest arbitrary: ls)
  case Nil
  then show ?case by (simp add: frame_of_lines [symmetric])
next
  case (Cons l rest)
  then show ?case by (simp add: frame_of_lines [symmetric] rfold_append)
qed

lemma failed_line: "process cd ls l = Inl e \<Longrightarrow> l \<noteq> [] \<Longrightarrow> frame_events cd (split_frames ls (split_lines l bs)) = ([], Some e)"
proof (induction l bs rule: split_lines.induct)
  case (1 l)
  then show ?case using failed_lines [of cd "ls @ [l]" e "[]"] by (simp add: process_line)
next
  case (2 l b bs)
  have "rfold (full_line cd) (ls @ [l]) new_frame = Inl e" using 2 by (simp add: process_line)
  from failed_lines [OF this] have done_line: "frame_events cd (split_frames ls (l # rest)) = ([], Some e)" for rest using 2 by simp
  show ?case
  proof (cases "b = ASCII_CR \<or> b = ASCII_LF")
    case True
    then show ?thesis using done_line by (auto simp del: split_frames.simps)
  next
    case False
    then show ?thesis using 2 by (simp add: process_push)
  qed
qed

subsection \<open>Scanning a whole input\<close>

definition event_list :: "sse_event option option \<Rightarrow> sse_event list" where
  "event_list c = (case c of Some (Some ev) \<Rightarrow> [ev] | _ \<Rightarrow> [])"

lemma event_list_simps [simp]:
  "event_list None = []" "event_list (Some None) = []" "event_list (Some (Some ev)) = [ev]"
  by (simp_all add: event_list_def)

definition put_before :: "'a list \<Rightarrow> 'a list \<times> 'b \<Rightarrow> 'a list \<times> 'b" where
  "put_before us p = (us @ fst p, snd p)"

lemma put_before_simps [simp]:
  "put_before [] p = p" "put_before us (put_before vs p) = put_before (us @ vs) p" "put_before us (vs, e) = (us @ vs, e)"
  by (simp_all add: put_before_def)

fun scan :: "('d, 't) codec \<Rightarrow> nat list \<Rightarrow> ('d, 't) sse_scanner \<Rightarrow> sse_event list \<times> js_error option" where
  "scan cd [] s = (case scanner_finish cd s of Inl e \<Rightarrow> ([], Some e) | Inr ev \<Rightarrow> (event_list (Some ev), None))"
| "scan cd (b # bs) s =
     (case scanner_push cd b s of
        Inl e \<Rightarrow> ([], Some e)
      | Inr (c, s) \<Rightarrow> put_before (event_list c) (scan cd bs s))"

lemma frame_events_Cons:
  "frame_events cd (f # fs) =
     (case frame_event cd f of
        Inl e \<Rightarrow> ([], Some e)
      | Inr ev \<Rightarrow> put_before (event_list (Some ev)) (frame_events cd fs))"
  by (auto split: sum.splits option.splits prod.splits)

declare frame_events.simps(2) [simp del]

lemma frame_event_none [simp]: "frame_event cd [] = Inr None"
  by (simp add: frame_event_def frame_data_def)

lemma finish_at:
  assumes "scanner_at cd ls l cr s"
  shows "scan cd [] s = frame_events cd (split_frames ls (split_lines l (if cr then [ASCII_CR] else [])))"
proof -
  let ?s = "s\<lparr>sc_pendingCr := False\<rparr>"
  have at: "scanner_at cd ls l False ?s" using assms by (simp add: scanner_at_def)
  have resolved: "resolve_bom cd s = Inr s" and cr: "sc_pendingCr s = cr" and l: "sc_lineHasBytes s = (l \<noteq> [])"
    using assms by (simp_all add: scanner_at_def resolve_bom_def)
  show ?thesis
  proof (cases "l = []")
    case True
    with assms have finish: "frame_finish cd (sc_frame s) = frame_event cd ls"
      using frame_of_lines [of cd ls] by (auto simp: scanner_at_def process_def effects)
    have "frame_finish cd new_frame = Inr None" by (simp add: frame_finish_def new_frame_def)
    with True finish show ?thesis
      by (cases "frame_event cd ls")
        (auto simp: scanner_finish_def resolved cr l finishLine_def finishFrame_def frame_events_Cons split: option.splits)
  next
    case False
    have finish: "rbind (rbind (endLine cd t) (finishFrame cd)) (\<lambda>(ev, _). Inr ev) = frame_event cd (ls @ [l])"
      if "scanner_at cd ls l c t" for c t
      by (simp add: endLine_at [OF that] finishFrame_def rbind_assoc frame_of_lines [symmetric])
        (simp add: rbind_def split: sum.splits)
    have ev: "scanner_finish cd s = frame_event cd (ls @ [l])"
    proof (cases cr)
      case True
      have "sc_lineHasBytes t = False" if "endLine cd ?s = Inr t" for t
        using that by (auto simp: endLine_def effects)
      with True False finish [OF at] show ?thesis
        by (cases "endLine cd ?s") (auto simp: scanner_finish_def resolved cr l finishLine_def rbind_assoc)
    next
      case cr': False
      with False finish [OF assms] show ?thesis by (simp add: scanner_finish_def resolved cr l rbind_assoc)
    qed
    with False show ?thesis by (simp add: frame_events_Cons split: sum.splits)
  qed
qed

text \<open>The end of a line, and a byte of a line, whatever follows.\<close>

lemma line_end_scan:
  assumes at: "scanner_at cd ls l False s"
    and k: "\<And>ls' s'. scanner_at cd ls' [] False s' \<Longrightarrow> k s' = frame_events cd (split_frames ls' rest)"
  shows "(case finishLine cd s of Inl e \<Rightarrow> ([], Some e) | Inr (c, s') \<Rightarrow> put_before (event_list c) (k s'))
    = frame_events cd (split_frames ls (l # rest))"
proof (cases "l = []")
  case True
  with at have at': "scanner_at cd ls [] False s" by simp
  have "scanner_at cd [] [] False (s\<lparr>sc_frame := new_frame\<rparr>)"
    using at' finishLine_empty(2) [OF at'] by (simp add: scanner_at_def process_def)
  from k [OF this] True show ?thesis
    by (simp add: finishLine_empty(1) [OF at'] frame_events_Cons split: sum.splits)
next
  case False
  then have run: "finishLine cd s = rbind (endLine cd s) (\<lambda>s. Inr (None, s))" using at by (simp add: finishLine_def scanner_at_def)
  show ?thesis
  proof (cases "rfold (full_line cd) (ls @ [l]) new_frame")
    case (Inl e)
    with False show ?thesis by (simp add: run endLine_at [OF at] failed_lines)
  next
    case (Inr f)
    with False k [OF scanner_at_line [OF Inr at]] show ?thesis by (simp add: run endLine_at [OF at])
  qed
qed

lemma line_byte_scan:
  assumes at: "scanner_at cd ls l False s" and b: "b \<noteq> ASCII_CR" "b \<noteq> ASCII_LF"
    and k: "\<And>s'. scanner_at cd ls (l @ [b]) False s' \<Longrightarrow> k s' = frame_events cd (split_frames ls (split_lines (l @ [b]) bs))"
  shows "(case push_line_byte cd b s of Inl e \<Rightarrow> ([], Some e) | Inr s' \<Rightarrow> k s')
    = frame_events cd (split_frames ls (split_lines l (b # bs)))"
proof (cases "process cd ls (l @ [b])")
  case (Inl e)
  with push_line_byte_at [OF at, of b] failed_line [OF Inl, of bs] b show ?thesis by simp
next
  case (Inr lf)
  with push_line_byte_at [OF at, of b] k b show ?thesis by auto
qed

lemma scan_at:
  "scanner_at cd ls l cr s \<Longrightarrow>
   scan cd bs s = frame_events cd (split_frames ls (split_lines l (if cr then ASCII_CR # bs else bs)))"
proof (induction bs arbitrary: ls l cr s)
  case Nil
  then show ?case using finish_at [OF Nil] by simp
next
  case (Cons b bs)
  let ?s = "s\<lparr>sc_pendingCr := False\<rparr>"
  have at: "scanner_at cd ls l False ?s" using Cons.prems by (simp add: scanner_at_def)
  have push: "scanner_push cd b s = pushResolvedByte cd b s" and cr: "sc_pendingCr s = cr"
    using Cons.prems by (simp_all add: scanner_at_def scanner_push_def)
  have again: "scanner_at cd ls' [] True (s'\<lparr>sc_pendingCr := True\<rparr>)" if "scanner_at cd ls' [] False s'" for ls' s'
    using that by (simp add: scanner_at_def)
  consider (lf) "b = ASCII_LF" | (crlf) "b = ASCII_CR" | (other) "b \<noteq> ASCII_CR" "b \<noteq> ASCII_LF" by blast
  then show ?case
  proof cases
    case lf
    have "scan cd (b # bs) s = (case finishLine cd ?s of Inl e \<Rightarrow> ([], Some e) | Inr (c, s') \<Rightarrow> put_before (event_list c) (scan cd bs s'))"
    proof (cases cr)
      case False
      then have same: "?s = s" using cr by simp
      show ?thesis unfolding same using lf False cr push by (simp add: pushResolvedByte_def)
    qed (use lf cr push in \<open>simp add: pushResolvedByte_def\<close>)
    also have "\<dots> = frame_events cd (split_frames ls (l # split_lines [] bs))"
      by (rule line_end_scan [OF at]) (use Cons.IH [where cr = False] in simp)
    finally show ?thesis using lf by simp
  next
    case crlf
    show ?thesis
    proof (cases cr)
      case True
      have "scan cd (b # bs) s = (case finishLine cd ?s of Inl e \<Rightarrow> ([], Some e)
          | Inr (c, s') \<Rightarrow> put_before (event_list c) (scan cd bs (s'\<lparr>sc_pendingCr := True\<rparr>)))"
        using crlf True cr push by (auto simp: pushResolvedByte_def split: sum.splits)
      also have "\<dots> = frame_events cd (split_frames ls (l # split_lines [] (ASCII_CR # bs)))"
        by (rule line_end_scan [OF at]) (use Cons.IH [OF again] in simp)
      finally show ?thesis using crlf True by simp
    next
      case False
      have "scanner_at cd ls l True (s\<lparr>sc_pendingCr := True\<rparr>)" using Cons.prems by (simp add: scanner_at_def)
      from Cons.IH [OF this] crlf False cr push show ?thesis by (simp add: pushResolvedByte_def)
    qed
  next
    case other
    have byte: "(case push_line_byte cd b t of Inl e \<Rightarrow> ([], Some e) | Inr s' \<Rightarrow> scan cd bs s')
        = frame_events cd (split_frames ls' (split_lines l' (b # bs)))" if "scanner_at cd ls' l' False t" for ls' l' t
      by (rule line_byte_scan [OF that other]) (use Cons.IH [where cr = False] in simp)
    show ?thesis
    proof (cases cr)
      case False
      then have "scan cd (b # bs) s = (case push_line_byte cd b s of Inl e \<Rightarrow> ([], Some e) | Inr s' \<Rightarrow> scan cd bs s')"
        using other cr by (auto simp: push pushResolvedByte_def split: sum.splits)
      with byte [of ls l s] Cons.prems False show ?thesis by simp
    next
      case True
      have first: "\<exists>t'. push_line_byte cd b t = Inr t'" if "finishLine cd ?s = Inr (c, t)" for c t
      proof -
        have "sc_line t = new_line"
          using that finishLine_empty(2) [of cd ls False ?s] at
          by (cases "l = []") (auto simp: finishLine_def finishFrame_def endLine_def scanner_at_def effects)
        then show ?thesis using first_byte [of cd b "sc_frame t"] by (auto simp: push_line_byte_def)
      qed
      have "scan cd (b # bs) s = (case finishLine cd ?s of Inl e \<Rightarrow> ([], Some e) | Inr (c, s') \<Rightarrow> put_before (event_list c)
          (case push_line_byte cd b s' of Inl e \<Rightarrow> ([], Some e) | Inr s'' \<Rightarrow> scan cd bs s''))"
        using other True cr first by (fastforce simp: push pushResolvedByte_def rbind_def split: sum.splits prod.splits)
      also have "\<dots> = frame_events cd (split_frames ls (l # split_lines [] (b # bs)))"
        by (rule line_end_scan [OF at]) (use byte in simp)
      finally show ?thesis using other True by simp
    qed
  qed
qed

subsection \<open>The byte order mark\<close>

definition held_back :: "nat \<Rightarrow> ('d, 't) sse_scanner" where
  "held_back k = new_scanner\<lparr>sc_bomPending := take k UTF8_BOM\<rparr>"

definition released :: "nat \<Rightarrow> ('d, 't) sse_scanner" where
  "released k = new_scanner\<lparr>sc_bomResolved := True, sc_lineHasBytes := k > 0, sc_line := new_line\<lparr>sl_field := take k UTF8_BOM\<rparr>\<rparr>"

lemma released_pending:
  assumes "k < 3"
  shows "push_pending cd (take k UTF8_BOM) None (held_back k\<lparr>sc_bomResolved := True\<rparr>) = Inr (None, released k\<lparr>sc_bomPending := take k UTF8_BOM\<rparr>)"
    and "resolve_bom cd (held_back k) = Inr (released k)"
    and "scanner_at cd [] (take k UTF8_BOM) False (released k)"
proof -
  consider "k = 0" | "k = 1" | "k = 2" using assms by linarith
  note cases = this
  note evaluate = held_back_def released_def new_scanner_def UTF8_BOM_def pushResolvedByte_def push_line_byte_def line_push_at
    new_line_def resolve_bom_def scanner_at_def process_def new_frame_def numeral_2_eq_2
  from cases show "push_pending cd (take k UTF8_BOM) None (held_back k\<lparr>sc_bomResolved := True\<rparr>)
      = Inr (None, released k\<lparr>sc_bomPending := take k UTF8_BOM\<rparr>)"
    by cases (simp_all add: evaluate)
  from cases show "resolve_bom cd (held_back k) = Inr (released k)" by cases (simp_all add: evaluate)
  from cases show "scanner_at cd [] (take k UTF8_BOM) False (released k)" by cases (simp_all add: evaluate)
qed

lemma split_lines_prefix: "ASCII_CR \<notin> set p \<Longrightarrow> ASCII_LF \<notin> set p \<Longrightarrow> split_lines l (p @ bs) = split_lines (l @ p) bs"
  by (induction p arbitrary: l) auto

lemma length_BOM [simp]: "length UTF8_BOM = 3"
  by (simp add: UTF8_BOM_def)

lemma no_bom: "k < 3 \<Longrightarrow> take 1 bs \<noteq> [UTF8_BOM ! k] \<Longrightarrow> strip_bom (take k UTF8_BOM @ bs) = take k UTF8_BOM @ bs"
proof -
  assume k: "k < 3" and b: "take 1 bs \<noteq> [UTF8_BOM ! k]"
  have "take 3 (take k UTF8_BOM @ bs) \<noteq> UTF8_BOM"
  proof
    assume eq: "take 3 (take k UTF8_BOM @ bs) = UTF8_BOM"
    then have "length (take k UTF8_BOM @ bs) \<ge> 3" by (metis length_BOM length_take min_def nat_le_linear)
    with k have "bs \<noteq> []" by auto
    then obtain c cs where "bs = c # cs" by (cases bs) auto
    moreover have "take 3 (take k UTF8_BOM @ bs) ! k = UTF8_BOM ! k" using eq by simp
    ultimately show False using b k by (simp add: nth_append)
  qed
  then show ?thesis by (simp add: strip_bom_def)
qed

lemma scan_released:
  assumes k: "k < 3" and b: "take 1 bs \<noteq> [UTF8_BOM ! k]"
  shows "scan cd bs (released k) = sse_events cd (take k UTF8_BOM @ bs)"
proof -
  have "ASCII_CR \<notin> set (take k UTF8_BOM)" "ASCII_LF \<notin> set (take k UTF8_BOM)"
    by (auto simp: UTF8_BOM_def dest!: in_set_takeD)
  then show ?thesis
    using scan_at [OF released_pending(3) [OF k, of cd], of bs] no_bom [OF k b] split_lines_prefix [of "take k UTF8_BOM" "[]" bs]
    by (simp add: sse_events_def)
qed

lemma scan_held_back: "k < 3 \<Longrightarrow> scan cd bs (held_back k) = sse_events cd (take k UTF8_BOM @ bs)"
proof (induction bs arbitrary: k)
  case Nil
  have "resolve_bom cd (released k) = Inr (released k)" by (simp add: resolve_bom_def released_def)
  with released_pending(2) [OF Nil, of cd] have "scan cd [] (held_back k) = scan cd [] (released k)"
    by (simp add: scanner_finish_def)
  with scan_released [OF Nil, of "[]"] show ?case by simp
next
  case (Cons b bs)
  let ?s = "held_back k :: ('a, 'b) sse_scanner"
  have pending: "sc_bomPending ?s = take k UTF8_BOM" "\<not> sc_bomResolved ?s" by (simp_all add: held_back_def new_scanner_def)
  then have push: "scanner_push cd b ?s = pushInitialByte cd b ?s" by (simp add: scanner_push_def)
  have len: "length (take k UTF8_BOM) = k" using Cons.prems by simp
  show ?case
  proof (cases "b = UTF8_BOM ! k")
    case True
    have step: "take k UTF8_BOM @ [b] = take (Suc k) UTF8_BOM" using True Cons.prems by (simp add: take_Suc_conv_app_nth)
    show ?thesis
    proof (cases "Suc k = 3")
      case last: True
      then have "scanner_push cd b ?s = Inr (None, ?s\<lparr>sc_bomResolved := True, sc_bomPending := []\<rparr>)"
        unfolding push pushInitialByte_def using True len pending last by (simp add: Let_def)
      moreover have "scanner_at cd [] [] False (?s\<lparr>sc_bomResolved := True, sc_bomPending := []\<rparr>)"
        by (simp add: held_back_def new_scanner_def)
      ultimately have "scan cd (b # bs) ?s = frame_events cd (split_frames [] (split_lines [] bs))"
        using scan_at [of cd "[]" "[]" False "?s\<lparr>sc_bomResolved := True, sc_bomPending := []\<rparr>" bs] by simp
      moreover have "strip_bom (take k UTF8_BOM @ b # bs) = bs"
      proof -
        have whole: "take k UTF8_BOM @ b # bs = UTF8_BOM @ bs" using step last by simp
        show ?thesis unfolding whole by (simp add: strip_bom_def)
      qed
      ultimately show ?thesis by (simp add: sse_events_def)
    next
      case False
      then have "scanner_push cd b ?s = Inr (None, held_back (Suc k))"
        unfolding push pushInitialByte_def using True len pending step False Cons.prems by (simp add: Let_def held_back_def)
      moreover have whole: "take k UTF8_BOM @ b # bs = take (Suc k) UTF8_BOM @ bs" using step by simp
      ultimately show ?thesis unfolding whole using Cons.IH [of "Suc k"] False Cons.prems by simp
    qed
  next
    case False
    have "released k\<lparr>sc_bomPending := []\<rparr> = (released k :: ('a, 'b) sse_scanner)" by (simp add: released_def new_scanner_def)
    then have "scanner_push cd b ?s = pushResolvedByte cd b (released k)"
      unfolding push pushInitialByte_def using False len pending released_pending(1) [OF Cons.prems, of cd] by (simp add: Let_def)
    then have "scan cd (b # bs) ?s = scan cd (b # bs) (released k)" by (simp add: scanner_push_def released_def)
    with scan_released [OF Cons.prems, of "b # bs"] False show ?thesis by simp
  qed
qed

lemma scan_input: "scan cd bs new_scanner = sse_events cd bs"
  using scan_held_back [of 0 cd bs] by (simp add: held_back_def new_scanner_def)

subsection \<open>The generator yields the events\<close>

fun yielded :: "sse_output list \<Rightarrow> sse_event list" where
  "yielded [] = []"
| "yielded (Yielded ev # out) = ev # yielded out"
| "yielded (Turned # out) = yielded out"

lemma yielded_append [simp]: "yielded (us @ vs) = yielded us @ yielded vs"
  by (induction us rule: yielded.induct) simp_all

abbreviation data_events :: "sse_output list \<Rightarrow> nat" where
  "data_events out \<equiv> length [ev \<leftarrow> yielded out. ev \<noteq> Sse_done]"

abbreviation never_aborted :: "nat \<Rightarrow> bool" where
  "never_aborted \<equiv> \<lambda>_. False"

lemma read_byte_scan:
  "case read_byte cd m never_aborted b r of
     (out, Inl (f, n)) \<Rightarrow> \<exists>e. f = Stream_error e \<and> scan cd (b # bs) (sr_scanner r) = (yielded out, Some e) \<and> n = sr_eventsReceived r + data_events out
   | (out, Inr r') \<Rightarrow> scan cd (b # bs) (sr_scanner r) = put_before (yielded out) (scan cd bs (sr_scanner r'))
        \<and> sr_eventsReceived r' = sr_eventsReceived r + data_events out"
  by (auto simp: read_byte_def yieldForWorkQuantum_def yield_event_def Let_def split: sum.splits prod.splits option.splits)

lemma read_bytes_scan:
  "case read_bytes cd m never_aborted bs r of
     (out, Inl (f, n)) \<Rightarrow> \<exists>e. f = Stream_error e \<and> scan cd (bs @ more_bytes) (sr_scanner r) = (yielded out, Some e) \<and> n = sr_eventsReceived r + data_events out
   | (out, Inr r') \<Rightarrow> scan cd (bs @ more_bytes) (sr_scanner r) = put_before (yielded out) (scan cd more_bytes (sr_scanner r'))
        \<and> sr_eventsReceived r' = sr_eventsReceived r + data_events out"
proof (induction bs arbitrary: r)
  case (Cons b bs)
  obtain out res where byte: "read_byte cd m never_aborted b r = (out, res)" by fastforce
  show ?case
  proof (cases res)
    case (Inl x)
    with read_byte_scan [where cd = cd and m = m and b = b and r = r and bs = "bs @ more_bytes"] byte show ?thesis by (auto split: prod.splits)
  next
    case (Inr r1)
    with read_byte_scan [where cd = cd and m = m and b = b and r = r and bs = "bs @ more_bytes"] byte Cons.IH [of r1] show ?thesis
      by (auto split: prod.splits sum.splits)
  qed
qed simp

lemma read_stream_scan:
  "case read_stream cd m never_aborted (map Read_chunk chunks) r of (out, failure) \<Rightarrow>
     scan cd (concat chunks) (sr_scanner r) = (yielded out, map_option (\<lambda>f. case fst f of Stream_error e \<Rightarrow> e) failure)
     \<and> (case failure of None \<Rightarrow> True | Some (f, n) \<Rightarrow> f \<noteq> Aborted \<and> n = sr_eventsReceived r + data_events out)"
proof (induction chunks arbitrary: r)
  case Nil
  show ?case by (auto simp: read_end_def split: sum.splits option.splits)
next
  case (Cons c chunks)
  let ?r = "r\<lparr>sr_waits := sr_waits r + 1\<rparr>"
  obtain out res where bytes: "read_bytes cd m never_aborted c ?r = (out, res)" by fastforce
  show ?case
  proof (cases res)
    case (Inl x)
    with read_bytes_scan [where cd = cd and m = m and bs = c and r = ?r and more_bytes = "concat chunks"] bytes show ?thesis by (cases x) auto
  next
    case (Inr r1)
    with read_bytes_scan [where cd = cd and m = m and bs = c and r = ?r and more_bytes = "concat chunks"] bytes Cons.IH [of r1] show ?thesis
      by (auto split: prod.splits option.splits)
  qed
qed

text \<open>C33: whatever chunks the bytes of a stream come in, and whatever its work limit is, a generator
  that is not aborted yields exactly the events that the input defines, in their order: the frames
  between empty lines, each with the JSON of its joined \<open>data\<close> lines and the value of its last \<open>event\<close>
  line, up to the first frame whose data is not JSON; and what it throws there is the protocol error, or
  the error of the JSON parser if more than 64 KiB of the frame were read before it. It throws with the
  number of data events yielded.\<close>

theorem sse_stream_exact:
  "case parseCliProxySse cd limits never_aborted (map Read_chunk chunks) of
     Inl e \<Rightarrow> validatedLimits limits = Inl e
   | Inr (out, failure) \<Rightarrow>
       (case sse_events cd (concat chunks) of (evs, err) \<Rightarrow>
          yielded out = evs
          \<and> failure = map_option (\<lambda>e. (Stream_error e, length [ev \<leftarrow> evs. ev \<noteq> Sse_done])) err)"
proof (cases "validatedLimits limits")
  case (Inl e)
  then show ?thesis by (simp add: parseCliProxySse_def)
next
  case (Inr m)
  have start: "sr_scanner new_reader = new_scanner" "sr_eventsReceived new_reader = 0" by (simp_all add: new_reader_def)
  show ?thesis
    using read_stream_scan [where cd = cd and m = m and chunks = chunks and r = new_reader]
    by (auto simp: parseCliProxySse_def Inr scan_input start split: prod.splits option.splits sse_failure.splits)
qed

end
