(* ===== verification/Cliproxy_Transport.thy ===== *)
theory Cliproxy_Transport
  imports Cliproxy_Errors Sse_Scanner
begin

section \<open>The transport of Provider requests\<close>

text \<open>
  \<open>packages/providers/src/cliproxy/transport.ts\<close>, with the requests and \<open>readJson\<close> of \<open>client.ts\<close>,
  \<open>provider-id.ts\<close> and \<open>assertProviderPrefix\<close> of \<open>catalog.ts\<close>: what is sent to the CLI proxy, and what its
  response says of the attempt. \<open>fetch\<close> is a parameter: from a request to a response, or to what was thrown
  instead.
\<close>

subsection \<open>Requests\<close>

datatype request_kind = Chat_completions | Responses | Messages | Embeddings | Models

record adapter_request =
  rq_kind :: request_kind
  rq_providerId :: string
  rq_cpaInstanceId :: string
  rq_bindingRevision :: jsval
  rq_authMethod :: string
  rq_credentialOwnership :: string
  rq_credentialRefCount :: jsval
  rq_sourceModel :: "string option"
  rq_tarModel :: string
  rq_stream :: bool
  rq_options :: "(string \<times> jsval) list"
  rq_providerAttemptId :: string

text \<open>What the adapter throws: its own errors, or errors of the relay, which leave it as they are.\<close>

datatype adapter_error = Own_error thrown | Relay_thrown string int

definition is_id_inner :: "char \<Rightarrow> bool" where
  "is_id_inner c \<longleftrightarrow> is_alnum_char c \<or> c \<in> {CHR ''.'', CHR ''_'', CHR ''-''}"

text \<open>\<open>/^[A-Za-z0-9](?:[A-Za-z0-9._-]{0,126}[A-Za-z0-9])?$/u\<close>\<close>

definition isCliProxyProviderId :: "string \<Rightarrow> bool" where
  "isCliProxyProviderId s \<longleftrightarrow>
     length s \<le> 128
     \<and> (case s of
          [] \<Rightarrow> False
        | [c] \<Rightarrow> is_alnum_char c
        | c # cs \<Rightarrow> is_alnum_char c \<and> is_alnum_char (last cs) \<and> list_all is_id_inner (butlast cs) \<and> length (butlast cs) \<le> 126)
     \<and> s \<noteq> ''.'' \<and> s \<noteq> ''..''"

definition assertProviderPrefix :: "string \<Rightarrow> adapter_error + unit" where
  "assertProviderPrefix s =
     require (isCliProxyProviderId s)
       (Own_error (Cliproxy_thrown (cliProxyProtocolError ''CLIProxyAPI Provider ID cannot be used as a model prefix'')))"

definition assertCliProxyProvider :: "adapter_request \<Rightarrow> adapter_error + unit" where
  "assertCliProxyProvider r =
     rbind (assertProviderPrefix (rq_providerId r)) (\<lambda>_.
       if rq_cpaInstanceId r = []
          \<or> (case safe_int_of (rq_bindingRevision r) of None \<Rightarrow> True | Some n \<Rightarrow> n < 1)
          \<or> rq_credentialRefCount r \<noteq> jint 1
          \<or> rq_credentialOwnership r \<noteq> ''cpa-managed''
          \<or> rq_authMethod r \<noteq> ''oauth'' \<and> rq_authMethod r \<noteq> ''api-key'' \<and> rq_authMethod r \<noteq> ''credential-import''
       then Inl (Relay_thrown ''cliproxy_binding_not_ready'' 503) else Inr ())"

definition assertCliProxyRequest :: "adapter_request \<Rightarrow> adapter_error + unit" where
  "assertCliProxyRequest r =
     rbind (assertCliProxyProvider r) (\<lambda>_.
       if rq_kind r \<noteq> Responses \<and> rq_kind r \<noteq> Chat_completions \<and> rq_kind r \<noteq> Messages
       then Inl (Own_error (Cliproxy_thrown (new_error ''cliproxy_endpoint_not_supported'' ''CLIProxyAPI does not support this endpoint'' 400
              (no_options\<lparr>eo_stage := Configuration_stage\<rparr>))))
       else Inr ())"

subsection \<open>The payload\<close>

definition CLIPROXY_SERVER_OWNED_FIELDS :: "string list" where
  "CLIPROXY_SERVER_OWNED_FIELDS = [''model'', ''stream'', ''store'']"

definition CLIPROXY_FORBIDDEN_CONTROL_FIELDS :: "string list" where
  "CLIPROXY_FORBIDDEN_CONTROL_FIELDS =
     [''headers'', ''baseurl'', ''providerurl'', ''apikey'', ''managementapikey'', ''authorization'', ''credential'',
      ''credentials'', ''credentialref'', ''proxy'', ''proxyurl'', ''signal'', ''timeout'', ''timeoutms'', ''transport'',
      ''websocketconnecttimeoutms'', ''maxretries'', ''maxretrydelayms'', ''fetch'', ''dispatcher'', ''agent'', ''onpayload'',
      ''onresponse'', ''ontransport'', ''ontransporterror'', ''onevent'', ''onchunk'', ''onerror'', ''fridaymaxcontexttokens'']"

definition normalizeControlFieldName :: "string \<Rightarrow> string" where
  "normalizeControlFieldName s = to_lower (filter (\<lambda>c. c \<noteq> CHR ''_'' \<and> c \<noteq> CHR ''-'') s)"

text \<open>
  \<open>sanitized[key] = value\<close>: an own property, but for the key \<open>__proto__\<close>, which sets the prototype
  instead and so leaves no property that is sent.
\<close>

definition assign_property :: "string \<Rightarrow> jsval \<Rightarrow> (string \<times> jsval) list \<Rightarrow> (string \<times> jsval) list" where
  "assign_property k v kvs = (if k = ''__proto__'' then kvs else obj_put k v kvs)"

definition sanitize_entry :: "string \<times> jsval \<Rightarrow> (string \<times> jsval) list \<Rightarrow> adapter_error + (string \<times> jsval) list" where
  "sanitize_entry kv sanitized =
     (case kv of (k, v) \<Rightarrow>
        if normalizeControlFieldName k \<in> set CLIPROXY_FORBIDDEN_CONTROL_FIELDS
        then Inl (Relay_thrown ''provider_control_field_forbidden'' 400)
        else if k \<in> set CLIPROXY_SERVER_OWNED_FIELDS \<or> v = JUndefined then Inr sanitized
        else Inr (assign_property k v sanitized))"

definition sanitizeCliProxyPayload :: "(string \<times> jsval) list \<Rightarrow> adapter_error + (string \<times> jsval) list" where
  "sanitizeCliProxyPayload payload = rfold sanitize_entry payload []"

definition cliProxyPrefixedModel :: "string \<Rightarrow> string \<Rightarrow> adapter_error + string" where
  "cliProxyPrefixedModel providerId tarModel =
     rbind (assertProviderPrefix providerId) (\<lambda>_.
       if tarModel = [] \<or> prefix ''/'' tarModel \<or> js_trim tarModel \<noteq> tarModel
       then Inl (Relay_thrown ''cliproxy_target_model_invalid'' 500)
       else Inr (providerId @ ''/'' @ tarModel))"

definition cliProxyPayload :: "adapter_request \<Rightarrow> adapter_error + (string \<times> jsval) list" where
  "cliProxyPayload r =
     rbind (assertCliProxyRequest r) (\<lambda>_.
     rbind (sanitizeCliProxyPayload (rq_options r)) (\<lambda>options.
     rbind (cliProxyPrefixedModel (rq_providerId r) (rq_tarModel r)) (\<lambda>model.
       let payload = obj_put ''stream'' (JBool (rq_stream r)) (obj_put ''model'' (JStr model) options)
       in Inr (if rq_kind r = Responses \<or> rq_kind r = Chat_completions then obj_put ''store'' (JBool False) payload else payload))))"

subsection \<open>What the client sees\<close>

definition rewrite_model :: "string \<Rightarrow> jsval \<Rightarrow> (string \<times> jsval) list \<Rightarrow> (string \<times> jsval) list" where
  "rewrite_model pre public kvs =
     (case js_get kvs ''model'' of JStr m \<Rightarrow> if prefix pre m then obj_put ''model'' public kvs else kvs | _ \<Rightarrow> kvs)"

definition public_model :: "adapter_request \<Rightarrow> string" where
  "public_model r =
     (case rq_sourceModel r of
        Some m \<Rightarrow> m
      | None \<Rightarrow> (case js_get (rq_options r) ''model'' of JStr m \<Rightarrow> m | _ \<Rightarrow> rq_tarModel r))"

definition rewriteCliProxyModelForClient :: "jsval \<Rightarrow> adapter_request \<Rightarrow> jsval" where
  "rewriteCliProxyModelForClient v r =
     (case recordFromUnknown v of
        None \<Rightarrow> v
      | Some kvs \<Rightarrow>
          (let pre = rq_providerId r @ ''/'';
               public = JStr (public_model r);
               rewritten = rewrite_model pre public kvs
           in case recordFromUnknown (js_get rewritten ''response'') of
                Some resp \<Rightarrow>
                  (case js_get resp ''model'' of
                     JStr m \<Rightarrow> JObj (if prefix pre m then obj_put ''response'' (JObj (obj_put ''model'' public resp)) rewritten else rewritten)
                   | _ \<Rightarrow> JObj rewritten)
              | None \<Rightarrow> JObj rewritten))"


definition projectCpaEvidence :: "evidence_envelope \<Rightarrow> execution_evidence" where
  "projectCpaEvidence e =
     \<lparr>xe_costExposure = ee_costExposure e, xe_finalUsageEvidence = ee_finalUsageEvidence e, xe_trustedUsage = ee_trustedUsage e\<rparr>"

definition isCpaBasicEvidenceEvent :: "jsval \<Rightarrow> bool" where
  "isCpaBasicEvidenceEvent v \<longleftrightarrow> opt_get (recordFromUnknown v) ''type'' = JStr ''cpa.basic.evidence''"

definition isCliProxyErrorEvent :: "jsval \<Rightarrow> bool" where
  "isCliProxyErrorEvent v \<longleftrightarrow> opt_get (recordFromUnknown v) ''type'' = JStr ''error''"

definition cliProxyEventError :: "jsval \<Rightarrow> int \<Rightarrow> cliproxy_error" where
  "cliProxyEventError v events =
     (let status = (case safe_int_of (opt_get (recordFromUnknown v) ''status'') of
                      Some n \<Rightarrow> if n \<ge> 400 \<and> n \<le> 599 then n else 502 | None \<Rightarrow> 502);
          classified = cliProxyHttpError status v
      in cliProxyStreamError (Cliproxy_thrown (new_error (ce_code classified) (ce_message classified) (ce_status classified)
           \<lparr>eo_retryable = ce_retryable classified, eo_stage = Stream_read_stage, eo_costExposure = Some (ce_costExposure classified),
            eo_finalUsageEvidence = Some (ce_finalUsageEvidence classified), eo_failureReason = ce_failureReason classified,
            eo_details = ce_details classified, eo_diagnostic = None\<rparr>)) events None)"

subsection \<open>The stream of an attempt\<close>

record stream_failure =
  fl_code :: string
  fl_message :: string
  fl_retryable :: bool
  fl_failure :: attempt_failure
  fl_diagnostic :: "diagnostic option"

datatype stream_terminal =
    Succeeded execution_evidence "provider_usage option" "string option"
  | Failed stream_failure

datatype stream_event =
    Chunk jsval "stream_terminal option"
  | Error_event stream_failure
  | Done_event "provider_usage option" "string option" execution_evidence

record transport_state =
  tp_cpaEvidence :: "evidence_envelope option"
  tp_evidenceInvalid :: bool
  tp_eventsReceived :: int
  tp_doneMarker :: bool

definition new_transport :: transport_state where
  "new_transport = \<lparr>tp_cpaEvidence = None, tp_evidenceInvalid = False, tp_eventsReceived = 0, tp_doneMarker = False\<rparr>"

text \<open>After an event the loop goes on, returns, or throws.\<close>

datatype transport_step = Go_on transport_state | Return | Throw cliproxy_error transport_state

definition terminal_invalid :: "string \<Rightarrow> cliproxy_error" where
  "terminal_invalid message = new_error ''cliproxy_sse_terminal_invalid'' message 502 (no_options\<lparr>eo_stage := Protocol_stage\<rparr>)"

definition failure_of_error :: "cliproxy_error \<Rightarrow> attempt_failure \<Rightarrow> bool \<Rightarrow> stream_failure" where
  "failure_of_error e failure retryable =
     \<lparr>fl_code = ce_code e, fl_message = ce_message e, fl_retryable = retryable, fl_failure = failure, fl_diagnostic = ce_diagnostic e\<rparr>"

text \<open>The event after the evidence is the last one.\<close>

definition end_with_evidence :: "evidence_envelope \<Rightarrow> jsval \<Rightarrow> int \<Rightarrow> stream_event list" where
  "end_with_evidence env payload events =
     (case ee_failureClass env of
        Some fc \<Rightarrow>
          (let e = cliProxyEventError payload events;
               f = failure_of_error e
                     \<lparr>af_failureClass = JStr (failure_class_text fc), af_failureReason = ce_failureReason e,
                      af_costExposure = ee_costExposure env, af_finalUsageEvidence = ee_finalUsageEvidence env,
                      af_trustedUsage = ee_trustedUsage env\<rparr> (fc \<noteq> Non_retryable)
           in [Chunk payload (Some (Failed f)), Error_event f])
      | None \<Rightarrow>
          (let evidence = projectCpaEvidence env
           in [Chunk payload (Some (Succeeded evidence (ee_trustedUsage env) (ee_serviceTier env))),
               Done_event (ee_trustedUsage env) (ee_serviceTier env) evidence]))"

definition end_with_error_event :: "jsval \<Rightarrow> int \<Rightarrow> stream_event list" where
  "end_with_error_event payload events =
     (let e = cliProxyEventError payload events; fc = cliproxy_failure_class e
      in [Error_event (failure_of_error e (unresolvedProviderFailure fc) (fc \<noteq> Non_retryable))])"

definition on_data :: "adapter_request \<Rightarrow> jsval \<Rightarrow> transport_state \<Rightarrow> stream_event list \<times> transport_step" where
  "on_data r payload s =
     (let s = s\<lparr>tp_eventsReceived := tp_eventsReceived s + 1\<rparr>
      in if isCpaBasicEvidenceEvent payload
         then ([], Go_on (case parseCpaBasicStreamEvidenceEvent payload (rq_providerAttemptId r) of
                            None \<Rightarrow> s\<lparr>tp_evidenceInvalid := True, tp_cpaEvidence := None\<rparr>
                          | Some env \<Rightarrow>
                              if tp_cpaEvidence s \<noteq> None then s\<lparr>tp_evidenceInvalid := True, tp_cpaEvidence := None\<rparr>
                              else s\<lparr>tp_cpaEvidence := Some env\<rparr>))
         else let shown = rewriteCliProxyModelForClient payload r
              in case (if tp_evidenceInvalid s then None else tp_cpaEvidence s) of
                   Some env \<Rightarrow> (end_with_evidence env shown (tp_eventsReceived s), Return)
                 | None \<Rightarrow>
                     if isCliProxyErrorEvent shown then (end_with_error_event shown (tp_eventsReceived s), Return)
                     else ([Chunk shown None], Go_on s))"

definition on_event :: "adapter_request \<Rightarrow> sse_event \<Rightarrow> transport_state \<Rightarrow> stream_event list \<times> transport_step" where
  "on_event r ev s =
     (case ev of
        Sse_done \<Rightarrow>
          if tp_doneMarker s then ([], Throw (terminal_invalid ''CLIProxyAPI stream contained duplicate wire terminal markers'') s)
          else ([], Go_on (s\<lparr>tp_doneMarker := True\<rparr>))
      | Sse_event name payload n \<Rightarrow>
          if tp_doneMarker s then ([], Throw (terminal_invalid ''CLIProxyAPI stream contained data after its wire terminal marker'') s)
          else on_data r payload s)"

text \<open>The loop over the events, until one returns or throws (then the third part is the error).\<close>

datatype loop_end = Ran_out transport_state | Returned | Threw cliproxy_error transport_state

fun on_events :: "adapter_request \<Rightarrow> sse_event list \<Rightarrow> transport_state \<Rightarrow> stream_event list \<times> loop_end" where
  "on_events r [] s = ([], Ran_out s)"
| "on_events r (ev # evs) s =
     (case on_event r ev s of
        (out, Go_on s') \<Rightarrow> (case on_events r evs s' of (outs, res) \<Rightarrow> (out @ outs, res))
      | (out, Return) \<Rightarrow> (out, Returned)
      | (out, Throw e s') \<Rightarrow> (out, Threw e s'))"

definition catch_stream :: "thrown \<Rightarrow> thrown option \<Rightarrow> transport_state \<Rightarrow> stream_event list" where
  "catch_stream err signal s =
     (let e = cliProxyStreamError err (tp_eventsReceived s) signal
      in [Error_event (failure_of_error e (cliProxyAttemptFailure e) (ce_retryable e))])"

text \<open>
  What is around a stream: the limits of the options, the abort of the signal with its reason, whether the
  signal is aborted at the time an error is handled, and the value behind an error of a read or of the
  tokenizer.
\<close>

record ('d, 't) stream_world =
  sw_codec :: "('d, 't) codec"
  sw_limits :: "jsval option"
  sw_aborted :: "nat \<Rightarrow> bool"
  sw_reason :: thrown
  sw_late :: bool
  sw_streamIdleTimeoutMs :: "jsval option"
  sw_thrown :: "js_error \<Rightarrow> thrown"

definition thrown_by_scanner :: "('d, 't) stream_world \<Rightarrow> js_error \<Rightarrow> thrown" where
  "thrown_by_scanner w e =
     (if e = protocol_error then Cliproxy_thrown (cliProxyProtocolError ''CLIProxyAPI SSE event contained invalid JSON'')
      else sw_thrown w e)"

definition signal_at :: "('d, 't) stream_world \<Rightarrow> sse_failure \<Rightarrow> thrown option" where
  "signal_at w f = (if f = Aborted \<or> sw_late w then Some (sw_reason w) else None)"

text \<open>The catch of \<open>parseCliProxySse\<close>.\<close>

definition rethrown :: "('d, 't) stream_world \<Rightarrow> sse_failure \<Rightarrow> nat \<Rightarrow> cliproxy_error" where
  "rethrown w f n =
     cliProxyStreamError (case f of Aborted \<Rightarrow> sw_reason w | Stream_error e \<Rightarrow> thrown_by_scanner w e) (int n) (signal_at w f)"

text \<open>The generator: the consumer takes every event before the next one is read.\<close>

definition stream_events :: "('d, 't) stream_world \<Rightarrow> adapter_request \<Rightarrow> stream_read list \<Rightarrow> stream_event list" where
  "stream_events w r rds =
     (case parseCliProxySse (sw_codec w) (sw_limits w) (sw_aborted w) rds of
        Inl _ \<Rightarrow> catch_stream (Cliproxy_thrown (cliProxyProtocolError ''CLIProxyAPI SSE limits are invalid'')) None new_transport
      | Inr (outs, failure) \<Rightarrow>
          (case on_events r (yielded outs) new_transport of
             (sent, Returned) \<Rightarrow> sent
           | (sent, Threw e s) \<Rightarrow> sent @ catch_stream (Cliproxy_thrown e) None s
           | (sent, Ran_out s) \<Rightarrow>
               (case failure of
                  None \<Rightarrow> sent @ [Done_event None None unresolvedProviderExecutionEvidence]
                | Some (f, n) \<Rightarrow> sent @ catch_stream (Cliproxy_thrown (rethrown w f n)) (signal_at w f) s)))"

definition DEFAULT_CLIPROXY_STREAM_IDLE_TIMEOUT_MS :: int where
  "DEFAULT_CLIPROXY_STREAM_IDLE_TIMEOUT_MS = 600000"

definition positiveSafeInteger :: "jsval \<Rightarrow> cliproxy_error + int" where
  "positiveSafeInteger v =
     (case safe_int_of v of
        Some n \<Rightarrow> if n > 0 then Inr n else Inl (new_error ''cliproxy_stream_limit_invalid'' ''CLIProxyAPI stream limit is invalid'' 500
                                         (no_options\<lparr>eo_stage := Configuration_stage\<rparr>))
      | None \<Rightarrow> Inl (new_error ''cliproxy_stream_limit_invalid'' ''CLIProxyAPI stream limit is invalid'' 500
                  (no_options\<lparr>eo_stage := Configuration_stage\<rparr>)))"

text \<open>An idle timeout that is no positive number is thrown out of the generator before it reads.\<close>

definition providerStream :: "('d, 't) stream_world \<Rightarrow> adapter_request \<Rightarrow> stream_read list \<Rightarrow> cliproxy_error + stream_event list" where
  "providerStream w r rds =
     rbind (positiveSafeInteger (case sw_streamIdleTimeoutMs w of None \<Rightarrow> jint DEFAULT_CLIPROXY_STREAM_IDLE_TIMEOUT_MS | Some v \<Rightarrow> v))
       (\<lambda>_. Inr (stream_events w r rds))"

subsection \<open>A response in one piece\<close>


















subsection \<open>Sending\<close>










subsection \<open>How a stream ends\<close>

definition is_ending :: "stream_event list \<Rightarrow> bool" where
  "is_ending fin \<longleftrightarrow>
     (\<exists>u tier e. fin = [Done_event u tier e]) \<or> (\<exists>f. fin = [Error_event f])
     \<or> (\<exists>v f. fin = [Chunk v (Some (Failed f)), Error_event f])
     \<or> (\<exists>v e u tier. fin = [Chunk v (Some (Succeeded e u tier)), Done_event u tier e])"

definition chunks_of :: "jsval list \<Rightarrow> stream_event list" where
  "chunks_of vs = map (\<lambda>v. Chunk v None) vs"

lemma ending_with_evidence: "is_ending (end_with_evidence env v n)"
  by (auto simp: end_with_evidence_def is_ending_def Let_def split: option.splits)

lemma ending_with_error: "is_ending (end_with_error_event v n)"
  by (simp add: end_with_error_event_def is_ending_def Let_def)

lemma ending_of_catch: "is_ending (catch_stream t signal s)"
  by (simp add: catch_stream_def is_ending_def Let_def)

text \<open>What an event leads to.\<close>

lemma on_data_cases:
  assumes "on_data r v s = (out, step)"
  obtains (evidence) s' where "isCpaBasicEvidenceEvent v" "out = []" "step = Go_on s'" "tp_doneMarker s' = tp_doneMarker s"
      "tp_evidenceInvalid s \<longrightarrow> tp_evidenceInvalid s'"
      "\<And>env. tp_cpaEvidence s' = Some env \<Longrightarrow> \<not> tp_evidenceInvalid s \<Longrightarrow>
         parseCpaBasicStreamEvidenceEvent v (rq_providerAttemptId r) = Some env \<and> tp_cpaEvidence s = None"
      "tp_cpaEvidence s' = None \<Longrightarrow> tp_evidenceInvalid s'"
  | (terminal) env n where "\<not> isCpaBasicEvidenceEvent v" "tp_cpaEvidence s = Some env" "\<not> tp_evidenceInvalid s"
      "out = end_with_evidence env (rewriteCliProxyModelForClient v r) n" "step = Return"
  | (error) n where "out = end_with_error_event (rewriteCliProxyModelForClient v r) n" "step = Return"
  | (chunk) v' s' where "\<not> isCpaBasicEvidenceEvent v" "out = [Chunk v' None]" "step = Go_on s'" "tp_doneMarker s' = tp_doneMarker s"
      "tp_evidenceInvalid s' = tp_evidenceInvalid s" "tp_cpaEvidence s' = tp_cpaEvidence s"
      "tp_evidenceInvalid s \<or> tp_cpaEvidence s = None"
  using assms
  by (cases "isCpaBasicEvidenceEvent v")
    (auto simp: on_data_def Let_def split: option.splits if_splits)

lemma on_events_shape:
  "on_events r evs s = (out, res) \<Longrightarrow>
   \<exists>vs fin. out = chunks_of vs @ fin \<and> (if res = Returned then is_ending fin else fin = [])"
proof (induction evs arbitrary: s out)
  case Nil
  then show ?case by (auto simp: chunks_of_def intro: exI [of _ "[]"])
next
  case (Cons ev evs)
  obtain o1 step where ev: "on_event r ev s = (o1, step)" by fastforce
  have one: "\<exists>vs fin. o1 = chunks_of vs @ fin \<and> (if step = Return then is_ending fin else fin = [])"
  proof (cases ev)
    case Sse_done
    with ev show ?thesis by (auto simp: on_event_def chunks_of_def split: if_splits)
  next
    case (Sse_event name v n)
    show ?thesis
    proof (cases "tp_doneMarker s")
      case True
      with ev Sse_event show ?thesis by (auto simp: on_event_def chunks_of_def)
    next
      case False
      with ev Sse_event have "on_data r v s = (o1, step)" by (simp add: on_event_def)
      then show ?thesis
      proof (cases rule: on_data_cases)
        case (chunk v' s')
        then show ?thesis by (intro exI [of _ "[v']"] exI [of _ "[]"]) (simp add: chunks_of_def)
      qed (auto simp: chunks_of_def ending_with_evidence ending_with_error intro: exI [of _ "[]"])
    qed
  qed
  then obtain vs fin where o1: "o1 = chunks_of vs @ fin" "if step = Return then is_ending fin else fin = []" by blast
  show ?case
  proof (cases step)
    case (Go_on s')
    obtain o2 where rest: "on_events r evs s' = (o2, res)" "out = o1 @ o2" using Cons.prems ev Go_on by (auto split: prod.splits)
    from Cons.IH [OF rest(1)] obtain ws fin' where "o2 = chunks_of ws @ fin'" "if res = Returned then is_ending fin' else fin' = []"
      by blast
    with o1 rest(2) Go_on show ?thesis by (intro exI [of _ "vs @ ws"] exI [of _ fin']) (simp add: chunks_of_def)
  next
    case Return
    with Cons.prems ev o1 show ?thesis by auto
  next
    case (Throw e s')
    with Cons.prems ev o1 show ?thesis by auto
  qed
qed

text \<open>A Provider stream ends, whatever the Provider sends and whatever fails, with exactly one ending,
  and nothing follows it: chunks without an outcome come first, and then one of a done event, an error
  event, or a last chunk that carries its outcome and is followed by the done or error event with the
  same outcome.\<close>

lemma provider_stream_ends_once:
  "\<exists>vs fin. stream_events w r rds = chunks_of vs @ fin \<and> is_ending fin"
proof (cases "parseCliProxySse (sw_codec w) (sw_limits w) (sw_aborted w) rds")
  case (Inl e)
  then show ?thesis using ending_of_catch by (fastforce simp: stream_events_def chunks_of_def)
next
  case (Inr parsed)
  obtain outs failure where parsed: "parsed = (outs, failure)" by fastforce
  obtain sent res where loop: "on_events r (yielded outs) new_transport = (sent, res)" by fastforce
  from on_events_shape [OF loop] obtain vs fin
    where sent: "sent = chunks_of vs @ fin" "if res = Returned then is_ending fin else fin = []" by blast
  have "\<exists>tail. stream_events w r rds = sent @ tail \<and> (if res = Returned then tail = [] else is_ending tail)"
    using Inr parsed loop ending_of_catch
    by (cases res; cases failure) (auto simp: stream_events_def is_ending_def)
  then obtain tail where "stream_events w r rds = sent @ tail" "if res = Returned then tail = [] else is_ending tail" by blast
  with sent show ?thesis by (cases "res = Returned") auto
qed

subsection \<open>What a stream reports\<close>

text \<open>Only evidence of the CLI proxy itself settles an attempt; the report of anything else is open.\<close>

definition open_report :: "cost_exposure \<times> usage_evidence \<times> provider_usage option" where
  "open_report = (Accruing, Pending_usage, None)"

fun terminal_report :: "stream_terminal \<Rightarrow> cost_exposure \<times> usage_evidence \<times> provider_usage option" where
  "terminal_report (Succeeded e u tier) = (xe_costExposure e, xe_finalUsageEvidence e, xe_trustedUsage e)"
| "terminal_report (Failed f) = (af_costExposure (fl_failure f), af_finalUsageEvidence (fl_failure f), af_trustedUsage (fl_failure f))"

fun reported :: "stream_event \<Rightarrow> cost_exposure \<times> usage_evidence \<times> provider_usage option" where
  "reported (Chunk v None) = open_report"
| "reported (Chunk v (Some t)) = terminal_report t"
| "reported (Error_event f) = terminal_report (Failed f)"
| "reported (Done_event u tier e) = terminal_report (Succeeded e u tier)"

definition envelope_report :: "evidence_envelope \<Rightarrow> cost_exposure \<times> usage_evidence \<times> provider_usage option" where
  "envelope_report env = (ee_costExposure env, ee_finalUsageEvidence env, ee_trustedUsage env)"

text \<open>An error that leaves the attempt open, as every error that does not say otherwise when it is made.\<close>

definition in_flight :: "cliproxy_error \<Rightarrow> bool" where
  "in_flight e \<longleftrightarrow> ce_costExposure e = Accruing \<and> ce_finalUsageEvidence e = Pending_usage"

definition thrown_in_flight :: "thrown \<Rightarrow> bool" where
  "thrown_in_flight t \<longleftrightarrow> (case t of Cliproxy_thrown e \<Rightarrow> in_flight e | Other_thrown _ \<Rightarrow> True)"

named_theorems in_flight_facts

lemma in_flight_new [in_flight_facts]:
  "eo_costExposure opts = None \<or> eo_costExposure opts = Some Accruing \<Longrightarrow> eo_stage opts \<noteq> Configuration_stage \<or> eo_costExposure opts \<noteq> None \<Longrightarrow>
   eo_finalUsageEvidence opts = None \<or> eo_finalUsageEvidence opts = Some Pending_usage \<Longrightarrow> in_flight (new_error code message status opts)"
  by (auto simp: in_flight_def new_error_def Let_def)

lemma in_flight_http [in_flight_facts]: "in_flight (cliProxyHttpError status body)"
  by (auto simp: cliProxyHttpError_def Let_def no_options_def in_flight_facts split: prod.splits option.splits)

lemma in_flight_protocol [in_flight_facts]: "in_flight (cliProxyProtocolError m)"
  by (simp add: cliProxyProtocolError_def no_options_def in_flight_facts)

lemma in_flight_stream [in_flight_facts]: "thrown_in_flight t \<Longrightarrow> in_flight (cliProxyStreamError t n signal)"
  by (auto simp: cliProxyStreamError_def thrown_in_flight_def in_stream_def no_options_def in_flight_def new_error_def Let_def
      split: thrown.splits option.splits)

lemma in_flight_event [in_flight_facts]: "in_flight (cliProxyEventError v n)"
  unfolding cliProxyEventError_def Let_def
  by (rule in_flight_stream) (use in_flight_http in \<open>simp add: thrown_in_flight_def in_flight_def new_error_def Let_def\<close>)

lemma reported_chunks: "ev \<in> set (chunks_of vs) \<Longrightarrow> reported ev = open_report"
  by (auto simp: chunks_of_def)

lemma reported_error: "ev \<in> set (end_with_error_event v n) \<Longrightarrow> reported ev = open_report"
  by (simp add: end_with_error_event_def failure_of_error_def unresolvedProviderFailure_def open_report_def Let_def)

lemma reported_evidence: "ev \<in> set (end_with_evidence env v n) \<Longrightarrow> reported ev = envelope_report env"
  by (auto simp: end_with_evidence_def failure_of_error_def projectCpaEvidence_def envelope_report_def Let_def split: option.splits)

lemma reported_catch: "thrown_in_flight t \<Longrightarrow> ev \<in> set (catch_stream t signal s) \<Longrightarrow> reported ev = open_report"
  using in_flight_stream [of t "tp_eventsReceived s" signal]
  by (simp add: catch_stream_def failure_of_error_def cliProxyAttemptFailure_def open_report_def in_flight_def Let_def)

lemma done_never_returns: "tp_doneMarker s \<Longrightarrow> snd (on_events r evs s) \<noteq> Returned"
  by (cases evs) (auto simp: on_event_def split: sse_event.splits)

text \<open>\<open>settled_by r env evs\<close>: the first evidence among the events is \<open>env\<close>, and data follows it at once.\<close>

definition settled_by :: "adapter_request \<Rightarrow> evidence_envelope \<Rightarrow> sse_event list \<Rightarrow> bool" where
  "settled_by r env evs \<longleftrightarrow>
     (\<exists>pre name e k name' v k' post. evs = pre @ Sse_event name e k # Sse_event name' v k' # post
        \<and> parseCpaBasicStreamEvidenceEvent e (rq_providerAttemptId r) = Some env
        \<and> list_all (\<lambda>ev. case ev of Sse_done \<Rightarrow> False | Sse_event n v k \<Rightarrow> \<not> isCpaBasicEvidenceEvent v) pre
        \<and> \<not> isCpaBasicEvidenceEvent v)"

lemma settled_by_Cons:
  "settled_by r env evs \<Longrightarrow> \<not> isCpaBasicEvidenceEvent v \<Longrightarrow> settled_by r env (Sse_event name v k # evs)"
  unfolding settled_by_def
  apply (elim exE conjE)
  subgoal for pre name' e k' name'' v'' k'' post
    by (rule exI [of _ "Sse_event name v k # pre"]) auto
  done

definition settled_after :: "adapter_request \<Rightarrow> transport_state \<Rightarrow> sse_event list \<Rightarrow> evidence_envelope \<Rightarrow> bool" where
  "settled_after r s evs env \<longleftrightarrow>
     \<not> tp_evidenceInvalid s
     \<and> (case tp_cpaEvidence s of
          Some env' \<Rightarrow> env' = env \<and> (\<exists>name v k rest. evs = Sse_event name v k # rest \<and> \<not> isCpaBasicEvidenceEvent v)
        | None \<Rightarrow> settled_by r env evs)"

lemma settled_after_evidence:
  assumes "settled_after r s' evs env" "tp_evidenceInvalid s \<longrightarrow> tp_evidenceInvalid s'"
    and "\<And>env. tp_cpaEvidence s' = Some env \<Longrightarrow> \<not> tp_evidenceInvalid s \<Longrightarrow>
       parseCpaBasicStreamEvidenceEvent v (rq_providerAttemptId r) = Some env \<and> tp_cpaEvidence s = None"
    and "tp_cpaEvidence s' = None \<Longrightarrow> tp_evidenceInvalid s'"
  shows "settled_after r s (Sse_event name v k # evs) env"
proof -
  have valid: "\<not> tp_evidenceInvalid s'" "\<not> tp_evidenceInvalid s" using assms(1,2) by (auto simp: settled_after_def)
  then obtain name' v' k' rest where env: "tp_cpaEvidence s' = Some env" and evs: "evs = Sse_event name' v' k' # rest"
    and data: "\<not> isCpaBasicEvidenceEvent v'"
    using assms(1,4) by (auto simp: settled_after_def split: option.splits)
  from assms(3) [OF env valid(2)] have "settled_by r env (Sse_event name v k # evs)"
    unfolding settled_by_def evs using data by (intro exI [of _ "[]"]) auto
  with valid assms(3) [OF env valid(2)] show ?thesis by (simp add: settled_after_def)
qed

lemma on_events_settled:
  "on_events r evs s = (out, Returned) \<Longrightarrow>
   \<exists>vs v n fin. out = chunks_of vs @ fin
     \<and> (fin = end_with_error_event v n \<or> (\<exists>env. fin = end_with_evidence env v n \<and> settled_after r s evs env))"
proof (induction evs arbitrary: s out)
  case Nil
  then show ?case by simp
next
  case (Cons ev evs)
  show ?case
  proof (cases ev)
    case Sse_done
    with Cons.prems done_never_returns [of "s\<lparr>tp_doneMarker := True\<rparr>" r evs] show ?thesis
      by (auto simp: on_event_def split: if_splits prod.splits)
  next
    case (Sse_event name v k)
    obtain o1 step where ev: "on_event r ev s = (o1, step)" by fastforce
    have not_done: "\<not> tp_doneMarker s" using Cons.prems done_never_returns [of s r "ev # evs"] by auto
    with ev Sse_event have data: "on_data r v s = (o1, step)" by (simp add: on_event_def)
    have rest: "\<exists>o2. on_events r evs s' = (o2, Returned) \<and> out = o1 @ o2" if "step = Go_on s'" for s'
      using Cons.prems ev that by (auto split: prod.splits)
    from data show ?thesis
    proof (cases rule: on_data_cases)
      case (evidence s')
      from rest [OF evidence(3)] evidence(2) have "on_events r evs s' = (out, Returned)" by auto
      from Cons.IH [OF this] settled_after_evidence [OF _ evidence(5,6,7)] show ?thesis unfolding Sse_event by blast
    next
      case (terminal env n)
      then have "out = chunks_of [] @ end_with_evidence env (rewriteCliProxyModelForClient v r) n"
        using Cons.prems ev by (simp add: chunks_of_def)
      moreover have "settled_after r s (ev # evs) env" using terminal Sse_event by (simp add: settled_after_def)
      ultimately show ?thesis by blast
    next
      case (error n)
      then have "out = chunks_of [] @ end_with_error_event (rewriteCliProxyModelForClient v r) n"
        using Cons.prems ev by (simp add: chunks_of_def)
      then show ?thesis by blast
    next
      case (chunk v' s')
      from rest [OF chunk(3)] obtain o2 where o2: "on_events r evs s' = (o2, Returned)" "out = Chunk v' None # o2" using chunk(2) by auto
      from Cons.IH [OF o2(1)] obtain vs w n fin where o2_is: "o2 = chunks_of vs @ fin"
        and fin: "fin = end_with_error_event w n \<or> (\<exists>env. fin = end_with_evidence env w n \<and> settled_after r s' evs env)" by blast
      have "settled_after r s (ev # evs) env" if "settled_after r s' evs env" for env
        using that chunk settled_by_Cons [of r env evs v name k] by (auto simp: Sse_event settled_after_def split: option.splits)
      moreover have "out = chunks_of (v' # vs) @ fin" using o2(2) o2_is by (simp add: chunks_of_def)
      ultimately show ?thesis using fin by blast
    qed
  qed
qed

lemma threw_terminal: "on_events r evs s = (out, Threw e s') \<Longrightarrow> \<exists>m. e = terminal_invalid m"
  by (induction evs arbitrary: s out)
    (auto simp: on_event_def on_data_def Let_def split: sse_event.splits if_splits prod.splits option.splits transport_step.splits)

definition world_in_flight :: "('d, 't) stream_world \<Rightarrow> bool" where
  "world_in_flight w \<longleftrightarrow> thrown_in_flight (sw_reason w) \<and> (\<forall>e. thrown_in_flight (sw_thrown w e))"

lemma in_flight_rethrown: "world_in_flight w \<Longrightarrow> in_flight (rethrown w f n)"
  using in_flight_protocol
  by (auto simp: world_in_flight_def rethrown_def thrown_by_scanner_def thrown_in_flight_def
      split: sse_failure.splits intro!: in_flight_stream)

lemma in_flight_terminal: "in_flight (terminal_invalid m)"
  by (simp add: terminal_invalid_def no_options_def in_flight_facts)

lemma reported_unresolved [simp]:
  "(xe_costExposure unresolvedProviderExecutionEvidence, xe_finalUsageEvidence unresolvedProviderExecutionEvidence,
    xe_trustedUsage unresolvedProviderExecutionEvidence) = open_report"
  by (simp add: unresolvedProviderExecutionEvidence_def open_report_def)

lemma reported_caught: "in_flight e \<Longrightarrow> ev \<in> set (catch_stream (Cliproxy_thrown e) signal s) \<Longrightarrow> reported ev = open_report"
  by (rule reported_catch) (simp_all add: thrown_in_flight_def)

lemma stream_not_returned:
  assumes w: "world_in_flight w" and loop: "on_events r (yielded outs) new_transport = (sent, res)" "res \<noteq> Returned"
    and parsed: "parseCliProxySse (sw_codec w) (sw_limits w) (sw_aborted w) rds = Inr (outs, failure)"
    and ev: "ev \<in> set (stream_events w r rds)"
  shows "reported ev = open_report"
proof -
  have sent: "reported ev' = open_report" if "ev' \<in> set sent" for ev'
    using on_events_shape [OF loop(1)] loop(2) that reported_chunks by auto
  consider s where "res = Ran_out s" | e s where "res = Threw e s" using loop(2) by (cases res) auto
  then show ?thesis
  proof cases
    case (1 s)
    with ev parsed loop sent show ?thesis
      by (auto simp: stream_events_def split: option.splits dest: reported_caught [OF in_flight_rethrown [OF w]])
  next
    case (2 e s)
    with threw_terminal loop(1) obtain m where "e = terminal_invalid m" by blast
    with 2 ev parsed loop sent show ?thesis
      by (auto simp: stream_events_def dest: reported_caught [OF in_flight_terminal])
  qed
qed

text \<open>C26: what a stream reports of an attempt is open, with cost accruing and usage pending, unless the CLI
  proxy itself settled it: the report is then the one of the first evidence event of the stream, which is
  valid and names the attempt, and which the next data event follows at once. An end of the stream, the
  end marker, an error event, a malformed stream and an abort settle nothing, if the errors of the
  surroundings leave the attempt open.\<close>

theorem provider_stream_evidence:
  assumes "world_in_flight w" and run: "providerStream w r rds = Inr evs" and "ev \<in> set evs"
    and settled: "reported ev \<noteq> open_report"
  shows "\<exists>outs failure env. parseCliProxySse (sw_codec w) (sw_limits w) (sw_aborted w) rds = Inr (outs, failure)
    \<and> settled_by r env (yielded outs) \<and> reported ev = envelope_report env"
proof (cases "parseCliProxySse (sw_codec w) (sw_limits w) (sw_aborted w) rds")
  case (Inl e)
  have "ev \<in> set (stream_events w r rds)" using assms(2,3) by (auto simp: providerStream_def effects)
  then show ?thesis using Inl settled reported_caught [OF in_flight_protocol] by (auto simp: stream_events_def)
next
  case (Inr parsed)
  have ev: "ev \<in> set (stream_events w r rds)" using assms(2,3) by (auto simp: providerStream_def effects)
  obtain outs failure where parsed: "parsed = (outs, failure)" by fastforce
  obtain sent res where loop: "on_events r (yielded outs) new_transport = (sent, res)" by fastforce
  have "res = Returned" using stream_not_returned [OF assms(1) loop _ _ ev] Inr parsed settled by auto
  with on_events_settled [of r "yielded outs" new_transport sent] loop
  obtain vs v n fin where sent: "sent = chunks_of vs @ fin"
    and fin: "fin = end_with_error_event v n \<or> (\<exists>env. fin = end_with_evidence env v n \<and> settled_after r new_transport (yielded outs) env)" by blast
  have "ev \<in> set fin"
    using ev settled Inr parsed loop sent \<open>res = Returned\<close> reported_chunks by (auto simp: stream_events_def)
  with fin settled reported_error obtain env where "fin = end_with_evidence env v n" "settled_by r env (yielded outs)"
    by (auto simp: settled_after_def new_transport_def)
  with \<open>ev \<in> set fin\<close> Inr parsed reported_evidence show ?thesis by blast
qed

subsection \<open>What is sent\<close>

lemma js_get_obj_put [simp]: "js_get (obj_put k v kvs) k' = (if k = k' then v else js_get kvs k')"
  by (induction kvs) auto

lemma obj_put_members: "kv \<in> set (obj_put k v kvs) \<Longrightarrow> kv = (k, v) \<or> kv \<in> set kvs"
  by (induction kvs) (auto split: if_splits)

lemma js_get_absent: "k \<notin> fst ` set kvs \<Longrightarrow> js_get kvs k = JUndefined"
  by (induction kvs) auto

lemma sanitized_get:
  "rfold sanitize_entry options acc = Inr res \<Longrightarrow> distinct (map fst options) \<Longrightarrow>
   js_get res k = (if k \<in> set CLIPROXY_SERVER_OWNED_FIELDS \<or> k = ''__proto__'' \<or> js_get options k = JUndefined
                   then js_get acc k else js_get options k)"
proof (induction options arbitrary: acc)
  case (Cons kv options)
  obtain key v where kv: "kv = (key, v)" by fastforce
  obtain acc' where step: "sanitize_entry kv acc = Inr acc'" "rfold sanitize_entry options acc' = Inr res"
    using Cons.prems(1) by (auto simp: rbind_Inr_iff)
  have get: "js_get acc' k = (if key = k \<and> key \<notin> set CLIPROXY_SERVER_OWNED_FIELDS \<and> v \<noteq> JUndefined \<and> key \<noteq> ''__proto__''
      then v else js_get acc k)" for k
    using step(1) kv by (auto simp: sanitize_entry_def assign_property_def split: if_splits)
  have "key \<notin> fst ` set options" using Cons.prems(2) kv by simp
  with Cons.IH [OF step(2)] Cons.prems(2) kv js_get_absent [of key options] show ?case by (auto simp: get)
qed simp

lemma sanitized_allowed:
  "rfold sanitize_entry options acc = Inr res \<Longrightarrow> kv \<in> set res \<Longrightarrow>
   kv \<in> set acc \<or> normalizeControlFieldName (fst kv) \<notin> set CLIPROXY_FORBIDDEN_CONTROL_FIELDS"
proof (induction options arbitrary: acc)
  case (Cons o1 options)
  then obtain acc' where "sanitize_entry o1 acc = Inr acc'" "rfold sanitize_entry options acc' = Inr res"
    by (auto simp: rbind_Inr_iff)
  with Cons.IH [OF this(2) Cons.prems(2)] show ?case
    by (auto simp: sanitize_entry_def assign_property_def split: prod.splits if_splits dest: obj_put_members)
qed simp

lemma own_fields_allowed:
  "k \<in> set CLIPROXY_SERVER_OWNED_FIELDS \<Longrightarrow> normalizeControlFieldName k \<notin> set CLIPROXY_FORBIDDEN_CONTROL_FIELDS"
proof -
  have "list_all (\<lambda>k. normalizeControlFieldName k \<notin> set CLIPROXY_FORBIDDEN_CONTROL_FIELDS) CLIPROXY_SERVER_OWNED_FIELDS" by code_simp
  then show "k \<in> set CLIPROXY_SERVER_OWNED_FIELDS \<Longrightarrow> ?thesis" by (simp add: list_all_iff)
qed

text \<open>C38: the payload sent to the CLI proxy names the model under the prefix of its Provider and sets the
  fields of the server itself, whatever the request says of them; every other option is sent as it is, but
  for \<open>__proto__\<close>; and no field is a transport control field in any spelling.\<close>

theorem cliproxy_payload_exact:
  assumes payload: "cliProxyPayload r = Inr payload" and object: "distinct (map fst (rq_options r))"
  shows "isCliProxyProviderId (rq_providerId r)
    \<and> js_get payload ''model'' = JStr (rq_providerId r @ ''/'' @ rq_tarModel r)
    \<and> js_get payload ''stream'' = JBool (rq_stream r)
    \<and> js_get payload ''store'' = (if rq_kind r = Messages then JUndefined else JBool False)
    \<and> (k \<notin> set CLIPROXY_SERVER_OWNED_FIELDS \<and> k \<noteq> ''__proto__'' \<longrightarrow> js_get payload k = js_get (rq_options r) k)
    \<and> list_all (\<lambda>kv. normalizeControlFieldName (fst kv) \<notin> set CLIPROXY_FORBIDDEN_CONTROL_FIELDS) payload"
proof -
  obtain options where options: "rfold sanitize_entry (rq_options r) [] = Inr options" and id: "isCliProxyProviderId (rq_providerId r)"
    and kind: "rq_kind r = Responses \<or> rq_kind r = Chat_completions \<or> rq_kind r = Messages"
    and p: "payload = (let payload = obj_put ''stream'' (JBool (rq_stream r)) (obj_put ''model'' (JStr (rq_providerId r @ ''/'' @ rq_tarModel r)) options)
       in if rq_kind r = Responses \<or> rq_kind r = Chat_completions then obj_put ''store'' (JBool False) payload else payload)"
    using payload
    by (auto simp: cliProxyPayload_def sanitizeCliProxyPayload_def assertCliProxyRequest_def assertCliProxyProvider_def
        assertProviderPrefix_def cliProxyPrefixedModel_def require_def rbind_Inr_iff Let_def split: if_splits)
  note get = sanitized_get [OF options object]
  have own: "''model'' \<in> set CLIPROXY_SERVER_OWNED_FIELDS" "''stream'' \<in> set CLIPROXY_SERVER_OWNED_FIELDS" "''store'' \<in> set CLIPROXY_SERVER_OWNED_FIELDS"
    by (simp_all add: CLIPROXY_SERVER_OWNED_FIELDS_def)
  have "normalizeControlFieldName key \<notin> set CLIPROXY_FORBIDDEN_CONTROL_FIELDS" if "(key, v) \<in> set payload" for key v
    using that sanitized_allowed [OF options, of "(key, v)"] own_fields_allowed own
    by (auto simp: p Let_def split: if_splits dest!: obj_put_members)
  then have allowed: "list_all (\<lambda>kv. normalizeControlFieldName (fst kv) \<notin> set CLIPROXY_FORBIDDEN_CONTROL_FIELDS) payload"
    by (auto simp: list_all_iff)
  have others: "js_get payload k = js_get (rq_options r) k" if "k \<notin> set CLIPROXY_SERVER_OWNED_FIELDS" "k \<noteq> ''__proto__''"
  proof -
    have "''model'' \<noteq> k" "''stream'' \<noteq> k" "''store'' \<noteq> k" using that own by auto
    then show ?thesis using that by (simp add: p Let_def get)
  qed
  show ?thesis using id kind allowed others own by (auto simp: p Let_def get)
qed

definition example_request :: adapter_request where
  "example_request =
     \<lparr>rq_kind = Responses, rq_providerId = ''p1'', rq_cpaInstanceId = ''c'', rq_bindingRevision = jint 1, rq_authMethod = ''oauth'',
      rq_credentialOwnership = ''cpa-managed'', rq_credentialRefCount = jint 1, rq_sourceModel = None, rq_tarModel = ''m'',
      rq_stream = True, rq_options = [(''input'', JStr ''x''), (''model'', JStr ''other''), (''store'', JBool True)],
      rq_providerAttemptId = ''a''\<rparr>"

definition example_payload :: "(string \<times> jsval) list" where
  "example_payload = [(''input'', JStr ''x''), (''model'', JStr ''p1/m''), (''stream'', JBool True), (''store'', JBool False)]"

lemma example_payload_sent: "cliProxyPayload example_request = Inr example_payload"
  by code_simp

theorem cliproxy_payload_exact_witness:
  "js_get example_payload ''model'' = JStr ''p1/m'' \<and> js_get example_payload ''store'' = JBool False
   \<and> js_get example_payload ''input'' = JStr ''x''"
  using cliproxy_payload_exact [OF example_payload_sent, of "''input''"]
  by (simp add: example_request_def CLIPROXY_SERVER_OWNED_FIELDS_def)

subsection \<open>What a response in one piece reports\<close>
















subsection \<open>An example\<close>

text \<open>A decoder of ASCII and a tokenizer that knows three texts: evidence in a stream, evidence around a
  response, and any other text, which stands for itself.\<close>

definition example_envelope :: json_doc where
  "example_envelope = Doc_object
     [(''contract'', Doc_string ''cpa-basic@1''), (''version'', Doc_number ''1''), (''providerAttemptRef'', Doc_string ''a''),
      (''costExposure'', Doc_string ''stopped''), (''finalUsageEvidence'', Doc_string ''pending'')]"

definition example_document :: "string \<Rightarrow> json_doc" where
  "example_document t =
     (if t = ''E'' then Doc_object [(''type'', Doc_string ''cpa.basic.evidence''), (''envelope'', example_envelope)]
      else if t = ''J'' then Doc_object [(''contract'', Doc_string ''cpa-basic-json@1''), (''version'', Doc_number ''1''),
             (''response'', Doc_null), (''evidence'', example_envelope)]
      else Doc_string t)"

definition example_decode :: "unit decoder" where
  "example_decode d input = (case input of None \<Rightarrow> [] | Some bs \<Rightarrow> map char_of bs, d)"

definition example_tokenize :: "string tokenizer" where
  "example_tokenize t input =
     (case input of
        Some s \<Rightarrow> (Inr No_output, t @ s)
      | None \<Rightarrow> (Inr (Token_batch (doc_tokens (example_document t))), t))"

definition example_world :: "(unit, string) stream_world" where
  "example_world =
     \<lparr>sw_codec = \<lparr>cd_decode = example_decode, cd_tokenize = example_tokenize, cd_decoder = (), cd_tokenizer = []\<rparr>,
      sw_limits = None, sw_aborted = never_aborted, sw_reason = Other_thrown None, sw_late = False, sw_streamIdleTimeoutMs = None,
      sw_thrown = (\<lambda>_. Other_thrown None)\<rparr>"

lemma example_in_flight: "world_in_flight example_world"
  by (simp add: world_in_flight_def thrown_in_flight_def example_world_def)


definition stopped_report :: "cost_exposure \<times> usage_evidence \<times> provider_usage option" where
  "stopped_report = (Stopped, Pending_usage, None)"

lemma stopped_report_settles: "stopped_report \<noteq> open_report"
  by (simp add: stopped_report_def open_report_def)




text \<open>The stream \<open>data:E\<close>, \<open>data:x\<close>, each with an empty line after it.\<close>

definition example_bytes :: "nat list" where
  "example_bytes = [100, 97, 116, 97, 58, 69, 10, 10, 100, 97, 116, 97, 58, 120, 10, 10]"

definition example_stream :: "stream_read list" where
  "example_stream = [Read_chunk example_bytes]"

lemma example_frame:
  "frame_event (sw_codec example_world) [[100, 97, 116, 97, 58, 69]]
     = Inr (Some (Sse_event None (doc_value (example_document ''E'')) 1))"
  "frame_event (sw_codec example_world) [[100, 97, 116, 97, 58, 120]] = Inr (Some (Sse_event None (JStr ''x'') 1))"
proof -
  let ?cd = "sw_codec example_world"
  have parse: "parse_json ?cd 0 [b] = (case fst (json_session example_decode example_tokenize [[b]] (new_json_parser () [])) of
        Inl _ \<Rightarrow> Inl protocol_error
      | Inr res \<Rightarrow> (case sj_value res of None \<Rightarrow> Inl protocol_error | Some v \<Rightarrow> Inr (v, sj_decodedByteLength res)))" for b
    using chunks_short [of "[b]" SINK_SIZE]
    by (simp add: parse_json_def write_chunks_def nonempty_chunk_def SINK_SIZE_def example_world_def cong: sum.case_cong option.case_cong)
  have data: "frame_data [[100, 97, 116, 97, 58, b]] = Some [b]" "event_value [[100, 97, 116, 97, 58, b]] = None" if "b \<noteq> 32" for b :: nat
    using that by (simp_all add: frame_data_def event_value_def line_name_def line_value_def DATA_FIELD_def EVENT_FIELD_def)
  have json: "data_json [b] = (0, [b])" "\<not> is_done [b]" if "b = 69 \<or> b = 120" for b
    using that by (auto simp: data_json_def is_done_def isJsonWhitespace_def DONE_BYTES_def)
  have "parse_json ?cd 0 [69] = Inr (doc_value (example_document ''E''), 1)" unfolding parse by code_simp
  then show "frame_event ?cd [[100, 97, 116, 97, 58, 69]] = Inr (Some (Sse_event None (doc_value (example_document ''E'')) 1))"
    by (simp add: frame_event_def data json json_result_def)
  have "parse_json ?cd 0 [120] = Inr (JStr ''x'', 1)" unfolding parse by code_simp
  then show "frame_event ?cd [[100, 97, 116, 97, 58, 120]] = Inr (Some (Sse_event None (JStr ''x'') 1))"
    by (simp add: frame_event_def data json json_result_def)
qed

lemma example_events:
  "sse_events (sw_codec example_world) example_bytes
     = ([Sse_event None (doc_value (example_document ''E'')) 1, Sse_event None (JStr ''x'') 1], None)"
proof -
  have "split_frames [] (split_lines [] (strip_bom example_bytes)) = [[[100, 97, 116, 97, 58, 69]], [[100, 97, 116, 97, 58, 120]], []]"
    by code_simp
  then show ?thesis by (simp add: sse_events_def example_frame frame_events_Cons)
qed

lemma example_streamed: "map reported (stream_events example_world example_request example_stream) = [stopped_report, stopped_report]"
proof -
  let ?cd = "sw_codec example_world"
  obtain outs failure where run: "read_stream ?cd 128 never_aborted example_stream new_reader = (outs, failure)" by fastforce
  then have "yielded outs = [Sse_event None (doc_value (example_document ''E'')) 1, Sse_event None (JStr ''x'') 1]" "failure = None"
    using read_stream_scan [where cd = ?cd and m = 128 and r = new_reader and chunks = "[example_bytes]"]
      scan_input [of ?cd example_bytes] example_events
    by (auto simp: example_stream_def new_reader_def)
  moreover have "parseCliProxySse ?cd (sw_limits example_world) (sw_aborted example_world) example_stream = Inr (outs, failure)"
    using run by (simp add: parseCliProxySse_def validatedLimits_def DEFAULT_MAX_QUEUE_FRAMES_def example_world_def)
  moreover have "map reported (fst (on_events example_request [Sse_event None (doc_value (example_document ''E'')) 1, Sse_event None (JStr ''x'') 1]
      new_transport)) = [stopped_report, stopped_report]" by code_simp
  moreover have "(case snd (on_events example_request [Sse_event None (doc_value (example_document ''E'')) 1, Sse_event None (JStr ''x'') 1]
      new_transport) of Returned \<Rightarrow> True | _ \<Rightarrow> False)" by code_simp
  ultimately show ?thesis by (auto simp: stream_events_def split: prod.splits loop_end.splits)
qed

theorem provider_stream_evidence_witness:
  "\<exists>outs failure env. parseCliProxySse (sw_codec example_world) (sw_limits example_world) (sw_aborted example_world) example_stream = Inr (outs, failure)
     \<and> settled_by example_request env (yielded outs) \<and> envelope_report env = stopped_report"
proof -
  have "stopped_report \<in> set (map reported (stream_events example_world example_request example_stream))"
    unfolding example_streamed by simp
  then obtain ev where ev: "ev \<in> set (stream_events example_world example_request example_stream)" "reported ev = stopped_report"
    by (metis (no_types, lifting) imageE list.set_map)
  then have "reported ev \<noteq> open_report" using stopped_report_settles by simp
  moreover have "providerStream example_world example_request example_stream = Inr (stream_events example_world example_request example_stream)"
  proof -
    have "positiveSafeInteger (jint DEFAULT_CLIPROXY_STREAM_IDLE_TIMEOUT_MS) = Inr 600000" by code_simp
    then show ?thesis by (simp add: providerStream_def example_world_def rbind_def)
  qed
  ultimately show ?thesis using provider_stream_evidence [OF example_in_flight _ ev(1)] ev(2) by metis
qed

end
