(* ===== verification/Billing_Books.thy ===== *)
theory Billing_Books
  imports Billing_Invocation Execution_Runs
begin

section \<open>The books of billing\<close>

text \<open>
  \<open>packages/billing/src/server.ts\<close> and \<open>invocation-contracts.ts\<close>: the tables in which the cost of a Provider
  attempt is claimed, reserved, charged and recorded, and the operations that write them. An operation is a
  step of a transaction, as in \<open>Request_Execution\<close>. Identifiers that \<open>createId\<close> draws are arguments; those of
  rows that nothing refers to are left out, and so are the amounts in dollars that repeat amounts in
  units: the conversion is modelled for what it refuses. The triggers on claims and reservations (migration
  \<open>20260824005000_modernization_04_billing_kernel_closure\<close>) and the unique keys are part of the model.
\<close>

subsection \<open>Rows\<close>

record billing_references =
  bf_requestId :: string
  bf_subscription :: string
  bf_apiKey :: string
  bf_user :: string

record budget_claim =
  bc_attempt :: string
  bc_planId :: string
  bc_refs :: billing_references
  bc_maxTokens :: int
  bc_maxCharge :: int
  bc_createdAt :: timestamp

text \<open>What the CPA prepared: the tokenizer and the evidence of the prepared payload.\<close>

record preparation =
  pz_tokenizerId :: string
  pz_tokenizerVersion :: int
  pz_evidenceId :: string
  pz_evidenceVersion :: int
  pz_payloadId :: string

datatype hold_status = Hold_active | Hold_reconciling | Hold_settled | Hold_released

record usage_reservation =
  ur_id :: string
  ur_attempt :: string
  ur_account :: string
  ur_requestId :: string
  ur_subscription :: string
  ur_user :: string
  ur_status :: hold_status
  ur_units :: int
  ur_held :: int
  ur_inputTokens :: int
  ur_maxOutputTokens :: int
  ur_preparation :: preparation
  ur_serviceTier :: string
  ur_priceSource :: string
  ur_priceId :: string
  ur_tierKey :: string
  ur_snapshotJson :: string
  ur_posting :: "string option"
  ur_createdAt :: timestamp
  ur_updatedAt :: timestamp

record credit_account =
  ca_id :: string
  ca_scope :: string
  ca_status :: string
  ca_balance :: int
  ca_snapEvent :: "string option"
  ca_updatedAt :: timestamp

record ledger_event =
  lv_id :: string
  lv_account :: string
  lv_type :: string
  lv_amount :: int
  lv_subscription :: "string option"
  lv_billingEvent :: "string option"
  lv_attempt :: "string option"
  lv_purchase :: "string option"
  lv_related :: "string option"
  lv_reason :: string
  lv_actor :: "string option"
  lv_createdAt :: timestamp

record usage_fact =
  uf_attempt :: string
  uf_refs :: billing_references
  uf_usage :: invocation_usage
  uf_actual :: int
  uf_snapshotJson :: string
  uf_occurredAt :: timestamp
  uf_settledAt :: timestamp
  uf_posting :: "string option"
  uf_billingEvent :: string

text \<open>A billing event and its history reference carry the same amounts and usage.\<close>

record billing_event =
  be_id :: string
  be_requestId :: string
  be_subscription :: string
  be_scopeRef :: string
  be_priceId :: string
  be_priceSource :: string
  be_tierKey :: string
  be_costId :: string
  be_costTierKey :: string
  be_usage :: invocation_usage
  be_units :: int
  be_costUnits :: int
  be_marginUnits :: int
  be_snapshotJson :: string
  be_costSnapshotJson :: string
  be_createdAt :: timestamp

record history_ref =
  hr_billingEvent :: string
  hr_requestId :: string
  hr_subscription :: string
  hr_scopeRef :: string
  hr_usage :: invocation_usage
  hr_units :: int
  hr_costUnits :: int
  hr_marginUnits :: int
  hr_costId :: string
  hr_occurredAt :: timestamp

record cost_event =
  pc_requestId :: string
  pc_attempt :: string
  pc_ownerScopeRef :: string
  pc_providerId :: string
  pc_modelName :: string
  pc_costId :: string
  pc_tierKey :: string
  pc_snapshotJson :: string
  pc_usage :: invocation_usage
  pc_units :: int
  pc_createdAt :: timestamp

record access_point_edge =
  ae_requestId :: string
  ae_edgeOrder :: nat
  ae_chainIndex :: nat
  ae_buyer :: string
  ae_seller :: string
  ae_accessPoint :: string
  ae_target :: "string option"
  ae_internal :: bool
  ae_priceId :: string
  ae_tierKey :: string
  ae_snapshotJson :: string
  ae_usage :: invocation_usage
  ae_units :: int
  ae_createdAt :: timestamp

datatype seller_event_type = Seller_revenue | Seller_upstream_cost

record seller_event =
  se_subscription :: string
  se_seller :: string
  se_windowStart :: timestamp
  se_windowEnd :: timestamp
  se_type :: seller_event_type
  se_units :: int
  se_sourceId :: string
  se_createdAt :: timestamp

record books =
  claims :: "budget_claim list"
  reservations :: "usage_reservation list"
  accounts :: "credit_account list"
  ledger :: "ledger_event list"
  facts :: "usage_fact list"
  billing_events :: "billing_event list"
  history_refs :: "history_ref list"
  cost_events :: "cost_event list"
  edges :: "access_point_edge list"
  seller_events :: "seller_event list"
  paygo_users :: "string list"

type_synonym 'a billing = "(books, 'a) tx"

definition find_claim :: "books \<Rightarrow> string \<Rightarrow> budget_claim option" where
  "find_claim b ref = List.find (\<lambda>c. bc_attempt c = ref) (claims b)"

definition find_reservation :: "books \<Rightarrow> string \<Rightarrow> usage_reservation option" where
  "find_reservation b ref = List.find (\<lambda>r. ur_attempt r = ref) (reservations b)"

definition find_fact :: "books \<Rightarrow> string \<Rightarrow> usage_fact option" where
  "find_fact b ref = List.find (\<lambda>f. uf_attempt f = ref) (facts b)"

definition find_account :: "books \<Rightarrow> string \<Rightarrow> credit_account option" where
  "find_account b aid = List.find (\<lambda>a. ca_id a = aid) (accounts b)"

subsection \<open>What an attempt keeps for billing\<close>

text \<open>
  The columns of an attempt that billing reads, by the names of the material that was persisted
  (\<open>readInvocationBillingAttemptSnapshot\<close> in \<open>provider-invocation/commands.ts\<close>). A 64-bit column is a number.
\<close>

definition frozen_text :: "attempt_row \<Rightarrow> string \<Rightarrow> string option" where
  "frozen_text a k = (case js_get (at_frozen a) k of JStr s \<Rightarrow> Some s | _ \<Rightarrow> None)"

definition frozen_int :: "attempt_row \<Rightarrow> string \<Rightarrow> int option" where
  "frozen_int a k = (case js_get (at_frozen a) k of JNum (JFin q) \<Rightarrow> Some \<lfloor>q\<rfloor> | _ \<Rightarrow> None)"

definition frozen_flag :: "attempt_row \<Rightarrow> string \<Rightarrow> bool" where
  "frozen_flag a k \<longleftrightarrow> js_get (at_frozen a) k = JBool True"

definition text_or_empty :: "string option \<Rightarrow> string" where
  "text_or_empty s = (case s of None \<Rightarrow> [] | Some t \<Rightarrow> t)"

record attempt_snapshot =
  sn_ref :: string
  sn_requestId :: string
  sn_startedAt :: timestamp
  sn_billingScopeRef :: string
  sn_planSellerScopeRef :: string
  sn_planBillingMode :: string
  sn_effectiveStart :: timestamp
  sn_providerOwnerScopeRef :: string
  sn_providerId :: string
  sn_providerModelName :: string
  sn_costId :: string
  sn_priceId :: string
  sn_priceSource :: string

record protected_snapshot = attempt_snapshot +
  sn_costTierKey :: string
  sn_costSnapshotJson :: string
  sn_tierKey :: string
  sn_snapshotJson :: string
  sn_accessPointPricesJson :: string

record claimless_snapshot = attempt_snapshot +
  sn_refs :: billing_references
  sn_account :: "string option"
  sn_serviceTier :: string
  sn_requireServiceTier :: bool
  sn_priceProfileJson :: string
  sn_costProfileJson :: string
  sn_accessPointProfilesJson :: string

datatype billing_attempt = Protected protected_snapshot | Claimless claimless_snapshot


definition contract_mismatch :: js_error where
  "contract_mismatch = RelayError ''provider_attempt_contract_mismatch'' 409 []"

definition required :: "'e \<Rightarrow> 'a option \<Rightarrow> 'e + 'a" where
  "required e v = (case v of None \<Rightarrow> Inl e | Some x \<Rightarrow> Inr x)"

definition column :: "attempt_row \<Rightarrow> string \<Rightarrow> string" where
  "column a k = text_or_empty (frozen_text a k)"

definition common_snapshot :: "attempt_row \<Rightarrow> attempt_snapshot" where
  "common_snapshot a =
     \<lparr>sn_ref = at_id a, sn_requestId = at_requestId a, sn_startedAt = at_startedAt a,
      sn_billingScopeRef = column a ''billingScopeRef'', sn_planSellerScopeRef = column a ''planSellerScopeRef'',
      sn_planBillingMode = column a ''planBillingMode'',
      sn_effectiveStart = (case frozen_int a ''subscriptionEffectiveStart'' of None \<Rightarrow> 0 | Some t \<Rightarrow> t),
      sn_providerOwnerScopeRef = column a ''providerOwnerScopeRef'',
      sn_providerId = fc_providerId (at_candidate a), sn_providerModelName = fc_providerModelName (at_candidate a),
      sn_costId = column a ''providerModelCostId'', sn_priceId = column a ''billablePriceId'',
      sn_priceSource = column a ''billablePriceSource''\<rparr>"

definition readInvocationBillingAttemptSnapshot :: "attempt_row \<Rightarrow> billing_attempt result" where
  "readInvocationBillingAttemptSnapshot a =
     (let c = common_snapshot a; need = (\<lambda>k. required contract_mismatch (frozen_text a k))
      in if at_invocationContract a = ''protected@1''
         then rbind (need ''providerCostTierKey'') (\<lambda>costTier.
              rbind (need ''providerCostSnapshotJson'') (\<lambda>cost.
              rbind (need ''billablePriceTierKey'') (\<lambda>tier.
              rbind (need ''billablePriceSnapshotJson'') (\<lambda>snapshot.
              rbind (need ''accessPointPriceSnapshotsJson'') (\<lambda>prices.
                Inr (Protected (attempt_snapshot.extend c \<lparr>sn_costTierKey = costTier, sn_costSnapshotJson = cost,
                       sn_tierKey = tier, sn_snapshotJson = snapshot, sn_accessPointPricesJson = prices\<rparr>)))))))
         else if at_invocationContract a = ''cpa-basic@1''
         then rbind (need ''planSubscriptionId'') (\<lambda>sub.
              rbind (need ''apiKeyId'') (\<lambda>key.
              rbind (need ''userId'') (\<lambda>user.
              rbind (need ''billablePriceProfileJson'') (\<lambda>price.
              rbind (need ''providerCostProfileJson'') (\<lambda>cost.
              rbind (need ''accessPointPriceProfilesJson'') (\<lambda>profiles.
                Inr (Claimless (attempt_snapshot.extend c
                  \<lparr>sn_refs = \<lparr>bf_requestId = at_requestId a, bf_subscription = sub, bf_apiKey = key, bf_user = user\<rparr>,
                   sn_account = frozen_text a ''usageChargeAccountId'',
                   sn_serviceTier = column a ''requestedServiceTier'', sn_requireServiceTier = frozen_flag a ''requireServiceTier'',
                   sn_priceProfileJson = price, sn_costProfileJson = cost, sn_accessPointProfilesJson = profiles\<rparr>))))))))
         else Inl contract_mismatch)"

subsection \<open>Frozen prices of the path\<close>

record price_context =
  px_accessPoint :: string
  px_target :: "string option"
  px_buyer :: string
  px_seller :: string
  px_priceId :: string

record frozen_evidence = price_context +
  fe_tierKey :: string
  fe_snapshotJson :: string

definition nullable_text :: "jsval \<Rightarrow> string option option" where
  "nullable_text v = (case v of JNull \<Rightarrow> Some None | JStr s \<Rightarrow> Some (Some s) | _ \<Rightarrow> None)"

definition parse_evidence :: "jsval \<Rightarrow> frozen_evidence result" where
  "parse_evidence item =
     (case item of
        JObj r \<Rightarrow>
          (case (js_get r ''accessPointId'', js_get r ''buyerScopeRef'', js_get r ''sellerScopeRef'', js_get r ''priceId'',
                 js_get r ''tierKey'', js_get r ''snapshotJson'', nullable_text (js_get r ''targetAccessPointId'')) of
             (JStr ap, JStr buyer, JStr seller, JStr price, JStr tier, JStr snapshot, Some target) \<Rightarrow>
               rbind (parseFrozenPriceUnits snapshot) (\<lambda>_.
                 Inr \<lparr>px_accessPoint = ap, px_target = target, px_buyer = buyer, px_seller = seller, px_priceId = price,
                      fe_tierKey = tier, fe_snapshotJson = snapshot\<rparr>)
           | _ \<Rightarrow> relay ''invalid_price_snapshot'' 500)
      | _ \<Rightarrow> relay ''invalid_price_snapshot'' 500)"

definition parseFrozenAccessPointPrices :: "string \<Rightarrow> frozen_evidence list result" where
  "parseFrozenAccessPointPrices text =
     (case json_parse text of
        Some (JArr items) \<Rightarrow> traverse parse_evidence items
      | _ \<Rightarrow> relay ''invalid_price_snapshot'' 500)"

definition select_evidence ::
  "(string \<Rightarrow> string \<Rightarrow> int) \<Rightarrow> int \<Rightarrow> string \<Rightarrow> bool \<Rightarrow> jsval \<Rightarrow> frozen_evidence result" where
  "select_evidence lc tokens tier requireTier item =
     (case item of
        JObj r \<Rightarrow>
          (case (js_get r ''accessPointId'', js_get r ''buyerScopeRef'', js_get r ''sellerScopeRef'', js_get r ''priceId'',
                 js_get r ''profileJson'', nullable_text (js_get r ''targetAccessPointId'')) of
             (JStr ap, JStr buyer, JStr seller, JStr price, JStr profile, Some target) \<Rightarrow>
               rbind (selectFrozenPriceProfile lc profile tokens tier requireTier) (\<lambda>sel.
                 Inr \<lparr>px_accessPoint = ap, px_target = target, px_buyer = buyer, px_seller = seller, px_priceId = price,
                      fe_tierKey = sp_tierKey sel, fe_snapshotJson = sp_snapshotJson sel\<rparr>)
           | _ \<Rightarrow> relay ''invalid_price_profile'' 500)
      | _ \<Rightarrow> relay ''invalid_price_profile'' 500)"

definition selectClaimlessAccessPointPrices ::
  "(string \<Rightarrow> string \<Rightarrow> int) \<Rightarrow> claimless_snapshot \<Rightarrow> int \<Rightarrow> frozen_evidence list result" where
  "selectClaimlessAccessPointPrices lc a tokens =
     (case json_parse (sn_accessPointProfilesJson a) of
        Some (JArr items) \<Rightarrow> traverse (select_evidence lc tokens (sn_serviceTier a) (sn_requireServiceTier a)) items
      | _ \<Rightarrow> relay ''invalid_price_profile'' 500)"

text \<open>Whether one of the snapshots has no price for writes to the cache; the first one found ends the search.\<close>

fun some_unpriced_write :: "string list \<Rightarrow> bool result" where
  "some_unpriced_write [] = Inr False"
| "some_unpriced_write (x # xs) =
     rbind (parseFrozenPriceUnits x) (\<lambda>p. if cacheWritePriceUnitsPer1M p = None then Inr True else some_unpriced_write xs)"

definition assertCacheWritePriceAvailable :: "invocation_usage \<Rightarrow> string list \<Rightarrow> unit result" where
  "assertCacheWritePriceAvailable u snapshots =
     (if cacheWriteTokens u \<le> 0 then Inr ()
      else rbind (some_unpriced_write snapshots) (\<lambda>unpriced.
             if unpriced then relay ''unexpected_cache_write_usage'' 500 else Inr ()))"

definition assertReleasedUsageIsZero :: "invocation_usage \<Rightarrow> unit result" where
  "assertReleasedUsageIsZero u =
     (if inputTokens u \<noteq> 0 \<or> cachedInputTokens u \<noteq> 0 \<or> cacheWriteTokens u \<noteq> 0 \<or> outputTokens u \<noteq> 0 \<or> totalTokens u \<noteq> 0
      then relay ''released_reservation_requires_zero_usage'' 409 else Inr ())"

text \<open>The dollars of an amount must be exact enough: its units are a safe integer.\<close>

definition unitsToCompatibilityUsd :: "int \<Rightarrow> unit result" where
  "unitsToCompatibilityUsd units = require (is_safe_int units) (RelayError ''invalid_credit_units'' 500 [])"

definition sellerSettlementWindow :: "timestamp \<Rightarrow> timestamp \<Rightarrow> (timestamp \<times> timestamp) result" where
  "sellerSettlementWindow effectiveStart occurred =
     (let size = 2592000000; index = max 0 ((occurred - effectiveStart) div size);
          end = effectiveStart + (index + 1) * size
      in if end > MAX_DATE then plain ''RangeError'' else Inr (effectiveStart + index * size, end))"

subsection \<open>Accounts\<close>

record locked_account =
  la_id :: string
  la_status :: string
  la_balance :: int

definition lock_of :: "credit_account \<Rightarrow> locked_account" where
  "lock_of a = \<lparr>la_id = ca_id a, la_status = ca_status a, la_balance = ca_balance a\<rparr>"

definition lockCreditAccount :: "books \<Rightarrow> string \<Rightarrow> locked_account option" where
  "lockCreditAccount b aid = map_option lock_of (find_account b aid)"

definition lockUserCreditAccountIfPresent :: "books \<Rightarrow> string \<Rightarrow> locked_account option" where
  "lockUserCreditAccountIfPresent b user =
     map_option lock_of (List.find (\<lambda>a. ca_scope a = ''user:'' @ user) (accounts b))"

definition lockPaygoUser :: "books \<Rightarrow> string \<Rightarrow> unit result" where
  "lockPaygoUser b user = require (user \<in> set (paygo_users b)) (RelayError ''request_execution_not_found'' 409 [])"

text \<open>An identifier that is given; the empty text counts as none.\<close>

fun given :: "string option \<Rightarrow> string option" where
  "given (Some (c # cs)) = Some (c # cs)"
| "given _ = None"

definition lockInvocationBillingAdmissionFunding :: "string option \<Rightarrow> string \<Rightarrow> books \<Rightarrow> locked_account option result" where
  "lockInvocationBillingAdmissionFunding chargeAccount user b =
     (let account = (case given chargeAccount of None \<Rightarrow> lockUserCreditAccountIfPresent b user | Some aid \<Rightarrow> lockCreditAccount b aid)
      in if (case account of None \<Rightarrow> False | Some a \<Rightarrow> la_balance a < 0) then relay ''negative_credit_balance'' 402
         else case given chargeAccount of
                None \<Rightarrow> Inr account
              | Some aid \<Rightarrow>
                  (case account of
                     None \<Rightarrow> relay ''usage_charge_account_not_found'' 402
                   | Some a \<Rightarrow>
                       if la_id a \<noteq> aid \<or> la_status a \<noteq> ''active'' then relay ''usage_charge_account_not_found'' 402
                       else rbind (lockPaygoUser b user) (\<lambda>_. Inr (Some a))))"

definition lockInvocationBillingSettlementAccount :: "attempt_row option \<Rightarrow> string \<Rightarrow> books \<Rightarrow> locked_account option" where
  "lockInvocationBillingSettlementAccount attempt ref b =
     (case find_reservation b ref of
        Some r \<Rightarrow> lockCreditAccount b (ur_account r)
      | None \<Rightarrow>
          (case attempt of
             None \<Rightarrow> None
           | Some a \<Rightarrow>
               if at_invocationContract a = ''cpa-basic@1''
               then (case given (frozen_text a ''usageChargeAccountId'') of None \<Rightarrow> None | Some aid \<Rightarrow> lockCreditAccount b aid)
               else None))"

definition is_open :: "usage_reservation \<Rightarrow> bool" where
  "is_open r \<longleftrightarrow> ur_status r = Hold_active \<or> ur_status r = Hold_reconciling"

definition held_units :: "books \<Rightarrow> string \<Rightarrow> int" where
  "held_units b aid = sum_list (map ur_held (filter (\<lambda>r. ur_account r = aid \<and> is_open r) (reservations b)))"

definition open_for_user :: "books \<Rightarrow> string \<Rightarrow> int" where
  "open_for_user b user = int (length (filter (\<lambda>r. ur_user r = user \<and> is_open r) (reservations b)))"

definition assertInvocationBillingCapacity :: "int \<Rightarrow> locked_account \<Rightarrow> string \<Rightarrow> int \<Rightarrow> books \<Rightarrow> unit result" where
  "assertInvocationBillingCapacity limit account user requiredUnits b =
     (let held = held_units b (la_id account); spendable = la_balance account - held
      in if spendable < requiredUnits
         then Inl (RelayError ''insufficient_credit_reservation'' 402
                [(''balanceUnits'', JStr (int_text (la_balance account))), (''activeHeldUnits'', JStr (int_text held)),
                 (''requiredReservationUnits'', JStr (int_text requiredUnits))])
         else if open_for_user b user \<ge> limit
         then Inl (RelayError ''paygo_concurrency_limit_exceeded'' 429 [(''limit'', jint limit)])
         else Inr ())"


subsection \<open>Triggers and unique keys\<close>

definition check_error :: js_error where
  "check_error = PlainError ''23514''"

text \<open>\<open>attempt\<close> is the row of the attempts table that the trigger reads.\<close>

definition claim_insert_allowed :: "attempt_row option \<Rightarrow> budget_claim \<Rightarrow> bool" where
  "claim_insert_allowed attempt c \<longleftrightarrow>
     (case attempt of
        None \<Rightarrow> False
      | Some a \<Rightarrow> at_invocationContract a = ''protected@1'' \<and> bc_createdAt c = at_startedAt a
                  \<and> \<not> (bc_maxTokens c \<le> 0 \<or> bc_maxCharge c < 0))"

definition preparation_of :: "attempt_row \<Rightarrow> preparation option" where
  "preparation_of a =
     (case (frozen_text a ''tokenizerId'', frozen_int a ''tokenizerVersion'', frozen_text a ''preparationEvidenceId'',
            frozen_int a ''preparationEvidenceVersion'', frozen_text a ''preparedPayloadId'') of
        (Some tid, Some tv, Some eid, Some ev, Some pid) \<Rightarrow>
          Some \<lparr>pz_tokenizerId = tid, pz_tokenizerVersion = tv, pz_evidenceId = eid, pz_evidenceVersion = ev, pz_payloadId = pid\<rparr>
      | _ \<Rightarrow> None)"

definition reservation_insert_allowed :: "attempt_row option \<Rightarrow> usage_reservation \<Rightarrow> bool" where
  "reservation_insert_allowed attempt r \<longleftrightarrow>
     (case attempt of
        None \<Rightarrow> False
      | Some a \<Rightarrow> at_invocationContract a = ''protected@1'' \<and> ur_createdAt r = at_startedAt a
                  \<and> frozen_int a ''inputTokens'' = Some (ur_inputTokens r)
                  \<and> frozen_int a ''maxOutputTokens'' = Some (ur_maxOutputTokens r)
                  \<and> preparation_of a = Some (ur_preparation r)
                  \<and> ur_status r = Hold_active \<and> \<not> ur_units r < 0 \<and> ur_held r = ur_units r)"

fun hold_transition :: "hold_status \<Rightarrow> hold_status \<Rightarrow> bool" where
  "hold_transition Hold_active _ = True"
| "hold_transition Hold_reconciling s = (s \<noteq> Hold_active)"
| "hold_transition _ _ = False"

definition is_ended :: "hold_status \<Rightarrow> bool" where
  "is_ended s \<longleftrightarrow> s = Hold_settled \<or> s = Hold_released"

definition zero_usage :: "invocation_usage \<Rightarrow> bool" where
  "zero_usage u \<longleftrightarrow> inputTokens u = 0 \<and> cachedInputTokens u = 0 \<and> cacheWriteTokens u = 0 \<and> outputTokens u = 0 \<and> totalTokens u = 0"

text \<open>The update of a reservation, which changes its status, its hold, its posting and its update time.\<close>

definition reservation_update_allowed :: "usage_fact option \<Rightarrow> usage_reservation \<Rightarrow> usage_reservation \<Rightarrow> bool" where
  "reservation_update_allowed final old new \<longleftrightarrow>
     \<not> is_ended (ur_status old) \<and> hold_transition (ur_status old) (ur_status new)
     \<and> \<not> (ur_held new < 0 \<or> ur_held new > ur_units new \<or> (is_ended (ur_status new) \<and> ur_held new \<noteq> 0))
     \<and> (is_ended (ur_status new) \<longrightarrow>
          (case final of
             None \<Rightarrow> False
           | Some f \<Rightarrow> ur_posting new = uf_posting f
               \<and> (ur_status new = Hold_released \<longrightarrow> zero_usage (uf_usage f) \<and> uf_actual f = 0 \<and> uf_posting f = None)))"

definition insert_claim :: "attempt_row option \<Rightarrow> budget_claim \<Rightarrow> unit billing" where
  "insert_claim attempt c b =
     (if \<not> claim_insert_allowed attempt c then Inl check_error
      else if find_claim b (bc_attempt c) \<noteq> None then Inl unique_error
      else Inr ((), b\<lparr>claims := claims b @ [c]\<rparr>))"

definition delete_claim :: "string \<Rightarrow> unit billing" where
  "delete_claim ref b =
     (case find_claim b ref of
        None \<Rightarrow> Inl missing_row
      | Some c \<Rightarrow>
          if find_fact b ref = None then Inl trigger_error
          else Inr ((), b\<lparr>claims := filter (\<lambda>c. bc_attempt c \<noteq> ref) (claims b)\<rparr>))"

definition insert_reservation :: "attempt_row option \<Rightarrow> usage_reservation \<Rightarrow> unit billing" where
  "insert_reservation attempt r b =
     (if \<not> reservation_insert_allowed attempt r then Inl check_error
      else if list_ex (\<lambda>x. ur_id x = ur_id r \<or> ur_attempt x = ur_attempt r) (reservations b) then Inl unique_error
      else Inr ((), b\<lparr>reservations := reservations b @ [r]\<rparr>))"

definition update_reservation :: "string \<Rightarrow> (usage_reservation \<Rightarrow> usage_reservation) \<Rightarrow> unit billing" where
  "update_reservation rid f b =
     (case List.find (\<lambda>r. ur_id r = rid) (reservations b) of
        None \<Rightarrow> Inl missing_row
      | Some old \<Rightarrow>
          if \<not> reservation_update_allowed (find_fact b (ur_attempt old)) old (f old) then Inl trigger_error
          else Inr ((), b\<lparr>reservations := map (\<lambda>r. if ur_id r = rid then f r else r) (reservations b)\<rparr>))"

definition insert_ledger_event :: "ledger_event \<Rightarrow> unit billing" where
  "insert_ledger_event e b =
     (if list_ex (\<lambda>x. lv_id x = lv_id e
            \<or> lv_type e = ''usage_charge'' \<and> lv_type x = ''usage_charge'' \<and> lv_attempt e \<noteq> None \<and> lv_attempt x = lv_attempt e
            \<or> lv_type e \<in> {''authority_purchase'', ''reversal''} \<and> lv_type x = lv_type e \<and> lv_purchase e \<noteq> None
              \<and> lv_purchase x = lv_purchase e) (ledger b)
      then Inl unique_error else Inr ((), b\<lparr>ledger := ledger b @ [e]\<rparr>))"

definition update_account :: "string \<Rightarrow> (credit_account \<Rightarrow> credit_account) \<Rightarrow> unit billing" where
  "update_account aid f b =
     (if find_account b aid = None then Inl missing_row
      else Inr ((), b\<lparr>accounts := map (\<lambda>a. if ca_id a = aid then f a else a) (accounts b)\<rparr>))"

definition insert_fact :: "usage_fact \<Rightarrow> unit billing" where
  "insert_fact f b =
     (if list_ex (\<lambda>x. uf_attempt x = uf_attempt f \<or> uf_billingEvent x = uf_billingEvent f) (facts b) then Inl unique_error
      else Inr ((), b\<lparr>facts := facts b @ [f]\<rparr>))"

definition insert_billing_event :: "billing_event \<Rightarrow> unit billing" where
  "insert_billing_event e b =
     (if list_ex (\<lambda>x. be_id x = be_id e) (billing_events b) then Inl unique_error
      else Inr ((), b\<lparr>billing_events := billing_events b @ [e]\<rparr>))"

definition insert_history_ref :: "history_ref \<Rightarrow> unit billing" where
  "insert_history_ref h b =
     (if list_ex (\<lambda>x. hr_billingEvent x = hr_billingEvent h) (history_refs b) then Inl unique_error
      else Inr ((), b\<lparr>history_refs := history_refs b @ [h]\<rparr>))"

definition insert_cost_event :: "cost_event \<Rightarrow> unit billing" where
  "insert_cost_event e b =
     (if list_ex (\<lambda>x. pc_attempt x = pc_attempt e) (cost_events b) then Inl unique_error
      else Inr ((), b\<lparr>cost_events := cost_events b @ [e]\<rparr>))"

definition insert_edge :: "access_point_edge \<Rightarrow> unit billing" where
  "insert_edge e b = Inr ((), b\<lparr>edges := edges b @ [e]\<rparr>)"

definition insert_seller_event :: "seller_event \<Rightarrow> unit billing" where
  "insert_seller_event e b =
     (if list_ex (\<lambda>x. se_type x = se_type e \<and> se_sourceId x = se_sourceId e \<and> se_windowStart x = se_windowStart e) (seller_events b)
      then Inl unique_error else Inr ((), b\<lparr>seller_events := seller_events b @ [e]\<rparr>))"

definition tx_lift :: "'a result \<Rightarrow> ('s, 'a) tx" where
  "tx_lift r b = rbind r (\<lambda>x. Inr (x, b))"

lemma tx_lift_Inr [effects]: "tx_lift r b = Inr (x, b') \<longleftrightarrow> r = Inr x \<and> b' = b"
  by (auto simp: tx_lift_def effects)

lemma tx_lift_Inl [effects]: "tx_lift r b = Inl e \<longleftrightarrow> r = Inl e"
  by (auto simp: tx_lift_def effects)

subsection \<open>The occupation of an attempt\<close>

record occupation_input =
  oc_ref :: string
  oc_planId :: string
  oc_refs :: billing_references
  oc_maxTokens :: int
  oc_maxCharge :: int
  oc_account :: "string option"
  oc_inputTokens :: int
  oc_maxOutputTokens :: int
  oc_preparation :: preparation
  oc_serviceTier :: string
  oc_priceSource :: string
  oc_priceId :: string
  oc_tierKey :: string
  oc_snapshotJson :: string
  oc_createdAt :: timestamp

definition boundedEvidenceIdentity :: "string \<Rightarrow> bool" where
  "boundedEvidenceIdentity v \<longleftrightarrow> 1 \<le> length v \<and> length v \<le> 256"

definition claim_of :: "occupation_input \<Rightarrow> budget_claim" where
  "claim_of i =
     \<lparr>bc_attempt = oc_ref i, bc_planId = oc_planId i, bc_refs = oc_refs i, bc_maxTokens = oc_maxTokens i,
      bc_maxCharge = oc_maxCharge i, bc_createdAt = oc_createdAt i\<rparr>"

definition reservation_of :: "occupation_input \<Rightarrow> string \<Rightarrow> string \<Rightarrow> usage_reservation" where
  "reservation_of i account freshId =
     \<lparr>ur_id = freshId, ur_attempt = oc_ref i, ur_account = account,
      ur_requestId = bf_requestId (oc_refs i), ur_subscription = bf_subscription (oc_refs i), ur_user = bf_user (oc_refs i),
      ur_status = Hold_active, ur_units = oc_maxCharge i, ur_held = oc_maxCharge i,
      ur_inputTokens = oc_inputTokens i, ur_maxOutputTokens = oc_maxOutputTokens i, ur_preparation = oc_preparation i,
      ur_serviceTier = oc_serviceTier i, ur_priceSource = oc_priceSource i, ur_priceId = oc_priceId i,
      ur_tierKey = oc_tierKey i, ur_snapshotJson = oc_snapshotJson i, ur_posting = None,
      ur_createdAt = oc_createdAt i, ur_updatedAt = oc_createdAt i\<rparr>"

definition createInvocationBillingOccupation ::
  "attempt_row option \<Rightarrow> occupation_input \<Rightarrow> string \<Rightarrow> string option billing" where
  "createInvocationBillingOccupation attempt i freshId =
     (if oc_maxOutputTokens i < 1 \<or> \<not> boundedEvidenceIdentity (pz_evidenceId (oc_preparation i))
         \<or> \<not> is_safe_int (pz_evidenceVersion (oc_preparation i)) \<or> pz_evidenceVersion (oc_preparation i) < 1
         \<or> \<not> boundedEvidenceIdentity (pz_payloadId (oc_preparation i))
      then tx_throw (RelayError ''invalid_cpa_preparation_evidence'' 400 [])
      else tx_bind (insert_claim attempt (claim_of i)) (\<lambda>_.
           case given (oc_account i) of
             None \<Rightarrow> tx_return None
           | Some account \<Rightarrow>
               tx_bind (insert_reservation attempt (reservation_of i account freshId)) (\<lambda>_. tx_return (Some freshId))))"

subsection \<open>Settlement\<close>

datatype zero_outcome = Outcome_settled | Outcome_released

record settlement_result =
  rs_actual :: int
  rs_posting :: "string option"
  rs_billingEvent :: string
  rs_replayed :: bool

definition same_usage :: "invocation_usage \<Rightarrow> invocation_usage \<Rightarrow> bool" where
  "same_usage u v \<longleftrightarrow>
     inputTokens u = inputTokens v \<and> cachedInputTokens u = cachedInputTokens v \<and> cacheWriteTokens u = cacheWriteTokens v
     \<and> outputTokens u = outputTokens v \<and> totalTokens u = totalTokens v \<and> usageSource u = usageSource v"

text \<open>What is written for a charge: the entry of the ledger, and the balance that the lock has read, less the charge.\<close>

definition usage_charge_entry ::
  "locked_account \<Rightarrow> int \<Rightarrow> string \<Rightarrow> string \<Rightarrow> string \<Rightarrow> string option \<Rightarrow> timestamp \<Rightarrow> string \<Rightarrow> ledger_event" where
  "usage_charge_entry a charge eventId ref sub actor settledAt ledgerId =
     \<lparr>lv_id = ledgerId, lv_account = la_id a, lv_type = ''usage_charge'', lv_amount = - charge, lv_subscription = Some sub,
      lv_billingEvent = Some eventId, lv_attempt = Some ref, lv_purchase = None, lv_related = None, lv_reason = ''provider_attempt:'' @ ref, lv_actor = actor,
      lv_createdAt = settledAt\<rparr>"

definition charged_account :: "locked_account \<Rightarrow> int \<Rightarrow> timestamp \<Rightarrow> string \<Rightarrow> credit_account \<Rightarrow> credit_account" where
  "charged_account a charge settledAt ledgerId x =
     x\<lparr>ca_balance := la_balance a - charge, ca_snapEvent := Some ledgerId, ca_updatedAt := settledAt\<rparr>"

definition appendUsageCharge ::
  "locked_account option \<Rightarrow> int \<Rightarrow> string \<Rightarrow> string \<Rightarrow> string \<Rightarrow> string option \<Rightarrow> timestamp \<Rightarrow> string \<Rightarrow> string billing" where
  "appendUsageCharge account charge eventId ref sub actor settledAt ledgerId =
     (case account of
        None \<Rightarrow> tx_throw (RelayError ''credit_account_not_found'' 409 [])
      | Some a \<Rightarrow>
          tx_bind (insert_ledger_event (usage_charge_entry a charge eventId ref sub actor settledAt ledgerId)) (\<lambda>_.
          tx_bind (update_account (la_id a) (charged_account a charge settledAt ledgerId)) (\<lambda>_. tx_return ledgerId)))"

record final_facts =
  ff_eventId :: string
  ff_refs :: billing_references
  ff_usage :: invocation_usage
  ff_actual :: int
  ff_cost :: int
  ff_tierKey :: string
  ff_snapshotJson :: string
  ff_costTierKey :: string
  ff_costSnapshotJson :: string
  ff_prices :: "frozen_evidence list"

fun insert_edges :: "'a attempt_snapshot_scheme \<Rightarrow> final_facts \<Rightarrow> nat \<Rightarrow> frozen_evidence list \<Rightarrow> unit billing" where
  "insert_edges a i index [] = tx_return ()"
| "insert_edges a i index (p # ps) =
     tx_bind (tx_lift (rbind (parseFrozenPriceUnits (fe_snapshotJson p)) (actualInvocationChargeUnits (ff_usage i)))) (\<lambda>units.
     tx_bind (tx_lift (unitsToCompatibilityUsd units)) (\<lambda>_.
     tx_bind (insert_edge \<lparr>ae_requestId = bf_requestId (ff_refs i), ae_edgeOrder = index + 1, ae_chainIndex = index,
        ae_buyer = px_buyer p, ae_seller = px_seller p, ae_accessPoint = px_accessPoint p, ae_target = px_target p,
        ae_internal = (px_buyer p = px_seller p), ae_priceId = px_priceId p, ae_tierKey = fe_tierKey p,
        ae_snapshotJson = fe_snapshotJson p, ae_usage = ff_usage i, ae_units = units, ae_createdAt = sn_startedAt a\<rparr>) (\<lambda>_.
       insert_edges a i (index + 1) ps)))"

definition insertSellerSettlement ::
  "string \<Rightarrow> string \<Rightarrow> string \<Rightarrow> seller_event_type \<Rightarrow> int \<Rightarrow> timestamp \<times> timestamp \<Rightarrow> timestamp \<Rightarrow> unit billing" where
  "insertSellerSettlement eventId sub seller type units w createdAt =
     insert_seller_event \<lparr>se_subscription = sub, se_seller = seller, se_windowStart = fst w, se_windowEnd = snd w,
       se_type = type, se_units = units, se_sourceId = eventId, se_createdAt = createdAt\<rparr>"


text \<open>The rows of an attempt's charge and cost.\<close>

definition billing_event_of :: "'a attempt_snapshot_scheme \<Rightarrow> final_facts \<Rightarrow> billing_event" where
  "billing_event_of a i =
     \<lparr>be_id = ff_eventId i, be_requestId = bf_requestId (ff_refs i), be_subscription = bf_subscription (ff_refs i),
      be_scopeRef = sn_billingScopeRef a, be_priceId = sn_priceId a, be_priceSource = sn_priceSource a,
      be_tierKey = ff_tierKey i, be_costId = sn_costId a, be_costTierKey = ff_costTierKey i, be_usage = ff_usage i,
      be_units = ff_actual i, be_costUnits = ff_cost i, be_marginUnits = ff_actual i - ff_cost i,
      be_snapshotJson = ff_snapshotJson i, be_costSnapshotJson = ff_costSnapshotJson i, be_createdAt = sn_startedAt a\<rparr>"

definition history_ref_of :: "'a attempt_snapshot_scheme \<Rightarrow> final_facts \<Rightarrow> history_ref" where
  "history_ref_of a i =
     \<lparr>hr_billingEvent = ff_eventId i, hr_requestId = bf_requestId (ff_refs i), hr_subscription = bf_subscription (ff_refs i),
      hr_scopeRef = sn_billingScopeRef a, hr_usage = ff_usage i, hr_units = ff_actual i, hr_costUnits = ff_cost i,
      hr_marginUnits = ff_actual i - ff_cost i, hr_costId = sn_costId a, hr_occurredAt = sn_startedAt a\<rparr>"

definition cost_event_of :: "'a attempt_snapshot_scheme \<Rightarrow> final_facts \<Rightarrow> cost_event" where
  "cost_event_of a i =
     \<lparr>pc_requestId = bf_requestId (ff_refs i), pc_attempt = sn_ref a, pc_ownerScopeRef = sn_providerOwnerScopeRef a,
      pc_providerId = sn_providerId a, pc_modelName = sn_providerModelName a, pc_costId = sn_costId a,
      pc_tierKey = ff_costTierKey i, pc_snapshotJson = ff_costSnapshotJson i, pc_usage = ff_usage i, pc_units = ff_cost i,
      pc_createdAt = sn_startedAt a\<rparr>"

definition insert_seller_revenue :: "'a attempt_snapshot_scheme \<Rightarrow> final_facts \<Rightarrow> timestamp \<times> timestamp \<Rightarrow> unit billing" where
  "insert_seller_revenue a i w =
     (if sn_planBillingMode a = ''paygo'' \<and> ff_actual i > 0
      then insertSellerSettlement (ff_eventId i) (bf_subscription (ff_refs i)) (sn_planSellerScopeRef a) Seller_revenue
             (ff_actual i) w (sn_startedAt a)
      else tx_return ())"

definition insert_upstream_cost :: "'a attempt_snapshot_scheme \<Rightarrow> final_facts \<Rightarrow> timestamp \<times> timestamp \<Rightarrow> unit billing" where
  "insert_upstream_cost a i w =
     (case ff_prices i of
        [] \<Rightarrow> tx_return ()
      | entry # _ \<Rightarrow>
          if px_seller entry = sn_planSellerScopeRef a then tx_return ()
          else tx_bind (tx_lift (rbind (parseFrozenPriceUnits (fe_snapshotJson entry)) (actualInvocationChargeUnits (ff_usage i)))) (\<lambda>units.
                 if units > 0
                 then insertSellerSettlement (ff_eventId i) (bf_subscription (ff_refs i)) (sn_planSellerScopeRef a)
                        Seller_upstream_cost units w (sn_startedAt a)
                 else tx_return ()))"

definition createFinalBillingFacts :: "'a attempt_snapshot_scheme \<Rightarrow> final_facts \<Rightarrow> unit billing" where
  "createFinalBillingFacts a i =
     tx_bind (tx_lift (unitsToCompatibilityUsd (ff_actual i))) (\<lambda>_.
     tx_bind (tx_lift (unitsToCompatibilityUsd (ff_cost i))) (\<lambda>_.
     tx_bind (tx_lift (unitsToCompatibilityUsd (ff_actual i - ff_cost i))) (\<lambda>_.
     tx_bind (insert_billing_event (billing_event_of a i)) (\<lambda>_.
     tx_bind (insert_history_ref (history_ref_of a i)) (\<lambda>_.
     tx_bind (insert_cost_event (cost_event_of a i)) (\<lambda>_.
     tx_bind (insert_edges a i 0 (ff_prices i)) (\<lambda>_.
     tx_bind (tx_lift (sellerSettlementWindow (sn_effectiveStart a) (sn_startedAt a))) (\<lambda>w.
     tx_bind (insert_seller_revenue a i w) (\<lambda>_.
       insert_upstream_cost a i w)))))))))"

text \<open>A settlement command; \<open>st_eventId\<close> and \<open>st_ledgerId\<close> are the identifiers it draws.\<close>

record settle_input =
  st_ref :: string
  st_usage :: invocation_usage
  st_outcome :: zero_outcome
  st_settledAt :: timestamp
  st_account :: "locked_account option"
  st_eventId :: string
  st_ledgerId :: string

definition charge_of :: "zero_outcome \<Rightarrow> invocation_usage \<Rightarrow> string \<Rightarrow> int result" where
  "charge_of outcome u snapshot =
     (if outcome = Outcome_released then Inr 0
      else rbind (parseFrozenPriceUnits snapshot) (actualInvocationChargeUnits u))"

definition fact_of :: "settle_input \<Rightarrow> billing_references \<Rightarrow> int \<Rightarrow> string \<Rightarrow> timestamp \<Rightarrow> string option \<Rightarrow> usage_fact" where
  "fact_of i refs charge snapshot occurredAt posting =
     \<lparr>uf_attempt = st_ref i, uf_refs = refs, uf_usage = st_usage i, uf_actual = charge, uf_snapshotJson = snapshot,
      uf_occurredAt = occurredAt, uf_settledAt = st_settledAt i, uf_posting = posting, uf_billingEvent = st_eventId i\<rparr>"

definition settled_with :: "settle_input \<Rightarrow> int \<Rightarrow> string option \<Rightarrow> settlement_result" where
  "settled_with i charge posting =
     \<lparr>rs_actual = charge, rs_posting = posting, rs_billingEvent = st_eventId i, rs_replayed = False\<rparr>"

definition post_charge :: "bool \<Rightarrow> settle_input \<Rightarrow> int \<Rightarrow> string \<Rightarrow> string option \<Rightarrow> string option billing" where
  "post_charge charged i charge sub actor =
     (if charged
      then tx_bind (appendUsageCharge (st_account i) charge (st_eventId i) (st_ref i) sub actor (st_settledAt i) (st_ledgerId i))
             (\<lambda>l. tx_return (Some l))
      else tx_return None)"

definition ended_reservation :: "settle_input \<Rightarrow> string option \<Rightarrow> usage_reservation \<Rightarrow> usage_reservation" where
  "ended_reservation i posting x =
     x\<lparr>ur_status := (if st_outcome i = Outcome_released then Hold_released else Hold_settled), ur_held := 0,
       ur_posting := posting, ur_updatedAt := st_settledAt i\<rparr>"

definition end_reservation :: "settle_input \<Rightarrow> string option \<Rightarrow> usage_reservation option \<Rightarrow> unit billing" where
  "end_reservation i posting reservation =
     (case reservation of
        None \<Rightarrow> tx_return ()
      | Some r \<Rightarrow> update_reservation (ur_id r) (ended_reservation i posting))"

definition settleProtectedInvocationBilling :: "protected_snapshot \<Rightarrow> settle_input \<Rightarrow> settlement_result billing" where
  "settleProtectedInvocationBilling a i b =
     (case find_claim b (st_ref i) of
        None \<Rightarrow> relay ''provider_attempt_budget_claim_missing'' 409
      | Some claim \<Rightarrow>
          (let reservation = find_reservation b (st_ref i);
               snapshot = (case reservation of None \<Rightarrow> sn_snapshotJson a | Some r \<Rightarrow> ur_snapshotJson r);
               refs = bc_refs claim
           in tx_bind (tx_lift (if st_outcome i = Outcome_released then assertReleasedUsageIsZero (st_usage i) else Inr ())) (\<lambda>_.
              tx_bind (tx_lift (parseFrozenAccessPointPrices (sn_accessPointPricesJson a))) (\<lambda>prices.
              tx_bind (tx_lift (assertCacheWritePriceAvailable (st_usage i)
                         (snapshot # sn_costSnapshotJson a # map fe_snapshotJson prices))) (\<lambda>_.
              tx_bind (tx_lift (charge_of (st_outcome i) (st_usage i) snapshot)) (\<lambda>charge.
              tx_bind (tx_lift (charge_of (st_outcome i) (st_usage i) (sn_costSnapshotJson a))) (\<lambda>cost.
              tx_bind (createFinalBillingFacts a \<lparr>ff_eventId = st_eventId i, ff_refs = refs, ff_usage = st_usage i,
                         ff_actual = charge, ff_cost = cost, ff_tierKey = sn_tierKey a, ff_snapshotJson = snapshot,
                         ff_costTierKey = sn_costTierKey a, ff_costSnapshotJson = sn_costSnapshotJson a, ff_prices = prices\<rparr>) (\<lambda>_.
              tx_bind (post_charge (charge > 0 \<and> reservation \<noteq> None) i charge (bf_subscription refs) None) (\<lambda>posting.
              tx_bind (insert_fact (fact_of i refs charge snapshot (sn_startedAt a) posting)) (\<lambda>_.
              tx_bind (delete_claim (st_ref i)) (\<lambda>_.
              tx_bind (end_reservation i posting reservation) (\<lambda>_.
                tx_return (settled_with i charge posting))))))))))) b))"

definition settleClaimlessInvocationBilling ::
  "(string \<Rightarrow> string \<Rightarrow> int) \<Rightarrow> claimless_snapshot \<Rightarrow> settle_input \<Rightarrow> settlement_result billing" where
  "settleClaimlessInvocationBilling lc a i b =
     (if find_claim b (st_ref i) \<noteq> None \<or> find_reservation b (st_ref i) \<noteq> None
      then relay ''cpa_basic_billing_occupation_invalid'' 409
      else let select = (\<lambda>json. selectFrozenPriceProfile lc json (inputTokens (st_usage i)) (sn_serviceTier a) (sn_requireServiceTier a));
               refs = sn_refs a
           in tx_bind (tx_lift (select (sn_priceProfileJson a))) (\<lambda>price.
              tx_bind (tx_lift (select (sn_costProfileJson a))) (\<lambda>cost_price.
              tx_bind (tx_lift (selectClaimlessAccessPointPrices lc a (inputTokens (st_usage i)))) (\<lambda>prices.
              tx_bind (tx_lift (if cacheWriteTokens (st_usage i) > 0
                         then rbind (traverse (\<lambda>p. parseFrozenPriceUnits (fe_snapshotJson p)) prices) (\<lambda>units.
                                if list_ex (\<lambda>u. cacheWritePriceUnitsPer1M u = None) (sp_units price # sp_units cost_price # units)
                                then relay ''unexpected_cache_write_usage'' 500 else Inr ())
                         else Inr ())) (\<lambda>_.
              tx_bind (tx_lift (actualInvocationChargeUnits (st_usage i) (sp_units price))) (\<lambda>charge.
              tx_bind (tx_lift (actualInvocationChargeUnits (st_usage i) (sp_units cost_price))) (\<lambda>cost.
              tx_bind (createFinalBillingFacts a \<lparr>ff_eventId = st_eventId i, ff_refs = refs, ff_usage = st_usage i,
                         ff_actual = charge, ff_cost = cost, ff_tierKey = sp_tierKey price, ff_snapshotJson = sp_snapshotJson price,
                         ff_costTierKey = sp_tierKey cost_price, ff_costSnapshotJson = sp_snapshotJson cost_price, ff_prices = prices\<rparr>) (\<lambda>_.
              tx_bind (post_charge (sn_planBillingMode a = ''paygo'' \<and> charge > 0) i charge (bf_subscription refs) (Some (bf_user refs))) (\<lambda>posting.
              tx_bind (insert_fact (fact_of i refs charge (sp_snapshotJson price) (sn_startedAt a) posting)) (\<lambda>_.
                tx_return (settled_with i charge posting)))))))))) b)"

definition settleInvocationBilling ::
  "(string \<Rightarrow> string \<Rightarrow> int) \<Rightarrow> billing_attempt \<Rightarrow> settle_input \<Rightarrow> settlement_result billing" where
  "settleInvocationBilling lc attempt i b =
     (case find_fact b (st_ref i) of
        Some f \<Rightarrow>
          if same_usage (uf_usage f) (st_usage i)
          then Inr (\<lparr>rs_actual = uf_actual f, rs_posting = uf_posting f, rs_billingEvent = uf_billingEvent f, rs_replayed = True\<rparr>, b)
          else relay ''provider_attempt_settlement_conflict'' 409
      | None \<Rightarrow>
          (case attempt of
             Protected a \<Rightarrow> settleProtectedInvocationBilling a i b
           | Claimless a \<Rightarrow> settleClaimlessInvocationBilling lc a i b))"

text \<open>While usage is being reconciled the hold stays, unless the cost is known to have stopped.\<close>

definition markInvocationBillingReconciliation :: "string \<Rightarrow> cost_exposure \<Rightarrow> timestamp \<Rightarrow> unit billing" where
  "markInvocationBillingReconciliation ref exposure transitionedAt b =
     (case find_reservation b ref of
        None \<Rightarrow> Inr ((), b)
      | Some r \<Rightarrow>
          if is_open r
          then update_reservation (ur_id r) (\<lambda>x. x\<lparr>ur_status := Hold_reconciling,
                 ur_held := (if exposure = Stopped then 0 else ur_held r), ur_updatedAt := transitionedAt\<rparr>) b
          else Inr ((), b))"

end
