(* ===== verification/Billing_Terms.thy ===== *)
theory Billing_Terms
  imports Billing_Books
begin

section \<open>The terms an attempt is admitted under\<close>

text \<open>
  The admission side of \<open>packages/billing/src/server.ts\<close>: the prices that are frozen with an attempt, chosen
  now for the admitted tokens (the protected contract) or kept whole until the usage is known (the claimless
  contract), and the budgets of a plan and of an API key. The rows that the queries read are arguments: a
  price carries its tiers in the order of the query, and times are milliseconds.
\<close>

subsection \<open>Prices\<close>

record frozen_row =
  fz_units :: frozen_price
  fz_serviceTier :: string
  fz_tierKey :: string
  fz_snapshotJson :: string

definition tier_enabled :: "profile_tier_input \<Rightarrow> bool" where
  "tier_enabled t \<longleftrightarrow> tierStatus t = ''enabled''"

definition tier_eligible :: "int \<Rightarrow> profile_tier_input \<Rightarrow> bool" where
  "tier_eligible tokens t \<longleftrightarrow> tier_enabled t \<and> minInputTokens t \<le> tokens
     \<and> (case maxInputTokens t of None \<Rightarrow> True | Some m \<Rightarrow> m \<ge> tokens)"

definition byMostSpecificTier :: "profile_tier_input \<Rightarrow> profile_tier_input \<Rightarrow> int" where
  "byMostSpecificTier l r =
     (if minInputTokens l = minInputTokens r then 0 else if minInputTokens l > minInputTokens r then - 1 else 1)"

definition byMinInput :: "profile_tier_input \<Rightarrow> profile_tier_input \<Rightarrow> int" where
  "byMinInput l r =
     (if minInputTokens l < minInputTokens r then - 1 else if minInputTokens l > minInputTokens r then 1 else 0)"

fun first_of :: "'a list \<Rightarrow> 'a option" where
  "first_of [] = None"
| "first_of (x # _) = Some x"

definition specific_tier :: "int \<Rightarrow> string \<Rightarrow> profile_tier_input list \<Rightarrow> profile_tier_input option" where
  "specific_tier tokens s tiers =
     first_of (js_sort byMostSpecificTier (filter (\<lambda>t. tierServiceTier t = s) (filter (tier_eligible tokens) tiers)))"

definition base_covers :: "int \<Rightarrow> profile_tier_input list \<Rightarrow> bool" where
  "base_covers tokens tiers =
     (case first_of (js_sort byMinInput (filter (\<lambda>t. tier_enabled t \<and> tierServiceTier t = ''standard'') tiers)) of
        None \<Rightarrow> True | Some t \<Rightarrow> tokens < minInputTokens t)"

definition freezePriceRow :: "price_profile_input \<Rightarrow> int \<Rightarrow> string \<Rightarrow> frozen_row result" where
  "freezePriceRow base tokens serviceTier =
     (if profileStatus base \<noteq> ''enabled'' then relay ''billable_price_changed'' 409
      else let tiers = profileTiers base;
               requestedTier = specific_tier tokens serviceTier tiers;
               standardTier = specific_tier tokens ''standard'' tiers
           in if serviceTier \<noteq> ''standard'' \<and> requestedTier = None then relay ''price_service_tier_unavailable'' 409
              else if serviceTier = ''standard'' \<and> standardTier = None \<and> \<not> base_covers tokens tiers
              then relay ''price_tier_not_available'' 409
              else let tier = (case requestedTier of None \<Rightarrow> standardTier | Some t \<Rightarrow> Some t);
                       units = (case tier of None \<Rightarrow> frozen_price.truncate base | Some t \<Rightarrow> frozen_price.truncate t);
                       s = (case tier of None \<Rightarrow> ''standard'' | Some t \<Rightarrow> tierServiceTier t);
                       key = (case tier of None \<Rightarrow> ''legacy_flat'' | Some t \<Rightarrow> tierKey t)
                   in Inr \<lparr>fz_units = units, fz_serviceTier = s, fz_tierKey = key,
                           fz_snapshotJson = encodeFrozenPriceUnits units s key\<rparr>)"

text \<open>The catalogue: the prices by identifier, with what they belong to.\<close>

record price_catalog =
  pg_accessPoint :: "string \<Rightarrow> (string \<times> price_profile_input) option"
  pg_plan :: "string \<Rightarrow> (string \<times> string \<times> price_profile_input) option"
  pg_cost :: "string \<Rightarrow> (string \<times> string \<times> price_profile_input) option"

datatype price_source = From_access_point | From_plan

record terms_input =
  ti_planId :: string
  ti_providerId :: string
  ti_providerModelName :: string
  ti_costId :: string
  ti_source :: price_source
  ti_priceId :: string
  ti_contexts :: "price_context list"

text \<open>
  The price that is billed and the cost of the Provider, of the admitted plan, AccessPoint and ProviderModel.
\<close>

definition loadInvocationPriceRows :: "price_catalog \<Rightarrow> terms_input \<Rightarrow> (string option \<times> string \<times> price_profile_input) option result" where
  "loadInvocationPriceRows g i =
     (if ti_contexts i = [] \<and> ti_source i = From_plan then relay ''access_configuration_changed'' 409
      else Inr (case ti_source i of
                  From_plan \<Rightarrow> map_option (\<lambda>(plan, ap, row). (Some plan, ap, row)) (pg_plan g (ti_priceId i))
                | From_access_point \<Rightarrow> map_option (\<lambda>(ap, row). (None, ap, row)) (pg_accessPoint g (ti_priceId i))))"

definition billed_price :: "price_catalog \<Rightarrow> terms_input \<Rightarrow> price_profile_input result" where
  "billed_price g i =
     rbind (loadInvocationPriceRows g i) (\<lambda>base.
       case base of
         None \<Rightarrow> relay ''billable_price_changed'' 409
       | Some (plan, ap, row) \<Rightarrow>
           if ti_source i = From_plan \<and> plan \<noteq> Some (ti_planId i)
              \<or> map_option px_accessPoint (first_of (ti_contexts i)) \<noteq> Some ap
           then relay ''billable_price_changed'' 409 else Inr row)"

definition provider_cost :: "price_catalog \<Rightarrow> terms_input \<Rightarrow> price_profile_input result" where
  "provider_cost g i =
     (case pg_cost g (ti_costId i) of
        None \<Rightarrow> relay ''access_configuration_changed'' 409
      | Some (provider, model, row) \<Rightarrow>
          if provider \<noteq> ti_providerId i \<or> model \<noteq> ti_providerModelName i
          then relay ''access_configuration_changed'' 409 else Inr row)"

definition context_price :: "price_catalog \<Rightarrow> price_context \<Rightarrow> price_profile_input result" where
  "context_price g c =
     (case pg_accessPoint g (px_priceId c) of
        None \<Rightarrow> relay ''access_configuration_changed'' 409
      | Some (ap, row) \<Rightarrow> if ap \<noteq> px_accessPoint c then relay ''access_configuration_changed'' 409 else Inr row)"

record financial_terms =
  ft_price :: frozen_row
  ft_costTierKey :: string
  ft_costSnapshotJson :: string
  ft_prices :: "frozen_evidence list"

definition prepareInvocationBillingFinancialTerms :: "price_catalog \<Rightarrow> terms_input \<Rightarrow> int \<Rightarrow> string \<Rightarrow> financial_terms result" where
  "prepareInvocationBillingFinancialTerms g i tokens serviceTier =
     rbind (billed_price g i) (\<lambda>base.
     rbind (freezePriceRow base tokens serviceTier) (\<lambda>price.
     rbind (provider_cost g i) (\<lambda>cost_row.
     rbind (freezePriceRow cost_row tokens serviceTier) (\<lambda>cost.
     rbind (traverse (\<lambda>c. rbind (context_price g c) (\<lambda>row.
              rbind (freezePriceRow row tokens serviceTier) (\<lambda>z.
                Inr (price_context.extend c \<lparr>fe_tierKey = fz_tierKey z, fe_snapshotJson = fz_snapshotJson z\<rparr>)))) (ti_contexts i)) (\<lambda>prices.
       Inr \<lparr>ft_price = price, ft_costTierKey = fz_tierKey cost, ft_costSnapshotJson = fz_snapshotJson cost, ft_prices = prices\<rparr>)))))"

definition json_of_text_option :: "string option \<Rightarrow> json" where
  "json_of_text_option v = (case v of None \<Rightarrow> Json_null | Some s \<Rightarrow> Json_str s)"

definition context_members :: "'a price_context_scheme \<Rightarrow> (string \<times> json) list" where
  "context_members c =
     [(''accessPointId'', Json_str (px_accessPoint c)), (''targetAccessPointId'', json_of_text_option (px_target c)),
      (''buyerScopeRef'', Json_str (px_buyer c)), (''sellerScopeRef'', Json_str (px_seller c)), (''priceId'', Json_str (px_priceId c))]"

definition evidence_json :: "frozen_evidence list \<Rightarrow> string" where
  "evidence_json ps = json_print (Json_arr (map (\<lambda>p. Json_obj (context_members p
     @ [(''tierKey'', Json_str (fe_tierKey p)), (''snapshotJson'', Json_str (fe_snapshotJson p))])) ps))"

record claimless_terms =
  ct_priceProfileJson :: string
  ct_costProfileJson :: string
  ct_accessPointProfilesJson :: string

definition prepareClaimlessInvocationBillingFinancialTerms ::
  "(string \<Rightarrow> string \<Rightarrow> int) \<Rightarrow> price_catalog \<Rightarrow> terms_input \<Rightarrow> claimless_terms result" where
  "prepareClaimlessInvocationBillingFinancialTerms lc g i =
     rbind (billed_price g i) (\<lambda>base.
     rbind (provider_cost g i) (\<lambda>cost.
     rbind (traverse (\<lambda>c. rbind (context_price g c) (\<lambda>row.
              rbind (encodeFrozenPriceProfile lc row) (\<lambda>json.
                Inr (Json_obj (context_members c @ [(''profileJson'', Json_str json)]))))) (ti_contexts i)) (\<lambda>profiles.
     rbind (encodeFrozenPriceProfile lc base) (\<lambda>base_json.
     rbind (encodeFrozenPriceProfile lc cost) (\<lambda>cost_json.
       Inr \<lparr>ct_priceProfileJson = base_json, ct_costProfileJson = cost_json,
            ct_accessPointProfilesJson = json_print (Json_arr profiles)\<rparr>)))))"

subsection \<open>Budgets\<close>

definition fixedBudgetWindow ::
  "timestamp \<Rightarrow> timestamp option \<Rightarrow> string \<Rightarrow> int option \<Rightarrow> timestamp \<Rightarrow> (timestamp \<times> timestamp) result" where
  "fixedBudgetWindow effectiveStart effectiveEnd windowType windowSeconds occurred =
     (if windowType = ''cumulative''
      then Inr (effectiveStart, case effectiveEnd of None \<Rightarrow> 253402300799999 | Some e \<Rightarrow> e)
      else case windowSeconds of
             None \<Rightarrow> relay ''invalid_budget_window'' 500
           | Some s \<Rightarrow>
               if s \<le> 0 then relay ''invalid_budget_window'' 500
               else let size = s * 1000; index = max 0 ((occurred - effectiveStart) div size)
                    in if effectiveStart + (index + 1) * size > MAX_DATE then plain ''RangeError''
                       else Inr (effectiveStart + index * size, effectiveStart + (index + 1) * size))"

record budget_limit =
  bl_planId :: string
  bl_scope :: string
  bl_metric :: string
  bl_windowType :: string
  bl_windowSeconds :: "int option"
  bl_limitValue :: rat
  bl_limitUnits :: "int option"

record key_limit =
  kl_apiKey :: string
  kl_status :: string
  kl_policyStatus :: string
  kl_createdAt :: timestamp
  kl_metric :: string
  kl_windowType :: string
  kl_windowSeconds :: "int option"
  kl_limitValue :: rat
  kl_limitUnits :: "int option"

record budget_input =
  bi_planId :: string
  bi_subscription :: string
  bi_apiKey :: string
  bi_user :: string
  bi_effectiveStart :: timestamp
  bi_effectiveEnd :: "timestamp option"
  bi_maxTokens :: int
  bi_maxCharge :: int
  bi_occurredAt :: timestamp

definition js_trunc :: "rat \<Rightarrow> int" where
  "js_trunc q = (if q < 0 then \<lceil>q\<rceil> else \<lfloor>q\<rfloor>)"

text \<open>
  What is settled and claimed in a window for the rows that \<open>mine\<close> selects: facts by the time of their
  invocation, claims by the start of their attempt.
\<close>

definition settled_in :: "(billing_references \<Rightarrow> bool) \<Rightarrow> timestamp \<times> timestamp \<Rightarrow> (usage_fact \<Rightarrow> int) \<Rightarrow> books \<Rightarrow> int" where
  "settled_in mine w amount b =
     sum_list (map amount (filter (\<lambda>f. fst w \<le> uf_occurredAt f \<and> uf_occurredAt f < snd w \<and> mine (uf_refs f)) (facts b)))"

definition claimed_in ::
  "(billing_references \<Rightarrow> bool) \<Rightarrow> timestamp \<times> timestamp \<Rightarrow> (budget_claim \<Rightarrow> int) \<Rightarrow> tables \<Rightarrow> books \<Rightarrow> int" where
  "claimed_in mine w amount db b =
     sum_list (map amount (filter (\<lambda>c. mine (bc_refs c)
        \<and> (case find_attempt db (bc_attempt c) of None \<Rightarrow> False | Some a \<Rightarrow> fst w \<le> at_startedAt a \<and> at_startedAt a < snd w))
        (claims b)))"

definition check_budget ::
  "string \<Rightarrow> js_error \<Rightarrow> js_error \<Rightarrow> rat \<Rightarrow> int option \<Rightarrow> (billing_references \<Rightarrow> bool) \<Rightarrow> timestamp \<times> timestamp
     \<Rightarrow> budget_input \<Rightarrow> tables \<Rightarrow> books \<Rightarrow> unit result" where
  "check_budget metric tokensError amountError limitValue limitUnits mine w i db b =
     (if metric = ''tokens''
      then if settled_in mine w (totalTokens \<circ> uf_usage) b + claimed_in mine w bc_maxTokens db b + bi_maxTokens i > js_trunc limitValue
           then Inl tokensError else Inr ()
      else case limitUnits of
             None \<Rightarrow> relay ''budget_units_missing'' 500
           | Some units \<Rightarrow>
               if settled_in mine w uf_actual b + claimed_in mine w bc_maxCharge db b + bi_maxCharge i > units
               then Inl amountError else Inr ())"

definition plan_mine :: "budget_limit \<Rightarrow> budget_input \<Rightarrow> billing_references \<Rightarrow> bool" where
  "plan_mine l i r \<longleftrightarrow> bf_subscription r = bi_subscription i \<and> (bl_scope l \<noteq> ''user'' \<or> bf_user r = bi_user i)"

definition assertInvocationPlanBudgets :: "budget_limit list \<Rightarrow> budget_input \<Rightarrow> tables \<Rightarrow> books \<Rightarrow> unit result" where
  "assertInvocationPlanBudgets limits i db b =
     rbind (traverse (\<lambda>l. rbind (fixedBudgetWindow (bi_effectiveStart i) (bi_effectiveEnd i) (bl_windowType l)
                                   (bl_windowSeconds l) (bi_occurredAt i)) (\<lambda>w. Inr (l, w)))
              (filter (\<lambda>l. bl_planId l = bi_planId i) limits)) (\<lambda>windows.
     rbind (traverse (\<lambda>(l, w). check_budget (bl_metric l) (RelayError ''plan_subscription_budget_tokens_exceeded'' 402 [])
              (RelayError ''plan_subscription_budget_amount_exceeded'' 402 []) (bl_limitValue l) (bl_limitUnits l) (plan_mine l i) w i db b)
              windows) (\<lambda>_. Inr ()))"

definition key_window :: "key_limit \<Rightarrow> budget_input \<Rightarrow> timestamp \<times> timestamp" where
  "key_window l i =
     (case kl_windowSeconds l of
        Some s \<Rightarrow> if kl_windowType l = ''rolling'' \<and> s \<noteq> 0 then (bi_occurredAt i - s * 1000, bi_occurredAt i)
                  else (kl_createdAt l, bi_occurredAt i)
      | None \<Rightarrow> (kl_createdAt l, bi_occurredAt i))"

definition assertInvocationDirectBudgets :: "key_limit list \<Rightarrow> budget_input \<Rightarrow> tables \<Rightarrow> books \<Rightarrow> unit result" where
  "assertInvocationDirectBudgets limits i db b =
     rbind (traverse (\<lambda>l. check_budget (kl_metric l) (RelayError ''budget_token_limit_exceeded'' 402 [])
              (RelayError ''budget_amount_limit_exceeded'' 402 []) (kl_limitValue l) (kl_limitUnits l)
              (\<lambda>r. bf_apiKey r = bi_apiKey i) (key_window l i) i db b)
            (filter (\<lambda>l. kl_apiKey l = bi_apiKey i \<and> kl_status l = ''enabled'' \<and> kl_policyStatus l = ''enabled'') limits)) (\<lambda>_. Inr ())"

end
