(* ===== verification/Billing_Commands.thy ===== *)
theory Billing_Commands
  imports Billing_Terms
begin

section \<open>Provider invocation commands\<close>

text \<open>
  The transactions of \<open>packages/application/src/storage/provider-invocation/commands.ts\<close> that join the execution
  of a request with billing: an attempt is admitted together with what it occupies, settled together with its
  charge, and put under reconciliation together with its hold. What the transactions read of other packages
  (the request log, the subscription, the routing tables, API keys, prices and budgets) is an argument.
\<close>

record app =
  ap_request :: tables
  ap_books :: books

definition on_request :: "'a transaction \<Rightarrow> (app, 'a) tx" where
  "on_request m s = rbind (m (ap_request s)) (\<lambda>(x, db). Inr (x, s\<lparr>ap_request := db\<rparr>))"

definition on_books :: "(tables \<Rightarrow> 'a billing) \<Rightarrow> (app, 'a) tx" where
  "on_books m s = rbind (m (ap_request s) (ap_books s)) (\<lambda>(x, b). Inr (x, s\<lparr>ap_books := b\<rparr>))"

definition reading :: "(tables \<Rightarrow> books \<Rightarrow> 'a result) \<Rightarrow> (app, 'a) tx" where
  "reading f s = rbind (f (ap_request s) (ap_books s)) (\<lambda>x. Inr (x, s))"

subsection \<open>Settlement and reconciliation\<close>

text \<open>The snapshot of an attempt for billing.\<close>

definition attempt_snapshot_of :: "tables \<Rightarrow> string \<Rightarrow> billing_attempt result" where
  "attempt_snapshot_of db ref =
     (case find_attempt db ref of None \<Rightarrow> Inl missing_row | Some a \<Rightarrow> readInvocationBillingAttemptSnapshot a)"

record settle_command =
  sc_finalize :: finalize_command
  sc_usage :: invocation_usage

text \<open>\<open>now\<close> is the time of the settlement; \<open>ids\<close> are the identifiers drawn for the billing event and the ledger.\<close>

definition settleFinalUsage ::
  "(string \<Rightarrow> string \<Rightarrow> int) \<Rightarrow> settle_command \<Rightarrow> zero_outcome \<Rightarrow> bool \<Rightarrow> string option \<Rightarrow> timestamp \<Rightarrow> string \<times> string
     \<Rightarrow> (app, settlement_result) tx" where
  "settleFinalUsage lc c outcome requireReconciliation expectedContract now ids =
     (let ref = fi_ref (sc_finalize c)
      in tx_bind (tx_lift (validateUsage (sc_usage c))) (\<lambda>_.
         tx_bind (reading (\<lambda>db b. Inr (lockInvocationBillingSettlementAccount (find_attempt db ref) ref b))) (\<lambda>account.
         tx_bind (on_request (finalize_lock (sc_finalize c) requireReconciliation)) (\<lambda>d.
         tx_bind (tx_lift (case expectedContract of
                    None \<Rightarrow> Inr ()
                  | Some e \<Rightarrow> require (fd_invocationContract d = e) contract_mismatch)) (\<lambda>_.
         tx_bind (reading (\<lambda>db _. attempt_snapshot_of db (fd_ref d))) (\<lambda>attempt.
         tx_bind (on_books (\<lambda>_. settleInvocationBilling lc attempt \<lparr>st_ref = ref, st_usage = sc_usage c, st_outcome = outcome,
                    st_settledAt = now, st_account = account, st_eventId = fst ids, st_ledgerId = snd ids\<rparr>)) (\<lambda>settled.
         tx_bind (on_request (finalize_complete d (sc_finalize c) now)) (\<lambda>_.
           tx_return settled))))))))"

definition no_usage :: invocation_usage where
  "no_usage = \<lparr>inputTokens = 0, cachedInputTokens = 0, cacheWriteTokens = 0, outputTokens = 0, totalTokens = 0, usageSource = ''provider''\<rparr>"

definition releaseNotStarted ::
  "(string \<Rightarrow> string \<Rightarrow> int) \<Rightarrow> finalize_command \<Rightarrow> timestamp \<Rightarrow> string \<times> string \<Rightarrow> (app, settlement_result) tx" where
  "releaseNotStarted lc c now ids =
     tx_bind (settleFinalUsage lc \<lparr>sc_finalize = c, sc_usage = no_usage\<rparr> Outcome_released False None now ids) (\<lambda>settled.
       tx_return (settled\<lparr>rs_actual := 0, rs_posting := None\<rparr>))"

definition enterReconciliation :: "reconcile_command \<Rightarrow> timestamp \<Rightarrow> (app, unit) tx" where
  "enterReconciliation c now =
     tx_bind (on_request (reconcile c now)) (\<lambda>transition.
       if transition then on_books (\<lambda>_. markInvocationBillingReconciliation (rc_ref c) (rc_costExposure c) now)
       else tx_return ())"

definition assertDispatchOwnership :: "string \<Rightarrow> string \<Rightarrow> string \<Rightarrow> timestamp \<Rightarrow> (app, bool) tx" where
  "assertDispatchOwnership ref rid owner now =
     tx_bind (on_request (assert_dispatch ref rid owner now)) (\<lambda>d.
     tx_bind (if dd_transitionToReconciliation d
              then on_books (\<lambda>_. markInvocationBillingReconciliation ref Accruing (dd_transitionedAt d)) else tx_return ()) (\<lambda>_.
       tx_return (dd_owned d)))"

text \<open>
  Final usage that an operator reports: the kind of evidence decides the source of the usage, and the
  reference to it must not look like a secret (\<open>isSafeExternalEvidenceRef\<close> of \<open>core/src/index.ts\<close>). The
  case-insensitive patterns are tried on the lower case of a reference, which is ASCII.
\<close>

definition starts_with_one :: "string list \<Rightarrow> (string \<Rightarrow> bool) \<Rightarrow> string \<Rightarrow> bool" where
  "starts_with_one ps rest s \<longleftrightarrow> list_ex (\<lambda>p. prefix p s \<and> rest (drop (length p) s)) ps"

definition eight_or_more :: "string \<Rightarrow> string \<Rightarrow> bool" where
  "eight_or_more extra s \<longleftrightarrow> 8 \<le> length s \<and> list_all (\<lambda>c. is_alnum_char c \<or> c \<in> set extra) s"

definition one_of :: "string \<Rightarrow> (string \<Rightarrow> bool) \<Rightarrow> string \<Rightarrow> bool" where
  "one_of cs rest s \<longleftrightarrow> (case s of [] \<Rightarrow> False | c # t \<Rightarrow> c \<in> set cs \<and> rest t)"

definition jwt_part :: "string \<Rightarrow> bool" where
  "jwt_part s \<longleftrightarrow> prefix ''eyJ'' s \<and> eight_or_more ''_-'' (drop 3 s)"

definition jwt_shaped :: "string \<Rightarrow> bool" where
  "jwt_shaped s \<longleftrightarrow>
     (case split_first CHR ''.'' s of
        None \<Rightarrow> False
      | Some (u, rest) \<Rightarrow>
          (case split_first CHR ''.'' rest of
             None \<Rightarrow> False
           | Some (v, w) \<Rightarrow> jwt_part u \<and> jwt_part v \<and> eight_or_more ''_-'' w))"

definition any_text :: "string \<Rightarrow> bool" where
  "any_text s \<longleftrightarrow> True"

definition secret_shaped :: "string \<Rightarrow> bool" where
  "secret_shaped s \<longleftrightarrow>
     starts_with_one [''bearer'', ''basic''] (one_of ''_.:/-'' any_text) (to_lower s)
     \<or> starts_with_one [''sk-proj-'', ''sk-svcacct-'', ''sk-''] (eight_or_more ''_-'') s
     \<or> starts_with_one [''sk_live_'', ''sk_test_'', ''rk_live_'', ''rk_test_''] (eight_or_more []) s
     \<or> starts_with_one [''ghp_'', ''gho_'', ''ghu_'', ''ghs_'', ''ghr_'', ''github_pat_'', ''glpat-'', ''xoxb-'', ''xoxa-'', ''xoxp-'',
         ''xoxr-'', ''xoxs-'', ''AIza'', ''AKIA'', ''ASIA'', ''whsec_''] (eight_or_more ''_-'') s
     \<or> starts_with_one [''ya29.'', ''1//''] (eight_or_more ''_.-'') s
     \<or> jwt_shaped s
     \<or> starts_with_one [''api_key'', ''api-key'', ''apikey'', ''token'', ''access_token'', ''access-token'', ''accesstoken'',
         ''refresh_token'', ''refresh-token'', ''refreshtoken'', ''client_secret'', ''client-secret'', ''clientsecret'',
         ''password'', ''passwd'', ''secret'', ''credential'', ''authorization''] (one_of '':=_-'' (eight_or_more ''_.:/-'')) (to_lower s)
     \<or> starts_with_one (concat (map (\<lambda>begin. concat (map (\<lambda>kind. map (\<lambda>name. begin @ kind @ name)
           [''private_key'', ''private-key'']) [[], ''rsa_'', ''rsa-'', ''ec_'', ''ec-''])) [[], ''begin_'', ''begin-'']))
         (one_of '':=_-'' any_text) (to_lower s)"

definition isSafeExternalEvidenceRef :: "string \<Rightarrow> bool" where
  "isSafeExternalEvidenceRef s \<longleftrightarrow>
     matches_head_tail is_alnum_char (\<lambda>c. is_alnum_char c \<or> c \<in> set ''_.:/-'') 191 s \<and> \<not> secret_shaped s"

datatype evidence_kind = Provider_operation_query | Provider_billing_record | Provider_response

definition assertReconciliationEvidence :: "evidence_kind \<Rightarrow> string \<Rightarrow> invocation_usage \<Rightarrow> unit result" where
  "assertReconciliationEvidence kind ref u =
     (if \<not> isSafeExternalEvidenceRef ref then relay ''invalid_provider_reconciliation_evidence'' 400
      else if usageSource u \<noteq> (if kind = Provider_response then ''response'' else ''provider'')
      then relay ''invalid_provider_reconciliation_evidence'' 400 else Inr ())"

definition reconcileFinalUsage ::
  "(string \<Rightarrow> string \<Rightarrow> int) \<Rightarrow> settle_command \<Rightarrow> evidence_kind \<Rightarrow> string \<Rightarrow> timestamp \<Rightarrow> string \<times> string \<Rightarrow> (app, settlement_result) tx" where
  "reconcileFinalUsage lc c kind evidence now ids =
     tx_bind (tx_lift (assertReconciliationEvidence kind evidence (sc_usage c))) (\<lambda>_.
       settleFinalUsage lc c Outcome_settled True None now ids)"

text \<open>
  A live settlement of the claimless contract that fails puts the attempt under reconciliation, in a
  transaction of its own, before the error is thrown: the state it leaves is a result too. \<open>later\<close> is the
  time of that transaction.
\<close>

definition failed_settlement_command :: "finalize_command \<Rightarrow> reconcile_command" where
  "failed_settlement_command f =
     \<lparr>rc_ref = fi_ref f, rc_outcome = fi_outcome f, rc_failureClass = fi_failureClass f, rc_failureReason = None,
      rc_outputCommitted = fi_outputCommitted f, rc_costExposure = Stopped, rc_reason = ''provider_usage_settlement_failed''\<rparr>"

definition settleCpaBasicLive ::
  "(string \<Rightarrow> string \<Rightarrow> int) \<Rightarrow> settle_command \<Rightarrow> timestamp \<Rightarrow> timestamp \<Rightarrow> string \<times> string \<Rightarrow> app \<Rightarrow> settlement_result result \<times> app" where
  "settleCpaBasicLive lc c now later ids s =
     (case settleFinalUsage lc c Outcome_settled False (Some ''cpa-basic@1'') now ids s of
        Inr (r, t) \<Rightarrow> (Inr r, t)
      | Inl e \<Rightarrow>
          (case enterReconciliation (failed_settlement_command (sc_finalize c)) later s of
             Inr (_, t) \<Rightarrow> (Inl e, t)
           | Inl e' \<Rightarrow> (Inl e', s)))"

subsection \<open>Admission\<close>

record admit_command =
  am_identity :: admission_identity
  am_planId :: string
  am_subscription :: string
  am_apiKey :: string
  am_user :: string
  am_inputTokens :: int
  am_maxOutputTokens :: int
  am_preparation :: preparation
  am_serviceTier :: string
  am_source :: price_source
  am_priceId :: string
  am_costId :: string
  am_accessPointPriceIds :: "string list"
  am_account :: "string option"

record plan_subscription =
  su_planId :: string
  su_lifecycle :: string
  su_effectiveStart :: timestamp
  su_effectiveEnd :: "timestamp option"
  su_scopeRef :: string
  su_planStatus :: string
  su_planScopeRef :: string
  su_planBillingMode :: string

text \<open>
  The rows of the path, as the query reads them: AccessPoints and targets that are enabled and not removed,
  models with their Provider and its binding.
\<close>

record path_edge =
  pe_accessPoint :: string
  pe_targetType :: string
  pe_targetAccessPoint :: "string option"
  pe_targetProvider :: "string option"
  pe_targetModelName :: "string option"
  pe_targetModel :: "string option"

record path_provider =
  pp_providerId :: string
  pp_modelName :: string
  pp_modelStatus :: string
  pp_providerStatus :: string
  pp_ownerScopeRef :: string
  pp_bindingStatus :: string

record routing_rows =
  rr_accessPoints :: "string \<Rightarrow> (string \<times> int) option"
  rr_edges :: "string \<Rightarrow> path_edge option"
  rr_models :: "string \<Rightarrow> path_provider option"

record routing_facts =
  rf_accessPoints :: "string \<Rightarrow> (string \<times> int) option"
  rf_edges :: "string \<Rightarrow> path_edge option"
  rf_ownerScopeRef :: string

text \<open>What the admission reads of other packages.\<close>

record admission_world =
  aw_requestLog :: "string \<Rightarrow> (string \<times> string) option"
  aw_subscription :: "string \<Rightarrow> plan_subscription option"
  aw_routing :: routing_rows
  aw_apiKeys :: "string set"
  aw_prices :: price_catalog
  aw_planLimits :: "budget_limit list"
  aw_keyLimits :: "key_limit list"
  aw_paygoLimit :: int

definition boundedPreparationIdentity :: "string \<Rightarrow> bool" where
  "boundedPreparationIdentity v \<longleftrightarrow> 1 \<le> length v \<and> length v \<le> 256"

definition assertAdmissionNumbers :: "admit_command \<Rightarrow> unit result" where
  "assertAdmissionNumbers c =
     (let i = am_identity c; z = am_preparation c; bad = relay ''invalid_provider_attempt'' 400
      in if \<not> is_safe_int (ai_attemptIndex i) \<or> ai_attemptIndex i < 0 then bad
         else if \<not> is_safe_int (fr_selectorBehaviorVersion (ai_routing i)) \<or> \<not> is_safe_int (fr_routingRevision (ai_routing i)) then bad
         else if am_inputTokens c < 0 \<or> am_inputTokens c > BILLING_MAX_INT64 \<or> am_maxOutputTokens c < 1
                 \<or> am_maxOutputTokens c > BILLING_MAX_INT64 \<or> am_inputTokens c + am_maxOutputTokens c > BILLING_MAX_INT64 then bad
         else if \<not> is_safe_int (pz_tokenizerVersion z) \<or> pz_tokenizerVersion z < 1
                 \<or> \<not> is_safe_int (pz_evidenceVersion z) \<or> pz_evidenceVersion z < 1
                 \<or> \<not> boundedPreparationIdentity (pz_tokenizerId z) \<or> \<not> boundedPreparationIdentity (pz_evidenceId z)
                 \<or> \<not> boundedPreparationIdentity (pz_payloadId z) then bad
         else Inr ())"

definition admission_kind_of :: "admit_command \<Rightarrow> admission_kind" where
  "admission_kind_of c = (if ai_attemptIndex (am_identity c) = 0 then First_attempt else Fallback_attempt)"

definition admission_identity_of :: "admit_command \<Rightarrow> admission_identity" where
  "admission_identity_of c = (am_identity c)\<lparr>ai_selectedSourceRef :=
     (if ai_attemptIndex (am_identity c) = 0 then Some (am_subscription c) else None)\<rparr>"

definition access_changed :: js_error where
  "access_changed = RelayError ''access_configuration_changed'' 409 []"

text \<open>Each AccessPoint of the path has the revision it was compiled with, and its edge leads to the next one.\<close>

definition edge_matches :: "frozen_candidate \<Rightarrow> string option \<Rightarrow> path_edge \<Rightarrow> bool" where
  "edge_matches c next e \<longleftrightarrow>
     (case next of
        None \<Rightarrow> pe_targetType e = ''provider-model'' \<and> pe_targetModel e = Some (fc_providerModelId c)
                \<and> pe_targetProvider e = Some (fc_providerId c) \<and> pe_targetModelName e = Some (fc_providerModelName c)
      | Some ap \<Rightarrow> pe_targetType e = ''access-point'' \<and> pe_targetAccessPoint e = Some ap)"

fun check_path ::
  "routing_facts \<Rightarrow> (string \<Rightarrow> int option) \<Rightarrow> frozen_candidate \<Rightarrow> string list \<Rightarrow> string list \<Rightarrow> unit result" where
  "check_path f revisions c (ap # aps) (edge # path) =
     (case (rf_accessPoints f ap, rf_edges f edge) of
        (Some (_, revision), Some e) \<Rightarrow>
          if revisions ap \<noteq> Some revision \<or> pe_accessPoint e \<noteq> ap \<or> \<not> edge_matches c (first_of aps) e
          then Inl access_changed else check_path f revisions c aps path
      | _ \<Rightarrow> Inl access_changed)"
| "check_path f revisions c [] path = Inr ()"
| "check_path f revisions c (ap # aps) [] = Inl access_changed"

definition assertFrozenRoutingPath :: "routing_rows \<Rightarrow> admission_identity \<Rightarrow> routing_facts result" where
  "assertFrozenRoutingPath g i =
     (let r = ai_routing i; c = ai_candidate i; chain = fr_accessPointChainIds r; path = fr_pathTargetEdgeIds r;
          revisions = fr_routingRevisions r;
          f = \<lparr>rf_accessPoints = (\<lambda>ap. if ap \<in> set chain then rr_accessPoints g ap else None),
               rf_edges = (\<lambda>e. if e \<in> set path then rr_edges g e else None), rf_ownerScopeRef = []\<rparr>
      in if chain = [] \<or> length path \<noteq> length chain \<or> length revisions \<noteq> length chain
            \<or> fr_selectorAccessPointId r \<notin> set chain \<or> fr_selectorAccessPointId r \<notin> fst ` set revisions
         then Inl access_changed
         else if \<not> distinct chain \<or> \<not> distinct path then Inl access_changed
         else rbind (check_path f (map_of (rev revisions)) c chain path) (\<lambda>_.
                case rf_edges f (fr_selectorTargetEdgeId r) of
                  None \<Rightarrow> Inl access_changed
                | Some e \<Rightarrow>
                    if pe_accessPoint e \<noteq> fr_selectorAccessPointId r then Inl access_changed
                    else case rr_models g (fc_providerModelId c) of
                           None \<Rightarrow> Inl access_changed
                         | Some p \<Rightarrow>
                             if pp_modelStatus p \<noteq> ''enabled'' \<or> pp_providerId p \<noteq> fc_providerId c
                                \<or> pp_modelName p \<noteq> fc_providerModelName c \<or> pp_providerStatus p \<noteq> ''enabled''
                                \<or> pp_bindingStatus p \<noteq> ''ready''
                             then Inl access_changed else Inr (f\<lparr>rf_ownerScopeRef := pp_ownerScopeRef p\<rparr>)))"

text \<open>Who buys from whom along the path: the subscription at its entry, then each AccessPoint in turn.\<close>

fun price_contexts :: "routing_facts \<Rightarrow> string \<Rightarrow> (string \<times> string \<times> string) list \<Rightarrow> price_context list result" where
  "price_contexts f buyer [] = Inr []"
| "price_contexts f buyer ((ap, edge, price) # rest) =
     (case (rf_accessPoints f ap, rf_edges f edge) of
        (Some (seller, _), Some e) \<Rightarrow>
          rbind (price_contexts f seller rest) (\<lambda>cs.
            Inr (\<lparr>px_accessPoint = ap, px_target = pe_targetAccessPoint e, px_buyer = buyer, px_seller = seller, px_priceId = price\<rparr> # cs))
      | _ \<Rightarrow> Inl access_changed)"

definition loadInvocationBillingReferenceDecision :: "routing_facts \<Rightarrow> admit_command \<Rightarrow> string \<Rightarrow> price_context list result" where
  "loadInvocationBillingReferenceDecision f c billingScopeRef =
     (let r = ai_routing (am_identity c)
      in if length (am_accessPointPriceIds c) \<noteq> length (fr_accessPointChainIds r) then Inl access_changed
         else if length (fr_pathTargetEdgeIds r) < length (fr_accessPointChainIds r) then Inl access_changed
         else price_contexts f billingScopeRef (zip (fr_accessPointChainIds r) (zip (fr_pathTargetEdgeIds r) (am_accessPointPriceIds c))))"

definition price_source_text :: "price_source \<Rightarrow> string" where
  "price_source_text s = (case s of From_access_point \<Rightarrow> ''access_point'' | From_plan \<Rightarrow> ''plan_access_point'')"

definition protected_material :: "admit_command \<Rightarrow> plan_subscription \<Rightarrow> routing_facts \<Rightarrow> financial_terms \<Rightarrow> persistence_material" where
  "protected_material c s f t =
     \<lparr>pm_providerAttemptRef = None, pm_invocationContract = ''protected@1'',
      pm_frozen =
       [(''billablePriceSource'', JStr (price_source_text (am_source c))), (''billablePriceId'', JStr (am_priceId c)),
        (''billablePriceTierKey'', JStr (fz_tierKey (ft_price t))), (''billablePriceSnapshotJson'', JStr (fz_snapshotJson (ft_price t))),
        (''inputTokens'', jint (am_inputTokens c)), (''maxOutputTokens'', jint (am_maxOutputTokens c)),
        (''tokenizerId'', JStr (pz_tokenizerId (am_preparation c))), (''tokenizerVersion'', jint (pz_tokenizerVersion (am_preparation c))),
        (''preparationEvidenceId'', JStr (pz_evidenceId (am_preparation c))),
        (''preparationEvidenceVersion'', jint (pz_evidenceVersion (am_preparation c))),
        (''preparedPayloadId'', JStr (pz_payloadId (am_preparation c))), (''requestedServiceTier'', JStr (am_serviceTier c)),
        (''billingScopeRef'', JStr (su_scopeRef s)), (''planSellerScopeRef'', JStr (su_planScopeRef s)),
        (''planBillingMode'', JStr (su_planBillingMode s)), (''subscriptionEffectiveStart'', jint (su_effectiveStart s)),
        (''providerOwnerScopeRef'', JStr (rf_ownerScopeRef f)), (''providerModelCostId'', JStr (am_costId c)),
        (''providerCostTierKey'', JStr (ft_costTierKey t)), (''providerCostSnapshotJson'', JStr (ft_costSnapshotJson t)),
        (''accessPointPriceSnapshotsJson'', JStr (evidence_json (ft_prices t)))]\<rparr>"


text \<open>The columns of an attempt that a replay compares with its command.\<close>

record attempt_compatibility =
  cx_priceSource :: string
  cx_priceId :: string
  cx_snapshotJson :: string
  cx_costId :: string
  cx_accessPointPricesJson :: string
  cx_inputTokens :: int
  cx_maxOutputTokens :: int
  cx_preparation :: preparation
  cx_serviceTier :: string

definition readProviderAttemptCompatibility :: "tables \<Rightarrow> string \<Rightarrow> attempt_compatibility result" where
  "readProviderAttemptCompatibility db ref =
     (case find_attempt db ref of
        None \<Rightarrow> Inl missing_row
      | Some a \<Rightarrow>
          (case (frozen_text a ''billablePriceSnapshotJson'', frozen_text a ''accessPointPriceSnapshotsJson'',
                 frozen_int a ''inputTokens'', frozen_int a ''maxOutputTokens'', preparation_of a) of
             (Some snapshot, Some prices, Some input, Some output, Some z) \<Rightarrow>
               if at_invocationContract a \<noteq> ''protected@1'' then Inl contract_mismatch
               else Inr \<lparr>cx_priceSource = column a ''billablePriceSource'', cx_priceId = column a ''billablePriceId'',
                         cx_snapshotJson = snapshot, cx_costId = column a ''providerModelCostId'',
                         cx_accessPointPricesJson = prices, cx_inputTokens = input, cx_maxOutputTokens = output,
                         cx_preparation = z, cx_serviceTier = column a ''requestedServiceTier''\<rparr>
           | _ \<Rightarrow> Inl contract_mismatch))"

definition idempotency_conflict :: js_error where
  "idempotency_conflict = RelayError ''provider_attempt_idempotency_conflict'' 409 []"

definition source_conflict :: js_error where
  "source_conflict = RelayError ''request_execution_plan_source_conflict'' 409 []"

text \<open>
  The two price lists are compared joined with a NUL, which no identifier contains; the lists are then equal,
  or one is empty and the other a single empty text.
\<close>

fun joined :: "string list \<Rightarrow> string" where
  "joined [] = []"
| "joined [s] = s"
| "joined (s # t # ts) = s @ CHR 0x00 # joined (t # ts)"

definition physical_matches :: "attempt_compatibility \<Rightarrow> admit_command \<Rightarrow> bool result" where
  "physical_matches x c =
     (if cx_priceSource x \<noteq> price_source_text (am_source c) \<or> cx_priceId x \<noteq> am_priceId c \<or> cx_costId x \<noteq> am_costId c
      then Inr False
      else rbind (frozenAccessPointPriceIds (cx_accessPointPricesJson x)) (\<lambda>ids.
             Inr (joined ids = joined (am_accessPointPriceIds c) \<and> cx_inputTokens x = am_inputTokens c
                  \<and> cx_maxOutputTokens x = am_maxOutputTokens c \<and> cx_preparation x = am_preparation c
                  \<and> cx_serviceTier x = am_serviceTier c)))"

definition references_of :: "admit_command \<Rightarrow> billing_references" where
  "references_of c =
     \<lparr>bf_requestId = ai_requestId (am_identity c), bf_subscription = am_subscription c, bf_apiKey = am_apiKey c,
      bf_user = am_user c\<rparr>"

definition reservation_matches :: "usage_reservation option \<Rightarrow> admit_command \<Rightarrow> int \<Rightarrow> bool" where
  "reservation_matches reservation c maximum \<longleftrightarrow>
     (case am_account c of
        None \<Rightarrow> reservation = None
      | Some aid \<Rightarrow>
          (case reservation of
             None \<Rightarrow> False
           | Some r \<Rightarrow> ur_account r = aid \<and> ur_subscription r = am_subscription c \<and> ur_user r = am_user c
               \<and> ur_inputTokens r = am_inputTokens c \<and> ur_maxOutputTokens r = am_maxOutputTokens c
               \<and> ur_preparation r = am_preparation c \<and> ur_priceSource r = price_source_text (am_source c)
               \<and> ur_priceId r = am_priceId c \<and> ur_units r = maximum))"

record admission =
  ad_attemptId :: string
  ad_maxTokens :: int
  ad_maxCharge :: int
  ad_reservationId :: "string option"
  ad_reservationUnits :: "int option"
  ad_admittedAt :: timestamp

definition readInvocationBillingOccupation :: "books \<Rightarrow> string \<Rightarrow> budget_claim option \<times> usage_reservation option" where
  "readInvocationBillingOccupation b ref = (find_claim b ref, find_reservation b ref)"

definition equivalentAdmission :: "stored_attempt \<times> string option \<Rightarrow> admit_command \<Rightarrow> tables \<Rightarrow> books \<Rightarrow> admission result" where
  "equivalentAdmission replay c db b =
     (let stored = fst replay
      in if snd replay \<noteq> Some (am_subscription c) then Inl source_conflict
         else rbind (readProviderAttemptCompatibility db (sa_ref stored)) (\<lambda>x.
              rbind (physical_matches x c) (\<lambda>matches.
                if \<not> matches then Inl idempotency_conflict
                else case readInvocationBillingOccupation b (sa_ref stored) of
                       (None, _) \<Rightarrow> relay ''provider_attempt_admission_incomplete'' 409
                     | (Some claim, reservation) \<Rightarrow>
                         rbind (parseFrozenPriceUnits (cx_snapshotJson x)) (\<lambda>price.
                         rbind (maximumInvocationChargeUnits (am_inputTokens c) (am_maxOutputTokens c) price) (\<lambda>maximum.
                           if bc_refs claim = references_of c \<and> bc_planId claim = am_planId c
                              \<and> bc_maxTokens claim = am_inputTokens c + am_maxOutputTokens c \<and> bc_maxCharge claim = maximum
                              \<and> reservation_matches reservation c maximum
                           then Inr \<lparr>ad_attemptId = sa_ref stored, ad_maxTokens = bc_maxTokens claim,
                                     ad_maxCharge = bc_maxCharge claim, ad_reservationId = map_option ur_id reservation,
                                     ad_reservationUnits = map_option ur_units reservation, ad_admittedAt = sa_startedAt stored\<rparr>
                           else Inl idempotency_conflict)))))"

definition available_subscription :: "admission_world \<Rightarrow> admit_command \<Rightarrow> timestamp \<Rightarrow> plan_subscription result" where
  "available_subscription w c now =
     (case aw_subscription w (am_subscription c) of
        None \<Rightarrow> relay ''plan_subscription_unavailable'' 402
      | Some s \<Rightarrow>
          if su_planId s \<noteq> am_planId c \<or> su_lifecycle s \<noteq> ''active''
             \<or> su_planStatus s \<noteq> ''enabled'' \<and> su_planStatus s \<noteq> ''closed''
             \<or> su_effectiveStart s > now \<or> (case su_effectiveEnd s of None \<Rightarrow> False | Some t \<Rightarrow> t \<le> now)
          then relay ''plan_subscription_unavailable'' 402 else Inr s)"

definition terms_input_of :: "admit_command \<Rightarrow> price_context list \<Rightarrow> terms_input" where
  "terms_input_of c contexts =
     \<lparr>ti_planId = am_planId c, ti_providerId = fc_providerId (ai_candidate (am_identity c)),
      ti_providerModelName = fc_providerModelName (ai_candidate (am_identity c)), ti_costId = am_costId c,
      ti_source = am_source c, ti_priceId = am_priceId c, ti_contexts = contexts\<rparr>"

definition budget_input_of :: "admit_command \<Rightarrow> plan_subscription \<Rightarrow> int \<Rightarrow> timestamp \<Rightarrow> budget_input" where
  "budget_input_of c s maximum now =
     \<lparr>bi_planId = am_planId c, bi_subscription = am_subscription c, bi_apiKey = am_apiKey c, bi_user = am_user c,
      bi_effectiveStart = su_effectiveStart s, bi_effectiveEnd = su_effectiveEnd s,
      bi_maxTokens = am_inputTokens c + am_maxOutputTokens c, bi_maxCharge = maximum, bi_occurredAt = now\<rparr>"

definition occupation_of :: "admit_command \<Rightarrow> stored_attempt \<Rightarrow> int \<Rightarrow> financial_terms \<Rightarrow> occupation_input" where
  "occupation_of c a maximum t =
     \<lparr>oc_ref = sa_ref a, oc_planId = am_planId c, oc_refs = references_of c,
      oc_maxTokens = am_inputTokens c + am_maxOutputTokens c, oc_maxCharge = maximum, oc_account = am_account c,
      oc_inputTokens = am_inputTokens c, oc_maxOutputTokens = am_maxOutputTokens c, oc_preparation = am_preparation c,
      oc_serviceTier = fz_serviceTier (ft_price t), oc_priceSource = price_source_text (am_source c), oc_priceId = am_priceId c,
      oc_tierKey = fz_tierKey (ft_price t), oc_snapshotJson = fz_snapshotJson (ft_price t), oc_createdAt = sa_startedAt a\<rparr>"

text \<open>What is decided before anything is written: the terms and the most that the attempt may cost.\<close>

definition decide_terms ::
  "admission_world \<Rightarrow> admit_command \<Rightarrow> locked_account option \<Rightarrow> timestamp \<Rightarrow> tables \<Rightarrow> books
     \<Rightarrow> (plan_subscription \<times> routing_facts \<times> financial_terms \<times> int) result" where
  "decide_terms w c account now db b =
     rbind (available_subscription w c now) (\<lambda>s.
     rbind (assertFrozenRoutingPath (aw_routing w) (am_identity c)) (\<lambda>f.
     rbind (loadInvocationBillingReferenceDecision f c (su_scopeRef s)) (\<lambda>contexts.
     rbind (prepareInvocationBillingFinancialTerms (aw_prices w) (terms_input_of c contexts) (am_inputTokens c) (am_serviceTier c)) (\<lambda>t.
     rbind (maximumInvocationChargeUnits (am_inputTokens c) (am_maxOutputTokens c) (fz_units (ft_price t))) (\<lambda>maximum.
       if am_inputTokens c + am_maxOutputTokens c > BILLING_MAX_INT64 \<or> maximum > BILLING_MAX_INT64
       then relay ''invalid_provider_attempt'' 400
       else rbind (assertInvocationPlanBudgets (aw_planLimits w) (budget_input_of c s maximum now) db b) (\<lambda>_.
            if am_apiKey c \<notin> aw_apiKeys w then relay ''request_execution_not_found'' 409
            else rbind (assertInvocationDirectBudgets (aw_keyLimits w) (budget_input_of c s maximum now) db b) (\<lambda>_.
                 rbind (case (given (am_account c), account) of
                          (Some _, Some a) \<Rightarrow> assertInvocationBillingCapacity (aw_paygoLimit w) a (am_user c) maximum b
                        | _ \<Rightarrow> Inr ()) (\<lambda>_.
                   Inr (s, f, t, maximum)))))))))"

fun decision_source :: "admission_decision \<Rightarrow> string option" where
  "decision_source (Replay _ source) = source"
| "decision_source (Admit_first _ source) = Some source"
| "decision_source (Admit_fallback _ source) = source"

text \<open>\<open>ids\<close> are the identifiers drawn for the attempt and for its reservation.\<close>

definition admit_new ::
  "admission_world \<Rightarrow> admit_command \<Rightarrow> admission_decision \<Rightarrow> locked_account option \<Rightarrow> timestamp \<Rightarrow> string \<times> string \<Rightarrow> (app, admission) tx" where
  "admit_new w c d account now ids =
     tx_bind (reading (decide_terms w c account now)) (\<lambda>(s, f, t, maximum).
     tx_bind (on_request (execute_admission (admission_identity_of c) d now (protected_material c s f t) (fst ids))) (\<lambda>a.
     tx_bind (on_books (\<lambda>db. createInvocationBillingOccupation (find_attempt db (sa_ref a)) (occupation_of c a maximum t) (snd ids))) (\<lambda>reservation.
       tx_return \<lparr>ad_attemptId = sa_ref a, ad_maxTokens = am_inputTokens c + am_maxOutputTokens c, ad_maxCharge = maximum,
                  ad_reservationId = reservation, ad_reservationUnits = map_option (\<lambda>_. maximum) reservation,
                  ad_admittedAt = sa_startedAt a\<rparr>)))"

definition admitProviderInvocation :: "admission_world \<Rightarrow> admit_command \<Rightarrow> timestamp \<Rightarrow> string \<times> string \<Rightarrow> (app, admission) tx" where
  "admitProviderInvocation w c now ids =
     (let identity = admission_identity_of c
      in tx_bind (tx_lift (assertAdmissionNumbers c)) (\<lambda>_.
         tx_bind (reading (\<lambda>db _. find_replay identity db)) (\<lambda>found.
           case found of
             Some r \<Rightarrow> reading (equivalentAdmission r c)
           | None \<Rightarrow>
               tx_bind (reading (\<lambda>_. lockInvocationBillingAdmissionFunding (am_account c) (am_user c))) (\<lambda>account.
               tx_bind (tx_lift (require (aw_requestLog w (ai_requestId identity) = Some (am_apiKey c, am_user c))
                          (RelayError ''request_execution_not_found'' 409 []))) (\<lambda>_.
               tx_bind (reading (\<lambda>db _. inspect_new (admission_kind_of c) identity now (Some None) db)) (\<lambda>d.
                 case d of
                   Replay stored source \<Rightarrow> reading (equivalentAdmission (stored, source) c)
                 | _ \<Rightarrow>
                     tx_bind (tx_lift (require (decision_source d = Some (am_subscription c)) source_conflict)) (\<lambda>_.
                       admit_new w c d account now ids)))))))"

end
