(* ===== verification/Billing_Settlement.thy ===== *)
theory Billing_Settlement
  imports Billing_Commands
begin

section \<open>What a settlement does to the books\<close>

text \<open>
  The effect of each operation of \<open>Billing_Books\<close> and \<open>Billing_Commands\<close> on the rows, and the invariant of
  the books beside the attempts table: an attempt has its claim while it is unsettled and its usage fact
  afterwards, a hold is open exactly as long, every charge in the ledger belongs to one usage fact, and the
  balance of an account is the sum of its ledger.
\<close>

subsection \<open>Looking rows up\<close>

lemma find_append: "List.find P (xs @ ys) = (case List.find P xs of None \<Rightarrow> List.find P ys | Some x \<Rightarrow> Some x)"
  by (induction xs) auto

lemma find_filter_key: "List.find (\<lambda>x. k x = r) (filter (\<lambda>x. k x \<noteq> s) xs) = (if r = s then None else List.find (\<lambda>x. k x = r) xs)"
  by (induction xs) auto

lemma find_key_unique:
  assumes "distinct (map k xs)"
  shows "List.find (\<lambda>x. k x = r) xs = Some x \<longleftrightarrow> x \<in> set xs \<and> k x = r"
  using assms by (induction xs) auto

lemma find_key_None: "List.find (\<lambda>x. k x = r) xs = None \<longleftrightarrow> r \<notin> k ` set xs"
  by (auto simp: find_None_iff)

lemma find_map_key:
  assumes "\<And>x. x \<in> set xs \<Longrightarrow> k (g x) = k x"
  shows "List.find (\<lambda>x. k x = r) (map g xs) = map_option g (List.find (\<lambda>x. k x = r) xs)"
  using assms by (induction xs) auto

lemma find_key_SomeD: "List.find (\<lambda>x. k x = r) xs = Some x \<Longrightarrow> x \<in> set xs \<and> k x = r"
  by (auto simp: find_Some_iff)

lemmas finders = find_claim_def find_reservation_def find_fact_def find_account_def

lemma distinct_filter_key: "distinct (map k xs) \<Longrightarrow> distinct (map k (filter P xs))"
  by (induction xs) auto

subsection \<open>The rows of a settlement\<close>

lemma insert_edges_Inr:
  "insert_edges a i n ps b = Inr (x, b') \<Longrightarrow> \<exists>es. b' = b\<lparr>edges := edges b @ es\<rparr>"
proof (induction ps arbitrary: n b)
  case Nil
  then show ?case by (auto intro: exI [of _ "[]"])
next
  case (Cons p ps)
  then obtain e where "insert_edges a i (n + 1) ps (b\<lparr>edges := edges b @ [e]\<rparr>) = Inr (x, b')"
    by (auto simp: effects insert_edge_def)
  from Cons.IH [OF this] show ?case by auto
qed

lemma insert_seller_revenue_Inr:
  assumes "insert_seller_revenue a i w b = Inr (x, b')"
  shows "\<exists>ses. b' = b\<lparr>seller_events := seller_events b @ ses\<rparr> \<and> (\<forall>s \<in> set ses. se_sourceId s = ff_eventId i)"
  using assms
  by (auto simp: insert_seller_revenue_def insertSellerSettlement_def insert_seller_event_def split: if_splits
      intro: exI [of _ "[]"])

lemma insert_upstream_cost_Inr:
  assumes "insert_upstream_cost a i w b = Inr (x, b')"
  shows "\<exists>ses. b' = b\<lparr>seller_events := seller_events b @ ses\<rparr> \<and> (\<forall>s \<in> set ses. se_sourceId s = ff_eventId i)"
  using assms
  by (auto simp: insert_upstream_cost_def insertSellerSettlement_def insert_seller_event_def effects split: if_splits list.splits
      intro: exI [of _ "[]"])

definition with_final_facts ::
  "'a attempt_snapshot_scheme \<Rightarrow> final_facts \<Rightarrow> access_point_edge list \<Rightarrow> seller_event list \<Rightarrow> books \<Rightarrow> books" where
  "with_final_facts a i es ses b =
     b\<lparr>billing_events := billing_events b @ [billing_event_of a i], history_refs := history_refs b @ [history_ref_of a i],
       cost_events := cost_events b @ [cost_event_of a i], edges := edges b @ es, seller_events := seller_events b @ ses\<rparr>"

lemma createFinalBillingFacts_Inr:
  assumes "createFinalBillingFacts a i b = Inr (x, b')"
  obtains es ses where "b' = with_final_facts a i es ses b" "\<forall>s \<in> set ses. se_sourceId s = ff_eventId i"
    "ff_eventId i \<notin> be_id ` set (billing_events b)" "ff_eventId i \<notin> hr_billingEvent ` set (history_refs b)"
    "sn_ref a \<notin> pc_attempt ` set (cost_events b)"
proof -
  from assms obtain b1 b2 b3 b4 b5 w where steps:
    "insert_billing_event (billing_event_of a i) b = Inr ((), b1)" "insert_history_ref (history_ref_of a i) b1 = Inr ((), b2)"
    "insert_cost_event (cost_event_of a i) b2 = Inr ((), b3)" "insert_edges a i 0 (ff_prices i) b3 = Inr ((), b4)"
    "insert_seller_revenue a i w b4 = Inr ((), b5)" "insert_upstream_cost a i w b5 = Inr (x, b')"
    by (auto simp: createFinalBillingFacts_def effects)
  from insert_edges_Inr [OF steps(4)] obtain es where es: "b4 = b3\<lparr>edges := edges b3 @ es\<rparr>" by blast
  from insert_seller_revenue_Inr [OF steps(5)] obtain s1 where s1: "b5 = b4\<lparr>seller_events := seller_events b4 @ s1\<rparr>"
    "\<forall>s \<in> set s1. se_sourceId s = ff_eventId i" by blast
  from insert_upstream_cost_Inr [OF steps(6)] obtain s2 where s2: "b' = b5\<lparr>seller_events := seller_events b5 @ s2\<rparr>"
    "\<forall>s \<in> set s2. se_sourceId s = ff_eventId i" by blast
  have inserted: "b1 = b\<lparr>billing_events := billing_events b @ [billing_event_of a i]\<rparr>"
    "b2 = b1\<lparr>history_refs := history_refs b1 @ [history_ref_of a i]\<rparr>"
    "b3 = b2\<lparr>cost_events := cost_events b2 @ [cost_event_of a i]\<rparr>"
    and fresh: "ff_eventId i \<notin> be_id ` set (billing_events b)" "ff_eventId i \<notin> hr_billingEvent ` set (history_refs b1)"
      "sn_ref a \<notin> pc_attempt ` set (cost_events b2)"
    using steps(1-3)
    by (auto simp: insert_billing_event_def insert_history_ref_def insert_cost_event_def billing_event_of_def history_ref_of_def
        cost_event_of_def list_ex_iff split: if_splits)
  show thesis
  proof (rule that)
    show "b' = with_final_facts a i es (s1 @ s2) b" by (simp add: s2 s1 es inserted with_final_facts_def)
  qed (use fresh s1(2) s2(2) inserted in auto)
qed

lemma with_final_facts_simps [simp]:
  "claims (with_final_facts a i es ses b) = claims b" "reservations (with_final_facts a i es ses b) = reservations b"
  "accounts (with_final_facts a i es ses b) = accounts b" "ledger (with_final_facts a i es ses b) = ledger b"
  "facts (with_final_facts a i es ses b) = facts b" "paygo_users (with_final_facts a i es ses b) = paygo_users b"
  "billing_events (with_final_facts a i es ses b) = billing_events b @ [billing_event_of a i]"
  "history_refs (with_final_facts a i es ses b) = history_refs b @ [history_ref_of a i]"
  "cost_events (with_final_facts a i es ses b) = cost_events b @ [cost_event_of a i]"
  "seller_events (with_final_facts a i es ses b) = seller_events b @ ses"
  by (simp_all add: with_final_facts_def)

text \<open>The charge, where there is one.\<close>

definition charge_posted :: "settle_input \<Rightarrow> int \<Rightarrow> string option \<Rightarrow> books \<Rightarrow> books \<Rightarrow> bool" where
  "charge_posted i charge posting b b' \<longleftrightarrow>
     (case posting of
        None \<Rightarrow> ledger b' = ledger b \<and> accounts b' = accounts b
      | Some l \<Rightarrow> l = st_ledgerId i \<and> 0 < charge \<and> l \<notin> lv_id ` set (ledger b)
          \<and> \<not> (\<exists>x \<in> set (ledger b). lv_type x = ''usage_charge'' \<and> lv_attempt x = Some (st_ref i))
          \<and> (\<exists>a sub actor. st_account i = Some a \<and> find_account b (la_id a) \<noteq> None
               \<and> ledger b' = ledger b @ [usage_charge_entry a charge (st_eventId i) (st_ref i) sub actor (st_settledAt i) l]
               \<and> accounts b' = map (\<lambda>x. if ca_id x = la_id a then charged_account a charge (st_settledAt i) l x else x) (accounts b)))"

lemma post_charge_Inr:
  assumes "post_charge charged i charge sub actor b = Inr (posting, b')" "charged \<Longrightarrow> 0 < charge"
  shows "charge_posted i charge posting b b'" "claims b' = claims b" "reservations b' = reservations b" "facts b' = facts b"
    "billing_events b' = billing_events b" "history_refs b' = history_refs b" "cost_events b' = cost_events b"
    "seller_events b' = seller_events b" "edges b' = edges b" "paygo_users b' = paygo_users b"
    "posting = None \<longleftrightarrow> \<not> charged"
proof -
  have "charge_posted i charge posting b b' \<and> claims b' = claims b \<and> reservations b' = reservations b \<and> facts b' = facts b
    \<and> billing_events b' = billing_events b \<and> history_refs b' = history_refs b \<and> cost_events b' = cost_events b
    \<and> seller_events b' = seller_events b \<and> edges b' = edges b \<and> paygo_users b' = paygo_users b \<and> (posting = None \<longleftrightarrow> \<not> charged)"
  proof (cases charged)
    case False
    with assms show ?thesis by (simp add: post_charge_def charge_posted_def)
  next
    case True
    with assms(1) obtain l where l: "posting = Some l"
      "appendUsageCharge (st_account i) charge (st_eventId i) (st_ref i) sub actor (st_settledAt i) (st_ledgerId i) b = Inr (l, b')"
      by (auto simp: post_charge_def effects)
    then obtain a where a: "st_account i = Some a" by (auto simp: appendUsageCharge_def split: option.splits)
    with l(2) True assms(2) show ?thesis unfolding l(1)
      by (auto simp: appendUsageCharge_def charge_posted_def effects insert_ledger_event_def update_account_def finders
          usage_charge_entry_def list_ex_iff split: if_splits)
  qed
  then show "charge_posted i charge posting b b'" "claims b' = claims b" "reservations b' = reservations b" "facts b' = facts b"
    "billing_events b' = billing_events b" "history_refs b' = history_refs b" "cost_events b' = cost_events b"
    "seller_events b' = seller_events b" "edges b' = edges b" "paygo_users b' = paygo_users b"
    "posting = None \<longleftrightarrow> \<not> charged" by blast+
qed

text \<open>Everything that a first settlement writes.\<close>

definition settlement_effect :: "settle_input \<Rightarrow> books \<Rightarrow> settlement_result \<Rightarrow> books \<Rightarrow> bool" where
  "settlement_effect i b r b' \<longleftrightarrow>
     (\<exists>f e h p ses.
        r = settled_with i (uf_actual f) (uf_posting f)
        \<and> facts b' = facts b @ [f] \<and> uf_attempt f = st_ref i \<and> uf_usage f = st_usage i \<and> uf_billingEvent f = st_eventId i
        \<and> charge_posted i (uf_actual f) (uf_posting f) b b'
        \<and> claims b' = filter (\<lambda>c. bc_attempt c \<noteq> st_ref i) (claims b)
        \<and> reservations b' = (case find_reservation b (st_ref i) of
              None \<Rightarrow> reservations b
            | Some old \<Rightarrow> map (\<lambda>x. if ur_id x = ur_id old then ended_reservation i (uf_posting f) x else x) (reservations b))
        \<and> billing_events b' = billing_events b @ [e] \<and> be_id e = st_eventId i \<and> be_units e = uf_actual f \<and> be_usage e = st_usage i
        \<and> history_refs b' = history_refs b @ [h] \<and> hr_billingEvent h = st_eventId i \<and> hr_units h = uf_actual f
        \<and> cost_events b' = cost_events b @ [p] \<and> pc_attempt p = st_ref i
        \<and> seller_events b' = seller_events b @ ses \<and> (\<forall>s \<in> set ses. se_sourceId s = st_eventId i)
        \<and> st_eventId i \<notin> be_id ` set (billing_events b) \<and> st_eventId i \<notin> hr_billingEvent ` set (history_refs b)
        \<and> st_ref i \<notin> pc_attempt ` set (cost_events b) \<and> st_ref i \<notin> uf_attempt ` set (facts b)
        \<and> st_eventId i \<notin> uf_billingEvent ` set (facts b))"

lemma insert_fact_Inr:
  "insert_fact f b = Inr (x, b') \<longleftrightarrow>
     uf_attempt f \<notin> uf_attempt ` set (facts b) \<and> uf_billingEvent f \<notin> uf_billingEvent ` set (facts b) \<and> b' = b\<lparr>facts := facts b @ [f]\<rparr>"
  by (auto simp: insert_fact_def list_ex_iff) (metis imageI)+

lemma end_reservation_Inr:
  assumes "end_reservation i posting reservation b = Inr (x, b')"
  shows "b' = (case reservation of None \<Rightarrow> b
    | Some old \<Rightarrow> b\<lparr>reservations := map (\<lambda>x. if ur_id x = ur_id old then ended_reservation i posting x else x) (reservations b)\<rparr>)"
  using assms by (auto simp: end_reservation_def update_reservation_def split: option.splits if_splits)

lemma charge_posted_cong:
  assumes "charge_posted i charge posting b1 b2" "ledger b1 = ledger b" "accounts b1 = accounts b"
    "ledger b' = ledger b2" "accounts b' = accounts b2"
  shows "charge_posted i charge posting b b'"
  using assms by (cases posting) (simp_all add: charge_posted_def find_account_def)

lemma settlement_effectI:
  assumes create: "createFinalBillingFacts a ff b = Inr (u1, b1)" and ref: "sn_ref a = st_ref i"
    and ff: "ff_eventId ff = st_eventId i" "ff_usage ff = st_usage i" "ff_actual ff = charge"
    and post: "post_charge charged i charge sub actor b1 = Inr (posting, b2)" "charged \<Longrightarrow> 0 < charge"
    and "insert_fact (fact_of i refs charge snapshot occurred posting) b2 = Inr (u2, b3)"
    and claims: "claims b' = filter (\<lambda>c. bc_attempt c \<noteq> st_ref i) (claims b3)"
    and reservations: "reservations b' = (case find_reservation b (st_ref i) of None \<Rightarrow> reservations b3
       | Some old \<Rightarrow> map (\<lambda>x. if ur_id x = ur_id old then ended_reservation i posting x else x) (reservations b3))"
    and rest: "ledger b' = ledger b3" "accounts b' = accounts b3" "facts b' = facts b3" "billing_events b' = billing_events b3"
      "history_refs b' = history_refs b3" "cost_events b' = cost_events b3" "seller_events b' = seller_events b3"
  shows "settlement_effect i b (settled_with i charge posting) b'"
proof -
  obtain es ses where facts1: "b1 = with_final_facts a ff es ses b" "\<forall>s \<in> set ses. se_sourceId s = st_eventId i"
    "st_eventId i \<notin> be_id ` set (billing_events b)" "st_eventId i \<notin> hr_billingEvent ` set (history_refs b)"
    "st_ref i \<notin> pc_attempt ` set (cost_events b)"
    using createFinalBillingFacts_Inr [OF create] unfolding ff ref by metis
  note posted = post_charge_Inr [OF post]
  note b3 = assms(8) [unfolded insert_fact_Inr]
  have charge: "charge_posted i charge posting b b'"
    by (rule charge_posted_cong [OF posted(1)]) (simp_all add: rest b3 facts1(1))
  have ended: "reservations b' = (case find_reservation b (st_ref i) of None \<Rightarrow> reservations b
       | Some old \<Rightarrow> map (\<lambda>x. if ur_id x = ur_id old then ended_reservation i posting x else x) (reservations b))"
    using reservations b3 posted(3) facts1(1) by (auto split: option.splits)
  show ?thesis
    unfolding settlement_effect_def
    apply (intro exI [of _ "fact_of i refs charge snapshot occurred posting"] exI [of _ "billing_event_of a ff"]
      exI [of _ "history_ref_of a ff"] exI [of _ "cost_event_of a ff"] exI [of _ ses])
    unfolding fact_of_def usage_fact.select_convs ended claims
    using charge b3 facts1 ref ff
    by (simp add: rest posted fact_of_def billing_event_of_def history_ref_of_def cost_event_of_def)
qed

lemma settle_protected_effect:
  assumes "settleProtectedInvocationBilling a i b = Inr (r, b')" "sn_ref a = st_ref i"
  shows "settlement_effect i b r b'"
proof -
  obtain claim where claim: "find_claim b (st_ref i) = Some claim"
    using assms(1) by (auto simp: settleProtectedInvocationBilling_def split: option.splits)
  obtain ff refs charge sub posting snapshot b1 b2 b3 b4 b5 u1 u2 u3 u4 where steps:
    "createFinalBillingFacts a ff b = Inr (u1, b1)" "ff_eventId ff = st_eventId i" "ff_usage ff = st_usage i" "ff_actual ff = charge"
    "post_charge (charge > 0 \<and> find_reservation b (st_ref i) \<noteq> None) i charge sub None b1 = Inr (posting, b2)"
    "insert_fact (fact_of i refs charge snapshot (sn_startedAt a) posting) b2 = Inr (u2, b3)"
    "delete_claim (st_ref i) b3 = Inr (u3, b4)"
    "end_reservation i posting (find_reservation b (st_ref i)) b4 = Inr (u4, b5)"
    "tx_return (settled_with i charge posting) b5 = Inr (r, b')"
    using assms(1) unfolding settleProtectedInvocationBilling_def claim option.case Let_def tx_bind_Inr tx_lift_Inr
    apply (elim exE conjE)
    apply hypsubst
    apply (rule that, assumption)
    by (simp_all only: final_facts.select_convs)
  have b': "b' = b5" "r = settled_with i charge posting" using steps(9) by simp_all
  have b4: "b4 = b3\<lparr>claims := filter (\<lambda>c. bc_attempt c \<noteq> st_ref i) (claims b3)\<rparr>"
    using steps(7) by (auto simp: delete_claim_def split: option.splits if_splits)
  show ?thesis
    unfolding b'(2)
    by (rule settlement_effectI [OF steps(1) assms(2) steps(2-5) _ steps(6)])
      (use end_reservation_Inr [OF steps(8)] in \<open>simp_all add: b'(1) b4 split: option.splits\<close>)
qed

lemma settle_claimless_effect:
  assumes "settleClaimlessInvocationBilling lc a i b = Inr (r, b')" "sn_ref a = st_ref i"
  shows "settlement_effect i b r b'"
proof -
  have none: "find_claim b (st_ref i) = None" "find_reservation b (st_ref i) = None"
    using assms(1) by (auto simp: settleClaimlessInvocationBilling_def split: if_splits)
  obtain ff refs charge sub actor posting snapshot b1 b2 b3 u1 u2 where steps:
    "createFinalBillingFacts a ff b = Inr (u1, b1)" "ff_eventId ff = st_eventId i" "ff_usage ff = st_usage i" "ff_actual ff = charge"
    "post_charge (sn_planBillingMode a = ''paygo'' \<and> charge > 0) i charge sub actor b1 = Inr (posting, b2)"
    "insert_fact (fact_of i refs charge snapshot (sn_startedAt a) posting) b2 = Inr (u2, b3)"
    "tx_return (settled_with i charge posting) b3 = Inr (r, b')"
    using assms(1) unfolding settleClaimlessInvocationBilling_def none not_True_eq_False simp_thms if_False Let_def
      tx_bind_Inr tx_lift_Inr
    apply (elim exE conjE)
    apply hypsubst
    apply (rule that, assumption)
    by (simp_all only: final_facts.select_convs)
  have b': "b' = b3" "r = settled_with i charge posting" using steps(7) by simp_all
  obtain es ses where "b1 = with_final_facts a ff es ses b"
    using createFinalBillingFacts_Inr [OF steps(1)] by metis
  moreover have "b3 = b2\<lparr>facts := facts b2 @ [fact_of i refs charge snapshot (sn_startedAt a) posting]\<rparr>"
    using steps(6) by (simp add: insert_fact_Inr)
  ultimately have "claims b3 = claims b" using post_charge_Inr(2) [OF steps(5)] by simp
  then have claims: "filter (\<lambda>c. bc_attempt c \<noteq> st_ref i) (claims b3) = claims b3"
    using none(1) by (auto simp: find_claim_def find_None_iff intro!: filter_True)
  show ?thesis
    unfolding b'
    by (rule settlement_effectI [OF steps(1) assms(2) steps(2-5) _ steps(6)]) (simp_all add: claims none)
qed

lemma snapshot_ref:
  assumes "attempt_snapshot_of db ref = Inr attempt"
  shows "case attempt of Protected a \<Rightarrow> sn_ref a = ref | Claimless a \<Rightarrow> sn_ref a = ref"
proof -
  obtain row where row: "find_attempt db ref = Some row" "readInvocationBillingAttemptSnapshot row = Inr attempt"
    using assms by (auto simp: attempt_snapshot_of_def split: option.splits)
  from find_attempt_Some [OF row(1)] row(2) show ?thesis
    by (auto simp: readInvocationBillingAttemptSnapshot_def Let_def effects common_snapshot_def attempt_snapshot.defs
        split: if_splits)
qed

lemma settle_effect:
  assumes "settleInvocationBilling lc attempt i b = Inr (r, b')" "find_fact b (st_ref i) = None"
    and "attempt_snapshot_of db (st_ref i) = Inr attempt"
  shows "settlement_effect i b r b'"
  using assms(1,2) snapshot_ref [OF assms(3)]
  by (auto simp: settleInvocationBilling_def intro: settle_protected_effect settle_claimless_effect split: billing_attempt.splits)

lemma settle_again:
  assumes "settleInvocationBilling lc attempt i b = Inr (r, b')" "find_fact b (st_ref i) = Some f"
  shows "b' = b" "same_usage (uf_usage f) (st_usage i)"
    "r = \<lparr>rs_actual = uf_actual f, rs_posting = uf_posting f, rs_billingEvent = uf_billingEvent f, rs_replayed = True\<rparr>"
  using assms by (auto simp: settleInvocationBilling_def split: if_splits)

subsection \<open>The invariant of the books\<close>

text \<open>What billing knows of an attempt: its contract and whether its usage is settled.\<close>

type_synonym attempts_view = "string \<Rightarrow> (string \<times> bool) option"

definition view_of :: "tables \<Rightarrow> attempts_view" where
  "view_of db ref = map_option (\<lambda>a. (at_invocationContract a, at_usageSettled a)) (find_attempt db ref)"

definition unique_keys :: "books \<Rightarrow> bool" where
  "unique_keys b \<longleftrightarrow>
     distinct (map bc_attempt (claims b)) \<and> distinct (map ur_id (reservations b)) \<and> distinct (map ur_attempt (reservations b))
     \<and> distinct (map ca_id (accounts b)) \<and> distinct (map lv_id (ledger b)) \<and> distinct (map uf_attempt (facts b))
     \<and> distinct (map uf_billingEvent (facts b)) \<and> distinct (map be_id (billing_events b))
     \<and> distinct (map hr_billingEvent (history_refs b)) \<and> distinct (map pc_attempt (cost_events b))"

definition hold_ok :: "books \<Rightarrow> usage_reservation \<Rightarrow> bool" where
  "hold_ok b r \<longleftrightarrow>
     0 \<le> ur_held r \<and> ur_held r \<le> ur_units r
     \<and> (case find_fact b (ur_attempt r) of
          None \<Rightarrow> is_open r \<and> ur_posting r = None
        | Some f \<Rightarrow> is_ended (ur_status r) \<and> ur_held r = 0 \<and> ur_posting r = uf_posting f)"

definition occupied :: "attempts_view \<Rightarrow> books \<Rightarrow> bool" where
  "occupied v b \<longleftrightarrow>
     (\<forall>ref. find_fact b ref \<noteq> None \<longleftrightarrow> (\<exists>k. v ref = Some (k, True)))
     \<and> (\<forall>ref. find_claim b ref \<noteq> None \<longleftrightarrow> v ref = Some (''protected@1'', False))
     \<and> (\<forall>r \<in> set (reservations b). hold_ok b r \<and> (\<exists>settled. v (ur_attempt r) = Some (''protected@1'', settled)))"

definition charge_of_fact :: "usage_fact \<Rightarrow> ledger_event \<Rightarrow> bool" where
  "charge_of_fact f e \<longleftrightarrow>
     uf_posting f = Some (lv_id e) \<and> lv_type e = ''usage_charge'' \<and> lv_amount e = - uf_actual f \<and> 0 < uf_actual f
     \<and> lv_attempt e = Some (uf_attempt f) \<and> lv_billingEvent e = Some (uf_billingEvent f)"

definition charges_recorded :: "books \<Rightarrow> bool" where
  "charges_recorded b \<longleftrightarrow>
     (\<forall>f \<in> set (facts b). uf_posting f \<noteq> None \<longrightarrow> (\<exists>e \<in> set (ledger b). charge_of_fact f e))
     \<and> (\<forall>e \<in> set (ledger b). lv_attempt e \<noteq> None \<longrightarrow> (\<exists>f \<in> set (facts b). charge_of_fact f e))"

definition event_of_fact :: "usage_fact \<Rightarrow> billing_event \<Rightarrow> bool" where
  "event_of_fact f e \<longleftrightarrow> be_id e = uf_billingEvent f \<and> be_units e = uf_actual f \<and> be_usage e = uf_usage f"

definition history_of_fact :: "usage_fact \<Rightarrow> history_ref \<Rightarrow> bool" where
  "history_of_fact f h \<longleftrightarrow> hr_billingEvent h = uf_billingEvent f \<and> hr_units h = uf_actual f"

definition events_recorded :: "books \<Rightarrow> bool" where
  "events_recorded b \<longleftrightarrow>
     (\<forall>f \<in> set (facts b). (\<exists>e \<in> set (billing_events b). event_of_fact f e) \<and> (\<exists>h \<in> set (history_refs b). history_of_fact f h))
     \<and> pc_attempt ` set (cost_events b) = uf_attempt ` set (facts b)
     \<and> hr_billingEvent ` set (history_refs b) = be_id ` set (billing_events b)
     \<and> se_sourceId ` set (seller_events b) \<subseteq> be_id ` set (billing_events b)"

definition ledger_total :: "books \<Rightarrow> string \<Rightarrow> int" where
  "ledger_total b aid = sum_list (map lv_amount (filter (\<lambda>e. lv_account e = aid) (ledger b)))"

definition balanced :: "books \<Rightarrow> bool" where
  "balanced b \<longleftrightarrow> (\<forall>a \<in> set (accounts b). ca_balance a = ledger_total b (ca_id a))"

definition books_ok :: "attempts_view \<Rightarrow> books \<Rightarrow> bool" where
  "books_ok v b \<longleftrightarrow> unique_keys b \<and> occupied v b \<and> charges_recorded b \<and> events_recorded b \<and> balanced b"

subsection \<open>A settlement keeps it\<close>

definition locked_in :: "books \<Rightarrow> locked_account option \<Rightarrow> bool" where
  "locked_in b account \<longleftrightarrow> (\<forall>a. account = Some a \<longrightarrow> (\<exists>x \<in> set (accounts b). a = lock_of x))"

lemma locked_account_in: "locked_in b (lockInvocationBillingSettlementAccount attempt ref b)"
  by (auto simp: locked_in_def lockInvocationBillingSettlementAccount_def lockCreditAccount_def finders
      dest!: find_key_SomeD split: option.splits if_splits)

lemma charge_posted_ids:
  assumes "charge_posted i charge posting b b'"
  shows "map ca_id (accounts b') = map ca_id (accounts b)"
  using assms by (cases posting) (auto simp: charge_posted_def charged_account_def)

lemma charge_posted_ledger:
  assumes "charge_posted i charge posting b b'"
  obtains "posting = None" "ledger b' = ledger b"
    | e where "posting = Some (lv_id e)" "ledger b' = ledger b @ [e]" "lv_id e \<notin> lv_id ` set (ledger b)"
      "lv_type e = ''usage_charge''" "lv_amount e = - charge" "0 < charge" "lv_attempt e = Some (st_ref i)"
      "lv_billingEvent e = Some (st_eventId i)"
  using assms
proof (cases posting)
  case None
  with assms that(1) show thesis by (simp add: charge_posted_def)
next
  case (Some l)
  with assms obtain a sub actor where "l = st_ledgerId i" "0 < charge" "l \<notin> lv_id ` set (ledger b)"
    "ledger b' = ledger b @ [usage_charge_entry a charge (st_eventId i) (st_ref i) sub actor (st_settledAt i) l]"
    by (auto simp: charge_posted_def)
  with Some show thesis
    by (intro that(2) [of "usage_charge_entry a charge (st_eventId i) (st_ref i) sub actor (st_settledAt i) l"])
      (simp_all add: usage_charge_entry_def)
qed

lemma settlement_balanced:
  assumes posted: "charge_posted i charge posting b b'" and "balanced b" "distinct (map ca_id (accounts b))"
    and "locked_in b (st_account i)"
  shows "balanced b'"
proof (cases posting)
  case None
  with posted assms(2) show ?thesis by (simp add: charge_posted_def balanced_def ledger_total_def)
next
  case (Some l)
  with posted obtain a sub actor where a: "st_account i = Some a"
    "ledger b' = ledger b @ [usage_charge_entry a charge (st_eventId i) (st_ref i) sub actor (st_settledAt i) l]"
    "accounts b' = map (\<lambda>x. if ca_id x = la_id a then charged_account a charge (st_settledAt i) l x else x) (accounts b)"
    by (auto simp: charge_posted_def)
  from assms(4) a(1) obtain x where x: "x \<in> set (accounts b)" "a = lock_of x" by (auto simp: locked_in_def)
  from assms(3) have "y = x" if "y \<in> set (accounts b)" "ca_id y = ca_id x" for y
    using that x(1) by (auto simp: distinct_map dest: inj_onD)
  then show ?thesis
    using assms(2) x by (fastforce simp: balanced_def ledger_total_def a(2,3) usage_charge_entry_def charged_account_def lock_of_def)
qed

lemma settlement_effectE:
  assumes "settlement_effect i b r b'"
  obtains f e h p ses where "r = settled_with i (uf_actual f) (uf_posting f)"
    "facts b' = facts b @ [f]" "uf_attempt f = st_ref i" "uf_usage f = st_usage i" "uf_billingEvent f = st_eventId i"
    "charge_posted i (uf_actual f) (uf_posting f) b b'" "claims b' = filter (\<lambda>c. bc_attempt c \<noteq> st_ref i) (claims b)"
    "reservations b' = (case find_reservation b (st_ref i) of
              None \<Rightarrow> reservations b
            | Some old \<Rightarrow> map (\<lambda>x. if ur_id x = ur_id old then ended_reservation i (uf_posting f) x else x) (reservations b))"
    "billing_events b' = billing_events b @ [e]" "event_of_fact f e" "history_refs b' = history_refs b @ [h]"
    "history_of_fact f h" "cost_events b' = cost_events b @ [p]" "pc_attempt p = st_ref i"
    "seller_events b' = seller_events b @ ses" "\<forall>s \<in> set ses. se_sourceId s = st_eventId i"
    "st_eventId i \<notin> be_id ` set (billing_events b)" "st_eventId i \<notin> hr_billingEvent ` set (history_refs b)"
    "st_ref i \<notin> pc_attempt ` set (cost_events b)" "st_ref i \<notin> uf_attempt ` set (facts b)"
    "st_eventId i \<notin> uf_billingEvent ` set (facts b)"
  using assms unfolding settlement_effect_def
  by (elim exE conjE) (rule that, (assumption | simp add: event_of_fact_def history_of_fact_def)+)

lemma settlement_unique_keys:
  assumes "settlement_effect i b r b'" "unique_keys b"
  shows "unique_keys b'"
  using assms(1)
proof (cases rule: settlement_effectE)
  case effect: (1 f e h p ses)
  have "map ur_id (reservations b') = map ur_id (reservations b)" "map ur_attempt (reservations b') = map ur_attempt (reservations b)"
    by (auto simp: effect(8) ended_reservation_def split: option.splits)
  moreover have "distinct (map lv_id (ledger b'))"
    using charge_posted_ledger [OF effect(6)] assms(2) by (cases; simp add: unique_keys_def)
  ultimately show ?thesis
    using assms(2) effect charge_posted_ids [OF effect(6)]
    by (simp add: unique_keys_def distinct_filter_key event_of_fact_def history_of_fact_def)
qed

lemma settlement_charges:
  assumes "settlement_effect i b r b'" "charges_recorded b"
  shows "charges_recorded b'"
  using assms(1)
proof (cases rule: settlement_effectE)
  case effect: (1 f e h p ses)
  from effect(6) show ?thesis
  proof (cases rule: charge_posted_ledger)
    case 1
    then show ?thesis using assms(2) by (simp add: charges_recorded_def effect(2))
  next
    case (2 l)
    then have "charge_of_fact f l" by (simp add: charge_of_fact_def effect)
    with 2 show ?thesis using assms(2) by (auto simp: charges_recorded_def effect(2))
  qed
qed

lemma settlement_events:
  assumes "settlement_effect i b r b'" "events_recorded b"
  shows "events_recorded b'"
  using assms(1)
proof (cases rule: settlement_effectE)
  case effect: (1 f e h p ses)
  have "hr_billingEvent h = be_id e" "be_id e = st_eventId i"
    using effect(5,10,12) by (simp_all add: event_of_fact_def history_of_fact_def)
  then show ?thesis
    using assms(2) effect(3,10,12,14,16) by (auto simp: events_recorded_def effect(2,9,11,13,15))
qed

lemma settlement_occupied:
  assumes "settlement_effect i b r b'" "unique_keys b" "occupied v b" "v (st_ref i) = Some (k, False)"
  shows "occupied (v(st_ref i \<mapsto> (k, True))) b'"
  using assms(1)
proof (cases rule: settlement_effectE)
  case effect: (1 f e h p ses)
  have fact: "find_fact b' ref = (if ref = st_ref i then Some f else find_fact b ref)" for ref
    using effect(20) by (auto simp: find_fact_def effect(2,3) find_append find_key_None [symmetric] split: option.splits)
  have claim: "find_claim b' ref = (if ref = st_ref i then None else find_claim b ref)" for ref
    by (simp add: find_claim_def effect(7) find_filter_key)
  have holds: "hold_ok b' r \<and> (\<exists>s. (v(st_ref i \<mapsto> (k, True))) (ur_attempt r) = Some (''protected@1'', s))"
    if "r \<in> set (reservations b')" for r
  proof (cases "find_reservation b (st_ref i)")
    case None
    then have r: "r \<in> set (reservations b)" using that effect(8) by simp
    with None have "ur_attempt r \<noteq> st_ref i" by (auto simp: find_reservation_def find_None_iff)
    with r show ?thesis using assms(3) by (auto simp: occupied_def hold_ok_def fact)
  next
    case (Some old)
    from find_key_SomeD [OF Some [unfolded find_reservation_def]] have old: "old \<in> set (reservations b)" "ur_attempt old = st_ref i" by simp_all
    have ids: "inj_on ur_id (set (reservations b))" "inj_on ur_attempt (set (reservations b))"
      using assms(2) by (simp_all add: unique_keys_def distinct_map)
    from that Some effect(8) obtain x where x: "x \<in> set (reservations b)"
      "r = (if ur_id x = ur_id old then ended_reservation i (uf_posting f) x else x)" by auto
    have ok: "hold_ok b x" "\<exists>s. v (ur_attempt x) = Some (''protected@1'', s)" using assms(3) x(1) by (auto simp: occupied_def)
    show ?thesis
    proof (cases "ur_id x = ur_id old")
      case True
      with ids(1) x(1) old(1) have "x = old" by (auto dest: inj_onD)
      with True ok assms(4) show ?thesis
        by (auto simp: x(2) hold_ok_def ended_reservation_def fact old(2) is_ended_def)
    next
      case False
      then have "ur_attempt x \<noteq> st_ref i" using inj_onD [OF ids(2) _ x(1) old(1)] old(2) by metis
      with False ok show ?thesis by (auto simp: x(2) hold_ok_def fact)
    qed
  qed
  show ?thesis
    using assms(3,4) holds by (auto simp: occupied_def fact claim)
qed

lemma settlement_keeps_books:
  assumes "settlement_effect i b r b'" "books_ok v b" "v (st_ref i) = Some (k, False)" "locked_in b (st_account i)"
  shows "books_ok (v(st_ref i \<mapsto> (k, True))) b'"
proof -
  have ok: "unique_keys b" "occupied v b" "charges_recorded b" "events_recorded b" "balanced b"
    using assms(2) by (simp_all add: books_ok_def)
  obtain f :: usage_fact where posted: "charge_posted i (uf_actual f) (uf_posting f) b b'"
    using assms(1) by (rule settlement_effectE) (rule that, assumption)
  have "distinct (map ca_id (accounts b))" using ok(1) by (simp add: unique_keys_def)
  then show ?thesis
    using settlement_unique_keys [OF assms(1) ok(1)] settlement_occupied [OF assms(1) ok(1,2) assms(3)]
      settlement_charges [OF assms(1) ok(3)] settlement_events [OF assms(1) ok(4)] settlement_balanced [OF posted ok(5) _ assms(4)]
    by (simp add: books_ok_def)
qed

subsection \<open>The other operations keep it\<close>

lemma tables_of_books_only:
  assumes "ledger b' = ledger b" "accounts b' = accounts b" "facts b' = facts b" "billing_events b' = billing_events b"
    "history_refs b' = history_refs b" "cost_events b' = cost_events b" "seller_events b' = seller_events b"
  shows "charges_recorded b' = charges_recorded b" "events_recorded b' = events_recorded b" "balanced b' = balanced b"
    "find_fact b' ref = find_fact b ref" "find_account b' aid = find_account b aid"
  using assms by (simp_all add: charges_recorded_def events_recorded_def balanced_def ledger_total_def finders)

definition occupation_effect :: "occupation_input \<Rightarrow> string \<Rightarrow> string option \<Rightarrow> books \<Rightarrow> books \<Rightarrow> bool" where
  "occupation_effect i freshId reservation b b' \<longleftrightarrow>
     0 \<le> oc_maxCharge i \<and> find_claim b (oc_ref i) = None
     \<and> (case given (oc_account i) of
          None \<Rightarrow> reservation = None \<and> b' = b\<lparr>claims := claims b @ [claim_of i]\<rparr>
        | Some account \<Rightarrow> reservation = Some freshId
            \<and> b' = b\<lparr>claims := claims b @ [claim_of i], reservations := reservations b @ [reservation_of i account freshId]\<rparr>
            \<and> freshId \<notin> ur_id ` set (reservations b) \<and> oc_ref i \<notin> ur_attempt ` set (reservations b))"

text \<open>The holds that an occupation adds: one, or none.\<close>

lemma occupation_rows:
  assumes "occupation_effect i freshId reservation b b'"
  obtains rs where "b' = b\<lparr>claims := claims b @ [claim_of i], reservations := reservations b @ rs\<rparr>"
    "find_claim b (oc_ref i) = None"
    "\<And>r. r \<in> set rs \<Longrightarrow> ur_attempt r = oc_ref i \<and> ur_status r = Hold_active \<and> ur_posting r = None
       \<and> 0 \<le> ur_held r \<and> ur_held r = ur_units r"
    "distinct (map ur_id rs)" "distinct (map ur_attempt rs)" "ur_id ` set rs \<inter> ur_id ` set (reservations b) = {}"
    "ur_attempt ` set rs \<inter> ur_attempt ` set (reservations b) = {}"
proof (cases "given (oc_account i)")
  case None
  with assms show thesis by (intro that [of "[]"]) (simp_all add: occupation_effect_def)
next
  case (Some account)
  with assms show thesis
    by (intro that [of "[reservation_of i account freshId]"]) (auto simp: occupation_effect_def reservation_of_def)
qed

lemma insert_claim_Inr:
  "insert_claim attempt c b = Inr (x, b') \<longleftrightarrow>
     claim_insert_allowed attempt c \<and> find_claim b (bc_attempt c) = None \<and> b' = b\<lparr>claims := claims b @ [c]\<rparr>"
  by (auto simp: insert_claim_def)

lemma insert_reservation_Inr:
  "insert_reservation attempt r b = Inr (x, b') \<longleftrightarrow>
     reservation_insert_allowed attempt r \<and> ur_id r \<notin> ur_id ` set (reservations b) \<and> ur_attempt r \<notin> ur_attempt ` set (reservations b)
     \<and> b' = b\<lparr>reservations := reservations b @ [r]\<rparr>"
  by (auto simp: insert_reservation_def list_ex_iff) (metis imageI)+

lemma occupation_Inr:
  assumes "createInvocationBillingOccupation attempt i freshId b = Inr (x, b')"
  shows "occupation_effect i freshId x b b'" "\<exists>a. attempt = Some a \<and> at_invocationContract a = ''protected@1''"
proof -
  from assms have claim: "claim_insert_allowed attempt (claim_of i)" "find_claim b (oc_ref i) = None"
    by (auto simp: createInvocationBillingOccupation_def effects insert_claim_Inr claim_of_def split: if_splits)
  then show "\<exists>a. attempt = Some a \<and> at_invocationContract a = ''protected@1''"
    by (auto simp: claim_insert_allowed_def split: option.splits)
  from claim have "0 \<le> oc_maxCharge i" by (auto simp: claim_insert_allowed_def claim_of_def split: option.splits)
  with assms claim(2) show "occupation_effect i freshId x b b'"
    by (cases "given (oc_account i)")
      (auto simp: createInvocationBillingOccupation_def occupation_effect_def effects insert_claim_Inr insert_reservation_Inr
        reservation_of_def split: if_splits)
qed

lemma occupied_refs:
  assumes "occupied v b"
  shows "find_fact b ref \<noteq> None \<longleftrightarrow> (\<exists>k. v ref = Some (k, True))"
    and "find_claim b ref \<noteq> None \<longleftrightarrow> v ref = Some (''protected@1'', False)"
    and "r \<in> set (reservations b) \<Longrightarrow> hold_ok b r"
    and "r \<in> set (reservations b) \<Longrightarrow> \<exists>settled. v (ur_attempt r) = Some (''protected@1'', settled)"
  using assms unfolding occupied_def by blast+

lemma occupied_unknown:
  assumes "occupied v b" "v ref = None"
  shows "find_fact b ref = None" "find_claim b ref = None" "r \<in> set (reservations b) \<Longrightarrow> ur_attempt r \<noteq> ref"
  using occupied_refs(1,2) [OF assms(1), of ref] occupied_refs(4) [OF assms(1), of r] assms(2) by auto

lemma occupation_keeps_books:
  assumes "occupation_effect i freshId reservation b b'" "books_ok v b" "v (oc_ref i) = None"
  shows "books_ok (v(oc_ref i \<mapsto> (''protected@1'', False))) b'"
  using assms(1)
proof (cases rule: occupation_rows)
  case (1 rs)
  note b' = 1(1) and none = 1(2) and rs = 1(3) and keys = 1(4-7)
  have c: "bc_attempt (claim_of i) = oc_ref i" by (simp add: claim_of_def)
  have fact: "find_fact b' ref = find_fact b ref" for ref by (simp add: b' find_fact_def)
  have res: "reservations b' = reservations b @ rs" by (simp add: b')
  have nofact: "find_fact b (oc_ref i) = None" using assms(2,3) by (auto simp: books_ok_def intro: occupied_unknown)
  with rs have new: "hold_ok b' r" if "r \<in> set rs" for r
    using rs [OF that] by (simp add: hold_ok_def fact is_open_def)
  have claim: "find_claim b' ref = (if ref = oc_ref i then Some (claim_of i) else find_claim b ref)" for ref
    using none c by (auto simp: b' find_claim_def find_append split: option.splits)
  have old: "hold_ok b' r = hold_ok b r" for r by (simp add: hold_ok_def fact)
  have "occupied (v(oc_ref i \<mapsto> (''protected@1'', False))) b'"
    using assms(2,3) new rs nofact by (auto simp: books_ok_def occupied_def fact claim old res)
  moreover have "unique_keys b'"
    using assms(2) none c keys by (auto simp: books_ok_def unique_keys_def b' find_claim_def find_key_None)
  ultimately show ?thesis
    using assms(2) tables_of_books_only(1-3) [of b' b] by (simp add: books_ok_def b')
qed

text \<open>What the transition to reconciliation makes of the hold \<open>old\<close>; the other rows stay.\<close>

definition reconciling :: "usage_reservation \<Rightarrow> cost_exposure \<Rightarrow> timestamp \<Rightarrow> usage_reservation \<Rightarrow> usage_reservation" where
  "reconciling old exposure t x =
     (if ur_id x = ur_id old
      then x\<lparr>ur_status := Hold_reconciling, ur_held := (if exposure = Stopped then 0 else ur_held old), ur_updatedAt := t\<rparr>
      else x)"

lemma reconciling_simps [simp]:
  "ur_id (reconciling old e t x) = ur_id x" "ur_attempt (reconciling old e t x) = ur_attempt x"
  "ur_account (reconciling old e t x) = ur_account x" "ur_units (reconciling old e t x) = ur_units x"
  "ur_posting (reconciling old e t x) = ur_posting x"
  by (simp_all add: reconciling_def)

lemma mark_Inr:
  assumes "markInvocationBillingReconciliation ref exposure t b = Inr (x, b')"
  obtains "b' = b"
    | old where "find_reservation b ref = Some old" "is_open old"
      "b' = b\<lparr>reservations := map (reconciling old exposure t) (reservations b)\<rparr>"
  using assms
  by (auto simp: markInvocationBillingReconciliation_def update_reservation_def reconciling_def [abs_def]
      split: option.splits if_splits)

lemma mark_keeps_books:
  assumes "markInvocationBillingReconciliation ref exposure t b = Inr (x, b')" "books_ok v b"
  shows "books_ok v b'"
  using assms(1)
proof (cases rule: mark_Inr)
  case 1
  with assms(2) show ?thesis by simp
next
  case (2 old)
  from find_key_SomeD [OF 2(1) [unfolded find_reservation_def]] have old: "old \<in> set (reservations b)" by simp
  have ids: "inj_on ur_id (set (reservations b))" using assms(2) by (simp add: books_ok_def unique_keys_def distinct_map)
  have fact: "find_fact b' ref = find_fact b ref" and claim: "find_claim b' ref = find_claim b ref" for ref
    by (simp_all add: 2(3) finders)
  have "hold_ok b' (reconciling old exposure t r)" if r: "r \<in> set (reservations b)" for r
  proof (cases "ur_id r = ur_id old")
    case True
    with inj_onD [OF ids _ r old] have "r = old" by simp
    moreover have "hold_ok b old" using assms(2) old by (simp add: books_ok_def occupied_def)
    ultimately show ?thesis using 2(2)
      by (auto simp: hold_ok_def fact reconciling_def is_open_def is_ended_def split: option.splits)
  next
    case False
    with assms(2) r show ?thesis by (simp add: books_ok_def occupied_def hold_ok_def fact reconciling_def)
  qed
  moreover have "reservations b' = map (reconciling old exposure t) (reservations b)" by (simp add: 2(3))
  ultimately have "occupied v b'" using assms(2) by (simp add: books_ok_def occupied_def fact claim)
  moreover have "unique_keys b'" using assms(2) by (simp add: books_ok_def unique_keys_def 2(3) o_def)
  ultimately show ?thesis using assms(2) tables_of_books_only(1-3) [of b' b] by (simp add: books_ok_def 2(3))
qed

subsection \<open>Nothing is rewritten\<close>

text \<open>
  Facts, entries of the ledger and events are only ever added. A claim stays as it is until the fact of its
  attempt takes its place, the terms of a hold stay for ever, and an attempt that began without a hold gets none.
\<close>

definition same_terms :: "usage_reservation \<Rightarrow> usage_reservation \<Rightarrow> bool" where
  "same_terms r r' \<longleftrightarrow>
     r'\<lparr>ur_status := ur_status r, ur_held := ur_held r, ur_posting := ur_posting r, ur_updatedAt := ur_updatedAt r\<rparr> = r"

definition records_kept :: "books \<Rightarrow> books \<Rightarrow> bool" where
  "records_kept b b' \<longleftrightarrow>
     prefix (facts b) (facts b') \<and> prefix (ledger b) (ledger b') \<and> prefix (billing_events b) (billing_events b')
     \<and> prefix (history_refs b) (history_refs b') \<and> prefix (cost_events b) (cost_events b')"

definition occupation_kept :: "books \<Rightarrow> books \<Rightarrow> string \<Rightarrow> bool" where
  "occupation_kept b b' ref \<longleftrightarrow>
     (\<forall>c. find_claim b ref = Some c \<longrightarrow> find_claim b' ref = Some c \<or> find_fact b' ref \<noteq> None)
     \<and> (\<forall>r. find_reservation b ref = Some r \<longrightarrow> (\<exists>r'. find_reservation b' ref = Some r' \<and> same_terms r r'))
     \<and> (find_claim b ref \<noteq> None \<or> find_fact b ref \<noteq> None \<longrightarrow> find_reservation b ref = None \<longrightarrow> find_reservation b' ref = None)"

definition books_evolve :: "books \<Rightarrow> books \<Rightarrow> bool" where
  "books_evolve b b' \<longleftrightarrow> records_kept b b' \<and> (\<forall>ref. occupation_kept b b' ref)"

lemma occupation_keptD:
  assumes "occupation_kept b b' ref"
  shows "find_claim b ref = Some c \<Longrightarrow> find_claim b' ref = Some c \<or> find_fact b' ref \<noteq> None"
    and "find_reservation b ref = Some r \<Longrightarrow> \<exists>r'. find_reservation b' ref = Some r' \<and> same_terms r r'"
    and "find_claim b ref \<noteq> None \<or> find_fact b ref \<noteq> None \<Longrightarrow> find_reservation b ref = None \<Longrightarrow> find_reservation b' ref = None"
  using assms by (simp_all add: occupation_kept_def)

lemma same_terms_refl [simp]: "same_terms r r"
  by (simp add: same_terms_def)

lemma same_terms_trans: "same_terms a b \<Longrightarrow> same_terms b c \<Longrightarrow> same_terms a c"
  by (cases a; cases b; cases c) (simp add: same_terms_def)

lemma find_prefix: "prefix xs ys \<Longrightarrow> List.find P xs = Some x \<Longrightarrow> List.find P ys = Some x"
  by (auto simp: prefix_def find_append)

lemma evolve_fact: "books_evolve b b' \<Longrightarrow> find_fact b ref = Some f \<Longrightarrow> find_fact b' ref = Some f"
  unfolding books_evolve_def records_kept_def find_fact_def by (blast intro: find_prefix)

lemma books_evolve_refl [simp]: "books_evolve b b"
  by (simp add: books_evolve_def records_kept_def occupation_kept_def)

lemma books_evolve_trans:
  assumes "books_evolve a b" "books_evolve b c"
  shows "books_evolve a c"
proof -
  have "records_kept a c"
    using assms unfolding books_evolve_def records_kept_def by (blast intro: prefix_order.trans)
  moreover have "occupation_kept a c ref" for ref
  proof -
    have kept: "occupation_kept a b ref" "occupation_kept b c ref" using assms by (simp_all add: books_evolve_def)
    have fact: "find_fact b ref \<noteq> None \<Longrightarrow> find_fact c ref \<noteq> None" using evolve_fact [OF assms(2)] by auto
    have fact0: "find_fact a ref \<noteq> None \<Longrightarrow> find_fact b ref \<noteq> None" using evolve_fact [OF assms(1)] by auto
    show ?thesis
      unfolding occupation_kept_def
    proof (intro conjI allI impI)
      fix x assume "find_claim a ref = Some x"
      from occupation_keptD(1) [OF kept(1) this] show "find_claim c ref = Some x \<or> find_fact c ref \<noteq> None"
        using occupation_keptD(1) [OF kept(2), of x] fact by blast
    next
      fix r assume "find_reservation a ref = Some r"
      from occupation_keptD(2) [OF kept(1) this] obtain r1 where r1: "find_reservation b ref = Some r1" "same_terms r r1" by blast
      from occupation_keptD(2) [OF kept(2) r1(1)] same_terms_trans [OF r1(2)]
      show "\<exists>r'. find_reservation c ref = Some r' \<and> same_terms r r'" by blast
    next
      assume old: "find_claim a ref \<noteq> None \<or> find_fact a ref \<noteq> None" "find_reservation a ref = None"
      have "find_claim b ref \<noteq> None \<or> find_fact b ref \<noteq> None"
      proof (cases "find_claim a ref")
        case None
        with old(1) fact0 show ?thesis by simp
      next
        case (Some x)
        from occupation_keptD(1) [OF kept(1) this] show ?thesis by auto
      qed
      from occupation_keptD(3) [OF kept(2) this occupation_keptD(3) [OF kept(1) old]] show "find_reservation c ref = None" .
    qed
  qed
  ultimately show ?thesis by (simp add: books_evolve_def)
qed

text \<open>A step that maps the holds, keeping their terms, and keeps or settles every claim.\<close>

lemma mapped_occupation_kept:
  assumes "reservations b' = map g (reservations b)" "\<And>x. same_terms x (g x)"
    and "\<And>c. find_claim b ref = Some c \<Longrightarrow> find_claim b' ref = Some c \<or> find_fact b' ref \<noteq> None"
  shows "occupation_kept b b' ref"
proof -
  have attempt: "ur_attempt (g x) = ur_attempt x" for x
    using arg_cong [OF assms(2) [of x, unfolded same_terms_def], of ur_attempt] by simp
  have "find_reservation b' ref = map_option g (find_reservation b ref)"
    unfolding find_reservation_def assms(1) by (rule find_map_key) (rule attempt)
  then show ?thesis using assms(2,3) by (auto simp: occupation_kept_def)
qed

lemma ended_same_terms: "same_terms x (if c then ended_reservation i posting x else x)"
  by (cases x) (simp add: same_terms_def ended_reservation_def)

lemma reconciling_same_terms: "same_terms x (reconciling old e t x)"
  by (cases x) (simp add: same_terms_def reconciling_def)

lemma settlement_evolves:
  assumes "settlement_effect i b r b'"
  shows "books_evolve b b'"
  using assms
proof (cases rule: settlement_effectE)
  case effect: (1 f e h p ses)
  have "prefix (ledger b) (ledger b')"
    using charge_posted_ledger [OF effect(6)] by (cases; simp)
  then have "records_kept b b'" by (simp add: records_kept_def effect(2,9,11,13))
  moreover have fact: "find_fact b' (st_ref i) = Some f"
    using effect(3,20) by (auto simp: find_fact_def effect(2) find_append find_key_None [symmetric] split: option.splits)
  have "occupation_kept b b' ref" for ref
  proof (cases "find_reservation b (st_ref i)")
    case None
    show ?thesis
      by (rule mapped_occupation_kept [where g = "\<lambda>x. x"])
        (use effect(7,8) None fact in \<open>auto simp: find_claim_def find_filter_key\<close>)
  next
    case (Some old)
    show ?thesis
      by (rule mapped_occupation_kept [where g = "\<lambda>x. if ur_id x = ur_id old then ended_reservation i (uf_posting f) x else x"])
        (use effect(7,8) Some fact ended_same_terms in \<open>auto simp: find_claim_def find_filter_key\<close>)
  qed
  ultimately show ?thesis by (simp add: books_evolve_def)
qed

lemma occupation_evolves:
  assumes "occupation_effect i freshId reservation b b'" "find_fact b (oc_ref i) = None"
  shows "books_evolve b b'"
  using assms(1)
proof (cases rule: occupation_rows)
  case (1 rs)
  note b' = 1(1,2) and rs = 1(3)
  have "find_claim b' ref = Some x" if "find_claim b ref = Some x" for ref x
    using that by (simp add: b'(1) find_claim_def find_append)
  moreover have "find_reservation b' ref = Some x" if "find_reservation b ref = Some x" for ref x
    using that by (simp add: b'(1) find_reservation_def find_append)
  moreover have "find_reservation b' ref = None" if "find_reservation b ref = None" "ref \<noteq> oc_ref i" for ref
    using that rs by (simp add: b'(1) find_reservation_def find_append) (auto simp: find_None_iff)
  ultimately have "occupation_kept b b' ref" for ref
    using b'(2) assms(2) unfolding occupation_kept_def by (metis option.distinct(1) same_terms_refl)
  then show ?thesis by (simp add: books_evolve_def records_kept_def b'(1))
qed

lemma mark_evolves:
  assumes "markInvocationBillingReconciliation ref exposure t b = Inr (x, b')"
  shows "books_evolve b b'"
  using assms
proof (cases rule: mark_Inr)
  case (2 old)
  have "occupation_kept b b' r" for r
    by (rule mapped_occupation_kept [OF _ reconciling_same_terms]) (auto simp: 2(3) finders)
  then show ?thesis by (simp add: books_evolve_def records_kept_def 2(3))
qed simp

lemma settled_fact:
  assumes "settlement_effect i b r b'"
  shows "\<exists>f. find_fact b' (st_ref i) = Some f \<and> r = settled_with i (uf_actual f) (uf_posting f) \<and> uf_billingEvent f = st_eventId i
    \<and> uf_usage f = st_usage i"
  using assms
proof (cases rule: settlement_effectE)
  case effect: (1 f e h p ses)
  have "find_fact b' (st_ref i) = Some f"
    using effect(3,20) by (auto simp: find_fact_def effect(2) find_append find_key_None [symmetric] split: option.splits)
  with effect show ?thesis by blast
qed

end
