(* ===== verification/Billing_Claimless.thy ===== *)
theory Billing_Claimless
  imports Billing_Commands
begin

section \<open>Admission of claimless attempts\<close>

text \<open>
  The admission of an attempt of the contract \<open>cpa-basic@1\<close>, which occupies no budget: its charge is found when
  its usage is known. \<open>admitCpaBasicProviderInvocationInTransaction\<close> of
  \<open>packages/application/src/storage/provider-invocation/commands.ts\<close> checks the request, its user, the plan,
  the account, the frozen path and its prices again under locks, then freezes the prices whole and writes the
  attempt. The rows of other packages that it reads are an argument.
\<close>

record claimless_command =
  cc_attemptId :: "string option"
  cc_identity :: admission_identity
  cc_planId :: string
  cc_subscription :: string
  cc_apiKey :: string
  cc_user :: string
  cc_serviceTier :: string
  cc_requireServiceTier :: bool
  cc_source :: price_source
  cc_priceId :: string
  cc_costId :: string
  cc_accessPointPriceIds :: "string list"
  cc_account :: "string option"

record claimless_admission =
  cd_attemptId :: string
  cd_startedAt :: timestamp
  cd_replayed :: bool

abbreviation cc_routing :: "claimless_command \<Rightarrow> frozen_routing" where
  "cc_routing c \<equiv> ai_routing (cc_identity c)"

abbreviation cc_chain :: "claimless_command \<Rightarrow> string list" where
  "cc_chain c \<equiv> fr_accessPointChainIds (cc_routing c)"

abbreviation cc_path :: "claimless_command \<Rightarrow> string list" where
  "cc_path c \<equiv> fr_pathTargetEdgeIds (cc_routing c)"

abbreviation cc_candidate :: "claimless_command \<Rightarrow> frozen_candidate" where
  "cc_candidate c \<equiv> ai_candidate (cc_identity c)"

text \<open>The rows: of the request log without its end, which the execution tables hold, and of a key with its user.\<close>

record request_row =
  rq_apiKey :: string
  rq_user :: string
  rq_planId :: "string option"
  rq_subscription :: "string option"
  rq_entryAccessPoint :: "string option"
  rq_billingScopeRef :: "string option"

record principal_row =
  pr_user :: string
  pr_userStatus :: string
  pr_apiKeyStatus :: string
  pr_revokedAt :: "timestamp option"
  pr_expiresAt :: "timestamp option"

record team_row =
  tm_ownerId :: string
  tm_status :: string

record deletion_row =
  dl_team :: string
  dl_cancelledAt :: "timestamp option"
  dl_purgedAt :: "timestamp option"

text \<open>An operating entitlement of a partner team, joined with the subscription that supports it.\<close>

record partner_row =
  pn_team :: string
  pn_lifecycle :: string
  pn_effectiveStart :: timestamp
  pn_effectiveEnd :: timestamp
  pn_partnerPlanId :: string
  pn_supportPlanId :: string
  pn_supportScopeRef :: string
  pn_supportLifecycle :: string
  pn_supportEffectiveStart :: timestamp
  pn_supportEffectiveEnd :: "timestamp option"

record access_point_row =
  xp_scopeRef :: string
  xp_status :: string
  xp_removedAt :: "timestamp option"
  xp_selectorId :: string
  xp_selectorBehaviorVersion :: int
  xp_routingRevision :: int

record target_row =
  tg_edge :: path_edge
  tg_status :: string
  tg_removedAt :: "timestamp option"

record claimless_world =
  cw_requests :: "string \<Rightarrow> request_row option"
  cw_principals :: "string \<Rightarrow> principal_row option"
  cw_subscriptions :: "string \<Rightarrow> plan_subscription option"
  cw_teams :: "string \<Rightarrow> team_row option"
  cw_deletions :: "deletion_row list"
  cw_memberships :: "(string \<times> string) list"
  cw_partners :: "partner_row list"
  cw_planAccessPoints :: "(string \<times> string) list"
  cw_accessPoints :: "string \<Rightarrow> access_point_row option"
  cw_targets :: "string \<Rightarrow> target_row option"
  cw_models :: "string \<Rightarrow> path_provider option"
  cw_prices :: price_catalog

subsection \<open>Checks\<close>

definition positive_safe :: "int \<Rightarrow> bool" where
  "positive_safe n \<longleftrightarrow> is_safe_int n \<and> 1 \<le> n"

definition claimless_shape :: "claimless_command \<Rightarrow> bool" where
  "claimless_shape c \<longleftrightarrow>
     (let r = cc_routing c; revisions = fr_routingRevisions r
      in ai_executionOwnerId (cc_identity c) \<noteq> [] \<and> is_safe_int (ai_attemptIndex (cc_identity c)) \<and> 0 \<le> ai_attemptIndex (cc_identity c)
         \<and> positive_safe (fr_selectorBehaviorVersion r) \<and> positive_safe (fr_routingRevision r)
         \<and> 1 \<le> length (cc_chain c) \<and> length (cc_chain c) = length (cc_path c) \<and> length (cc_chain c) = length revisions
         \<and> length (cc_chain c) = length (cc_accessPointPriceIds c)
         \<and> distinct (cc_chain c) \<and> distinct (cc_path c) \<and> distinct (map fst revisions)
         \<and> list_all (\<lambda>x. positive_safe (snd x)) revisions
         \<and> fr_selectorAccessPointId r \<in> set (cc_chain c) \<and> fr_selectorTargetEdgeId r \<in> set (cc_path c))"

definition assertCpaBasicAdmissionShape :: "claimless_command \<Rightarrow> unit result" where
  "assertCpaBasicAdmissionShape c = require (claimless_shape c) (RelayError ''invalid_provider_attempt'' 400 [])"

definition entry_of :: "claimless_command \<Rightarrow> string" where
  "entry_of c = (case cc_chain c of [] \<Rightarrow> [] | ap # _ \<Rightarrow> ap)"

definition past :: "timestamp option \<Rightarrow> timestamp \<Rightarrow> bool" where
  "past t now \<longleftrightarrow> (case t of None \<Rightarrow> False | Some u \<Rightarrow> u \<le> now)"

definition claimless_request :: "claimless_world \<Rightarrow> claimless_command \<Rightarrow> tables \<Rightarrow> request_row result" where
  "claimless_request w c db =
     (case (cw_requests w (ai_requestId (cc_identity c)), request_logs db (ai_requestId (cc_identity c))) of
        (Some r, Some endedAt) \<Rightarrow>
          if endedAt \<noteq> None \<or> rq_apiKey r \<noteq> cc_apiKey c \<or> rq_user r \<noteq> cc_user c \<or> rq_planId r \<noteq> Some (cc_planId c)
             \<or> rq_subscription r \<noteq> Some (cc_subscription c) \<or> rq_entryAccessPoint r \<noteq> Some (entry_of c)
          then relay ''request_execution_not_found'' 409 else Inr r
      | _ \<Rightarrow> relay ''request_execution_not_found'' 409)"

definition claimless_principal :: "claimless_world \<Rightarrow> claimless_command \<Rightarrow> timestamp \<Rightarrow> unit result" where
  "claimless_principal w c now =
     (case cw_principals w (cc_apiKey c) of
        None \<Rightarrow> relay ''request_execution_not_found'' 409
      | Some p \<Rightarrow>
          if pr_user p \<noteq> cc_user c \<or> pr_userStatus p \<noteq> ''enabled'' \<or> pr_apiKeyStatus p \<noteq> ''enabled''
             \<or> pr_revokedAt p \<noteq> None \<or> past (pr_expiresAt p) now
          then relay ''request_execution_not_found'' 409 else Inr ())"

definition claimless_source :: "claimless_world \<Rightarrow> claimless_command \<Rightarrow> timestamp \<Rightarrow> plan_subscription result" where
  "claimless_source w c now =
     (case cw_subscriptions w (cc_subscription c) of
        None \<Rightarrow> relay ''plan_subscription_unavailable'' 402
      | Some s \<Rightarrow>
          if su_planId s \<noteq> cc_planId c \<or> su_lifecycle s \<noteq> ''active''
             \<or> su_effectiveStart s > now \<or> past (su_effectiveEnd s) now
             \<or> su_planStatus s \<noteq> ''enabled'' \<and> su_planStatus s \<noteq> ''closed''
          then relay ''plan_subscription_unavailable'' 402 else Inr s)"

definition partner_active :: "partner_row \<Rightarrow> string \<Rightarrow> timestamp \<Rightarrow> bool" where
  "partner_active p scope now \<longleftrightarrow>
     pn_lifecycle p = ''active'' \<and> pn_effectiveStart p \<le> now \<and> pn_effectiveEnd p > now
     \<and> pn_supportPlanId p = pn_partnerPlanId p \<and> pn_supportScopeRef p = scope \<and> pn_supportLifecycle p = ''active''
     \<and> pn_supportEffectiveStart p \<le> now \<and> \<not> past (pn_supportEffectiveEnd p) now"

definition assertTeamAuthorization :: "claimless_world \<Rightarrow> string \<Rightarrow> string \<Rightarrow> string \<Rightarrow> timestamp \<Rightarrow> unit result" where
  "assertTeamAuthorization w scope team_id user now =
     (case cw_teams w team_id of
        None \<Rightarrow> relay ''plan_subscription_unavailable'' 402
      | Some team \<Rightarrow>
          if tm_status team \<noteq> ''enabled'' then relay ''plan_subscription_unavailable'' 402
          else if list_ex (\<lambda>d. dl_team d = team_id \<and> dl_cancelledAt d = None \<and> dl_purgedAt d = None) (cw_deletions w)
          then relay ''plan_subscription_unavailable'' 402
          else if tm_ownerId team \<noteq> user \<and> (team_id, user) \<notin> set (cw_memberships w)
          then relay ''plan_subscription_unavailable'' 402
          else let partners = filter (\<lambda>p. pn_team p = team_id) (cw_partners w)
               in if partners = [] then Inr ()
                  else if \<not> list_ex (\<lambda>p. partner_active p scope now) partners
                  then relay ''partner_subscription_expired'' 402 else Inr ())"

definition assertCpaBasicSourceAuthorization :: "claimless_world \<Rightarrow> string \<Rightarrow> string \<Rightarrow> timestamp \<Rightarrow> unit result" where
  "assertCpaBasicSourceAuthorization w scope user now =
     (if scope = ''global:'' then Inr ()
      else if prefix ''user:'' scope
      then if scope = ''user:'' @ user then Inr () else relay ''plan_subscription_unavailable'' 402
      else if \<not> prefix ''team:'' scope \<or> length scope = length ''team:'' then relay ''plan_subscription_unavailable'' 402
      else assertTeamAuthorization w scope (drop (length ''team:'') scope) user now)"

definition claimless_funding :: "claimless_command \<Rightarrow> plan_subscription \<Rightarrow> books \<Rightarrow> unit result" where
  "claimless_funding c s b =
     (if su_planBillingMode s \<noteq> ''prepaid'' \<and> su_planBillingMode s \<noteq> ''paygo'' then relay ''plan_billing_mode_invalid'' 500
      else if (su_planBillingMode s = ''paygo'') \<noteq> (given (cc_account c) \<noteq> None)
      then relay ''usage_charge_account_not_found'' 409
      else case given (cc_account c) of
             None \<Rightarrow> Inr ()
           | Some aid \<Rightarrow>
               (case find_account b aid of
                  None \<Rightarrow> relay ''usage_charge_account_not_found'' 402
                | Some a \<Rightarrow>
                    if ca_scope a \<noteq> ''user:'' @ cc_user c \<or> ca_status a \<noteq> ''active''
                    then relay ''usage_charge_account_not_found'' 402
                    else if ca_balance a \<le> 0 then relay ''insufficient_credit'' 402 else Inr ()))"

text \<open>The AccessPoints and the targets of the frozen path, each with its revision and its state now.\<close>

definition access_point_current :: "claimless_world \<Rightarrow> (string \<Rightarrow> int option) \<Rightarrow> string \<Rightarrow> bool" where
  "access_point_current w revisions ap \<longleftrightarrow>
     (case cw_accessPoints w ap of
        None \<Rightarrow> False
      | Some x \<Rightarrow> xp_status x = ''enabled'' \<and> xp_removedAt x = None \<and> revisions ap = Some (xp_routingRevision x))"

definition selector_current :: "claimless_world \<Rightarrow> frozen_routing \<Rightarrow> bool" where
  "selector_current w r \<longleftrightarrow>
     (case cw_accessPoints w (fr_selectorAccessPointId r) of
        None \<Rightarrow> False
      | Some x \<Rightarrow> xp_selectorId x = fr_selectorId r \<and> xp_selectorBehaviorVersion x = fr_selectorBehaviorVersion r
          \<and> xp_routingRevision x = fr_routingRevision r)"

fun targets_current :: "claimless_world \<Rightarrow> frozen_candidate \<Rightarrow> string list \<Rightarrow> string list \<Rightarrow> bool" where
  "targets_current w k (ap # aps) (edge # path) \<longleftrightarrow>
     (case cw_targets w edge of
        None \<Rightarrow> False
      | Some t \<Rightarrow> tg_status t = ''enabled'' \<and> tg_removedAt t = None \<and> pe_accessPoint (tg_edge t) = ap
          \<and> edge_matches k (first_of aps) (tg_edge t)) \<and> targets_current w k aps path"
| "targets_current w k [] path \<longleftrightarrow> True"
| "targets_current w k (ap # aps) [] \<longleftrightarrow> False"

definition selector_edge_current :: "claimless_world \<Rightarrow> frozen_routing \<Rightarrow> bool" where
  "selector_edge_current w r \<longleftrightarrow>
     (case cw_targets w (fr_selectorTargetEdgeId r) of
        None \<Rightarrow> False | Some t \<Rightarrow> pe_accessPoint (tg_edge t) = fr_selectorAccessPointId r)"

definition claimless_path :: "claimless_world \<Rightarrow> claimless_command \<Rightarrow> unit result" where
  "claimless_path w c =
     (let r = cc_routing c; changed = Inl access_changed
      in if (cc_planId c, entry_of c) \<notin> set (cw_planAccessPoints w) then changed
         else if \<not> list_all (access_point_current w (map_of (rev (fr_routingRevisions r)))) (cc_chain c) then changed
         else if \<not> selector_current w r then changed
         else if \<not> targets_current w (cc_candidate c) (cc_chain c) (cc_path c) then changed
         else if \<not> selector_edge_current w r then changed
         else Inr ())"

definition claimless_provider :: "claimless_world \<Rightarrow> claimless_command \<Rightarrow> path_provider result" where
  "claimless_provider w c =
     (case cw_models w (fc_providerModelId (cc_candidate c)) of
        None \<Rightarrow> Inl access_changed
      | Some p \<Rightarrow>
          if pp_providerId p \<noteq> fc_providerId (cc_candidate c) \<or> pp_modelName p \<noteq> fc_providerModelName (cc_candidate c)
             \<or> pp_modelStatus p \<noteq> ''enabled'' \<or> pp_providerStatus p \<noteq> ''enabled'' \<or> pp_bindingStatus p \<noteq> ''ready''
          then Inl access_changed else Inr p)"

definition access_point_price_current :: "price_catalog \<Rightarrow> string \<Rightarrow> string \<Rightarrow> bool" where
  "access_point_price_current g ap price \<longleftrightarrow>
     (case pg_accessPoint g price of None \<Rightarrow> False | Some (owner, row) \<Rightarrow> profileStatus row = ''enabled'' \<and> owner = ap)"

definition claimless_prices :: "claimless_world \<Rightarrow> claimless_command \<Rightarrow> unit result" where
  "claimless_prices w c =
     (let g = cw_prices w
      in if \<not> list_all2 (access_point_price_current g) (cc_chain c) (cc_accessPointPriceIds c) then Inl access_changed
         else rbind (case cc_source c of
                       From_access_point \<Rightarrow>
                         require (cc_priceId c \<in> set (cc_accessPointPriceIds c) \<and> access_point_price_current g (entry_of c) (cc_priceId c))
                           (RelayError ''billable_price_changed'' 409 [])
                     | From_plan \<Rightarrow>
                         (case pg_plan g (cc_priceId c) of
                            None \<Rightarrow> relay ''billable_price_changed'' 409
                          | Some (plan, ap, row) \<Rightarrow>
                              if plan \<noteq> cc_planId c \<or> ap \<noteq> entry_of c \<or> profileStatus row \<noteq> ''enabled''
                              then relay ''billable_price_changed'' 409 else Inr ())) (\<lambda>_.
              case pg_cost g (cc_costId c) of
                None \<Rightarrow> Inl access_changed
              | Some (provider, model, row) \<Rightarrow>
                  if provider \<noteq> fc_providerId (cc_candidate c) \<or> model \<noteq> fc_providerModelName (cc_candidate c)
                     \<or> profileStatus row \<noteq> ''enabled''
                  then Inl access_changed else Inr ()))"

subsection \<open>The attempt\<close>

text \<open>The scopes and the edges of the path, as \<^const>\<open>price_contexts\<close> reads them.\<close>

definition claimless_facts :: "claimless_world \<Rightarrow> claimless_command \<Rightarrow> string \<Rightarrow> routing_facts" where
  "claimless_facts w c owner =
     \<lparr>rf_accessPoints = (\<lambda>ap. if ap \<in> set (cc_chain c)
                              then map_option (\<lambda>x. (xp_scopeRef x, xp_routingRevision x)) (cw_accessPoints w ap) else None),
      rf_edges = (\<lambda>e. if e \<in> set (cc_path c) then map_option tg_edge (cw_targets w e) else None),
      rf_ownerScopeRef = owner\<rparr>"

definition claimless_terms_input :: "claimless_command \<Rightarrow> price_context list \<Rightarrow> terms_input" where
  "claimless_terms_input c contexts =
     \<lparr>ti_planId = cc_planId c, ti_providerId = fc_providerId (cc_candidate c),
      ti_providerModelName = fc_providerModelName (cc_candidate c), ti_costId = cc_costId c,
      ti_source = cc_source c, ti_priceId = cc_priceId c, ti_contexts = contexts\<rparr>"

definition text_or_null :: "string option \<Rightarrow> jsval" where
  "text_or_null v = (case v of None \<Rightarrow> JNull | Some s \<Rightarrow> JStr s)"

definition claimless_material ::
  "claimless_command \<Rightarrow> plan_subscription \<Rightarrow> path_provider \<Rightarrow> claimless_terms \<Rightarrow> persistence_material" where
  "claimless_material c s p t =
     \<lparr>pm_providerAttemptRef = given (cc_attemptId c), pm_invocationContract = ''cpa-basic@1'',
      pm_frozen =
       [(''planSubscriptionId'', JStr (cc_subscription c)), (''apiKeyId'', JStr (cc_apiKey c)), (''userId'', JStr (cc_user c)),
        (''usageChargeAccountId'', text_or_null (cc_account c)), (''requireServiceTier'', JBool (cc_requireServiceTier c)),
        (''billablePriceProfileJson'', JStr (ct_priceProfileJson t)), (''providerCostProfileJson'', JStr (ct_costProfileJson t)),
        (''accessPointPriceProfilesJson'', JStr (ct_accessPointProfilesJson t)),
        (''billablePriceSource'', JStr (price_source_text (cc_source c))), (''billablePriceId'', JStr (cc_priceId c)),
        (''billablePriceTierKey'', JNull), (''billablePriceSnapshotJson'', JNull), (''inputTokens'', JNull),
        (''maxOutputTokens'', JNull), (''tokenizerId'', JNull), (''tokenizerVersion'', JNull), (''preparationEvidenceId'', JNull),
        (''preparationEvidenceVersion'', JNull), (''preparedPayloadId'', JNull),
        (''requestedServiceTier'', JStr (cc_serviceTier c)), (''billingScopeRef'', JStr (su_scopeRef s)),
        (''planSellerScopeRef'', JStr (su_planScopeRef s)), (''planBillingMode'', JStr (su_planBillingMode s)),
        (''subscriptionEffectiveStart'', jint (su_effectiveStart s)), (''providerOwnerScopeRef'', JStr (pp_ownerScopeRef p)),
        (''providerModelCostId'', JStr (cc_costId c)), (''providerCostTierKey'', JNull), (''providerCostSnapshotJson'', JNull),
        (''accessPointPriceSnapshotsJson'', JNull)]\<rparr>"

text \<open>Everything that is checked before the attempt is written, in the order of the code.\<close>

definition decide_claimless ::
  "(string \<Rightarrow> string \<Rightarrow> int) \<Rightarrow> claimless_world \<Rightarrow> claimless_command \<Rightarrow> timestamp \<Rightarrow> tables \<Rightarrow> books \<Rightarrow> persistence_material result" where
  "decide_claimless lc w c now db b =
     rbind (claimless_request w c db) (\<lambda>request.
     rbind (claimless_principal w c now) (\<lambda>_.
     rbind (claimless_source w c now) (\<lambda>s.
     rbind (require (rq_billingScopeRef request = Some (su_scopeRef s)) (RelayError ''plan_subscription_unavailable'' 409 [])) (\<lambda>_.
     rbind (assertCpaBasicSourceAuthorization w (su_scopeRef s) (cc_user c) now) (\<lambda>_.
     rbind (claimless_funding c s b) (\<lambda>_.
     rbind (claimless_path w c) (\<lambda>_.
     rbind (claimless_provider w c) (\<lambda>p.
     rbind (claimless_prices w c) (\<lambda>_.
     rbind (price_contexts (claimless_facts w c (pp_ownerScopeRef p)) (su_scopeRef s)
              (zip (cc_chain c) (zip (cc_path c) (cc_accessPointPriceIds c)))) (\<lambda>contexts.
     rbind (prepareClaimlessInvocationBillingFinancialTerms lc (cw_prices w) (claimless_terms_input c contexts)) (\<lambda>terms.
       Inr (claimless_material c s p terms))))))))))))"

subsection \<open>Replays\<close>

definition frozen_price_id :: "jsval \<Rightarrow> string result" where
  "frozen_price_id item =
     (case item of
        JObj kvs \<Rightarrow> (case js_get kvs ''priceId'' of JStr s \<Rightarrow> Inr s | _ \<Rightarrow> Inl snapshot_invalid)
      | _ \<Rightarrow> Inl snapshot_invalid)"

definition frozenClaimlessAccessPointPriceIds :: "string option \<Rightarrow> string list result" where
  "frozenClaimlessAccessPointPriceIds json =
     (case json of
        None \<Rightarrow> Inl snapshot_invalid
      | Some text \<Rightarrow> rbind (parseStringifiedArray text) (traverse frozen_price_id))"

definition claimless_columns_match :: "attempt_row \<Rightarrow> claimless_command \<Rightarrow> bool" where
  "claimless_columns_match a c \<longleftrightarrow>
     (let i = cc_identity c; r = cc_routing c
      in at_invocationContract a = ''cpa-basic@1''
         \<and> (case cc_attemptId c of None \<Rightarrow> True | Some ref \<Rightarrow> at_id a = ref)
         \<and> at_requestId a = ai_requestId i \<and> at_attemptIndex a = ai_attemptIndex i
         \<and> at_selectorAccessPointId a = fr_selectorAccessPointId r \<and> at_selectorId a = fr_selectorId r
         \<and> at_selectorBehaviorVersion a = fr_selectorBehaviorVersion r \<and> at_routingRevision a = fr_routingRevision r
         \<and> at_routingRevisionsJson a = routing_revisions_json (fr_routingRevisions r)
         \<and> at_candidate a = cc_candidate c
         \<and> at_selectorTargetEdgeId a = fr_selectorTargetEdgeId r
         \<and> at_pathTargetEdgeIdsJson a = ids_json (fr_pathTargetEdgeIds r)
         \<and> at_accessPointChainIdsJson a = ids_json (fr_accessPointChainIds r)
         \<and> frozen_text a ''planSubscriptionId'' = Some (cc_subscription c) \<and> frozen_text a ''apiKeyId'' = Some (cc_apiKey c)
         \<and> frozen_text a ''userId'' = Some (cc_user c) \<and> frozen_text a ''usageChargeAccountId'' = cc_account c
         \<and> frozen_text a ''requestedServiceTier'' = Some (cc_serviceTier c)
         \<and> frozen_flag a ''requireServiceTier'' = cc_requireServiceTier c
         \<and> frozen_text a ''billablePriceSource'' = Some (price_source_text (cc_source c))
         \<and> frozen_text a ''billablePriceId'' = Some (cc_priceId c) \<and> frozen_text a ''providerModelCostId'' = Some (cc_costId c))"

definition assertEquivalentCpaBasicAttempt :: "attempt_row \<Rightarrow> claimless_command \<Rightarrow> unit result" where
  "assertEquivalentCpaBasicAttempt a c =
     (if \<not> claimless_columns_match a c then Inl idempotency_conflict
      else rbind (frozenClaimlessAccessPointPriceIds (frozen_text a ''accessPointPriceProfilesJson'')) (\<lambda>ids.
             require (joined ids = joined (cc_accessPointPriceIds c)) idempotency_conflict))"

definition existing_claimless :: "tables \<Rightarrow> claimless_command \<Rightarrow> attempt_row list" where
  "existing_claimless db c =
     filter (\<lambda>a. at_requestId a = ai_requestId (cc_identity c)
       \<and> (fc_candidateId (at_candidate a) = fc_candidateId (cc_candidate c) \<or> at_attemptIndex a = ai_attemptIndex (cc_identity c)))
       (attempts db)"

definition claimless_identity :: "claimless_command \<Rightarrow> admission_identity" where
  "claimless_identity c = (cc_identity c)\<lparr>ai_selectedSourceRef :=
     (if ai_attemptIndex (cc_identity c) = 0 then Some (cc_subscription c) else None)\<rparr>"

definition claimless_kind :: "claimless_command \<Rightarrow> admission_kind" where
  "claimless_kind c = (if ai_attemptIndex (cc_identity c) = 0 then First_attempt else Fallback_attempt)"

definition claimless_replay :: "claimless_command \<Rightarrow> tables \<Rightarrow> claimless_admission result" where
  "claimless_replay c db =
     (case List.find (\<lambda>a. fc_candidateId (at_candidate a) = fc_candidateId (cc_candidate c)) (existing_claimless db c) of
        None \<Rightarrow> Inl idempotency_conflict
      | Some existing \<Rightarrow>
          if length (existing_claimless db c) \<noteq> 1 then Inl idempotency_conflict
          else rbind (assertEquivalentCpaBasicAttempt existing c) (\<lambda>_.
               rbind (find_replay (claimless_identity c) db) (\<lambda>replay.
                 case replay of
                   None \<Rightarrow> relay ''provider_invocation_ownership_lost'' 409
                 | Some _ \<Rightarrow> Inr \<lparr>cd_attemptId = at_id existing, cd_startedAt = at_startedAt existing, cd_replayed = True\<rparr>)))"

definition decided_as :: "admission_kind \<Rightarrow> admission_decision \<Rightarrow> bool" where
  "decided_as k d \<longleftrightarrow>
     (case d of Replay _ _ \<Rightarrow> False | Admit_first _ _ \<Rightarrow> k = First_attempt | Admit_fallback _ _ \<Rightarrow> k = Fallback_attempt)"

definition admitCpaBasicProviderInvocation ::
  "(string \<Rightarrow> string \<Rightarrow> int) \<Rightarrow> claimless_world \<Rightarrow> claimless_command \<Rightarrow> timestamp \<Rightarrow> string \<Rightarrow> (app, claimless_admission) tx" where
  "admitCpaBasicProviderInvocation lc w c now fresh =
     tx_bind (tx_lift (assertCpaBasicAdmissionShape c)) (\<lambda>_.
     tx_bind (reading (\<lambda>db _. Inr (existing_claimless db c))) (\<lambda>existing.
       if existing \<noteq> [] then reading (\<lambda>db _. claimless_replay c db)
       else
         tx_bind (reading (decide_claimless lc w c now)) (\<lambda>material.
         tx_bind (reading (\<lambda>db _. inspect_new (claimless_kind c) (claimless_identity c) now (Some None) db)) (\<lambda>d.
         tx_bind (tx_lift (require (decided_as (claimless_kind c) d) idempotency_conflict)) (\<lambda>_.
         tx_bind (on_request (execute_admission (claimless_identity c) d now material fresh)) (\<lambda>a.
           tx_return \<lparr>cd_attemptId = sa_ref a, cd_startedAt = sa_startedAt a, cd_replayed = False\<rparr>))))))"

end
