(* ===== verification/Billing_Runs.thy ===== *)
theory Billing_Runs
  imports Billing_Settlement Billing_Claimless
begin

section \<open>Runs of the invocation commands\<close>

text \<open>
  The commands of \<open>provider-invocation/commands.ts\<close> in any order, beside the other writers of the same tables:
  the commands of the request execution package that billing does not see (leases, the end of a request), postings of other packages to the ledger, the events of other services, new
  accounts. The theorems are about every state such a run reaches.
\<close>

subsection \<open>What a command of the execution tables does to the view of billing\<close>

lemma same_attempts_view: "attempts db' = attempts db \<Longrightarrow> view_of db' = view_of db"
  by (simp add: view_of_def find_attempt_def fun_eq_iff)

lemma find_after_update:
  assumes "update_attempt ref f db = Inr (x, db')" "\<And>a. at_id (f a) = at_id a"
  shows "find_attempt db' r = (if r = ref then map_option f (find_attempt db ref) else find_attempt db r)"
proof -
  let ?g = "\<lambda>a. if at_id a = ref then f a else a"
  from assms(1) have rows: "attempts db' = map ?g (attempts db)"
    by (auto simp: update_attempt_def split: option.splits if_splits)
  have "find_attempt db' r = map_option ?g (find_attempt db r)"
    unfolding find_attempt_def rows by (rule find_map_key) (simp add: assms(2))
  then show ?thesis
    by (cases "find_attempt db r") (auto simp: find_attempt_Some)
qed

lemma update_keeps_view:
  assumes "update_attempt ref f db = Inr (x, db')"
    "\<And>a. at_id (f a) = at_id a \<and> at_invocationContract (f a) = at_invocationContract a \<and> at_usageSettled (f a) = at_usageSettled a"
  shows "view_of db' = view_of db"
  using find_after_update [OF assms(1)] assms(2) by (auto simp: view_of_def fun_eq_iff option.map_comp o_def)

lemma update_execution_attempts: "update_execution rid f db = Inr (x, db') \<Longrightarrow> attempts db' = attempts db"
  by (auto simp: update_execution_def split: option.splits)

lemma terminal_arbiter_attempts: "terminal_arbiter c m db = Inr (x, db') \<Longrightarrow> attempts db' = attempts db"
  by (auto simp: terminal_arbiter_def dest: update_execution_attempts split: option.splits if_splits)

lemma fail_attempts: "fail_request_execution rid owner code t db = Inr (x, db') \<Longrightarrow> attempts db' = attempts db"
  by (auto simp: fail_request_execution_def dest: terminal_arbiter_attempts split: option.splits if_splits)

lemma lease_attempts:
  "acquire_lease now rid owner ttl db = Inr (x, db') \<Longrightarrow> attempts db' = attempts db"
  "renew_lease now rid owner ttl db = Inr (x, db') \<Longrightarrow> attempts db' = attempts db"
  "release_lease rid owner db = Inr (y, db') \<Longrightarrow> attempts db' = attempts db"
  by (auto simp: acquire_lease_def renew_lease_def release_lease_def Let_def effects split: option.splits if_splits)

lemma dispatch_view:
  assumes "assert_dispatch ref rid owner t db = Inr (d, db')"
  shows "view_of db' = view_of db"
  using assms
  by (auto simp: assert_dispatch_def effects dest!: update_keeps_view terminal_arbiter_attempts [THEN same_attempts_view]
      split: option.splits if_splits)

lemma reconcile_view:
  assumes "reconcile c t db = Inr (d, db')"
  shows "view_of db' = view_of db"
  using assms
  by (auto simp: reconcile_def Let_def effects dest!: update_keeps_view terminal_arbiter_attempts [THEN same_attempts_view]
      split: option.splits if_splits)

lemma finalize_lock_cases:
  assumes "finalize_lock c strict db = Inr (d, db')"
  obtains a where "db' = db" "find_attempt db (fi_ref c) = Some a" "fd_ref d = fi_ref c"
    "fd_alreadyFinalized d = at_usageSettled a" "fd_invocationContract d = at_invocationContract a"
    "at_invocationContract a = ''protected@1'' \<or> at_invocationContract a = ''cpa-basic@1''"
  using assms
  by (auto simp: finalize_lock_def Let_def effects find_attempt_Some split: option.splits if_splits)

lemma finalize_complete_view:
  assumes "finalize_complete d c t db = Inr (x, db')" "find_attempt db (fd_ref d) = Some a"
  shows "fd_alreadyFinalized d \<Longrightarrow> db' = db"
    and "\<not> fd_alreadyFinalized d \<Longrightarrow> view_of db' = (view_of db)(fd_ref d \<mapsto> (at_invocationContract a, True))"
proof -
  show "db' = db" if "fd_alreadyFinalized d" using assms(1) that by (simp add: finalize_complete_def)
next
  assume new: "\<not> fd_alreadyFinalized d"
  let ?f = "\<lambda>x. x\<lparr>at_outcome := Some (fi_outcome c),
                      at_failureClass := fd_expectedFailureClass d, at_failureReason := fd_expectedFailureReason d,
                      at_outputCommitted := fd_expectedOutputCommitted d,
                      at_trustedUsageSource := Some (fi_trustedUsageSource c), at_endedAt := Some t,
                      at_costExposure := Stopped, at_finalUsageEvidence := Final_usage, at_usageSettled := True,
                      at_reconciliationReason := None\<rparr>"
  from assms(1) new obtain db1 where up: "update_attempt (fd_ref d) ?f db = Inr ((), db1)" and same: "attempts db' = attempts db1"
    by (auto simp: finalize_complete_def effects dest: terminal_arbiter_attempts split: option.splits)
  have "view_of db1 = (view_of db)(fd_ref d \<mapsto> (at_invocationContract a, True))"
    using find_after_update [OF up] assms(2) by (auto simp: view_of_def fun_eq_iff)
  with same_attempts_view [OF same] show "view_of db' = (view_of db)(fd_ref d \<mapsto> (at_invocationContract a, True))" by simp
qed

lemma persist_view:
  assumes "persist_attempt c source u startedAt m fresh db = Inr (stored, db')"
  shows "view_of db (attempt_ref m fresh) = None" "sa_ref stored = attempt_ref m fresh"
    "view_of db' = (view_of db)(attempt_ref m fresh \<mapsto> (pm_invocationContract m, False))"
proof -
  show unused: "view_of db (attempt_ref m fresh) = None"
    using persist_used_ref [of db m fresh c source u startedAt "(stored, db')"] assms
    by (cases "find_attempt db (attempt_ref m fresh)") (simp_all add: view_of_def)
  from assms show "sa_ref stored = attempt_ref m fresh"
    by (auto simp: persist_attempt_def Let_def attempt_ref_def [symmetric] effects stored_of_command_def)
  from assms have "attempts db' = attempts db @ [new_attempt_row c (attempt_ref m fresh) u startedAt m]"
    by (cases source)
      (auto simp: persist_attempt_def Let_def attempt_ref_def [symmetric] effects insert_execution_def create_attempt_def
        dest!: update_execution_attempts split: if_splits)
  then show "view_of db' = (view_of db)(attempt_ref m fresh \<mapsto> (pm_invocationContract m, False))"
    using unused by (auto simp: view_of_def find_attempt_def find_append new_attempt_row_def fun_eq_iff split: option.splits)
qed

subsection \<open>Commands\<close>

datatype app_op =
    App_admit admission_world admit_command timestamp "string \<times> string"
  | App_admit_claimless claimless_world claimless_command timestamp string
  | App_settle settle_command timestamp "string \<times> string"
  | App_settle_live settle_command timestamp timestamp "string \<times> string"
  | App_release finalize_command timestamp "string \<times> string"
  | App_reconcile_final settle_command evidence_kind string timestamp "string \<times> string"
  | App_enter_reconciliation reconcile_command timestamp
  | App_dispatch string string string timestamp
  | App_request request_op

text \<open>The state after a transaction that returned, or the one it began in.\<close>

definition committed :: "app \<Rightarrow> (app, 'a) tx \<Rightarrow> app" where
  "committed s m = (case m s of Inl _ \<Rightarrow> s | Inr (_, t) \<Rightarrow> t)"

fun run_app :: "(string \<Rightarrow> string \<Rightarrow> int) \<Rightarrow> app_op \<Rightarrow> app \<Rightarrow> app" where
  "run_app lc (App_admit w c now ids) s = committed s (admitProviderInvocation w c now ids)"
| "run_app lc (App_admit_claimless w c now fresh) s = committed s (admitCpaBasicProviderInvocation lc w c now fresh)"
| "run_app lc (App_settle c now ids) s = committed s (settleFinalUsage lc c Outcome_settled False None now ids)"
| "run_app lc (App_settle_live c now later ids) s = snd (settleCpaBasicLive lc c now later ids s)"
| "run_app lc (App_release c now ids) s = committed s (releaseNotStarted lc c now ids)"
| "run_app lc (App_reconcile_final c kind evidence now ids) s = committed s (reconcileFinalUsage lc c kind evidence now ids)"
| "run_app lc (App_enter_reconciliation c now) s = committed s (enterReconciliation c now)"
| "run_app lc (App_dispatch ref rid owner now) s = committed s (assertDispatchOwnership ref rid owner now)"
| "run_app lc (App_request op) s = (case run_op op (ap_request s) of Inl _ \<Rightarrow> s | Inr db \<Rightarrow> s\<lparr>ap_request := db\<rparr>)"

text \<open>
  What the types of the commands promise. The commands of the execution tables that billing does not see are the
  leases, the end of a request, and the admission of a claimless attempt with any material.
\<close>

fun unseen_op :: "request_op \<Rightarrow> bool" where
  "unseen_op (Op_admit kind c _ _ m _) = (typed_admission kind c \<and> pm_invocationContract m = ''cpa-basic@1'')"
| "unseen_op (Op_finalize _ _ _) = False"
| "unseen_op (Op_reconcile _ _) = False"
| "unseen_op (Op_dispatch _ _ _ _) = False"
| "unseen_op _ = True"

fun typed_app :: "app_op \<Rightarrow> bool" where
  "typed_app (App_admit w c now ids) = list_all (\<lambda>r. is_safe_int (snd r)) (fr_routingRevisions (ai_routing (am_identity c)))"
| "typed_app (App_enter_reconciliation c now) = (rc_costExposure c \<noteq> Not_started)"
| "typed_app (App_request op) = unseen_op op"
| "typed_app _ = True"

text \<open>
  The other writers: an entry of the ledger with the balance it moves, an event of another service with its
  history, a new account.
\<close>

definition post_entry :: "ledger_event \<Rightarrow> books \<Rightarrow> books" where
  "post_entry e b =
     b\<lparr>ledger := ledger b @ [e],
       accounts := map (\<lambda>a. if ca_id a = lv_account e
         then a\<lparr>ca_balance := ca_balance a + lv_amount e, ca_snapEvent := Some (lv_id e), ca_updatedAt := lv_createdAt e\<rparr>
         else a) (accounts b)\<rparr>"

inductive other_writer :: "books \<Rightarrow> books \<Rightarrow> bool" where
  posting: "lv_attempt e = None \<Longrightarrow> lv_id e \<notin> lv_id ` set (ledger b) \<Longrightarrow> other_writer b (post_entry e b)"
| service_event: "be_id e \<notin> be_id ` set (billing_events b) \<Longrightarrow> hr_billingEvent h = be_id e \<Longrightarrow>
    set (map se_sourceId ses) \<subseteq> {be_id e} \<Longrightarrow>
    other_writer b (b\<lparr>billing_events := billing_events b @ [e], history_refs := history_refs b @ [h],
                      seller_events := seller_events b @ ses\<rparr>)"
| new_account: "ca_id a \<notin> ca_id ` set (accounts b) \<Longrightarrow> ca_id a \<notin> lv_account ` set (ledger b) \<Longrightarrow> ca_balance a = 0 \<Longrightarrow>
    other_writer b (b\<lparr>accounts := accounts b @ [a]\<rparr>)"
| users: "other_writer b (b\<lparr>paygo_users := us\<rparr>)"

inductive app_step :: "(string \<Rightarrow> string \<Rightarrow> int) \<Rightarrow> app \<Rightarrow> app \<Rightarrow> bool" for lc where
  command: "typed_app op \<Longrightarrow> app_step lc s (run_app lc op s)"
| request_log: "app_step lc s (s\<lparr>ap_request := (ap_request s)\<lparr>request_logs := logs\<rparr>\<rparr>)"
| other: "other_writer (ap_books s) b \<Longrightarrow> app_step lc s (s\<lparr>ap_books := b\<rparr>)"

definition empty_books :: books where
  "empty_books =
     \<lparr>claims = [], reservations = [], accounts = [], ledger = [], facts = [], billing_events = [], history_refs = [],
      cost_events = [], edges = [], seller_events = [], paygo_users = []\<rparr>"

definition new_app :: "app \<Rightarrow> bool" where
  "new_app s \<longleftrightarrow> empty_tables (ap_request s) \<and> ap_books s = empty_books"

definition app_ok :: "app \<Rightarrow> bool" where
  "app_ok s \<longleftrightarrow> tables_ok (ap_request s) \<and> books_ok (view_of (ap_request s)) (ap_books s)"

subsection \<open>Every step keeps the invariant\<close>

lemma on_request_Inr [effects]:
  "on_request m s = Inr (x, t) \<longleftrightarrow> (\<exists>db. m (ap_request s) = Inr (x, db) \<and> t = s\<lparr>ap_request := db\<rparr>)"
  by (auto simp: on_request_def effects)

lemma on_books_Inr [effects]:
  "on_books m s = Inr (x, t) \<longleftrightarrow> (\<exists>b. m (ap_request s) (ap_books s) = Inr (x, b) \<and> t = s\<lparr>ap_books := b\<rparr>)"
  by (auto simp: on_books_def effects)

lemma reading_Inr [effects]: "reading f s = Inr (x, t) \<longleftrightarrow> f (ap_request s) (ap_books s) = Inr x \<and> t = s"
  by (auto simp: reading_def effects)

lemma app_eqI: "ap_request s = ap_request t \<Longrightarrow> ap_books s = ap_books (t :: app) \<Longrightarrow> s = t"
  by (cases s; cases t) simp

text \<open>The two ways a settlement returns: it replays a recorded one, or it settles the attempt.\<close>

lemma settle_final_Inr:
  assumes "settleFinalUsage lc c outcome strict expected now ids s = Inr (r, t)"
  obtains a d attempt db b where
    "find_attempt (ap_request s) (fi_ref (sc_finalize c)) = Some a"
    "at_invocationContract a = ''protected@1'' \<or> at_invocationContract a = ''cpa-basic@1''"
    "expected = None \<or> expected = Some (at_invocationContract a)"
    "finalize_lock (sc_finalize c) strict (ap_request s) = Inr (d, ap_request s)" "fd_ref d = fi_ref (sc_finalize c)"
    "fd_alreadyFinalized d = at_usageSettled a"
    "valid_usage (sc_usage c)"
    "attempt_snapshot_of (ap_request s) (fi_ref (sc_finalize c)) = Inr attempt"
    "settleInvocationBilling lc attempt \<lparr>st_ref = fi_ref (sc_finalize c), st_usage = sc_usage c, st_outcome = outcome,
       st_settledAt = now, st_account = lockInvocationBillingSettlementAccount
          (find_attempt (ap_request s) (fi_ref (sc_finalize c))) (fi_ref (sc_finalize c)) (ap_books s),
       st_eventId = fst ids, st_ledgerId = snd ids\<rparr> (ap_books s) = Inr (r, b)"
    "finalize_complete d (sc_finalize c) now (ap_request s) = Inr ((), db)"
    "t = \<lparr>ap_request = db, ap_books = b\<rparr>"
proof -
  from assms obtain d db1 attempt b db where steps: "validateUsage (sc_usage c) = Inr ()"
    "finalize_lock (sc_finalize c) strict (ap_request s) = Inr (d, db1)"
    "case expected of None \<Rightarrow> True | Some e \<Rightarrow> fd_invocationContract d = e"
    "attempt_snapshot_of db1 (fd_ref d) = Inr attempt"
    "settleInvocationBilling lc attempt \<lparr>st_ref = fi_ref (sc_finalize c), st_usage = sc_usage c, st_outcome = outcome,
       st_settledAt = now, st_account = lockInvocationBillingSettlementAccount
          (find_attempt (ap_request s) (fi_ref (sc_finalize c))) (fi_ref (sc_finalize c)) (ap_books s),
       st_eventId = fst ids, st_ledgerId = snd ids\<rparr> (ap_books s) = Inr (r, b)"
    "finalize_complete d (sc_finalize c) now db1 = Inr ((), db)" "t = s\<lparr>ap_request := db1, ap_books := b, ap_request := db\<rparr>"
    by (auto simp: settleFinalUsage_def Let_def effects split: option.splits)
  from steps(2) show thesis
  proof (cases rule: finalize_lock_cases)
    case (1 a)
    show thesis
      by (rule that [of a d attempt b db]) (use 1 steps in \<open>auto simp: validateUsage_Inr intro: app_eqI split: option.splits\<close>)
  qed
qed

definition app_good :: "app \<Rightarrow> app \<Rightarrow> bool" where
  "app_good s t \<longleftrightarrow> app_ok t \<and> evolves (ap_request s) (ap_request t) \<and> books_evolve (ap_books s) (ap_books t)"

lemma run_op_good: "tables_ok db \<Longrightarrow> typed_op op \<Longrightarrow> run_op op db = Inr db' \<Longrightarrow> tables_ok db' \<and> evolves db db'"
  by (rule request_step_ok, assumption, rule request_step.operation)

lemma finalize_parts:
  assumes "finalize_lock c strict db = Inr (d, db)" "finalize_complete d c t db = Inr ((), db')"
  shows "run_op (Op_finalize c strict t) db = Inr db'"
  using assms by (simp add: finalize_def tx_bind_def forget_def)

lemma settled_has_fact:
  assumes "app_ok s" "find_attempt (ap_request s) ref = Some a"
  shows "find_fact (ap_books s) ref \<noteq> None \<longleftrightarrow> at_usageSettled a"
  using assms by (auto simp: app_ok_def books_ok_def occupied_def view_of_def)

lemma settle_good:
  assumes "settleFinalUsage lc c outcome strict expected now ids s = Inr (r, t)" "app_ok s"
  shows "app_good s t" "(\<exists>f. find_fact (ap_books s) (fi_ref (sc_finalize c)) = Some f) \<Longrightarrow> t = s"
proof -
  have "app_good s t \<and> ((\<exists>f. find_fact (ap_books s) (fi_ref (sc_finalize c)) = Some f) \<longrightarrow> t = s)"
    using assms(1)
  proof (cases rule: settle_final_Inr)
    case run: (1 a d attempt db b)
    let ?ref = "fi_ref (sc_finalize c)" and ?v = "view_of (ap_request s)"
    have ok: "tables_ok (ap_request s)" "books_ok ?v (ap_books s)" using assms(2) by (simp_all add: app_ok_def)
    have tables: "tables_ok db \<and> evolves (ap_request s) db"
      by (rule run_op_good [OF ok(1) _ finalize_parts [OF run(4,10)]]) simp
    note view = finalize_complete_view [OF run(10) run(1) [folded run(5)]]
    show ?thesis
    proof (cases "at_usageSettled a")
      case True
      with settled_has_fact [OF assms(2) run(1)] obtain f where "find_fact (ap_books s) ?ref = Some f" by blast
      with settle_again(1) [OF run(9)] have "b = ap_books s" by simp
      moreover have "db = ap_request s" using view(1) True run(6) by simp
      ultimately have "t = s" by (intro app_eqI) (simp_all add: run(11))
      with assms(2) show ?thesis by (simp add: app_good_def)
    next
      case False
      with settled_has_fact [OF assms(2) run(1)] have none: "find_fact (ap_books s) ?ref = None" by blast
      have open_ref: "?v ?ref = Some (at_invocationContract a, False)" using run(1) False by (simp add: view_of_def)
      have effect: "settlement_effect \<lparr>st_ref = ?ref, st_usage = sc_usage c, st_outcome = outcome,
         st_settledAt = now, st_account = lockInvocationBillingSettlementAccount
            (find_attempt (ap_request s) ?ref) ?ref (ap_books s),
         st_eventId = fst ids, st_ledgerId = snd ids\<rparr> (ap_books s) r b"
        by (rule settle_effect [OF run(9), where db = "ap_request s"]) (simp_all add: none run(8))
      from settlement_keeps_books [OF effect ok(2)] open_ref locked_account_in
      have "books_ok (?v(?ref \<mapsto> (at_invocationContract a, True))) b" by simp
      with view(2) False run(5,6) tables none settlement_evolves [OF effect] show ?thesis by (simp add: app_good_def app_ok_def run(11))
    qed
  qed
  then show "app_good s t" "(\<exists>f. find_fact (ap_books s) (fi_ref (sc_finalize c)) = Some f) \<Longrightarrow> t = s" by auto
qed

lemma enter_good:
  assumes "enterReconciliation c now s = Inr (x, t)" "app_ok s" "rc_costExposure c \<noteq> Not_started"
  shows "app_good s t"
proof -
  from assms(1) obtain moved db b where steps: "reconcile c now (ap_request s) = Inr (moved, db)"
    "if moved then markInvocationBillingReconciliation (rc_ref c) (rc_costExposure c) now (ap_books s) = Inr ((), b) else b = ap_books s"
    "t = \<lparr>ap_request = db, ap_books = b\<rparr>"
    by (fastforce simp: enterReconciliation_def effects intro: app_eqI split: if_splits)
  have ok: "tables_ok (ap_request s)" "books_ok (view_of (ap_request s)) (ap_books s)" using assms(2) by (simp_all add: app_ok_def)
  have "tables_ok db \<and> evolves (ap_request s) db"
    by (rule run_op_good [OF ok(1), of "Op_reconcile c now"]) (use assms(3) steps(1) in simp_all)
  moreover have "books_ok (view_of db) b"
    using steps(2) ok(2) by (auto simp: reconcile_view [OF steps(1)] intro: mark_keeps_books split: if_splits)
  moreover have "books_evolve (ap_books s) b" using steps(2) by (auto intro: mark_evolves split: if_splits)
  ultimately show ?thesis by (simp add: app_good_def app_ok_def steps(3))
qed

lemma dispatch_good:
  assumes "assertDispatchOwnership ref rid owner now s = Inr (x, t)" "app_ok s"
  shows "app_good s t"
proof -
  from assms(1) obtain d db b where steps: "assert_dispatch ref rid owner now (ap_request s) = Inr (d, db)"
    "if dd_transitionToReconciliation d
     then markInvocationBillingReconciliation ref Accruing (dd_transitionedAt d) (ap_books s) = Inr ((), b) else b = ap_books s"
    "t = \<lparr>ap_request = db, ap_books = b\<rparr>"
    by (fastforce simp: assertDispatchOwnership_def effects intro: app_eqI split: if_splits)
  have ok: "tables_ok (ap_request s)" "books_ok (view_of (ap_request s)) (ap_books s)" using assms(2) by (simp_all add: app_ok_def)
  have "tables_ok db \<and> evolves (ap_request s) db"
    by (rule run_op_good [OF ok(1), of "Op_dispatch ref rid owner now"]) (use steps(1) in simp_all)
  moreover have "books_ok (view_of db) b"
    using steps(2) ok(2) by (auto simp: dispatch_view [OF steps(1)] intro: mark_keeps_books split: if_splits)
  moreover have "books_evolve (ap_books s) b" using steps(2) by (auto intro: mark_evolves split: if_splits)
  ultimately show ?thesis by (simp add: app_good_def app_ok_def steps(3))
qed

lemma new_attempt_books:
  assumes "books_ok v b" "v ref = None" "k \<noteq> ''protected@1''"
  shows "books_ok (v(ref \<mapsto> (k, False))) b"
proof -
  have occupied: "occupied v b" using assms(1) by (simp add: books_ok_def)
  note unknown = occupied_unknown [OF occupied assms(2)]
  have "occupied (v(ref \<mapsto> (k, False))) b"
    using occupied assms(2,3) unknown by (simp add: occupied_def)
  with assms(1) show ?thesis by (simp add: books_ok_def)
qed

lemma reading_only: "reading f s = Inr (x, t) \<Longrightarrow> t = s"
  by (simp add: effects)

lemma decided_admission:
  assumes "inspect_new kind c t (Some None) db = Inr d"
  shows "case d of Replay _ _ \<Rightarrow> False | _ \<Rightarrow> True"
  using assms by (cases kind) (auto simp: inspect_new_def effects split: option.splits if_splits)

lemma execute_decided:
  assumes "execute_admission c d startedAt m fresh db = Inr (stored, db')" "case d of Replay _ _ \<Rightarrow> False | _ \<Rightarrow> True"
  obtains source u where "persist_attempt c source u startedAt m fresh db = Inr (stored, db')"
  using assms by (cases d) (auto simp: execute_admission_def)

text \<open>An admission that returns is a replay, which changes nothing, or a new attempt with its occupation.\<close>

lemma admit_app_Inr:
  assumes "admitProviderInvocation w c now ids s = Inr (r, t)"
  obtains (replay) x where "t = s" "find_replay (admission_identity_of c) (ap_request s) = Inr (Some x)"
      "equivalentAdmission x c (ap_request s) (ap_books s) = Inr r"
    | (admitted) account d sub f terms maximum stored reservation db b where
      "lockInvocationBillingAdmissionFunding (am_account c) (am_user c) (ap_books s) = Inr account"
      "find_replay (admission_identity_of c) (ap_request s) = Inr None"
      "inspect_new (admission_kind_of c) (admission_identity_of c) now (Some None) (ap_request s) = Inr d"
      "decide_terms w c account now (ap_request s) (ap_books s) = Inr (sub, f, terms, maximum)"
      "execute_admission (admission_identity_of c) d now (protected_material c sub f terms) (fst ids) (ap_request s) = Inr (stored, db)"
      "createInvocationBillingOccupation (find_attempt db (sa_ref stored)) (occupation_of c stored maximum terms) (snd ids)
         (ap_books s) = Inr (reservation, b)"
      "r = \<lparr>ad_attemptId = sa_ref stored, ad_maxTokens = am_inputTokens c + am_maxOutputTokens c, ad_maxCharge = maximum,
         ad_reservationId = reservation, ad_reservationUnits = map_option (\<lambda>_. maximum) reservation,
         ad_admittedAt = sa_startedAt stored\<rparr>"
      "decision_source d = Some (am_subscription c)" "t = \<lparr>ap_request = db, ap_books = b\<rparr>"
proof -
  from assms obtain found where found: "find_replay (admission_identity_of c) (ap_request s) = Inr found"
    and then_run: "(case found of
             Some r \<Rightarrow> reading (equivalentAdmission r c)
           | None \<Rightarrow>
               tx_bind (reading (\<lambda>_. lockInvocationBillingAdmissionFunding (am_account c) (am_user c))) (\<lambda>account.
               tx_bind (tx_lift (require (aw_requestLog w (ai_requestId (admission_identity_of c)) = Some (am_apiKey c, am_user c))
                          (RelayError ''request_execution_not_found'' 409 []))) (\<lambda>_.
               tx_bind (reading (\<lambda>db _. inspect_new (admission_kind_of c) (admission_identity_of c) now (Some None) db)) (\<lambda>d.
                 case d of
                   Replay stored source \<Rightarrow> reading (equivalentAdmission (stored, source) c)
                 | _ \<Rightarrow>
                     tx_bind (tx_lift (require (decision_source d = Some (am_subscription c)) source_conflict)) (\<lambda>_.
                       admit_new w c d account now ids))))) s = Inr (r, t)"
    by (auto simp: admitProviderInvocation_def Let_def effects)
  show thesis
  proof (cases found)
    case (Some x)
    with then_run found show thesis by (intro replay [of x]) (simp_all add: effects)
  next
    case None
    with then_run obtain account d where d:
      "lockInvocationBillingAdmissionFunding (am_account c) (am_user c) (ap_books s) = Inr account"
      "inspect_new (admission_kind_of c) (admission_identity_of c) now (Some None) (ap_request s) = Inr d"
      "(case d of
                   Replay stored source \<Rightarrow> reading (equivalentAdmission (stored, source) c)
                 | _ \<Rightarrow>
                     tx_bind (tx_lift (require (decision_source d = Some (am_subscription c)) source_conflict)) (\<lambda>_.
                       admit_new w c d account now ids)) s = Inr (r, t)"
      by (auto simp: effects)
    from d(3) decided_admission [OF d(2)] have new: "admit_new w c d account now ids s = Inr (r, t)"
      and source: "decision_source d = Some (am_subscription c)"
      by (cases d; auto simp: effects)+
    show thesis
      using new
      by (auto simp: admit_new_def effects found [unfolded None] d(1,2) source intro!: admitted app_eqI)
  qed
qed

lemma admit_good_app:
  assumes "admitProviderInvocation w c now ids s = Inr (r, t)" "app_ok s"
    and "list_all (\<lambda>r. is_safe_int (snd r)) (fr_routingRevisions (ai_routing (am_identity c)))"
  shows "app_good s t"
  using assms(1)
proof (cases rule: admit_app_Inr)
  case replay
  with assms(2) show ?thesis by (simp add: app_good_def)
next
  case (admitted account d sub f terms maximum stored reservation db b)
  let ?i = "admission_identity_of c" and ?m = "protected_material c sub f terms"
  have ok: "tables_ok (ap_request s)" "books_ok (view_of (ap_request s)) (ap_books s)" using assms(2) by (simp_all add: app_ok_def)
  have "run_op (Op_admit (admission_kind_of c) ?i now now ?m (fst ids)) (ap_request s) = Inr db"
    using admitted(2,3,5) by (simp add: admit_def forget_def)
  moreover have "typed_admission (admission_kind_of c) ?i"
    using assms(3) by (simp add: typed_admission_def admission_kind_of_def admission_identity_of_def)
  ultimately have tables: "tables_ok db \<and> evolves (ap_request s) db"
    using run_op_good [OF ok(1), of "Op_admit (admission_kind_of c) ?i now now ?m (fst ids)" db] by simp
  from execute_decided [OF admitted(5) decided_admission [OF admitted(3)]] obtain source u where
    "persist_attempt ?i source u now ?m (fst ids) (ap_request s) = Inr (stored, db)" by metis
  note view = persist_view [OF this]
  have ref: "oc_ref (occupation_of c stored maximum terms) = sa_ref stored" by (simp add: occupation_of_def)
  have "books_ok ((view_of (ap_request s))(sa_ref stored \<mapsto> (''protected@1'', False))) b"
    using occupation_keeps_books [OF occupation_Inr(1) [OF admitted(6)] ok(2)] view(1,2) by (simp add: ref)
  then have "books_ok (view_of db) b" using view(2,3) by (simp add: protected_material_def)
  moreover have "find_fact (ap_books s) (sa_ref stored) = None"
    using ok(2) view(1,2) by (auto simp: books_ok_def intro: occupied_unknown)
  ultimately show ?thesis
    using tables occupation_evolves [OF occupation_Inr(1) [OF admitted(6)]] by (simp add: app_good_def app_ok_def admitted(9) ref)
qed

lemma unseen_good:
  assumes "run_op op (ap_request s) = Inr db" "app_ok s" "unseen_op op"
  shows "app_good s (s\<lparr>ap_request := db\<rparr>)"
proof -
  have ok: "tables_ok (ap_request s)" "books_ok (view_of (ap_request s)) (ap_books s)" using assms(2) by (simp_all add: app_ok_def)
  have "typed_op op" using assms(3) by (cases op) simp_all
  with run_op_good [OF ok(1) _ assms(1)] have tables: "tables_ok db \<and> evolves (ap_request s) db" by simp
  have "books_ok (view_of db) (ap_books s)"
  proof (cases op)
    case (Op_admit kind c i t m fresh)
    with assms(1,3) obtain stored where admit: "admit kind c i t m fresh (ap_request s) = Inr (stored, db)"
      and contract: "pm_invocationContract m = ''cpa-basic@1''"
      by (auto simp: forget_def effects)
    from admit show ?thesis
    proof (cases rule: admit_Inr)
      case 1
      with ok(2) show ?thesis by simp
    next
      case (2 source u)
      from persist_view [OF 2] contract show ?thesis by (simp add: new_attempt_books [OF ok(2)])
    qed
  qed (use assms(1,3) ok(2) in \<open>auto simp: forget_def effects complete_request_execution_def
    dest!: lease_attempts [THEN same_attempts_view] fail_attempts [THEN same_attempts_view]
      terminal_arbiter_attempts [THEN same_attempts_view]\<close>)
  with tables show ?thesis by (simp add: app_good_def app_ok_def)
qed

text \<open>
  An admission of a claimless attempt that returns is a replay, which changes nothing, or the admission of the
  request execution package with the material that was decided.
\<close>

lemma claimless_Inr:
  assumes "admitCpaBasicProviderInvocation lc w c now fresh s = Inr (r, t)"
  obtains (replay) "t = s" "existing_claimless (ap_request s) c \<noteq> []" "claimless_replay c (ap_request s) = Inr r" "claimless_shape c"
    | (admitted) m d stored db where "claimless_shape c" "existing_claimless (ap_request s) c = []"
      "decide_claimless lc w c now (ap_request s) (ap_books s) = Inr m"
      "inspect_new (claimless_kind c) (claimless_identity c) now (Some None) (ap_request s) = Inr d"
      "execute_admission (claimless_identity c) d now m fresh (ap_request s) = Inr (stored, db)"
      "r = \<lparr>cd_attemptId = sa_ref stored, cd_startedAt = sa_startedAt stored, cd_replayed = False\<rparr>"
      "t = s\<lparr>ap_request := db\<rparr>"
  using assms
  by (auto simp: admitCpaBasicProviderInvocation_def assertCpaBasicAdmissionShape_def effects split: if_splits)

lemma claimless_identity_sides [simp]:
  "ai_requestId (claimless_identity c) = ai_requestId (cc_identity c)" "ai_candidate (claimless_identity c) = cc_candidate c"
  "ai_attemptIndex (claimless_identity c) = ai_attemptIndex (cc_identity c)" "ai_routing (claimless_identity c) = cc_routing c"
  by (simp_all add: claimless_identity_def)

lemma claimless_typed: "claimless_shape c \<Longrightarrow> typed_admission (claimless_kind c) (claimless_identity c)"
  by (auto simp: typed_admission_def claimless_kind_def claimless_shape_def positive_safe_def Let_def claimless_identity_def list_all_iff)

lemma claimless_unknown:
  assumes "existing_claimless db c = []" "inspect_new k (claimless_identity c) now p db = Inr d"
  shows "find_replay (claimless_identity c) db = Inr None"
proof -
  have "admission_row db (ai_requestId (cc_identity c)) (fc_candidateId (cc_candidate c)) = None"
    using assms(1) by (auto simp: admission_row_def existing_claimless_def filter_empty_conv find_Some_iff split: option.splits)
  then show ?thesis using assms(2) by (auto simp: find_replay_def readAdmissionAttempt_def inspect_new_def effects)
qed

lemma decided_contract: "decide_claimless lc w c now db b = Inr m \<Longrightarrow> pm_invocationContract m = ''cpa-basic@1''"
  by (auto simp: decide_claimless_def claimless_material_def effects)

lemma claimless_admits:
  assumes "claimless_shape c" "existing_claimless (ap_request s) c = []"
    "decide_claimless lc w c now (ap_request s) (ap_books s) = Inr m"
    "inspect_new (claimless_kind c) (claimless_identity c) now (Some None) (ap_request s) = Inr d"
    "execute_admission (claimless_identity c) d now m fresh (ap_request s) = Inr (stored, db)"
  shows "admit (claimless_kind c) (claimless_identity c) now now m fresh (ap_request s) = Inr (stored, db)"
    "unseen_op (Op_admit (claimless_kind c) (claimless_identity c) now now m fresh)"
  using assms claimless_unknown [OF assms(2,4)] by (simp_all add: admit_def claimless_typed decided_contract)

lemma claimless_good:
  assumes "admitCpaBasicProviderInvocation lc w c now fresh s = Inr (r, t)" "app_ok s"
  shows "app_good s t"
  using assms(1)
proof (cases rule: claimless_Inr)
  case replay
  with assms(2) show ?thesis by (simp add: app_good_def)
next
  case (admitted m d stored db)
  note op = claimless_admits [OF admitted(1-5)]
  have "run_op (Op_admit (claimless_kind c) (claimless_identity c) now now m fresh) (ap_request s) = Inr db"
    using op(1) by (simp add: forget_def)
  from unseen_good [OF this assms(2) op(2)] show ?thesis by (simp add: admitted(7))
qed

lemma app_good_refl: "app_ok s \<Longrightarrow> app_good s s"
  by (simp add: app_good_def)

lemma committed_good: "(\<And>x t. m s = Inr (x, t) \<Longrightarrow> app_good s t) \<Longrightarrow> app_ok s \<Longrightarrow> app_good s (committed s m)"
  by (auto simp: committed_def app_good_refl split: sum.splits)

lemma reconcile_final_Inr:
  "reconcileFinalUsage lc c kind evidence now ids s = Inr (r, t) \<Longrightarrow> settleFinalUsage lc c Outcome_settled True None now ids s = Inr (r, t)"
  by (auto simp: reconcileFinalUsage_def effects)

lemma live_good:
  assumes "app_ok s"
  shows "app_good s (snd (settleCpaBasicLive lc c now later ids s))"
proof -
  have "rc_costExposure (failed_settlement_command f) \<noteq> Not_started" for f by (simp add: failed_settlement_command_def)
  with assms show ?thesis
    by (auto simp: settleCpaBasicLive_def app_good_refl settle_good(1) intro: enter_good split: sum.splits)
qed

lemma run_app_good:
  assumes "app_ok s" "typed_app op"
  shows "app_good s (run_app lc op s)"
proof (cases op)
  case (App_release c now ids)
  with assms show ?thesis by (auto simp: releaseNotStarted_def effects intro!: committed_good intro: settle_good(1))
next
  case (App_request op')
  with assms show ?thesis by (auto simp: app_good_refl unseen_good split: sum.splits)
qed (use assms in \<open>auto intro!: committed_good intro: admit_good_app claimless_good settle_good(1) live_good enter_good dispatch_good
    dest!: reconcile_final_Inr\<close>)

lemma occupied_rows:
  "claims b' = claims b \<Longrightarrow> reservations b' = reservations b \<Longrightarrow> facts b' = facts b \<Longrightarrow> occupied v b' = occupied v b"
  by (simp add: occupied_def hold_ok_def finders)

lemma post_entry_balanced: "balanced b \<Longrightarrow> balanced (post_entry e b)"
  by (auto simp: balanced_def ledger_total_def post_entry_def)

lemma other_writer_good:
  assumes "other_writer b b'" "books_ok v b"
  shows "books_ok v b'"
proof -
  have ok: "unique_keys b" "occupied v b" "charges_recorded b" "events_recorded b" "balanced b"
    using assms(2) by (simp_all add: books_ok_def)
  from assms(1) show ?thesis
  proof cases
    case (posting e)
    have ids: "map ca_id (accounts b') = map ca_id (accounts b)" by (simp add: posting(1) post_entry_def)
    have "unique_keys b'" using ok(1) posting(3) unfolding unique_keys_def ids by (simp add: posting(1) post_entry_def)
    moreover have "charges_recorded b'" using ok(3) posting(2)
      by (auto simp: charges_recorded_def posting(1) post_entry_def)
    moreover have "events_recorded b'" using ok(4) by (simp add: events_recorded_def posting(1) post_entry_def)
    moreover have "occupied v b'" using ok(2) occupied_rows [of b' b] by (simp add: posting(1) post_entry_def)
    ultimately show ?thesis using post_entry_balanced [OF ok(5)] by (simp add: books_ok_def posting(1))
  next
    case (service_event e h ses)
    have "hr_billingEvent h \<notin> hr_billingEvent ` set (history_refs b)"
      using ok(4) service_event(2,3) by (simp add: events_recorded_def)
    then have "unique_keys b'" using ok(1) service_event(2) by (simp add: unique_keys_def service_event(1))
    moreover have "events_recorded b'" using ok(4) service_event(3,4) by (auto simp: events_recorded_def service_event(1))
    moreover have "charges_recorded b'" "balanced b'"
      using ok(3,5) by (simp_all add: charges_recorded_def balanced_def ledger_total_def service_event(1))
    moreover have "occupied v b'" using ok(2) occupied_rows [of b' b] by (simp add: service_event(1))
    ultimately show ?thesis by (simp add: books_ok_def)
  next
    case (new_account a)
    have "filter (\<lambda>e. lv_account e = ca_id a) (ledger b) = []" using new_account(3)
      by (auto simp: filter_empty_conv image_iff)
    then have "balanced b'" using ok(5) new_account(4) by (simp add: balanced_def ledger_total_def new_account(1))
    moreover have "unique_keys b'" using ok(1) new_account(2) by (simp add: unique_keys_def new_account(1))
    moreover have "charges_recorded b'" "events_recorded b'"
      using ok(3,4) by (simp_all add: charges_recorded_def events_recorded_def new_account(1))
    moreover have "occupied v b'" using ok(2) occupied_rows [of b' b] by (simp add: new_account(1))
    ultimately show ?thesis by (simp add: books_ok_def)
  next
    case (users us)
    moreover have "unique_keys b'" using ok(1) by (simp add: unique_keys_def users)
    moreover have "charges_recorded b'" "events_recorded b'" "balanced b'"
      using ok(3-5) by (simp_all add: charges_recorded_def events_recorded_def balanced_def ledger_total_def users)
    moreover have "occupied v b'" using ok(2) occupied_rows [of b' b] by (simp add: users)
    ultimately show ?thesis by (simp add: books_ok_def)
  qed
qed

lemma other_writer_evolves: "other_writer b b' \<Longrightarrow> books_evolve b b'"
  by (erule other_writer.cases)
    (auto simp: books_evolve_def records_kept_def occupation_kept_def post_entry_def finders intro: same_terms_refl)

lemma app_step_good: "app_ok s \<Longrightarrow> app_step lc s t \<Longrightarrow> app_good s t"
proof (erule app_step.cases, goal_cases)
  case (1 op u)
  then show ?case using run_app_good by simp
next
  case (2 u logs)
  let ?db = "(ap_request s)\<lparr>request_logs := logs\<rparr>"
  have "tables_ok (ap_request s)" using 2 by (simp add: app_ok_def)
  from request_step_ok [OF this request_step.request_log] have "tables_ok ?db \<and> evolves (ap_request s) ?db" .
  moreover have "view_of ?db = view_of (ap_request s)" by (rule same_attempts_view) simp
  ultimately show ?case using 2 by (simp add: app_good_def app_ok_def)
next
  case (3 u b)
  then show ?case using other_writer_good [of "ap_books s" b "view_of (ap_request s)"] other_writer_evolves [of "ap_books s" b]
    by (simp add: app_good_def app_ok_def)
qed

lemma new_app_ok: "new_app s \<Longrightarrow> app_ok s"
proof -
  assume new: "new_app s"
  then have "tables_ok (ap_request s)" by (simp add: new_app_def empty_tables_ok)
  moreover from new have "view_of (ap_request s) = (\<lambda>_. None)"
    by (auto simp: new_app_def empty_tables_def view_of_def find_attempt_def)
  moreover have "books_ok (\<lambda>_. None) empty_books"
    by (simp add: books_ok_def unique_keys_def occupied_def charges_recorded_def events_recorded_def balanced_def finders
        empty_books_def)
  ultimately show ?thesis using new by (simp add: app_ok_def new_app_def)
qed

definition app_evolve :: "app \<Rightarrow> app \<Rightarrow> bool" where
  "app_evolve s t \<longleftrightarrow> evolves (ap_request s) (ap_request t) \<and> books_evolve (ap_books s) (ap_books t)"

interpretation invocation_books: evolving_system new_app "app_step lc" app_ok app_evolve for lc
proof unfold_locales
  fix s t u
  show "new_app s \<Longrightarrow> app_ok s" by (rule new_app_ok)
  show "app_ok s \<Longrightarrow> app_step lc s t \<Longrightarrow> app_ok t" "app_ok s \<Longrightarrow> app_step lc s t \<Longrightarrow> app_evolve s t"
    using app_step_good by (simp_all add: app_good_def app_evolve_def)
  show "app_evolve s s" by (simp add: app_evolve_def)
  show "app_evolve s t \<Longrightarrow> app_evolve t u \<Longrightarrow> app_evolve s u"
    unfolding app_evolve_def by (blast intro: evolves_trans books_evolve_trans)
qed

lemma first_settlement_fact:
  assumes "settleFinalUsage lc c outcome strict expected now ids s = Inr (r, t)" "app_ok s"
  shows "\<exists>f. find_fact (ap_books t) (fi_ref (sc_finalize c)) = Some f \<and> rs_actual r = uf_actual f
    \<and> rs_posting r = uf_posting f \<and> rs_billingEvent r = uf_billingEvent f \<and> same_usage (uf_usage f) (sc_usage c)"
  using assms(1)
proof (cases rule: settle_final_Inr)
  case run: (1 a d attempt db b)
  show ?thesis
  proof (cases "find_fact (ap_books s) (fi_ref (sc_finalize c))")
    case None
    have "settlement_effect \<lparr>st_ref = fi_ref (sc_finalize c), st_usage = sc_usage c, st_outcome = outcome,
       st_settledAt = now, st_account = lockInvocationBillingSettlementAccount
          (find_attempt (ap_request s) (fi_ref (sc_finalize c))) (fi_ref (sc_finalize c)) (ap_books s),
       st_eventId = fst ids, st_ledgerId = snd ids\<rparr> (ap_books s) r b"
      by (rule settle_effect [OF run(9), where db = "ap_request s"]) (simp_all add: None run(8))
    from settled_fact [OF this] show ?thesis by (auto simp: run(11) settled_with_def same_usage_def)
  next
    case (Some f)
    with settle_again [OF run(9)] show ?thesis by (simp add: run(11))
  qed
qed

end
