(* ===== verification/Commerce.thy ===== *)
theory Commerce
  imports Billing_Runs
begin

section \<open>Commerce\<close>

text \<open>
  The commands of \<open>packages/billing/src/commerce.ts\<close> that move money: products and their versions, their
  purchase and refund, and the payment of plan subscriptions, on the tables of the package beside the books of
  billing, with the trigger and the unique keys of
  \<open>postgres/prisma/migrations/20260813000000_postgresql_baseline\<close>. The digest of a text is the parameter \<open>sha\<close>.
  Identifiers and times that a command draws are its arguments. The audit records are not modelled.
\<close>

subsection \<open>Rows\<close>

record product_terms =
  tr_displayName :: string
  tr_effect :: string
  tr_grantUnits :: int
  tr_amount :: int
  tr_duration :: int
  tr_maxPurchases :: "int option"
  tr_maxUnconsumed :: "int option"
  tr_maxCurrentTeams :: "int option"
  tr_maxCreatedTeams :: "int option"
  tr_refundMode :: string
  tr_refundDeadline :: "int option"
  tr_settlementHold :: int
  tr_seller :: string

datatype lifecycle = Draft_product | Listed_product | Closed_product

record product =
  pd_id :: string
  pd_code :: string
  pd_version :: int
  pd_terms :: product_terms
  pd_lifecycle :: lifecycle
  pd_createdBy :: string
  pd_createdAt :: timestamp
  pd_updatedAt :: timestamp

record purchase =
  pu_id :: string
  pu_product :: string
  pu_buyer :: string
  pu_account :: string
  pu_code :: string
  pu_version :: int
  pu_terms :: product_terms
  pu_keyHash :: string
  pu_requestHash :: string
  pu_createdAt :: timestamp

record refund =
  rf_id :: string
  rf_purchase :: string
  rf_grant :: string
  rf_actor :: string
  rf_reason :: string
  rf_keyHash :: string
  rf_requestHash :: string
  rf_createdAt :: timestamp

datatype settlement_type = Revenue | Reversal | Release

text \<open>The settlement events of sellers that commerce writes; those of attempts are in the books.\<close>

record settlement_row =
  sr_id :: string
  sr_subscription :: "string option"
  sr_purchase :: "string option"
  sr_seller :: string
  sr_windowStart :: timestamp
  sr_windowEnd :: timestamp
  sr_releaseAt :: timestamp
  sr_type :: settlement_type
  sr_units :: int
  sr_sourceType :: string
  sr_sourceId :: string
  sr_createdAt :: timestamp

record market =
  mk_app :: app
  mk_products :: "product list"
  mk_purchases :: "purchase list"
  mk_refunds :: "refund list"
  mk_settlements :: "settlement_row list"

abbreviation mk_books :: "market \<Rightarrow> books" where
  "mk_books s \<equiv> ap_books (mk_app s)"

subsection \<open>Checks of a text and of a number\<close>

definition requiredText :: "string \<Rightarrow> nat \<Rightarrow> string result" where
  "requiredText v upper =
     (let t = js_trim v in if t = [] \<or> length t > upper then relay ''authority_text_invalid'' 400 else Inr t)"

definition requiredCode :: "string \<Rightarrow> string result" where
  "requiredCode v =
     (let t = to_lower (js_trim v)
      in if matches_head_tail (\<lambda>c. c \<in> set ''abcdefghijklmnopqrstuvwxyz'')
              (\<lambda>c. c \<in> set ''abcdefghijklmnopqrstuvwxyz0123456789_-'') 63 t \<and> 2 \<le> length t
         then Inr t else relay ''authority_product_code_invalid'' 400)"

definition bounded_value :: "int \<Rightarrow> int \<Rightarrow> unit result" where
  "bounded_value v upper =
     (if \<not> is_safe_int v \<or> v < 1 \<or> v > upper then relay ''authority_product_value_invalid'' 400 else Inr ())"

definition boundedBigInt :: "int \<Rightarrow> int \<Rightarrow> unit result" where
  "boundedBigInt v upper = (if v < 1 \<or> v > upper then relay ''authority_product_value_invalid'' 400 else Inr ())"

definition optionalBounded :: "int option \<Rightarrow> int \<Rightarrow> unit result" where
  "optionalBounded v upper = (case v of None \<Rightarrow> Inr () | Some n \<Rightarrow> bounded_value n upper)"

definition safeNumber :: "int \<Rightarrow> int result" where
  "safeNumber v = (if is_safe_int v then Inr v else relay ''billing_integer_out_of_range'' 500)"

definition addSeconds :: "timestamp \<Rightarrow> int \<Rightarrow> timestamp result" where
  "addSeconds t s = (if t + s * 1000 > MAX_DATE then plain ''RangeError'' else Inr (t + s * 1000))"

definition hashRequired :: "(string \<Rightarrow> string) \<Rightarrow> string \<Rightarrow> string result" where
  "hashRequired sha v = rbind (requiredText v 200) (\<lambda>t. Inr (sha t))"

definition isRuntimeScopeRef :: "string \<Rightarrow> bool" where
  "isRuntimeScopeRef s \<longleftrightarrow>
     s = ''global:''
     \<or> (case split_first CHR '':'' s of
          None \<Rightarrow> False
        | Some (kind, name) \<Rightarrow> name \<noteq> [] \<and> kind \<in> {''team'', ''user'', ''key''})"

definition requireRefundReason :: "string \<Rightarrow> unit result" where
  "requireRefundReason r =
     require (r \<in> {''customer_request'', ''duplicate_purchase'', ''product_correction'', ''operator_error''})
       (RelayError ''authority_refund_reason_invalid'' 400 [])"

text \<open>The terms of a product, with the name trimmed; the first check that fails decides the error.\<close>

definition check_values :: "product_terms \<Rightarrow> unit result" where
  "check_values t =
     rbind (bounded_value (tr_grantUnits t) 1000) (\<lambda>_.
     rbind (boundedBigInt (tr_amount t) MAX_SAFE_INTEGER) (\<lambda>_.
     rbind (bounded_value (tr_duration t) 315360000) (\<lambda>_.
     rbind (optionalBounded (tr_maxPurchases t) 1000000) (\<lambda>_.
     rbind (optionalBounded (tr_maxUnconsumed t) 1000000) (\<lambda>_.
     rbind (optionalBounded (tr_maxCurrentTeams t) 1000) (\<lambda>_.
     rbind (optionalBounded (tr_maxCreatedTeams t) 1000) (\<lambda>_.
       bounded_value (tr_settlementHold t) 31536000)))))))"

definition refund_terms_valid :: "product_terms \<Rightarrow> bool" where
  "refund_terms_valid t \<longleftrightarrow>
     (if tr_refundMode t = ''none'' then tr_refundDeadline t = None
      else (case tr_refundDeadline t of None \<Rightarrow> False | Some d \<Rightarrow> d \<le> tr_duration t \<and> d < tr_settlementHold t))"

definition effect_terms_valid :: "product_terms \<Rightarrow> bool" where
  "effect_terms_valid t \<longleftrightarrow>
     (tr_effect t = ''team_custom_provider_access'' \<longrightarrow>
        tr_grantUnits t = 1 \<and> tr_maxUnconsumed t = None \<and> tr_maxCurrentTeams t = None \<and> tr_maxCreatedTeams t = None
        \<and> tr_refundMode t = ''none'')
     \<and> (tr_effect t = ''user_custom_provider_access'' \<longrightarrow>
        tr_grantUnits t = 1 \<and> (case tr_maxPurchases t of None \<Rightarrow> True | Some m \<Rightarrow> 2 \<le> m) \<and> tr_maxUnconsumed t = None
        \<and> tr_maxCurrentTeams t = None \<and> tr_maxCreatedTeams t = None \<and> tr_refundMode t = ''none'' \<and> tr_refundDeadline t = None
        \<and> tr_duration t mod 86400 = 0)"

definition validateAuthorityProductTerms :: "product_terms \<Rightarrow> product_terms result" where
  "validateAuthorityProductTerms t =
     rbind (requiredText (tr_displayName t) 120) (\<lambda>name.
     rbind (require (tr_effect t \<in> {''team_create_unit'', ''team_custom_provider_access'', ''user_custom_provider_access''})
              (RelayError ''authority_product_effect_invalid'' 400 [])) (\<lambda>_.
     rbind (check_values t) (\<lambda>_.
     rbind (require (tr_refundMode t \<in> {''none'', ''unused_by_owner''}) (RelayError ''authority_refund_mode_invalid'' 400 [])) (\<lambda>_.
     rbind (optionalBounded (tr_refundDeadline t) 315360000) (\<lambda>_.
     rbind (require (refund_terms_valid t) (RelayError ''authority_refund_terms_invalid'' 400 [])) (\<lambda>_.
     rbind (require (effect_terms_valid t) (RelayError ''authority_product_terms_invalid'' 400 [])) (\<lambda>_.
     rbind (require (isRuntimeScopeRef (tr_seller t)) (RelayError ''authority_seller_scope_invalid'' 400 [])) (\<lambda>_.
       Inr (t\<lparr>tr_displayName := name\<rparr>)))))))))"

subsection \<open>Writing rows\<close>

definition find_product :: "market \<Rightarrow> string \<Rightarrow> product option" where
  "find_product s i = List.find (\<lambda>p. pd_id p = i) (mk_products s)"

definition find_purchase :: "market \<Rightarrow> string \<Rightarrow> purchase option" where
  "find_purchase s i = List.find (\<lambda>p. pu_id p = i) (mk_purchases s)"

definition listed :: "product \<Rightarrow> bool" where
  "listed p \<longleftrightarrow> pd_lifecycle p = Listed_product"

text \<open>The trigger \<open>friday_relay_validate_authority_product_update\<close>.\<close>

definition lifecycle_allowed :: "lifecycle \<Rightarrow> lifecycle \<Rightarrow> bool" where
  "lifecycle_allowed old new \<longleftrightarrow>
     (case old of
        Draft_product \<Rightarrow> new = Draft_product \<or> new = Listed_product
      | Listed_product \<Rightarrow> new = Listed_product \<or> new = Closed_product
      | Closed_product \<Rightarrow> new = Closed_product)"

definition product_update_allowed :: "product \<Rightarrow> product \<Rightarrow> bool" where
  "product_update_allowed old new \<longleftrightarrow>
     pd_id new = pd_id old \<and> pd_code new = pd_code old \<and> pd_version new = pd_version old
     \<and> pd_createdBy new = pd_createdBy old \<and> pd_createdAt new = pd_createdAt old
     \<and> lifecycle_allowed (pd_lifecycle old) (pd_lifecycle new)
     \<and> (pd_lifecycle old \<noteq> Draft_product \<longrightarrow> pd_terms new = pd_terms old)"

definition insert_product :: "product \<Rightarrow> (market, unit) tx" where
  "insert_product p s =
     (if list_ex (\<lambda>q. pd_id q = pd_id p \<or> pd_code q = pd_code p \<and> (pd_version q = pd_version p \<or> listed q \<and> listed p)) (mk_products s)
      then Inl unique_error else Inr ((), s\<lparr>mk_products := mk_products s @ [p]\<rparr>))"

definition update_product :: "string \<Rightarrow> (product \<Rightarrow> product) \<Rightarrow> (market, product) tx" where
  "update_product i f s =
     (case find_product s i of
        None \<Rightarrow> Inl missing_row
      | Some old \<Rightarrow>
          if \<not> product_update_allowed old (f old) then Inl trigger_error
          else if listed (f old) \<and> list_ex (\<lambda>q. pd_id q \<noteq> i \<and> pd_code q = pd_code old \<and> listed q) (mk_products s) then Inl unique_error
          else Inr (f old, s\<lparr>mk_products := map (\<lambda>p. if pd_id p = i then f p else p) (mk_products s)\<rparr>))"

definition insert_purchase :: "purchase \<Rightarrow> (market, unit) tx" where
  "insert_purchase p s =
     (if list_ex (\<lambda>q. pu_id q = pu_id p \<or> pu_buyer q = pu_buyer p \<and> pu_keyHash q = pu_keyHash p) (mk_purchases s)
      then Inl unique_error else Inr ((), s\<lparr>mk_purchases := mk_purchases s @ [p]\<rparr>))"

definition insert_refund :: "refund \<Rightarrow> (market, unit) tx" where
  "insert_refund r s =
     (if list_ex (\<lambda>q. rf_id q = rf_id r \<or> rf_purchase q = rf_purchase r \<or> rf_grant q = rf_grant r
            \<or> rf_actor q = rf_actor r \<and> rf_keyHash q = rf_keyHash r) (mk_refunds s)
      then Inl unique_error else Inr ((), s\<lparr>mk_refunds := mk_refunds s @ [r]\<rparr>))"

definition insert_settlement :: "settlement_row \<Rightarrow> (market, unit) tx" where
  "insert_settlement r s =
     (if list_ex (\<lambda>q. sr_id q = sr_id r
            \<or> sr_type q = sr_type r \<and> sr_sourceType q = sr_sourceType r \<and> sr_sourceId q = sr_sourceId r
              \<and> sr_windowStart q = sr_windowStart r
            \<or> sr_purchase r \<noteq> None \<and> sr_purchase q = sr_purchase r \<and> sr_type q = sr_type r) (mk_settlements s)
      then Inl unique_error else Inr ((), s\<lparr>mk_settlements := mk_settlements s @ [r]\<rparr>))"

definition on_money :: "'a billing \<Rightarrow> (market, 'a) tx" where
  "on_money m s = rbind (m (mk_books s)) (\<lambda>(x, b). Inr (x, s\<lparr>mk_app := (mk_app s)\<lparr>ap_books := b\<rparr>\<rparr>))"

definition looking :: "(market \<Rightarrow> 'a result) \<Rightarrow> (market, 'a) tx" where
  "looking f s = rbind (f s) (\<lambda>x. Inr (x, s))"

text \<open>An entry of the ledger and the balance after it, which the code computes from the balance it read.\<close>

definition posted_account :: "ledger_event \<Rightarrow> int \<Rightarrow> credit_account \<Rightarrow> credit_account" where
  "posted_account e balance a = a\<lparr>ca_balance := balance, ca_snapEvent := Some (lv_id e), ca_updatedAt := lv_createdAt e\<rparr>"

definition post_money :: "ledger_event \<Rightarrow> int \<Rightarrow> (market, unit) tx" where
  "post_money e balance =
     tx_bind (on_money (insert_ledger_event e)) (\<lambda>_. on_money (update_account (lv_account e) (posted_account e balance)))"

definition ensure_account :: "string \<Rightarrow> string \<Rightarrow> timestamp \<Rightarrow> unit billing" where
  "ensure_account scope fresh t b =
     (if list_ex (\<lambda>a. ca_scope a = scope) (accounts b) then Inr ((), b)
      else if list_ex (\<lambda>a. ca_id a = fresh) (accounts b) then Inl unique_error
      else Inr ((), b\<lparr>accounts := accounts b @ [\<lparr>ca_id = fresh, ca_scope = scope, ca_status = ''active'', ca_balance = 0,
             ca_snapEvent = None, ca_updatedAt = t\<rparr>]\<rparr>))"

definition account_of_scope :: "books \<Rightarrow> string \<Rightarrow> credit_account option" where
  "account_of_scope b scope = List.find (\<lambda>a. ca_scope a = scope) (accounts b)"

subsection \<open>Products\<close>

definition productSnapshot :: "product \<Rightarrow> product result" where
  "productSnapshot p = rbind (safeNumber (tr_grantUnits (pd_terms p))) (\<lambda>_. Inr p)"

definition product_missing :: js_error where
  "product_missing = RelayError ''authority_product_not_found'' 404 []"

definition product_in :: "market \<Rightarrow> string \<Rightarrow> product result" where
  "product_in s i = (case find_product s i of None \<Rightarrow> Inl product_missing | Some p \<Rightarrow> Inr p)"

definition lockTeamProviderGrantProduct :: "string \<Rightarrow> (market, product) tx" where
  "lockTeamProviderGrantProduct i =
     looking (\<lambda>s. rbind (product_in s i) (\<lambda>p.
       if \<not> listed p \<or> tr_effect (pd_terms p) \<noteq> ''team_custom_provider_access''
       then relay ''authority_product_not_grantable'' 409 else productSnapshot p))"

definition next_version :: "market \<Rightarrow> string \<Rightarrow> int" where
  "next_version s code = Max (insert 0 (pd_version ` set (filter (\<lambda>p. pd_code p = code) (mk_products s)))) + 1"

definition createAuthorityProductVersion ::
  "product_terms \<Rightarrow> string \<Rightarrow> string \<Rightarrow> timestamp \<Rightarrow> string \<Rightarrow> (market, product) tx" where
  "createAuthorityProductVersion input code actor now fresh =
     tx_bind (tx_lift (validateAuthorityProductTerms input)) (\<lambda>terms.
     tx_bind (tx_lift (requiredCode code)) (\<lambda>code.
     tx_bind (looking (\<lambda>s. Inr (next_version s code))) (\<lambda>version.
     let p = \<lparr>pd_id = fresh, pd_code = code, pd_version = version, pd_terms = terms, pd_lifecycle = Draft_product,
              pd_createdBy = actor, pd_createdAt = now, pd_updatedAt = now\<rparr>
     in tx_bind (insert_product p) (\<lambda>_. tx_lift (productSnapshot p)))))"

definition updateDraftAuthorityProduct :: "string \<Rightarrow> product_terms \<Rightarrow> timestamp \<Rightarrow> (market, product) tx" where
  "updateDraftAuthorityProduct i input now =
     tx_bind (looking (\<lambda>s. product_in s i)) (\<lambda>p.
     tx_bind (tx_lift (require (pd_lifecycle p = Draft_product) (RelayError ''authority_product_frozen'' 409 []))) (\<lambda>_.
     tx_bind (tx_lift (validateAuthorityProductTerms input)) (\<lambda>terms.
     tx_bind (update_product i (\<lambda>q. q\<lparr>pd_terms := terms, pd_updatedAt := now\<rparr>)) (\<lambda>row. tx_lift (productSnapshot row)))))"

definition previous_listed :: "market \<Rightarrow> product \<Rightarrow> product option" where
  "previous_listed s p =
     first_of (js_sort (\<lambda>a b. pd_version b - pd_version a)
       (filter (\<lambda>q. pd_code q = pd_code p \<and> listed q \<and> pd_id q \<noteq> pd_id p) (mk_products s)))"

definition close_row :: "string \<Rightarrow> timestamp \<Rightarrow> (market, product) tx" where
  "close_row i now = update_product i (\<lambda>q. q\<lparr>pd_lifecycle := Closed_product, pd_updatedAt := now\<rparr>)"

definition listAuthorityProductVersion :: "string \<Rightarrow> timestamp \<Rightarrow> (market, product) tx" where
  "listAuthorityProductVersion i now =
     tx_bind (looking (\<lambda>s. product_in s i)) (\<lambda>p.
     tx_bind (tx_lift (require (pd_lifecycle p = Draft_product) (RelayError ''authority_product_not_draft'' 409 []))) (\<lambda>_.
     tx_bind (looking (\<lambda>s. Inr (previous_listed s p))) (\<lambda>previous.
     tx_bind (case previous of None \<Rightarrow> tx_return () | Some q \<Rightarrow> tx_bind (close_row (pd_id q) now) (\<lambda>_. tx_return ())) (\<lambda>_.
     tx_bind (update_product i (\<lambda>q. q\<lparr>pd_lifecycle := Listed_product, pd_updatedAt := now\<rparr>)) (\<lambda>row.
       tx_lift (productSnapshot row))))))"

definition closeAuthorityProduct :: "string \<Rightarrow> timestamp \<Rightarrow> (market, product) tx" where
  "closeAuthorityProduct i now =
     tx_bind (looking (\<lambda>s. product_in s i)) (\<lambda>p.
       if pd_lifecycle p = Closed_product then tx_lift (productSnapshot p)
       else if \<not> listed p then tx_lift (relay ''authority_product_not_listed'' 409)
       else tx_bind (close_row i now) (\<lambda>row. tx_lift (productSnapshot row)))"

end
