(* ===== verification/Commerce_Payments.thy ===== *)
theory Commerce_Payments
  imports Commerce
begin

section \<open>Purchases, refunds, releases and plan subscriptions\<close>

text \<open>
  The second half of \<open>packages/billing/src/commerce.ts\<close>: a purchase of a product debits the account of its buyer
  and records the revenue of the seller, a refund reverses both, and a plan subscription is paid for with the
  revenue spread over its period; and the task of the application's storage that pays out a revenue whose hold
  is over.
\<close>

subsection \<open>Purchases\<close>

record purchase_command =
  pq_buyer :: string
  pq_product :: string
  pq_key :: string
  pq_shapeJson :: string
  pq_effect :: string
  pq_unconsumed :: int

record purchase_ids =
  pi_account :: string
  pi_purchase :: string
  pi_ledger :: string
  pi_settlement :: string

record purchase_result =
  qr_purchase :: purchase
  qr_ledgerId :: string
  qr_revenueId :: string
  qr_replayed :: bool

definition purchaseSnapshot :: "purchase \<Rightarrow> purchase result" where
  "purchaseSnapshot p = rbind (safeNumber (tr_grantUnits (pu_terms p))) (\<lambda>_. Inr p)"

definition purchase_entry :: "books \<Rightarrow> string \<Rightarrow> string \<Rightarrow> ledger_event option" where
  "purchase_entry b i type = List.find (\<lambda>e. lv_purchase e = Some i \<and> lv_type e = type) (ledger b)"

definition purchase_settlement :: "market \<Rightarrow> string \<Rightarrow> settlement_type \<Rightarrow> settlement_row option" where
  "purchase_settlement s i type = List.find (\<lambda>r. sr_purchase r = Some i \<and> sr_type r = type) (mk_settlements s)"

definition purchaseResult :: "purchase \<Rightarrow> bool \<Rightarrow> market \<Rightarrow> purchase_result result" where
  "purchaseResult p replayed s =
     (case (purchase_entry (mk_books s) (pu_id p) ''authority_purchase'', purchase_settlement s (pu_id p) Revenue) of
        (Some e, Some r) \<Rightarrow>
          rbind (purchaseSnapshot p) (\<lambda>snapshot.
            Inr \<lparr>qr_purchase = snapshot, qr_ledgerId = lv_id e, qr_revenueId = sr_id r, qr_replayed = replayed\<rparr>)
      | _ \<Rightarrow> relay ''authority_purchase_corrupt'' 500)"

definition idempotency_reused :: js_error where
  "idempotency_reused = RelayError ''authority_idempotency_conflict'' 409 []"

definition prior_purchase :: "market \<Rightarrow> string \<Rightarrow> string \<Rightarrow> purchase option" where
  "prior_purchase s buyer keyHash = List.find (\<lambda>p. pu_buyer p = buyer \<and> pu_keyHash p = keyHash) (mk_purchases s)"

definition findAuthorityPurchaseReplay :: "(string \<Rightarrow> string) \<Rightarrow> string \<Rightarrow> string \<Rightarrow> string \<Rightarrow> market \<Rightarrow> purchase option result" where
  "findAuthorityPurchaseReplay sha buyer key shapeJson s =
     rbind (hashRequired sha key) (\<lambda>keyHash.
       case prior_purchase s buyer keyHash of
         None \<Rightarrow> Inr None
       | Some p \<Rightarrow>
           if pu_requestHash p \<noteq> sha shapeJson then Inl idempotency_reused
           else rbind (purchaseSnapshot p) (\<lambda>snapshot. Inr (Some snapshot)))"

definition lifetime_purchases :: "market \<Rightarrow> string \<Rightarrow> string \<Rightarrow> int" where
  "lifetime_purchases s buyer code = int (length (filter (\<lambda>p. pu_buyer p = buyer \<and> pu_code p = code) (mk_purchases s)))"

text \<open>What is checked of the account and the product, under their locks.\<close>

definition purchasable :: "purchase_command \<Rightarrow> market \<Rightarrow> (credit_account \<times> product) result" where
  "purchasable c s =
     (case account_of_scope (mk_books s) (''user:'' @ pq_buyer c) of
        None \<Rightarrow> relay ''credit_account_not_found'' 404
      | Some a \<Rightarrow>
          if ca_status a \<noteq> ''active'' then relay ''credit_account_not_found'' 404
          else case find_product s (pq_product c) of
                 None \<Rightarrow> relay ''authority_product_not_purchasable'' 409
               | Some p \<Rightarrow>
                   if \<not> listed p \<or> tr_effect (pd_terms p) \<noteq> pq_effect c then relay ''authority_product_not_purchasable'' 409
                   else if (case tr_maxPurchases (pd_terms p) of None \<Rightarrow> False
                            | Some m \<Rightarrow> lifetime_purchases s (pq_buyer c) (pd_code p) \<ge> m)
                   then relay ''authority_purchase_limit_exceeded'' 409
                   else rbind (case tr_maxUnconsumed (pd_terms p) of
                                 None \<Rightarrow> Inr ()
                               | Some m \<Rightarrow> rbind (safeNumber (tr_grantUnits (pd_terms p))) (\<lambda>units.
                                   require (pq_unconsumed c + units \<le> m) (RelayError ''authority_unconsumed_limit_exceeded'' 409 []))) (\<lambda>_.
                        if ca_balance a - held_units (mk_books s) (ca_id a) < tr_amount (pd_terms p)
                        then relay ''insufficient_credit_balance'' 402 else Inr (a, p)))"

definition purchase_of :: "purchase_command \<Rightarrow> credit_account \<Rightarrow> product \<Rightarrow> string \<Rightarrow> string \<Rightarrow> string \<Rightarrow> timestamp \<Rightarrow> purchase" where
  "purchase_of c a p i keyHash requestHash t =
     \<lparr>pu_id = i, pu_product = pd_id p, pu_buyer = pq_buyer c, pu_account = ca_id a, pu_code = pd_code p, pu_version = pd_version p,
      pu_terms = pd_terms p, pu_keyHash = keyHash, pu_requestHash = requestHash, pu_createdAt = t\<rparr>"

definition purchase_charge :: "purchase \<Rightarrow> string \<Rightarrow> ledger_event" where
  "purchase_charge p i =
     \<lparr>lv_id = i, lv_account = pu_account p, lv_type = ''authority_purchase'', lv_amount = - tr_amount (pu_terms p), lv_subscription = None,
      lv_billingEvent = None, lv_attempt = None, lv_purchase = Some (pu_id p), lv_related = None,
      lv_reason = ''authority_product:'' @ pu_code p @ ''@'' @ int_text (pu_version p), lv_actor = Some (pu_buyer p),
      lv_createdAt = pu_createdAt p\<rparr>"

definition purchase_revenue :: "purchase \<Rightarrow> string \<Rightarrow> timestamp \<Rightarrow> string \<Rightarrow> settlement_row" where
  "purchase_revenue p ledgerId releaseAt i =
     \<lparr>sr_id = i, sr_subscription = None, sr_purchase = Some (pu_id p), sr_seller = tr_seller (pu_terms p), sr_windowStart = pu_createdAt p,
      sr_windowEnd = releaseAt, sr_releaseAt = releaseAt, sr_type = Revenue, sr_units = tr_amount (pu_terms p),
      sr_sourceType = ''authority_purchase'', sr_sourceId = ledgerId, sr_createdAt = pu_createdAt p\<rparr>"

definition purchaseAuthorityProductFinancialFacts ::
  "(string \<Rightarrow> string) \<Rightarrow> purchase_command \<Rightarrow> timestamp \<Rightarrow> purchase_ids \<Rightarrow> (market, purchase_result) tx" where
  "purchaseAuthorityProductFinancialFacts sha c now ids =
     tx_bind (tx_lift (hashRequired sha (pq_key c))) (\<lambda>keyHash.
     tx_bind (looking (\<lambda>s. Inr (prior_purchase s (pq_buyer c) keyHash))) (\<lambda>prior.
       case prior of
         Some p \<Rightarrow>
           if pu_requestHash p \<noteq> sha (pq_shapeJson c) then tx_throw idempotency_reused else looking (purchaseResult p True)
       | None \<Rightarrow>
           tx_bind (on_money (ensure_account (''user:'' @ pq_buyer c) (pi_account ids) now)) (\<lambda>_.
           tx_bind (looking (purchasable c)) (\<lambda>(a, product).
           let p = purchase_of c a product (pi_purchase ids) keyHash (sha (pq_shapeJson c)) now;
               e = purchase_charge p (pi_ledger ids)
           in tx_bind (insert_purchase p) (\<lambda>_.
              tx_bind (post_money e (ca_balance a - tr_amount (pd_terms product))) (\<lambda>_.
              tx_bind (tx_lift (addSeconds now (tr_settlementHold (pd_terms product)))) (\<lambda>releaseAt.
              tx_bind (insert_settlement (purchase_revenue p (pi_ledger ids) releaseAt (pi_settlement ids))) (\<lambda>_.
              tx_bind (tx_lift (purchaseSnapshot p)) (\<lambda>snapshot.
                tx_return \<lparr>qr_purchase = snapshot, qr_ledgerId = pi_ledger ids, qr_revenueId = pi_settlement ids,
                           qr_replayed = False\<rparr>)))))))))"

subsection \<open>Refunds\<close>

record refund_command =
  rd_purchase :: string
  rd_grant :: string
  rd_actor :: string
  rd_reason :: string
  rd_key :: string

record refund_result =
  rt_refund :: refund
  rt_ledgerId :: string
  rt_reversalId :: string
  rt_replayed :: bool

record refund_ids =
  ri_refund :: string
  ri_ledger :: string
  ri_settlement :: string

definition refundResult :: "refund \<Rightarrow> bool \<Rightarrow> market \<Rightarrow> refund_result result" where
  "refundResult r replayed s =
     (case (purchase_entry (mk_books s) (rf_purchase r) ''reversal'', purchase_settlement s (rf_purchase r) Reversal) of
        (Some e, Some x) \<Rightarrow> Inr \<lparr>rt_refund = r, rt_ledgerId = lv_id e, rt_reversalId = sr_id x, rt_replayed = replayed\<rparr>
      | _ \<Rightarrow> relay ''authority_refund_corrupt'' 500)"

definition refund_shape :: "refund_command \<Rightarrow> string" where
  "refund_shape c = json_print (Json_obj [(''purchaseId'', Json_str (rd_purchase c)), (''reasonCode'', Json_str (rd_reason c))])"

definition refund_by_key :: "market \<Rightarrow> string \<Rightarrow> string \<Rightarrow> refund option" where
  "refund_by_key s actor keyHash = List.find (\<lambda>r. rf_actor r = actor \<and> rf_keyHash r = keyHash) (mk_refunds s)"

definition refund_of_purchase :: "market \<Rightarrow> string \<Rightarrow> refund option" where
  "refund_of_purchase s i = List.find (\<lambda>r. rf_purchase r = i) (mk_refunds s)"

definition findAuthorityRefundReplay :: "(string \<Rightarrow> string) \<Rightarrow> refund_command \<Rightarrow> market \<Rightarrow> refund_result option result" where
  "findAuthorityRefundReplay sha c s =
     rbind (requireRefundReason (rd_reason c)) (\<lambda>_.
     rbind (hashRequired sha (rd_key c)) (\<lambda>keyHash.
       case refund_by_key s (rd_actor c) keyHash of
         Some r \<Rightarrow>
           if rf_requestHash r \<noteq> sha (refund_shape c) then Inl idempotency_reused
           else rbind (refundResult r True s) (\<lambda>x. Inr (Some x))
       | None \<Rightarrow>
           (case refund_of_purchase s (rd_purchase c) of
              None \<Rightarrow> Inr None
            | Some r \<Rightarrow> rbind (refundResult r True s) (\<lambda>x. Inr (Some x)))))"

definition refund_open :: "purchase \<Rightarrow> timestamp \<Rightarrow> unit result" where
  "refund_open p now =
     (case tr_refundDeadline (pu_terms p) of
        None \<Rightarrow> relay ''authority_refund_not_allowed'' 409
      | Some d \<Rightarrow>
          if tr_refundMode (pu_terms p) \<noteq> ''unused_by_owner'' then relay ''authority_refund_not_allowed'' 409
          else rbind (addSeconds (pu_createdAt p) d) (\<lambda>deadline.
                 require (now < deadline) (RelayError ''authority_refund_deadline_exceeded'' 409 [])))"

definition settlements_of :: "market \<Rightarrow> string \<Rightarrow> settlement_row list" where
  "settlements_of s i = filter (\<lambda>r. sr_purchase r = Some i) (mk_settlements s)"

definition lockAuthorityRefundCandidate :: "string \<Rightarrow> timestamp \<Rightarrow> (market, purchase) tx" where
  "lockAuthorityRefundCandidate i now =
     looking (\<lambda>s. case find_purchase s i of
         None \<Rightarrow> relay ''authority_purchase_not_found'' 404
       | Some p \<Rightarrow>
           rbind (refund_open p now) (\<lambda>_.
             if list_ex (\<lambda>r. sr_type r = Release) (settlements_of s i) then relay ''authority_refund_already_settled'' 409
             else purchaseSnapshot p))"

text \<open>
  The revenue of the purchase in the order the code reads its events, by their creation, and the account to credit.
\<close>

definition settlement_order :: "settlement_row \<Rightarrow> settlement_row \<Rightarrow> int" where
  "settlement_order = cmp_key_then sr_createdAt (\<lambda>a b. text_compare (sr_id a) (sr_id b))"

definition refundable :: "purchase \<Rightarrow> timestamp \<Rightarrow> market \<Rightarrow> (settlement_row \<times> ledger_event \<times> credit_account) result" where
  "refundable p now s =
     rbind (refund_open p now) (\<lambda>_.
       let rows = js_sort settlement_order (settlements_of s (pu_id p))
       in case List.find (\<lambda>r. sr_type r = Revenue) rows of
            None \<Rightarrow> relay ''authority_purchase_corrupt'' 500
          | Some revenue \<Rightarrow>
              if list_ex (\<lambda>r. sr_type r = Release) rows then relay ''authority_refund_already_settled'' 409
              else if list_ex (\<lambda>r. sr_type r = Reversal) rows then relay ''authority_purchase_corrupt'' 500
              else case purchase_entry (mk_books s) (pu_id p) ''authority_purchase'' of
                     None \<Rightarrow> relay ''authority_purchase_corrupt'' 500
                   | Some e \<Rightarrow>
                       (case find_account (mk_books s) (pu_account p) of
                          None \<Rightarrow> relay ''credit_account_not_found'' 500
                        | Some a \<Rightarrow> Inr (revenue, e, a)))"

definition refund_of :: "refund_command \<Rightarrow> string \<Rightarrow> string \<Rightarrow> string \<Rightarrow> timestamp \<Rightarrow> refund" where
  "refund_of c i keyHash requestHash t =
     \<lparr>rf_id = i, rf_purchase = rd_purchase c, rf_grant = rd_grant c, rf_actor = rd_actor c, rf_reason = rd_reason c,
      rf_keyHash = keyHash, rf_requestHash = requestHash, rf_createdAt = t\<rparr>"

definition refund_entry :: "purchase \<Rightarrow> refund \<Rightarrow> ledger_event \<Rightarrow> credit_account \<Rightarrow> string \<Rightarrow> ledger_event" where
  "refund_entry p r original a i =
     \<lparr>lv_id = i, lv_account = ca_id a, lv_type = ''reversal'', lv_amount = tr_amount (pu_terms p), lv_subscription = None,
      lv_billingEvent = None, lv_attempt = None, lv_purchase = Some (pu_id p), lv_related = Some (lv_id original),
      lv_reason = ''authority_refund:'' @ rf_reason r, lv_actor = Some (rf_actor r), lv_createdAt = rf_createdAt r\<rparr>"

definition refund_reversal :: "purchase \<Rightarrow> refund \<Rightarrow> settlement_row \<Rightarrow> string \<Rightarrow> settlement_row" where
  "refund_reversal p r revenue i =
     \<lparr>sr_id = i, sr_subscription = None, sr_purchase = Some (pu_id p), sr_seller = tr_seller (pu_terms p), sr_windowStart = pu_createdAt p,
      sr_windowEnd = sr_releaseAt revenue, sr_releaseAt = sr_releaseAt revenue, sr_type = Reversal, sr_units = tr_amount (pu_terms p),
      sr_sourceType = ''authority_refund'', sr_sourceId = rf_id r, sr_createdAt = rf_createdAt r\<rparr>"

definition refundAuthorityPurchaseFinancialFacts ::
  "(string \<Rightarrow> string) \<Rightarrow> refund_command \<Rightarrow> timestamp \<Rightarrow> refund_ids \<Rightarrow> (market, refund_result) tx" where
  "refundAuthorityPurchaseFinancialFacts sha c now ids =
     tx_bind (tx_lift (requireRefundReason (rd_reason c))) (\<lambda>_.
     tx_bind (tx_lift (hashRequired sha (rd_key c))) (\<lambda>keyHash.
     tx_bind (looking (\<lambda>s. Inr (refund_by_key s (rd_actor c) keyHash))) (\<lambda>replay.
       case replay of
         Some r \<Rightarrow> if rf_requestHash r \<noteq> sha (refund_shape c) then tx_throw idempotency_reused else looking (refundResult r True)
       | None \<Rightarrow>
           tx_bind (looking (\<lambda>s. case find_purchase s (rd_purchase c) of
                      None \<Rightarrow> relay ''authority_purchase_not_found'' 404 | Some p \<Rightarrow> Inr p)) (\<lambda>p.
           tx_bind (looking (\<lambda>s. Inr (refund_of_purchase s (pu_id p)))) (\<lambda>existing.
             case existing of
               Some r \<Rightarrow> looking (refundResult r True)
             | None \<Rightarrow>
                 tx_bind (looking (refundable p now)) (\<lambda>(revenue, original, a).
                 let r = refund_of c (ri_refund ids) keyHash (sha (refund_shape c)) now
                 in tx_bind (insert_refund r) (\<lambda>_.
                    tx_bind (post_money (refund_entry p r original a (ri_ledger ids)) (ca_balance a + tr_amount (pu_terms p))) (\<lambda>_.
                    tx_bind (insert_settlement (refund_reversal p r revenue (ri_settlement ids))) (\<lambda>_.
                      tx_return \<lparr>rt_refund = r, rt_ledgerId = ri_ledger ids, rt_reversalId = ri_settlement ids,
                                 rt_replayed = False\<rparr>)))))))))"

subsection \<open>Plan subscriptions\<close>

record plan_row =
  pl_status :: string
  pl_amount :: int
  pl_scopeRef :: string
  pl_billingMode :: string

record plan_funding =
  pf_account :: string
  pf_actor :: string
  pf_plan :: string
  pf_seller :: string
  pf_billingMode :: string
  pf_amount :: int
  pf_units :: int
  pf_balance :: int

record paid_subscription =
  ps_id :: string
  ps_start :: timestamp
  ps_end :: "timestamp option"

record tranche =
  tn_start :: timestamp
  tn_end :: timestamp
  tn_units :: int

definition WINDOW_MS :: int where
  "WINDOW_MS = 2592000000"

text \<open>One tranche for each window of thirty days that begins before the end; the last takes what is left.\<close>

function tranche_loop :: "timestamp \<Rightarrow> timestamp \<Rightarrow> int \<Rightarrow> int \<Rightarrow> int \<Rightarrow> tranche list result" where
  "tranche_loop windowStart end duration amount allocated =
     (if windowStart < end
      then let windowEnd = windowStart + WINDOW_MS; overlap = min end windowEnd - windowStart;
               units = (if windowEnd \<ge> end then amount - allocated else amount * overlap div duration)
           in if windowEnd > MAX_DATE then plain ''RangeError''
              else rbind (tranche_loop windowEnd end duration amount (allocated + units)) (\<lambda>rest.
                     Inr (\<lparr>tn_start = windowStart, tn_end = windowEnd, tn_units = units\<rparr> # rest))
      else if allocated = amount then Inr [] else plain ''seller_settlement_tranche_allocation_invalid'')"
  by pat_completeness auto
termination
  by (relation "measure (\<lambda>(windowStart, end, _). nat (end - windowStart))") (auto simp: WINDOW_MS_def)

declare tranche_loop.simps [simp del]

definition prepaidTranches :: "paid_subscription \<Rightarrow> int \<Rightarrow> tranche list result" where
  "prepaidTranches sub amount =
     (case ps_end sub of
        None \<Rightarrow> relay ''invalid_seller_settlement_window'' 500
      | Some end \<Rightarrow>
          if end \<le> ps_start sub \<or> amount \<le> 0 then relay ''invalid_seller_settlement_window'' 500
          else tranche_loop (ps_start sub) end (end - ps_start sub) amount 0)"

definition lockPlanSubscriptionPurchaseFunding ::
  "(string \<Rightarrow> plan_row option) \<Rightarrow> string \<Rightarrow> string \<Rightarrow> int \<Rightarrow> string \<Rightarrow> (market, plan_funding) tx" where
  "lockPlanSubscriptionPurchaseFunding plans accountId planId units actor =
     looking (\<lambda>s.
       if \<not> is_safe_int units \<or> units < 1 \<or> units > 1000 then relay ''invalid_plan_units'' 400
       else case find_account (mk_books s) accountId of
              None \<Rightarrow> relay ''credit_account_not_found'' 404
            | Some a \<Rightarrow>
                if ca_status a \<noteq> ''active'' then relay ''credit_account_not_found'' 404
                else case plans planId of
                       None \<Rightarrow> relay ''plan_not_open_for_new_entitlements'' 409
                     | Some p \<Rightarrow>
                         if pl_status p \<noteq> ''enabled'' then relay ''plan_not_open_for_new_entitlements'' 409
                         else if ca_balance a - held_units (mk_books s) (ca_id a) < pl_amount p * units
                         then relay ''insufficient_credit_balance'' 402
                         else Inr \<lparr>pf_account = ca_id a, pf_actor = actor, pf_plan = planId, pf_seller = pl_scopeRef p,
                                   pf_billingMode = pl_billingMode p, pf_amount = pl_amount p, pf_units = units,
                                   pf_balance = ca_balance a\<rparr>)"

text \<open>The identifiers and the time of the payment of one subscription.\<close>

record payment_ids =
  py_ledger :: string
  py_settlement :: "nat \<Rightarrow> string"
  py_now :: timestamp

definition plan_charge :: "plan_funding \<Rightarrow> paid_subscription \<Rightarrow> payment_ids \<Rightarrow> ledger_event" where
  "plan_charge f sub ids =
     \<lparr>lv_id = py_ledger ids, lv_account = pf_account f, lv_type = ''plan_purchase'', lv_amount = - pf_amount f,
      lv_subscription = Some (ps_id sub), lv_billingEvent = None, lv_attempt = None, lv_purchase = None, lv_related = None,
      lv_reason = ''plan:'' @ pf_plan f, lv_actor = Some (pf_actor f), lv_createdAt = py_now ids\<rparr>"

definition plan_revenue :: "plan_funding \<Rightarrow> paid_subscription \<Rightarrow> payment_ids \<Rightarrow> nat \<Rightarrow> tranche \<Rightarrow> settlement_row" where
  "plan_revenue f sub ids n t =
     \<lparr>sr_id = py_settlement ids n, sr_subscription = Some (ps_id sub), sr_purchase = None, sr_seller = pf_seller f,
      sr_windowStart = tn_start t, sr_windowEnd = tn_end t, sr_releaseAt = tn_end t, sr_type = Revenue, sr_units = tn_units t,
      sr_sourceType = ''plan_purchase'', sr_sourceId = py_ledger ids, sr_createdAt = py_now ids\<rparr>"

fun insert_tranches :: "plan_funding \<Rightarrow> paid_subscription \<Rightarrow> payment_ids \<Rightarrow> nat \<Rightarrow> tranche list \<Rightarrow> (market, unit) tx" where
  "insert_tranches f sub ids n [] = tx_return ()"
| "insert_tranches f sub ids n (t # ts) =
     (if tn_units t \<le> 0 then insert_tranches f sub ids (Suc n) ts
      else tx_bind (insert_settlement (plan_revenue f sub ids n t)) (\<lambda>_. insert_tranches f sub ids (Suc n) ts))"

definition pay_subscription :: "plan_funding \<Rightarrow> int \<Rightarrow> paid_subscription \<Rightarrow> payment_ids \<Rightarrow> (market, unit) tx" where
  "pay_subscription f balance sub ids =
     tx_bind (post_money (plan_charge f sub ids) (balance - pf_amount f)) (\<lambda>_.
       if pf_billingMode f = ''prepaid'' \<and> pf_amount f > 0
       then tx_bind (tx_lift (prepaidTranches sub (pf_amount f))) (insert_tranches f sub ids 0)
       else tx_return ())"

fun pay_subscriptions :: "plan_funding \<Rightarrow> int \<Rightarrow> (paid_subscription \<times> payment_ids) list \<Rightarrow> (market, string list) tx" where
  "pay_subscriptions f balance [] = tx_return []"
| "pay_subscriptions f balance ((sub, ids) # subs) =
     tx_bind (pay_subscription f balance sub ids) (\<lambda>_.
     tx_bind (pay_subscriptions f (balance - pf_amount f) subs) (\<lambda>ledgerIds. tx_return (py_ledger ids # ledgerIds)))"

definition completePlanSubscriptionPurchaseFunding ::
  "plan_funding \<Rightarrow> (paid_subscription \<times> payment_ids) list \<Rightarrow> (market, string list) tx" where
  "completePlanSubscriptionPurchaseFunding f subs =
     (if int (length subs) \<noteq> pf_units f then tx_throw (RelayError ''plan_purchase_subscription_count_mismatch'' 500 [])
      else if pf_amount f \<le> 0 then tx_return []
      else pay_subscriptions f (pf_balance f) subs)"

text \<open>
  The payment of a plan as its caller runs it, in one transaction; between its two halves the caller creates
  the subscriptions, which the books do not see.
\<close>

definition pay_plan ::
  "(string \<Rightarrow> plan_row option) \<Rightarrow> string \<Rightarrow> string \<Rightarrow> string \<Rightarrow> int \<Rightarrow> (paid_subscription \<times> payment_ids) list
     \<Rightarrow> (market, string list) tx" where
  "pay_plan plans accountId planId actor units subs =
     tx_bind (lockPlanSubscriptionPurchaseFunding plans accountId planId units actor) (\<lambda>f.
       completePlanSubscriptionPurchaseFunding f subs)"

subsection \<open>The release of a purchase to its seller\<close>

text \<open>
  \<open>releaseDueSellerSettlements\<close> of the storage of the application pays a seller, window by window, what the
  window has left once its time has come. The windows of purchases are here; those of subscriptions post entries
  that name no purchase. The row of \<open>seller_settlement_windows\<close> that the task read is the purchase, the seller
  and the start of the window, with the text in which the start is stored. A trigger keeps that table to the time
  of the window's events and closes a window as it is released, so being due and being open are read from the
  events. The lease of the task is held.
\<close>

record release_window =
  rw_purchase :: string
  rw_seller :: string
  rw_start :: timestamp
  rw_startText :: string

record release_ids =
  le_settlement :: string
  le_account :: string
  le_ledger :: string

definition window_rows :: "release_window \<Rightarrow> market \<Rightarrow> settlement_row list" where
  "window_rows w s =
     filter (\<lambda>r. sr_subscription r = None \<and> sr_purchase r = Some (rw_purchase w) \<and> sr_seller r = rw_seller w \<and> sr_windowStart r = rw_start w)
       (mk_settlements s)"

fun net_of :: "settlement_row \<Rightarrow> int" where
  "net_of r = (case sr_type r of Revenue \<Rightarrow> sr_units r | Reversal \<Rightarrow> - sr_units r | Release \<Rightarrow> 0)"

definition net_units :: "settlement_row list \<Rightarrow> int" where
  "net_units rows = sum_list (map net_of rows)"

definition released_units :: "settlement_row list \<Rightarrow> int" where
  "released_units rows = sum_list (map sr_units (filter (\<lambda>r. sr_type r = Release) rows))"

definition safePostgresInteger :: "int \<Rightarrow> string \<Rightarrow> int result" where
  "safePostgresInteger n code = (if is_safe_int n then Inr n else plain code)"

definition release_row :: "release_window \<Rightarrow> settlement_row list \<Rightarrow> int \<Rightarrow> string \<Rightarrow> timestamp \<Rightarrow> settlement_row" where
  "release_row w rows amount i t =
     \<lparr>sr_id = i, sr_subscription = None, sr_purchase = Some (rw_purchase w), sr_seller = rw_seller w, sr_windowStart = rw_start w,
      sr_windowEnd = Min (sr_windowEnd ` set rows), sr_releaseAt = Min (sr_releaseAt ` set rows), sr_type = Release, sr_units = amount,
      sr_sourceType = ''settlement_window'',
      sr_sourceId = ''authority:'' @ rw_purchase w @ '':'' @ rw_seller w @ '':'' @ rw_startText w, sr_createdAt = t\<rparr>"

definition release_entry :: "release_window \<Rightarrow> string \<Rightarrow> int \<Rightarrow> string \<Rightarrow> timestamp \<Rightarrow> ledger_event" where
  "release_entry w accountId amount i t =
     \<lparr>lv_id = i, lv_account = accountId, lv_type = ''seller_settlement_release'', lv_amount = amount, lv_subscription = None,
      lv_billingEvent = None, lv_attempt = None, lv_purchase = Some (rw_purchase w), lv_related = None,
      lv_reason = ''seller_settlement:'' @ rw_startText w, lv_actor = None, lv_createdAt = t\<rparr>"

text \<open>An insert that a row with the same keys turns into nothing.\<close>

definition insert_or_skip :: "settlement_row \<Rightarrow> (market, bool) tx" where
  "insert_or_skip r s = (case insert_settlement r s of Inl _ \<Rightarrow> Inr (False, s) | Inr (_, t) \<Rightarrow> Inr (True, t))"

definition pay_seller :: "release_window \<Rightarrow> int \<Rightarrow> timestamp \<Rightarrow> release_ids \<Rightarrow> (market, unit) tx" where
  "pay_seller w amount now ids =
     tx_bind (on_money (ensure_account (rw_seller w) (le_account ids) now)) (\<lambda>_.
     tx_bind (looking (\<lambda>s. case account_of_scope (mk_books s) (rw_seller w) of
                Some a \<Rightarrow> if ca_status a = ''active'' then Inr a else relay ''credit_account_inactive'' 409
              | None \<Rightarrow> relay ''credit_account_inactive'' 409)) (\<lambda>a.
       post_money (release_entry w (ca_id a) amount (le_ledger ids) now) (ca_balance a + amount)))"

definition release_window_units :: "release_window \<Rightarrow> timestamp \<Rightarrow> release_ids \<Rightarrow> (market, int) tx" where
  "release_window_units w now ids =
     tx_bind (looking (\<lambda>s. Inr (window_rows w s))) (\<lambda>rows.
       if rows = [] \<or> now < Min (sr_releaseAt ` set rows) then tx_return 0
       else
         tx_bind (tx_lift (safePostgresInteger (net_units rows) ''seller_settlement_net_units_invalid'')) (\<lambda>net.
         tx_bind (tx_lift (safePostgresInteger (released_units rows) ''seller_settlement_released_units_invalid'')) (\<lambda>released.
         let amount = max 0 (net - released)
         in if amount \<le> 0 then tx_return 0
            else if \<not> is_safe_int amount then tx_throw (RelayError ''invalid_seller_settlement_amount'' 500 [])
            else tx_bind (insert_or_skip (release_row w rows amount (le_settlement ids) now)) (\<lambda>inserted.
                   if \<not> inserted then tx_return 0
                   else tx_bind (pay_seller w amount now ids) (\<lambda>_. tx_return amount)))))"

fun releaseDueSellerSettlements :: "timestamp \<Rightarrow> (release_window \<times> release_ids) list \<Rightarrow> (market, int) tx" where
  "releaseDueSellerSettlements now [] = tx_return 0"
| "releaseDueSellerSettlements now ((w, ids) # ws) =
     tx_bind (release_window_units w now ids) (\<lambda>units.
     tx_bind (releaseDueSellerSettlements now ws) (\<lambda>rest. tx_return (units + rest)))"

end
