(* ===== verification/Commerce_Runs.thy ===== *)
theory Commerce_Runs
  imports Commerce_Payments "HOL-Library.Sublist"
begin

section \<open>Runs of commerce\<close>

text \<open>
  The commands of \<open>commerce.ts\<close> in any order, beside the commands of billing and the other writers of the same
  tables. What a command of commerce does to the books of billing is a run of the other writers that billing
  already allows, so its invariant holds; the invariant of commerce ties each purchase to its entries of the
  ledger, its revenue and its refund.
\<close>

subsection \<open>Effects\<close>

lemma on_money_Inr [effects]:
  "on_money m s = Inr (x, t) \<longleftrightarrow> (\<exists>b. m (mk_books s) = Inr (x, b) \<and> t = s\<lparr>mk_app := (mk_app s)\<lparr>ap_books := b\<rparr>\<rparr>)"
  by (auto simp: on_money_def effects)

lemma looking_Inr [effects]: "looking f s = Inr (x, t) \<longleftrightarrow> f s = Inr x \<and> t = s"
  by (auto simp: looking_def effects)

lemma insert_settlement_Inr:
  assumes "insert_settlement r s = Inr (x, t)"
  shows "t = s\<lparr>mk_settlements := mk_settlements s @ [r]\<rparr>"
  using assms by (auto simp: insert_settlement_def split: if_splits)

lemma insert_purchase_Inr:
  assumes "insert_purchase p s = Inr (x, t)"
  shows "t = s\<lparr>mk_purchases := mk_purchases s @ [p]\<rparr>" "find_purchase s (pu_id p) = None"
    "prior_purchase s (pu_buyer p) (pu_keyHash p) = None"
  using assms by (auto simp: insert_purchase_def find_purchase_def prior_purchase_def find_None_iff list_ex_iff split: if_splits)

lemma insert_refund_Inr:
  assumes "insert_refund r s = Inr (x, t)"
  shows "t = s\<lparr>mk_refunds := mk_refunds s @ [r]\<rparr>" "refund_of_purchase s (rf_purchase r) = None"
  using assms by (auto simp: insert_refund_def refund_of_purchase_def find_None_iff list_ex_iff split: if_splits)

text \<open>A posting with the balance that the code computed is the posting of the other writers of the ledger.\<close>

lemma post_money_Inr:
  assumes "post_money e balance s = Inr (x, t)" "find_account (mk_books s) (lv_account e) = Some a"
    "balance = ca_balance a + lv_amount e" "distinct (map ca_id (accounts (mk_books s)))"
  shows "t = s\<lparr>mk_app := (mk_app s)\<lparr>ap_books := post_entry e (mk_books s)\<rparr>\<rparr>" "lv_id e \<notin> lv_id ` set (ledger (mk_books s))"
proof -
  let ?f = "posted_account e balance"
  from assms(1) have fresh: "lv_id e \<notin> lv_id ` set (ledger (mk_books s))"
    and t: "t = s\<lparr>mk_app := (mk_app s)\<lparr>ap_books := (mk_books s)\<lparr>ledger := ledger (mk_books s) @ [e],
        accounts := map (\<lambda>y. if ca_id y = lv_account e then ?f y else y) (accounts (mk_books s))\<rparr>\<rparr>\<rparr>"
    by (auto simp: post_money_def effects insert_ledger_event_def update_account_def list_ex_iff split: if_splits)
  from find_key_SomeD [OF assms(2) [unfolded find_account_def]] have a: "a \<in> set (accounts (mk_books s))" "ca_id a = lv_account e"
    by simp_all
  have "y = a" if "y \<in> set (accounts (mk_books s))" "ca_id y = lv_account e" for y
    using inj_onD [of ca_id "set (accounts (mk_books s))" y a] that a assms(4) by (simp add: distinct_map)
  then have "map (\<lambda>y. if ca_id y = lv_account e then ?f y else y) (accounts (mk_books s))
    = accounts (post_entry e (mk_books s))"
    by (auto simp: post_entry_def posted_account_def assms(3))
  then show "t = s\<lparr>mk_app := (mk_app s)\<lparr>ap_books := post_entry e (mk_books s)\<rparr>\<rparr>"
    unfolding t by (simp add: post_entry_def)
  show "lv_id e \<notin> lv_id ` set (ledger (mk_books s))" by (rule fresh)
qed

subsection \<open>Billing and the other writers do not touch purchases\<close>

text \<open>
  How the books may grow outside commerce: the ledger by entries of known accounts that name no purchase, the
  accounts by new ones, since a trigger of the database keeps the scope of an account.
\<close>

definition account_names :: "books \<Rightarrow> (string \<times> string) list" where
  "account_names b = map (\<lambda>a. (ca_id a, ca_scope a)) (accounts b)"

definition ledger_grows :: "books \<Rightarrow> books \<Rightarrow> bool" where
  "ledger_grows b b' \<longleftrightarrow>
     (\<exists>es. ledger b' = ledger b @ es \<and> (\<forall>e \<in> set es. lv_purchase e = None \<and> lv_account e \<in> ca_id ` set (accounts b')))
     \<and> prefix (account_names b) (account_names b')"

lemma account_ids_names: "ca_id ` set (accounts b) = fst ` set (account_names b)"
  by (auto simp: account_names_def image_iff)

lemma names_grow_ids: "prefix (account_names b) (account_names b') \<Longrightarrow> ca_id ` set (accounts b) \<subseteq> ca_id ` set (accounts b')"
  unfolding account_ids_names by (intro image_mono set_mono_prefix)

lemma ledger_grows_same: "ledger b' = ledger b \<Longrightarrow> accounts b' = accounts b \<Longrightarrow> ledger_grows b b'"
  by (simp add: ledger_grows_def account_names_def)

lemma settle_ledger:
  assumes "settlement_effect i b r b'"
  shows "ledger_grows b b'"
  using assms
proof (cases rule: settlement_effectE)
  case effect: (1 f e h p ses)
  have names: "account_names b' = account_names b"
    using effect(6) by (cases "uf_posting f") (auto simp: charge_posted_def charged_account_def account_names_def)
  have ids: "ca_id ` set (accounts b') = ca_id ` set (accounts b)"
    using names by (simp add: account_ids_names)
  from effect(6) show ?thesis
    by (cases "uf_posting f")
      (auto simp: charge_posted_def ledger_grows_def ids names usage_charge_entry_def find_account_def find_key_None)
qed

lemma settle_app_ledger:
  assumes "settleFinalUsage lc c outcome strict expected now ids s = Inr (r, t)"
  shows "ledger_grows (ap_books s) (ap_books t)"
  using assms
proof (cases rule: settle_final_Inr)
  case run: (1 a d attempt db b)
  show ?thesis
  proof (cases "find_fact (ap_books s) (fi_ref (sc_finalize c))")
    case None
    show ?thesis unfolding run(11) app.select_convs
      by (rule settle_ledger, rule settle_effect [OF run(9), where db = "ap_request s"]) (simp_all add: None run(8))
  next
    case (Some f)
    with settle_again [OF run(9)] show ?thesis by (simp add: run(11) ledger_grows_same)
  qed
qed

lemma mark_ledger:
  assumes "markInvocationBillingReconciliation ref exposure now b = Inr (x, b')"
  shows "ledger_grows b b'"
  using assms
  by (auto simp: markInvocationBillingReconciliation_def update_reservation_def intro!: ledger_grows_same split: option.splits if_splits)

lemma enter_ledger:
  assumes "enterReconciliation c now s = Inr (x, t)"
  shows "ledger_grows (ap_books s) (ap_books t)"
proof -
  from assms obtain moved b where
    "if moved then markInvocationBillingReconciliation (rc_ref c) (rc_costExposure c) now (ap_books s) = Inr ((), b) else b = ap_books s"
    "ap_books t = b"
    by (fastforce simp: enterReconciliation_def effects split: if_splits)
  then show ?thesis by (cases moved) (auto intro: mark_ledger ledger_grows_same)
qed

lemma dispatch_ledger:
  assumes "assertDispatchOwnership ref rid owner now s = Inr (x, t)"
  shows "ledger_grows (ap_books s) (ap_books t)"
proof -
  from assms obtain d db b where "assert_dispatch ref rid owner now (ap_request s) = Inr (d, db)"
    "if dd_transitionToReconciliation d
     then markInvocationBillingReconciliation ref Accruing (dd_transitionedAt d) (ap_books s) = Inr ((), b) else b = ap_books s"
    "t = \<lparr>ap_request = db, ap_books = b\<rparr>"
    by (fastforce simp: assertDispatchOwnership_def effects intro: app_eqI split: if_splits)
  then show ?thesis by (cases "dd_transitionToReconciliation d") (auto intro: mark_ledger ledger_grows_same)
qed

lemma admit_ledger:
  assumes "admitProviderInvocation w c now ids s = Inr (r, t)"
  shows "ledger_grows (ap_books s) (ap_books t)"
  using assms
proof (cases rule: admit_app_Inr)
  case (admitted account d sub f terms maximum stored reservation db b)
  from occupation_Inr(1) [OF admitted(6)] show ?thesis
    by (cases rule: occupation_rows) (simp add: admitted(9) ledger_grows_same)
qed (simp add: ledger_grows_same)

lemma claimless_ledger:
  assumes "admitCpaBasicProviderInvocation lc w c now fresh s = Inr (r, t)"
  shows "ledger_grows (ap_books s) (ap_books t)"
  using assms by (cases rule: claimless_Inr) (simp_all add: ledger_grows_same)

lemma committed_ledger:
  assumes "\<And>x t. m s = Inr (x, t) \<Longrightarrow> ledger_grows (ap_books s) (ap_books t)"
  shows "ledger_grows (ap_books s) (ap_books (committed s m))"
  using assms by (auto simp: committed_def ledger_grows_same split: sum.splits)

lemma live_ledger: "ledger_grows (ap_books s) (ap_books (snd (settleCpaBasicLive lc c now later ids s)))"
  by (auto simp: settleCpaBasicLive_def ledger_grows_same intro: settle_app_ledger enter_ledger split: sum.splits)

lemma run_app_ledger: "ledger_grows (ap_books s) (ap_books (run_app lc op s))"
proof (cases op)
  case (App_release c now ids)
  then show ?thesis by (auto simp: releaseNotStarted_def effects intro!: committed_ledger intro: settle_app_ledger)
next
  case (App_request op')
  then show ?thesis by (simp add: ledger_grows_same split: sum.splits)
qed (auto intro!: committed_ledger live_ledger intro: admit_ledger claimless_ledger settle_app_ledger enter_ledger dispatch_ledger
    dest!: reconcile_final_Inr)

subsection \<open>Commands\<close>

datatype market_op =
    Market_create product_terms string string timestamp string
  | Market_edit string product_terms timestamp
  | Market_list string timestamp
  | Market_close string timestamp
  | Market_purchase purchase_command timestamp purchase_ids
  | Market_refund refund_command timestamp refund_ids
  | Market_release timestamp "(release_window \<times> release_ids) list"
  | Market_pay_plan "string \<Rightarrow> plan_row option" string string string int "(paid_subscription \<times> payment_ids) list"

definition market_committed :: "market \<Rightarrow> (market, 'a) tx \<Rightarrow> market" where
  "market_committed s m = (case m s of Inl _ \<Rightarrow> s | Inr (_, t) \<Rightarrow> t)"

fun run_market :: "(string \<Rightarrow> string) \<Rightarrow> market_op \<Rightarrow> market \<Rightarrow> market" where
  "run_market sha (Market_create terms code actor now fresh) s =
     market_committed s (createAuthorityProductVersion terms code actor now fresh)"
| "run_market sha (Market_edit i terms now) s = market_committed s (updateDraftAuthorityProduct i terms now)"
| "run_market sha (Market_list i now) s = market_committed s (listAuthorityProductVersion i now)"
| "run_market sha (Market_close i now) s = market_committed s (closeAuthorityProduct i now)"
| "run_market sha (Market_purchase c now ids) s = market_committed s (purchaseAuthorityProductFinancialFacts sha c now ids)"
| "run_market sha (Market_refund c now ids) s = market_committed s (refundAuthorityPurchaseFinancialFacts sha c now ids)"
| "run_market sha (Market_release now ws) s = market_committed s (releaseDueSellerSettlements now ws)"
| "run_market sha (Market_pay_plan plans accountId planId actor units subs) s =
     market_committed s (pay_plan plans accountId planId actor units subs)"

text \<open>
  The environment: the steps of billing, with entries of other writers that name a known account and no purchase,
  and the events of sellers that name no purchase. What the repository runs writes rows of a purchase in the
  commands above only: the purchase and the refund of \<open>commerce.ts\<close> and the release of the storage of the
  application. (The storage keeps older commands for purchases and refunds too, which nothing calls.)
\<close>

inductive market_step :: "(string \<Rightarrow> string \<Rightarrow> int) \<Rightarrow> (string \<Rightarrow> string) \<Rightarrow> market \<Rightarrow> market \<Rightarrow> bool" for lc sha where
  trade: "market_step lc sha s (run_market sha op s)"
| billing: "app_step lc (mk_app s) a \<Longrightarrow> ledger_grows (mk_books s) (ap_books a) \<Longrightarrow> market_step lc sha s (s\<lparr>mk_app := a\<rparr>)"
| sellers: "sr_purchase r = None \<Longrightarrow> market_step lc sha s (s\<lparr>mk_settlements := mk_settlements s @ [r]\<rparr>)"

definition new_market :: "market \<Rightarrow> bool" where
  "new_market s \<longleftrightarrow> new_app (mk_app s) \<and> mk_products s = [] \<and> mk_purchases s = [] \<and> mk_refunds s = [] \<and> mk_settlements s = []"

text \<open>Every command of billing is such a step.\<close>

lemma billing_command: "typed_app op \<Longrightarrow> market_step lc sha s (s\<lparr>mk_app := run_app lc op (mk_app s)\<rparr>)"
  by (rule market_step.billing [OF app_step.command run_app_ledger])

subsection \<open>The invariant\<close>

definition entries_of :: "market \<Rightarrow> string \<Rightarrow> ledger_event list" where
  "entries_of s i = filter (\<lambda>e. lv_purchase e = Some i) (ledger (mk_books s))"

definition valid_terms :: "product_terms \<Rightarrow> bool" where
  "valid_terms t \<longleftrightarrow> (\<exists>input. validateAuthorityProductTerms input = Inr t)"

definition catalogue_ok :: "product list \<Rightarrow> bool" where
  "catalogue_ok ps \<longleftrightarrow>
     distinct (map pd_id ps) \<and> (\<forall>d \<in> set ps. valid_terms (pd_terms d))
     \<and> (\<forall>d \<in> set ps. \<forall>d' \<in> set ps. pd_code d = pd_code d' \<and> (pd_version d = pd_version d' \<or> listed d \<and> listed d') \<longrightarrow> d = d')"

definition sold_as :: "purchase \<Rightarrow> product \<Rightarrow> bool" where
  "sold_as p d \<longleftrightarrow>
     pd_lifecycle d \<noteq> Draft_product \<and> pu_terms p = pd_terms d \<and> pu_code p = pd_code d \<and> pu_version p = pd_version d"

definition charge_for :: "purchase \<Rightarrow> ledger_event \<Rightarrow> bool" where
  "charge_for p e \<longleftrightarrow>
     lv_type e = ''authority_purchase'' \<and> lv_amount e = - tr_amount (pu_terms p) \<and> lv_account e = pu_account p"

definition revenue_for :: "purchase \<Rightarrow> ledger_event \<Rightarrow> settlement_row \<Rightarrow> bool" where
  "revenue_for p e x \<longleftrightarrow>
     sr_type x = Revenue \<and> sr_units x = tr_amount (pu_terms p) \<and> sr_seller x = tr_seller (pu_terms p)
     \<and> sr_subscription x = None \<and> sr_windowStart x = pu_createdAt p \<and> sr_sourceId x = lv_id e \<and> sr_releaseAt x = pu_createdAt p + tr_settlementHold (pu_terms p) * 1000"

definition reversal_for :: "purchase \<Rightarrow> ledger_event \<Rightarrow> ledger_event \<Rightarrow> bool" where
  "reversal_for p e e' \<longleftrightarrow>
     lv_type e' = ''reversal'' \<and> lv_amount e' = tr_amount (pu_terms p) \<and> lv_account e' = pu_account p
     \<and> lv_related e' = Some (lv_id e)"

definition returned_for :: "purchase \<Rightarrow> refund \<Rightarrow> settlement_row \<Rightarrow> settlement_row \<Rightarrow> bool" where
  "returned_for p r x x' \<longleftrightarrow>
     sr_type x' = Reversal \<and> sr_units x' = tr_amount (pu_terms p) \<and> sr_seller x' = tr_seller (pu_terms p)
     \<and> sr_subscription x' = None \<and> sr_windowStart x' = pu_createdAt p \<and> sr_sourceId x' = rf_id r \<and> rf_createdAt r < sr_releaseAt x"

definition released_for :: "(string \<times> string) list \<Rightarrow> purchase \<Rightarrow> settlement_row \<Rightarrow> ledger_event \<Rightarrow> settlement_row \<Rightarrow> bool" where
  "released_for names p x e' x' \<longleftrightarrow>
     lv_type e' = ''seller_settlement_release'' \<and> lv_amount e' = tr_amount (pu_terms p)
     \<and> (lv_account e', tr_seller (pu_terms p)) \<in> set names \<and> sr_type x' = Release \<and> sr_units x' = tr_amount (pu_terms p)
     \<and> sr_seller x' = tr_seller (pu_terms p) \<and> sr_subscription x' = None \<and> sr_windowStart x' = pu_createdAt p
     \<and> sr_releaseAt x \<le> lv_createdAt e'"

definition money_rows :: "(string \<times> string) list \<Rightarrow> purchase \<Rightarrow> refund option \<Rightarrow> ledger_event list \<Rightarrow> settlement_row list \<Rightarrow> bool" where
  "money_rows names p refund entries sales \<longleftrightarrow>
     (\<exists>e x. charge_for p e \<and> revenue_for p e x
        \<and> (case refund of
             None \<Rightarrow> entries = [e] \<and> sales = [x]
               \<or> (\<exists>e' x'. released_for names p x e' x' \<and> entries = [e, e'] \<and> sales = [x, x'])
           | Some r \<Rightarrow> \<exists>e' x'. reversal_for p e e' \<and> returned_for p r x x' \<and> entries = [e, e'] \<and> sales = [x, x']))"

definition purchase_ok :: "market \<Rightarrow> purchase \<Rightarrow> bool" where
  "purchase_ok s p \<longleftrightarrow>
     (\<exists>d. find_product s (pu_product p) = Some d \<and> sold_as p d)
     \<and> money_rows (account_names (mk_books s)) p (refund_of_purchase s (pu_id p)) (entries_of s (pu_id p)) (settlements_of s (pu_id p))"

definition market_ok :: "market \<Rightarrow> bool" where
  "market_ok s \<longleftrightarrow>
     app_ok (mk_app s) \<and> lv_account ` set (ledger (mk_books s)) \<subseteq> ca_id ` set (accounts (mk_books s))
     \<and> catalogue_ok (mk_products s)
     \<and> distinct (map pu_id (mk_purchases s)) \<and> distinct (map (\<lambda>p. (pu_buyer p, pu_keyHash p)) (mk_purchases s))
     \<and> distinct (map rf_purchase (mk_refunds s)) \<and> rf_purchase ` set (mk_refunds s) \<subseteq> pu_id ` set (mk_purchases s)
     \<and> (\<forall>p \<in> set (mk_purchases s). purchase_ok s p)
     \<and> (\<forall>i. i \<notin> pu_id ` set (mk_purchases s) \<longrightarrow> entries_of s i = [] \<and> settlements_of s i = [])"

subsection \<open>What lasts\<close>

definition product_evolves :: "product \<Rightarrow> product \<Rightarrow> bool" where
  "product_evolves d d' \<longleftrightarrow>
     pd_id d' = pd_id d \<and> pd_code d' = pd_code d \<and> pd_version d' = pd_version d
     \<and> (pd_lifecycle d \<noteq> Draft_product \<longrightarrow> pd_lifecycle d' \<noteq> Draft_product \<and> pd_terms d' = pd_terms d)
     \<and> (pd_lifecycle d = Closed_product \<longrightarrow> pd_lifecycle d' = Closed_product)"

definition products_evolve :: "market \<Rightarrow> market \<Rightarrow> bool" where
  "products_evolve s t \<longleftrightarrow>
     (\<forall>i d. find_product s i = Some d \<longrightarrow> (\<exists>d'. find_product t i = Some d' \<and> product_evolves d d'))"

definition market_evolve :: "market \<Rightarrow> market \<Rightarrow> bool" where
  "market_evolve s t \<longleftrightarrow>
     app_evolve (mk_app s) (mk_app t) \<and> products_evolve s t
     \<and> prefix (mk_purchases s) (mk_purchases t) \<and> prefix (mk_refunds s) (mk_refunds t)
     \<and> (\<forall>i. prefix (entries_of s i) (entries_of t i) \<and> prefix (settlements_of s i) (settlements_of t i))"

lemma product_evolves_refl [simp]: "product_evolves d d"
  by (simp add: product_evolves_def)

lemma product_evolves_trans: "product_evolves a b \<Longrightarrow> product_evolves b c \<Longrightarrow> product_evolves a c"
  by (simp add: product_evolves_def)

lemma products_evolve_refl [simp]: "products_evolve s s"
  by (simp add: products_evolve_def)

lemma products_evolve_trans: "products_evolve s t \<Longrightarrow> products_evolve t u \<Longrightarrow> products_evolve s u"
  unfolding products_evolve_def by (meson product_evolves_trans)

lemma app_evolve_refl [simp]: "app_evolve s s"
  by (simp add: app_evolve_def)

lemma app_evolve_trans: "app_evolve s t \<Longrightarrow> app_evolve t u \<Longrightarrow> app_evolve s u"
  unfolding app_evolve_def by (blast intro: evolves_trans books_evolve_trans)

lemma market_evolve_refl [simp]: "market_evolve s s"
  by (simp add: market_evolve_def)

lemma market_evolve_trans: "market_evolve s t \<Longrightarrow> market_evolve t u \<Longrightarrow> market_evolve s u"
  unfolding market_evolve_def
  by (intro conjI allI) (blast intro: app_evolve_trans products_evolve_trans prefix_order.trans)+

lemma sold_evolves: "sold_as p d \<Longrightarrow> product_evolves d d' \<Longrightarrow> sold_as p d'"
  by (simp add: sold_as_def product_evolves_def)

definition market_good :: "market \<Rightarrow> market \<Rightarrow> bool" where
  "market_good s t \<longleftrightarrow> market_ok t \<and> market_evolve s t"

lemma market_good_refl: "market_ok s \<Longrightarrow> market_good s s"
  by (simp add: market_good_def)

lemma market_good_trans: "market_good s t \<Longrightarrow> market_good t u \<Longrightarrow> market_good s u"
  unfolding market_good_def by (blast intro: market_evolve_trans)

lemma market_committed_good:
  "(\<And>x t. m s = Inr (x, t) \<Longrightarrow> market_good s t) \<Longrightarrow> market_ok s \<Longrightarrow> market_good s (market_committed s m)"
  by (auto simp: market_committed_def market_good_refl split: sum.splits)

subsection \<open>Steps that do not trade\<close>

lemma money_rows_mono: "money_rows names p r es xs \<Longrightarrow> set names \<subseteq> set names' \<Longrightarrow> money_rows names' p r es xs"
  unfolding money_rows_def by (cases r) (auto simp: released_for_def)

text \<open>What leaves products, purchases and refunds alone, and adds no row that names a purchase.\<close>

definition quiet :: "market \<Rightarrow> market \<Rightarrow> bool" where
  "quiet s t \<longleftrightarrow>
     app_ok (mk_app t) \<and> app_evolve (mk_app s) (mk_app t) \<and> ledger_grows (mk_books s) (mk_books t)
     \<and> mk_products t = mk_products s \<and> mk_purchases t = mk_purchases s \<and> mk_refunds t = mk_refunds s
     \<and> (\<exists>rs. mk_settlements t = mk_settlements s @ rs \<and> (\<forall>r \<in> set rs. sr_purchase r = None))"

lemma ledger_grows_trans: "ledger_grows a b \<Longrightarrow> ledger_grows b c \<Longrightarrow> ledger_grows a c"
  unfolding ledger_grows_def using names_grow_ids [of b c] by (fastforce intro: prefix_order.trans)

lemma quiet_trans: "quiet s t \<Longrightarrow> quiet t u \<Longrightarrow> quiet s u"
  unfolding quiet_def by (fastforce intro: app_evolve_trans ledger_grows_trans)

lemma quiet_refl: "app_ok (mk_app s) \<Longrightarrow> quiet s s"
  by (simp add: quiet_def ledger_grows_same)

lemma quiet_rows:
  assumes "quiet s t"
  shows "entries_of t i = entries_of s i" "settlements_of t i = settlements_of s i" "find_product t j = find_product s j"
    "refund_of_purchase t i = refund_of_purchase s i" "mk_purchases t = mk_purchases s" "mk_products t = mk_products s"
    "mk_refunds t = mk_refunds s"
proof -
  show "settlements_of t i = settlements_of s i" using assms by (fastforce simp: quiet_def settlements_of_def filter_empty_conv)
  show "entries_of t i = entries_of s i" using assms
    by (auto simp: quiet_def entries_of_def ledger_grows_def filter_empty_conv)
qed (use assms in \<open>simp_all add: quiet_def find_product_def refund_of_purchase_def\<close>)

lemma quiet_good:
  assumes "quiet s t" "market_ok s"
  shows "market_good s t"
proof -
  note rows = quiet_rows [OF assms(1)]
  have app: "app_ok (mk_app t)" "app_evolve (mk_app s) (mk_app t)" "ledger_grows (mk_books s) (mk_books t)"
    using assms(1) by (simp_all add: quiet_def)
  have names: "prefix (account_names (mk_books s)) (account_names (mk_books t))" using app(3) by (simp add: ledger_grows_def)
  have "lv_account ` set (ledger (mk_books t)) \<subseteq> ca_id ` set (accounts (mk_books t))"
    using app(3) assms(2) names_grow_ids [OF names] by (fastforce simp: ledger_grows_def market_ok_def)
  moreover have "purchase_ok s p \<Longrightarrow> purchase_ok t p" for p
    using money_rows_mono [OF _ set_mono_prefix [OF names]] by (auto simp: purchase_ok_def rows)
  ultimately show ?thesis
    using assms(2) app by (simp add: market_good_def market_ok_def market_evolve_def rows products_evolve_def)
qed

lemma app_step_quiet:
  assumes "app_step lc (mk_app s) a" "ledger_grows (mk_books s) (ap_books a)" "app_ok (mk_app s)"
  shows "quiet s (s\<lparr>mk_app := a\<rparr>)"
  using assms invocation_books.step_inv invocation_books.step_evolve by (simp add: quiet_def)

subsection \<open>Commands on the catalogue\<close>

lemma catalogue_good:
  assumes "market_ok s" "catalogue_ok ps" "products_evolve s (s\<lparr>mk_products := ps\<rparr>)"
  shows "market_good s (s\<lparr>mk_products := ps\<rparr>)"
proof -
  let ?t = "s\<lparr>mk_products := ps\<rparr>"
  have "purchase_ok ?t p" if "purchase_ok s p" for p
  proof -
    from that obtain d where "find_product s (pu_product p) = Some d" "sold_as p d" by (auto simp: purchase_ok_def)
    with assms(3) obtain d' where "find_product ?t (pu_product p) = Some d'" "sold_as p d'"
      unfolding products_evolve_def using sold_evolves by blast
    with that show ?thesis by (simp add: purchase_ok_def refund_of_purchase_def entries_of_def settlements_of_def)
  qed
  with assms show ?thesis
    by (simp add: market_good_def market_ok_def market_evolve_def entries_of_def settlements_of_def)
qed

lemma insert_product_good:
  assumes "insert_product d s = Inr (x, t)" "market_ok s" "valid_terms (pd_terms d)"
  shows "market_good s t"
proof -
  have new: "\<And>q. q \<in> set (mk_products s) \<Longrightarrow> pd_id q \<noteq> pd_id d
      \<and> (pd_code q = pd_code d \<longrightarrow> pd_version q \<noteq> pd_version d \<and> \<not> (listed q \<and> listed d))"
    and t: "t = s\<lparr>mk_products := mk_products s @ [d]\<rparr>"
    using assms(1) by (auto simp: insert_product_def list_ex_iff split: if_splits)
  have "catalogue_ok (mk_products s)" using assms(2) by (simp add: market_ok_def)
  with new assms(3) have "catalogue_ok (mk_products s @ [d])" unfolding catalogue_ok_def by fastforce
  moreover have "products_evolve s t"
    by (simp add: products_evolve_def t find_product_def find_append)
  ultimately show ?thesis using catalogue_good [OF assms(2)] by (simp add: t)
qed

lemma update_product_Inr:
  assumes "update_product i f s = Inr (row, t)" "catalogue_ok (mk_products s)"
  obtains old where "find_product s i = Some old" "row = f old" "product_update_allowed old row"
    "t = s\<lparr>mk_products := map (\<lambda>d. if pd_id d = i then row else d) (mk_products s)\<rparr>"
    "\<And>d. d \<in> set (mk_products s) \<Longrightarrow> pd_id d = i \<Longrightarrow> d = old"
    "\<And>d. d \<in> set (mk_products s) \<Longrightarrow> pd_id d \<noteq> i \<Longrightarrow> pd_code d = pd_code old \<Longrightarrow> listed row \<Longrightarrow> \<not> listed d"
proof -
  from assms(1) obtain old where old: "find_product s i = Some old" "row = f old" "product_update_allowed old row"
    "t = s\<lparr>mk_products := map (\<lambda>d. if pd_id d = i then f d else d) (mk_products s)\<rparr>"
    and other: "\<not> (listed row \<and> list_ex (\<lambda>q. pd_id q \<noteq> i \<and> pd_code q = pd_code old \<and> listed q) (mk_products s))"
    by (auto simp: update_product_def split: option.splits if_splits)
  from find_key_SomeD [OF old(1) [unfolded find_product_def]] have in_old: "old \<in> set (mk_products s)" "pd_id old = i" by simp_all
  have only: "d = old" if "d \<in> set (mk_products s)" "pd_id d = i" for d
    using inj_onD [of pd_id "set (mk_products s)" d old] that in_old assms(2) by (simp add: catalogue_ok_def distinct_map)
  then have "map (\<lambda>d. if pd_id d = i then f d else d) (mk_products s) = map (\<lambda>d. if pd_id d = i then row else d) (mk_products s)"
    by (auto simp: old(2))
  with old only other show thesis by (intro that [of old]) (auto simp: list_ex_iff)
qed

lemma update_product_good:
  assumes "update_product i f s = Inr (row, t)" "market_ok s" "valid_terms (pd_terms row)"
  shows "market_good s t"
proof -
  have catalogue: "catalogue_ok (mk_products s)" using assms(2) by (simp add: market_ok_def)
  from assms(1) catalogue show ?thesis
  proof (cases rule: update_product_Inr)
    case (1 old)
    from find_key_SomeD [OF 1(1) [unfolded find_product_def]] have old: "old \<in> set (mk_products s)" "pd_id old = i" by simp_all
    let ?h = "\<lambda>d. if pd_id d = i then row else d"
    from 1(3) have keys: "pd_id row = i" "pd_code row = pd_code old" "pd_version row = pd_version old"
      by (simp_all add: product_update_allowed_def old(2))
    have ids: "map pd_id (map ?h (mk_products s)) = map pd_id (mk_products s)" by (simp add: keys)
    have "catalogue_ok (map ?h (mk_products s))"
      unfolding catalogue_ok_def ids
    proof (intro conjI ballI impI)
      show "distinct (map pd_id (mk_products s))" using catalogue by (simp add: catalogue_ok_def)
    next
      fix d assume "d \<in> set (map ?h (mk_products s))"
      then show "valid_terms (pd_terms d)" using catalogue assms(3) by (auto simp: catalogue_ok_def)
    next
      fix d d' assume "d \<in> set (map ?h (mk_products s))" "d' \<in> set (map ?h (mk_products s))"
        and same: "pd_code d = pd_code d' \<and> (pd_version d = pd_version d' \<or> listed d \<and> listed d')"
      then obtain a b where ab: "a \<in> set (mk_products s)" "d = ?h a" "b \<in> set (mk_products s)" "d' = ?h b" by auto
      have pair: "x = y" if "x \<in> set (mk_products s)" "y \<in> set (mk_products s)" "pd_code x = pd_code y"
        "pd_version x = pd_version y \<or> listed x \<and> listed y" for x y
        using catalogue that by (auto simp: catalogue_ok_def)
      consider "pd_id a = i" "pd_id b = i" | "pd_id a = i" "pd_id b \<noteq> i" | "pd_id a \<noteq> i" "pd_id b = i" | "pd_id a \<noteq> i" "pd_id b \<noteq> i"
        by blast
      then show "d = d'"
      proof cases
        case 2
        with same ab(2,4) keys 1(6) [OF ab(3)] pair [OF old(1) ab(3)] old(2) show ?thesis by auto
      next
        case 3
        with same ab(2,4) keys 1(6) [OF ab(1)] pair [OF ab(1) old(1)] old(2) show ?thesis by auto
      next
        case 4
        with same ab(2,4) pair [OF ab(1,3)] show ?thesis by simp
      qed (simp add: ab(2,4))
    qed
    moreover have "products_evolve s (s\<lparr>mk_products := map ?h (mk_products s)\<rparr>)"
      unfolding products_evolve_def
    proof (intro allI impI)
      fix j d assume found: "find_product s j = Some d"
      have "find_product (s\<lparr>mk_products := map ?h (mk_products s)\<rparr>) j = map_option ?h (find_product s j)"
        using find_map_key [of "mk_products s" pd_id ?h j] by (simp add: find_product_def keys)
      moreover have "product_evolves d (?h d)"
        using 1(3,5) found find_key_SomeD [OF found [unfolded find_product_def]]
        by (auto simp: product_evolves_def product_update_allowed_def lifecycle_allowed_def split: lifecycle.splits)
      ultimately show "\<exists>d'. find_product (s\<lparr>mk_products := map ?h (mk_products s)\<rparr>) j = Some d' \<and> product_evolves d d'"
        using found by simp
    qed
    ultimately show ?thesis using catalogue_good [OF assms(2)] by (simp add: 1(4))
  qed
qed

text \<open>A change of the lifecycle leaves the terms as they were.\<close>

lemma lifecycle_update_good:
  assumes "update_product i (\<lambda>q. q\<lparr>pd_lifecycle := l, pd_updatedAt := now\<rparr>) s = Inr (row, t)" "market_ok s"
  shows "market_good s t"
proof (rule update_product_good [OF assms])
  from assms obtain old where "find_product s i = Some old" "row = old\<lparr>pd_lifecycle := l, pd_updatedAt := now\<rparr>"
    by (auto simp: update_product_def split: option.splits if_splits)
  with find_key_SomeD [of pd_id i "mk_products s" old] assms(2) show "valid_terms (pd_terms row)"
    by (auto simp: market_ok_def catalogue_ok_def find_product_def)
qed

lemma create_good:
  assumes "createAuthorityProductVersion input code actor now fresh s = Inr (row, t)" "market_ok s"
  shows "market_good s t"
  using assms(1)
  by (auto simp: createAuthorityProductVersion_def effects Let_def valid_terms_def intro!: insert_product_good [OF _ assms(2)])

lemma edit_good:
  assumes "updateDraftAuthorityProduct i input now s = Inr (row, t)" "market_ok s"
  shows "market_good s t"
proof -
  from assms(1) obtain terms row' where steps: "validateAuthorityProductTerms input = Inr terms"
    "update_product i (\<lambda>q. q\<lparr>pd_terms := terms, pd_updatedAt := now\<rparr>) s = Inr (row', t)"
    by (auto simp: updateDraftAuthorityProduct_def effects)
  then have "pd_terms row' = terms" by (auto simp: update_product_def split: option.splits if_splits)
  with steps show ?thesis using update_product_good [OF steps(2) assms(2)] by (auto simp: valid_terms_def)
qed

lemma list_good:
  assumes "listAuthorityProductVersion i now s = Inr (row, t)" "market_ok s"
  shows "market_good s t"
proof -
  from assms(1) obtain s1 row' where first: "s1 = s \<or> (\<exists>j x. close_row j now s = Inr (x, s1))"
    and second: "update_product i (\<lambda>q. q\<lparr>pd_lifecycle := Listed_product, pd_updatedAt := now\<rparr>) s1 = Inr (row', t)"
    by (auto simp: listAuthorityProductVersion_def effects split: option.splits) blast
  from first assms(2) have good: "market_good s s1"
    by (auto simp: close_row_def market_good_refl intro: lifecycle_update_good)
  then have "market_ok s1" by (simp add: market_good_def)
  from market_good_trans [OF good lifecycle_update_good [OF second this]] show ?thesis .
qed

lemma close_good:
  assumes "closeAuthorityProduct i now s = Inr (row, t)" "market_ok s"
  shows "market_good s t"
  using assms
  by (auto simp: closeAuthorityProduct_def effects close_row_def market_good_refl intro: lifecycle_update_good split: if_splits)

subsection \<open>Purchases\<close>

definition with_books :: "market \<Rightarrow> books \<Rightarrow> market" where
  "with_books s b = s\<lparr>mk_app := (mk_app s)\<lparr>ap_books := b\<rparr>\<rparr>"

lemma with_books_simps [simp]:
  "mk_books (with_books s b) = b" "ap_request (mk_app (with_books s b)) = ap_request (mk_app s)"
  "mk_products (with_books s b) = mk_products s" "mk_purchases (with_books s b) = mk_purchases s"
  "mk_refunds (with_books s b) = mk_refunds s" "mk_settlements (with_books s b) = mk_settlements s"
  "find_product (with_books s b) i = find_product s i"
  by (simp_all add: with_books_def find_product_def)

lemma account_ids: "app_ok a \<Longrightarrow> distinct (map ca_id (accounts (ap_books a)))"
  by (simp add: app_ok_def books_ok_def unique_keys_def)

lemma post_entry_rows [simp]:
  "ledger (post_entry e b) = ledger b @ [e]" "reservations (post_entry e b) = reservations b"
  "account_names (post_entry e b) = account_names b" "ca_id ` set (accounts (post_entry e b)) = ca_id ` set (accounts b)"
proof -
  show "account_names (post_entry e b) = account_names b" by (simp add: post_entry_def account_names_def)
  then show "ca_id ` set (accounts (post_entry e b)) = ca_id ` set (accounts b)" by (simp add: account_ids_names)
qed (simp_all add: post_entry_def)

lemma account_known: "find_account b i = Some a \<Longrightarrow> i \<in> ca_id ` set (accounts b)"
  by (auto simp: find_account_def dest: find_key_SomeD)

lemma posting_app:
  assumes "app_ok a" "lv_attempt e = None" "lv_id e \<notin> lv_id ` set (ledger (ap_books a))"
  shows "app_ok (a\<lparr>ap_books := post_entry e (ap_books a)\<rparr>)" "app_evolve a (a\<lparr>ap_books := post_entry e (ap_books a)\<rparr>)"
proof -
  have "app_step lc a (a\<lparr>ap_books := post_entry e (ap_books a)\<rparr>)" for lc
    by (rule app_step.other, rule other_writer.posting) (use assms in simp_all)
  then show "app_ok (a\<lparr>ap_books := post_entry e (ap_books a)\<rparr>)" "app_evolve a (a\<lparr>ap_books := post_entry e (ap_books a)\<rparr>)"
    using invocation_books.step_inv invocation_books.step_evolve assms(1) by blast+
qed

lemma ensure_account_Inr:
  assumes "ensure_account scope fresh now (mk_books s) = Inr (x, b)" "market_ok s"
  shows "quiet s (with_books s b)" "ledger b = ledger (mk_books s)" "reservations b = reservations (mk_books s)"
    "\<And>i a. find_account (mk_books s) i = Some a \<Longrightarrow> find_account b i = Some a"
proof -
  have ok: "app_ok (mk_app s)" "lv_account ` set (ledger (mk_books s)) \<subseteq> ca_id ` set (accounts (mk_books s))"
    using assms(2) by (simp_all add: market_ok_def)
  consider "b = mk_books s"
    | a where "b = (mk_books s)\<lparr>accounts := accounts (mk_books s) @ [a]\<rparr>" "ca_balance a = 0" "ca_id a \<notin> ca_id ` set (accounts (mk_books s))"
    using assms(1) by (fastforce simp: ensure_account_def list_ex_iff split: if_splits)
  then have "quiet s (with_books s b) \<and> ledger b = ledger (mk_books s) \<and> reservations b = reservations (mk_books s)
    \<and> (\<forall>i a. find_account (mk_books s) i = Some a \<longrightarrow> find_account b i = Some a)"
  proof cases
    case 1
    then show ?thesis using quiet_refl [OF ok(1)] by (simp add: with_books_def)
  next
    case (2 a)
    have "other_writer (mk_books s) b"
      unfolding 2(1) by (rule other_writer.new_account) (use 2 ok(2) in auto)
    from app_step.other [OF this] have "quiet s (with_books s b)"
      unfolding with_books_def by (rule app_step_quiet) (use ok(1) in \<open>auto simp: 2(1) ledger_grows_def account_names_def\<close>)
    then show ?thesis by (simp add: 2(1) find_account_def find_append)
  qed
  then show "quiet s (with_books s b)" "ledger b = ledger (mk_books s)" "reservations b = reservations (mk_books s)"
    "\<And>i a. find_account (mk_books s) i = Some a \<Longrightarrow> find_account b i = Some a" by blast+
qed

lemma account_of_scope_found:
  assumes "account_of_scope b scope = Some a" "distinct (map ca_id (accounts b))"
  shows "find_account b (ca_id a) = Some a" "ca_scope a = scope"
  using assms find_key_unique [OF assms(2), of "ca_id a" a]
  by (auto simp: account_of_scope_def find_account_def dest: find_key_SomeD)

lemma purchasable_Inr:
  assumes "purchasable c s = Inr (a, d)"
  shows "account_of_scope (mk_books s) (''user:'' @ pq_buyer c) = Some a" "ca_status a = ''active''"
    "find_product s (pq_product c) = Some d" "listed d" "tr_effect (pd_terms d) = pq_effect c"
    "tr_amount (pd_terms d) \<le> ca_balance a - held_units (mk_books s) (ca_id a)"
    "tr_maxPurchases (pd_terms d) = Some m \<Longrightarrow> lifetime_purchases s (pq_buyer c) (pd_code d) < m"
  using assms by (auto simp: purchasable_def effects split: option.splits if_splits)

lemma purchase_Inr:
  assumes "purchaseAuthorityProductFinancialFacts sha c now ids s = Inr (q, t)"
  obtains (replay) keyHash p where "hashRequired sha (pq_key c) = Inr keyHash" "prior_purchase s (pq_buyer c) keyHash = Some p"
      "pu_requestHash p = sha (pq_shapeJson c)" "purchaseResult p True s = Inr q" "t = s"
    | (new) keyHash b a d p s2 s3 releaseAt where "hashRequired sha (pq_key c) = Inr keyHash"
      "prior_purchase s (pq_buyer c) keyHash = None"
      "ensure_account (''user:'' @ pq_buyer c) (pi_account ids) now (mk_books s) = Inr ((), b)"
      "purchasable c (with_books s b) = Inr (a, d)"
      "p = purchase_of c a d (pi_purchase ids) keyHash (sha (pq_shapeJson c)) now"
      "insert_purchase p (with_books s b) = Inr ((), s2)"
      "post_money (purchase_charge p (pi_ledger ids)) (ca_balance a - tr_amount (pd_terms d)) s2 = Inr ((), s3)"
      "releaseAt = now + tr_settlementHold (pd_terms d) * 1000"
      "insert_settlement (purchase_revenue p (pi_ledger ids) releaseAt (pi_settlement ids)) s3 = Inr ((), t)"
      "q = \<lparr>qr_purchase = p, qr_ledgerId = pi_ledger ids, qr_revenueId = pi_settlement ids, qr_replayed = False\<rparr>"
      "purchaseSnapshot p = Inr p"
proof -
  from assms obtain keyHash where key: "hashRequired sha (pq_key c) = Inr keyHash"
    by (auto simp: purchaseAuthorityProductFinancialFacts_def effects)
  show thesis
  proof (cases "prior_purchase s (pq_buyer c) keyHash")
    case (Some p)
    with assms key show thesis
      by (intro replay [of keyHash p])
        (auto simp: purchaseAuthorityProductFinancialFacts_def effects key split: if_splits)
  next
    case None
    with assms key obtain b a d s2 s3 releaseAt snapshot where steps:
      "ensure_account (''user:'' @ pq_buyer c) (pi_account ids) now (mk_books s) = Inr ((), b)"
      "purchasable c (with_books s b) = Inr (a, d)"
      "insert_purchase (purchase_of c a d (pi_purchase ids) keyHash (sha (pq_shapeJson c)) now) (with_books s b) = Inr ((), s2)"
      "post_money (purchase_charge (purchase_of c a d (pi_purchase ids) keyHash (sha (pq_shapeJson c)) now) (pi_ledger ids))
         (ca_balance a - tr_amount (pd_terms d)) s2 = Inr ((), s3)"
      "addSeconds now (tr_settlementHold (pd_terms d)) = Inr releaseAt"
      "insert_settlement (purchase_revenue (purchase_of c a d (pi_purchase ids) keyHash (sha (pq_shapeJson c)) now)
         (pi_ledger ids) releaseAt (pi_settlement ids)) s3 = Inr ((), t)"
      "purchaseSnapshot (purchase_of c a d (pi_purchase ids) keyHash (sha (pq_shapeJson c)) now) = Inr snapshot"
      "q = \<lparr>qr_purchase = snapshot, qr_ledgerId = pi_ledger ids, qr_revenueId = pi_settlement ids, qr_replayed = False\<rparr>"
      by (auto simp: purchaseAuthorityProductFinancialFacts_def tx_bind_Inr tx_lift_Inr looking_Inr on_money_Inr Let_def
          with_books_def [symmetric])
    from steps(5,7) have "releaseAt = now + tr_settlementHold (pd_terms d) * 1000"
      "snapshot = purchase_of c a d (pi_purchase ids) keyHash (sha (pq_shapeJson c)) now"
      by (auto simp: addSeconds_def purchaseSnapshot_def effects split: if_splits)
    with None key steps show thesis by (intro new) (simp_all only:)
  qed
qed

text \<open>What a new purchase writes.\<close>

lemma new_purchase_effect:
  assumes "market_ok s" "ensure_account scope fresh now (mk_books s) = Inr (x, b)"
    "purchasable c (with_books s b) = Inr (a, d)" "p = purchase_of c a d i keyHash requestHash now"
    "insert_purchase p (with_books s b) = Inr ((), s2)"
    "post_money (purchase_charge p l) (ca_balance a - tr_amount (pd_terms d)) s2 = Inr ((), s3)"
    "insert_settlement r s3 = Inr ((), t)"
  shows "t = (with_books s (post_entry (purchase_charge p l) b))
      \<lparr>mk_purchases := mk_purchases s @ [p], mk_settlements := mk_settlements s @ [r]\<rparr>"
    "find_purchase s (pu_id p) = None" "prior_purchase s (pu_buyer p) (pu_keyHash p) = None"
    "lv_id (purchase_charge p l) \<notin> lv_id ` set (ledger b)" "find_account b (pu_account p) = Some a"
    "find_product s (pu_product p) = Some d" "sold_as p d" "pu_terms p = pd_terms d" "pu_createdAt p = now"
proof -
  note quiet = ensure_account_Inr [OF assms(2,1)]
  have ids: "distinct (map ca_id (accounts b))" using quiet(1) account_ids [of "mk_app (with_books s b)"] by (simp add: quiet_def)
  note buy = purchasable_Inr [OF assms(3)]
  from account_of_scope_found(1) [of b] buy(1) ids have account: "find_account b (ca_id a) = Some a" by simp
  note purchase = insert_purchase_Inr [OF assms(5)]
  have s2: "mk_books s2 = b" by (simp add: purchase(1))
  have charge: "lv_account (purchase_charge p l) = ca_id a" "lv_amount (purchase_charge p l) = - tr_amount (pd_terms d)"
    by (simp_all add: purchase_charge_def assms(4) purchase_of_def)
  have "find_account (mk_books s2) (lv_account (purchase_charge p l)) = Some a"
    "ca_balance a - tr_amount (pd_terms d) = ca_balance a + lv_amount (purchase_charge p l)"
    "distinct (map ca_id (accounts (mk_books s2)))"
    by (simp_all add: s2 account charge ids)
  note posted = post_money_Inr [OF assms(6) this, unfolded s2]
  show "t = (with_books s (post_entry (purchase_charge p l) b))
      \<lparr>mk_purchases := mk_purchases s @ [p], mk_settlements := mk_settlements s @ [r]\<rparr>"
    using insert_settlement_Inr [OF assms(7)] by (simp add: posted(1) purchase(1) with_books_def)
  show "find_purchase s (pu_id p) = None" "prior_purchase s (pu_buyer p) (pu_keyHash p) = None"
    using purchase(2,3) by (simp_all add: find_purchase_def prior_purchase_def)
  show "lv_id (purchase_charge p l) \<notin> lv_id ` set (ledger b)" by (rule posted(2))
  show "find_account b (pu_account p) = Some a" "pu_terms p = pd_terms d" "pu_createdAt p = now"
    using account by (simp_all add: assms(4) purchase_of_def)
  have "pd_id d = pq_product c" using find_key_SomeD [OF buy(3) [unfolded find_product_def]] by simp
  with buy(3,4) show "find_product s (pu_product p) = Some d" "sold_as p d"
    by (simp_all add: assms(4) purchase_of_def sold_as_def listed_def)
qed

text \<open>A trade posts one entry and one event of the seller, both of one purchase.\<close>

definition traded :: "market \<Rightarrow> ledger_event \<Rightarrow> settlement_row \<Rightarrow> purchase list \<Rightarrow> refund list \<Rightarrow> market" where
  "traded s e x ps rs =
     (with_books s (post_entry e (mk_books s)))
       \<lparr>mk_purchases := mk_purchases s @ ps, mk_refunds := mk_refunds s @ rs, mk_settlements := mk_settlements s @ [x]\<rparr>"

lemma traded_simps [simp]:
  "mk_app (traded s e x ps rs) = (mk_app s)\<lparr>ap_books := post_entry e (mk_books s)\<rparr>"
  "mk_purchases (traded s e x ps rs) = mk_purchases s @ ps" "mk_refunds (traded s e x ps rs) = mk_refunds s @ rs"
  "mk_products (traded s e x ps rs) = mk_products s" "find_product (traded s e x ps rs) i = find_product s i"
  "mk_settlements (traded s e x ps rs) = mk_settlements s @ [x]"
  by (simp_all add: traded_def find_product_def with_books_def)

lemma traded_rows:
  assumes "lv_purchase e = Some i" "sr_purchase x = Some i"
  shows "entries_of (traded s e x ps rs) j = entries_of s j @ (if j = i then [e] else [])"
    "settlements_of (traded s e x ps rs) j = settlements_of s j @ (if j = i then [x] else [])"
  using assms by (auto simp: entries_of_def settlements_of_def post_entry_def)

lemma traded_good:
  assumes "market_ok s" "lv_purchase e = Some i" "sr_purchase x = Some i"
    and "lv_attempt e = None" "lv_id e \<notin> lv_id ` set (ledger (mk_books s))" "find_account (mk_books s) (lv_account e) = Some a"
    and "i \<in> pu_id ` set (mk_purchases s @ ps)" "list_all (\<lambda>r. rf_purchase r = i) rs"
    and "distinct (map pu_id (mk_purchases s @ ps))" "distinct (map (\<lambda>p. (pu_buyer p, pu_keyHash p)) (mk_purchases s @ ps))"
    and "distinct (map rf_purchase (mk_refunds s @ rs))"
    and "\<And>p. p \<in> set (mk_purchases s @ ps) \<Longrightarrow> pu_id p = i \<Longrightarrow> purchase_ok (traded s e x ps rs) p"
    and "\<And>p. p \<in> set ps \<Longrightarrow> pu_id p = i"
  shows "market_good s (traded s e x ps rs)"
proof -
  let ?t = "traded s e x ps rs"
  note rows = traded_rows [OF assms(2,3), of s ps rs]
  have app: "app_ok (mk_app s)" using assms(1) by (simp add: market_ok_def)
  note posted = posting_app [OF app assms(4,5)]
  have other: "refund_of_purchase ?t j = refund_of_purchase s j" if "j \<noteq> i" for j
  proof -
    have "List.find (\<lambda>r. rf_purchase r = j) rs = None" using that assms(8) by (auto simp: list_all_iff find_None_iff)
    then show ?thesis by (simp add: refund_of_purchase_def find_append split: option.splits)
  qed
  have each: "purchase_ok ?t p" if "p \<in> set (mk_purchases ?t)" for p
  proof (cases "pu_id p = i")
    case True
    with assms(12) that show ?thesis by simp
  next
    case False
    with that assms(13) have "p \<in> set (mk_purchases s)" by auto
    with assms(1) have "purchase_ok s p" by (simp add: market_ok_def)
    with False show ?thesis by (simp add: purchase_ok_def rows other)
  qed
  have ledger: "lv_account ` set (ledger (post_entry e (mk_books s))) \<subseteq> ca_id ` set (accounts (post_entry e (mk_books s)))"
    using assms(1) account_known [OF assms(6)] by (simp add: market_ok_def)
  have unsold: "entries_of ?t j = [] \<and> settlements_of ?t j = []" if "j \<notin> pu_id ` set (mk_purchases ?t)" for j
    using that assms(1,7) by (auto simp: rows market_ok_def)
  have "rf_purchase ` set (mk_refunds ?t) \<subseteq> pu_id ` set (mk_purchases ?t)"
    using assms(1,7,8) by (auto simp: market_ok_def list_all_iff)
  then have "market_ok ?t"
    unfolding market_ok_def using posted(1) ledger each unsold assms(1,9-11) by (simp add: market_ok_def)
  moreover have "market_evolve s ?t"
    using posted(2) by (simp add: market_evolve_def products_evolve_def rows)
  ultimately show ?thesis by (simp add: market_good_def)
qed

lemma purchase_key_unused:
  assumes "find_purchase s (pu_id p) = None" "prior_purchase s (pu_buyer p) (pu_keyHash p) = None"
  shows "pu_id p \<notin> pu_id ` set (mk_purchases s)"
    "(pu_buyer p, pu_keyHash p) \<notin> (\<lambda>p. (pu_buyer p, pu_keyHash p)) ` set (mk_purchases s)"
  using assms by (auto simp: find_purchase_def prior_purchase_def find_None_iff)

lemma new_purchase_good:
  assumes "market_ok s" "find_purchase s (pu_id p) = None" "prior_purchase s (pu_buyer p) (pu_keyHash p) = None"
    "lv_id (purchase_charge p l) \<notin> lv_id ` set (ledger (mk_books s))" "find_account (mk_books s) (pu_account p) = Some a"
    "find_product s (pu_product p) = Some d" "sold_as p d"
    "x = purchase_revenue p l (pu_createdAt p + tr_settlementHold (pu_terms p) * 1000) i"
  shows "market_good s (traded s (purchase_charge p l) x [p] [])"
    "entries_of (traded s (purchase_charge p l) x [p] []) (pu_id p) = [purchase_charge p l]"
    "settlements_of (traded s (purchase_charge p l) x [p] []) (pu_id p) = [x]"
proof -
  let ?t = "traded s (purchase_charge p l) x [p] []"
  note unused = purchase_key_unused [OF assms(2,3)]
  have charge: "lv_purchase (purchase_charge p l) = Some (pu_id p)" "sr_purchase x = Some (pu_id p)"
    "lv_attempt (purchase_charge p l) = None" "lv_account (purchase_charge p l) = pu_account p"
    by (simp_all add: purchase_charge_def assms(8) purchase_revenue_def)
  have "pu_id p \<notin> rf_purchase ` set (mk_refunds s)" using assms(1) unused(1) by (auto simp: market_ok_def)
  with assms(1) unused(1) have none: "entries_of s (pu_id p) = []" "settlements_of s (pu_id p) = []" "refund_of_purchase ?t (pu_id p) = None"
    by (simp_all add: market_ok_def refund_of_purchase_def find_key_None)
  have rows: "money_rows names p None [purchase_charge p l] [x]" for names
    by (simp add: money_rows_def charge_for_def revenue_for_def purchase_charge_def assms(8) purchase_revenue_def)
  from none show sold: "entries_of ?t (pu_id p) = [purchase_charge p l]" "settlements_of ?t (pu_id p) = [x]"
    by (simp_all add: traded_rows [OF charge(1,2)])
  with rows have money: "money_rows names p None (entries_of ?t (pu_id p)) (settlements_of ?t (pu_id p))" for names
    by simp
  have "q = p" if "q \<in> set (mk_purchases s @ [p])" "pu_id q = pu_id p" for q
    using that unused(1) by (auto simp: image_iff)
  then show "market_good s ?t"
    using assms(1,4,5) unused charge money none
    by (intro traded_good [where i = "pu_id p" and a = a]) (auto simp: market_ok_def purchase_ok_def assms(6,7))
qed

lemma purchase_new_state:
  assumes "market_ok s" "ensure_account scope fresh now (mk_books s) = Inr (x, b)"
    "purchasable c (with_books s b) = Inr (a, d)" "p = purchase_of c a d i keyHash requestHash now"
    "insert_purchase p (with_books s b) = Inr ((), s2)"
    "post_money (purchase_charge p l) (ca_balance a - tr_amount (pd_terms d)) s2 = Inr ((), s3)"
    "releaseAt = now + tr_settlementHold (pd_terms d) * 1000"
    "insert_settlement (purchase_revenue p l releaseAt j) s3 = Inr ((), t)"
  shows "t = traded (with_books s b) (purchase_charge p l) (purchase_revenue p l releaseAt j) [p] []"
    "market_good s (with_books s b)" "market_good (with_books s b) t"
    "entries_of t (pu_id p) = [purchase_charge p l]" "settlements_of t (pu_id p) = [purchase_revenue p l releaseAt j]"
proof -
  note effect = new_purchase_effect [OF assms(1-6,8)]
  show t: "t = traded (with_books s b) (purchase_charge p l) (purchase_revenue p l releaseAt j) [p] []"
    unfolding effect(1) by (simp add: traded_def with_books_def)
  show "market_good s (with_books s b)" using ensure_account_Inr(1) [OF assms(2,1)] assms(1) by (rule quiet_good)
  then have ok: "market_ok (with_books s b)" by (simp add: market_good_def)
  have release: "releaseAt = pu_createdAt p + tr_settlementHold (pu_terms p) * 1000"
    by (simp add: assms(7) effect(8,9))
  have "find_purchase (with_books s b) (pu_id p) = None" "prior_purchase (with_books s b) (pu_buyer p) (pu_keyHash p) = None"
    "lv_id (purchase_charge p l) \<notin> lv_id ` set (ledger (mk_books (with_books s b)))"
    "find_account (mk_books (with_books s b)) (pu_account p) = Some a" "find_product (with_books s b) (pu_product p) = Some d"
    using effect(2-6) by (simp_all add: find_purchase_def prior_purchase_def)
  note new = new_purchase_good [OF ok this effect(7), of "purchase_revenue p l releaseAt j"]
  show "market_good (with_books s b) t" "entries_of t (pu_id p) = [purchase_charge p l]"
    "settlements_of t (pu_id p) = [purchase_revenue p l releaseAt j]"
    unfolding t by (rule new; simp add: release)+
qed

lemma purchase_good:
  assumes "purchaseAuthorityProductFinancialFacts sha c now ids s = Inr (q, t)" "market_ok s"
  shows "market_good s t"
  using assms(1)
proof (cases rule: purchase_Inr)
  case replay
  with assms(2) show ?thesis by (simp add: market_good_refl)
next
  case (new keyHash b a d p s2 s3 releaseAt)
  from purchase_new_state(2,3) [OF assms(2) new(3-9)] show ?thesis by (rule market_good_trans)
qed

subsection \<open>Refunds\<close>

lemma find_conj: "List.find (\<lambda>x. P x \<and> Q x) xs = List.find Q (filter P xs)"
  by (induction xs) auto

lemma purchase_entry_rows: "purchase_entry (mk_books s) i type = List.find (\<lambda>e. lv_type e = type) (entries_of s i)"
  by (simp add: purchase_entry_def entries_of_def find_conj)

lemma purchase_settlement_rows: "purchase_settlement s i type = List.find (\<lambda>r. sr_type r = type) (settlements_of s i)"
  by (simp add: purchase_settlement_def settlements_of_def find_conj)

lemma valid_terms_values:
  assumes "valid_terms t"
  shows "1 \<le> tr_amount t" "tr_refundMode t = ''unused_by_owner'' \<Longrightarrow> tr_refundDeadline t = Some d \<Longrightarrow> d < tr_settlementHold t"
proof -
  from assms obtain input name where "check_values input = Inr ()" "refund_terms_valid input" "t = input\<lparr>tr_displayName := name\<rparr>"
    by (auto simp: valid_terms_def validateAuthorityProductTerms_def effects)
  then show "1 \<le> tr_amount t" "tr_refundMode t = ''unused_by_owner'' \<Longrightarrow> tr_refundDeadline t = Some d \<Longrightarrow> d < tr_settlementHold t"
    by (auto simp: check_values_def effects boundedBigInt_def refund_terms_valid_def split: if_splits)
qed

lemma refundable_Inr:
  assumes "refundable p now s = Inr (revenue, original, a)"
  obtains d where "tr_refundMode (pu_terms p) = ''unused_by_owner''" "tr_refundDeadline (pu_terms p) = Some d"
    "now < pu_createdAt p + d * 1000" "List.find (\<lambda>r. sr_type r = Revenue) (js_sort settlement_order (settlements_of s (pu_id p))) = Some revenue"
    "\<not> list_ex (\<lambda>r. sr_type r = Release) (settlements_of s (pu_id p))"
    "purchase_entry (mk_books s) (pu_id p) ''authority_purchase'' = Some original"
    "find_account (mk_books s) (pu_account p) = Some a"
proof -
  from assms have refund: "refund_open p now = Inr ()"
    "List.find (\<lambda>r. sr_type r = Revenue) (js_sort settlement_order (settlements_of s (pu_id p))) = Some revenue"
    "\<not> list_ex (\<lambda>r. sr_type r = Release) (js_sort settlement_order (settlements_of s (pu_id p)))"
    "purchase_entry (mk_books s) (pu_id p) ''authority_purchase'' = Some original"
    "find_account (mk_books s) (pu_account p) = Some a"
    by (auto simp: refundable_def effects Let_def split: option.splits if_splits)
  from refund(3) have unreleased: "\<not> list_ex (\<lambda>r. sr_type r = Release) (settlements_of s (pu_id p))"
    by (simp add: list_ex_iff)
  with refund show thesis
    by (auto simp: refund_open_def addSeconds_def effects intro!: that split: option.splits if_splits)
qed

lemma refund_Inr:
  assumes "refundAuthorityPurchaseFinancialFacts sha c now ids s = Inr (q, t)"
  obtains (by_key) keyHash r where "hashRequired sha (rd_key c) = Inr keyHash" "refund_by_key s (rd_actor c) keyHash = Some r"
      "rf_requestHash r = sha (refund_shape c)" "refundResult r True s = Inr q" "t = s"
    | (by_purchase) keyHash r where "hashRequired sha (rd_key c) = Inr keyHash" "refund_by_key s (rd_actor c) keyHash = None"
      "refund_of_purchase s (rd_purchase c) = Some r" "refundResult r True s = Inr q" "t = s"
    | (new) keyHash p revenue original a r s2 s3 where "hashRequired sha (rd_key c) = Inr keyHash"
      "refund_by_key s (rd_actor c) keyHash = None" "find_purchase s (rd_purchase c) = Some p" "pu_id p = rd_purchase c"
      "refund_of_purchase s (pu_id p) = None" "refundable p now s = Inr (revenue, original, a)"
      "r = refund_of c (ri_refund ids) keyHash (sha (refund_shape c)) now"
      "insert_refund r s = Inr ((), s2)"
      "post_money (refund_entry p r original a (ri_ledger ids)) (ca_balance a + tr_amount (pu_terms p)) s2 = Inr ((), s3)"
      "insert_settlement (refund_reversal p r revenue (ri_settlement ids)) s3 = Inr ((), t)"
      "q = \<lparr>rt_refund = r, rt_ledgerId = ri_ledger ids, rt_reversalId = ri_settlement ids, rt_replayed = False\<rparr>"
proof -
  from assms obtain keyHash where key: "requireRefundReason (rd_reason c) = Inr ()" "hashRequired sha (rd_key c) = Inr keyHash"
    by (auto simp: refundAuthorityPurchaseFinancialFacts_def effects)
  show thesis
  proof (cases "refund_by_key s (rd_actor c) keyHash")
    case (Some r)
    with assms key show thesis
      by (intro by_key [of keyHash r]) (auto simp: refundAuthorityPurchaseFinancialFacts_def effects split: if_splits)
  next
    case None
    with assms key obtain p where p: "find_purchase s (rd_purchase c) = Some p"
      by (auto simp: refundAuthorityPurchaseFinancialFacts_def effects split: option.splits)
    from find_key_SomeD [OF this [unfolded find_purchase_def]] have id: "pu_id p = rd_purchase c" by simp
    show thesis
    proof (cases "refund_of_purchase s (pu_id p)")
      case (Some r)
      with assms key None p id show thesis
        by (intro by_purchase [of keyHash r]) (auto simp: refundAuthorityPurchaseFinancialFacts_def effects)
    next
      case fresh: None
      with assms key None p id show thesis
        by (auto simp: refundAuthorityPurchaseFinancialFacts_def effects Let_def intro: new)
    qed
  qed
qed

lemma purchase_in: "market_ok s \<Longrightarrow> find_purchase s i = Some p \<Longrightarrow> p \<in> set (mk_purchases s) \<and> purchase_ok s p"
  by (auto simp: find_purchase_def market_ok_def dest!: find_key_SomeD)

lemma purchase_terms_valid:
  assumes "market_ok s" "purchase_ok s p"
  shows "valid_terms (pu_terms p)"
proof -
  from assms(2) obtain d where "find_product s (pu_product p) = Some d" "sold_as p d" by (auto simp: purchase_ok_def)
  with find_key_SomeD [of pd_id "pu_product p" "mk_products s" d] assms(1) show ?thesis
    by (auto simp: market_ok_def catalogue_ok_def sold_as_def find_product_def)
qed

text \<open>What a refund writes.\<close>

lemma refund_new_state:
  assumes "market_ok s" "find_purchase s (rd_purchase c) = Some p" "pu_id p = rd_purchase c"
    "refund_of_purchase s (pu_id p) = None" "refundable p now s = Inr (revenue, original, a)"
    "r = refund_of c j keyHash requestHash now" "insert_refund r s = Inr ((), s2)"
    "post_money (refund_entry p r original a l) (ca_balance a + tr_amount (pu_terms p)) s2 = Inr ((), s3)"
    "insert_settlement (refund_reversal p r revenue i) s3 = Inr ((), t)"
  shows "t = traded s (refund_entry p r original a l) (refund_reversal p r revenue i) [] [r]" "market_good s t"
    "money_rows names p (Some r) (entries_of t (pu_id p)) (settlements_of t (pu_id p))" "find_account (mk_books s) (pu_account p) = Some a"
    "refund_of_purchase t (pu_id p) = Some r" "now < sr_releaseAt revenue" "entries_of s (pu_id p) = [original]"
proof -
  let ?e = "refund_entry p r original a l" and ?x = "refund_reversal p r revenue i"
  note p = purchase_in [OF assms(1,2)]
  have ids: "distinct (map ca_id (accounts (mk_books s)))" using assms(1) account_ids by (simp add: market_ok_def)
  have "\<not> list_ex (\<lambda>r. sr_type r = Release) (settlements_of s (pu_id p))" using assms(5) by (rule refundable_Inr)
  with p assms(4) obtain e x where rows: "charge_for p e" "revenue_for p e x" "entries_of s (pu_id p) = [e]"
    "settlements_of s (pu_id p) = [x]"
    by (auto simp: purchase_ok_def money_rows_def released_for_def)
  from assms(5) obtain d where open_refund: "tr_refundMode (pu_terms p) = ''unused_by_owner''" "tr_refundDeadline (pu_terms p) = Some d"
    "now < pu_createdAt p + d * 1000" "revenue = x" "original = e"
    and account: "find_account (mk_books s) (pu_account p) = Some a"
    by (rule refundable_Inr) (use rows in \<open>auto simp: purchase_entry_rows split: if_splits\<close>)
  note refund = insert_refund_Inr [OF assms(7)]
  have s2: "mk_books s2 = mk_books s" by (simp add: refund(1))
  have id: "ca_id a = pu_account p" using find_key_SomeD [OF account [unfolded find_account_def]] by simp
  have "find_account (mk_books s2) (lv_account ?e) = Some a"
    "ca_balance a + tr_amount (pu_terms p) = ca_balance a + lv_amount ?e" "distinct (map ca_id (accounts (mk_books s2)))"
    by (simp_all add: s2 refund_entry_def id account ids)
  note posted = post_money_Inr [OF assms(8) this, unfolded s2]
  show t: "t = traded s ?e ?x [] [r]"
    using insert_settlement_Inr [OF assms(9)] by (simp add: posted(1) refund(1) traded_def with_books_def)
  have parts: "lv_purchase ?e = Some (pu_id p)" "sr_purchase ?x = Some (pu_id p)" "lv_attempt ?e = None"
    "lv_account ?e = pu_account p" "rf_purchase r = pu_id p" "rf_createdAt r = now"
    by (simp_all add: refund_entry_def refund_reversal_def id assms(3,6) refund_of_def)
  from valid_terms_values(2) [OF purchase_terms_valid [OF assms(1) conjunct2 [OF p]] open_refund(1,2)]
  show in_time: "now < sr_releaseAt revenue"
    using open_refund(3) rows(2) by (simp add: open_refund(4) revenue_for_def)
  show none: "refund_of_purchase t (pu_id p) = Some r"
    using assms(4) parts(5) by (simp add: t refund_of_purchase_def find_append)
  note trade = traded_rows [OF parts(1,2), of s "[]" "[r]"]
  have "reversal_for p e ?e" "returned_for p r x ?x"
    using in_time parts(6) by (simp_all add: reversal_for_def returned_for_def refund_entry_def refund_reversal_def id open_refund)
  with rows have money: "money_rows names p (Some r) (entries_of t (pu_id p)) (settlements_of t (pu_id p))" for names
    by (auto simp: t money_rows_def trade)
  then show "money_rows names p (Some r) (entries_of t (pu_id p)) (settlements_of t (pu_id p))" .
  show "find_account (mk_books s) (pu_account p) = Some a" "entries_of s (pu_id p) = [original]"
    by (simp_all add: account rows open_refund)
  have only: "q = p" if "q \<in> set (mk_purchases s)" "pu_id q = pu_id p" for q
    using inj_onD [of pu_id "set (mk_purchases s)" q p] that p assms(1) by (simp add: market_ok_def distinct_map)
  have "rf_purchase r \<notin> rf_purchase ` set (mk_refunds s)"
    using refund(2) by (simp add: refund_of_purchase_def find_key_None)
  then show "market_good s t"
    unfolding t
    by (intro traded_good [where i = "pu_id p" and a = a])
      (use assms(1) parts posted(2) account p only money none t in \<open>auto simp: market_ok_def purchase_ok_def\<close>)
qed

lemma refund_good:
  assumes "refundAuthorityPurchaseFinancialFacts sha c now ids s = Inr (q, t)" "market_ok s"
  shows "market_good s t"
  using assms(1)
proof (cases rule: refund_Inr)
  case (new keyHash p revenue original a r s2 s3)
  from refund_new_state(2) [OF assms(2) new(3-10)] show ?thesis .
qed (use assms(2) in \<open>simp_all add: market_good_refl\<close>)

subsection \<open>Releases\<close>

lemma insert_or_skip_Inr:
  assumes "insert_or_skip r s = Inr (inserted, t)"
  shows "inserted \<Longrightarrow> t = s\<lparr>mk_settlements := mk_settlements s @ [r]\<rparr>" "\<not> inserted \<Longrightarrow> t = s"
  using assms insert_settlement_Inr [of r s] by (auto simp: insert_or_skip_def split: sum.splits)

lemma pay_seller_Inr:
  assumes "pay_seller w units now ids s = Inr ((), t)"
  obtains b a where "ensure_account (rw_seller w) (le_account ids) now (mk_books s) = Inr ((), b)"
    "account_of_scope b (rw_seller w) = Some a" "ca_status a = ''active''"
    "post_money (release_entry w (ca_id a) units (le_ledger ids) now) (ca_balance a + units) (with_books s b) = Inr ((), t)"
proof -
  from assms obtain b where account: "ensure_account (rw_seller w) (le_account ids) now (mk_books s) = Inr ((), b)"
    and "tx_bind (looking (\<lambda>s. case account_of_scope (mk_books s) (rw_seller w) of
                Some a \<Rightarrow> if ca_status a = ''active'' then Inr a else relay ''credit_account_inactive'' 409
              | None \<Rightarrow> relay ''credit_account_inactive'' 409)) (\<lambda>a.
       post_money (release_entry w (ca_id a) units (le_ledger ids) now) (ca_balance a + units)) (with_books s b) = Inr ((), t)"
    unfolding pay_seller_def tx_bind_Inr [of "on_money _"] on_money_Inr with_books_def by auto
  then obtain a where "account_of_scope b (rw_seller w) = Some a" "ca_status a = ''active''"
    "post_money (release_entry w (ca_id a) units (le_ledger ids) now) (ca_balance a + units) (with_books s b) = Inr ((), t)"
    by (auto simp: effects split: option.splits if_splits)
  with account show thesis by (rule that)
qed

lemma release_window_Inr:
  assumes "release_window_units w now ids s = Inr (units, t)"
  obtains (nothing) "units = 0" "t = s"
    | (paid) rows b a where "rows = window_rows w s" "rows \<noteq> []" "Min (sr_releaseAt ` set rows) \<le> now"
      "units = net_units rows - released_units rows" "0 < units"
      "ensure_account (rw_seller w) (le_account ids) now (mk_books s) = Inr ((), b)"
      "account_of_scope b (rw_seller w) = Some a" "ca_status a = ''active''"
      "post_money (release_entry w (ca_id a) units (le_ledger ids) now) (ca_balance a + units)
         (with_books (s\<lparr>mk_settlements := mk_settlements s @ [release_row w rows units (le_settlement ids) now]\<rparr>) b) = Inr ((), t)"
proof -
  let ?rows = "window_rows w s"
  let ?n = "net_units ?rows - released_units ?rows"
  let ?r = "release_row w ?rows ?n (le_settlement ids) now"
  from assms consider "units = 0" "t = s" | inserted s1 where "?rows \<noteq> []" "Min (sr_releaseAt ` set ?rows) \<le> now" "0 < ?n"
      "insert_or_skip ?r s = Inr (inserted, s1)"
      "if inserted then pay_seller w ?n now ids s1 = Inr ((), t) \<and> units = ?n else t = s1 \<and> units = 0"
    by (auto simp: release_window_units_def effects safePostgresInteger_def Let_def max_def split: if_splits)
  then show thesis
  proof cases
    case 1
    then show thesis by (rule nothing)
  next
    case (2 inserted s1)
    note s1 = insert_or_skip_Inr [OF 2(4)]
    show thesis
    proof (cases inserted)
      case False
      with 2(5) s1(2) have "units = 0" "t = s" by simp_all
      then show thesis by (rule nothing)
    next
      case True
      with 2(5) s1 have pay: "pay_seller w units now ids (s\<lparr>mk_settlements := mk_settlements s @ [release_row w ?rows units (le_settlement ids) now]\<rparr>)
        = Inr ((), t)" and units: "units = ?n" by simp_all
      from pay show thesis
      proof (rule pay_seller_Inr)
        fix b a
        assume "ensure_account (rw_seller w) (le_account ids) now
            (mk_books (s\<lparr>mk_settlements := mk_settlements s @ [release_row w ?rows units (le_settlement ids) now]\<rparr>)) = Inr ((), b)"
          "account_of_scope b (rw_seller w) = Some a" "ca_status a = ''active''"
          "post_money (release_entry w (ca_id a) units (le_ledger ids) now) (ca_balance a + units)
             (with_books (s\<lparr>mk_settlements := mk_settlements s @ [release_row w ?rows units (le_settlement ids) now]\<rparr>) b) = Inr ((), t)"
        with 2(1-3) units show thesis by (intro paid [of ?rows b a]) simp_all
      qed
    qed
  qed
qed

lemma window_rows_of: "window_rows w s = filter (\<lambda>r. sr_subscription r = None \<and> sr_seller r = rw_seller w \<and> sr_windowStart r = rw_start w)
    (settlements_of s (rw_purchase w))"
  by (auto simp: window_rows_def settlements_of_def intro!: filter_cong)

text \<open>A window with something left is the whole of a purchase that was neither refunded nor released.\<close>

lemma window_open:
  assumes "market_ok s" "window_rows w s \<noteq> []" "0 < net_units (window_rows w s) - released_units (window_rows w s)"
  obtains p e x where "p \<in> set (mk_purchases s)" "pu_id p = rw_purchase w" "refund_of_purchase s (pu_id p) = None"
    "charge_for p e" "revenue_for p e x" "entries_of s (pu_id p) = [e]" "settlements_of s (pu_id p) = [x]"
    "window_rows w s = [x]" "rw_seller w = tr_seller (pu_terms p)" "rw_start w = pu_createdAt p"
proof -
  have "settlements_of s (rw_purchase w) \<noteq> []" using assms(2) by (auto simp: window_rows_of)
  then have "rw_purchase w \<in> pu_id ` set (mk_purchases s)" using assms(1) unfolding market_ok_def by blast
  then obtain p where p: "p \<in> set (mk_purchases s)" "pu_id p = rw_purchase w" by auto
  then have "purchase_ok s p" using assms(1) by (simp add: market_ok_def)
  then have money: "money_rows (account_names (mk_books s)) p (refund_of_purchase s (pu_id p)) (entries_of s (pu_id p)) (settlements_of s (pu_id p))"
    by (simp add: purchase_ok_def)
  then have whole: "refund_of_purchase s (pu_id p) = None \<and> (\<exists>x. settlements_of s (pu_id p) = [x])"
    using assms(2,3) unfolding window_rows_of p(2) [symmetric] money_rows_def
    by (auto simp: revenue_for_def returned_for_def released_for_def net_units_def released_units_def split: option.splits if_splits)
  with money obtain e x where "charge_for p e" "revenue_for p e x" "entries_of s (pu_id p) = [e]" "settlements_of s (pu_id p) = [x]"
    by (auto simp: money_rows_def)
  with p whole assms(2) show thesis
    by (intro that [of p e x]) (auto simp: window_rows_of revenue_for_def split: if_splits)
qed

text \<open>What a release writes.\<close>

lemma release_new_state:
  assumes "market_ok s" "rows = window_rows w s" "rows \<noteq> []" "Min (sr_releaseAt ` set rows) \<le> now"
    "units = net_units rows - released_units rows" "0 < units" "ensure_account (rw_seller w) fresh now (mk_books s) = Inr ((), b)"
    "account_of_scope b (rw_seller w) = Some a"
    "post_money (release_entry w (ca_id a) units l now) (ca_balance a + units)
       (with_books (s\<lparr>mk_settlements := mk_settlements s @ [release_row w rows units i now]\<rparr>) b) = Inr ((), t)"
  obtains p e x where "p \<in> set (mk_purchases s)" "pu_id p = rw_purchase w" "refund_of_purchase s (pu_id p) = None"
    "t = traded (with_books s b) (release_entry w (ca_id a) units l now) (release_row w rows units i now) [] []"
    "units = tr_amount (pu_terms p)" "rw_seller w = tr_seller (pu_terms p)" "find_account b (ca_id a) = Some a" "ca_scope a = rw_seller w"
    "market_good s (with_books s b)" "market_good (with_books s b) t" "revenue_for p e x" "sr_releaseAt x \<le> now"
proof -
  let ?e = "release_entry w (ca_id a) units l now" and ?x = "release_row w rows units i now"
  note opened = ensure_account_Inr [OF assms(7,1)]
  have good: "market_good s (with_books s b)" using opened(1) assms(1) by (rule quiet_good)
  then have ok: "market_ok (with_books s b)" by (simp add: market_good_def)
  from window_open [of s w] assms(1-3,5,6) obtain p e x where p: "p \<in> set (mk_purchases s)" "pu_id p = rw_purchase w"
    "refund_of_purchase s (pu_id p) = None" and sold: "charge_for p e" "revenue_for p e x" "entries_of s (pu_id p) = [e]"
    "settlements_of s (pu_id p) = [x]" "rows = [x]" "rw_seller w = tr_seller (pu_terms p)" "rw_start w = pu_createdAt p"
    by metis
  have units: "units = tr_amount (pu_terms p)"
    using assms(5) sold(2) by (simp add: sold(5) net_units_def released_units_def revenue_for_def)
  have due: "sr_releaseAt x \<le> now" using assms(4) by (simp add: sold(5))
  have ids: "distinct (map ca_id (accounts b))" using account_ids [of "mk_app (with_books s b)"] ok by (simp add: market_ok_def)
  note account = account_of_scope_found [OF assms(8) ids]
  have account_in: "(ca_id a, rw_seller w) \<in> set (account_names b)"
    using assms(8) account(2) by (auto simp: account_names_def account_of_scope_def find_Some_iff image_iff intro!: nth_mem)
  have e: "lv_purchase ?e = Some (pu_id p)" "sr_purchase ?x = Some (pu_id p)" "lv_attempt ?e = None" "lv_account ?e = ca_id a"
    "lv_amount ?e = units"
    by (simp_all add: release_entry_def release_row_def p(2))
  have "find_account (mk_books (with_books (s\<lparr>mk_settlements := mk_settlements s @ [?x]\<rparr>) b)) (lv_account ?e) = Some a"
    "ca_balance a + units = ca_balance a + lv_amount ?e"
    "distinct (map ca_id (accounts (mk_books (with_books (s\<lparr>mk_settlements := mk_settlements s @ [?x]\<rparr>) b))))"
    using account ids by (simp_all add: e)
  note posted = post_money_Inr [OF assms(9) this]
  have t: "t = traded (with_books s b) ?e ?x [] []"
    by (simp add: posted(1) traded_def with_books_def)
  have unused: "lv_id ?e \<notin> lv_id ` set (ledger b)" using posted(2) by simp
  have rows_after: "entries_of t (pu_id p) = [e, ?e]" "settlements_of t (pu_id p) = [x, ?x]" "refund_of_purchase t (pu_id p) = None"
    using quiet_rows [OF opened(1)] sold(3,4) p(3) unfolding t by (simp_all add: traded_rows [OF e(1,2)] refund_of_purchase_def)
  have "released_for (account_names b) p x ?e ?x"
    using account_in due sold(6,7) by (simp add: released_for_def release_entry_def release_row_def units)
  moreover have "account_names (mk_books t) = account_names b" by (simp add: t)
  ultimately have money: "money_rows (account_names (mk_books t)) p (refund_of_purchase t (pu_id p)) (entries_of t (pu_id p))
      (settlements_of t (pu_id p))"
    using sold(1,2) unfolding money_rows_def rows_after by auto
  have only: "q = p" if "q \<in> set (mk_purchases s)" "pu_id q = pu_id p" for q
    using inj_onD [of pu_id "set (mk_purchases s)" q p] that p assms(1) by (simp add: market_ok_def distinct_map)
  have "\<exists>d. find_product s (pu_product p) = Some d \<and> sold_as p d" using assms(1) p(1) by (simp add: market_ok_def purchase_ok_def)
  then have "purchase_ok t p" using money by (simp add: purchase_ok_def t)
  then have "market_good (with_books s b) t"
    unfolding t using ok p(1) e unused account only
    by (intro traded_good [where i = "pu_id p" and a = a]) (auto simp: market_ok_def)
  with p t units sold(2,6) account good due show thesis by (intro that [of p e x])
qed

lemma release_window_good:
  assumes "release_window_units w now ids s = Inr (units, t)" "market_ok s"
  shows "market_good s t"
  using assms(1)
proof (cases rule: release_window_Inr)
  case nothing
  with assms(2) show ?thesis by (simp add: market_good_refl)
next
  case (paid rows b a)
  from release_new_state [OF assms(2) paid(1-7,9)] show ?thesis by (metis market_good_trans)
qed

lemma release_good:
  assumes "releaseDueSellerSettlements now ws s = Inr (units, t)" "market_ok s"
  shows "market_good s t"
  using assms
proof (induction ws arbitrary: s units)
  case Nil
  then show ?case by (simp add: market_good_refl)
next
  case (Cons x ws)
  obtain w ids where x: "x = (w, ids)" by (cases x)
  with Cons.prems(1) obtain n s1 rest where first: "release_window_units w now ids s = Inr (n, s1)"
    and others: "releaseDueSellerSettlements now ws s1 = Inr (rest, t)"
    by (auto simp: effects)
  from release_window_good [OF first Cons.prems(2)] have good: "market_good s s1" .
  then have "market_ok s1" by (simp add: market_good_def)
  from Cons.IH [OF others this] market_good_trans [OF good] show ?case by blast
qed

subsection \<open>Plans\<close>

lemma find_after_posting:
  "find_account (post_entry e b) i = map_option (\<lambda>a. if i = lv_account e
     then posted_account e (ca_balance a + lv_amount e) a else a) (find_account b i)"
proof -
  let ?g = "\<lambda>a. if ca_id a = lv_account e then posted_account e (ca_balance a + lv_amount e) a else a"
  have rows: "accounts (post_entry e b) = map ?g (accounts b)" by (simp add: post_entry_def posted_account_def)
  have "find_account (post_entry e b) i = map_option ?g (find_account b i)"
    unfolding find_account_def rows by (rule find_map_key) (simp add: posted_account_def)
  then show ?thesis by (cases "find_account b i") (auto simp: find_account_def dest: find_key_SomeD)
qed

lemma posting_quiet:
  assumes "post_money e balance s = Inr (x, t)" "market_ok s" "find_account (mk_books s) (lv_account e) = Some a"
    "balance = ca_balance a + lv_amount e" "lv_purchase e = None" "lv_attempt e = None"
  shows "quiet s t" "\<exists>a'. find_account (mk_books t) (lv_account e) = Some a' \<and> ca_balance a' = balance"
proof -
  have app: "app_ok (mk_app s)" using assms(2) by (simp add: market_ok_def)
  note post = post_money_Inr [OF assms(1,3,4) account_ids [OF app]]
  have grows: "ledger_grows (mk_books s) (post_entry e (mk_books s))"
    using assms(5) account_known [OF assms(3)] by (simp add: ledger_grows_def)
  show "quiet s t"
    using posting_app [OF app assms(6) post(2)] grows by (simp add: post(1) quiet_def)
  show "\<exists>a'. find_account (mk_books t) (lv_account e) = Some a' \<and> ca_balance a' = balance"
    by (simp add: post(1) find_after_posting assms(3,4) posted_account_def)
qed

lemma tranches_quiet:
  assumes "insert_tranches f sub ids n ts s = Inr (x, t)" "app_ok (mk_app s)"
  shows "quiet s t \<and> mk_app t = mk_app s"
  using assms
proof (induction ts arbitrary: n s)
  case Nil
  then show ?case by (simp add: quiet_refl)
next
  case (Cons w ts)
  show ?case
  proof (cases "tn_units w \<le> 0")
    case True
    with Cons show ?thesis by simp
  next
    case False
    with Cons.prems(1) obtain y s1 where row: "insert_settlement (plan_revenue f sub ids n w) s = Inr (y, s1)"
      and rest: "insert_tranches f sub ids (Suc n) ts s1 = Inr (x, t)" by (auto simp: effects)
    note s1 = insert_settlement_Inr [OF row]
    have "quiet s s1" using Cons.prems(2) by (simp add: quiet_def s1 ledger_grows_same plan_revenue_def)
    moreover have "quiet s1 t \<and> mk_app t = mk_app s1" by (rule Cons.IH [OF rest]) (simp add: s1 Cons.prems(2))
    ultimately show ?thesis using quiet_trans by (simp add: s1)
  qed
qed

lemma subscription_quiet:
  assumes "pay_subscription f balance sub ids s = Inr (x, t)" "market_ok s" "find_account (mk_books s) (pf_account f) = Some a"
    "ca_balance a = balance"
  shows "quiet s t" "\<exists>a'. find_account (mk_books t) (pf_account f) = Some a' \<and> ca_balance a' = balance - pf_amount f"
proof -
  let ?e = "plan_charge f sub ids"
  have e: "lv_account ?e = pf_account f" "lv_amount ?e = - pf_amount f" "lv_purchase ?e = None" "lv_attempt ?e = None"
    by (simp_all add: plan_charge_def)
  from assms(1) obtain s1 where post: "post_money ?e (balance - pf_amount f) s = Inr ((), s1)"
    and rest: "s1 = t \<or> (\<exists>ts. insert_tranches f sub ids 0 ts s1 = Inr (x, t))"
    by (auto simp: pay_subscription_def effects split: if_splits)
  have paid: "quiet s s1" "\<exists>a'. find_account (mk_books s1) (pf_account f) = Some a' \<and> ca_balance a' = balance - pf_amount f"
    using posting_quiet [OF post assms(2), of a] assms(3,4) e by simp_all
  have "app_ok (mk_app s1)" using paid(1) by (simp add: quiet_def)
  with rest have "quiet s1 t \<and> mk_app t = mk_app s1" using quiet_refl tranches_quiet by blast
  with paid show "quiet s t" "\<exists>a'. find_account (mk_books t) (pf_account f) = Some a' \<and> ca_balance a' = balance - pf_amount f"
    using quiet_trans by auto
qed

lemma subscriptions_quiet:
  assumes "pay_subscriptions f balance subs s = Inr (ls, t)" "market_ok s" "find_account (mk_books s) (pf_account f) = Some a"
    "ca_balance a = balance"
  shows "quiet s t \<and> (\<exists>a'. find_account (mk_books t) (pf_account f) = Some a' \<and> ca_balance a' = balance - pf_amount f * int (length subs))"
  using assms
proof (induction subs arbitrary: balance s a ls)
  case Nil
  then show ?case using quiet_refl by (simp add: market_ok_def)
next
  case (Cons x subs)
  obtain sub ids where x: "x = (sub, ids)" by (cases x)
  with Cons.prems(1) obtain s1 ls' where first: "pay_subscription f balance sub ids s = Inr ((), s1)"
    and rest: "pay_subscriptions f (balance - pf_amount f) subs s1 = Inr (ls', t)"
    by (auto simp: effects)
  note paid = subscription_quiet [OF first Cons.prems(2-4)]
  then obtain a1 where a1: "find_account (mk_books s1) (pf_account f) = Some a1" "ca_balance a1 = balance - pf_amount f" by blast
  have "market_ok s1" using quiet_good [OF paid(1) Cons.prems(2)] by (simp add: market_good_def)
  from Cons.IH [OF rest this a1] paid(1) show ?case
    by (auto intro: quiet_trans simp: algebra_simps)
qed

lemma funding_Inr:
  assumes "lockPlanSubscriptionPurchaseFunding plans accountId planId units actor s = Inr (f, t)"
  obtains a where "t = s" "find_account (mk_books s) (pf_account f) = Some a" "ca_balance a = pf_balance f" "pf_units f = units"
    "pf_account f = accountId" "0 < units" "pf_amount f * units \<le> ca_balance a - held_units (mk_books s) accountId"
  using assms
  by (auto simp: lockPlanSubscriptionPurchaseFunding_def effects find_account_def dest: find_key_SomeD split: option.splits if_splits)

lemma pay_plan_good:
  assumes "pay_plan plans accountId planId actor units subs s = Inr (ls, t)" "market_ok s"
  shows "market_good s t"
proof -
  from assms(1) obtain f s1 where locked: "lockPlanSubscriptionPurchaseFunding plans accountId planId units actor s = Inr (f, s1)"
    and "completePlanSubscriptionPurchaseFunding f subs s1 = Inr (ls, t)"
    by (auto simp: pay_plan_def effects)
  moreover from locked have "s1 = s" by (rule funding_Inr)
  ultimately have funding: "lockPlanSubscriptionPurchaseFunding plans accountId planId units actor s = Inr (f, s)"
    and run: "completePlanSubscriptionPurchaseFunding f subs s = Inr (ls, t)" by simp_all
  from funding obtain a where "find_account (mk_books s) (pf_account f) = Some a" "ca_balance a = pf_balance f"
    by (rule funding_Inr)
  with run have "quiet s t"
    using subscriptions_quiet [of f "pf_balance f" subs s ls t a] assms(2) quiet_refl
    by (auto simp: completePlanSubscriptionPurchaseFunding_def market_ok_def split: if_splits)
  from quiet_good [OF this assms(2)] show ?thesis .
qed

subsection \<open>Every step keeps the invariant\<close>

lemma run_market_good: "market_ok s \<Longrightarrow> market_good s (run_market sha op s)"
  by (cases op) (auto intro!: market_committed_good intro: create_good edit_good list_good close_good purchase_good refund_good release_good pay_plan_good)

lemma market_step_good: "market_ok s \<Longrightarrow> market_step lc sha s t \<Longrightarrow> market_good s t"
proof (erule market_step.cases, goal_cases)
  case (1 u op)
  then show ?case by (simp add: run_market_good)
next
  case (2 u a)
  have "app_ok (mk_app s)" using 2(1) by (simp add: market_ok_def)
  with 2 have "quiet s t" using app_step_quiet by blast
  with 2(1) show ?case by (rule quiet_good [rotated])
next
  case (3 r u)
  then have "quiet s t" by (simp add: quiet_def market_ok_def ledger_grows_same)
  with 3(1) show ?case by (rule quiet_good [rotated])
qed

lemma new_market_ok: "new_market s \<Longrightarrow> market_ok s"
  using new_app_ok [of "mk_app s"]
  by (simp add: new_market_def market_ok_def new_app_def empty_books_def catalogue_ok_def entries_of_def settlements_of_def)

interpretation commerce_market: evolving_system new_market "market_step lc sha" market_ok market_evolve for lc sha
proof unfold_locales
  fix s t u
  show "new_market s \<Longrightarrow> market_ok s" by (rule new_market_ok)
  show "market_ok s \<Longrightarrow> market_step lc sha s t \<Longrightarrow> market_ok t" "market_ok s \<Longrightarrow> market_step lc sha s t \<Longrightarrow> market_evolve s t"
    using market_step_good by (simp_all add: market_good_def)
  show "market_evolve s s" by simp
  show "market_evolve s t \<Longrightarrow> market_evolve t u \<Longrightarrow> market_evolve s u" by (rule market_evolve_trans)
qed

end
