(* ===== verification/Billing_Evidence.thy ===== *)
theory Billing_Evidence
  imports Billing_Runs
begin

section \<open>What is frozen with an attempt\<close>

text \<open>
  The prices that an admission writes as JSON are the prices that its settlement reads, and what a replay
  compares with its command stays as it was.
\<close>

subsection \<open>Frozen evidence reads back\<close>

lemma parse_evidence_of_json:
  assumes "parseFrozenPriceUnits (fe_snapshotJson p) = Inr u"
  shows "parse_evidence (of_json (Json_obj (context_members p
     @ [(''tierKey'', Json_str (fe_tierKey p)), (''snapshotJson'', Json_str (fe_snapshotJson p))]))) = Inr p"
  using assms
  by (cases p; cases "px_target p")
    (simp_all add: parse_evidence_def context_members_def json_of_text_option_def nullable_text_def)

lemma evidence_json_parse:
  "json_parse (evidence_json ps) = Some (JArr (map (\<lambda>p. of_json (Json_obj (context_members p
     @ [(''tierKey'', Json_str (fe_tierKey p)), (''snapshotJson'', Json_str (fe_snapshotJson p))]))) ps))"
proof -
  have "json_wf (Json_obj (context_members p
     @ [(''tierKey'', Json_str (fe_tierKey p)), (''snapshotJson'', Json_str (fe_snapshotJson p))]))" for p :: frozen_evidence
    by (simp add: context_members_def json_of_text_option_def split: option.splits)
  then show ?thesis
    unfolding evidence_json_def by (subst json_roundtrip) (simp_all add: list_all_iff o_def)
qed

lemma traverse_map_Inr:
  assumes "\<And>x. x \<in> set xs \<Longrightarrow> f (g x) = Inr (h x)"
  shows "traverse f (map g xs) = Inr (map h xs)"
  using assms by (induction xs) simp_all

definition snapshots_parse :: "frozen_evidence list \<Rightarrow> bool" where
  "snapshots_parse ps \<longleftrightarrow> list_all (\<lambda>p. \<exists>u. parseFrozenPriceUnits (fe_snapshotJson p) = Inr u) ps"

lemma evidence_roundtrip_prices:
  assumes "snapshots_parse ps"
  shows "parseFrozenAccessPointPrices (evidence_json ps) = Inr ps"
proof -
  have "traverse parse_evidence (map (\<lambda>p. of_json (Json_obj (context_members p
     @ [(''tierKey'', Json_str (fe_tierKey p)), (''snapshotJson'', Json_str (fe_snapshotJson p))]))) ps) = Inr (map (\<lambda>p. p) ps)"
  proof (rule traverse_map_Inr)
    fix p assume "p \<in> set ps"
    with assms obtain u where "parseFrozenPriceUnits (fe_snapshotJson p) = Inr u"
      by (auto simp: snapshots_parse_def list_all_iff)
    then show "parse_evidence (of_json (Json_obj (context_members p
     @ [(''tierKey'', Json_str (fe_tierKey p)), (''snapshotJson'', Json_str (fe_snapshotJson p))]))) = Inr p"
      by (rule parse_evidence_of_json)
  qed
  then show ?thesis by (simp add: parseFrozenAccessPointPrices_def evidence_json_parse del: of_json.simps)
qed

lemma evidence_price_ids:
  assumes "snapshots_parse ps"
  shows "frozenAccessPointPriceIds (evidence_json ps) = Inr (map px_priceId ps)"
proof -
  show ?thesis
    unfolding frozenAccessPointPriceIds_def evidence_json_parse
    apply simp
    apply (rule traverse_map_Inr)
    using assms
    by (auto simp: snapshots_parse_def list_all_iff context_members_def)
qed

definition profile_nonneg :: "price_profile_input \<Rightarrow> bool" where
  "profile_nonneg row \<longleftrightarrow> price_nonneg row \<and> list_all price_nonneg (profileTiers row)"

text \<open>The prices of a catalogue are not negative, which the tables check.\<close>

definition catalog_ok :: "price_catalog \<Rightarrow> bool" where
  "catalog_ok g \<longleftrightarrow>
     (\<forall>i ap row. pg_accessPoint g i = Some (ap, row) \<longrightarrow> profile_nonneg row)
     \<and> (\<forall>i plan ap row. pg_plan g i = Some (plan, ap, row) \<longrightarrow> profile_nonneg row)
     \<and> (\<forall>i p m row. pg_cost g i = Some (p, m, row) \<longrightarrow> profile_nonneg row)"

lemma first_of_in: "first_of xs = Some x \<Longrightarrow> x \<in> set xs"
  by (cases xs) simp_all

lemma specific_tier_in: "specific_tier tokens s tiers = Some t \<Longrightarrow> t \<in> set tiers"
  by (auto simp: specific_tier_def dest!: first_of_in)

lemma price_nonneg_truncate [simp]: "price_nonneg (frozen_price.truncate p) = price_nonneg p"
  by (simp add: price_nonneg_def frozen_price.defs)

lemma freezePriceRow_parses:
  assumes "freezePriceRow row tokens tier = Inr z" "profile_nonneg row"
  shows "parseFrozenPriceUnits (fz_snapshotJson z) = Inr (fz_units z)" "price_nonneg (fz_units z)"
proof -
  let ?tier = "case specific_tier tokens tier (profileTiers row) of
      None \<Rightarrow> specific_tier tokens ''standard'' (profileTiers row) | Some t \<Rightarrow> Some t"
  have units: "fz_units z = (case ?tier of None \<Rightarrow> frozen_price.truncate row | Some t \<Rightarrow> frozen_price.truncate t)"
    and json: "fz_snapshotJson z = encodeFrozenPriceUnits (fz_units z) (fz_serviceTier z) (fz_tierKey z)"
    using assms(1) by (auto simp: freezePriceRow_def Let_def split: if_splits)
  have "t \<in> set (profileTiers row)" if "?tier = Some t" for t
    using that by (auto dest: specific_tier_in split: option.splits)
  then show nonneg: "price_nonneg (fz_units z)"
    using assms(2) by (cases ?tier) (auto simp: units profile_nonneg_def list_all_iff)
  from json show "parseFrozenPriceUnits (fz_snapshotJson z) = Inr (fz_units z)"
    using encoded_price_units_parse [OF nonneg] by simp
qed

lemma price_contexts_ids: "price_contexts f buyer xs = Inr cs \<Longrightarrow> map px_priceId cs = map (snd \<circ> snd) xs"
  by (induction f buyer xs arbitrary: cs rule: price_contexts.induct) (auto simp: effects split: option.splits prod.splits)

lemma reference_decision_ids:
  assumes "loadInvocationBillingReferenceDecision f c scope = Inr cs"
  shows "map px_priceId cs = am_accessPointPriceIds c"
proof -
  let ?r = "ai_routing (am_identity c)"
  let ?zip = "zip (fr_accessPointChainIds ?r) (zip (fr_pathTargetEdgeIds ?r) (am_accessPointPriceIds c))"
  from assms have lengths: "length (am_accessPointPriceIds c) = length (fr_accessPointChainIds ?r)"
    "length (fr_accessPointChainIds ?r) \<le> length (fr_pathTargetEdgeIds ?r)" and run: "price_contexts f scope ?zip = Inr cs"
    by (auto simp: loadInvocationBillingReferenceDecision_def Let_def split: if_splits)
  have "map (snd \<circ> snd) ?zip = am_accessPointPriceIds c"
    using lengths by (simp add: map_zip_map2 list_eq_iff_nth_eq)
  with price_contexts_ids [OF run] show ?thesis by simp
qed

lemma frozen_contexts:
  assumes "traverse (\<lambda>c. rbind (context_price g c) (\<lambda>row. rbind (freezePriceRow row tokens tier) (\<lambda>z.
       Inr (price_context.extend c \<lparr>fe_tierKey = fz_tierKey z, fe_snapshotJson = fz_snapshotJson z\<rparr>)))) cs = Inr ps"
    and "catalog_ok g"
  shows "map px_priceId ps = map px_priceId cs" "snapshots_parse ps"
proof -
  have "list_all2 (\<lambda>c p. px_priceId p = px_priceId c \<and> (\<exists>u. parseFrozenPriceUnits (fe_snapshotJson p) = Inr u)) cs ps"
    using assms(1) unfolding traverse_Inr_iff
  proof (rule list_all2_mono)
    fix c :: price_context and p
    assume "rbind (context_price g c) (\<lambda>row. rbind (freezePriceRow row tokens tier) (\<lambda>z.
       Inr (price_context.extend c \<lparr>fe_tierKey = fz_tierKey z, fe_snapshotJson = fz_snapshotJson z\<rparr>))) = Inr p"
    then obtain row z where z: "context_price g c = Inr row" "freezePriceRow row tokens tier = Inr z"
      "p = price_context.extend c \<lparr>fe_tierKey = fz_tierKey z, fe_snapshotJson = fz_snapshotJson z\<rparr>"
      by (auto simp: effects)
    from z(1) assms(2) have "profile_nonneg row" by (auto simp: context_price_def catalog_ok_def split: option.splits if_splits)
    from freezePriceRow_parses(1) [OF z(2) this]
    show "px_priceId p = px_priceId c \<and> (\<exists>u. parseFrozenPriceUnits (fe_snapshotJson p) = Inr u)"
      by (simp add: z(3) price_context.defs)
  qed
  then show "map px_priceId ps = map px_priceId cs" "snapshots_parse ps"
    unfolding snapshots_parse_def by (induction rule: list_all2_induct) simp_all
qed

lemma billed_price_nonneg:
  assumes "billed_price g i = Inr row" "catalog_ok g"
  shows "profile_nonneg row"
proof -
  from assms(1) obtain base where base: "loadInvocationPriceRows g i = Inr base"
    "(case base of None \<Rightarrow> relay ''billable_price_changed'' 409
       | Some (plan, ap, row) \<Rightarrow>
           if ti_source i = From_plan \<and> plan \<noteq> Some (ti_planId i)
              \<or> map_option px_accessPoint (first_of (ti_contexts i)) \<noteq> Some ap
           then relay ''billable_price_changed'' 409 else Inr row) = Inr row"
    unfolding billed_price_def rbind_Inr_iff by blast
  from base(2) obtain plan ap where "base = Some (plan, ap, row)" by (cases base) (auto split: prod.splits if_splits)
  with base(1) assms(2) show ?thesis
    by (cases "ti_source i") (auto simp: loadInvocationPriceRows_def catalog_ok_def split: if_splits)
qed

lemma provider_cost_nonneg: "provider_cost g i = Inr row \<Longrightarrow> catalog_ok g \<Longrightarrow> profile_nonneg row"
  by (auto simp: provider_cost_def catalog_ok_def split: option.splits if_splits)

lemma maximum_nonneg: "maximumInvocationChargeUnits n m p = Inr limit \<Longrightarrow> 0 \<le> limit"
  by (auto simp: maximumInvocationChargeUnits_def Let_def effects checkedBillingAdd_def split: if_splits)

lemma decided_terms:
  assumes "decide_terms w c account now db b = Inr (sub, f, t, maximum)" "catalog_ok (aw_prices w)"
  shows "parseFrozenPriceUnits (fz_snapshotJson (ft_price t)) = Inr (fz_units (ft_price t))"
    and "\<exists>u. parseFrozenPriceUnits (ft_costSnapshotJson t) = Inr u"
    and "snapshots_parse (ft_prices t)" "map px_priceId (ft_prices t) = am_accessPointPriceIds c"
    and "maximumInvocationChargeUnits (am_inputTokens c) (am_maxOutputTokens c) (fz_units (ft_price t)) = Inr maximum"
proof -
  from assms(1) obtain cs where steps: "loadInvocationBillingReferenceDecision f c (su_scopeRef sub) = Inr cs"
    "prepareInvocationBillingFinancialTerms (aw_prices w) (terms_input_of c cs) (am_inputTokens c) (am_serviceTier c) = Inr t"
    and maximum: "maximumInvocationChargeUnits (am_inputTokens c) (am_maxOutputTokens c) (fz_units (ft_price t)) = Inr maximum"
    by (auto simp: decide_terms_def effects split: if_splits)
  then show "maximumInvocationChargeUnits (am_inputTokens c) (am_maxOutputTokens c) (fz_units (ft_price t)) = Inr maximum" by simp
  from steps(2) obtain base cost_row cost where terms:
    "billed_price (aw_prices w) (terms_input_of c cs) = Inr base" "freezePriceRow base (am_inputTokens c) (am_serviceTier c) = Inr (ft_price t)"
    "provider_cost (aw_prices w) (terms_input_of c cs) = Inr cost_row" "freezePriceRow cost_row (am_inputTokens c) (am_serviceTier c) = Inr cost"
    "ft_costSnapshotJson t = fz_snapshotJson cost"
    and prices: "traverse (\<lambda>x. rbind (context_price (aw_prices w) x) (\<lambda>row. rbind (freezePriceRow row (am_inputTokens c) (am_serviceTier c)) (\<lambda>z.
       Inr (price_context.extend x \<lparr>fe_tierKey = fz_tierKey z, fe_snapshotJson = fz_snapshotJson z\<rparr>)))) cs = Inr (ft_prices t)"
    unfolding prepareInvocationBillingFinancialTerms_def rbind_Inr_iff by (auto simp: terms_input_of_def)
  show "parseFrozenPriceUnits (fz_snapshotJson (ft_price t)) = Inr (fz_units (ft_price t))"
    by (rule freezePriceRow_parses(1) [OF terms(2) billed_price_nonneg [OF terms(1) assms(2)]])
  show "\<exists>u. parseFrozenPriceUnits (ft_costSnapshotJson t) = Inr u"
    using freezePriceRow_parses(1) [OF terms(4) provider_cost_nonneg [OF terms(3) assms(2)]] terms(5) by simp
  show "snapshots_parse (ft_prices t)" "map px_priceId (ft_prices t) = am_accessPointPriceIds c"
    using frozen_contexts [OF prices assms(2)] reference_decision_ids [OF steps(1)] by simp_all
qed

subsection \<open>A replayed admission\<close>

lemma same_columns_compatibility:
  assumes "same_columns a b" "find_attempt db ref = Some a" "find_attempt db' ref = Some b"
  shows "readProviderAttemptCompatibility db' ref = readProviderAttemptCompatibility db ref"
proof -
  have frozen: "frozen_text b = frozen_text a" "frozen_int b = frozen_int a"
    using assms(1) by (simp_all add: same_columns_def frozen_text_def frozen_int_def fun_eq_iff)
  then have derived: "preparation_of b = preparation_of a" "column b = column a"
    by (simp_all add: preparation_of_def column_def fun_eq_iff)
  have contract: "at_invocationContract b = at_invocationContract a" using assms(1) by (simp add: same_columns_def)
  show ?thesis
    unfolding readProviderAttemptCompatibility_def assms(2,3) option.case frozen derived contract by (rule refl)
qed

lemma compatibility_found: "readProviderAttemptCompatibility db ref = Inr y \<Longrightarrow> \<exists>row. find_attempt db ref = Some row"
  by (cases "find_attempt db ref") (simp_all add: readProviderAttemptCompatibility_def)

lemma same_terms_fields:
  assumes "same_terms r r'"
  shows "ur_id r' = ur_id r" "ur_attempt r' = ur_attempt r" "ur_units r' = ur_units r" "ur_account r' = ur_account r"
    "reservation_matches (Some r') c m = reservation_matches (Some r) c m"
  using assms by (cases r; cases r'; simp add: same_terms_def reservation_matches_def split: option.splits)+

lemma claim_excludes_fact:
  assumes "app_ok s" "find_claim (ap_books s) ref \<noteq> None"
  shows "find_fact (ap_books s) ref = None"
proof -
  have occupied: "occupied (view_of (ap_request s)) (ap_books s)" using assms(1) by (simp add: app_ok_def books_ok_def)
  from occupied_refs(1,2) [OF occupied, of ref] assms(2) show ?thesis by auto
qed

lemma equivalent_stable:
  assumes "equivalentAdmission x c (ap_request t) (ap_books t) = Inr a" "app_evolve t u" "app_ok u"
    and "find_claim (ap_books u) (sa_ref (fst x)) \<noteq> None"
  shows "equivalentAdmission x c (ap_request u) (ap_books u) = Inr a"
proof -
  let ?ref = "sa_ref (fst x)"
  from assms(1) obtain y claim price maximum where parts:
    "readProviderAttemptCompatibility (ap_request t) ?ref = Inr y"
    "physical_matches y c = Inr True" "find_claim (ap_books t) ?ref = Some claim" "snd x = Some (am_subscription c)"
    "parseFrozenPriceUnits (cx_snapshotJson y) = Inr price"
    "maximumInvocationChargeUnits (am_inputTokens c) (am_maxOutputTokens c) price = Inr maximum"
    "bc_refs claim = references_of c" "bc_planId claim = am_planId c"
    "bc_maxTokens claim = am_inputTokens c + am_maxOutputTokens c" "bc_maxCharge claim = maximum"
    "reservation_matches (find_reservation (ap_books t) ?ref) c maximum"
    "a = \<lparr>ad_attemptId = ?ref, ad_maxTokens = bc_maxTokens claim,
          ad_maxCharge = bc_maxCharge claim, ad_reservationId = map_option ur_id (find_reservation (ap_books t) ?ref),
          ad_reservationUnits = map_option ur_units (find_reservation (ap_books t) ?ref), ad_admittedAt = sa_startedAt (fst x)\<rparr>"
    by (auto simp: equivalentAdmission_def Let_def effects readInvocationBillingOccupation_def split: option.splits if_splits)
  from compatibility_found [OF parts(1)] obtain row where row: "find_attempt (ap_request t) ?ref = Some row" by blast
  from assms(2) have ev: "evolves (ap_request t) (ap_request u)" and kept: "occupation_kept (ap_books t) (ap_books u) ?ref"
    by (simp_all add: app_evolve_def books_evolve_def)
  from ev row obtain row' where "find_attempt (ap_request u) ?ref = Some row'" "same_columns row row'"
    unfolding evolves_def row_evolves_def by blast
  with same_columns_compatibility row parts(1)
  have physical: "readProviderAttemptCompatibility (ap_request u) ?ref = Inr y" by metis
  have claim: "find_claim (ap_books u) ?ref = Some claim"
    using occupation_keptD(1) [OF kept parts(3)] claim_excludes_fact [OF assms(3,4)] by blast
  have reservation: "map_option ur_id (find_reservation (ap_books u) ?ref) = map_option ur_id (find_reservation (ap_books t) ?ref)
    \<and> map_option ur_units (find_reservation (ap_books u) ?ref) = map_option ur_units (find_reservation (ap_books t) ?ref)
    \<and> reservation_matches (find_reservation (ap_books u) ?ref) c maximum"
  proof (cases "find_reservation (ap_books t) ?ref")
    case None
    with occupation_keptD(3) [OF kept] parts(3,11) show ?thesis by simp
  next
    case (Some r)
    from occupation_keptD(2) [OF kept this] obtain r' where "find_reservation (ap_books u) ?ref = Some r'" "same_terms r r'" by blast
    with Some same_terms_fields parts(11) show ?thesis by simp
  qed
  show ?thesis
    using parts claim reservation physical
    by (simp add: equivalentAdmission_def Let_def readInvocationBillingOccupation_def)
qed

lemma material_frozen:
  assumes "at_frozen row = pm_frozen (protected_material c sub f t)" "at_invocationContract row = ''protected@1''"
    and "find_attempt db ref = Some row"
  shows "readProviderAttemptCompatibility db ref
    = Inr \<lparr>cx_priceSource = price_source_text (am_source c), cx_priceId = am_priceId c,
           cx_snapshotJson = fz_snapshotJson (ft_price t), cx_costId = am_costId c,
           cx_accessPointPricesJson = evidence_json (ft_prices t), cx_inputTokens = am_inputTokens c,
           cx_maxOutputTokens = am_maxOutputTokens c, cx_preparation = am_preparation c, cx_serviceTier = am_serviceTier c\<rparr>"
  using assms
  by (simp add: readProviderAttemptCompatibility_def frozen_text_def frozen_int_def preparation_of_def column_def
      protected_material_def text_or_empty_def)

end
