(* ===== verification/Billing_Example.thy ===== *)
theory Billing_Example
  imports Billing_Evidence
begin

section \<open>A run of the invocation commands\<close>

text \<open>
  A request that is admitted with a hold on its user's account, and settled with a charge. The theorems on
  runs are applied to it.
\<close>

definition demo_lc :: "string \<Rightarrow> string \<Rightarrow> int" where "demo_lc a b = 0"

definition demo_price :: price_profile_input where
  "demo_price = \<lparr>inputPriceUnitsPer1M = 10000000, cachedInputPriceUnitsPer1M = 1000000, cacheWritePriceUnitsPer1M = None,
      outputPriceUnitsPer1M = 40000000, profileStatus = ''enabled'', profileTiers = []\<rparr>"

definition demo_routing :: frozen_routing where
  "demo_routing = \<lparr>fr_selectorAccessPointId = ''ap'', fr_selectorId = ''direct'', fr_selectorBehaviorVersion = 1,
     fr_routingRevision = 3, fr_routingRevisions = [(''ap'', 3)], fr_selectorTargetEdgeId = ''edge'',
     fr_pathTargetEdgeIds = [''edge''], fr_accessPointChainIds = [''ap'']\<rparr>"

definition demo_command :: admit_command where
  "demo_command =
     \<lparr>am_identity = \<lparr>ai_requestId = ''req'', ai_executionOwnerId = ''owner'', ai_attemptIndex = 0,
        ai_candidate = \<lparr>fc_candidateId = ''c'', fc_providerModelId = ''pm'', fc_providerId = ''p'', fc_providerModelName = ''m''\<rparr>,
        ai_routing = demo_routing, ai_selectedSourceRef = None\<rparr>,
      am_planId = ''plan'', am_subscription = ''sub'', am_apiKey = ''key'', am_user = ''user'',
      am_inputTokens = 10, am_maxOutputTokens = 5,
      am_preparation = \<lparr>pz_tokenizerId = ''t'', pz_tokenizerVersion = 1, pz_evidenceId = ''e'', pz_evidenceVersion = 1,
        pz_payloadId = ''y''\<rparr>,
      am_serviceTier = ''standard'', am_source = From_access_point, am_priceId = ''price'', am_costId = ''cost'',
      am_accessPointPriceIds = [''price''], am_account = Some ''acct''\<rparr>"

definition demo_limit :: budget_limit where
  "demo_limit = \<lparr>bl_planId = ''plan'', bl_scope = ''user'', bl_metric = ''tokens'', bl_windowType = ''cumulative'',
     bl_windowSeconds = None, bl_limitValue = 15, bl_limitUnits = None\<rparr>"

definition demo_world :: admission_world where
  "demo_world =
     \<lparr>aw_requestLog = [''req'' \<mapsto> (''key'', ''user'')],
      aw_subscription = [''sub'' \<mapsto> \<lparr>su_planId = ''plan'', su_lifecycle = ''active'', su_effectiveStart = 0, su_effectiveEnd = None,
        su_scopeRef = ''team:a'', su_planStatus = ''enabled'', su_planScopeRef = ''team:s'', su_planBillingMode = ''paygo''\<rparr>],
      aw_routing = \<lparr>rr_accessPoints = [''ap'' \<mapsto> (''team:s'', 3)],
        rr_edges = [''edge'' \<mapsto> \<lparr>pe_accessPoint = ''ap'', pe_targetType = ''provider-model'', pe_targetAccessPoint = None,
          pe_targetProvider = Some ''p'', pe_targetModelName = Some ''m'', pe_targetModel = Some ''pm''\<rparr>],
        rr_models = [''pm'' \<mapsto> \<lparr>pp_providerId = ''p'', pp_modelName = ''m'', pp_modelStatus = ''enabled'', pp_providerStatus = ''enabled'',
          pp_ownerScopeRef = ''team:s'', pp_bindingStatus = ''ready''\<rparr>]\<rparr>,
      aw_apiKeys = {''key''},
      aw_prices = \<lparr>pg_accessPoint = [''price'' \<mapsto> (''ap'', demo_price)], pg_plan = Map.empty, pg_cost = [''cost'' \<mapsto> (''p'', ''m'', demo_price)]\<rparr>,
      aw_planLimits = [demo_limit], aw_keyLimits = [], aw_paygoLimit = 2\<rparr>"

definition demo_account :: credit_account where
  "demo_account = \<lparr>ca_id = ''acct'', ca_scope = ''user:user'', ca_status = ''active'', ca_balance = 0, ca_snapEvent = None, ca_updatedAt = 0\<rparr>"

definition demo_topup :: ledger_event where
  "demo_topup = \<lparr>lv_id = ''l0'', lv_account = ''acct'', lv_type = ''topup'', lv_amount = 1000, lv_subscription = None, lv_billingEvent = None,
     lv_attempt = None, lv_purchase = None, lv_related = None, lv_reason = ''card'', lv_actor = None, lv_createdAt = 0\<rparr>"

definition demo_start :: app where
  "demo_start = \<lparr>ap_request = \<lparr>executions = Map.empty, leases = Map.empty, attempts = [], request_logs = [''req'' \<mapsto> None]\<rparr>, ap_books = empty_books\<rparr>"

definition demo_funded :: app where
  "demo_funded = demo_start\<lparr>ap_books := (post_entry demo_topup (empty_books\<lparr>accounts := [demo_account]\<rparr>))\<lparr>paygo_users := [''user'']\<rparr>\<rparr>"

text \<open>The request, its lease, and the funded account before the admission.\<close>

definition demo_leased :: app where
  "demo_leased = demo_funded\<lparr>ap_request := (ap_request demo_start)\<lparr>leases :=
     [''req'' \<mapsto> \<lparr>le_ownerId = ''owner'', le_acquiredAt = 5, le_heartbeatAt = 5, le_leaseUntil = 30005\<rparr>]\<rparr>\<rparr>"

definition demo_usage :: invocation_usage where
  "demo_usage = \<lparr>inputTokens = 10, cachedInputTokens = 0, cacheWriteTokens = 0, outputTokens = 3, totalTokens = 13, usageSource = ''response''\<rparr>"

subsection \<open>The admission\<close>

definition demo_units :: frozen_price where
  "demo_units = frozen_price.truncate demo_price"

definition demo_snapshot :: string where
  "demo_snapshot = encodeFrozenPriceUnits demo_units ''standard'' ''legacy_flat''"

definition demo_frozen :: frozen_row where
  "demo_frozen = \<lparr>fz_units = demo_units, fz_serviceTier = ''standard'', fz_tierKey = ''legacy_flat'', fz_snapshotJson = demo_snapshot\<rparr>"

definition demo_evidence :: frozen_evidence where
  "demo_evidence = \<lparr>px_accessPoint = ''ap'', px_target = None, px_buyer = ''team:a'', px_seller = ''team:s'', px_priceId = ''price'',
     fe_tierKey = ''legacy_flat'', fe_snapshotJson = demo_snapshot\<rparr>"

definition demo_terms :: financial_terms where
  "demo_terms = \<lparr>ft_price = demo_frozen, ft_costTierKey = ''legacy_flat'', ft_costSnapshotJson = demo_snapshot,
     ft_prices = [demo_evidence]\<rparr>"

definition demo_subscription :: plan_subscription where
  "demo_subscription = \<lparr>su_planId = ''plan'', su_lifecycle = ''active'', su_effectiveStart = 0, su_effectiveEnd = None,
     su_scopeRef = ''team:a'', su_planStatus = ''enabled'', su_planScopeRef = ''team:s'', su_planBillingMode = ''paygo''\<rparr>"

lemma demo_freeze: "freezePriceRow demo_price 10 ''standard'' = Inr demo_frozen"
  by (simp add: freezePriceRow_def demo_price_def specific_tier_def base_covers_def  demo_frozen_def demo_units_def
      demo_snapshot_def Let_def)

lemma demo_available: "available_subscription demo_world demo_command 10 = Inr demo_subscription"
  by (simp add: available_subscription_def demo_world_def demo_command_def demo_subscription_def)

lemma demo_path: "\<exists>f. assertFrozenRoutingPath (aw_routing demo_world) (am_identity demo_command) = Inr f
   \<and> rf_accessPoints f ''ap'' = Some (''team:s'', 3) \<and> map_option pe_targetAccessPoint (rf_edges f ''edge'') = Some None
   \<and> rf_ownerScopeRef f = ''team:s''"
  by (simp add: assertFrozenRoutingPath_def demo_world_def demo_command_def demo_routing_def edge_matches_def Let_def rbind_def)

lemma demo_numbers: "assertAdmissionNumbers demo_command = Inr ()"
  by code_simp

lemma demo_maximum: "maximumInvocationChargeUnits 10 5 demo_units = Inr 300"
  by code_simp

lemma demo_decided:
  "\<exists>f. rf_ownerScopeRef f = ''team:s''
     \<and> decide_terms demo_world demo_command (Some \<lparr>la_id = ''acct'', la_status = ''active'', la_balance = 1000\<rparr>) 10
          (ap_request demo_leased) (ap_books demo_leased) = Inr (demo_subscription, f, demo_terms, 300)"
proof -
  obtain f where path: "assertFrozenRoutingPath (aw_routing demo_world) (am_identity demo_command) = Inr f"
    and f: "rf_accessPoints f ''ap'' = Some (''team:s'', 3)" "map_option pe_targetAccessPoint (rf_edges f ''edge'') = Some None"
      "rf_ownerScopeRef f = ''team:s''"
    using demo_path by blast
  let ?cs = "[\<lparr>px_accessPoint = ''ap'', px_target = None, px_buyer = ''team:a'', px_seller = ''team:s'', px_priceId = ''price''\<rparr>]"
  have contexts: "loadInvocationBillingReferenceDecision f demo_command ''team:a'' = Inr ?cs"
    using f by (auto simp: loadInvocationBillingReferenceDecision_def Let_def demo_command_def demo_routing_def rbind_def)
  have terms: "prepareInvocationBillingFinancialTerms (aw_prices demo_world) (terms_input_of demo_command ?cs) 10 ''standard'' = Inr demo_terms"
    by (simp add: prepareInvocationBillingFinancialTerms_def billed_price_def loadInvocationPriceRows_def provider_cost_def
        context_price_def terms_input_of_def demo_world_def demo_command_def demo_freeze demo_terms_def demo_frozen_def
        demo_evidence_def price_context.defs rbind_def)
  have free: "assertInvocationBillingCapacity 2 \<lparr>la_id = ''acct'', la_status = ''active'', la_balance = 1000\<rparr> ''user'' 300
      (ap_books demo_leased) = Inr ()"
    by (simp add: assertInvocationBillingCapacity_def held_units_def open_for_user_def demo_leased_def demo_funded_def
        post_entry_def empty_books_def Let_def)
  have world: "aw_planLimits demo_world = [demo_limit]" "aw_keyLimits demo_world = []" "aw_apiKeys demo_world = {''key''}" "aw_paygoLimit demo_world = 2"
    and command: "am_inputTokens demo_command = 10" "am_maxOutputTokens demo_command = 5" "am_serviceTier demo_command = ''standard''"
      "am_apiKey demo_command = ''key''" "am_account demo_command = Some ''acct''" "am_user demo_command = ''user''"
    by (simp_all add: demo_world_def demo_command_def)
  have scope: "su_scopeRef demo_subscription = ''team:a''" by (simp add: demo_subscription_def)
  have budget: "assertInvocationPlanBudgets [demo_limit] (budget_input_of demo_command demo_subscription 300 10)
      (ap_request demo_leased) (ap_books demo_leased) = Inr ()"
    by (simp add: assertInvocationPlanBudgets_def demo_limit_def fixedBudgetWindow_def check_budget_def settled_in_def claimed_in_def
        budget_input_of_def demo_command_def demo_subscription_def demo_leased_def demo_funded_def post_entry_def empty_books_def
        js_trunc_def rbind_def)
  show ?thesis
    by (intro exI [of _ f] conjI f(3))
      (simp add: decide_terms_def demo_available path contexts terms demo_maximum free world command
        budget assertInvocationDirectBudgets_def rbind_def scope demo_terms_def
        demo_frozen_def BILLING_MAX_INT64_def)
qed

text \<open>What the admission writes.\<close>

definition demo_material :: persistence_material where
  "demo_material = protected_material demo_command demo_subscription
     \<lparr>rf_accessPoints = Map.empty, rf_edges = Map.empty, rf_ownerScopeRef = ''team:s''\<rparr> demo_terms"

lemma demo_material: "rf_ownerScopeRef f = ''team:s'' \<Longrightarrow> protected_material demo_command demo_subscription f demo_terms = demo_material"
  by (simp add: demo_material_def protected_material_def)

definition demo_row :: attempt_row where
  "demo_row = new_attempt_row (admission_identity_of demo_command) ''att'' 30005 10 demo_material"

definition demo_stored :: stored_attempt where
  "demo_stored = stored_of_command (admission_identity_of demo_command) ''att'' 10"

definition demo_occupation :: occupation_input where
  "demo_occupation = occupation_of demo_command demo_stored 300 demo_terms"

definition demo_running :: execution where
  "demo_running = \<lparr>ex_status = Running_execution, ex_ownerId = ''owner'', ex_attemptCount = 1, ex_outputCommitted = False,
     ex_terminalErrorCode = None, ex_selectedSourceRef = Some ''sub'', ex_startedAt = 10, ex_endedAt = None\<rparr>"

definition demo_books :: books where
  "demo_books = (ap_books demo_leased)\<lparr>claims := [claim_of demo_occupation], reservations := [reservation_of demo_occupation ''acct'' ''res'']\<rparr>"

definition demo_admitted :: app where
  "demo_admitted =
     \<lparr>ap_request = (ap_request demo_leased)\<lparr>executions := [''req'' \<mapsto> demo_running], attempts := [demo_row]\<rparr>, ap_books = demo_books\<rparr>"

definition demo_admission :: admission where
  "demo_admission = \<lparr>ad_attemptId = ''att'', ad_maxTokens = 15, ad_maxCharge = 300, ad_reservationId = Some ''res'',
     ad_reservationUnits = Some 300, ad_admittedAt = 10\<rparr>"

lemma demo_executed:
  "execute_admission (admission_identity_of demo_command) (Admit_first 30005 ''sub'') 10 demo_material ''att'' (ap_request demo_leased)
     = Inr (demo_stored, ap_request demo_admitted)"
proof -
  have "pm_providerAttemptRef demo_material = None" by (simp add: demo_material_def protected_material_def)
  moreover have "ai_requestId (admission_identity_of demo_command) = ''req''" "ai_executionOwnerId (admission_identity_of demo_command) = ''owner''"
    by (simp_all add: demo_command_def admission_identity_of_def)
  ultimately show ?thesis
    by (simp add: execute_admission_def persist_attempt_def tx_bind_def tx_return_def insert_execution_def create_attempt_def
        update_execution_def demo_leased_def demo_funded_def demo_start_def demo_stored_def demo_admitted_def demo_row_def
        new_execution_def demo_running_def Let_def rbind_def)
qed

lemma demo_row_columns:
  "at_id demo_row = ''att''" "at_requestId demo_row = ''req''" "at_startedAt demo_row = 10"
  "at_invocationContract demo_row = ''protected@1''" "at_usageSettled demo_row = False" "at_outcome demo_row = None"
  "at_costExposure demo_row = Not_started" "at_frozen demo_row = pm_frozen demo_material"
  by (simp_all add: demo_row_def new_attempt_row_def demo_material_def protected_material_def admission_identity_of_def demo_command_def)

lemma demo_attempts: "attempts (ap_request demo_admitted) = [demo_row]"
  by (simp add: demo_admitted_def)

lemma demo_found: "find_attempt (ap_request demo_admitted) ''att'' = Some demo_row"
  by (simp add: demo_admitted_def find_attempt_def demo_row_columns)

lemma demo_occupied:
  "createInvocationBillingOccupation (Some demo_row) demo_occupation ''res'' (ap_books demo_leased) = Inr (Some ''res'', demo_books)"
proof -
  have sides: "am_account demo_command = Some ''acct''" "sa_ref demo_stored = ''att''" "sa_startedAt demo_stored = 10"
    by (simp_all add: demo_command_def demo_stored_def stored_of_command_def)
  have material: "frozen_int demo_row ''inputTokens'' = Some 10" "frozen_int demo_row ''maxOutputTokens'' = Some 5"
    "preparation_of demo_row = Some (am_preparation demo_command)"
    by (simp_all add: frozen_int_def frozen_text_def preparation_of_def demo_row_columns demo_material_def protected_material_def
        demo_command_def)
  show ?thesis
    using sides material
    by (simp add: createInvocationBillingOccupation_def demo_occupation_def occupation_of_def tx_bind_def tx_return_def insert_claim_def
        insert_reservation_def claim_insert_allowed_def reservation_insert_allowed_def demo_row_columns claim_of_def reservation_of_def
        demo_books_def demo_leased_def demo_funded_def post_entry_def empty_books_def find_claim_def rbind_def
        boundedEvidenceIdentity_def is_safe_int_def MAX_SAFE_INTEGER_def demo_command_def)
qed

lemma demo_admits:
  "admitProviderInvocation demo_world demo_command 10 (''att'', ''res'') demo_leased = Inr (demo_admission, demo_admitted)"
proof -
  obtain f where owner: "rf_ownerScopeRef f = ''team:s''"
    and decided: "decide_terms demo_world demo_command (Some \<lparr>la_id = ''acct'', la_status = ''active'', la_balance = 1000\<rparr>) 10
       (ap_request demo_leased) (ap_books demo_leased) = Inr (demo_subscription, f, demo_terms, 300)"
    using demo_decided by blast
  have none: "find_replay (admission_identity_of demo_command) (ap_request demo_leased) = Inr None"
    by code_simp
  have funding: "lockInvocationBillingAdmissionFunding (am_account demo_command) (am_user demo_command) (ap_books demo_leased)
      = Inr (Some \<lparr>la_id = ''acct'', la_status = ''active'', la_balance = 1000\<rparr>)"
    by code_simp
  have inspect: "inspect_new (admission_kind_of demo_command) (admission_identity_of demo_command) 10 (Some None) (ap_request demo_leased)
      = Inr (Admit_first 30005 ''sub'')"
    by code_simp
  have request: "aw_requestLog demo_world (ai_requestId (admission_identity_of demo_command))
      = Some (am_apiKey demo_command, am_user demo_command)" "am_subscription demo_command = ''sub''"
    "am_inputTokens demo_command = 10" "am_maxOutputTokens demo_command = 5" "sa_ref demo_stored = ''att''" "sa_startedAt demo_stored = 10"
    by (simp_all add: demo_world_def demo_command_def admission_identity_of_def demo_stored_def stored_of_command_def)
  show ?thesis
    by (simp add: admitProviderInvocation_def demo_numbers none funding inspect request admit_new_def decided demo_material [OF owner]
        demo_executed demo_found demo_occupied [unfolded demo_occupation_def] tx_bind_def tx_lift_def tx_return_def reading_def
        on_request_def on_books_def rbind_def require_def Let_def)
      (simp add: demo_admission_def demo_admitted_def)
qed

subsection \<open>The settlement\<close>

definition demo_settle :: settle_command where
  "demo_settle = \<lparr>sc_finalize = \<lparr>fi_ref = ''att'', fi_outcome = Succeeded, fi_failureClass = None, fi_failureReason = None,
     fi_outputCommitted = True, fi_trustedUsageSource = Response_source, fi_requestTerminalStatus = None,
     fi_requestTerminalErrorCode = None\<rparr>, sc_usage = demo_usage\<rparr>"

definition demo_protected :: protected_snapshot where
  "demo_protected = \<lparr>sn_ref = ''att'', sn_requestId = ''req'', sn_startedAt = 10, sn_billingScopeRef = ''team:a'',
     sn_planSellerScopeRef = ''team:s'', sn_planBillingMode = ''paygo'', sn_effectiveStart = 0, sn_providerOwnerScopeRef = ''team:s'',
     sn_providerId = ''p'', sn_providerModelName = ''m'', sn_costId = ''cost'', sn_priceId = ''price'', sn_priceSource = ''access_point'',
     sn_costTierKey = ''legacy_flat'', sn_costSnapshotJson = demo_snapshot, sn_tierKey = ''legacy_flat'', sn_snapshotJson = demo_snapshot,
     sn_accessPointPricesJson = evidence_json [demo_evidence]\<rparr>"

definition demo_final :: final_facts where
  "demo_final = \<lparr>ff_eventId = ''be'', ff_refs = references_of demo_command, ff_usage = demo_usage, ff_actual = 220, ff_cost = 220,
     ff_tierKey = ''legacy_flat'', ff_snapshotJson = demo_snapshot, ff_costTierKey = ''legacy_flat'',
     ff_costSnapshotJson = demo_snapshot, ff_prices = [demo_evidence]\<rparr>"

definition demo_locked :: locked_account where
  "demo_locked = \<lparr>la_id = ''acct'', la_status = ''active'', la_balance = 1000\<rparr>"

definition demo_input :: settle_input where
  "demo_input = \<lparr>st_ref = ''att'', st_usage = demo_usage, st_outcome = Outcome_settled, st_settledAt = 30,
     st_account = Some demo_locked, st_eventId = ''be'', st_ledgerId = ''l1''\<rparr>"

lemma demo_snapshot_parses: "parseFrozenPriceUnits demo_snapshot = Inr demo_units"
  using encoded_price_units_parse [of demo_units "''standard''" "''legacy_flat''"]
  by (simp add: demo_snapshot_def demo_units_def demo_price_def price_nonneg_def frozen_price.defs)

lemma demo_charge: "actualInvocationChargeUnits demo_usage demo_units = Inr 220"
  by code_simp

lemma demo_prices_parse: "parseFrozenAccessPointPrices (evidence_json [demo_evidence]) = Inr [demo_evidence]"
  by (rule evidence_roundtrip_prices) (simp add: snapshots_parse_def demo_evidence_def demo_snapshot_parses)

lemma demo_snapshot_of: "attempt_snapshot_of (ap_request demo_admitted) ''att'' = Inr (Protected demo_protected)"
  by (simp add: attempt_snapshot_of_def demo_found readInvocationBillingAttemptSnapshot_def common_snapshot_def demo_row_columns
      frozen_text_def frozen_int_def column_def text_or_empty_def demo_material_def protected_material_def demo_terms_def demo_frozen_def
      demo_subscription_def required_def rbind_def attempt_snapshot.defs demo_protected_def Let_def)
    (simp add: demo_command_def demo_row_def new_attempt_row_def admission_identity_of_def price_source_text_def)

lemma demo_final_facts:
  "\<exists>es ses. createFinalBillingFacts demo_protected demo_final demo_books = Inr ((), with_final_facts demo_protected demo_final es ses demo_books)"
  by (simp add: createFinalBillingFacts_def tx_bind_def tx_lift_def tx_return_def rbind_def unitsToCompatibilityUsd_def
      demo_final_def is_safe_int_def MAX_SAFE_INTEGER_def insert_billing_event_def insert_history_ref_def insert_cost_event_def insert_edge_def
      demo_books_def demo_leased_def demo_funded_def post_entry_def empty_books_def demo_evidence_def demo_snapshot_parses demo_charge
      sellerSettlementWindow_def demo_protected_def MAX_DATE_def insert_seller_revenue_def insertSellerSettlement_def
      insert_seller_event_def insert_upstream_cost_def with_final_facts_def require_def Let_def)

definition demo_result :: settlement_result where
  "demo_result = \<lparr>rs_actual = 220, rs_posting = Some ''l1'', rs_billingEvent = ''be'', rs_replayed = False\<rparr>"

definition demo_fact :: usage_fact where
  "demo_fact = fact_of demo_input (references_of demo_command) 220 demo_snapshot 10 (Some ''l1'')"

lemma demo_rows:
  "find_fact demo_books ''att'' = None" "find_claim demo_books ''att'' = Some (claim_of demo_occupation)"
  "find_reservation demo_books ''att'' = Some (reservation_of demo_occupation ''acct'' ''res'')"
  "facts demo_books = []" "claims demo_books = [claim_of demo_occupation]"
  "reservations demo_books = [reservation_of demo_occupation ''acct'' ''res'']"
  "ledger demo_books = [demo_topup]" "accounts demo_books = [demo_account\<lparr>ca_balance := 1000, ca_snapEvent := Some ''l0''\<rparr>]"
  by (simp_all add: demo_books_def demo_leased_def demo_funded_def post_entry_def empty_books_def finders demo_occupation_def
      occupation_of_def claim_of_def reservation_of_def demo_stored_def stored_of_command_def demo_account_def demo_topup_def)

lemma demo_hold:
  "ur_snapshotJson (reservation_of demo_occupation ''acct'' ''res'') = demo_snapshot"
  "ur_id (reservation_of demo_occupation ''acct'' ''res'') = ''res''" "ur_attempt (reservation_of demo_occupation ''acct'' ''res'') = ''att''"
  "ur_status (reservation_of demo_occupation ''acct'' ''res'') = Hold_active"
  "ur_units (reservation_of demo_occupation ''acct'' ''res'') = 300" "ur_account (reservation_of demo_occupation ''acct'' ''res'') = ''acct''"
  "bc_refs (claim_of demo_occupation) = references_of demo_command" "bc_attempt (claim_of demo_occupation) = ''att''"
  by (simp_all add: reservation_of_def claim_of_def demo_occupation_def occupation_of_def demo_terms_def demo_frozen_def
      demo_stored_def stored_of_command_def)

lemma demo_unwritten:
  "assertCacheWritePriceAvailable demo_usage snapshots = Inr ()" "charge_of Outcome_settled demo_usage demo_snapshot = Inr 220"
  by (simp_all add: assertCacheWritePriceAvailable_def demo_usage_def charge_of_def demo_snapshot_parses
      demo_charge [unfolded demo_usage_def] rbind_def)

lemma demo_settled_books:
  "\<exists>b. settleInvocationBilling demo_lc (Protected demo_protected) demo_input demo_books = Inr (demo_result, b)
     \<and> find_fact b ''att'' = Some demo_fact"
proof -
  obtain es ses where written: "createFinalBillingFacts demo_protected demo_final demo_books
     = Inr ((), with_final_facts demo_protected demo_final es ses demo_books)"
    using demo_final_facts by blast
  have input: "st_ref demo_input = ''att''" "st_usage demo_input = demo_usage" "st_outcome demo_input = Outcome_settled"
    "st_eventId demo_input = ''be''" "st_account demo_input = Some demo_locked" "st_ledgerId demo_input = ''l1''"
    and snap: "sn_accessPointPricesJson demo_protected = evidence_json [demo_evidence]" "sn_costSnapshotJson demo_protected = demo_snapshot"
      "sn_tierKey demo_protected = ''legacy_flat''" "sn_costTierKey demo_protected = ''legacy_flat''" "sn_startedAt demo_protected = 10"
    by (simp_all add: demo_input_def demo_protected_def)
  have rest: "lv_id demo_topup = ''l0''" "lv_type demo_topup = ''topup''" "ca_id demo_account = ''acct''" "la_id demo_locked = ''acct''"
    by (simp_all add: demo_topup_def demo_account_def demo_locked_def)
  show ?thesis
    unfolding settleInvocationBilling_def input demo_rows(1) option.case billing_attempt.case
    unfolding settleProtectedInvocationBilling_def input demo_rows(2,3) option.case Let_def demo_hold
    by (simp add: tx_bind_def tx_lift_def tx_return_def rbind_def snap input demo_prices_parse demo_unwritten
        written [unfolded demo_final_def] post_charge_def appendUsageCharge_def insert_ledger_event_def update_account_def
        usage_charge_entry_def insert_fact_def delete_claim_def end_reservation_def update_reservation_def demo_rows demo_hold rest
        fact_of_def finders reservation_update_allowed_def is_ended_def ended_reservation_def settled_with_def demo_result_def demo_fact_def)
qed

definition demo_settled_row :: attempt_row where
  "demo_settled_row = demo_row\<lparr>at_outcome := Some Succeeded, at_failureClass := None, at_failureReason := None,
     at_outputCommitted := True, at_trustedUsageSource := Some Response_source, at_endedAt := Some 30, at_costExposure := Stopped,
     at_finalUsageEvidence := Final_usage, at_usageSettled := True, at_reconciliationReason := None\<rparr>"

definition demo_settled_tables :: tables where
  "demo_settled_tables = (ap_request demo_admitted)\<lparr>attempts := [demo_settled_row]\<rparr>"

definition demo_decision :: "bool \<Rightarrow> finalize_decision" where
  "demo_decision again = \<lparr>fd_ref = ''att'', fd_requestId = ''req'', fd_invocationContract = ''protected@1'', fd_startedAt = 10,
     fd_expectedFailureClass = None, fd_expectedFailureReason = None, fd_expectedOutputCommitted = True, fd_alreadyFinalized = again\<rparr>"

lemma demo_account_locked: "lockInvocationBillingSettlementAccount a ''att'' demo_books = Some demo_locked"
  by (simp add: lockInvocationBillingSettlementAccount_def demo_rows demo_hold lockCreditAccount_def find_account_def lock_of_def
      demo_locked_def demo_account_def)

lemma demo_settled_found: "find_attempt demo_settled_tables ''att'' = Some demo_settled_row"
  by (simp add: demo_settled_tables_def find_attempt_def demo_settled_row_def demo_row_columns)

lemma demo_locks:
  "finalize_lock (sc_finalize demo_settle) False (ap_request demo_admitted) = Inr (demo_decision False, ap_request demo_admitted)"
  "finalize_lock (sc_finalize demo_settle) False demo_settled_tables = Inr (demo_decision True, demo_settled_tables)"
proof -
  have "request_logs (ap_request demo_admitted) ''req'' = Some None" "request_logs demo_settled_tables ''req'' = Some None"
    by (simp_all add: demo_settled_tables_def demo_admitted_def demo_leased_def demo_funded_def demo_start_def)
  moreover have "at_failureReason demo_row = None" "at_failureClass demo_row = None" "at_outputCommitted demo_row = False"
    by (simp_all add: demo_row_def new_attempt_row_def)
  ultimately show "finalize_lock (sc_finalize demo_settle) False (ap_request demo_admitted) = Inr (demo_decision False, ap_request demo_admitted)"
    "finalize_lock (sc_finalize demo_settle) False demo_settled_tables = Inr (demo_decision True, demo_settled_tables)"
    by (simp_all add: finalize_lock_def demo_settle_def demo_found demo_settled_found demo_row_columns demo_settled_row_def Let_def rbind_def
        providerAttemptFailureClass_def providerAttemptFailureReason_def or_else_def evidence_conflict_def demo_decision_def)
qed

lemma demo_snapshot_settled: "attempt_snapshot_of demo_settled_tables ''att'' = Inr (Protected demo_protected)"
proof -
  have texts: "frozen_text demo_settled_row = frozen_text demo_row" "frozen_int demo_settled_row = frozen_int demo_row"
    "frozen_flag demo_settled_row = frozen_flag demo_row" "at_invocationContract demo_settled_row = at_invocationContract demo_row"
    "at_requestId demo_settled_row = at_requestId demo_row"
    by (simp_all add: frozen_text_def frozen_int_def frozen_flag_def demo_settled_row_def fun_eq_iff)
  then have "common_snapshot demo_settled_row = common_snapshot demo_row"
    by (simp add: common_snapshot_def column_def) (simp add: demo_settled_row_def)
  with texts have "readInvocationBillingAttemptSnapshot demo_settled_row = readInvocationBillingAttemptSnapshot demo_row"
    by (simp only: readInvocationBillingAttemptSnapshot_def column_def)
  with demo_snapshot_of show ?thesis by (simp add: attempt_snapshot_of_def demo_found demo_settled_found)
qed

lemma demo_completes:
  "finalize_complete (demo_decision False) (sc_finalize demo_settle) 30 (ap_request demo_admitted) = Inr ((), demo_settled_tables)"
  "finalize_complete (demo_decision True) (sc_finalize demo_settle) now db = Inr ((), db)"
  by (simp_all add: finalize_complete_def demo_decision_def demo_settle_def tx_bind_def tx_return_def update_attempt_def demo_found
      attempt_update_allowed_def demo_row_columns demo_settled_tables_def demo_settled_row_def demo_attempts)

lemma demo_valid: "validateUsage demo_usage = Inr ()"
  by code_simp

lemma demo_settles:
  "\<exists>t. settleFinalUsage demo_lc demo_settle Outcome_settled False None 30 (''be'', ''l1'') demo_admitted = Inr (demo_result, t)
     \<and> ap_request t = demo_settled_tables \<and> find_fact (ap_books t) ''att'' = Some demo_fact"
proof -
  obtain b where settled: "settleInvocationBilling demo_lc (Protected demo_protected) demo_input demo_books = Inr (demo_result, b)"
    "find_fact b ''att'' = Some demo_fact"
    using demo_settled_books by blast
  have c: "fi_ref (sc_finalize demo_settle) = ''att''" "sc_usage demo_settle = demo_usage" "ap_books demo_admitted = demo_books"
    "fd_ref (demo_decision x) = ''att''" for x
    by (simp_all add: demo_settle_def demo_admitted_def demo_decision_def)
  have steps: "settleFinalUsage demo_lc demo_settle Outcome_settled False None 30 (''be'', ''l1'') demo_admitted
      = Inr (demo_result, \<lparr>ap_request = demo_settled_tables, ap_books = b\<rparr>)"
    unfolding settleFinalUsage_def c Let_def
    by (simp add: demo_valid demo_locks demo_snapshot_of demo_completes demo_account_locked settled(1) [unfolded demo_input_def] c tx_bind_def tx_lift_def tx_return_def
        reading_def on_request_def on_books_def rbind_def)
  show ?thesis using settled(2) by (simp add: steps)
qed

lemma demo_settles_again:
  assumes "ap_request t = demo_settled_tables" "find_fact (ap_books t) ''att'' = Some demo_fact"
  shows "settleFinalUsage demo_lc demo_settle Outcome_settled False None now ids t = Inr (demo_result\<lparr>rs_replayed := True\<rparr>, t)"
proof -
  obtain b where t: "t = \<lparr>ap_request = demo_settled_tables, ap_books = b\<rparr>" using assms(1) by (cases t) simp
  have c: "fi_ref (sc_finalize demo_settle) = ''att''" "sc_usage demo_settle = demo_usage" "fd_ref (demo_decision x) = ''att''" for x
    by (simp_all add: demo_settle_def demo_decision_def)
  have again: "settleInvocationBilling demo_lc (Protected demo_protected) i b = Inr (demo_result\<lparr>rs_replayed := True\<rparr>, b)"
    if "st_ref i = ''att''" "st_usage i = demo_usage" for i
    using assms(2) that by (simp add: settleInvocationBilling_def same_usage_def demo_fact_def fact_of_def demo_input_def demo_result_def t)
  show ?thesis
    unfolding settleFinalUsage_def c Let_def
    by (simp add: demo_valid demo_locks demo_snapshot_settled demo_completes again t c tx_bind_def tx_lift_def tx_return_def
        reading_def on_request_def on_books_def rbind_def)
qed

subsection \<open>The run\<close>

lemma demo_new: "new_app demo_start"
  by (simp add: new_app_def demo_start_def empty_tables_def)

lemma demo_reaches_leased: "(app_step demo_lc)\<^sup>*\<^sup>* demo_start demo_leased"
proof -
  let ?s1 = "demo_start\<lparr>ap_books := empty_books\<lparr>accounts := [demo_account]\<rparr>\<rparr>"
  let ?s2 = "demo_start\<lparr>ap_books := post_entry demo_topup (empty_books\<lparr>accounts := [demo_account]\<rparr>)\<rparr>"
  have "other_writer empty_books (empty_books\<lparr>accounts := [demo_account]\<rparr>)"
    using other_writer.new_account [of demo_account empty_books] by (simp add: empty_books_def demo_account_def)
  then have "app_step demo_lc demo_start ?s1"
    using app_step.other [of demo_start "empty_books\<lparr>accounts := [demo_account]\<rparr>"] by (simp add: demo_start_def)
  moreover have "other_writer (ap_books ?s1) (post_entry demo_topup (empty_books\<lparr>accounts := [demo_account]\<rparr>))"
    using other_writer.posting [of demo_topup "empty_books\<lparr>accounts := [demo_account]\<rparr>"] by (simp add: empty_books_def demo_topup_def)
  then have "app_step demo_lc ?s1 ?s2"
    using app_step.other [of ?s1] by simp
  moreover have "other_writer (ap_books ?s2) (ap_books demo_funded)"
    using other_writer.users [of "ap_books ?s2" "[''user'']"] by (simp add: demo_funded_def)
  then have "app_step demo_lc ?s2 demo_funded"
    using app_step.other [of ?s2] by (simp add: demo_funded_def)
  moreover have "run_op (Op_acquire 5 ''req'' ''owner'' 30) (ap_request demo_funded) = Inr (ap_request demo_leased)"
    by (simp add: forget_def acquire_lease_def requestExecutionLeaseUntil_def is_safe_int_def MAX_SAFE_INTEGER_def MAX_DATE_def
        demo_funded_def demo_leased_def demo_start_def rbind_def Let_def)
  then have "app_step demo_lc demo_funded demo_leased"
    using app_step.command [of "App_request (Op_acquire 5 ''req'' ''owner'' 30)" demo_lc demo_funded]
    by (simp add: demo_leased_def demo_funded_def)
  ultimately show ?thesis by (meson converse_rtranclp_into_rtranclp rtranclp.rtrancl_refl)
qed

lemma demo_typed: "list_all (\<lambda>r. is_safe_int (snd r)) (fr_routingRevisions (ai_routing (am_identity demo_command)))"
  by (simp add: demo_command_def demo_routing_def is_safe_int_def MAX_SAFE_INTEGER_def)

lemma demo_reaches_admitted: "(app_step demo_lc)\<^sup>*\<^sup>* demo_start demo_admitted"
proof -
  have "run_app demo_lc (App_admit demo_world demo_command 10 (''att'', ''res'')) demo_leased = demo_admitted"
    by (simp add: committed_def demo_admits)
  with app_step.command [of "App_admit demo_world demo_command 10 (''att'', ''res'')" demo_lc demo_leased] demo_typed
  have "app_step demo_lc demo_leased demo_admitted" by simp
  with demo_reaches_leased show ?thesis by (rule rtranclp.rtrancl_into_rtrancl)
qed

lemma demo_reaches_settled:
  "\<exists>t. settleFinalUsage demo_lc demo_settle Outcome_settled False None 30 (''be'', ''l1'') demo_admitted = Inr (demo_result, t)
     \<and> ap_request t = demo_settled_tables \<and> find_fact (ap_books t) ''att'' = Some demo_fact
     \<and> (app_step demo_lc)\<^sup>*\<^sup>* demo_start t"
proof -
  obtain t where t: "settleFinalUsage demo_lc demo_settle Outcome_settled False None 30 (''be'', ''l1'') demo_admitted = Inr (demo_result, t)"
    "ap_request t = demo_settled_tables" "find_fact (ap_books t) ''att'' = Some demo_fact"
    using demo_settles by blast
  then have "run_app demo_lc (App_settle demo_settle 30 (''be'', ''l1'')) demo_admitted = t" by (simp add: committed_def)
  with app_step.command [of "App_settle demo_settle 30 (''be'', ''l1'')" demo_lc demo_admitted]
  have "app_step demo_lc demo_admitted t" by simp
  with demo_reaches_admitted t show ?thesis by (blast intro: rtranclp.rtrancl_into_rtrancl)
qed

lemma demo_catalog: "catalog_ok (aw_prices demo_world)"
  by (auto simp: catalog_ok_def demo_world_def profile_nonneg_def price_nonneg_def demo_price_def split: if_splits)

end
