(* ===== verification/Commerce_Example.thy ===== *)
theory Commerce_Example
  imports Commerce_Runs Billing_Example
begin

section \<open>A run of commerce\<close>

text \<open>
  A product that is drafted, listed and bought from the funded account of the example of billing; then the purchase
  is either refunded or, when its hold is over, released to the seller. The theorems on runs of commerce are applied to it.
\<close>

definition shop_terms :: product_terms where
  "shop_terms = \<lparr>tr_displayName = ''Team'', tr_effect = ''team_create_unit'', tr_grantUnits = 1, tr_amount = 300, tr_duration = 86400,
     tr_maxPurchases = Some 1, tr_maxUnconsumed = None, tr_maxCurrentTeams = None, tr_maxCreatedTeams = None,
     tr_refundMode = ''unused_by_owner'', tr_refundDeadline = Some 3600, tr_settlementHold = 7200, tr_seller = ''team:s''\<rparr>"

definition shop_draft :: product where
  "shop_draft = \<lparr>pd_id = ''prod'', pd_code = ''unit'', pd_version = 1, pd_terms = shop_terms, pd_lifecycle = Draft_product,
     pd_createdBy = ''admin'', pd_createdAt = 10, pd_updatedAt = 10\<rparr>"

definition shop_listed :: product where
  "shop_listed = shop_draft\<lparr>pd_lifecycle := Listed_product, pd_updatedAt := 11\<rparr>"

definition shop_funded :: books where
  "shop_funded = post_entry demo_topup (empty_books\<lparr>accounts := [demo_account]\<rparr>)"

definition shop_new :: market where
  "shop_new = \<lparr>mk_app = demo_start, mk_products = [], mk_purchases = [], mk_refunds = [], mk_settlements = []\<rparr>"

definition shop_open :: market where
  "shop_open = (with_books shop_new shop_funded)\<lparr>mk_products := [shop_listed]\<rparr>"

definition shop_buy :: purchase_command where
  "shop_buy = \<lparr>pq_buyer = ''user'', pq_product = ''prod'', pq_key = ''k1'', pq_shapeJson = ''{}'', pq_effect = ''team_create_unit'',
     pq_unconsumed = 0\<rparr>"

definition shop_ids :: purchase_ids where
  "shop_ids = \<lparr>pi_account = ''acct2'', pi_purchase = ''pu'', pi_ledger = ''l1'', pi_settlement = ''s1''\<rparr>"

definition shop_purchase :: purchase where
  "shop_purchase = purchase_of shop_buy demo_account shop_listed ''pu'' ''k1'' ''{}'' 20"

definition shop_revenue :: settlement_row where
  "shop_revenue = purchase_revenue shop_purchase ''l1'' 7200020 ''s1''"

definition shop_sold :: market where
  "shop_sold = traded shop_open (purchase_charge shop_purchase ''l1'') shop_revenue [shop_purchase] []"

definition shop_receipt :: purchase_result where
  "shop_receipt = \<lparr>qr_purchase = shop_purchase, qr_ledgerId = ''l1'', qr_revenueId = ''s1'', qr_replayed = False\<rparr>"

definition shop_return :: refund_command where
  "shop_return = \<lparr>rd_purchase = ''pu'', rd_grant = ''g'', rd_actor = ''user'', rd_reason = ''customer_request'', rd_key = ''k2''\<rparr>"

definition shop_refund :: refund where
  "shop_refund = refund_of shop_return ''rf'' ''k2'' (refund_shape shop_return) 1000"

definition shop_return_ids :: refund_ids where
  "shop_return_ids = \<lparr>ri_refund = ''rf'', ri_ledger = ''l2'', ri_settlement = ''s2''\<rparr>"

definition shop_returned :: market where
  "shop_returned = traded shop_sold
     (refund_entry shop_purchase shop_refund (purchase_charge shop_purchase ''l1'') demo_account ''l2'')
     (refund_reversal shop_purchase shop_refund shop_revenue ''s2'') [] [shop_refund]"

definition shop_credit :: refund_result where
  "shop_credit = \<lparr>rt_refund = shop_refund, rt_ledgerId = ''l2'', rt_reversalId = ''s2'', rt_replayed = False\<rparr>"

definition shop_account :: credit_account where
  "shop_account = posted_account demo_topup 1000 demo_account"

lemma shop_key1: "hashRequired id ''k1'' = Inr ''k1''"
  by code_simp

lemma shop_key2: "hashRequired id ''k2'' = Inr ''k2''"
  by code_simp

lemma shop_code: "requiredCode ''unit'' = Inr ''unit''"
  by code_simp

lemma shop_name: "requiredText ''Team'' 120 = Inr ''Team''"
  by code_simp

lemma shop_seller: "isRuntimeScopeRef ''team:s''"
  by code_simp

lemmas shop_texts = shop_key1 shop_key2 shop_code shop_name shop_seller

lemma shop_valid: "validateAuthorityProductTerms shop_terms = Inr shop_terms"
  by (simp add: validateAuthorityProductTerms_def shop_terms_def shop_texts rbind_def require_def check_values_def bounded_value_def
      boundedBigInt_def optionalBounded_def is_safe_int_def MAX_SAFE_INTEGER_def refund_terms_valid_def effect_terms_valid_def)

lemma shop_drafts:
  "createAuthorityProductVersion shop_terms ''unit'' ''admin'' 10 ''prod'' (with_books shop_new shop_funded)
     = Inr (shop_draft, (with_books shop_new shop_funded)\<lparr>mk_products := [shop_draft]\<rparr>)"
  unfolding createAuthorityProductVersion_def shop_valid shop_texts
  by (simp add: tx_bind_def tx_lift_def looking_def rbind_def next_version_def
      shop_new_def insert_product_def productSnapshot_def safeNumber_def is_safe_int_def MAX_SAFE_INTEGER_def shop_draft_def
      shop_terms_def with_books_def)

lemma shop_lists:
  "listAuthorityProductVersion ''prod'' 11 ((with_books shop_new shop_funded)\<lparr>mk_products := [shop_draft]\<rparr>) = Inr (shop_listed, shop_open)"
  by (simp add: listAuthorityProductVersion_def tx_bind_def tx_lift_def tx_return_def looking_def rbind_def product_in_def
      find_product_def shop_draft_def require_def previous_listed_def update_product_def product_update_allowed_def
      lifecycle_allowed_def listed_def productSnapshot_def safeNumber_def is_safe_int_def MAX_SAFE_INTEGER_def shop_terms_def
      shop_listed_def shop_open_def shop_new_def with_books_def)

lemma shop_accounts: "accounts shop_funded = [shop_account]" "reservations shop_funded = []" "ledger shop_funded = [demo_topup]"
  by (simp_all add: shop_funded_def post_entry_def empty_books_def shop_account_def posted_account_def demo_account_def demo_topup_def)

lemma shop_account_rows: "ca_id shop_account = ''acct''" "ca_scope shop_account = ''user:user''" "ca_status shop_account = ''active''"
  "ca_balance shop_account = 1000"
  by (simp_all add: shop_account_def posted_account_def demo_account_def)

lemma shop_open_rows: "mk_books shop_open = shop_funded" "mk_products shop_open = [shop_listed]" "mk_purchases shop_open = []"
  "mk_refunds shop_open = []" "mk_settlements shop_open = []"
  by (simp_all add: shop_open_def shop_new_def with_books_def)

lemma shop_purchase_rows: "pu_id shop_purchase = ''pu''" "pu_account shop_purchase = ''acct''" "pu_terms shop_purchase = shop_terms"
  "pu_buyer shop_purchase = ''user''" "pu_createdAt shop_purchase = 20" "pu_requestHash shop_purchase = ''{}''"
  by (simp_all add: shop_purchase_def purchase_of_def shop_buy_def demo_account_def shop_listed_def shop_draft_def)

lemma shop_purchasable: "purchasable shop_buy shop_open = Inr (shop_account, shop_listed)"
  by (simp add: purchasable_def account_of_scope_def find_product_def shop_open_rows shop_accounts shop_account_rows shop_buy_def
      shop_listed_def shop_draft_def listed_def shop_terms_def lifetime_purchases_def rbind_def held_units_def)

lemma shop_charge_rows: "lv_account (purchase_charge shop_purchase ''l1'') = ''acct''" "lv_amount (purchase_charge shop_purchase ''l1'') = - 300"
  "lv_id (purchase_charge shop_purchase ''l1'') = ''l1''" "lv_type (purchase_charge shop_purchase ''l1'') = ''authority_purchase''"
  "lv_purchase (purchase_charge shop_purchase ''l1'') = Some ''pu''"
  by (simp_all add: purchase_charge_def shop_purchase_rows shop_terms_def)

text \<open>A posting that is not refused is the posting of the other writers.\<close>

lemma post_money_runs:
  assumes "insert_ledger_event e (mk_books s) = Inr ((), b)" "find_account (mk_books s) (lv_account e) = Some a"
    "distinct (map ca_id (accounts (mk_books s)))"
  shows "post_money e (ca_balance a + lv_amount e) s = Inr ((), with_books s (post_entry e (mk_books s)))"
proof -
  from assms(1) have b: "b = (mk_books s)\<lparr>ledger := ledger (mk_books s) @ [e]\<rparr>"
    by (auto simp: insert_ledger_event_def split: if_splits)
  from find_key_SomeD [OF assms(2) [unfolded find_account_def]] have a: "a \<in> set (accounts (mk_books s))" "ca_id a = lv_account e" by simp_all
  with assms(3) have "y = a" if "y \<in> set (accounts (mk_books s))" "ca_id y = lv_account e" for y
    using inj_onD [of ca_id "set (accounts (mk_books s))" y a] that by (simp add: distinct_map)
  then have "map (\<lambda>y. if ca_id y = lv_account e then posted_account e (ca_balance a + lv_amount e) y else y) (accounts (mk_books s))
    = accounts (post_entry e (mk_books s))"
    by (auto simp: post_entry_def posted_account_def)
  moreover have "list_ex (\<lambda>y. ca_id y = lv_account e) (accounts (mk_books s))" using a by (auto simp: list_ex_iff)
  ultimately show ?thesis
    using assms(1,2) unfolding b
    by (simp add: post_money_def tx_bind_def on_money_def rbind_def update_account_def find_account_def with_books_def)
      (simp add: post_entry_def)
qed

lemma shop_posts:
  "post_money (purchase_charge shop_purchase ''l1'') 700 (shop_open\<lparr>mk_purchases := [shop_purchase]\<rparr>)
     = Inr ((), (with_books shop_open (post_entry (purchase_charge shop_purchase ''l1'') shop_funded))\<lparr>mk_purchases := [shop_purchase]\<rparr>)"
proof -
  have "insert_ledger_event (purchase_charge shop_purchase ''l1'') shop_funded
     = Inr ((), shop_funded\<lparr>ledger := ledger shop_funded @ [purchase_charge shop_purchase ''l1'']\<rparr>)"
    by (simp add: insert_ledger_event_def shop_accounts shop_charge_rows demo_topup_def)
  with post_money_runs [of "purchase_charge shop_purchase ''l1''" "shop_open\<lparr>mk_purchases := [shop_purchase]\<rparr>" _ shop_account]
  show ?thesis by (simp add: shop_open_rows shop_accounts shop_account_rows shop_charge_rows with_books_def find_account_def)
qed

lemma shop_buys: "purchaseAuthorityProductFinancialFacts id shop_buy 20 shop_ids shop_open = Inr (shop_receipt, shop_sold)"
proof -
  have ensured: "ensure_account (''user:'' @ pq_buyer shop_buy) (pi_account shop_ids) 20 shop_funded = Inr ((), shop_funded)"
    by (simp add: ensure_account_def shop_accounts shop_account_rows shop_buy_def)
  have same: "shop_open\<lparr>mk_app := (mk_app shop_open)\<lparr>ap_books := shop_funded\<rparr>\<rparr> = shop_open"
    by (simp add: shop_open_def with_books_def shop_new_def)
  have p: "purchase_of shop_buy shop_account shop_listed ''pu'' ''k1'' ''{}'' 20 = shop_purchase"
    by (simp add: shop_purchase_def purchase_of_def shop_account_rows demo_account_def)
  have amount: "ca_balance shop_account - tr_amount (pd_terms shop_listed) = 700" "tr_settlementHold (pd_terms shop_listed) = 7200"
    by (simp_all add: shop_account_rows shop_listed_def shop_draft_def shop_terms_def)
  have inserted: "insert_purchase shop_purchase shop_open = Inr ((), shop_open\<lparr>mk_purchases := [shop_purchase]\<rparr>)"
    by (simp add: insert_purchase_def shop_open_rows)
  have snapshot: "purchaseSnapshot shop_purchase = Inr shop_purchase"
    by (simp add: purchaseSnapshot_def shop_purchase_rows shop_terms_def safeNumber_def is_safe_int_def MAX_SAFE_INTEGER_def rbind_def)
  have command: "pq_key shop_buy = ''k1''" "pq_shapeJson shop_buy = ''{}''" "pi_purchase shop_ids = ''pu''" "pi_ledger shop_ids = ''l1''"
    "pi_settlement shop_ids = ''s1''" by (simp_all add: shop_buy_def shop_ids_def)
  show ?thesis
    unfolding purchaseAuthorityProductFinancialFacts_def command shop_texts tx_bind_def
    by (simp add: tx_lift_def looking_def rbind_def prior_purchase_def shop_open_rows on_money_def ensured [simplified] same
        shop_purchasable tx_bind_def p inserted amount shop_posts addSeconds_def MAX_DATE_def insert_settlement_def with_books_def
        snapshot shop_receipt_def tx_return_def shop_sold_def traded_def shop_revenue_def Let_def)
qed

definition shop_paid :: credit_account where
  "shop_paid = posted_account (purchase_charge shop_purchase ''l1'') 700 shop_account"

lemma shop_sold_rows: "accounts (mk_books shop_sold) = [shop_paid]" "mk_purchases shop_sold = [shop_purchase]" "mk_refunds shop_sold = []"
  "mk_settlements shop_sold = [shop_revenue]" "ledger (mk_books shop_sold) = [demo_topup, purchase_charge shop_purchase ''l1'']"
  by (simp_all add: shop_sold_def shop_open_rows shop_accounts post_entry_def shop_charge_rows shop_paid_def posted_account_def
      shop_account_rows)

lemma shop_paid_rows: "ca_id shop_paid = ''acct''" "ca_balance shop_paid = 700"
  by (simp_all add: shop_paid_def posted_account_def shop_account_rows)

lemma shop_revenue_rows: "sr_id shop_revenue = ''s1''" "sr_purchase shop_revenue = Some ''pu''" "sr_type shop_revenue = Revenue"
  "sr_releaseAt shop_revenue = 7200020" "sr_sourceType shop_revenue = ''authority_purchase''"
  by (simp_all add: shop_revenue_def purchase_revenue_def shop_purchase_rows)

lemma shop_topup_rows: "lv_id demo_topup = ''l0''" "lv_type demo_topup = ''topup''" "lv_purchase demo_topup = None"
  by (simp_all add: demo_topup_def)

lemma shop_refundable: "refundable shop_purchase 1000 shop_sold = Inr (shop_revenue, purchase_charge shop_purchase ''l1'', shop_paid)"
  by (simp add: refundable_def refund_open_def shop_purchase_rows shop_terms_def addSeconds_def MAX_DATE_def rbind_def require_def
      settlements_of_def shop_sold_rows shop_revenue_rows purchase_entry_def shop_topup_rows shop_charge_rows find_account_def
      shop_paid_rows)

lemma shop_refund_rows: "rf_id shop_refund = ''rf''" "rf_purchase shop_refund = ''pu''" "rf_createdAt shop_refund = 1000"
  by (simp_all add: shop_refund_def refund_of_def shop_return_def)

lemma shop_returns:
  "refundAuthorityPurchaseFinancialFacts id shop_return 1000 shop_return_ids shop_sold = Inr (shop_credit, shop_returned)"
proof -
  let ?e = "refund_entry shop_purchase shop_refund (purchase_charge shop_purchase ''l1'') demo_account ''l2''"
  let ?x = "refund_reversal shop_purchase shop_refund shop_revenue ''s2''"
  have e: "lv_id ?e = ''l2''" "lv_account ?e = ''acct''" "lv_amount ?e = 300" "lv_type ?e = ''reversal''" "lv_purchase ?e = Some ''pu''"
    by (simp_all add: refund_entry_def demo_account_def shop_purchase_rows shop_terms_def)
  have x: "sr_id ?x = ''s2''" "sr_type ?x = Reversal" "sr_purchase ?x = Some ''pu''"
    by (simp_all add: refund_reversal_def shop_purchase_rows)
  have entry: "refund_entry shop_purchase shop_refund (purchase_charge shop_purchase ''l1'') shop_paid ''l2'' = ?e"
    by (simp add: refund_entry_def shop_paid_rows demo_account_def)
  have refund: "refund_of shop_return ''rf'' ''k2'' (refund_shape shop_return) 1000 = shop_refund" by (simp add: shop_refund_def)
  have found: "find_purchase shop_sold ''pu'' = Some shop_purchase"
    by (simp add: find_purchase_def shop_sold_rows shop_purchase_rows)
  have inserted: "insert_refund shop_refund shop_sold = Inr ((), shop_sold\<lparr>mk_refunds := [shop_refund]\<rparr>)"
    by (simp add: insert_refund_def shop_sold_rows)
  have "insert_ledger_event ?e (mk_books shop_sold) = Inr ((), (mk_books shop_sold)\<lparr>ledger := ledger (mk_books shop_sold) @ [?e]\<rparr>)"
    by (simp add: insert_ledger_event_def shop_sold_rows e shop_topup_rows shop_charge_rows)
  with post_money_runs [of ?e "shop_sold\<lparr>mk_refunds := [shop_refund]\<rparr>" _ shop_paid]
  have posted: "post_money ?e 1000 (shop_sold\<lparr>mk_refunds := [shop_refund]\<rparr>)
    = Inr ((), with_books (shop_sold\<lparr>mk_refunds := [shop_refund]\<rparr>) (post_entry ?e (mk_books shop_sold)))"
    by (simp add: shop_sold_rows shop_paid_rows e find_account_def)
  have amount: "ca_balance shop_paid + tr_amount (pu_terms shop_purchase) = 1000"
    by (simp add: shop_paid_rows shop_purchase_rows shop_terms_def)
  have written: "insert_settlement ?x (with_books (shop_sold\<lparr>mk_refunds := [shop_refund]\<rparr>) (post_entry ?e (mk_books shop_sold)))
    = Inr ((), shop_returned)"
    by (simp add: insert_settlement_def shop_sold_rows x shop_revenue_rows shop_returned_def traded_def with_books_def)
  have command: "rd_key shop_return = ''k2''" "rd_purchase shop_return = ''pu''" "ri_refund shop_return_ids = ''rf''"
    "ri_ledger shop_return_ids = ''l2''" "ri_settlement shop_return_ids = ''s2''" "rd_reason shop_return = ''customer_request''"
    by (simp_all add: shop_return_def shop_return_ids_def)
  show ?thesis
    unfolding refundAuthorityPurchaseFinancialFacts_def command shop_texts tx_bind_def
    by (simp add: tx_lift_def looking_def rbind_def requireRefundReason_def require_def refund_by_key_def shop_sold_rows found
        refund_of_purchase_def shop_refundable tx_bind_def refund inserted entry amount posted written shop_credit_def tx_return_def Let_def)
qed

subsection \<open>A release\<close>

definition shop_window :: release_window where
  "shop_window = \<lparr>rw_purchase = ''pu'', rw_seller = ''team:s'', rw_start = 20, rw_startText = ''1970-01-01T00:00:00.020Z''\<rparr>"

definition shop_release_ids :: release_ids where
  "shop_release_ids = \<lparr>le_settlement = ''s3'', le_account = ''acct3'', le_ledger = ''l3''\<rparr>"

definition shop_seller_account :: credit_account where
  "shop_seller_account = \<lparr>ca_id = ''acct3'', ca_scope = ''team:s'', ca_status = ''active'', ca_balance = 0, ca_snapEvent = None,
     ca_updatedAt = 7200020\<rparr>"

definition shop_with_seller :: books where
  "shop_with_seller = (mk_books shop_sold)\<lparr>accounts := accounts (mk_books shop_sold) @ [shop_seller_account]\<rparr>"

definition shop_released :: market where
  "shop_released = traded (with_books shop_sold shop_with_seller) (release_entry shop_window ''acct3'' 300 ''l3'' 7200020)
     (release_row shop_window [shop_revenue] 300 ''s3'' 7200020) [] []"

lemma shop_window_rows: "window_rows shop_window shop_sold = [shop_revenue]"
  by (simp add: window_rows_def shop_sold_rows shop_window_def shop_revenue_def purchase_revenue_def shop_purchase_rows shop_terms_def)

lemma shop_window_units: "net_units [shop_revenue] = 300" "released_units [shop_revenue] = 0"
  by (simp_all add: net_units_def released_units_def shop_revenue_def purchase_revenue_def shop_purchase_rows shop_terms_def)

lemma shop_pays_seller:
  "pay_seller shop_window 300 7200020 shop_release_ids (shop_sold\<lparr>mk_settlements := mk_settlements shop_sold @
       [release_row shop_window [shop_revenue] 300 ''s3'' 7200020]\<rparr>) = Inr ((), shop_released)"
proof -
  let ?e = "release_entry shop_window ''acct3'' 300 ''l3'' 7200020" and ?x = "release_row shop_window [shop_revenue] 300 ''s3'' 7200020"
  let ?s = "shop_sold\<lparr>mk_settlements := mk_settlements shop_sold @ [?x]\<rparr>"
  have names: "rw_seller shop_window = ''team:s''" "le_account shop_release_ids = ''acct3''" "le_ledger shop_release_ids = ''l3''"
    by (simp_all add: shop_window_def shop_release_ids_def)
  have scope: "ca_scope shop_paid = ''user:user''" by (simp add: shop_paid_def posted_account_def shop_account_rows)
  have ensured: "ensure_account ''team:s'' ''acct3'' 7200020 (mk_books shop_sold) = Inr ((), shop_with_seller)"
    by (simp add: ensure_account_def shop_sold_rows scope shop_paid_rows shop_with_seller_def shop_seller_account_def)
  have rows: "accounts shop_with_seller = [shop_paid, shop_seller_account]" "ledger shop_with_seller = ledger (mk_books shop_sold)"
    by (simp_all add: shop_with_seller_def shop_sold_rows)
  have seller: "ca_id shop_seller_account = ''acct3''" "ca_scope shop_seller_account = ''team:s''" "ca_status shop_seller_account = ''active''"
    "ca_balance shop_seller_account = 0" by (simp_all add: shop_seller_account_def)
  have found: "account_of_scope shop_with_seller ''team:s'' = Some shop_seller_account"
    by (simp add: account_of_scope_def rows scope seller)
  have e: "lv_id ?e = ''l3''" "lv_account ?e = ''acct3''" "lv_amount ?e = 300" "lv_type ?e = ''seller_settlement_release''"
    "lv_purchase ?e = Some ''pu''"
    by (simp_all add: release_entry_def shop_window_def)
  have "insert_ledger_event ?e shop_with_seller = Inr ((), shop_with_seller\<lparr>ledger := ledger shop_with_seller @ [?e]\<rparr>)"
    by (simp add: insert_ledger_event_def rows shop_sold_rows e shop_topup_rows shop_charge_rows)
  with post_money_runs [of ?e "with_books ?s shop_with_seller" _ shop_seller_account]
  have "post_money ?e 300 (with_books ?s shop_with_seller)
    = Inr ((), with_books (with_books ?s shop_with_seller) (post_entry ?e shop_with_seller))"
    by (simp add: rows e seller shop_paid_rows find_account_def)
  also have "with_books (with_books ?s shop_with_seller) (post_entry ?e shop_with_seller) = shop_released"
    by (simp add: shop_released_def traded_def with_books_def)
  finally have posted: "post_money ?e 300 (with_books ?s shop_with_seller) = Inr ((), shop_released)" .
  show ?thesis
    unfolding pay_seller_def names tx_bind_def
    by (simp add: on_money_def rbind_def ensured looking_def found seller posted [unfolded with_books_def, simplified])
qed

lemma shop_releases: "releaseDueSellerSettlements 7200020 [(shop_window, shop_release_ids)] shop_sold = Inr (300, shop_released)"
proof -
  let ?x = "release_row shop_window [shop_revenue] 300 ''s3'' 7200020"
  have x: "sr_id ?x = ''s3''" "sr_type ?x = Release" "sr_purchase ?x = Some ''pu''" "sr_sourceType ?x = ''settlement_window''"
    by (simp_all add: release_row_def shop_window_def)
  have inserted: "insert_or_skip ?x shop_sold = Inr (True, shop_sold\<lparr>mk_settlements := mk_settlements shop_sold @ [?x]\<rparr>)"
    by (simp add: insert_or_skip_def insert_settlement_def shop_sold_rows x shop_revenue_rows)
  have id: "le_settlement shop_release_ids = ''s3''" by (simp add: shop_release_ids_def)
  have "release_window_units shop_window 7200020 shop_release_ids shop_sold = Inr (300, shop_released)"
    by (simp add: release_window_units_def tx_bind_def looking_def rbind_def shop_window_rows shop_revenue_rows tx_lift_def
        safePostgresInteger_def shop_window_units is_safe_int_def MAX_SAFE_INTEGER_def Let_def id inserted shop_pays_seller tx_return_def)
  then show ?thesis by (simp add: tx_bind_def rbind_def tx_return_def)
qed

subsection \<open>The run\<close>

lemma shop_is_new: "new_market shop_new"
  by (simp add: new_market_def shop_new_def demo_new)

lemma shop_reaches_funded: "(market_step demo_lc id)\<^sup>*\<^sup>* shop_new (with_books shop_new shop_funded)"
proof -
  let ?b = "empty_books\<lparr>accounts := [demo_account]\<rparr>"
  have start: "mk_app shop_new = demo_start" "ap_books demo_start = empty_books" by (simp_all add: shop_new_def demo_start_def)
  have "other_writer empty_books ?b"
    using other_writer.new_account [of demo_account empty_books] by (simp add: empty_books_def demo_account_def)
  then have "app_step demo_lc demo_start (demo_start\<lparr>ap_books := ?b\<rparr>)" using app_step.other [of demo_start ?b] by (simp add: start)
  moreover have "ledger_grows empty_books ?b" by (simp add: ledger_grows_def empty_books_def account_names_def)
  ultimately have "market_step demo_lc id shop_new (with_books shop_new ?b)"
    using market_step.billing [of demo_lc shop_new "demo_start\<lparr>ap_books := ?b\<rparr>" id] by (simp add: start with_books_def)
  moreover
  have "other_writer ?b shop_funded"
    using other_writer.posting [of demo_topup ?b] by (simp add: shop_funded_def empty_books_def demo_topup_def)
  then have "app_step demo_lc (demo_start\<lparr>ap_books := ?b\<rparr>) (demo_start\<lparr>ap_books := shop_funded\<rparr>)"
    using app_step.other [of "demo_start\<lparr>ap_books := ?b\<rparr>" shop_funded] by simp
  moreover have "ledger_grows ?b shop_funded"
    by (simp add: ledger_grows_def shop_accounts shop_account_rows demo_account_def demo_topup_def empty_books_def account_names_def
        shop_account_def posted_account_def)
  ultimately have "market_step demo_lc id (with_books shop_new ?b) (with_books shop_new shop_funded)"
    using market_step.billing [of demo_lc "with_books shop_new ?b" "demo_start\<lparr>ap_books := shop_funded\<rparr>" id]
    by (simp add: start with_books_def)
  then show ?thesis
    using \<open>market_step demo_lc id shop_new (with_books shop_new ?b)\<close> by (meson converse_rtranclp_into_rtranclp rtranclp.rtrancl_refl)
qed

lemma shop_trade: "run_market id op s = t \<Longrightarrow> market_step demo_lc id s t"
  using market_step.trade [of demo_lc id s op] by simp

lemma shop_reaches_open: "(market_step demo_lc id)\<^sup>*\<^sup>* shop_new shop_open"
proof -
  let ?s = "with_books shop_new shop_funded"
  have "market_step demo_lc id ?s (?s\<lparr>mk_products := [shop_draft]\<rparr>)"
    by (rule shop_trade [where op = "Market_create shop_terms ''unit'' ''admin'' 10 ''prod''"])
      (simp add: market_committed_def shop_drafts)
  moreover have "market_step demo_lc id (?s\<lparr>mk_products := [shop_draft]\<rparr>) shop_open"
    by (rule shop_trade [where op = "Market_list ''prod'' 11"]) (simp add: market_committed_def shop_lists)
  ultimately show ?thesis using shop_reaches_funded by (meson rtranclp.rtrancl_into_rtrancl)
qed

lemma shop_sale: "market_step demo_lc id shop_open shop_sold"
  by (rule shop_trade [where op = "Market_purchase shop_buy 20 shop_ids"]) (simp add: market_committed_def shop_buys)

lemma shop_reaches_sold: "(market_step demo_lc id)\<^sup>*\<^sup>* shop_new shop_sold"
  using shop_reaches_open shop_sale by (rule rtranclp.rtrancl_into_rtrancl)

lemma shop_return_step: "market_step demo_lc id shop_sold shop_returned"
  by (rule shop_trade [where op = "Market_refund shop_return 1000 shop_return_ids"]) (simp add: market_committed_def shop_returns)

lemma shop_reaches_returned: "(market_step demo_lc id)\<^sup>*\<^sup>* shop_new shop_returned"
  using shop_reaches_sold shop_return_step by (rule rtranclp.rtrancl_into_rtrancl)

lemma shop_release_step: "market_step demo_lc id shop_sold shop_released"
  by (rule shop_trade [where op = "Market_release 7200020 [(shop_window, shop_release_ids)]"])
    (simp only: run_market.simps market_committed_def shop_releases sum.case prod.case)

lemma shop_reaches_released: "(market_step demo_lc id)\<^sup>*\<^sup>* shop_new shop_released"
  using shop_reaches_sold shop_release_step by (rule rtranclp.rtrancl_into_rtrancl)

end
