(* ===== verification/Commerce_Theorems.thy ===== *)
theory Commerce_Theorems
  imports Commerce_Example
begin

section \<open>What commerce guarantees\<close>

text \<open>
  Theorems on every state that runs of commerce and billing reach: the money of a purchase, what a purchase needs
  and changes, its replay, a refund, and the tranches of a plan.
\<close>

subsection \<open>The rows of a purchase\<close>

lemma first_rows:
  assumes "market_ok s" "p \<in> set (mk_purchases s)"
  shows "purchaseResult p replayed s =
      rbind (purchaseSnapshot p) (\<lambda>snapshot.
        Inr \<lparr>qr_purchase = snapshot, qr_ledgerId = lv_id (hd (entries_of s (pu_id p))), qr_revenueId = sr_id (hd (settlements_of s (pu_id p))),
             qr_replayed = replayed\<rparr>)"
    "entries_of s (pu_id p) \<noteq> []" "settlements_of s (pu_id p) \<noteq> []"
proof -
  have "money_rows (account_names (mk_books s)) p (refund_of_purchase s (pu_id p)) (entries_of s (pu_id p)) (settlements_of s (pu_id p))"
    using assms by (simp add: market_ok_def purchase_ok_def)
  then obtain e x es xs where rows: "charge_for p e" "revenue_for p e x" "entries_of s (pu_id p) = e # es" "settlements_of s (pu_id p) = x # xs"
    unfolding money_rows_def by (auto split: option.splits)
  then show "purchaseResult p replayed s =
      rbind (purchaseSnapshot p) (\<lambda>snapshot.
        Inr \<lparr>qr_purchase = snapshot, qr_ledgerId = lv_id (hd (entries_of s (pu_id p))), qr_revenueId = sr_id (hd (settlements_of s (pu_id p))),
             qr_replayed = replayed\<rparr>)"
    by (simp add: purchaseResult_def purchase_entry_rows purchase_settlement_rows charge_for_def revenue_for_def)
  show "entries_of s (pu_id p) \<noteq> []" "settlements_of s (pu_id p) \<noteq> []" by (simp_all add: rows)
qed

lemma hd_prefix: "prefix xs ys \<Longrightarrow> xs \<noteq> [] \<Longrightarrow> hd ys = hd xs"
  by (auto simp: prefix_def)

text \<open>What is recorded of a purchase that returned, in the state after it.\<close>

lemma purchase_recorded:
  assumes "purchaseAuthorityProductFinancialFacts sha c now ids s = Inr (q, t)" "market_ok s"
  obtains keyHash where "hashRequired sha (pq_key c) = Inr keyHash" "prior_purchase t (pq_buyer c) keyHash = Some (qr_purchase q)"
    "pu_requestHash (qr_purchase q) = sha (pq_shapeJson c)" "purchaseResult (qr_purchase q) True t = Inr (q\<lparr>qr_replayed := True\<rparr>)"
proof -
  have ok: "market_ok t" using purchase_good [OF assms] by (simp add: market_good_def)
  from assms(1) show thesis
  proof (cases rule: purchase_Inr)
    case (replay keyHash p)
    have "qr_purchase q = p" "qr_replayed q" using replay(4)
      by (auto simp: purchaseResult_def purchaseSnapshot_def effects split: option.splits)
    with replay show thesis by (intro that [of keyHash]) simp_all
  next
    case (new keyHash b a d p s2 s3 releaseAt)
    note state = purchase_new_state [OF assms(2) new(3-9)]
    have fields: "pu_buyer p = pq_buyer c" "pu_keyHash p = keyHash" "pu_requestHash p = sha (pq_shapeJson c)"
      by (simp_all add: new(5) purchase_of_def)
    have in_t: "p \<in> set (mk_purchases t)" by (simp add: state(1))
    have "prior_purchase t (pq_buyer c) keyHash = Some p"
      using new(2) by (simp add: prior_purchase_def state(1) find_append fields)
    moreover have "hd (entries_of t (pu_id p)) = purchase_charge p (pi_ledger ids)"
      "hd (settlements_of t (pu_id p)) = purchase_revenue p (pi_ledger ids) releaseAt (pi_settlement ids)"
      by (simp_all add: state(4,5))
    ultimately show thesis
      using new(1,10,11) fields first_rows(1) [OF ok in_t]
      by (intro that [of keyHash]) (simp_all add: purchase_charge_def purchase_revenue_def)
  qed
qed

lemma purchase_answer_lasts:
  assumes "prior_purchase t buyer keyHash = Some p" "purchaseResult p True t = Inr q" "market_ok t" "market_ok u" "market_evolve t u"
  shows "prior_purchase u buyer keyHash = Some p" "purchaseResult p True u = Inr q"
proof -
  have grows: "prefix (mk_purchases t) (mk_purchases u)" "prefix (entries_of t (pu_id p)) (entries_of u (pu_id p))"
    "prefix (settlements_of t (pu_id p)) (settlements_of u (pu_id p))"
    using assms(5) by (simp_all add: market_evolve_def)
  show "prior_purchase u buyer keyHash = Some p"
    using find_prefix [OF grows(1)] assms(1) by (simp add: prior_purchase_def)
  have p: "p \<in> set (mk_purchases t)" using assms(1) by (auto simp: prior_purchase_def find_Some_iff)
  with grows(1) have "p \<in> set (mk_purchases u)" using set_mono_prefix by blast
  then show "purchaseResult p True u = Inr q"
    using assms(2) first_rows [OF assms(3) p] first_rows(1) [OF assms(4)] grows(2,3) by (simp add: hd_prefix)
qed

subsection \<open>Balances\<close>

lemma balances_after_posting:
  "map_option ca_balance (find_account (post_entry e b) i)
     = (if i = lv_account e then map_option (\<lambda>a. ca_balance a + lv_amount e) (find_account b i)
        else map_option ca_balance (find_account b i))"
  by (simp add: find_after_posting option.map_comp o_def posted_account_def)

lemma held_nonnegative: "market_ok s \<Longrightarrow> 0 \<le> held_units (mk_books s) i"
  unfolding held_units_def
  by (rule sum_list_nonneg) (auto simp: market_ok_def app_ok_def books_ok_def occupied_def hold_ok_def)

text \<open>Nothing can be bought with a new account, so a purchase that returns found the account of its buyer.\<close>

lemma purchase_account_known:
  assumes "ensure_account (''user:'' @ buyer) fresh now (mk_books s) = Inr (x, b)" "market_ok s"
    "account_of_scope b (''user:'' @ buyer) = Some a" "0 < ca_balance a - held_units b (ca_id a)"
  shows "b = mk_books s"
proof (rule ccontr)
  assume "b \<noteq> mk_books s"
  with assms(1,3) have "ca_balance a = 0"
    by (auto simp: ensure_account_def account_of_scope_def list_ex_iff find_append find_None_iff [THEN iffD2] split: if_splits)
  moreover have "held_units b (ca_id a) = held_units (mk_books s) (ca_id a)"
    by (simp add: held_units_def ensure_account_Inr(3) [OF assms(1,2)])
  ultimately show False using assms(4) held_nonnegative [OF assms(2), of "ca_id a"] by simp
qed

lemma purchase_balances:
  assumes "purchaseAuthorityProductFinancialFacts sha c now ids s = Inr (q, t)" "\<not> qr_replayed q" "market_ok s"
  obtains a d where "account_of_scope (mk_books s) (''user:'' @ pq_buyer c) = Some a" "ca_status a = ''active''"
    "find_product s (pq_product c) = Some d" "listed d" "pu_terms (qr_purchase q) = pd_terms d"
    "tr_amount (pd_terms d) \<le> ca_balance a - held_units (mk_books s) (ca_id a)"
    "\<And>i. map_option ca_balance (find_account (mk_books t) i)
       = (if i = ca_id a then Some (ca_balance a - tr_amount (pd_terms d)) else map_option ca_balance (find_account (mk_books s) i))"
    "mk_purchases t = mk_purchases s @ [qr_purchase q]"
    "\<And>m. tr_maxPurchases (pd_terms d) = Some m \<Longrightarrow> lifetime_purchases t (pq_buyer c) (pd_code d) \<le> m"
  using assms(1)
proof (cases rule: purchase_Inr)
  case (replay keyHash p)
  with assms(2) have False by (auto simp: purchaseResult_def effects split: option.splits)
  then show thesis ..
next
  case (new keyHash b a d p s2 s3 releaseAt)
  note buy = purchasable_Inr [OF new(4)]
  note state = purchase_new_state [OF assms(3) new(3-9)]
  note effect = new_purchase_effect [OF assms(3) new(3-7,9)]
  from buy(3) assms(3) have "valid_terms (pd_terms d)"
    by (auto simp: market_ok_def catalogue_ok_def find_product_def dest: find_key_SomeD)
  from valid_terms_values(1) [OF this] buy(6) have "0 < ca_balance a - held_units b (ca_id a)" by simp
  from purchase_account_known [OF new(3) assms(3) _ this] buy(1) have b: "b = mk_books s" by simp
  have account: "pu_account p = ca_id a" "pu_buyer p = pq_buyer c" "pu_code p = pd_code d" by (simp_all add: new(5) purchase_of_def)
  show thesis
  proof (rule that [of a d])
    show "map_option ca_balance (find_account (mk_books t) i)
       = (if i = ca_id a then Some (ca_balance a - tr_amount (pd_terms d)) else map_option ca_balance (find_account (mk_books s) i))" for i
      using effect(5,8) by (auto simp: state(1) balances_after_posting b account purchase_charge_def)
    show "lifetime_purchases t (pq_buyer c) (pd_code d) \<le> m" if "tr_maxPurchases (pd_terms d) = Some m" for m
      using buy(7) [OF that] by (simp add: lifetime_purchases_def state(1) account)
  qed (use buy b state(1) effect(8) new(10) in simp_all)
qed

subsection \<open>Theorems\<close>

text \<open>The entries of a purchase on the side of its buyer, and those that pay its seller.\<close>

definition seller_entry :: "ledger_event \<Rightarrow> bool" where
  "seller_entry e \<longleftrightarrow> lv_type e = ''seller_settlement_release''"

definition buyer_entries :: "market \<Rightarrow> string \<Rightarrow> ledger_event list" where
  "buyer_entries s i = filter (\<lambda>e. \<not> seller_entry e) (entries_of s i)"

definition seller_entries :: "market \<Rightarrow> string \<Rightarrow> ledger_event list" where
  "seller_entries s i = filter seller_entry (entries_of s i)"

definition units_of :: "ledger_event list \<Rightarrow> int" where
  "units_of es = sum_list (map lv_amount es)"

text \<open>
  C6: In every state that commands of commerce, releases to sellers and commands of billing reach, in any order and
  beside the other writers, a purchase has the terms of the product that was listed under its code and version, at
  a positive price. The entries of the ledger on its buyer's side are all on the account that paid, and take from it
  exactly the price, or after a refund exactly nothing. The seller's net revenue is the price, or after a refund
  nothing. What was paid out to the seller is the whole price in one entry on an account of the seller, or nothing,
  and never both paid out and refunded.
\<close>

theorem purchase_money_exact:
  assumes "new_market m" "(market_step lc sha)\<^sup>*\<^sup>* m s" "p \<in> set (mk_purchases s)"
  shows "(\<exists>d. find_product s (pu_product p) = Some d \<and> pd_lifecycle d \<noteq> Draft_product \<and> pu_terms p = pd_terms d
        \<and> pu_code p = pd_code d \<and> pu_version p = pd_version d)
    \<and> 0 < tr_amount (pu_terms p)
    \<and> (\<forall>e \<in> set (buyer_entries s (pu_id p)). lv_account e = pu_account p)
    \<and> units_of (buyer_entries s (pu_id p)) = (if refund_of_purchase s (pu_id p) = None then - tr_amount (pu_terms p) else 0)
    \<and> net_units (settlements_of s (pu_id p)) = (if refund_of_purchase s (pu_id p) = None then tr_amount (pu_terms p) else 0)
    \<and> released_units (settlements_of s (pu_id p)) = units_of (seller_entries s (pu_id p))
    \<and> (seller_entries s (pu_id p) = []
        \<or> (\<exists>e. seller_entries s (pu_id p) = [e] \<and> lv_amount e = tr_amount (pu_terms p)
             \<and> (\<exists>a \<in> set (accounts (mk_books s)). ca_id a = lv_account e \<and> ca_scope a = tr_seller (pu_terms p))
             \<and> pu_createdAt p + tr_settlementHold (pu_terms p) * 1000 \<le> lv_createdAt e
             \<and> refund_of_purchase s (pu_id p) = None))"
proof -
  from commerce_market.reachable_inv [OF assms(1,2)] have ok: "market_ok s" .
  with assms(3) have p: "purchase_ok s p" by (simp add: market_ok_def)
  then have money: "money_rows (account_names (mk_books s)) p (refund_of_purchase s (pu_id p)) (entries_of s (pu_id p))
      (settlements_of s (pu_id p))"
    by (simp add: purchase_ok_def)
  from p obtain d where d: "find_product s (pu_product p) = Some d" "sold_as p d" by (auto simp: purchase_ok_def)
  show ?thesis
    using d money valid_terms_values(1) [OF purchase_terms_valid [OF ok p]]
    by (auto simp: sold_as_def money_rows_def charge_for_def revenue_for_def reversal_for_def returned_for_def released_for_def
        account_names_def buyer_entries_def seller_entries_def seller_entry_def units_of_def net_units_def released_units_def
        split: option.splits)
qed

theorem purchase_money_exact_witness:
  "new_market shop_new \<and> (market_step demo_lc id)\<^sup>*\<^sup>* shop_new shop_sold \<and> shop_purchase \<in> set (mk_purchases shop_sold)
    \<and> (market_step demo_lc id)\<^sup>*\<^sup>* shop_sold shop_returned
    \<and> units_of (buyer_entries shop_returned ''pu'') = 0 \<and> net_units (settlements_of shop_returned ''pu'') = 0
    \<and> seller_entries shop_returned ''pu'' = []
    \<and> (market_step demo_lc id)\<^sup>*\<^sup>* shop_sold shop_released
    \<and> units_of (buyer_entries shop_released ''pu'') = - 300 \<and> net_units (settlements_of shop_released ''pu'') = 300
    \<and> units_of (seller_entries shop_released ''pu'') = 300"
proof -
  have bought: "shop_purchase \<in> set (mk_purchases shop_sold)" by (simp add: shop_sold_rows)
  have returned: "shop_purchase \<in> set (mk_purchases shop_returned)" "refund_of_purchase shop_returned ''pu'' \<noteq> None"
    by (simp_all add: shop_returned_def shop_sold_rows refund_of_purchase_def shop_refund_rows)
  have released: "shop_purchase \<in> set (mk_purchases shop_released)" "refund_of_purchase shop_released ''pu'' = None"
    by (simp_all add: shop_released_def shop_sold_rows refund_of_purchase_def)
  have paid: "seller_entries shop_released ''pu'' \<noteq> []"
    by (simp add: shop_released_def seller_entries_def entries_of_def seller_entry_def release_entry_def shop_window_def)
  have price: "tr_amount (pu_terms shop_purchase) = 300" by (simp add: shop_purchase_rows shop_terms_def)
  have returned_money: "units_of (buyer_entries shop_returned ''pu'') = 0 \<and> net_units (settlements_of shop_returned ''pu'') = 0
    \<and> seller_entries shop_returned ''pu'' = []"
    using purchase_money_exact [OF shop_is_new shop_reaches_returned returned(1)] returned(2) by (simp add: shop_purchase_rows)
  have released_money: "units_of (buyer_entries shop_released ''pu'') = - 300 \<and> net_units (settlements_of shop_released ''pu'') = 300
    \<and> (\<exists>e. seller_entries shop_released ''pu'' = [e] \<and> lv_amount e = 300)"
    using purchase_money_exact [OF shop_is_new shop_reaches_released released(1)] released(2) paid price
    by (auto simp: shop_purchase_rows)
  then have "units_of (seller_entries shop_released ''pu'') = 300" by (auto simp: units_of_def)
  with returned_money released_money show ?thesis
    using shop_is_new shop_reaches_sold bought shop_return_step shop_release_step by (intro conjI) (blast | simp)+
qed

text \<open>
  C21: A purchase that is made is one of a listed product, within the units of the buyer's active account that no
  attempt holds, and within the limit of purchases; it takes the price from that account, leaves every other
  balance, and records the terms of the product.
\<close>

theorem purchase_within_means:
  assumes "new_market m" "(market_step lc sha)\<^sup>*\<^sup>* m s"
    "purchaseAuthorityProductFinancialFacts sha c now ids s = Inr (q, t)" "\<not> qr_replayed q"
  shows "\<exists>a d. account_of_scope (mk_books s) (''user:'' @ pq_buyer c) = Some a \<and> ca_status a = ''active''
    \<and> find_product s (pq_product c) = Some d \<and> listed d \<and> pu_terms (qr_purchase q) = pd_terms d
    \<and> tr_amount (pd_terms d) \<le> ca_balance a - held_units (mk_books s) (ca_id a)
    \<and> (\<forall>i. map_option ca_balance (find_account (mk_books t) i)
         = (if i = ca_id a then Some (ca_balance a - tr_amount (pd_terms d)) else map_option ca_balance (find_account (mk_books s) i)))
    \<and> mk_purchases t = mk_purchases s @ [qr_purchase q]
    \<and> (case tr_maxPurchases (pd_terms d) of None \<Rightarrow> True | Some k \<Rightarrow> lifetime_purchases t (pq_buyer c) (pd_code d) \<le> k)"
proof -
  from commerce_market.reachable_inv [OF assms(1,2)] have ok: "market_ok s" .
  show ?thesis
  proof (rule purchase_balances [OF assms(3,4) ok], goal_cases)
    case (1 a d)
    then show ?case by (intro exI [of _ a] exI [of _ d]) (simp split: option.split)
  qed
qed

theorem purchase_within_means_witness:
  "purchaseAuthorityProductFinancialFacts id shop_buy 20 shop_ids shop_open = Inr (shop_receipt, shop_sold)
    \<and> \<not> qr_replayed shop_receipt \<and> map_option ca_balance (find_account (mk_books shop_open) ''acct'') = Some 1000
    \<and> map_option ca_balance (find_account (mk_books shop_sold) ''acct'') = Some 700
    \<and> lifetime_purchases shop_sold ''user'' ''unit'' \<le> 1"
proof -
  have new: "\<not> qr_replayed shop_receipt" by (simp add: shop_receipt_def)
  from purchase_within_means [OF shop_is_new shop_reaches_open shop_buys new] obtain a d where
    "account_of_scope (mk_books shop_open) (''user:'' @ pq_buyer shop_buy) = Some a" "find_product shop_open (pq_product shop_buy) = Some d"
    "\<forall>i. map_option ca_balance (find_account (mk_books shop_sold) i)
       = (if i = ca_id a then Some (ca_balance a - tr_amount (pd_terms d)) else map_option ca_balance (find_account (mk_books shop_open) i))"
    "case tr_maxPurchases (pd_terms d) of None \<Rightarrow> True | Some k \<Rightarrow> lifetime_purchases shop_sold (pq_buyer shop_buy) (pd_code d) \<le> k"
    by blast
  moreover from calculation(1,2) have "a = shop_account" "d = shop_listed"
    by (auto simp: account_of_scope_def find_product_def shop_open_rows shop_accounts shop_buy_def shop_account_rows shop_listed_def
        shop_draft_def)
  ultimately show ?thesis
    using shop_buys new
    by (simp add: shop_account_rows shop_open_rows shop_accounts find_account_def shop_listed_def shop_draft_def shop_terms_def shop_buy_def)
qed

text \<open>
  C15: A purchase that returned is answered with the same purchase and the same records, and changes nothing, when
  its command comes again in any later state, at any time; the same key with another request is refused.
\<close>

theorem purchase_replays:
  assumes "new_market m" "(market_step lc sha)\<^sup>*\<^sup>* m s"
    "purchaseAuthorityProductFinancialFacts sha c now ids s = Inr (q, t)" "(market_step lc sha)\<^sup>*\<^sup>* t u"
  shows "purchaseAuthorityProductFinancialFacts sha c now' ids' u = Inr (q\<lparr>qr_replayed := True\<rparr>, u)
    \<and> (sha shape \<noteq> sha (pq_shapeJson c) \<longrightarrow>
      purchaseAuthorityProductFinancialFacts sha (c\<lparr>pq_shapeJson := shape\<rparr>) now' ids' u = Inl idempotency_reused)"
proof -
  from commerce_market.reachable_inv [OF assms(1,2)] have s: "market_ok s" .
  have t: "market_ok t" using purchase_good [OF assms(3) s] by (simp add: market_good_def)
  from commerce_market.run_inv [OF assms(4) t] commerce_market.run_evolve [OF assms(4) t]
  have u: "market_ok u" "market_evolve t u" .
  obtain keyHash where recorded: "hashRequired sha (pq_key c) = Inr keyHash"
    "prior_purchase t (pq_buyer c) keyHash = Some (qr_purchase q)"
    "pu_requestHash (qr_purchase q) = sha (pq_shapeJson c)" "purchaseResult (qr_purchase q) True t = Inr (q\<lparr>qr_replayed := True\<rparr>)"
    using purchase_recorded [OF assms(3) s] .
  note lasts = purchase_answer_lasts [OF recorded(2,4) t u]
  show ?thesis
    using recorded(1,3) lasts by (auto simp: purchaseAuthorityProductFinancialFacts_def effects)
qed

theorem purchase_replays_witness:
  "purchaseAuthorityProductFinancialFacts id shop_buy 8000000 shop_ids shop_released
      = Inr (shop_receipt\<lparr>qr_replayed := True\<rparr>, shop_released)
    \<and> purchaseAuthorityProductFinancialFacts id (shop_buy\<lparr>pq_shapeJson := ''[]''\<rparr>) 8000000 shop_ids shop_released = Inl idempotency_reused"
  using purchase_replays [OF shop_is_new shop_reaches_open shop_buys r_into_rtranclp [of "market_step demo_lc id", OF shop_release_step],
      where now' = 8000000 and ids' = shop_ids and shape = "''[]''"]
  by (simp add: shop_buy_def)

text \<open>What is recorded of a refund.\<close>

lemma refund_answer_lasts:
  assumes "market_ok t" "market_ok u" "market_evolve t u" "refund_of_purchase t (pu_id p) = Some r" "p \<in> set (mk_purchases t)"
    "rf_purchase r = pu_id p" "refundResult r True t = Inr q"
  shows "refundResult r True u = Inr q"
proof -
  have grows: "prefix (mk_purchases t) (mk_purchases u)" "prefix (mk_refunds t) (mk_refunds u)"
    "prefix (entries_of t (pu_id p)) (entries_of u (pu_id p))" "prefix (settlements_of t (pu_id p)) (settlements_of u (pu_id p))"
    using assms(3) by (simp_all add: market_evolve_def)
  have later: "refund_of_purchase u (pu_id p) = Some r"
    using find_prefix [OF grows(2)] assms(4) by (simp add: refund_of_purchase_def)
  have "p \<in> set (mk_purchases u)" using assms(5) grows(1) set_mono_prefix by blast
  then have "money_rows (account_names (mk_books t)) p (Some r) (entries_of t (pu_id p)) (settlements_of t (pu_id p))"
    "money_rows (account_names (mk_books u)) p (Some r) (entries_of u (pu_id p)) (settlements_of u (pu_id p))"
    using assms(1,2,4,5) later by (auto simp: market_ok_def purchase_ok_def)
  with grows(3,4) have "entries_of u (pu_id p) = entries_of t (pu_id p)" "settlements_of u (pu_id p) = settlements_of t (pu_id p)"
    by (auto simp: money_rows_def)
  then show ?thesis using assms(6,7) by (simp add: refundResult_def purchase_entry_rows purchase_settlement_rows)
qed

lemma refund_recorded:
  assumes "refundAuthorityPurchaseFinancialFacts sha c now ids s = Inr (q, t)" "\<not> rt_replayed q" "market_ok s"
  obtains keyHash p a where "hashRequired sha (rd_key c) = Inr keyHash" "find_purchase s (rd_purchase c) = Some p"
    "refund_of_purchase s (pu_id p) = None" "find_account (mk_books s) (pu_account p) = Some a"
    "\<And>i. map_option ca_balance (find_account (mk_books t) i)
       = (if i = pu_account p then Some (ca_balance a + tr_amount (pu_terms p)) else map_option ca_balance (find_account (mk_books s) i))"
    "now < pu_createdAt p + tr_settlementHold (pu_terms p) * 1000" "\<not> list_ex (\<lambda>r. sr_type r = Release) (settlements_of s (pu_id p))"
    "refund_by_key t (rd_actor c) keyHash = Some (rt_refund q)" "rf_requestHash (rt_refund q) = sha (refund_shape c)"
    "p \<in> set (mk_purchases t)" "refund_of_purchase t (pu_id p) = Some (rt_refund q)" "rf_purchase (rt_refund q) = pu_id p"
    "refundResult (rt_refund q) True t = Inr (q\<lparr>rt_replayed := True\<rparr>)"
  using assms(1)
proof (cases rule: refund_Inr)
  case (new keyHash p revenue original a r s2 s3)
  note state = refund_new_state [OF assms(3) new(3-10)]
  let ?e = "refund_entry p r original a (ri_ledger ids)" and ?x = "refund_reversal p r revenue (ri_settlement ids)"
  have r: "rf_purchase r = pu_id p" "rf_requestHash r = sha (refund_shape c)" "rf_actor r = rd_actor c" "rf_keyHash r = keyHash"
    by (simp_all add: new(4,7) refund_of_def)
  have p: "p \<in> set (mk_purchases s)" "purchase_ok s p" using purchase_in [OF assms(3) new(3)] by simp_all
  have unreleased: "\<not> list_ex (\<lambda>r. sr_type r = Release) (settlements_of s (pu_id p))" using new(6) by (rule refundable_Inr)
  with p new(5) obtain e x where rows: "charge_for p e" "revenue_for p e x" "entries_of s (pu_id p) = [e]"
    "settlements_of s (pu_id p) = [x]"
    by (auto simp: purchase_ok_def money_rows_def released_for_def)
  have x: "revenue = x" using new(6) by (rule refundable_Inr) (auto simp: rows split: if_splits)
  have "lv_purchase ?e = Some (pu_id p)" "sr_purchase ?x = Some (pu_id p)"
    by (simp_all add: refund_entry_def refund_reversal_def)
  note trade = traded_rows [OF this, of s "[]" "[r]" "pu_id p", folded state(1)]
  have result: "refundResult r True t = Inr (q\<lparr>rt_replayed := True\<rparr>)"
    using rows trade r(1)
    by (simp add: refundResult_def purchase_entry_rows purchase_settlement_rows charge_for_def revenue_for_def new(11)
        refund_entry_def refund_reversal_def)
  have id: "ca_id a = pu_account p" using state(4) find_key_SomeD [of ca_id "pu_account p" _ a] by (auto simp: find_account_def)
  show thesis
  proof (rule that [of keyHash p a])
    show "map_option ca_balance (find_account (mk_books t) i)
       = (if i = pu_account p then Some (ca_balance a + tr_amount (pu_terms p)) else map_option ca_balance (find_account (mk_books s) i))" for i
      using state(4) by (auto simp: state(1) balances_after_posting refund_entry_def id)
    show "now < pu_createdAt p + tr_settlementHold (pu_terms p) * 1000"
      using state(6) rows(2) by (simp add: x revenue_for_def)
    show "refund_by_key t (rd_actor c) keyHash = Some (rt_refund q)"
      using new(2) by (simp add: refund_by_key_def state(1) find_append r new(11))
    show "p \<in> set (mk_purchases t)" using p(1) by (simp add: state(1))
    show "refund_of_purchase t (pu_id p) = Some (rt_refund q)" by (simp add: state(5) new(11))
    show "refundResult (rt_refund q) True t = Inr (q\<lparr>rt_replayed := True\<rparr>)" using result by (simp add: new(11))
  qed (use new(1,3,5) state(4) unreleased r in \<open>simp_all add: new(11)\<close>)
qed (use assms(2) in \<open>auto simp: refundResult_def split: option.splits\<close>)

text \<open>
  C22: A refund that is made returns exactly the price to the account that paid it and leaves every other balance,
  for a purchase that was not refunded and whose revenue has not been and is not yet to be released; when its
  command comes again in any later state it is answered with the same refund, and changes nothing.
\<close>

theorem refund_restores_once:
  assumes "new_market m" "(market_step lc sha)\<^sup>*\<^sup>* m s"
    "refundAuthorityPurchaseFinancialFacts sha c now ids s = Inr (q, t)" "\<not> rt_replayed q" "(market_step lc sha)\<^sup>*\<^sup>* t u"
  shows "\<exists>p a. find_purchase s (rd_purchase c) = Some p \<and> refund_of_purchase s (pu_id p) = None
    \<and> find_account (mk_books s) (pu_account p) = Some a
    \<and> (\<forall>i. map_option ca_balance (find_account (mk_books t) i)
         = (if i = pu_account p then Some (ca_balance a + tr_amount (pu_terms p)) else map_option ca_balance (find_account (mk_books s) i)))
    \<and> now < pu_createdAt p + tr_settlementHold (pu_terms p) * 1000
    \<and> \<not> list_ex (\<lambda>r. sr_type r = Release) (settlements_of s (pu_id p))
    \<and> refundAuthorityPurchaseFinancialFacts sha c now' ids' u = Inr (q\<lparr>rt_replayed := True\<rparr>, u)"
proof -
  from commerce_market.reachable_inv [OF assms(1,2)] have s: "market_ok s" .
  have t: "market_ok t" using refund_good [OF assms(3) s] by (simp add: market_good_def)
  from commerce_market.run_inv [OF assms(5) t] commerce_market.run_evolve [OF assms(5) t]
  have u: "market_ok u" "market_evolve t u" .
  have reason: "requireRefundReason (rd_reason c) = Inr ()"
    using assms(3) by (auto simp: refundAuthorityPurchaseFinancialFacts_def effects)
  from assms(3,4) s show ?thesis
  proof (rule refund_recorded, goal_cases)
    case (1 keyHash p a)
    have "refundResult (rt_refund q) True u = Inr (q\<lparr>rt_replayed := True\<rparr>)"
      using refund_answer_lasts [OF t u] 1 by blast
    moreover have "refund_by_key u (rd_actor c) keyHash = Some (rt_refund q)"
      using 1(8) find_prefix [of "mk_refunds t" "mk_refunds u"] u(2) by (simp add: refund_by_key_def market_evolve_def)
    ultimately have "refundAuthorityPurchaseFinancialFacts sha c now' ids' u = Inr (q\<lparr>rt_replayed := True\<rparr>, u)"
      using reason 1(1,9) by (simp add: refundAuthorityPurchaseFinancialFacts_def effects)
    with 1 show ?case by blast
  qed
qed

theorem refund_restores_once_witness:
  "refundAuthorityPurchaseFinancialFacts id shop_return 1000 shop_return_ids shop_sold = Inr (shop_credit, shop_returned)
    \<and> \<not> rt_replayed shop_credit \<and> map_option ca_balance (find_account (mk_books shop_returned) ''acct'') = Some 1000
    \<and> refundAuthorityPurchaseFinancialFacts id shop_return 9000 shop_return_ids shop_returned
        = Inr (shop_credit\<lparr>rt_replayed := True\<rparr>, shop_returned)"
proof -
  have new: "\<not> rt_replayed shop_credit" by (simp add: shop_credit_def)
  from refund_restores_once [OF shop_is_new shop_reaches_sold shop_returns new rtranclp.rtrancl_refl, of 9000 shop_return_ids]
  obtain p a where "find_purchase shop_sold (rd_purchase shop_return) = Some p" "find_account (mk_books shop_sold) (pu_account p) = Some a"
    "\<forall>i. map_option ca_balance (find_account (mk_books shop_returned) i)
       = (if i = pu_account p then Some (ca_balance a + tr_amount (pu_terms p)) else map_option ca_balance (find_account (mk_books shop_sold) i))"
    and again: "refundAuthorityPurchaseFinancialFacts id shop_return 9000 shop_return_ids shop_returned
        = Inr (shop_credit\<lparr>rt_replayed := True\<rparr>, shop_returned)"
    by blast
  moreover from calculation(1) have p: "p = shop_purchase"
    by (simp add: find_purchase_def shop_sold_rows shop_purchase_rows shop_return_def)
  moreover from calculation(2) have "a = shop_paid"
    by (simp add: p find_account_def shop_sold_rows shop_purchase_rows shop_paid_rows)
  ultimately show ?thesis
    using shop_returns new by (simp add: shop_purchase_rows shop_paid_rows shop_terms_def)
qed

subsection \<open>The tranches of a plan\<close>

text \<open>The windows of thirty days from a start on, and how many begin before an end.\<close>

definition windows_from :: "timestamp \<Rightarrow> nat \<Rightarrow> (timestamp \<times> timestamp) list" where
  "windows_from start n = map (\<lambda>k. (start + int k * WINDOW_MS, start + int (Suc k) * WINDOW_MS)) [0..<n]"

definition window_count :: "timestamp \<Rightarrow> timestamp \<Rightarrow> nat" where
  "window_count start end = nat ((end - start + WINDOW_MS - 1) div WINDOW_MS)"

lemma windows_from_Suc: "windows_from start (Suc n) = (start, start + WINDOW_MS) # windows_from (start + WINDOW_MS) n"
  by (simp add: windows_from_def upt_conv_Cons map_Suc_upt [symmetric] algebra_simps del: upt_Suc)

lemma window_count_last: "start < end \<Longrightarrow> end \<le> start + WINDOW_MS \<Longrightarrow> window_count start end = 1"
  by (simp add: window_count_def WINDOW_MS_def)

lemma window_count_more:
  assumes "start + WINDOW_MS < end"
  shows "window_count start end = Suc (window_count (start + WINDOW_MS) end)" "window_count (start + WINDOW_MS) end \<noteq> 0"
  using assms by (simp_all add: window_count_def WINDOW_MS_def)

definition tranches_exact :: "timestamp \<Rightarrow> timestamp \<Rightarrow> int \<Rightarrow> int \<Rightarrow> int \<Rightarrow> tranche list \<Rightarrow> bool" where
  "tranches_exact start end duration amount left ts \<longleftrightarrow>
     map (\<lambda>w. (tn_start w, tn_end w)) ts = windows_from start (window_count start end)
     \<and> sum_list (map tn_units ts) = left \<and> (\<forall>w \<in> set ts. 0 \<le> tn_units w)
     \<and> butlast (map tn_units ts) = replicate (window_count start end - 1) (amount * WINDOW_MS div duration)"

lemma tranche_loop_exact:
  assumes "windowStart < end" "duration = end - start" "start \<le> windowStart" "0 < amount" "end + WINDOW_MS \<le> MAX_DATE"
    and "allocated * duration \<le> amount * (windowStart - start)"
  shows "\<exists>ts. tranche_loop windowStart end duration amount allocated = Inr ts
    \<and> tranches_exact windowStart end duration amount (amount - allocated) ts"
  using assms
proof (induction windowStart "end" duration amount allocated rule: tranche_loop.induct)
  case (1 windowStart "end" duration amount allocated)
  have W: "0 < WINDOW_MS" by (simp add: WINDOW_MS_def)
  have duration: "0 < duration" using 1(2-4) by simp
  show ?case
  proof (cases "windowStart + WINDOW_MS < end")
    case False
    have "amount * (windowStart - start) \<le> amount * duration" using 1(2,3,5) by (intro mult_left_mono) simp_all
    with 1(7) have "allocated * duration \<le> amount * duration" by simp
    then have "allocated \<le> amount" using duration by simp
    moreover have "tranche_loop windowStart end duration amount allocated
      = Inr [\<lparr>tn_start = windowStart, tn_end = windowStart + WINDOW_MS, tn_units = amount - allocated\<rparr>]"
      using False 1(2,6) by (simp add: tranche_loop.simps [of windowStart] tranche_loop.simps [of "windowStart + WINDOW_MS"] Let_def)
    ultimately show ?thesis
      using False 1(2) by (simp add: tranches_exact_def window_count_last windows_from_Suc) (simp add: windows_from_def)
  next
    case True
    let ?units = "amount * WINDOW_MS div duration"
    have share: "?units * duration \<le> amount * WINDOW_MS" using duration by (simp add: minus_mod_eq_div_mult [symmetric])
    have units: "(if windowStart + WINDOW_MS \<ge> end then amount - allocated
        else amount * (min end (windowStart + WINDOW_MS) - windowStart) div duration) = ?units"
      using True by (simp add: min_def)
    have "(allocated + ?units) * duration \<le> amount * (windowStart + WINDOW_MS - start)"
      using 1(7) share by (simp add: algebra_simps)
    then obtain ts where ts: "tranche_loop (windowStart + WINDOW_MS) end duration amount (allocated + ?units) = Inr ts"
      "tranches_exact (windowStart + WINDOW_MS) end duration amount (amount - (allocated + ?units)) ts"
      using 1(1) [OF 1(2) refl refl units [symmetric]] True 1(3-6) W 1(2) by (auto simp: MAX_DATE_def)
    let ?ts = "\<lparr>tn_start = windowStart, tn_end = windowStart + WINDOW_MS, tn_units = ?units\<rparr> # ts"
    have "tranche_loop windowStart end duration amount allocated = Inr ?ts"
      unfolding tranche_loop.simps [of windowStart] Let_def units using 1(2,6) True ts(1) by simp
    moreover have "tranches_exact windowStart end duration amount (amount - allocated) ?ts"
    proof -
      have "length ts = window_count (windowStart + WINDOW_MS) end"
        using ts(2) by (auto simp: tranches_exact_def windows_from_def dest: arg_cong [where f = length])
      then have "ts \<noteq> []" using window_count_more(2) [OF True] by auto
      moreover have "0 \<le> ?units" using 1(5) W duration by (simp add: pos_imp_zdiv_nonneg_iff)
      ultimately show ?thesis
        using ts(2) window_count_more [OF True]
        by (cases "window_count (windowStart + WINDOW_MS) end") (simp_all add: tranches_exact_def windows_from_Suc)
    qed
    ultimately show ?thesis by blast
  qed
qed

text \<open>
  C17: The revenue of a subscription is always spread over its period, and exactly: one tranche for each window of
  thirty days that begins before its end, each but the last the share of a full window rounded down, the last what
  is left, none negative, and all together the price.
\<close>

theorem prepaid_tranches_exact:
  assumes "ps_end sub = Some end" "ps_start sub < end" "0 < amount" "end + WINDOW_MS \<le> MAX_DATE"
  shows "\<exists>ts. prepaidTranches sub amount = Inr ts
    \<and> map (\<lambda>w. (tn_start w, tn_end w)) ts = windows_from (ps_start sub) (window_count (ps_start sub) end)
    \<and> sum_list (map tn_units ts) = amount \<and> (\<forall>w \<in> set ts. 0 \<le> tn_units w)
    \<and> butlast (map tn_units ts)
        = replicate (window_count (ps_start sub) end - 1) (amount * WINDOW_MS div (end - ps_start sub))"
  using tranche_loop_exact [of "ps_start sub" "end" "end - ps_start sub" "ps_start sub" amount 0] assms
  by (simp add: prepaidTranches_def tranches_exact_def)

theorem prepaid_tranches_exact_witness:
  "\<exists>ts. prepaidTranches \<lparr>ps_id = ''sub'', ps_start = 0, ps_end = Some 5000000000\<rparr> 1000 = Inr ts
    \<and> map (\<lambda>w. (tn_start w, tn_end w)) ts = windows_from 0 2 \<and> sum_list (map tn_units ts) = 1000
    \<and> butlast (map tn_units ts) = [518]"
proof -
  have "window_count 0 5000000000 = 2" "1000 * WINDOW_MS div 5000000000 = 518" by (simp_all add: window_count_def WINDOW_MS_def)
  with prepaid_tranches_exact [of "\<lparr>ps_id = ''sub'', ps_start = 0, ps_end = Some 5000000000\<rparr>" 5000000000 1000]
  show ?thesis by (auto simp: WINDOW_MS_def MAX_DATE_def)
qed

end
