(* ===== verification/Billing_Theorems.thy ===== *)
theory Billing_Theorems
  imports Billing_Example
begin

section \<open>What billing guarantees\<close>

text \<open>
  The theorems on the runs of \<open>Billing_Runs\<close>: the books agree with the attempts table and with each other, an
  attempt is settled once, and an admission is idempotent. Their witnesses use the run of \<open>Billing_Example\<close>.
\<close>

subsection \<open>The books of every run\<close>

lemma reachable_books:
  assumes "new_app start" "(app_step lc)\<^sup>*\<^sup>* start s"
  shows "unique_keys (ap_books s)" "occupied (view_of (ap_request s)) (ap_books s)" "charges_recorded (ap_books s)"
    "events_recorded (ap_books s)" "balanced (ap_books s)"
  using invocation_books.reachable_inv [OF assms] by (simp_all add: app_ok_def books_ok_def)

lemma distinct_key: "distinct (map k xs) \<Longrightarrow> x \<in> set xs \<Longrightarrow> y \<in> set xs \<Longrightarrow> k x = k y \<Longrightarrow> x = y"
  by (simp add: distinct_map inj_on_def)

lemma unique_key_ex1:
  assumes "distinct (map k xs)" "x \<in> set xs" "P x" "\<And>y. P y \<Longrightarrow> k y = r"
  shows "\<exists>!x. x \<in> set xs \<and> P x"
  using assms distinct_key [OF assms(1)] by (intro ex1I [of _ x]) auto

lemma charged_once:
  assumes "unique_keys b" "charges_recorded b" "e \<in> set (ledger b)" "lv_attempt e = Some ref"
  shows "\<exists>f. find_fact b ref = Some f \<and> uf_posting f = Some (lv_id e) \<and> lv_type e = ''usage_charge''
             \<and> lv_amount e = - uf_actual f \<and> 0 < uf_actual f \<and> lv_billingEvent e = Some (uf_billingEvent f)
             \<and> (\<forall>e' \<in> set (ledger b). lv_attempt e' = Some ref \<longrightarrow> e' = e)"
proof -
  have keys: "distinct (map uf_attempt (facts b))" "distinct (map lv_id (ledger b))"
    using assms(1) by (simp_all add: unique_keys_def)
  have fact: "\<exists>f. find_fact b ref = Some f \<and> charge_of_fact f x" if x: "x \<in> set (ledger b)" "lv_attempt x = Some ref" for x
  proof -
    from assms(2) x obtain f where f: "f \<in> set (facts b)" "charge_of_fact f x" unfolding charges_recorded_def by blast
    with x(2) have "uf_attempt f = ref" by (simp add: charge_of_fact_def)
    with f find_key_unique [OF keys(1)] show ?thesis by (auto simp: find_fact_def)
  qed
  from fact [OF assms(3,4)] obtain f where f: "find_fact b ref = Some f" "charge_of_fact f e" by blast
  have "x = e" if x: "x \<in> set (ledger b)" "lv_attempt x = Some ref" for x
  proof -
    from fact [OF x] f have "lv_id x = lv_id e" by (auto simp: charge_of_fact_def)
    with distinct_key [OF keys(2) x(1) assms(3)] show ?thesis .
  qed
  with f show ?thesis by (auto simp: charge_of_fact_def)
qed

text \<open>How an attempt stands, by what the books hold for it.\<close>

definition attempt_is :: "tables \<Rightarrow> string \<Rightarrow> (attempt_row \<Rightarrow> bool) \<Rightarrow> bool" where
  "attempt_is db ref P \<longleftrightarrow> (case find_attempt db ref of None \<Rightarrow> False | Some a \<Rightarrow> P a)"

lemma view_cases:
  "(\<exists>k. view_of db ref = Some (k, True)) = attempt_is db ref at_usageSettled"
  "view_of db ref = Some (''protected@1'', False)
     \<longleftrightarrow> attempt_is db ref (\<lambda>a. at_invocationContract a = ''protected@1'' \<and> \<not> at_usageSettled a)"
  "(\<exists>z. view_of db ref = Some (''protected@1'', z)) = attempt_is db ref (\<lambda>a. at_invocationContract a = ''protected@1'')"
  by (auto simp: view_of_def attempt_is_def split: option.splits)

text \<open>
  C3: In every state that the invocation commands reach, whatever the other writers do, billing and the
  attempts table agree. An attempt has its usage fact exactly when its usage is settled, and its budget claim
  exactly while it is a protected attempt that is not. A hold belongs to a protected attempt and never exceeds
  what was reserved; it is open and unposted while the attempt is unsettled, and afterwards it is ended, holds
  nothing, and names the posting of the usage fact.
\<close>

theorem billing_occupation_exact:
  assumes "new_app start" "(app_step lc)\<^sup>*\<^sup>* start s"
  shows "(find_fact (ap_books s) ref \<noteq> None) = attempt_is (ap_request s) ref at_usageSettled
    \<and> (find_claim (ap_books s) ref \<noteq> None)
        = attempt_is (ap_request s) ref (\<lambda>a. at_invocationContract a = ''protected@1'' \<and> \<not> at_usageSettled a)
    \<and> list_all (\<lambda>r. attempt_is (ap_request s) (ur_attempt r) (\<lambda>a. at_invocationContract a = ''protected@1'')
        \<and> 0 \<le> ur_held r \<and> ur_held r \<le> ur_units r
        \<and> (case find_fact (ap_books s) (ur_attempt r) of
             None \<Rightarrow> is_open r \<and> ur_posting r = None
           | Some f \<Rightarrow> is_ended (ur_status r) \<and> ur_held r = 0 \<and> ur_posting r = uf_posting f)) (reservations (ap_books s))"
  using reachable_books(2) [OF assms]
  by (simp add: occupied_def view_cases [symmetric] hold_ok_def list_all_iff)

text \<open>
  C4: In every reachable state the balance of each account is the sum of its ledger, no attempt is charged
  twice, and charges and usage facts match: an entry of the ledger that names an attempt debits exactly the
  amount of that attempt's usage fact, which is positive, and names its billing event; a usage fact with a
  posting has that entry. Each usage fact has one billing event, with its units and usage, and one history
  reference.
\<close>

theorem ledger_charges_exact:
  assumes "new_app start" "(app_step lc)\<^sup>*\<^sup>* start s"
  shows "(\<forall>a \<in> set (accounts (ap_books s)). ca_balance a
            = sum_list (map lv_amount (filter (\<lambda>e. lv_account e = ca_id a) (ledger (ap_books s)))))
    \<and> (\<forall>e \<in> set (ledger (ap_books s)). \<forall>ref. lv_attempt e = Some ref \<longrightarrow>
          (\<exists>f. find_fact (ap_books s) ref = Some f \<and> uf_posting f = Some (lv_id e) \<and> lv_type e = ''usage_charge''
             \<and> lv_amount e = - uf_actual f \<and> 0 < uf_actual f \<and> lv_billingEvent e = Some (uf_billingEvent f)
             \<and> (\<forall>e' \<in> set (ledger (ap_books s)). lv_attempt e' = Some ref \<longrightarrow> e' = e)))
    \<and> (\<forall>f \<in> set (facts (ap_books s)).
          (uf_posting f \<noteq> None \<longrightarrow> (\<exists>e \<in> set (ledger (ap_books s)). uf_posting f = Some (lv_id e) \<and> lv_attempt e = Some (uf_attempt f)))
          \<and> (\<exists>!e. e \<in> set (billing_events (ap_books s)) \<and> be_id e = uf_billingEvent f \<and> be_units e = uf_actual f \<and> be_usage e = uf_usage f)
          \<and> (\<exists>!h. h \<in> set (history_refs (ap_books s)) \<and> hr_billingEvent h = uf_billingEvent f \<and> hr_units h = uf_actual f))"
proof (intro conjI ballI)
  let ?b = "ap_books s"
  note books = reachable_books [OF assms]
  fix a assume "a \<in> set (accounts ?b)"
  with books(5) show "ca_balance a = sum_list (map lv_amount (filter (\<lambda>e. lv_account e = ca_id a) (ledger ?b)))"
    by (simp add: balanced_def ledger_total_def)
next
  let ?b = "ap_books s"
  note books = reachable_books [OF assms]
  fix e assume e: "e \<in> set (ledger ?b)"
  show "\<forall>ref. lv_attempt e = Some ref \<longrightarrow>
          (\<exists>f. find_fact ?b ref = Some f \<and> uf_posting f = Some (lv_id e) \<and> lv_type e = ''usage_charge''
             \<and> lv_amount e = - uf_actual f \<and> 0 < uf_actual f \<and> lv_billingEvent e = Some (uf_billingEvent f)
             \<and> (\<forall>e' \<in> set (ledger ?b). lv_attempt e' = Some ref \<longrightarrow> e' = e))"
    using e charged_once [OF books(1,3)] by blast
next
  let ?b = "ap_books s"
  note books = reachable_books [OF assms]
  fix f assume f: "f \<in> set (facts ?b)"
  with books(3) show "uf_posting f \<noteq> None \<longrightarrow> (\<exists>e \<in> set (ledger ?b). uf_posting f = Some (lv_id e) \<and> lv_attempt e = Some (uf_attempt f))"
    unfolding charges_recorded_def charge_of_fact_def by blast
  from bspec [OF conjunct1 [OF books(4) [unfolded events_recorded_def]] f] obtain e h where event: "e \<in> set (billing_events ?b)" "event_of_fact f e"
    and history: "h \<in> set (history_refs ?b)" "history_of_fact f h"
    by blast
  have keys: "distinct (map be_id (billing_events ?b))" "distinct (map hr_billingEvent (history_refs ?b))"
    using books(1) by (simp_all add: unique_keys_def)
  show "\<exists>!e. e \<in> set (billing_events ?b) \<and> be_id e = uf_billingEvent f \<and> be_units e = uf_actual f \<and> be_usage e = uf_usage f"
    by (rule unique_key_ex1 [OF keys(1) event(1), where r = "uf_billingEvent f"])
      (use event(2) in \<open>simp_all add: event_of_fact_def\<close>)
  show "\<exists>!h. h \<in> set (history_refs ?b) \<and> hr_billingEvent h = uf_billingEvent f \<and> hr_units h = uf_actual f"
    by (rule unique_key_ex1 [OF keys(2) history(1), where r = "uf_billingEvent f"])
      (use history(2) in \<open>simp_all add: history_of_fact_def\<close>)
qed

text \<open>
  C9: An attempt is settled once. When a settlement has returned, a later settlement of the same attempt that
  returns, by whichever command and at whatever time, reports the same charge, posting and billing event, is
  marked as a replay, was asked for the same usage, and changes nothing.
\<close>

theorem settlement_happens_once:
  assumes "new_app start" "(app_step lc)\<^sup>*\<^sup>* start s"
    and "settleFinalUsage lc c outcome strict expected now ids s = Inr (r, t)"
    and "(app_step lc)\<^sup>*\<^sup>* t u"
    and "settleFinalUsage lc c' outcome' strict' expected' now' ids' u = Inr (r', v)"
    and "fi_ref (sc_finalize c') = fi_ref (sc_finalize c)"
  shows "v = u \<and> r' = r\<lparr>rs_replayed := True\<rparr> \<and> same_usage (sc_usage c) (sc_usage c')"
proof -
  have ok: "app_ok s" by (rule invocation_books.reachable_inv [OF assms(1,2)])
  then have okt: "app_ok t" using settle_good(1) [OF assms(3) ok] by (simp add: app_good_def)
  then have oku: "app_ok u" by (rule invocation_books.run_inv [OF assms(4)])
  have ev: "books_evolve (ap_books t) (ap_books u)"
    using invocation_books.run_evolve [OF assms(4) okt] by (simp add: app_evolve_def)
  from first_settlement_fact [OF assms(3) ok] obtain f where
    f: "find_fact (ap_books t) (fi_ref (sc_finalize c)) = Some f" "rs_actual r = uf_actual f"
      "rs_posting r = uf_posting f" "rs_billingEvent r = uf_billingEvent f" "same_usage (uf_usage f) (sc_usage c)"
    by blast
  have later: "find_fact (ap_books u) (fi_ref (sc_finalize c')) = Some f"
    using evolve_fact [OF ev f(1)] assms(6) by simp
  then have v: "v = u" using settle_good(2) [OF assms(5) oku] by blast
  from assms(5) show ?thesis
  proof (cases rule: settle_final_Inr)
    case run: (1 a d attempt db b)
    note again = settle_again [OF run(9)]
    show ?thesis using again(2,3) [of f] later f v by (cases r) (simp add: same_usage_def)
  qed
qed

subsection \<open>The admission of a protected attempt is idempotent\<close>

lemma admission_numbers: "admitProviderInvocation w c now ids s = Inr (a, t) \<Longrightarrow> assertAdmissionNumbers c = Inr ()"
  by (auto simp: admitProviderInvocation_def Let_def effects)

lemma replayed_admission:
  "assertAdmissionNumbers c = Inr () \<Longrightarrow> find_replay (admission_identity_of c) (ap_request s) = Inr (Some x) \<Longrightarrow>
     admitProviderInvocation w c now ids s = reading (equivalentAdmission x c) s"
  by (simp add: admitProviderInvocation_def Let_def tx_bind_def tx_lift_def reading_def rbind_def)

lemma replay_source:
  assumes "find_replay i db = Inr (Some (stored, source))"
  obtains e where "executions db (ai_requestId i) = Some e" "source = ex_selectedSourceRef e"
  using assms
  by (auto simp: find_replay_def readAdmissionAttempt_def admission_row_def effects split: option.splits)

lemma persisted_source:
  assumes "persist_attempt i source u startedAt m fresh db = Inr (stored, db')"
  shows "\<exists>e. executions db' (ai_requestId i) = Some e \<and> (case source of
      Some s \<Rightarrow> ex_selectedSourceRef e = Some s
    | None \<Rightarrow> \<exists>old. executions db (ai_requestId i) = Some old \<and> ex_selectedSourceRef e = ex_selectedSourceRef old)"
  using assms
  by (cases source)
    (auto simp: persist_attempt_def Let_def effects insert_execution_def create_attempt_def update_execution_def
      new_execution_def split: if_splits option.splits)

lemma executed_source:
  assumes "inspect_new kind i now (Some None) db = Inr d" "execute_admission i d now m fresh db = Inr (stored, db')"
  shows "\<exists>e. executions db' (ai_requestId i) = Some e \<and> ex_selectedSourceRef e = decision_source d"
proof (cases d)
  case (Replay x y)
  with decided_admission [OF assms(1)] show ?thesis by simp
next
  case (Admit_first u source)
  with assms(2) show ?thesis by (auto simp: execute_admission_def dest: persisted_source)
next
  case (Admit_fallback u source)
  with assms(2) have "persist_attempt i None u now m fresh db = Inr (stored, db')" by (simp add: execute_admission_def)
  from persisted_source [OF this] obtain e old where "executions db' (ai_requestId i) = Some e" "executions db (ai_requestId i) = Some old"
    "ex_selectedSourceRef e = ex_selectedSourceRef old" by auto
  moreover have "source = ex_selectedSourceRef old"
    using assms(1) calculation(2) unfolding Admit_fallback
    by (cases kind) (auto simp: inspect_new_def effects split: option.splits if_splits)
  ultimately show ?thesis by (simp add: Admit_fallback)
qed

lemma persisted_material:
  assumes "persist_attempt i source u startedAt m fresh db = Inr (stored, db')"
  shows "\<exists>row. find_attempt db' (sa_ref stored) = Some row \<and> at_frozen row = pm_frozen m
    \<and> at_invocationContract row = pm_invocationContract m"
proof -
  note view = persist_view [OF assms]
  then have unused: "find_attempt db (attempt_ref m fresh) = None" by (simp add: view_of_def)
  from assms have "attempts db' = attempts db @ [new_attempt_row i (attempt_ref m fresh) u startedAt m]"
    by (cases source)
      (auto simp: persist_attempt_def Let_def attempt_ref_def [symmetric] effects insert_execution_def create_attempt_def
        dest!: update_execution_attempts split: if_splits)
  with unused view(2) show ?thesis by (simp add: find_attempt_def find_append new_attempt_row_def)
qed

text \<open>What the new occupation is, as a replay looks it up.\<close>

lemma occupation_found:
  assumes "occupation_effect (occupation_of c stored maximum terms) freshId reservation b b'"
    "find_reservation b (sa_ref stored) = None" "am_account c \<noteq> Some []"
  shows "find_claim b' (sa_ref stored) = Some (claim_of (occupation_of c stored maximum terms))"
    "map_option ur_id (find_reservation b' (sa_ref stored)) = reservation"
    "map_option ur_units (find_reservation b' (sa_ref stored)) = map_option (\<lambda>_. maximum) reservation"
    "reservation_matches (find_reservation b' (sa_ref stored)) c maximum"
proof -
  have "given (am_account c) = am_account c" using assms(3) by (cases "am_account c" rule: given.cases) simp_all
  with assms(1,2)
  have "find_claim b' (sa_ref stored) = Some (claim_of (occupation_of c stored maximum terms))
    \<and> map_option ur_id (find_reservation b' (sa_ref stored)) = reservation
    \<and> map_option ur_units (find_reservation b' (sa_ref stored)) = map_option (\<lambda>_. maximum) reservation
    \<and> reservation_matches (find_reservation b' (sa_ref stored)) c maximum"
    by (cases "am_account c")
      (auto simp: occupation_effect_def occupation_of_def find_claim_def find_reservation_def find_append claim_of_def
        reservation_of_def reservation_matches_def references_of_def)
  then show "find_claim b' (sa_ref stored) = Some (claim_of (occupation_of c stored maximum terms))"
    "map_option ur_id (find_reservation b' (sa_ref stored)) = reservation"
    "map_option ur_units (find_reservation b' (sa_ref stored)) = map_option (\<lambda>_. maximum) reservation"
    "reservation_matches (find_reservation b' (sa_ref stored)) c maximum" by blast+
qed

text \<open>The attempt just admitted, compared with its own command.\<close>

lemma admitted_equivalent:
  assumes ok: "app_ok s" and catalog: "catalog_ok (aw_prices w)" and account: "am_account c \<noteq> Some []"
    and d: "inspect_new (admission_kind_of c) (admission_identity_of c) now (Some None) (ap_request s) = Inr d"
    and terms: "decide_terms w c locked now (ap_request s) (ap_books s) = Inr (sub, f, terms, maximum)"
    and execute: "execute_admission (admission_identity_of c) d now (protected_material c sub f terms) fresh (ap_request s) = Inr (stored, db)"
    and occupy: "createInvocationBillingOccupation (find_attempt db (sa_ref stored)) (occupation_of c stored maximum terms) freshId
         (ap_books s) = Inr (reservation, b)"
  shows "equivalentAdmission (stored, Some (am_subscription c)) c db b
    = Inr \<lparr>ad_attemptId = sa_ref stored, ad_maxTokens = am_inputTokens c + am_maxOutputTokens c, ad_maxCharge = maximum,
         ad_reservationId = reservation, ad_reservationUnits = map_option (\<lambda>_. maximum) reservation,
         ad_admittedAt = sa_startedAt stored\<rparr>"
proof -
  note decided = decided_terms [OF terms catalog]
  from execute_decided [OF execute decided_admission [OF d]] obtain source u where
    persist: "persist_attempt (admission_identity_of c) source u now (protected_material c sub f terms) fresh (ap_request s) = Inr (stored, db)"
    by metis
  from persisted_material [OF persist] obtain row where row: "find_attempt db (sa_ref stored) = Some row"
    "at_frozen row = pm_frozen (protected_material c sub f terms)" "at_invocationContract row = ''protected@1''"
    by (auto simp: protected_material_def)
  have unknown: "find_reservation (ap_books s) (sa_ref stored) = None"
    using occupied_unknown(3) [of "view_of (ap_request s)" "ap_books s" "sa_ref stored"] ok persist_view(1,2) [OF persist]
    by (force simp: app_ok_def books_ok_def find_reservation_def find_None_iff)
  note found = occupation_found [OF occupation_Inr(1) [OF occupy] unknown account]
  have reservation: "map_option ur_id (find_reservation b (sa_ref stored)) = reservation"
    "map_option ur_units (find_reservation b (sa_ref stored)) = map_option (\<lambda>_. maximum) reservation"
    by (rule found(2,3))+
  show ?thesis
    using decided(1,4,5) evidence_price_ids [OF decided(3)]
    by (simp add: equivalentAdmission_def material_frozen [OF row(2,3,1)] physical_matches_def
        readInvocationBillingOccupation_def found(1,4) reservation claim_of_def occupation_of_def references_of_def)
qed

text \<open>
  C12: A protected admission is idempotent as long as its attempt is not settled: when an admission has returned, the
  same command, repeated at any later time and against any other state of the tables that the admission
  reads of other packages, returns the same attempt, reservation and limits, writes nothing, and draws nothing
  from the account again. The prices of the first admission are not negative and its revisions are safe integers, as their types say.
\<close>

theorem protected_admission_replays:
  assumes "new_app start" "(app_step lc)\<^sup>*\<^sup>* start s"
    and "list_all (\<lambda>r. is_safe_int (snd r)) (fr_routingRevisions (ai_routing (am_identity c)))"
    and "catalog_ok (aw_prices w)" "am_account c \<noteq> Some []"
    and "admitProviderInvocation w c now ids s = Inr (a, t)"
    and "(app_step lc)\<^sup>*\<^sup>* t u" "find_claim (ap_books u) (ad_attemptId a) \<noteq> None"
  shows "admitProviderInvocation w' c now' ids' u = Inr (a, u)"
proof -
  let ?i = "admission_identity_of c"
  have ok: "app_ok s" by (rule invocation_books.reachable_inv [OF assms(1,2)])
  have okt: "app_ok t" using admit_good_app [OF assms(6) ok assms(3)] by (simp add: app_good_def)
  have oku: "app_ok u" by (rule invocation_books.run_inv [OF assms(7) okt])
  have ev: "app_evolve t u" by (rule invocation_books.run_evolve [OF assms(7) okt])
  have numbers: "assertAdmissionNumbers c = Inr ()" by (rule admission_numbers [OF assms(6)])
  have "\<exists>x. find_replay ?i (ap_request t) = Inr (Some x) \<and> equivalentAdmission x c (ap_request t) (ap_books t) = Inr a"
    using assms(6)
  proof (cases rule: admit_app_Inr)
    case (replay x)
    then show ?thesis by auto
  next
    case (admitted account d sub f terms maximum stored reservation db b)
    have "admit (admission_kind_of c) ?i now now (protected_material c sub f terms) (fst ids) (ap_request s) = Inr (stored, db)"
      using admitted(2,3,5) by (simp add: admit_def)
    moreover have "typed_admission (admission_kind_of c) ?i"
      using assms(3) by (simp add: typed_admission_def admission_kind_of_def admission_identity_of_def)
    moreover have "tables_ok (ap_request s)" using ok by (simp add: app_ok_def)
    ultimately obtain source where replay: "find_replay ?i db = Inr (Some (stored, source))"
      using admit_then_replay by blast
    from replay_source [OF this] obtain e where e: "executions db (ai_requestId ?i) = Some e" "source = ex_selectedSourceRef e" .
    with executed_source [OF admitted(3,5)] admitted(8) have "source = Some (am_subscription c)" by simp
    with replay admitted_equivalent [OF ok assms(4,5) admitted(3-6)] show ?thesis
      by (intro exI [of _ "(stored, source)"]) (simp add: admitted(7,9))
  qed
  then obtain x where x: "find_replay ?i (ap_request t) = Inr (Some x)" "equivalentAdmission x c (ap_request t) (ap_books t) = Inr a"
    by blast
  from x(2) have ref: "ad_attemptId a = sa_ref (fst x)"
    by (auto simp: equivalentAdmission_def Let_def effects readInvocationBillingOccupation_def split: option.splits if_splits)
  have "find_replay ?i (ap_request u) = Inr (Some x)"
    using okt oku ev by (intro replay_stable [OF _ _ _ x(1)]) (simp_all add: app_ok_def app_evolve_def)
  moreover have "equivalentAdmission x c (ap_request u) (ap_books u) = Inr a"
    by (rule equivalent_stable [OF x(2) ev oku]) (use assms(8) ref in simp)
  ultimately show ?thesis using replayed_admission [OF numbers] by (simp add: effects)
qed

subsection \<open>What an admission promises\<close>

lemma persisted_find:
  assumes "persist_attempt i source u startedAt m fresh db = Inr (stored, db')" "find_attempt db r \<noteq> None"
  shows "find_attempt db' r = find_attempt db r"
proof -
  from assms(1) have "attempts db' = attempts db @ [new_attempt_row i (attempt_ref m fresh) u startedAt m]"
    by (cases source)
      (auto simp: persist_attempt_def Let_def attempt_ref_def [symmetric] effects insert_execution_def create_attempt_def
        dest!: update_execution_attempts split: if_splits)
  with assms(2) show ?thesis by (auto simp: find_attempt_def find_append split: option.splits)
qed

text \<open>The new claim adds at most its own amount to what a window holds.\<close>

lemma claimed_in_grows:
  assumes "\<And>c. c \<in> set (claims b) \<Longrightarrow> find_attempt db' (bc_attempt c) = find_attempt db (bc_attempt c)"
    and "claims b' = claims b @ [x]" "0 \<le> amount x"
  shows "claimed_in mine w amount db' b' \<le> claimed_in mine w amount db b + amount x"
proof -
  have "filter (\<lambda>c. mine (bc_refs c)
        \<and> (case find_attempt db' (bc_attempt c) of None \<Rightarrow> False | Some a \<Rightarrow> fst w \<le> at_startedAt a \<and> at_startedAt a < snd w)) (claims b)
    = filter (\<lambda>c. mine (bc_refs c)
        \<and> (case find_attempt db (bc_attempt c) of None \<Rightarrow> False | Some a \<Rightarrow> fst w \<le> at_startedAt a \<and> at_startedAt a < snd w)) (claims b)"
    by (rule filter_cong) (simp_all add: assms(1))
  then show ?thesis using assms(2,3) by (simp add: claimed_in_def)
qed

definition within_budget ::
  "budget_limit \<Rightarrow> (billing_references \<Rightarrow> bool) \<Rightarrow> timestamp \<times> timestamp \<Rightarrow> tables \<Rightarrow> books \<Rightarrow> bool" where
  "within_budget l mine w db b \<longleftrightarrow>
     (if bl_metric l = ''tokens''
      then settled_in mine w (totalTokens \<circ> uf_usage) b + claimed_in mine w bc_maxTokens db b \<le> js_trunc (bl_limitValue l)
      else case bl_limitUnits l of
             None \<Rightarrow> False
           | Some units \<Rightarrow> settled_in mine w uf_actual b + claimed_in mine w bc_maxCharge db b \<le> units)"

lemma checked_within_budget:
  assumes "check_budget (bl_metric l) e1 e2 (bl_limitValue l) (bl_limitUnits l) mine w i db b = Inr ()"
    and "claimed_in mine w bc_maxTokens db' b' \<le> claimed_in mine w bc_maxTokens db b + bi_maxTokens i"
    and "claimed_in mine w bc_maxCharge db' b' \<le> claimed_in mine w bc_maxCharge db b + bi_maxCharge i"
    and "facts b' = facts b"
  shows "within_budget l mine w db' b'"
  using assms by (auto simp: check_budget_def within_budget_def settled_in_def split: if_splits option.splits)

lemma traverse_all: "traverse f xs = Inr ys \<Longrightarrow> x \<in> set xs \<Longrightarrow> \<exists>y \<in> set ys. f x = Inr y"
  by (induction xs arbitrary: ys) (auto simp: effects)

lemma plan_budgets_checked:
  assumes "assertInvocationPlanBudgets limits i db b = Inr ()" "l \<in> set limits" "bl_planId l = bi_planId i"
  shows "\<exists>w. fixedBudgetWindow (bi_effectiveStart i) (bi_effectiveEnd i) (bl_windowType l) (bl_windowSeconds l) (bi_occurredAt i) = Inr w
    \<and> check_budget (bl_metric l) (RelayError ''plan_subscription_budget_tokens_exceeded'' 402 [])
         (RelayError ''plan_subscription_budget_amount_exceeded'' 402 []) (bl_limitValue l) (bl_limitUnits l) (plan_mine l i) w i db b = Inr ()"
proof -
  from assms(1) obtain ws us where ws:
    "traverse (\<lambda>l. rbind (fixedBudgetWindow (bi_effectiveStart i) (bi_effectiveEnd i) (bl_windowType l)
                                   (bl_windowSeconds l) (bi_occurredAt i)) (\<lambda>w. Inr (l, w)))
              (filter (\<lambda>l. bl_planId l = bi_planId i) limits) = Inr ws"
    "traverse (\<lambda>(l, w). check_budget (bl_metric l) (RelayError ''plan_subscription_budget_tokens_exceeded'' 402 [])
              (RelayError ''plan_subscription_budget_amount_exceeded'' 402 []) (bl_limitValue l) (bl_limitUnits l) (plan_mine l i) w i db b)
              ws = Inr us"
    by (auto simp: assertInvocationPlanBudgets_def effects)
  from traverse_all [OF ws(1), of l] assms(2,3) obtain w where w: "(l, w) \<in> set ws"
    "fixedBudgetWindow (bi_effectiveStart i) (bi_effectiveEnd i) (bl_windowType l) (bl_windowSeconds l) (bi_occurredAt i) = Inr w"
    by (auto simp: effects)
  from traverse_all [OF ws(2) w(1)] w(2) show ?thesis by auto
qed

lemma decided_limits:
  assumes "decide_terms w c account now db b = Inr (sub, f, t, maximum)"
  shows "available_subscription w c now = Inr sub"
    "assertInvocationPlanBudgets (aw_planLimits w) (budget_input_of c sub maximum now) db b = Inr ()"
    "(case (given (am_account c), account) of
        (Some _, Some a) \<Rightarrow> assertInvocationBillingCapacity (aw_paygoLimit w) a (am_user c) maximum b | _ \<Rightarrow> Inr ()) = Inr ()"
  using assms by (auto simp: decide_terms_def effects split: if_splits)

lemma capacity_after:
  assumes "assertInvocationBillingCapacity limit account user maximum b = Inr ()"
    and "b' = b\<lparr>claims := cs, reservations := reservations b @ [r]\<rparr>"
    and "ur_account r = la_id account" "ur_user r = user" "ur_held r = maximum" "is_open r"
  shows "held_units b' (la_id account) \<le> la_balance account" "open_for_user b' user \<le> limit"
  using assms by (auto simp: assertInvocationBillingCapacity_def Let_def held_units_def open_for_user_def split: if_splits)

text \<open>A budget of the plan, and the funds, after the writes of an admission.\<close>

lemma budget_after:
  assumes "decide_terms w c account now db b = Inr (sub, f, t, maximum)" "l \<in> set (aw_planLimits w)" "bl_planId l = am_planId c"
    and "\<And>mine win. claimed_in mine win bc_maxTokens db' b' \<le> claimed_in mine win bc_maxTokens db b + (am_inputTokens c + am_maxOutputTokens c)"
    and "\<And>mine win. claimed_in mine win bc_maxCharge db' b' \<le> claimed_in mine win bc_maxCharge db b + maximum"
    and "facts b' = facts b"
  shows "\<exists>win. fixedBudgetWindow (su_effectiveStart sub) (su_effectiveEnd sub) (bl_windowType l) (bl_windowSeconds l) now = Inr win
      \<and> within_budget l (\<lambda>r. bf_subscription r = am_subscription c \<and> (bl_scope l \<noteq> ''user'' \<or> bf_user r = am_user c)) win db' b'"
proof -
  let ?i = "budget_input_of c sub maximum now"
  have mine: "plan_mine l ?i = (\<lambda>r. bf_subscription r = am_subscription c \<and> (bl_scope l \<noteq> ''user'' \<or> bf_user r = am_user c))"
    by (simp add: plan_mine_def budget_input_of_def fun_eq_iff)
  from plan_budgets_checked [OF decided_limits(2) [OF assms(1)] assms(2)] assms(3) obtain win where win:
    "fixedBudgetWindow (bi_effectiveStart ?i) (bi_effectiveEnd ?i) (bl_windowType l) (bl_windowSeconds l) (bi_occurredAt ?i) = Inr win"
    "check_budget (bl_metric l) (RelayError ''plan_subscription_budget_tokens_exceeded'' 402 [])
       (RelayError ''plan_subscription_budget_amount_exceeded'' 402 []) (bl_limitValue l) (bl_limitUnits l) (plan_mine l ?i) win ?i db b = Inr ()"
    by (auto simp: budget_input_of_def)
  have "within_budget l (plan_mine l ?i) win db' b'"
    by (rule checked_within_budget [OF win(2)]) (use assms(4-6) in \<open>simp_all add: budget_input_of_def\<close>)
  with win(1) mine show ?thesis by (auto simp: budget_input_of_def)
qed

lemma funds_after:
  assumes "lockInvocationBillingAdmissionFunding (am_account c) (am_user c) b = Inr account"
    "decide_terms w c account now db b = Inr (sub, f, t, maximum)"
    "occupation_effect (occupation_of c stored maximum t) freshId reservation b b'" "given (am_account c) = Some aid"
  shows "\<exists>x. find_account b' aid = Some x \<and> held_units b' aid \<le> ca_balance x \<and> open_for_user b' (am_user c) \<le> aw_paygoLimit w"
proof -
  let ?o = "occupation_of c stored maximum t"
  from assms(1,4) obtain x where x: "find_account b aid = Some x" "account = Some (lock_of x)" "ca_id x = aid"
    by (auto simp: lockInvocationBillingAdmissionFunding_def lockCreditAccount_def lock_of_def Let_def effects split: if_splits option.splits)
  have row: "b' = b\<lparr>claims := claims b @ [claim_of ?o], reservations := reservations b @ [reservation_of ?o aid freshId]\<rparr>"
    using assms(3,4) by (simp add: occupation_effect_def occupation_of_def)
  have "assertInvocationBillingCapacity (aw_paygoLimit w) (lock_of x) (am_user c) maximum b = Inr ()"
    using decided_limits(3) [OF assms(2)] assms(4) x(2) by simp
  from capacity_after [OF this row] x show ?thesis
    by (simp add: find_account_def row lock_of_def reservation_of_def occupation_of_def references_of_def is_open_def)
qed

text \<open>
  C20: What an admission that is not a replay has checked still holds once it has written: the open holds on the account
  that it charges, the new one included, are covered by the balance; the user has no more open holds than the
  limit; and in every budget of the plan the usage that is settled in the current window, together with what is claimed in it
  including the new claim, is within the limit.
\<close>

theorem admission_within_limits:
  assumes "new_app start" "(app_step lc)\<^sup>*\<^sup>* start s"
    and "find_replay (admission_identity_of c) (ap_request s) = Inr None"
    and "admitProviderInvocation w c now ids s = Inr (a, t)"
  shows "\<exists>sub. available_subscription w c now = Inr sub
    \<and> (case given (am_account c) of
         None \<Rightarrow> True
       | Some aid \<Rightarrow> \<exists>x. find_account (ap_books t) aid = Some x \<and> held_units (ap_books t) aid \<le> ca_balance x
           \<and> open_for_user (ap_books t) (am_user c) \<le> aw_paygoLimit w)
    \<and> (\<forall>l \<in> set (aw_planLimits w). bl_planId l = am_planId c \<longrightarrow>
         (\<exists>win. fixedBudgetWindow (su_effectiveStart sub) (su_effectiveEnd sub) (bl_windowType l) (bl_windowSeconds l) now = Inr win
            \<and> within_budget l (\<lambda>r. bf_subscription r = am_subscription c \<and> (bl_scope l \<noteq> ''user'' \<or> bf_user r = am_user c))
                win (ap_request t) (ap_books t)))"
  using assms(4)
proof (cases rule: admit_app_Inr)
  case (replay x)
  with assms(3) show ?thesis by simp
next
  case (admitted account d sub f terms maximum stored reservation db b)
  let ?o = "occupation_of c stored maximum terms"
  have ok: "app_ok s" by (rule invocation_books.reachable_inv [OF assms(1,2)])
  then have occupied: "occupied (view_of (ap_request s)) (ap_books s)" by (simp add: app_ok_def books_ok_def)
  note limits = decided_limits [OF admitted(4)]
  from execute_decided [OF admitted(5) decided_admission [OF admitted(3)]] obtain source u where
    persist: "persist_attempt (admission_identity_of c) source u now (protected_material c sub f terms) (fst ids) (ap_request s) = Inr (stored, db)"
    by metis
  note effect = occupation_Inr(1) [OF admitted(6)]
  have rows: "claims b = claims (ap_books s) @ [claim_of ?o]" "facts b = facts (ap_books s)" "accounts b = accounts (ap_books s)"
    using effect by (auto simp: occupation_effect_def split: option.splits)
  have positive: "0 \<le> bc_maxTokens (claim_of ?o)" "0 \<le> bc_maxCharge (claim_of ?o)"
    using admitted(6) by (auto simp: createInvocationBillingOccupation_def effects insert_claim_Inr claim_insert_allowed_def split: if_splits option.splits)
  have known: "find_attempt db (bc_attempt x) = find_attempt (ap_request s) (bc_attempt x)" if "x \<in> set (claims (ap_books s))" for x
  proof (rule persisted_find [OF persist])
    have "find_claim (ap_books s) (bc_attempt x) \<noteq> None" using that by (auto simp: find_claim_def find_None_iff)
    with occupied_refs(2) [OF occupied] show "find_attempt (ap_request s) (bc_attempt x) \<noteq> None" by (auto simp: view_of_def)
  qed
  have grows: "claimed_in mine win amount db b \<le> claimed_in mine win amount (ap_request s) (ap_books s) + amount (claim_of ?o)"
    if "0 \<le> amount (claim_of ?o)" for mine win amount
    by (rule claimed_in_grows [where x = "claim_of ?o"]) (use known rows(1) that in auto)
  have budgets: "\<exists>win. fixedBudgetWindow (su_effectiveStart sub) (su_effectiveEnd sub) (bl_windowType l) (bl_windowSeconds l) now = Inr win
      \<and> within_budget l (\<lambda>r. bf_subscription r = am_subscription c \<and> (bl_scope l \<noteq> ''user'' \<or> bf_user r = am_user c)) win db b"
    if "l \<in> set (aw_planLimits w)" "bl_planId l = am_planId c" for l
    by (rule budget_after [OF admitted(4) that])
      (use grows [of bc_maxTokens] grows [of bc_maxCharge] positive rows(2) in \<open>simp_all add: claim_of_def occupation_of_def\<close>)
  have funds: "\<exists>x. find_account b aid = Some x \<and> held_units b aid \<le> ca_balance x \<and> open_for_user b (am_user c) \<le> aw_paygoLimit w"
    if "given (am_account c) = Some aid" for aid
    by (rule funds_after [OF admitted(1,4) effect that])
  show ?thesis
    using limits(1) budgets funds by (intro exI [of _ sub]) (auto simp: admitted(9) split: option.splits)
qed

subsection \<open>Witnesses\<close>

theorem billing_occupation_exact_witness:
  "\<exists>t. (app_step demo_lc)\<^sup>*\<^sup>* demo_start t \<and> find_fact (ap_books t) ''att'' \<noteq> None
     \<and> attempt_is (ap_request t) ''att'' at_usageSettled \<and> find_claim (ap_books t) ''att'' = None"
proof -
  obtain t where t: "(app_step demo_lc)\<^sup>*\<^sup>* demo_start t" "find_fact (ap_books t) ''att'' = Some demo_fact"
    using demo_reaches_settled by blast
  from billing_occupation_exact [OF demo_new t(1), of "''att''"] t(2)
  have "attempt_is (ap_request t) ''att'' at_usageSettled" "find_claim (ap_books t) ''att'' = None"
    by (auto simp: attempt_is_def split: option.splits)
  with t show ?thesis by blast
qed

theorem ledger_charges_exact_witness:
  "\<exists>t. new_app demo_start \<and> (app_step demo_lc)\<^sup>*\<^sup>* demo_start t \<and> find_fact (ap_books t) ''att'' = Some demo_fact
     \<and> (\<exists>e \<in> set (ledger (ap_books t)). lv_attempt e = Some ''att'')
     \<and> (\<exists>e \<in> set (billing_events (ap_books t)). be_units e = 220)"
proof -
  obtain t where t: "(app_step demo_lc)\<^sup>*\<^sup>* demo_start t" "find_fact (ap_books t) ''att'' = Some demo_fact"
    using demo_reaches_settled by blast
  have fact: "uf_posting demo_fact \<noteq> None" "uf_attempt demo_fact = ''att''" "uf_actual demo_fact = 220"
    by (simp_all add: demo_fact_def fact_of_def demo_input_def)
  have "demo_fact \<in> set (facts (ap_books t))" using t(2) by (auto simp: find_fact_def dest: find_key_SomeD)
  from bspec [OF conjunct2 [OF conjunct2 [OF ledger_charges_exact [OF demo_new t(1)]]] this] fact
  have "\<exists>e \<in> set (ledger (ap_books t)). lv_attempt e = Some ''att''" "\<exists>e \<in> set (billing_events (ap_books t)). be_units e = 220"
    by auto
  with demo_new t show ?thesis by blast
qed

theorem settlement_happens_once_witness:
  "\<exists>t. settleFinalUsage demo_lc demo_settle Outcome_settled False None 30 (''be'', ''l1'') demo_admitted = Inr (demo_result, t)
     \<and> settleFinalUsage demo_lc demo_settle Outcome_settled False None 40 (''be2'', ''l2'') t = Inr (demo_result\<lparr>rs_replayed := True\<rparr>, t)
     \<and> same_usage (sc_usage demo_settle) (sc_usage demo_settle)"
proof -
  obtain t where t: "settleFinalUsage demo_lc demo_settle Outcome_settled False None 30 (''be'', ''l1'') demo_admitted = Inr (demo_result, t)"
    "ap_request t = demo_settled_tables" "find_fact (ap_books t) ''att'' = Some demo_fact"
    using demo_reaches_settled by blast
  note again = demo_settles_again [OF t(2,3), of 40 "(''be2'', ''l2'')"]
  from settlement_happens_once [OF demo_new demo_reaches_admitted t(1) rtranclp.rtrancl_refl again refl] t(1) again
  show ?thesis by blast
qed

theorem protected_admission_replays_witness:
  "admitProviderInvocation demo_world demo_command 10 (''att'', ''res'') demo_leased = Inr (demo_admission, demo_admitted)
   \<and> admitProviderInvocation (demo_world\<lparr>aw_apiKeys := {}\<rparr>) demo_command 20 (''x'', ''y'') demo_admitted = Inr (demo_admission, demo_admitted)"
proof (intro conjI)
  show "admitProviderInvocation demo_world demo_command 10 (''att'', ''res'') demo_leased = Inr (demo_admission, demo_admitted)"
    by (rule demo_admits)
  show "admitProviderInvocation (demo_world\<lparr>aw_apiKeys := {}\<rparr>) demo_command 20 (''x'', ''y'') demo_admitted = Inr (demo_admission, demo_admitted)"
    by (rule protected_admission_replays [OF demo_new demo_reaches_leased demo_typed demo_catalog _ demo_admits rtranclp.rtrancl_refl])
      (simp_all add: demo_command_def demo_admission_def demo_admitted_def demo_rows(2))
qed

theorem admission_within_limits_witness:
  "admitProviderInvocation demo_world demo_command 10 (''att'', ''res'') demo_leased = Inr (demo_admission, demo_admitted)
   \<and> (\<exists>x. find_account (ap_books demo_admitted) ''acct'' = Some x \<and> held_units (ap_books demo_admitted) ''acct'' \<le> ca_balance x)
   \<and> (\<exists>win. within_budget demo_limit (\<lambda>r. bf_subscription r = am_subscription demo_command
        \<and> (bl_scope demo_limit \<noteq> ''user'' \<or> bf_user r = am_user demo_command)) win (ap_request demo_admitted) (ap_books demo_admitted))"
proof -
  have none: "find_replay (admission_identity_of demo_command) (ap_request demo_leased) = Inr None"
    by code_simp
  have demo: "demo_limit \<in> set (aw_planLimits demo_world)" "bl_planId demo_limit = am_planId demo_command"
    "given (am_account demo_command) = Some ''acct''"
    by (simp_all add: demo_world_def demo_limit_def demo_command_def)
  from admission_within_limits [OF demo_new demo_reaches_leased none demo_admits] obtain sub :: plan_subscription where
    sub: "case given (am_account demo_command) of
         None \<Rightarrow> True
       | Some aid \<Rightarrow> \<exists>x. find_account (ap_books demo_admitted) aid = Some x \<and> held_units (ap_books demo_admitted) aid \<le> ca_balance x
           \<and> open_for_user (ap_books demo_admitted) (am_user demo_command) \<le> aw_paygoLimit demo_world"
      "\<forall>l \<in> set (aw_planLimits demo_world). bl_planId l = am_planId demo_command \<longrightarrow>
         (\<exists>win. fixedBudgetWindow (su_effectiveStart sub) (su_effectiveEnd sub) (bl_windowType l) (bl_windowSeconds l) 10 = Inr win
            \<and> within_budget l (\<lambda>r. bf_subscription r = am_subscription demo_command
                \<and> (bl_scope l \<noteq> ''user'' \<or> bf_user r = am_user demo_command))
                win (ap_request demo_admitted) (ap_books demo_admitted))"
    by blast
  from bspec [OF sub(2) demo(1)] demo(2) have "\<exists>win. within_budget demo_limit (\<lambda>r. bf_subscription r = am_subscription demo_command
        \<and> (bl_scope demo_limit \<noteq> ''user'' \<or> bf_user r = am_user demo_command)) win (ap_request demo_admitted) (ap_books demo_admitted)"
    by blast
  moreover from sub(1) demo(3)
  have "\<exists>x. find_account (ap_books demo_admitted) ''acct'' = Some x \<and> held_units (ap_books demo_admitted) ''acct'' \<le> ca_balance x"
    by auto
  ultimately show ?thesis using demo_admits by blast
qed

end
