(* ===== verification/Claimless_Theorems.thy ===== *)
theory Claimless_Theorems
  imports Billing_Theorems
begin

section \<open>What the admission of a claimless attempt promises\<close>

text \<open>
  A claimless attempt is admitted only for a user who may use the plan, along a path that is still the one that
  was frozen; its admission can be repeated for ever.
\<close>

subsection \<open>Who may use a plan\<close>

text \<open>The scope of a subscription, as a rule for each kind: everyone, one user, the members of a team.\<close>

definition team_open :: "claimless_world \<Rightarrow> string \<Rightarrow> string \<Rightarrow> timestamp \<Rightarrow> bool" where
  "team_open w team_id user now \<longleftrightarrow>
     (\<exists>team. cw_teams w team_id = Some team \<and> tm_status team = ''enabled''
        \<and> (tm_ownerId team = user \<or> (team_id, user) \<in> set (cw_memberships w))
        \<and> (\<forall>d \<in> set (cw_deletions w). dl_team d = team_id \<longrightarrow> dl_cancelledAt d \<noteq> None \<or> dl_purgedAt d \<noteq> None)
        \<and> ((\<forall>p \<in> set (cw_partners w). pn_team p \<noteq> team_id)
           \<or> (\<exists>p \<in> set (cw_partners w). pn_team p = team_id \<and> partner_active p (''team:'' @ team_id) now)))"

inductive may_use :: "claimless_world \<Rightarrow> string \<Rightarrow> timestamp \<Rightarrow> string \<Rightarrow> bool" for w user now where
  everyone: "may_use w user now ''global:''"
| own: "may_use w user now (''user:'' @ user)"
| member: "team_id \<noteq> [] \<Longrightarrow> team_open w team_id user now \<Longrightarrow> may_use w user now (''team:'' @ team_id)"

inductive_simps may_use_team: "may_use w user now (''team:'' @ team_id)"

lemma team_authorization:
  "assertTeamAuthorization w (''team:'' @ team_id) team_id user now = Inr () \<longleftrightarrow> team_open w team_id user now"
proof (cases "cw_teams w team_id")
  case (Some team)
  have partners: "list_ex (\<lambda>p. partner_active p scope now) (filter (\<lambda>p. pn_team p = team_id) (cw_partners w))
      \<longleftrightarrow> (\<exists>p \<in> set (cw_partners w). pn_team p = team_id \<and> partner_active p scope now)" for scope
    by (auto simp: list_ex_iff)
  show ?thesis
    unfolding assertTeamAuthorization_def team_open_def partners by (simp add: Some Let_def list_ex_iff filter_empty_conv) blast
qed (simp add: assertTeamAuthorization_def team_open_def)

lemma source_authorization:
  "assertCpaBasicSourceAuthorization w scope user now = Inr () \<longleftrightarrow> may_use w user now scope"
proof (cases "prefix ''team:'' scope")
  case True
  then obtain team_id where scope: "scope = ''team:'' @ team_id" by (auto simp: prefix_def)
  show ?thesis
    unfolding assertCpaBasicSourceAuthorization_def scope may_use_team team_authorization [symmetric] by simp
next
  case False
  then have "may_use w user now scope \<longleftrightarrow> scope = ''global:'' \<or> scope = ''user:'' @ user"
    by (subst may_use.simps) auto
  with False show ?thesis by (auto simp: assertCpaBasicSourceAuthorization_def)
qed

subsection \<open>The frozen path\<close>

text \<open>
  Every AccessPoint of the path is enabled at the revision it was frozen with, and the target that was chosen at
  it is enabled and leads to the next AccessPoint, the last one to the model.
\<close>

definition path_current :: "claimless_world \<Rightarrow> claimless_command \<Rightarrow> bool" where
  "path_current w c \<longleftrightarrow>
     (\<forall>i < length (cc_chain c). \<exists>x t. cw_accessPoints w (cc_chain c ! i) = Some x \<and> xp_status x = ''enabled'' \<and> xp_removedAt x = None
        \<and> (cc_chain c ! i, xp_routingRevision x) \<in> set (fr_routingRevisions (cc_routing c))
        \<and> cw_targets w (cc_path c ! i) = Some t \<and> tg_status t = ''enabled'' \<and> tg_removedAt t = None
        \<and> pe_accessPoint (tg_edge t) = cc_chain c ! i
        \<and> edge_matches (cc_candidate c) (if Suc i < length (cc_chain c) then Some (cc_chain c ! Suc i) else None) (tg_edge t))"

lemma first_of_nth: "first_of (drop (Suc i) xs) = (if Suc i < length xs then Some (xs ! Suc i) else None)"
proof (cases "Suc i < length xs")
  case True
  then show ?thesis by (simp add: Cons_nth_drop_Suc [symmetric] del: drop_Suc)
qed simp

lemma targets_current_nth:
  assumes "targets_current w k aps path" "i < length aps"
  shows "\<exists>t. cw_targets w (path ! i) = Some t \<and> tg_status t = ''enabled'' \<and> tg_removedAt t = None
     \<and> pe_accessPoint (tg_edge t) = aps ! i \<and> edge_matches k (first_of (drop (Suc i) aps)) (tg_edge t)"
  using assms
proof (induction w k aps path arbitrary: i rule: targets_current.induct)
  case (1 w k ap aps edge path)
  then show ?case by (cases i) (auto split: option.splits)
qed simp_all

lemma claimless_path_current:
  assumes "claimless_path w c = Inr ()"
  shows "path_current w c"
proof -
  from assms have points: "list_all (access_point_current w (map_of (rev (fr_routingRevisions (cc_routing c))))) (cc_chain c)"
    and targets: "targets_current w (cc_candidate c) (cc_chain c) (cc_path c)"
    by (auto simp: claimless_path_def Let_def split: if_splits)
  have "\<exists>x. cw_accessPoints w (cc_chain c ! i) = Some x \<and> xp_status x = ''enabled'' \<and> xp_removedAt x = None
      \<and> (cc_chain c ! i, xp_routingRevision x) \<in> set (fr_routingRevisions (cc_routing c))" if "i < length (cc_chain c)" for i
    proof -
    from points that have "access_point_current w (map_of (rev (fr_routingRevisions (cc_routing c)))) (cc_chain c ! i)"
      by (simp add: list_all_length)
    then show ?thesis by (auto simp: access_point_current_def dest!: map_of_SomeD split: option.splits)
  qed
  with targets_current_nth [OF targets] show ?thesis by (fastforce simp: path_current_def first_of_nth)
qed

subsection \<open>Repeating an admission\<close>

lemma claimless_prices_read:
  assumes "prepareClaimlessInvocationBillingFinancialTerms lc g i = Inr t"
  shows "frozenClaimlessAccessPointPriceIds (Some (ct_accessPointProfilesJson t)) = Inr (map px_priceId (ti_contexts i))"
proof -
  let ?item = "\<lambda>c. rbind (context_price g c) (\<lambda>row. rbind (encodeFrozenPriceProfile lc row) (\<lambda>json.
      Inr (Json_obj (context_members c @ [(''profileJson'', Json_str json)]))))"
  from assms obtain base_json cost_json profiles where run: "traverse ?item (ti_contexts i) = Inr profiles"
    and t: "t = \<lparr>ct_priceProfileJson = base_json, ct_costProfileJson = cost_json, ct_accessPointProfilesJson = json_print (Json_arr profiles)\<rparr>"
    unfolding prepareClaimlessInvocationBillingFinancialTerms_def rbind_Inr_iff sum.inject by metis
  have printed: "ct_accessPointProfilesJson t = json_print (Json_arr profiles)" by (simp add: t)
  from run have items: "list_all2 (\<lambda>c j. \<exists>json. j = Json_obj (context_members c @ [(''profileJson'', Json_str json)])) (ti_contexts i) profiles"
    unfolding traverse_Inr_iff by (rule list_all2_mono) (auto simp: effects)
  have "list_all json_wf profiles \<and> list_all2 (\<lambda>c j. frozen_price_id (of_json j) = Inr (px_priceId c)) (ti_contexts i) profiles"
    using items
    by (induction rule: list_all2_induct)
      (auto simp: context_members_def json_of_text_option_def frozen_price_id_def split: option.splits)
  then have wf: "list_all json_wf profiles"
    and ids: "list_all2 (\<lambda>c j. frozen_price_id (of_json j) = Inr (px_priceId c)) (ti_contexts i) profiles" by simp_all
  have "json_parse (ct_accessPointProfilesJson t) = Some (JArr (map of_json profiles))"
    unfolding printed using wf by (subst json_roundtrip) (simp_all add: o_def)
  moreover have "traverse frozen_price_id (map of_json profiles) = Inr (map px_priceId (ti_contexts i))"
    using ids by (simp add: traverse_Inr_iff list_all2_conv_all_nth)
  ultimately show ?thesis by (simp add: frozenClaimlessAccessPointPriceIds_def parseStringifiedArray_def rbind_def)
qed

lemma decided_claimless_material:
  assumes "decide_claimless lc w c now db b = Inr m" "claimless_shape c"
  obtains s p terms where "m = claimless_material c s p terms"
    "frozenClaimlessAccessPointPriceIds (Some (ct_accessPointProfilesJson terms)) = Inr (cc_accessPointPriceIds c)"
proof -
  from assms(1) obtain s p contexts terms where steps:
    "price_contexts (claimless_facts w c (pp_ownerScopeRef p)) (su_scopeRef s)
       (zip (cc_chain c) (zip (cc_path c) (cc_accessPointPriceIds c))) = Inr contexts"
    "prepareClaimlessInvocationBillingFinancialTerms lc (cw_prices w) (claimless_terms_input c contexts) = Inr terms"
    "Inr (claimless_material c s p terms) = (Inr m :: persistence_material result)"
    unfolding decide_claimless_def rbind_Inr_iff by (elim exE conjE)
  then have m: "m = claimless_material c s p terms" by simp
  from assms(2) have lengths: "length (cc_path c) = length (cc_chain c)" "length (cc_accessPointPriceIds c) = length (cc_chain c)"
    by (simp_all add: claimless_shape_def Let_def)
  have "map (snd \<circ> snd) (zip (cc_chain c) (zip (cc_path c) (cc_accessPointPriceIds c))) = cc_accessPointPriceIds c"
    using lengths by (simp add: map_zip_map2 list_eq_iff_nth_eq)
  with price_contexts_ids [OF steps(1)] claimless_prices_read [OF steps(2)] show thesis
    by (intro that [OF m]) (simp add: claimless_terms_input_def)
qed

text \<open>The row of an admission, as its own command compares it.\<close>

lemma persisted_row:
  assumes "persist_attempt i source u startedAt m fresh db = Inr (stored, db')"
  shows "find_attempt db' (attempt_ref m fresh) = Some (new_attempt_row i (attempt_ref m fresh) u startedAt m)"
    "stored = stored_of_command i (attempt_ref m fresh) startedAt"
proof -
  have unused: "find_attempt db (attempt_ref m fresh) = None" using persist_view(1) [OF assms] by (simp add: view_of_def)
  from assms have "attempts db' = attempts db @ [new_attempt_row i (attempt_ref m fresh) u startedAt m]"
    by (cases source)
      (auto simp: persist_attempt_def Let_def attempt_ref_def [symmetric] effects insert_execution_def create_attempt_def
        dest!: update_execution_attempts split: if_splits)
  with unused show "find_attempt db' (attempt_ref m fresh) = Some (new_attempt_row i (attempt_ref m fresh) u startedAt m)"
    by (simp add: find_attempt_def find_append new_attempt_row_def)
  show "stored = stored_of_command i (attempt_ref m fresh) startedAt"
    using assms by (auto simp: persist_attempt_def Let_def attempt_ref_def [symmetric] effects)
qed

lemma new_claimless_equivalent:
  assumes "claimless_shape c" "cc_attemptId c \<noteq> Some []" "decide_claimless lc w c now db b = Inr m"
  shows "assertEquivalentCpaBasicAttempt (new_attempt_row (claimless_identity c) (attempt_ref m fresh) u now m) c = Inr ()"
proof -
  from decided_claimless_material [OF assms(3,1)] obtain s p terms where m: "m = claimless_material c s p terms"
    "frozenClaimlessAccessPointPriceIds (Some (ct_accessPointProfilesJson terms)) = Inr (cc_accessPointPriceIds c)" .
  let ?a = "new_attempt_row (claimless_identity c) (attempt_ref m fresh) u now m"
  have "case cc_attemptId c of None \<Rightarrow> True | Some ref \<Rightarrow> at_id ?a = ref"
    using assms(2) by (cases "cc_attemptId c" rule: given.cases) (simp_all add: new_attempt_row_def attempt_ref_def m(1) claimless_material_def)
  moreover have frozen: "at_frozen ?a = pm_frozen (claimless_material c s p terms)" "at_invocationContract ?a = ''cpa-basic@1''"
    by (simp_all add: new_attempt_row_def m(1)) (simp add: claimless_material_def)
  ultimately have "claimless_columns_match ?a c"
    by (simp add: claimless_columns_match_def Let_def frozen_text_def frozen_flag_def claimless_material_def text_or_null_def
        split: option.split) (simp add: new_attempt_row_def)
  moreover have "frozen_text ?a ''accessPointPriceProfilesJson'' = Some (ct_accessPointProfilesJson terms)"
    by (simp add: frozen_text_def frozen(1) claimless_material_def)
  ultimately show ?thesis by (simp add: assertEquivalentCpaBasicAttempt_def m(2) require_def rbind_def)
qed

text \<open>The attempt that a command admitted is the only one that a repetition of the command finds.\<close>

definition recorded_claimless :: "tables \<Rightarrow> claimless_command \<Rightarrow> attempt_row \<Rightarrow> bool" where
  "recorded_claimless db c a \<longleftrightarrow>
     a \<in> set (attempts db) \<and> assertEquivalentCpaBasicAttempt a c = Inr ()
     \<and> (\<exists>x. find_replay (claimless_identity c) db = Inr (Some x))"

lemma equivalent_columns:
  "assertEquivalentCpaBasicAttempt a c = Inr () \<Longrightarrow> at_requestId a = ai_requestId (cc_identity c)
     \<and> at_candidate a = cc_candidate c \<and> at_attemptIndex a = ai_attemptIndex (cc_identity c)"
  by (auto simp: assertEquivalentCpaBasicAttempt_def claimless_columns_match_def Let_def split: if_splits)

lemma only_attempt:
  assumes "tables_ok db" "a \<in> set (attempts db)" "b \<in> set (attempts db)" "at_requestId b = at_requestId a"
    "fc_candidateId (at_candidate b) = fc_candidateId (at_candidate a) \<or> at_attemptIndex b = at_attemptIndex a"
  shows "b = a"
proof -
  let ?rows = "attempts_of db (at_requestId a)"
  have rows: "a \<in> set ?rows" "b \<in> set ?rows" using assms(2-4) by (simp_all add: attempts_of_def)
  have "request_ok ?rows (executions db (at_requestId a))" using assms(1) by (simp add: tables_ok_def)
  with rows have "map at_attemptIndex ?rows = map int [0..<length ?rows]" "distinct (map (\<lambda>a. fc_candidateId (at_candidate a)) ?rows)"
    by (auto simp: request_ok_def split: option.splits)
  moreover have "distinct (map int [0..<length ?rows])" by (simp add: distinct_map)
  ultimately have "distinct (map (\<lambda>a. fc_candidateId (at_candidate a)) ?rows)" "distinct (map at_attemptIndex ?rows)"
    by simp_all
  then have "inj_on (\<lambda>a. fc_candidateId (at_candidate a)) (set ?rows)" "inj_on at_attemptIndex (set ?rows)"
    by (simp_all add: distinct_map)
  with rows assms(5) show ?thesis by (auto dest: inj_onD)
qed

lemma filter_one: "distinct xs \<Longrightarrow> a \<in> set xs \<Longrightarrow> filter (\<lambda>b. b = a) xs = [a]"
  by (induction xs) (auto simp: filter_empty_conv)

lemma recorded_existing:
  assumes "recorded_claimless db c a" "tables_ok db"
  shows "existing_claimless db c = [a]"
proof -
  note here = assms(1) [unfolded recorded_claimless_def]
  note same = equivalent_columns [of a c]
  have "existing_claimless db c = filter (\<lambda>b. b = a) (attempts db)"
    unfolding existing_claimless_def using here same only_attempt [OF assms(2), of a] by (intro filter_cong) auto
  moreover have "distinct (attempts db)" using assms(2) by (simp add: tables_ok_def distinct_map)
  ultimately show ?thesis using here by (simp add: filter_one)
qed

lemma same_columns_equivalent:
  assumes "same_columns a b"
  shows "assertEquivalentCpaBasicAttempt b c = assertEquivalentCpaBasicAttempt a c"
proof -
  have frozen: "frozen_text b = frozen_text a" "frozen_flag b = frozen_flag a"
    using assms by (simp_all add: same_columns_def frozen_text_def frozen_flag_def fun_eq_iff)
  have "claimless_columns_match b c = claimless_columns_match a c"
    unfolding claimless_columns_match_def frozen using assms by (cases "cc_attemptId c") (simp_all add: same_columns_def)
  then show ?thesis unfolding assertEquivalentCpaBasicAttempt_def frozen by simp
qed

lemma recorded_stable:
  assumes "recorded_claimless db c a" "tables_ok db" "tables_ok db'" "evolves db db'"
  obtains b where "recorded_claimless db' c b" "at_id b = at_id a" "at_startedAt b = at_startedAt a"
proof -
  note here = assms(1) [unfolded recorded_claimless_def]
  then have "find_attempt db (at_id a) = Some a" by (simp add: find_attempt_unique [OF assms(2)])
  with assms(4) obtain b where b: "find_attempt db' (at_id a) = Some b" "same_columns a b"
    unfolding evolves_def row_evolves_def by blast
  from here obtain x where "find_replay (claimless_identity c) db = Inr (Some x)" by blast
  from replay_stable [OF assms(2,3,4) this] here b have "recorded_claimless db' c b"
    by (auto simp: recorded_claimless_def same_columns_equivalent find_attempt_unique [OF assms(3)])
  with b(2) show thesis by (intro that [of b]) (simp_all add: same_columns_def)
qed

lemma recorded_replays:
  assumes "recorded_claimless (ap_request s) c a" "tables_ok (ap_request s)" "claimless_shape c"
  shows "admitCpaBasicProviderInvocation lc w c now fresh s
    = Inr (\<lparr>cd_attemptId = at_id a, cd_startedAt = at_startedAt a, cd_replayed = True\<rparr>, s)"
proof -
  note here = assms(1) [unfolded recorded_claimless_def]
  from here obtain x where "find_replay (claimless_identity c) (ap_request s) = Inr (Some x)" by blast
  with here equivalent_columns [of a c] show ?thesis
    by (simp add: admitCpaBasicProviderInvocation_def assertCpaBasicAdmissionShape_def claimless_replay_def
        recorded_existing [OF assms(1,2)] assms(3) require_def tx_bind_def tx_lift_def reading_def rbind_def)
qed

lemma replayed_recorded:
  assumes "claimless_replay c db = Inr r"
  shows "\<exists>a. recorded_claimless db c a \<and> r = \<lparr>cd_attemptId = at_id a, cd_startedAt = at_startedAt a, cd_replayed = True\<rparr>"
proof -
  from assms obtain a x where found: "List.find (\<lambda>a. fc_candidateId (at_candidate a) = fc_candidateId (cc_candidate c)) (existing_claimless db c) = Some a"
    "assertEquivalentCpaBasicAttempt a c = Inr ()" "find_replay (claimless_identity c) db = Inr (Some x)"
    "r = \<lparr>cd_attemptId = at_id a, cd_startedAt = at_startedAt a, cd_replayed = True\<rparr>"
    by (auto simp: claimless_replay_def effects split: option.splits if_splits)
  from found(1) have "a \<in> set (existing_claimless db c)" by (auto simp: find_Some_iff)
  then have "a \<in> set (attempts db)" by (simp add: existing_claimless_def)
  with found(2-4) show ?thesis by (auto simp: recorded_claimless_def)
qed

lemma admitted_recorded:
  assumes ok: "app_ok s" and ref: "cc_attemptId c \<noteq> Some []"
    and run: "admitCpaBasicProviderInvocation lc w c now fresh s = Inr (r, t)"
  shows "\<exists>a. recorded_claimless (ap_request t) c a \<and> cd_attemptId r = at_id a \<and> cd_startedAt r = at_startedAt a"
  using run
proof (cases rule: claimless_Inr)
  case replay
  from replayed_recorded [OF this(3)] replay(1) show ?thesis by auto
next
  case (admitted m d stored db)
  note admits = claimless_admits [OF admitted(1-5)]
  have "\<exists>source. find_replay (claimless_identity c) db = Inr (Some (stored, source))"
    using admit_then_replay [OF _ claimless_typed [OF admitted(1)] admits(1)] ok by (simp add: app_ok_def)
  moreover from execute_decided [OF admitted(5) decided_admission [OF admitted(4)]] obtain source u where
    "persist_attempt (claimless_identity c) source u now m fresh (ap_request s) = Inr (stored, db)" by metis
  note row = persisted_row [OF this]
  ultimately have "recorded_claimless db c (new_attempt_row (claimless_identity c) (attempt_ref m fresh) u now m)"
    using new_claimless_equivalent [OF admitted(1) ref admitted(3)] find_attempt_Some [OF row(1)]
    by (auto simp: recorded_claimless_def)
  then show ?thesis using row(2)
    by (intro exI conjI) (assumption | simp add: admitted(6,7) new_attempt_row_def stored_of_command_def)+
qed

lemma claimless_shaped: "admitCpaBasicProviderInvocation lc w c now fresh s = Inr x \<Longrightarrow> claimless_shape c"
  by (auto simp: admitCpaBasicProviderInvocation_def assertCpaBasicAdmissionShape_def effects)

text \<open>
  C14: A claimless admission is idempotent for ever: once it has returned, the same command, repeated after any run
  and whatever the tables of the other packages hold by then, returns the same attempt marked as a replay and
  changes nothing, even when the attempt is settled or its request is over.
\<close>

theorem claimless_admission_replays:
  assumes "new_app start" "(app_step lc)\<^sup>*\<^sup>* start s" "cc_attemptId c \<noteq> Some []"
    and "admitCpaBasicProviderInvocation lc w c now fresh s = Inr (a, t)" "(app_step lc)\<^sup>*\<^sup>* t u"
  shows "admitCpaBasicProviderInvocation lc w' c now' fresh' u = Inr (a\<lparr>cd_replayed := True\<rparr>, u)"
proof -
  have ok: "app_ok s" by (rule invocation_books.reachable_inv [OF assms(1,2)])
  then have okt: "app_ok t" using claimless_good [OF assms(4)] by (simp add: app_good_def)
  have oku: "app_ok u" by (rule invocation_books.run_inv [OF assms(5) okt])
  have ev: "app_evolve t u" by (rule invocation_books.run_evolve [OF assms(5) okt])
  from admitted_recorded [OF ok assms(3,4)] obtain x where x: "recorded_claimless (ap_request t) c x"
    "cd_attemptId a = at_id x" "cd_startedAt a = at_startedAt x" by blast
  have "tables_ok (ap_request t)" "tables_ok (ap_request u)" "evolves (ap_request t) (ap_request u)"
    using okt oku ev by (simp_all add: app_ok_def app_evolve_def)
  from recorded_stable [OF x(1) this] obtain y where y: "recorded_claimless (ap_request u) c y"
    "at_id y = at_id x" "at_startedAt y = at_startedAt x" .
  from recorded_replays [OF y(1) \<open>tables_ok (ap_request u)\<close> claimless_shaped [OF assms(4)]] x(2,3) y(2,3)
  show ?thesis by (cases a) simp
qed

subsection \<open>Who is admitted\<close>

definition principal_current :: "claimless_world \<Rightarrow> claimless_command \<Rightarrow> timestamp \<Rightarrow> bool" where
  "principal_current w c now \<longleftrightarrow>
     (\<exists>p. cw_principals w (cc_apiKey c) = Some p \<and> pr_user p = cc_user c \<and> pr_userStatus p = ''enabled''
        \<and> pr_apiKeyStatus p = ''enabled'' \<and> pr_revokedAt p = None \<and> \<not> past (pr_expiresAt p) now)"

definition funded :: "claimless_command \<Rightarrow> plan_subscription \<Rightarrow> books \<Rightarrow> bool" where
  "funded c s b \<longleftrightarrow>
     su_planBillingMode s = ''prepaid'' \<and> given (cc_account c) = None
     \<or> su_planBillingMode s = ''paygo'' \<and> (\<exists>aid a. cc_account c = Some aid \<and> find_account b aid = Some a
          \<and> ca_scope a = ''user:'' @ cc_user c \<and> ca_status a = ''active'' \<and> 0 < ca_balance a)"

lemma given_Some: "given v = Some x \<Longrightarrow> v = Some x"
  by (cases v rule: given.cases) simp_all

lemma claimless_funding_iff: "claimless_funding c s b = Inr () \<Longrightarrow> funded c s b"
  by (auto simp: claimless_funding_def funded_def dest: given_Some split: option.splits if_splits)

text \<open>
  C25: An attempt is admitted without a claim only while its request is open and leased by the caller, for an enabled
  user with an enabled key, under an active subscription that the user may use and that is prepaid or paid from an
  active account of the user with a positive balance, and along a path that is enabled from end to end as it was
  frozen and leads to a ready Provider's enabled model. The admission leaves the books as they are.
\<close>

theorem claimless_admission_authorized:
  assumes "admitCpaBasicProviderInvocation lc w c now fresh s = Inr (a, t)" "\<not> cd_replayed a"
  shows "request_logs (ap_request s) (ai_requestId (cc_identity c)) = Some None
    \<and> (\<exists>l. leases (ap_request s) (ai_requestId (cc_identity c)) = Some l
          \<and> le_ownerId l = ai_executionOwnerId (cc_identity c) \<and> now < le_leaseUntil l)
    \<and> principal_current w c now
    \<and> (\<exists>sub. cw_subscriptions w (cc_subscription c) = Some sub \<and> su_lifecycle sub = ''active''
          \<and> su_effectiveStart sub \<le> now \<and> \<not> past (su_effectiveEnd sub) now
          \<and> may_use w (cc_user c) now (su_scopeRef sub) \<and> funded c sub (ap_books s))
    \<and> path_current w c
    \<and> (\<exists>p. cw_models w (fc_providerModelId (cc_candidate c)) = Some p \<and> pp_modelStatus p = ''enabled''
          \<and> pp_providerStatus p = ''enabled'' \<and> pp_bindingStatus p = ''ready'')
    \<and> ap_books t = ap_books s"
  using assms(1)
proof (cases rule: claimless_Inr)
  case replay
  from replayed_recorded [OF this(3)] assms(2) show ?thesis by auto
next
  case (admitted m d stored db)
  from admitted(3) obtain request sub p where checks:
    "claimless_request w c (ap_request s) = Inr request" "claimless_principal w c now = Inr ()"
    "claimless_source w c now = Inr sub" "assertCpaBasicSourceAuthorization w (su_scopeRef sub) (cc_user c) now = Inr ()"
    "claimless_funding c sub (ap_books s) = Inr ()" "claimless_path w c = Inr ()" "claimless_provider w c = Inr p"
    unfolding decide_claimless_def rbind_Inr_iff by auto
  have "request_logs (ap_request s) (ai_requestId (cc_identity c)) = Some None"
    using checks(1) by (auto simp: claimless_request_def split: option.splits if_splits)
  moreover have "\<exists>l. leases (ap_request s) (ai_requestId (cc_identity c)) = Some l
          \<and> le_ownerId l = ai_executionOwnerId (cc_identity c) \<and> now < le_leaseUntil l"
    using admitted(4) by (auto simp: inspect_new_def effects claimless_identity_def split: option.splits if_splits)
  moreover have "principal_current w c now"
    using checks(2) by (auto simp: claimless_principal_def principal_current_def split: option.splits if_splits)
  moreover have "cw_subscriptions w (cc_subscription c) = Some sub \<and> su_lifecycle sub = ''active''
          \<and> su_effectiveStart sub \<le> now \<and> \<not> past (su_effectiveEnd sub) now"
    using checks(3) by (auto simp: claimless_source_def split: option.splits if_splits)
  moreover have "cw_models w (fc_providerModelId (cc_candidate c)) = Some p \<and> pp_modelStatus p = ''enabled''
          \<and> pp_providerStatus p = ''enabled'' \<and> pp_bindingStatus p = ''ready''"
    using checks(7) by (auto simp: claimless_provider_def split: option.splits if_splits)
  ultimately show ?thesis
    using checks(4) claimless_funding_iff [OF checks(5)] claimless_path_current [OF checks(6)]
    by (auto simp: source_authorization admitted(7))
qed

subsection \<open>An admission\<close>

text \<open>The request of \<^const>\<open>demo_leased\<close>, admitted without a claim for a member of a partner team.\<close>

definition claimless_demo :: claimless_command where
  "claimless_demo =
     \<lparr>cc_attemptId = None, cc_identity = am_identity demo_command, cc_planId = ''plan'', cc_subscription = ''sub'', cc_apiKey = ''key'',
      cc_user = ''user'', cc_serviceTier = ''standard'', cc_requireServiceTier = False, cc_source = From_access_point,
      cc_priceId = ''price'', cc_costId = ''cost'', cc_accessPointPriceIds = [''price''], cc_account = Some ''acct''\<rparr>"

definition claimless_demo_world :: claimless_world where
  "claimless_demo_world =
     \<lparr>cw_requests = [''req'' \<mapsto> \<lparr>rq_apiKey = ''key'', rq_user = ''user'', rq_planId = Some ''plan'', rq_subscription = Some ''sub'',
        rq_entryAccessPoint = Some ''ap'', rq_billingScopeRef = Some ''team:a''\<rparr>],
      cw_principals = [''key'' \<mapsto> \<lparr>pr_user = ''user'', pr_userStatus = ''enabled'', pr_apiKeyStatus = ''enabled'',
        pr_revokedAt = None, pr_expiresAt = Some 99\<rparr>],
      cw_subscriptions = [''sub'' \<mapsto> demo_subscription],
      cw_teams = [''a'' \<mapsto> \<lparr>tm_ownerId = ''boss'', tm_status = ''enabled''\<rparr>],
      cw_deletions = [\<lparr>dl_team = ''a'', dl_cancelledAt = Some 1, dl_purgedAt = None\<rparr>],
      cw_memberships = [(''a'', ''user'')],
      cw_partners = [\<lparr>pn_team = ''a'', pn_lifecycle = ''active'', pn_effectiveStart = 0, pn_effectiveEnd = 50, pn_partnerPlanId = ''pp'',
        pn_supportPlanId = ''pp'', pn_supportScopeRef = ''team:a'', pn_supportLifecycle = ''active'', pn_supportEffectiveStart = 0,
        pn_supportEffectiveEnd = None\<rparr>],
      cw_planAccessPoints = [(''plan'', ''ap'')],
      cw_accessPoints = [''ap'' \<mapsto> \<lparr>xp_scopeRef = ''team:s'', xp_status = ''enabled'', xp_removedAt = None, xp_selectorId = ''direct'',
        xp_selectorBehaviorVersion = 1, xp_routingRevision = 3\<rparr>],
      cw_targets = [''edge'' \<mapsto> \<lparr>tg_edge = \<lparr>pe_accessPoint = ''ap'', pe_targetType = ''provider-model'', pe_targetAccessPoint = None,
          pe_targetProvider = Some ''p'', pe_targetModelName = Some ''m'', pe_targetModel = Some ''pm''\<rparr>,
        tg_status = ''enabled'', tg_removedAt = None\<rparr>],
      cw_models = [''pm'' \<mapsto> \<lparr>pp_providerId = ''p'', pp_modelName = ''m'', pp_modelStatus = ''enabled'', pp_providerStatus = ''enabled'',
          pp_ownerScopeRef = ''team:s'', pp_bindingStatus = ''ready''\<rparr>],
      cw_prices = aw_prices demo_world\<rparr>"

lemma claimless_demo_decided:
  "\<exists>m. decide_claimless demo_lc claimless_demo_world claimless_demo 10 (ap_request demo_leased) (ap_books demo_leased) = Inr m
     \<and> pm_providerAttemptRef m = None"
proof -
  let ?w = claimless_demo_world and ?c = claimless_demo
  have request: "\<exists>r. claimless_request ?w ?c (ap_request demo_leased) = Inr r \<and> rq_billingScopeRef r = Some ''team:a''"
    by (simp add: claimless_request_def claimless_demo_world_def claimless_demo_def demo_command_def demo_routing_def entry_of_def
        demo_leased_def demo_funded_def demo_start_def)
  have principal: "claimless_principal ?w ?c 10 = Inr ()" by code_simp
  have source: "claimless_source ?w ?c 10 = Inr demo_subscription" "su_scopeRef demo_subscription = ''team:a''"
    by (simp_all add: claimless_source_def claimless_demo_world_def claimless_demo_def demo_subscription_def past_def)
  have authorized: "assertCpaBasicSourceAuthorization ?w ''team:a'' (cc_user ?c) 10 = Inr ()" by code_simp
  have account: "claimless_funding ?c demo_subscription (ap_books demo_leased) = Inr ()" by code_simp
  have path: "claimless_path ?w ?c = Inr ()" by code_simp
  have prices: "claimless_prices ?w ?c = Inr ()" by code_simp
  obtain p where provider: "claimless_provider ?w ?c = Inr p"
    by (simp add: claimless_provider_def claimless_demo_world_def claimless_demo_def demo_command_def)
  let ?x = "\<lparr>px_accessPoint = ''ap'', px_target = None, px_buyer = ''team:a'', px_seller = ''team:s'', px_priceId = ''price''\<rparr>"
  have contexts: "price_contexts (claimless_facts ?w ?c owner) ''team:a'' (zip (cc_chain ?c) (zip (cc_path ?c) (cc_accessPointPriceIds ?c)))
      = Inr [?x]" for owner
    by (simp add: claimless_facts_def claimless_demo_world_def claimless_demo_def demo_command_def demo_routing_def rbind_def)
  have profile: "\<exists>json. encodeFrozenPriceProfile demo_lc demo_price = Inr json"
    by (simp add: encodeFrozenPriceProfile_def demo_price_def validatedFrozenUnits_def BILLING_MAX_INT64_def rbind_def)
  have "\<exists>t. prepareClaimlessInvocationBillingFinancialTerms demo_lc (cw_prices ?w) (claimless_terms_input ?c [?x]) = Inr t"
    using profile
    by (auto simp: prepareClaimlessInvocationBillingFinancialTerms_def billed_price_def loadInvocationPriceRows_def provider_cost_def
        context_price_def claimless_terms_input_def claimless_demo_world_def claimless_demo_def demo_command_def demo_world_def rbind_def)
  then obtain t where terms: "prepareClaimlessInvocationBillingFinancialTerms demo_lc (cw_prices ?w) (claimless_terms_input ?c [?x]) = Inr t"
    by blast
  have "cc_attemptId ?c = None" by (simp add: claimless_demo_def)
  with request show ?thesis
    by (auto simp: decide_claimless_def principal source authorized account path provider prices contexts terms require_def rbind_def
        claimless_material_def)
qed

lemma claimless_demo_admits:
  "\<exists>t. admitCpaBasicProviderInvocation demo_lc claimless_demo_world claimless_demo 10 ''att'' demo_leased
     = Inr (\<lparr>cd_attemptId = ''att'', cd_startedAt = 10, cd_replayed = False\<rparr>, t)"
proof -
  from claimless_demo_decided obtain m where m: "pm_providerAttemptRef m = None"
    "decide_claimless demo_lc claimless_demo_world claimless_demo 10 (ap_request demo_leased) (ap_books demo_leased) = Inr m" by blast
  have shape: "claimless_shape claimless_demo" by code_simp
  have none: "existing_claimless (ap_request demo_leased) claimless_demo = []"
    by (simp add: existing_claimless_def demo_leased_def demo_funded_def demo_start_def)
  have inspect: "inspect_new (claimless_kind claimless_demo) (claimless_identity claimless_demo) 10 (Some None) (ap_request demo_leased)
      = Inr (Admit_first 30005 ''sub'')" by code_simp
  have kind: "decided_as (claimless_kind claimless_demo) (Admit_first 30005 ''sub'')" by code_simp
  have "\<exists>db. execute_admission (claimless_identity claimless_demo) (Admit_first 30005 ''sub'') 10 m ''att'' (ap_request demo_leased)
      = Inr (stored_of_command (claimless_identity claimless_demo) ''att'' 10, db)"
    by (simp add: execute_admission_def persist_attempt_def tx_bind_def tx_return_def insert_execution_def create_attempt_def
        update_execution_def demo_leased_def demo_funded_def demo_start_def m(1) Let_def rbind_def)
  then show ?thesis
    by (auto simp: admitCpaBasicProviderInvocation_def assertCpaBasicAdmissionShape_def shape none m(2) inspect kind
        tx_bind_def tx_lift_def tx_return_def reading_def on_request_def rbind_def require_def stored_of_command_def)
qed

text \<open>After the admission the request ends; its admission is repeated all the same.\<close>

theorem claimless_admission_replays_witness:
  "\<exists>u. request_logs (ap_request u) ''req'' = Some (Some 99)
     \<and> admitCpaBasicProviderInvocation demo_lc (claimless_demo_world\<lparr>cw_accessPoints := Map.empty\<rparr>) claimless_demo 100 ''other'' u
         = Inr (\<lparr>cd_attemptId = ''att'', cd_startedAt = 10, cd_replayed = True\<rparr>, u)"
proof -
  from claimless_demo_admits obtain t where t: "admitCpaBasicProviderInvocation demo_lc claimless_demo_world claimless_demo 10 ''att'' demo_leased
     = Inr (\<lparr>cd_attemptId = ''att'', cd_startedAt = 10, cd_replayed = False\<rparr>, t)" by blast
  let ?u = "t\<lparr>ap_request := (ap_request t)\<lparr>request_logs := [''req'' \<mapsto> Some 99]\<rparr>\<rparr>"
  have "(app_step demo_lc)\<^sup>*\<^sup>* t ?u" by (rule r_into_rtranclp) (rule app_step.request_log)
  from claimless_admission_replays [OF demo_new demo_reaches_leased _ t this] show ?thesis
    by (intro exI [of _ ?u]) (simp add: claimless_demo_def)
qed

theorem claimless_admission_authorized_witness:
  "may_use claimless_demo_world ''user'' 10 ''team:a'' \<and> path_current claimless_demo_world claimless_demo"
proof -
  from claimless_demo_admits obtain t where t: "admitCpaBasicProviderInvocation demo_lc claimless_demo_world claimless_demo 10 ''att'' demo_leased
     = Inr (\<lparr>cd_attemptId = ''att'', cd_startedAt = 10, cd_replayed = False\<rparr>, t)" by blast
  have "cw_subscriptions claimless_demo_world (cc_subscription claimless_demo) = Some demo_subscription" "cc_user claimless_demo = ''user''"
    "su_scopeRef demo_subscription = ''team:a''"
    by (simp_all add: claimless_demo_world_def claimless_demo_def demo_subscription_def)
  with claimless_admission_authorized [OF t] show ?thesis by auto
qed

end
