(* ===== verification/Spec2Isabelle.thy ===== *)
theory Spec2Isabelle
  imports Core_Selectors Billing_Invocation Routing_Kernel Provider_Evidence Execution_Runs Risk_State Shadow_Guard Pipeline_Plans Cliproxy_Transport Commerce_Theorems Claimless_Theorems
begin

text \<open>
  A verification development for the request path of Frely: how a request chooses a Provider, how
  the attempts on Providers are recorded and settled, what they cost, how risk is limited, and how
  the plugins of the gateway are ordered and confined.

  The parts of the program and their theories (paths under \<open>src/packages/\<close>):

  \<^item> \<open>Core_Selectors\<close>: \<open>core/src/access-point-selectors.ts\<close>, the rules \<open>direct\<close> and \<open>ordered-fallback\<close>
    that decide the next candidate of an AccessPoint from the attempts made so far.
  \<^item> \<open>Routing_Kernel\<close>: \<open>model-access/src/routing-kernel.ts\<close>, which compiles a graph of AccessPoints into
    a routing plan under a work budget, evaluates it against an availability snapshot, and asks the
    rules for the next candidate.
  \<^item> \<open>Provider_Evidence\<close>: \<open>provider-runtime/src/index.ts\<close>, the parsers of what a Provider reports about
    an attempt.
  \<^item> \<open>Request_Execution\<close>, \<open>Execution_Admission\<close>, \<open>Execution_Invariants\<close>, \<open>Execution_Runs\<close>:
    \<open>request-execution/src/{domain,contracts,server}.ts\<close>, the tables of executions, leases and Provider
    attempts and every command on them; of the guards of the database, the unique keys and the trigger
    \<open>friday_relay_validate_provider_attempt_terminal\<close> of
    \<open>postgres/prisma/migrations/20260831000000_add_provider_credential_failure_reason\<close>.
  \<^item> \<open>Billing_Invocation\<close>: \<open>billing/src/invocation-domain.ts\<close>, the charge of an attempt in integer
    micro-units and the price snapshots frozen at its admission.
  \<^item> \<open>Billing_Books\<close>, \<open>Billing_Terms\<close>: \<open>billing/src/{server,invocation-contracts}.ts\<close> and the triggers of
    \<open>postgres/prisma/migrations/20260824005000_modernization_04_billing_kernel_closure\<close>: the claim, the hold, the charge and the records of an attempt,
    the budgets, and the terms frozen with it.
  \<^item> \<open>Billing_Commands\<close>: \<open>application/src/storage/provider-invocation/commands.ts\<close>, the transactions that write
    the execution tables and the books together. \<open>Billing_Settlement\<close> has the effect of each operation on the
    books and their invariant, \<open>Billing_Runs\<close> the runs of all commands beside the other writers, \<open>Billing_Evidence\<close> what
    is frozen with an attempt, \<open>Billing_Example\<close> a run, \<open>Billing_Theorems\<close> the theorems.
  \<^item> \<open>Billing_Claimless\<close>, \<open>Claimless_Theorems\<close>: in the same file, the admission of an attempt that occupies no budget,
    with everything it checks again: request, key, user, subscription, team, account, path and prices.
  \<^item> \<open>Commerce\<close>, \<open>Commerce_Payments\<close>: \<open>billing/src/commerce.ts\<close>, products and their versions, purchases, refunds
    and the payment of plans, on the books of billing and the tables of sellers, with the trigger and the unique
    keys of \<open>postgres/prisma/migrations/20260813000000_postgresql_baseline\<close>; and the release of a purchase to its
    seller, \<open>releaseDueSellerSettlements\<close> of \<open>application/src/storage/postgres-application-operations.ts\<close>. \<open>Commerce_Runs\<close> has the runs of its commands
    beside those of billing, and the invariant that ties a purchase to its money, \<open>Commerce_Example\<close> a run,
    \<open>Commerce_Theorems\<close> the theorems.
  \<^item> \<open>Risk_State\<close>: \<open>application/src/storage/postgres-risk-state.ts\<close>, the shared reservations that limit
    requests in flight, starts and cost exposure.
  \<^item> \<open>Shadow_Guard\<close>: \<open>gateway/src/production-shadow-risk-guard.ts\<close>, the guard of one process, which keeps its
    state in a file, and its leases, each of which is closed once; with a clock that does not go back it is
    shown to be a ledger of all reservations that forgets nothing it needs.
  \<^item> \<open>Pipeline_Context\<close>, \<open>Pipeline_Kernel\<close>, \<open>Pipeline_Compiler\<close>, \<open>Pipeline_Plans\<close>:
    \<open>gateway/src/pipeline/{contracts,context,kernel,compiler}.ts\<close>, the plugins of the gateway: validation,
    the order of their hooks, and the session that runs them. What hooks share are references to objects
    of a store, which publishing freezes as shallowly as the code does.
  \<^item> \<open>Streaming_Json\<close>, \<open>Sse_Scanner\<close>: \<open>providers/src/cliproxy/{streaming-json,sse}.ts\<close>, the event stream of a
    Provider, recognised byte by byte, and the JSON values built from it while it comes.
  \<^item> \<open>Cliproxy_Errors\<close>, \<open>Cliproxy_Transport\<close>: \<open>providers/src/cliproxy/{errors,transport,client}.ts\<close>, the
    adapter of a Provider: its payload, the request of the client, the classification of what fails, and the
    answer or stream.
  \<^item> \<open>Frely_Prelude\<close>, \<open>Js_Json\<close>: JavaScript values, errors as values, methods that mutate and may throw,
    stable sorting, character classes; \<open>JSON.parse\<close> and \<open>JSON.stringify\<close>.

  How they interact. A request enters a pipeline session; a plan of the compiler says which hooks
  run and in which order. The routing plan of its AccessPoint gives candidates; each attempt on a
  candidate is admitted, dispatched, finalized or reconciled on the execution tables; its evidence is
  parsed, from a stream only where the adapter found it, an arbiter decides on a fallback, and the selectors choose the next candidate from the
  recorded attempts. Admission, dispatch, settlement and reconciliation of an attempt write its billing in the same
  transaction: \<open>billing_occupation_exact\<close> says that the books and the attempts table agree, \<open>ledger_charges_exact\<close> that
  the ledger holds each charge once. What commerce posts for a purchase, a refund or a plan goes to the same books:
  \<open>purchase_money_exact\<close> says that the buyer pays the price once, or gets it back after a refund, and that the
  seller is paid out the price once the hold is over, at most once and never after a refund. The theorems follow these seams: \<open>routing_run_bounded\<close> composes the kernel with
  the selectors, \<open>provider_stream_evidence\<close> the scanner, the JSON
  parser and the evidence parser with the adapter, \<open>failure_report_arbitration\<close> the parser with the arbiter,
  \<open>frozen_profile_selection\<close> the freezing of a price with its use at settlement, and
  \<open>compiled_plan_executes\<close> the compiler with the session.

  How the code is modelled. A class with state is a record, and a method a function from the state
  to a result and a state, so that what a method wrote before it threw stays written. A thrown error is a
  value (\<open>RelayError\<close> with its code, status and details, \<open>PlainError\<close> with the fixed part of its
  message). A transaction of the database is one action on the tables, which is what its row locks
  give; a transaction that throws is rolled back. Loops that need not end for structural reasons
  carry their measure: the length of a path bounds the compilation of routes, the pending nodes bound
  the topological sort; the JSON parser takes fuel, the length of its input, and its round trip proves it
  enough; a value is read from its cells with the number of cells as fuel, and \<open>streaming_json_exact\<close> proves
  that enough. Code that the repository does not hold is a parameter: \<open>localeCompare\<close> (\<open>lc\<close>), the
  clock of a work budget, the SHA-256 digest, the decoder of UTF-8, the JSON tokenizer, the functions of a plugin, what upstream streams and ports
  answer, and the network, with the signal that aborts a request.

  What the lemmas show. \<open>Frely_Prelude\<close> states four contracts as locales: \<open>invariant_system\<close> (steps
  keep an invariant), \<open>evolving_system\<close> (steps also relate the states before and after, by a relation
  that composes), \<open>lease_store\<close> (what a holder keeps while others act) and \<open>simulation\<close> (two systems that
  answer alike). They are interpreted on the
  execution tables (\<open>request_tables\<close>, \<open>execution_leases\<close>), the risk reservations (\<open>risk_guard\<close>), the file of
  the process guard (\<open>shadow_ledger\<close>), the commands on both the execution tables and the books (\<open>invocation_books\<close>), these beside the commands of commerce (\<open>commerce_market\<close>), and the pipeline sessions (\<open>pipeline_sessions\<close>), and the theorems on reachable states rest on their facts.

  Conventions and bounds. A string is a list of code units below 256. \<open>0\<close> and \<open>-0\<close> are one number.
  Timestamps are integers of milliseconds up to the year 9999, as the code checks them. Sums of safe
  integers that the code forms are exact in doubles where they are compared. Equality of two values by
  their \<open>JSON.stringify\<close> texts is equality of the lists that are printed. The identity of an object that
  the code compares with \<open>===\<close> is a field where it matters (\<open>ck_object\<close>). A pipeline session runs one
  method at a time; a hook is a program over the operations offered to it and over objects, and whether an abort or a
  timeout wins the race against it, and after which operation, is chosen by its environment.

  In the runs of billing a claimless attempt is admitted by its own command or by the command of the request
  execution package with any frozen material. Identifiers that a command draws are its
  arguments, and unique keys reject those that are used. The other packages that post to the ledger are steps of
  the environment, which give an entry with the balance it moves. In the runs of commerce these entries name a known
  account and no purchase, and what commerce posts is shown to be such a step of billing; the release
  of a purchase to its seller is a command of these runs, and the other events of sellers, those of subscriptions, are
  steps of the environment that name no purchase.

  Not modelled: the CHECK constraints and foreign keys of the tables and the insert triggers of the execution tables,
  which can refuse the rows of an admission and then leave everything as it was, the HTTP servers, the SQL of the
  application storage (\<open>application/src/storage\<close>, but for the risk reservations, the invocation commands and the release
  of purchases to sellers), the
  queries of billing and commerce, the commands of commerce on price tables, tenancy and identity, the capture archives, the database tooling, the command line and web interfaces.
  They are input and output around the components above, or large sets of SQL commands without the shared
  invariants that make the execution tables and the reservations worth proving.
\<close>

end
